(* ===== verification/Hub_Prelude.thy ===== *)
theory Hub_Prelude
  imports Main "HOL-Library.List_Lexorder" "HOL-Library.Char_ord" "HOL-Library.Word"
begin

text \<open>
  The shared base of the development: JavaScript string helpers restricted to the code units
  the program compares, the UUID pattern every service uses, JSON payloads of audit events, and
  a small library of relational tables. A table is a list of rows in insertion order;
  \<open>tbl_update\<close> is \<open>UPDATE .. SET .. WHERE\<close>, \<open>tbl_returning\<close> the rows its \<open>RETURNING\<close>
  clause yields, \<open>find\<close> is \<open>SELECT .. LIMIT 1\<close>, and \<open>run_tx\<close> runs a transaction body
  whose failure rolls the state back. The locale \<open>row_claim\<close> is the interface of the
  compare-and-set updates by which the services claim a row.
\<close>

named_theorems row_frames "which fields of which rows an operation leaves unchanged"
named_theorems tx_simps "unfolding rules of transaction bodies"

section \<open>Types shared by all components\<close>

type_synonym uuid = string
type_synonym millis = int
type_synonym bytes = "8 word list"

text \<open>JSON values, the payload type of audit events.\<close>

datatype json =
    JNull
  | JBool bool
  | JNum int
  | JStr string
  | JArr "json list"
  | JObj "(string \<times> json) list"

section \<open>Strings\<close>

text \<open>
  A \<open>char\<close> stands for one UTF-16 code unit below 256. \<open>lower_char\<close> is \<open>toLowerCase\<close> on
  these code units, \<open>is_space\<close> the white space and line terminators \<open>trim\<close> removes.
\<close>

definition char_code :: "char \<Rightarrow> nat" where
  "char_code c = of_char c"

definition lower_char :: "char \<Rightarrow> char" where
  "lower_char c =
     (let n = char_code c
      in if (65 \<le> n \<and> n \<le> 90) \<or> (192 \<le> n \<and> n \<le> 222 \<and> n \<noteq> 215) then char_of (n + 32) else c)"

definition to_lower :: "string \<Rightarrow> string" where
  "to_lower s = map lower_char s"

definition is_space :: "char \<Rightarrow> bool" where
  "is_space c = (let n = char_code c in (9 \<le> n \<and> n \<le> 13) \<or> n = 32 \<or> n = 160)"

definition trim_string :: "string \<Rightarrow> string" where
  "trim_string s = rev (dropWhile is_space (rev (dropWhile is_space s)))"

definition is_hex :: "char \<Rightarrow> bool" where
  "is_hex c =
     (let n = char_code c
      in (48 \<le> n \<and> n \<le> 57) \<or> (97 \<le> n \<and> n \<le> 102) \<or> (65 \<le> n \<and> n \<le> 70))"

text \<open>Groups of hexadecimal digits of the given lengths, separated by hyphens.\<close>

fun hex_groups :: "nat list \<Rightarrow> string \<Rightarrow> bool" where
  "hex_groups [] s = False"
| "hex_groups [n] s = (length s = n \<and> list_all is_hex s)"
| "hex_groups (n # m # ns) s =
     (n < length s \<and> list_all is_hex (take n s) \<and> s ! n = CHR 0x2D \<and>
      hex_groups (m # ns) (drop (Suc n) s))"

text \<open>The pattern \<open>UUID_PATTERN\<close>, which every service declares for itself with the \<open>i\<close> flag.\<close>

definition is_uuid :: "string \<Rightarrow> bool" where
  "is_uuid s = hex_groups [8, 4, 4, 4, 12] s"

section \<open>Tables\<close>

definition tbl_update :: "('r \<Rightarrow> bool) \<Rightarrow> ('r \<Rightarrow> 'r) \<Rightarrow> 'r list \<Rightarrow> 'r list" where
  "tbl_update P f t = map (\<lambda>r. if P r then f r else r) t"

definition tbl_returning :: "('r \<Rightarrow> bool) \<Rightarrow> ('r \<Rightarrow> 'r) \<Rightarrow> 'r list \<Rightarrow> 'r list" where
  "tbl_returning P f t = map f (filter P t)"

definition tbl_count :: "('r \<Rightarrow> bool) \<Rightarrow> 'r list \<Rightarrow> int" where
  "tbl_count P t = int (length (filter P t))"

text \<open>A claiming update: the first row its \<open>RETURNING\<close> clause yields, and the table after it.\<close>

definition claim_first ::
    "('r \<Rightarrow> bool) \<Rightarrow> ('r \<Rightarrow> 'r) \<Rightarrow> 'r list \<Rightarrow> 'r option \<times> 'r list" where
  "claim_first P f t =
     (case tbl_returning P f t of [] \<Rightarrow> None | r # _ \<Rightarrow> Some r, tbl_update P f t)"

text \<open>Descending with nulls last, as an ascending key.\<close>

definition desc_nulls_last :: "int option \<Rightarrow> nat \<times> int" where
  "desc_nulls_last x = (case x of None \<Rightarrow> (1, 0) | Some n \<Rightarrow> (0, - n))"

section \<open>Transactions\<close>

text \<open>
  A transaction body either fails, and nothing of it commits, or returns a value with the
  committed state. A handler returns its error or value with the state it left behind.
\<close>

type_synonym ('s, 'e, 'a) tx = "'s \<Rightarrow> 'e + 'a \<times> 's"
type_synonym ('s, 'e, 'a) outcome = "('e + 'a) \<times> 's"

definition run_tx :: "('s, 'e, 'a) tx \<Rightarrow> 's \<Rightarrow> ('s, 'e, 'a) outcome" where
  "run_tx body s = (case body s of Inl e \<Rightarrow> (Inl e, s) | Inr (a, s') \<Rightarrow> (Inr a, s'))"

text \<open>
  The two ways a handler leaves early: \<open>attempt\<close> passes an error on, \<open>require\<close> raises one where
  a check does not hold.
\<close>

definition attempt :: "'e + 'a \<Rightarrow> ('a \<Rightarrow> 'e + 'b) \<Rightarrow> 'e + 'b" where
  "attempt x f = (case x of Inl e \<Rightarrow> Inl e | Inr a \<Rightarrow> f a)"

definition require :: "bool \<Rightarrow> 'e \<Rightarrow> 'e + 'b \<Rightarrow> 'e + 'b" where
  "require P e k = (if P then k else Inl e)"

text \<open>\<open>[...new Set(xs)]\<close>: the distinct elements in the order of their first occurrence.\<close>

definition distinct_in_order :: "'a list \<Rightarrow> 'a list" where
  "distinct_in_order xs = rev (remdups (rev xs))"

section \<open>Lemmas\<close>

lemma attempt_simps [simp]: "attempt (Inl e) f = Inl e" "attempt (Inr a) f = f a"
  by (simp_all add: attempt_def)

lemma attempt_eq_Inr [tx_simps]: "attempt x f = Inr b \<longleftrightarrow> (\<exists>a. x = Inr a \<and> f a = Inr b)"
  by (cases x) simp_all

lemma attempt_eq_Inl: "attempt x f = Inl e \<longleftrightarrow> x = Inl e \<or> (\<exists>a. x = Inr a \<and> f a = Inl e)"
  by (cases x) simp_all

lemma require_simps [simp]: "require True e k = k" "require False e k = Inl e"
  by (simp_all add: require_def)

lemma require_eq_Inr [tx_simps]: "require P e k = Inr b \<longleftrightarrow> P \<and> k = Inr b"
  by (cases P) simp_all

lemma require_eq_Inl: "require P e k = Inl e' \<longleftrightarrow> \<not> P \<and> e' = e \<or> P \<and> k = Inl e'"
  by (cases P) auto

lemma attempt_cong [fundef_cong]:
  "x = x' \<Longrightarrow> (\<And>a. x' = Inr a \<Longrightarrow> f a = g a) \<Longrightarrow> attempt x f = attempt x' g"
  by (cases x') simp_all

lemma require_cong [fundef_cong, cong]:
  "P = P' \<Longrightarrow> (P' \<Longrightarrow> k = k') \<Longrightarrow> require P e k = require P' e k'"
  by (cases P') simp_all

lemma is_uuid_length: "is_uuid s \<Longrightarrow> length s = 36"
  by (auto simp: is_uuid_def)

lemma length_to_lower [simp]: "length (to_lower s) = length s"
  by (simp add: to_lower_def)

lemma lower_char_idem [simp]: "lower_char (lower_char c) = lower_char c"
proof -
  have b: "of_char c < (256 :: nat)"
    using nat_of_char_less_256 by simp
  show ?thesis
    using b by (auto simp: lower_char_def char_code_def Let_def)
qed

lemma to_lower_idem [simp]: "to_lower (to_lower s) = to_lower s"
  by (simp add: to_lower_def)

lemma dropWhile_no_start: "dropWhile P (dropWhile P s) = dropWhile P s"
  by (induction s) auto

lemma trim_string_nonspace_id:
  assumes "\<forall>c \<in> set s. \<not> is_space c"
  shows "trim_string s = s"
proof -
  have d: "dropWhile is_space t = t" if "\<forall>c \<in> set t. \<not> is_space c" for t
    using that by (cases t) auto
  show ?thesis using assms by (simp add: trim_string_def d)
qed

lemma hex_not_space: "is_hex c \<Longrightarrow> \<not> is_space c"
  by (auto simp: is_hex_def is_space_def Let_def)

lemma hex_groups_no_space: "hex_groups ns s \<Longrightarrow> c \<in> set s \<Longrightarrow> \<not> is_space c"
proof (induction ns s rule: hex_groups.induct)
  case (1 s)
  then show ?case by simp
next
  case (2 n s)
  then show ?case by (auto simp: list_all_iff hex_not_space)
next
  case (3 n m ns s)
  then have split: "s = take n s @ s ! n # drop (Suc n) s"
    by (metis hex_groups.simps(3) id_take_nth_drop)
  have hyphen: "\<not> is_space (CHR 0x2D)"
    by (simp add: is_space_def char_code_def)
  from 3(3) split have "c \<in> set (take n s) \<or> c = s ! n \<or> c \<in> set (drop (Suc n) s)"
    by (metis Un_iff set_ConsD set_append)
  with 3 hyphen show ?case by (auto simp: list_all_iff hex_not_space)
qed

lemma trim_uuid: "is_uuid s \<Longrightarrow> trim_string s = s"
  by (rule trim_string_nonspace_id) (auto simp: is_uuid_def dest: hex_groups_no_space simp del: hex_groups.simps)

lemma is_hex_lower: "is_hex (lower_char c) = is_hex c"
proof -
  have b: "of_char c < (256 :: nat)"
    using nat_of_char_less_256 by simp
  show ?thesis
    using b by (auto simp: is_hex_def lower_char_def char_code_def Let_def)
qed

lemma char_of_nat_45: "char_of (45 :: nat) = CHR 0x2D"
  by code_simp

lemma lower_hyphen: "(lower_char c = CHR 0x2D) = (c = CHR 0x2D)"
proof -
  have b: "of_char c < (256 :: nat)"
    using nat_of_char_less_256 by simp
  have "lower_char c = CHR 0x2D \<Longrightarrow> c = CHR 0x2D"
  proof -
    assume a: "lower_char c = CHR 0x2D"
    then have "of_char (lower_char c) = (45 :: nat)" by simp
    with b have "of_char c = (45 :: nat)"
      by (auto simp: lower_char_def char_code_def Let_def split: if_splits)
    then show "c = CHR 0x2D"
      by (metis char_of_char char_of_nat_45)
  qed
  moreover have "c = CHR 0x2D \<Longrightarrow> lower_char c = CHR 0x2D"
    by (simp add: lower_char_def char_code_def)
  ultimately show ?thesis by blast
qed

lemma hex_groups_lower: "hex_groups ns (to_lower s) = hex_groups ns s"
proof (induction ns s rule: hex_groups.induct)
  case (3 n m ns s)
  then show ?case
    by (auto simp: to_lower_def list_all_iff is_hex_lower take_map drop_map lower_hyphen)
qed (auto simp: to_lower_def list_all_iff is_hex_lower)

lemma is_uuid_lower [simp]: "is_uuid (to_lower s) = is_uuid s"
  unfolding is_uuid_def by (rule hex_groups_lower)

subsection \<open>Tables\<close>

lemma length_tbl_update [simp]: "length (tbl_update P f t) = length t"
  by (simp add: tbl_update_def)

lemma tbl_update_Nil [simp]: "tbl_update P f [] = []"
  by (simp add: tbl_update_def)

lemma tbl_update_Cons [simp]:
  "tbl_update P f (r # t) = (if P r then f r else r) # tbl_update P f t"
  by (simp add: tbl_update_def)

lemma tbl_returning_Nil [simp]: "tbl_returning P f [] = []"
  by (simp add: tbl_returning_def)

lemma tbl_returning_Cons [simp]:
  "tbl_returning P f (r # t) = (if P r then f r # tbl_returning P f t else tbl_returning P f t)"
  by (simp add: tbl_returning_def)

lemma in_tbl_update: "r \<in> set (tbl_update P f t) \<longleftrightarrow>
    (\<exists>x \<in> set t. r = (if P x then f x else x))"
  by (auto simp: tbl_update_def)

lemma map_tbl_update_frame: "(\<And>r. P r \<Longrightarrow> g (f r) = g r) \<Longrightarrow> map g (tbl_update P f t) = map g t"
  by (simp add: tbl_update_def)

lemma tbl_update_no_match: "\<forall>r \<in> set t. \<not> P r \<Longrightarrow> tbl_update P f t = t"
  by (induction t) auto

lemma tbl_returning_empty_iff: "tbl_returning P f t = [] \<longleftrightarrow> (\<forall>r \<in> set t. \<not> P r)"
  by (auto simp: tbl_returning_def filter_empty_conv)

lemma tbl_returning_empty_update: "tbl_returning P f t = [] \<Longrightarrow> tbl_update P f t = t"
  by (simp add: tbl_returning_empty_iff tbl_update_no_match)

lemma find_tbl_update_frame:
  assumes "\<And>r. P r \<Longrightarrow> Q (f r) = Q r"
  shows "find Q (tbl_update P f t) = map_option (\<lambda>r. if P r then f r else r) (find Q t)"
  using assms by (induction t) auto

lemma find_in_set: "find Q t = Some r \<Longrightarrow> r \<in> set t \<and> Q r"
  by (auto simp: find_Some_iff)

lemma find_by_key_unique:
  assumes "distinct (map k t)" and "r \<in> set t"
  shows "find (\<lambda>x. k x = k r) t = Some r"
  using assms by (induction t) (auto simp: image_iff)

lemma find_key_eq_unique:
  assumes "distinct (map k t)" and "find (\<lambda>x. k x = i) t = Some r" and "x \<in> set t" and "k x = i"
  shows "x = r"
proof -
  from assms(1,3) have "find (\<lambda>y. k y = k x) t = Some x" by (rule find_by_key_unique)
  with assms(2,4) show ?thesis by simp
qed

lemma run_tx_Inl: "body s = Inl e \<Longrightarrow> run_tx body s = (Inl e, s)"
  by (simp add: run_tx_def)

lemma run_tx_Inr: "body s = Inr (a, s') \<Longrightarrow> run_tx body s = (Inr a, s')"
  by (simp add: run_tx_def)

lemma run_tx_error_state: "run_tx body s = (Inl e, s') \<Longrightarrow> s' = s"
  by (auto simp: run_tx_def split: sum.splits prod.splits)

lemma run_tx_value: "run_tx body s = (Inr a, s') \<Longrightarrow> body s = Inr (a, s')"
  by (auto simp: run_tx_def split: sum.splits prod.splits)

section \<open>The claim interface\<close>

text \<open>
  A service claims a row by one \<open>UPDATE .. SET status = .. WHERE key = .. AND eligible\<close>. The
  interface: rows have a key the claim does not change, and a claimed row is not eligible any
  more. What the clients rely on: at most one claim of a row can succeed, and every other row
  stays as it was.
\<close>

locale row_claim =
  fixes key :: "'r \<Rightarrow> 'k"
    and eligible :: "'r \<Rightarrow> bool"
    and mark :: "'r \<Rightarrow> 'r"
    and claim :: "'k \<Rightarrow> 'r list \<Rightarrow> ('r option \<times> 'r list)"
  assumes mark_key: "key (mark r) = key r"
    and mark_spent: "eligible r \<Longrightarrow> \<not> eligible (mark r)"
    and claim_is_update:
      "claim k t = (let P = (\<lambda>r. key r = k \<and> eligible r)
                    in (case tbl_returning P mark t of [] \<Rightarrow> None | r # _ \<Rightarrow> Some r,
                        tbl_update P mark t))"
begin

lemma claim_keys: "map key (snd (claim k t)) = map key t"
  by (simp add: claim_is_update Let_def map_tbl_update_frame mark_key)

lemma claim_fail_unchanged:
  assumes "fst (claim k t) = None"
  shows "snd (claim k t) = t"
proof -
  from assms have "tbl_returning (\<lambda>r. key r = k \<and> eligible r) mark t = []"
    by (simp add: claim_is_update Let_def split: list.splits)
  then show ?thesis
    by (simp add: claim_is_update Let_def tbl_returning_empty_update)
qed

lemma claim_fail_iff: "fst (claim k t) = None \<longleftrightarrow> (\<forall>r \<in> set t. key r = k \<longrightarrow> \<not> eligible r)"
proof -
  have "fst (claim k t) = None \<longleftrightarrow> tbl_returning (\<lambda>r. key r = k \<and> eligible r) mark t = []"
    by (simp add: claim_is_update Let_def split: list.splits)
  then show ?thesis by (auto simp: tbl_returning_empty_iff)
qed

lemma claim_win_row:
  assumes "fst (claim k t) = Some r'"
  shows "\<exists>r \<in> set t. key r = k \<and> eligible r \<and> r' = mark r"
proof -
  from assms have "r' \<in> set (tbl_returning (\<lambda>r. key r = k \<and> eligible r) mark t)"
    by (auto simp: claim_is_update Let_def split: list.splits)
  then show ?thesis by (auto simp: tbl_returning_def)
qed

lemma claim_spent:
  assumes "r \<in> set (snd (claim k t))" and "key r = k"
  shows "\<not> eligible r"
proof -
  from assms(1) obtain x where x: "x \<in> set t"
    and r: "r = (if key x = k \<and> eligible x then mark x else x)"
    by (auto simp: claim_is_update Let_def in_tbl_update)
  show ?thesis
  proof (cases "key x = k \<and> eligible x")
    case True
    with r show ?thesis by (simp add: mark_spent)
  next
    case False
    with r assms(2) show ?thesis by auto
  qed
qed

text \<open>The claim is spent: no second claim of the same key succeeds.\<close>

lemma claim_once: "fst (claim k (snd (claim k t))) = None"
  by (auto simp: claim_fail_iff claim_spent)

lemma claim_other_rows:
  assumes "r \<in> set t" and "key r \<noteq> k"
  shows "r \<in> set (snd (claim k t))"
  using assms by (force simp: claim_is_update Let_def in_tbl_update)

end

end
