(* ===== verification/Auth_Tables.thy ===== *)
theory Auth_Tables
  imports Hub_Prelude
begin

text \<open>
  The tables of owner authentication, from the end of \<open>packages/database/src/schema.ts\<close>: the
  single owner, the registered passkeys, the sessions, the WebAuthn challenges and the enrollment
  grants. Timestamps are milliseconds; a credential's counter is a bigint read as a number.
\<close>

datatype owner_session_kind = Session_Standard | Session_Inspection

datatype challenge_purpose = First_Enrollment | Recovery_Enrollment | Add_Credential | Login | Reverify

datatype grant_purpose = Grant_Bootstrap | Grant_Recovery

record owner_row =
  ow_id :: uuid
  ow_createdAt :: millis

record credential_row =
  cd_id :: uuid
  cd_ownerId :: uuid
  cd_credentialId :: string
  cd_label :: string
  cd_publicKey :: string
  cd_counter :: int
  cd_transports :: "string list option"
  cd_deviceType :: "string option"
  cd_backedUp :: bool
  cd_lastUsedAt :: "millis option"
  cd_createdAt :: millis
  cd_revokedAt :: "millis option"

record session_row =
  sn_id :: uuid
  sn_ownerId :: uuid
  sn_tokenHash :: string
  sn_recoveryGeneration :: uuid
  sn_kind :: owner_session_kind
  sn_verifiedAt :: millis
  sn_createdAt :: millis
  sn_expiresAt :: millis
  sn_revokedAt :: "millis option"

record challenge_row =
  wc_id :: uuid
  wc_purpose :: challenge_purpose
  wc_ownerId :: "uuid option"
  wc_challenge :: string
  wc_recoveryGeneration :: uuid
  wc_createdAt :: millis
  wc_expiresAt :: millis
  wc_consumedAt :: "millis option"
  wc_revokedAt :: "millis option"

record grant_row =
  eg_id :: uuid
  eg_purpose :: grant_purpose
  eg_tokenHash :: string
  eg_recoveryGeneration :: uuid
  eg_createdAt :: millis
  eg_expiresAt :: millis
  eg_consumedAt :: "millis option"
  eg_revokedAt :: "millis option"

text \<open>The owner table holds at most one row: its key is the constant \<open>true\<close>.\<close>

record auth_tables =
  au_owner :: "owner_row option"
  au_credentials :: "credential_row list"
  au_sessions :: "session_row list"
  au_challenges :: "challenge_row list"
  au_grants :: "grant_row list"

definition no_auth :: auth_tables where
  "no_auth = \<lparr>au_owner = None, au_credentials = [], au_sessions = [], au_challenges = [], au_grants = []\<rparr>"

end
