(* ===== verification/Hub_Schema.thy ===== *)
theory Hub_Schema
  imports Auth_Tables
begin

text \<open>
  The data model of \<open>packages/database/src/schema.ts\<close>: one record per table the modelled
  services read or write, and the record \<open>hub\<close> of all tables together, which is the state
  every service works on. A nullable column is an option, a JSON column the structure the
  services store in it. Identifiers are stored in the lower-case form PostgreSQL gives a \<open>uuid\<close>
  column; a caller's identifier is brought to that form by \<open>pg_uuid\<close> before it is compared.
  The columns only searches read are in \<open>Search_Service\<close>. Columns that only the database fills and no modelled code reads (event identifiers,
  \<open>updated_at\<close> of action items) are left out; the \<open>at\<close> column of events is kept, in \<open>h_folderTimes\<close>,
  for the events of folders, whose newest time the synchronization reads.

  The last three fields of \<open>hub\<close> are no tables. They record the calls the send service makes to
  its SMTP and IMAP ports and the action service to its mailbox, in order, so that "this is
  submitted once" is a statement about a state.
\<close>

section \<open>Enumerations and JSON structures\<close>

datatype recovery_mode = Mode_Ready | Mode_Reconciling

datatype folder_role = Role_Inbox | Role_Sent | Role_Drafts | Role_Archive | Role_Trash | Role_Junk

datatype thread_link_state = Link_Root | Link_Pending | Link_Linked | Link_Ambiguous

datatype outbound_status = Queued | Sending | Sent | Failed | Outcome_Unknown

datatype sent_copy_status = Copy_Pending | Copy_Appending | Copy_Stored | Copy_Failed | Copy_Unknown

datatype item_status = It_Queued | It_Executing | It_Confirmed | It_Conflicted | It_Failed | It_Unknown

datatype action_status = Ac_Queued | Ac_Executing | Ac_Complete

datatype actor = User_Actor | System_Actor

datatype smtp_security = Starttls_Required | Implicit_Tls

record email_address =
  ea_address :: string
  ea_name :: "string option"

record account_identity =
  ai_address :: string
  ai_name :: "string option"
  ai_isDefault :: bool

record recipients =
  rc_to :: "email_address list"
  rc_cc :: "email_address list option"
  rc_bcc :: "email_address list option"

record recipient_result =
  rr_address :: string
  rr_accepted :: bool
  rr_response :: "string option"

record target_observation =
  to_unread :: bool
  to_flagged :: bool

record action_target =
  tg_occurrenceId :: uuid
  tg_accountId :: uuid
  tg_folderId :: uuid
  tg_uidvalidity :: int
  tg_uid :: int
  tg_revision :: int
  tg_observed :: "target_observation option"
  tg_modseq :: "string option"

text \<open>The \<open>last_error\<close> column and the \<open>smtp_response\<close> column, as the services write them.\<close>

record err_detail =
  ed_code :: string
  ed_message :: string

record smtp_response =
  sr_response :: "string option"
  sr_responseCode :: "int option"

section \<open>Rows\<close>

record service_state_row =
  ss_recoveryGeneration :: uuid
  ss_recoveryMode :: recovery_mode
  ss_updatedAt :: millis

record account_row =
  acc_id :: uuid
  acc_identities :: "account_identity list"

record folder_row =
  fo_id :: uuid
  fo_accountId :: uuid
  fo_name :: string
  fo_role :: "folder_role option"
  fo_uidvalidity :: "int option"
  fo_arrivalScannedUid :: int
  fo_backfillUpperUid :: "int option"
  fo_backfillBeforeUid :: "int option"
  fo_backfillComplete :: bool

record thread_row =
  th_id :: uuid
  th_accountId :: uuid
  th_subjectNorm :: "string option"
  th_participants :: "email_address list"
  th_updatedAt :: millis

record message_row =
  ms_id :: uuid
  ms_accountId :: uuid
  ms_messageId :: "string option"
  ms_inReplyTo :: "string option"
  ms_referenceIds :: "string list"
  ms_threadId :: "uuid option"
  ms_parentMessageId :: "uuid option"
  ms_threadLinkState :: thread_link_state
  ms_threadDirty :: bool
  ms_sender :: "email_address option"
  ms_replyTo :: "email_address list option"
  ms_recipients :: "recipients option"
  ms_subject :: "string option"
  ms_sentAt :: "millis option"
  ms_snippet :: "string option"
  ms_hasAttachments :: bool
  ms_sizeBytes :: "int option"
  ms_fetchedBody :: bool
  ms_bodyFailedAt :: "millis option"
  ms_originalStorageKey :: "string option"
  ms_originalSha256 :: "string option"
  ms_senderText :: string
  ms_recipientsText :: string
  ms_addressesText :: string
  ms_subjectText :: string
  ms_bodyIndexText :: string

record occurrence_row =
  oc_id :: uuid
  oc_accountId :: uuid
  oc_messageId :: uuid
  oc_folderId :: uuid
  oc_uidvalidity :: int
  oc_uid :: int
  oc_internalDate :: millis
  oc_unread :: bool
  oc_flagged :: bool
  oc_modseq :: "string option"
  oc_revision :: int
  oc_observedAt :: millis
  oc_expungedAt :: "millis option"
  oc_invalidatedAt :: "millis option"

record body_row =
  bo_messageId :: uuid
  bo_textPlain :: "string option"
  bo_htmlSanitized :: "string option"
  bo_sanitizerVersion :: string

record attachment_row =
  at_messageId :: uuid
  at_partPath :: string
  at_locatorVersion :: int
  at_decodedSha256 :: string
  at_contentId :: "string option"
  at_disposition :: "string option"
  at_filename :: "string option"
  at_contentType :: "string option"
  at_sizeBytes :: int

record draft_row =
  dr_id :: uuid
  dr_accountId :: uuid
  dr_identity :: email_address
  dr_threadId :: "uuid option"
  dr_replyParentId :: "uuid option"
  dr_inReplyTo :: "string option"
  dr_referenceIds :: "string list"
  dr_recipients :: recipients
  dr_subject :: "string option"
  dr_markdown :: string
  dr_revision :: int
  dr_lockedBySend :: "uuid option"
  dr_updatedAt :: millis
  dr_deletedAt :: "millis option"

record upload_row =
  up_id :: uuid
  up_accountId :: uuid
  up_filename :: string
  up_contentType :: string
  up_sizeBytes :: int
  up_storageKey :: string
  up_sha256 :: string
  up_createdAt :: millis

record draft_upload_row =
  du_draftId :: uuid
  du_uploadId :: uuid
  du_ordinal :: int

record outbound_row =
  ob_id :: uuid
  ob_accountId :: uuid
  ob_recoveryGeneration :: uuid
  ob_idempotencyKey :: string
  ob_requestHash :: string
  ob_draftId :: "uuid option"
  ob_draftRevision :: int
  ob_identity :: email_address
  ob_envelopeSender :: string
  ob_envelopeRecipients :: "string list"
  ob_status :: outbound_status
  ob_logicalMessageId :: "uuid option"
  ob_threadId :: "uuid option"
  ob_replyParentId :: "uuid option"
  ob_inReplyTo :: "string option"
  ob_referenceIds :: "string list"
  ob_recipients :: recipients
  ob_subject :: "string option"
  ob_markdownSource :: string
  ob_html :: "string option"
  ob_rfcMessageId :: string
  ob_mimeStorageKey :: string
  ob_mimeSha256 :: string
  ob_smtpResponse :: "smtp_response option"
  ob_recipientResults :: "recipient_result list"
  ob_sendingStartedAt :: "millis option"
  ob_appendStartedAt :: "millis option"
  ob_sentCopyAttempts :: int
  ob_reconcileAttempts :: int
  ob_sentCopyStatus :: sent_copy_status
  ob_sentFolderId :: "uuid option"
  ob_sentUidvalidity :: "int option"
  ob_sentUid :: "int option"
  ob_lastError :: "err_detail option"
  ob_createdAt :: millis
  ob_sentAt :: "millis option"

record outbound_upload_row =
  ou_outboundId :: uuid
  ou_uploadId :: uuid
  ou_ordinal :: int

record action_scope =
  sc_kind :: string
  sc_accountId :: uuid
  sc_occurrenceIds :: "uuid list"
  sc_destinationFolderId :: "uuid option"

record action_row =
  ac_id :: uuid
  ac_accountId :: uuid
  ac_recoveryGeneration :: uuid
  ac_idempotencyKey :: string
  ac_requestHash :: string
  ac_kind :: string
  ac_request :: action_scope
  ac_status :: action_status
  ac_createdAt :: millis
  ac_updatedAt :: millis

record action_item_row =
  it_actionId :: uuid
  it_itemKey :: string
  it_target :: action_target
  it_status :: item_status
  it_outcome :: "(string \<times> json) list option"

record event_row =
  ev_actor :: actor
  ev_type :: string
  ev_entityType :: string
  ev_entityId :: "uuid option"
  ev_payload :: "(string \<times> json) list"

section \<open>The calls a send makes\<close>

record smtp_request =
  rq_host :: string
  rq_port :: int
  rq_security :: smtp_security
  rq_username :: string
  rq_password :: string
  rq_from :: string
  rq_to :: "string list"
  rq_raw :: bytes

record append_call =
  ap_outboundId :: uuid
  ap_folder :: string
  ap_bytes :: bytes

section \<open>The calls an action makes\<close>

text \<open>
  The writes and calls of \<open>packages/actions/src/mailbox.ts\<close>. A write is logged with the action
  and item it belongs to.
\<close>

datatype flag_name = Flag_Unread | Flag_Flagged

record flag_write =
  fw_uid :: int
  fw_flag :: flag_name
  fw_value :: bool
  fw_unchangedSince :: "string option"

record move_write =
  mw_uid :: int
  mw_destinationFolder :: string

datatype mail_call =
    Call_Select string
  | Call_Fetch "int list"
  | Call_Revalidate
  | Call_Capabilities
  | Call_Write uuid string flag_write
  | Call_Move uuid string move_write

section \<open>The state\<close>

record hub =
  h_serviceState :: "service_state_row option"
  h_accounts :: "account_row list"
  h_folders :: "folder_row list"
  h_threads :: "thread_row list"
  h_messages :: "message_row list"
  h_occurrences :: "occurrence_row list"
  h_bodies :: "body_row list"
  h_attachments :: "attachment_row list"
  h_drafts :: "draft_row list"
  h_uploads :: "upload_row list"
  h_draftUploads :: "draft_upload_row list"
  h_outbound :: "outbound_row list"
  h_outboundUploads :: "outbound_upload_row list"
  h_actions :: "action_row list"
  h_actionItems :: "action_item_row list"
  h_events :: "event_row list"
  h_folderTimes :: "(uuid \<times> string \<times> millis) list"
  h_auth :: auth_tables
  h_durable :: "string \<Rightarrow> bytes option"
  h_smtpCalls :: "(uuid \<times> smtp_request) list"
  h_appendCalls :: "append_call list"
  h_mailCalls :: "mail_call list"

text \<open>
  The context of one run: the clock readings and identifiers it draws, by position, and what the
  other writers do to the database at each of its awaits.
\<close>

record run_ctx =
  cx_now :: "nat \<Rightarrow> millis"
  cx_ids :: "nat \<Rightarrow> uuid"
  cx_rely :: "nat \<Rightarrow> hub \<Rightarrow> hub"

text \<open>A run no other writer interferes with.\<close>

definition quiet :: "run_ctx \<Rightarrow> bool" where
  "quiet cx \<longleftrightarrow> cx_rely cx = (\<lambda>_ h. h)"

definition empty_hub :: hub where
  "empty_hub =
     \<lparr>h_serviceState = None, h_accounts = [], h_folders = [], h_threads = [], h_messages = [], h_occurrences = [],
      h_bodies = [], h_attachments = [], h_drafts = [], h_uploads = [], h_draftUploads = [],
      h_outbound = [], h_outboundUploads = [], h_actions = [], h_actionItems = [], h_events = [], h_folderTimes = [],
      h_auth = no_auth, h_durable = (\<lambda>_. None), h_smtpCalls = [], h_appendCalls = [], h_mailCalls = []\<rparr>"

definition pg_uuid :: "string \<Rightarrow> uuid" where
  "pg_uuid s = to_lower s"

definition add_event :: "event_row \<Rightarrow> hub \<Rightarrow> hub" where
  "add_event e h = h\<lparr>h_events := h_events h @ [e]\<rparr>"

text \<open>An optional JSON string, number.\<close>

definition json_opt :: "('a \<Rightarrow> json) \<Rightarrow> 'a option \<Rightarrow> json" where
  "json_opt f x = (case x of None \<Rightarrow> JNull | Some a \<Rightarrow> f a)"

section \<open>Lemmas\<close>

lemma pg_uuid_idem [simp]: "pg_uuid (pg_uuid s) = pg_uuid s"
  by (simp add: pg_uuid_def)

lemma is_uuid_pg [simp]: "is_uuid (pg_uuid s) = is_uuid s"
  by (simp add: pg_uuid_def)

lemma add_event_events [simp]: "h_events (add_event e h) = h_events h @ [e]"
  by (simp add: add_event_def)

lemma add_event_frame [simp]:
  "h_serviceState (add_event e h) = h_serviceState h"
  "h_accounts (add_event e h) = h_accounts h"
  "h_folders (add_event e h) = h_folders h"
  "h_threads (add_event e h) = h_threads h"
  "h_folderTimes (add_event e h) = h_folderTimes h"
  "h_messages (add_event e h) = h_messages h"
  "h_occurrences (add_event e h) = h_occurrences h"
  "h_bodies (add_event e h) = h_bodies h"
  "h_attachments (add_event e h) = h_attachments h"
  "h_drafts (add_event e h) = h_drafts h"
  "h_uploads (add_event e h) = h_uploads h"
  "h_draftUploads (add_event e h) = h_draftUploads h"
  "h_outbound (add_event e h) = h_outbound h"
  "h_outboundUploads (add_event e h) = h_outboundUploads h"
  "h_actions (add_event e h) = h_actions h"
  "h_actionItems (add_event e h) = h_actionItems h"
  "h_durable (add_event e h) = h_durable h"
  "h_smtpCalls (add_event e h) = h_smtpCalls h"
  "h_appendCalls (add_event e h) = h_appendCalls h"
  "h_mailCalls (add_event e h) = h_mailCalls h"
  "h_auth (add_event e h) = h_auth h"
  by (simp_all add: add_event_def)

end
