(* ===== verification/Recovery_Status.thy ===== *)
theory Recovery_Status
  imports Hub_Schema
begin

text \<open>
  The control state of \<open>packages/recovery/src/status.ts\<close>: how the deployment generation and the
  database row relate, the gate of client mutations and the assessment of queued jobs. All of
  it is pure. The locale \<open>mutation_gate\<close> is the interface the mutating services use: an
  allowed request carries the generation of a ready service, and a blocked one is refused with
  an error.
\<close>

section \<open>Control state\<close>

datatype control_status =
    Config_Missing
  | Uninitialized uuid
  | Generation_Mismatch uuid uuid recovery_mode
  | Reconciling_State uuid
  | Ready_State uuid

definition parseDeploymentGeneration :: "string option \<Rightarrow> uuid option" where
  "parseDeploymentGeneration raw =
     (case raw of
        None \<Rightarrow> None
      | Some r \<Rightarrow>
          (let trimmed = trim_string r
           in if is_uuid trimmed then Some (to_lower trimmed) else None))"

definition classifyControlState :: "service_state_row option \<Rightarrow> uuid option \<Rightarrow> control_status" where
  "classifyControlState row deployment =
     (case deployment of
        None \<Rightarrow> Config_Missing
      | Some gen \<Rightarrow>
          (case row of
             None \<Rightarrow> Uninitialized gen
           | Some r \<Rightarrow>
               if to_lower (ss_recoveryGeneration r) \<noteq> gen
               then Generation_Mismatch gen (ss_recoveryGeneration r) (ss_recoveryMode r)
               else if ss_recoveryMode r = Mode_Ready then Ready_State gen
               else Reconciling_State gen))"

fun clientGeneration :: "control_status \<Rightarrow> uuid option" where
  "clientGeneration Config_Missing = None"
| "clientGeneration (Uninitialized gen) = Some gen"
| "clientGeneration (Generation_Mismatch gen db m) = Some gen"
| "clientGeneration (Ready_State gen) = Some gen"
| "clientGeneration (Reconciling_State gen) = Some gen"

section \<open>The mutation gate\<close>

datatype gate_decision =
    Gate_Allow uuid
  | Gate_Recovery_Required uuid
  | Gate_In_Progress
  | Gate_Invalid_Generation

definition decideMutationGate :: "control_status \<Rightarrow> string option \<Rightarrow> gate_decision" where
  "decideMutationGate status requestGeneration =
     (case map_option (\<lambda>g. to_lower (trim_string g)) requestGeneration of
        None \<Rightarrow> Gate_Invalid_Generation
      | Some normalized \<Rightarrow>
          if \<not> is_uuid normalized then Gate_Invalid_Generation
          else
            (case status of
               Config_Missing \<Rightarrow> Gate_In_Progress
             | Ready_State gen \<Rightarrow>
                 if normalized \<noteq> gen then Gate_Recovery_Required gen else Gate_Allow gen
             | Reconciling_State gen \<Rightarrow>
                 if normalized \<noteq> gen then Gate_Recovery_Required gen else Gate_In_Progress
             | Uninitialized gen \<Rightarrow>
                 if normalized \<noteq> gen then Gate_Recovery_Required gen else Gate_In_Progress
             | Generation_Mismatch gen db m \<Rightarrow>
                 if normalized \<noteq> gen then Gate_Recovery_Required gen else Gate_In_Progress))"

datatype job_assessment = Job_Execute | Job_Stale | Job_Blocked

definition assessJob :: "control_status \<Rightarrow> string \<Rightarrow> job_assessment" where
  "assessJob status jobGeneration =
     (case status of
        Ready_State gen \<Rightarrow>
          if gen = to_lower (trim_string jobGeneration) then Job_Execute else Job_Stale
      | _ \<Rightarrow> Job_Blocked)"

section \<open>Gate errors\<close>

datatype recovery_error_code = Recovery_Required | Recovery_In_Progress | Invalid_Recovery_Generation

fun recovery_http_status :: "recovery_error_code \<Rightarrow> int" where
  "recovery_http_status Recovery_Required = 409"
| "recovery_http_status Recovery_In_Progress = 503"
| "recovery_http_status Invalid_Recovery_Generation = 400"

record recovery_error =
  re_code :: recovery_error_code
  re_httpStatus :: int
  re_currentGeneration :: "uuid option"

definition RecoveryBlockedError :: "recovery_error_code \<Rightarrow> uuid option \<Rightarrow> recovery_error" where
  "RecoveryBlockedError code gen =
     \<lparr>re_code = code, re_httpStatus = recovery_http_status code, re_currentGeneration = gen\<rparr>"

fun mutationGateError :: "gate_decision \<Rightarrow> recovery_error" where
  "mutationGateError (Gate_Recovery_Required gen) = RecoveryBlockedError Recovery_Required (Some gen)"
| "mutationGateError Gate_In_Progress = RecoveryBlockedError Recovery_In_Progress None"
| "mutationGateError _ = RecoveryBlockedError Invalid_Recovery_Generation None"

fun mode_text :: "recovery_mode \<Rightarrow> string" where
  "mode_text Mode_Ready = ''ready''"
| "mode_text Mode_Reconciling = ''reconciling''"

fun describeControlStatus :: "control_status \<Rightarrow> string" where
  "describeControlStatus (Ready_State gen) = ''ready (generation '' @ gen @ '')''"
| "describeControlStatus (Reconciling_State gen) = ''reconciling (generation '' @ gen @ '')''"
| "describeControlStatus (Generation_Mismatch gen db m) =
     ''generation mismatch (deployment '' @ gen @ '', database '' @ db @ '', mode '' @ mode_text m @ '')''"
| "describeControlStatus (Uninitialized gen) =
     ''uninitialized control state (deployment generation '' @ gen @ '')''"
| "describeControlStatus Config_Missing = ''missing RECOVERY_GENERATION configuration''"

section \<open>Waiting for readiness\<close>

text \<open>
  \<open>waitForReadyService\<close> polls the control state until it is ready or its signal aborts. The
  reads of one wait are a list, each with whether the signal is aborted by the time the wait
  sleeps after it; \<open>None\<close> is a wait that still polls when the list ends. The result carries
  the blocked states reported to \<open>onStatus\<close>, in order.
\<close>

datatype wait_result = Wait_Ready uuid | Wait_Aborted

fun waitForReadyService ::
    "(control_status \<times> bool) list \<Rightarrow> control_status list \<Rightarrow> (wait_result \<times> control_status list) option" where
  "waitForReadyService [] seen = None"
| "waitForReadyService ((status, aborted) # reads) seen =
     (case status of
        Ready_State gen \<Rightarrow> Some (Wait_Ready gen, seen)
      | _ \<Rightarrow>
          if aborted then Some (Wait_Aborted, seen @ [status])
          else waitForReadyService reads (seen @ [status]))"

section \<open>Lemmas\<close>

lemma parseDeploymentGeneration_canonical:
  assumes "parseDeploymentGeneration raw = Some gen"
  shows "is_uuid gen \<and> to_lower gen = gen"
  using assms by (auto simp: parseDeploymentGeneration_def Let_def split: option.splits if_splits)

lemma assessJob_execute_iff:
  "assessJob status job = Job_Execute \<longleftrightarrow> status = Ready_State (to_lower (trim_string job))"
  by (auto simp: assessJob_def split: control_status.splits)

lemma assessJob_ready_canonical:
  assumes "is_uuid job" and "to_lower job = job"
  shows "assessJob (Ready_State gen) job = (if gen = job then Job_Execute else Job_Stale)"
  using assms by (simp add: assessJob_def trim_uuid)

lemma decideMutationGate_allow_iff:
  "decideMutationGate status req = Gate_Allow gen \<longleftrightarrow>
     status = Ready_State gen \<and> is_uuid gen \<and>
     (\<exists>r. req = Some r \<and> to_lower (trim_string r) = gen)"
  by (auto simp: decideMutationGate_def split: option.splits control_status.splits if_splits)

lemma waitForReadyService_reports:
  "waitForReadyService reads seen = Some (Wait_Ready gen, out) \<Longrightarrow>
     (\<exists>blocked rest b. reads = blocked @ (Ready_State gen, b) # rest \<and>
        out = seen @ map fst blocked \<and> (\<forall>x \<in> set blocked. \<not> snd x))"
proof (induction reads arbitrary: seen)
  case Nil
  then show ?case by simp
next
  case (Cons r reads)
  obtain status aborted where r: "r = (status, aborted)" by fastforce
  show ?case
  proof (cases "\<exists>g. status = Ready_State g")
    case True
    with Cons.prems r show ?thesis
      by (intro exI [of _ "[]"] exI [of _ reads] exI [of _ aborted]) auto
  next
    case False
    with Cons.prems r have n: "\<not> aborted"
      and w: "waitForReadyService reads (seen @ [status]) = Some (Wait_Ready gen, out)"
      by (auto split: control_status.splits if_splits)
    from Cons.IH [OF w] obtain blocked rest b where "reads = blocked @ (Ready_State gen, b) # rest"
      and "out = (seen @ [status]) @ map fst blocked" and "\<forall>x \<in> set blocked. \<not> snd x"
      by blast
    with n r show ?thesis 
      by (intro exI [of _ "(status, aborted) # blocked"] exI [of _ rest] exI [of _ b]) auto
  qed
qed

section \<open>The gate interface\<close>

text \<open>
  What a mutating service needs of its gate: it answers from the control state of the database
  it is given, without changing it; an allowed request names the generation of a ready service.
\<close>

locale mutation_gate =
  fixes status_of :: "'cfg \<Rightarrow> hub \<Rightarrow> control_status"
    and gate :: "'cfg \<Rightarrow> string option \<Rightarrow> hub \<Rightarrow> recovery_error + uuid"
  assumes gate_allowed: "gate cfg req h = Inr gen \<Longrightarrow>
      status_of cfg h = Ready_State gen \<and> (\<exists>r. req = Some r \<and> to_lower (trim_string r) = gen)"
    and gate_reads_control_row:
      "h_serviceState h = h_serviceState h' \<Longrightarrow> gate cfg req h = gate cfg req h'"
begin

lemma gate_generation_unique:
  assumes "gate cfg req h = Inr gen" and "gate cfg req' h = Inr gen'"
  shows "gen = gen'"
  using gate_allowed [OF assms(1)] gate_allowed [OF assms(2)] by simp

lemma allowed_work_executes:
  assumes "gate cfg req h = Inr gen"
  shows "assessJob (status_of cfg h) (the req) = Job_Execute"
  using gate_allowed [OF assms] by (auto simp: assessJob_def)

lemma not_ready_refused:
  assumes "\<And>gen. status_of cfg h \<noteq> Ready_State gen"
  shows "\<exists>e. gate cfg req h = Inl e"
  using assms gate_allowed [of cfg req h] by (cases "gate cfg req h") auto

end

section \<open>Properties\<close>

text \<open>
  The recovery gate lets a client mutation pass exactly when the service is ready and the
  request carries, up to case and surrounding white space, the generation the service runs
  under. Otherwise it answers with the code the client acts on: a malformed generation is
  invalid, an outdated one is told the current generation whatever else is wrong, and a current
  one is asked to wait.
\<close>

theorem gate_decision_complete:
  "decideMutationGate status req =
     (if \<exists>r. req = Some r \<and> is_uuid (to_lower (trim_string r)) then
        (case clientGeneration status of
           None \<Rightarrow> Gate_In_Progress
         | Some gen \<Rightarrow>
             if to_lower (trim_string (the req)) \<noteq> gen then Gate_Recovery_Required gen
             else if status = Ready_State gen then Gate_Allow gen
             else Gate_In_Progress)
      else Gate_Invalid_Generation)"
  by (auto simp: decideMutationGate_def split: option.splits control_status.splits)

end
