(* ===== verification/Recovery_Controls.thy ===== *)
theory Recovery_Controls
  imports Recovery_Status
begin

text \<open>
  The recovery controls of \<open>packages/recovery/src/controls.ts\<close>: reading the control state,
  gating a mutation, and the three operator commands that move the control row. A command runs
  in one transaction, so each is a function from the state to its outcome and the state it
  commits. The authentication hooks are injected into the class and are fields of the
  configuration here.
\<close>

section \<open>Configuration and outcomes\<close>

record recovery_controls =
  rv_deployment :: "uuid option"
  rv_revokeRestoredAuth :: "(hub \<Rightarrow> hub) option"
  rv_hasRegisteredOwner :: "(hub \<Rightarrow> bool) option"

definition new_recovery_controls ::
    "string option \<Rightarrow> (hub \<Rightarrow> hub) option \<Rightarrow> (hub \<Rightarrow> bool) option \<Rightarrow> recovery_controls" where
  "new_recovery_controls raw revoke owner =
     \<lparr>rv_deployment = parseDeploymentGeneration raw,
      rv_revokeRestoredAuth = revoke, rv_hasRegisteredOwner = owner\<rparr>"

datatype initialize_outcome =
    Init_Initialized uuid
  | Init_Config_Missing
  | Init_Already_Initialized
  | Init_Database_Not_Empty

datatype begin_outcome =
    Begin_Started uuid
  | Begin_Resumed uuid
  | Begin_Config_Missing
  | Begin_Already_Ready

record pending_counts =
  pc_actions :: int
  pc_outboundMessages :: int

datatype owner_check = Owner_Verified | Owner_Unavailable

datatype complete_outcome =
    Complete_Completed uuid owner_check
  | Complete_Config_Missing
  | Complete_No_Active_Recovery
  | Complete_Generation_Mismatch
  | Complete_Owner_Missing
  | Complete_Pending_Operations pending_counts

section \<open>Reading and gating\<close>

definition readStatus :: "recovery_controls \<Rightarrow> hub \<Rightarrow> control_status" where
  "readStatus rv h =
     (case rv_deployment rv of
        None \<Rightarrow> Config_Missing
      | Some gen \<Rightarrow> classifyControlState (h_serviceState h) (Some gen))"

definition gateMutation :: "recovery_controls \<Rightarrow> string option \<Rightarrow> hub \<Rightarrow> recovery_error + uuid" where
  "gateMutation rv requestGeneration h =
     (case decideMutationGate (readStatus rv h) requestGeneration of
        Gate_Allow gen \<Rightarrow> Inr gen
      | decision \<Rightarrow> Inl (mutationGateError decision))"

section \<open>Operator commands\<close>

definition recovery_event :: "string \<Rightarrow> (string \<times> json) list \<Rightarrow> event_row" where
  "recovery_event type payload =
     \<lparr>ev_actor = User_Actor, ev_type = type, ev_entityType = ''service_state'',
      ev_entityId = None, ev_payload = payload\<rparr>"

definition databaseIsEmpty :: "hub \<Rightarrow> bool" where
  "databaseIsEmpty h \<longleftrightarrow>
     h_accounts h = [] \<and> h_messages h = [] \<and> h_actions h = [] \<and> h_outbound h = []"

definition initialize :: "recovery_controls \<Rightarrow> millis \<Rightarrow> hub \<Rightarrow> initialize_outcome \<times> hub" where
  "initialize rv now h =
     (case rv_deployment rv of
        None \<Rightarrow> (Init_Config_Missing, h)
      | Some deployment \<Rightarrow>
          if \<not> databaseIsEmpty h then (Init_Database_Not_Empty, h)
          else
            (case h_serviceState h of
               Some _ \<Rightarrow> (Init_Already_Initialized, h)
             | None \<Rightarrow>
                 (Init_Initialized deployment,
                  add_event (recovery_event ''recovery.init'' [(''recoveryGeneration'', JStr deployment)])
                    (h\<lparr>h_serviceState :=
                        Some \<lparr>ss_recoveryGeneration = deployment, ss_recoveryMode = Mode_Ready,
                              ss_updatedAt = now\<rparr>\<rparr>))))"

definition revokeRestoredAuth :: "recovery_controls \<Rightarrow> hub \<Rightarrow> hub" where
  "revokeRestoredAuth rv h =
     (case rv_revokeRestoredAuth rv of None \<Rightarrow> h | Some revoke \<Rightarrow> revoke h)"

definition beginRecovery :: "recovery_controls \<Rightarrow> millis \<Rightarrow> hub \<Rightarrow> begin_outcome \<times> hub" where
  "beginRecovery rv now h =
     (case rv_deployment rv of
        None \<Rightarrow> (Begin_Config_Missing, h)
      | Some deployment \<Rightarrow>
          (case h_serviceState h of
             None \<Rightarrow>
               (Begin_Started deployment,
                add_event (recovery_event ''recovery.begin''
                    [(''recoveryGeneration'', JStr deployment), (''resumed'', JBool False)])
                  (revokeRestoredAuth rv
                    (h\<lparr>h_serviceState :=
                        Some \<lparr>ss_recoveryGeneration = deployment, ss_recoveryMode = Mode_Reconciling,
                              ss_updatedAt = now\<rparr>\<rparr>)))
           | Some row \<Rightarrow>
               if to_lower (ss_recoveryGeneration row) = deployment then
                 if ss_recoveryMode row = Mode_Ready then (Begin_Already_Ready, h)
                 else
                   (Begin_Resumed deployment,
                    add_event (recovery_event ''recovery.begin''
                        [(''recoveryGeneration'', JStr deployment), (''resumed'', JBool True)]) h)
               else
                 (Begin_Started deployment,
                  add_event (recovery_event ''recovery.begin''
                      [(''recoveryGeneration'', JStr deployment),
                       (''previousGeneration'', JStr (ss_recoveryGeneration row)),
                       (''resumed'', JBool False)])
                    (revokeRestoredAuth rv
                      (h\<lparr>h_serviceState :=
                          Some (row\<lparr>ss_recoveryGeneration := deployment,
                                    ss_recoveryMode := Mode_Reconciling, ss_updatedAt := now\<rparr>)\<rparr>)))))"

text \<open>
  The restored operations that still lack a disposition: pending actions, and sends that are
  pending themselves or \<open>sent\<close> with an append that never concluded.
\<close>

definition pending_action :: "uuid \<Rightarrow> action_row \<Rightarrow> bool" where
  "pending_action deployment a \<longleftrightarrow>
     ac_recoveryGeneration a \<noteq> deployment \<and> ac_status a \<in> {Ac_Queued, Ac_Executing}"

definition pending_outbound :: "uuid \<Rightarrow> outbound_row \<Rightarrow> bool" where
  "pending_outbound deployment r \<longleftrightarrow>
     ob_recoveryGeneration r \<noteq> deployment \<and>
     (ob_status r \<in> {Queued, Sending} \<or>
      (ob_status r = Sent \<and> ob_sentCopyStatus r \<in> {Copy_Pending, Copy_Appending}))"

definition countUndispositionedOperations :: "uuid \<Rightarrow> hub \<Rightarrow> pending_counts" where
  "countUndispositionedOperations deployment h =
     \<lparr>pc_actions = tbl_count (pending_action deployment) (h_actions h),
      pc_outboundMessages = tbl_count (pending_outbound deployment) (h_outbound h)\<rparr>"

definition completeRecovery :: "recovery_controls \<Rightarrow> millis \<Rightarrow> hub \<Rightarrow> complete_outcome \<times> hub" where
  "completeRecovery rv now h =
     (case rv_deployment rv of
        None \<Rightarrow> (Complete_Config_Missing, h)
      | Some deployment \<Rightarrow>
          (case h_serviceState h of
             None \<Rightarrow> (Complete_No_Active_Recovery, h)
           | Some row \<Rightarrow>
               if ss_recoveryMode row \<noteq> Mode_Reconciling then (Complete_No_Active_Recovery, h)
               else if to_lower (ss_recoveryGeneration row) \<noteq> deployment
               then (Complete_Generation_Mismatch, h)
               else
                 (let pendingOperations = countUndispositionedOperations deployment h in
                  if pc_actions pendingOperations > 0 \<or> pc_outboundMessages pendingOperations > 0
                  then (Complete_Pending_Operations pendingOperations, h)
                  else
                    (case rv_hasRegisteredOwner rv of
                       Some checkOwner \<Rightarrow>
                         if \<not> checkOwner h then (Complete_Owner_Missing, h)
                         else
                           (Complete_Completed deployment Owner_Verified,
                            add_event (recovery_event ''recovery.complete''
                                [(''recoveryGeneration'', JStr deployment),
                                 (''ownerCheck'', JStr ''verified'')])
                              (h\<lparr>h_serviceState :=
                                  Some (row\<lparr>ss_recoveryMode := Mode_Ready, ss_updatedAt := now\<rparr>)\<rparr>))
                     | None \<Rightarrow>
                         (Complete_Completed deployment Owner_Unavailable,
                          add_event (recovery_event ''recovery.complete''
                              [(''recoveryGeneration'', JStr deployment),
                               (''ownerCheck'', JStr ''unavailable'')])
                            (h\<lparr>h_serviceState :=
                                Some (row\<lparr>ss_recoveryMode := Mode_Ready, ss_updatedAt := now\<rparr>)\<rparr>))))))"

text \<open>The operator's commands as one type, and a run of them.\<close>

datatype recovery_command = Cmd_Initialize | Cmd_Begin | Cmd_Complete

fun run_command :: "recovery_controls \<Rightarrow> millis \<Rightarrow> recovery_command \<Rightarrow> hub \<Rightarrow> hub" where
  "run_command rv now Cmd_Initialize h = snd (initialize rv now h)"
| "run_command rv now Cmd_Begin h = snd (beginRecovery rv now h)"
| "run_command rv now Cmd_Complete h = snd (completeRecovery rv now h)"

fun completes :: "recovery_controls \<Rightarrow> millis \<Rightarrow> recovery_command \<Rightarrow> hub \<Rightarrow> bool" where
  "completes rv now Cmd_Complete h =
     (case fst (completeRecovery rv now h) of Complete_Completed _ _ \<Rightarrow> True | _ \<Rightarrow> False)"
| "completes rv now _ h = False"

fun run_commands :: "recovery_controls \<Rightarrow> (millis \<times> recovery_command) list \<Rightarrow> hub \<Rightarrow> hub" where
  "run_commands rv [] h = h"
| "run_commands rv ((now, c) # cs) h = run_commands rv cs (run_command rv now c h)"

fun some_completes :: "recovery_controls \<Rightarrow> (millis \<times> recovery_command) list \<Rightarrow> hub \<Rightarrow> bool" where
  "some_completes rv [] h = False"
| "some_completes rv ((now, c) # cs) h =
     (completes rv now c h \<or> some_completes rv cs (run_command rv now c h))"

text \<open>The hook revokes authentication rows; the control row is not one of them.\<close>

definition hook_keeps_control_row :: "recovery_controls \<Rightarrow> bool" where
  "hook_keeps_control_row rv \<longleftrightarrow>
     (\<forall>f x. rv_revokeRestoredAuth rv = Some f \<longrightarrow> h_serviceState (f x) = h_serviceState x)"

section \<open>Lemmas\<close>

lemma tbl_count_pos: "(0 < tbl_count P t) = (\<exists>r \<in> set t. P r)"
  by (auto simp: tbl_count_def filter_empty_conv)

lemma tbl_count_zero: "(tbl_count P t = 0) = (\<forall>r \<in> set t. \<not> P r)"
  by (auto simp: tbl_count_def filter_empty_conv)

lemma readStatus_control_row:
  "h_serviceState h = h_serviceState h' \<Longrightarrow> readStatus rv h = readStatus rv h'"
  by (cases "rv_deployment rv") (simp_all add: readStatus_def)

lemma readStatus_ready_iff:
  "readStatus rv h = Ready_State gen \<longleftrightarrow>
     rv_deployment rv = Some gen \<and>
     (\<exists>row. h_serviceState h = Some row \<and> to_lower (ss_recoveryGeneration row) = gen \<and>
            ss_recoveryMode row = Mode_Ready)"
  by (auto simp: readStatus_def classifyControlState_def split: option.splits)

lemma completeRecovery_completed_iff:
  "(\<exists>oc. fst (completeRecovery rv now h) = Complete_Completed gen oc) \<longleftrightarrow>
     rv_deployment rv = Some gen \<and> readStatus rv h = Reconciling_State gen \<and>
     (\<forall>a \<in> set (h_actions h). \<not> pending_action gen a) \<and>
     (\<forall>r \<in> set (h_outbound h). \<not> pending_outbound gen r) \<and>
     (\<forall>check. rv_hasRegisteredOwner rv = Some check \<longrightarrow> check h)"
  by (auto simp: completeRecovery_def readStatus_def classifyControlState_def Let_def
      countUndispositionedOperations_def tbl_count_pos
      split: option.splits if_splits recovery_mode.splits)
     (auto intro: recovery_mode.exhaust)

lemma completeRecovery_tables:
  "h_actions (snd (completeRecovery rv now h)) = h_actions h"
  "h_outbound (snd (completeRecovery rv now h)) = h_outbound h"
  by (simp_all add: completeRecovery_def Let_def split: option.splits)

lemma gateMutation_allow_iff:
  "gateMutation rv req h = Inr gen \<longleftrightarrow> decideMutationGate (readStatus rv h) req = Gate_Allow gen"
  by (auto simp: gateMutation_def split: gate_decision.splits)

interpretation recovery_gate: mutation_gate readStatus gateMutation
proof
  fix rv req h gen
  assume "gateMutation rv req h = Inr gen"
  then show "readStatus rv h = Ready_State gen \<and> (\<exists>r. req = Some r \<and> to_lower (trim_string r) = gen)"
    by (auto simp: gateMutation_allow_iff decideMutationGate_allow_iff)
next
  fix h h' :: hub and rv req
  assume "h_serviceState h = h_serviceState h'"
  then show "gateMutation rv req h = gateMutation rv req h'"
    by (simp add: gateMutation_def readStatus_control_row [of h h'])
qed

lemma new_controls_canonical:
  "rv_deployment (new_recovery_controls raw revoke owner) = Some gen \<Longrightarrow> to_lower gen = gen"
  using parseDeploymentGeneration_canonical by (simp add: new_recovery_controls_def)

lemma run_command_not_ready:
  assumes "h_serviceState h = Some row" and "\<And>gen. readStatus rv h \<noteq> Ready_State gen"
    and "\<not> completes rv now c h" and "hook_keeps_control_row rv"
  shows "readStatus rv (run_command rv now c h) \<noteq> Ready_State gen \<and>
    (\<exists>row'. h_serviceState (run_command rv now c h) = Some row')"
proof (cases c)
  case Cmd_Initialize
  with assms show ?thesis by (auto simp: initialize_def split: option.splits)
next
  case Cmd_Begin
  with assms show ?thesis
    by (auto simp: beginRecovery_def readStatus_ready_iff revokeRestoredAuth_def
        hook_keeps_control_row_def split: option.splits)
next
  case Cmd_Complete
  with assms show ?thesis
    by (auto simp: completeRecovery_def Let_def split: option.splits if_splits)
qed

lemma run_commands_ready_completes:
  assumes "hook_keeps_control_row rv" and "h_serviceState h = Some row"
    and "\<And>g. readStatus rv h \<noteq> Ready_State g"
    and "readStatus rv (run_commands rv cs h) = Ready_State gen"
  shows "some_completes rv cs h"
  using assms(2-)
proof (induction cs arbitrary: h row)
  case Nil
  then show ?case by simp
next
  case (Cons x cs)
  obtain now c where x: "x = (now, c)" by fastforce
  show ?case
  proof (cases "completes rv now c h")
    case True
    with x show ?thesis by simp
  next
    case False
    note step = run_command_not_ready [OF Cons.prems(1,2) False assms(1)]
    from step obtain row' where "h_serviceState (run_command rv now c h) = Some row'"
      by blast
    moreover have "readStatus rv (run_command rv now c h) \<noteq> Ready_State g" for g
      using step by blast
    moreover have "readStatus rv (run_commands rv cs (run_command rv now c h)) = Ready_State gen"
      using Cons.prems(3) x by simp
    ultimately have "some_completes rv cs (run_command rv now c h)" by (rule Cons.IH)
    with x show ?thesis by simp
  qed
qed

text \<open>A concrete deployment, used by the witnesses of this and later theories.\<close>

definition demo_gen :: uuid where
  "demo_gen = ''11111111-2222-4333-8444-555555555555''"

definition old_gen :: uuid where
  "old_gen = ''99999999-2222-4333-8444-555555555555''"

definition demo_controls :: recovery_controls where
  "demo_controls = new_recovery_controls (Some demo_gen) (Some (\<lambda>h. h)) (Some (\<lambda>_. True))"

definition restored_hub :: hub where
  "restored_hub = empty_hub\<lparr>h_serviceState :=
     Some \<lparr>ss_recoveryGeneration = old_gen, ss_recoveryMode = Mode_Ready, ss_updatedAt = 0\<rparr>\<rparr>"

lemma demo_gen_simps [simp]:
  "is_uuid demo_gen" "to_lower demo_gen = demo_gen" "trim_string demo_gen = demo_gen"
  "to_lower old_gen = old_gen" "old_gen \<noteq> demo_gen" "demo_gen \<noteq> old_gen"
  "is_uuid old_gen" "trim_string old_gen = old_gen"
  by code_simp+

lemma demo_deployment [simp]: "rv_deployment demo_controls = Some demo_gen"
  by (simp add: demo_controls_def new_recovery_controls_def parseDeploymentGeneration_def)

lemma demo_hooks [simp]:
  "rv_revokeRestoredAuth demo_controls = Some (\<lambda>h. h)"
  "rv_hasRegisteredOwner demo_controls = Some (\<lambda>_. True)"
  by (simp_all add: demo_controls_def new_recovery_controls_def)

lemma demo_hook_ok [simp]: "hook_keeps_control_row demo_controls"
  by (simp add: hook_keeps_control_row_def)

section \<open>Properties\<close>

text \<open>
  C11. Recovery completes exactly when the control row is reconciling under the deployed
  generation, every restored action and send has a disposition, and the owner check, where one
  is wired, holds; the completed service is ready under the deployed generation and none of its
  old-generation work is pending.
\<close>

theorem complete_recovery_sound_and_complete:
  "((\<exists>oc. fst (completeRecovery rv now h) = Complete_Completed gen oc) \<longleftrightarrow>
      readStatus rv h = Reconciling_State gen \<and>
      (\<forall>a \<in> set (h_actions h). \<not> pending_action gen a) \<and>
      (\<forall>r \<in> set (h_outbound h). \<not> pending_outbound gen r) \<and>
      (\<forall>check. rv_hasRegisteredOwner rv = Some check \<longrightarrow> check h)) \<and>
   ((\<exists>oc. fst (completeRecovery rv now h) = Complete_Completed gen oc) \<longrightarrow>
      readStatus rv (snd (completeRecovery rv now h)) = Ready_State gen \<and>
      countUndispositionedOperations gen (snd (completeRecovery rv now h)) =
        \<lparr>pc_actions = 0, pc_outboundMessages = 0\<rparr>)"
proof (intro conjI impI)
  show iff: "(\<exists>oc. fst (completeRecovery rv now h) = Complete_Completed gen oc) \<longleftrightarrow>
      readStatus rv h = Reconciling_State gen \<and>
      (\<forall>a \<in> set (h_actions h). \<not> pending_action gen a) \<and>
      (\<forall>r \<in> set (h_outbound h). \<not> pending_outbound gen r) \<and>
      (\<forall>check. rv_hasRegisteredOwner rv = Some check \<longrightarrow> check h)"
    by (auto simp: completeRecovery_completed_iff readStatus_def classifyControlState_def
        split: option.splits if_splits)
  assume c: "\<exists>oc. fst (completeRecovery rv now h) = Complete_Completed gen oc"
  with iff show "countUndispositionedOperations gen (snd (completeRecovery rv now h)) =
        \<lparr>pc_actions = 0, pc_outboundMessages = 0\<rparr>"
    by (simp add: countUndispositionedOperations_def completeRecovery_tables tbl_count_zero)
  from c show "readStatus rv (snd (completeRecovery rv now h)) = Ready_State gen"
    by (auto simp: completeRecovery_def readStatus_ready_iff Let_def split: option.splits if_splits)
qed

theorem complete_recovery_sound_and_complete_witness:
  "readStatus demo_controls (snd (completeRecovery demo_controls 6
      (snd (beginRecovery demo_controls 5 restored_hub)))) = Ready_State demo_gen"
proof -
  have "fst (completeRecovery demo_controls 6 (snd (beginRecovery demo_controls 5 restored_hub))) =
      Complete_Completed demo_gen Owner_Verified"
    by (simp add: restored_hub_def beginRecovery_def completeRecovery_def Let_def
        countUndispositionedOperations_def tbl_count_def empty_hub_def revokeRestoredAuth_def)
  with complete_recovery_sound_and_complete
    [of demo_controls 6 "snd (beginRecovery demo_controls 5 restored_hub)" demo_gen]
  show ?thesis by blast
qed

text \<open>
  Beginning a recovery revokes the restored authentication state exactly once: after a
  command that started the recovery the service is reconciling under the deployed generation,
  and every repeat of the command resumes it, adding one audit event and nothing else.
\<close>

theorem begin_recovery_revokes_once:
  assumes "hook_keeps_control_row rv" and "rv = new_recovery_controls raw revoke owner"
    and "beginRecovery rv now h = (Begin_Started gen, h1)"
  shows "readStatus rv h1 = Reconciling_State gen \<and>
    beginRecovery rv now' h1 =
      (Begin_Resumed gen,
       add_event (recovery_event ''recovery.begin''
          [(''recoveryGeneration'', JStr gen), (''resumed'', JBool True)]) h1)"
proof -
  have "rv_deployment rv = Some gen"
    using assms(3) by (auto simp: beginRecovery_def split: option.splits if_splits)
  moreover from this obtain row where "h_serviceState h1 = Some row"
    and "ss_recoveryGeneration row = gen" and "ss_recoveryMode row = Mode_Reconciling"
    using assms by (auto simp: beginRecovery_def revokeRestoredAuth_def hook_keeps_control_row_def
        split: option.splits if_splits)
  moreover from calculation assms(2) have "to_lower gen = gen"
    by (simp add: new_controls_canonical)
  ultimately show ?thesis
    by (simp add: beginRecovery_def readStatus_def classifyControlState_def)
qed

theorem begin_recovery_revokes_once_witness:
  "beginRecovery demo_controls 6 (snd (beginRecovery demo_controls 5 restored_hub)) =
     (Begin_Resumed demo_gen,
      add_event (recovery_event ''recovery.begin''
          [(''recoveryGeneration'', JStr demo_gen), (''resumed'', JBool True)])
        (snd (beginRecovery demo_controls 5 restored_hub)))"
proof -
  have "beginRecovery demo_controls 5 restored_hub =
      (Begin_Started demo_gen, snd (beginRecovery demo_controls 5 restored_hub))"
    by (simp add: beginRecovery_def restored_hub_def)
  from begin_recovery_revokes_once [OF demo_hook_ok demo_controls_def this] show ?thesis by simp
qed

text \<open>
  C12. A restored database never becomes ready by itself: from a control row that is not ready
  under the deployed generation, no sequence of operator commands makes the service ready
  unless one of them is a recovery that completes.
\<close>

theorem ready_only_through_completion:
  assumes "hook_keeps_control_row rv" and "h_serviceState h = Some row"
    and "\<forall>g. readStatus rv h \<noteq> Ready_State g"
    and "readStatus rv (run_commands rv cs h) = Ready_State gen"
  shows "some_completes rv cs h"
  using assms by (blast intro: run_commands_ready_completes)

theorem ready_only_through_completion_witness:
  "some_completes demo_controls [(5, Cmd_Begin), (6, Cmd_Complete)] restored_hub"
proof (rule ready_only_through_completion [OF demo_hook_ok])
  show "h_serviceState restored_hub =
      Some \<lparr>ss_recoveryGeneration = old_gen, ss_recoveryMode = Mode_Ready, ss_updatedAt = 0\<rparr>"
    by (simp add: restored_hub_def)
  show "\<forall>g. readStatus demo_controls restored_hub \<noteq> Ready_State g"
    by (simp add: readStatus_def classifyControlState_def restored_hub_def)
  show "readStatus demo_controls
      (run_commands demo_controls [(5, Cmd_Begin), (6, Cmd_Complete)] restored_hub) =
      Ready_State demo_gen"
    by (simp add: readStatus_def classifyControlState_def restored_hub_def beginRecovery_def
        completeRecovery_def countUndispositionedOperations_def tbl_count_def empty_hub_def
        revokeRestoredAuth_def)
qed

end
