(* ===== verification/Hub_Errors.thy ===== *)
theory Hub_Errors
  imports Recovery_Controls
begin

text \<open>
  The errors the services throw, one datatype per \<open>errors.ts\<close> with the HTTP status of each code,
  and their union \<open>hub_error\<close>, which is what a handler that calls several services can raise.
  Message texts are left out; the current revision a stale draft reports is kept.
\<close>

datatype compose_error_code =
    CE_Invalid_Request | CE_Not_Found | CE_Draft_Stale | CE_Draft_Locked | CE_Identity_Invalid
  | CE_Upload_Unverified | CE_Account_Choice_Required | CE_Identity_Choice_Required
  | CE_Recipients_Required

fun compose_http_status :: "compose_error_code \<Rightarrow> int" where
  "compose_http_status CE_Invalid_Request = 400"
| "compose_http_status CE_Not_Found = 404"
| "compose_http_status CE_Draft_Stale = 409"
| "compose_http_status CE_Draft_Locked = 423"
| "compose_http_status CE_Identity_Invalid = 400"
| "compose_http_status CE_Upload_Unverified = 409"
| "compose_http_status CE_Account_Choice_Required = 409"
| "compose_http_status CE_Identity_Choice_Required = 409"
| "compose_http_status CE_Recipients_Required = 409"

datatype send_error_code =
    SE_Invalid_Request | SE_Not_Found | SE_Draft_Stale | SE_Draft_Locked | SE_Recipients_Required
  | SE_Upload_Unverified | SE_Idempotency_Conflict | SE_Send_Unavailable | SE_Sent_Copy_Unavailable

fun send_http_status :: "send_error_code \<Rightarrow> int" where
  "send_http_status SE_Invalid_Request = 400"
| "send_http_status SE_Not_Found = 404"
| "send_http_status SE_Draft_Stale = 409"
| "send_http_status SE_Draft_Locked = 423"
| "send_http_status SE_Recipients_Required = 409"
| "send_http_status SE_Upload_Unverified = 409"
| "send_http_status SE_Idempotency_Conflict = 409"
| "send_http_status SE_Send_Unavailable = 503"
| "send_http_status SE_Sent_Copy_Unavailable = 503"

datatype action_error_code = AE_Invalid_Request | AE_Not_Found | AE_Idempotency_Conflict

fun action_http_status :: "action_error_code \<Rightarrow> int" where
  "action_http_status AE_Invalid_Request = 400"
| "action_http_status AE_Not_Found = 404"
| "action_http_status AE_Idempotency_Conflict = 409"

text \<open>
  \<open>Unique_Violation\<close> is PostgreSQL's code 23505, \<open>Storage_Failure\<close> whatever the object store or
  a parser threw, \<open>Port_Failure\<close> an error of a network session that a handler does not catch.
\<close>

datatype hub_error =
    Recovery_Err recovery_error
  | Compose_Err compose_error_code "int option"
  | Send_Err send_error_code "int option"
  | Action_Err action_error_code
  | Unique_Violation
  | Storage_Failure
  | Port_Failure string
  | Acceptance_Superseded

abbreviation compose_fail :: "compose_error_code \<Rightarrow> hub_error" where
  "compose_fail c \<equiv> Compose_Err c None"

abbreviation send_fail :: "send_error_code \<Rightarrow> hub_error" where
  "send_fail c \<equiv> Send_Err c None"

end
