(* ===== verification/Compose_Validation.thy ===== *)
theory Compose_Validation
  imports Hub_Errors
begin

text \<open>
  Input validation for composing, \<open>packages/compose/src/validation.ts\<close>: identities, recipient
  lists, subjects, Markdown, file names, media types and upload sizes. The regular expressions
  are written out as recognisers; a value is normalised or refused with a compose error.
\<close>

section \<open>Bounds\<close>

definition NAME_MAX :: nat where "NAME_MAX = 128"
definition SUBJECT_MAX :: nat where "SUBJECT_MAX = 998"
definition MARKDOWN_MAX :: nat where "MARKDOWN_MAX = 1000000"
definition FILENAME_MAX :: nat where "FILENAME_MAX = 255"
definition CONTENT_TYPE_MAX :: nat where "CONTENT_TYPE_MAX = 255"
definition LIST_MAX :: nat where "LIST_MAX = 100"
definition UPLOAD_MAX_BYTES :: nat where "UPLOAD_MAX_BYTES = 25 * 1024 * 1024"
definition ATTACHMENTS_TOTAL_MAX_BYTES :: int where "ATTACHMENTS_TOTAL_MAX_BYTES = 32 * 1024 * 1024"

section \<open>Recognisers\<close>

definition is_alnum_lower :: "char \<Rightarrow> bool" where
  "is_alnum_lower c = (let n = char_code c in (97 \<le> n \<and> n \<le> 122) \<or> (48 \<le> n \<and> n \<le> 57))"

definition is_local_char :: "char \<Rightarrow> bool" where
  "is_local_char c = (is_alnum_lower c \<or> c \<in> set ''.!#$%&*+/=?^_{|}~-'' \<or> c = CHR 0x27 \<or> c = CHR 0x60)"

fun split_on :: "char \<Rightarrow> string \<Rightarrow> string list" where
  "split_on d [] = [[]]"
| "split_on d (c # cs) =
     (if c = d then [] # split_on d cs
      else (case split_on d cs of [] \<Rightarrow> [[c]] | w # ws \<Rightarrow> (c # w) # ws))"

definition is_domain_label :: "string \<Rightarrow> bool" where
  "is_domain_label w \<longleftrightarrow>
     1 \<le> length w \<and> length w \<le> 63 \<and> is_alnum_lower (hd w) \<and> is_alnum_lower (last w) \<and>
     list_all (\<lambda>c. is_alnum_lower c \<or> c = CHR 0x2D) w"

text \<open>\<open>EMAIL_PATTERN\<close>: a local part, one at sign, and at least two domain labels.\<close>

definition is_email :: "string \<Rightarrow> bool" where
  "is_email s =
     (let loc = takeWhile (\<lambda>c. c \<noteq> CHR 0x40) s;
          rest = dropWhile (\<lambda>c. c \<noteq> CHR 0x40) s
      in 1 \<le> length loc \<and> length loc \<le> 64 \<and> list_all is_local_char loc \<and> rest \<noteq> [] \<and>
         (let labels = split_on (CHR 0x2E) (tl rest)
          in 2 \<le> length labels \<and> list_all is_domain_label labels))"

definition is_control :: "char \<Rightarrow> bool" where
  "is_control c = (let n = char_code c in n \<le> 31 \<or> (127 \<le> n \<and> n \<le> 159))"

definition is_type_char :: "char \<Rightarrow> bool" where
  "is_type_char c = (is_alnum_lower c \<or> c = CHR 0x2D \<or> c = CHR 0x2E)"

definition is_content_type :: "string \<Rightarrow> bool" where
  "is_content_type s =
     (let major = takeWhile (\<lambda>c. c \<noteq> CHR 0x2F) s;
          rest = dropWhile (\<lambda>c. c \<noteq> CHR 0x2F) s
      in major \<noteq> [] \<and> list_all is_type_char major \<and> rest \<noteq> [] \<and> tl rest \<noteq> [] \<and>
         list_all (\<lambda>c. is_type_char c \<or> c = CHR 0x2B \<or> c = CHR 0x2A) (tl rest))"

section \<open>Normalisation\<close>

definition normalizeEmailAddress :: "string \<Rightarrow> hub_error + string" where
  "normalizeEmailAddress input =
     (let trimmed = to_lower (trim_string input)
      in if is_email trimmed then Inr trimmed else Inl (compose_fail CE_Invalid_Request))"

definition normalizeAddressName :: "string option \<Rightarrow> hub_error + string option" where
  "normalizeAddressName input =
     (case input of
        None \<Rightarrow> Inr None
      | Some s \<Rightarrow>
          (let trimmed = trim_string s
           in if trimmed = [] then Inr None
              else if NAME_MAX < length trimmed \<or> list_ex is_control trimmed
              then Inl (compose_fail CE_Invalid_Request)
              else Inr (Some trimmed)))"

definition normalizeSubject :: "string option \<Rightarrow> hub_error + string option" where
  "normalizeSubject input =
     (case input of
        None \<Rightarrow> Inr None
      | Some s \<Rightarrow>
          (let trimmed = trim_string s
           in if trimmed = [] then Inr None
              else if SUBJECT_MAX < length trimmed \<or> list_ex is_control trimmed
              then Inl (compose_fail CE_Invalid_Request)
              else Inr (Some trimmed)))"

definition normalizeMarkdown :: "string option \<Rightarrow> hub_error + string" where
  "normalizeMarkdown input =
     (case input of
        None \<Rightarrow> Inr []
      | Some s \<Rightarrow>
          if MARKDOWN_MAX < length s then Inl (compose_fail CE_Invalid_Request) else Inr s)"

text \<open>The identity choice: an absent one takes the default, or the first where none is marked.\<close>

definition identity_of :: "account_identity \<Rightarrow> email_address" where
  "identity_of i = \<lparr>ea_address = ai_address i, ea_name = ai_name i\<rparr>"

definition resolveIdentity :: "account_identity list \<Rightarrow> string option \<Rightarrow> hub_error + email_address" where
  "resolveIdentity configured requested =
     (case configured of
        [] \<Rightarrow> Inl (compose_fail CE_Identity_Invalid)
      | first # _ \<Rightarrow>
          (case requested of
             None \<Rightarrow>
               Inr (identity_of (case find ai_isDefault configured of None \<Rightarrow> first | Some i \<Rightarrow> i))
           | Some wanted \<Rightarrow>
               (case normalizeEmailAddress wanted of
                  Inl e \<Rightarrow> Inl e
                | Inr address \<Rightarrow>
                    (case find (\<lambda>i. ai_address i = address) configured of
                       None \<Rightarrow> Inl (compose_fail CE_Identity_Invalid)
                     | Some i \<Rightarrow> Inr (identity_of i)))))"

text \<open>The loop of \<open>normalizeAddressList\<close>, with the addresses it has seen.\<close>

fun normalize_addresses ::
    "email_address list \<Rightarrow> string list \<Rightarrow> hub_error + email_address list" where
  "normalize_addresses [] seen = Inr []"
| "normalize_addresses (item # items) seen =
     (case normalizeEmailAddress (ea_address item) of
        Inl e \<Rightarrow> Inl e
      | Inr address \<Rightarrow>
          if address \<in> set seen then Inl (compose_fail CE_Invalid_Request)
          else
            (case normalizeAddressName (ea_name item) of
               Inl e \<Rightarrow> Inl e
             | Inr name \<Rightarrow>
                 (case normalize_addresses items (address # seen) of
                    Inl e \<Rightarrow> Inl e
                  | Inr rest \<Rightarrow> Inr (\<lparr>ea_address = address, ea_name = name\<rparr> # rest))))"

definition normalizeAddressList :: "email_address list option \<Rightarrow> hub_error + email_address list" where
  "normalizeAddressList input =
     (case input of
        None \<Rightarrow> Inr []
      | Some items \<Rightarrow>
          if LIST_MAX < length items then Inl (compose_fail CE_Invalid_Request)
          else normalize_addresses items [])"

definition dropSeen :: "email_address list \<Rightarrow> email_address list list \<Rightarrow> email_address list" where
  "dropSeen xs earlier = filter (\<lambda>a. ea_address a \<notin> set (map ea_address (concat earlier))) xs"

definition normalizeRecipients :: "recipients option \<Rightarrow> hub_error + recipients" where
  "normalizeRecipients input =
     (case input of
        None \<Rightarrow> Inr \<lparr>rc_to = [], rc_cc = Some [], rc_bcc = Some []\<rparr>
      | Some r \<Rightarrow>
          (case normalizeAddressList (Some (rc_to r)) of
             Inl e \<Rightarrow> Inl e
           | Inr to \<Rightarrow>
               (case normalizeAddressList (rc_cc r) of
                  Inl e \<Rightarrow> Inl e
                | Inr cc0 \<Rightarrow>
                    (let cc = dropSeen cc0 [to]
                     in case normalizeAddressList (rc_bcc r) of
                          Inl e \<Rightarrow> Inl e
                        | Inr bcc0 \<Rightarrow>
                            Inr \<lparr>rc_to = to, rc_cc = Some cc,
                                 rc_bcc = Some (dropSeen bcc0 [to, cc])\<rparr>))))"

definition normalizeFilename :: "string \<Rightarrow> hub_error + string" where
  "normalizeFilename input =
     (let trimmed = trim_string input
      in if trimmed = [] \<or> FILENAME_MAX < length trimmed \<or> trimmed = ''.'' \<or> trimmed = ''..'' \<or>
            list_ex is_control trimmed
         then Inl (compose_fail CE_Invalid_Request) else Inr trimmed)"

definition normalizeContentType :: "string option \<Rightarrow> hub_error + string" where
  "normalizeContentType input =
     (let given = (case input of None \<Rightarrow> [] | Some s \<Rightarrow> s);
          mediaType = to_lower (trim_string (hd (split_on (CHR 0x3B) given)))
      in if mediaType = [] then Inr ''application/octet-stream''
         else if CONTENT_TYPE_MAX < length mediaType \<or> \<not> is_content_type mediaType
         then Inl (compose_fail CE_Invalid_Request)
         else Inr mediaType)"

definition validateUploadBytes :: "bytes \<Rightarrow> hub_error + unit" where
  "validateUploadBytes bs =
     (if bs = [] then Inl (compose_fail CE_Invalid_Request)
      else if UPLOAD_MAX_BYTES < length bs then Inl (compose_fail CE_Invalid_Request)
      else Inr ())"

section \<open>Lemmas\<close>

lemma split_on_nonempty: "split_on d s \<noteq> []"
  by (induction s) (auto split: list.splits)

lemma email_no_space:
  assumes "is_email s" and "c \<in> set s"
  shows "\<not> is_space c"
proof -
  have sp: "set s = set (takeWhile (\<lambda>c. c \<noteq> CHR 0x40) s) \<union> set (dropWhile (\<lambda>c. c \<noteq> CHR 0x40) s)"
    by (metis set_append takeWhile_dropWhile_id)
  have alnum: "is_alnum_lower d \<Longrightarrow> \<not> is_space d" for d
    by (auto simp: is_alnum_lower_def is_space_def Let_def)
  have loc: "is_local_char d \<Longrightarrow> \<not> is_space d" for d
    using alnum by (auto simp: is_local_char_def) (auto simp: is_space_def char_code_def)
  have split: "d \<in> set t \<Longrightarrow> d = x \<or> (\<exists>w \<in> set (split_on x t). d \<in> set w)" for d x t
    by (induction t) (auto split: list.splits)
  have label: "is_domain_label w \<Longrightarrow> d \<in> set w \<Longrightarrow> \<not> is_space d" for d w
    by (auto simp: is_domain_label_def list_all_iff dest!: bspec alnum)
       (simp add: is_space_def char_code_def)
  have dot: "\<not> is_space (CHR 0x2E)" "\<not> is_space (CHR 0x40)"
    by (simp_all add: is_space_def char_code_def)
  show ?thesis
  proof (cases "c \<in> set (takeWhile (\<lambda>c. c \<noteq> CHR 0x40) s)")
    case True
    with assms loc show ?thesis by (auto simp: is_email_def Let_def list_all_iff)
  next
    case False
    with assms sp have c: "c \<in> set (dropWhile (\<lambda>c. c \<noteq> CHR 0x40) s)" by blast
    then have "dropWhile (\<lambda>c. c \<noteq> CHR 0x40) s \<noteq> []" by (metis empty_iff empty_set)
    moreover from hd_dropWhile [OF this] have "hd (dropWhile (\<lambda>c. c \<noteq> CHR 0x40) s) = CHR 0x40"
      by simp
    ultimately consider "c = CHR 0x40" | "c \<in> set (tl (dropWhile (\<lambda>c. c \<noteq> CHR 0x40) s))"
      using c by (metis list.exhaust_sel set_ConsD)
    then show ?thesis
    proof cases
      case 1
      with dot show ?thesis by simp
    next
      case 2
      with split [OF 2, of "CHR 0x2E"] assms(1) label dot show ?thesis
        by (auto simp: is_email_def Let_def list_all_iff)
    qed
  qed
qed

lemma normalizeEmailAddress_canonical:
  assumes "normalizeEmailAddress s = Inr a"
  shows "is_email a \<and> to_lower a = a \<and> trim_string a = a"
  using assms email_no_space
  by (auto simp: normalizeEmailAddress_def Let_def trim_string_nonspace_id split: if_splits)

lemma normalizeEmailAddress_idem:
  "normalizeEmailAddress s = Inr a \<Longrightarrow> normalizeEmailAddress a = Inr a"
  using normalizeEmailAddress_canonical [of s a] by (simp add: normalizeEmailAddress_def)

lemma trim_string_idem [simp]: "trim_string (trim_string s) = trim_string s"
proof -
  have hd_ok: "dropWhile P t \<noteq> [] \<Longrightarrow> \<not> P (hd (dropWhile P t))" for P and t :: string
    by (rule hd_dropWhile)
  define u where "u = dropWhile is_space s"
  define v where "v = rev (dropWhile is_space (rev u))"
  have "dropWhile is_space v = v"
  proof (cases "v = []")
    case False
    have pre: "\<exists>zs. u = v @ zs"
      unfolding v_def by (metis rev_append rev_rev_ident takeWhile_dropWhile_id)
    with False have "hd v = hd u" by auto
    moreover have "u \<noteq> []" using pre False by auto
    ultimately have "\<not> is_space (hd v)" using hd_ok [of is_space s] u_def by simp
    with False show ?thesis by (cases v) auto
  qed simp
  moreover have "rev (dropWhile is_space (rev v)) = v"
    unfolding v_def by (simp add: dropWhile_no_start)
  ultimately show ?thesis
    unfolding trim_string_def u_def [symmetric] v_def [symmetric] by simp
qed

lemma normalizeAddressName_idem:
  "normalizeAddressName n = Inr m \<Longrightarrow> normalizeAddressName m = Inr m"
  by (auto simp: normalizeAddressName_def Let_def split: option.splits if_splits)

lemma normalize_addresses_distinct:
  "normalize_addresses xs seen = Inr ys \<Longrightarrow>
     distinct (map ea_address ys) \<and> set (map ea_address ys) \<inter> set seen = {} \<and>
     length ys = length xs \<and> (\<forall>y \<in> set ys. is_email (ea_address y))"
proof (induction xs arbitrary: seen ys)
  case Nil
  then show ?case by simp
next
  case (Cons x xs)
  then obtain a n rest where a: "normalizeEmailAddress (ea_address x) = Inr a"
    and nin: "a \<notin> set seen" and "normalizeAddressName (ea_name x) = Inr n"
    and rest: "normalize_addresses xs (a # seen) = Inr rest"
    and ys: "ys = \<lparr>ea_address = a, ea_name = n\<rparr> # rest"
    by (auto split: sum.splits if_splits)
  from Cons.IH [OF rest] normalizeEmailAddress_canonical [OF a] nin ys show ?case by auto
qed

lemma normalize_addresses_idem:
  "normalize_addresses xs seen = Inr ys \<Longrightarrow> set seen' \<inter> set (map ea_address ys) = {} \<Longrightarrow>
     normalize_addresses ys seen' = Inr ys"
proof (induction xs arbitrary: seen seen' ys)
  case Nil
  then show ?case by simp
next
  case (Cons x xs)
  then obtain a n rest where a: "normalizeEmailAddress (ea_address x) = Inr a"
    and n: "normalizeAddressName (ea_name x) = Inr n"
    and rest: "normalize_addresses xs (a # seen) = Inr rest"
    and ys: "ys = \<lparr>ea_address = a, ea_name = n\<rparr> # rest"
    by (auto split: sum.splits if_splits)
  have "a \<notin> set (map ea_address rest)"
    using normalize_addresses_distinct [OF rest] by auto
  with Cons.prems(2) ys have "set (a # seen') \<inter> set (map ea_address rest) = {}" by auto
  from Cons.IH [OF rest this] Cons.prems(2) ys a n show ?case
    by (simp add: normalizeEmailAddress_idem normalizeAddressName_idem)
qed

lemma normalizeAddressList_fixed:
  assumes "normalizeAddressList input = Inr ys" and "zs = filter P ys"
  shows "normalizeAddressList (Some zs) = Inr zs"
proof -
  have fil: "normalize_addresses xs seen = Inr us \<Longrightarrow>
      set seen' \<inter> set (map ea_address us) = {} \<Longrightarrow>
      normalize_addresses (filter P us) seen' = Inr (filter P us)" for xs seen seen' us
  proof (induction xs arbitrary: seen seen' us)
    case Nil
    then show ?case by simp
  next
    case (Cons x xs)
    then obtain a n rest where a: "normalizeEmailAddress (ea_address x) = Inr a"
      and n: "normalizeAddressName (ea_name x) = Inr n"
      and rest: "normalize_addresses xs (a # seen) = Inr rest"
      and us: "us = \<lparr>ea_address = a, ea_name = n\<rparr> # rest"
      by (auto split: sum.splits if_splits)
    have "a \<notin> set (map ea_address rest)"
      using normalize_addresses_distinct [OF rest] by auto
    with Cons.prems(2) us have "set (a # seen') \<inter> set (map ea_address rest) = {}"
      and "set seen' \<inter> set (map ea_address rest) = {}" by auto
    with Cons.IH [OF rest] Cons.prems(2) us a n show ?case
      by (simp add: normalizeEmailAddress_idem normalizeAddressName_idem)
  qed
  show ?thesis
  proof (cases input)
    case None
    with assms show ?thesis by (simp add: normalizeAddressList_def)
  next
    case (Some xs)
    with assms(1) have l: "length xs \<le> LIST_MAX" and n: "normalize_addresses xs [] = Inr ys"
      by (auto simp: normalizeAddressList_def split: if_splits)
    from normalize_addresses_distinct [OF n] l have "length zs \<le> LIST_MAX"
      unfolding assms(2) using length_filter_le [of P ys] by linarith
    with fil [OF n, of "[]"] assms(2) show ?thesis by (simp add: normalizeAddressList_def)
  qed
qed

lemma dropSeen_disjoint:
  "t \<in> set es \<Longrightarrow> set (map ea_address (dropSeen xs es)) \<inter> set (map ea_address t) = {}"
  by (auto simp: dropSeen_def)

lemma dropSeen_distinct:
  "distinct (map ea_address xs) \<Longrightarrow> distinct (map ea_address (dropSeen xs es))"
  by (simp add: dropSeen_def distinct_map_filter)

lemma dropSeen_subset: "set (dropSeen xs es) \<subseteq> set xs"
  by (auto simp: dropSeen_def)

section \<open>Properties\<close>

text \<open>
  Normalised recipient lists are a fixed point of the normalisation: storing a draft and
  normalising what was read back (as every draft read does) never fails and never changes the
  lists. No address appears twice across To, Cc and Bcc, and every one is a valid address.
\<close>

theorem normalizeRecipients_fixed_point:
  assumes "normalizeRecipients input = Inr r"
  shows "normalizeRecipients (Some r) = Inr r \<and>
    (let all = rc_to r @ the (rc_cc r) @ the (rc_bcc r)
     in distinct (map ea_address all) \<and> list_all (\<lambda>a. is_email (ea_address a)) all)"
proof (cases input)
  case None
  with assms show ?thesis
    by (auto simp: normalizeRecipients_def normalizeAddressList_def dropSeen_def)
next
  case (Some given)
  with assms obtain to cc0 bcc0
    where to: "normalizeAddressList (Some (rc_to given)) = Inr to"
      and cc0: "normalizeAddressList (rc_cc given) = Inr cc0"
      and bcc0: "normalizeAddressList (rc_bcc given) = Inr bcc0"
      and r: "r = \<lparr>rc_to = to, rc_cc = Some (dropSeen cc0 [to]),
                   rc_bcc = Some (dropSeen bcc0 [to, dropSeen cc0 [to]])\<rparr>"
    by (auto simp: normalizeRecipients_def Let_def split: sum.splits)
  have d: "distinct (map ea_address ys) \<and> (\<forall>y \<in> set ys. is_email (ea_address y))"
    if "normalizeAddressList inp = Inr ys" for inp ys
    using that normalize_addresses_distinct
    by (auto simp: normalizeAddressList_def split: option.splits if_splits)
  have idem: "dropSeen (dropSeen xs e) e = dropSeen xs e" for xs e
    by (simp add: dropSeen_def)
  have "normalizeAddressList (Some to) = Inr to"
    using normalizeAddressList_fixed [OF to, of to "\<lambda>_. True"] by simp
  moreover have "normalizeAddressList (Some (dropSeen cc0 [to])) = Inr (dropSeen cc0 [to])"
    by (rule normalizeAddressList_fixed [OF cc0]) (simp add: dropSeen_def)
  moreover have "normalizeAddressList (Some (dropSeen bcc0 [to, dropSeen cc0 [to]])) =
      Inr (dropSeen bcc0 [to, dropSeen cc0 [to]])"
    by (rule normalizeAddressList_fixed [OF bcc0]) (simp add: dropSeen_def)
  ultimately have "normalizeRecipients (Some r) = Inr r"
    by (simp add: normalizeRecipients_def r idem Let_def)
  moreover have "distinct (map ea_address (to @ dropSeen cc0 [to] @
      dropSeen bcc0 [to, dropSeen cc0 [to]]))"
    using d [OF to] dropSeen_distinct [of cc0 "[to]"] d [OF cc0]
      dropSeen_distinct [of bcc0 "[to, dropSeen cc0 [to]]"] d [OF bcc0]
      dropSeen_disjoint [of to "[to]" cc0]
      dropSeen_disjoint [of to "[to, dropSeen cc0 [to]]" bcc0]
      dropSeen_disjoint [of "dropSeen cc0 [to]" "[to, dropSeen cc0 [to]]" bcc0]
    by (simp only: map_append distinct_append set_append) auto
  moreover have "list_all (\<lambda>a. is_email (ea_address a)) (to @ dropSeen cc0 [to] @
      dropSeen bcc0 [to, dropSeen cc0 [to]])"
    using d [OF to] d [OF cc0] d [OF bcc0] dropSeen_subset by (fastforce simp: list_all_iff)
  ultimately show ?thesis by (simp add: r Let_def)
qed

definition demo_recipients :: recipients where
  "demo_recipients =
     \<lparr>rc_to = [\<lparr>ea_address = ''A@x.org'', ea_name = None\<rparr>],
      rc_cc = Some [\<lparr>ea_address = ''a@x.org'', ea_name = None\<rparr>], rc_bcc = None\<rparr>"

theorem normalizeRecipients_fixed_point_witness:
  "normalizeRecipients (Some demo_recipients) =
     Inr \<lparr>rc_to = [\<lparr>ea_address = ''a@x.org'', ea_name = None\<rparr>], rc_cc = Some [], rc_bcc = Some []\<rparr> \<and>
   normalizeRecipients (Some \<lparr>rc_to = [\<lparr>ea_address = ''a@x.org'', ea_name = None\<rparr>],
      rc_cc = Some [], rc_bcc = Some []\<rparr>) =
     Inr \<lparr>rc_to = [\<lparr>ea_address = ''a@x.org'', ea_name = None\<rparr>], rc_cc = Some [], rc_bcc = Some []\<rparr>"
proof -
  have "normalizeRecipients (Some demo_recipients) =
     Inr \<lparr>rc_to = [\<lparr>ea_address = ''a@x.org'', ea_name = None\<rparr>], rc_cc = Some [], rc_bcc = Some []\<rparr>"
    by code_simp
  with normalizeRecipients_fixed_point [OF this] show ?thesis by blast
qed

end
