(* ===== verification/Compose_Reply.thy ===== *)
theory Compose_Reply
  imports Compose_Validation
begin

text \<open>
  Reply addressing and frozen reply headers, \<open>packages/compose/src/reply.ts\<close>, with the cap on
  derived quotes from \<open>service.ts\<close>. Everything is a function of one parent message row and the
  configured identities.
\<close>

section \<open>Message identifiers\<close>

definition is_id_char :: "char \<Rightarrow> bool" where
  "is_id_char c = (\<not> is_space c \<and> c \<noteq> CHR 0x3C \<and> c \<noteq> CHR 0x3E)"

text \<open>
  \<open>matchAll\<close> of \<open>MESSAGE_ID_PATTERN\<close>: after an opening bracket, the run of identifier characters
  counts when it is not empty and a closing bracket follows; otherwise the scan goes on one
  character later.
\<close>

function match_ids :: "string \<Rightarrow> string list" where
  "match_ids [] = []"
| "match_ids (c # cs) =
     (let run = takeWhile is_id_char cs; rest = dropWhile is_id_char cs
      in if c = CHR 0x3C \<and> run \<noteq> [] \<and> rest \<noteq> [] \<and> hd rest = CHR 0x3E
         then (CHR 0x3C # run @ [CHR 0x3E]) # match_ids (tl rest)
         else match_ids cs)"
  by pat_completeness auto
termination
proof (relation "measure length", goal_cases)
  case (2 c cs run rest)
  have "length (dropWhile is_id_char cs) \<le> length cs" by (rule length_dropWhile_le)
  then show ?case using 2 by simp
qed simp_all

fun dedupe_from :: "string list \<Rightarrow> string list \<Rightarrow> string list" where
  "dedupe_from seen [] = []"
| "dedupe_from seen (i # is) =
     (if i \<in> set seen then dedupe_from seen is else i # dedupe_from (i # seen) is)"

definition dedupeIds :: "string list \<Rightarrow> string list" where
  "dedupeIds ids = dedupe_from [] ids"

definition extractValidMessageIds :: "string option \<Rightarrow> string list" where
  "extractValidMessageIds raw =
     (case raw of
        None \<Rightarrow> []
      | Some s \<Rightarrow> if s = [] then [] else dedupeIds (match_ids s))"

record frozen_references =
  fr_inReplyTo :: "string option"
  fr_referenceIds :: "string list"

definition freezeReplyReferences ::
    "string option \<Rightarrow> string option \<Rightarrow> string list \<Rightarrow> frozen_references" where
  "freezeReplyReferences messageId inReplyTo referenceIds =
     (let ownIds = extractValidMessageIds messageId;
          parentMessageId = (case ownIds of [i] \<Rightarrow> Some i | _ \<Rightarrow> None);
          references = dedupeIds (concat (map (\<lambda>i. extractValidMessageIds (Some i)) referenceIds));
          replyIds = extractValidMessageIds inReplyTo;
          ancestors = (if references \<noteq> [] then references
                       else (case replyIds of [i] \<Rightarrow> [i] | _ \<Rightarrow> []));
          chain = (case parentMessageId of
                     None \<Rightarrow> ancestors
                   | Some p \<Rightarrow> dedupeIds (ancestors @ [p]))
      in \<lparr>fr_inReplyTo = parentMessageId, fr_referenceIds = chain\<rparr>)"

section \<open>Addresses\<close>

definition addressKey :: "string \<Rightarrow> string" where
  "addressKey address = to_lower (trim_string address)"

definition preselectReplyIdentity :: "message_row \<Rightarrow> account_identity list \<Rightarrow> account_identity option" where
  "preselectReplyIdentity parent configured =
     (let own = (case ms_sender parent of
                   None \<Rightarrow> None
                 | Some s \<Rightarrow>
                     find (\<lambda>i. addressKey (ai_address i) = addressKey (ea_address s)) configured)
      in case own of
           Some i \<Rightarrow> Some i
         | None \<Rightarrow>
             (let visible = (case ms_recipients parent of
                               None \<Rightarrow> []
                             | Some r \<Rightarrow> map (\<lambda>e. addressKey (ea_address e))
                                 (rc_to r @ (case rc_cc r of None \<Rightarrow> [] | Some cc \<Rightarrow> cc)));
                  matches = filter (\<lambda>i. addressKey (ai_address i) \<in> set visible) configured
              in (case matches of [i] \<Rightarrow> Some i | _ \<Rightarrow> None)))"

definition derivedAddress :: "email_address \<Rightarrow> hub_error + string" where
  "derivedAddress entry =
     (case normalizeEmailAddress (ea_address entry) of
        Inl _ \<Rightarrow> Inl (compose_fail CE_Recipients_Required)
      | Inr a \<Rightarrow> Inr a)"

definition derivedName :: "email_address \<Rightarrow> string option" where
  "derivedName entry =
     (case ea_name entry of
        None \<Rightarrow> None
      | Some n \<Rightarrow> (case normalizeAddressName (Some n) of Inl _ \<Rightarrow> None | Inr m \<Rightarrow> m))"

fun usable_from :: "string list \<Rightarrow> string list \<Rightarrow> email_address list \<Rightarrow> hub_error + email_address list" where
  "usable_from own seen [] = Inr []"
| "usable_from own seen (entry # entries) =
     attempt (derivedAddress entry) (\<lambda>address.
       if address \<in> set own \<or> address \<in> set seen then usable_from own seen entries
       else attempt (usable_from own (address # seen) entries) (\<lambda>rest.
              Inr (\<lparr>ea_address = address, ea_name = derivedName entry\<rparr> # rest)))"

definition usableAddresses ::
    "email_address list \<Rightarrow> string list \<Rightarrow> email_address list \<Rightarrow> hub_error + email_address list" where
  "usableAddresses entries own earlier = usable_from own (map ea_address earlier) entries"

definition primaryRecipients :: "message_row \<Rightarrow> hub_error + email_address list" where
  "primaryRecipients parent =
     (case ms_replyTo parent of
        None \<Rightarrow> Inr (case ms_sender parent of None \<Rightarrow> [] | Some s \<Rightarrow> [s])
      | Some [] \<Rightarrow> Inl (compose_fail CE_Recipients_Required)
      | Some (a # as) \<Rightarrow> Inr (a # as))"

datatype reply_mode = Reply | Reply_All

definition visible_lists :: "message_row \<Rightarrow> email_address list \<times> email_address list" where
  "visible_lists parent =
     (case ms_recipients parent of
        None \<Rightarrow> ([], [])
      | Some r \<Rightarrow> (rc_to r, case rc_cc r of None \<Rightarrow> [] | Some cc \<Rightarrow> cc))"

definition deriveReplyRecipients ::
    "message_row \<Rightarrow> account_identity list \<Rightarrow> reply_mode \<Rightarrow> hub_error + recipients" where
  "deriveReplyRecipients parent identities mode =
     (let own = map (\<lambda>i. addressKey (ai_address i)) identities;
          senderIsOwn = (case ms_sender parent of
                           None \<Rightarrow> False | Some s \<Rightarrow> addressKey (ea_address s) \<in> set own);
          (visTo, visCc) = visible_lists parent;
          needed = compose_fail CE_Recipients_Required
      in if senderIsOwn then
           attempt (usableAddresses visTo own []) (\<lambda>to.
           attempt (usableAddresses visCc own to) (\<lambda>cc.
           require (to @ cc \<noteq> []) needed
             (Inr \<lparr>rc_to = to, rc_cc = Some cc, rc_bcc = None\<rparr>)))
         else
           attempt (primaryRecipients parent) (\<lambda>primary.
           attempt (usableAddresses primary own []) (\<lambda>to.
           if mode = Reply then
             require (to \<noteq> []) needed (Inr \<lparr>rc_to = to, rc_cc = Some [], rc_bcc = None\<rparr>)
           else
             attempt (usableAddresses (visTo @ visCc) own to) (\<lambda>cc.
             require (to @ cc \<noteq> []) needed
               (Inr \<lparr>rc_to = to, rc_cc = Some cc, rc_bcc = None\<rparr>)))))"

section \<open>Subject and quote\<close>

definition has_re_prefix :: "string \<Rightarrow> bool" where
  "has_re_prefix s = (to_lower (take 3 s) = ''re:'')"

definition replySubject :: "string option \<Rightarrow> string option" where
  "replySubject parentSubject =
     (case parentSubject of
        None \<Rightarrow> None
      | Some s \<Rightarrow>
          (let trimmed = trim_string s
           in if trimmed = [] then None
              else
                (let prefixed = (if has_re_prefix trimmed then trimmed else ''Re: '' @ trimmed)
                 in case normalizeSubject (Some prefixed) of Inl _ \<Rightarrow> None | Inr t \<Rightarrow> t)))"

text \<open>
  The marker of a trimmed quote is a line break, a quote mark and an ellipsis in brackets. The
  ellipsis is one code unit above 255, written here as \<open>CHR 0x85\<close>; only the length of the marker
  enters a computation. \<open>before_last_line\<close> is \<open>slice(0, lastIndexOf("\n"))\<close>, or the
  whole text where no line break is found.
\<close>

definition QUOTE_MARKER :: string where
  "QUOTE_MARKER = [CHR 0x0A] @ ''> ['' @ [CHR 0x85] @ '']''"

definition before_last_line :: "string \<Rightarrow> string" where
  "before_last_line s =
     (if CHR 0x0A \<in> set s then rev (tl (dropWhile (\<lambda>c. c \<noteq> CHR 0x0A) (rev s))) else s)"

definition capDerivedQuote :: "string \<Rightarrow> string" where
  "capDerivedQuote markdown =
     (if length markdown \<le> MARKDOWN_MAX then markdown
      else before_last_line (take (MARKDOWN_MAX - length QUOTE_MARKER) markdown) @ QUOTE_MARKER)"

section \<open>Lemmas\<close>

lemma dedupe_from_distinct:
  "distinct (dedupe_from seen xs) \<and> set (dedupe_from seen xs) = set xs - set seen"
  by (induction seen xs rule: dedupe_from.induct) auto

lemma dedupeIds_set [simp]: "set (dedupeIds xs) = set xs" "distinct (dedupeIds xs)"
  using dedupe_from_distinct [of "[]" xs] by (simp_all add: dedupeIds_def)

lemma dedupe_from_fresh: "distinct xs \<Longrightarrow> set xs \<inter> set seen = {} \<Longrightarrow> dedupe_from seen xs = xs"
  by (induction seen xs rule: dedupe_from.induct) auto

definition well_formed_id :: "string \<Rightarrow> bool" where
  "well_formed_id i \<longleftrightarrow>
     3 \<le> length i \<and> hd i = CHR 0x3C \<and> last i = CHR 0x3E \<and> list_all is_id_char (butlast (tl i))"

lemma match_ids_valid: "i \<in> set (match_ids s) \<Longrightarrow> well_formed_id i"
proof (induction s rule: match_ids.induct)
  case 1
  then show ?case by simp
next
  case (2 c cs)
  define run where "run = takeWhile is_id_char cs"
  define rest where "rest = dropWhile is_id_char cs"
  have r: "list_all is_id_char run"
    by (auto simp: run_def list_all_iff dest: set_takeWhileD)
  show ?case
  proof (cases "c = CHR 0x3C \<and> run \<noteq> [] \<and> rest \<noteq> [] \<and> hd rest = CHR 0x3E")
    case True
    with 2 have "i = CHR 0x3C # run @ [CHR 0x3E] \<or> i \<in> set (match_ids (tl rest))"
      by (auto simp: run_def rest_def Let_def)
    moreover have "well_formed_id (CHR 0x3C # run @ [CHR 0x3E])"
      using r True by (cases run) (auto simp: well_formed_id_def butlast_append)
    ultimately show ?thesis using 2 True by (auto simp: run_def rest_def)
  next
    case False
    with 2 show ?thesis by (auto simp: run_def rest_def Let_def split: if_splits)
  qed
qed

lemma extractValidMessageIds_valid:
  "i \<in> set (extractValidMessageIds raw) \<Longrightarrow> well_formed_id i"
  by (auto simp: extractValidMessageIds_def match_ids_valid split: option.splits if_splits)

lemma match_ids_single:
  assumes "run \<noteq> []" and "list_all is_id_char run"
  shows "match_ids (CHR 0x3C # run @ [CHR 0x3E]) = [CHR 0x3C # run @ [CHR 0x3E]]"
proof -
  have n: "\<not> is_id_char (CHR 0x3E)" by (simp add: is_id_char_def)
  from assms(2) have "takeWhile is_id_char (run @ [CHR 0x3E]) = run"
    and "dropWhile is_id_char (run @ [CHR 0x3E]) = [CHR 0x3E]"
    using n by (simp_all add: list_all_iff takeWhile_append dropWhile_append)
  with assms(1) show ?thesis by simp
qed

lemma usable_from_sound:
  "usable_from own seen es = Inr out \<Longrightarrow>
     distinct (map ea_address out) \<and>
     set (map ea_address out) \<inter> (set own \<union> set seen) = {} \<and>
     (\<forall>a \<in> set out. is_email (ea_address a) \<and> normalizeEmailAddress (ea_address a) = Inr (ea_address a) \<and>
        normalizeAddressName (ea_name a) = Inr (ea_name a))"
proof (induction es arbitrary: seen out)
  case Nil
  then show ?case by simp
next
  case (Cons e es)
  from Cons.prems obtain a where a: "normalizeEmailAddress (ea_address e) = Inr a"
    by (auto simp: tx_simps derivedAddress_def split: sum.splits)
  then have d: "derivedAddress e = Inr a" by (simp add: derivedAddress_def)
  have name: "normalizeAddressName (derivedName e) = Inr (derivedName e)"
  proof (cases "normalizeAddressName (ea_name e)")
    case (Inl x)
    then show ?thesis
      by (auto simp: derivedName_def normalizeAddressName_def split: option.splits)
  next
    case (Inr n)
    with normalizeAddressName_idem [OF Inr] show ?thesis
      by (cases "ea_name e") (simp_all add: derivedName_def normalizeAddressName_def)
  qed
  show ?case
  proof (cases "a \<in> set own \<or> a \<in> set seen")
    case True
    with Cons d show ?thesis by simp
  next
    case False
    with Cons.prems d obtain rest where rest: "usable_from own (a # seen) es = Inr rest"
      and out: "out = \<lparr>ea_address = a, ea_name = derivedName e\<rparr> # rest"
      by (auto simp: tx_simps)
    from Cons.IH [OF rest] False out name normalizeEmailAddress_idem [OF a]
      normalizeEmailAddress_canonical [OF a]
    show ?thesis by auto
  qed
qed

lemma length_before_last_line: "length (before_last_line s) \<le> length s"
proof -
  have "length (dropWhile (\<lambda>c. c \<noteq> CHR 0x0A) (rev s)) \<le> length s"
    using length_dropWhile_le [of "\<lambda>c. c \<noteq> CHR 0x0A" "rev s"] by simp
  then show ?thesis by (auto simp: before_last_line_def)
qed

section \<open>Properties\<close>

text \<open>
  Derived reply recipients are sendable and never include the replier: every derived address
  is valid and in draft form, none occurs twice across To and Cc, none is a configured identity
  of the account, and at least one remains. No blind-copy list is ever derived.
\<close>

theorem reply_recipients_sound:
  assumes "deriveReplyRecipients parent identities mode = Inr r"
  shows "let all = rc_to r @ the (rc_cc r)
    in all \<noteq> [] \<and> rc_bcc r = None \<and> distinct (map ea_address all) \<and>
       list_all (\<lambda>a. is_email (ea_address a) \<and>
         ea_address a \<notin> set (map (\<lambda>i. addressKey (ai_address i)) identities)) all"
proof -
  define own where "own = map (\<lambda>i. addressKey (ai_address i)) identities"
  have join: "distinct (map ea_address (to @ cc)) \<and>
      list_all (\<lambda>a. is_email (ea_address a) \<and> ea_address a \<notin> set own) (to @ cc)"
    if "usableAddresses xs own [] = Inr to" and "usableAddresses ys own to = Inr cc" for xs ys to cc
    using usable_from_sound [of own "[]" xs to] usable_from_sound [of own "map ea_address to" ys cc]
      that
    by (auto simp: usableAddresses_def list_all_iff)
  have single: "distinct (map ea_address to) \<and>
      list_all (\<lambda>a. is_email (ea_address a) \<and> ea_address a \<notin> set own) to"
    if "usableAddresses xs own [] = Inr to" for xs to
    using usable_from_sound [of own "[]" xs to] that by (auto simp: usableAddresses_def list_all_iff)
  obtain visTo visCc where vis: "visible_lists parent = (visTo, visCc)" by fastforce
  from assms consider
      (two) to cc xs ys where "usableAddresses xs own [] = Inr to"
        "usableAddresses ys own to = Inr cc" "to @ cc \<noteq> []"
        "r = \<lparr>rc_to = to, rc_cc = Some cc, rc_bcc = None\<rparr>"
    | (one) to xs where "usableAddresses xs own [] = Inr to" "to \<noteq> []"
        "r = \<lparr>rc_to = to, rc_cc = Some [], rc_bcc = None\<rparr>"
    by (auto simp: deriveReplyRecipients_def Let_def vis tx_simps own_def [symmetric] simp del: append_is_Nil_conv split: if_splits)
  then show ?thesis
  proof cases
    case two
    with join [OF two(1,2)] show ?thesis by (simp add: own_def Let_def)
  next
    case one
    with single [OF one(1)] show ?thesis by (simp add: own_def Let_def)
  qed
qed

definition demo_parent :: message_row where
  "demo_parent =
     \<lparr>ms_id = ''m1'', ms_accountId = ''a1'', ms_messageId = Some ''<p@x>'', ms_inReplyTo = None,
      ms_referenceIds = [''<r@x> <s@x>'', ''<r@x>''], ms_threadId = Some ''t1'',
      ms_parentMessageId = None, ms_threadLinkState = Link_Linked, ms_threadDirty = False,
      ms_sender = Some \<lparr>ea_address = ''Bob@x.org'', ea_name = None\<rparr>, ms_replyTo = None,
      ms_recipients = Some \<lparr>rc_to = [\<lparr>ea_address = ''me@x.org'', ea_name = None\<rparr>,
                                  \<lparr>ea_address = ''eve@x.org'', ea_name = None\<rparr>],
                       rc_cc = None, rc_bcc = None\<rparr>,
      ms_subject = Some ''hi'', ms_sentAt = None, ms_snippet = None, ms_hasAttachments = False,
      ms_sizeBytes = None, ms_fetchedBody = True, ms_bodyFailedAt = None, ms_originalStorageKey = None,
      ms_originalSha256 = None, ms_senderText = [], ms_recipientsText = [], ms_addressesText = [],
      ms_subjectText = [], ms_bodyIndexText = []\<rparr>"

theorem reply_recipients_sound_witness:
  "deriveReplyRecipients demo_parent [\<lparr>ai_address = ''Me@x.org'', ai_name = None, ai_isDefault = True\<rparr>]
      Reply_All =
     Inr \<lparr>rc_to = [\<lparr>ea_address = ''bob@x.org'', ea_name = None\<rparr>],
          rc_cc = Some [\<lparr>ea_address = ''eve@x.org'', ea_name = None\<rparr>], rc_bcc = None\<rparr> \<and>
   distinct [''bob@x.org'', ''eve@x.org'']"
proof -
  have "deriveReplyRecipients demo_parent
      [\<lparr>ai_address = ''Me@x.org'', ai_name = None, ai_isDefault = True\<rparr>] Reply_All =
     Inr \<lparr>rc_to = [\<lparr>ea_address = ''bob@x.org'', ea_name = None\<rparr>],
          rc_cc = Some [\<lparr>ea_address = ''eve@x.org'', ea_name = None\<rparr>], rc_bcc = None\<rparr>"
    by code_simp
  with reply_recipients_sound [OF this] show ?thesis by simp
qed

text \<open>
  Frozen reply references are never invented: every identifier of the chain is a bracketed
  identifier that occurs in the parent's headers, none occurs twice, and a parent with one valid
  identifier of its own is what the reply names in In-Reply-To and includes in References, last
  unless the parent already listed itself.
\<close>

theorem reply_references_frozen:
  "let fr = freezeReplyReferences messageId inReplyTo referenceIds;
       sources = set (extractValidMessageIds messageId) \<union> set (extractValidMessageIds inReplyTo) \<union>
         (\<Union>i \<in> set referenceIds. set (extractValidMessageIds (Some i)))
   in distinct (fr_referenceIds fr) \<and> set (fr_referenceIds fr) \<subseteq> sources \<and>
      list_all well_formed_id (fr_referenceIds fr) \<and>
      (case fr_inReplyTo fr of
         None \<Rightarrow> length (extractValidMessageIds messageId) \<noteq> 1
       | Some p \<Rightarrow> extractValidMessageIds messageId = [p] \<and> p \<in> set (fr_referenceIds fr) \<and>
           (p \<in> (\<Union>i \<in> set referenceIds. set (extractValidMessageIds (Some i))) \<or>
            extractValidMessageIds inReplyTo = [p] \<or> last (fr_referenceIds fr) = p))"
proof -
  define refs where "refs = dedupeIds (concat (map (\<lambda>i. extractValidMessageIds (Some i)) referenceIds))"
  define anc where "anc = (if refs \<noteq> [] then refs
      else (case extractValidMessageIds inReplyTo of [i] \<Rightarrow> [i] | _ \<Rightarrow> []))"
  have sref: "set refs = (\<Union>i \<in> set referenceIds. set (extractValidMessageIds (Some i)))"
    by (auto simp: refs_def)
  have danc: "distinct anc"
    by (auto simp: anc_def refs_def split: list.splits)
  have sanc: "set anc \<subseteq> set refs \<union> set (extractValidMessageIds inReplyTo)"
    by (auto simp: anc_def split: list.splits) (metis list.set_intros(1))
  have wf: "i \<in> set refs \<Longrightarrow> well_formed_id i" for i
    unfolding sref by (auto dest: extractValidMessageIds_valid)
  have anc_mem: "p \<in> set anc \<Longrightarrow> p \<in> set refs \<or> extractValidMessageIds inReplyTo = [p]" for p
    by (auto simp: anc_def split: list.splits if_splits)
  have dd: "dedupeIds (anc @ [p]) = (if p \<in> set anc then anc else anc @ [p])" for p
  proof -
    have "dedupe_from seen (xs @ [p]) = dedupe_from seen xs @ (if p \<in> set seen \<union> set xs then [] else [p])"
      for xs seen by (induction seen xs rule: dedupe_from.induct) auto
    with dedupe_from_fresh [OF danc, of "[]"] show ?thesis by (simp add: dedupeIds_def)
  qed
  show ?thesis
  proof (cases "\<exists>p. extractValidMessageIds messageId = [p]")
    case True
    then obtain p where p: "extractValidMessageIds messageId = [p]" by blast
    have fr: "freezeReplyReferences messageId inReplyTo referenceIds =
        \<lparr>fr_inReplyTo = Some p, fr_referenceIds = (if p \<in> set anc then anc else anc @ [p])\<rparr>"
      by (simp add: freezeReplyReferences_def p Let_def refs_def [symmetric] anc_def [symmetric] dd)
    have "well_formed_id p" using extractValidMessageIds_valid [of p messageId] p by simp
    with fr p danc sanc wf anc_mem [of p] show ?thesis
      by (auto simp: Let_def sref [symmetric] list_all_iff dest: extractValidMessageIds_valid)
  next
    case False
    then have n: "(case extractValidMessageIds messageId of [i] \<Rightarrow> Some i | _ \<Rightarrow> None) = None"
      by (auto split: list.splits)
    have fr: "freezeReplyReferences messageId inReplyTo referenceIds =
        \<lparr>fr_inReplyTo = None, fr_referenceIds = anc\<rparr>"
      unfolding freezeReplyReferences_def n Let_def by (simp add: refs_def [symmetric] anc_def)
    from False have "length (extractValidMessageIds messageId) \<noteq> 1"
      by (auto simp: length_Suc_conv)
    with fr danc sanc wf show ?thesis
      by (auto simp: Let_def sref [symmetric] list_all_iff dest: extractValidMessageIds_valid)
  qed
qed

text \<open>
  A derived quote always passes the bound an explicit Markdown body obeys, so the reply
  draft can be saved back verbatim: a quote that fits is kept as it is, a longer one is cut to a
  prefix of itself that ends at a line break where there is one, followed by the marker.
\<close>

theorem derived_quote_storable:
  "normalizeMarkdown (Some (capDerivedQuote q)) = Inr (capDerivedQuote q) \<and>
   (if length q \<le> MARKDOWN_MAX then capDerivedQuote q = q
    else \<exists>kept. capDerivedQuote q = kept @ QUOTE_MARKER \<and> take (length kept) q = kept)"
proof -
  have six: "length QUOTE_MARKER = 6" by (simp add: QUOTE_MARKER_def)
  have b: "length (capDerivedQuote q) \<le> MARKDOWN_MAX"
    using length_before_last_line [of "take (MARKDOWN_MAX - 6) q"]
    by (simp add: capDerivedQuote_def six MARKDOWN_MAX_def)
  have pre: "take (length (before_last_line s)) s = before_last_line s" for s
  proof (cases "CHR 0x0A \<in> set s")
    case True
    define d where "d = dropWhile (\<lambda>c. c \<noteq> CHR 0x0A) (rev s)"
    from True have "d \<noteq> []" by (auto simp: d_def dropWhile_eq_Nil_conv)
    then have "rev s = takeWhile (\<lambda>c. c \<noteq> CHR 0x0A) (rev s) @ hd d # tl d"
      by (simp add: d_def)
    then have "s = rev (tl d) @ hd d # rev (takeWhile (\<lambda>c. c \<noteq> CHR 0x0A) (rev s))"
      by (metis append.assoc append_Cons append_Nil rev.simps(2) rev_append rev_rev_ident)
    moreover have "before_last_line s = rev (tl d)" using True by (simp add: before_last_line_def d_def)
    ultimately show ?thesis by (metis append_eq_conv_conj)
  qed (simp add: before_last_line_def)
  have "take (length k) q = k" if "k = before_last_line (take n q)" for k n
    using pre [of "take n q"] length_before_last_line [of "take n q"] that
    by (metis length_take min.bounded_iff take_take min.absorb1)
  then show ?thesis using b by (auto simp: normalizeMarkdown_def capDerivedQuote_def)
qed

end
