(* ===== verification/Compose_Drafts.thy ===== *)
theory Compose_Drafts
  imports Compose_Reply
begin

text \<open>
  Draft editing and durable uploads, \<open>packages/compose/src/service.ts\<close>. A handler passes the
  recovery gate, validates its input and runs one transaction; the model is a function from the
  state to an error, or to a value and the committed state. The object store, the hash and the
  quote extractor are injected into the service and are fields of \<open>compose_ports\<close>; the fresh
  identifier and the clock reading of an operation are arguments.
\<close>

section \<open>Ports\<close>

datatype storage_error = Insufficient_Space | Io_Failed

record stored_object =
  so_sha256 :: string
  so_sizeBytes :: int
  so_bytes :: bytes

record compose_ports =
  cp_controls :: recovery_controls
  cp_sha256 :: "bytes \<Rightarrow> string"
  cp_put :: "string \<Rightarrow> bytes \<Rightarrow> storage_error + stored_object"
  cp_extractReplyQuote :: "string option \<times> string option \<Rightarrow> string \<times> string"

definition storage_stat :: "hub \<Rightarrow> string \<Rightarrow> int option" where
  "storage_stat h key = map_option (\<lambda>b. int (length b)) (h_durable h key)"

definition storage_verify :: "(bytes \<Rightarrow> string) \<Rightarrow> hub \<Rightarrow> string \<Rightarrow> string \<Rightarrow> bool" where
  "storage_verify sha h key expected =
     (case h_durable h key of None \<Rightarrow> False | Some b \<Rightarrow> sha b = expected)"

definition uploadKey :: "uuid \<Rightarrow> string" where
  "uploadKey i = ''uploads/'' @ i @ ''.bin''"

section \<open>Records and row lookups\<close>

record draft_record =
  d_id :: uuid
  d_accountId :: uuid
  d_identity :: email_address
  d_recipients :: recipients
  d_subject :: "string option"
  d_markdown :: string
  d_revision :: int
  d_lockedBySend :: "uuid option"
  d_replyParentId :: "uuid option"
  d_threadId :: "uuid option"
  d_inReplyTo :: "string option"
  d_referenceIds :: "string list"
  d_updatedAt :: millis

definition toDraftRecord :: "draft_row \<Rightarrow> hub_error + draft_record" where
  "toDraftRecord row =
     attempt (normalizeRecipients (Some (dr_recipients row))) (\<lambda>recipients.
       Inr \<lparr>d_id = dr_id row, d_accountId = dr_accountId row, d_identity = dr_identity row,
            d_recipients = recipients, d_subject = dr_subject row, d_markdown = dr_markdown row,
            d_revision = dr_revision row, d_lockedBySend = dr_lockedBySend row,
            d_replyParentId = dr_replyParentId row, d_threadId = dr_threadId row,
            d_inReplyTo = dr_inReplyTo row, d_referenceIds = dr_referenceIds row,
            d_updatedAt = dr_updatedAt row\<rparr>)"

definition requireUuid :: "string \<Rightarrow> hub_error + unit" where
  "requireUuid i = (if is_uuid i then Inr () else Inl (compose_fail CE_Invalid_Request))"

definition gateCompose :: "compose_ports \<Rightarrow> string option \<Rightarrow> hub \<Rightarrow> hub_error + uuid" where
  "gateCompose p request h =
     (case gateMutation (cp_controls p) request h of Inl e \<Rightarrow> Inl (Recovery_Err e) | Inr g \<Rightarrow> Inr g)"

definition recordComposeEvent ::
    "actor \<Rightarrow> string \<Rightarrow> string \<Rightarrow> uuid \<Rightarrow> (string \<times> json) list \<Rightarrow> hub \<Rightarrow> hub" where
  "recordComposeEvent who type entityType entityId payload =
     add_event \<lparr>ev_actor = who, ev_type = type, ev_entityType = entityType,
                ev_entityId = Some entityId, ev_payload = payload\<rparr>"

definition requireAccount :: "uuid \<Rightarrow> hub \<Rightarrow> hub_error + account_row" where
  "requireAccount accountId h =
     (case find (\<lambda>a. acc_id a = pg_uuid accountId) (h_accounts h) of
        None \<Rightarrow> Inl (compose_fail CE_Not_Found) | Some a \<Rightarrow> Inr a)"

definition lockDraftRow :: "uuid \<Rightarrow> hub \<Rightarrow> hub_error + draft_row" where
  "lockDraftRow draftId h =
     (case find (\<lambda>d. dr_id d = pg_uuid draftId) (h_drafts h) of
        None \<Rightarrow> Inl (compose_fail CE_Not_Found) | Some d \<Rightarrow> Inr d)"

definition lockEditableDraft :: "uuid \<Rightarrow> hub \<Rightarrow> hub_error + draft_row" where
  "lockEditableDraft draftId h =
     attempt (lockDraftRow draftId h) (\<lambda>row.
       require (dr_deletedAt row = None) (compose_fail CE_Not_Found)
      (require (dr_lockedBySend row = None) (compose_fail CE_Draft_Locked)
      (Inr row)))"

definition requireUpload :: "uuid \<Rightarrow> hub \<Rightarrow> hub_error + upload_row" where
  "requireUpload uploadId h =
     (case find (\<lambda>u. up_id u = pg_uuid uploadId) (h_uploads h) of
        None \<Rightarrow> Inl (compose_fail CE_Not_Found) | Some u \<Rightarrow> Inr u)"

definition findDraftUpload :: "uuid \<Rightarrow> uuid \<Rightarrow> hub \<Rightarrow> int option" where
  "findDraftUpload draftId uploadId h =
     map_option du_ordinal
       (find (\<lambda>l. du_draftId l = pg_uuid draftId \<and> du_uploadId l = pg_uuid uploadId) (h_draftUploads h))"

definition draft_links :: "uuid \<Rightarrow> hub \<Rightarrow> draft_upload_row list" where
  "draft_links draftId h = filter (\<lambda>l. du_draftId l = draftId) (h_draftUploads h)"

definition nextOrdinal :: "uuid \<Rightarrow> hub \<Rightarrow> int" where
  "nextOrdinal draftId h =
     (case map du_ordinal (draft_links (pg_uuid draftId) h) of
        [] \<Rightarrow> 0 | o1 # os \<Rightarrow> fold max os o1 + 1)"

text \<open>The sizes of the uploads a draft references, over the join with the upload rows.\<close>

definition attached_bytes :: "uuid \<Rightarrow> hub \<Rightarrow> int" where
  "attached_bytes draftId h =
     sum_list (map (\<lambda>l. case find (\<lambda>u. up_id u = du_uploadId l) (h_uploads h) of
                          None \<Rightarrow> 0 | Some u \<Rightarrow> up_sizeBytes u) (draft_links draftId h))"

definition requireAttachmentBudget :: "uuid \<Rightarrow> upload_row \<Rightarrow> hub \<Rightarrow> hub_error + unit" where
  "requireAttachmentBudget draftId incoming h =
     (if attached_bytes (pg_uuid draftId) h + up_sizeBytes incoming > ATTACHMENTS_TOTAL_MAX_BYTES
      then Inl (compose_fail CE_Invalid_Request) else Inr ())"

definition recipient_count :: "recipients \<Rightarrow> int" where
  "recipient_count r =
     int (length (rc_to r) + length (case rc_cc r of None \<Rightarrow> [] | Some x \<Rightarrow> x)
          + length (case rc_bcc r of None \<Rightarrow> [] | Some x \<Rightarrow> x))"

section \<open>Drafts\<close>

record create_draft_input =
  ci_accountId :: string
  ci_identity :: "string option"
  ci_recipients :: "recipients option"
  ci_subject :: "string option"
  ci_markdown :: "string option"

definition createDraft ::
    "compose_ports \<Rightarrow> uuid \<Rightarrow> millis \<Rightarrow> string option \<Rightarrow> create_draft_input \<Rightarrow>
     (hub, hub_error, draft_record) tx" where
  "createDraft p newId now request input h =
     attempt (gateCompose p request h) (\<lambda>_.
     attempt (requireUuid (ci_accountId input)) (\<lambda>_.
     attempt (requireAccount (ci_accountId input) h) (\<lambda>account.
     attempt (resolveIdentity (acc_identities account) (ci_identity input)) (\<lambda>identity.
     attempt (normalizeRecipients (ci_recipients input)) (\<lambda>recipients.
     attempt (normalizeSubject (ci_subject input)) (\<lambda>subject.
     attempt (normalizeMarkdown (ci_markdown input)) (\<lambda>markdown.
       let row = \<lparr>dr_id = newId, dr_accountId = acc_id account, dr_identity = identity,
                  dr_threadId = None, dr_replyParentId = None, dr_inReplyTo = None,
                  dr_referenceIds = [], dr_recipients = recipients, dr_subject = subject,
                  dr_markdown = markdown, dr_revision = 1, dr_lockedBySend = None,
                  dr_updatedAt = now, dr_deletedAt = None\<rparr>;
           h1 = recordComposeEvent User_Actor ''draft.created'' ''draft'' newId
                  [(''account'', JStr (acc_id account)), (''identity'', JStr (ea_address identity)),
                   (''recipientCount'', JNum (recipient_count recipients)),
                   (''hasSubject'', JBool (subject \<noteq> None))]
                  (h\<lparr>h_drafts := h_drafts h @ [row]\<rparr>)
       in attempt (toDraftRecord row) (\<lambda>d. Inr (d, h1)))))))))"

text \<open>
  An edit names each field it changes; the outer option is \<open>undefined\<close>, the inner one \<open>null\<close>.
\<close>

record update_draft_input =
  ui_baseRevision :: int
  ui_identity :: "string option option"
  ui_recipients :: "recipients option option"
  ui_subject :: "string option option"
  ui_markdown :: "string option option"

definition MAX_SAFE_INTEGER :: int where "MAX_SAFE_INTEGER = 9007199254740991"

definition changed_fields :: "update_draft_input \<Rightarrow> string list" where
  "changed_fields input =
     (if ui_identity input = None then [] else [''identity'']) @
     (if ui_recipients input = None then [] else [''recipients'']) @
     (if ui_subject input = None then [] else [''subject'']) @
     (if ui_markdown input = None then [] else [''markdown''])"

definition draft_patch :: "update_draft_input \<Rightarrow> draft_row \<Rightarrow> hub \<Rightarrow> hub_error + draft_row" where
  "draft_patch input row h =
     attempt (case ui_identity input of
                None \<Rightarrow> Inr (dr_identity row)
              | Some i \<Rightarrow> attempt (requireAccount (dr_accountId row) h)
                            (\<lambda>account. resolveIdentity (acc_identities account) i)) (\<lambda>identity.
     attempt (case ui_recipients input of
                None \<Rightarrow> Inr (dr_recipients row) | Some r \<Rightarrow> normalizeRecipients r) (\<lambda>recipients.
     attempt (case ui_subject input of
                None \<Rightarrow> Inr (dr_subject row) | Some s \<Rightarrow> normalizeSubject s) (\<lambda>subject.
     attempt (case ui_markdown input of
                None \<Rightarrow> Inr (dr_markdown row) | Some m \<Rightarrow> normalizeMarkdown m) (\<lambda>markdown.
       Inr (row\<lparr>dr_identity := identity, dr_recipients := recipients, dr_subject := subject,
                dr_markdown := markdown\<rparr>)))))"

definition updateDraft ::
    "compose_ports \<Rightarrow> millis \<Rightarrow> string option \<Rightarrow> string \<Rightarrow> update_draft_input \<Rightarrow>
     (hub, hub_error, draft_record) tx" where
  "updateDraft p now request draftId input h =
     attempt (gateCompose p request h) (\<lambda>_.
     attempt (requireUuid draftId) (\<lambda>_.
     require (1 \<le> ui_baseRevision input \<and> ui_baseRevision input \<le> MAX_SAFE_INTEGER)
       (compose_fail CE_Invalid_Request)
     (attempt (lockEditableDraft draftId h) (\<lambda>row.
     require (dr_revision row = ui_baseRevision input)
       (Compose_Err CE_Draft_Stale (Some (dr_revision row)))
     (attempt (draft_patch input row h) (\<lambda>patched.
       if changed_fields input = [] then attempt (toDraftRecord row) (\<lambda>d. Inr (d, h))
       else
         (let next = patched\<lparr>dr_revision := dr_revision row + 1, dr_updatedAt := now\<rparr>;
              h1 = recordComposeEvent User_Actor ''draft.updated'' ''draft'' (pg_uuid draftId)
                     [(''fromRevision'', JNum (dr_revision row)),
                      (''toRevision'', JNum (dr_revision next)),
                      (''changed'', JArr (map JStr (changed_fields input)))]
                     (h\<lparr>h_drafts := tbl_update (\<lambda>d. dr_id d = pg_uuid draftId) (\<lambda>_. next)
                                     (h_drafts h)\<rparr>)
          in attempt (toDraftRecord next) (\<lambda>d. Inr (d, h1)))))))))"

definition readDraft :: "string \<Rightarrow> hub \<Rightarrow> hub_error + draft_record" where
  "readDraft draftId h =
     attempt (requireUuid draftId) (\<lambda>_.
       case find (\<lambda>d. dr_id d = pg_uuid draftId \<and> dr_deletedAt d = None) (h_drafts h) of
         None \<Rightarrow> Inl (compose_fail CE_Not_Found)
       | Some row \<Rightarrow> toDraftRecord row)"

fun draft_records :: "draft_row list \<Rightarrow> hub_error + draft_record list" where
  "draft_records [] = Inr []"
| "draft_records (r # rs) =
     attempt (toDraftRecord r) (\<lambda>d. attempt (draft_records rs) (\<lambda>ds. Inr (d # ds)))"

definition listDrafts :: "string option \<Rightarrow> hub \<Rightarrow> hub_error + draft_record list" where
  "listDrafts accountId h =
     attempt (case accountId of None \<Rightarrow> Inr () | Some a \<Rightarrow> requireUuid a) (\<lambda>_.
       draft_records (sort_key (\<lambda>d. - dr_updatedAt d)
         (filter (\<lambda>d. dr_deletedAt d = None \<and>
                    (case accountId of None \<Rightarrow> True | Some a \<Rightarrow> dr_accountId d = pg_uuid a))
            (h_drafts h))))"

definition deleteDraft ::
    "compose_ports \<Rightarrow> millis \<Rightarrow> string option \<Rightarrow> string \<Rightarrow> (hub, hub_error, unit) tx" where
  "deleteDraft p now request draftId h =
     attempt (gateCompose p request h) (\<lambda>_.
     attempt (requireUuid draftId) (\<lambda>_.
     attempt (lockEditableDraft draftId h) (\<lambda>row.
       Inr ((), recordComposeEvent User_Actor ''draft.deleted'' ''draft'' (pg_uuid draftId)
                  [(''revision'', JNum (dr_revision row))]
                  (h\<lparr>h_drafts := tbl_update (\<lambda>d. dr_id d = pg_uuid draftId)
                                  (\<lambda>d. d\<lparr>dr_deletedAt := Some now\<rparr>) (h_drafts h)\<rparr>)))))"

section \<open>Reply drafts\<close>

definition hasGroupedCopies :: "message_row \<Rightarrow> hub \<Rightarrow> bool" where
  "hasGroupedCopies row h =
     (case ms_originalSha256 row of
        None \<Rightarrow> False
      | Some sha \<Rightarrow>
          list_ex (\<lambda>m. ms_originalSha256 m = Some sha \<and> ms_accountId m \<noteq> ms_accountId row)
            (h_messages h))"

definition resolveReplyParent :: "string \<Rightarrow> string option \<Rightarrow> hub \<Rightarrow> hub_error + message_row" where
  "resolveReplyParent messageId accountId h =
     (case find (\<lambda>m. ms_id m = pg_uuid messageId) (h_messages h) of
        None \<Rightarrow> Inl (compose_fail CE_Not_Found)
      | Some selected \<Rightarrow>
          (let chosen = (case accountId of None \<Rightarrow> ms_accountId selected | Some a \<Rightarrow> a)
           in if chosen = ms_accountId selected then
                if accountId = None \<and> hasGroupedCopies selected h
                then Inl (compose_fail CE_Account_Choice_Required)
                else Inr selected
              else
                (case ms_originalSha256 selected of
                   None \<Rightarrow> Inl (compose_fail CE_Invalid_Request)
                 | Some sha \<Rightarrow>
                     (case find (\<lambda>m. ms_accountId m = pg_uuid chosen \<and> ms_originalSha256 m = Some sha)
                             (h_messages h) of
                        None \<Rightarrow> Inl (compose_fail CE_Invalid_Request)
                      | Some copy \<Rightarrow> Inr copy))))"

definition replyParentBody :: "message_row \<Rightarrow> hub \<Rightarrow> string option \<times> string option" where
  "replyParentBody parent h =
     (case find (\<lambda>b. bo_messageId b = ms_id parent) (h_bodies h) of
        None \<Rightarrow> (None, None)
      | Some b \<Rightarrow> (bo_htmlSanitized b, bo_textPlain b))"

record create_reply_input =
  yi_messageId :: string
  yi_accountId :: "string option"
  yi_mode :: string
  yi_identity :: "string option"
  yi_recipients :: "recipients option"
  yi_markdown :: "string option"

definition reply_mode_of :: "string \<Rightarrow> hub_error + reply_mode" where
  "reply_mode_of s =
     (if s = ''reply'' then Inr Reply else if s = ''reply_all'' then Inr Reply_All
      else Inl (compose_fail CE_Invalid_Request))"

definition createReplyDraft ::
    "compose_ports \<Rightarrow> uuid \<Rightarrow> millis \<Rightarrow> string option \<Rightarrow> create_reply_input \<Rightarrow>
     (hub, hub_error, draft_record) tx" where
  "createReplyDraft p newId now request input h =
     attempt (gateCompose p request h) (\<lambda>_.
     attempt (requireUuid (yi_messageId input)) (\<lambda>_.
     attempt (case yi_accountId input of None \<Rightarrow> Inr () | Some a \<Rightarrow> requireUuid a) (\<lambda>_.
     attempt (reply_mode_of (yi_mode input)) (\<lambda>mode.
     attempt (resolveReplyParent (yi_messageId input) (yi_accountId input) h) (\<lambda>parent.
     attempt (requireAccount (ms_accountId parent) h) (\<lambda>account.
     attempt (case yi_identity input of
                Some i \<Rightarrow> resolveIdentity (acc_identities account) (Some i)
              | None \<Rightarrow>
                  (case preselectReplyIdentity parent (acc_identities account) of
                     None \<Rightarrow> Inl (compose_fail CE_Identity_Choice_Required)
                   | Some i \<Rightarrow> Inr (identity_of i))) (\<lambda>identity.
     attempt (case yi_recipients input of
                Some r \<Rightarrow> normalizeRecipients (Some r)
              | None \<Rightarrow> deriveReplyRecipients parent (acc_identities account) mode) (\<lambda>recipients.
       let references = freezeReplyReferences (ms_messageId parent) (ms_inReplyTo parent)
                          (ms_referenceIds parent);
           quote = (case yi_markdown input of
                      None \<Rightarrow> Some (cp_extractReplyQuote p (replyParentBody parent h))
                    | Some _ \<Rightarrow> None)
       in attempt (case quote of None \<Rightarrow> normalizeMarkdown (yi_markdown input)
                                | Some q \<Rightarrow> Inr (capDerivedQuote (fst q))) (\<lambda>markdown.
       let row = \<lparr>dr_id = newId, dr_accountId = acc_id account, dr_identity = identity,
                  dr_threadId = ms_threadId parent, dr_replyParentId = Some (ms_id parent),
                  dr_inReplyTo = fr_inReplyTo references,
                  dr_referenceIds = fr_referenceIds references, dr_recipients = recipients,
                  dr_subject = replySubject (ms_subject parent), dr_markdown = markdown,
                  dr_revision = 1, dr_lockedBySend = None, dr_updatedAt = now,
                  dr_deletedAt = None\<rparr>;
           h1 = recordComposeEvent User_Actor ''draft.reply_created'' ''draft'' newId
                  [(''account'', JStr (acc_id account)), (''parent'', JStr (ms_id parent)),
                   (''mode'', JStr (yi_mode input)), (''identity'', JStr (ea_address identity)),
                   (''recipientCount'', JNum (recipient_count recipients)),
                   (''explicitRecipients'', JBool (yi_recipients input \<noteq> None)),
                   (''quoteSource'', JStr (case quote of None \<Rightarrow> ''explicit'' | Some q \<Rightarrow> snd q))]
                  (h\<lparr>h_drafts := h_drafts h @ [row]\<rparr>)
       in attempt (toDraftRecord row) (\<lambda>d. Inr (d, h1)))))))))))"

end
