(* ===== verification/Compose_Uploads.thy ===== *)
theory Compose_Uploads
  imports Compose_Drafts
begin

text \<open>
  The rest of \<open>packages/compose/src/service.ts\<close>: durable uploads, the attachments of a draft, the
  copy of an unresolved send, and the draft locks the send service takes and releases inside
  its own transactions. The lemmas below state what an edit leaves unchanged; the properties
  are revision safety, the freeze of a locked draft, and the durability and budget of uploads.
\<close>

section \<open>Uploads\<close>

record upload_record =
  u_id :: uuid
  u_accountId :: uuid
  u_filename :: string
  u_contentType :: string
  u_sizeBytes :: int
  u_sha256 :: string
  u_createdAt :: millis

definition toUploadRecord :: "upload_row \<Rightarrow> upload_record" where
  "toUploadRecord row =
     \<lparr>u_id = up_id row, u_accountId = up_accountId row, u_filename = up_filename row,
      u_contentType = up_contentType row, u_sizeBytes = up_sizeBytes row,
      u_sha256 = up_sha256 row, u_createdAt = up_createdAt row\<rparr>"

record create_upload_input =
  cu_accountId :: string
  cu_filename :: string
  cu_contentType :: "string option"
  cu_bytes :: bytes

text \<open>
  The put is not part of the transaction: bytes that were stored stay in the object store
  whatever follows, and a refused write for lack of space leaves its event behind.
\<close>

definition storage_paused_event :: event_row where
  "storage_paused_event =
     \<lparr>ev_actor = System_Actor, ev_type = ''storage.paused'', ev_entityType = [],
      ev_entityId = None,
      ev_payload = [(''kind'', JStr ''upload''), (''code'', JStr ''insufficient_space'')]\<rparr>"

definition upload_row_of ::
    "compose_ports \<Rightarrow> uuid \<Rightarrow> millis \<Rightarrow> create_upload_input \<Rightarrow> string \<Rightarrow> string \<Rightarrow> upload_row" where
  "upload_row_of p newId now input filename contentType =
     \<lparr>up_id = newId, up_accountId = pg_uuid (cu_accountId input), up_filename = filename,
      up_contentType = contentType, up_sizeBytes = int (length (cu_bytes input)),
      up_storageKey = uploadKey newId, up_sha256 = cp_sha256 p (cu_bytes input),
      up_createdAt = now\<rparr>"

definition createUpload ::
    "compose_ports \<Rightarrow> uuid \<Rightarrow> millis \<Rightarrow> string option \<Rightarrow> create_upload_input \<Rightarrow> hub \<Rightarrow>
     (hub, hub_error, upload_record) outcome" where
  "createUpload p newId now request input h =
     (case attempt (gateCompose p request h) (\<lambda>_.
           attempt (requireUuid (cu_accountId input)) (\<lambda>_.
           attempt (requireAccount (cu_accountId input) h) (\<lambda>_.
           attempt (normalizeFilename (cu_filename input)) (\<lambda>filename.
           attempt (normalizeContentType (cu_contentType input)) (\<lambda>contentType.
           attempt (validateUploadBytes (cu_bytes input)) (\<lambda>_. Inr (filename, contentType))))))) of
        Inl e \<Rightarrow> (Inl e, h)
      | Inr (filename, contentType) \<Rightarrow>
          (let sha256 = cp_sha256 p (cu_bytes input)
           in case cp_put p (uploadKey newId) (cu_bytes input) of
                Inl Insufficient_Space \<Rightarrow> (Inl Storage_Failure, add_event storage_paused_event h)
              | Inl Io_Failed \<Rightarrow> (Inl Storage_Failure, h)
              | Inr stored \<Rightarrow>
                  (let h1 = h\<lparr>h_durable := (h_durable h)(uploadKey newId \<mapsto> so_bytes stored)\<rparr>
                   in if so_sha256 stored \<noteq> sha256 \<or>
                         so_sizeBytes stored \<noteq> int (length (cu_bytes input))
                      then (Inl (compose_fail CE_Upload_Unverified), h1)
                      else
                        (let row = upload_row_of p newId now input filename contentType
                         in (Inr (toUploadRecord row),
                             recordComposeEvent User_Actor ''upload.created'' ''upload'' newId
                               [(''account'', JStr (cu_accountId input)),
                                (''filename'', JStr filename), (''contentType'', JStr contentType),
                                (''sizeBytes'', JNum (up_sizeBytes row)), (''sha256'', JStr sha256)]
                               (h1\<lparr>h_uploads := h_uploads h1 @ [row]\<rparr>))))))"

section \<open>Attachments\<close>

definition attachUpload ::
    "compose_ports \<Rightarrow> string option \<Rightarrow> string \<Rightarrow> string \<Rightarrow>
     (hub, hub_error, upload_record \<times> int) tx" where
  "attachUpload p request draftId uploadId h =
     attempt (gateCompose p request h) (\<lambda>_.
     attempt (requireUuid draftId) (\<lambda>_.
     attempt (requireUuid uploadId) (\<lambda>_.
     attempt (lockEditableDraft draftId h) (\<lambda>draft.
     attempt (requireUpload uploadId h) (\<lambda>upload.
     require (up_accountId upload = dr_accountId draft) (compose_fail CE_Invalid_Request)
     (case findDraftUpload draftId uploadId h of
        Some attached \<Rightarrow> Inr ((toUploadRecord upload, attached), h)
      | None \<Rightarrow>
          attempt (requireAttachmentBudget draftId upload h) (\<lambda>_.
            let next = nextOrdinal draftId h
            in Inr ((toUploadRecord upload, next),
                 recordComposeEvent User_Actor ''draft.upload_attached'' ''draft'' (pg_uuid draftId)
                   [(''uploadId'', JStr uploadId), (''ordinal'', JNum next),
                    (''filename'', JStr (up_filename upload))]
                   (h\<lparr>h_draftUploads := h_draftUploads h @
                        [\<lparr>du_draftId = pg_uuid draftId, du_uploadId = pg_uuid uploadId,
                          du_ordinal = next\<rparr>]\<rparr>)))))))))"

definition detachUpload ::
    "compose_ports \<Rightarrow> string option \<Rightarrow> string \<Rightarrow> string \<Rightarrow> (hub, hub_error, unit) tx" where
  "detachUpload p request draftId uploadId h =
     attempt (gateCompose p request h) (\<lambda>_.
     attempt (requireUuid draftId) (\<lambda>_.
     attempt (requireUuid uploadId) (\<lambda>_.
     attempt (lockEditableDraft draftId h) (\<lambda>_.
       let removed = (\<lambda>l. du_draftId l = pg_uuid draftId \<and> du_uploadId l = pg_uuid uploadId)
       in require (list_ex removed (h_draftUploads h)) (compose_fail CE_Not_Found)
         (Inr ((), recordComposeEvent User_Actor ''draft.upload_detached'' ''draft'' (pg_uuid draftId)
              [(''uploadId'', JStr uploadId)]
              (h\<lparr>h_draftUploads := filter (\<lambda>l. \<not> removed l) (h_draftUploads h)\<rparr>)))))))"

text \<open>The attachments of a draft: the join of its links, in order, with the upload rows.\<close>

definition listDraftAttachments :: "string \<Rightarrow> hub \<Rightarrow> hub_error + (upload_row \<times> int) list" where
  "listDraftAttachments draftId h =
     attempt (requireUuid draftId) (\<lambda>_.
     attempt (readDraft draftId h) (\<lambda>_.
       Inr (List.map_filter
              (\<lambda>l. map_option (\<lambda>u. (u, du_ordinal l))
                     (find (\<lambda>u. up_id u = du_uploadId l) (h_uploads h)))
              (sort_key du_ordinal (draft_links (pg_uuid draftId) h)))))"

definition verifyStoredUpload :: "(bytes \<Rightarrow> string) \<Rightarrow> hub \<Rightarrow> upload_row \<Rightarrow> bool" where
  "verifyStoredUpload sha h row =
     (case storage_stat h (up_storageKey row) of
        None \<Rightarrow> False
      | Some sz \<Rightarrow>
          sz = up_sizeBytes row \<and> storage_verify sha h (up_storageKey row) (up_sha256 row))"

definition verifyUploadRow :: "compose_ports \<Rightarrow> hub \<Rightarrow> uuid \<Rightarrow> bool" where
  "verifyUploadRow p h uploadId =
     (case find (\<lambda>u. up_id u = uploadId) (h_uploads h) of
        None \<Rightarrow> False | Some row \<Rightarrow> verifyStoredUpload (cp_sha256 p) h row)"

definition verifyDraftUploads ::
    "compose_ports \<Rightarrow> string \<Rightarrow> hub \<Rightarrow> hub_error + bool \<times> (uuid \<times> string \<times> bool) list" where
  "verifyDraftUploads p draftId h =
     attempt (listDraftAttachments draftId h) (\<lambda>attachments.
       let results = map (\<lambda>(u, _). (up_id u, up_filename u, verifyUploadRow p h (up_id u))) attachments
       in Inr (list_all (\<lambda>(_, _, verified). verified) results, results))"

section \<open>The copy of an unresolved send\<close>

definition createResendDraft ::
    "compose_ports \<Rightarrow> uuid \<Rightarrow> millis \<Rightarrow> string option \<Rightarrow> string \<Rightarrow>
     (hub, hub_error, draft_record) tx" where
  "createResendDraft p newId now request outboundId h =
     attempt (gateCompose p request h) (\<lambda>_.
     attempt (requireUuid outboundId) (\<lambda>_.
     case find (\<lambda>r. ob_id r = pg_uuid outboundId) (h_outbound h) of
       None \<Rightarrow> Inl (compose_fail CE_Not_Found)
     | Some outbound \<Rightarrow>
         require (ob_status outbound = Outcome_Unknown) (compose_fail CE_Invalid_Request)
        (attempt (normalizeRecipients (Some (ob_recipients outbound))) (\<lambda>recipients.
         let links = sort_key ou_ordinal
               (filter (\<lambda>l. ou_outboundId l = pg_uuid outboundId) (h_outboundUploads h));
             row = \<lparr>dr_id = newId, dr_accountId = ob_accountId outbound,
                    dr_identity = ob_identity outbound, dr_threadId = ob_threadId outbound,
                    dr_replyParentId = ob_replyParentId outbound,
                    dr_inReplyTo = ob_inReplyTo outbound, dr_referenceIds = ob_referenceIds outbound,
                    dr_recipients = recipients, dr_subject = ob_subject outbound,
                    dr_markdown = ob_markdownSource outbound, dr_revision = 1,
                    dr_lockedBySend = None, dr_updatedAt = now, dr_deletedAt = None\<rparr>;
             h1 = recordComposeEvent User_Actor ''draft.resend_created'' ''draft'' newId
                    [(''account'', JStr (ob_accountId outbound)), (''resendOf'', JStr outboundId),
                     (''rfcMessageId'', JStr (ob_rfcMessageId outbound)),
                     (''attachments'', JNum (int (length links)))]
                    (h\<lparr>h_drafts := h_drafts h @ [row],
                       h_draftUploads := h_draftUploads h @
                         map (\<lambda>l. \<lparr>du_draftId = newId, du_uploadId = ou_uploadId l,
                                   du_ordinal = ou_ordinal l\<rparr>) links\<rparr>)
         in attempt (toDraftRecord row) (\<lambda>d. Inr (d, h1)))) ))"

section \<open>Draft locks\<close>

definition lockDraftForSend :: "string \<Rightarrow> int \<Rightarrow> uuid \<Rightarrow> (hub, hub_error, draft_record) tx" where
  "lockDraftForSend draftId revision outboundId h =
     attempt (requireUuid draftId) (\<lambda>_.
     attempt (requireUuid outboundId) (\<lambda>_.
     attempt (lockDraftRow draftId h) (\<lambda>row.
     require (dr_revision row = revision) (Compose_Err CE_Draft_Stale (Some (dr_revision row)))
     (if dr_lockedBySend row = Some outboundId then attempt (toDraftRecord row) (\<lambda>d. Inr (d, h))
      else
        require (dr_lockedBySend row = None) (compose_fail CE_Draft_Locked)
       (let locked = row\<lparr>dr_lockedBySend := Some outboundId\<rparr>;
            h1 = recordComposeEvent System_Actor ''draft.locked'' ''draft'' (pg_uuid draftId)
                   [(''outboundId'', JStr outboundId), (''revision'', JNum (dr_revision row))]
                   (h\<lparr>h_drafts := tbl_update (\<lambda>d. dr_id d = pg_uuid draftId)
                        (\<lambda>d. d\<lparr>dr_lockedBySend := Some outboundId\<rparr>) (h_drafts h)\<rparr>)
        in attempt (toDraftRecord locked) (\<lambda>d. Inr (d, h1)))))))"

fun outbound_status_text :: "outbound_status \<Rightarrow> string" where
  "outbound_status_text Queued = ''queued''"
| "outbound_status_text Sending = ''sending''"
| "outbound_status_text Sent = ''sent''"
| "outbound_status_text Failed = ''failed''"
| "outbound_status_text Outcome_Unknown = ''outcome_unknown''"

definition unlock_event :: "uuid \<Rightarrow> outbound_status \<Rightarrow> draft_row \<Rightarrow> event_row" where
  "unlock_event outboundId status d =
     \<lparr>ev_actor = System_Actor, ev_type = ''draft.unlocked'', ev_entityType = ''draft'',
      ev_entityId = Some (dr_id d),
      ev_payload = [(''outboundId'', JStr outboundId),
                    (''outcome'', JStr (outbound_status_text status))]\<rparr>"

definition releaseDraftLock :: "outbound_status \<Rightarrow> uuid \<Rightarrow> (hub, hub_error, int) tx" where
  "releaseDraftLock requiresStatus outboundId h =
     attempt (requireUuid outboundId) (\<lambda>_.
     case find (\<lambda>r. ob_id r = pg_uuid outboundId) (h_outbound h) of
       None \<Rightarrow> Inl (compose_fail CE_Not_Found)
     | Some row \<Rightarrow>
         require (ob_status row = requiresStatus) (compose_fail CE_Invalid_Request)
        (let owned = (\<lambda>d. dr_lockedBySend d = Some (pg_uuid outboundId));
             unlock = (\<lambda>d. d\<lparr>dr_lockedBySend := None\<rparr>);
             released = tbl_returning owned unlock (h_drafts h)
         in Inr (int (length released),
              h\<lparr>h_drafts := tbl_update owned unlock (h_drafts h),
                h_events := h_events h @ map (unlock_event outboundId requiresStatus) released\<rparr>)))"

definition unlockDraftAfterFailure :: "uuid \<Rightarrow> (hub, hub_error, int) tx" where
  "unlockDraftAfterFailure outboundId = releaseDraftLock Failed outboundId"

definition unlockDraftAfterSend :: "uuid \<Rightarrow> (hub, hub_error, int) tx" where
  "unlockDraftAfterSend outboundId = releaseDraftLock Sent outboundId"

section \<open>One edit\<close>

text \<open>The mutating handlers as one type, and the state each leaves behind.\<close>

datatype compose_op =
    Op_Create uuid millis create_draft_input
  | Op_Create_Reply uuid millis create_reply_input
  | Op_Update millis string update_draft_input
  | Op_Delete millis string
  | Op_Upload uuid millis create_upload_input
  | Op_Attach string string
  | Op_Detach string string
  | Op_Resend uuid millis string

fun run_compose :: "compose_ports \<Rightarrow> string option \<Rightarrow> compose_op \<Rightarrow> hub \<Rightarrow> hub" where
  "run_compose p q (Op_Create i now x) h = snd (run_tx (createDraft p i now q x) h)"
| "run_compose p q (Op_Create_Reply i now x) h = snd (run_tx (createReplyDraft p i now q x) h)"
| "run_compose p q (Op_Update now d x) h = snd (run_tx (updateDraft p now q d x) h)"
| "run_compose p q (Op_Delete now d) h = snd (run_tx (deleteDraft p now q d) h)"
| "run_compose p q (Op_Upload i now x) h = snd (createUpload p i now q x h)"
| "run_compose p q (Op_Attach d u) h = snd (run_tx (attachUpload p q d u) h)"
| "run_compose p q (Op_Detach d u) h = snd (run_tx (detachUpload p q d u) h)"
| "run_compose p q (Op_Resend i now b) h = snd (run_tx (createResendDraft p i now q b) h)"

text \<open>
  The identifier an operation draws is new: no draft or upload has it and no link refers to it.
\<close>

fun fresh_for :: "compose_op \<Rightarrow> hub \<Rightarrow> bool" where
  "fresh_for (Op_Create i _ _) h = (i \<notin> dr_id ` set (h_drafts h))"
| "fresh_for (Op_Create_Reply i _ _) h = (i \<notin> dr_id ` set (h_drafts h))"
| "fresh_for (Op_Upload i _ _) h = (i \<notin> up_id ` set (h_uploads h))"
| "fresh_for (Op_Resend i _ _) h =
     (i \<notin> dr_id ` set (h_drafts h) \<and> i \<notin> du_draftId ` set (h_draftUploads h))"
| "fresh_for _ h = True"

text \<open>A run of operations, each with the generation its client captured.\<close>

fun run_composes :: "compose_ports \<Rightarrow> (string option \<times> compose_op) list \<Rightarrow> hub \<Rightarrow> hub" where
  "run_composes p [] h = h"
| "run_composes p ((q, op) # ops) h = run_composes p ops (run_compose p q op h)"

fun fresh_run :: "compose_ports \<Rightarrow> (string option \<times> compose_op) list \<Rightarrow> hub \<Rightarrow> bool" where
  "fresh_run p [] h = True"
| "fresh_run p ((q, op) # ops) h = (fresh_for op h \<and> fresh_run p ops (run_compose p q op h))"

section \<open>Well-formed attachments\<close>

definition pair_sizes :: "upload_row list \<Rightarrow> (uuid \<times> int) list \<Rightarrow> int" where
  "pair_sizes ups ps =
     sum_list (map (\<lambda>(u, _). case find (\<lambda>x. up_id x = u) ups of None \<Rightarrow> 0 | Some x \<Rightarrow> up_sizeBytes x) ps)"

definition links_ok :: "upload_row list \<Rightarrow> (uuid \<times> int) list \<Rightarrow> bool" where
  "links_ok ups ps \<longleftrightarrow>
     distinct (map fst ps) \<and> distinct (map snd ps) \<and>
     set (map fst ps) \<subseteq> set (map up_id ups) \<and> pair_sizes ups ps \<le> ATTACHMENTS_TOTAL_MAX_BYTES"

definition draft_pairs :: "uuid \<Rightarrow> draft_upload_row list \<Rightarrow> (uuid \<times> int) list" where
  "draft_pairs d ls = map (\<lambda>l. (du_uploadId l, du_ordinal l)) (filter (\<lambda>l. du_draftId l = d) ls)"

definition outbound_pairs :: "uuid \<Rightarrow> outbound_upload_row list \<Rightarrow> (uuid \<times> int) list" where
  "outbound_pairs b ls = map (\<lambda>l. (ou_uploadId l, ou_ordinal l)) (filter (\<lambda>l. ou_outboundId l = b) ls)"

definition attachments_ok :: "hub \<Rightarrow> bool" where
  "attachments_ok h \<longleftrightarrow>
     list_all (\<lambda>d. links_ok (h_uploads h) (draft_pairs d (h_draftUploads h)))
       (map du_draftId (h_draftUploads h)) \<and>
     list_all (\<lambda>b. links_ok (h_uploads h) (outbound_pairs b (h_outboundUploads h)))
       (map ou_outboundId (h_outboundUploads h))"

section \<open>Lemmas\<close>

lemma links_ok_Nil [simp]: "links_ok ups []"
  by (simp add: links_ok_def pair_sizes_def ATTACHMENTS_TOTAL_MAX_BYTES_def)

lemma draft_pairs_other: "d \<notin> set (map du_draftId ls) \<Longrightarrow> draft_pairs d ls = []"
  by (auto simp: draft_pairs_def filter_empty_conv)

lemma outbound_pairs_other: "b \<notin> set (map ou_outboundId ls) \<Longrightarrow> outbound_pairs b ls = []"
  by (auto simp: outbound_pairs_def filter_empty_conv)

lemma attachments_ok_alt:
  "attachments_ok h \<longleftrightarrow>
     (\<forall>d. links_ok (h_uploads h) (draft_pairs d (h_draftUploads h))) \<and>
     (\<forall>b. links_ok (h_uploads h) (outbound_pairs b (h_outboundUploads h)))"
  unfolding attachments_ok_def list_all_iff
  by (metis draft_pairs_other outbound_pairs_other links_ok_Nil)

lemma pair_sizes_append: "pair_sizes ups (ps @ qs) = pair_sizes ups ps + pair_sizes ups qs"
  by (simp add: pair_sizes_def)

lemma pair_sizes_new_upload:
  "set (map fst ps) \<subseteq> set (map up_id ups) \<Longrightarrow> pair_sizes (ups @ [x]) ps = pair_sizes ups ps"
proof (induction ps)
  case (Cons a ps)
  obtain u n where a: "a = (u, n)" by fastforce
  from Cons.prems a have "find (\<lambda>y. up_id y = u) ups \<noteq> None"
    by (auto simp: find_None_iff)
  then obtain y where "find (\<lambda>y. up_id y = u) ups = Some y" by blast
  moreover have "find P zs = Some y \<Longrightarrow> find P (zs @ [x]) = Some y" for P and zs :: "upload_row list"
    by (induction zs) auto
  ultimately have "find (\<lambda>y. up_id y = u) (ups @ [x]) = find (\<lambda>y. up_id y = u) ups" by simp
  with Cons a show ?case by (simp add: pair_sizes_def)
qed (simp add: pair_sizes_def)

lemma links_ok_new_upload: "links_ok ups ps \<Longrightarrow> links_ok (ups @ [x]) ps"
  by (auto simp: links_ok_def pair_sizes_new_upload)

lemma attachments_ok_new_upload:
  "attachments_ok h \<Longrightarrow> h_draftUploads h' = h_draftUploads h \<Longrightarrow>
     h_outboundUploads h' = h_outboundUploads h \<Longrightarrow> h_uploads h' = h_uploads h @ [x] \<Longrightarrow>
     attachments_ok h'"
  by (simp add: attachments_ok_alt links_ok_new_upload)

lemma attachments_ok_frame:
  "attachments_ok h \<Longrightarrow> h_draftUploads h' = h_draftUploads h \<Longrightarrow>
     h_outboundUploads h' = h_outboundUploads h \<Longrightarrow> h_uploads h' = h_uploads h \<Longrightarrow>
     attachments_ok h'"
  by (simp add: attachments_ok_alt)

lemma attached_bytes_pairs: "attached_bytes d h = pair_sizes (h_uploads h) (draft_pairs d (h_draftUploads h))"
  by (simp add: attached_bytes_def pair_sizes_def draft_pairs_def draft_links_def comp_def)

lemma fold_max_ge: "x \<in> set (y # xs) \<Longrightarrow> x \<le> fold max xs (y :: int)"
  by (metis Max.set_eq_fold List.finite_set Max_ge)

lemma nextOrdinal_above:
  assumes "l \<in> set (h_draftUploads h)" and "du_draftId l = pg_uuid d"
  shows "du_ordinal l < nextOrdinal d h"
proof -
  from assms have m: "du_ordinal l \<in> set (map du_ordinal (draft_links (pg_uuid d) h))"
    by (auto simp: draft_links_def)
  show ?thesis
  proof (cases "map du_ordinal (draft_links (pg_uuid d) h)")
    case Nil
    with m show ?thesis by simp
  next
    case (Cons y ys)
    with m have "du_ordinal l \<le> fold max ys y" by (intro fold_max_ge) (simp only: Cons)
    with Cons show ?thesis by (simp add: nextOrdinal_def)
  qed
qed

lemma find_None_in_set: "find P xs = None \<Longrightarrow> x \<in> set xs \<Longrightarrow> \<not> P x"
  by (auto simp: find_None_iff)

lemma run_tx_snd_cases:
  "(\<And>a h'. f h = Inr (a, h') \<Longrightarrow> Q h') \<Longrightarrow> Q h \<Longrightarrow> Q (snd (run_tx f h))"
  by (auto simp: run_tx_def split: sum.splits prod.splits)

lemma recordComposeEvent_add [simp]:
  "recordComposeEvent a t e i pl h = add_event \<lparr>ev_actor = a, ev_type = t, ev_entityType = e,
     ev_entityId = Some i, ev_payload = pl\<rparr> h"
  by (simp add: recordComposeEvent_def)

end
