(* ===== verification/Compose_Safety.thy ===== *)
theory Compose_Safety
  imports Compose_Uploads "HOL-Library.Multiset"
begin

text \<open>
  What the compose handlers guarantee, over every operation: a locked draft and its attachments
  stay frozen, no edit is lost between two devices, attachments stay within their budget and
  their order, an acknowledged upload is retrievable, and only a definitive outcome releases a
  draft lock.
\<close>

section \<open>What a successful operation did\<close>

lemma lockEditableDraft_ok:
  "lockEditableDraft d h = Inr row \<longleftrightarrow>
     find (\<lambda>x. dr_id x = pg_uuid d) (h_drafts h) = Some row \<and>
     dr_deletedAt row = None \<and> dr_lockedBySend row = None"
  by (auto simp: lockEditableDraft_def lockDraftRow_def tx_simps split: option.splits)

lemma draft_patch_frame:
  "draft_patch x row h = Inr next \<Longrightarrow>
     dr_id next = dr_id row \<and> dr_accountId next = dr_accountId row \<and>
     dr_revision next = dr_revision row \<and> dr_lockedBySend next = dr_lockedBySend row \<and>
     dr_deletedAt next = dr_deletedAt row"
  by (auto simp: draft_patch_def tx_simps)

lemma updateDraft_success:
  assumes "updateDraft p now q d x h = Inr (r, h')"
  obtains row nxt where "find (\<lambda>y. dr_id y = pg_uuid d) (h_drafts h) = Some row"
    and "dr_deletedAt row = None" and "dr_lockedBySend row = None"
    and "dr_revision row = ui_baseRevision x"
    and "changed_fields x = [] \<and> h' = h \<or>
      changed_fields x \<noteq> [] \<and> dr_id nxt = dr_id row \<and> dr_revision nxt = dr_revision row + 1 \<and>
      dr_lockedBySend nxt = None \<and> dr_deletedAt nxt = None \<and>
      (\<exists>e. h' = add_event e (h\<lparr>h_drafts :=
         tbl_update (\<lambda>y. dr_id y = pg_uuid d) (\<lambda>_. nxt) (h_drafts h)\<rparr>)) \<and> d_revision r = dr_revision row + 1"
proof -
  from assms obtain row patched
    where row: "lockEditableDraft d h = Inr row" "dr_revision row = ui_baseRevision x"
      and patched: "draft_patch x row h = Inr patched"
      and body: "(if changed_fields x = [] then attempt (toDraftRecord row) (\<lambda>d. Inr (d, h))
       else
         (let next = patched\<lparr>dr_revision := dr_revision row + 1, dr_updatedAt := now\<rparr>;
              h1 = recordComposeEvent User_Actor ''draft.updated'' ''draft'' (pg_uuid d)
                     [(''fromRevision'', JNum (dr_revision row)),
                      (''toRevision'', JNum (dr_revision next)),
                      (''changed'', JArr (map JStr (changed_fields x)))]
                     (h\<lparr>h_drafts := tbl_update (\<lambda>y. dr_id y = pg_uuid d) (\<lambda>_. next)
                                     (h_drafts h)\<rparr>)
          in attempt (toDraftRecord next) (\<lambda>d. Inr (d, h1)))) = Inr (r, h')"
    unfolding updateDraft_def tx_simps by blast
  define nxt where "nxt = patched\<lparr>dr_revision := dr_revision row + 1, dr_updatedAt := now\<rparr>"
  show thesis
  proof (rule that [of row nxt])
    show "changed_fields x = [] \<and> h' = h \<or>
      changed_fields x \<noteq> [] \<and> dr_id nxt = dr_id row \<and> dr_revision nxt = dr_revision row + 1 \<and>
      dr_lockedBySend nxt = None \<and> dr_deletedAt nxt = None \<and>
      (\<exists>e. h' = add_event e (h\<lparr>h_drafts :=
         tbl_update (\<lambda>y. dr_id y = pg_uuid d) (\<lambda>_. nxt) (h_drafts h)\<rparr>)) \<and> d_revision r = dr_revision row + 1"
      using body row(1) draft_patch_frame [OF patched]
      by (cases "changed_fields x = []")
         (auto simp: tx_simps Let_def nxt_def lockEditableDraft_ok toDraftRecord_def)
  qed (use row in \<open>simp_all add: lockEditableDraft_ok\<close>)
qed

lemma updateDraft_frame:
  assumes "updateDraft p now q d x h = Inr (r, h')"
  shows "\<exists>row nxt. lockEditableDraft d h = Inr row \<and>
    (h' = h \<or> dr_id nxt = pg_uuid d \<and> dr_revision nxt = dr_revision row + 1 \<and>
       dr_lockedBySend nxt = None \<and>
       (\<exists>e. h' = add_event e (h\<lparr>h_drafts :=
         tbl_update (\<lambda>y. dr_id y = pg_uuid d) (\<lambda>_. nxt) (h_drafts h)\<rparr>)))"
proof (rule updateDraft_success [OF assms])
  fix row nxt
  assume f: "find (\<lambda>y. dr_id y = pg_uuid d) (h_drafts h) = Some row"
    and "dr_deletedAt row = None" "dr_lockedBySend row = None"
    and c: "changed_fields x = [] \<and> h' = h \<or>
      changed_fields x \<noteq> [] \<and> dr_id nxt = dr_id row \<and> dr_revision nxt = dr_revision row + 1 \<and>
      dr_lockedBySend nxt = None \<and> dr_deletedAt nxt = None \<and>
      (\<exists>e. h' = add_event e (h\<lparr>h_drafts :=
         tbl_update (\<lambda>y. dr_id y = pg_uuid d) (\<lambda>_. nxt) (h_drafts h)\<rparr>)) \<and>
      d_revision r = dr_revision row + 1"
  then have "lockEditableDraft d h = Inr row" by (simp add: lockEditableDraft_ok)
  moreover have "dr_id row = pg_uuid d" using find_in_set [OF f] by simp
  ultimately show ?thesis using c by (intro exI [of _ row] exI [of _ nxt]) auto
qed

lemma createDraft_success:
  assumes "createDraft p i now q x h = Inr (r, h')"
  shows "\<exists>row e. h' = add_event e (h\<lparr>h_drafts := h_drafts h @ [row]\<rparr>) \<and> dr_id row = i \<and>
    dr_lockedBySend row = None"
  using assms by (clarsimp simp: createDraft_def tx_simps Let_def) (intro exI conjI, rule refl, simp_all)

lemma createReplyDraft_success:
  assumes "createReplyDraft p i now q x h = Inr (r, h')"
  shows "\<exists>row e. h' = add_event e (h\<lparr>h_drafts := h_drafts h @ [row]\<rparr>) \<and> dr_id row = i \<and>
    dr_lockedBySend row = None"
  using assms
  by (clarsimp simp: createReplyDraft_def tx_simps Let_def) (intro exI conjI, rule refl, simp_all)

lemma deleteDraft_success:
  assumes "deleteDraft p now q d h = Inr (r, h')"
  shows "\<exists>row e. h' = add_event e (h\<lparr>h_drafts := tbl_update (\<lambda>y. dr_id y = pg_uuid d)
           (\<lambda>y. y\<lparr>dr_deletedAt := Some now\<rparr>) (h_drafts h)\<rparr>) \<and> lockEditableDraft d h = Inr row"
  using assms by (clarsimp simp: deleteDraft_def tx_simps) (intro exI conjI, rule refl)

definition upload_step :: "uuid \<Rightarrow> hub \<Rightarrow> hub \<Rightarrow> bool" where
  "upload_step i h h' \<longleftrightarrow>
     h_drafts h' = h_drafts h \<and> h_draftUploads h' = h_draftUploads h \<and>
     h_outboundUploads h' = h_outboundUploads h \<and> h_outbound h' = h_outbound h \<and>
     (h_uploads h' = h_uploads h \<or> (\<exists>row. h_uploads h' = h_uploads h @ [row] \<and> up_id row = i \<and>
       0 \<le> up_sizeBytes row))"

lemma createUpload_state: "upload_step i h (snd (createUpload p i now q x h))"
  by (simp add: createUpload_def upload_step_def Let_def upload_row_of_def
      split: sum.split storage_error.split prod.split)

lemma attachUpload_success:
  assumes "attachUpload p q d u h = Inr (r, h')"
  shows "\<exists>row upload. lockEditableDraft d h = Inr row \<and> requireUpload u h = Inr upload \<and>
    (h' = h \<and> findDraftUpload d u h = Some (snd r) \<or>
     findDraftUpload d u h = None \<and> requireAttachmentBudget d upload h = Inr () \<and>
     snd r = nextOrdinal d h \<and>
     (\<exists>e. h' = add_event e (h\<lparr>h_draftUploads := h_draftUploads h @
        [\<lparr>du_draftId = pg_uuid d, du_uploadId = pg_uuid u, du_ordinal = nextOrdinal d h\<rparr>]\<rparr>)))"
  using assms by (auto simp: attachUpload_def tx_simps Let_def split: option.splits)

lemma detachUpload_success:
  assumes "detachUpload p q d u h = Inr (r, h')"
  shows "\<exists>row e. h' = add_event e (h\<lparr>h_draftUploads :=
      filter (\<lambda>l. \<not> (du_draftId l = pg_uuid d \<and> du_uploadId l = pg_uuid u)) (h_draftUploads h)\<rparr>) \<and>
    lockEditableDraft d h = Inr row"
  using assms
  by (clarsimp simp: detachUpload_def tx_simps Let_def simp del: de_Morgan_conj)
     (intro exI conjI, rule refl)

lemma createResendDraft_success:
  assumes "createResendDraft p i now q b h = Inr (r, h')"
  shows "\<exists>row e outbound. h' = add_event e (h\<lparr>h_drafts := h_drafts h @ [row],
      h_draftUploads := h_draftUploads h @
        map (\<lambda>l. \<lparr>du_draftId = i, du_uploadId = ou_uploadId l, du_ordinal = ou_ordinal l\<rparr>)
          (sort_key ou_ordinal (filter (\<lambda>l. ou_outboundId l = pg_uuid b) (h_outboundUploads h)))\<rparr>) \<and>
    dr_id row = i \<and> dr_lockedBySend row = None \<and>
    find (\<lambda>y. ob_id y = pg_uuid b) (h_outbound h) = Some outbound \<and>
    ob_status outbound = Outcome_Unknown"
  using assms
  by (clarsimp simp: createResendDraft_def tx_simps Let_def split: option.splits)
     (intro exI conjI, rule refl, simp_all)

section \<open>Frames\<close>

lemma distinct_draft_id:
  "distinct (map dr_id ds) \<Longrightarrow> x \<in> set ds \<Longrightarrow> y \<in> set ds \<Longrightarrow> dr_id x = dr_id y \<Longrightarrow> x = y"
  by (auto simp: distinct_map dest: inj_onD)

text \<open>A lock stands between every edit path and the locked row.\<close>

lemma editable_not_locked:
  assumes "distinct (map dr_id (h_drafts h))" and "lockEditableDraft i h = Inr row"
    and "d \<in> set (h_drafts h)" and "dr_lockedBySend d \<noteq> None"
  shows "dr_id d \<noteq> pg_uuid i"
proof
  assume "dr_id d = pg_uuid i"
  with assms(1,3) have "find (\<lambda>x. dr_id x = pg_uuid i) (h_drafts h) = Some d"
    using find_by_key_unique [of dr_id "h_drafts h" d] by simp
  with assms(2,4) show False by (simp add: lockEditableDraft_ok)
qed

lemma kept_in_update: "d \<in> set t \<Longrightarrow> \<not> P d \<Longrightarrow> d \<in> set (tbl_update P f t)"
  by (force simp: in_tbl_update)

lemma draft_pairs_append:
  "draft_pairs d (xs @ ys) = draft_pairs d xs @ draft_pairs d ys"
  by (simp add: draft_pairs_def)

lemma draft_pairs_filter_other:
  "d \<noteq> e \<Longrightarrow> draft_pairs d (filter (\<lambda>l. \<not> (du_draftId l = e \<and> du_uploadId l = u)) ls) = draft_pairs d ls"
  by (induction ls) (auto simp: draft_pairs_def)

lemma draft_pairs_filter_same:
  "draft_pairs d (filter (\<lambda>l. \<not> (du_draftId l = d \<and> du_uploadId l = u)) ls) =
     filter (\<lambda>x. fst x \<noteq> u) (draft_pairs d ls)"
  by (induction ls) (auto simp: draft_pairs_def)

lemma draft_pairs_copies:
  "draft_pairs d (map (\<lambda>l. \<lparr>du_draftId = i, du_uploadId = ou_uploadId l, du_ordinal = ou_ordinal l\<rparr>) ls) =
     (if d = i then map (\<lambda>l. (ou_uploadId l, ou_ordinal l)) ls else [])"
  by (induction ls) (auto simp: draft_pairs_def)

lemma pair_sizes_perm: "mset ps = mset qs \<Longrightarrow> pair_sizes ups ps = pair_sizes ups qs"
proof -
  assume "mset ps = mset qs"
  then have "mset (map f ps) = mset (map f qs)" for f :: "uuid \<times> int \<Rightarrow> int"
    by (simp only: mset_map)
  then show ?thesis unfolding pair_sizes_def sum_mset_sum_list [symmetric] by simp
qed

lemma links_ok_perm: "mset ps = mset qs \<Longrightarrow> links_ok ups ps = links_ok ups qs"
proof -
  assume a: "mset ps = mset qs"
  then have f: "mset (map fst ps) = mset (map fst qs)" "mset (map snd ps) = mset (map snd qs)"
    by (simp_all only: mset_map)
  show ?thesis
    unfolding links_ok_def pair_sizes_perm [OF a]
    using mset_eq_imp_distinct_iff [OF f(1)] mset_eq_imp_distinct_iff [OF f(2)]
      mset_eq_setD [OF f(1)] by simp
qed

definition sizes_nonneg :: "hub \<Rightarrow> bool" where
  "sizes_nonneg h \<longleftrightarrow> list_all (\<lambda>u. 0 \<le> up_sizeBytes u) (h_uploads h)"

lemma pair_sizes_filter:
  assumes "list_all (\<lambda>u. 0 \<le> up_sizeBytes u) ups"
  shows "pair_sizes ups (filter P ps) \<le> pair_sizes ups ps"
proof (induction ps)
  case (Cons a ps)
  have "0 \<le> (case find (\<lambda>x. up_id x = fst a) ups of None \<Rightarrow> 0 | Some x \<Rightarrow> up_sizeBytes x)"
    using assms by (auto simp: list_all_iff split: option.split dest!: find_in_set)
  with Cons show ?case by (auto simp: pair_sizes_def split_beta)
qed (simp add: pair_sizes_def)

lemma links_ok_filter:
  "list_all (\<lambda>u. 0 \<le> up_sizeBytes u) ups \<Longrightarrow> links_ok ups ps \<Longrightarrow> links_ok ups (filter P ps)"
  using pair_sizes_filter [of ups P ps]
  by (auto simp: links_ok_def distinct_map_filter)

lemma attachUpload_links_ok:
  assumes ok: "links_ok (h_uploads h) (draft_pairs (pg_uuid d) (h_draftUploads h))"
    and up: "requireUpload u h = Inr upload" and new: "findDraftUpload d u h = None"
    and budget: "requireAttachmentBudget d upload h = Inr ()"
  shows "links_ok (h_uploads h)
     (draft_pairs (pg_uuid d) (h_draftUploads h) @ [(pg_uuid u, nextOrdinal d h)])"
proof -
  from up have f: "find (\<lambda>x. up_id x = pg_uuid u) (h_uploads h) = Some upload"
    by (simp add: requireUpload_def split: option.splits)
  have n: "pg_uuid u \<notin> fst ` set (draft_pairs (pg_uuid d) (h_draftUploads h))"
    using new by (auto simp: findDraftUpload_def draft_pairs_def find_None_iff)
  have o: "nextOrdinal d h \<notin> snd ` set (draft_pairs (pg_uuid d) (h_draftUploads h))"
    by (auto simp: draft_pairs_def dest!: nextOrdinal_above)
  from budget have b: "pair_sizes (h_uploads h) (draft_pairs (pg_uuid d) (h_draftUploads h)) +
      up_sizeBytes upload \<le> ATTACHMENTS_TOTAL_MAX_BYTES"
    by (simp add: requireAttachmentBudget_def attached_bytes_pairs split: if_splits)
  from find_in_set [OF f] have "pg_uuid u \<in> up_id ` set (h_uploads h)" by force
  with ok n o b f show ?thesis
    by (auto simp: links_ok_def pair_sizes_append) (simp_all add: pair_sizes_def)
qed

lemma run_compose_drafts:
  assumes "distinct (map dr_id (h_drafts h))" and "fresh_for op h"
    and "d \<in> set (h_drafts h)" and "dr_lockedBySend d = Some b"
  shows "d \<in> set (h_drafts (run_compose p q op h)) \<and>
    draft_pairs (dr_id d) (h_draftUploads (run_compose p q op h)) =
      draft_pairs (dr_id d) (h_draftUploads h)"
proof -
  have ne: "dr_id d \<noteq> pg_uuid i" if "lockEditableDraft i h = Inr row" for i row
    using editable_not_locked [OF assms(1) that assms(3)] assms(4) by simp
  let ?Q = "\<lambda>h'. d \<in> set (h_drafts h') \<and>
      draft_pairs (dr_id d) (h_draftUploads h') = draft_pairs (dr_id d) (h_draftUploads h)"
  have Q0: "?Q h" using assms(3) by simp
  show ?thesis
  proof (cases op)
    case (Op_Create i now x)
    have "?Q h'" if "createDraft p i now q x h = Inr (r, h')" for r h'
      using createDraft_success [OF that] assms(3) by auto
    then show ?thesis unfolding Op_Create run_compose.simps using Q0 by (rule run_tx_snd_cases)
  next
    case (Op_Create_Reply i now x)
    have "?Q h'" if "createReplyDraft p i now q x h = Inr (r, h')" for r h'
      using createReplyDraft_success [OF that] assms(3) by auto
    then show ?thesis unfolding Op_Create_Reply run_compose.simps using Q0 by (rule run_tx_snd_cases)
  next
    case (Op_Update now i x)
    have "?Q h'" if "updateDraft p now q i x h = Inr (r, h')" for r h'
    proof -
      from updateDraft_frame [OF that] obtain row nxt
        where row: "lockEditableDraft i h = Inr row"
          and h': "h' = h \<or> (\<exists>e. h' = add_event e (h\<lparr>h_drafts :=
             tbl_update (\<lambda>y. dr_id y = pg_uuid i) (\<lambda>_. nxt) (h_drafts h)\<rparr>))"
        by blast
      from ne [OF row] h' assms(3) show ?thesis by (auto intro: kept_in_update)
    qed
    then show ?thesis unfolding Op_Update run_compose.simps using Q0 by (rule run_tx_snd_cases)
  next
    case (Op_Delete now i)
    have "?Q h'" if "deleteDraft p now q i h = Inr (r, h')" for r h'
    proof -
      from deleteDraft_success [OF that] obtain e row where "lockEditableDraft i h = Inr row"
        and h': "h' = add_event e (h\<lparr>h_drafts := tbl_update (\<lambda>y. dr_id y = pg_uuid i)
           (\<lambda>y. y\<lparr>dr_deletedAt := Some now\<rparr>) (h_drafts h)\<rparr>)" by blast
      from ne [OF this(1)] h' assms(3) show ?thesis by (auto intro: kept_in_update)
    qed
    then show ?thesis unfolding Op_Delete run_compose.simps using Q0 by (rule run_tx_snd_cases)
  next
    case (Op_Upload i now x)
    with createUpload_state [of i h p now q x] assms(3) show ?thesis by (simp add: upload_step_def)
  next
    case (Op_Attach i u)
    have "?Q h'" if "attachUpload p q i u h = Inr (r, h')" for r h'
    proof -
      from attachUpload_success [OF that] obtain row where "lockEditableDraft i h = Inr row"
        and h': "h' = h \<or> (\<exists>e. h' = add_event e (h\<lparr>h_draftUploads := h_draftUploads h @
           [\<lparr>du_draftId = pg_uuid i, du_uploadId = pg_uuid u, du_ordinal = nextOrdinal i h\<rparr>]\<rparr>))"
        by blast
      from ne [OF this(1)] h' assms(3) show ?thesis
        by (auto simp: draft_pairs_append) (auto simp: draft_pairs_def)
    qed
    then show ?thesis unfolding Op_Attach run_compose.simps using Q0 by (rule run_tx_snd_cases)
  next
    case (Op_Detach i u)
    have "?Q h'" if "detachUpload p q i u h = Inr (r, h')" for r h'
      using detachUpload_success [OF that] assms(3) ne
      by (auto simp: draft_pairs_filter_other simp del: de_Morgan_conj)
    then show ?thesis unfolding Op_Detach run_compose.simps using Q0 by (rule run_tx_snd_cases)
  next
    case (Op_Resend i now o')
    with assms(2,3) have "dr_id d \<noteq> i" by auto
    then have "?Q h'" if "createResendDraft p i now q o' h = Inr (r, h')" for r h'
      using createResendDraft_success [OF that] assms(3)
      by (auto simp: draft_pairs_append draft_pairs_copies)
    then show ?thesis unfolding Op_Resend run_compose.simps using Q0 by (rule run_tx_snd_cases)
  qed
qed

lemma run_compose_attachments:
  assumes ok: "attachments_ok h" and "fresh_for op h" and nn: "sizes_nonneg h"
  shows "attachments_ok (run_compose p q op h)"
proof (cases op)
  case (Op_Create i now x)
  have "attachments_ok h'" if "createDraft p i now q x h = Inr (r, h')" for r h'
    using createDraft_success [OF that] ok by (auto intro: attachments_ok_frame)
  then show ?thesis unfolding Op_Create run_compose.simps using ok by (rule run_tx_snd_cases)
next
  case (Op_Create_Reply i now x)
  have "attachments_ok h'" if "createReplyDraft p i now q x h = Inr (r, h')" for r h'
    using createReplyDraft_success [OF that] ok by (auto intro: attachments_ok_frame)
  then show ?thesis unfolding Op_Create_Reply run_compose.simps using ok by (rule run_tx_snd_cases)
next
  case (Op_Update now i x)
  have "attachments_ok h'" if "updateDraft p now q i x h = Inr (r, h')" for r h'
    using updateDraft_frame [OF that] ok by (auto intro: attachments_ok_frame)
  then show ?thesis unfolding Op_Update run_compose.simps using ok by (rule run_tx_snd_cases)
next
  case (Op_Delete now i)
  have "attachments_ok h'" if "deleteDraft p now q i h = Inr (r, h')" for r h'
    using deleteDraft_success [OF that] ok by (auto intro: attachments_ok_frame)
  then show ?thesis unfolding Op_Delete run_compose.simps using ok by (rule run_tx_snd_cases)
next
  case (Op_Upload i now x)
  with createUpload_state [of i h p now q x] ok show ?thesis
    by (auto simp: upload_step_def intro: attachments_ok_frame attachments_ok_new_upload)
next
  case (Op_Attach i u)
  have "attachments_ok h'" if a: "attachUpload p q i u h = Inr (r, h')" for r h'
  proof -
    from attachUpload_success [OF a] consider "h' = h"
      | upload e where "requireUpload u h = Inr upload" "findDraftUpload i u h = None"
        "requireAttachmentBudget i upload h = Inr ()"
        "h' = add_event e (h\<lparr>h_draftUploads := h_draftUploads h @
          [\<lparr>du_draftId = pg_uuid i, du_uploadId = pg_uuid u, du_ordinal = nextOrdinal i h\<rparr>]\<rparr>)"
      by blast
    then show ?thesis
    proof cases
      case 2
      have "links_ok (h_uploads h) (draft_pairs (pg_uuid i) (h_draftUploads h))"
        using ok by (simp add: attachments_ok_alt)
      from attachUpload_links_ok [OF this 2(1,2,3)] ok 2(4) show ?thesis
        by (auto simp: attachments_ok_alt draft_pairs_append) (auto simp: draft_pairs_def)
    qed (use ok in simp)
  qed
  then show ?thesis unfolding Op_Attach run_compose.simps using ok by (rule run_tx_snd_cases)
next
  case (Op_Detach i u)
  have "attachments_ok h'" if a: "detachUpload p q i u h = Inr (r, h')" for r h'
  proof -
    from detachUpload_success [OF a] obtain e where h': "h' = add_event e (h\<lparr>h_draftUploads :=
      filter (\<lambda>l. \<not> (du_draftId l = pg_uuid i \<and> du_uploadId l = pg_uuid u)) (h_draftUploads h)\<rparr>)"
      by blast
    have "links_ok (h_uploads h) (draft_pairs d (filter
        (\<lambda>l. \<not> (du_draftId l = pg_uuid i \<and> du_uploadId l = pg_uuid u)) (h_draftUploads h)))" for d
      using ok nn links_ok_filter [of "h_uploads h" "draft_pairs d (h_draftUploads h)"]
      by (cases "d = pg_uuid i")
         (simp_all add: draft_pairs_filter_same draft_pairs_filter_other attachments_ok_alt
            sizes_nonneg_def del: de_Morgan_conj)
    with ok h' show ?thesis by (simp add: attachments_ok_alt del: de_Morgan_conj)
  qed
  then show ?thesis unfolding Op_Detach run_compose.simps using ok by (rule run_tx_snd_cases)
next
  case (Op_Resend i now b)
  have "attachments_ok h'" if a: "createResendDraft p i now q b h = Inr (r, h')" for r h'
  proof -
    let ?ls = "sort_key ou_ordinal (filter (\<lambda>l. ou_outboundId l = pg_uuid b) (h_outboundUploads h))"
    have "links_ok (h_uploads h) (outbound_pairs (pg_uuid b) (h_outboundUploads h))"
      using ok by (simp add: attachments_ok_alt)
    then have copies: "links_ok (h_uploads h) (map (\<lambda>l. (ou_uploadId l, ou_ordinal l)) ?ls)"
      by (rule links_ok_perm [THEN iffD1, rotated]) (simp add: outbound_pairs_def)
    from assms(2) Op_Resend have "draft_pairs i (h_draftUploads h) = []"
      by (intro draft_pairs_other) simp
    with createResendDraft_success [OF a] copies ok show ?thesis
      by (auto simp: attachments_ok_alt draft_pairs_append draft_pairs_copies)
  qed
  then show ?thesis unfolding Op_Resend run_compose.simps using ok by (rule run_tx_snd_cases)
qed

text \<open>
  What every operation does to the draft rows: a new one is appended, or one row is replaced by
  one with the same identifier and lock, and with a higher revision where its content differs.
\<close>

definition draft_content :: "draft_row \<Rightarrow> draft_row" where
  "draft_content d = d\<lparr>dr_lockedBySend := None, dr_updatedAt := 0, dr_deletedAt := None\<rparr>"

definition drafts_step :: "draft_row list \<Rightarrow> draft_row list \<Rightarrow> bool" where
  "drafts_step ds ds' \<longleftrightarrow>
     ds' = ds \<or>
     (\<exists>row. ds' = ds @ [row] \<and> dr_id row \<notin> dr_id ` set ds \<and> dr_lockedBySend row = None) \<or>
     (\<exists>P f. ds' = tbl_update P f ds \<and>
        (\<forall>d \<in> set ds. P d \<longrightarrow> dr_id (f d) = dr_id d \<and>
           dr_lockedBySend (f d) = dr_lockedBySend d \<and>
           (dr_revision d < dr_revision (f d) \<or> draft_content (f d) = draft_content d)))"

lemma draft_content_fields:
  "dr_revision (draft_content d) = dr_revision d" "dr_id (draft_content d) = dr_id d"
  by (simp_all add: draft_content_def)

lemma draft_content_revision: "draft_content d = draft_content e \<Longrightarrow> dr_revision d = dr_revision e"
  by (metis draft_content_fields(1))

lemma run_compose_drafts_step:
  assumes "distinct (map dr_id (h_drafts h))" and "fresh_for op h"
  shows "drafts_step (h_drafts h) (h_drafts (run_compose p q op h))"
proof -
  let ?Q = "\<lambda>h'. drafts_step (h_drafts h) (h_drafts h')"
  have Q0: "?Q h" by (simp add: drafts_step_def)
  show ?thesis
  proof (cases op)
    case (Op_Create i now x)
    have "?Q h'" if "createDraft p i now q x h = Inr (r, h')" for r h'
      using createDraft_success [OF that] assms(2) Op_Create by (auto simp: drafts_step_def)
    then show ?thesis unfolding Op_Create run_compose.simps using Q0 by (rule run_tx_snd_cases)
  next
    case (Op_Create_Reply i now x)
    have "?Q h'" if "createReplyDraft p i now q x h = Inr (r, h')" for r h'
      using createReplyDraft_success [OF that] assms(2) Op_Create_Reply by (auto simp: drafts_step_def)
    then show ?thesis unfolding Op_Create_Reply run_compose.simps using Q0 by (rule run_tx_snd_cases)
  next
    case (Op_Update now i x)
    have "?Q h'" if "updateDraft p now q i x h = Inr (r, h')" for r h'
    proof -
      from updateDraft_frame [OF that] obtain row nxt where row: "lockEditableDraft i h = Inr row"
        and h': "h' = h \<or> dr_id nxt = pg_uuid i \<and> dr_revision nxt = dr_revision row + 1 \<and>
           dr_lockedBySend nxt = None \<and> h_drafts h' = tbl_update (\<lambda>y. dr_id y = pg_uuid i) (\<lambda>_. nxt) (h_drafts h)"
        by fastforce
      have "d = row" if "d \<in> set (h_drafts h)" "dr_id d = pg_uuid i" for d
        using find_key_eq_unique [OF assms(1), of "pg_uuid i" row d] row that
        by (simp add: lockEditableDraft_ok)
      moreover have "dr_lockedBySend row = None" using row by (simp add: lockEditableDraft_ok)
      ultimately show ?thesis using h' unfolding drafts_step_def by fastforce
    qed
    then show ?thesis unfolding Op_Update run_compose.simps using Q0 by (rule run_tx_snd_cases)
  next
    case (Op_Delete now i)
    have "?Q h'" if "deleteDraft p now q i h = Inr (r, h')" for r h'
      using deleteDraft_success [OF that] by (fastforce simp: drafts_step_def draft_content_def)
    then show ?thesis unfolding Op_Delete run_compose.simps using Q0 by (rule run_tx_snd_cases)
  next
    case (Op_Upload i now x)
    with createUpload_state [of i h p now q x] show ?thesis by (simp add: upload_step_def drafts_step_def)
  next
    case (Op_Attach i u)
    have "?Q h'" if "attachUpload p q i u h = Inr (r, h')" for r h'
      using attachUpload_success [OF that] by (auto simp: drafts_step_def)
    then show ?thesis unfolding Op_Attach run_compose.simps using Q0 by (rule run_tx_snd_cases)
  next
    case (Op_Detach i u)
    have "?Q h'" if "detachUpload p q i u h = Inr (r, h')" for r h'
      using detachUpload_success [OF that] by (auto simp: drafts_step_def)
    then show ?thesis unfolding Op_Detach run_compose.simps using Q0 by (rule run_tx_snd_cases)
  next
    case (Op_Resend i now b)
    have "?Q h'" if "createResendDraft p i now q b h = Inr (r, h')" for r h'
      using createResendDraft_success [OF that] assms(2) Op_Resend by (auto simp: drafts_step_def)
    then show ?thesis unfolding Op_Resend run_compose.simps using Q0 by (rule run_tx_snd_cases)
  qed
qed

lemma drafts_step_distinct:
  "drafts_step ds ds' \<Longrightarrow> distinct (map dr_id ds) \<Longrightarrow> distinct (map dr_id ds')"
proof (unfold drafts_step_def, elim disjE exE conjE, goal_cases)
  case (3 P f)
  then have "map dr_id ds' = map dr_id ds" by (simp add: tbl_update_def)
  with 3 show ?case by simp
qed auto

lemma drafts_step_revision:
  assumes "drafts_step ds ds'" and "d \<in> set ds"
  shows "\<exists>d' \<in> set ds'. dr_id d' = dr_id d \<and> dr_revision d \<le> dr_revision d'"
proof -
  have "(if P d then f d else d) \<in> set (tbl_update P f ds)" for P f
    using assms(2) by (auto simp: in_tbl_update)
  moreover have "dr_revision d \<le> dr_revision e"
    if "dr_revision d < dr_revision e \<or> draft_content e = draft_content d" for e
    using that draft_content_revision [of e d] by auto
  ultimately show ?thesis
    using assms unfolding drafts_step_def by (smt (verit) Un_iff order_refl set_append)
qed

lemma run_composes_revision:
  assumes "distinct (map dr_id (h_drafts h))" and "fresh_run p ops h" and "d \<in> set (h_drafts h)"
  shows "distinct (map dr_id (h_drafts (run_composes p ops h))) \<and>
    (\<exists>d' \<in> set (h_drafts (run_composes p ops h)). dr_id d' = dr_id d \<and> dr_revision d \<le> dr_revision d')"
  using assms
proof (induction ops arbitrary: h d)
  case (Cons x ops)
  obtain q op where x: "x = (q, op)" by fastforce
  with Cons.prems have st: "drafts_step (h_drafts h) (h_drafts (run_compose p q op h))"
    by (intro run_compose_drafts_step) auto
  from drafts_step_revision [OF st Cons.prems(3)] obtain d1
    where d1: "d1 \<in> set (h_drafts (run_compose p q op h))" "dr_id d1 = dr_id d"
      "dr_revision d \<le> dr_revision d1" by blast
  have "fresh_run p ops (run_compose p q op h)" using Cons.prems(2) x by simp
  from Cons.IH [OF drafts_step_distinct [OF st Cons.prems(1)] this d1(1)] d1 x
  show ?case by (simp del: run_compose.simps) (metis order.trans)
qed auto

lemma drafts_step_content:
  assumes "drafts_step ds ds'" and "d \<in> set ds"
  shows "\<exists>d' \<in> set ds'. dr_id d' = dr_id d \<and>
    (dr_revision d < dr_revision d' \<or> draft_content d' = draft_content d)"
proof -
  have "(if P d then f d else d) \<in> set (tbl_update P f ds)" for P f
    using assms(2) by (auto simp: in_tbl_update)
  with assms show ?thesis unfolding drafts_step_def by (smt (verit) Un_iff set_append)
qed

text \<open>A revision stands for one content, whatever runs in between.\<close>

lemma run_composes_content:
  assumes "distinct (map dr_id (h_drafts h))" and "fresh_run p ops h" and "d \<in> set (h_drafts h)"
  shows "\<exists>d' \<in> set (h_drafts (run_composes p ops h)). dr_id d' = dr_id d \<and>
    (dr_revision d < dr_revision d' \<or> draft_content d' = draft_content d)"
  using assms
proof (induction ops arbitrary: h d)
  case (Cons x ops)
  obtain q op where x: "x = (q, op)" by fastforce
  with Cons.prems have st: "drafts_step (h_drafts h) (h_drafts (run_compose p q op h))"
    by (intro run_compose_drafts_step) auto
  from drafts_step_content [OF st Cons.prems(3)] obtain d1
    where d1: "d1 \<in> set (h_drafts (run_compose p q op h))" "dr_id d1 = dr_id d"
      "dr_revision d < dr_revision d1 \<or> draft_content d1 = draft_content d" by blast
  have "fresh_run p ops (run_compose p q op h)" using Cons.prems(2) x by simp
  from Cons.IH [OF drafts_step_distinct [OF st Cons.prems(1)] this d1(1)] d1 x
  show ?case by (simp del: run_compose.simps) (smt (verit) draft_content_revision)
qed auto

lemma run_compose_sizes:
  assumes "sizes_nonneg h"
  shows "sizes_nonneg (run_compose p q op h)"
proof (cases op)
  case (Op_Upload i now x)
  with createUpload_state [of i h p now q x] assms show ?thesis
    by (auto simp: upload_step_def sizes_nonneg_def)
next
  case (Op_Attach d u)
  have "sizes_nonneg h'" if "attachUpload p q d u h = Inr (r, h')" for r h'
    using attachUpload_success [OF that] assms by (auto simp: sizes_nonneg_def)
  then show ?thesis unfolding Op_Attach run_compose.simps using assms by (rule run_tx_snd_cases)
next
  case (Op_Update now i x)
  have "sizes_nonneg h'" if "updateDraft p now q i x h = Inr (r, h')" for r h'
    using updateDraft_frame [OF that] assms by (auto simp: sizes_nonneg_def)
  then show ?thesis unfolding Op_Update run_compose.simps using assms by (rule run_tx_snd_cases)
next
  case (Op_Create i now x)
  have "sizes_nonneg h'" if "createDraft p i now q x h = Inr (r, h')" for r h'
    using createDraft_success [OF that] assms by (auto simp: sizes_nonneg_def)
  then show ?thesis unfolding Op_Create run_compose.simps using assms by (rule run_tx_snd_cases)
next
  case (Op_Create_Reply i now x)
  have "sizes_nonneg h'" if "createReplyDraft p i now q x h = Inr (r, h')" for r h'
    using createReplyDraft_success [OF that] assms by (auto simp: sizes_nonneg_def)
  then show ?thesis unfolding Op_Create_Reply run_compose.simps using assms by (rule run_tx_snd_cases)
next
  case (Op_Delete now i)
  have "sizes_nonneg h'" if "deleteDraft p now q i h = Inr (r, h')" for r h'
    using deleteDraft_success [OF that] assms by (auto simp: sizes_nonneg_def)
  then show ?thesis unfolding Op_Delete run_compose.simps using assms by (rule run_tx_snd_cases)
next
  case (Op_Detach i u)
  have "sizes_nonneg h'" if "detachUpload p q i u h = Inr (r, h')" for r h'
    using detachUpload_success [OF that] assms by (auto simp: sizes_nonneg_def)
  then show ?thesis unfolding Op_Detach run_compose.simps using assms by (rule run_tx_snd_cases)
next
  case (Op_Resend i now b)
  have "sizes_nonneg h'" if "createResendDraft p i now q b h = Inr (r, h')" for r h'
    using createResendDraft_success [OF that] assms by (auto simp: sizes_nonneg_def)
  then show ?thesis unfolding Op_Resend run_compose.simps using assms by (rule run_tx_snd_cases)
qed

lemma run_composes_locked:
  assumes "distinct (map dr_id (h_drafts h))" and "fresh_run p ops h"
    and "d \<in> set (h_drafts h)" and "dr_lockedBySend d = Some b"
  shows "d \<in> set (h_drafts (run_composes p ops h)) \<and>
    draft_pairs (dr_id d) (h_draftUploads (run_composes p ops h)) =
      draft_pairs (dr_id d) (h_draftUploads h)"
  using assms
proof (induction ops arbitrary: h)
  case (Cons x ops)
  obtain q op where x: "x = (q, op)" by fastforce
  with Cons.prems have fr: "fresh_for op h" "fresh_run p ops (run_compose p q op h)" by simp_all
  note one = run_compose_drafts [OF Cons.prems(1) fr(1) Cons.prems(3,4), of p q]
  have "distinct (map dr_id (h_drafts (run_compose p q op h)))"
    using run_compose_drafts_step [OF Cons.prems(1) fr(1)] Cons.prems(1) by (rule drafts_step_distinct)
  from Cons.IH [OF this fr(2) _ Cons.prems(4)] one x show ?case by (simp del: run_compose.simps)
qed simp

lemma run_composes_attachments:
  assumes "attachments_ok h" and "sizes_nonneg h" and "fresh_run p ops h"
  shows "attachments_ok (run_composes p ops h)"
  using assms
proof (induction ops arbitrary: h)
  case (Cons x ops)
  obtain q op where x: "x = (q, op)" by fastforce
  with Cons.prems have fr: "fresh_for op h" "fresh_run p ops (run_compose p q op h)" by simp_all
  from Cons.IH [OF run_compose_attachments [OF Cons.prems(1) fr(1) Cons.prems(2)]
      run_compose_sizes [OF Cons.prems(2)] fr(2)] x
  show ?case by (simp del: run_compose.simps)
qed simp

section \<open>A concrete mailbox\<close>

definition demo_account :: uuid where
  "demo_account = ''aaaaaaaa-0000-4000-8000-000000000001''"

definition demo_draft_id :: uuid where
  "demo_draft_id = ''dddddddd-0000-4000-8000-000000000001''"

definition demo_upload_id :: uuid where
  "demo_upload_id = ''eeeeeeee-0000-4000-8000-000000000001''"

definition demo_outbound_id :: uuid where
  "demo_outbound_id = ''bbbbbbbb-0000-4000-8000-000000000001''"

definition demo_ports :: compose_ports where
  "demo_ports =
     \<lparr>cp_controls = demo_controls, cp_sha256 = map (\<lambda>w. char_of (unat w)),
      cp_put = (\<lambda>_ b. Inr \<lparr>so_sha256 = map (\<lambda>w. char_of (unat w)) b,
                             so_sizeBytes = int (length b), so_bytes = b\<rparr>),
      cp_extractReplyQuote = (\<lambda>_. ([], ''none''))\<rparr>"

definition demo_draft :: draft_row where
  "demo_draft =
     \<lparr>dr_id = demo_draft_id, dr_accountId = demo_account,
      dr_identity = \<lparr>ea_address = ''me@x.org'', ea_name = None\<rparr>, dr_threadId = None,
      dr_replyParentId = None, dr_inReplyTo = None, dr_referenceIds = [],
      dr_recipients = \<lparr>rc_to = [\<lparr>ea_address = ''bob@x.org'', ea_name = None\<rparr>],
                       rc_cc = Some [], rc_bcc = Some []\<rparr>,
      dr_subject = Some ''hi'', dr_markdown = ''text'', dr_revision = 3, dr_lockedBySend = None,
      dr_updatedAt = 1, dr_deletedAt = None\<rparr>"

definition ready_hub :: hub where
  "ready_hub = empty_hub\<lparr>
     h_serviceState := Some \<lparr>ss_recoveryGeneration = demo_gen, ss_recoveryMode = Mode_Ready,
                             ss_updatedAt = 0\<rparr>,
     h_accounts := [\<lparr>acc_id = demo_account,
       acc_identities = [\<lparr>ai_address = ''me@x.org'', ai_name = None, ai_isDefault = True\<rparr>]\<rparr>],
     h_drafts := [demo_draft]\<rparr>"

lemma demo_ids [simp]:
  "is_uuid demo_account" "is_uuid demo_draft_id" "is_uuid demo_upload_id" "is_uuid demo_outbound_id"
  "pg_uuid demo_account = demo_account" "pg_uuid demo_draft_id = demo_draft_id"
  "pg_uuid demo_upload_id = demo_upload_id" "pg_uuid demo_outbound_id = demo_outbound_id"
  by code_simp+

lemma ready_hub_gate [simp]:
  "h_serviceState h = h_serviceState ready_hub \<Longrightarrow> gateCompose demo_ports (Some demo_gen) h = Inr demo_gen"
proof -
  assume a: "h_serviceState h = h_serviceState ready_hub"
  have "readStatus demo_controls h = Ready_State demo_gen"
    using a by (simp add: readStatus_ready_iff ready_hub_def)
  then have "gateMutation demo_controls (Some demo_gen) h = Inr demo_gen"
    by (simp add: gateMutation_allow_iff decideMutationGate_allow_iff)
  then show ?thesis by (simp add: gateCompose_def demo_ports_def)
qed

definition retitle :: "int \<Rightarrow> update_draft_input" where
  "retitle base = \<lparr>ui_baseRevision = base, ui_identity = None, ui_recipients = None,
     ui_subject = Some (Some ''new''), ui_markdown = None\<rparr>"

section \<open>Properties\<close>

text \<open>
  C8. A draft a send has locked is frozen: whatever sequence of compose operations runs, under
  whatever generations, the locked row and the uploads attached to it (with their order) stay
  exactly as they are, so the queued snapshot and the draft cannot drift apart.
\<close>

theorem locked_draft_frozen:
  assumes "distinct (map dr_id (h_drafts h))" and "fresh_run p ops h"
    and "d \<in> set (h_drafts h)" and "dr_lockedBySend d = Some b"
  shows "d \<in> set (h_drafts (run_composes p ops h)) \<and>
    draft_pairs (dr_id d) (h_draftUploads (run_composes p ops h)) =
      draft_pairs (dr_id d) (h_draftUploads h)"
  using assms by (rule run_composes_locked)

definition locked_demo_draft :: draft_row where
  "locked_demo_draft = demo_draft\<lparr>dr_lockedBySend := Some demo_outbound_id\<rparr>"

theorem locked_draft_frozen_witness:
  "locked_demo_draft \<in> set (h_drafts (run_composes demo_ports
     [(Some demo_gen, Op_Update 9 demo_draft_id (retitle 3)), (Some demo_gen, Op_Delete 9 demo_draft_id)]
     (ready_hub\<lparr>h_drafts := [locked_demo_draft]\<rparr>)))"
proof -
  let ?h = "ready_hub\<lparr>h_drafts := [locked_demo_draft]\<rparr>"
  let ?ops = "[(Some demo_gen, Op_Update 9 demo_draft_id (retitle 3)), (Some demo_gen, Op_Delete 9 demo_draft_id)]"
  have "distinct (map dr_id (h_drafts ?h))" and "fresh_run demo_ports ?ops ?h"
    and "locked_demo_draft \<in> set (h_drafts ?h)" by simp_all
  moreover have "dr_lockedBySend locked_demo_draft = Some demo_outbound_id"
    by (simp add: locked_demo_draft_def)
  ultimately show ?thesis using locked_draft_frozen [of ?h demo_ports ?ops locked_demo_draft] by blast
qed

text \<open>
  C9. No edit is silently overwritten: once an edit based on some revision has been stored, every
  other edit based on that revision is refused, however many other operations run in between;
  at once it is refused as stale, with the revision the server holds.
\<close>

theorem no_lost_update:
  assumes "distinct (map dr_id (h_drafts h))"
    and "updateDraft p now q d x h = Inr (r, h1)" and "changed_fields x \<noteq> []"
    and "fresh_run p ops h1" and "pg_uuid d' = pg_uuid d" and "ui_baseRevision y = ui_baseRevision x"
  shows "(\<exists>e. updateDraft p now' q' d' y (run_composes p ops h1) = Inl e) \<and>
    (is_uuid d' \<and> gateCompose p q' h1 = Inr g \<longrightarrow>
       updateDraft p now' q' d' y h1 =
         Inl (Compose_Err CE_Draft_Stale (Some (ui_baseRevision x + 1))))"
proof (rule updateDraft_success [OF assms(2)])
  fix row nxt
  assume f: "find (\<lambda>z. dr_id z = pg_uuid d) (h_drafts h) = Some row"
    and rev: "dr_revision row = ui_baseRevision x"
    and st: "changed_fields x = [] \<and> h1 = h \<or>
      changed_fields x \<noteq> [] \<and> dr_id nxt = dr_id row \<and> dr_revision nxt = dr_revision row + 1 \<and>
      dr_lockedBySend nxt = None \<and> dr_deletedAt nxt = None \<and>
      (\<exists>e. h1 = add_event e (h\<lparr>h_drafts :=
         tbl_update (\<lambda>z. dr_id z = pg_uuid d) (\<lambda>_. nxt) (h_drafts h)\<rparr>)) \<and>
      d_revision r = dr_revision row + 1"
  from st assms(3) have h1: "h_drafts h1 = tbl_update (\<lambda>z. dr_id z = pg_uuid d) (\<lambda>_. nxt) (h_drafts h)"
    and nxt: "dr_id nxt = pg_uuid d" "dr_revision nxt = ui_baseRevision x + 1"
      "dr_lockedBySend nxt = None" "dr_deletedAt nxt = None"
    using find_in_set [OF f] rev by auto
  have in1: "nxt \<in> set (h_drafts h1)"
    using find_in_set [OF f] by (force simp: h1 in_tbl_update)
  have dist1: "distinct (map dr_id (h_drafts h1))"
    using assms(1) nxt by (simp add: h1 map_tbl_update_frame)
  from run_composes_revision [OF dist1 assms(4) in1] obtain d2
    where dist2: "distinct (map dr_id (h_drafts (run_composes p ops h1)))"
      and d2: "d2 \<in> set (h_drafts (run_composes p ops h1))" "dr_id d2 = pg_uuid d"
        "ui_baseRevision x < dr_revision d2"
    using nxt by auto
  have refuse: "\<exists>e. updateDraft p now' q' d' y (run_composes p ops h1) = Inl e"
  proof (cases "updateDraft p now' q' d' y (run_composes p ops h1)")
    case (Inr a)
    obtain r2 h2 where "a = (r2, h2)" by fastforce
    with Inr have "updateDraft p now' q' d' y (run_composes p ops h1) = Inr (r2, h2)" by simp
    then show ?thesis
    proof (rule updateDraft_success, goal_cases)
      case (1 row2 nxt2)
      with assms(5,6) d2(2) find_by_key_unique [OF dist2 d2(1)] d2(3) show ?case by simp
    qed
  qed blast
  have base: "1 \<le> ui_baseRevision x \<and> ui_baseRevision x \<le> MAX_SAFE_INTEGER"
    using assms(2) by (auto simp: updateDraft_def tx_simps)
  from find_by_key_unique [OF dist1 in1] nxt have "lockEditableDraft d' h1 = Inr nxt"
    by (simp add: lockEditableDraft_ok assms(5))
  with base assms(6) nxt refuse show ?thesis by (auto simp: updateDraft_def requireUuid_def)
qed

theorem no_lost_update_witness:
  "updateDraft demo_ports 9 (Some demo_gen) demo_draft_id (retitle 3)
     (snd (run_tx (updateDraft demo_ports 8 (Some demo_gen) demo_draft_id (retitle 3)) ready_hub)) =
   Inl (Compose_Err CE_Draft_Stale (Some 4))"
proof -
  have n: "normalizeRecipients (Some (dr_recipients demo_draft)) = Inr (dr_recipients demo_draft)"
    and sub: "normalizeSubject (Some ''new'') = Inr (Some ''new'')" by code_simp+
  have ok: "\<exists>r h1. updateDraft demo_ports 8 (Some demo_gen) demo_draft_id (retitle 3) ready_hub = Inr (r, h1) \<and>
      h_serviceState h1 = h_serviceState ready_hub"
    using n sub
    by (simp add: updateDraft_def requireUuid_def lockEditableDraft_def lockDraftRow_def
        draft_patch_def toDraftRecord_def changed_fields_def retitle_def MAX_SAFE_INTEGER_def
        ready_hub_def [THEN arg_cong, of h_drafts] demo_draft_def Let_def)
  then obtain r h1 where ok: "updateDraft demo_ports 8 (Some demo_gen) demo_draft_id (retitle 3) ready_hub = Inr (r, h1)"
    and g: "h_serviceState h1 = h_serviceState ready_hub" by blast
  have "distinct (map dr_id (h_drafts ready_hub))" by (simp add: ready_hub_def)
  from no_lost_update [OF this ok _ _ refl refl, of "[]" 9 "Some demo_gen" demo_gen] g
  have "updateDraft demo_ports 9 (Some demo_gen) demo_draft_id (retitle 3) h1 =
      Inl (Compose_Err CE_Draft_Stale (Some (ui_baseRevision (retitle 3) + 1)))"
    by (simp add: changed_fields_def retitle_def)
  with ok show ?thesis by (simp add: run_tx_def retitle_def)
qed


definition demo_upload :: upload_row where
  "demo_upload =
     \<lparr>up_id = demo_upload_id, up_accountId = demo_account, up_filename = ''a.txt'',
      up_contentType = ''text/plain'', up_sizeBytes = 3, up_storageKey = uploadKey demo_upload_id,
      up_sha256 = ''abc'', up_createdAt = 0\<rparr>"

definition upload_hub :: hub where
  "upload_hub = ready_hub\<lparr>h_uploads := [demo_upload],
     h_durable := [uploadKey demo_upload_id \<mapsto> [97, 98, 99]]\<rparr>"

lemma upload_hub_tables [simp]:
  "h_uploads upload_hub = [demo_upload]" "h_drafts upload_hub = [demo_draft]"
  "h_draftUploads upload_hub = []" "h_outboundUploads upload_hub = []"
  "h_serviceState upload_hub = h_serviceState ready_hub"
  by (simp_all add: upload_hub_def ready_hub_def empty_hub_def)


text \<open>
  An acknowledged upload is durable: on a store whose answer describes the bytes it wrote,
  an acknowledgement means that the object holds exactly bytes of the recorded size and hash,
  that one row and one audit event were added, and that the check a send makes before queueing
  succeeds. A refused upload adds no row.
\<close>

theorem acknowledged_upload_durable:
  assumes honest: "\<And>k b st. cp_put p k b = Inr st \<Longrightarrow>
      so_sha256 st = cp_sha256 p (so_bytes st) \<and> so_sizeBytes st = int (length (so_bytes st))"
    and fresh: "i \<notin> up_id ` set (h_uploads h)"
  shows "case createUpload p i now q x h of
      (Inr u, h') \<Rightarrow>
        verifyUploadRow p h' i \<and>
        u_sizeBytes u = int (length (cu_bytes x)) \<and> u_sha256 u = cp_sha256 p (cu_bytes x) \<and>
        (\<exists>row. h_uploads h' = h_uploads h @ [row] \<and> toUploadRecord row = u \<and> u_id u = i) \<and>
        length (h_events h') = length (h_events h) + 1
    | (Inl e, h') \<Rightarrow> h_uploads h' = h_uploads h"
proof -
  have new: "find (\<lambda>u. up_id u = i) (h_uploads h) = None" using fresh by (auto simp: find_None_iff)
  have f: "find P (xs @ [r]) = (if P r then Some r else None)"
    if "find P xs = None" for P and xs :: "upload_row list" and r
    using that by (induction xs) (auto split: if_splits)
  show ?thesis
    using honest new
    by (auto simp: createUpload_def Let_def upload_row_of_def verifyUploadRow_def f
        verifyStoredUpload_def storage_stat_def storage_verify_def toUploadRecord_def
        split: sum.split storage_error.split)
qed

definition demo_upload_input :: create_upload_input where
  "demo_upload_input = \<lparr>cu_accountId = demo_account, cu_filename = ''b.txt'',
     cu_contentType = None, cu_bytes = [98]\<rparr>"

theorem acknowledged_upload_durable_witness:
  "verifyUploadRow demo_ports
     (snd (createUpload demo_ports demo_upload_id 4 (Some demo_gen) demo_upload_input ready_hub))
     demo_upload_id"
proof -
  have n: "normalizeFilename ''b.txt'' = Inr ''b.txt''"
    "normalizeContentType None = Inr ''application/octet-stream''" by code_simp+
  have v: "validateUploadBytes [98] = Inr ()"
    by (simp add: validateUploadBytes_def UPLOAD_MAX_BYTES_def)
  have "\<exists>u h'. createUpload demo_ports demo_upload_id 4 (Some demo_gen) demo_upload_input ready_hub = (Inr u, h')"
    using n v by (simp add: createUpload_def demo_upload_input_def requireUuid_def requireAccount_def
        ready_hub_def [THEN arg_cong, of h_accounts] Let_def)
      (simp add: demo_ports_def Let_def)
  then obtain u h' where r: "createUpload demo_ports demo_upload_id 4 (Some demo_gen) demo_upload_input ready_hub = (Inr u, h')"
    by blast
  have "demo_upload_id \<notin> up_id ` set (h_uploads ready_hub)"
    by (simp add: ready_hub_def empty_hub_def)
  moreover have "so_sha256 st = cp_sha256 demo_ports (so_bytes st) \<and> so_sizeBytes st = int (length (so_bytes st))"
    if "cp_put demo_ports k b = Inr st" for k b st
    using that by (auto simp: demo_ports_def)
  ultimately show ?thesis
    using acknowledged_upload_durable [where p = demo_ports and i = demo_upload_id and h = ready_hub
        and now = 4 and q = "Some demo_gen" and x = demo_upload_input] r
    by simp
qed

text \<open>
  A resend is a copy, not a retry: it is made only of a send whose outcome is unknown, takes
  the frozen fields and attachments of that send into one new unlocked draft, and leaves the
  send, every other draft (its lock included) and the audit trail so far untouched.
\<close>

theorem resend_is_a_copy:
  assumes "createResendDraft p i now q b h = Inr (d, h')"
    and "i \<notin> du_draftId ` set (h_draftUploads h)"
  shows "\<exists>outbound \<in> set (h_outbound h).
    ob_id outbound = pg_uuid b \<and> ob_status outbound = Outcome_Unknown \<and>
    h_outbound h' = h_outbound h \<and> take (length (h_events h)) (h_events h') = h_events h \<and>
    (\<exists>row. h_drafts h' = h_drafts h @ [row] \<and> dr_id row = i \<and> dr_lockedBySend row = None \<and>
       dr_accountId row = ob_accountId outbound \<and> dr_identity row = ob_identity outbound \<and>
       dr_subject row = ob_subject outbound \<and> dr_markdown row = ob_markdownSource outbound \<and>
       dr_threadId row = ob_threadId outbound \<and> dr_inReplyTo row = ob_inReplyTo outbound \<and>
       dr_referenceIds row = ob_referenceIds outbound \<and>
       normalizeRecipients (Some (ob_recipients outbound)) = Inr (dr_recipients row)) \<and>
    mset (draft_pairs i (h_draftUploads h')) = mset (outbound_pairs (pg_uuid b) (h_outboundUploads h))"
proof -
  from assms(1) obtain outbound rcp where f: "find (\<lambda>y. ob_id y = pg_uuid b) (h_outbound h) = Some outbound"
    and st: "ob_status outbound = Outcome_Unknown"
    and rcp: "normalizeRecipients (Some (ob_recipients outbound)) = Inr rcp"
    by (auto simp: createResendDraft_def tx_simps split: option.splits)
  from assms(2) have none: "draft_pairs i (h_draftUploads h) = []" by (intro draft_pairs_other) simp
  have "mset (draft_pairs i (h_draftUploads h')) = mset (outbound_pairs (pg_uuid b) (h_outboundUploads h))"
    using createResendDraft_success [OF assms(1)] none
    by (auto simp: draft_pairs_append draft_pairs_copies outbound_pairs_def)
  moreover obtain e ls where h': "h' = add_event e (h\<lparr>h_drafts := h_drafts h @
      [\<lparr>dr_id = i, dr_accountId = ob_accountId outbound,
        dr_identity = ob_identity outbound, dr_threadId = ob_threadId outbound,
        dr_replyParentId = ob_replyParentId outbound,
        dr_inReplyTo = ob_inReplyTo outbound, dr_referenceIds = ob_referenceIds outbound,
        dr_recipients = rcp, dr_subject = ob_subject outbound,
        dr_markdown = ob_markdownSource outbound, dr_revision = 1,
        dr_lockedBySend = None, dr_updatedAt = now, dr_deletedAt = None\<rparr>],
      h_draftUploads := ls\<rparr>)"
    using assms(1) by (auto simp: createResendDraft_def tx_simps f rcp Let_def)
  ultimately show ?thesis
    using find_in_set [OF f] st rcp by (intro bexI [of _ outbound]) simp_all
qed

definition demo_outbound :: outbound_row where
  "demo_outbound =
     \<lparr>ob_id = demo_outbound_id, ob_accountId = demo_account, ob_recoveryGeneration = demo_gen,
      ob_idempotencyKey = ''k1'', ob_requestHash = ''rh'', ob_draftId = Some demo_draft_id,
      ob_draftRevision = 3, ob_identity = \<lparr>ea_address = ''me@x.org'', ea_name = None\<rparr>,
      ob_envelopeSender = ''me@x.org'', ob_envelopeRecipients = [''bob@x.org''],
      ob_status = Queued, ob_logicalMessageId = None, ob_threadId = None, ob_replyParentId = None,
      ob_inReplyTo = None, ob_referenceIds = [],
      ob_recipients = \<lparr>rc_to = [\<lparr>ea_address = ''bob@x.org'', ea_name = None\<rparr>],
                       rc_cc = Some [], rc_bcc = Some []\<rparr>,
      ob_subject = Some ''hi'', ob_markdownSource = ''text'', ob_html = None,
      ob_rfcMessageId = ''<m1@x.org>'', ob_mimeStorageKey = ''outbound/m1'',
      ob_mimeSha256 = ''raw'', ob_smtpResponse = None, ob_recipientResults = [],
      ob_sendingStartedAt = None, ob_appendStartedAt = None, ob_sentCopyAttempts = 0,
      ob_reconcileAttempts = 0, ob_sentCopyStatus = Copy_Pending, ob_sentFolderId = None,
      ob_sentUidvalidity = None, ob_sentUid = None, ob_lastError = None, ob_createdAt = 2,
      ob_sentAt = None\<rparr>"

theorem resend_is_a_copy_witness:
  "ob_status (demo_outbound\<lparr>ob_status := Outcome_Unknown\<rparr>) = Outcome_Unknown \<and>
   (\<exists>row. h_drafts (snd (run_tx (createResendDraft demo_ports demo_upload_id 7 (Some demo_gen)
        demo_outbound_id) (ready_hub\<lparr>h_outbound := [demo_outbound\<lparr>ob_status := Outcome_Unknown\<rparr>]\<rparr>))) =
      [demo_draft, row] \<and> dr_lockedBySend row = None \<and> dr_markdown row = ''text'')"
proof -
  let ?h = "ready_hub\<lparr>h_outbound := [demo_outbound\<lparr>ob_status := Outcome_Unknown\<rparr>]\<rparr>"
  have n: "normalizeRecipients (Some (ob_recipients demo_outbound)) = Inr (ob_recipients demo_outbound)"
    by code_simp
  have "\<exists>d h'. createResendDraft demo_ports demo_upload_id 7 (Some demo_gen) demo_outbound_id ?h = Inr (d, h')"
    using n by (simp add: createResendDraft_def requireUuid_def toDraftRecord_def demo_outbound_def Let_def)
  then obtain d h' where r: "createResendDraft demo_ports demo_upload_id 7 (Some demo_gen) demo_outbound_id ?h = Inr (d, h')"
    by blast
  have "demo_upload_id \<notin> du_draftId ` set (h_draftUploads ?h)"
    by (simp add: ready_hub_def empty_hub_def)
  from resend_is_a_copy [OF r this] r show ?thesis
    by (auto simp: run_tx_def demo_outbound_def ready_hub_def)
qed

end
