(* ===== verification/Send_Model.thy ===== *)
theory Send_Model
  imports Compose_Safety
begin

text \<open>
  The types and pure parts of \<open>packages/send/src\<close>: the ports of the service (\<open>smtp.ts\<close>,
  \<open>sent-copy.ts\<close>, \<open>mime.ts\<close>, \<open>render.ts\<close> and the ingestion parser, all injected or wrapping a
  library), the context of one run, the helper functions of \<open>service.ts\<close> and the search texts of
  \<open>packages/ingestion/src/text.ts\<close>.
\<close>

section \<open>Constants\<close>

definition MAX_IDEMPOTENCY_KEY_LENGTH :: nat where "MAX_IDEMPOTENCY_KEY_LENGTH = 200"
definition DEFAULT_SEND_SWEEP_LIMIT :: nat where "DEFAULT_SEND_SWEEP_LIMIT = 10"
definition ATTEMPT_LEASE_MS :: int where "ATTEMPT_LEASE_MS = 10 * 60000"
definition SEND_SWEEP_ATTEMPT_CAP :: int where "SEND_SWEEP_ATTEMPT_CAP = 20"
definition MAX_MESSAGE_BYTES :: nat where "MAX_MESSAGE_BYTES = 50 * 1024 * 1024"
definition BODY_INDEX_MAX_CHARS :: nat where "BODY_INDEX_MAX_CHARS = 200000"
definition LOCATOR_VERSION :: int where "LOCATOR_VERSION = 1"

section \<open>Ports\<close>

record smtp_credentials =
  cr_host :: string
  cr_port :: int
  cr_security :: smtp_security
  cr_username :: string
  cr_password :: string

datatype submit_state = Accepted | Rejected | Unclassified

record submit_report =
  su_state :: submit_state
  su_response :: "string option"
  su_responseCode :: "int option"
  su_recipients :: "recipient_result list"
  su_error :: "err_detail option"

record parsed_part =
  pp_partPath :: string
  pp_decodedSha256 :: string
  pp_contentId :: "string option"
  pp_disposition :: "string option"
  pp_filename :: "string option"
  pp_contentType :: string
  pp_sizeBytes :: int

record parsed_mime =
  pm_messageId :: "string option"
  pm_sentAt :: "millis option"
  pm_attachments :: "parsed_part list"

record mime_input =
  mi_identity :: email_address
  mi_to :: "email_address list"
  mi_cc :: "email_address list"
  mi_subject :: "string option"
  mi_markdown :: string
  mi_html :: string
  mi_rfcMessageId :: string
  mi_date :: millis
  mi_inReplyTo :: "string option"
  mi_referenceIds :: "string list"
  mi_attachments :: "(string \<times> string \<times> bytes) list"

text \<open>
  One mailbox connection of the Sent-copy job. What a call answers may depend on the appends this
  session has made so far; a call that throws answers \<open>Inl\<close> with the message.
\<close>

record sent_destination =
  de_folderId :: uuid
  de_uidvalidity :: "int option"
  de_uid :: "int option"

datatype append_result =
    Appended "int option" "int option"
  | Append_Rejected
  | Append_Uncertain string

type_synonym append_log = "(string \<times> bytes) list"

record sent_session =
  se_select :: "append_log \<Rightarrow> string \<Rightarrow> string + int"
  se_search :: "append_log \<Rightarrow> string \<Rightarrow> string + int list"
  se_fetch :: "append_log \<Rightarrow> int \<Rightarrow> string + bytes option"
  se_append :: "append_log \<Rightarrow> string \<Rightarrow> bytes \<Rightarrow> string + append_result"

record send_ports =
  sp_controls :: recovery_controls
  sp_sha256 :: "bytes \<Rightarrow> string"
  sp_hashJson :: "json \<Rightarrow> string"
  sp_put :: "string \<Rightarrow> bytes \<Rightarrow> storage_error + stored_object"
  sp_submit :: "(smtp_request \<Rightarrow> string + submit_report) option"
  sp_resolveCredentials :: "(uuid \<Rightarrow> string + smtp_credentials) option"
  sp_openSentCopy :: "(uuid \<Rightarrow> string + sent_session) option"
  sp_renderMarkdown :: "string \<Rightarrow> string"
  sp_composeMime :: "mime_input \<Rightarrow> bytes option"
  sp_parseMime :: "bytes \<Rightarrow> string + parsed_mime"
  sp_makeSnippet :: "string \<Rightarrow> string option"
  sp_normalizeIndexText :: "string \<Rightarrow> string"
  sp_sanitizerVersion :: string

section \<open>Records\<close>

record outbound_record =
  o_id :: uuid
  o_draftId :: "uuid option"
  o_accountId :: uuid
  o_status :: outbound_status
  o_sentCopyStatus :: sent_copy_status
  o_identity :: email_address
  o_recipients :: recipients
  o_subject :: "string option"
  o_rfcMessageId :: string
  o_recipientResults :: "recipient_result list"
  o_smtpResponse :: "smtp_response option"
  o_lastError :: "err_detail option"
  o_createdAt :: millis
  o_sentAt :: "millis option"

definition toOutboundRecord :: "outbound_row \<Rightarrow> outbound_record" where
  "toOutboundRecord row =
     \<lparr>o_id = ob_id row, o_draftId = ob_draftId row, o_accountId = ob_accountId row,
      o_status = ob_status row, o_sentCopyStatus = ob_sentCopyStatus row,
      o_identity = ob_identity row, o_recipients = ob_recipients row, o_subject = ob_subject row,
      o_rfcMessageId = ob_rfcMessageId row, o_recipientResults = ob_recipientResults row,
      o_smtpResponse = ob_smtpResponse row, o_lastError = ob_lastError row,
      o_createdAt = ob_createdAt row, o_sentAt = ob_sentAt row\<rparr>"

section \<open>Helpers\<close>

definition send_error :: "string \<Rightarrow> string \<Rightarrow> err_detail" where
  "send_error code message = \<lparr>ed_code = code, ed_message = message\<rparr>"

definition requireUuidS :: "string \<Rightarrow> hub_error + unit" where
  "requireUuidS i = (if is_uuid i then Inr () else Inl (send_fail SE_Invalid_Request))"

definition optional_list :: "'a list option \<Rightarrow> 'a list" where
  "optional_list x = (case x of None \<Rightarrow> [] | Some xs \<Rightarrow> xs)"

definition all_recipients :: "recipients \<Rightarrow> email_address list" where
  "all_recipients r = rc_to r @ optional_list (rc_cc r) @ optional_list (rc_bcc r)"

definition envelopeOf :: "draft_row \<Rightarrow> string list" where
  "envelopeOf draft = map ea_address (all_recipients (dr_recipients draft))"

definition outboundMimeKey :: "uuid \<Rightarrow> string" where
  "outboundMimeKey i = ''outbound/'' @ i @ ''.eml''"

definition generateRfcMessageId :: "string \<Rightarrow> uuid \<Rightarrow> string" where
  "generateRfcMessageId identityAddress generated =
     (let domain = (case split_on (CHR 0x40) identityAddress of
                      _ # d # _ \<Rightarrow> d | _ \<Rightarrow> ''localhost'')
      in ''<'' @ generated @ ''@'' @ domain @ ''>'')"

definition verifyComposedMessage ::
    "send_ports \<Rightarrow> bytes \<Rightarrow> string \<Rightarrow> nat \<Rightarrow> hub_error + unit" where
  "verifyComposedMessage p bs rfcMessageId attachments =
     (case sp_parseMime p bs of
        Inl m \<Rightarrow> Inl (Port_Failure m)
      | Inr parsed \<Rightarrow>
          if pm_messageId parsed \<noteq> Some rfcMessageId \<or> length (pm_attachments parsed) \<noteq> attachments
          then Inl (send_fail SE_Invalid_Request) else Inr ())"

text \<open>A \<open>Map\<close> built from a list keeps the last entry of a key.\<close>

definition last_entry :: "string \<Rightarrow> recipient_result list \<Rightarrow> recipient_result option" where
  "last_entry a rs = find (\<lambda>r. rr_address r = a) (rev rs)"

definition recipientResultsOf :: "string list \<Rightarrow> submit_report option \<Rightarrow> recipient_result list" where
  "recipientResultsOf envelope report =
     (let entries = (case report of None \<Rightarrow> [] | Some r \<Rightarrow> su_recipients r)
      in if entries = [] then
           (let acceptedAll = (case report of None \<Rightarrow> False | Some r \<Rightarrow> su_state r = Accepted)
            in map (\<lambda>a. \<lparr>rr_address = a, rr_accepted = acceptedAll,
                          rr_response = (if acceptedAll then su_response (the report) else None)\<rparr>)
                 envelope)
         else
           map (\<lambda>a. case last_entry a entries of
                      None \<Rightarrow> \<lparr>rr_address = a, rr_accepted = False, rr_response = None\<rparr>
                    | Some e \<Rightarrow> \<lparr>rr_address = a, rr_accepted = rr_accepted e,
                                rr_response = rr_response e\<rparr>) envelope)"

definition smtpResponseOf :: "submit_report \<Rightarrow> smtp_response option" where
  "smtpResponseOf report =
     (if su_response report = None \<and> su_responseCode report = None then None
      else Some \<lparr>sr_response = su_response report, sr_responseCode = su_responseCode report\<rparr>)"

definition reconciledRecipientResults :: "outbound_row \<Rightarrow> recipient_result list" where
  "reconciledRecipientResults row =
     map (\<lambda>a. case last_entry a (ob_recipientResults row) of
                None \<Rightarrow> \<lparr>rr_address = a, rr_accepted = True, rr_response = None\<rparr>
              | Some prior \<Rightarrow>
                  if rr_response prior \<noteq> None
                  then \<lparr>rr_address = a, rr_accepted = rr_accepted prior, rr_response = rr_response prior\<rparr>
                  else \<lparr>rr_address = a, rr_accepted = True, rr_response = None\<rparr>)
       (ob_envelopeRecipients row)"

fun matchesFrozenAttachments :: "(uuid \<times> int) list \<Rightarrow> (upload_row \<times> int \<times> bytes) list \<Rightarrow> bool" where
  "matchesFrozenAttachments [] [] = True"
| "matchesFrozenAttachments ((u, n) # links) ((upload, m, b) # frozen) =
     (u = up_id upload \<and> n = m \<and> matchesFrozenAttachments links frozen)"
| "matchesFrozenAttachments _ _ = False"

definition hashRequest :: "send_ports \<Rightarrow> string \<Rightarrow> int \<Rightarrow> (uuid \<times> int) list \<Rightarrow> string" where
  "hashRequest p draftId baseRevision attachments =
     sp_hashJson p (JObj [(''draftId'', JStr (to_lower draftId)), (''baseRevision'', JNum baseRevision),
       (''attachments'', JArr (map (\<lambda>(u, n). JArr [JStr u, JNum n]) attachments))])"

definition recordSendEvent ::
    "actor \<Rightarrow> string \<Rightarrow> uuid \<Rightarrow> (string \<times> json) list \<Rightarrow> hub \<Rightarrow> hub" where
  "recordSendEvent who type outboundId payload =
     add_event \<lparr>ev_actor = who, ev_type = type, ev_entityType = ''outbound_message'',
                ev_entityId = Some outboundId, ev_payload = payload\<rparr>"

fun until_newline :: "string \<Rightarrow> string" where
  "until_newline [] = []"
| "until_newline (c # cs) = (if c = CHR 0x0A then [] else c # until_newline cs)"

text \<open>The part of a message before its first colon and space.\<close>

fun until_colon :: "string \<Rightarrow> string" where
  "until_colon [] = []"
| "until_colon [c] = [c]"
| "until_colon (c # d # cs) = (if c = CHR 0x3A \<and> d = CHR 0x20 then [] else c # until_colon (d # cs))"

section \<open>Search texts\<close>

definition join_space :: "string list \<Rightarrow> string" where
  "join_space ws = (case ws of [] \<Rightarrow> [] | w # ws' \<Rightarrow> foldl (\<lambda>a b. a @ '' '' @ b) w ws')"

definition senderIndexText :: "email_address option \<Rightarrow> string" where
  "senderIndexText sender =
     (case sender of
        None \<Rightarrow> []
      | Some a \<Rightarrow> (case ea_name a of None \<Rightarrow> ea_address a | Some n \<Rightarrow> n @ '' '' @ ea_address a))"

definition recipientsIndexText :: "recipients option \<Rightarrow> string" where
  "recipientsIndexText recipients =
     (case recipients of
        None \<Rightarrow> []
      | Some r \<Rightarrow> join_space (map (\<lambda>a. senderIndexText (Some a)) (all_recipients r)))"

text \<open>The sender and the recipients a message has, in order.\<close>

definition participants :: "email_address option \<Rightarrow> recipients option \<Rightarrow> email_address list" where
  "participants sender recipients =
     (case sender of None \<Rightarrow> [] | Some a \<Rightarrow> [a]) @
     (case recipients of None \<Rightarrow> [] | Some r \<Rightarrow> all_recipients r)"

definition addressesIndexText :: "email_address option \<Rightarrow> recipients option \<Rightarrow> string" where
  "addressesIndexText sender recipients = join_space (map ea_address (participants sender recipients))"

text \<open>The addresses ingestion accepts: no white space and no header syntax around one at sign.\<close>

definition address_char :: "char \<Rightarrow> bool" where
  "address_char c \<longleftrightarrow>
     \<not> is_space c \<and> c \<notin> set [CHR 0x40, CHR 0x2C, CHR 0x3B, CHR 0x3C, CHR 0x3E, CHR 0x22, CHR 0x28, CHR 0x29, CHR 0x5C]"

definition isValidAddress :: "string \<Rightarrow> bool" where
  "isValidAddress address \<longleftrightarrow>
     address \<noteq> [] \<and> CHR 0x20 \<notin> set address \<and> CHR 0x00 \<notin> set address \<and>
     (let u = takeWhile (\<lambda>c. c \<noteq> CHR 0x40) address; v = drop (Suc (length u)) address
      in u \<noteq> [] \<and> v \<noteq> [] \<and> list_all address_char u \<and> list_all address_char v)"

section \<open>Thread jobs\<close>

text \<open>
  \<open>markThreadJobsDirty\<close> of \<open>packages/ingestion/src/thread-jobs.ts\<close>: the named rows, and every row
  of the account whose reference headers hold one of the identifiers.
\<close>

fun contains_text :: "string \<Rightarrow> string \<Rightarrow> bool" where
  "contains_text needle [] = (needle = [])"
| "contains_text needle (c # cs) =
     (take (length needle) (c # cs) = needle \<or> contains_text needle cs)"

definition references_identifier :: "string list \<Rightarrow> message_row \<Rightarrow> bool" where
  "references_identifier identifiers m \<longleftrightarrow>
     list_ex (\<lambda>i. (case ms_inReplyTo m of None \<Rightarrow> False | Some raw \<Rightarrow> contains_text i raw) \<or>
                  list_ex (contains_text i) (ms_referenceIds m)) identifiers"

definition markThreadJobsDirty :: "uuid \<Rightarrow> uuid list \<Rightarrow> string list \<Rightarrow> hub \<Rightarrow> hub" where
  "markThreadJobsDirty accountId messageIds identifiers h =
     (let ids = filter (\<lambda>i. i \<noteq> []) identifiers
      in h\<lparr>h_messages := tbl_update
             (\<lambda>m. ms_accountId m = accountId \<and>
                  (ms_id m \<in> set messageIds \<or> references_identifier ids m))
             (\<lambda>m. m\<lparr>ms_threadDirty := True\<rparr>) (h_messages h)\<rparr>)"

section \<open>Lemmas\<close>

lemma recordSendEvent_add [simp]:
  "recordSendEvent a t i pl h = add_event \<lparr>ev_actor = a, ev_type = t,
     ev_entityType = ''outbound_message'', ev_entityId = Some i, ev_payload = pl\<rparr> h"
  by (simp add: recordSendEvent_def)

lemma markThreadJobsDirty_frame [simp]:
  "h_outbound (markThreadJobsDirty a b c h) = h_outbound h"
  "h_drafts (markThreadJobsDirty a b c h) = h_drafts h"
  "h_events (markThreadJobsDirty a b c h) = h_events h"
  "h_smtpCalls (markThreadJobsDirty a b c h) = h_smtpCalls h"
  "h_appendCalls (markThreadJobsDirty a b c h) = h_appendCalls h"
  "h_serviceState (markThreadJobsDirty a b c h) = h_serviceState h"
  "h_durable (markThreadJobsDirty a b c h) = h_durable h"
  "h_folders (markThreadJobsDirty a b c h) = h_folders h"
  "h_bodies (markThreadJobsDirty a b c h) = h_bodies h"
  "h_attachments (markThreadJobsDirty a b c h) = h_attachments h"
  "h_uploads (markThreadJobsDirty a b c h) = h_uploads h"
  "h_draftUploads (markThreadJobsDirty a b c h) = h_draftUploads h"
  "h_outboundUploads (markThreadJobsDirty a b c h) = h_outboundUploads h"
  by (simp_all add: markThreadJobsDirty_def Let_def)

lemma recipientResultsOf_envelope [simp]:
  "map rr_address (recipientResultsOf envelope report) = envelope"
proof (cases "(case report of None \<Rightarrow> [] | Some r \<Rightarrow> su_recipients r) = []")
  case True
  then show ?thesis by (simp add: recipientResultsOf_def Let_def comp_def)
next
  case False
  have "map (\<lambda>a. rr_address (case last_entry a es of
            None \<Rightarrow> \<lparr>rr_address = a, rr_accepted = False, rr_response = None\<rparr>
          | Some e \<Rightarrow> \<lparr>rr_address = a, rr_accepted = rr_accepted e, rr_response = rr_response e\<rparr>)) xs = xs"
    for xs es by (induction xs) (simp_all split: option.split)
  with False show ?thesis by (simp add: recipientResultsOf_def Let_def comp_def)
qed

lemma reconciledRecipientResults_envelope [simp]:
  "map rr_address (reconciledRecipientResults row) = ob_envelopeRecipients row"
proof -
  have "rr_address (case last_entry a es of
                None \<Rightarrow> \<lparr>rr_address = a, rr_accepted = True, rr_response = None\<rparr>
              | Some prior \<Rightarrow>
                  if rr_response prior \<noteq> None
                  then \<lparr>rr_address = a, rr_accepted = rr_accepted prior, rr_response = rr_response prior\<rparr>
                  else \<lparr>rr_address = a, rr_accepted = True, rr_response = None\<rparr>) = a" for a es
    by (simp split: option.split)
  then show ?thesis by (simp add: reconciledRecipientResults_def comp_def)
qed

lemma matchesFrozenAttachments_eq:
  "matchesFrozenAttachments links frozen \<longleftrightarrow> links = map (\<lambda>(u, n, _). (up_id u, n)) frozen"
  by (induction links frozen rule: matchesFrozenAttachments.induct) auto

end
