(* ===== verification/Send_Store.thy ===== *)
theory Send_Store
  imports Send_Model
begin

text \<open>
  The database transactions of \<open>packages/send/src/service.ts\<close>, each atomic: the claims of a queued
  row and of a Sent append, the three ways a submission ends, the conclusion of an append, the
  count of a reconcile pass and the holds of abandoned attempts. Handlers and the interleaving
  relation are built from these definitions alone. Both claims interpret the locale
  \<open>row_claim\<close>.
\<close>

section \<open>Claims\<close>

definition mark_sending :: "millis \<Rightarrow> outbound_row \<Rightarrow> outbound_row" where
  "mark_sending now r = r\<lparr>ob_status := Sending, ob_sendingStartedAt := Some now\<rparr>"

definition claim_queued :: "millis \<Rightarrow> uuid \<Rightarrow> outbound_row list \<Rightarrow> outbound_row option \<times> outbound_row list" where
  "claim_queued now i t = claim_first (\<lambda>r. ob_id r = i \<and> ob_status r = Queued) (mark_sending now) t"

definition append_due :: "outbound_row \<Rightarrow> bool" where
  "append_due r \<longleftrightarrow>
     ob_status r = Sent \<and> ob_sentCopyStatus r \<in> {Copy_Pending, Copy_Failed, Copy_Unknown}"

definition mark_appending :: "millis \<Rightarrow> outbound_row \<Rightarrow> outbound_row" where
  "mark_appending now r = r\<lparr>ob_sentCopyStatus := Copy_Appending, ob_appendStartedAt := Some now\<rparr>"

definition claim_append :: "millis \<Rightarrow> uuid \<Rightarrow> outbound_row list \<Rightarrow> outbound_row option \<times> outbound_row list" where
  "claim_append now i t = claim_first (\<lambda>r. ob_id r = i \<and> append_due r) (mark_appending now) t"

definition claimOutbound :: "millis \<Rightarrow> uuid \<Rightarrow> hub \<Rightarrow> outbound_row option \<times> hub" where
  "claimOutbound now i h =
     (case claim_queued now i (h_outbound h) of (r, t) \<Rightarrow> (r, h\<lparr>h_outbound := t\<rparr>))"

definition claimSentCopy :: "millis \<Rightarrow> uuid \<Rightarrow> hub \<Rightarrow> outbound_row option \<times> hub" where
  "claimSentCopy now i h =
     (case claim_append now i (h_outbound h) of (r, t) \<Rightarrow> (r, h\<lparr>h_outbound := t\<rparr>))"

interpretation send_claim: row_claim ob_id "\<lambda>r. ob_status r = Queued" "mark_sending now" "claim_queued now"
  for now
  by unfold_locales (simp_all add: mark_sending_def claim_queued_def claim_first_def Let_def)

interpretation copy_claim: row_claim ob_id append_due "mark_appending now" "claim_append now"
  for now
  by unfold_locales
     (simp_all add: mark_appending_def append_due_def claim_append_def claim_first_def Let_def)

section \<open>Ends of a submission\<close>

record failure =
  fl_smtpResponse :: "smtp_response option"
  fl_recipientResults :: "recipient_result list"
  fl_error :: "err_detail option"

definition error_code_json :: "err_detail option \<Rightarrow> json" where
  "error_code_json e = JStr (case e of None \<Rightarrow> ''unknown'' | Some d \<Rightarrow> ed_code d)"

definition failed_row :: "failure \<Rightarrow> outbound_row \<Rightarrow> outbound_row" where
  "failed_row f r = r\<lparr>ob_status := Failed, ob_smtpResponse := fl_smtpResponse f,
     ob_recipientResults := fl_recipientResults f, ob_lastError := fl_error f\<rparr>"

definition recordFailure :: "outbound_row \<Rightarrow> failure \<Rightarrow> (hub, hub_error, outbound_row) tx" where
  "recordFailure row f h =
     (case claim_first (\<lambda>r. ob_id r = ob_id row \<and> ob_status r = Sending) (failed_row f) (h_outbound h) of
        (updated, t) \<Rightarrow>
          attempt (unlockDraftAfterFailure (ob_id row) (h\<lparr>h_outbound := t\<rparr>)) (\<lambda>(_, h1).
            Inr (case updated of None \<Rightarrow> row | Some r \<Rightarrow> r,
                 recordSendEvent System_Actor ''send.failed'' (ob_id row)
                   [(''accountId'', JStr (ob_accountId row)), (''code'', error_code_json (fl_error f))] h1)))"

definition unknown_row :: "string list \<Rightarrow> submit_report \<Rightarrow> outbound_row \<Rightarrow> outbound_row" where
  "unknown_row envelope report r =
     r\<lparr>ob_status := Outcome_Unknown, ob_smtpResponse := smtpResponseOf report,
       ob_recipientResults := recipientResultsOf envelope (Some report),
       ob_lastError := su_error report\<rparr>"

text \<open>The only caller passes a report and no error of its own.\<close>

definition recordUnknown :: "outbound_row \<Rightarrow> submit_report \<Rightarrow> hub \<Rightarrow> outbound_row \<times> hub" where
  "recordUnknown row report h =
     (case claim_first (\<lambda>r. ob_id r = ob_id row \<and> ob_status r = Sending)
             (unknown_row (ob_envelopeRecipients row) report) (h_outbound h) of
        (updated, t) \<Rightarrow>
          (case updated of None \<Rightarrow> row | Some r \<Rightarrow> r,
           recordSendEvent System_Actor ''send.outcome_unknown'' (ob_id row)
             [(''accountId'', JStr (ob_accountId row)), (''code'', error_code_json (su_error report))]
             (h\<lparr>h_outbound := t\<rparr>)))"

subsection \<open>Acceptance\<close>

record acceptance =
  am_fromStatus :: outbound_status
  am_bytes :: bytes
  am_smtpResponse :: "smtp_response option"
  am_recipientResults :: "recipient_result list"
  am_sentCopy :: "sent_destination option"
  am_evidence :: "string option"

text \<open>A descending order lists the rows without a value first.\<close>

definition findMessageByHash :: "uuid \<Rightarrow> string \<Rightarrow> hub \<Rightarrow> uuid option" where
  "findMessageByHash accountId sha h =
     (let found = filter (\<lambda>m. ms_accountId m = accountId \<and> ms_originalSha256 m = Some sha)
                    (h_messages h)
      in case filter (\<lambda>m. ms_sentAt m = None) found @
              sort_key (\<lambda>m. - the (ms_sentAt m)) (filter (\<lambda>m. ms_sentAt m \<noteq> None) found) of
           [] \<Rightarrow> None | m # _ \<Rightarrow> Some (ms_id m))"

definition local_sent_message ::
    "send_ports \<Rightarrow> uuid \<Rightarrow> millis \<Rightarrow> outbound_row \<Rightarrow> parsed_mime \<Rightarrow> bytes \<Rightarrow> message_row" where
  "local_sent_message p newId now row parsed bs =
     \<lparr>ms_id = newId, ms_accountId = ob_accountId row, ms_messageId = Some (ob_rfcMessageId row),
      ms_inReplyTo = ob_inReplyTo row, ms_referenceIds = ob_referenceIds row,
      ms_threadId = ob_threadId row, ms_parentMessageId = None, ms_threadLinkState = Link_Pending,
      ms_threadDirty = True, ms_sender = Some (ob_identity row), ms_replyTo = None,
      ms_recipients = Some (ob_recipients row), ms_subject = ob_subject row,
      ms_sentAt = Some (case pm_sentAt parsed of None \<Rightarrow> now | Some t \<Rightarrow> t),
      ms_snippet = sp_makeSnippet p (ob_markdownSource row),
      ms_hasAttachments = (pm_attachments parsed \<noteq> []), ms_sizeBytes = Some (int (length bs)),
      ms_fetchedBody = True, ms_bodyFailedAt = None, ms_originalStorageKey = Some (ob_mimeStorageKey row),
      ms_originalSha256 = Some (ob_mimeSha256 row),
      ms_senderText = sp_normalizeIndexText p (senderIndexText (Some (ob_identity row))),
      ms_recipientsText = sp_normalizeIndexText p (recipientsIndexText (Some (ob_recipients row))),
      ms_addressesText =
        sp_normalizeIndexText p (addressesIndexText (Some (ob_identity row)) (Some (ob_recipients row))),
      ms_subjectText =
        sp_normalizeIndexText p (case ob_subject row of None \<Rightarrow> [] | Some s \<Rightarrow> s),
      ms_bodyIndexText =
        take BODY_INDEX_MAX_CHARS (sp_normalizeIndexText p (ob_markdownSource row))\<rparr>"

text \<open>
  The insert fails where the identifier is taken or the account already holds a message with the
  hash; both are unique indexes.
\<close>

definition insertLocalSentMessage ::
    "send_ports \<Rightarrow> uuid \<Rightarrow> millis \<Rightarrow> outbound_row \<Rightarrow> parsed_mime \<Rightarrow> bytes \<Rightarrow>
     (hub, hub_error, uuid) tx" where
  "insertLocalSentMessage p newId now row parsed bs h =
     require (\<not> list_ex (\<lambda>m. ms_id m = newId \<or>
                  (ms_accountId m = ob_accountId row \<and> ms_originalSha256 m = Some (ob_mimeSha256 row)))
                (h_messages h)) Unique_Violation
       (Inr (newId, markThreadJobsDirty (ob_accountId row) [newId] [ob_rfcMessageId row]
          (h\<lparr>h_messages := h_messages h @ [local_sent_message p newId now row parsed bs],
             h_bodies := h_bodies h @
               [\<lparr>bo_messageId = newId, bo_textPlain = Some (ob_markdownSource row),
                 bo_htmlSanitized = ob_html row, bo_sanitizerVersion = sp_sanitizerVersion p\<rparr>],
             h_attachments := h_attachments h @
               map (\<lambda>part. \<lparr>at_messageId = newId, at_partPath = pp_partPath part,
                            at_locatorVersion = LOCATOR_VERSION,
                            at_decodedSha256 = pp_decodedSha256 part,
                            at_contentId = pp_contentId part, at_disposition = pp_disposition part,
                            at_filename = pp_filename part,
                            at_contentType = Some (pp_contentType part),
                            at_sizeBytes = pp_sizeBytes part\<rparr>) (pm_attachments parsed)\<rparr>)))"

definition accepted_row :: "uuid \<Rightarrow> millis \<Rightarrow> acceptance \<Rightarrow> outbound_row \<Rightarrow> outbound_row" where
  "accepted_row messageId now a r =
     (let r1 = r\<lparr>ob_status := Sent, ob_logicalMessageId := Some messageId,
                 ob_smtpResponse := am_smtpResponse a, ob_recipientResults := am_recipientResults a,
                 ob_sentAt := Some now, ob_lastError := None\<rparr>
      in case am_sentCopy a of
           None \<Rightarrow> r1
         | Some d \<Rightarrow> r1\<lparr>ob_sentCopyStatus := Copy_Stored, ob_sentFolderId := Some (de_folderId d),
                        ob_sentUidvalidity := de_uidvalidity d, ob_sentUid := de_uid d\<rparr>)"

definition acceptance_event :: "uuid \<Rightarrow> acceptance \<Rightarrow> outbound_row \<Rightarrow> hub \<Rightarrow> hub" where
  "acceptance_event messageId a row =
     recordSendEvent System_Actor ''send.sent'' (ob_id row)
       ([(''accountId'', JStr (ob_accountId row)), (''messageId'', JStr messageId),
         (''accepted'', JNum (tbl_count rr_accepted (am_recipientResults a))),
         (''rejected'', JNum (tbl_count (\<lambda>r. \<not> rr_accepted r) (am_recipientResults a))),
         (''partial'', JBool (list_ex (\<lambda>r. \<not> rr_accepted r) (am_recipientResults a)))] @
        (case am_evidence a of None \<Rightarrow> [] | Some e \<Rightarrow> [(''evidence'', JStr e)]))"

text \<open>
  One attempt at the acceptance transaction. The lookup by hash reads \<open>seen\<close>; \<open>h\<close> is the state
  its writes meet, which another writer may have changed since. The logical message of an
  outbound row is unique.
\<close>

definition acceptance_tx ::
    "send_ports \<Rightarrow> uuid \<Rightarrow> millis \<Rightarrow> outbound_row \<Rightarrow> parsed_mime \<Rightarrow> acceptance \<Rightarrow> hub \<Rightarrow>
     (hub, hub_error, outbound_row) tx" where
  "acceptance_tx p newId now row parsed a seen h =
     attempt (case findMessageByHash (ob_accountId row) (ob_mimeSha256 row) seen of
                Some i \<Rightarrow> Inr (i, h)
              | None \<Rightarrow> insertLocalSentMessage p newId now row parsed (am_bytes a) h) (\<lambda>(messageId, h1).
       let due = (\<lambda>r. ob_id r = ob_id row \<and> ob_status r = am_fromStatus a)
       in require (\<not> (list_ex due (h_outbound h1) \<and>
                      list_ex (\<lambda>r. ob_id r \<noteq> ob_id row \<and> ob_logicalMessageId r = Some messageId)
                        (h_outbound h1))) Unique_Violation
         (case claim_first due (accepted_row messageId now a) (h_outbound h1) of
            (None, _) \<Rightarrow> Inl Acceptance_Superseded
          | (Some accepted, t) \<Rightarrow>
              attempt (unlockDraftAfterSend (ob_id row) (h1\<lparr>h_outbound := t\<rparr>)) (\<lambda>(_, h2).
                Inr (accepted, acceptance_event messageId a row h2))))"

section \<open>Conclusion of an append\<close>

datatype copy_outcome =
    Outcome_Stored sent_destination
  | Outcome_Failed err_detail
  | Outcome_Held err_detail

definition copied_row :: "copy_outcome \<Rightarrow> outbound_row \<Rightarrow> outbound_row" where
  "copied_row oc r =
     (case oc of
        Outcome_Stored d \<Rightarrow>
          r\<lparr>ob_sentCopyStatus := Copy_Stored, ob_sentFolderId := Some (de_folderId d),
            ob_sentUidvalidity := de_uidvalidity d, ob_sentUid := de_uid d, ob_lastError := None\<rparr>
      | Outcome_Failed e \<Rightarrow>
          r\<lparr>ob_sentCopyStatus := Copy_Failed, ob_lastError := Some e,
            ob_sentCopyAttempts := ob_sentCopyAttempts r + 1\<rparr>
      | Outcome_Held e \<Rightarrow>
          r\<lparr>ob_sentCopyStatus := Copy_Unknown, ob_lastError := Some e,
            ob_sentCopyAttempts := ob_sentCopyAttempts r + 1\<rparr>)"

definition copy_event :: "copy_outcome \<Rightarrow> outbound_row \<Rightarrow> hub \<Rightarrow> hub" where
  "copy_event oc row =
     (case oc of
        Outcome_Stored d \<Rightarrow>
          recordSendEvent System_Actor ''send.sent_copy_stored'' (ob_id row)
            [(''accountId'', JStr (ob_accountId row)), (''folderId'', JStr (de_folderId d)),
             (''uidvalidity'', json_opt JNum (de_uidvalidity d)), (''uid'', json_opt JNum (de_uid d))]
      | Outcome_Failed e \<Rightarrow>
          recordSendEvent System_Actor ''send.sent_copy_failed'' (ob_id row)
            [(''accountId'', JStr (ob_accountId row)), (''code'', JStr (ed_code e))]
      | Outcome_Held e \<Rightarrow>
          recordSendEvent System_Actor ''send.sent_copy_unknown'' (ob_id row)
            [(''accountId'', JStr (ob_accountId row)), (''code'', JStr (ed_code e))])"

fun outcome_error :: "copy_outcome \<Rightarrow> err_detail option" where
  "outcome_error (Outcome_Stored d) = None"
| "outcome_error (Outcome_Failed e) = Some e"
| "outcome_error (Outcome_Held e) = Some e"

text \<open>A claimed conclusion needs the row to be appending, an unclaimed one to be due.\<close>

definition concludeSentCopy :: "outbound_row \<Rightarrow> bool \<Rightarrow> copy_outcome \<Rightarrow> hub \<Rightarrow> outbound_row \<times> hub" where
  "concludeSentCopy row claimed oc h =
     (case claim_first
             (\<lambda>r. ob_id r = ob_id row \<and> ob_status r = Sent \<and>
                  (if claimed then ob_sentCopyStatus r = Copy_Appending else append_due r))
             (copied_row oc) (h_outbound h) of
        (None, _) \<Rightarrow> (row, h)
      | (Some after, t) \<Rightarrow>
          (let h1 = copy_event oc row (h\<lparr>h_outbound := t\<rparr>)
           in (after,
               case outcome_error oc of
                 None \<Rightarrow> h1
               | Some e \<Rightarrow>
                   if ob_sentCopyAttempts after \<ge> SEND_SWEEP_ATTEMPT_CAP
                   then recordSendEvent System_Actor ''send.sent_copy_halted'' (ob_id row)
                          [(''accountId'', JStr (ob_accountId row)),
                           (''attempts'', JNum (ob_sentCopyAttempts after)),
                           (''code'', JStr (ed_code e))] h1
                   else h1)))"

section \<open>Reconcile passes and holds\<close>

definition noteReconcilePass :: "outbound_row \<Rightarrow> hub \<Rightarrow> hub" where
  "noteReconcilePass row h =
     (case claim_first (\<lambda>r. ob_id r = ob_id row \<and> ob_status r = Outcome_Unknown)
             (\<lambda>r. r\<lparr>ob_reconcileAttempts := ob_reconcileAttempts r + 1\<rparr>) (h_outbound h) of
        (None, _) \<Rightarrow> h
      | (Some after, t) \<Rightarrow>
          if ob_reconcileAttempts after \<ge> SEND_SWEEP_ATTEMPT_CAP
          then recordSendEvent System_Actor ''send.reconcile_halted'' (ob_id row)
                 [(''accountId'', JStr (ob_accountId row)),
                  (''attempts'', JNum (ob_reconcileAttempts after))] (h\<lparr>h_outbound := t\<rparr>)
          else h\<lparr>h_outbound := t\<rparr>)"

definition held_send :: "outbound_row \<Rightarrow> outbound_row" where
  "held_send r = r\<lparr>ob_status := Outcome_Unknown, ob_lastError := Some (send_error ''sending_abandoned''
     ''The submission attempt recorded no outcome before the process stopped; nothing was resubmitted.'')\<rparr>"

definition held_append :: "outbound_row \<Rightarrow> outbound_row" where
  "held_append r = r\<lparr>ob_sentCopyStatus := Copy_Unknown, ob_lastError := Some (send_error ''append_abandoned''
     ''The Sent append attempt recorded no outcome before the process stopped; it was not retried blindly.'')\<rparr>"

definition holdSending :: "uuid \<Rightarrow> hub \<Rightarrow> bool \<times> hub" where
  "holdSending i h =
     (case claim_first (\<lambda>r. ob_id r = i \<and> ob_status r = Sending)
             held_send
             (h_outbound h) of
        (None, _) \<Rightarrow> (False, h)
      | (Some r, t) \<Rightarrow>
          (True, recordSendEvent System_Actor ''send.outcome_unknown'' i
             [(''accountId'', JStr (ob_accountId r)), (''code'', JStr ''sending_abandoned'')]
             (h\<lparr>h_outbound := t\<rparr>)))"

definition holdAppending :: "uuid \<Rightarrow> hub \<Rightarrow> bool \<times> hub" where
  "holdAppending i h =
     (case claim_first (\<lambda>r. ob_id r = i \<and> ob_sentCopyStatus r = Copy_Appending)
             held_append
             (h_outbound h) of
        (None, _) \<Rightarrow> (False, h)
      | (Some r, t) \<Rightarrow>
          (True, recordSendEvent System_Actor ''send.sent_copy_unknown'' i
             [(''accountId'', JStr (ob_accountId r)), (''code'', JStr ''append_abandoned'')]
             (h\<lparr>h_outbound := t\<rparr>)))"

end
