(* ===== verification/Send_Queue.thy ===== *)
theory Send_Queue
  imports Send_Store
begin

text \<open>
  Queueing a send: \<open>queueSend\<close> and \<open>freezeSnapshot\<close> of \<open>packages/send/src/service.ts\<close>. Everything
  up to the durable write happens outside a transaction, so another writer can act in between:
  \<open>cx_rely\<close> 0 runs after the lookup of the key, 1 before the freeze transaction, 2 before the
  lookup that settles a lost race.
\<close>

section \<open>Loading the draft\<close>

definition loadEditableDraft :: "string \<Rightarrow> hub \<Rightarrow> hub_error + draft_row" where
  "loadEditableDraft draftId h =
     (case find (\<lambda>d. dr_id d = pg_uuid draftId \<and> dr_deletedAt d = None) (h_drafts h) of
        None \<Rightarrow> Inl (send_fail SE_Not_Found) | Some d \<Rightarrow> Inr d)"

definition readAttachmentLinks :: "string \<Rightarrow> hub \<Rightarrow> (uuid \<times> int) list" where
  "readAttachmentLinks draftId h =
     map (\<lambda>l. (du_uploadId l, du_ordinal l)) (sort_key du_ordinal (draft_links (pg_uuid draftId) h))"

fun verify_attachments ::
    "send_ports \<Rightarrow> hub \<Rightarrow> (upload_row \<times> int) list \<Rightarrow> hub_error + (upload_row \<times> int \<times> bytes) list" where
  "verify_attachments p h [] = Inr []"
| "verify_attachments p h ((upload, n) # links) =
     (case h_durable h (up_storageKey upload) of
        None \<Rightarrow> Inl (send_fail SE_Upload_Unverified)
      | Some b \<Rightarrow>
          if int (length b) \<noteq> up_sizeBytes upload then Inl (send_fail SE_Upload_Unverified)
          else if sp_sha256 p b \<noteq> up_sha256 upload then Inl (send_fail SE_Upload_Unverified)
          else attempt (verify_attachments p h links) (\<lambda>rest. Inr ((upload, n, b) # rest)))"

definition loadVerifiedAttachments ::
    "send_ports \<Rightarrow> uuid \<Rightarrow> uuid \<Rightarrow> hub \<Rightarrow> hub_error + (upload_row \<times> int \<times> bytes) list" where
  "loadVerifiedAttachments p accountId draftId h =
     verify_attachments p h
       (List.map_filter
          (\<lambda>l. map_option (\<lambda>u. (u, du_ordinal l))
                 (find (\<lambda>u. up_id u = du_uploadId l \<and> up_accountId u = accountId) (h_uploads h)))
          (sort_key du_ordinal (draft_links draftId h)))"

section \<open>Freezing\<close>

record queue_input =
  qi_draftId :: string
  qi_idempotencyKey :: string
  qi_baseRevision :: int

text \<open>What the freeze computes before its transaction.\<close>

record frozen_send =
  fz_draft :: draft_row
  fz_envelope :: "string list"
  fz_attachments :: "(upload_row \<times> int \<times> bytes) list"
  fz_html :: string
  fz_rfcMessageId :: string
  fz_bytes :: bytes

definition mime_input_of ::
    "draft_row \<Rightarrow> string \<Rightarrow> string \<Rightarrow> millis \<Rightarrow> (upload_row \<times> int \<times> bytes) list \<Rightarrow> mime_input" where
  "mime_input_of draft html rfcMessageId date attachments =
     \<lparr>mi_identity = dr_identity draft, mi_to = rc_to (dr_recipients draft),
      mi_cc = optional_list (rc_cc (dr_recipients draft)), mi_subject = dr_subject draft,
      mi_markdown = dr_markdown draft, mi_html = html, mi_rfcMessageId = rfcMessageId,
      mi_date = date, mi_inReplyTo = dr_inReplyTo draft, mi_referenceIds = dr_referenceIds draft,
      mi_attachments = map (\<lambda>(u, _, b). (up_filename u, up_contentType u, b)) attachments\<rparr>"

definition composeSnapshot ::
    "send_ports \<Rightarrow> run_ctx \<Rightarrow> queue_input \<Rightarrow> hub \<Rightarrow> hub_error + frozen_send" where
  "composeSnapshot p cx input h =
     attempt (loadEditableDraft (qi_draftId input) h) (\<lambda>draft.
     require (dr_revision draft = qi_baseRevision input)
       (Send_Err SE_Draft_Stale (Some (dr_revision draft)))
    (require (dr_lockedBySend draft = None) (send_fail SE_Draft_Locked)
    (require (envelopeOf draft \<noteq> []) (send_fail SE_Recipients_Required)
    (attempt (loadVerifiedAttachments p (dr_accountId draft) (dr_id draft) h) (\<lambda>attachments.
     require (sum_list (map (\<lambda>(u, _, _). up_sizeBytes u) attachments) \<le> ATTACHMENTS_TOTAL_MAX_BYTES)
       (send_fail SE_Invalid_Request)
    (let html = sp_renderMarkdown p (dr_markdown draft);
         rfcMessageId = generateRfcMessageId (ea_address (dr_identity draft)) (cx_ids cx 0);
         composed = sp_composeMime p (mime_input_of draft html rfcMessageId (cx_now cx 0) attachments)
     in case composed of
          None \<Rightarrow> Inl (send_fail SE_Invalid_Request)
        | Some bs \<Rightarrow>
            require (length bs \<le> MAX_MESSAGE_BYTES) (send_fail SE_Invalid_Request)
           (attempt (verifyComposedMessage p bs rfcMessageId (length attachments)) (\<lambda>_.
              Inr \<lparr>fz_draft = draft, fz_envelope = envelopeOf draft, fz_attachments = attachments,
                   fz_html = html, fz_rfcMessageId = rfcMessageId, fz_bytes = bs\<rparr>))))))))"

definition frozen_row ::
    "send_ports \<Rightarrow> uuid \<Rightarrow> millis \<Rightarrow> uuid \<Rightarrow> queue_input \<Rightarrow> frozen_send \<Rightarrow> outbound_row" where
  "frozen_row p outboundId created generation input fz =
     (let draft = fz_draft fz in
      \<lparr>ob_id = outboundId, ob_accountId = dr_accountId draft, ob_recoveryGeneration = generation,
       ob_idempotencyKey = qi_idempotencyKey input,
       ob_requestHash = hashRequest p (qi_draftId input) (qi_baseRevision input)
         (map (\<lambda>(u, n, _). (up_id u, n)) (fz_attachments fz)),
       ob_draftId = Some (dr_id draft), ob_draftRevision = dr_revision draft,
       ob_identity = dr_identity draft, ob_envelopeSender = ea_address (dr_identity draft),
       ob_envelopeRecipients = fz_envelope fz, ob_status = Queued, ob_logicalMessageId = None,
       ob_threadId = dr_threadId draft, ob_replyParentId = dr_replyParentId draft,
       ob_inReplyTo = dr_inReplyTo draft, ob_referenceIds = dr_referenceIds draft,
       ob_recipients = dr_recipients draft, ob_subject = dr_subject draft,
       ob_markdownSource = dr_markdown draft, ob_html = Some (fz_html fz),
       ob_rfcMessageId = fz_rfcMessageId fz, ob_mimeStorageKey = outboundMimeKey outboundId,
       ob_mimeSha256 = sp_sha256 p (fz_bytes fz), ob_smtpResponse = None,
       ob_recipientResults = [], ob_sendingStartedAt = None, ob_appendStartedAt = None,
       ob_sentCopyAttempts = 0, ob_reconcileAttempts = 0, ob_sentCopyStatus = Copy_Pending,
       ob_sentFolderId = None, ob_sentUidvalidity = None, ob_sentUid = None, ob_lastError = None,
       ob_createdAt = created, ob_sentAt = None\<rparr>)"

definition lockDraftRowS :: "uuid \<Rightarrow> hub \<Rightarrow> hub_error + draft_row" where
  "lockDraftRowS draftId h =
     (case find (\<lambda>d. dr_id d = draftId) (h_drafts h) of
        None \<Rightarrow> Inl (send_fail SE_Not_Found) | Some d \<Rightarrow> Inr d)"

text \<open>
  The freeze transaction. The insert meets the unique indexes on the identifier, the idempotency
  key and the message identifier.
\<close>

definition freeze_tx ::
    "send_ports \<Rightarrow> uuid \<Rightarrow> millis \<Rightarrow> uuid \<Rightarrow> queue_input \<Rightarrow> frozen_send \<Rightarrow>
     (hub, hub_error, outbound_row) tx" where
  "freeze_tx p outboundId created generation input fz h =
     (let draft = fz_draft fz; row = frozen_row p outboundId created generation input fz in
      attempt (lockDraftRowS (dr_id draft) h) (\<lambda>locked.
      require (dr_deletedAt locked = None) (send_fail SE_Not_Found)
     (require (dr_revision locked = qi_baseRevision input)
        (Send_Err SE_Draft_Stale (Some (dr_revision locked)))
     (require (dr_lockedBySend locked = None) (send_fail SE_Draft_Locked)
     (require (matchesFrozenAttachments (readAttachmentLinks (dr_id draft) h) (fz_attachments fz))
        (Send_Err SE_Draft_Stale (Some (dr_revision locked)))
     (require (\<not> list_ex (\<lambda>r. ob_id r = outboundId \<or> ob_idempotencyKey r = qi_idempotencyKey input \<or>
                             ob_rfcMessageId r = fz_rfcMessageId fz) (h_outbound h)) Unique_Violation
     (attempt (lockDraftForSend (dr_id draft) (dr_revision draft) outboundId
        (h\<lparr>h_outbound := h_outbound h @ [row],
           h_outboundUploads := h_outboundUploads h @
             map (\<lambda>(u, n, _). \<lparr>ou_outboundId = outboundId, ou_uploadId = up_id u, ou_ordinal = n\<rparr>)
               (fz_attachments fz)\<rparr>)) (\<lambda>(_, h1).
        Inr (row, recordSendEvent User_Actor ''send.queued'' outboundId
          [(''accountId'', JStr (dr_accountId draft)), (''draftId'', JStr (dr_id draft)),
           (''draftRevision'', JNum (dr_revision draft)),
           (''recipients'', JNum (int (length (fz_envelope fz)))),
           (''attachments'', JNum (int (length (fz_attachments fz)))),
           (''rfcMessageId'', JStr (fz_rfcMessageId fz))] h1)))))))))"

definition freezeSnapshot ::
    "send_ports \<Rightarrow> run_ctx \<Rightarrow> queue_input \<Rightarrow> uuid \<Rightarrow> hub \<Rightarrow> (hub, hub_error, outbound_row) outcome" where
  "freezeSnapshot p cx input generation h =
     (case composeSnapshot p cx input h of
        Inl e \<Rightarrow> (Inl e, h)
      | Inr fz \<Rightarrow>
          (let outboundId = cx_ids cx 1; storageKey = outboundMimeKey outboundId
           in case sp_put p storageKey (fz_bytes fz) of
                Inl _ \<Rightarrow> (Inl Storage_Failure, h)
              | Inr stored \<Rightarrow>
                  (let h1 = h\<lparr>h_durable := (h_durable h)(storageKey \<mapsto> so_bytes stored)\<rparr>
                   in if so_sha256 stored \<noteq> sp_sha256 p (fz_bytes fz) \<or>
                         so_sizeBytes stored \<noteq> int (length (fz_bytes fz))
                      then (Inl (send_fail SE_Upload_Unverified), h1)
                      else run_tx (freeze_tx p outboundId (cx_now cx 1) generation input fz)
                             (cx_rely cx 1 h1))))"

section \<open>Queueing\<close>

definition findByIdempotencyKey :: "string \<Rightarrow> hub \<Rightarrow> outbound_row option" where
  "findByIdempotencyKey key h = find (\<lambda>r. ob_idempotencyKey r = key) (h_outbound h)"

definition existingSnapshot :: "outbound_row \<Rightarrow> string \<Rightarrow> hub_error + outbound_record" where
  "existingSnapshot row requestHash =
     (if ob_requestHash row \<noteq> requestHash then Inl (send_fail SE_Idempotency_Conflict)
      else Inr (toOutboundRecord row))"

definition is_race :: "hub_error \<Rightarrow> bool" where
  "is_race e = (e = Unique_Violation \<or> (case e of Send_Err SE_Draft_Locked _ \<Rightarrow> True | _ \<Rightarrow> False))"

definition replay :: "hub_error + outbound_record \<Rightarrow> hub_error + bool \<times> outbound_record" where
  "replay x = attempt x (\<lambda>r. Inr (False, r))"

definition check_queue_input :: "queue_input \<Rightarrow> hub_error + unit" where
  "check_queue_input input =
     attempt (requireUuidS (qi_draftId input)) (\<lambda>_.
     require (qi_idempotencyKey input \<noteq> [] \<and>
              length (qi_idempotencyKey input) \<le> MAX_IDEMPOTENCY_KEY_LENGTH) (send_fail SE_Invalid_Request)
    (require (1 \<le> qi_baseRevision input \<and> qi_baseRevision input \<le> MAX_SAFE_INTEGER)
       (send_fail SE_Invalid_Request) (Inr ())))"

definition queueSend ::
    "send_ports \<Rightarrow> run_ctx \<Rightarrow> string option \<Rightarrow> queue_input \<Rightarrow> hub \<Rightarrow>
     (hub, hub_error, bool \<times> outbound_record) outcome" where
  "queueSend p cx request input h =
     (case gateMutation (sp_controls p) request h of
        Inl e \<Rightarrow> (Inl (Recovery_Err e), h)
      | Inr generation \<Rightarrow>
          (case check_queue_input input of
             Inl e \<Rightarrow> (Inl e, h)
           | Inr _ \<Rightarrow>
               (let requestHash = hashRequest p (qi_draftId input) (qi_baseRevision input)
                      (readAttachmentLinks (qi_draftId input) h)
                in case findByIdempotencyKey (qi_idempotencyKey input) h of
                     Some existing \<Rightarrow> (replay (existingSnapshot existing requestHash), h)
                   | None \<Rightarrow>
                       (case freezeSnapshot p cx input generation (cx_rely cx 0 h) of
                          (Inr row, h1) \<Rightarrow> (Inr (True, toOutboundRecord row), h1)
                        | (Inl e, h1) \<Rightarrow>
                            if is_race e then
                              (let h2 = cx_rely cx 2 h1
                               in case findByIdempotencyKey (qi_idempotencyKey input) h2 of
                                    None \<Rightarrow> (Inl e, h2)
                                  | Some raced \<Rightarrow> (replay (existingSnapshot raced requestHash), h2))
                            else (Inl e, h1)))))"

end
