(* ===== verification/Send_Submit.thy ===== *)
theory Send_Submit
  imports Send_Queue
begin

text \<open>
  Submitting a queued send: \<open>readOutbound\<close>, \<open>executeOutbound\<close>, \<open>commitAcceptance\<close> and
  \<open>executeQueued\<close> of \<open>packages/send/src/service.ts\<close>. Other writers may act before the claim
  (\<open>cx_rely\<close> 0), between the claim and the submission (1), during the submission (2) and between
  the lookup and the writes of an acceptance (3, and 4 where it is tried again).
\<close>

definition readOutbound :: "string \<Rightarrow> hub \<Rightarrow> hub_error + outbound_record" where
  "readOutbound i h =
     attempt (requireUuidS i) (\<lambda>_.
       case find (\<lambda>r. ob_id r = pg_uuid i) (h_outbound h) of
         None \<Rightarrow> Inl (send_fail SE_Not_Found)
       | Some row \<Rightarrow> Inr (toOutboundRecord row))"

definition is_ready :: "control_status \<Rightarrow> bool" where
  "is_ready status = (case status of Ready_State _ \<Rightarrow> True | _ \<Rightarrow> False)"

section \<open>Acceptance\<close>

definition current_row :: "outbound_row \<Rightarrow> hub \<Rightarrow> outbound_row" where
  "current_row row h =
     (case find (\<lambda>r. ob_id r = ob_id row) (h_outbound h) of None \<Rightarrow> row | Some r \<Rightarrow> r)"

definition commitAcceptance ::
    "send_ports \<Rightarrow> run_ctx \<Rightarrow> outbound_row \<Rightarrow> acceptance \<Rightarrow> hub \<Rightarrow>
     (hub, hub_error, outbound_row) outcome" where
  "commitAcceptance p cx row a h =
     (case sp_parseMime p (am_bytes a) of
        Inl m \<Rightarrow> (Inl (Port_Failure m), h)
      | Inr parsed \<Rightarrow>
          (let h1 = cx_rely cx 3 h
           in case acceptance_tx p (cx_ids cx 2) (cx_now cx 2) row parsed a h h1 of
                Inr (r, h2) \<Rightarrow> (Inr r, h2)
              | Inl Acceptance_Superseded \<Rightarrow> (Inr (current_row row h1), h1)
              | Inl Unique_Violation \<Rightarrow>
                  (let h2 = cx_rely cx 4 h1
                   in case acceptance_tx p (cx_ids cx 3) (cx_now cx 3) row parsed a h1 h2 of
                        Inr (r, h3) \<Rightarrow> (Inr r, h3)
                      | Inl Acceptance_Superseded \<Rightarrow> (Inr (current_row row h2), h2)
                      | Inl e \<Rightarrow> (Inl e, h2))
              | Inl e \<Rightarrow> (Inl e, h1)))"

section \<open>Submission\<close>

definition smtp_request_of :: "smtp_credentials \<Rightarrow> outbound_row \<Rightarrow> bytes \<Rightarrow> smtp_request" where
  "smtp_request_of c row bs =
     \<lparr>rq_host = cr_host c, rq_port = cr_port c, rq_security = cr_security c,
      rq_username = cr_username c, rq_password = cr_password c,
      rq_from = ob_envelopeSender row, rq_to = ob_envelopeRecipients row, rq_raw = bs\<rparr>"

definition log_smtp :: "uuid \<Rightarrow> smtp_request \<Rightarrow> hub \<Rightarrow> hub" where
  "log_smtp i rq h = h\<lparr>h_smtpCalls := h_smtpCalls h @ [(i, rq)]\<rparr>"

text \<open>What the attempt does with the claimed row before SMTP opens.\<close>

datatype preparation =
    Prep_Fail err_detail
  | Prep_Submit smtp_request bytes

definition prepareSubmission ::
    "send_ports \<Rightarrow> (uuid \<Rightarrow> string + smtp_credentials) \<Rightarrow> outbound_row \<Rightarrow> hub \<Rightarrow> preparation" where
  "prepareSubmission p resolve row h =
     (case h_durable h (ob_mimeStorageKey row) of
        None \<Rightarrow> Prep_Fail (send_error ''mime_missing''
          ''The stored MIME bytes could not be read; nothing was submitted.'')
      | Some bs \<Rightarrow>
          if sp_sha256 p bs \<noteq> ob_mimeSha256 row
          then Prep_Fail (send_error ''mime_mismatch''
            ''The stored MIME bytes no longer match their recorded hash; nothing was submitted.'')
          else (case resolve (ob_accountId row) of
                  Inl m \<Rightarrow> Prep_Fail (send_error ''credentials_unavailable'' (until_newline m))
                | Inr c \<Rightarrow> Prep_Submit (smtp_request_of c row bs) bs))"

definition report_of :: "string + submit_report \<Rightarrow> submit_report" where
  "report_of x =
     (case x of
        Inr report \<Rightarrow> report
      | Inl m \<Rightarrow> \<lparr>su_state = Unclassified, su_response = None, su_responseCode = None,
                 su_recipients = [], su_error = Some (send_error ''submitter_error'' (until_colon m))\<rparr>)"

definition concludeSubmission ::
    "send_ports \<Rightarrow> run_ctx \<Rightarrow> outbound_row \<Rightarrow> bytes \<Rightarrow> submit_report \<Rightarrow> hub \<Rightarrow>
     (hub, hub_error, outbound_row) outcome" where
  "concludeSubmission p cx row bs report h =
     (case su_state report of
        Accepted \<Rightarrow>
          commitAcceptance p cx row
            \<lparr>am_fromStatus = Sending, am_bytes = bs, am_smtpResponse = smtpResponseOf report,
             am_recipientResults = recipientResultsOf (ob_envelopeRecipients row) (Some report),
             am_sentCopy = None, am_evidence = None\<rparr> h
      | Rejected \<Rightarrow>
          run_tx (recordFailure row
            \<lparr>fl_smtpResponse = smtpResponseOf report,
             fl_recipientResults = recipientResultsOf (ob_envelopeRecipients row) (Some report),
             fl_error = su_error report\<rparr>) h
      | Unclassified \<Rightarrow> (case recordUnknown row report h of (r, h1) \<Rightarrow> (Inr r, h1)))"

definition finish_run ::
    "bool \<Rightarrow> (hub, hub_error, outbound_row) outcome \<Rightarrow> (hub, hub_error, outbound_record \<times> bool) outcome" where
  "finish_run flag x =
     (case x of (Inl e, h) \<Rightarrow> (Inl e, h) | (Inr r, h) \<Rightarrow> (Inr (toOutboundRecord r, flag), h))"

text \<open>The attempt of the worker that won the claim.\<close>

definition submitClaimed ::
    "send_ports \<Rightarrow> run_ctx \<Rightarrow> (smtp_request \<Rightarrow> string + submit_report) \<Rightarrow>
     (uuid \<Rightarrow> string + smtp_credentials) \<Rightarrow> outbound_row \<Rightarrow> hub \<Rightarrow>
     (hub, hub_error, outbound_row) outcome" where
  "submitClaimed p cx submit resolve row h =
     (case prepareSubmission p resolve row h of
        Prep_Fail e \<Rightarrow>
          run_tx (recordFailure row
            \<lparr>fl_smtpResponse = None, fl_recipientResults = [], fl_error = Some e\<rparr>) h
      | Prep_Submit rq bs \<Rightarrow>
          concludeSubmission p cx row bs (report_of (submit rq))
            (cx_rely cx 2 (log_smtp (ob_id row) rq h)))"

definition executeOutbound ::
    "send_ports \<Rightarrow> run_ctx \<Rightarrow> string \<Rightarrow> hub \<Rightarrow> (hub, hub_error, outbound_record \<times> bool) outcome" where
  "executeOutbound p cx i h =
     (case requireUuidS i of
        Inl e \<Rightarrow> (Inl e, h)
      | Inr _ \<Rightarrow>
          (case (sp_submit p, sp_resolveCredentials p) of
             (Some submit, Some resolve) \<Rightarrow>
               (case find (\<lambda>r. ob_id r = pg_uuid i) (h_outbound h) of
                  None \<Rightarrow> (Inl (send_fail SE_Not_Found), h)
                | Some before \<Rightarrow>
                    if ob_status before \<noteq> Queued then (Inr (toOutboundRecord before, False), h)
                    else
                      (let status = readStatus (sp_controls p) h
                       in if \<not> is_ready status \<or>
                             assessJob status (ob_recoveryGeneration before) = Job_Stale
                          then (Inr (toOutboundRecord before, False), h)
                          else
                            (case claimOutbound (cx_now cx 0) (pg_uuid i) (cx_rely cx 0 h) of
                               (None, h1) \<Rightarrow>
                                 (case readOutbound i h1 of
                                    Inl e \<Rightarrow> (Inl e, h1) | Inr r \<Rightarrow> (Inr (r, False), h1))
                             | (Some row, h1) \<Rightarrow>
                                 finish_run True
                                   (submitClaimed p cx submit resolve row (cx_rely cx 1 h1)))))
           | _ \<Rightarrow> (Inl (send_fail SE_Send_Unavailable), h)))"

section \<open>The sweep\<close>

record send_summary =
  sm_scanned :: int
  sm_submitted :: int
  sm_skippedStale :: int
  sm_rowErrors :: int
  sm_blocked :: bool

definition take_oldest :: "nat \<Rightarrow> (outbound_row \<Rightarrow> bool) \<Rightarrow> hub \<Rightarrow> outbound_row list" where
  "take_oldest limit P h = take limit (sort_key ob_createdAt (filter P (h_outbound h)))"

text \<open>
  The loop every sweep runs over the rows it selected: a stale row is skipped, a row that throws
  is counted, and what the others report is counted where it is positive. \<open>cxs\<close> gives each row
  its context.
\<close>

fun sweep_rows ::
    "(run_ctx \<Rightarrow> uuid \<Rightarrow> hub \<Rightarrow> ('e + bool) \<times> hub) \<Rightarrow> control_status \<Rightarrow> (nat \<Rightarrow> run_ctx) \<Rightarrow> nat \<Rightarrow>
     outbound_row list \<Rightarrow> int \<times> int \<times> int \<Rightarrow> hub \<Rightarrow> (int \<times> int \<times> int) \<times> hub" where
  "sweep_rows run status cxs k [] counts h = (counts, h)"
| "sweep_rows run status cxs k (row # rows) (finished, stale, errors) h =
     (if assessJob status (ob_recoveryGeneration row) = Job_Stale
      then sweep_rows run status cxs (Suc k) rows (finished, stale + 1, errors) h
      else
        (case run (cxs k) (ob_id row) h of
           (Inl e, h1) \<Rightarrow> sweep_rows run status cxs (Suc k) rows (finished, stale, errors + 1) h1
         | (Inr b, h1) \<Rightarrow>
             sweep_rows run status cxs (Suc k) rows (if b then finished + 1 else finished, stale, errors) h1))"

definition sweep ::
    "(run_ctx \<Rightarrow> uuid \<Rightarrow> hub \<Rightarrow> ('e + bool) \<times> hub) \<Rightarrow> control_status \<Rightarrow> (nat \<Rightarrow> run_ctx) \<Rightarrow>
     outbound_row list \<Rightarrow> hub \<Rightarrow> send_summary \<times> hub" where
  "sweep run status cxs rows h =
     (case sweep_rows run status cxs 0 rows (0, 0, 0) h of
        ((finished, stale, errors), h1) \<Rightarrow>
          (\<lparr>sm_scanned = int (length rows), sm_submitted = finished, sm_skippedStale = stale,
            sm_rowErrors = errors, sm_blocked = False\<rparr>, h1))"

definition blocked_summary :: send_summary where
  "blocked_summary = \<lparr>sm_scanned = 0, sm_submitted = 0, sm_skippedStale = 0, sm_rowErrors = 0,
     sm_blocked = True\<rparr>"

definition run_execute :: "send_ports \<Rightarrow> run_ctx \<Rightarrow> uuid \<Rightarrow> hub \<Rightarrow> (hub_error + bool) \<times> hub" where
  "run_execute p cx i h =
     (case executeOutbound p cx i h of (Inl e, h1) \<Rightarrow> (Inl e, h1) | (Inr (_, b), h1) \<Rightarrow> (Inr b, h1))"

definition executeQueued ::
    "send_ports \<Rightarrow> (nat \<Rightarrow> run_ctx) \<Rightarrow> nat \<Rightarrow> hub \<Rightarrow> send_summary \<times> hub" where
  "executeQueued p cxs limit h =
     (let status = readStatus (sp_controls p) h
      in if \<not> is_ready status then (blocked_summary, h)
         else sweep (run_execute p) status cxs (take_oldest limit (\<lambda>r. ob_status r = Queued) h) h)"

end
