(* ===== verification/Send_Copies.thy ===== *)
theory Send_Copies
  imports Send_Submit
begin

text \<open>
  The jobs after a submission, from \<open>packages/send/src/service.ts\<close>: \<open>locateVerifiedCopy\<close>,
  \<open>executeSentCopyAppend\<close> and its sweep, \<open>reconcileUnknownOutcome\<close> and its sweep, and
  \<open>recoverAbandonedAttempts\<close>. What a session does to one row is the pure function
  \<open>sentCopyWork\<close>, which returns the outcome to record and the appends made; every call it makes
  sees the appends made before it. Other writers act before the claim (\<open>cx_rely\<close> 0), during the
  session (1) and, for the holds, before each transaction.
\<close>

section \<open>Evidence\<close>

datatype evidence = Ev_Verified sent_destination | Ev_Absent | Ev_Conflict

definition findSentFolder :: "uuid \<Rightarrow> hub \<Rightarrow> folder_row option" where
  "findSentFolder accountId h =
     find (\<lambda>f. fo_accountId f = accountId \<and> fo_role f = Some Role_Sent) (h_folders h)"

definition missingSentFolder :: "hub \<Rightarrow> outbound_row \<Rightarrow> bool" where
  "missingSentFolder h r = (findSentFolder (ob_accountId r) h = None)"

text \<open>The candidates in the order of the search; a candidate that vanished is passed over.\<close>

fun check_candidates ::
    "send_ports \<Rightarrow> (int \<Rightarrow> string + bytes option) \<Rightarrow> uuid \<Rightarrow> int \<Rightarrow> outbound_row \<Rightarrow> bool \<Rightarrow> int list \<Rightarrow>
     string + evidence" where
  "check_candidates p fetch folderId uidvalidity row seen [] =
     Inr (if seen then Ev_Conflict else Ev_Absent)"
| "check_candidates p fetch folderId uidvalidity row seen (uid # uids) =
     attempt (fetch uid) (\<lambda>found.
       case found of
         None \<Rightarrow> check_candidates p fetch folderId uidvalidity row seen uids
       | Some bs \<Rightarrow>
           if sp_sha256 p bs = ob_mimeSha256 row
           then Inr (Ev_Verified \<lparr>de_folderId = folderId, de_uidvalidity = Some uidvalidity,
                                  de_uid = Some uid\<rparr>)
           else check_candidates p fetch folderId uidvalidity row True uids)"

definition locateVerifiedCopy ::
    "send_ports \<Rightarrow> sent_session \<Rightarrow> append_log \<Rightarrow> folder_row \<Rightarrow> outbound_row \<Rightarrow> string + evidence" where
  "locateVerifiedCopy p session log folder row =
     attempt (se_select session log (fo_name folder)) (\<lambda>uidvalidity.
     attempt (se_search session log (ob_rfcMessageId row)) (\<lambda>uids.
       check_candidates p (se_fetch session log) (fo_id folder) uidvalidity row False uids))"

section \<open>The append job\<close>

definition held :: "string \<Rightarrow> string \<Rightarrow> copy_outcome" where
  "held code message = Outcome_Held (send_error code message)"

definition session_error :: "string \<Rightarrow> copy_outcome" where
  "session_error m = held ''session_error'' (''The Sent-copy session failed: '' @ until_newline m)"

text \<open>What follows an append whose answer named no place: reconcile before deciding.\<close>

definition afterAppend ::
    "send_ports \<Rightarrow> sent_session \<Rightarrow> append_log \<Rightarrow> folder_row \<Rightarrow> outbound_row \<Rightarrow> append_result \<Rightarrow> copy_outcome" where
  "afterAppend p session log folder row result =
     (case locateVerifiedCopy p session log folder row of
        Inl m \<Rightarrow> session_error m
      | Inr (Ev_Verified d) \<Rightarrow> Outcome_Stored d
      | Inr Ev_Conflict \<Rightarrow>
          held ''sent_copy_conflict''
            ''The Sent folder holds a message with this identifier but different bytes; the append outcome stays unknown.''
      | Inr Ev_Absent \<Rightarrow>
          (case result of
             Append_Uncertain reason \<Rightarrow>
               held ''append_uncertain'' (''The Sent append response was lost: '' @ reason)
           | _ \<Rightarrow> Outcome_Stored \<lparr>de_folderId = fo_id folder, de_uidvalidity = None, de_uid = None\<rparr>))"

definition sentCopyWork ::
    "send_ports \<Rightarrow> sent_session \<Rightarrow> folder_row \<Rightarrow> outbound_row \<Rightarrow> bytes option \<Rightarrow>
     copy_outcome \<times> append_log" where
  "sentCopyWork p session folder row stored =
     (case stored of
        None \<Rightarrow> (held ''mime_missing''
                   ''The stored MIME bytes could not be read; nothing was appended.'', [])
      | Some bs \<Rightarrow>
          if sp_sha256 p bs \<noteq> ob_mimeSha256 row then
            (held ''mime_mismatch''
               ''The stored MIME bytes no longer match their recorded hash; nothing was appended.'', [])
          else
            (case locateVerifiedCopy p session [] folder row of
               Inl m \<Rightarrow> (session_error m, [])
             | Inr (Ev_Verified d) \<Rightarrow> (Outcome_Stored d, [])
             | Inr Ev_Conflict \<Rightarrow>
                 (held ''sent_copy_conflict''
                    ''The Sent folder holds a message with this identifier but different bytes; the copy was not verified and nothing was appended.'', [])
             | Inr Ev_Absent \<Rightarrow>
                 (let log = [(fo_name folder, bs)]
                  in case se_append session [] (fo_name folder) bs of
                       Inl m \<Rightarrow> (session_error m, log)
                     | Inr Append_Rejected \<Rightarrow>
                         (Outcome_Failed (send_error ''append_rejected''
                            ''The server refused the Sent append; the sent state is unchanged.''), log)
                     | Inr (Appended (Some v) (Some u)) \<Rightarrow>
                         (Outcome_Stored \<lparr>de_folderId = fo_id folder, de_uidvalidity = Some v,
                                          de_uid = Some u\<rparr>, log)
                     | Inr result \<Rightarrow> (afterAppend p session log folder row result, log))))"

definition log_appends :: "uuid \<Rightarrow> append_log \<Rightarrow> hub \<Rightarrow> hub" where
  "log_appends i log h = h\<lparr>h_appendCalls := h_appendCalls h @
     map (\<lambda>(folder, bs). \<lparr>ap_outboundId = i, ap_folder = folder, ap_bytes = bs\<rparr>) log\<rparr>"

definition unmapped_error :: err_detail where
  "unmapped_error = send_error ''sent_folder_unmapped''
     ''The account has no folder mapped to the Sent role; map one in settings to store the sent copy.''"

text \<open>The session of a claimed row, and the conclusion it leads to.\<close>

definition appendClaimed ::
    "send_ports \<Rightarrow> run_ctx \<Rightarrow> (uuid \<Rightarrow> string + sent_session) \<Rightarrow> folder_row \<Rightarrow> outbound_row \<Rightarrow> hub \<Rightarrow>
     outbound_row \<times> hub" where
  "appendClaimed p cx openCopy folder row h =
     (case openCopy (ob_accountId row) of
        Inl m \<Rightarrow>
          concludeSentCopy row True (held ''session_unavailable''
            (''The Sent-copy connection could not be opened: '' @ until_newline m)) (cx_rely cx 1 h)
      | Inr session \<Rightarrow>
          (case sentCopyWork p session folder row (h_durable h (ob_mimeStorageKey row)) of
             (oc, log) \<Rightarrow>
               concludeSentCopy row True oc (cx_rely cx 1 (log_appends (ob_id row) log h))))"

definition executeSentCopyAppend ::
    "send_ports \<Rightarrow> run_ctx \<Rightarrow> string \<Rightarrow> hub \<Rightarrow> (hub, hub_error, outbound_record \<times> bool) outcome" where
  "executeSentCopyAppend p cx i h =
     (case requireUuidS i of
        Inl e \<Rightarrow> (Inl e, h)
      | Inr _ \<Rightarrow>
          (case sp_openSentCopy p of
             None \<Rightarrow> (Inl (send_fail SE_Sent_Copy_Unavailable), h)
           | Some openCopy \<Rightarrow>
               (case find (\<lambda>r. ob_id r = pg_uuid i) (h_outbound h) of
                  None \<Rightarrow> (Inl (send_fail SE_Not_Found), h)
                | Some before \<Rightarrow>
                    (let quiet = (Inr (toOutboundRecord before, False), h);
                         status = readStatus (sp_controls p) h
                     in if ob_status before \<noteq> Sent \<or> ob_sentCopyStatus before = Copy_Stored then quiet
                        else if \<not> is_ready status \<or>
                                assessJob status (ob_recoveryGeneration before) = Job_Stale then quiet
                        else
                          (case findSentFolder (ob_accountId before) h of
                             None \<Rightarrow>
                               if ob_sentCopyStatus before = Copy_Unknown \<or>
                                  (ob_sentCopyStatus before = Copy_Failed \<and>
                                   map_option ed_code (ob_lastError before) = Some ''sent_folder_unmapped'')
                               then quiet
                               else (case concludeSentCopy before False (Outcome_Failed unmapped_error)
                                            (cx_rely cx 0 h) of
                                       (r, h1) \<Rightarrow> (Inr (toOutboundRecord r, True), h1))
                           | Some folder \<Rightarrow>
                               (case claimSentCopy (cx_now cx 0) (pg_uuid i) (cx_rely cx 0 h) of
                                  (None, h1) \<Rightarrow>
                                    (case readOutbound i h1 of
                                       Inl e \<Rightarrow> (Inl e, h1) | Inr r \<Rightarrow> (Inr (r, False), h1))
                                | (Some row, h1) \<Rightarrow>
                                    (case appendClaimed p cx openCopy folder row h1 of
                                       (r, h2) \<Rightarrow> (Inr (toOutboundRecord r, True), h2))))))))"

definition copy_due :: "hub \<Rightarrow> outbound_row \<Rightarrow> bool" where
  "copy_due h r \<longleftrightarrow>
     append_due r \<and> ob_sentCopyAttempts r < SEND_SWEEP_ATTEMPT_CAP \<and>
     \<not> (ob_sentCopyStatus r \<noteq> Copy_Pending \<and> missingSentFolder h r)"

definition run_append :: "send_ports \<Rightarrow> run_ctx \<Rightarrow> uuid \<Rightarrow> hub \<Rightarrow> (hub_error + bool) \<times> hub" where
  "run_append p cx i h =
     (case executeSentCopyAppend p cx i h of
        (Inl e, h1) \<Rightarrow> (Inl e, h1) | (Inr (_, b), h1) \<Rightarrow> (Inr b, h1))"

definition appendDueSentCopies ::
    "send_ports \<Rightarrow> (nat \<Rightarrow> run_ctx) \<Rightarrow> nat \<Rightarrow> hub \<Rightarrow> send_summary \<times> hub" where
  "appendDueSentCopies p cxs limit h =
     (let status = readStatus (sp_controls p) h
      in if \<not> is_ready status then (blocked_summary, h)
         else sweep (run_append p) status cxs (take_oldest limit (copy_due h) h) h)"

section \<open>Reconciliation\<close>

text \<open>The reason a pass that resolved nothing reports.\<close>

record reconcile_result =
  rs_record :: outbound_record
  rs_reconciled :: bool
  rs_reason :: "string option"

definition unresolved :: "outbound_row \<Rightarrow> string option \<Rightarrow> reconcile_result" where
  "unresolved row reason =
     \<lparr>rs_record = toOutboundRecord row, rs_reconciled = False, rs_reason = reason\<rparr>"

definition reconciliation :: "outbound_row \<Rightarrow> bytes \<Rightarrow> sent_destination \<Rightarrow> acceptance" where
  "reconciliation row bs d =
     \<lparr>am_fromStatus = Outcome_Unknown, am_bytes = bs, am_smtpResponse = ob_smtpResponse row,
      am_recipientResults = reconciledRecipientResults row, am_sentCopy = Some d,
      am_evidence = Some ''verified_sent_copy''\<rparr>"

text \<open>
  The pass over an open session. A call that throws leaves by the \<open>finally\<close> block alone, so no
  pass is noted.
\<close>

definition reconcileSession ::
    "send_ports \<Rightarrow> run_ctx \<Rightarrow> sent_session \<Rightarrow> folder_row \<Rightarrow> outbound_row \<Rightarrow> hub \<Rightarrow>
     (hub, hub_error, reconcile_result) outcome" where
  "reconcileSession p cx session folder row h =
     (case locateVerifiedCopy p session [] folder row of
        Inl m \<Rightarrow> (Inl (Port_Failure m), h)
      | Inr Ev_Absent \<Rightarrow> (Inr (unresolved row (Some ''absent'')), noteReconcilePass row h)
      | Inr Ev_Conflict \<Rightarrow> (Inr (unresolved row (Some ''conflict'')), noteReconcilePass row h)
      | Inr (Ev_Verified d) \<Rightarrow>
          (case se_fetch session [] (the (de_uid d)) of
             Inl m \<Rightarrow> (Inl (Port_Failure m), h)
           | Inr found \<Rightarrow>
               (case found of
                  Some bs \<Rightarrow>
                    if sp_sha256 p bs \<noteq> ob_mimeSha256 row
                    then (Inr (unresolved row (Some ''candidate_unreadable'')), noteReconcilePass row h)
                    else
                      (case commitAcceptance p cx row (reconciliation row bs d) h of
                         (Inl e, h1) \<Rightarrow> (Inl e, h1)
                       | (Inr r, h1) \<Rightarrow>
                           (Inr \<lparr>rs_record = toOutboundRecord r, rs_reconciled = True,
                                 rs_reason = None\<rparr>, h1))
                | None \<Rightarrow>
                    (Inr (unresolved row (Some ''candidate_unreadable'')), noteReconcilePass row h))))"

definition reconcileUnknownOutcome ::
    "send_ports \<Rightarrow> run_ctx \<Rightarrow> string \<Rightarrow> hub \<Rightarrow> (hub, hub_error, reconcile_result) outcome" where
  "reconcileUnknownOutcome p cx i h =
     (case requireUuidS i of
        Inl e \<Rightarrow> (Inl e, h)
      | Inr _ \<Rightarrow>
          (case sp_openSentCopy p of
             None \<Rightarrow> (Inl (send_fail SE_Sent_Copy_Unavailable), h)
           | Some openCopy \<Rightarrow>
               (case find (\<lambda>r. ob_id r = pg_uuid i) (h_outbound h) of
                  None \<Rightarrow> (Inl (send_fail SE_Not_Found), h)
                | Some before \<Rightarrow>
                    (let status = readStatus (sp_controls p) h
                     in if ob_status before \<noteq> Outcome_Unknown \<or> \<not> is_ready status \<or>
                           assessJob status (ob_recoveryGeneration before) = Job_Stale
                        then (Inr (unresolved before None), h)
                        else
                          (case findSentFolder (ob_accountId before) h of
                             None \<Rightarrow> (Inr (unresolved before (Some ''sent_folder_unmapped'')), h)
                           | Some folder \<Rightarrow>
                               (case openCopy (ob_accountId before) of
                                  Inl m \<Rightarrow>
                                    (Inr (unresolved before
                                       (Some (''session_unavailable: '' @ until_newline m))),
                                     noteReconcilePass before (cx_rely cx 1 h))
                                | Inr session \<Rightarrow>
                                    reconcileSession p cx session folder before (cx_rely cx 1 h)))))))"

definition reconcile_due :: "hub \<Rightarrow> outbound_row \<Rightarrow> bool" where
  "reconcile_due h r \<longleftrightarrow>
     ob_status r = Outcome_Unknown \<and> ob_reconcileAttempts r < SEND_SWEEP_ATTEMPT_CAP \<and>
     \<not> missingSentFolder h r"

definition run_reconcile :: "send_ports \<Rightarrow> run_ctx \<Rightarrow> uuid \<Rightarrow> hub \<Rightarrow> (hub_error + bool) \<times> hub" where
  "run_reconcile p cx i h =
     (case reconcileUnknownOutcome p cx i h of
        (Inl e, h1) \<Rightarrow> (Inl e, h1) | (Inr r, h1) \<Rightarrow> (Inr (rs_reconciled r), h1))"

definition reconcileUnknownOutcomes ::
    "send_ports \<Rightarrow> (nat \<Rightarrow> run_ctx) \<Rightarrow> nat \<Rightarrow> hub \<Rightarrow> send_summary \<times> hub" where
  "reconcileUnknownOutcomes p cxs limit h =
     (let status = readStatus (sp_controls p) h
      in if \<not> is_ready status then (blocked_summary, h)
         else sweep (run_reconcile p) status cxs (take_oldest limit (reconcile_due h) h) h)"

section \<open>Abandoned attempts\<close>

record abandoned_summary =
  ab_heldSends :: int
  ab_heldAppends :: int
  ab_skippedStale :: int
  ab_blocked :: bool

text \<open>One hold after another; the state other writers leave is what each transaction meets.\<close>

fun hold_rows ::
    "(uuid \<Rightarrow> hub \<Rightarrow> bool \<times> hub) \<Rightarrow> control_status \<Rightarrow> (nat \<Rightarrow> hub \<Rightarrow> hub) \<Rightarrow> nat \<Rightarrow>
     outbound_row list \<Rightarrow> int \<times> int \<Rightarrow> hub \<Rightarrow> (int \<times> int) \<times> hub" where
  "hold_rows hold status rely k [] counts h = (counts, h)"
| "hold_rows hold status rely k (row # rows) (n, stale) h =
     (if assessJob status (ob_recoveryGeneration row) = Job_Stale
      then hold_rows hold status rely (Suc k) rows (n, stale + 1) h
      else (case hold (ob_id row) (rely k h) of
              (b, h1) \<Rightarrow> hold_rows hold status rely (Suc k) rows (if b then n + 1 else n, stale) h1))"

definition abandoned_send :: "millis \<Rightarrow> outbound_row \<Rightarrow> bool" where
  "abandoned_send expiredBefore r \<longleftrightarrow>
     ob_status r = Sending \<and>
     (case ob_sendingStartedAt r of None \<Rightarrow> False | Some t \<Rightarrow> t < expiredBefore)"

definition abandoned_append :: "millis \<Rightarrow> outbound_row \<Rightarrow> bool" where
  "abandoned_append expiredBefore r \<longleftrightarrow>
     ob_sentCopyStatus r = Copy_Appending \<and>
     (case ob_appendStartedAt r of None \<Rightarrow> True | Some t \<Rightarrow> t < expiredBefore)"

definition recoverAbandonedAttempts ::
    "send_ports \<Rightarrow> run_ctx \<Rightarrow> hub \<Rightarrow> abandoned_summary \<times> hub" where
  "recoverAbandonedAttempts p cx h =
     (let status = readStatus (sp_controls p) h
      in if \<not> is_ready status
         then (\<lparr>ab_heldSends = 0, ab_heldAppends = 0, ab_skippedStale = 0, ab_blocked = True\<rparr>, h)
         else
           (let expiredBefore = cx_now cx 0 - ATTEMPT_LEASE_MS;
                sending = filter (abandoned_send expiredBefore) (h_outbound h)
            in case hold_rows holdSending status (cx_rely cx) 0 sending (0, 0) h of
                 ((heldSends, stale), h1) \<Rightarrow>
                   (let appending = filter (abandoned_append expiredBefore) (h_outbound h1)
                    in case hold_rows holdAppending status (cx_rely cx) (length sending) appending
                              (0, stale) h1 of
                         ((heldAppends, stale2), h2) \<Rightarrow>
                           (\<lparr>ab_heldSends = heldSends, ab_heldAppends = heldAppends,
                             ab_skippedStale = stale2, ab_blocked = False\<rparr>, h2))))"

end
