(* ===== verification/Send_Steps.thy ===== *)
theory Send_Steps
  imports Send_Copies
begin

text \<open>
  The send service as a transition system. A state is the database with the claims that are
  held and not yet used; a step is one transaction of \<open>Send_Store\<close>, one SMTP call, one append,
  one compose operation, one operator command, or any change by the other services to the tables
  the send service does not own. Nothing is assumed about which worker takes which step, so
  every interleaving and every crash is a run. Invariants of all runs follow by rule induction;
  the handlers are shown to take only these steps.
\<close>

section \<open>Rows over time\<close>

inductive status_move :: "outbound_status \<Rightarrow> outbound_status \<Rightarrow> bool" where
  move_claim: "status_move Queued Sending"
| move_accept: "status_move Sending Sent"
| move_fail: "status_move Sending Failed"
| move_unknown: "status_move Sending Outcome_Unknown"
| move_reconcile: "status_move Outcome_Unknown Sent"

inductive_simps status_move_from_sent [simp]: "status_move Sent s"
inductive_simps status_move_from_failed [simp]: "status_move Failed s"
inductive_simps status_move_to_queued [simp]: "status_move s Queued"
inductive_simps status_move_simps: "status_move s s'"

text \<open>
  The columns no statement changes after the snapshot committed. The reply parent is not one of
  them: when ingestion merges a byte-identical duplicate into the surviving message, the replies
  to the duplicate, drafts and sends, follow (\<open>relink_replies\<close>).
\<close>

definition same_snapshot :: "outbound_row \<Rightarrow> outbound_row \<Rightarrow> bool" where
  "same_snapshot r r' \<longleftrightarrow>
     ob_id r' = ob_id r \<and> ob_accountId r' = ob_accountId r \<and>
     ob_recoveryGeneration r' = ob_recoveryGeneration r \<and>
     ob_idempotencyKey r' = ob_idempotencyKey r \<and> ob_requestHash r' = ob_requestHash r \<and>
     ob_draftId r' = ob_draftId r \<and> ob_draftRevision r' = ob_draftRevision r \<and>
     ob_identity r' = ob_identity r \<and> ob_envelopeSender r' = ob_envelopeSender r \<and>
     ob_envelopeRecipients r' = ob_envelopeRecipients r \<and> ob_recipients r' = ob_recipients r \<and>
     ob_threadId r' = ob_threadId r \<and>
     ob_inReplyTo r' = ob_inReplyTo r \<and> ob_referenceIds r' = ob_referenceIds r \<and>
     ob_subject r' = ob_subject r \<and> ob_markdownSource r' = ob_markdownSource r \<and>
     ob_html r' = ob_html r \<and> ob_rfcMessageId r' = ob_rfcMessageId r \<and>
     ob_mimeStorageKey r' = ob_mimeStorageKey r \<and> ob_mimeSha256 r' = ob_mimeSha256 r \<and>
     ob_createdAt r' = ob_createdAt r"

definition row_step :: "outbound_row \<Rightarrow> outbound_row \<Rightarrow> bool" where
  "row_step r r' \<longleftrightarrow>
     same_snapshot r r' \<and> (ob_status r' = ob_status r \<or> status_move (ob_status r) (ob_status r'))"

lemma same_snapshot_refl [simp]: "same_snapshot r r"
  by (simp add: same_snapshot_def)

lemma same_snapshot_trans: "same_snapshot a b \<Longrightarrow> same_snapshot b c \<Longrightarrow> same_snapshot a c"
  by (simp add: same_snapshot_def)

lemma row_step_refl [simp]: "row_step r r"
  by (simp add: row_step_def)

lemma row_step_id: "row_step r r' \<Longrightarrow> ob_id r' = ob_id r"
  by (simp add: row_step_def same_snapshot_def)

text \<open>Every statement of the store moves its rows by a row step.\<close>

lemma mutators_row_step:
  "ob_status r = Queued \<Longrightarrow> row_step r (mark_sending now r)"
  "row_step r (mark_appending now r)"
  "ob_status r = Sending \<Longrightarrow> row_step r (failed_row f r)"
  "ob_status r = Sending \<Longrightarrow> row_step r (unknown_row env report r)"
  "ob_status r \<in> {Sending, Outcome_Unknown} \<Longrightarrow> row_step r (accepted_row m now a r)"
  "row_step r (copied_row oc r)"
  "row_step r (r\<lparr>ob_reconcileAttempts := n\<rparr>)"
  "ob_status r = Sending \<Longrightarrow> row_step r (held_send r)"
  "row_step r (held_append r)"
  by (auto simp: row_step_def same_snapshot_def mark_sending_def mark_appending_def failed_row_def
      unknown_row_def accepted_row_def copied_row_def held_send_def held_append_def Let_def status_move_simps
      split: option.split copy_outcome.split)

section \<open>What the transactions do to the outbound table\<close>

lemma claim_first_cases:
  assumes "claim_first P f t = (x, t')"
  shows "t' = tbl_update P f t \<and>
    (case x of None \<Rightarrow> (\<forall>r \<in> set t. \<not> P r) \<and> t' = t
     | Some r' \<Rightarrow> \<exists>r \<in> set t. P r \<and> r' = f r)"
proof (cases "tbl_returning P f t")
  case Nil
  with assms show ?thesis
    by (auto simp: claim_first_def tbl_returning_empty_iff tbl_update_no_match)
next
  case (Cons r' rs)
  then have "r' \<in> set (tbl_returning P f t)" by simp
  then have "\<exists>r \<in> set t. P r \<and> r' = f r" by (auto simp: tbl_returning_def)
  with Cons assms show ?thesis by (auto simp: claim_first_def)
qed

definition table_step :: "outbound_row list \<Rightarrow> outbound_row list \<Rightarrow> bool" where
  "table_step t t' \<longleftrightarrow> list_all2 row_step t t'"

lemma table_step_refl [simp]: "table_step t t"
  by (simp add: table_step_def list_all2_refl)

lemma table_step_update: "(\<And>r. P r \<Longrightarrow> row_step r (f r)) \<Longrightarrow> table_step t (tbl_update P f t)"
  by (induction t) (auto simp: table_step_def)

lemma table_step_ids: "table_step t t' \<Longrightarrow> map ob_id t' = map ob_id t"
  unfolding table_step_def by (induction rule: list_all2_induct) (auto dest: row_step_id)

lemma table_step_forward:
  "table_step t t' \<Longrightarrow> r \<in> set t \<Longrightarrow> \<exists>r' \<in> set t'. row_step r r'"
  unfolding table_step_def by (induction rule: list_all2_induct) auto

lemma table_step_backward:
  "table_step t t' \<Longrightarrow> r' \<in> set t' \<Longrightarrow> \<exists>r \<in> set t. row_step r r'"
  unfolding table_step_def by (induction rule: list_all2_induct) auto

lemma claim_first_table_step:
  "claim_first P f t = (x, t') \<Longrightarrow> (\<And>r. P r \<Longrightarrow> row_step r (f r)) \<Longrightarrow> table_step t t'"
  using claim_first_cases [of P f t x t'] by (simp add: table_step_update)

lemma releaseDraftLock_frame:
  assumes "releaseDraftLock s i h = Inr (n, h')"
  shows "h_outbound h' = h_outbound h \<and> h_smtpCalls h' = h_smtpCalls h \<and>
    h_drafts h' = tbl_update (\<lambda>d. dr_lockedBySend d = Some (pg_uuid i))
      (\<lambda>d. d\<lparr>dr_lockedBySend := None\<rparr>) (h_drafts h) \<and>
    (\<exists>row. find (\<lambda>r. ob_id r = pg_uuid i) (h_outbound h) = Some row \<and> ob_status row = s)"
  using assms by (auto simp: releaseDraftLock_def tx_simps Let_def split: option.splits)

lemma insertLocalSentMessage_frame:
  assumes "insertLocalSentMessage p i now row parsed bs h = Inr (m, h')"
  shows "h_outbound h' = h_outbound h \<and> h_smtpCalls h' = h_smtpCalls h \<and> h_drafts h' = h_drafts h"
  using assms by (auto simp: insertLocalSentMessage_def tx_simps)

lemma recordFailure_frame:
  assumes "recordFailure row f h = Inr (r, h')"
  shows "table_step (h_outbound h) (h_outbound h') \<and> h_smtpCalls h' = h_smtpCalls h \<and>
    h_outbound h' = tbl_update (\<lambda>x. ob_id x = ob_id row \<and> ob_status x = Sending) (failed_row f) (h_outbound h) \<and>
    h_drafts h' = tbl_update (\<lambda>d. dr_lockedBySend d = Some (pg_uuid (ob_id row)))
      (\<lambda>d. d\<lparr>dr_lockedBySend := None\<rparr>) (h_drafts h) \<and>
    (\<exists>x. find (\<lambda>r. ob_id r = pg_uuid (ob_id row)) (h_outbound h') = Some x \<and> ob_status x = Failed)"
proof -
  obtain u t where c: "claim_first (\<lambda>r. ob_id r = ob_id row \<and> ob_status r = Sending) (failed_row f)
      (h_outbound h) = (u, t)" by fastforce
  have "table_step (h_outbound h) t"
    using c by (rule claim_first_table_step) (simp add: mutators_row_step)
  moreover have "t = tbl_update (\<lambda>x. ob_id x = ob_id row \<and> ob_status x = Sending) (failed_row f) (h_outbound h)"
    using claim_first_cases [OF c] by simp
  moreover from assms c obtain n h1 where "unlockDraftAfterFailure (ob_id row) (h\<lparr>h_outbound := t\<rparr>) = Inr (n, h1)"
      and "h_outbound h' = h_outbound h1 \<and> h_smtpCalls h' = h_smtpCalls h1 \<and> h_drafts h' = h_drafts h1"
    by (auto simp: recordFailure_def tx_simps)
  ultimately show ?thesis
    using releaseDraftLock_frame [of Failed "ob_id row" "h\<lparr>h_outbound := t\<rparr>" n h1]
    by (simp add: unlockDraftAfterFailure_def)
qed

lemma recordUnknown_frame:
  assumes "recordUnknown row report h = (r, h')"
  shows "table_step (h_outbound h) (h_outbound h') \<and> h_smtpCalls h' = h_smtpCalls h \<and>
    h_drafts h' = h_drafts h \<and>
    h_outbound h' = tbl_update (\<lambda>x. ob_id x = ob_id row \<and> ob_status x = Sending)
      (unknown_row (ob_envelopeRecipients row) report) (h_outbound h)"
proof -
  obtain u t where c: "claim_first (\<lambda>r. ob_id r = ob_id row \<and> ob_status r = Sending)
      (unknown_row (ob_envelopeRecipients row) report) (h_outbound h) = (u, t)" by fastforce
  have "table_step (h_outbound h) t"
    using c by (rule claim_first_table_step) (simp add: mutators_row_step)
  with claim_first_cases [OF c] assms c show ?thesis by (auto simp: recordUnknown_def)
qed

lemma acceptance_tx_frame:
  assumes "acceptance_tx p i now row parsed a seen h = Inr (r, h')"
    and "am_fromStatus a \<in> {Sending, Outcome_Unknown}"
  shows "table_step (h_outbound h) (h_outbound h') \<and> h_smtpCalls h' = h_smtpCalls h \<and>
    (\<exists>m. h_outbound h' = tbl_update (\<lambda>x. ob_id x = ob_id row \<and> ob_status x = am_fromStatus a)
        (accepted_row m now a) (h_outbound h) \<and>
      (\<exists>x \<in> set (h_outbound h). ob_id x = ob_id row \<and> ob_status x = am_fromStatus a \<and>
         r = accepted_row m now a x)) \<and>
    h_drafts h' = tbl_update (\<lambda>d. dr_lockedBySend d = Some (pg_uuid (ob_id row)))
      (\<lambda>d. d\<lparr>dr_lockedBySend := None\<rparr>) (h_drafts h) \<and>
    (\<exists>x. find (\<lambda>r. ob_id r = pg_uuid (ob_id row)) (h_outbound h') = Some x \<and> ob_status x = Sent)"
proof -
  let ?due = "\<lambda>x. ob_id x = ob_id row \<and> ob_status x = am_fromStatus a"
  from assms(1) obtain m h1 where pre: "(case findMessageByHash (ob_accountId row) (ob_mimeSha256 row) seen of
                Some i \<Rightarrow> Inr (i, h)
              | None \<Rightarrow> insertLocalSentMessage p i now row parsed (am_bytes a) h) = Inr (m, h1)"
      and body: "(case claim_first ?due (accepted_row m now a) (h_outbound h1) of
            (None, _) \<Rightarrow> Inl Acceptance_Superseded
          | (Some accepted, t) \<Rightarrow>
              attempt (unlockDraftAfterSend (ob_id row) (h1\<lparr>h_outbound := t\<rparr>)) (\<lambda>(_, h2).
                Inr (accepted, acceptance_event m a row h2))) = Inr (r, h')"
    by (auto simp: acceptance_tx_def tx_simps Let_def)
  have h1: "h_outbound h1 = h_outbound h \<and> h_smtpCalls h1 = h_smtpCalls h \<and> h_drafts h1 = h_drafts h"
    using pre insertLocalSentMessage_frame by (auto split: option.splits)
  obtain u t where c: "claim_first ?due (accepted_row m now a) (h_outbound h1) = (u, t)" by fastforce
  with body obtain acc n h2 where u: "u = Some acc"
    and un: "unlockDraftAfterSend (ob_id row) (h1\<lparr>h_outbound := t\<rparr>) = Inr (n, h2)"
    and r: "r = acc" "h' = acceptance_event m a row h2"
    by (auto simp: tx_simps split: option.splits)
  have ts: "table_step (h_outbound h1) t"
    using c by (rule claim_first_table_step) (use assms(2) in \<open>auto intro!: mutators_row_step\<close>)
  have ev: "h_outbound h' = h_outbound h2 \<and> h_smtpCalls h' = h_smtpCalls h2 \<and> h_drafts h' = h_drafts h2"
    by (simp add: r acceptance_event_def)
  from releaseDraftLock_frame [of Sent "ob_id row" "h1\<lparr>h_outbound := t\<rparr>" n h2] un
  have rel: "h_outbound h2 = t \<and> h_smtpCalls h2 = h_smtpCalls h1 \<and>
    h_drafts h2 = tbl_update (\<lambda>d. dr_lockedBySend d = Some (pg_uuid (ob_id row)))
      (\<lambda>d. d\<lparr>dr_lockedBySend := None\<rparr>) (h_drafts h1) \<and>
    (\<exists>row'. find (\<lambda>r. ob_id r = pg_uuid (ob_id row)) t = Some row' \<and> ob_status row' = Sent)"
    by (simp add: unlockDraftAfterSend_def)
  have t: "t = tbl_update ?due (accepted_row m now a) (h_outbound h)"
    and acc: "\<exists>x \<in> set (h_outbound h). ?due x \<and> acc = accepted_row m now a x"
    using claim_first_cases [OF c] h1 u by auto
  show ?thesis
    unfolding ev [THEN conjunct1]
    using ts ev rel h1 t acc r(1) by auto
qed

lemma concludeSentCopy_frame:
  assumes "concludeSentCopy row claimed oc h = (r, h')"
  shows "table_step (h_outbound h) (h_outbound h') \<and> h_smtpCalls h' = h_smtpCalls h \<and>
    h_drafts h' = h_drafts h \<and> map ob_status (h_outbound h') = map ob_status (h_outbound h)"
proof -
  let ?P = "\<lambda>r. ob_id r = ob_id row \<and> ob_status r = Sent \<and>
                  (if claimed then ob_sentCopyStatus r = Copy_Appending else append_due r)"
  obtain u t where c: "claim_first ?P (copied_row oc) (h_outbound h) = (u, t)" by fastforce
  have "table_step (h_outbound h) t"
    using c by (rule claim_first_table_step) (simp add: mutators_row_step)
  moreover have "t = tbl_update ?P (copied_row oc) (h_outbound h)" using claim_first_cases [OF c] by simp
  then have "map ob_status t = map ob_status (h_outbound h)"
    by (simp only:) (rule map_tbl_update_frame, simp add: copied_row_def split: copy_outcome.split)
  moreover have "h_outbound (copy_event oc row x) = h_outbound x \<and> h_smtpCalls (copy_event oc row x) = h_smtpCalls x \<and>
      h_drafts (copy_event oc row x) = h_drafts x" for x
    by (simp add: copy_event_def split: copy_outcome.split)
  ultimately show ?thesis
    using assms c by (auto simp: concludeSentCopy_def Let_def split: option.splits if_splits)
qed

lemma claimOutbound_frame:
  assumes "claimOutbound now i h = (x, h')"
  shows "table_step (h_outbound h) (h_outbound h') \<and> h_smtpCalls h' = h_smtpCalls h \<and>
    h_drafts h' = h_drafts h \<and>
    h_outbound h' = tbl_update (\<lambda>r. ob_id r = i \<and> ob_status r = Queued) (mark_sending now) (h_outbound h) \<and>
    (case x of None \<Rightarrow> h' = h
     | Some row \<Rightarrow> \<exists>r \<in> set (h_outbound h). ob_id r = i \<and> ob_status r = Queued \<and> row = mark_sending now r)"
proof -
  obtain u t where c: "claim_queued now i (h_outbound h) = (u, t)" by fastforce
  then have c': "claim_first (\<lambda>r. ob_id r = i \<and> ob_status r = Queued) (mark_sending now) (h_outbound h) = (u, t)"
    by (simp add: claim_queued_def)
  have "table_step (h_outbound h) t"
    using c' by (rule claim_first_table_step) (simp add: mutators_row_step)
  with claim_first_cases [OF c'] assms c show ?thesis
    by (auto simp: claimOutbound_def split: option.splits)
qed

lemma claimSentCopy_frame:
  assumes "claimSentCopy now i h = (x, h')"
  shows "table_step (h_outbound h) (h_outbound h') \<and> h_smtpCalls h' = h_smtpCalls h \<and>
    h_drafts h' = h_drafts h \<and> map ob_status (h_outbound h') = map ob_status (h_outbound h) \<and>
    (case x of None \<Rightarrow> h' = h
     | Some row \<Rightarrow> \<exists>r \<in> set (h_outbound h). ob_id r = i \<and> append_due r \<and> row = mark_appending now r)"
proof -
  obtain u t where c: "claim_append now i (h_outbound h) = (u, t)" by fastforce
  then have c': "claim_first (\<lambda>r. ob_id r = i \<and> append_due r) (mark_appending now) (h_outbound h) = (u, t)"
    by (simp add: claim_append_def)
  have "table_step (h_outbound h) t"
    using c' by (rule claim_first_table_step) (simp add: mutators_row_step)
  moreover have "map ob_status (tbl_update (\<lambda>r. ob_id r = i \<and> append_due r) (mark_appending now) (h_outbound h)) =
      map ob_status (h_outbound h)"
    by (rule map_tbl_update_frame) (simp add: mark_appending_def)
  ultimately show ?thesis
    using claim_first_cases [OF c'] assms c by (auto simp: claimSentCopy_def split: option.splits)
qed

lemma noteReconcilePass_frame:
  "table_step (h_outbound h) (h_outbound (noteReconcilePass row h)) \<and>
   h_smtpCalls (noteReconcilePass row h) = h_smtpCalls h \<and>
   h_drafts (noteReconcilePass row h) = h_drafts h \<and>
   map ob_status (h_outbound (noteReconcilePass row h)) = map ob_status (h_outbound h)"
proof -
  let ?P = "\<lambda>r. ob_id r = ob_id row \<and> ob_status r = Outcome_Unknown"
  let ?f = "\<lambda>r. r\<lparr>ob_reconcileAttempts := ob_reconcileAttempts r + 1\<rparr>"
  obtain u t where c: "claim_first ?P ?f (h_outbound h) = (u, t)" by fastforce
  have "table_step (h_outbound h) t"
    using c by (rule claim_first_table_step) (simp add: mutators_row_step)
  moreover have "map ob_status (tbl_update ?P ?f (h_outbound h)) = map ob_status (h_outbound h)"
    by (rule map_tbl_update_frame) simp
  ultimately show ?thesis
    using claim_first_cases [OF c] c by (auto simp: noteReconcilePass_def split: option.splits)
qed

lemma holdSending_frame:
  assumes "holdSending i h = (b, h')"
  shows "table_step (h_outbound h) (h_outbound h') \<and> h_smtpCalls h' = h_smtpCalls h \<and>
    h_drafts h' = h_drafts h \<and>
    h_outbound h' = tbl_update (\<lambda>r. ob_id r = i \<and> ob_status r = Sending) held_send (h_outbound h)"
proof -
  let ?P = "\<lambda>r. ob_id r = i \<and> ob_status r = Sending"
  let ?f = held_send
  obtain u t where c: "claim_first ?P ?f (h_outbound h) = (u, t)" by fastforce
  have "table_step (h_outbound h) t"
    using c by (rule claim_first_table_step) (simp add: mutators_row_step)
  moreover have "t = tbl_update ?P ?f (h_outbound h)" using claim_first_cases [OF c] by simp
  moreover have "u = None \<longrightarrow> t = h_outbound h" using claim_first_cases [OF c] by auto
  ultimately show ?thesis
    using assms c unfolding holdSending_def by (auto split: option.splits)
qed

lemma holdAppending_frame:
  assumes "holdAppending i h = (b, h')"
  shows "table_step (h_outbound h) (h_outbound h') \<and> h_smtpCalls h' = h_smtpCalls h \<and>
    h_drafts h' = h_drafts h \<and> map ob_status (h_outbound h') = map ob_status (h_outbound h)"
proof -
  let ?P = "\<lambda>r. ob_id r = i \<and> ob_sentCopyStatus r = Copy_Appending"
  let ?f = held_append
  obtain u t where c: "claim_first ?P ?f (h_outbound h) = (u, t)" by fastforce
  have "table_step (h_outbound h) t"
    using c by (rule claim_first_table_step) (simp add: mutators_row_step)
  moreover have "map ob_status (tbl_update ?P ?f (h_outbound h)) = map ob_status (h_outbound h)"
    by (rule map_tbl_update_frame) (simp add: held_append_def)
  moreover have "t = tbl_update ?P ?f (h_outbound h)" using claim_first_cases [OF c] by simp
  ultimately show ?thesis
    using assms c unfolding holdAppending_def by (auto split: option.splits)
qed

text \<open>What the merge of a duplicate (\<open>mergeDuplicate\<close> of the ingestion) does to drafts and sends.\<close>

definition relink_replies :: "uuid \<Rightarrow> uuid \<Rightarrow> hub \<Rightarrow> hub" where
  "relink_replies removed survivor h =
     h\<lparr>h_drafts := tbl_update (\<lambda>d. dr_replyParentId d = Some removed)
         (\<lambda>d. d\<lparr>dr_replyParentId := Some survivor\<rparr>) (h_drafts h),
       h_outbound := tbl_update (\<lambda>r. ob_replyParentId r = Some removed)
         (\<lambda>r. r\<lparr>ob_replyParentId := Some survivor\<rparr>) (h_outbound h)\<rparr>"

lemma relink_replies_frame:
  "table_step (h_outbound h) (h_outbound (relink_replies a b h)) \<and>
   h_smtpCalls (relink_replies a b h) = h_smtpCalls h \<and>
   map ob_status (h_outbound (relink_replies a b h)) = map ob_status (h_outbound h)"
proof -
  have "table_step (h_outbound h) (h_outbound (relink_replies a b h))"
    unfolding relink_replies_def by (simp, rule table_step_update) (simp add: row_step_def same_snapshot_def)
  moreover have "map ob_status (h_outbound (relink_replies a b h)) = map ob_status (h_outbound h)"
    unfolding relink_replies_def by (simp, rule map_tbl_update_frame) simp
  ultimately show ?thesis by (simp add: relink_replies_def)
qed

text \<open>The freeze adds one queued row and locks its draft, which nobody held.\<close>

lemma freeze_tx_success:
  assumes "freeze_tx p i created gen input fz h = Inr (row, h')"
  shows "row = frozen_row p i created gen input fz \<and> h_outbound h' = h_outbound h @ [row] \<and>
    i \<notin> ob_id ` set (h_outbound h) \<and> h_smtpCalls h' = h_smtpCalls h \<and>
    (\<exists>d \<in> set (h_drafts h). dr_id d = dr_id (fz_draft fz) \<and> dr_lockedBySend d = None \<and>
       dr_deletedAt d = None \<and> dr_revision d = qi_baseRevision input) \<and>
    readAttachmentLinks (dr_id (fz_draft fz)) h = map (\<lambda>(u, n, _). (up_id u, n)) (fz_attachments fz) \<and>
    h_draftUploads h' = h_draftUploads h \<and>
    (\<exists>d. find (\<lambda>x. dr_id x = pg_uuid (dr_id (fz_draft fz))) (h_drafts h) = Some d \<and>
       (dr_lockedBySend d = None \<or> dr_lockedBySend d = Some i)) \<and>
    (h_drafts h' = tbl_update (\<lambda>d. dr_id d = pg_uuid (dr_id (fz_draft fz)))
      (\<lambda>d. d\<lparr>dr_lockedBySend := Some i\<rparr>) (h_drafts h) \<or>
     (\<exists>d. find (\<lambda>x. dr_id x = pg_uuid (dr_id (fz_draft fz))) (h_drafts h) = Some d \<and>
        dr_lockedBySend d = Some i \<and> h_drafts h' = h_drafts h))"
proof -
  from assms obtain d h1 rec where d: "lockDraftRowS (dr_id (fz_draft fz)) h = Inr d"
    and chk: "dr_deletedAt d = None" "dr_revision d = qi_baseRevision input" "dr_lockedBySend d = None"
      "matchesFrozenAttachments (readAttachmentLinks (dr_id (fz_draft fz)) h) (fz_attachments fz)"
      "\<not> list_ex (\<lambda>r. ob_id r = i \<or> ob_idempotencyKey r = qi_idempotencyKey input \<or>
                             ob_rfcMessageId r = fz_rfcMessageId fz) (h_outbound h)"
    and lock: "lockDraftForSend (dr_id (fz_draft fz)) (dr_revision (fz_draft fz)) i
        (h\<lparr>h_outbound := h_outbound h @ [frozen_row p i created gen input fz],
           h_outboundUploads := h_outboundUploads h @
             map (\<lambda>(u, n, _). \<lparr>ou_outboundId = i, ou_uploadId = up_id u, ou_ordinal = n\<rparr>)
               (fz_attachments fz)\<rparr>) = Inr (rec, h1)"
    and r: "row = frozen_row p i created gen input fz" "h_outbound h' = h_outbound h1"
      "h_smtpCalls h' = h_smtpCalls h1" "h_drafts h' = h_drafts h1" "h_draftUploads h' = h_draftUploads h1"
    by (auto simp: freeze_tx_def tx_simps Let_def)
  from d have "d \<in> set (h_drafts h) \<and> dr_id d = dr_id (fz_draft fz)"
    by (auto simp: lockDraftRowS_def split: option.splits dest: find_in_set)
  moreover have "h_outbound h1 = h_outbound h @ [row] \<and> h_smtpCalls h1 = h_smtpCalls h \<and>
      h_draftUploads h1 = h_draftUploads h \<and>
    (\<exists>d. find (\<lambda>x. dr_id x = pg_uuid (dr_id (fz_draft fz))) (h_drafts h) = Some d \<and>
       (dr_lockedBySend d = None \<or> dr_lockedBySend d = Some i)) \<and>
    (h_drafts h1 = tbl_update (\<lambda>d. dr_id d = pg_uuid (dr_id (fz_draft fz)))
      (\<lambda>d. d\<lparr>dr_lockedBySend := Some i\<rparr>) (h_drafts h) \<or>
     (\<exists>d. find (\<lambda>x. dr_id x = pg_uuid (dr_id (fz_draft fz))) (h_drafts h) = Some d \<and>
        dr_lockedBySend d = Some i \<and> h_drafts h1 = h_drafts h))"
    using lock r(1)
    by (auto simp: lockDraftForSend_def tx_simps lockDraftRow_def split: option.splits if_splits)
  moreover have "i \<notin> ob_id ` set (h_outbound h)" using chk(5) by (auto simp: list_ex_iff)
  ultimately show ?thesis
    using r chk by (simp add: matchesFrozenAttachments_eq) blast
qed

lemma freeze_tx_service:
  assumes "freeze_tx p i created gen input fz h = Inr (row, h')"
  shows "h_serviceState h' = h_serviceState h"
proof -
  from assms obtain rec h1 where
    lock: "lockDraftForSend (dr_id (fz_draft fz)) (dr_revision (fz_draft fz)) i
        (h\<lparr>h_outbound := h_outbound h @ [frozen_row p i created gen input fz],
           h_outboundUploads := h_outboundUploads h @
             map (\<lambda>(u, n, _). \<lparr>ou_outboundId = i, ou_uploadId = up_id u, ou_ordinal = n\<rparr>)
               (fz_attachments fz)\<rparr>) = Inr (rec, h1)"
    and r: "h_serviceState h' = h_serviceState h1"
    by (auto simp: freeze_tx_def tx_simps Let_def)
  from lock have "h_serviceState h1 = h_serviceState h"
    by (auto simp: lockDraftForSend_def tx_simps lockDraftRow_def split: option.splits if_splits)
  with r show ?thesis by simp
qed

end
