(* ===== verification/Send_System.thy ===== *)
theory Send_System
  imports Send_Steps
begin

text \<open>
  Runs of the send service over every interleaving. The invariants: a send is submitted at most
  once and only from its frozen snapshot (\<open>calls_inv\<close>), and a draft is locked exactly by its
  unresolved send (\<open>lock_inv\<close>).
\<close>

section \<open>The relation\<close>

type_synonym sys = "hub \<times> outbound_row list"

definition canonical_id :: "uuid \<Rightarrow> bool" where
  "canonical_id i \<longleftrightarrow> is_uuid i \<and> to_lower i = i"

text \<open>The identifier an operation draws is in canonical form.\<close>

fun op_id :: "compose_op \<Rightarrow> uuid option" where
  "op_id (Op_Create i _ _) = Some i"
| "op_id (Op_Create_Reply i _ _) = Some i"
| "op_id (Op_Upload i _ _) = Some i"
| "op_id (Op_Resend i _ _) = Some i"
| "op_id _ = None"

inductive send_step :: "send_ports \<Rightarrow> compose_ports \<Rightarrow> sys \<Rightarrow> sys \<Rightarrow> bool"
  for p :: send_ports and cp :: compose_ports where
  st_queue: "freeze_tx p i created gen input fz h = Inr (row, h') \<Longrightarrow> canonical_id i \<Longrightarrow>
     send_step p cp (h, cs) (h', cs)"
| st_claim: "claimOutbound now i h = (Some row, h') \<Longrightarrow> send_step p cp (h, cs) (h', row # cs)"
| st_submit: "row \<in> set cs \<Longrightarrow> prepareSubmission p resolve row hr = Prep_Submit rq bs \<Longrightarrow>
     send_step p cp (h, cs) (log_smtp (ob_id row) rq h, remove1 row cs)"
| st_drop: "row \<in> set cs \<Longrightarrow> send_step p cp (h, cs) (h, remove1 row cs)"
| st_fail: "recordFailure row f h = Inr (r, h') \<Longrightarrow> send_step p cp (h, cs) (h', cs)"
| st_unknown: "recordUnknown row report h = (r, h') \<Longrightarrow> send_step p cp (h, cs) (h', cs)"
| st_accept: "acceptance_tx p i now row parsed a seen h = Inr (r, h') \<Longrightarrow>
     am_fromStatus a \<in> {Sending, Outcome_Unknown} \<Longrightarrow> send_step p cp (h, cs) (h', cs)"
| st_claim_copy: "claimSentCopy now i h = (Some row, h') \<Longrightarrow> send_step p cp (h, cs) (h', cs)"
| st_append: "send_step p cp (h, cs) (log_appends i log h, cs)"
| st_conclude: "concludeSentCopy row claimed oc h = (r, h') \<Longrightarrow> send_step p cp (h, cs) (h', cs)"
| st_note: "send_step p cp (h, cs) (noteReconcilePass row h, cs)"
| st_hold: "holdSending i h = (b, h') \<Longrightarrow> send_step p cp (h, cs) (h', cs)"
| st_hold_append: "holdAppending i h = (b, h') \<Longrightarrow> send_step p cp (h, cs) (h', cs)"
| st_compose: "fresh_for op h \<Longrightarrow> (case op_id op of None \<Rightarrow> True | Some i \<Rightarrow> canonical_id i) \<Longrightarrow>
     send_step p cp (h, cs) (run_compose cp q op h, cs)"
| st_merge: "send_step p cp (h, cs) (relink_replies removed survivor h, cs)"
| st_other: "h_outbound h' = h_outbound h \<Longrightarrow> h_drafts h' = h_drafts h \<Longrightarrow>
     h_smtpCalls h' = h_smtpCalls h \<Longrightarrow> send_step p cp (h, cs) (h', cs)"

section \<open>At most one submission\<close>

definition call_matches :: "send_ports \<Rightarrow> uuid \<times> smtp_request \<Rightarrow> outbound_row \<Rightarrow> bool" where
  "call_matches p c r \<longleftrightarrow>
     ob_id r = fst c \<and> rq_from (snd c) = ob_envelopeSender r \<and>
     rq_to (snd c) = ob_envelopeRecipients r \<and> sp_sha256 p (rq_raw (snd c)) = ob_mimeSha256 r"

definition used_ids :: "sys \<Rightarrow> uuid list" where
  "used_ids s = map fst (h_smtpCalls (fst s)) @ map ob_id (snd s)"

definition calls_inv :: "send_ports \<Rightarrow> sys \<Rightarrow> bool" where
  "calls_inv p s \<longleftrightarrow>
     distinct (map ob_id (h_outbound (fst s))) \<and> distinct (used_ids s) \<and>
     list_all (\<lambda>i. list_ex (\<lambda>r. ob_id r = i \<and> ob_status r \<noteq> Queued) (h_outbound (fst s))) (used_ids s) \<and>
     list_all (\<lambda>c. list_ex (same_snapshot c) (h_outbound (fst s))) (snd s) \<and>
     list_all (\<lambda>c. list_ex (call_matches p c) (h_outbound (fst s))) (h_smtpCalls (fst s))"

lemma row_step_not_queued: "row_step r r' \<Longrightarrow> ob_status r \<noteq> Queued \<Longrightarrow> ob_status r' \<noteq> Queued"
  by (auto simp: row_step_def)

lemma call_matches_step: "row_step r r' \<Longrightarrow> call_matches p c r \<Longrightarrow> call_matches p c r'"
  by (auto simp: row_step_def same_snapshot_def call_matches_def)

lemma same_snapshot_step: "row_step r r' \<Longrightarrow> same_snapshot c r \<Longrightarrow> same_snapshot c r'"
  by (auto simp: row_step_def intro: same_snapshot_trans)

lemma table_step_list_ex:
  "table_step t t' \<Longrightarrow> list_ex P t \<Longrightarrow> (\<And>r r'. row_step r r' \<Longrightarrow> P r \<Longrightarrow> P r') \<Longrightarrow> list_ex P t'"
  using table_step_forward by (fastforce simp: list_ex_iff)

text \<open>A step of the table that leaves calls and claims alone keeps the invariant.\<close>

lemma calls_inv_table:
  assumes "calls_inv p (h, cs)" and "table_step (h_outbound h) (h_outbound h')"
    and "h_smtpCalls h' = h_smtpCalls h"
  shows "calls_inv p (h', cs)"
  using assms(1) table_step_ids [OF assms(2)] assms(3)
    table_step_list_ex [OF assms(2)] row_step_not_queued same_snapshot_step call_matches_step row_step_id
  unfolding calls_inv_def used_ids_def list_all_iff fst_conv snd_conv
  by (smt (verit, del_insts))

lemma calls_inv_append_row:
  assumes "calls_inv p (h, cs)" and "h_outbound h' = h_outbound h @ [row]"
    and "ob_id row \<notin> ob_id ` set (h_outbound h)" and "h_smtpCalls h' = h_smtpCalls h"
  shows "calls_inv p (h', cs)"
  using assms by (auto simp: calls_inv_def used_ids_def list_all_iff)

lemma calls_inv_drop:
  assumes "calls_inv p (h, cs)"
  shows "calls_inv p (h, remove1 row cs)"
proof -
  have "distinct (map ob_id (remove1 row cs))" if "distinct (map ob_id cs)"
    using that by (induction cs) (auto simp: image_iff dest: set_remove1_subset [THEN subsetD])
  with assms show ?thesis
    by (auto simp: calls_inv_def used_ids_def list_all_iff dest!: set_remove1_subset [THEN subsetD])
qed

lemma calls_inv_claim:
  assumes inv: "calls_inv p (h, cs)" and c: "claimOutbound now i h = (Some row, h')"
  shows "calls_inv p (h', row # cs)"
proof -
  from claimOutbound_frame [OF c] obtain r where ts: "table_step (h_outbound h) (h_outbound h')"
    and calls: "h_smtpCalls h' = h_smtpCalls h"
    and r: "r \<in> set (h_outbound h)" "ob_id r = i" "ob_status r = Queued" "row = mark_sending now r"
    and t: "h_outbound h' = tbl_update (\<lambda>r. ob_id r = i \<and> ob_status r = Queued) (mark_sending now) (h_outbound h)"
    by auto
  from inv ts calls have inv': "calls_inv p (h', cs)" by (rule calls_inv_table)
  have id: "ob_id row = i" and st: "ob_status row = Sending"
    using r by (simp_all add: mark_sending_def)
  have row: "row \<in> set (h_outbound h')" using r unfolding t by (force simp: in_tbl_update)
  have "i \<notin> set (used_ids (h, cs))"
  proof
    assume "i \<in> set (used_ids (h, cs))"
    with inv obtain x where "x \<in> set (h_outbound h)" "ob_id x = i" "ob_status x \<noteq> Queued"
      by (auto simp: calls_inv_def list_all_iff list_ex_iff)
    moreover have "x = r"
      using inv r calculation by (auto simp: calls_inv_def distinct_map dest: inj_onD)
    ultimately show False using r by simp
  qed
  moreover have "\<exists>x \<in> set (h_outbound h'). same_snapshot row x"
    using row by (intro bexI [of _ row]) simp_all
  ultimately show ?thesis
    using inv' id st row calls unfolding calls_inv_def used_ids_def
    by (auto simp: list_ex_iff list_all_iff)
qed

lemma prepareSubmission_submit:
  assumes "prepareSubmission p resolve row h = Prep_Submit rq bs"
  shows "rq_from rq = ob_envelopeSender row \<and> rq_to rq = ob_envelopeRecipients row \<and>
    rq_raw rq = bs \<and> sp_sha256 p bs = ob_mimeSha256 row \<and> h_durable h (ob_mimeStorageKey row) = Some bs"
  using assms
  by (auto simp: prepareSubmission_def smtp_request_of_def split: option.splits if_splits sum.splits)

lemma calls_inv_submit:
  assumes inv: "calls_inv p (h, cs)" and row: "row \<in> set cs"
    and prep: "prepareSubmission p resolve row hr = Prep_Submit rq bs"
  shows "calls_inv p (log_smtp (ob_id row) rq h, remove1 row cs)"
proof -
  have inv': "calls_inv p (h, remove1 row cs)" by (rule calls_inv_drop [OF inv])
  from inv row obtain r where r: "r \<in> set (h_outbound h)" "same_snapshot row r"
    by (auto simp: calls_inv_def list_all_iff list_ex_iff)
  with prepareSubmission_submit [OF prep] have m: "call_matches p (ob_id row, rq) r"
    by (simp add: call_matches_def same_snapshot_def)
  have fresh: "ob_id row \<notin> set (used_ids (h, remove1 row cs))"
  proof -
    from inv have d: "distinct (map ob_id cs)" and dd: "set (map fst (h_smtpCalls h)) \<inter> set (map ob_id cs) = {}"
      by (simp_all add: calls_inv_def used_ids_def)
    have "ob_id row \<notin> ob_id ` set (remove1 row cs)"
      using d row by (induction cs) (auto simp: image_iff)
    with dd row show ?thesis by (auto simp: used_ids_def)
  qed
  have nq: "\<exists>x \<in> set (h_outbound h). ob_id x = ob_id row \<and> ob_status x \<noteq> Queued"
    using inv row by (auto simp: calls_inv_def used_ids_def list_all_iff list_ex_iff)
  from inv' fresh m r nq show ?thesis
    unfolding calls_inv_def used_ids_def log_smtp_def
    by (auto simp: list_all_iff list_ex_iff)
qed

lemma run_compose_send_frame:
  "h_outbound (run_compose cp q op h) = h_outbound h \<and> h_smtpCalls (run_compose cp q op h) = h_smtpCalls h"
proof (cases op)
  case (Op_Create i now x)
  show ?thesis unfolding Op_Create run_compose.simps
    by (rule run_tx_snd_cases) (auto dest!: createDraft_success)
next
  case (Op_Create_Reply i now x)
  show ?thesis unfolding Op_Create_Reply run_compose.simps
    by (rule run_tx_snd_cases) (auto dest!: createReplyDraft_success)
next
  case (Op_Update now i x)
  show ?thesis unfolding Op_Update run_compose.simps
    by (rule run_tx_snd_cases) (auto dest!: updateDraft_frame)
next
  case (Op_Delete now i)
  show ?thesis unfolding Op_Delete run_compose.simps
    by (rule run_tx_snd_cases) (auto dest!: deleteDraft_success)
next
  case (Op_Upload i now x)
  show ?thesis unfolding Op_Upload run_compose.simps
    by (simp add: createUpload_def Let_def split: sum.split prod.split storage_error.split)
next
  case (Op_Attach i u)
  show ?thesis unfolding Op_Attach run_compose.simps
    by (rule run_tx_snd_cases) (auto dest!: attachUpload_success)
next
  case (Op_Detach i u)
  show ?thesis unfolding Op_Detach run_compose.simps
    by (rule run_tx_snd_cases) (auto dest!: detachUpload_success)
next
  case (Op_Resend i now b)
  show ?thesis unfolding Op_Resend run_compose.simps
    by (rule run_tx_snd_cases) (auto dest!: createResendDraft_success)
qed

lemma calls_inv_step:
  assumes "send_step p cp s s'" and "calls_inv p s"
  shows "calls_inv p s'"
  using assms
proof (induction rule: send_step.induct)
  case (st_queue i created gen input fz h row h' cs)
  from freeze_tx_success [OF st_queue(1)] st_queue(3) show ?case
    by (intro calls_inv_append_row [of p h cs h' row]) (auto simp: frozen_row_def Let_def)
next
  case (st_claim now i h row h' cs)
  then show ?case by (simp add: calls_inv_claim)
next
  case (st_submit row cs resolve hr rq bs h)
  then show ?case by (simp add: calls_inv_submit)
next
  case (st_drop row cs h)
  then show ?case by (simp add: calls_inv_drop)
next
  case (st_fail row f h r h' cs)
  with recordFailure_frame [OF st_fail(1)] show ?case by (blast intro: calls_inv_table)
next
  case (st_unknown row report h r h' cs)
  with recordUnknown_frame [OF st_unknown(1)] show ?case by (blast intro: calls_inv_table)
next
  case (st_accept i now row parsed a seen h r h' cs)
  with acceptance_tx_frame [OF st_accept(1,2)] show ?case by (blast intro: calls_inv_table)
next
  case (st_claim_copy now i h row h' cs)
  with claimSentCopy_frame [OF st_claim_copy(1)] show ?case by (blast intro: calls_inv_table)
next
  case (st_append h cs i log)
  then show ?case by (rule calls_inv_table) (simp_all add: log_appends_def)
next
  case (st_conclude row claimed oc h r h' cs)
  with concludeSentCopy_frame [OF st_conclude(1)] show ?case by (blast intro: calls_inv_table)
next
  case (st_note h cs row)
  with noteReconcilePass_frame [of h row] show ?case by (blast intro: calls_inv_table)
next
  case (st_hold i h b h' cs)
  with holdSending_frame [OF st_hold(1)] show ?case by (blast intro: calls_inv_table)
next
  case (st_hold_append i h b h' cs)
  with holdAppending_frame [OF st_hold_append(1)] show ?case by (blast intro: calls_inv_table)
next
  case (st_compose op h cs q)
  from st_compose(3) show ?case
    by (rule calls_inv_table) (simp_all add: run_compose_send_frame)
next
  case (st_merge h cs a b)
  with relink_replies_frame [of h a b] show ?case by (blast intro: calls_inv_table)
next
  case (st_other h' h cs)
  from st_other(4) show ?case by (rule calls_inv_table) (simp_all add: st_other)
qed

text \<open>Runs, and what one run keeps.\<close>

abbreviation send_run :: "send_ports \<Rightarrow> compose_ports \<Rightarrow> sys \<Rightarrow> sys \<Rightarrow> bool" where
  "send_run p cp \<equiv> (send_step p cp)\<^sup>*\<^sup>*"

lemma calls_inv_run: "send_run p cp s s' \<Longrightarrow> calls_inv p s \<Longrightarrow> calls_inv p s'"
  by (induction rule: rtranclp_induct) (auto intro: calls_inv_step)

section \<open>The draft lock\<close>

lemma kept_in_set_update: "r \<in> set t \<Longrightarrow> \<not> P r \<Longrightarrow> r \<in> set (tbl_update P f t)"
  by (force simp: in_tbl_update)

definition unresolved_status :: "outbound_status \<Rightarrow> bool" where
  "unresolved_status s \<longleftrightarrow> s \<in> {Queued, Sending, Outcome_Unknown}"

definition holds_lock :: "outbound_row \<Rightarrow> draft_row \<Rightarrow> bool" where
  "holds_lock r d \<longleftrightarrow>
     unresolved_status (ob_status r) \<and> ob_draftId r = Some (dr_id d) \<and>
     dr_lockedBySend d = Some (ob_id r)"

definition lock_inv :: "hub \<Rightarrow> bool" where
  "lock_inv h \<longleftrightarrow>
     distinct (map dr_id (h_drafts h)) \<and> distinct (map ob_id (h_outbound h)) \<and>
     list_all (\<lambda>d. pg_uuid (dr_id d) = dr_id d) (h_drafts h) \<and>
     list_all (\<lambda>r. pg_uuid (ob_id r) = ob_id r) (h_outbound h) \<and>
     list_all (\<lambda>d. dr_lockedBySend d = None \<or> list_ex (\<lambda>r. holds_lock r d) (h_outbound h)) (h_drafts h) \<and>
     list_all (\<lambda>r. \<not> unresolved_status (ob_status r) \<or> list_ex (holds_lock r) (h_drafts h)) (h_outbound h)"

text \<open>The table changed, but no row's resolution did.\<close>

definition keeps_resolution :: "outbound_row \<Rightarrow> outbound_row \<Rightarrow> bool" where
  "keeps_resolution r r' \<longleftrightarrow>
     same_snapshot r r' \<and> unresolved_status (ob_status r') = unresolved_status (ob_status r)"

lemma holds_lock_keep: "keeps_resolution r r' \<Longrightarrow> holds_lock r' d = holds_lock r d"
  by (auto simp: keeps_resolution_def holds_lock_def same_snapshot_def)

lemma keeps_ids: "list_all2 keeps_resolution t t' \<Longrightarrow> map ob_id t' = map ob_id t"
  by (induction rule: list_all2_induct) (auto simp: keeps_resolution_def same_snapshot_def)

lemma keeps_forward: "list_all2 keeps_resolution t t' \<Longrightarrow> r \<in> set t \<Longrightarrow> \<exists>r' \<in> set t'. keeps_resolution r r'"
  by (induction rule: list_all2_induct) auto

lemma keeps_backward: "list_all2 keeps_resolution t t' \<Longrightarrow> r' \<in> set t' \<Longrightarrow> \<exists>r \<in> set t. keeps_resolution r r'"
  by (induction rule: list_all2_induct) auto

lemma keeps_canonical:
  "list_all2 keeps_resolution t t' \<Longrightarrow> list_all (\<lambda>r. pg_uuid (ob_id r) = ob_id r) t' =
     list_all (\<lambda>r. pg_uuid (ob_id r) = ob_id r) t"
  by (induction rule: list_all2_induct) (auto simp: keeps_resolution_def same_snapshot_def)

lemma lock_inv_keep:
  assumes inv: "lock_inv h" and d: "h_drafts h' = h_drafts h"
    and t: "list_all2 keeps_resolution (h_outbound h) (h_outbound h')"
  shows "lock_inv h'"
proof -
  have "list_ex (\<lambda>r. holds_lock r x) (h_outbound h')" if "list_ex (\<lambda>r. holds_lock r x) (h_outbound h)" for x
    using that keeps_forward [OF t] holds_lock_keep by (fastforce simp: list_ex_iff)
  moreover have "\<not> unresolved_status (ob_status r') \<or> list_ex (holds_lock r') (h_drafts h)"
    if "r' \<in> set (h_outbound h')" for r'
  proof -
    from keeps_backward [OF t that] obtain r where "r \<in> set (h_outbound h)" and k: "keeps_resolution r r'"
      by blast
    with inv have "\<not> unresolved_status (ob_status r) \<or> list_ex (holds_lock r) (h_drafts h)"
      by (auto simp: lock_inv_def list_all_iff)
    with k holds_lock_keep [OF k] show ?thesis by (auto simp: keeps_resolution_def list_ex_iff)
  qed
  ultimately show ?thesis
    using inv d keeps_ids [OF t] keeps_canonical [OF t] by (auto simp: lock_inv_def list_all_iff)
qed

lemma keeps_of_status:
  assumes "table_step t t'" and "map ob_status t' = map ob_status t"
  shows "list_all2 keeps_resolution t t'"
  using assms unfolding table_step_def
proof (induction rule: list_all2_induct)
  case (Cons x xs y ys)
  then show ?case by (auto simp: keeps_resolution_def row_step_def)
qed simp

lemma keeps_of_update:
  "(\<And>r. P r \<Longrightarrow> keeps_resolution r (f r)) \<Longrightarrow> list_all2 keeps_resolution t (tbl_update P f t)"
  by (induction t) (auto simp: keeps_resolution_def)

text \<open>A row reached a definitive status, and its draft was released with it.\<close>

lemma lock_inv_resolve:
  assumes inv: "lock_inv h" and t: "table_step (h_outbound h) (h_outbound h')"
    and upd: "h_outbound h' = tbl_update (\<lambda>x. ob_id x = i \<and> ob_status x = s) f (h_outbound h)"
    and d: "h_drafts h' = tbl_update (\<lambda>d. dr_lockedBySend d = Some (pg_uuid i))
      (\<lambda>d. d\<lparr>dr_lockedBySend := None\<rparr>) (h_drafts h)"
    and x: "find (\<lambda>r. ob_id r = pg_uuid i) (h_outbound h') = Some x" and st: "\<not> unresolved_status (ob_status x)"
  shows "lock_inv h'"
proof -
  from inv have dist: "distinct (map ob_id (h_outbound h))" by (simp add: lock_inv_def)
  then have dist': "distinct (map ob_id (h_outbound h'))" using table_step_ids [OF t] by simp
  from find_in_set [OF x] have xin: "x \<in> set (h_outbound h')" and xid: "ob_id x = pg_uuid i" by auto
  have other: "ob_id r \<noteq> pg_uuid i" if "r \<in> set (h_outbound h')" "unresolved_status (ob_status r)" for r
    using find_key_eq_unique [OF dist' x that(1)] that(2) st by auto
  have canon: "list_all (\<lambda>r. pg_uuid (ob_id r) = ob_id r) (h_outbound h')"
    using inv table_step_backward [OF t] row_step_id by (fastforce simp: lock_inv_def list_all_iff)
  have same: "r \<in> set (h_outbound h)" if "r \<in> set (h_outbound h')" "ob_id r \<noteq> pg_uuid i" for r
  proof -
    from that(1) obtain y where y: "y \<in> set (h_outbound h)" "r = (if ob_id y = i \<and> ob_status y = s then f y else y)"
      unfolding upd in_tbl_update by blast
    moreover have "row_step y (f y)" if "ob_id y = i" "ob_status y = s"
    proof -
      have "f y \<in> set (h_outbound h')" unfolding upd in_tbl_update using y that by (intro bexI [of _ y]) auto
      moreover have "list_all2 row_step (h_outbound h) (tbl_update (\<lambda>x. ob_id x = i \<and> ob_status x = s) f (h_outbound h))"
        using t upd by (simp add: table_step_def)
      ultimately show ?thesis
        using y(1) that
        by (auto simp: tbl_update_def list_all2_map2 list_all2_same)
    qed
    ultimately show ?thesis
      using that(2) row_step_id [of y "f y"] inv by (auto simp: lock_inv_def list_all_iff split: if_splits)
  qed
  have drafts: "list_all (\<lambda>d. dr_lockedBySend d = None \<or> list_ex (\<lambda>r. holds_lock r d) (h_outbound h')) (h_drafts h')"
  proof (unfold list_all_iff, intro ballI)
    fix e assume "e \<in> set (h_drafts h')"
    then obtain e0 where e0: "e0 \<in> set (h_drafts h)"
      and e: "e = (if dr_lockedBySend e0 = Some (pg_uuid i) then e0\<lparr>dr_lockedBySend := None\<rparr> else e0)"
      unfolding d in_tbl_update by blast
    show "dr_lockedBySend e = None \<or> list_ex (\<lambda>r. holds_lock r e) (h_outbound h')"
    proof (cases "dr_lockedBySend e")
      case (Some j)
      with e have ne: "e = e0" "j \<noteq> pg_uuid i" by (auto split: if_splits)
      with e0 inv Some obtain r where r: "r \<in> set (h_outbound h)" "holds_lock r e"
        by (auto simp: lock_inv_def list_all_iff list_ex_iff)
      with Some ne have "ob_id r \<noteq> i" using inv by (auto simp: holds_lock_def lock_inv_def list_all_iff)
      with r(1) have "r \<in> set (h_outbound h')" unfolding upd by (intro kept_in_set_update) auto
      with r show ?thesis by (auto simp: list_ex_iff)
    qed simp
  qed
  have rows: "list_all (\<lambda>r. \<not> unresolved_status (ob_status r) \<or> list_ex (holds_lock r) (h_drafts h')) (h_outbound h')"
  proof (unfold list_all_iff, intro ballI)
    fix r assume r: "r \<in> set (h_outbound h')"
    show "\<not> unresolved_status (ob_status r) \<or> list_ex (holds_lock r) (h_drafts h')"
    proof (cases "unresolved_status (ob_status r)")
      case True
      with other [OF r] have ne: "ob_id r \<noteq> pg_uuid i" by blast
      with same [OF r] True inv obtain e where e: "e \<in> set (h_drafts h)" "holds_lock r e"
        by (auto simp: lock_inv_def list_all_iff list_ex_iff)
      with ne have "e \<in> set (h_drafts h')"
        unfolding d by (intro kept_in_set_update) (auto simp: holds_lock_def)
      with e show ?thesis by (auto simp: list_ex_iff)
    qed simp
  qed
  have "map dr_id (h_drafts h') = map dr_id (h_drafts h)"
    unfolding d by (rule map_tbl_update_frame) simp
  moreover have "list_all (\<lambda>d. pg_uuid (dr_id d) = dr_id d) (h_drafts h')"
    using inv unfolding d by (auto simp: lock_inv_def list_all_iff in_tbl_update)
  ultimately show ?thesis
    using drafts rows dist' canon inv by (simp add: lock_inv_def)
qed

lemma lock_inv_freeze:
  assumes inv: "lock_inv h" and f: "freeze_tx p i created gen input fz h = Inr (row, h')"
    and can: "canonical_id i"
  shows "lock_inv h'"
proof -
  let ?d = "dr_id (fz_draft fz)"
  note fr = freeze_tx_success [OF f]
  from fr obtain d where d: "d \<in> set (h_drafts h)" "dr_id d = ?d" "dr_lockedBySend d = None" by blast
  with inv have canon_d: "pg_uuid ?d = ?d" by (auto simp: lock_inv_def list_all_iff)
  from inv have dist: "distinct (map dr_id (h_drafts h))" by (simp add: lock_inv_def)
  have find_d: "find (\<lambda>x. dr_id x = ?d) (h_drafts h) = Some d"
    using find_by_key_unique [OF dist d(1)] d(2) by simp
  have row: "ob_id row = i" "ob_status row = Queued" "ob_draftId row = Some ?d"
    using fr by (simp_all add: frozen_row_def Let_def)
  have out: "h_outbound h' = h_outbound h @ [row]" and new: "i \<notin> ob_id ` set (h_outbound h)"
    using fr by simp_all
  have drafts: "h_drafts h' = tbl_update (\<lambda>x. dr_id x = ?d) (\<lambda>x. x\<lparr>dr_lockedBySend := Some i\<rparr>) (h_drafts h)"
    using fr find_d d(3) by (simp add: canon_d)
  have only: "e = d" if "e \<in> set (h_drafts h)" "dr_id e = ?d" for e
    using find_key_eq_unique [OF dist find_d that] by simp
  have hold: "holds_lock row (d\<lparr>dr_lockedBySend := Some i\<rparr>)"
    by (simp add: holds_lock_def row d(2) unresolved_status_def)
  have "list_all (\<lambda>e. dr_lockedBySend e = None \<or> list_ex (\<lambda>r. holds_lock r e) (h_outbound h')) (h_drafts h')"
  proof (unfold list_all_iff, intro ballI)
    fix e assume "e \<in> set (h_drafts h')"
    then obtain e0 where e0: "e0 \<in> set (h_drafts h)"
      and e: "e = (if dr_id e0 = ?d then e0\<lparr>dr_lockedBySend := Some i\<rparr> else e0)"
      unfolding drafts in_tbl_update by blast
    show "dr_lockedBySend e = None \<or> list_ex (\<lambda>r. holds_lock r e) (h_outbound h')"
    proof (cases "dr_id e0 = ?d")
      case True
      with only [OF e0] e hold out show ?thesis by (auto simp: list_ex_iff)
    next
      case False
      with e e0 inv out show ?thesis by (auto simp: lock_inv_def list_all_iff list_ex_iff)
    qed
  qed
  moreover have "list_all (\<lambda>r. \<not> unresolved_status (ob_status r) \<or> list_ex (holds_lock r) (h_drafts h')) (h_outbound h')"
  proof (unfold list_all_iff, intro ballI)
    fix r assume "r \<in> set (h_outbound h')"
    then consider "r = row" | "r \<in> set (h_outbound h)" using out by auto
    then show "\<not> unresolved_status (ob_status r) \<or> list_ex (holds_lock r) (h_drafts h')"
    proof cases
      case 1
      have "d\<lparr>dr_lockedBySend := Some i\<rparr> \<in> set (h_drafts h')"
        unfolding drafts in_tbl_update using d by (intro bexI [of _ d]) auto
      with 1 hold show ?thesis by (auto simp: list_ex_iff)
    next
      case 2
      show ?thesis
      proof (cases "unresolved_status (ob_status r)")
        case True
        with 2 inv obtain e where e: "e \<in> set (h_drafts h)" "holds_lock r e"
          by (auto simp: lock_inv_def list_all_iff list_ex_iff)
        then have "dr_id e \<noteq> ?d" using only [OF e(1)] d(3) by (auto simp: holds_lock_def)
        with e have "e \<in> set (h_drafts h')" unfolding drafts by (intro kept_in_set_update) auto
        with e show ?thesis by (auto simp: list_ex_iff)
      qed simp
    qed
  qed
  moreover have "map dr_id (h_drafts h') = map dr_id (h_drafts h)"
    unfolding drafts by (rule map_tbl_update_frame) simp
  moreover have "list_all (\<lambda>d. pg_uuid (dr_id d) = dr_id d) (h_drafts h')"
    using inv canon_d unfolding drafts by (auto simp: lock_inv_def list_all_iff in_tbl_update)
  moreover have "distinct (map ob_id (h_outbound h'))"
    using inv new row(1) by (simp add: out lock_inv_def)
  moreover have "list_all (\<lambda>r. pg_uuid (ob_id r) = ob_id r) (h_outbound h')"
    using inv row(1) can by (simp add: out lock_inv_def canonical_id_def pg_uuid_def)
  ultimately show ?thesis using dist by (simp add: lock_inv_def)
qed

lemma drafts_step_locks:
  assumes "drafts_step ds ds'" and "e \<in> set ds'" and "dr_lockedBySend e = Some j"
  shows "\<exists>d \<in> set ds. dr_id d = dr_id e \<and> dr_lockedBySend d = Some j"
  using assms(1) unfolding drafts_step_def
proof (elim disjE exE conjE, goal_cases)
  case 1
  with assms show ?case by blast
next
  case (2 row)
  with assms show ?case by auto
next
  case (3 P f)
  from assms(2) obtain d where d: "d \<in> set ds" "e = (if P d then f d else d)"
    unfolding 3 in_tbl_update by blast
  with 3 assms(3) show ?case by (intro bexI [of _ d]) (auto split: if_splits)
qed

lemma drafts_step_forward_lock:
  assumes "drafts_step ds ds'" and "d \<in> set ds"
  shows "\<exists>e \<in> set ds'. dr_id e = dr_id d \<and> dr_lockedBySend e = dr_lockedBySend d"
proof -
  have "(if P d then f d else d) \<in> set (tbl_update P f ds)" for P f
    using assms(2) by (auto simp: in_tbl_update)
  with assms show ?thesis unfolding drafts_step_def by (smt (verit) Un_iff set_append)
qed

lemma run_compose_canonical:
  assumes "list_all (\<lambda>d. pg_uuid (dr_id d) = dr_id d) (h_drafts h)" and "fresh_for op h"
    and "case op_id op of None \<Rightarrow> True | Some i \<Rightarrow> canonical_id i"
    and "distinct (map dr_id (h_drafts h))"
  shows "list_all (\<lambda>d. pg_uuid (dr_id d) = dr_id d) (h_drafts (run_compose cp q op h))"
proof -
  let ?Q = "\<lambda>h'. list_all (\<lambda>d. pg_uuid (dr_id d) = dr_id d) (h_drafts h')"
  have app: "?Q h'" if "h_drafts h' = h_drafts h @ [row]" "dr_id row = i" "canonical_id i" for h' row i
    using that assms(1) by (simp add: canonical_id_def pg_uuid_def)
  have upd: "?Q h'" if "h_drafts h' = tbl_update P f (h_drafts h)"
    "\<And>d. P d \<Longrightarrow> d \<in> set (h_drafts h) \<Longrightarrow> dr_id (f d) = dr_id d" for h' P f
    using that assms(1) by (auto simp: list_all_iff in_tbl_update)
  show ?thesis
  proof (cases op)
    case (Op_Create i now x)
    then have c: "canonical_id i" using assms(3) by simp
    have "?Q h'" if "createDraft cp i now q x h = Inr (r, h')" for r h'
    proof -
      from createDraft_success [OF that] obtain row where "h_drafts h' = h_drafts h @ [row]" "dr_id row = i"
        by auto
      then show ?thesis using c by (rule app)
    qed
    then show ?thesis unfolding Op_Create run_compose.simps using assms(1) by (rule run_tx_snd_cases)
  next
    case (Op_Create_Reply i now x)
    then have c: "canonical_id i" using assms(3) by simp
    have "?Q h'" if "createReplyDraft cp i now q x h = Inr (r, h')" for r h'
    proof -
      from createReplyDraft_success [OF that] obtain row where "h_drafts h' = h_drafts h @ [row]" "dr_id row = i"
        by auto
      then show ?thesis using c by (rule app)
    qed
    then show ?thesis unfolding Op_Create_Reply run_compose.simps using assms(1) by (rule run_tx_snd_cases)
  next
    case (Op_Update now i x)
    have "?Q h'" if "updateDraft cp now q i x h = Inr (r, h')" for r h'
    proof -
      from updateDraft_frame [OF that] obtain nxt where "h' = h \<or> dr_id nxt = pg_uuid i \<and>
          h_drafts h' = tbl_update (\<lambda>y. dr_id y = pg_uuid i) (\<lambda>_. nxt) (h_drafts h)" by fastforce
      then show ?thesis using assms(1) upd [of h' "\<lambda>y. dr_id y = pg_uuid i" "\<lambda>_. nxt"] by auto
    qed
    then show ?thesis unfolding Op_Update run_compose.simps using assms(1) by (rule run_tx_snd_cases)
  next
    case (Op_Delete now i)
    have "?Q h'" if "deleteDraft cp now q i h = Inr (r, h')" for r h'
    proof -
      from deleteDraft_success [OF that] have "h_drafts h' = tbl_update (\<lambda>y. dr_id y = pg_uuid i)
          (\<lambda>y. y\<lparr>dr_deletedAt := Some now\<rparr>) (h_drafts h)" by auto
      then show ?thesis by (rule upd) simp
    qed
    then show ?thesis unfolding Op_Delete run_compose.simps using assms(1) by (rule run_tx_snd_cases)
  next
    case (Op_Upload i now x)
    show ?thesis using createUpload_state [of i h cp now q x] assms(1)
      by (simp add: Op_Upload upload_step_def)
  next
    case (Op_Attach i u)
    show ?thesis unfolding Op_Attach run_compose.simps
      by (rule run_tx_snd_cases) (use assms(1) in \<open>auto dest!: attachUpload_success\<close>)
  next
    case (Op_Detach i u)
    show ?thesis unfolding Op_Detach run_compose.simps
      by (rule run_tx_snd_cases) (use assms(1) in \<open>auto dest!: detachUpload_success\<close>)
  next
    case (Op_Resend i now b)
    then have c: "canonical_id i" using assms(3) by simp
    have "?Q h'" if "createResendDraft cp i now q b h = Inr (r, h')" for r h'
    proof -
      from createResendDraft_success [OF that] obtain row where "h_drafts h' = h_drafts h @ [row]" "dr_id row = i"
        by auto
      then show ?thesis using c by (rule app)
    qed
    then show ?thesis unfolding Op_Resend run_compose.simps using assms(1) by (rule run_tx_snd_cases)
  qed
qed

lemma lock_inv_compose:
  assumes inv: "lock_inv h" and fresh: "fresh_for op h"
    and can: "case op_id op of None \<Rightarrow> True | Some i \<Rightarrow> canonical_id i"
  shows "lock_inv (run_compose cp q op h)"
proof -
  let ?h = "run_compose cp q op h"
  from inv have dist: "distinct (map dr_id (h_drafts h))" by (simp add: lock_inv_def)
  have st: "drafts_step (h_drafts h) (h_drafts ?h)" by (rule run_compose_drafts_step [OF dist fresh])
  have out: "h_outbound ?h = h_outbound h" using run_compose_send_frame by simp
  have canon: "list_all (\<lambda>d. pg_uuid (dr_id d) = dr_id d) (h_drafts ?h)"
    using inv run_compose_canonical [OF _ fresh can dist] by (simp add: lock_inv_def)
  have "list_all (\<lambda>e. dr_lockedBySend e = None \<or> list_ex (\<lambda>r. holds_lock r e) (h_outbound ?h)) (h_drafts ?h)"
  proof (unfold list_all_iff, intro ballI)
    fix e assume e: "e \<in> set (h_drafts ?h)"
    show "dr_lockedBySend e = None \<or> list_ex (\<lambda>r. holds_lock r e) (h_outbound ?h)"
    proof (cases "dr_lockedBySend e")
      case (Some j)
      from drafts_step_locks [OF st e Some] obtain d where "d \<in> set (h_drafts h)" "dr_id d = dr_id e"
        "dr_lockedBySend d = Some j" by blast
      with inv Some out show ?thesis
        by (fastforce simp: lock_inv_def list_all_iff list_ex_iff holds_lock_def)
    qed simp
  qed
  moreover have "list_all (\<lambda>r. \<not> unresolved_status (ob_status r) \<or> list_ex (holds_lock r) (h_drafts ?h)) (h_outbound ?h)"
  proof (unfold list_all_iff out, intro ballI)
    fix r assume "r \<in> set (h_outbound h)"
    with inv have "\<not> unresolved_status (ob_status r) \<or> list_ex (holds_lock r) (h_drafts h)"
      by (auto simp: lock_inv_def list_all_iff)
    then show "\<not> unresolved_status (ob_status r) \<or> list_ex (holds_lock r) (h_drafts ?h)"
      using drafts_step_forward_lock [OF st] by (fastforce simp: list_ex_iff holds_lock_def)
  qed
  ultimately show ?thesis
    using inv canon drafts_step_distinct [OF st dist] by (simp add: lock_inv_def out)
qed

lemma lock_inv_map_drafts:
  assumes "lock_inv h"
    and g: "\<And>d. dr_id (g d) = dr_id d \<and> dr_lockedBySend (g d) = dr_lockedBySend d"
  shows "lock_inv (h\<lparr>h_drafts := map g (h_drafts h)\<rparr>)"
proof -
  have "holds_lock r (g d) = holds_lock r d" for r d by (simp add: holds_lock_def g)
  then show ?thesis using assms(1) by (simp add: lock_inv_def list_all_iff list_ex_iff g o_def)
qed

lemma lock_inv_relink:
  assumes "lock_inv h"
  shows "lock_inv (relink_replies a b h)"
proof -
  let ?g = "h\<lparr>h_outbound := h_outbound (relink_replies a b h)\<rparr>"
  let ?f = "\<lambda>d. if dr_replyParentId d = Some a then d\<lparr>dr_replyParentId := Some b\<rparr> else d"
  have "lock_inv ?g"
    using lock_inv_keep [OF assms, of ?g] relink_replies_frame [of h a b]
      keeps_of_status [of "h_outbound h" "h_outbound (relink_replies a b h)"] by simp
  then have "lock_inv (?g\<lparr>h_drafts := map ?f (h_drafts ?g)\<rparr>)" by (rule lock_inv_map_drafts) simp
  moreover have "?g\<lparr>h_drafts := map ?f (h_drafts ?g)\<rparr> = relink_replies a b h"
    by (simp add: relink_replies_def tbl_update_def)
  ultimately show ?thesis by simp
qed

lemma lock_inv_step:
  assumes "send_step p cp s s'" and "lock_inv (fst s)"
  shows "lock_inv (fst s')"
  using assms
proof (induction rule: send_step.induct)
  case (st_queue i created gen input fz h row h' cs)
  then show ?case by (simp add: lock_inv_freeze)
next
  case (st_claim now i h row h' cs)
  have "list_all2 keeps_resolution (h_outbound h) (h_outbound h')"
    unfolding claimOutbound_frame [OF st_claim(1), THEN conjunct2, THEN conjunct2, THEN conjunct2, THEN conjunct1]
    by (rule keeps_of_update)
       (simp add: keeps_resolution_def same_snapshot_def mark_sending_def unresolved_status_def)
  with st_claim(2) claimOutbound_frame [OF st_claim(1)] show ?case by (auto intro: lock_inv_keep)
next
  case (st_submit row cs resolve hr rq bs h)
  then show ?case by (simp add: log_smtp_def lock_inv_def)
next
  case (st_drop row cs h)
  then show ?case by simp
next
  case (st_fail row f h r h' cs)
  note fr = recordFailure_frame [OF st_fail(1)]
  from fr obtain x where "find (\<lambda>r. ob_id r = pg_uuid (ob_id row)) (h_outbound h') = Some x"
    "\<not> unresolved_status (ob_status x)" by (auto simp: unresolved_status_def)
  with fr st_fail(2) show ?case by (auto intro: lock_inv_resolve [of h h' "ob_id row" Sending "failed_row f"])
next
  case (st_unknown row report h r h' cs)
  have "list_all2 keeps_resolution (h_outbound h) (h_outbound h')"
    unfolding recordUnknown_frame [OF st_unknown(1), THEN conjunct2, THEN conjunct2, THEN conjunct2]
    by (rule keeps_of_update)
       (simp add: keeps_resolution_def same_snapshot_def unknown_row_def unresolved_status_def)
  with st_unknown(2) recordUnknown_frame [OF st_unknown(1)] show ?case by (auto intro: lock_inv_keep)
next
  case (st_accept i now row parsed a seen h r h' cs)
  note fr = acceptance_tx_frame [OF st_accept(1,2)]
  from fr obtain x m where "find (\<lambda>r. ob_id r = pg_uuid (ob_id row)) (h_outbound h') = Some x"
    "\<not> unresolved_status (ob_status x)"
    "h_outbound h' = tbl_update (\<lambda>x. ob_id x = ob_id row \<and> ob_status x = am_fromStatus a)
        (accepted_row m now a) (h_outbound h)" by (auto simp: unresolved_status_def)
  with fr st_accept(3) show ?case
    by (auto intro: lock_inv_resolve [of h h' "ob_id row" "am_fromStatus a" "accepted_row m now a"])
next
  case (st_claim_copy now i h row h' cs)
  with lock_inv_keep [of h h'] keeps_of_status [of "h_outbound h" "h_outbound h'"]
    claimSentCopy_frame [OF st_claim_copy(1)] show ?case by simp
next
  case (st_append h cs i log)
  then show ?case by (simp add: log_appends_def lock_inv_def)
next
  case (st_conclude row claimed oc h r h' cs)
  with lock_inv_keep [of h h'] keeps_of_status [of "h_outbound h" "h_outbound h'"]
    concludeSentCopy_frame [OF st_conclude(1)] show ?case by simp
next
  case (st_note h cs row)
  with lock_inv_keep [of h "noteReconcilePass row h"] noteReconcilePass_frame [of h row]
    keeps_of_status [of "h_outbound h" "h_outbound (noteReconcilePass row h)"]
  show ?case by simp
next
  case (st_hold i h b h' cs)
  have "list_all2 keeps_resolution (h_outbound h) (h_outbound h')"
    unfolding holdSending_frame [OF st_hold(1), THEN conjunct2, THEN conjunct2, THEN conjunct2]
    by (rule keeps_of_update)
       (simp add: keeps_resolution_def same_snapshot_def held_send_def unresolved_status_def)
  with st_hold(2) holdSending_frame [OF st_hold(1)] show ?case by (auto intro: lock_inv_keep)
next
  case (st_hold_append i h b h' cs)
  with lock_inv_keep [of h h'] keeps_of_status [of "h_outbound h" "h_outbound h'"]
    holdAppending_frame [OF st_hold_append(1)] show ?case by simp
next
  case (st_compose op h cs q)
  then show ?case by (simp add: lock_inv_compose)
next
  case (st_merge h cs a b)
  then show ?case by (simp add: lock_inv_relink)
next
  case (st_other h' h cs)
  then show ?case by (simp add: lock_inv_def)
qed

lemma lock_inv_run: "send_run p cp s s' \<Longrightarrow> lock_inv (fst s) \<Longrightarrow> lock_inv (fst s')"
  by (induction rule: rtranclp_induct) (auto intro: lock_inv_step)

text \<open>Every row of a state lives on, with its snapshot, along every run.\<close>

definition status_path :: "outbound_status \<Rightarrow> outbound_status \<Rightarrow> bool" where
  "status_path s s' \<longleftrightarrow>
     s' = s \<or> s = Queued \<or> (s = Sending \<and> s' \<noteq> Queued) \<or> (s = Outcome_Unknown \<and> s' = Sent)"

lemma status_path_move: "status_path s s' \<Longrightarrow> status_move s' s'' \<Longrightarrow> status_path s s''"
  by (auto simp: status_path_def status_move_simps)

lemma send_step_rows:
  assumes "send_step p cp s s'" and "r \<in> set (h_outbound (fst s))"
  shows "\<exists>r' \<in> set (h_outbound (fst s')). row_step r r'"
  using assms
proof (induction rule: send_step.induct)
  case (st_queue i created gen input fz h row h' cs)
  with freeze_tx_success [OF st_queue(1)] show ?case by (intro bexI [of _ r]) auto
next
  case (st_claim now i h row h' cs)
  with table_step_forward claimOutbound_frame [OF st_claim(1)] show ?case by auto
next
  case (st_fail row f h r' h' cs)
  with table_step_forward recordFailure_frame [OF st_fail(1)] show ?case by auto
next
  case (st_unknown row report h r' h' cs)
  with table_step_forward recordUnknown_frame [OF st_unknown(1)] show ?case by auto
next
  case (st_accept i now row parsed a seen h r' h' cs)
  with table_step_forward acceptance_tx_frame [OF st_accept(1,2)] show ?case by auto
next
  case (st_claim_copy now i h row h' cs)
  with table_step_forward claimSentCopy_frame [OF st_claim_copy(1)] show ?case by auto
next
  case (st_conclude row claimed oc h r' h' cs)
  with table_step_forward concludeSentCopy_frame [OF st_conclude(1)] show ?case by auto
next
  case (st_note h cs row)
  with table_step_forward noteReconcilePass_frame [of h row] show ?case by auto
next
  case (st_hold i h b h' cs)
  with table_step_forward holdSending_frame [OF st_hold(1)] show ?case by auto
next
  case (st_hold_append i h b h' cs)
  with table_step_forward holdAppending_frame [OF st_hold_append(1)] show ?case by auto
next
  case (st_submit row cs resolve hr rq bs h)
  then show ?case by (intro bexI [of _ r]) (simp_all add: log_smtp_def)
next
  case (st_drop row cs h)
  then show ?case by (intro bexI [of _ r]) simp_all
next
  case (st_append h cs i log)
  then show ?case by (intro bexI [of _ r]) (simp_all add: log_appends_def)
next
  case (st_compose op h cs q)
  then show ?case by (intro bexI [of _ r]) (simp_all add: run_compose_send_frame)
next
  case (st_merge h cs a b)
  with table_step_forward relink_replies_frame [of h a b] show ?case by auto
next
  case (st_other h' h cs)
  then show ?case by (intro bexI [of _ r]) simp_all
qed

lemma send_run_rows:
  assumes "send_run p cp s s'" and "r \<in> set (h_outbound (fst s))"
  shows "\<exists>r' \<in> set (h_outbound (fst s')). same_snapshot r r' \<and> status_path (ob_status r) (ob_status r')"
  using assms
proof (induction rule: rtranclp_induct)
  case base
  then show ?case by (auto simp: status_path_def intro: same_snapshot_refl)
next
  case (step y z)
  then obtain r1 where r1: "r1 \<in> set (h_outbound (fst y))" "same_snapshot r r1"
    "status_path (ob_status r) (ob_status r1)" by blast
  from send_step_rows [OF step(2) r1(1)] obtain r2 where "r2 \<in> set (h_outbound (fst z))"
    "row_step r1 r2" by blast
  with r1 show ?case
    by (auto simp: row_step_def intro: same_snapshot_trans status_path_move)
qed

section \<open>A concrete send\<close>

definition demo_bytes :: bytes where "demo_bytes = [114, 97, 119]"

definition demo_credentials :: smtp_credentials where
  "demo_credentials = \<lparr>cr_host = ''smtp.x.org'', cr_port = 465, cr_security = Implicit_Tls,
     cr_username = ''me'', cr_password = ''pw''\<rparr>"

definition demo_send :: send_ports where
  "demo_send =
     \<lparr>sp_controls = demo_controls, sp_sha256 = map (\<lambda>w. char_of (unat w)), sp_hashJson = (\<lambda>_. ''rh''),
      sp_put = (\<lambda>_ b. Inr \<lparr>so_sha256 = map (\<lambda>w. char_of (unat w)) b,
                             so_sizeBytes = int (length b), so_bytes = b\<rparr>),
      sp_submit = Some (\<lambda>_. Inr \<lparr>su_state = Accepted, su_response = Some ''250 ok'',
                        su_responseCode = Some 250, su_recipients = [], su_error = None\<rparr>),
      sp_resolveCredentials = Some (\<lambda>_. Inr demo_credentials),
      sp_openSentCopy = None, sp_renderMarkdown = (\<lambda>m. m),
      sp_composeMime = (\<lambda>_. Some demo_bytes),
      sp_parseMime = (\<lambda>_. Inr \<lparr>pm_messageId = None, pm_sentAt = Some 5, pm_attachments = []\<rparr>),
      sp_makeSnippet = (\<lambda>m. Some m), sp_normalizeIndexText = to_lower,
      sp_sanitizerVersion = ''v1''\<rparr>"

text \<open>One queued send, its draft locked, its bytes stored.\<close>

definition queued_hub :: hub where
  "queued_hub = ready_hub\<lparr>h_outbound := [demo_outbound],
     h_drafts := [demo_draft\<lparr>dr_lockedBySend := Some demo_outbound_id\<rparr>],
     h_durable := [''outbound/m1'' \<mapsto> demo_bytes]\<rparr>"

lemma queued_hub_tables [simp]:
  "h_outbound queued_hub = [demo_outbound]" "h_smtpCalls queued_hub = []"
  "h_drafts queued_hub = [demo_draft\<lparr>dr_lockedBySend := Some demo_outbound_id\<rparr>]"
  "h_durable queued_hub ''outbound/m1'' = Some demo_bytes"
  "h_serviceState queued_hub = h_serviceState ready_hub"
  by (simp_all add: queued_hub_def ready_hub_def empty_hub_def)

definition demo_claimed :: outbound_row where
  "demo_claimed = mark_sending 4 demo_outbound"

lemma demo_claim: "claimOutbound 4 demo_outbound_id queued_hub =
    (Some demo_claimed, queued_hub\<lparr>h_outbound := [demo_claimed]\<rparr>)"
  by (simp add: claimOutbound_def claim_queued_def claim_first_def demo_claimed_def)
     (simp add: demo_outbound_def)

lemma demo_prepare:
  "prepareSubmission demo_send (\<lambda>_. Inr demo_credentials) demo_claimed queued_hub =
     Prep_Submit (smtp_request_of demo_credentials demo_claimed demo_bytes) demo_bytes"
proof -
  have "map (\<lambda>w. char_of (unat w)) demo_bytes = ''raw''" by (simp add: demo_bytes_def, code_simp)
  then show ?thesis
    by (simp add: prepareSubmission_def demo_claimed_def mark_sending_def demo_outbound_def demo_send_def)
qed

lemma demo_run:
  "send_run demo_send demo_ports (queued_hub, [])
     (log_smtp demo_outbound_id (smtp_request_of demo_credentials demo_claimed demo_bytes)
        (queued_hub\<lparr>h_outbound := [demo_claimed]\<rparr>), [])"
proof -
  have "send_step demo_send demo_ports (queued_hub, []) (queued_hub\<lparr>h_outbound := [demo_claimed]\<rparr>, [demo_claimed])"
    using demo_claim by (rule st_claim)
  moreover have "send_step demo_send demo_ports (queued_hub\<lparr>h_outbound := [demo_claimed]\<rparr>, [demo_claimed])
     (log_smtp (ob_id demo_claimed) (smtp_request_of demo_credentials demo_claimed demo_bytes)
        (queued_hub\<lparr>h_outbound := [demo_claimed]\<rparr>), remove1 demo_claimed [demo_claimed])"
    by (rule st_submit [OF _ demo_prepare]) simp
  moreover have "ob_id demo_claimed = demo_outbound_id"
    by (simp add: demo_claimed_def mark_sending_def demo_outbound_def)
  ultimately show ?thesis by (simp add: converse_rtranclp_into_rtranclp)
qed

section \<open>Properties\<close>

text \<open>
  C1. At most one submission: over every interleaving of any number of workers, claims, crashes,
  lease holds, retries and reconciliations, no outbound row is handed to SMTP twice. What was
  handed over is the frozen snapshot of a row that had left the queue: its envelope sender and
  recipients (blind copies included) and bytes that hash to the recorded value.
\<close>

theorem submitted_at_most_once:
  assumes "send_run p cp (h0, []) (h, cs)" and "calls_inv p (h0, [])"
  shows "distinct (map fst (h_smtpCalls h)) \<and>
    list_all (\<lambda>(i, rq). list_ex (\<lambda>r. ob_id r = i \<and> ob_status r \<noteq> Queued \<and>
        rq_from rq = ob_envelopeSender r \<and> rq_to rq = ob_envelopeRecipients r \<and>
        sp_sha256 p (rq_raw rq) = ob_mimeSha256 r) (h_outbound h)) (h_smtpCalls h)"
proof -
  have inv: "calls_inv p (h, cs)" using assms by (rule calls_inv_run)
  have "list_ex (\<lambda>r. ob_id r = i \<and> ob_status r \<noteq> Queued \<and>
        rq_from rq = ob_envelopeSender r \<and> rq_to rq = ob_envelopeRecipients r \<and>
        sp_sha256 p (rq_raw rq) = ob_mimeSha256 r) (h_outbound h)" if "(i, rq) \<in> set (h_smtpCalls h)" for i rq
  proof -
    from that have "i \<in> set (used_ids (h, cs))" by (force simp: used_ids_def)
    with inv obtain x where "x \<in> set (h_outbound h)" "ob_id x = i" "ob_status x \<noteq> Queued"
      by (auto simp: calls_inv_def list_all_iff list_ex_iff simp del: set_append)
    moreover from inv that obtain r where "r \<in> set (h_outbound h)" "call_matches p (i, rq) r"
      unfolding calls_inv_def list_all_iff list_ex_iff fst_conv by blast
    moreover have "x = r"
      using inv calculation by (auto simp: calls_inv_def distinct_map call_matches_def dest: inj_onD)
    ultimately show ?thesis by (auto simp: list_ex_iff call_matches_def)
  qed
  with inv show ?thesis by (auto simp: calls_inv_def used_ids_def list_all_iff)
qed

theorem submitted_at_most_once_witness:
  "map fst (h_smtpCalls (log_smtp demo_outbound_id
      (smtp_request_of demo_credentials demo_claimed demo_bytes)
      (queued_hub\<lparr>h_outbound := [demo_claimed]\<rparr>))) = [demo_outbound_id] \<and>
   distinct (map fst (h_smtpCalls (log_smtp demo_outbound_id
      (smtp_request_of demo_credentials demo_claimed demo_bytes)
      (queued_hub\<lparr>h_outbound := [demo_claimed]\<rparr>))))"
proof -
  have "calls_inv demo_send (queued_hub, [])" by (simp add: calls_inv_def used_ids_def)
  from submitted_at_most_once [OF demo_run this] show ?thesis by (simp add: log_smtp_def)
qed

text \<open>
  C4. The draft lock follows the send: along every run, a draft is locked by a send exactly
  while that send of it is queued, sending or of unknown outcome. So an unresolved send never
  loses its lock, a resolved one never keeps it, and no lock is left without its owner.
\<close>

theorem draft_lock_follows_send:
  assumes "send_run p cp (h0, cs0) (h, cs)" and "lock_inv h0"
    and "d \<in> set (h_drafts h)" and "r \<in> set (h_outbound h)"
  shows "(dr_lockedBySend d = Some (ob_id r) \<longleftrightarrow>
      ob_draftId r = Some (dr_id d) \<and> ob_status r \<in> {Queued, Sending, Outcome_Unknown}) \<and>
    (\<forall>i. dr_lockedBySend d = Some i \<longrightarrow> i \<in> ob_id ` set (h_outbound h))"
proof -
  have inv: "lock_inv h" using lock_inv_run [OF assms(1)] assms(2) by simp
  have rows: "x = y" if "x \<in> set (h_outbound h)" "y \<in> set (h_outbound h)" "ob_id x = ob_id y" for x y
    using inv that by (auto simp: lock_inv_def distinct_map dest: inj_onD)
  have drafts: "x = y" if "x \<in> set (h_drafts h)" "y \<in> set (h_drafts h)" "dr_id x = dr_id y" for x y
    using inv that by (auto simp: lock_inv_def distinct_map dest: inj_onD)
  have owner: "\<exists>x \<in> set (h_outbound h). holds_lock x d" if "dr_lockedBySend d \<noteq> None"
    using inv assms(3) that by (auto simp: lock_inv_def list_all_iff list_ex_iff)
  have owned: "\<exists>x \<in> set (h_drafts h). holds_lock r x" if "unresolved_status (ob_status r)"
    using inv assms(4) that by (auto simp: lock_inv_def list_all_iff list_ex_iff)
  have main: "dr_lockedBySend d = Some (ob_id r) \<longleftrightarrow>
      ob_draftId r = Some (dr_id d) \<and> unresolved_status (ob_status r)"
  proof
    assume l: "dr_lockedBySend d = Some (ob_id r)"
    with owner obtain x where "x \<in> set (h_outbound h)" "holds_lock x d" by auto
    with l rows [OF _ assms(4)] show "ob_draftId r = Some (dr_id d) \<and> unresolved_status (ob_status r)"
      by (auto simp: holds_lock_def)
  next
    assume u: "ob_draftId r = Some (dr_id d) \<and> unresolved_status (ob_status r)"
    with owned obtain x where "x \<in> set (h_drafts h)" "holds_lock r x" by auto
    with u drafts [OF _ assms(3)] show "dr_lockedBySend d = Some (ob_id r)"
      by (auto simp: holds_lock_def)
  qed
  show ?thesis
  proof (intro conjI allI impI)
    show "dr_lockedBySend d = Some (ob_id r) \<longleftrightarrow>
      ob_draftId r = Some (dr_id d) \<and> ob_status r \<in> {Queued, Sending, Outcome_Unknown}"
      using main by (simp only: unresolved_status_def)
  next
    fix i assume l: "dr_lockedBySend d = Some i"
    then obtain x where "x \<in> set (h_outbound h)" "holds_lock x d" using owner by auto
    with l show "i \<in> ob_id ` set (h_outbound h)" by (auto simp: holds_lock_def)
  qed
qed

theorem draft_lock_follows_send_witness:
  "dr_lockedBySend (demo_draft\<lparr>dr_lockedBySend := Some demo_outbound_id\<rparr>) = Some (ob_id demo_claimed) \<and>
   ob_status demo_claimed \<in> {Queued, Sending, Outcome_Unknown}"
proof -
  have ids: "ob_id demo_outbound = demo_outbound_id" "ob_status demo_outbound = Queued"
    "ob_draftId demo_outbound = Some demo_draft_id" "dr_id demo_draft = demo_draft_id"
    by (simp_all add: demo_outbound_def demo_draft_def)
  have "lock_inv queued_hub"
    by (simp add: lock_inv_def holds_lock_def unresolved_status_def ids)
  from draft_lock_follows_send [OF demo_run this,
      of "demo_draft\<lparr>dr_lockedBySend := Some demo_outbound_id\<rparr>" demo_claimed]
  show ?thesis by (simp add: log_smtp_def demo_claimed_def mark_sending_def ids)
qed

text \<open>
  C5. A send only moves forward: along every run, every outbound row keeps its frozen snapshot
  (identity, envelope, headers, text, bytes, key and generation; the link to the message replied
  to follows that message when ingestion merges it into a duplicate), a sent or failed row keeps its
  status for good, an unknown one can only become sent, and none ever returns to the queue.
\<close>

theorem send_only_moves_forward:
  assumes "send_run p cp s s'" and "r \<in> set (h_outbound (fst s))"
  shows "\<exists>r' \<in> set (h_outbound (fst s')). same_snapshot r r' \<and>
    (ob_status r = Sent \<longrightarrow> ob_status r' = Sent) \<and> (ob_status r = Failed \<longrightarrow> ob_status r' = Failed) \<and>
    (ob_status r = Outcome_Unknown \<longrightarrow> ob_status r' \<in> {Outcome_Unknown, Sent}) \<and>
    (ob_status r \<noteq> Queued \<longrightarrow> ob_status r' \<noteq> Queued)"
  using send_run_rows [OF assms] by (auto simp: status_path_def)

theorem send_only_moves_forward_witness:
  "\<exists>r' \<in> set [demo_claimed]. same_snapshot demo_outbound r'"
  using send_only_moves_forward [OF demo_run, of demo_outbound] by (simp add: log_smtp_def)

end
