(* ===== verification/Send_Runs.thy ===== *)
theory Send_Runs
  imports Send_System "HOL-Library.Multiset"
begin

text \<open>
  The handlers of the send service refine the transition system: whatever the ports answer and
  whatever other writers do at the awaits, a handler call is a sequence of steps of
  \<open>Send_System\<close>. So what holds of every run holds of the handlers, in any interleaving.
\<close>

section \<open>Handler calls\<close>

datatype send_op =
    Run_Queue run_ctx "string option" queue_input
  | Run_Execute run_ctx string
  | Run_Queued "nat \<Rightarrow> run_ctx" nat
  | Run_Append run_ctx string
  | Run_Appends "nat \<Rightarrow> run_ctx" nat
  | Run_Reconcile run_ctx string
  | Run_Reconciles "nat \<Rightarrow> run_ctx" nat
  | Run_Recover run_ctx

fun run_send :: "send_ports \<Rightarrow> send_op \<Rightarrow> hub \<Rightarrow> hub" where
  "run_send p (Run_Queue cx q x) h = snd (queueSend p cx q x h)"
| "run_send p (Run_Execute cx i) h = snd (executeOutbound p cx i h)"
| "run_send p (Run_Queued cxs n) h = snd (executeQueued p cxs n h)"
| "run_send p (Run_Append cx i) h = snd (executeSentCopyAppend p cx i h)"
| "run_send p (Run_Appends cxs n) h = snd (appendDueSentCopies p cxs n h)"
| "run_send p (Run_Reconcile cx i) h = snd (reconcileUnknownOutcome p cx i h)"
| "run_send p (Run_Reconciles cxs n) h = snd (reconcileUnknownOutcomes p cxs n h)"
| "run_send p (Run_Recover cx) h = snd (recoverAbandonedAttempts p cx h)"

text \<open>
  The other writers take steps of the system too, and may hold claims of their own: \<open>E h es\<close> says
  that the claims \<open>es\<close> may be in their hands in the state \<open>h\<close>. What they do at an await uses and
  adds claims of theirs only, and a step that leaves their claims alone keeps \<open>E\<close>. With
  \<open>E = (\<lambda>_ es. es = [])\<close> every other worker has used its claims by the end of the await; with
  \<open>E = (\<lambda>_ _. True)\<close> a claim may stay open from one await to the next.
\<close>

definition stable_env :: "send_ports \<Rightarrow> compose_ports \<Rightarrow> (hub \<Rightarrow> outbound_row list \<Rightarrow> bool) \<Rightarrow> bool" where
  "stable_env p cp E \<longleftrightarrow>
     (\<forall>h l h' l' es. E h es \<and> mset es \<subseteq># mset l \<and> mset es \<subseteq># mset l' \<and>
        send_step p cp (h, l) (h', l') \<longrightarrow> E h' es)"

definition rely_ok ::
  "send_ports \<Rightarrow> compose_ports \<Rightarrow> (hub \<Rightarrow> outbound_row list \<Rightarrow> bool) \<Rightarrow> run_ctx \<Rightarrow> bool" where
  "rely_ok p cp E cx \<longleftrightarrow>
     stable_env p cp E \<and>
     (\<forall>k h es l. E h es \<and> mset es \<subseteq># mset l \<longrightarrow>
        (\<exists>es' l'. E (cx_rely cx k h) es' \<and> mset l' + mset es = mset l + mset es' \<and>
           send_run p cp (h, l) (cx_rely cx k h, l'))) \<and>
     canonical_id (cx_ids cx 1)"

fun op_ok ::
  "send_ports \<Rightarrow> compose_ports \<Rightarrow> (hub \<Rightarrow> outbound_row list \<Rightarrow> bool) \<Rightarrow> send_op \<Rightarrow> bool" where
  "op_ok p cp E (Run_Queue cx q x) = rely_ok p cp E cx"
| "op_ok p cp E (Run_Execute cx i) = rely_ok p cp E cx"
| "op_ok p cp E (Run_Queued cxs n) = (\<forall>k. rely_ok p cp E (cxs k))"
| "op_ok p cp E (Run_Append cx i) = rely_ok p cp E cx"
| "op_ok p cp E (Run_Appends cxs n) = (\<forall>k. rely_ok p cp E (cxs k))"
| "op_ok p cp E (Run_Reconcile cx i) = rely_ok p cp E cx"
| "op_ok p cp E (Run_Reconciles cxs n) = (\<forall>k. rely_ok p cp E (cxs k))"
| "op_ok p cp E (Run_Recover cx) = rely_ok p cp E cx"

section \<open>Steps and runs\<close>

text \<open>
  A run of ours beside the claims of others: from any state they may be in, the steps taken and
  the steps of the others between them are a run of the system.
\<close>

definition open_run ::
  "send_ports \<Rightarrow> compose_ports \<Rightarrow> (hub \<Rightarrow> outbound_row list \<Rightarrow> bool) \<Rightarrow> sys \<Rightarrow> sys \<Rightarrow> bool" where
  "open_run p cp E s s' \<longleftrightarrow>
     (stable_env p cp E \<longrightarrow>
        (\<forall>es l. E (fst s) es \<and> mset l = mset (snd s) + mset es \<longrightarrow>
           (\<exists>es' l'. E (fst s') es' \<and> mset l' = mset (snd s') + mset es' \<and>
              send_run p cp (fst s, l) (fst s', l'))))"

lemma open_run_refl [simp]: "open_run p cp E s s"
  unfolding open_run_def by blast

lemma run_after: "open_run p cp E a b \<Longrightarrow> open_run p cp E b c \<Longrightarrow> open_run p cp E a c"
  unfolding open_run_def by (meson rtranclp_trans)

text \<open>The claims of others do not hinder a step.\<close>

lemma step_beside:
  assumes "send_step p cp (h, cs) (h', cs')" and "mset l = mset cs + M"
  shows "\<exists>l'. mset l' = mset cs' + M \<and> send_step p cp (h, l) (h', l')"
  using assms(1)
proof (cases rule: send_step.cases)
  case (st_claim now i row)
  then have "send_step p cp (h, l) (h', row # l)" by (blast intro: send_step.st_claim)
  then show ?thesis using assms(2) st_claim by (intro exI [of _ "row # l"]) simp
next
  case (st_submit row resolve hr rq bs)
  have "row \<in> set l" using assms(2) st_submit(3) by (metis set_mset_mset union_iff)
  then have "send_step p cp (h, l) (h', remove1 row l)"
    using st_submit by (blast intro: send_step.st_submit)
  then show ?thesis using assms(2) st_submit(2,3)
    by (intro exI [of _ "remove1 row l"]) simp
next
  case (st_drop row)
  have "row \<in> set l" using assms(2) st_drop(3) by (metis set_mset_mset union_iff)
  then have "send_step p cp (h, l) (h', remove1 row l)"
    using st_drop by (blast intro: send_step.st_drop)
  then show ?thesis using assms(2) st_drop(2,3)
    by (intro exI [of _ "remove1 row l"]) simp
qed (use assms(2) in \<open>blast intro: send_step.intros\<close>)+

lemma open_step: "send_step p cp (h, cs) (h', cs') \<Longrightarrow> open_run p cp E (h, cs) (h', cs')"
proof (unfold open_run_def fst_conv snd_conv, intro impI allI, elim conjE)
  fix es l
  assume s: "send_step p cp (h, cs) (h', cs')" and st: "stable_env p cp E" and e: "E h es"
    and l: "mset l = mset cs + mset es"
  from step_beside [OF s l] obtain l' where l': "mset l' = mset cs' + mset es"
    "send_step p cp (h, l) (h', l')" by blast
  have "mset es \<subseteq># mset l" "mset es \<subseteq># mset l'" by (simp_all add: l l')
  with st e l'(2) have "E h' es" unfolding stable_env_def by blast
  with l' show "\<exists>es' l'. E h' es' \<and> mset l' = mset cs' + mset es' \<and> send_run p cp (h, l) (h', l')"
    by blast
qed

lemma step_after: "open_run p cp E a (h, cs) \<Longrightarrow> send_step p cp (h, cs) (h', cs') \<Longrightarrow>
    open_run p cp E a (h', cs')"
  by (blast intro: run_after open_step)

lemma rely_run: "rely_ok p cp E cx \<Longrightarrow> open_run p cp E (h, cs) (cx_rely cx k h, cs)"
proof (unfold open_run_def fst_conv snd_conv, intro impI allI, elim conjE)
  fix es l
  assume ok: "rely_ok p cp E cx" and e: "E h es" and l: "mset l = mset cs + mset es"
  have "mset es \<subseteq># mset l" by (simp add: l)
  with ok e obtain es' l' where r: "E (cx_rely cx k h) es'" "mset l' + mset es = mset l + mset es'"
    "send_run p cp (h, l) (cx_rely cx k h, l')" unfolding rely_ok_def by blast
  from r(2) l have "mset l' + mset es = (mset cs + mset es') + mset es" by (simp add: ac_simps)
  then have "mset l' = mset cs + mset es'" by (simp only: add_right_cancel)
  with r show "\<exists>es' l'. E (cx_rely cx k h) es' \<and> mset l' = mset cs + mset es' \<and>
      send_run p cp (h, l) (cx_rely cx k h, l')" by blast
qed

lemma other_run:
  "h_outbound h' = h_outbound h \<Longrightarrow> h_drafts h' = h_drafts h \<Longrightarrow> h_smtpCalls h' = h_smtpCalls h \<Longrightarrow>
     open_run p cp E (h, cs) (h', cs)"
  by (intro open_step st_other)

lemma commitAcceptance_run:
  assumes ok: "rely_ok p cp E cx" and st: "am_fromStatus a \<in> {Sending, Outcome_Unknown}"
  shows "open_run p cp E (h, cs) (snd (commitAcceptance p cx row a h), cs)"
proof (cases "sp_parseMime p (am_bytes a)")
  case (Inl m)
  then show ?thesis by (simp add: commitAcceptance_def)
next
  case (Inr parsed)
  let ?h1 = "cx_rely cx 3 h" and ?h2 = "cx_rely cx 4 (cx_rely cx 3 h)"
  have r1: "open_run p cp E (h, cs) (?h1, cs)" by (rule rely_run [OF ok])
  have r2: "open_run p cp E (h, cs) (?h2, cs)" by (rule run_after [OF r1 rely_run [OF ok]])
  have tx: "open_run p cp E (h, cs) (h', cs)"
    if "acceptance_tx p i now row parsed a seen g = Inr (r, h')" "open_run p cp E (h, cs) (g, cs)"
    for i now seen g r h'
    using that st by (blast intro: step_after st_accept)
  have inner: "open_run p cp E (h, cs) (snd (case acceptance_tx p (cx_ids cx 3) (cx_now cx 3) row parsed a ?h1 ?h2 of
                        Inr (r, h3) \<Rightarrow> (Inr r, h3)
                      | Inl Acceptance_Superseded \<Rightarrow> (Inr (current_row row ?h2), ?h2)
                      | Inl e \<Rightarrow> (Inl e, ?h2)), cs)"
    using tx r2 by (auto split: sum.splits prod.splits hub_error.splits)
  show ?thesis
    unfolding commitAcceptance_def Inr sum.case Let_def
    using tx r1 inner by (auto split: sum.split prod.split hub_error.split)
qed

lemma run_tx_run:
  assumes "\<And>a h'. f h = Inr (a, h') \<Longrightarrow> open_run p cp E s (h', cs)" and "open_run p cp E s (h, cs)"
  shows "open_run p cp E s (snd (run_tx f h), cs)"
  using assms by (auto simp: run_tx_def split: sum.splits prod.splits)

lemma concludeSubmission_run:
  assumes "rely_ok p cp E cx"
  shows "open_run p cp E (h, cs) (snd (concludeSubmission p cx row bs report h), cs)"
proof (cases "su_state report")
  case Accepted
  then show ?thesis by (simp add: concludeSubmission_def commitAcceptance_run [OF assms])
next
  case Rejected
  show ?thesis
    unfolding concludeSubmission_def Rejected submit_state.case
    by (rule run_tx_run) (auto intro: open_step st_fail)
next
  case Unclassified
  obtain r h1 where "recordUnknown row report h = (r, h1)" by fastforce
  moreover from this have "open_run p cp E (h, cs) (h1, cs)" by (intro open_step st_unknown)
  ultimately show ?thesis using Unclassified by (simp add: concludeSubmission_def)
qed

lemma submitClaimed_run:
  assumes ok: "rely_ok p cp E cx" and row: "row \<in> set cs"
  shows "open_run p cp E (h, cs) (snd (submitClaimed p cx submit resolve row h), remove1 row cs)"
proof (cases "prepareSubmission p resolve row h")
  case (Prep_Fail e)
  have d: "open_run p cp E (h, cs) (h, remove1 row cs)" using row by (intro open_step st_drop)
  show ?thesis
    unfolding submitClaimed_def Prep_Fail preparation.case
    by (rule run_tx_run [OF _ d]) (blast intro: step_after [OF d] st_fail)
next
  case (Prep_Submit rq bs)
  have "open_run p cp E (h, cs) (log_smtp (ob_id row) rq h, remove1 row cs)"
    using row Prep_Submit by (intro open_step st_submit)
  from run_after [OF run_after [OF this rely_run [OF ok]] concludeSubmission_run [OF ok]] Prep_Submit
  show ?thesis by (simp add: submitClaimed_def)
qed

lemma snd_finish_run [simp]: "snd (finish_run b x) = snd x"
  by (auto simp: finish_run_def split: prod.splits sum.splits)

lemma executeOutbound_run:
  assumes ok: "rely_ok p cp E cx"
  shows "open_run p cp E (h, cs) (snd (executeOutbound p cx i h), cs)"
proof -
  have claim: "open_run p cp E (h, cs) (snd (case claimOutbound (cx_now cx 0) (pg_uuid i) (cx_rely cx 0 h) of
                               (None, h1) \<Rightarrow>
                                 (case readOutbound i h1 of
                                    Inl e \<Rightarrow> (Inl e, h1) | Inr r \<Rightarrow> (Inr (r, False), h1))
                             | (Some row, h1) \<Rightarrow>
                                 finish_run True
                                   (submitClaimed p cx submit resolve row (cx_rely cx 1 h1))), cs)"
    for submit resolve
  proof -
    obtain x h1 where c: "claimOutbound (cx_now cx 0) (pg_uuid i) (cx_rely cx 0 h) = (x, h1)" by fastforce
    have r0: "open_run p cp E (h, cs) (cx_rely cx 0 h, cs)" by (rule rely_run [OF ok])
    show ?thesis
    proof (cases x)
      case None
      with claimOutbound_frame [OF c] have "h1 = cx_rely cx 0 h" by simp
      with c None r0 show ?thesis by (auto split: sum.split)
    next
      case (Some row)
      have "open_run p cp E (h, cs) (h1, row # cs)"
        using step_after [OF r0 st_claim] c Some by blast
      from run_after [OF this rely_run [OF ok, of h1 "row # cs" 1]]
      have "open_run p cp E (h, cs) (cx_rely cx 1 h1, row # cs)" .
      from run_after [OF this submitClaimed_run [OF ok, of row]]
      have "open_run p cp E (h, cs) (snd (submitClaimed p cx submit resolve row (cx_rely cx 1 h1)), remove1 row (row # cs))"
        by (metis list.set_intros(1))
      with c Some show ?thesis by simp
    qed
  qed
  show ?thesis
    unfolding executeOutbound_def
    by (auto split: sum.split option.split simp: Let_def claim simp del: split_paired_All)
qed

lemma sweep_rows_run:
  assumes "\<And>k i h. open_run p cp E (h, cs) (snd (run (cxs k) i h), cs)"
  shows "open_run p cp E (h, cs) (snd (sweep_rows run status cxs k rows counts h), cs)"
proof (induction rows arbitrary: k counts h)
  case Nil
  then show ?case by simp
next
  case (Cons row rows)
  obtain a b c where [simp]: "counts = (a, b, c)" by (cases counts) auto
  obtain res h1 where r: "run (cxs k) (ob_id row) h = (res, h1)" by fastforce
  have "open_run p cp E (h, cs) (h1, cs)" using assms [of h k "ob_id row"] r by simp
  from run_after [OF this Cons.IH] Cons.IH r show ?case by (auto split: sum.split)
qed

lemma sweep_run:
  assumes "\<And>k i h. open_run p cp E (h, cs) (snd (run (cxs k) i h), cs)"
  shows "open_run p cp E (h, cs) (snd (sweep run status cxs rows h), cs)"
proof -
  obtain a b c h1 where "sweep_rows run status cxs 0 rows (0, 0, 0) h = ((a, b, c), h1)"
    by (metis prod_cases4 surj_pair)
  with sweep_rows_run [of p cp E cs run cxs h status 0 rows "(0, 0, 0)", OF assms]
  show ?thesis by (simp add: sweep_def)
qed

lemma executeQueued_run:
  assumes "\<forall>k. rely_ok p cp E (cxs k)"
  shows "open_run p cp E (h, cs) (snd (executeQueued p cxs n h), cs)"
proof -
  have "open_run p cp E (h, cs) (snd (run_execute p (cxs k) i h), cs)" for k i h
    using executeOutbound_run [of p cp E "cxs k" h cs i] assms
    by (auto simp: run_execute_def split: prod.splits sum.splits)
  then show ?thesis by (simp add: executeQueued_def Let_def sweep_run)
qed

lemma freezeSnapshot_run:
  assumes ok: "rely_ok p cp E cx"
  shows "open_run p cp E (h, cs) (snd (freezeSnapshot p cx x g h), cs)"
proof -
  have "open_run p cp E (h, cs) (snd (run_tx (freeze_tx p (cx_ids cx 1) now g x fz) (cx_rely cx 1 h1)), cs)"
    if "h_outbound h1 = h_outbound h" "h_drafts h1 = h_drafts h" "h_smtpCalls h1 = h_smtpCalls h"
    for h1 fz now
  proof -
    have r: "open_run p cp E (h, cs) (cx_rely cx 1 h1, cs)"
      by (rule run_after [OF other_run [OF that] rely_run [OF ok]])
    from ok have "canonical_id (cx_ids cx 1)" by (simp add: rely_ok_def)
    then show ?thesis by (intro run_tx_run [OF _ r]) (blast intro: step_after [OF r] st_queue)
  qed
  then show ?thesis
    by (auto simp: freezeSnapshot_def Let_def split: sum.split intro!: other_run)
qed

lemma queueSend_run:
  assumes ok: "rely_ok p cp E cx"
  shows "open_run p cp E (h, cs) (snd (queueSend p cx q x h), cs)"
proof -
  have fr: "open_run p cp E (h, cs) (snd (case freezeSnapshot p cx x g (cx_rely cx 0 h) of
                          (Inr row, h1) \<Rightarrow> (Inr (True, toOutboundRecord row), h1)
                        | (Inl e, h1) \<Rightarrow>
                            if is_race e then
                              (let h2 = cx_rely cx 2 h1
                               in case findByIdempotencyKey (qi_idempotencyKey x) h2 of
                                    None \<Rightarrow> (Inl e, h2)
                                  | Some raced \<Rightarrow> (replay (existingSnapshot raced rh), h2))
                            else (Inl e, h1)), cs)" for g rh
  proof -
    obtain res h1 where f: "freezeSnapshot p cx x g (cx_rely cx 0 h) = (res, h1)" by fastforce
    have r1: "open_run p cp E (h, cs) (h1, cs)"
      using run_after [OF rely_run [OF ok] freezeSnapshot_run [OF ok, of "cx_rely cx 0 h" cs x g]] f by simp
    have "open_run p cp E (h, cs) (cx_rely cx 2 h1, cs)" by (rule run_after [OF r1 rely_run [OF ok]])
    with r1 f show ?thesis by (auto simp: Let_def split: sum.split option.split)
  qed
  show ?thesis
    unfolding queueSend_def by (auto split: sum.split option.split simp: Let_def fr)
qed

lemma concludeSentCopy_run:
  "open_run p cp E s (h, cs) \<Longrightarrow> open_run p cp E s (snd (concludeSentCopy row c oc h), cs)"
  by (cases "concludeSentCopy row c oc h") (auto intro: step_after st_conclude)

lemma appendClaimed_run:
  assumes ok: "rely_ok p cp E cx"
  shows "open_run p cp E (h, cs) (snd (appendClaimed p cx openCopy folder row h), cs)"
proof (cases "openCopy (ob_accountId row)")
  case (Inl m)
  then show ?thesis
    by (simp add: appendClaimed_def concludeSentCopy_run rely_run [OF ok])
next
  case (Inr session)
  obtain oc log where w: "sentCopyWork p session folder row (h_durable h (ob_mimeStorageKey row)) = (oc, log)"
    by fastforce
  have "open_run p cp E (h, cs) (log_appends (ob_id row) log h, cs)" by (intro open_step st_append)
  from run_after [OF this rely_run [OF ok]] Inr w show ?thesis
    by (simp add: appendClaimed_def concludeSentCopy_run)
qed

lemma executeSentCopyAppend_run:
  assumes ok: "rely_ok p cp E cx"
  shows "open_run p cp E (h, cs) (snd (executeSentCopyAppend p cx i h), cs)"
proof -
  have r0: "open_run p cp E (h, cs) (cx_rely cx 0 h, cs)" by (rule rely_run [OF ok])
  have unmapped: "open_run p cp E (h, cs) (snd (case concludeSentCopy before False (Outcome_Failed unmapped_error)
                                            (cx_rely cx 0 h) of
                                       (r, h1) \<Rightarrow> (Inr (toOutboundRecord r, True), h1)), cs)" for before
    using concludeSentCopy_run [OF r0, of before False "Outcome_Failed unmapped_error"]
    by (auto split: prod.split)
  have claimed: "open_run p cp E (h, cs) (snd (case claimSentCopy (cx_now cx 0) (pg_uuid i) (cx_rely cx 0 h) of
                                  (None, h1) \<Rightarrow>
                                    (case readOutbound i h1 of
                                       Inl e \<Rightarrow> (Inl e, h1) | Inr r \<Rightarrow> (Inr (r, False), h1))
                                | (Some row, h1) \<Rightarrow>
                                    (case appendClaimed p cx openCopy folder row h1 of
                                       (r, h2) \<Rightarrow> (Inr (toOutboundRecord r, True), h2))), cs)" for openCopy folder
  proof -
    obtain x h1 where c: "claimSentCopy (cx_now cx 0) (pg_uuid i) (cx_rely cx 0 h) = (x, h1)" by fastforce
    show ?thesis
    proof (cases x)
      case None
      with claimSentCopy_frame [OF c] have "h1 = cx_rely cx 0 h" by simp
      with c None r0 show ?thesis by (auto split: sum.split)
    next
      case (Some row)
      have "open_run p cp E (h, cs) (h1, cs)" using step_after [OF r0 st_claim_copy] c Some by blast
      from run_after [OF this appendClaimed_run [OF ok, of h1 cs openCopy folder row]] c Some
      show ?thesis by (auto split: prod.split)
    qed
  qed
  show ?thesis
    unfolding executeSentCopyAppend_def
    by (auto simp: Let_def unmapped claimed split: sum.split option.split)
qed

lemma appendDueSentCopies_run:
  assumes "\<forall>k. rely_ok p cp E (cxs k)"
  shows "open_run p cp E (h, cs) (snd (appendDueSentCopies p cxs n h), cs)"
proof -
  have "open_run p cp E (h, cs) (snd (run_append p (cxs k) i h), cs)" for k i h
    using executeSentCopyAppend_run [of p cp E "cxs k" h cs i] assms
    by (auto simp: run_append_def split: prod.splits sum.splits)
  then show ?thesis by (simp add: appendDueSentCopies_def Let_def sweep_run)
qed

lemma note_run: "open_run p cp E s (h, cs) \<Longrightarrow> open_run p cp E s (noteReconcilePass row h, cs)"
  by (blast intro: step_after st_note)

lemma reconcileSession_run:
  assumes ok: "rely_ok p cp E cx"
  shows "open_run p cp E (h, cs) (snd (reconcileSession p cx session folder row h), cs)"
proof -
  have acc: "open_run p cp E (h, cs) (snd (case commitAcceptance p cx row (reconciliation row bs d) h of
                         (Inl e, h1) \<Rightarrow> (Inl e, h1)
                       | (Inr r, h1) \<Rightarrow>
                           (Inr \<lparr>rs_record = toOutboundRecord r, rs_reconciled = True,
                                 rs_reason = None\<rparr>, h1)), cs)" for bs d
  proof -
    obtain res h1 where c: "commitAcceptance p cx row (reconciliation row bs d) h = (res, h1)" by fastforce
    with commitAcceptance_run [OF ok, of "reconciliation row bs d" h cs row] show ?thesis
      by (auto simp: reconciliation_def split: sum.split)
  qed
  show ?thesis
    unfolding reconcileSession_def
    by (auto simp: acc note_run split: sum.split evidence.split option.split)
qed

lemma reconcileUnknownOutcome_run:
  assumes ok: "rely_ok p cp E cx"
  shows "open_run p cp E (h, cs) (snd (reconcileUnknownOutcome p cx i h), cs)"
proof -
  have r1: "open_run p cp E (h, cs) (cx_rely cx 1 h, cs)" by (rule rely_run [OF ok])
  have "open_run p cp E (h, cs) (snd (reconcileSession p cx session folder row (cx_rely cx 1 h)), cs)"
    for session folder row
    by (rule run_after [OF r1 reconcileSession_run [OF ok]])
  with r1 show ?thesis
    unfolding reconcileUnknownOutcome_def
    by (auto simp: Let_def note_run split: sum.split option.split)
qed

lemma reconcileUnknownOutcomes_run:
  assumes "\<forall>k. rely_ok p cp E (cxs k)"
  shows "open_run p cp E (h, cs) (snd (reconcileUnknownOutcomes p cxs n h), cs)"
proof -
  have "open_run p cp E (h, cs) (snd (run_reconcile p (cxs k) i h), cs)" for k i h
    using reconcileUnknownOutcome_run [of p cp E "cxs k" h cs i] assms
    by (auto simp: run_reconcile_def split: prod.splits sum.splits)
  then show ?thesis by (simp add: reconcileUnknownOutcomes_def Let_def sweep_run)
qed

lemma hold_rows_run:
  assumes rely: "\<And>k h. open_run p cp E (h, cs) (rely k h, cs)"
    and hold: "\<And>i h b h'. hold i h = (b, h') \<Longrightarrow> send_step p cp (h, cs) (h', cs)"
  shows "open_run p cp E (h, cs) (snd (hold_rows hold status rely k rows counts h), cs)"
proof (induction rows arbitrary: k counts h)
  case Nil
  then show ?case by simp
next
  case (Cons row rows)
  obtain a b where [simp]: "counts = (a, b)" by (cases counts) auto
  obtain d h1 where r: "hold (ob_id row) (rely k h) = (d, h1)" by fastforce
  have "open_run p cp E (h, cs) (h1, cs)" by (rule step_after [OF rely hold [OF r]])
  from run_after [OF this Cons.IH] Cons.IH r show ?case by simp
qed

lemma recoverAbandonedAttempts_run:
  assumes ok: "rely_ok p cp E cx"
  shows "open_run p cp E (h, cs) (snd (recoverAbandonedAttempts p cx h), cs)"
proof -
  let ?t = "cx_now cx 0 - ATTEMPT_LEASE_MS"
  let ?st = "readStatus (sp_controls p) h"
  let ?sending = "filter (abandoned_send ?t) (h_outbound h)"
  obtain a b h1 where s: "hold_rows holdSending ?st (cx_rely cx) 0 ?sending (0, 0) h = ((a, b), h1)"
    by (metis surj_pair)
  have r1: "open_run p cp E (h, cs) (h1, cs)"
    using hold_rows_run [of p cp E cs "cx_rely cx" holdSending h ?st 0 ?sending "(0, 0)"]
      rely_run [OF ok] st_hold s by simp
  obtain c d h2 where ap: "hold_rows holdAppending ?st (cx_rely cx) (length ?sending)
      (filter (abandoned_append ?t) (h_outbound h1)) (0, b) h1 = ((c, d), h2)"
    by (metis surj_pair)
  have "open_run p cp E (h1, cs) (h2, cs)"
    using hold_rows_run [of p cp E cs "cx_rely cx" holdAppending h1 ?st "length ?sending"
        "filter (abandoned_append ?t) (h_outbound h1)" "(0, b)"]
      rely_run [OF ok] st_hold_append ap by simp
  with run_after [OF r1] s ap show ?thesis by (simp add: recoverAbandonedAttempts_def Let_def)
qed

section \<open>Properties\<close>

text \<open>
  C3. The handlers refine the transition system: a call of any handler of the service, with any
  answers of its ports and any steps of other writers at its awaits, is a sequence of steps of
  the system and leaves no claim behind. The other writers may themselves hold claims, before,
  during and after the call. Every invariant of runs is one of the handlers.
\<close>

theorem handlers_refine_steps:
  assumes "op_ok p cp E op" and "E h es"
  shows "\<exists>es' l'. E (run_send p op h) es' \<and> mset l' = mset cs + mset es' \<and>
    send_run p cp (h, cs @ es) (run_send p op h, l')"
proof -
  from assms(1) have "open_run p cp E (h, cs) (run_send p op h, cs)"
    by (cases op)
       (simp_all add: queueSend_run executeOutbound_run executeQueued_run executeSentCopyAppend_run
         appendDueSentCopies_run reconcileUnknownOutcome_run reconcileUnknownOutcomes_run
         recoverAbandonedAttempts_run)
  moreover from assms(1) have "stable_env p cp E" by (cases op) (simp_all add: rely_ok_def)
  ultimately show ?thesis
    using assms(2) unfolding open_run_def fst_conv snd_conv by (auto dest!: spec [of _ "cs @ es"])
qed

definition quiet_ctx :: run_ctx where
  "quiet_ctx = \<lparr>cx_now = (\<lambda>_. 4), cx_ids = (\<lambda>_. demo_upload_id), cx_rely = (\<lambda>_ h. h)\<rparr>"

text \<open>Another worker claims the send at every await, and keeps the claim.\<close>

definition rival_ctx :: run_ctx where
  "rival_ctx = quiet_ctx\<lparr>cx_rely := (\<lambda>_ h. snd (claimOutbound 4 demo_outbound_id h))\<rparr>"

lemma rival_rely: "rely_ok p cp (\<lambda>_ _. True) rival_ctx"
proof -
  have "\<exists>es' l'. mset l' + mset es = mset l + mset es' \<and>
      send_run p cp (h, l) (snd (claimOutbound 4 demo_outbound_id h), l')" for h and es l :: "outbound_row list"
  proof -
    obtain x h' where c: "claimOutbound 4 demo_outbound_id h = (x, h')" by fastforce
    show ?thesis
    proof (cases x)
      case None
      with claimOutbound_frame [OF c] c show ?thesis by (intro exI [of _ es] exI [of _ l]) simp
    next
      case (Some row)
      with c have "send_run p cp (h, l) (h', row # l)" by (intro r_into_rtranclp st_claim) simp
      with c show ?thesis by (intro exI [of _ "row # es"] exI [of _ "row # l"]) simp
    qed
  qed
  moreover have "canonical_id demo_upload_id" using demo_ids(7) by (simp add: canonical_id_def pg_uuid_def)
  ultimately show ?thesis
    by (simp add: rely_ok_def stable_env_def rival_ctx_def quiet_ctx_def)
qed

lemma rival_execute:
  "h_smtpCalls (snd (executeOutbound demo_send rival_ctx demo_outbound_id queued_hub)) = []"
proof -
  have ids: "ob_id demo_outbound = demo_outbound_id" "ob_status demo_outbound = Queued"
    "ob_recoveryGeneration demo_outbound = demo_gen" by (simp_all add: demo_outbound_def)
  have ready: "readStatus demo_controls queued_hub = Ready_State demo_gen"
    by (simp add: readStatus_ready_iff ready_hub_def)
  have sp: "sp_controls demo_send = demo_controls" "sp_resolveCredentials demo_send = Some (\<lambda>_. Inr demo_credentials)"
    and "\<exists>submit. sp_submit demo_send = Some submit" by (simp_all add: demo_send_def)
  then obtain submit where sub: "sp_submit demo_send = Some submit" by blast
  have c: "claimOutbound 4 demo_outbound_id (queued_hub\<lparr>h_outbound := [demo_claimed]\<rparr>) =
      (None, queued_hub\<lparr>h_outbound := [demo_claimed]\<rparr>)"
    by (simp add: claimOutbound_def claim_queued_def claim_first_def demo_claimed_def mark_sending_def)
  show ?thesis
    using demo_claim c
    by (simp add: executeOutbound_def requireUuidS_def sub sp ids ready is_ready_def assessJob_def
        rival_ctx_def quiet_ctx_def split: sum.split)
qed

theorem handlers_refine_steps_witness:
  "\<exists>l'. h_smtpCalls (run_send demo_send (Run_Execute rival_ctx demo_outbound_id) queued_hub) = [] \<and>
     send_run demo_send demo_ports (queued_hub, [])
       (run_send demo_send (Run_Execute rival_ctx demo_outbound_id) queued_hub, l')"
proof -
  have "op_ok demo_send demo_ports (\<lambda>_ _. True) (Run_Execute rival_ctx demo_outbound_id)"
    using rival_rely by simp
  from handlers_refine_steps [OF this, where h = queued_hub and es = "[]" and cs = "[]"] obtain l'
    where "send_run demo_send demo_ports (queued_hub, [])
       (run_send demo_send (Run_Execute rival_ctx demo_outbound_id) queued_hub, l')" by auto
  moreover have "h_smtpCalls (run_send demo_send (Run_Execute rival_ctx demo_outbound_id) queued_hub) = []"
    by (simp add: rival_execute)
  ultimately show ?thesis by blast
qed

end
