(* ===== verification/Send_Properties.thy ===== *)
theory Send_Properties
  imports Send_Runs
begin

text \<open>
  What one call of a send handler does, on every branch that matters: who may submit and what,
  how acceptance commits or does not, that queueing is idempotent and freezes the draft as it is
  when it is locked, that the Sent copy is appended at most once and only where it is proved
  absent, that only a verified copy resolves an unknown outcome, and which rows a hold or a
  sweep can touch. A quiet context is one in which no other writer acts during the call.
\<close>

section \<open>Submission\<close>

lemma run_tx_calls:
  assumes "\<And>a h'. f h = Inr (a, h') \<Longrightarrow> h_smtpCalls h' = h_smtpCalls h"
  shows "h_smtpCalls (snd (run_tx f h)) = h_smtpCalls h"
  using assms by (auto simp: run_tx_def split: sum.split prod.split)

lemma acceptance_tx_calls:
  "acceptance_tx p i now row parsed a seen h = Inr (r, h') \<Longrightarrow>
     am_fromStatus a \<in> {Sending, Outcome_Unknown} \<Longrightarrow> h_smtpCalls h' = h_smtpCalls h"
  using acceptance_tx_frame by blast

text \<open>
  Other writers leave the log of this call alone: \<open>h_smtpCalls\<close> counts the submissions of one
  worker.
\<close>

definition own_calls :: "run_ctx \<Rightarrow> bool" where
  "own_calls cx \<longleftrightarrow> (\<forall>k g. h_smtpCalls (cx_rely cx k g) = h_smtpCalls g)"

lemma own_callsD [simp]: "own_calls cx \<Longrightarrow> h_smtpCalls (cx_rely cx k g) = h_smtpCalls g"
  by (simp add: own_calls_def)

lemma commitAcceptance_calls:
  assumes own: "own_calls cx" and st: "am_fromStatus a \<in> {Sending, Outcome_Unknown}"
  shows "h_smtpCalls (snd (commitAcceptance p cx row a h)) = h_smtpCalls h"
  using own acceptance_tx_calls [OF _ st]
  by (fastforce simp: commitAcceptance_def Let_def split: sum.split prod.split hub_error.split)

lemma concludeSubmission_calls:
  assumes "own_calls cx"
  shows "h_smtpCalls (snd (concludeSubmission p cx row bs report h)) = h_smtpCalls h"
proof (cases "su_state report")
  case Accepted
  then show ?thesis by (simp add: concludeSubmission_def commitAcceptance_calls [OF assms])
next
  case Rejected
  show ?thesis unfolding concludeSubmission_def Rejected submit_state.case
    by (rule run_tx_calls) (use recordFailure_frame in blast)
next
  case Unclassified
  obtain r h1 where u: "recordUnknown row report h = (r, h1)" by fastforce
  with recordUnknown_frame [OF u] Unclassified show ?thesis by (simp add: concludeSubmission_def)
qed

lemma claim_first_found:
  "find (\<lambda>r. k r = i) t = Some r \<Longrightarrow> Q r \<Longrightarrow>
     claim_first (\<lambda>r. k r = i \<and> Q r) f t = (Some (f r), tbl_update (\<lambda>r. k r = i \<and> Q r) f t)"
proof -
  assume f: "find (\<lambda>r. k r = i) t = Some r" and q: "Q r"
  have "\<exists>rs. tbl_returning (\<lambda>r. k r = i \<and> Q r) f t = f r # rs"
    using f q by (induction t) (auto split: if_splits)
  then show ?thesis by (auto simp: claim_first_def)
qed

text \<open>The calls of one execution, by the claim and the preparation it reaches.\<close>

lemma submitClaimed_calls:
  assumes "own_calls cx"
  shows "h_smtpCalls (snd (submitClaimed p cx submit resolve row h)) =
    (case prepareSubmission p resolve row h of
       Prep_Fail e \<Rightarrow> h_smtpCalls h | Prep_Submit rq bs \<Rightarrow> h_smtpCalls h @ [(ob_id row, rq)])"
proof (cases "prepareSubmission p resolve row h")
  case (Prep_Fail e)
  have "h_smtpCalls (snd (submitClaimed p cx submit resolve row h)) = h_smtpCalls h"
    unfolding submitClaimed_def Prep_Fail preparation.case
    by (rule run_tx_calls) (use recordFailure_frame in blast)
  with Prep_Fail show ?thesis by simp
next
  case (Prep_Submit rq bs)
  then show ?thesis
    by (simp add: submitClaimed_def concludeSubmission_calls [OF assms] assms) (simp add: log_smtp_def)
qed

lemma executeOutbound_calls:
  assumes own: "own_calls cx" and ne: "h_smtpCalls (snd (executeOutbound p cx i h)) \<noteq> h_smtpCalls h"
  obtains r0 resolve row h1 rq bs where "find (\<lambda>r. ob_id r = pg_uuid i) (h_outbound h) = Some r0"
    and "ob_status r0 = Queued" and "is_ready (readStatus (sp_controls p) h)"
    and "assessJob (readStatus (sp_controls p) h) (ob_recoveryGeneration r0) \<noteq> Job_Stale"
    and "sp_resolveCredentials p = Some resolve"
    and "claimOutbound (cx_now cx 0) (pg_uuid i) (cx_rely cx 0 h) = (Some row, h1)"
    and "prepareSubmission p resolve row (cx_rely cx 1 h1) = Prep_Submit rq bs"
    and "h_smtpCalls (snd (executeOutbound p cx i h)) = h_smtpCalls h @ [(ob_id row, rq)]"
proof -
  have "is_uuid i" using ne by (auto simp: executeOutbound_def requireUuidS_def split: if_splits)
  then have uu: "requireUuidS i = Inr ()" by (simp add: requireUuidS_def)
  from ne obtain submit resolve where deps: "sp_submit p = Some submit" "sp_resolveCredentials p = Some resolve"
    by (auto simp: executeOutbound_def uu split: option.splits)
  from ne obtain r0 where f: "find (\<lambda>r. ob_id r = pg_uuid i) (h_outbound h) = Some r0"
    by (auto simp: executeOutbound_def uu deps split: option.splits)
  have g: "ob_status r0 = Queued" "is_ready (readStatus (sp_controls p) h)"
    "assessJob (readStatus (sp_controls p) h) (ob_recoveryGeneration r0) \<noteq> Job_Stale"
    using ne by (auto simp: executeOutbound_def uu deps f Let_def split: if_splits)
  obtain x h1 where c: "claimOutbound (cx_now cx 0) (pg_uuid i) (cx_rely cx 0 h) = (x, h1)" by fastforce
  have calls1: "h_smtpCalls h1 = h_smtpCalls h" using claimOutbound_frame [OF c] own by simp
  have "x \<noteq> None"
    using ne calls1 g c
    by (auto simp: executeOutbound_def uu deps f Let_def split: option.splits sum.splits)
  then obtain row where x: "x = Some row" by blast
  have ex: "executeOutbound p cx i h = finish_run True (submitClaimed p cx submit resolve row (cx_rely cx 1 h1))"
    using g c x by (simp add: executeOutbound_def uu deps f Let_def)
  then have calls: "h_smtpCalls (snd (executeOutbound p cx i h)) =
    (case prepareSubmission p resolve row (cx_rely cx 1 h1) of
       Prep_Fail e \<Rightarrow> h_smtpCalls h | Prep_Submit rq bs \<Rightarrow> h_smtpCalls h @ [(ob_id row, rq)])"
    by (simp add: submitClaimed_calls [OF own] own calls1 split: preparation.split)
  with ne obtain rq bs where "prepareSubmission p resolve row (cx_rely cx 1 h1) = Prep_Submit rq bs"
    by (auto split: preparation.splits)
  with calls c x show thesis by (intro that [OF f g deps(2)]) simp_all
qed

section \<open>Acceptance\<close>

definition hash_order :: "message_row list \<Rightarrow> message_row list" where
  "hash_order found = filter (\<lambda>m. ms_sentAt m = None) found @
     sort_key (\<lambda>m. - the (ms_sentAt m)) (filter (\<lambda>m. ms_sentAt m \<noteq> None) found)"

lemma set_hash_order [simp]: "set (hash_order found) = set found"
  by (auto simp: hash_order_def)

lemma findMessageByHash_alt:
  "findMessageByHash a sha h =
     (case hash_order (filter (\<lambda>m. ms_accountId m = a \<and> ms_originalSha256 m = Some sha) (h_messages h)) of
        [] \<Rightarrow> None | m # _ \<Rightarrow> Some (ms_id m))"
  by (simp add: findMessageByHash_def Let_def hash_order_def)

lemma findMessageByHash_None:
  "findMessageByHash a sha h = None \<longleftrightarrow>
     (\<forall>m \<in> set (h_messages h). \<not> (ms_accountId m = a \<and> ms_originalSha256 m = Some sha))"
proof -
  let ?f = "filter (\<lambda>m. ms_accountId m = a \<and> ms_originalSha256 m = Some sha) (h_messages h)"
  have "findMessageByHash a sha h = None \<longleftrightarrow> set (hash_order ?f) = {}"
    by (simp add: findMessageByHash_alt del: set_hash_order split: list.split)
  then show ?thesis by auto
qed

lemma findMessageByHash_Some:
  assumes "findMessageByHash a sha h = Some i"
  shows "\<exists>m \<in> set (h_messages h). ms_id m = i \<and> ms_accountId m = a \<and> ms_originalSha256 m = Some sha"
proof -
  let ?f = "filter (\<lambda>m. ms_accountId m = a \<and> ms_originalSha256 m = Some sha) (h_messages h)"
  from assms obtain m ms where l: "hash_order ?f = m # ms" "ms_id m = i"
    by (auto simp: findMessageByHash_alt split: list.splits)
  then have "m \<in> set (hash_order ?f)" by simp
  with l(2) show ?thesis by auto
qed

definition due_in :: "outbound_status \<Rightarrow> outbound_row \<Rightarrow> hub \<Rightarrow> bool" where
  "due_in s row h \<longleftrightarrow> list_ex (\<lambda>r. ob_id r = ob_id row \<and> ob_status r = s) (h_outbound h)"

lemma claim_first_none:
  "\<not> list_ex P t \<Longrightarrow> claim_first P f t = (None, t)"
  by (simp add: claim_first_def list_ex_iff tbl_update_no_match tbl_returning_empty_iff [THEN iffD2]
      split: list.split)

lemma insertLocal_result:
  "insertLocalSentMessage p i now row parsed bs h =
     (if list_ex (\<lambda>m. ms_id m = i \<or> (ms_accountId m = ob_accountId row \<and>
            ms_originalSha256 m = Some (ob_mimeSha256 row))) (h_messages h)
      then Inl Unique_Violation
      else Inr (i, snd (projr (insertLocalSentMessage p i now row parsed bs h))))"
  by (simp add: insertLocalSentMessage_def)

lemma acceptance_tx_superseded:
  assumes nd: "\<not> due_in (am_fromStatus a) row h"
  shows "acceptance_tx p i now row parsed a seen h =
    (if findMessageByHash (ob_accountId row) (ob_mimeSha256 row) seen = None \<and>
        list_ex (\<lambda>m. ms_id m = i \<or> (ms_accountId m = ob_accountId row \<and>
            ms_originalSha256 m = Some (ob_mimeSha256 row))) (h_messages h)
     then Inl Unique_Violation else Inl Acceptance_Superseded)"
proof -
  have nd': "\<not> list_ex (\<lambda>r. ob_id r = ob_id row \<and> ob_status r = am_fromStatus a) (h_outbound h1)"
    if "h_outbound h1 = h_outbound h" for h1
    using nd that by (simp add: due_in_def)
  show ?thesis
  proof (cases "findMessageByHash (ob_accountId row) (ob_mimeSha256 row) seen")
    case (Some m)
    then show ?thesis using nd' [of h] by (simp add: acceptance_tx_def Let_def claim_first_none)
  next
    case None
    show ?thesis
    proof (cases "list_ex (\<lambda>m. ms_id m = i \<or> (ms_accountId m = ob_accountId row \<and>
            ms_originalSha256 m = Some (ob_mimeSha256 row))) (h_messages h)")
      case True
      then show ?thesis using None by (simp add: acceptance_tx_def insertLocalSentMessage_def)
    next
      case False
      then obtain h1 where ins: "insertLocalSentMessage p i now row parsed (am_bytes a) h = Inr (i, h1)"
        by (simp add: insertLocalSentMessage_def)
      with insertLocalSentMessage_frame [OF ins] None False show ?thesis
        using nd' [of h1] by (simp add: acceptance_tx_def Let_def claim_first_none)
    qed
  qed
qed

text \<open>The transaction on a due row, in one equation.\<close>

lemma acceptance_tx_due:
  assumes f: "find (\<lambda>r. ob_id r = ob_id row) (h_outbound h) = Some r0"
    and st: "ob_status r0 = am_fromStatus a" and ok: "am_fromStatus a \<in> {Sending, Outcome_Unknown}"
    and can: "canonical_id (ob_id row)"
    and known: "findMessageByHash (ob_accountId row) (ob_mimeSha256 row) seen = Some m"
    and own: "\<not> list_ex (\<lambda>r. ob_id r \<noteq> ob_id row \<and> ob_logicalMessageId r = Some m) (h_outbound h)"
  shows "\<exists>h'. acceptance_tx p i now row parsed a seen h = Inr (accepted_row m now a r0, h') \<and>
    h_messages h' = h_messages h \<and> h_bodies h' = h_bodies h \<and>
    accepted_row m now a r0 \<in> set (h_outbound h')"
proof -
  let ?due = "\<lambda>r. ob_id r = ob_id row \<and> ob_status r = am_fromStatus a"
  have c: "claim_first ?due (accepted_row m now a) (h_outbound h) =
      (Some (accepted_row m now a r0), tbl_update ?due (accepted_row m now a) (h_outbound h))"
    using f st by (rule claim_first_found [of ob_id "ob_id row" _ _ "\<lambda>r. ob_status r = am_fromStatus a"])
  have id: "ob_id (accepted_row m now a r) = ob_id r \<and> ob_status (accepted_row m now a r) = Sent" for r
    by (simp add: accepted_row_def Let_def split: option.split)
  have fnd: "find (\<lambda>r. ob_id r = pg_uuid (ob_id row)) (tbl_update ?due (accepted_row m now a) (h_outbound h)) =
      Some (accepted_row m now a r0)"
  proof -
    have "pg_uuid (ob_id row) = ob_id row" using can by (simp add: canonical_id_def pg_uuid_def)
    moreover have "find (\<lambda>r. ob_id r = ob_id row) (tbl_update ?due (accepted_row m now a) (h_outbound h)) =
        map_option (\<lambda>r. if ?due r then accepted_row m now a r else r) (find (\<lambda>r. ob_id r = ob_id row) (h_outbound h))"
      by (rule find_tbl_update_frame) (simp add: id)
    ultimately show ?thesis using f st find_in_set [OF f] by simp
  qed
  have uu: "is_uuid (ob_id row)" using can by (simp add: canonical_id_def)
  obtain n h2 where un: "unlockDraftAfterSend (ob_id row)
      (h\<lparr>h_outbound := tbl_update ?due (accepted_row m now a) (h_outbound h)\<rparr>) = Inr (n, h2)"
    and h2: "h_messages h2 = h_messages h" "h_bodies h2 = h_bodies h"
      "h_outbound h2 = tbl_update ?due (accepted_row m now a) (h_outbound h)"
    by (simp add: unlockDraftAfterSend_def releaseDraftLock_def requireUuid_def uu fnd id Let_def)
  have "acceptance_tx p i now row parsed a seen h = Inr (accepted_row m now a r0, acceptance_event m a row h2)"
    using own by (simp add: acceptance_tx_def known Let_def c un)
  moreover have "accepted_row m now a r0 \<in> set (h_outbound h2)"
    using find_in_set [OF fnd] h2(3) by simp
  ultimately show ?thesis using h2 by (simp add: acceptance_event_def)
qed

section \<open>Properties of submission\<close>

text \<open>
  C2. A submission needs everything the record promises. An execution that reaches SMTP, whatever
  other writers do at its awaits, found the row queued and the service ready in the generation
  the row was queued with when it began; its claim found the row still queued; the submission
  settings of the account resolved; and the bytes stored when it read them hash to the frozen
  value. It made exactly one call, with the envelope of the claimed row and exactly those bytes.
  The readiness is that of the beginning: see \<open>claim_does_not_recheck\<close>.
\<close>

theorem submission_needs_everything:
  assumes "own_calls cx" and "h_smtpCalls (snd (executeOutbound p cx i h)) \<noteq> h_smtpCalls h"
  shows "\<exists>r0 r h1 resolve cr rq.
    find (\<lambda>r. ob_id r = pg_uuid i) (h_outbound h) = Some r0 \<and> ob_status r0 = Queued \<and>
    readStatus (sp_controls p) h = Ready_State (to_lower (trim_string (ob_recoveryGeneration r0))) \<and>
    r \<in> set (h_outbound (cx_rely cx 0 h)) \<and> ob_id r = pg_uuid i \<and> ob_status r = Queued \<and>
    claimOutbound (cx_now cx 0) (pg_uuid i) (cx_rely cx 0 h) = (Some (mark_sending (cx_now cx 0) r), h1) \<and>
    sp_resolveCredentials p = Some resolve \<and> resolve (ob_accountId r) = Inr cr \<and>
    h_durable (cx_rely cx 1 h1) (ob_mimeStorageKey r) = Some (rq_raw rq) \<and>
    sp_sha256 p (rq_raw rq) = ob_mimeSha256 r \<and>
    rq_from rq = ob_envelopeSender r \<and> rq_to rq = ob_envelopeRecipients r \<and>
    h_smtpCalls (snd (executeOutbound p cx i h)) = h_smtpCalls h @ [(pg_uuid i, rq)]"
proof -
  from executeOutbound_calls [OF assms] obtain r0 resolve row h1 rq bs
    where 0: "find (\<lambda>r. ob_id r = pg_uuid i) (h_outbound h) = Some r0" "ob_status r0 = Queued"
      and ready: "is_ready (readStatus (sp_controls p) h)"
        "assessJob (readStatus (sp_controls p) h) (ob_recoveryGeneration r0) \<noteq> Job_Stale"
      and res: "sp_resolveCredentials p = Some resolve"
      and c: "claimOutbound (cx_now cx 0) (pg_uuid i) (cx_rely cx 0 h) = (Some row, h1)"
      and prep: "prepareSubmission p resolve row (cx_rely cx 1 h1) = Prep_Submit rq bs"
      and calls: "h_smtpCalls (snd (executeOutbound p cx i h)) = h_smtpCalls h @ [(ob_id row, rq)]"
    by metis
  from ready have st: "readStatus (sp_controls p) h =
      Ready_State (to_lower (trim_string (ob_recoveryGeneration r0)))"
    by (auto simp: is_ready_def assessJob_def split: control_status.splits if_splits)
  from claimOutbound_frame [OF c] obtain r where r: "r \<in> set (h_outbound (cx_rely cx 0 h))"
    "ob_id r = pg_uuid i" "ob_status r = Queued" "row = mark_sending (cx_now cx 0) r" by auto
  have row: "ob_id row = ob_id r" "ob_envelopeSender row = ob_envelopeSender r"
    "ob_envelopeRecipients row = ob_envelopeRecipients r" "ob_mimeSha256 row = ob_mimeSha256 r"
    "ob_mimeStorageKey row = ob_mimeStorageKey r" "ob_accountId row = ob_accountId r"
    by (simp_all add: r(4) mark_sending_def)
  obtain cr where "resolve (ob_accountId row) = Inr cr"
    using prep by (auto simp: prepareSubmission_def split: option.splits if_splits sum.splits)
  with prepareSubmission_submit [OF prep] 0 st res c calls r row show ?thesis
    by (intro exI [of _ r0] exI [of _ r] exI [of _ h1] exI [of _ resolve] exI [of _ cr] exI [of _ rq]) simp
qed

lemma quiet_quiet [simp]: "quiet quiet_ctx"
  by (simp add: quiet_def quiet_ctx_def)

lemma own_quiet: "own_calls quiet_ctx"
  by (simp add: own_calls_def quiet_ctx_def)

lemma demo_execute_calls:
  "h_smtpCalls (snd (executeOutbound demo_send quiet_ctx demo_outbound_id queued_hub)) \<noteq> []"
proof -
  have ready: "readStatus demo_controls queued_hub = Ready_State demo_gen"
    by (simp add: readStatus_ready_iff ready_hub_def)
  have ids: "ob_id demo_outbound = demo_outbound_id" "ob_status demo_outbound = Queued"
    "ob_recoveryGeneration demo_outbound = demo_gen" by (simp_all add: demo_outbound_def)
  have prep: "prepareSubmission demo_send (\<lambda>_. Inr demo_credentials) demo_claimed
      (queued_hub\<lparr>h_outbound := [demo_claimed]\<rparr>) =
     Prep_Submit (smtp_request_of demo_credentials demo_claimed demo_bytes) demo_bytes"
    using demo_prepare by (simp add: prepareSubmission_def)
  have sp: "sp_controls demo_send = demo_controls" "sp_resolveCredentials demo_send = Some (\<lambda>_. Inr demo_credentials)"
    and "\<exists>submit. sp_submit demo_send = Some submit" by (simp_all add: demo_send_def)
  then obtain submit where sub: "sp_submit demo_send = Some submit" by blast
  have "executeOutbound demo_send quiet_ctx demo_outbound_id queued_hub =
      finish_run True (submitClaimed demo_send quiet_ctx submit (\<lambda>_. Inr demo_credentials) demo_claimed
        (queued_hub\<lparr>h_outbound := [demo_claimed]\<rparr>))"
    using demo_claim
    by (simp add: executeOutbound_def requireUuidS_def sub sp ids ready is_ready_def assessJob_def quiet_ctx_def)
  then show ?thesis
    using prep by (simp add: submitClaimed_calls [OF own_quiet] del: own_callsD)
qed

theorem submission_needs_everything_witness:
  "\<exists>rq. h_smtpCalls (snd (executeOutbound demo_send quiet_ctx demo_outbound_id queued_hub)) =
     [(demo_outbound_id, rq)] \<and> rq_to rq = [''bob@x.org''] \<and> rq_raw rq = demo_bytes"
proof -
  have "h_smtpCalls (snd (executeOutbound demo_send quiet_ctx demo_outbound_id queued_hub)) \<noteq>
      h_smtpCalls queued_hub" using demo_execute_calls by simp
  from submission_needs_everything [OF own_quiet this] obtain r h1 rq where
    r: "r \<in> set (h_outbound (cx_rely quiet_ctx 0 queued_hub))"
    and c: "claimOutbound (cx_now quiet_ctx 0) (pg_uuid demo_outbound_id) (cx_rely quiet_ctx 0 queued_hub) =
      (Some (mark_sending (cx_now quiet_ctx 0) r), h1)"
    and d: "h_durable (cx_rely quiet_ctx 1 h1) (ob_mimeStorageKey r) = Some (rq_raw rq)"
    and to: "rq_to rq = ob_envelopeRecipients r"
    and calls: "h_smtpCalls (snd (executeOutbound demo_send quiet_ctx demo_outbound_id queued_hub)) =
      h_smtpCalls queued_hub @ [(pg_uuid demo_outbound_id, rq)]" by blast
  have q: "cx_rely quiet_ctx k h = h" for k h by (simp add: quiet_ctx_def)
  from r q have "r = demo_outbound" by simp
  moreover have "h_durable h1 = h_durable queued_hub"
    using c q by (auto simp: claimOutbound_def split: prod.splits)
  ultimately show ?thesis using d to calls q by (simp add: demo_outbound_def)
qed

text \<open>
  The claim does not read the service state again: when an operator begins a recovery between
  the status check and the claim, the send of the old generation is still submitted, while the
  service is reconciling.
\<close>

definition recovering_ctx :: run_ctx where
  "recovering_ctx = quiet_ctx\<lparr>cx_rely := (\<lambda>k h. if k = 0
     then snd (beginRecovery (demo_controls\<lparr>rv_deployment := Some demo_upload_id\<rparr>) 9 h) else h)\<rparr>"

lemma claim_does_not_recheck:
  "\<not> is_ready (readStatus (demo_controls\<lparr>rv_deployment := Some demo_upload_id\<rparr>) (cx_rely recovering_ctx 0 queued_hub)) \<and>
   h_smtpCalls (snd (executeOutbound demo_send recovering_ctx demo_outbound_id queued_hub)) \<noteq> []"
proof
  let ?g = "cx_rely recovering_ctx 0 queued_hub"
  have svc: "h_serviceState queued_hub = Some \<lparr>ss_recoveryGeneration = demo_gen, ss_recoveryMode = Mode_Ready, ss_updatedAt = 0\<rparr>"
    by (simp add: ready_hub_def)
  have ne: "demo_gen \<noteq> demo_upload_id" by code_simp
  have g: "h_outbound ?g = [demo_outbound]" "h_durable ?g = h_durable queued_hub" "h_smtpCalls ?g = []"
    "map_option ss_recoveryMode (h_serviceState ?g) = Some Mode_Reconciling"
    using svc ne by (simp_all add: recovering_ctx_def beginRecovery_def revokeRestoredAuth_def add_event_def)
  then show "\<not> is_ready (readStatus (demo_controls\<lparr>rv_deployment := Some demo_upload_id\<rparr>) ?g)"
    by (auto simp: readStatus_def classifyControlState_def is_ready_def split: option.splits)
  have ids: "ob_id demo_outbound = demo_outbound_id" "ob_status demo_outbound = Queued"
    "ob_recoveryGeneration demo_outbound = demo_gen" by (simp_all add: demo_outbound_def)
  have ready: "readStatus demo_controls queued_hub = Ready_State demo_gen"
    by (simp add: readStatus_ready_iff ready_hub_def)
  have sp: "sp_controls demo_send = demo_controls" "sp_resolveCredentials demo_send = Some (\<lambda>_. Inr demo_credentials)"
    and "\<exists>submit. sp_submit demo_send = Some submit" by (simp_all add: demo_send_def)
  then obtain submit where sub: "sp_submit demo_send = Some submit" by blast
  have c: "claimOutbound 4 demo_outbound_id ?g = (Some demo_claimed, ?g\<lparr>h_outbound := [demo_claimed]\<rparr>)"
    using g(1) by (simp add: claimOutbound_def claim_queued_def claim_first_def demo_claimed_def ids)
  have prep: "prepareSubmission demo_send (\<lambda>_. Inr demo_credentials) demo_claimed (?g\<lparr>h_outbound := [demo_claimed]\<rparr>) =
     Prep_Submit (smtp_request_of demo_credentials demo_claimed demo_bytes) demo_bytes"
    using demo_prepare g(2) by (simp add: prepareSubmission_def)
  have own: "own_calls recovering_ctx"
    by (simp add: own_calls_def recovering_ctx_def quiet_ctx_def beginRecovery_def revokeRestoredAuth_def
        add_event_def split: option.split)
  have r1: "cx_rely recovering_ctx (Suc 0) h = h" "cx_now recovering_ctx k = 4" for h k
    by (simp_all add: recovering_ctx_def quiet_ctx_def)
  have "executeOutbound demo_send recovering_ctx demo_outbound_id queued_hub =
      finish_run True (submitClaimed demo_send recovering_ctx submit (\<lambda>_. Inr demo_credentials) demo_claimed
        (?g\<lparr>h_outbound := [demo_claimed]\<rparr>))"
    using c by (simp add: executeOutbound_def requireUuidS_def sub sp ids ready is_ready_def assessJob_def r1)
  then show "h_smtpCalls (snd (executeOutbound demo_send recovering_ctx demo_outbound_id queued_hub)) \<noteq> []"
    using prep by (simp add: submitClaimed_calls [OF own])
qed

text \<open>
  No acceptance without its transition: when the row left the status the attempt started
  from, for example because a lease hold declared the attempt abandoned, an accepted submission
  commits nothing, neither message nor event nor lock release; the caller reads the row as it is.
\<close>

theorem superseded_acceptance_commits_nothing:
  assumes "sp_parseMime p (am_bytes a) = Inr parsed" and "h1 = cx_rely cx 3 h" and "cx_rely cx 4 h1 = h1"
    and "\<not> due_in (am_fromStatus a) row h1" and "cx_ids cx 2 \<notin> ms_id ` set (h_messages h1)"
    and "cx_ids cx 3 \<notin> ms_id ` set (h_messages h1)"
  shows "commitAcceptance p cx row a h = (Inr (current_row row h1), h1)"
proof -
  let ?acc = "ob_accountId row" and ?sha = "ob_mimeSha256 row"
  have "acceptance_tx p (cx_ids cx 3) (cx_now cx 3) row parsed a h1 h1 = Inl Acceptance_Superseded"
  proof (cases "findMessageByHash ?acc ?sha h1")
    case None
    then have "\<not> list_ex (\<lambda>m. ms_id m = cx_ids cx 3 \<or> (ms_accountId m = ?acc \<and> ms_originalSha256 m = Some ?sha)) (h_messages h1)"
      using assms(6) by (auto simp: findMessageByHash_None list_ex_iff image_iff)
    then show ?thesis using acceptance_tx_superseded [OF assms(4)] by simp
  qed (simp add: acceptance_tx_superseded [OF assms(4)])
  moreover have "acceptance_tx p (cx_ids cx 2) (cx_now cx 2) row parsed a h h1 \<in>
      {Inl Acceptance_Superseded, Inl Unique_Violation}"
    by (simp add: acceptance_tx_superseded [OF assms(4)])
  ultimately show ?thesis
    using assms(1-3) by (auto simp: commitAcceptance_def Let_def)
qed

definition demo_acceptance :: acceptance where
  "demo_acceptance = \<lparr>am_fromStatus = Sending, am_bytes = demo_bytes, am_smtpResponse = None,
     am_recipientResults = [], am_sentCopy = None, am_evidence = None\<rparr>"

definition held_hub :: hub where
  "held_hub = queued_hub\<lparr>h_outbound := [demo_claimed\<lparr>ob_status := Outcome_Unknown\<rparr>]\<rparr>"

theorem superseded_acceptance_commits_nothing_witness:
  "commitAcceptance demo_send quiet_ctx demo_claimed demo_acceptance held_hub =
     (Inr (demo_claimed\<lparr>ob_status := Outcome_Unknown\<rparr>), held_hub)"
proof -
  have "h_messages held_hub = []" by (simp add: held_hub_def queued_hub_def ready_hub_def empty_hub_def)
  then have "commitAcceptance demo_send quiet_ctx demo_claimed demo_acceptance held_hub =
      (Inr (current_row demo_claimed held_hub), held_hub)"
    by (intro superseded_acceptance_commits_nothing [where parsed = "\<lparr>pm_messageId = None, pm_sentAt = Some 5, pm_attachments = []\<rparr>"])
       (simp_all add: demo_send_def quiet_ctx_def due_in_def held_hub_def demo_acceptance_def)
  then show ?thesis by (simp add: current_row_def held_hub_def)
qed

text \<open>
  A racing import is absorbed: when the Sent folder's import stores the same original
  between the lookup and the insert of an acceptance, the unique index turns the first attempt
  away and the second links the imported message; the send is accepted and no second message or
  body is stored.
\<close>

theorem racing_import_reused:
  assumes "sp_parseMime p (am_bytes a) = Inr parsed" and "h1 = cx_rely cx 3 h" and "cx_rely cx 4 h1 = h1"
    and "am_fromStatus a \<in> {Sending, Outcome_Unknown}" and "canonical_id (ob_id row)"
    and "find (\<lambda>r. ob_id r = ob_id row) (h_outbound h1) = Some r0" and "ob_status r0 = am_fromStatus a"
    and "findMessageByHash (ob_accountId row) (ob_mimeSha256 row) h = None"
    and "findMessageByHash (ob_accountId row) (ob_mimeSha256 row) h1 = Some m"
    and "\<not> list_ex (\<lambda>r. ob_id r \<noteq> ob_id row \<and> ob_logicalMessageId r = Some m) (h_outbound h1)"
  shows "\<exists>r' h'. commitAcceptance p cx row a h = (Inr r', h') \<and> r' \<in> set (h_outbound h') \<and>
    ob_status r' = Sent \<and> ob_logicalMessageId r' = Some m \<and>
    h_messages h' = h_messages h1 \<and> h_bodies h' = h_bodies h1"
proof -
  have "list_ex (\<lambda>x. ms_id x = cx_ids cx 2 \<or> (ms_accountId x = ob_accountId row \<and>
      ms_originalSha256 x = Some (ob_mimeSha256 row))) (h_messages h1)"
    using findMessageByHash_Some [OF assms(9)] by (auto simp: list_ex_iff)
  then have first: "acceptance_tx p (cx_ids cx 2) (cx_now cx 2) row parsed a h h1 = Inl Unique_Violation"
    by (simp add: acceptance_tx_def assms(8) insertLocalSentMessage_def)
  from acceptance_tx_due [OF assms(6,7,4,5,9,10), of p "cx_ids cx 3" "cx_now cx 3" parsed] obtain h'
    where second: "acceptance_tx p (cx_ids cx 3) (cx_now cx 3) row parsed a h1 h1 =
        Inr (accepted_row m (cx_now cx 3) a r0, h')"
      and h': "h_messages h' = h_messages h1" "h_bodies h' = h_bodies h1"
        "accepted_row m (cx_now cx 3) a r0 \<in> set (h_outbound h')" by blast
  have "ob_status (accepted_row m (cx_now cx 3) a r0) = Sent \<and>
      ob_logicalMessageId (accepted_row m (cx_now cx 3) a r0) = Some m"
    by (simp add: accepted_row_def Let_def split: option.split)
  moreover have "commitAcceptance p cx row a h = (Inr (accepted_row m (cx_now cx 3) a r0), h')"
    using assms(1-3) first second by (simp add: commitAcceptance_def Let_def)
  ultimately show ?thesis using h' by blast
qed

definition imported_message :: message_row where
  "imported_message = demo_parent\<lparr>ms_id := ''imported'', ms_accountId := demo_account,
     ms_originalSha256 := Some ''raw''\<rparr>"

definition race_ctx :: run_ctx where
  "race_ctx = quiet_ctx\<lparr>cx_rely := (\<lambda>k h. if k = 3 then h\<lparr>h_messages := [imported_message]\<rparr> else h)\<rparr>"

definition sending_hub :: hub where
  "sending_hub = queued_hub\<lparr>h_outbound := [demo_claimed]\<rparr>"

theorem racing_import_reused_witness:
  "\<exists>r' h'. commitAcceptance demo_send race_ctx demo_claimed demo_acceptance sending_hub = (Inr r', h') \<and>
     ob_status r' = Sent \<and> ob_logicalMessageId r' = Some ''imported'' \<and> h_messages h' = [imported_message]"
proof -
  let ?h1 = "sending_hub\<lparr>h_messages := [imported_message]\<rparr>"
  have cl: "ob_id demo_claimed = demo_outbound_id" "ob_status demo_claimed = Sending"
    "ob_accountId demo_claimed = demo_account" "ob_mimeSha256 demo_claimed = ''raw''"
    by (simp_all add: demo_claimed_def mark_sending_def demo_outbound_def)
  have im: "ms_id imported_message = ''imported''" "ms_accountId imported_message = demo_account"
    "ms_originalSha256 imported_message = Some ''raw''" by (simp_all add: imported_message_def)
  have "h_messages sending_hub = []"
    by (simp add: sending_hub_def queued_hub_def ready_hub_def empty_hub_def)
  moreover have "findMessageByHash demo_account ''raw'' ?h1 = Some ''imported''"
    by (cases "ms_sentAt imported_message") (simp_all add: findMessageByHash_def im)
  moreover have "canonical_id demo_outbound_id"
    using demo_ids(8) by (simp add: canonical_id_def pg_uuid_def)
  ultimately have "\<exists>r' h'. commitAcceptance demo_send race_ctx demo_claimed demo_acceptance sending_hub = (Inr r', h') \<and>
     r' \<in> set (h_outbound h') \<and> ob_status r' = Sent \<and> ob_logicalMessageId r' = Some ''imported'' \<and>
     h_messages h' = h_messages ?h1 \<and> h_bodies h' = h_bodies ?h1"
    by (intro racing_import_reused [where parsed = "\<lparr>pm_messageId = None, pm_sentAt = Some 5, pm_attachments = []\<rparr>" and ?r0.0 = demo_claimed])
       (simp_all add: cl demo_send_def race_ctx_def quiet_ctx_def demo_acceptance_def sending_hub_def
         findMessageByHash_None)
  then show ?thesis by auto
qed

section \<open>Queueing\<close>

lemma freezeSnapshot_queued:
  assumes "quiet cx" and "freezeSnapshot p cx input g h = (Inr row, h')"
  obtains fz where "composeSnapshot p cx input h = Inr fz"
    and "row = frozen_row p (cx_ids cx 1) (cx_now cx 1) g input fz"
    and "h_outbound h' = h_outbound h @ [row]" and "h_draftUploads h' = h_draftUploads h"
    and "readAttachmentLinks (dr_id (fz_draft fz)) h = map (\<lambda>(u, n, _). (up_id u, n)) (fz_attachments fz)"
    and "h_serviceState h' = h_serviceState h"
proof -
  from assms(2) obtain fz where fz: "composeSnapshot p cx input h = Inr fz"
    by (auto simp: freezeSnapshot_def split: sum.splits)
  let ?key = "outboundMimeKey (cx_ids cx 1)"
  from assms(2) fz obtain stored where put: "sp_put p ?key (fz_bytes fz) = Inr stored"
    by (auto simp: freezeSnapshot_def Let_def split: sum.splits)
  have "cx_rely cx 1 = (\<lambda>h. h)" using assms(1) by (simp add: quiet_def)
  with assms(2) fz put have tx: "freeze_tx p (cx_ids cx 1) (cx_now cx 1) g input fz
      (h\<lparr>h_durable := (h_durable h)(?key \<mapsto> so_bytes stored)\<rparr>) = Inr (row, h')"
    by (auto simp: freezeSnapshot_def Let_def split: if_splits dest: run_tx_value)
  have ss: "h_serviceState h' = h_serviceState h"
    using freeze_tx_service [OF tx] by simp
  have "readAttachmentLinks d (h\<lparr>h_durable := x\<rparr>) = readAttachmentLinks d h" for d x
    by (simp add: readAttachmentLinks_def draft_links_def)
  with freeze_tx_success [OF tx] fz ss show thesis by (intro that [of fz]) simp_all
qed

lemma composeSnapshot_draft:
  assumes "composeSnapshot p cx input h = Inr fz"
  shows "find (\<lambda>d. dr_id d = pg_uuid (qi_draftId input) \<and> dr_deletedAt d = None) (h_drafts h) = Some (fz_draft fz) \<and>
    dr_revision (fz_draft fz) = qi_baseRevision input \<and> dr_lockedBySend (fz_draft fz) = None \<and>
    fz_envelope fz = envelopeOf (fz_draft fz) \<and> fz_envelope fz \<noteq> [] \<and>
    loadVerifiedAttachments p (dr_accountId (fz_draft fz)) (dr_id (fz_draft fz)) h = Inr (fz_attachments fz) \<and>
    length (fz_bytes fz) \<le> MAX_MESSAGE_BYTES"
  using assms
  by (auto simp: composeSnapshot_def tx_simps loadEditableDraft_def Let_def split: option.splits)

text \<open>
  C6. Queueing is idempotent: once a request has queued its send, the same request (same key,
  draft and revision) from any client with the current generation is answered with the same
  snapshot and changes nothing; the same key with another draft or revision is refused as a
  conflict, on a hash that tells the two requests apart, and changes nothing either.
\<close>

theorem queue_is_idempotent:
  assumes "quiet cx" and "queueSend p cx q x h = (Inr (True, rec), h')"
    and "distinct (map ob_idempotencyKey (h_outbound h'))" and "is_uuid (qi_draftId x)"
    and "gateMutation (sp_controls p) q' h' = Inr g'"
    and "check_queue_input y = Inr ()" and "qi_idempotencyKey y = qi_idempotencyKey x"
  shows "queueSend p cx' q' y h' =
    (if hashRequest p (qi_draftId y) (qi_baseRevision y) (readAttachmentLinks (qi_draftId y) h') =
        hashRequest p (qi_draftId x) (qi_baseRevision x) (readAttachmentLinks (qi_draftId x) h')
     then Inr (False, rec) else Inl (send_fail SE_Idempotency_Conflict), h')"
proof -
  have qr: "cx_rely cx = (\<lambda>_ h. h)" using assms(1) by (simp add: quiet_def)
  from assms(2) obtain g row where f: "freezeSnapshot p cx x g h = (Inr row, h')" and rec: "rec = toOutboundRecord row"
    by (auto simp: queueSend_def replay_def existingSnapshot_def Let_def qr attempt_eq_Inr split: sum.splits prod.splits option.splits if_splits)
  from freezeSnapshot_queued [OF assms(1) f] obtain fz where fz: "composeSnapshot p cx x h = Inr fz"
    and row: "row = frozen_row p (cx_ids cx 1) (cx_now cx 1) g x fz"
    and out: "h_outbound h' = h_outbound h @ [row]" and du: "h_draftUploads h' = h_draftUploads h"
    and links: "readAttachmentLinks (dr_id (fz_draft fz)) h = map (\<lambda>(u, n, _). (up_id u, n)) (fz_attachments fz)"
    by metis
  have rk: "ob_idempotencyKey row = qi_idempotencyKey x" by (simp add: row frozen_row_def Let_def)
  have did: "dr_id (fz_draft fz) = pg_uuid (qi_draftId x)"
    using composeSnapshot_draft [OF fz] find_in_set by fastforce
  have same: "readAttachmentLinks d h' = readAttachmentLinks d h" for d
    using du by (simp add: readAttachmentLinks_def draft_links_def)
  have pg: "readAttachmentLinks (pg_uuid d) h = readAttachmentLinks d h" for d
    by (simp add: readAttachmentLinks_def)
  have rh: "ob_requestHash row = hashRequest p (qi_draftId x) (qi_baseRevision x)
      (readAttachmentLinks (qi_draftId x) h')"
    using links did by (simp add: row frozen_row_def Let_def same pg)
  have "row \<in> set (h_outbound h')" using out by simp
  from find_by_key_unique [OF assms(3) this] have "findByIdempotencyKey (qi_idempotencyKey y) h' = Some row"
    by (simp add: findByIdempotencyKey_def rk assms(7))
  then show ?thesis
    using assms(5,6) rh rec by (auto simp: queueSend_def Let_def existingSnapshot_def replay_def)
qed

definition demo_queue :: send_ports where
  "demo_queue = demo_send\<lparr>sp_parseMime := (\<lambda>_. Inr \<lparr>pm_messageId =
     Some (''<'' @ demo_upload_id @ ''@x.org>''), pm_sentAt = None, pm_attachments = []\<rparr>)\<rparr>"

definition demo_queue_input :: queue_input where
  "demo_queue_input = \<lparr>qi_draftId = demo_draft_id, qi_idempotencyKey = ''k9'', qi_baseRevision = 3\<rparr>"

definition demo_frozen :: frozen_send where
  "demo_frozen = \<lparr>fz_draft = demo_draft, fz_envelope = [''bob@x.org''], fz_attachments = [],
     fz_html = ''text'', fz_rfcMessageId = ''<'' @ demo_upload_id @ ''@x.org>'', fz_bytes = demo_bytes\<rparr>"

lemma ready_hub_tables [simp]:
  "h_drafts ready_hub = [demo_draft]" "h_draftUploads ready_hub = []" "h_uploads ready_hub = []"
  "h_outbound ready_hub = []" "h_outboundUploads ready_hub = []" "h_smtpCalls ready_hub = []"
  by (simp_all add: ready_hub_def empty_hub_def)

lemma demo_rfc: "generateRfcMessageId ''me@x.org'' demo_upload_id = ''<'' @ demo_upload_id @ ''@x.org>''"
proof -
  have "split_on (CHR 0x40) ''me@x.org'' = [''me'', ''x.org'']" by code_simp
  then show ?thesis by (simp add: generateRfcMessageId_def)
qed

lemma demo_draft_fields [simp]:
  "dr_id demo_draft = demo_draft_id" "dr_deletedAt demo_draft = None" "dr_revision demo_draft = 3"
  "dr_lockedBySend demo_draft = None" "dr_accountId demo_draft = demo_account"
  "ea_address (dr_identity demo_draft) = ''me@x.org''" "dr_markdown demo_draft = ''text''"
  "envelopeOf demo_draft = [''bob@x.org'']"
  by (simp_all add: demo_draft_def envelopeOf_def all_recipients_def optional_list_def)

lemma demo_compose: "composeSnapshot demo_queue quiet_ctx demo_queue_input ready_hub = Inr demo_frozen"
proof -
  have p: "sp_composeMime demo_queue m = Some demo_bytes" "sp_renderMarkdown demo_queue = (\<lambda>m. m)"
    "cx_ids quiet_ctx k = demo_upload_id" for m k
    by (simp_all add: demo_queue_def demo_send_def quiet_ctx_def)
  have v: "verifyComposedMessage demo_queue demo_bytes (''<'' @ demo_upload_id @ ''@x.org>'') 0 = Inr ()"
    by (simp add: verifyComposedMessage_def demo_queue_def)
  have l: "length demo_bytes \<le> MAX_MESSAGE_BYTES" by (simp add: demo_bytes_def MAX_MESSAGE_BYTES_def)
  show ?thesis
    using v l by (simp add: composeSnapshot_def loadEditableDraft_def demo_queue_input_def p demo_rfc
        loadVerifiedAttachments_def draft_links_def ATTACHMENTS_TOTAL_MAX_BYTES_def Let_def demo_frozen_def
        map_filter_simps)
qed

lemma demo_freeze:
  "\<exists>row h'. freezeSnapshot demo_queue quiet_ctx demo_queue_input demo_gen ready_hub = (Inr row, h') \<and>
     h_outbound h' = [row] \<and> h_serviceState h' = h_serviceState ready_hub"
proof -
  have put: "sp_put demo_queue k demo_bytes = Inr \<lparr>so_sha256 = sp_sha256 demo_queue demo_bytes,
      so_sizeBytes = int (length demo_bytes), so_bytes = demo_bytes\<rparr>" for k
    by (simp add: demo_queue_def demo_send_def)
  have n: "normalizeRecipients (Some (dr_recipients demo_draft)) = Inr (dr_recipients demo_draft)" by code_simp
  have c: "cx_ids quiet_ctx k = demo_upload_id" "cx_rely quiet_ctx k = (\<lambda>h. h)" for k
    by (simp_all add: quiet_ctx_def)
  let ?h = "ready_hub\<lparr>h_durable := (h_durable ready_hub)(outboundMimeKey demo_upload_id \<mapsto> demo_bytes)\<rparr>"
  have b: "fz_bytes demo_frozen = demo_bytes" by (simp add: demo_frozen_def)
  have "freezeSnapshot demo_queue quiet_ctx demo_queue_input demo_gen ready_hub =
      run_tx (freeze_tx demo_queue demo_upload_id (cx_now quiet_ctx 1) demo_gen demo_queue_input demo_frozen) ?h"
    by (simp only: freezeSnapshot_def demo_compose) (simp add: b put c Let_def)
  then show ?thesis
    using n
    by (simp add: demo_frozen_def run_tx_def freeze_tx_def Let_def
        lockDraftRowS_def demo_queue_input_def readAttachmentLinks_def draft_links_def
        lockDraftForSend_def requireUuid_def lockDraftRow_def toDraftRecord_def attempt_def require_def)
qed

theorem queue_is_idempotent_witness:
  "\<exists>rec h'. queueSend demo_queue quiet_ctx (Some demo_gen) demo_queue_input ready_hub = (Inr (True, rec), h') \<and>
     queueSend demo_queue quiet_ctx (Some demo_gen) demo_queue_input h' = (Inr (False, rec), h')"
proof -
  have sp: "sp_controls demo_queue = demo_controls" by (simp add: demo_queue_def demo_send_def)
  have gate: "gateMutation demo_controls (Some demo_gen) h = Inr demo_gen"
    if "h_serviceState h = h_serviceState ready_hub" for h
    using that by (simp add: gateMutation_allow_iff decideMutationGate_allow_iff readStatus_ready_iff ready_hub_def)
  have chk: "check_queue_input demo_queue_input = Inr ()"
    by (simp add: check_queue_input_def demo_queue_input_def requireUuidS_def
        MAX_IDEMPOTENCY_KEY_LENGTH_def MAX_SAFE_INTEGER_def)
  from demo_freeze obtain row h' where f: "freezeSnapshot demo_queue quiet_ctx demo_queue_input demo_gen ready_hub = (Inr row, h')"
    and h': "h_outbound h' = [row]" "h_serviceState h' = h_serviceState ready_hub" by blast
  have q: "queueSend demo_queue quiet_ctx (Some demo_gen) demo_queue_input ready_hub = (Inr (True, toOutboundRecord row), h')"
    using f by (simp add: queueSend_def sp gate chk findByIdempotencyKey_def Let_def)
      (simp add: quiet_ctx_def)
  have "queueSend demo_queue quiet_ctx (Some demo_gen) demo_queue_input h' =
     (Inr (False, toOutboundRecord row), h')"
    using queue_is_idempotent [OF quiet_quiet q, of "Some demo_gen" demo_gen demo_queue_input quiet_ctx] h' sp gate chk
    by (simp add: demo_queue_input_def)
  with q show ?thesis by blast
qed

text \<open>
  C7. The snapshot is the draft at the moment of the lock: whatever edits other devices make
  between the first read and the freeze, a send that queues froze exactly the content (From,
  recipients, reply headers, subject, Markdown) and, in order, the attachments of the draft row
  the transaction locked.
\<close>

theorem snapshot_is_the_locked_draft:
  assumes "cx_rely cx 1 = run_composes cp ops" and "distinct (map dr_id (h_drafts h))"
    and "\<And>f. fresh_run cp ops (h\<lparr>h_durable := f\<rparr>)"
    and "freezeSnapshot p cx input g h = (Inr row, h')"
  shows "\<exists>bs. \<exists>d \<in> set (h_drafts (run_composes cp ops
        (h\<lparr>h_durable := (h_durable h)(ob_mimeStorageKey row \<mapsto> bs)\<rparr>))).
    ob_draftId row = Some (dr_id d) \<and> dr_lockedBySend d = None \<and> dr_deletedAt d = None \<and>
    ob_draftRevision row = dr_revision d \<and> ob_accountId row = dr_accountId d \<and>
    ob_identity row = dr_identity d \<and> ob_recipients row = dr_recipients d \<and>
    ob_envelopeRecipients row = envelopeOf d \<and> ob_subject row = dr_subject d \<and>
    ob_markdownSource row = dr_markdown d \<and> ob_inReplyTo row = dr_inReplyTo d \<and>
    ob_referenceIds row = dr_referenceIds d \<and> ob_threadId row = dr_threadId d"
proof -
  from assms(4) obtain fz where fz: "composeSnapshot p cx input h = Inr fz"
    by (auto simp: freezeSnapshot_def split: sum.splits)
  let ?key = "outboundMimeKey (cx_ids cx 1)"
  from assms(4) fz obtain stored where put: "sp_put p ?key (fz_bytes fz) = Inr stored"
    by (auto simp: freezeSnapshot_def Let_def split: sum.splits)
  let ?h0 = "h\<lparr>h_durable := (h_durable h)(?key \<mapsto> so_bytes stored)\<rparr>"
  from assms(1,4) fz put have tx: "freeze_tx p (cx_ids cx 1) (cx_now cx 1) g input fz
      (run_composes cp ops ?h0) = Inr (row, h')"
    by (auto simp: freezeSnapshot_def Let_def split: if_splits dest: run_tx_value)
  from freeze_tx_success [OF tx] obtain d where row: "row = frozen_row p (cx_ids cx 1) (cx_now cx 1) g input fz"
    and d: "d \<in> set (h_drafts (run_composes cp ops ?h0))" "dr_id d = dr_id (fz_draft fz)"
      "dr_lockedBySend d = None" "dr_deletedAt d = None" "dr_revision d = qi_baseRevision input"
    by blast
  note dr = composeSnapshot_draft [OF fz]
  have in0: "fz_draft fz \<in> set (h_drafts ?h0)" using find_in_set [OF dr [THEN conjunct1]] by simp
  have dist0: "distinct (map dr_id (h_drafts ?h0))" using assms(2) by simp
  from run_composes_content [OF dist0 assms(3) in0] obtain d2
    where d2: "d2 \<in> set (h_drafts (run_composes cp ops ?h0))" "dr_id d2 = dr_id (fz_draft fz)"
      "dr_revision (fz_draft fz) < dr_revision d2 \<or> draft_content d2 = draft_content (fz_draft fz)" by blast
  have "distinct (map dr_id (h_drafts (run_composes cp ops ?h0)))"
    using run_composes_revision [OF dist0 assms(3) in0] by simp
  from distinct_draft_id [OF this d2(1) d(1)] d(2) d2(2) have "d2 = d" by simp
  with d2(3) d(5) dr have c: "draft_content d = draft_content (fz_draft fz)" by simp
  have k: "ob_mimeStorageKey row = ?key" by (simp add: row frozen_row_def Let_def)
  have fields: "dr_revision d = dr_revision (fz_draft fz) \<and> dr_accountId d = dr_accountId (fz_draft fz) \<and>
    dr_identity d = dr_identity (fz_draft fz) \<and> dr_recipients d = dr_recipients (fz_draft fz) \<and>
    dr_subject d = dr_subject (fz_draft fz) \<and> dr_markdown d = dr_markdown (fz_draft fz) \<and>
    dr_inReplyTo d = dr_inReplyTo (fz_draft fz) \<and> dr_referenceIds d = dr_referenceIds (fz_draft fz) \<and>
    dr_threadId d = dr_threadId (fz_draft fz)"
    using c by (cases d; cases "fz_draft fz") (simp add: draft_content_def)
  have "d \<in> set (h_drafts (run_composes cp ops
        (h\<lparr>h_durable := (h_durable h)(ob_mimeStorageKey row \<mapsto> so_bytes stored)\<rparr>)))"
    using d(1) by (simp add: k)
  then show ?thesis
    using fields d dr
    by (intro exI [of _ "so_bytes stored"] bexI [of _ d]) (simp_all add: row frozen_row_def Let_def envelopeOf_def)
qed

theorem snapshot_is_the_locked_draft_witness:
  "\<exists>row. ob_subject row = Some ''hi'' \<and> ob_draftRevision row = 3 \<and>
     (\<exists>h'. freezeSnapshot demo_queue quiet_ctx demo_queue_input demo_gen ready_hub = (Inr row, h'))"
proof -
  from demo_freeze obtain row h' where f: "freezeSnapshot demo_queue quiet_ctx demo_queue_input demo_gen ready_hub = (Inr row, h')"
    by blast
  have "cx_rely quiet_ctx 1 = run_composes demo_ports []" by (simp add: quiet_ctx_def fun_eq_iff)
  from snapshot_is_the_locked_draft [OF this _ _ f] have "ob_subject row = dr_subject demo_draft \<and> ob_draftRevision row = 3"
    by auto
  with f show ?thesis by (auto simp: demo_draft_def)
qed

end
