(* ===== verification/Action_Kinds.thy ===== *)
theory Action_Kinds
  imports Hub_Errors "HOL-Library.Multiset"
begin

text \<open>
  The action kinds of \<open>packages/actions/src/kinds.ts\<close>: what each kind sets, the validation of a
  submission, its canonical scope and the frozen target of an item. Kinds are text, as in the
  database column. The hash of a scope is a parameter.
\<close>

section \<open>Kinds\<close>

record flag_desire =
  fd_flag :: flag_name
  fd_value :: bool

definition FLAG_KINDS :: "(string \<times> flag_desire) list" where
  "FLAG_KINDS =
     [(''mark_read'', \<lparr>fd_flag = Flag_Unread, fd_value = False\<rparr>),
      (''mark_unread'', \<lparr>fd_flag = Flag_Unread, fd_value = True\<rparr>),
      (''star'', \<lparr>fd_flag = Flag_Flagged, fd_value = True\<rparr>),
      (''unstar'', \<lparr>fd_flag = Flag_Flagged, fd_value = False\<rparr>)]"

definition ACTION_KINDS :: "string list" where
  "ACTION_KINDS = map fst FLAG_KINDS @ [''archive'', ''move'']"

definition isReplayableKind :: "string \<Rightarrow> bool" where
  "isReplayableKind kind \<longleftrightarrow> kind \<in> set (map fst FLAG_KINDS)"

definition requiresDestination :: "string \<Rightarrow> bool" where
  "requiresDestination kind \<longleftrightarrow> kind = ''archive'' \<or> kind = ''move''"

definition flagDesireOf :: "string \<Rightarrow> flag_desire option" where
  "flagDesireOf kind = map_of FLAG_KINDS kind"

definition MAX_ACTION_TARGETS :: nat where "MAX_ACTION_TARGETS = 500"
definition MAX_ACTION_KEY_LENGTH :: nat where "MAX_ACTION_KEY_LENGTH = 200"

section \<open>Submissions\<close>

record mail_submission =
  sm_accountId :: string
  sm_kind :: string
  sm_recoveryGeneration :: string
  sm_idempotencyKey :: string
  sm_occurrenceIds :: "string list"
  sm_destinationFolderId :: "string option"

abbreviation action_fail :: "action_error_code \<Rightarrow> hub_error" where
  "action_fail c \<equiv> Action_Err c"

definition validateSubmission :: "mail_submission \<Rightarrow> hub_error + unit" where
  "validateSubmission s =
     (let bad = action_fail AE_Invalid_Request; ids = distinct_in_order (sm_occurrenceIds s) in
      require (is_uuid (sm_accountId s)) bad
     (require (sm_idempotencyKey s \<noteq> []) bad
     (require (length (sm_idempotencyKey s) \<le> MAX_ACTION_KEY_LENGTH) bad
     (require (sm_kind s \<in> set ACTION_KINDS) bad
     (require (sm_occurrenceIds s \<noteq> []) bad
     (require (length ids \<le> MAX_ACTION_TARGETS) bad
     (require (list_all is_uuid ids) bad
     (require (if requiresDestination (sm_kind s)
               then (case sm_destinationFolderId s of None \<Rightarrow> False | Some d \<Rightarrow> is_uuid d)
               else sm_destinationFolderId s = None) bad (Inr ())))))))))"

definition canonicalScope :: "mail_submission \<Rightarrow> action_scope" where
  "canonicalScope s =
     \<lparr>sc_kind = sm_kind s, sc_accountId = to_lower (sm_accountId s),
      sc_occurrenceIds = sort (map to_lower (distinct_in_order (sm_occurrenceIds s))),
      sc_destinationFolderId = map_option to_lower (sm_destinationFolderId s)\<rparr>"

definition hashScope :: "(json \<Rightarrow> string) \<Rightarrow> action_scope \<Rightarrow> string" where
  "hashScope hashJson sc =
     hashJson (JObj [(''kind'', JStr (sc_kind sc)), (''accountId'', JStr (sc_accountId sc)),
       (''occurrenceIds'', JArr (map JStr (sc_occurrenceIds sc))),
       (''destinationFolderId'', json_opt JStr (sc_destinationFolderId sc))])"

definition frozenTarget :: "occurrence_row \<Rightarrow> action_target" where
  "frozenTarget oc =
     \<lparr>tg_occurrenceId = oc_id oc, tg_accountId = oc_accountId oc, tg_folderId = oc_folderId oc,
      tg_uidvalidity = oc_uidvalidity oc, tg_uid = oc_uid oc, tg_revision = oc_revision oc,
      tg_observed = Some \<lparr>to_unread = oc_unread oc, to_flagged = oc_flagged oc\<rparr>,
      tg_modseq = oc_modseq oc\<rparr>"

section \<open>Lemmas\<close>

lemma kinds_disjoint [simp]: "requiresDestination k \<Longrightarrow> \<not> isReplayableKind k"
  by (auto simp: requiresDestination_def isReplayableKind_def FLAG_KINDS_def)

lemma flagDesireOf_None_iff: "flagDesireOf k = None \<longleftrightarrow> \<not> isReplayableKind k"
  by (simp add: flagDesireOf_def isReplayableKind_def map_of_eq_None_iff)

lemma kind_cases:
  "k \<in> set ACTION_KINDS \<longleftrightarrow> isReplayableKind k \<or> requiresDestination k"
  by (auto simp: ACTION_KINDS_def isReplayableKind_def requiresDestination_def FLAG_KINDS_def)

lemma set_distinct_in_order [simp]: "set (distinct_in_order xs) = set xs"
  by (simp add: distinct_in_order_def)

lemma distinct_distinct_in_order [simp]: "distinct (distinct_in_order xs)"
  by (simp add: distinct_in_order_def)

lemma mset_distinct_in_order: "mset (distinct_in_order xs) = mset_set (set xs)"
  by (metis distinct_distinct_in_order mset_set_set set_distinct_in_order)

lemma sort_mset_eq: "mset xs = mset ys \<Longrightarrow> sort xs = sort ys"
  by (metis mset_sort properties_for_sort sorted_sort)

lemma canonicalScope_ids: "set (sc_occurrenceIds (canonicalScope s)) = to_lower ` set (sm_occurrenceIds s)"
  by (simp add: canonicalScope_def)

section \<open>The canonical scope\<close>

text \<open>
  The idempotency hash binds to what a request means: two submissions of the same kind and
  key that name the same account and destination up to letter case, and the same selection in
  any order and with any repetition, have the same hash; the stored scope is sorted, lower-case
  and at most 500 long where validation accepted the submission.
\<close>

theorem scope_is_canonical:
  assumes "sm_kind s = sm_kind t" and "to_lower (sm_accountId s) = to_lower (sm_accountId t)"
    and "set (sm_occurrenceIds s) = set (sm_occurrenceIds t)"
    and "map_option to_lower (sm_destinationFolderId s) = map_option to_lower (sm_destinationFolderId t)"
    and "validateSubmission s = Inr ()"
  shows "hashScope f (canonicalScope s) = hashScope f (canonicalScope t) \<and>
    sorted (sc_occurrenceIds (canonicalScope s)) \<and>
    (\<forall>i \<in> set (sc_occurrenceIds (canonicalScope s)). is_uuid i \<and> to_lower i = i) \<and>
    length (sc_occurrenceIds (canonicalScope s)) \<le> MAX_ACTION_TARGETS"
proof -
  have "mset (map to_lower (distinct_in_order (sm_occurrenceIds s))) =
      mset (map to_lower (distinct_in_order (sm_occurrenceIds t)))"
    by (simp add: mset_distinct_in_order assms(3))
  then have eq: "canonicalScope s = canonicalScope t"
    using assms(1,2,4) by (simp add: canonicalScope_def sort_mset_eq)
  have v: "length (distinct_in_order (sm_occurrenceIds s)) \<le> MAX_ACTION_TARGETS"
    "list_all is_uuid (distinct_in_order (sm_occurrenceIds s))"
    using assms(5) by (simp_all add: validateSubmission_def Let_def tx_simps)
  then have "\<forall>i \<in> set (sc_occurrenceIds (canonicalScope s)). is_uuid i \<and> to_lower i = i"
    by (auto simp: list_all_iff canonicalScope_def)
  moreover have "sorted (sc_occurrenceIds (canonicalScope s))"
    "length (sc_occurrenceIds (canonicalScope s)) \<le> MAX_ACTION_TARGETS"
    using v(1) by (simp_all add: canonicalScope_def)
  ultimately show ?thesis using eq by simp
qed

definition demo_submission :: mail_submission where
  "demo_submission =
     \<lparr>sm_accountId = ''AAAAAAAA-aaaa-aaaa-aaaa-aaaaaaaaaaaa'', sm_kind = ''move'',
      sm_recoveryGeneration = demo_gen, sm_idempotencyKey = ''k1'',
      sm_occurrenceIds = [''22222222-2222-2222-2222-222222222222'', ''11111111-1111-1111-1111-111111111111'',
        ''22222222-2222-2222-2222-222222222222''],
      sm_destinationFolderId = Some ''33333333-3333-3333-3333-333333333333''\<rparr>"

definition demo_equal_submission :: mail_submission where
  "demo_equal_submission = demo_submission\<lparr>sm_accountId := ''aaaaaaaa-aaaa-aaaa-aaaa-aaaaaaaaaaaa'',
     sm_occurrenceIds := [''11111111-1111-1111-1111-111111111111'', ''22222222-2222-2222-2222-222222222222'']\<rparr>"

lemma demo_submission_valid: "validateSubmission demo_submission = Inr ()"
proof -
  have u: "is_uuid ''AAAAAAAA-aaaa-aaaa-aaaa-aaaaaaaaaaaa''" "is_uuid ''11111111-1111-1111-1111-111111111111''"
    "is_uuid ''22222222-2222-2222-2222-222222222222''" "is_uuid ''33333333-3333-3333-3333-333333333333''"
    by code_simp+
  have k: "''move'' \<in> set ACTION_KINDS" by code_simp
  have d: "distinct_in_order (sm_occurrenceIds demo_submission) =
      [''22222222-2222-2222-2222-222222222222'', ''11111111-1111-1111-1111-111111111111'']"
    by (simp add: demo_submission_def distinct_in_order_def)
  show ?thesis
    using u k d
    by (simp add: validateSubmission_def Let_def demo_submission_def MAX_ACTION_TARGETS_def
        MAX_ACTION_KEY_LENGTH_def requiresDestination_def)
qed

theorem scope_is_canonical_witness:
  "\<forall>f. hashScope f (canonicalScope demo_submission) = hashScope f (canonicalScope demo_equal_submission)"
proof -
  have "to_lower ''AAAAAAAA-aaaa-aaaa-aaaa-aaaaaaaaaaaa'' = to_lower ''aaaaaaaa-aaaa-aaaa-aaaa-aaaaaaaaaaaa''"
    by code_simp
  then have "to_lower (sm_accountId demo_submission) = to_lower (sm_accountId demo_equal_submission)"
    by (simp add: demo_submission_def demo_equal_submission_def)
  moreover have "set (sm_occurrenceIds demo_submission) = set (sm_occurrenceIds demo_equal_submission)"
    by (auto simp: demo_submission_def demo_equal_submission_def)
  moreover have "sm_kind demo_submission = sm_kind demo_equal_submission"
    "map_option to_lower (sm_destinationFolderId demo_submission) =
     map_option to_lower (sm_destinationFolderId demo_equal_submission)"
    by (simp_all add: demo_equal_submission_def)
  ultimately show ?thesis
    using scope_is_canonical [OF _ _ _ _ demo_submission_valid] by blast
qed

end
