(* ===== verification/Action_Executor.thy ===== *)
theory Action_Executor
  imports Action_Kinds
begin

text \<open>
  The remote half of an action: the mailbox port of \<open>packages/actions/src/mailbox.ts\<close>, the executor
  interface of \<open>executor.ts\<close> and its implementation \<open>TwoWayActionExecutor\<close> of
  \<open>two-way-executor.ts\<close>. What a mailbox answers may depend on every call made so far, so a
  mailbox is a family of functions from the log of calls; a call that throws answers \<open>Inl\<close> with
  the message. The locale \<open>action_executor\<close> is what the action service relies on.
\<close>

section \<open>The mailbox\<close>

record mailbox_state =
  mx_uidValidity :: int
  mx_uidNext :: int

text \<open>\<open>mf_modseq\<close> distinguishes a modification sequence that is absent from one that is null.\<close>

record mailbox_flags =
  mf_uid :: int
  mf_unread :: bool
  mf_flagged :: bool
  mf_modseq :: "string option option"

record mailbox_capabilities =
  mc_condstore :: bool
  mc_move :: bool

datatype flag_write_result = Write_Accepted | Write_Rejected | Write_Uncertain string

record move_destination =
  md_folder :: string
  md_uidvalidity :: "int option"
  md_uid :: "int option"

datatype move_write_result = Move_Done move_destination | Move_Rejected | Move_Uncertain string

type_synonym mail_log = "mail_call list"

record action_mailbox =
  am_select :: "mail_log \<Rightarrow> string \<Rightarrow> string + mailbox_state"
  am_fetchFlags :: "mail_log \<Rightarrow> int list \<Rightarrow> string + mailbox_flags list"
  am_revalidate :: "mail_log \<Rightarrow> string + mailbox_state"
  am_capabilities :: "mail_log \<Rightarrow> string + mailbox_capabilities"
  am_writeFlag :: "mail_log \<Rightarrow> flag_write \<Rightarrow> string + flag_write_result"
  am_moveMessage :: "mail_log \<Rightarrow> move_write \<Rightarrow> string + move_write_result"

fun flag_value :: "flag_name \<Rightarrow> mailbox_flags \<Rightarrow> bool" where
  "flag_value Flag_Unread f = mf_unread f"
| "flag_value Flag_Flagged f = mf_flagged f"

section \<open>Items and outcomes\<close>

datatype desired_state = Desired_Flags flag_desire | Desired_Move uuid string

record prepared_item =
  pi_actionId :: uuid
  pi_itemKey :: string
  pi_kind :: string
  pi_accountId :: uuid
  pi_folder :: "uuid \<times> string \<times> int"
  pi_target :: action_target
  pi_remote :: mailbox_flags
  pi_desired :: desired_state

datatype executor_outcome =
    Ex_Confirmed mailbox_flags "move_destination option"
  | Ex_Conflicted string mailbox_flags
  | Ex_Unknown string "mailbox_flags option"
  | Ex_Failed string string

type_synonym executor =
  "action_mailbox \<Rightarrow> prepared_item \<Rightarrow> mail_log \<Rightarrow> (string + executor_outcome) \<times> mail_log"

section \<open>The two-way executor\<close>

definition message_or :: "string \<Rightarrow> string \<Rightarrow> string" where
  "message_or m fallback = (if m = [] then fallback else m)"

definition unknownOf :: "string \<Rightarrow> executor_outcome" where
  "unknownOf m = Ex_Unknown (message_or m ''The mailbox ended the write without an answer.'') None"

definition failed_outcome :: "string \<Rightarrow> string \<Rightarrow> executor_outcome" where
  "failed_outcome code m = Ex_Failed code (message_or m ''The mailbox capabilities could not be read.'')"

definition readback :: "action_mailbox \<Rightarrow> mail_log \<Rightarrow> int \<Rightarrow> string + mailbox_flags option" where
  "readback mb log uid =
     (case am_fetchFlags mb log [uid] of
        Inl m \<Rightarrow> Inl m
      | Inr [] \<Rightarrow> Inr None
      | Inr (f # _) \<Rightarrow> Inr (Some f))"

fun result_text :: "flag_write_result \<Rightarrow> string" where
  "result_text Write_Accepted = ''accepted''"
| "result_text Write_Rejected = ''rejected''"
| "result_text (Write_Uncertain _) = ''uncertain''"

text \<open>What the answer of a write and its readback mean; \<open>conditional\<close> when the write carried a condition.\<close>

definition classify_write ::
    "prepared_item \<Rightarrow> flag_desire \<Rightarrow> bool \<Rightarrow> flag_write_result \<Rightarrow> string + mailbox_flags option \<Rightarrow>
     executor_outcome" where
  "classify_write item desire conditional write back =
     (case back of
        Inl m \<Rightarrow>
          Ex_Unknown (''The '' @ result_text write @ '' write could not be read back: '' @
                      message_or m ''The connection dropped.'') (Some (pi_remote item))
      | Inr None \<Rightarrow>
          if write = Write_Accepted
          then Ex_Unknown ''The target left the folder before the write could be read back.''
                 (Some (pi_remote item))
          else Ex_Conflicted ''absent_remote'' (pi_remote item)
      | Inr (Some f) \<Rightarrow>
          if flag_value (fd_flag desire) f = fd_value desire then Ex_Confirmed f None
          else if write = Write_Rejected \<and> \<not> conditional
          then Ex_Failed ''write_rejected'' ''The server rejected the flag write.''
          else if write = Write_Accepted \<and> \<not> conditional then Ex_Confirmed f None
          else Ex_Conflicted (if conditional then ''condstore_rejected'' else ''write_rejected'') f)"

definition applyFlags ::
    "action_mailbox \<Rightarrow> prepared_item \<Rightarrow> flag_desire \<Rightarrow> bool \<Rightarrow> mail_log \<Rightarrow> executor_outcome \<times> mail_log" where
  "applyFlags mb item desire condstore log =
     (let captured = tg_modseq (pi_target item);
          conditional = (condstore \<and> captured \<noteq> None);
          uid = tg_uid (pi_target item);
          request = \<lparr>fw_uid = uid, fw_flag = fd_flag desire, fw_value = fd_value desire,
                     fw_unchangedSince = (if conditional then captured else None)\<rparr>;
          log1 = log @ [Call_Write (pi_actionId item) (pi_itemKey item) request]
      in case am_writeFlag mb log request of
           Inl m \<Rightarrow> (unknownOf m, log1)
         | Inr (Write_Uncertain reason) \<Rightarrow> (Ex_Unknown reason None, log1)
         | Inr write \<Rightarrow>
             (classify_write item desire conditional write (readback mb log1 uid),
              log1 @ [Call_Fetch [uid]]))"

definition applyMove ::
    "action_mailbox \<Rightarrow> prepared_item \<Rightarrow> string \<Rightarrow> bool \<Rightarrow> mail_log \<Rightarrow> executor_outcome \<times> mail_log" where
  "applyMove mb item destinationFolderName move log =
     (if \<not> move then
        (Ex_Failed ''move_unsupported''
           ''The server does not support MOVE, so move and archive are unavailable.'', log)
      else
        (let request = \<lparr>mw_uid = tg_uid (pi_target item), mw_destinationFolder = destinationFolderName\<rparr>;
             log1 = log @ [Call_Move (pi_actionId item) (pi_itemKey item) request]
         in case am_moveMessage mb log request of
              Inl m \<Rightarrow> (unknownOf m, log1)
            | Inr (Move_Uncertain reason) \<Rightarrow> (Ex_Unknown reason None, log1)
            | Inr Move_Rejected \<Rightarrow>
                (Ex_Failed ''move_rejected'' ''The server rejected the move.'', log1)
            | Inr (Move_Done d) \<Rightarrow> (Ex_Confirmed (pi_remote item) (Some d), log1)))"

definition twoWayApply :: executor where
  "twoWayApply mb item log =
     (let log1 = log @ [Call_Capabilities]
      in case am_capabilities mb log of
           Inl m \<Rightarrow> (Inr (failed_outcome ''capability_error'' m), log1)
         | Inr caps \<Rightarrow>
             (case pi_desired item of
                Desired_Flags desire \<Rightarrow>
                  (case applyFlags mb item desire (mc_condstore caps) log1 of (r, log2) \<Rightarrow> (Inr r, log2))
              | Desired_Move _ name \<Rightarrow>
                  (case applyMove mb item name (mc_move caps) log1 of (r, log2) \<Rightarrow> (Inr r, log2))))"

section \<open>The executor interface\<close>

text \<open>
  A mutating call, and whether it is the one a prepared item asks for: the item's own flag at its
  desired value on its own UID, or its move to the resolved folder.
\<close>

fun is_mutation :: "mail_call \<Rightarrow> bool" where
  "is_mutation (Call_Write _ _ _) = True"
| "is_mutation (Call_Move _ _ _) = True"
| "is_mutation _ = False"

definition mutations :: "mail_log \<Rightarrow> mail_log" where
  "mutations log = filter is_mutation log"

fun serves :: "prepared_item \<Rightarrow> mail_call \<Rightarrow> bool" where
  "serves item (Call_Write a k w) \<longleftrightarrow>
     a = pi_actionId item \<and> k = pi_itemKey item \<and> fw_uid w = tg_uid (pi_target item) \<and>
     pi_desired item = Desired_Flags \<lparr>fd_flag = fw_flag w, fd_value = fw_value w\<rparr> \<and>
     fw_unchangedSince w \<in> {None, tg_modseq (pi_target item)}"
| "serves item (Call_Move a k w) \<longleftrightarrow>
     a = pi_actionId item \<and> k = pi_itemKey item \<and> mw_uid w = tg_uid (pi_target item) \<and>
     (\<exists>d. pi_desired item = Desired_Move d (mw_destinationFolder w))"
| "serves item (Call_Fetch uids) \<longleftrightarrow> uids = [tg_uid (pi_target item)]"
| "serves item Call_Capabilities \<longleftrightarrow> True"
| "serves item _ \<longleftrightarrow> False"

locale action_executor =
  fixes apply_item :: executor
  assumes apply_log: "\<exists>new. snd (apply_item mb item log) = log @ new \<and> list_all (serves item) new \<and>
      length (mutations new) \<le> 1"
    and apply_moved: "fst (apply_item mb item log) = Inr (Ex_Confirmed f (Some d)) \<Longrightarrow>
      \<exists>i name. pi_desired item = Desired_Move i name"
begin

lemma mutations_grow:
  obtains new where "snd (apply_item mb item log) = log @ new"
    and "mutations (snd (apply_item mb item log)) = mutations log @ mutations new"
    and "\<forall>c \<in> set new. serves item c" and "length (mutations new) \<le> 1"
  using apply_log [of mb item log] by (auto simp: mutations_def list_all_iff)

lemma at_most_one_mutation:
  "length (mutations (snd (apply_item mb item log))) \<le> Suc (length (mutations log))"
  by (rule mutations_grow [of mb item log]) simp

lemma mutation_served:
  assumes "c \<in> set (mutations (snd (apply_item mb item log)))" and "c \<notin> set (mutations log)"
  shows "serves item c"
proof -
  obtain new where "mutations (snd (apply_item mb item log)) = mutations log @ mutations new"
    and "\<forall>c \<in> set new. serves item c"
    by (rule mutations_grow)
  with assms have "c \<in> set (mutations new)" by simp
  then show ?thesis using \<open>\<forall>c \<in> set new. serves item c\<close> by (simp add: mutations_def)
qed

end

lemma applyFlags_log:
  assumes "pi_desired item = Desired_Flags desire"
  shows "\<exists>new. snd (applyFlags mb item desire condstore log) = log @ new \<and> list_all (serves item) new \<and>
    length (mutations new) \<le> 1"
  using assms by (auto simp: applyFlags_def Let_def mutations_def split: sum.splits flag_write_result.splits)

lemma applyMove_log:
  assumes "pi_desired item = Desired_Move d name"
  shows "\<exists>new. snd (applyMove mb item name move log) = log @ new \<and> list_all (serves item) new \<and>
    length (mutations new) \<le> 1"
  using assms by (auto simp: applyMove_def Let_def mutations_def split: sum.splits move_write_result.splits)

lemma classify_write_not_moved: "classify_write item desire c w back \<noteq> Ex_Confirmed f (Some d)"
  by (auto simp: classify_write_def split: sum.splits option.splits)

lemma applyFlags_not_moved: "fst (applyFlags mb item desire condstore log) \<noteq> Ex_Confirmed f (Some d)"
  by (auto simp: applyFlags_def Let_def unknownOf_def classify_write_not_moved
      split: sum.splits flag_write_result.splits)

interpretation two_way: action_executor twoWayApply
proof
  fix mb item log
  show "\<exists>new. snd (twoWayApply mb item log) = log @ new \<and> list_all (serves item) new \<and>
      length (mutations new) \<le> 1"
  proof (cases "am_capabilities mb log")
    case (Inl m)
    then show ?thesis by (simp add: twoWayApply_def Let_def mutations_def)
  next
    case (Inr caps)
    show ?thesis
    proof (cases "pi_desired item")
      case (Desired_Flags desire)
      from applyFlags_log [OF this, of mb "mc_condstore caps" "log @ [Call_Capabilities]"] Inr Desired_Flags
      show ?thesis by (auto simp: twoWayApply_def Let_def mutations_def split: prod.splits)
    next
      case (Desired_Move d name)
      from applyMove_log [OF this, of mb "mc_move caps" "log @ [Call_Capabilities]"] Inr Desired_Move
      show ?thesis by (auto simp: twoWayApply_def Let_def mutations_def split: prod.splits)
    qed
  qed
next
  fix mb item log f d
  assume "fst (twoWayApply mb item log) = Inr (Ex_Confirmed f (Some d))"
  then show "\<exists>i name. pi_desired item = Desired_Move i name"
    using applyFlags_not_moved
    by (auto simp: twoWayApply_def Let_def failed_outcome_def split: sum.splits desired_state.splits prod.splits
        dest: arg_cong [where f = fst])
qed

section \<open>What a receipt means\<close>

fun refused :: "action_mailbox \<Rightarrow> mail_log \<Rightarrow> mail_call \<Rightarrow> bool" where
  "refused mb log (Call_Write _ _ w) \<longleftrightarrow> am_writeFlag mb log w = Inr Write_Rejected"
| "refused mb log (Call_Move _ _ w) \<longleftrightarrow> am_moveMessage mb log w = Inr Move_Rejected"
| "refused mb log _ \<longleftrightarrow> False"

text \<open>The flag write was answered, and the readback saw these flags or that the message is gone.\<close>

definition read_after ::
    "action_mailbox \<Rightarrow> mail_log \<Rightarrow> uuid \<Rightarrow> string \<Rightarrow> flag_write \<Rightarrow> mailbox_flags option \<Rightarrow> bool" where
  "read_after mb log a k w back \<longleftrightarrow> readback mb (log @ [Call_Write a k w]) (fw_uid w) = Inr back"

fun honest :: "action_mailbox \<Rightarrow> mail_log \<Rightarrow> mail_log \<Rightarrow> mailbox_flags \<Rightarrow> executor_outcome \<Rightarrow> bool" where
  "honest mb log calls remote (Ex_Failed _ _) \<longleftrightarrow>
     calls = [] \<or> refused mb log (hd calls)"
| "honest mb log calls remote (Ex_Confirmed f None) \<longleftrightarrow>
     (\<exists>a k w. calls = [Call_Write a k w, Call_Fetch [fw_uid w]] \<and> read_after mb log a k w (Some f) \<and>
        (flag_value (fw_flag w) f = fw_value w \<or>
         fw_unchangedSince w = None \<and> am_writeFlag mb log w = Inr Write_Accepted))"
| "honest mb log calls remote (Ex_Confirmed f (Some d)) \<longleftrightarrow>
     f = remote \<and> (\<exists>a k w. calls = [Call_Move a k w] \<and> am_moveMessage mb log w = Inr (Move_Done d))"
| "honest mb log calls remote (Ex_Conflicted _ f) \<longleftrightarrow>
     (\<exists>a k w. calls = [Call_Write a k w, Call_Fetch [fw_uid w]] \<and>
        (if read_after mb log a k w None then f = remote \<and> am_writeFlag mb log w = Inr Write_Rejected
         else read_after mb log a k w (Some f) \<and> flag_value (fw_flag w) f \<noteq> fw_value w \<and>
              fw_unchangedSince w \<noteq> None))"
| "honest mb log calls remote (Ex_Unknown _ _) \<longleftrightarrow>
     calls \<noteq> [] \<and> \<not> (calls = [hd calls] \<and> refused mb log (hd calls))"

lemma applyFlags_honest:
  "\<exists>calls r. applyFlags mb item desire condstore log = (r, log @ calls) \<and>
     length (mutations calls) \<le> 1 \<and> honest mb log calls (pi_remote item) r"
proof -
  let ?uid = "tg_uid (pi_target item)"
  let ?cond = "condstore \<and> tg_modseq (pi_target item) \<noteq> None"
  let ?w = "\<lparr>fw_uid = ?uid, fw_flag = fd_flag desire, fw_value = fd_value desire,
              fw_unchangedSince = (if ?cond then tg_modseq (pi_target item) else None)\<rparr>"
  let ?c = "Call_Write (pi_actionId item) (pi_itemKey item) ?w"
  have lost: ?thesis if "applyFlags mb item desire condstore log = (Ex_Unknown m None, log @ [?c])"
    and "am_writeFlag mb log ?w \<noteq> Inr Write_Rejected" for m
    using that by (simp add: mutations_def)
  have answered: ?thesis if a: "am_writeFlag mb log ?w = Inr x" and x: "x = Write_Accepted \<or> x = Write_Rejected" for x
  proof -
    let ?seen = "readback mb (log @ [?c]) ?uid"
    have run: "applyFlags mb item desire condstore log = (classify_write item desire ?cond x ?seen, log @ [?c, Call_Fetch [?uid]])"
      using a x by (auto simp: applyFlags_def Let_def)
    consider (thrown) m where "?seen = Inl m" | (gone) "?seen = Inr None" | (seen) f where "?seen = Inr (Some f)"
      by (metis option.exhaust sum.exhaust_sel)
    then have "honest mb log [?c, Call_Fetch [?uid]] (pi_remote item) (classify_write item desire ?cond x ?seen)"
    proof cases
      case thrown
      then show ?thesis by (simp add: classify_write_def)
    next
      case gone
      then show ?thesis using a x by (auto simp: classify_write_def read_after_def)
    next
      case seen
      then show ?thesis using a x by (auto simp: classify_write_def read_after_def)
    qed
    with run show ?thesis by (auto simp: mutations_def)
  qed
  consider m where "am_writeFlag mb log ?w = Inl m" | m where "am_writeFlag mb log ?w = Inr (Write_Uncertain m)"
    | x where "am_writeFlag mb log ?w = Inr x" "x = Write_Accepted \<or> x = Write_Rejected"
    by (metis flag_write_result.exhaust sum.exhaust_sel)
  then show ?thesis
  proof cases
    case (1 m)
    then show ?thesis using lost by (simp add: applyFlags_def Let_def unknownOf_def)
  next
    case (2 m)
    then show ?thesis using lost by (simp add: applyFlags_def Let_def)
  next
    case (3 x)
    then show ?thesis by (rule answered)
  qed
qed

text \<open>
  C15. A receipt never says more than the server proved. Of one prepared item the executor makes
  at most one write. It reports a failure only when it made none or the server refused it; it
  confirms a flag only on flags it read back after the write, which show the desired value unless
  the write was unconditional and accepted, and a move only on the server's own answer; it reports
  a conflict only when the server refused the write and the message is gone, or the readback of a
  conditional write misses the desired value; everything else is unknown.
\<close>

theorem executor_receipts_honest:
  "\<exists>calls r. twoWayApply mb item log = (Inr r, log @ Call_Capabilities # calls) \<and>
     length (mutations calls) \<le> 1 \<and> honest mb (log @ [Call_Capabilities]) calls (pi_remote item) r"
proof (cases "am_capabilities mb log")
  case (Inl m)
  then show ?thesis by (simp add: twoWayApply_def Let_def failed_outcome_def mutations_def)
next
  case (Inr caps)
  show ?thesis
  proof (cases "pi_desired item")
    case (Desired_Flags desire)
    obtain calls r where "applyFlags mb item desire (mc_condstore caps) (log @ [Call_Capabilities]) =
        (r, (log @ [Call_Capabilities]) @ calls)" "length (mutations calls) \<le> 1"
      "honest mb (log @ [Call_Capabilities]) calls (pi_remote item) r"
      using applyFlags_honest by metis
    with Inr Desired_Flags show ?thesis by (simp add: twoWayApply_def Let_def)
  next
    case (Desired_Move d name)
    with Inr show ?thesis
      by (auto simp: twoWayApply_def Let_def applyMove_def unknownOf_def mutations_def
          split: sum.splits move_write_result.splits)
  qed
qed

end
