(* ===== verification/Action_Service.thy ===== *)
theory Action_Service
  imports Action_Executor
begin

text \<open>
  The operations of \<open>packages/actions/src/service.ts\<close>: \<open>submit\<close>, \<open>receipt\<close>, \<open>execute\<close> with its
  folder groups and dispositions, \<open>reconcileIncomplete\<close> and \<open>dispositionRestoredActions\<close>. Every
  database step is a function on the hub. The mailbox calls of a run are appended to
  \<open>h_mailCalls\<close>. The other writers act at every await of a run (\<open>pause\<close>, indexed by the
  place in the code): after each mailbox call, between the reads of an item's checks and its
  claim, between the claim and the second assessment, and around each disposition. The update times of
  items, which nothing reads, are left out.
\<close>

section \<open>Ports and records\<close>

record action_ports =
  ap_controls :: recovery_controls
  ap_hashJson :: "json \<Rightarrow> string"
  ap_executor :: executor

record action_item_receipt =
  ir_itemKey :: string
  ir_status :: item_status
  ir_outcome :: "(string \<times> json) list option"

record action_receipt =
  rc_actionId :: uuid
  rc_kind :: string
  rc_status :: action_status
  rc_idempotencyKey :: string
  rc_items :: "action_item_receipt list"

datatype execution_result =
    Executed action_receipt
  | Held_Blocked action_receipt
  | Generation_Moved "uuid option" action_receipt

definition DEFAULT_RECONCILIATION_LIMIT :: int where "DEFAULT_RECONCILIATION_LIMIT = 25"

definition pending_item :: "action_item_row \<Rightarrow> bool" where
  "pending_item i \<longleftrightarrow> it_status i \<in> {It_Queued, It_Executing}"

definition pending_status :: "action_status \<Rightarrow> bool" where
  "pending_status s \<longleftrightarrow> s \<in> {Ac_Queued, Ac_Executing}"

section \<open>Reading\<close>

definition loadAction :: "string \<Rightarrow> hub \<Rightarrow> hub_error + action_row" where
  "loadAction actionId h =
     require (is_uuid actionId) (action_fail AE_Invalid_Request)
       (case find (\<lambda>a. ac_id a = pg_uuid actionId) (h_actions h) of
          None \<Rightarrow> Inl (action_fail AE_Not_Found) | Some a \<Rightarrow> Inr a)"

definition item_uid :: "action_item_row \<Rightarrow> int" where
  "item_uid i = tg_uid (it_target i)"

definition loadItems :: "uuid \<Rightarrow> hub \<Rightarrow> action_item_row list" where
  "loadItems actionId h =
     sort_key item_uid (sort_key it_itemKey (filter (\<lambda>i. it_actionId i = actionId) (h_actionItems h)))"

definition loadFolder :: "uuid \<Rightarrow> string \<Rightarrow> hub \<Rightarrow> folder_row option" where
  "loadFolder accountId folderId h =
     (if is_uuid folderId
      then find (\<lambda>f. fo_id f = pg_uuid folderId \<and> fo_accountId f = accountId) (h_folders h)
      else None)"

definition loadOccurrence :: "uuid \<Rightarrow> hub \<Rightarrow> occurrence_row option" where
  "loadOccurrence occurrenceId h = find (\<lambda>oc. oc_id oc = occurrenceId) (h_occurrences h)"

definition receiptOf :: "action_row \<Rightarrow> hub \<Rightarrow> action_receipt" where
  "receiptOf action h =
     \<lparr>rc_actionId = ac_id action, rc_kind = ac_kind action, rc_status = ac_status action,
      rc_idempotencyKey = ac_idempotencyKey action,
      rc_items = map (\<lambda>i. \<lparr>ir_itemKey = it_itemKey i, ir_status = it_status i, ir_outcome = it_outcome i\<rparr>)
        (loadItems (ac_id action) h)\<rparr>"

definition receipt :: "string \<Rightarrow> hub \<Rightarrow> hub_error + action_receipt" where
  "receipt actionId h = attempt (loadAction actionId h) (\<lambda>action. Inr (receiptOf action h))"

definition findByIdempotencyKeyA :: "string \<Rightarrow> hub \<Rightarrow> action_row option" where
  "findByIdempotencyKeyA key h = find (\<lambda>a. ac_idempotencyKey a = key) (h_actions h)"

definition existingReceipt :: "action_row \<Rightarrow> string \<Rightarrow> hub \<Rightarrow> hub_error + action_receipt" where
  "existingReceipt existing requestHash h =
     (if ac_requestHash existing \<noteq> requestHash then Inl (action_fail AE_Idempotency_Conflict)
      else Inr (receiptOf existing h))"

definition assessmentOf :: "action_ports \<Rightarrow> action_row \<Rightarrow> hub \<Rightarrow> job_assessment option" where
  "assessmentOf p action h =
     (case assessJob (readStatus (ap_controls p) h) (ac_recoveryGeneration action) of
        Job_Execute \<Rightarrow> None | stop \<Rightarrow> Some stop)"

definition blockedResult ::
    "action_ports \<Rightarrow> uuid \<Rightarrow> job_assessment \<Rightarrow> hub \<Rightarrow> hub_error + execution_result" where
  "blockedResult p actionId assessment h =
     attempt (receipt actionId h) (\<lambda>r.
       if assessment = Job_Blocked then Inr (Held_Blocked r)
       else Inr (Generation_Moved
              (case readStatus (ap_controls p) h of Ready_State gen \<Rightarrow> Some gen | _ \<Rightarrow> None) r))"

section \<open>Submitting\<close>

definition active_occurrence :: "occurrence_row \<Rightarrow> bool" where
  "active_occurrence oc \<longleftrightarrow> oc_expungedAt oc = None \<and> oc_invalidatedAt oc = None"

definition freezeTargets :: "action_scope \<Rightarrow> hub \<Rightarrow> hub_error + action_target list" where
  "freezeTargets sc h =
     require (list_ex (\<lambda>a. acc_id a = sc_accountId sc) (h_accounts h)) (action_fail AE_Not_Found)
    (let rows = filter (\<lambda>oc. oc_accountId oc = sc_accountId sc \<and> oc_id oc \<in> set (sc_occurrenceIds sc))
                  (h_occurrences h) in
     require (length rows = length (sc_occurrenceIds sc) \<and> list_all active_occurrence rows)
       (action_fail AE_Invalid_Request)
    (if requiresDestination (sc_kind sc) then
       (case find (\<lambda>f. Some (fo_id f) = sc_destinationFolderId sc \<and> fo_accountId f = sc_accountId sc)
               (h_folders h) of
          None \<Rightarrow> Inl (action_fail AE_Not_Found)
        | Some destination \<Rightarrow>
            require (\<not> list_ex (\<lambda>oc. oc_folderId oc = fo_id destination) rows)
              (action_fail AE_Invalid_Request) (Inr (map frozenTarget rows)))
     else Inr (map frozenTarget rows)))"

definition action_event :: "string \<Rightarrow> uuid \<Rightarrow> (string \<times> json) list \<Rightarrow> event_row" where
  "action_event type i payload =
     \<lparr>ev_actor = User_Actor, ev_type = type, ev_entityType = ''action'', ev_entityId = Some i,
      ev_payload = payload\<rparr>"

definition queued_action :: "uuid \<Rightarrow> millis \<Rightarrow> uuid \<Rightarrow> string \<Rightarrow> string \<Rightarrow> action_scope \<Rightarrow> action_row" where
  "queued_action actionId now generation key requestHash sc =
     \<lparr>ac_id = actionId, ac_accountId = sc_accountId sc, ac_recoveryGeneration = generation,
      ac_idempotencyKey = key, ac_requestHash = requestHash, ac_kind = sc_kind sc, ac_request = sc,
      ac_status = Ac_Queued, ac_createdAt = now, ac_updatedAt = now\<rparr>"

definition queued_item :: "uuid \<Rightarrow> action_target \<Rightarrow> action_item_row" where
  "queued_item actionId target =
     \<lparr>it_actionId = actionId, it_itemKey = tg_occurrenceId target, it_target = target,
      it_status = It_Queued, it_outcome = None\<rparr>"

definition submit_tx ::
    "uuid \<Rightarrow> millis \<Rightarrow> uuid \<Rightarrow> string \<Rightarrow> string \<Rightarrow> action_scope \<Rightarrow> action_target list \<Rightarrow>
     (hub, hub_error, uuid) tx" where
  "submit_tx actionId now generation key requestHash sc targets h =
     require (\<not> list_ex (\<lambda>a. ac_id a = actionId \<or> ac_idempotencyKey a = key) (h_actions h)) Unique_Violation
       (Inr (actionId, add_event (action_event ''action.queued'' actionId
            [(''accountId'', JStr (sc_accountId sc)), (''kind'', JStr (sc_kind sc)),
             (''targets'', JNum (int (length targets))),
             (''destinationFolderId'', json_opt JStr (sc_destinationFolderId sc))])
          (h\<lparr>h_actions := h_actions h @ [queued_action actionId now generation key requestHash sc],
             h_actionItems := h_actionItems h @ map (queued_item actionId) targets\<rparr>)))"

definition submit ::
    "action_ports \<Rightarrow> run_ctx \<Rightarrow> mail_submission \<Rightarrow> hub \<Rightarrow> (hub, hub_error, bool \<times> action_receipt) outcome" where
  "submit p cx s h =
     (case gateMutation (ap_controls p) (Some (sm_recoveryGeneration s)) h of
        Inl e \<Rightarrow> (Inl (Recovery_Err e), h)
      | Inr generation \<Rightarrow>
          (case validateSubmission s of
             Inl e \<Rightarrow> (Inl e, h)
           | Inr _ \<Rightarrow>
               (let sc = canonicalScope s; requestHash = hashScope (ap_hashJson p) sc;
                    again = (\<lambda>a g. (attempt (existingReceipt a requestHash g) (\<lambda>r. Inr (False, r)), g))
                in case findByIdempotencyKeyA (sm_idempotencyKey s) h of
                     Some existing \<Rightarrow> again existing h
                   | None \<Rightarrow>
                       (let h0 = cx_rely cx 0 h in
                        case freezeTargets sc h0 of
                          Inl e \<Rightarrow> (Inl e, h0)
                        | Inr targets \<Rightarrow>
                            (case run_tx (submit_tx (cx_ids cx 0) (cx_now cx 0) generation
                                    (sm_idempotencyKey s) requestHash sc targets) (cx_rely cx 1 h0) of
                               (Inr actionId, h1) \<Rightarrow>
                                 (attempt (receipt actionId h1) (\<lambda>r. Inr (True, r)), h1)
                             | (Inl e, h1) \<Rightarrow>
                                 if e = Unique_Violation then
                                   (let h2 = cx_rely cx 2 h1
                                    in case findByIdempotencyKeyA (sm_idempotencyKey s) h2 of
                                         Some raced \<Rightarrow> again raced h2
                                       | None \<Rightarrow> (Inl e, h2))
                                 else (Inl e, h1))))))"

section \<open>Dispositions\<close>

record disposition =
  dp_status :: item_status
  dp_outcome :: "(string \<times> json) list option"
  dp_observed :: "mailbox_flags option"
  dp_applied :: bool
  dp_expunge :: bool
  dp_supersedesHold :: bool

definition interruptedHold :: "action_item_row \<Rightarrow> bool" where
  "interruptedHold i \<longleftrightarrow>
     it_status i = It_Unknown \<and>
     (case it_outcome i of None \<Rightarrow> False | Some f \<Rightarrow> map_of f ''reason'' = Some (JStr ''interrupted''))"

definition eligible_item :: "disposition \<Rightarrow> uuid \<Rightarrow> string \<Rightarrow> action_item_row \<Rightarrow> bool" where
  "eligible_item w actionId key i \<longleftrightarrow>
     it_actionId i = actionId \<and> it_itemKey i = key \<and>
     (pending_item i \<or> dp_supersedesHold w \<and> interruptedHold i)"

definition settle :: "disposition \<Rightarrow> action_item_row \<Rightarrow> action_item_row" where
  "settle w i = i\<lparr>it_status := dp_status w, it_outcome := dp_outcome w\<rparr>"

text \<open>What a disposition writes to the occurrence: flags, modification sequence, revision, expunge.\<close>

definition observe_row :: "disposition \<Rightarrow> millis \<Rightarrow> occurrence_row \<Rightarrow> occurrence_row \<Rightarrow> occurrence_row" where
  "observe_row w now current oc =
     (let flagsChanged = (case dp_observed w of None \<Rightarrow> False
            | Some f \<Rightarrow> oc_unread current \<noteq> mf_unread f \<or> oc_flagged current \<noteq> mf_flagged f);
          modseq = (case dp_observed w of None \<Rightarrow> None
            | Some f \<Rightarrow> (case mf_modseq f of None \<Rightarrow> None | Some m \<Rightarrow> m));
          oc1 = (case dp_observed w of None \<Rightarrow> oc
            | Some f \<Rightarrow> oc\<lparr>oc_unread := mf_unread f, oc_flagged := mf_flagged f\<rparr>);
          oc2 = (if modseq \<noteq> None then oc1\<lparr>oc_modseq := modseq\<rparr> else oc1);
          oc3 = (if flagsChanged then oc2\<lparr>oc_revision := oc_revision oc2 + 1\<rparr> else oc2);
          oc4 = (if dp_expunge w then oc3\<lparr>oc_expungedAt := Some now\<rparr> else oc3)
      in if flagsChanged \<or> modseq \<noteq> None \<or> dp_expunge w then oc4\<lparr>oc_observedAt := now\<rparr> else oc)"

definition observe :: "disposition \<Rightarrow> millis \<Rightarrow> uuid \<Rightarrow> hub \<Rightarrow> hub" where
  "observe w now occurrenceId h =
     (case loadOccurrence occurrenceId h of
        None \<Rightarrow> h
      | Some current \<Rightarrow>
          h\<lparr>h_occurrences := tbl_update (\<lambda>oc. oc_id oc = occurrenceId \<and> oc_expungedAt oc = None)
               (observe_row w now current) (h_occurrences h)\<rparr>)"

definition item_counts :: "action_item_row list \<Rightarrow> json" where
  "item_counts rows =
     JObj (List.map_filter
       (\<lambda>(s, n). let k = tbl_count (\<lambda>i. it_status i = s) rows in if k > 0 then Some (n, JNum k) else None)
       [(It_Queued, ''queued''), (It_Executing, ''executing''), (It_Confirmed, ''confirmed''),
        (It_Conflicted, ''conflicted''), (It_Failed, ''failed''), (It_Unknown, ''unknown'')])"

definition finalizeActionStatus :: "millis \<Rightarrow> uuid \<Rightarrow> hub \<Rightarrow> hub" where
  "finalizeActionStatus now actionId h =
     (let items = filter (\<lambda>i. it_actionId i = actionId) (h_actionItems h) in
      if tbl_count pending_item items > 0 then
        h\<lparr>h_actions := tbl_update (\<lambda>a. ac_id a = actionId \<and> ac_status a = Ac_Queued)
             (\<lambda>a. a\<lparr>ac_status := Ac_Executing, ac_updatedAt := now\<rparr>) (h_actions h)\<rparr>
      else
        (let P = (\<lambda>a. ac_id a = actionId \<and> pending_status (ac_status a));
             done = (\<lambda>a. a\<lparr>ac_status := Ac_Complete, ac_updatedAt := now\<rparr>)
         in if tbl_returning P done (h_actions h) = [] then h
            else add_event (action_event ''action.completed'' actionId [(''counts'', item_counts items)])
                   (h\<lparr>h_actions := tbl_update P done (h_actions h)\<rparr>)))"

definition applied_event :: "action_row \<Rightarrow> action_item_row \<Rightarrow> event_row" where
  "applied_event action item =
     \<lparr>ev_actor = User_Actor, ev_type = ''action.applied'', ev_entityType = ''occurrence'',
      ev_entityId = Some (tg_occurrenceId (it_target item)),
      ev_payload = [(''accountId'', JStr (ac_accountId action)), (''actionId'', JStr (ac_id action)),
        (''kind'', JStr (ac_kind action)), (''folderId'', JStr (tg_folderId (it_target item))),
        (''uid'', JNum (item_uid item))]\<rparr>"

definition commitDisposition ::
    "run_ctx \<Rightarrow> action_row \<Rightarrow> action_item_row \<Rightarrow> disposition \<Rightarrow> hub \<Rightarrow> hub" where
  "commitDisposition cx action item w h =
     (let now = cx_now cx (length (h_mailCalls h));
          P = eligible_item w (ac_id action) (it_itemKey item)
      in if tbl_returning P (settle w) (h_actionItems h) = [] then h
         else
           (let h1 = h\<lparr>h_actionItems := tbl_update P (settle w) (h_actionItems h)\<rparr>;
                h2 = (if dp_observed w \<noteq> None \<or> dp_expunge w
                      then observe w now (tg_occurrenceId (it_target item)) h1 else h1);
                h3 = (if dp_applied w then add_event (applied_event action item) h2 else h2)
            in finalizeActionStatus now (ac_id action) h3))"

definition plain :: "item_status \<Rightarrow> (string \<times> json) list \<Rightarrow> disposition" where
  "plain status f =
     \<lparr>dp_status = status, dp_outcome = Some f, dp_observed = None, dp_applied = False,
      dp_expunge = False, dp_supersedesHold = False\<rparr>"

definition conflict :: "string \<Rightarrow> (string \<times> json) list \<Rightarrow> disposition" where
  "conflict reason extra = plain It_Conflicted ((''reason'', JStr reason) # extra)"

text \<open>
  The other writers act at an await, on the state with the log of the calls made so far. The places: 0 after a mailbox call, 1 after the checks of an item,
  2 after its claim, 3 after the action is read, 4 after the first assessment, 5 before the disposition of
  a loop over items, 6 after the holds, 7 before the result is read, 8 after the destination is read.
\<close>

definition pause :: "run_ctx \<Rightarrow> nat \<Rightarrow> hub \<Rightarrow> hub" where
  "pause cx site h = cx_rely cx site h"

fun conflictItems ::
    "run_ctx \<Rightarrow> action_row \<Rightarrow> action_item_row list \<Rightarrow> string \<Rightarrow> (string \<times> json) list \<Rightarrow> hub \<Rightarrow> hub" where
  "conflictItems cx action [] reason extra h = h"
| "conflictItems cx action (i # rest) reason extra h =
     conflictItems cx action rest reason extra
       (commitDisposition cx action i
          (conflict reason (extra @ [(''folderId'', JStr (tg_folderId (it_target i))),
                                     (''uid'', JNum (item_uid i))])) (pause cx 5 h))"

definition conflictAll :: "run_ctx \<Rightarrow> action_row \<Rightarrow> string \<Rightarrow> hub \<Rightarrow> hub" where
  "conflictAll cx action reason h =
     conflictItems cx action (filter pending_item (loadItems (ac_id action) h)) reason [] h"

definition observedFlags :: "mailbox_flags \<Rightarrow> json" where
  "observedFlags f =
     JObj ([(''unread'', JBool (mf_unread f)), (''flagged'', JBool (mf_flagged f))] @
           (case mf_modseq f of None \<Rightarrow> [] | Some m \<Rightarrow> [(''modseq'', json_opt JStr m)]))"

definition destination_json :: "move_destination \<Rightarrow> json" where
  "destination_json d =
     JObj [(''folder'', JStr (md_folder d)), (''uidvalidity'', json_opt JNum (md_uidvalidity d)),
           (''uid'', json_opt JNum (md_uid d))]"

text \<open>The receipt of the claim that ran the write: it replaces an interrupted hold.\<close>

fun receipt_of :: "executor_outcome \<Rightarrow> disposition" where
  "receipt_of (Ex_Confirmed f moved) =
     \<lparr>dp_status = It_Confirmed,
      dp_outcome = Some ((''observed'', observedFlags f) #
        (case moved of None \<Rightarrow> [] | Some d \<Rightarrow> [(''movedTo'', destination_json d)])),
      dp_observed = Some f, dp_applied = True, dp_expunge = (moved \<noteq> None), dp_supersedesHold = True\<rparr>"
| "receipt_of (Ex_Conflicted reason f) =
     (plain It_Conflicted [(''reason'', JStr reason), (''observed'', observedFlags f)])
       \<lparr>dp_observed := Some f, dp_supersedesHold := True\<rparr>"
| "receipt_of (Ex_Unknown reason f) =
     (plain It_Unknown ((''reason'', JStr reason) #
        (case f of None \<Rightarrow> [] | Some o' \<Rightarrow> [(''observed'', observedFlags o')])))\<lparr>dp_supersedesHold := True\<rparr>"
| "receipt_of (Ex_Failed code message) =
     (plain It_Failed [(''code'', JStr code), (''message'', JStr message)])\<lparr>dp_supersedesHold := True\<rparr>"

section \<open>Executing\<close>


definition log_call :: "mail_call \<Rightarrow> hub \<Rightarrow> hub" where
  "log_call c h = h\<lparr>h_mailCalls := h_mailCalls h @ [c]\<rparr>"

definition mark_executing :: "action_item_row \<Rightarrow> action_item_row" where
  "mark_executing i = i\<lparr>it_status := It_Executing\<rparr>"

definition claim_item ::
    "uuid \<times> string \<Rightarrow> action_item_row list \<Rightarrow> action_item_row option \<times> action_item_row list" where
  "claim_item key t =
     claim_first (\<lambda>i. (it_actionId i, it_itemKey i) = key \<and> it_status i = It_Queued) mark_executing t"

definition markExecuting :: "uuid \<Rightarrow> string \<Rightarrow> hub \<Rightarrow> bool \<times> hub" where
  "markExecuting actionId key h =
     (case claim_item (actionId, key) (h_actionItems h) of
        (r, t) \<Rightarrow> (r \<noteq> None, h\<lparr>h_actionItems := t\<rparr>))"

definition desiredState ::
    "action_row \<Rightarrow> flag_desire option \<Rightarrow> folder_row option \<Rightarrow> desired_state" where
  "desiredState action desire destination =
     (case desire of
        Some d \<Rightarrow> Desired_Flags d
      | None \<Rightarrow>
          (case destination of
             Some f \<Rightarrow> Desired_Move (fo_id f) (fo_name f)
           | None \<Rightarrow> Desired_Move (case sc_destinationFolderId (ac_request action) of
                                     None \<Rightarrow> [] | Some i \<Rightarrow> i) []))"

definition applyPrepared ::
    "action_ports \<Rightarrow> action_mailbox \<Rightarrow> prepared_item \<Rightarrow> hub \<Rightarrow> executor_outcome \<times> hub" where
  "applyPrepared p mb prepared h =
     (case ap_executor p mb prepared (h_mailCalls h) of
        (r, log) \<Rightarrow>
          (case r of
             Inr x \<Rightarrow> x
           | Inl m \<Rightarrow> Ex_Failed ''executor_error'' (message_or m ''The executor failed without a message.''),
           h\<lparr>h_mailCalls := log\<rparr>))"

text \<open>
  The checks of one item between the group's refresh and its claim: a disposition that settles it
  without a write, or the flags the write starts from.
\<close>

datatype item_check = Check_Settle disposition | Check_Write mailbox_flags

definition checkItem ::
    "action_row \<Rightarrow> folder_row \<Rightarrow> int \<Rightarrow> mailbox_flags list \<Rightarrow> action_item_row \<Rightarrow> hub \<Rightarrow> item_check" where
  "checkItem action folder generation flags item h =
     (let target = it_target item; stop = (\<lambda>reason extra. Check_Settle (conflict reason extra)) in
      case find (\<lambda>f. mf_uid f = tg_uid target) (rev flags) of
        None \<Rightarrow> stop ''absent_remote'' []
      | Some remote \<Rightarrow>
          (case loadOccurrence (tg_occurrenceId target) h of
             None \<Rightarrow> stop ''occurrence_missing'' []
           | Some oc \<Rightarrow>
               if oc_expungedAt oc \<noteq> None then stop ''expunged'' []
               else if oc_invalidatedAt oc \<noteq> None then stop ''invalidated'' []
               else if oc_uidvalidity oc \<noteq> tg_uidvalidity target \<or> oc_uidvalidity oc \<noteq> generation
               then stop ''generation_changed''
                      [(''currentUidvalidity'', JNum (oc_uidvalidity oc)),
                       (''folderUidvalidity'', JNum generation)]
               else if (case flagDesireOf (ac_kind action) of None \<Rightarrow> False
                        | Some d \<Rightarrow> flag_value (fd_flag d) remote = fd_value d)
               then Check_Settle
                      \<lparr>dp_status = It_Confirmed,
                       dp_outcome = Some [(''noop'', JBool True), (''observed'', observedFlags remote)],
                       dp_observed = Some remote, dp_applied = True, dp_expunge = False,
                       dp_supersedesHold = False\<rparr>
               else if oc_revision oc \<noteq> tg_revision target
               then stop ''stale_revision'' [(''currentRevision'', JNum (oc_revision oc))]
               else if oc_modseq oc \<noteq> tg_modseq target
               then stop ''modseq_changed'' [(''currentModseq'', json_opt JStr (oc_modseq oc))]
               else Check_Write remote))"

definition prepared_of ::
    "action_row \<Rightarrow> folder_row \<Rightarrow> int \<Rightarrow> folder_row option \<Rightarrow> mailbox_flags \<Rightarrow> action_item_row \<Rightarrow> prepared_item" where
  "prepared_of action folder generation destination remote item =
     \<lparr>pi_actionId = ac_id action, pi_itemKey = it_itemKey item, pi_kind = ac_kind action,
      pi_accountId = ac_accountId action, pi_folder = (fo_id folder, fo_name folder, generation),
      pi_target = it_target item, pi_remote = remote,
      pi_desired = desiredState action (flagDesireOf (ac_kind action)) destination\<rparr>"

definition run_item ::
    "action_ports \<Rightarrow> run_ctx \<Rightarrow> action_mailbox \<Rightarrow> action_row \<Rightarrow> folder_row \<Rightarrow> int \<Rightarrow> folder_row option \<Rightarrow>
     mailbox_flags list \<Rightarrow> action_item_row \<Rightarrow> hub \<Rightarrow> job_assessment option \<times> hub" where
  "run_item p cx mb action folder generation destination flags item h =
     (case checkItem action folder generation flags item h of
        Check_Settle w \<Rightarrow> (None, commitDisposition cx action item w (pause cx 1 h))
      | Check_Write remote \<Rightarrow>
          (case markExecuting (ac_id action) (it_itemKey item) (pause cx 1 h) of
             (claimed, h1) \<Rightarrow>
               if \<not> claimed \<and> it_status item \<noteq> It_Executing then (None, h1)
               else
                 (let h2 = pause cx 2 h1 in
                  case assessmentOf p action h2 of
                    Some stop \<Rightarrow> (Some stop, h2)
                  | None \<Rightarrow>
                      (case applyPrepared p mb
                              (prepared_of action folder generation destination remote item) h2 of
                         (r, h3) \<Rightarrow> (None, commitDisposition cx action item (receipt_of r) (pause cx 0 h3))))))"

fun run_items ::
    "action_ports \<Rightarrow> run_ctx \<Rightarrow> action_mailbox \<Rightarrow> action_row \<Rightarrow> folder_row \<Rightarrow> int \<Rightarrow> folder_row option \<Rightarrow>
     mailbox_flags list \<Rightarrow> action_item_row list \<Rightarrow> hub \<Rightarrow> (hub, hub_error, job_assessment option) outcome" where
  "run_items p cx mb action folder generation destination flags [] h = (Inr None, h)"
| "run_items p cx mb action folder generation destination flags (item # rest) h =
     (let h1 = pause cx 0 (log_call Call_Revalidate h) in
      case am_revalidate mb (h_mailCalls h) of
        Inl m \<Rightarrow> (Inl (Port_Failure m), h1)
      | Inr st \<Rightarrow>
          if mx_uidValidity st \<noteq> generation then
            (Inr None, conflictItems cx action (item # rest) ''generation_changed''
               [(''observed'', JNum (mx_uidValidity st))] h1)
          else
            (case run_item p cx mb action folder generation destination flags item h1 of
               (Some stop, h2) \<Rightarrow> (Inr (Some stop), h2)
             | (None, h2) \<Rightarrow> run_items p cx mb action folder generation destination flags rest h2))"

definition executeFolderGroup ::
    "action_ports \<Rightarrow> run_ctx \<Rightarrow> action_mailbox \<Rightarrow> action_row \<Rightarrow> action_item_row list \<Rightarrow> folder_row option \<Rightarrow>
     hub \<Rightarrow> (hub, hub_error, job_assessment option) outcome" where
  "executeFolderGroup p cx mb action items destination h =
     (case loadFolder (ac_accountId action) (tg_folderId (it_target (hd items))) h of
        None \<Rightarrow> (Inr None, conflictItems cx action items ''folder_removed'' [] h)
      | Some folder \<Rightarrow>
          (case fo_uidvalidity folder of
             None \<Rightarrow> (Inr None, conflictItems cx action items ''folder_uninitialized'' [] h)
           | Some generation \<Rightarrow>
               (let h1 = pause cx 0 (log_call (Call_Select (fo_name folder)) h) in
                case am_select mb (h_mailCalls h) (fo_name folder) of
                  Inl m \<Rightarrow> (Inl (Port_Failure m), h1)
                | Inr selected \<Rightarrow>
                    if mx_uidValidity selected \<noteq> generation then
                      (Inr None, conflictItems cx action items ''generation_changed''
                         [(''observed'', JNum (mx_uidValidity selected))] h1)
                    else
                      (let uids = map item_uid items;
                           h2 = pause cx 0 (log_call (Call_Fetch uids) h1) in
                       case am_fetchFlags mb (h_mailCalls h1) uids of
                         Inl m \<Rightarrow> (Inl (Port_Failure m), h2)
                       | Inr flags \<Rightarrow>
                           run_items p cx mb action folder generation destination flags items h2))))"

fun run_groups ::
    "action_ports \<Rightarrow> run_ctx \<Rightarrow> action_mailbox \<Rightarrow> action_row \<Rightarrow> action_item_row list \<Rightarrow> folder_row option \<Rightarrow>
     uuid list \<Rightarrow> hub \<Rightarrow> (hub, hub_error, job_assessment option) outcome" where
  "run_groups p cx mb action pending destination [] h = (Inr None, h)"
| "run_groups p cx mb action pending destination (folderId # folderIds) h =
     (case executeFolderGroup p cx mb action
             (filter (\<lambda>i. tg_folderId (it_target i) = folderId) pending) destination h of
        (Inl e, h1) \<Rightarrow> (Inl e, h1)
      | (Inr (Some stop), h1) \<Rightarrow> (Inr (Some stop), h1)
      | (Inr None, h1) \<Rightarrow> run_groups p cx mb action pending destination folderIds h1)"

text \<open>The hold of an interrupted item whose kind never replays.\<close>

definition hold_interrupted :: disposition where
  "hold_interrupted = plain It_Unknown [(''reason'', JStr ''interrupted'')]"

fun holdInterrupted :: "run_ctx \<Rightarrow> action_row \<Rightarrow> action_item_row list \<Rightarrow> hub \<Rightarrow> hub" where
  "holdInterrupted cx action [] h = h"
| "holdInterrupted cx action (item # items) h =
     holdInterrupted cx action items
       (if it_status item = It_Executing \<and> \<not> isReplayableKind (ac_kind action)
        then commitDisposition cx action item hold_interrupted (pause cx 5 h) else h)"

definition finish_action :: "run_ctx \<Rightarrow> action_row \<Rightarrow> hub \<Rightarrow> (hub, hub_error, execution_result) outcome" where
  "finish_action cx action h =
     (let h1 = pause cx 7 (finalizeActionStatus (cx_now cx (length (h_mailCalls h))) (ac_id action) h)
      in (attempt (receipt (ac_id action) h1) (\<lambda>r. Inr (Executed r)), h1))"

definition blocked_at ::
    "action_ports \<Rightarrow> run_ctx \<Rightarrow> action_row \<Rightarrow> job_assessment \<Rightarrow> hub \<Rightarrow> (hub, hub_error, execution_result) outcome" where
  "blocked_at p cx action stop h =
     (let h1 = pause cx 7 h in (blockedResult p (ac_id action) stop h1, h1))"

text \<open>\<open>execute\<close> after its first assessment: the holds, the destination, the folder groups.\<close>

definition execute_ready ::
    "action_ports \<Rightarrow> run_ctx \<Rightarrow> action_mailbox \<Rightarrow> action_row \<Rightarrow> hub \<Rightarrow> (hub, hub_error, execution_result) outcome" where
  "execute_ready p cx mb action h =
     (let h1 = pause cx 6 (holdInterrupted cx action (loadItems (ac_id action) h) h);
          needs = requiresDestination (ac_kind action);
          destination = (if needs then loadFolder (ac_accountId action)
              (case sc_destinationFolderId (ac_request action) of None \<Rightarrow> [] | Some i \<Rightarrow> i) h1
            else None);
          h2 = pause cx 8 h1
      in if needs \<and> destination = None
         then finish_action cx action (conflictAll cx action ''destination_removed'' h2)
         else
           (let pending = filter pending_item (loadItems (ac_id action) h2) in
            case run_groups p cx mb action pending destination
                   (distinct_in_order (map (\<lambda>i. tg_folderId (it_target i)) pending)) h2 of
              (Inl e, h3) \<Rightarrow> (Inl e, h3)
            | (Inr (Some stop), h3) \<Rightarrow> blocked_at p cx action stop h3
            | (Inr None, h3) \<Rightarrow> finish_action cx action h3))"

definition execute ::
    "action_ports \<Rightarrow> run_ctx \<Rightarrow> action_mailbox \<Rightarrow> string \<Rightarrow> hub \<Rightarrow> (hub, hub_error, execution_result) outcome" where
  "execute p cx mb actionId h =
     (case loadAction actionId h of
        Inl e \<Rightarrow> (Inl e, h)
      | Inr action \<Rightarrow>
          (let h0 = pause cx 3 h in
           if ac_status action = Ac_Complete then (Inr (Executed (receiptOf action h0)), h0)
           else
             (case assessmentOf p action h0 of
                Some stop \<Rightarrow> blocked_at p cx action stop h0
              | None \<Rightarrow> execute_ready p cx mb action (pause cx 4 h0))))"

section \<open>Reconciliation\<close>

record reconcile_summary =
  rs_scanned :: int
  rs_executed :: int
  rs_held :: int
  rs_generationMismatch :: int

definition count_result :: "execution_result \<Rightarrow> reconcile_summary \<Rightarrow> reconcile_summary" where
  "count_result r s =
     (case r of
        Executed _ \<Rightarrow> s\<lparr>rs_executed := rs_executed s + 1\<rparr>
      | Held_Blocked _ \<Rightarrow> s\<lparr>rs_held := rs_held s + 1\<rparr>
      | Generation_Moved _ _ \<Rightarrow> s\<lparr>rs_generationMismatch := rs_generationMismatch s + 1\<rparr>)"

fun reconcile_rows ::
    "action_ports \<Rightarrow> run_ctx \<Rightarrow> action_mailbox \<Rightarrow> uuid list \<Rightarrow> reconcile_summary \<Rightarrow> hub \<Rightarrow>
     (hub, hub_error, reconcile_summary) outcome" where
  "reconcile_rows p cx mb [] s h = (Inr s, h)"
| "reconcile_rows p cx mb (i # ids) s h =
     (case execute p cx mb i h of
        (Inl e, h1) \<Rightarrow> (Inl e, h1)
      | (Inr r, h1) \<Rightarrow> reconcile_rows p cx mb ids (count_result r s) h1)"

definition reconcileIncomplete ::
    "action_ports \<Rightarrow> run_ctx \<Rightarrow> action_mailbox \<Rightarrow> string \<Rightarrow> int option \<Rightarrow> hub \<Rightarrow>
     (hub, hub_error, reconcile_summary) outcome" where
  "reconcileIncomplete p cx mb accountId lim h =
     (let limit = (case lim of None \<Rightarrow> DEFAULT_RECONCILIATION_LIMIT | Some n \<Rightarrow> n) in
      if limit < 1 \<or> 9007199254740991 < limit then (Inl (action_fail AE_Invalid_Request), h)
      else
        (let rows = take (nat limit) (sort_key ac_createdAt
               (filter (\<lambda>a. ac_accountId a = pg_uuid accountId \<and> pending_status (ac_status a)) (h_actions h)))
         in reconcile_rows p cx mb (map ac_id rows)
              \<lparr>rs_scanned = int (length rows), rs_executed = 0, rs_held = 0, rs_generationMismatch = 0\<rparr> h))"

section \<open>Restored actions\<close>

record restored_summary =
  rd_actions :: int
  rd_conflicted :: int
  rd_unknown :: int

definition restored_outcome :: "item_status \<Rightarrow> action_item_row \<Rightarrow> action_item_row" where
  "restored_outcome s i =
     i\<lparr>it_status := s, it_outcome := Some [(''reason'', JStr ''restored_generation'')]\<rparr>"

definition disposition_tx :: "millis \<Rightarrow> action_row \<Rightarrow> restored_summary \<times> hub \<Rightarrow> restored_summary \<times> hub" where
  "disposition_tx now action sh =
     (case sh of (s, h) \<Rightarrow>
       (let Q = (\<lambda>i. it_actionId i = ac_id action \<and> it_status i = It_Queued);
            E = (\<lambda>i. it_actionId i = ac_id action \<and> it_status i = It_Executing);
            queued = tbl_returning Q (restored_outcome It_Conflicted) (h_actionItems h);
            t1 = tbl_update Q (restored_outcome It_Conflicted) (h_actionItems h);
            executing = tbl_returning E (restored_outcome It_Unknown) t1;
            t2 = tbl_update E (restored_outcome It_Unknown) t1;
            P = (\<lambda>a. ac_id a = ac_id action \<and> pending_status (ac_status a));
            done = (\<lambda>a. a\<lparr>ac_status := Ac_Complete, ac_updatedAt := now\<rparr>);
            h1 = h\<lparr>h_actionItems := t2, h_actions := tbl_update P done (h_actions h)\<rparr>
        in if tbl_returning P done (h_actions h) = [] then (s, h1)
           else
             (\<lparr>rd_actions = rd_actions s + 1, rd_conflicted = rd_conflicted s + int (length queued),
               rd_unknown = rd_unknown s + int (length executing)\<rparr>,
              add_event (action_event ''action.restored_held'' (ac_id action)
                [(''accountId'', JStr (ac_accountId action)), (''kind'', JStr (ac_kind action)),
                 (''recoveryGeneration'', JStr (ac_recoveryGeneration action)),
                 (''conflicted'', JNum (int (length queued))),
                 (''unknown'', JNum (int (length executing)))]) h1)))"

fun disposition_rows ::
    "run_ctx \<Rightarrow> nat \<Rightarrow> action_row list \<Rightarrow> restored_summary \<times> hub \<Rightarrow> restored_summary \<times> hub" where
  "disposition_rows cx k [] sh = sh"
| "disposition_rows cx k (a # rest) (s, h) =
     disposition_rows cx (Suc k) rest (disposition_tx (cx_now cx k) a (s, cx_rely cx k h))"

definition dispositionRestoredActions ::
    "run_ctx \<Rightarrow> string \<Rightarrow> hub \<Rightarrow> (hub, hub_error, restored_summary) outcome" where
  "dispositionRestoredActions cx currentGeneration h =
     (if \<not> is_uuid currentGeneration then (Inl (action_fail AE_Invalid_Request), h)
      else
        (case disposition_rows cx 0
                (filter (\<lambda>a. ac_recoveryGeneration a \<noteq> pg_uuid currentGeneration \<and>
                            pending_status (ac_status a)) (h_actions h))
                (\<lparr>rd_actions = 0, rd_conflicted = 0, rd_unknown = 0\<rparr>, h) of
           (s, h') \<Rightarrow> (Inr s, h')))"

interpretation item_claim: row_claim "\<lambda>i. (it_actionId i, it_itemKey i)" "\<lambda>i. it_status i = It_Queued"
    mark_executing claim_item
  by unfold_locales (simp_all add: mark_executing_def claim_item_def claim_first_def Let_def)

end
