(* ===== verification/Action_Demo.thy ===== *)
theory Action_Demo
  imports Action_Service
begin

text \<open>
  A concrete account with one message in its inbox and one queued move of it, with a mailbox that
  answers every call: the input the witnesses of the action theorems evaluate.
\<close>

definition demo_inbox :: uuid where "demo_inbox = ''aaaaaaaa-0000-4000-8000-0000000000f1''"
definition demo_archive :: uuid where "demo_archive = ''aaaaaaaa-0000-4000-8000-0000000000f2''"
definition demo_occurrence :: uuid where "demo_occurrence = ''aaaaaaaa-0000-4000-8000-0000000000c1''"
definition demo_action_id :: uuid where "demo_action_id = ''aaaaaaaa-0000-4000-8000-0000000000a1''"
definition demo_owner :: uuid where "demo_owner = ''aaaaaaaa-0000-4000-8000-0000000000e1''"

definition demo_occ :: occurrence_row where
  "demo_occ =
     \<lparr>oc_id = demo_occurrence, oc_accountId = demo_owner, oc_messageId = ''m'', oc_folderId = demo_inbox,
      oc_uidvalidity = 7, oc_uid = 42, oc_internalDate = 0, oc_unread = True, oc_flagged = False, oc_modseq = None,
      oc_revision = 1, oc_observedAt = 0, oc_expungedAt = None, oc_invalidatedAt = None\<rparr>"

definition demo_scope :: action_scope where
  "demo_scope =
     \<lparr>sc_kind = ''move'', sc_accountId = demo_owner, sc_occurrenceIds = [demo_occurrence],
      sc_destinationFolderId = Some demo_archive\<rparr>"

definition demo_item :: action_item_row where
  "demo_item = queued_item demo_action_id (frozenTarget demo_occ)"

definition demo_action :: action_row where
  "demo_action = queued_action demo_action_id 1 demo_gen ''k'' ''hash'' demo_scope"

definition action_hub :: hub where
  "action_hub = empty_hub\<lparr>
     h_serviceState := Some \<lparr>ss_recoveryGeneration = demo_gen, ss_recoveryMode = Mode_Ready, ss_updatedAt = 0\<rparr>,
     h_accounts := [\<lparr>acc_id = demo_owner, acc_identities = []\<rparr>],
     h_folders := [\<lparr>fo_id = demo_inbox, fo_accountId = demo_owner, fo_name = ''INBOX'', fo_role = Some Role_Inbox,
         fo_uidvalidity = Some 7, fo_arrivalScannedUid = 49,
         fo_backfillUpperUid = Some 49, fo_backfillBeforeUid = Some 1, fo_backfillComplete = True\<rparr>,
       \<lparr>fo_id = demo_archive, fo_accountId = demo_owner, fo_name = ''Archive'', fo_role = Some Role_Archive,
         fo_uidvalidity = Some 9, fo_arrivalScannedUid = 49,
         fo_backfillUpperUid = Some 49, fo_backfillBeforeUid = Some 1, fo_backfillComplete = True\<rparr>],
     h_occurrences := [demo_occ], h_actions := [demo_action], h_actionItems := [demo_item]\<rparr>"

definition demo_mailbox :: action_mailbox where
  "demo_mailbox =
     \<lparr>am_select = \<lambda>_ _. Inr \<lparr>mx_uidValidity = 7, mx_uidNext = 50\<rparr>,
      am_fetchFlags = \<lambda>_ uids. Inr (map (\<lambda>u. \<lparr>mf_uid = u, mf_unread = True, mf_flagged = False, mf_modseq = None\<rparr>) uids),
      am_revalidate = \<lambda>_. Inr \<lparr>mx_uidValidity = 7, mx_uidNext = 50\<rparr>,
      am_capabilities = \<lambda>_. Inr \<lparr>mc_condstore = True, mc_move = True\<rparr>,
      am_writeFlag = \<lambda>_ _. Inr Write_Accepted,
      am_moveMessage = \<lambda>_ m. Inr (Move_Done \<lparr>md_folder = mw_destinationFolder m, md_uidvalidity = Some 9, md_uid = Some 3\<rparr>)\<rparr>"

definition demo_actions :: action_ports where
  "demo_actions = \<lparr>ap_controls = demo_controls, ap_hashJson = (\<lambda>_. ''hash''), ap_executor = twoWayApply\<rparr>"

definition action_ctx :: run_ctx where
  "action_ctx = \<lparr>cx_now = (\<lambda>k. 100 + int k), cx_ids = (\<lambda>_. demo_action_id), cx_rely = (\<lambda>_ h. h)\<rparr>"

definition demo_move :: mail_call where
  "demo_move = Call_Move demo_action_id demo_occurrence \<lparr>mw_uid = 42, mw_destinationFolder = ''Archive''\<rparr>"

lemma demo_move_run:
  "(case execute demo_actions action_ctx demo_mailbox demo_action_id action_hub of
      (_, h) \<Rightarrow> (h_mailCalls h, map it_status (h_actionItems h), map ac_status (h_actions h))) =
   ([Call_Select ''INBOX'', Call_Fetch [42], Call_Revalidate, Call_Capabilities, demo_move],
    [It_Confirmed], [Ac_Complete])"
  by code_simp

lemma demo_execute_log:
  "h_mailCalls (snd (execute demo_actions action_ctx demo_mailbox demo_action_id action_hub)) =
   [Call_Select ''INBOX'', Call_Fetch [42], Call_Revalidate, Call_Capabilities, demo_move]"
  "map it_status (h_actionItems (snd (execute demo_actions action_ctx demo_mailbox demo_action_id action_hub))) =
   [It_Confirmed]"
  using demo_move_run by (auto split: prod.splits)

lemma action_hub_fields [simp]:
  "h_actionItems action_hub = [demo_item]" "h_mailCalls action_hub = []" "h_actions action_hub = [demo_action]"
  "h_occurrences action_hub = [demo_occ]" "ap_executor demo_actions = twoWayApply" "quiet action_ctx"
  "it_actionId demo_item = demo_action_id" "it_itemKey demo_item = demo_occurrence"
  "ac_id demo_action = demo_action_id"
  by (simp_all add: action_hub_def empty_hub_def demo_actions_def quiet_def action_ctx_def demo_item_def
      queued_item_def frozenTarget_def demo_occ_def demo_action_def queued_action_def)

end
