(* ===== verification/Action_Runs.thy ===== *)
theory Action_Runs
  imports Action_Demo
begin

text \<open>
  What the operations of the action service do to the tables: frame lemmas of each transaction, a
  closure lemma that carries any transitive relation kept by the single transactions through a
  whole \<open>execute\<close> (\<open>execute_closed\<close>), the life of an item (\<open>item_step\<close>), and the theorem that
  receipts are final.
\<close>

section \<open>Frames\<close>

lemma finalize_frame [simp]:
  "h_actionItems (finalizeActionStatus now a h) = h_actionItems h"
  "h_mailCalls (finalizeActionStatus now a h) = h_mailCalls h"
  "h_occurrences (finalizeActionStatus now a h) = h_occurrences h"
  "h_folders (finalizeActionStatus now a h) = h_folders h"
  "h_serviceState (finalizeActionStatus now a h) = h_serviceState h"
  by (simp_all add: finalizeActionStatus_def Let_def)

lemma observe_frame [simp]:
  "h_actionItems (observe w now i h) = h_actionItems h"
  "h_mailCalls (observe w now i h) = h_mailCalls h"
  "h_actions (observe w now i h) = h_actions h"
  "h_folders (observe w now i h) = h_folders h"
  "h_serviceState (observe w now i h) = h_serviceState h"
  by (simp_all add: observe_def split: option.split)

lemma commit_frame [simp]:
  "h_mailCalls (commitDisposition cx action item w h) = h_mailCalls h"
  "h_folders (commitDisposition cx action item w h) = h_folders h"
  "h_serviceState (commitDisposition cx action item w h) = h_serviceState h"
  by (simp_all add: commitDisposition_def Let_def)

lemma commit_items:
  "h_actionItems (commitDisposition cx action item w h) =
     tbl_update (eligible_item w (ac_id action) (it_itemKey item)) (settle w) (h_actionItems h)"
  by (simp add: commitDisposition_def Let_def tbl_returning_empty_update)

lemma log_call_frame [simp]:
  "h_mailCalls (log_call c h) = h_mailCalls h @ [c]" "h_actionItems (log_call c h) = h_actionItems h"
  "h_actions (log_call c h) = h_actions h" "h_occurrences (log_call c h) = h_occurrences h"
  "h_folders (log_call c h) = h_folders h" "h_serviceState (log_call c h) = h_serviceState h"
  by (simp_all add: log_call_def)

lemma markExecuting_frame [simp]:
  "h_mailCalls (snd (markExecuting a k h)) = h_mailCalls h"
  "h_actions (snd (markExecuting a k h)) = h_actions h"
  "h_occurrences (snd (markExecuting a k h)) = h_occurrences h"
  "h_folders (snd (markExecuting a k h)) = h_folders h"
  "h_serviceState (snd (markExecuting a k h)) = h_serviceState h"
  by (simp_all add: markExecuting_def split: prod.split)

lemma markExecuting_items:
  "h_actionItems (snd (markExecuting a k h)) =
     tbl_update (\<lambda>i. (it_actionId i, it_itemKey i) = (a, k) \<and> it_status i = It_Queued) mark_executing (h_actionItems h)"
  by (simp add: markExecuting_def claim_item_def claim_first_def)

lemma markExecuting_claimed:
  "fst (markExecuting a k h) \<longleftrightarrow>
     (\<exists>i \<in> set (h_actionItems h). it_actionId i = a \<and> it_itemKey i = k \<and> it_status i = It_Queued)"
proof -
  let ?t = "tbl_returning (\<lambda>i. (it_actionId i, it_itemKey i) = (a, k) \<and> it_status i = It_Queued) mark_executing (h_actionItems h)"
  have "fst (markExecuting a k h) \<longleftrightarrow> ?t \<noteq> []"
    by (cases ?t) (simp_all add: markExecuting_def claim_item_def claim_first_def)
  then show ?thesis by (auto simp: tbl_returning_empty_iff)
qed

lemma applyPrepared_frame [simp]:
  "h_actionItems (snd (applyPrepared p mb i h)) = h_actionItems h"
  "h_actions (snd (applyPrepared p mb i h)) = h_actions h"
  "h_occurrences (snd (applyPrepared p mb i h)) = h_occurrences h"
  "h_folders (snd (applyPrepared p mb i h)) = h_folders h"
  "h_serviceState (snd (applyPrepared p mb i h)) = h_serviceState h"
  by (simp_all add: applyPrepared_def split: prod.split)

lemma applyPrepared_calls [simp]:
  "h_mailCalls (snd (applyPrepared p mb i h)) = snd (ap_executor p mb i (h_mailCalls h))"
  by (simp add: applyPrepared_def split: prod.split)

section \<open>Relations a run keeps\<close>

definition final_disposition :: "disposition \<Rightarrow> bool" where
  "final_disposition w \<longleftrightarrow> dp_status w \<notin> {It_Queued, It_Executing}"

lemma final_dispositions [simp]:
  "final_disposition (conflict r e)" "final_disposition (receipt_of x)" "final_disposition hold_interrupted"
  by (simp_all add: final_disposition_def conflict_def plain_def hold_interrupted_def)
     (cases x rule: receipt_of.cases; simp add: plain_def)

lemma check_settles_finally:
  "checkItem action folder generation flags item h = Check_Settle w \<Longrightarrow> final_disposition w"
  by (auto simp: checkItem_def Let_def final_disposition_def conflict_def plain_def
      split: option.splits if_splits)

definition run_closed :: "action_ports \<Rightarrow> run_ctx \<Rightarrow> action_mailbox \<Rightarrow> (hub \<Rightarrow> hub \<Rightarrow> bool) \<Rightarrow> bool" where
  "run_closed p cx mb R \<longleftrightarrow>
     (\<forall>h. R h h) \<and> (\<forall>a b c. R a b \<longrightarrow> R b c \<longrightarrow> R a c) \<and>
     (\<forall>h action i w. final_disposition w \<longrightarrow> R h (commitDisposition cx action i w h)) \<and>
     (\<forall>h c. \<not> is_mutation c \<longrightarrow> R h (log_call c h)) \<and> (\<forall>h n. R h (pause cx n h)) \<and>
     (\<forall>h a k. R h (snd (markExecuting a k h))) \<and> (\<forall>h x. R h (snd (applyPrepared p mb x h))) \<and>
     (\<forall>h now a. R h (finalizeActionStatus now a h))"

lemma run_closedD:
  assumes "run_closed p cx mb R"
  shows "R h h" and "R a b \<Longrightarrow> R b c \<Longrightarrow> R a c"
    and "final_disposition w \<Longrightarrow> R h (commitDisposition cx action i w h)"
    and "\<not> is_mutation x \<Longrightarrow> R h (pause cx n (log_call x h))" and "R h (pause cx n h)"
    and "R h (snd (markExecuting m k h))" and "R h (snd (applyPrepared p mb y h))"
    and "R h (finalizeActionStatus now m h)"
  using assms unfolding run_closed_def by blast+

lemma conflictItems_closed:
  assumes "run_closed p cx mb R"
  shows "R h (conflictItems cx action items reason extra h)"
proof (induction items arbitrary: h)
  case (Cons i items)
  have "R g (commitDisposition cx action i (conflict r e) (pause cx 5 g))" for g r e
    using run_closedD(2) [OF assms run_closedD(5) [OF assms] run_closedD(3) [OF assms final_dispositions(1)]] .
  with Cons.IH show ?case by simp (rule run_closedD(2) [OF assms])
qed (simp add: run_closedD(1) [OF assms])

lemma holdInterrupted_closed:
  assumes "run_closed p cx mb R"
  shows "R h (holdInterrupted cx action items h)"
proof (induction items arbitrary: h)
  case (Cons i items)
  have "R h (commitDisposition cx action i hold_interrupted (pause cx 5 h))"
    using run_closedD(2) [OF assms run_closedD(5) [OF assms] run_closedD(3) [OF assms final_dispositions(3)]] .
  then show ?case using Cons.IH run_closedD(2) [OF assms] by auto
qed (simp add: run_closedD(1) [OF assms])

lemma run_item_closed:
  assumes "run_closed p cx mb R"
  shows "R h (snd (run_item p cx mb action folder generation destination flags item h))"
proof (cases "checkItem action folder generation flags item h")
  case (Check_Settle w)
  have "R h (commitDisposition cx action item w (pause cx 1 h))"
    by (rule run_closedD(2) [OF assms run_closedD(5) [OF assms] run_closedD(3) [OF assms check_settles_finally [OF Check_Settle]]])
  with Check_Settle show ?thesis by (simp add: run_item_def)
next
  case (Check_Write remote)
  note t = run_closedD(2) [OF assms]
  let ?h1 = "snd (markExecuting (ac_id action) (it_itemKey item) (pause cx 1 h))"
  let ?h2 = "pause cx 2 ?h1"
  let ?ap = "applyPrepared p mb (prepared_of action folder generation destination remote item) ?h2"
  have 1: "R h ?h1" by (rule t [OF run_closedD(5) [OF assms] run_closedD(6) [OF assms]])
  have 2: "R h ?h2" by (rule t [OF 1 run_closedD(5) [OF assms]])
  have "R h (commitDisposition cx action item (receipt_of (fst ?ap)) (pause cx 0 (snd ?ap)))"
    by (rule t [OF t [OF t [OF 2 run_closedD(7) [OF assms]] run_closedD(5) [OF assms]] run_closedD(3) [OF assms final_dispositions(2)]])
  with 1 2 Check_Write show ?thesis
    by (auto simp: run_item_def Let_def split: prod.split option.split)
qed

lemma run_items_closed:
  assumes "run_closed p cx mb R"
  shows "R h (snd (run_items p cx mb action folder generation destination flags items h))"
proof (induction items arbitrary: h)
  case (Cons item items)
  let ?h1 = "pause cx 0 (log_call Call_Revalidate h)"
  let ?r = "run_item p cx mb action folder generation destination flags item ?h1"
  have 1: "R h ?h1" using run_closedD(4) [OF assms] by simp
  have 2: "R h (conflictItems cx action is reason extra ?h1)" for "is" reason extra
    using 1 conflictItems_closed [OF assms] run_closedD(2) [OF assms] by blast
  have 3: "R h (snd ?r)" using 1 run_item_closed [OF assms] run_closedD(2) [OF assms] by blast
  then have "R h (snd (run_items p cx mb action folder generation destination flags items (snd ?r)))"
    using Cons.IH run_closedD(2) [OF assms] by blast
  with 1 2 3 show ?case
    by (auto simp: Let_def simp del: conflictItems.simps split: sum.split prod.split option.split)
qed (simp add: run_closedD(1) [OF assms])

lemma executeFolderGroup_closed:
  assumes "run_closed p cx mb R"
  shows "R h (snd (executeFolderGroup p cx mb action items destination h))"
proof -
  have c: "R a (conflictItems cx action is reason extra b)" if "R a b" for a b "is" reason extra
    using that conflictItems_closed [OF assms] run_closedD(2) [OF assms] by blast
  have l: "R a (pause cx n (log_call x b))" if "R a b" "\<not> is_mutation x" for a b x n
    using that run_closedD(2,4) [OF assms] by blast
  have r: "R a (snd (run_items p cx mb action folder generation destination flags items b))" if "R a b"
    for a b folder generation flags
    using that run_items_closed [OF assms] run_closedD(2) [OF assms] by blast
  show ?thesis
    by (auto simp: executeFolderGroup_def Let_def c l r run_closedD(1) [OF assms]
        split: option.split sum.split)
qed

lemma run_groups_closed:
  assumes "run_closed p cx mb R"
  shows "R h (snd (run_groups p cx mb action pending destination ids h))"
proof (induction ids arbitrary: h)
  case (Cons i ids)
  let ?g = "executeFolderGroup p cx mb action (filter (\<lambda>x. tg_folderId (it_target x) = i) pending) destination h"
  have "R h (snd ?g)" by (rule executeFolderGroup_closed [OF assms])
  moreover from this have "R h (snd (run_groups p cx mb action pending destination ids (snd ?g)))"
    using Cons.IH run_closedD(2) [OF assms] by blast
  ultimately show ?case by (auto split: sum.split prod.split option.split)
qed (simp add: run_closedD(1) [OF assms])

lemma execute_ready_closed:
  assumes "run_closed p cx mb R"
  shows "R h (snd (execute_ready p cx mb action h))"
proof -
  have ps: "R a (pause cx m b)" if "R a b" for a b m
    using that run_closedD(2,5) [OF assms] by blast
  have f: "R a (snd (finish_action cx action b))" if "R a b" for a b action
    using ps [OF run_closedD(2) [OF assms that run_closedD(8) [OF assms]]] by (simp add: finish_action_def Let_def)
  have bl: "R a (snd (blocked_at p cx action stop b))" if "R a b" for a b action stop
    using ps [OF that] by (simp add: blocked_at_def Let_def)
  have g: "R a (snd (run_groups p cx mb action pending destination ids b))" if "R a b"
    for a b action pending destination ids
    using that run_groups_closed [OF assms] run_closedD(2) [OF assms] by blast
  have c: "R a (conflictAll cx action reason b)" if "R a b" for a b action reason
    using that conflictItems_closed [OF assms] run_closedD(2) [OF assms] unfolding conflictAll_def by blast
  have s: "R a (holdInterrupted cx action items b)" if "R a b" for a b action items
    using that holdInterrupted_closed [OF assms] run_closedD(2) [OF assms] by blast
  have n: "R h (snd (case x of (Inl e, h2) \<Rightarrow> (Inl e, h2) | (Inr (Some stop), h2) \<Rightarrow> blocked_at p cx action stop h2
      | (Inr None, h2) \<Rightarrow> finish_action cx action h2))"
    if "R h (snd x)" for x :: "(hub_error + job_assessment option) \<times> hub" and action
    using that by (auto simp: f bl split: prod.split sum.split option.split)
  show ?thesis
    by (auto simp: execute_ready_def Let_def intro!: run_closedD(1) [OF assms] f c s g n ps)
qed

lemma execute_closed:
  assumes "run_closed p cx mb R"
  shows "R h (snd (execute p cx mb i h))"
proof -
  have ps: "R a (pause cx m b)" if "R a b" for a b m
    using that run_closedD(2,5) [OF assms] by blast
  have r: "R a (snd (execute_ready p cx mb action b))" if "R a b" for a b action
    using that execute_ready_closed [OF assms] run_closedD(2) [OF assms] by blast
  have bl: "R a (snd (blocked_at p cx action stop b))" if "R a b" for a b action stop
    using ps [OF that] by (simp add: blocked_at_def Let_def)
  show ?thesis
    by (auto simp: execute_def Let_def intro!: run_closedD(1) [OF assms] r bl ps split: sum.split option.split)
qed

section \<open>The life of an item\<close>

definition item_step :: "action_item_row \<Rightarrow> action_item_row \<Rightarrow> bool" where
  "item_step i i' \<longleftrightarrow>
     it_actionId i' = it_actionId i \<and> it_itemKey i' = it_itemKey i \<and> it_target i' = it_target i \<and>
     (i' = i \<or> it_status i = It_Queued \<and> it_status i' = It_Executing \<or>
      (pending_item i \<or> interruptedHold i) \<and> \<not> pending_item i')"

lemma item_step_refl [simp]: "item_step i i"
  by (simp add: item_step_def)

lemma item_step_trans: "item_step i j \<Longrightarrow> item_step j k \<Longrightarrow> item_step i k"
  by (auto simp: item_step_def pending_item_def interruptedHold_def)

definition items_follow :: "action_item_row list \<Rightarrow> action_item_row list \<Rightarrow> bool" where
  "items_follow t t' \<longleftrightarrow> (\<exists>u v. t' = u @ v \<and> list_all2 item_step t u)"

lemma items_follow_refl [simp]: "items_follow t t"
  unfolding items_follow_def by (intro exI [of _ t] exI [of _ "[]"]) (simp add: list_all2_refl)

lemma items_follow_append [simp]: "items_follow t (t @ v)"
  unfolding items_follow_def by (intro exI [of _ t] exI [of _ v]) (simp add: list_all2_refl)

lemma items_follow_trans: "items_follow a b \<Longrightarrow> items_follow b c \<Longrightarrow> items_follow a c"
proof -
  assume "items_follow a b" and "items_follow b c"
  then obtain u v u' v' where b: "b = u @ v" "list_all2 item_step a u" and c: "c = u' @ v'" "list_all2 item_step b u'"
    by (auto simp: items_follow_def)
  from b(1) c(2) obtain us vs where us: "u' = us @ vs" "list_all2 item_step u us"
    by (auto simp: list_all2_append1)
  have "list_all2 item_step a us"
    by (rule list_all2_trans [OF _ b(2) us(2)]) (rule item_step_trans)
  then show ?thesis using c(1) us(1) by (auto simp: items_follow_def)
qed

lemma items_follow_update:
  "(\<And>r. P r \<Longrightarrow> item_step r (f r)) \<Longrightarrow> items_follow t (tbl_update P f t)"
  unfolding items_follow_def tbl_update_def
  by (intro exI [of _ "map (\<lambda>r. if P r then f r else r) t"] exI [of _ "[]"])
     (simp add: list.rel_map list_all2_same)

lemma items_follow_commit:
  "final_disposition w \<Longrightarrow> items_follow (h_actionItems h) (h_actionItems (commitDisposition cx action i w h))"
  unfolding commit_items
  by (rule items_follow_update)
     (auto simp: eligible_item_def settle_def item_step_def final_disposition_def pending_item_def)

text \<open>The other writers of items are runs of the same service.\<close>

definition item_rely :: "run_ctx \<Rightarrow> bool" where
  "item_rely cx \<longleftrightarrow> (\<forall>k h. items_follow (h_actionItems h) (h_actionItems (cx_rely cx k h)))"

lemma items_run_closed:
  assumes "item_rely cx"
  shows "run_closed p cx mb (\<lambda>h h'. items_follow (h_actionItems h) (h_actionItems h'))"
proof -
  have "items_follow (h_actionItems h) (h_actionItems (snd (markExecuting a k h)))" for a k h
    unfolding markExecuting_items
    by (rule items_follow_update) (simp add: item_step_def mark_executing_def)
  then show ?thesis
    using assms items_follow_commit items_follow_trans
    by (auto simp: run_closed_def pause_def item_rely_def)
qed

lemma reconcile_rows_follow:
  assumes "item_rely cx"
  shows "items_follow (h_actionItems h) (h_actionItems (snd (reconcile_rows p cx mb ids s h)))"
proof (induction ids arbitrary: s h)
  case (Cons i ids)
  have "items_follow (h_actionItems h) (h_actionItems (snd (execute p cx mb i h)))"
    by (rule execute_closed [OF items_run_closed [OF assms]])
  then show ?case using Cons.IH items_follow_trans by (fastforce split: sum.split prod.split)
qed simp

lemma disposition_tx_follow:
  "items_follow (h_actionItems h) (h_actionItems (snd (disposition_tx now a (s, h))))"
proof -
  let ?Q = "\<lambda>i. it_actionId i = ac_id a \<and> it_status i = It_Queued"
  let ?E = "\<lambda>i. it_actionId i = ac_id a \<and> it_status i = It_Executing"
  have "items_follow (h_actionItems h) (tbl_update ?Q (restored_outcome It_Conflicted) (h_actionItems h))"
    "items_follow (tbl_update ?Q (restored_outcome It_Conflicted) (h_actionItems h))
       (tbl_update ?E (restored_outcome It_Unknown) (tbl_update ?Q (restored_outcome It_Conflicted) (h_actionItems h)))"
    by (rule items_follow_update, simp add: restored_outcome_def item_step_def pending_item_def)+
  then show ?thesis
    using items_follow_trans by (auto simp: disposition_tx_def Let_def)
qed

lemma disposition_rows_follow:
  assumes "item_rely cx"
  shows "items_follow (h_actionItems (snd sh)) (h_actionItems (snd (disposition_rows cx k rows sh)))"
using assms
proof (induction cx k rows sh rule: disposition_rows.induct)
  case (2 cx k a rest s h)
  let ?sh = "disposition_tx (cx_now cx k) a (s, cx_rely cx k h)"
  have "items_follow (h_actionItems h) (h_actionItems (snd ?sh))"
    using 2(2) disposition_tx_follow items_follow_trans unfolding item_rely_def by blast
  then show ?case using 2 items_follow_trans by simp
qed simp

lemma submit_follow:
  assumes "item_rely cx"
  shows "items_follow (h_actionItems h) (h_actionItems (snd (submit p cx s h)))"
proof -
  have r: "items_follow a (h_actionItems (cx_rely cx k g))" if "items_follow a (h_actionItems g)" for a k g
    using assms that items_follow_trans unfolding item_rely_def by blast
  have t: "items_follow a (h_actionItems h1)"
    if "run_tx (submit_tx i now gen key rh sc targets) g = (x, h1)" "items_follow a (h_actionItems g)"
    for a g i now gen key rh sc targets x h1
    using that items_follow_trans items_follow_append
    by (auto simp: run_tx_def submit_tx_def require_def split: if_splits)
  show ?thesis
    by (auto simp: submit_def Let_def split: sum.split option.split prod.split intro!: r elim!: t)
qed

section \<open>Runs of operations\<close>

text \<open>
  The operations as one type. A process can die in the middle of one: at a mailbox call, which is
  an \<open>execute\<close> whose mailbox throws there, or between claiming an item and recording the answer of
  its write, which is \<open>Op_Die\<close>.
\<close>

datatype action_op =
    Op_Submit mail_submission
  | Op_Execute action_mailbox string
  | Op_Reconcile action_mailbox string "int option"
  | Op_Dispose string
  | Op_Die action_mailbox prepared_item

definition die_in_write :: "action_ports \<Rightarrow> action_mailbox \<Rightarrow> prepared_item \<Rightarrow> hub \<Rightarrow> hub" where
  "die_in_write p mb x h =
     (case markExecuting (pi_actionId x) (pi_itemKey x) h of
        (claimed, h1) \<Rightarrow> if claimed then snd (applyPrepared p mb x h1) else h1)"

fun run_action :: "action_ports \<Rightarrow> run_ctx \<Rightarrow> action_op \<Rightarrow> hub \<Rightarrow> hub" where
  "run_action p cx (Op_Submit s) h = snd (submit p cx s h)"
| "run_action p cx (Op_Execute mb i) h = snd (execute p cx mb i h)"
| "run_action p cx (Op_Reconcile mb a lim) h = snd (reconcileIncomplete p cx mb a lim h)"
| "run_action p cx (Op_Dispose gen) h = snd (dispositionRestoredActions cx gen h)"
| "run_action p cx (Op_Die mb x) h = die_in_write p mb x h"

fun run_actions :: "action_ports \<Rightarrow> (run_ctx \<times> action_op) list \<Rightarrow> hub \<Rightarrow> hub" where
  "run_actions p [] h = h"
| "run_actions p ((cx, x) # xs) h = run_actions p xs (run_action p cx x h)"

lemma run_action_follow:
  assumes "item_rely cx"
  shows "items_follow (h_actionItems h) (h_actionItems (run_action p cx x h))"
proof (cases x)
  case (Op_Submit s)
  then show ?thesis using submit_follow [OF assms] by simp
next
  case (Op_Execute mb i)
  then show ?thesis using execute_closed [OF items_run_closed [OF assms]] by simp
next
  case (Op_Reconcile mb a lim)
  then show ?thesis using reconcile_rows_follow [OF assms] by (simp add: reconcileIncomplete_def Let_def)
next
  case (Op_Dispose gen)
  then show ?thesis
    using disposition_rows_follow [OF assms, where sh = "(_, h)"]
    by (auto simp: dispositionRestoredActions_def split: prod.split) (metis snd_conv)
next
  case (Op_Die mb y)
  have "items_follow (h_actionItems h) (h_actionItems (snd (markExecuting (pi_actionId y) (pi_itemKey y) h)))"
    unfolding markExecuting_items
    by (rule items_follow_update) (simp add: item_step_def mark_executing_def)
  then show ?thesis using Op_Die by (auto simp: die_in_write_def split: prod.split)
qed

lemma items_follow_member:
  assumes "items_follow t t'" and "i \<in> set t"
  shows "\<exists>i' \<in> set t'. item_step i i'"
proof -
  from assms(1) obtain u v where u: "t' = u @ v" "list_all2 item_step t u" by (auto simp: items_follow_def)
  from assms(2) obtain n where n: "n < length t" "t ! n = i" by (auto simp: in_set_conv_nth)
  with u(2) have "item_step i (u ! n)" "u ! n \<in> set u" by (auto simp: list_all2_conv_all_nth)
  then show ?thesis using u(1) by auto
qed

text \<open>
  C16. Receipts are final. Over any run of the service's operations, process deaths in the middle
  of a write included, with other runs of the service interleaved at every mailbox call, an item
  keeps its target, never returns to the queue, and once it holds a receipt that is not the
  interrupted hold it keeps exactly that receipt; an interrupted hold can only be replaced by
  another receipt.
\<close>

theorem receipts_are_final:
  assumes "\<forall>(cx, x) \<in> set ops. item_rely cx" and "i \<in> set (h_actionItems h)"
  shows "\<exists>i' \<in> set (h_actionItems (run_actions p ops h)).
    it_actionId i' = it_actionId i \<and> it_itemKey i' = it_itemKey i \<and> it_target i' = it_target i \<and>
    (it_status i' = It_Queued \<longrightarrow> i' = i) \<and> (\<not> pending_item i \<longrightarrow> \<not> pending_item i') \<and>
    (\<not> pending_item i \<and> \<not> interruptedHold i \<longrightarrow> i' = i)"
proof -
  have "items_follow (h_actionItems h) (h_actionItems (run_actions p ops h))"
    using assms(1)
  proof (induction ops arbitrary: h)
    case (Cons y ys)
    obtain cx x where y: "y = (cx, x)" by (cases y)
    with Cons.prems have "items_follow (h_actionItems h) (h_actionItems (run_action p cx x h))"
      by (intro run_action_follow) auto
    moreover have "items_follow (h_actionItems (run_action p cx x h)) (h_actionItems (run_actions p ys (run_action p cx x h)))"
      using Cons by auto
    ultimately show ?case using items_follow_trans y by simp
  qed simp
  from items_follow_member [OF this assms(2)] show ?thesis
    by (auto simp: item_step_def pending_item_def)
qed

theorem receipts_are_final_witness:
  "\<exists>i' \<in> set (h_actionItems (run_actions demo_actions [(action_ctx, Op_Execute demo_mailbox demo_action_id)] action_hub)).
     it_itemKey i' = demo_occurrence \<and> it_target i' = it_target demo_item \<and> it_status i' = It_Confirmed"
proof -
  let ?ops = "[(action_ctx, Op_Execute demo_mailbox demo_action_id)]"
  have "\<forall>(cx, x) \<in> set ?ops. item_rely cx" by (simp add: item_rely_def action_ctx_def)
  from receipts_are_final [OF this, of demo_item action_hub demo_actions]
  obtain i' where i: "i' \<in> set (h_actionItems (run_actions demo_actions ?ops action_hub))"
    "it_itemKey i' = demo_occurrence" "it_target i' = it_target demo_item" by auto
  then have "it_status i' \<in> set (map it_status (h_actionItems (run_actions demo_actions ?ops action_hub)))" by simp
  then have "it_status i' = It_Confirmed" by (simp add: demo_execute_log)
  with i show ?thesis by blast
qed

end
