(* ===== verification/Action_Safety.thy ===== *)
theory Action_Safety
  imports Action_Runs
begin

text \<open>
  What the action service may do to the mailbox. The lemmas about a run are proved in the context
  of the executor interface; the properties use its interpretation on the two-way executor. A
  quiet context is one in which no other writer acts during the call, so these are statements
  about runs one after another, with process deaths in between.
\<close>

section \<open>Frames of a quiet run\<close>

lemma quiet_pause [simp]: "quiet cx \<Longrightarrow> pause cx n h = h"
  by (simp add: quiet_def pause_def)

lemma commit_pending:
  assumes "final_disposition w" and "i \<in> set (h_actionItems (commitDisposition cx action item w h))"
    and "pending_item i"
  shows "i \<in> set (h_actionItems h)" and "(it_actionId i, it_itemKey i) \<noteq> (ac_id action, it_itemKey item)"
  using assms
  by (auto simp: commit_items in_tbl_update eligible_item_def settle_def final_disposition_def pending_item_def
      split: if_splits dest: arg_cong [where f = it_status])

lemma commit_others:
  assumes "(it_actionId i, it_itemKey i) \<noteq> (ac_id action, it_itemKey item)"
  shows "i \<in> set (h_actionItems (commitDisposition cx action item w h)) \<longleftrightarrow> i \<in> set (h_actionItems h)"
  using assms
  by (auto simp: commit_items in_tbl_update eligible_item_def settle_def split: if_splits)

lemma commit_occurrence:
  assumes "j \<noteq> tg_occurrenceId (it_target item)"
  shows "loadOccurrence j (commitDisposition cx action item w h) = loadOccurrence j h"
proof -
  have o: "loadOccurrence j (observe w now (tg_occurrenceId (it_target item)) g) = loadOccurrence j g" for now g
  proof (cases "loadOccurrence (tg_occurrenceId (it_target item)) g")
    case (Some current)
    let ?P = "\<lambda>oc. oc_id oc = tg_occurrenceId (it_target item) \<and> oc_expungedAt oc = None"
    have "find (\<lambda>oc. oc_id oc = j) (tbl_update ?P (observe_row w now current) t) = find (\<lambda>oc. oc_id oc = j) t" for t
    proof (induction t)
      case (Cons oc t)
      have "oc_id (observe_row w now current oc) = oc_id oc"
        by (simp add: observe_row_def Let_def split: option.split)
      with Cons assms show ?case by auto
    qed simp
    with Some show ?thesis by (simp add: observe_def loadOccurrence_def)
  qed (simp add: observe_def)
  have f: "loadOccurrence j (finalizeActionStatus now a g) = loadOccurrence j g"
    "loadOccurrence j (add_event e g) = loadOccurrence j g"
    "loadOccurrence j (g\<lparr>h_actionItems := t\<rparr>) = loadOccurrence j g" for now a e g t
    by (simp_all add: loadOccurrence_def)
  show ?thesis by (simp add: commitDisposition_def Let_def o f)
qed

text \<open>Nothing the checks of items outside \<open>K\<close> read has changed.\<close>

definition others_same :: "uuid \<Rightarrow> string set \<Rightarrow> hub \<Rightarrow> hub \<Rightarrow> bool" where
  "others_same a K h h' \<longleftrightarrow>
     h_serviceState h' = h_serviceState h \<and> h_folders h' = h_folders h \<and>
     (\<forall>i. it_actionId i = a \<and> it_itemKey i \<in> K \<or> (i \<in> set (h_actionItems h') \<longleftrightarrow> i \<in> set (h_actionItems h))) \<and>
     (\<forall>j. j \<in> K \<or> loadOccurrence j h' = loadOccurrence j h)"

lemma others_same_refl [simp]: "others_same a K h h"
  by (simp add: others_same_def)

lemma others_same_trans:
  "others_same a K h h' \<Longrightarrow> others_same a L h' h'' \<Longrightarrow> others_same a (K \<union> L) h h''"
  unfolding others_same_def by (metis Un_iff)

lemma others_same_mono: "others_same a K h h' \<Longrightarrow> K \<subseteq> L \<Longrightarrow> others_same a L h h'"
  unfolding others_same_def by blast

definition own_key :: "action_item_row \<Rightarrow> bool" where
  "own_key i \<longleftrightarrow> tg_occurrenceId (it_target i) = it_itemKey i"

lemma commit_others_same:
  "own_key item \<Longrightarrow> others_same (ac_id action) {it_itemKey item} h (commitDisposition cx action item w h)"
  unfolding others_same_def own_key_def
  using commit_others [of _ action item cx w h] commit_occurrence [of _ item cx action w h] by auto

lemma log_others_same [simp]: "others_same a K h (log_call c h)"
  by (simp add: others_same_def loadOccurrence_def)

lemma claim_others_same: "others_same a {k} h (snd (markExecuting a k h))"
  by (auto simp: others_same_def loadOccurrence_def markExecuting_items in_tbl_update mark_executing_def split: if_splits)

lemma apply_others_same [simp]: "others_same a K h (snd (applyPrepared p mb x h))"
  by (simp add: others_same_def loadOccurrence_def)

lemma conflictItems_others_same:
  assumes q: "quiet cx"
  shows "list_all own_key items \<Longrightarrow>
     others_same (ac_id action) (it_itemKey ` set items) h (conflictItems cx action items reason extra h)"
proof (induction items arbitrary: h)
  case (Cons i items)
  let ?h = "commitDisposition cx action i (conflict reason (extra @
      [(''folderId'', JStr (tg_folderId (it_target i))), (''uid'', JNum (item_uid i))])) h"
  from Cons.prems have "others_same (ac_id action) {it_itemKey i} h ?h" by (simp add: commit_others_same)
  from others_same_trans [OF this Cons.IH [of ?h]] Cons.prems show ?case by (simp add: q)
qed simp

lemma conflictItems_calls [simp]: "quiet cx \<Longrightarrow> h_mailCalls (conflictItems cx action items reason extra h) = h_mailCalls h"
  by (induction items arbitrary: h) simp_all

lemma holdInterrupted_frame [simp]:
  "quiet cx \<Longrightarrow> h_mailCalls (holdInterrupted cx action items h) = h_mailCalls h"
  "quiet cx \<Longrightarrow> h_folders (holdInterrupted cx action items h) = h_folders h"
  "quiet cx \<Longrightarrow> h_serviceState (holdInterrupted cx action items h) = h_serviceState h"
  by (induction items arbitrary: h) simp_all

lemma holdInterrupted_occurrences [simp]:
  assumes "quiet cx"
  shows "h_occurrences (holdInterrupted cx action items h) = h_occurrences h"
proof (induction items arbitrary: h)
  case (Cons i items)
  have "h_occurrences (commitDisposition cx action i hold_interrupted h) = h_occurrences h" for h
    by (simp add: commitDisposition_def Let_def hold_interrupted_def plain_def)
  with Cons assms show ?case by simp
qed simp

lemma holdInterrupted_pending:
  assumes q: "quiet cx" and "i \<in> set (h_actionItems (holdInterrupted cx action items h))" and "pending_item i"
  shows "i \<in> set (h_actionItems h) \<and>
    (\<forall>x \<in> set items. it_status x = It_Executing \<and> \<not> isReplayableKind (ac_kind action) \<longrightarrow>
       (it_actionId i, it_itemKey i) \<noteq> (ac_id action, it_itemKey x))"
  using assms(2,3)
proof (induction items arbitrary: h)
  case (Cons x items)
  show ?case
  proof (cases "it_status x = It_Executing \<and> \<not> isReplayableKind (ac_kind action)")
    case True
    with Cons.prems have "i \<in> set (h_actionItems (holdInterrupted cx action items (commitDisposition cx action x hold_interrupted h)))"
      by (simp add: q)
    from Cons.IH [OF this Cons.prems(2)] have
      1: "i \<in> set (h_actionItems (commitDisposition cx action x hold_interrupted h))" and
      2: "\<forall>x \<in> set items. it_status x = It_Executing \<and> \<not> isReplayableKind (ac_kind action) \<longrightarrow>
        (it_actionId i, it_itemKey i) \<noteq> (ac_id action, it_itemKey x)" by blast+
    from commit_pending [OF final_dispositions(3) 1 Cons.prems(2)] 2 show ?thesis by simp
  next
    case False
    with Cons show ?thesis by auto
  qed
qed simp

lemma in_loadItems: "i \<in> set (loadItems a h) \<longleftrightarrow> i \<in> set (h_actionItems h) \<and> it_actionId i = a"
  by (auto simp: loadItems_def)

lemma hold_leaves_queued:
  assumes "quiet cx" and "i \<in> set (h_actionItems (holdInterrupted cx action (loadItems (ac_id action) h) h))"
    and "it_actionId i = ac_id action" and "pending_item i" and "\<not> isReplayableKind (ac_kind action)"
  shows "i \<in> set (h_actionItems h) \<and> it_status i = It_Queued"
  using holdInterrupted_pending [OF assms(1,2,4)] assms(3-5) by (auto simp: in_loadItems pending_item_def)

section \<open>Certified writes\<close>

definition write_checked ::
    "action_ports \<Rightarrow> action_row \<Rightarrow> folder_row \<Rightarrow> int \<Rightarrow> folder_row option \<Rightarrow> mailbox_flags list \<Rightarrow>
     action_item_row \<Rightarrow> hub \<Rightarrow> mail_call \<Rightarrow> bool" where
  "write_checked p action folder generation destination flags item h c \<longleftrightarrow>
     (\<exists>remote. checkItem action folder generation flags item h = Check_Write remote \<and>
        serves (prepared_of action folder generation destination remote item) c) \<and>
     assessmentOf p action h = None \<and>
     (it_status item = It_Executing \<or>
      (\<exists>i \<in> set (h_actionItems h). it_actionId i = ac_id action \<and> it_itemKey i = it_itemKey item \<and>
         it_status i = It_Queued))"

lemma checkItem_cong:
  "loadOccurrence (tg_occurrenceId (it_target item)) h' = loadOccurrence (tg_occurrenceId (it_target item)) h \<Longrightarrow>
   checkItem action folder generation flags item h' = checkItem action folder generation flags item h"
  unfolding checkItem_def Let_def by (erule ssubst) (rule refl)

lemma assessmentOf_cong:
  "h_serviceState h' = h_serviceState h \<Longrightarrow> assessmentOf p action h' = assessmentOf p action h"
  using readStatus_control_row by (metis assessmentOf_def)

lemma write_checked_before:
  assumes "others_same (ac_id action) K h h'" and "own_key item" and "it_itemKey item \<notin> K"
    and "write_checked p action folder generation destination flags item h' c"
  shows "write_checked p action folder generation destination flags item h c"
proof -
  from assms(1-3) have "loadOccurrence (tg_occurrenceId (it_target item)) h' = loadOccurrence (tg_occurrenceId (it_target item)) h"
    by (auto simp: others_same_def own_key_def)
  from checkItem_cong [OF this] have c: "checkItem action folder generation flags item h' = checkItem action folder generation flags item h" .
  from assms(1) have "h_serviceState h' = h_serviceState h" by (simp add: others_same_def)
  from assessmentOf_cong [OF this] assms(1,3,4) c show ?thesis
    unfolding write_checked_def others_same_def by metis
qed

fun call_key :: "mail_call \<Rightarrow> uuid \<times> string" where
  "call_key (Call_Write a k _) = (a, k)"
| "call_key (Call_Move a k _) = (a, k)"
| "call_key _ = ([], [])"

lemma serves_key: "serves x c \<Longrightarrow> is_mutation c \<Longrightarrow> call_key c = (pi_actionId x, pi_itemKey x)"
  by (cases c) simp_all

text \<open>
  The folder's generation was confirmed by the server after the last selection before the call.
\<close>

definition revalidated :: "action_mailbox \<Rightarrow> int \<Rightarrow> mail_log \<Rightarrow> mail_call \<Rightarrow> bool" where
  "revalidated mb generation log c \<longleftrightarrow>
     (\<exists>l new post st. log = l @ Call_Revalidate # new @ post \<and> c \<in> set new \<and>
        (\<forall>f. Call_Select f \<notin> set new) \<and> am_revalidate mb l = Inr st \<and> mx_uidValidity st = generation)"

lemma revalidated_later: "revalidated mb g log c \<Longrightarrow> revalidated mb g (log @ rest) c"
  unfolding revalidated_def by (metis append.assoc append_Cons)

definition not_queued :: "hub \<Rightarrow> uuid \<times> string \<Rightarrow> bool" where
  "not_queued h key \<longleftrightarrow>
     (\<forall>i \<in> set (h_actionItems h). (it_actionId i, it_itemKey i) = key \<longrightarrow> it_status i \<noteq> It_Queued)"

definition queued_back :: "hub \<Rightarrow> hub \<Rightarrow> bool" where
  "queued_back h h' \<longleftrightarrow>
     (\<forall>i \<in> set (h_actionItems h'). it_status i = It_Queued \<longrightarrow> i \<in> set (h_actionItems h))"

lemma not_queued_later: "not_queued h key \<Longrightarrow> queued_back h h' \<Longrightarrow> not_queued h' key"
  unfolding not_queued_def queued_back_def by blast

lemma queued_back_closed:
  assumes "quiet cx"
  shows "run_closed p cx mb queued_back"
  unfolding run_closed_def
proof (intro conjI allI impI)
  fix h action i w
  assume "final_disposition w"
  then show "queued_back h (commitDisposition cx action i w h)"
    unfolding queued_back_def using commit_pending(1) [of w _ cx action i h] by (simp add: pending_item_def)
next
  fix h a k
  show "queued_back h (snd (markExecuting a k h))"
    by (auto simp: queued_back_def markExecuting_items in_tbl_update mark_executing_def split: if_splits)
qed (use assms in \<open>auto simp: queued_back_def\<close>)

section \<open>Runs against an executor\<close>

text \<open>What a run adds to the log, relative to the state it started from.\<close>

definition new_calls :: "mail_log \<Rightarrow> mail_log \<Rightarrow> mail_log" where
  "new_calls log log' = drop (length log) log'"

lemma new_calls_append [simp]: "new_calls log (log @ new) = new"
  by (simp add: new_calls_def)

lemma run_item_settle:
  "checkItem action folder generation flags item h = Check_Settle w \<Longrightarrow>
   run_item p cx mb action folder generation destination flags item h =
     (None, commitDisposition cx action item w (pause cx 1 h))"
  by (simp add: run_item_def)

lemma run_item_write:
  assumes "checkItem action folder generation flags item h = Check_Write remote"
    and "m = markExecuting (ac_id action) (it_itemKey item) (pause cx 1 h)" and "h2 = pause cx 2 (snd m)"
    and "ap = applyPrepared p mb (prepared_of action folder generation destination remote item) h2"
  shows "run_item p cx mb action folder generation destination flags item h =
    (if \<not> fst m \<and> it_status item \<noteq> It_Executing then (None, snd m)
     else (case assessmentOf p action h2 of Some stop \<Rightarrow> (Some stop, h2)
           | None \<Rightarrow> (None, commitDisposition cx action item (receipt_of (fst ap)) (pause cx 0 (snd ap)))))"
  unfolding run_item_def assms item_check.case case_prod_unfold Let_def by (rule refl)

context action_executor
begin

lemma run_item_effect:
  assumes "quiet cx" and "ap_executor p = apply_item" and "own_key item"
    and "run_item p cx mb action folder generation destination flags item h = (stop, h')"
  shows "others_same (ac_id action) {it_itemKey item} h h' \<and>
    (\<exists>new. h_mailCalls h' = h_mailCalls h @ new \<and> length (mutations new) \<le> 1 \<and> (\<forall>f. Call_Select f \<notin> set new) \<and>
       (\<forall>c \<in> set (mutations new). write_checked p action folder generation destination flags item h c \<and>
          not_queued h' (call_key c)))"
proof (cases "checkItem action folder generation flags item h")
  case (Check_Settle w)
  with assms have "h' = commitDisposition cx action item w h" by (simp add: run_item_settle)
  then show ?thesis using commit_others_same [OF assms(3)] by (auto simp: mutations_def)
next
  case (Check_Write remote)
  let ?a = "ac_id action" and ?k = "it_itemKey item"
  let ?h1 = "snd (markExecuting ?a ?k h)"
  let ?x = "prepared_of action folder generation destination remote item"
  let ?h2 = "snd (applyPrepared p mb ?x ?h1)"
  let ?r = "fst (applyPrepared p mb ?x ?h1)"
  have o1: "others_same ?a {?k} h ?h1" by (rule claim_others_same)
  show ?thesis
  proof (cases "(fst (markExecuting ?a ?k h) \<or> it_status item = It_Executing) \<and> assessmentOf p action ?h1 = None")
    case False
    with assms(4) have "h' = ?h1"
      unfolding run_item_write [OF Check_Write refl refl refl] quiet_pause [OF assms(1)] by (auto split: if_splits option.splits)
    with o1 show ?thesis by (auto simp: mutations_def)
  next
    case True
    with assms(1,4) have h': "h' = commitDisposition cx action item (receipt_of ?r) ?h2"
      unfolding run_item_write [OF Check_Write refl refl refl] quiet_pause [OF assms(1)] by (auto split: if_splits option.splits)
    have "others_same ?a {?k} ?h1 ?h2" by simp
    from others_same_trans [OF o1 this] have "others_same ?a {?k} h ?h2" by simp
    from others_same_trans [OF this commit_others_same [OF assms(3)]] have o: "others_same ?a {?k} h h'"
      using h' by simp
    obtain new where new: "snd (apply_item mb ?x (h_mailCalls h)) = h_mailCalls h @ new"
      "list_all (serves ?x) new" "length (mutations new) \<le> 1"
      using apply_log by blast
    have log: "h_mailCalls h' = h_mailCalls h @ new"
      using new(1) by (simp add: h' assms(2))
    have sel: "\<forall>f. Call_Select f \<notin> set new" using new(2) by (auto simp: list_all_iff)
    have nq1: "not_queued ?h1 (?a, ?k)"
      by (auto simp: not_queued_def markExecuting_items tbl_update_def mark_executing_def)
    have "queued_back ?h1 h'"
      using commit_pending(1) [OF final_dispositions(2)]
      by (auto simp: queued_back_def h' pending_item_def) (metis applyPrepared_frame(1))
    with nq1 have nq: "not_queued h' (?a, ?k)" by (rule not_queued_later)
    have "write_checked p action folder generation destination flags item h c \<and> not_queued h' (call_key c)"
      if "c \<in> set (mutations new)" for c
    proof -
      from that new(2) have s: "serves ?x c" "is_mutation c" by (auto simp: mutations_def list_all_iff)
      have "assessmentOf p action h = None" using True assessmentOf_cong [of ?h1 h] by simp
      moreover have "it_status item = It_Executing \<or> (\<exists>i \<in> set (h_actionItems h). it_actionId i = ?a \<and> it_itemKey i = ?k \<and> it_status i = It_Queued)"
        using True markExecuting_claimed by blast
      moreover have "call_key c = (?a, ?k)" using serves_key [OF s] by (simp add: prepared_of_def)
      ultimately show ?thesis using Check_Write s nq unfolding write_checked_def by auto
    qed
    with o log new(3) sel show ?thesis by blast
  qed
qed


lemma run_items_effect:
  assumes "quiet cx" and "ap_executor p = apply_item" and "list_all own_key items"
    and "distinct (map it_itemKey items)"
  shows "let h' = snd (run_items p cx mb action folder generation destination flags items h) in
    others_same (ac_id action) (it_itemKey ` set items) h h' \<and>
    (\<exists>new. h_mailCalls h' = h_mailCalls h @ new \<and> distinct (map call_key (mutations new)) \<and>
       (\<forall>c \<in> set (mutations new). \<exists>item \<in> set items. call_key c = (ac_id action, it_itemKey item) \<and>
          write_checked p action folder generation destination flags item h c \<and>
          revalidated mb generation (h_mailCalls h') c \<and> not_queued h' (call_key c)))"
  using assms(3,4)
proof (induction items arbitrary: h)
  case Nil
  then show ?case by (simp add: mutations_def)
next
  case (Cons item items)
  let ?run = "run_items p cx mb action folder generation destination flags"
  let ?a = "ac_id action" and ?k = "it_itemKey item"
  let ?h1 = "log_call Call_Revalidate h"
  have q: "pause cx n x = x" for n x using assms(1) by simp
  have l: "others_same ?a {} h ?h1" by simp
  show ?case
  proof (cases "am_revalidate mb (h_mailCalls h)")
    case (Inl m)
    then show ?thesis by (simp add: q Let_def) (simp add: mutations_def)
  next
    case (Inr st)
    show ?thesis
    proof (cases "mx_uidValidity st = generation")
      case False
      let ?c = "conflictItems cx action (item # items) ''generation_changed'' [(''observed'', JNum (mx_uidValidity st))] ?h1"
      have run: "snd (?run (item # items) h) = ?c"
        using Inr False by (simp add: q Let_def del: conflictItems.simps)
      have "others_same ?a (it_itemKey ` set (item # items)) ?h1 ?c"
        by (rule conflictItems_others_same [OF assms(1) Cons.prems(1)])
      from others_same_trans [OF l this] have "others_same ?a (it_itemKey ` set (item # items)) h ?c" by simp
      then show ?thesis unfolding Let_def run using assms(1) by (simp add: mutations_def del: conflictItems.simps)
    next
      case True
      obtain stop h2 where r: "run_item p cx mb action folder generation destination flags item ?h1 = (stop, h2)"
        by fastforce
      from Cons.prems have ok: "own_key item" by simp
      from run_item_effect [OF assms(1,2) ok r] obtain ext where
        o1: "others_same ?a {?k} ?h1 h2" and
        ext: "h_mailCalls h2 = h_mailCalls h @ Call_Revalidate # ext" "length (mutations ext) \<le> 1"
          "\<forall>f. Call_Select f \<notin> set ext" and
        w: "\<And>c. c \<in> set (mutations ext) \<Longrightarrow> write_checked p action folder generation destination flags item ?h1 c \<and>
          not_queued h2 (call_key c)"
        by auto
      from others_same_trans [OF l o1] have o2: "others_same ?a {?k} h h2" by simp
      have key: "call_key c = (?a, ?k)" if "c \<in> set (mutations ext)" for c
        using w [OF that] that serves_key by (auto simp: write_checked_def prepared_of_def mutations_def)
      have w': "write_checked p action folder generation destination flags item h c" if "c \<in> set (mutations ext)" for c
        using w [OF that] by (auto simp: write_checked_def checkItem_cong [of item ?h1 h] loadOccurrence_def
            assessmentOf_cong [of ?h1 h])
      have rv: "revalidated mb generation (h_mailCalls h2) c" if "c \<in> set (mutations ext)" for c
        unfolding revalidated_def
        using that Inr True ext by (intro exI [of _ "h_mailCalls h"] exI [of _ ext] exI [of _ "[]"] exI [of _ st])
          (simp add: mutations_def)
      have d1: "distinct (map call_key (mutations ext))" using ext(2) by (cases "mutations ext") auto
      show ?thesis
      proof (cases stop)
        case (Some x)
        with Inr True r have run: "snd (?run (item # items) h) = h2" by (simp add: q)
        have "others_same ?a (it_itemKey ` set (item # items)) h h2" by (rule others_same_mono [OF o2]) simp
        then show ?thesis
          unfolding Let_def run using ext(1) d1 key w' w rv
          by (intro conjI exI [of _ "Call_Revalidate # ext"]) (auto simp: mutations_def)
      next
        case None
        with Inr True r have run: "snd (?run (item # items) h) = snd (?run items h2)" by (simp add: q)
        let ?h' = "snd (?run items h2)"
        from Cons.IH [of h2] Cons.prems obtain new where
          o3: "others_same ?a (it_itemKey ` set items) h2 ?h'" and
          new: "h_mailCalls ?h' = h_mailCalls h2 @ new" "distinct (map call_key (mutations new))" and
          v: "\<And>c. c \<in> set (mutations new) \<Longrightarrow> \<exists>item \<in> set items. call_key c = (?a, it_itemKey item) \<and>
            write_checked p action folder generation destination flags item h2 c \<and>
            revalidated mb generation (h_mailCalls ?h') c \<and> not_queued ?h' (call_key c)"
          by (auto simp: Let_def)
        have o: "others_same ?a (it_itemKey ` set (item # items)) h ?h'"
          using others_same_trans [OF o2 o3] by simp
        have qb: "queued_back h2 ?h'" by (rule run_items_closed [OF queued_back_closed [OF assms(1)]])
        have m: "mutations (Call_Revalidate # ext @ new) = mutations ext @ mutations new"
          by (simp add: mutations_def)
        have keys: "call_key c \<noteq> (?a, ?k)" if "c \<in> set (mutations new)" for c
          using v [OF that] Cons.prems(2) by force
        have d: "distinct (map call_key (mutations (Call_Revalidate # ext @ new)))"
          unfolding m using d1 new(2) key keys by force
        have c1: "\<exists>i \<in> set (item # items). call_key c = (?a, it_itemKey i) \<and>
            write_checked p action folder generation destination flags i h c \<and>
            revalidated mb generation (h_mailCalls ?h') c \<and> not_queued ?h' (call_key c)"
          if "c \<in> set (mutations ext)" for c
          using key [OF that] w' [OF that] revalidated_later [OF rv [OF that], of new] w [OF that] not_queued_later [OF _ qb] new(1)
          by auto
        have c2: "\<exists>i \<in> set (item # items). call_key c = (?a, it_itemKey i) \<and>
            write_checked p action folder generation destination flags i h c \<and>
            revalidated mb generation (h_mailCalls ?h') c \<and> not_queued ?h' (call_key c)"
          if "c \<in> set (mutations new)" for c
        proof -
          from v [OF that] obtain i where i: "i \<in> set items" "call_key c = (?a, it_itemKey i)"
            "write_checked p action folder generation destination flags i h2 c"
            "revalidated mb generation (h_mailCalls ?h') c" "not_queued ?h' (call_key c)" by blast
          from Cons.prems(2) have "?k \<notin> it_itemKey ` set items" by simp
          with i(1) have "it_itemKey i \<notin> {?k}" by (metis imageI singletonD)
          moreover from i(1) Cons.prems(1) have "own_key i" by (simp add: list_all_iff)
          ultimately have "own_key i" "it_itemKey i \<notin> {?k}" by blast+
          from write_checked_before [OF o2 this i(3)] i show ?thesis by auto
        qed
        show ?thesis
          unfolding Let_def run
          using o d c1 c2 new(1) ext(1) m
          by (intro conjI exI [of _ "Call_Revalidate # ext @ new"]) auto
      qed
    qed
  qed
qed

end

end
