(* ===== verification/Action_Properties.thy ===== *)
theory Action_Properties
  imports Action_Safety
begin

text \<open>
  What a run of the action service must have checked before it writes: the effect of each part of
  a run on the log of calls, composed folder group by folder group in the order of \<open>execute\<close>, and
  the theorem \<open>write_needs_everything\<close>.
\<close>

section \<open>Certified calls of a whole run\<close>

definition certified ::
    "action_ports \<Rightarrow> action_mailbox \<Rightarrow> action_row \<Rightarrow> folder_row option \<Rightarrow> action_item_row list \<Rightarrow> hub \<Rightarrow>
     mail_log \<Rightarrow> mail_call \<Rightarrow> bool" where
  "certified p mb action destination items h log c \<longleftrightarrow>
     (\<exists>item \<in> set items. \<exists>folder generation flags. call_key c = (ac_id action, it_itemKey item) \<and>
        loadFolder (ac_accountId action) (tg_folderId (it_target item)) h = Some folder \<and>
        fo_uidvalidity folder = Some generation \<and>
        write_checked p action folder generation destination flags item h c \<and>
        revalidated mb generation log c)"

lemma certified_later: "certified p mb action d items h log c \<Longrightarrow> certified p mb action d items h (log @ rest) c"
  unfolding certified_def using revalidated_later by blast

lemma certified_mono: "certified p mb action d items h log c \<Longrightarrow> set items \<subseteq> set items' \<Longrightarrow>
    certified p mb action d items' h log c"
  unfolding certified_def by blast

lemma certified_before:
  assumes "others_same (ac_id action) K h h'" and "\<forall>i \<in> set items. own_key i \<and> it_itemKey i \<notin> K"
    and "certified p mb action d items h' log c"
  shows "certified p mb action d items h log c"
proof -
  have "loadFolder a f h' = loadFolder a f h" for a f
    using assms(1) by (simp add: loadFolder_def others_same_def)
  with assms write_checked_before [OF assms(1)] show ?thesis unfolding certified_def by metis
qed

text \<open>The effect of a part of a run over some items of an action.\<close>

definition run_effect ::
    "action_ports \<Rightarrow> action_mailbox \<Rightarrow> action_row \<Rightarrow> folder_row option \<Rightarrow> action_item_row list \<Rightarrow> hub \<Rightarrow>
     hub \<Rightarrow> bool" where
  "run_effect p mb action destination items h h' \<longleftrightarrow>
     others_same (ac_id action) (it_itemKey ` set items) h h' \<and> queued_back h h' \<and>
     (\<exists>new. h_mailCalls h' = h_mailCalls h @ new \<and> distinct (map call_key (mutations new)) \<and>
        (\<forall>c \<in> set (mutations new). certified p mb action destination items h (h_mailCalls h') c \<and>
           not_queued h' (call_key c)))"

lemma run_effectI:
  assumes "others_same (ac_id action) (it_itemKey ` set items) h h'" and "queued_back h h'"
    and "h_mailCalls h' = h_mailCalls h @ new" and "mutations new = []"
  shows "run_effect p mb action d items h h'"
  using assms by (auto simp: run_effect_def)

lemma mutations_append [simp]: "mutations (a @ b) = mutations a @ mutations b"
  by (simp add: mutations_def)

lemma run_effect_trans:
  assumes "run_effect p mb action d items h h1" and "run_effect p mb action d items' h1 h2"
    and "list_all own_key items'" and "it_itemKey ` set items \<inter> it_itemKey ` set items' = {}"
  shows "run_effect p mb action d (items @ items') h h2"
proof -
  from assms(1) obtain new where o1: "others_same (ac_id action) (it_itemKey ` set items) h h1" "queued_back h h1"
    and n1: "h_mailCalls h1 = h_mailCalls h @ new" "distinct (map call_key (mutations new))"
    and c1: "\<And>c. c \<in> set (mutations new) \<Longrightarrow> certified p mb action d items h (h_mailCalls h1) c \<and> not_queued h1 (call_key c)"
    by (auto simp: run_effect_def)
  from assms(2) obtain new' where o2: "others_same (ac_id action) (it_itemKey ` set items') h1 h2" "queued_back h1 h2"
    and n2: "h_mailCalls h2 = h_mailCalls h1 @ new'" "distinct (map call_key (mutations new'))"
    and c2: "\<And>c. c \<in> set (mutations new') \<Longrightarrow> certified p mb action d items' h1 (h_mailCalls h2) c \<and> not_queued h2 (call_key c)"
    by (auto simp: run_effect_def)
  have o: "others_same (ac_id action) (it_itemKey ` set (items @ items')) h h2"
    using others_same_trans [OF o1(1) o2(1)] by (simp add: image_Un)
  have qb: "queued_back h h2" using o1(2) o2(2) unfolding queued_back_def by blast
  have k: "call_key c \<noteq> call_key c'" if "c \<in> set (mutations new)" "c' \<in> set (mutations new')" for c c'
    using c1 [OF that(1)] c2 [OF that(2)] assms(4) unfolding certified_def by force
  have own: "\<forall>i \<in> set items'. own_key i \<and> it_itemKey i \<notin> it_itemKey ` set items"
    using assms(3,4) by (auto simp: list_all_iff)
  have "certified p mb action d (items @ items') h (h_mailCalls h2) c \<and> not_queued h2 (call_key c)"
    if "c \<in> set (mutations new)" for c
    using c1 [OF that] certified_later [of p mb action d items h "h_mailCalls h1" c new'] certified_mono n2(1)
      not_queued_later [OF _ o2(2)] by fastforce
  moreover have "certified p mb action d (items @ items') h (h_mailCalls h2) c \<and> not_queued h2 (call_key c)"
    if "c \<in> set (mutations new')" for c
  proof -
    from c2 [OF that] certified_before [OF o1(1) own] have "certified p mb action d items' h (h_mailCalls h2) c" by blast
    with c2 [OF that] certified_mono show ?thesis by fastforce
  qed
  moreover have "False" if "x \<in> call_key ` set (mutations new)" "x \<in> call_key ` set (mutations new')" for x
  proof -
    from that obtain c c' where "c \<in> set (mutations new)" "x = call_key c" "c' \<in> set (mutations new')" "x = call_key c'"
      by blast
    with k [of c c'] show False by simp
  qed
  then have "call_key ` set (mutations new) \<inter> call_key ` set (mutations new') = {}" by blast
  then have "distinct (map call_key (mutations (new @ new')))"
    using n1(2) n2(2) by simp
  ultimately show ?thesis
    using o qb n1(1) n2(1) unfolding run_effect_def by (intro conjI exI [of _ "new @ new'"]) auto
qed

lemma run_effect_after:
  assumes "run_effect p mb action d items h1 h2" and "others_same (ac_id action) {} h h1"
    and "queued_back h h1" and "h_mailCalls h1 = h_mailCalls h @ new" and "mutations new = []"
    and "list_all own_key items"
  shows "run_effect p mb action d items h h2"
proof -
  have "run_effect p mb action d [] h h1" using assms(2-5) by (intro run_effectI) simp_all
  from run_effect_trans [OF this assms(1,6)] show ?thesis by simp
qed

lemma queued_back_refl [simp]: "queued_back h h"
  by (simp add: queued_back_def)

context action_executor
begin

lemma run_items_run_effect:
  assumes "quiet cx" and "ap_executor p = apply_item" and "list_all own_key items" and "distinct (map it_itemKey items)"
    and "\<forall>i \<in> set items. loadFolder (ac_accountId action) (tg_folderId (it_target i)) h = Some folder"
    and "fo_uidvalidity folder = Some generation"
  shows "run_effect p mb action d items h (snd (run_items p cx mb action folder generation d flags items h))"
proof -
  let ?h' = "snd (run_items p cx mb action folder generation d flags items h)"
  from run_items_effect [OF assms(1-4), where action = action and folder = folder and generation = generation
      and destination = d and flags = flags and h = h and mb = mb]
  obtain new where o: "others_same (ac_id action) (it_itemKey ` set items) h ?h'"
    and n: "h_mailCalls ?h' = h_mailCalls h @ new" "distinct (map call_key (mutations new))"
    and c: "\<And>c. c \<in> set (mutations new) \<Longrightarrow> \<exists>item \<in> set items. call_key c = (ac_id action, it_itemKey item) \<and>
          write_checked p action folder generation d flags item h c \<and>
          revalidated mb generation (h_mailCalls ?h') c \<and> not_queued ?h' (call_key c)"
    by (auto simp: Let_def)
  have "certified p mb action d items h (h_mailCalls ?h') c \<and> not_queued ?h' (call_key c)"
    if "c \<in> set (mutations new)" for c
    using c [OF that] assms(5,6) unfolding certified_def by blast
  moreover have "queued_back h ?h'" by (rule run_items_closed [OF queued_back_closed [OF assms(1)]])
  ultimately show ?thesis using o n unfolding run_effect_def by blast
qed

lemma executeFolderGroup_effect:
  assumes "quiet cx" and "ap_executor p = apply_item" and "list_all own_key items" and "distinct (map it_itemKey items)"
    and "\<forall>i \<in> set items. tg_folderId (it_target i) = tg_folderId (it_target (hd items))"
  shows "run_effect p mb action d items h (snd (executeFolderGroup p cx mb action items d h))"
proof -
  have q: "pause cx n x = x" for n x using assms(1) by simp
  have l: "others_same a {} g (log_call c g)" "queued_back g (log_call c g)" for a g c
    by (simp_all add: queued_back_def)
  have conf: "run_effect p mb action d items h (conflictItems cx action items reason extra g)"
    if "others_same (ac_id action) {} h g" "queued_back h g" "h_mailCalls g = h_mailCalls h @ new" "mutations new = []"
    for g new reason extra
  proof -
    have "run_effect p mb action d items g (conflictItems cx action items reason extra g)"
      using conflictItems_others_same [OF assms(1,3)] conflictItems_closed [OF queued_back_closed [OF assms(1), of p mb]]
      using assms(1) by (intro run_effectI [where new = "[]"]) (simp_all add: mutations_def)
    from run_effect_after [OF this that assms(3)] show ?thesis .
  qed
  note c0 = conf [OF others_same_refl queued_back_refl, of "[]"]
  show ?thesis
  proof (cases "loadFolder (ac_accountId action) (tg_folderId (it_target (hd items))) h")
    case None
    with c0 show ?thesis by (simp add: executeFolderGroup_def mutations_def)
  next
    case (Some folder)
    note folder = Some
    show ?thesis
    proof (cases "fo_uidvalidity folder")
      case None
      with folder c0 show ?thesis by (simp add: executeFolderGroup_def mutations_def)
    next
      case (Some generation)
      let ?h1 = "log_call (Call_Select (fo_name folder)) h"
      let ?h2 = "log_call (Call_Fetch (map item_uid items)) ?h1"
      have h1: "others_same (ac_id action) {} h ?h1" "queued_back h ?h1"
        "h_mailCalls ?h1 = h_mailCalls h @ [Call_Select (fo_name folder)]" "mutations [Call_Select (fo_name folder)] = []"
        using l by (simp_all add: mutations_def)
      have h2: "others_same (ac_id action) {} h ?h2" "queued_back h ?h2"
        "h_mailCalls ?h2 = h_mailCalls h @ [Call_Select (fo_name folder), Call_Fetch (map item_uid items)]"
        "mutations [Call_Select (fo_name folder), Call_Fetch (map item_uid items)] = []"
        using others_same_trans [OF h1(1) l(1)] h1(2) by (auto simp: queued_back_def mutations_def)
      have none: "run_effect p mb action d items h g" if "others_same (ac_id action) {} h g" "queued_back h g"
        "h_mailCalls g = h_mailCalls h @ new" "mutations new = []" for g new
        by (rule run_effectI [OF others_same_mono [OF that(1)]]) (use that in simp_all)
      have "loadFolder (ac_accountId action) (tg_folderId (it_target i)) ?h2 = Some folder" if "i \<in> set items" for i
        using that assms(5) folder by (simp add: loadFolder_def split: if_splits)
      then have "run_effect p mb action d items ?h2 (snd (run_items p cx mb action folder generation d flags items ?h2))" for flags
        using Some by (intro run_items_run_effect assms) auto
      from run_effect_after [OF this h2 assms(3)]
      have r: "run_effect p mb action d items h (snd (run_items p cx mb action folder generation d flags items ?h2))" for flags .
      from conf [OF h1] none [OF h1] none [OF h2] r folder Some show ?thesis
        by (simp add: executeFolderGroup_def Let_def q split: sum.split)
    qed
  qed
qed

lemma run_groups_effect:
  assumes "quiet cx" and "ap_executor p = apply_item" and "list_all own_key pending"
    and "distinct (map it_itemKey pending)" and "distinct ids"
  shows "run_effect p mb action d (filter (\<lambda>i. tg_folderId (it_target i) \<in> set ids) pending) h
    (snd (run_groups p cx mb action pending d ids h))"
  using assms(5)
proof (induction ids arbitrary: h)
  case Nil
  then show ?case by (intro run_effectI [where new = "[]"]) (simp_all add: mutations_def)
next
  case (Cons f ids)
  let ?items = "filter (\<lambda>i. tg_folderId (it_target i) = f) pending"
  let ?rest = "filter (\<lambda>i. tg_folderId (it_target i) \<in> set ids) pending"
  let ?all = "filter (\<lambda>i. tg_folderId (it_target i) \<in> set (f # ids)) pending"
  let ?g = "executeFolderGroup p cx mb action ?items d h"
  have own: "list_all own_key (filter P pending)" "distinct (map it_itemKey (filter P pending))" for P
    using assms(3,4) by (auto simp: list_all_iff distinct_map inj_on_def)
  have "tg_folderId (it_target i) = tg_folderId (it_target (hd ?items))" if "i \<in> set ?items" for i
  proof -
    from that have "hd ?items \<in> set ?items" by (cases ?items) auto
    with that show ?thesis by simp
  qed
  then have e1: "run_effect p mb action d ?items h (snd ?g)"
    by (intro executeFolderGroup_effect assms own) blast
  have mono: "run_effect p mb action d ?all h h'" if "run_effect p mb action d xs h h'" "set xs \<subseteq> set ?all" for xs h'
    using that certified_mono others_same_mono unfolding run_effect_def by (meson image_mono)
  have k: "it_itemKey ` set ?items \<inter> it_itemKey ` set ?rest = {}"
    using assms(4) Cons.prems by (auto simp: distinct_map inj_on_def)
  from Cons have e2: "run_effect p mb action d ?rest (snd ?g) (snd (run_groups p cx mb action pending d ids (snd ?g)))"
    by simp
  from run_effect_trans [OF e1 e2 own(1) k]
  have e: "run_effect p mb action d ?all h (snd (run_groups p cx mb action pending d ids (snd ?g)))"
    by (rule mono) auto
  have e1': "run_effect p mb action d ?all h (snd ?g)" by (rule mono [OF e1]) auto
  from e e1' show ?case by (auto split: sum.split prod.split option.split)
qed

end

section \<open>The whole run\<close>

lemma receipt_state: "quiet cx \<Longrightarrow> snd (finish_action cx action h) = finalizeActionStatus (cx_now cx (length (h_mailCalls h))) (ac_id action) h"
  by (simp add: finish_action_def Let_def)

text \<open>
  The keys of the items of one action are distinct, and an item's key is its occurrence: the primary
  key of \<open>action_items\<close> and the way \<open>submit\<close> fills it.
\<close>

definition items_ok :: "hub \<Rightarrow> bool" where
  "items_ok h \<longleftrightarrow>
     distinct (map (\<lambda>i. (it_actionId i, it_itemKey i)) (h_actionItems h)) \<and> list_all own_key (h_actionItems h)"

lemma commit_ids: "map (\<lambda>i. (it_actionId i, it_itemKey i, it_target i)) (h_actionItems (commitDisposition cx action x w h)) =
    map (\<lambda>i. (it_actionId i, it_itemKey i, it_target i)) (h_actionItems h)"
  unfolding commit_items by (rule map_tbl_update_frame) (simp add: settle_def)

definition same_items :: "hub \<Rightarrow> hub \<Rightarrow> bool" where
  "same_items h h' \<longleftrightarrow> map (\<lambda>i. (it_actionId i, it_itemKey i, it_target i)) (h_actionItems h') =
     map (\<lambda>i. (it_actionId i, it_itemKey i, it_target i)) (h_actionItems h)"

lemma items_ok_same: "same_items h h' \<Longrightarrow> items_ok h \<Longrightarrow> items_ok h'"
proof -
  let ?id = "\<lambda>i. (it_actionId i, it_itemKey i, it_target i)"
  assume s: "same_items h h'" and ok: "items_ok h"
  have k: "map (\<lambda>i. (it_actionId i, it_itemKey i)) t = map (\<lambda>(a, k, _). (a, k)) (map ?id t)" for t
    by simp
  have o: "list_all own_key t = list_all (\<lambda>(a, k, g). tg_occurrenceId g = k) (map ?id t)" for t
    by (induction t) (simp_all add: own_key_def)
  from s ok show ?thesis unfolding items_ok_def same_items_def k o by simp
qed

lemma same_items_closed:
  assumes "quiet cx"
  shows "run_closed p cx mb same_items"
proof -
  have "same_items h (snd (markExecuting a k h))" for h a k
    unfolding same_items_def markExecuting_items by (rule map_tbl_update_frame) (simp add: mark_executing_def)
  then show ?thesis
    using assms by (auto simp: run_closed_def same_items_def commit_ids)
qed

lemma loaded_items_ok:
  assumes "items_ok h"
  shows "list_all own_key (filter P (loadItems a h))" and "distinct (map it_itemKey (filter P (loadItems a h)))"
proof -
  show "list_all own_key (filter P (loadItems a h))"
    using assms by (auto simp: items_ok_def list_all_iff in_loadItems)
  let ?t = "filter (\<lambda>i. it_actionId i = a) (h_actionItems h)"
  have "distinct (map it_itemKey ?t)"
    using assms unfolding items_ok_def distinct_map by (auto simp: inj_on_def)
  then have "distinct ?t" "inj_on it_itemKey (set ?t)" by (auto simp: distinct_map)
  then have "distinct (loadItems a h)" "inj_on it_itemKey (set (loadItems a h))"
    by (simp_all add: loadItems_def)
  then show "distinct (map it_itemKey (filter P (loadItems a h)))"
    by (auto simp: distinct_map inj_on_def)
qed

lemma execute_unfold:
  assumes "quiet cx" and "loadAction i h = Inr action" and "ac_status action \<noteq> Ac_Complete"
    and "assessmentOf p action h = None"
    and "h1 = holdInterrupted cx action (loadItems (ac_id action) h) h"
    and "d = (if requiresDestination (ac_kind action) then loadFolder (ac_accountId action)
        (case sc_destinationFolderId (ac_request action) of None \<Rightarrow> [] | Some i \<Rightarrow> i) h1 else None)"
    and "pending = filter pending_item (loadItems (ac_id action) h1)"
  shows "execute p cx mb i h =
        (if requiresDestination (ac_kind action) \<and> d = None
         then finish_action cx action (conflictAll cx action ''destination_removed'' h1)
         else (case run_groups p cx mb action pending d
                 (distinct_in_order (map (\<lambda>i. tg_folderId (it_target i)) pending)) h1 of
             (Inl e, h2) \<Rightarrow> (Inl e, h2)
           | (Inr (Some stop), h2) \<Rightarrow> blocked_at p cx action stop h2
           | (Inr None, h2) \<Rightarrow> finish_action cx action h2))"
proof -
  from assms(3) have f: "(ac_status action = Ac_Complete) = False" by simp
  have q: "pause cx n x = x" for n x using assms(1) by simp
  show ?thesis
    by (simp only: execute_def execute_ready_def assms(2) sum.case f assms(4) if_False option.case Let_def q assms(5-7))
qed

lemma execute_cases:
  assumes "execute p cx mb i h = (r, h')" and "quiet cx"
  obtains (nothing) "h' = h"
  | (run) action h1 where "loadAction i h = Inr action" and "ac_status action \<noteq> Ac_Complete"
      and "assessmentOf p action h = None"
      and "h1 = holdInterrupted cx action (loadItems (ac_id action) h) h"
      and "h' = snd (finish_action cx action (conflictAll cx action ''destination_removed'' h1)) \<or>
        (\<exists>d pending g. pending = filter pending_item (loadItems (ac_id action) h1) \<and>
           (requiresDestination (ac_kind action) \<longrightarrow> (\<exists>i. sc_destinationFolderId (ac_request action) = i \<and> d \<noteq> None \<and>
              d = loadFolder (ac_accountId action) (case i of None \<Rightarrow> [] | Some x \<Rightarrow> x) h1)) \<and>
           g = run_groups p cx mb action pending d
             (distinct_in_order (map (\<lambda>i. tg_folderId (it_target i)) pending)) h1 \<and>
           (h' = snd g \<or> h' = snd (finish_action cx action (snd g))))"
proof (cases "loadAction i h")
  case (Inl e)
  with assms(1) have "h' = h" by (simp add: execute_def)
  then show thesis by (rule nothing)
next
  case (Inr action)
  note la = Inr
  have q: "pause cx n x = x" for n x using assms(2) by simp
  let ?h1 = "holdInterrupted cx action (loadItems (ac_id action) h) h"
  show thesis
  proof (cases "ac_status action = Ac_Complete \<or> assessmentOf p action h \<noteq> None")
    case True
    with assms(1) la have "h' = h"
      by (auto simp: execute_def blocked_at_def Let_def q split: option.splits if_splits)
    then show thesis by (rule nothing)
  next
    case False
    let ?need = "requiresDestination (ac_kind action)"
    define d where "d = (if ?need then loadFolder (ac_accountId action)
        (case sc_destinationFolderId (ac_request action) of None \<Rightarrow> [] | Some i \<Rightarrow> i) ?h1 else None)"
    let ?pending = "filter pending_item (loadItems (ac_id action) ?h1)"
    let ?g = "run_groups p cx mb action ?pending d (distinct_in_order (map (\<lambda>i. tg_folderId (it_target i)) ?pending)) ?h1"
    from False have f: "ac_status action \<noteq> Ac_Complete" "assessmentOf p action h = None" by auto
    note ex = execute_unfold [OF assms(2) la f refl d_def refl]
    show thesis
    proof (cases "?need \<and> d = None")
      case True
      have "h' = snd (finish_action cx action (conflictAll cx action ''destination_removed'' ?h1))"
        using assms(1) unfolding ex if_P [OF True] by simp
      with la f show thesis by (intro run [of action ?h1]) auto
    next
      case F: False
      have "h' = snd ?g \<or> h' = snd (finish_action cx action (snd ?g))"
        using assms(1) unfolding ex if_not_P [OF F]
        by (cases ?g) (auto simp: blocked_at_def Let_def q split: sum.splits option.splits)
      moreover have "?need \<longrightarrow> (\<exists>i. sc_destinationFolderId (ac_request action) = i \<and> d \<noteq> None \<and>
          d = loadFolder (ac_accountId action) (case i of None \<Rightarrow> [] | Some x \<Rightarrow> x) ?h1)"
        using F by (simp add: d_def)
      ultimately show thesis using la f by (intro run [of action ?h1] disjI2) blast+
    qed
  qed
qed

context action_executor
begin

lemma execute_effect:
  assumes "quiet cx" and "ap_executor p = apply_item" and "items_ok h" and "execute p cx mb i h = (r, h')"
  shows "\<exists>new. h_mailCalls h' = h_mailCalls h @ new \<and> distinct (map call_key (mutations new)) \<and>
    (\<forall>c \<in> set (mutations new). \<exists>action item d h1. loadAction i h = Inr action \<and>
       item \<in> set (h_actionItems h) \<and> it_actionId item = ac_id action \<and>
       pending_item item \<and> (isReplayableKind (ac_kind action) \<or> it_status item = It_Queued) \<and>
       (requiresDestination (ac_kind action) \<longrightarrow> d \<noteq> None \<and>
          d = loadFolder (ac_accountId action) (case sc_destinationFolderId (ac_request action) of None \<Rightarrow> [] | Some x \<Rightarrow> x) h) \<and>
       h1 = holdInterrupted cx action (loadItems (ac_id action) h) h \<and>
       certified p mb action d [item] h1 (h_mailCalls h') c \<and> not_queued h' (call_key c))"
  using assms(4,1)
proof (cases rule: execute_cases)
  case nothing
  then show ?thesis by (simp add: mutations_def)
next
  case (run action h1)
  have calls: "h_mailCalls h1 = h_mailCalls h" "h_folders h1 = h_folders h" using run(4) assms(1) by simp_all
  have lf: "loadFolder a f h1 = loadFolder a f h" for a f using calls by (simp add: loadFolder_def)
  have "same_items h h1" using run(4) holdInterrupted_closed [OF same_items_closed [OF assms(1), of p mb]] by simp
  from items_ok_same [OF this assms(3)] have ok1: "items_ok h1" .
  show ?thesis
    using run(5)
  proof
    assume "h' = snd (finish_action cx action (conflictAll cx action ''destination_removed'' h1))"
    then show ?thesis using assms(1) by (simp add: receipt_state conflictAll_def calls mutations_def)
  next
    assume "\<exists>d pending g. pending = filter pending_item (loadItems (ac_id action) h1) \<and>
           (requiresDestination (ac_kind action) \<longrightarrow> (\<exists>i. sc_destinationFolderId (ac_request action) = i \<and> d \<noteq> None \<and>
              d = loadFolder (ac_accountId action) (case i of None \<Rightarrow> [] | Some x \<Rightarrow> x) h1)) \<and>
           g = run_groups p cx mb action pending d
             (distinct_in_order (map (\<lambda>i. tg_folderId (it_target i)) pending)) h1 \<and>
           (h' = snd g \<or> h' = snd (finish_action cx action (snd g)))"
    then obtain d pending g where p: "pending = filter pending_item (loadItems (ac_id action) h1)"
      and d: "requiresDestination (ac_kind action) \<longrightarrow> d \<noteq> None \<and>
              d = loadFolder (ac_accountId action) (case sc_destinationFolderId (ac_request action) of None \<Rightarrow> [] | Some x \<Rightarrow> x) h1"
      and g: "g = run_groups p cx mb action pending d (distinct_in_order (map (\<lambda>i. tg_folderId (it_target i)) pending)) h1"
      and h': "h' = snd g \<or> h' = snd (finish_action cx action (snd g))"
      by blast
    let ?ids = "distinct_in_order (map (\<lambda>i. tg_folderId (it_target i)) pending)"
    have all: "filter (\<lambda>i. tg_folderId (it_target i) \<in> set ?ids) pending = pending"
      by (simp add: filter_id_conv)
    have "run_effect p mb action d (filter (\<lambda>i. tg_folderId (it_target i) \<in> set ?ids) pending) h1 (snd g)"
      unfolding g by (rule run_groups_effect [OF assms(1,2)]) (simp_all add: p loaded_items_ok [OF ok1])
    then have "run_effect p mb action d pending h1 (snd g)" unfolding all .
    then obtain new where n: "h_mailCalls (snd g) = h_mailCalls h1 @ new" "distinct (map call_key (mutations new))"
      and c: "\<And>c. c \<in> set (mutations new) \<Longrightarrow> certified p mb action d pending h1 (h_mailCalls (snd g)) c \<and>
        not_queued (snd g) (call_key c)"
      by (auto simp: run_effect_def)
    have log: "h_mailCalls h' = h_mailCalls h @ new" using h' n(1) calls assms(1) by (auto simp: receipt_state)
    have nq: "not_queued h' k \<longleftrightarrow> not_queued (snd g) k" for k using h' assms(1) by (auto simp: not_queued_def receipt_state)
    have "\<exists>item. item \<in> set (h_actionItems h) \<and> it_actionId item = ac_id action \<and> pending_item item \<and>
        (isReplayableKind (ac_kind action) \<or> it_status item = It_Queued) \<and>
        certified p mb action d [item] h1 (h_mailCalls h') c \<and> not_queued h' (call_key c)"
      if "c \<in> set (mutations new)" for c
    proof -
      from c [OF that] obtain item where i: "item \<in> set pending" "certified p mb action d [item] h1 (h_mailCalls (snd g)) c"
        unfolding certified_def by auto
      then have i': "item \<in> set (h_actionItems h1)" "it_actionId item = ac_id action" "pending_item item"
        by (auto simp: p in_loadItems)
      have "item \<in> set (h_actionItems h)" using holdInterrupted_pending [OF assms(1) _ i'(3)] i'(1) run(4) by simp
      moreover have "isReplayableKind (ac_kind action) \<or> it_status item = It_Queued"
        using hold_leaves_queued [OF assms(1)] i' run(4) by blast
      ultimately show ?thesis using i' i(2) c [OF that] log n(1) calls nq by auto
    qed
    then show ?thesis using log n(2) run(1,4) d lf by (intro exI [of _ new]) (metis (no_types, lifting))
  qed
qed

end

section \<open>What a write needs\<close>

lemma checkItem_write:
  assumes "checkItem action folder generation flags item h = Check_Write remote"
  obtains oc where "loadOccurrence (tg_occurrenceId (it_target item)) h = Some oc" and "active_occurrence oc"
    and "oc_uidvalidity oc = tg_uidvalidity (it_target item)" and "oc_uidvalidity oc = generation"
    and "oc_revision oc = tg_revision (it_target item)" and "oc_modseq oc = tg_modseq (it_target item)"
  using assms
  by (auto simp: checkItem_def Let_def active_occurrence_def split: option.splits if_splits)

text \<open>The call asks for exactly what the action froze when it was queued.\<close>

definition frozen_request :: "action_row \<Rightarrow> action_item_row \<Rightarrow> hub \<Rightarrow> mail_call \<Rightarrow> bool" where
  "frozen_request action item h c \<longleftrightarrow>
     (case c of
        Call_Write a k w \<Rightarrow>
          fw_uid w = tg_uid (it_target item) \<and>
          flagDesireOf (ac_kind action) = Some \<lparr>fd_flag = fw_flag w, fd_value = fw_value w\<rparr>
      | Call_Move a k w \<Rightarrow>
          mw_uid w = tg_uid (it_target item) \<and> \<not> isReplayableKind (ac_kind action) \<and>
          (requiresDestination (ac_kind action) \<longrightarrow>
             (\<exists>i f. sc_destinationFolderId (ac_request action) = Some i \<and>
                loadFolder (ac_accountId action) i h = Some f \<and> mw_destinationFolder w = fo_name f))
      | _ \<Rightarrow> False)"

lemma assessmentOf_None:
  "assessmentOf p action h = None \<Longrightarrow>
   readStatus (ap_controls p) h = Ready_State (to_lower (trim_string (ac_recoveryGeneration action)))"
  by (auto simp: assessmentOf_def assessJob_def split: control_status.splits if_splits)

lemma served_request:
  assumes "serves (prepared_of action folder generation d remote item) c" and "is_mutation c"
    and "requiresDestination (ac_kind action) \<longrightarrow>
      d = loadFolder (ac_accountId action) (case sc_destinationFolderId (ac_request action) of None \<Rightarrow> [] | Some x \<Rightarrow> x) h"
    and "requiresDestination (ac_kind action) \<longrightarrow> d \<noteq> None"
  shows "frozen_request action item h c"
proof (cases c)
  case (Call_Write a k w)
  with assms(1) show ?thesis
    by (auto simp: frozen_request_def prepared_of_def desiredState_def split: option.splits)
next
  case (Call_Move a k w)
  with assms(1) have fd: "flagDesireOf (ac_kind action) = None"
    by (auto simp: prepared_of_def desiredState_def split: option.splits)
  have "\<exists>i f. sc_destinationFolderId (ac_request action) = Some i \<and> loadFolder (ac_accountId action) i h = Some f \<and>
      mw_destinationFolder w = fo_name f" if r: "requiresDestination (ac_kind action)"
  proof -
    from assms(3,4) r obtain f where f: "d = Some f"
      "loadFolder (ac_accountId action) (case sc_destinationFolderId (ac_request action) of None \<Rightarrow> [] | Some x \<Rightarrow> x) h = Some f"
      by auto
    have "\<not> is_uuid []" by (simp add: is_uuid_def)
    with f(2) obtain i where "sc_destinationFolderId (ac_request action) = Some i" "loadFolder (ac_accountId action) i h = Some f"
      by (cases "sc_destinationFolderId (ac_request action)") (auto simp: loadFolder_def)
    moreover have "mw_destinationFolder w = fo_name f"
      using assms(1) Call_Move fd f(1) by (auto simp: prepared_of_def desiredState_def)
    ultimately show ?thesis by blast
  qed
  with Call_Move assms(1) fd show ?thesis
    by (auto simp: frozen_request_def prepared_of_def flagDesireOf_None_iff)
qed (use assms(2) in simp_all)


definition write_allowed ::
    "action_ports \<Rightarrow> action_mailbox \<Rightarrow> action_row \<Rightarrow> action_item_row \<Rightarrow> hub \<Rightarrow> mail_log \<Rightarrow> mail_call \<Rightarrow> bool" where
  "write_allowed p mb action item h log c \<longleftrightarrow>
     call_key c = (ac_id action, it_itemKey item) \<and> frozen_request action item h c \<and>
     readStatus (ap_controls p) h = Ready_State (to_lower (trim_string (ac_recoveryGeneration action))) \<and>
     item \<in> set (h_actionItems h) \<and> it_actionId item = ac_id action \<and>
     it_status item \<in> {It_Queued} \<union> (if isReplayableKind (ac_kind action) then {It_Executing} else {}) \<and>
     (\<exists>oc. loadOccurrence (tg_occurrenceId (it_target item)) h = Some oc \<and> active_occurrence oc \<and>
        oc_uidvalidity oc = tg_uidvalidity (it_target item) \<and>
        oc_revision oc = tg_revision (it_target item) \<and> oc_modseq oc = tg_modseq (it_target item)) \<and>
     (\<exists>folder. loadFolder (ac_accountId action) (tg_folderId (it_target item)) h = Some folder \<and>
        fo_uidvalidity folder = Some (tg_uidvalidity (it_target item))) \<and>
     revalidated mb (tg_uidvalidity (it_target item)) log c"

lemma mutation_of_key: "c \<in> set (mutations l) \<Longrightarrow> is_mutation c"
  by (simp add: mutations_def)

context action_executor
begin

lemma execute_writes_allowed:
  assumes "quiet cx" and "ap_executor p = apply_item" and "items_ok h" and "execute p cx mb i h = (r, h')"
  shows "\<exists>new. h_mailCalls h' = h_mailCalls h @ new \<and> distinct (map call_key (mutations new)) \<and>
    (\<forall>c \<in> set (mutations new). not_queued h' (call_key c) \<and>
       (\<exists>action item. loadAction i h = Inr action \<and> write_allowed p mb action item h (h_mailCalls h') c))"
proof -
  from execute_effect [OF assms] obtain new where n: "h_mailCalls h' = h_mailCalls h @ new" "distinct (map call_key (mutations new))"
    and c: "\<And>c. c \<in> set (mutations new) \<Longrightarrow> \<exists>action item d h1. loadAction i h = Inr action \<and>
       item \<in> set (h_actionItems h) \<and> it_actionId item = ac_id action \<and>
       pending_item item \<and> (isReplayableKind (ac_kind action) \<or> it_status item = It_Queued) \<and>
       (requiresDestination (ac_kind action) \<longrightarrow> d \<noteq> None \<and>
          d = loadFolder (ac_accountId action) (case sc_destinationFolderId (ac_request action) of None \<Rightarrow> [] | Some x \<Rightarrow> x) h) \<and>
       h1 = holdInterrupted cx action (loadItems (ac_id action) h) h \<and>
       certified p mb action d [item] h1 (h_mailCalls h') c \<and> not_queued h' (call_key c)"
    by blast
  have "not_queued h' (call_key c) \<and>
      (\<exists>action item. loadAction i h = Inr action \<and> write_allowed p mb action item h (h_mailCalls h') c)"
    if cn: "c \<in> set (mutations new)" for c
  proof -
    from c [OF cn] obtain action item d where a: "loadAction i h = Inr action" "item \<in> set (h_actionItems h)"
      "it_actionId item = ac_id action" "pending_item item" "isReplayableKind (ac_kind action) \<or> it_status item = It_Queued"
      and d: "requiresDestination (ac_kind action) \<longrightarrow> d = loadFolder (ac_accountId action) (case sc_destinationFolderId (ac_request action) of None \<Rightarrow> [] | Some x \<Rightarrow> x) h"
        "requiresDestination (ac_kind action) \<longrightarrow> d \<noteq> None"
      and cert: "certified p mb action d [item] (holdInterrupted cx action (loadItems (ac_id action) h) h) (h_mailCalls h') c"
      and nq: "not_queued h' (call_key c)" by blast
    let ?h1 = "holdInterrupted cx action (loadItems (ac_id action) h) h"
    from cert obtain folder generation flags remote where k: "call_key c = (ac_id action, it_itemKey item)"
      and f: "loadFolder (ac_accountId action) (tg_folderId (it_target item)) ?h1 = Some folder" "fo_uidvalidity folder = Some generation"
      and ch: "checkItem action folder generation flags item ?h1 = Check_Write remote"
      and sv: "serves (prepared_of action folder generation d remote item) c"
      and as: "assessmentOf p action ?h1 = None"
      and rv: "revalidated mb generation (h_mailCalls h') c"
      by (auto simp: certified_def write_checked_def)
    from checkItem_write [OF ch] obtain oc where o: "loadOccurrence (tg_occurrenceId (it_target item)) ?h1 = Some oc"
      "active_occurrence oc" "oc_uidvalidity oc = tg_uidvalidity (it_target item)" "oc_uidvalidity oc = generation"
      "oc_revision oc = tg_revision (it_target item)" "oc_modseq oc = tg_modseq (it_target item)" by blast
    have "frozen_request action item h c" by (rule served_request [OF sv mutation_of_key [OF cn] d])
    moreover have "readStatus (ap_controls p) h = Ready_State (to_lower (trim_string (ac_recoveryGeneration action)))"
      using assessmentOf_None as assessmentOf_cong [of ?h1 h] assms(1) by simp
    moreover have "it_status item \<in> {It_Queued} \<union> (if isReplayableKind (ac_kind action) then {It_Executing} else {})"
      using a(4,5) by (auto simp: pending_item_def)
    moreover have "loadFolder (ac_accountId action) (tg_folderId (it_target item)) h = Some folder"
      "loadOccurrence (tg_occurrenceId (it_target item)) h = Some oc"
      using f(1) o(1) assms(1) by (simp_all add: loadFolder_def loadOccurrence_def split: if_splits)
    ultimately have "write_allowed p mb action item h (h_mailCalls h') c"
      unfolding write_allowed_def using k a o f(2) rv by auto
    with a(1) nq show ?thesis by blast
  qed
  with n show ?thesis by blast
qed

end



end
