(* ===== verification/Action_Once.thy ===== *)
theory Action_Once
  imports Action_Properties
begin

text \<open>
  Over sequences of operations: no message is moved twice for one item
  (\<open>moved_at_most_once\<close>), and an interleaving of two runs of one action in which it is.
\<close>

section \<open>Moves\<close>

fun is_move :: "uuid \<Rightarrow> string \<Rightarrow> mail_call \<Rightarrow> bool" where
  "is_move a k (Call_Move a' k' _) \<longleftrightarrow> a = a' \<and> k = k'"
| "is_move a k _ \<longleftrightarrow> False"

definition moves :: "uuid \<Rightarrow> string \<Rightarrow> mail_log \<Rightarrow> mail_log" where
  "moves a k log = filter (is_move a k) log"

lemma moves_append [simp]: "moves a k (l @ l') = moves a k l @ moves a k l'"
  by (simp add: moves_def)

lemma moves_key: "c \<in> set (moves a k l) \<Longrightarrow> c \<in> set (mutations l) \<and> call_key c = (a, k)"
  by (cases c) (auto simp: moves_def mutations_def)

lemma moves_mutations: "moves a k (mutations l) = moves a k l"
proof -
  have "is_move a k c \<Longrightarrow> is_mutation c" for c by (cases c) auto
  then show ?thesis by (induction l) (auto simp: moves_def mutations_def)
qed

lemma moves_distinct:
  assumes "distinct (map call_key (mutations l))"
  shows "length (moves a k l) \<le> 1"
proof -
  have "length (filter (is_move a k) t) \<le> 1" if "distinct (map call_key t)" for t
    using that
  proof (induction t)
    case (Cons c t)
    have "filter (is_move a k) t = []" if "is_move a k c"
    proof -
      from that have kc: "call_key c = (a, k)" by (cases c) auto
      have "\<not> is_move a k c'" if "c' \<in> set t" for c'
      proof
        assume "is_move a k c'"
        then have "call_key c' = (a, k)" by (cases c') auto
        with kc have "call_key c \<in> call_key ` set t" using that by (metis imageI)
        with Cons.prems show False by simp
      qed
      then show ?thesis by (simp add: filter_empty_conv)
    qed
    with Cons show ?case by auto
  qed simp
  from this [OF assms] show ?thesis using moves_mutations [of a k l] by (simp add: moves_def)
qed

text \<open>
  The invariant: rows refer to each other as the keys of the tables demand, and a logged move
  belongs to an existing action and to an item that has left the queue.
\<close>

definition moves_inv :: "hub \<Rightarrow> bool" where
  "moves_inv h \<longleftrightarrow>
     items_ok h \<and> distinct (map oc_id (h_occurrences h)) \<and>
     (\<forall>i \<in> set (h_actionItems h). it_actionId i \<in> ac_id ` set (h_actions h)) \<and>
     (\<forall>a k. moves a k (h_mailCalls h) \<noteq> [] \<longrightarrow>
        length (moves a k (h_mailCalls h)) \<le> 1 \<and> not_queued h (a, k) \<and> a \<in> ac_id ` set (h_actions h))"

definition same_keys :: "hub \<Rightarrow> hub \<Rightarrow> bool" where
  "same_keys h h' \<longleftrightarrow> same_items h h' \<and> map ac_id (h_actions h') = map ac_id (h_actions h) \<and>
     map oc_id (h_occurrences h') = map oc_id (h_occurrences h) \<and> queued_back h h'"

lemma finalize_action_ids: "map ac_id (h_actions (finalizeActionStatus now a h)) = map ac_id (h_actions h)"
  by (simp add: finalizeActionStatus_def Let_def map_tbl_update_frame)

lemma observe_ids: "map oc_id (h_occurrences (observe w now i h)) = map oc_id (h_occurrences h)"
proof -
  have "oc_id (observe_row w now current oc) = oc_id oc" for current oc
    by (simp add: observe_row_def Let_def split: option.split)
  then show ?thesis by (simp add: observe_def map_tbl_update_frame split: option.split)
qed

lemma commit_keys:
  "map ac_id (h_actions (commitDisposition cx action x w h)) = map ac_id (h_actions h)"
  "map oc_id (h_occurrences (commitDisposition cx action x w h)) = map oc_id (h_occurrences h)"
  by (simp_all add: commitDisposition_def Let_def finalize_action_ids observe_ids)

lemma same_keys_closed:
  assumes "quiet cx"
  shows "run_closed p cx mb same_keys"
proof -
  have q: "run_closed p cx mb queued_back" and s: "run_closed p cx mb same_items"
    by (rule queued_back_closed [OF assms], rule same_items_closed [OF assms])
  show ?thesis
    unfolding run_closed_def
  proof (intro conjI allI impI)
    fix h show "same_keys h h" by (simp add: same_keys_def same_items_def)
  next
    fix a b c assume "same_keys a b" "same_keys b c"
    then show "same_keys a c" using run_closedD(2) [OF q] by (auto simp: same_keys_def same_items_def)
  next
    fix h action i w assume "final_disposition w"
    then show "same_keys h (commitDisposition cx action i w h)"
      using run_closedD(3) [OF q] by (simp add: same_keys_def same_items_def commit_keys commit_ids)
  next
    fix h c assume "\<not> is_mutation c"
    then show "same_keys h (log_call c h)" by (simp add: same_keys_def same_items_def queued_back_def)
  next
    fix h n show "same_keys h (pause cx n h)" using assms by (simp add: same_keys_def same_items_def)
  next
    fix h a k
    show "same_keys h (snd (markExecuting a k h))"
      using run_closedD(6) [OF q] run_closedD(6) [OF s] by (simp add: same_keys_def)
  next
    fix h x show "same_keys h (snd (applyPrepared p mb x h))"
      by (simp add: same_keys_def same_items_def queued_back_def)
  next
    fix h now a show "same_keys h (finalizeActionStatus now a h)"
      by (simp add: same_keys_def same_items_def queued_back_def finalize_action_ids)
  qed
qed

lemma same_keys_image:
  assumes "same_keys h h'"
  shows "ac_id ` set (h_actions h') = ac_id ` set (h_actions h)"
    and "distinct (map oc_id (h_occurrences h')) = distinct (map oc_id (h_occurrences h))"
    and "it_actionId ` set (h_actionItems h') = it_actionId ` set (h_actionItems h)"
proof -
  from assms show "ac_id ` set (h_actions h') = ac_id ` set (h_actions h)"
    unfolding same_keys_def by (metis list.set_map)
  from assms show "distinct (map oc_id (h_occurrences h')) = distinct (map oc_id (h_occurrences h))"
    by (simp add: same_keys_def)
  have "map (\<lambda>i. (it_actionId i, it_itemKey i, it_target i)) (h_actionItems h') =
      map (\<lambda>i. (it_actionId i, it_itemKey i, it_target i)) (h_actionItems h)"
    using assms by (simp add: same_keys_def same_items_def)
  from arg_cong [where f = "\<lambda>t. fst ` set t", OF this]
  show "it_actionId ` set (h_actionItems h') = it_actionId ` set (h_actionItems h)"
    by (simp add: image_image)
qed

lemma moves_inv_step:
  assumes "moves_inv h" and "same_keys h h'" and "h_mailCalls h' = h_mailCalls h @ new"
    and "\<And>a k. moves a k new \<noteq> [] \<Longrightarrow> length (moves a k new) \<le> 1 \<and> not_queued h' (a, k) \<and>
           \<not> not_queued h (a, k) \<and> a \<in> ac_id ` set (h_actions h)"
  shows "moves_inv h'"
  unfolding moves_inv_def
proof (intro conjI allI impI)
  show "items_ok h'" using assms(1,2) items_ok_same by (auto simp: moves_inv_def same_keys_def)
  show "distinct (map oc_id (h_occurrences h'))" using assms(1) same_keys_image(2) [OF assms(2)] by (simp add: moves_inv_def)
  show "\<forall>i \<in> set (h_actionItems h'). it_actionId i \<in> ac_id ` set (h_actions h')"
  proof
    fix i assume "i \<in> set (h_actionItems h')"
    then have "it_actionId i \<in> it_actionId ` set (h_actionItems h)" using same_keys_image(3) [OF assms(2)] by blast
    then obtain j where "j \<in> set (h_actionItems h)" "it_actionId i = it_actionId j" by blast
    moreover have "it_actionId j \<in> ac_id ` set (h_actions h)"
      if "j \<in> set (h_actionItems h)" for j using assms(1) that by (simp add: moves_inv_def)
    ultimately show "it_actionId i \<in> ac_id ` set (h_actions h')" using same_keys_image(1) [OF assms(2)] by simp
  qed
next
  fix a k
  assume m: "moves a k (h_mailCalls h') \<noteq> []"
  have qb: "queued_back h h'" using assms(2) by (simp add: same_keys_def)
  have old: "length (moves a k (h_mailCalls h)) \<le> 1 \<and> not_queued h (a, k) \<and> a \<in> ac_id ` set (h_actions h)"
    if "moves a k (h_mailCalls h) \<noteq> []"
    using assms(1) that by (simp add: moves_inv_def)
  show "length (moves a k (h_mailCalls h')) \<le> 1" and "not_queued h' (a, k)" and "a \<in> ac_id ` set (h_actions h')"
  proof -
    have "length (moves a k (h_mailCalls h')) \<le> 1 \<and> not_queued h' (a, k) \<and> a \<in> ac_id ` set (h_actions h')"
    proof (cases "moves a k new = []")
      case True
      with m old assms(3) show ?thesis using not_queued_later [OF _ qb] same_keys_image(1) [OF assms(2)] by simp
    next
      case False
      with old assms(4) have "moves a k (h_mailCalls h) = []" by blast
      with False assms(3,4) show ?thesis using same_keys_image(1) [OF assms(2)] by simp
    qed
    then show "length (moves a k (h_mailCalls h')) \<le> 1" and "not_queued h' (a, k)" and "a \<in> ac_id ` set (h_actions h')"
      by blast+
  qed
qed

context action_executor
begin

lemma execute_moves_inv:
  assumes "quiet cx" and "ap_executor p = apply_item" and "moves_inv h"
  shows "moves_inv (snd (execute p cx mb i h))"
proof -
  obtain r h' where ex: "execute p cx mb i h = (r, h')" by fastforce
  have ok: "items_ok h" using assms(3) by (simp add: moves_inv_def)
  from execute_writes_allowed [OF assms(1,2) ok ex] obtain new where n: "h_mailCalls h' = h_mailCalls h @ new"
      "distinct (map call_key (mutations new))"
    and c: "\<And>c. c \<in> set (mutations new) \<Longrightarrow> not_queued h' (call_key c) \<and>
       (\<exists>action item. loadAction i h = Inr action \<and> write_allowed p mb action item h (h_mailCalls h') c)" by blast
  have sk: "same_keys h h'" using execute_closed [OF same_keys_closed [OF assms(1), of p mb]] ex by (metis snd_conv)
  have "moves_inv h'"
  proof (rule moves_inv_step [OF assms(3) sk n(1)])
    fix a k assume "moves a k new \<noteq> []"
    then obtain x where x: "x \<in> set (moves a k new)" by (cases "moves a k new") auto
    from moves_key [OF x] have m: "x \<in> set (mutations new)" "call_key x = (a, k)" by auto
    from x have mv: "is_move a k x" by (simp add: moves_def)
    from c [OF m(1)] obtain action item where w: "write_allowed p mb action item h (h_mailCalls h') x"
      and la: "loadAction i h = Inr action" by blast
    from w mv have "\<not> isReplayableKind (ac_kind action)"
      by (cases x) (auto simp: write_allowed_def frozen_request_def)
    with w m(2) have q: "\<not> not_queued h (a, k)" by (auto simp: write_allowed_def not_queued_def)
    moreover have "a \<in> ac_id ` set (h_actions h)"
    proof -
      from w m(2) have "it_actionId item = a" "item \<in> set (h_actionItems h)" by (auto simp: write_allowed_def)
      with assms(3) show ?thesis by (auto simp: moves_inv_def)
    qed
    ultimately show "length (moves a k new) \<le> 1 \<and> not_queued h' (a, k) \<and> \<not> not_queued h (a, k) \<and>
        a \<in> ac_id ` set (h_actions h)"
      using moves_distinct [OF n(2)] c [OF m(1)] m(2) by simp
  qed
  with ex show ?thesis by simp
qed

lemma reconcile_rows_moves_inv:
  assumes "quiet cx" and "ap_executor p = apply_item" and "moves_inv h"
  shows "moves_inv (snd (reconcile_rows p cx mb ids s h))"
  using assms(3)
proof (induction ids arbitrary: s h)
  case (Cons i ids)
  from execute_moves_inv [OF assms(1,2) Cons.prems] Cons.IH show ?case
    by (auto split: prod.split sum.split dest: arg_cong [where f = snd]) (metis snd_conv)+
qed simp

lemma die_moves_inv:
  assumes "ap_executor p = apply_item" and "moves_inv h"
  shows "moves_inv (die_in_write p mb x h)"
proof (cases "fst (markExecuting (pi_actionId x) (pi_itemKey x) h)")
  case False
  let ?h1 = "snd (markExecuting (pi_actionId x) (pi_itemKey x) h)"
  have q: "quiet \<lparr>cx_now = \<lambda>_. 0, cx_ids = \<lambda>_. [], cx_rely = \<lambda>_ h. h\<rparr>" by (simp add: quiet_def)
  have "same_keys h ?h1" by (rule run_closedD(6) [OF same_keys_closed [OF q]])
  then have "moves_inv ?h1" by (rule moves_inv_step [OF assms(2), where new = "[]"]) (simp_all add: moves_def)
  with False show ?thesis by (simp add: die_in_write_def case_prod_unfold)
next
  case True
  let ?a = "pi_actionId x" and ?k = "pi_itemKey x"
  let ?h1 = "snd (markExecuting ?a ?k h)"
  let ?h2 = "snd (applyPrepared p mb x ?h1)"
  have q: "quiet \<lparr>cx_now = \<lambda>_. 0, cx_ids = \<lambda>_. [], cx_rely = \<lambda>_ h. h\<rparr>" by (simp add: quiet_def)
  note cl = same_keys_closed [OF q, of p mb]
  have sk: "same_keys h ?h2"
    by (rule run_closedD(2) [OF cl run_closedD(6) [OF cl] run_closedD(7) [OF cl]])
  obtain new where new: "snd (apply_item mb x (h_mailCalls h)) = h_mailCalls h @ new" "list_all (serves x) new"
    "length (mutations new) \<le> 1" using apply_log by blast
  have nq: "not_queued ?h2 (?a, ?k)"
    by (auto simp: not_queued_def markExecuting_items tbl_update_def mark_executing_def)
  have "moves_inv ?h2"
  proof (rule moves_inv_step [OF assms(2) sk, where new = new])
    show "h_mailCalls ?h2 = h_mailCalls h @ new" using new(1) assms(1) by simp
    fix a k assume "moves a k new \<noteq> []"
    then obtain c where c: "c \<in> set (moves a k new)" by (cases "moves a k new") auto
    from moves_key [OF c] have m: "c \<in> set (mutations new)" "call_key c = (a, k)" by auto
    with new(2) have "serves x c" "is_mutation c" by (auto simp: mutations_def list_all_iff)
    from serves_key [OF this] m(2) have k: "a = ?a" "k = ?k" by auto
    from True obtain i where i: "i \<in> set (h_actionItems h)" "it_actionId i = ?a" "it_itemKey i = ?k" "it_status i = It_Queued"
      by (auto simp: markExecuting_claimed)
    have "length (moves a k new) \<le> length (mutations new)"
      using moves_mutations [of a k new] by (metis length_filter_le moves_def)
    then have l: "length (moves a k new) \<le> 1" using new(3) by linarith
    have q0: "\<not> not_queued h (a, k)" using i k unfolding not_queued_def by fastforce
    have "it_actionId i \<in> ac_id ` set (h_actions h)" using assms(2) i(1) by (simp add: moves_inv_def)
    with i(2) k have "a \<in> ac_id ` set (h_actions h)" by simp
    with l nq q0 k show "length (moves a k new) \<le> 1 \<and> not_queued ?h2 (a, k) \<and> \<not> not_queued h (a, k) \<and>
        a \<in> ac_id ` set (h_actions h)" by blast
  qed
  with True show ?thesis by (simp add: die_in_write_def case_prod_unfold)
qed

end

lemma disposition_tx_same_keys:
  "same_keys h (snd (disposition_tx now a (s, h))) \<and> h_mailCalls (snd (disposition_tx now a (s, h))) = h_mailCalls h"
proof -
  let ?Q = "\<lambda>i. it_actionId i = ac_id a \<and> it_status i = It_Queued"
  let ?E = "\<lambda>i. it_actionId i = ac_id a \<and> it_status i = It_Executing"
  let ?t = "tbl_update ?E (restored_outcome It_Unknown) (tbl_update ?Q (restored_outcome It_Conflicted) (h_actionItems h))"
  have items: "h_actionItems (snd (disposition_tx now a (s, h))) = ?t"
    by (simp add: disposition_tx_def Let_def)
  have "map (\<lambda>i. (it_actionId i, it_itemKey i, it_target i)) ?t = map (\<lambda>i. (it_actionId i, it_itemKey i, it_target i)) (h_actionItems h)"
    by (simp add: map_tbl_update_frame restored_outcome_def)
  moreover have "\<forall>i \<in> set ?t. it_status i = It_Queued \<longrightarrow> i \<in> set (h_actionItems h)"
    by (auto simp: tbl_update_def restored_outcome_def)
  moreover have "map ac_id (h_actions (snd (disposition_tx now a (s, h)))) = map ac_id (h_actions h)"
    "map oc_id (h_occurrences (snd (disposition_tx now a (s, h)))) = map oc_id (h_occurrences h)"
    "h_mailCalls (snd (disposition_tx now a (s, h))) = h_mailCalls h"
    by (simp_all add: disposition_tx_def Let_def map_tbl_update_frame)
  ultimately show ?thesis unfolding same_keys_def same_items_def queued_back_def items by blast
qed

lemma disposition_rows_moves_inv:
  assumes "quiet cx" and "moves_inv (snd sh)"
  shows "moves_inv (snd (disposition_rows cx k rows sh))"
  using assms
proof (induction cx k rows sh rule: disposition_rows.induct)
  case (2 cx k a rest s h)
  have q: "cx_rely cx k h = h" using 2(2) by (simp add: quiet_def)
  have i: "moves_inv h" using 2(3) by (simp only: snd_conv)
  have sk: "same_keys h (snd (disposition_tx (cx_now cx k) a (s, h)))"
    and lg: "h_mailCalls (snd (disposition_tx (cx_now cx k) a (s, h))) = h_mailCalls h @ []"
    using disposition_tx_same_keys [of h "cx_now cx k" a s] by simp_all
  have "moves_inv (snd (disposition_tx (cx_now cx k) a (s, h)))"
    by (rule moves_inv_step [OF i sk lg]) (simp add: moves_def)
  from 2(1) [OF 2(2), unfolded q, OF this] show ?case unfolding disposition_rows.simps q .
qed simp

lemma freezeTargets_success:
  assumes "freezeTargets sc h = Inr targets"
  obtains rows where "rows = filter (\<lambda>oc. oc_accountId oc = sc_accountId sc \<and> oc_id oc \<in> set (sc_occurrenceIds sc)) (h_occurrences h)"
    and "targets = map frozenTarget rows" and "length rows = length (sc_occurrenceIds sc)"
    and "\<forall>oc \<in> set rows. active_occurrence oc" and "\<exists>a \<in> set (h_accounts h). acc_id a = sc_accountId sc"
    and "requiresDestination (sc_kind sc) \<longrightarrow> (\<exists>f \<in> set (h_folders h). Some (fo_id f) = sc_destinationFolderId sc \<and>
      fo_accountId f = sc_accountId sc \<and> (\<forall>oc \<in> set rows. oc_folderId oc \<noteq> fo_id f))"
  using assms
  by (auto simp: freezeTargets_def tx_simps Let_def list_ex_iff list_all_iff split: if_splits option.splits
      dest!: find_in_set)

lemma submit_success:
  assumes "quiet cx" and "submit p cx s h = (Inr (True, r), h')"
  obtains gen targets where "gateMutation (ap_controls p) (Some (sm_recoveryGeneration s)) h = Inr gen"
    and "validateSubmission s = Inr ()" and "findByIdempotencyKeyA (sm_idempotencyKey s) h = None"
    and "freezeTargets (canonicalScope s) h = Inr targets"
    and "submit_tx (cx_ids cx 0) (cx_now cx 0) gen (sm_idempotencyKey s)
        (hashScope (ap_hashJson p) (canonicalScope s)) (canonicalScope s) targets h = Inr (cx_ids cx 0, h')"
    and "receipt (cx_ids cx 0) h' = Inr r"
proof -
  have q: "cx_rely cx k g = g" for k g using assms(1) by (simp add: quiet_def)
  from assms(2) show thesis
    by (auto simp: submit_def Let_def q attempt_eq_Inr submit_tx_def tx_simps intro!: that
        split: sum.splits option.splits prod.splits if_splits dest!: run_tx_value)
qed

lemma submit_other:
  assumes "quiet cx" and "submit p cx s h = (r, h')" and "\<forall>x. r \<noteq> Inr (True, x)"
  shows "h' = h \<or> (\<exists>gen targets. freezeTargets (canonicalScope s) h = Inr targets \<and>
    submit_tx (cx_ids cx 0) (cx_now cx 0) gen (sm_idempotencyKey s)
        (hashScope (ap_hashJson p) (canonicalScope s)) (canonicalScope s) targets h = Inr (cx_ids cx 0, h'))"
proof -
  have q: "cx_rely cx k g = g" for k g using assms(1) by (simp add: quiet_def)
  from assms(2,3) show ?thesis
    by (auto simp: submit_def Let_def q attempt_eq_Inr attempt_eq_Inl submit_tx_def run_tx_def require_def
        split: sum.splits option.splits prod.splits if_splits)
qed

lemma submit_tx_moves_inv:
  assumes "moves_inv h" and "freezeTargets sc h = Inr targets"
    and "submit_tx i now gen key rh sc targets h = Inr (i, h')"
  shows "moves_inv h'"
proof -
  from assms(2) obtain rows where r: "targets = map frozenTarget rows"
    "rows = filter (\<lambda>oc. oc_accountId oc = sc_accountId sc \<and> oc_id oc \<in> set (sc_occurrenceIds sc)) (h_occurrences h)"
    by (rule freezeTargets_success)
  have d: "distinct (map oc_id rows)" using assms(1) by (auto simp: r(2) moves_inv_def distinct_map inj_on_def)
  from assms(3) have fresh: "i \<notin> ac_id ` set (h_actions h)"
    and h': "h_actionItems h' = h_actionItems h @ map (queued_item i) targets"
      "h_actions h' = h_actions h @ [queued_action i now gen key rh sc]" "h_occurrences h' = h_occurrences h"
      "h_mailCalls h' = h_mailCalls h"
    by (auto simp: submit_tx_def tx_simps list_ex_iff)
  have keys: "map (\<lambda>x. (it_actionId x, it_itemKey x)) (map (queued_item i) targets) = map (\<lambda>oc. (i, oc_id oc)) rows"
    by (simp add: r(1) queued_item_def frozenTarget_def)
  have d': "distinct (map (\<lambda>oc. (i, oc_id oc)) rows)" using d by (auto simp: distinct_map inj_on_def)
  have old: "distinct (map (\<lambda>x. (it_actionId x, it_itemKey x)) (h_actionItems h))" "list_all own_key (h_actionItems h)"
    using assms(1) by (simp_all add: moves_inv_def items_ok_def)
  have "(i, k) \<notin> (\<lambda>x. (it_actionId x, it_itemKey x)) ` set (h_actionItems h)" for k
    using assms(1) fresh by (auto simp: moves_inv_def)
  then have dis: "(\<lambda>x. (it_actionId x, it_itemKey x)) ` set (h_actionItems h) \<inter> (\<lambda>oc. (i, oc_id oc)) ` set rows = {}"
    by blast
  have "map (\<lambda>x. (it_actionId x, it_itemKey x)) (h_actionItems h') =
      map (\<lambda>x. (it_actionId x, it_itemKey x)) (h_actionItems h) @ map (\<lambda>oc. (i, oc_id oc)) rows"
    unfolding h'(1) map_append keys ..
  with old(1) d' dis have "distinct (map (\<lambda>x. (it_actionId x, it_itemKey x)) (h_actionItems h'))"
    by (simp only: distinct_append set_map)
  moreover have "list_all own_key (h_actionItems h')"
    unfolding h'(1) list_all_append r(1)
    using old(2) by (simp add: list_all_iff own_key_def queued_item_def frozenTarget_def)
  ultimately have ok: "items_ok h'" by (simp add: items_ok_def)
  have nq: "not_queued h' (a, k) \<longleftrightarrow> not_queued h (a, k)" if "a \<noteq> i" for a k
    using that by (auto simp: not_queued_def h'(1) queued_item_def)
  have "length (moves a k (h_mailCalls h')) \<le> 1 \<and> not_queued h' (a, k) \<and> a \<in> ac_id ` set (h_actions h')"
    if "moves a k (h_mailCalls h') \<noteq> []" for a k
  proof -
    from that assms(1) have o: "length (moves a k (h_mailCalls h)) \<le> 1" "not_queued h (a, k)" "a \<in> ac_id ` set (h_actions h)"
      by (simp_all add: moves_inv_def h'(4))
    with fresh have "a \<noteq> i" by blast
    with o nq show ?thesis by (simp add: h'(2,4))
  qed
  moreover have "\<forall>x \<in> set (h_actionItems h'). it_actionId x \<in> ac_id ` set (h_actions h')"
    using assms(1) by (auto simp: moves_inv_def h'(1,2) queued_item_def queued_action_def)
  moreover have "distinct (map oc_id (h_occurrences h'))" using assms(1) by (simp add: moves_inv_def h'(3))
  ultimately show ?thesis using ok unfolding moves_inv_def by blast
qed

lemma submit_moves_inv:
  assumes "quiet cx" and "moves_inv h"
  shows "moves_inv (snd (submit p cx s h))"
proof -
  obtain r h' where sub: "submit p cx s h = (r, h')" by fastforce
  show ?thesis
  proof (cases "\<exists>x. r = Inr (True, x)")
    case True
    with sub obtain x where "submit p cx s h = (Inr (True, x), h')" by auto
    from submit_success [OF assms(1) this] submit_tx_moves_inv [OF assms(2)] sub show ?thesis by (metis snd_conv)
  next
    case False
    with submit_other [OF assms(1) sub] submit_tx_moves_inv [OF assms(2)] assms(2) sub show ?thesis by (metis snd_conv)
  qed
qed

lemma run_action_moves_inv:
  assumes "quiet cx" and "ap_executor p = twoWayApply" and "moves_inv h"
  shows "moves_inv (run_action p cx x h)"
proof (cases x)
  case (Op_Submit s)
  then show ?thesis using submit_moves_inv [OF assms(1,3)] by simp
next
  case (Op_Execute mb i)
  then show ?thesis using two_way.execute_moves_inv [OF assms] by simp
next
  case (Op_Reconcile mb a lim)
  then show ?thesis using two_way.reconcile_rows_moves_inv [OF assms] assms(3) by (simp add: reconcileIncomplete_def Let_def)
next
  case (Op_Dispose gen)
  then show ?thesis
    using disposition_rows_moves_inv [OF assms(1), where sh = "(_, h)"] assms(3)
    by (auto simp: dispositionRestoredActions_def split: prod.split) (metis snd_conv)
next
  case (Op_Die mb y)
  then show ?thesis using two_way.die_moves_inv [OF assms(2,3)] by simp
qed

text \<open>
  C13. A message is moved at most once. From any consistent state, over any sequence of
  submissions, executions, reconciliations and dispositions, with any mailbox answers and with
  processes dying at any mailbox call or between a claim and its receipt, the log holds at most
  one move for each item, and an item whose move was sent never is in the queue again.
\<close>

theorem moved_at_most_once:
  assumes "moves_inv h" and "ap_executor p = twoWayApply" and "\<forall>(cx, x) \<in> set ops. quiet cx"
  shows "length (moves a k (h_mailCalls (run_actions p ops h))) \<le> 1 \<and>
    (moves a k (h_mailCalls (run_actions p ops h)) \<noteq> [] \<longrightarrow> not_queued (run_actions p ops h) (a, k))"
proof -
  have "moves_inv (run_actions p ops h)"
    using assms(1,3)
  proof (induction ops arbitrary: h)
    case (Cons y ys)
    then show ?case using run_action_moves_inv [OF _ assms(2)] by (cases y) auto
  qed simp
  then show ?thesis by (cases "moves a k (h_mailCalls (run_actions p ops h)) = []") (auto simp: moves_inv_def)
qed

theorem moved_at_most_once_witness:
  "moves demo_action_id demo_occurrence (h_mailCalls (run_actions demo_actions
     [(action_ctx, Op_Execute demo_mailbox demo_action_id), (action_ctx, Op_Execute demo_mailbox demo_action_id)] action_hub)) =
   [demo_move]"
proof -
  let ?run = "(action_ctx, Op_Execute demo_mailbox demo_action_id)"
  let ?h = "run_actions demo_actions [?run, ?run] action_hub"
  have "moves_inv action_hub"
    by (simp add: moves_inv_def items_ok_def own_key_def moves_def)
       (simp add: demo_item_def queued_item_def frozenTarget_def demo_occ_def)
  from moved_at_most_once [OF this, of demo_actions "[?run, ?run]" demo_action_id demo_occurrence]
  have one: "length (moves demo_action_id demo_occurrence (h_mailCalls ?h)) \<le> 1" by simp
  let ?h1 = "snd (execute demo_actions action_ctx demo_mailbox demo_action_id action_hub)"
  have "\<exists>new. h_mailCalls (snd (execute demo_actions action_ctx demo_mailbox demo_action_id ?h1)) = h_mailCalls ?h1 @ new"
  proof -
    have "moves_inv ?h1" using two_way.execute_moves_inv \<open>moves_inv action_hub\<close> by simp
    then have "items_ok ?h1" by (simp add: moves_inv_def)
    obtain r h2 where ex: "execute demo_actions action_ctx demo_mailbox demo_action_id ?h1 = (r, h2)" by fastforce
    from two_way.execute_writes_allowed [OF _ _ \<open>items_ok ?h1\<close> ex] show ?thesis by (auto simp: ex)
  qed
  then obtain new where "h_mailCalls ?h = h_mailCalls ?h1 @ new" by auto
  then have "moves demo_action_id demo_occurrence (h_mailCalls ?h) =
      demo_move # moves demo_action_id demo_occurrence new"
    by (simp add: demo_execute_log demo_move_def moves_def)
  with one show ?thesis by simp
qed

end
