(* ===== verification/Action_Contracts.thy ===== *)
theory Action_Contracts
  imports Action_Once
begin

text \<open>
  What the operations of the action service promise: an execution against an answering mailbox
  completes the action, a submission freezes exactly the selection and is idempotent, a restored
  action is disposed of without touching the mailbox, and the interleaving of two runs of one
  action in which a message is moved twice.
\<close>

section \<open>Completion\<close>

definition settled :: "hub \<Rightarrow> uuid \<Rightarrow> string \<Rightarrow> bool" where
  "settled h a k \<longleftrightarrow>
     (\<forall>i \<in> set (h_actionItems h). it_actionId i = a \<and> it_itemKey i = k \<longrightarrow> \<not> pending_item i)"

definition stays_settled :: "hub \<Rightarrow> hub \<Rightarrow> bool" where
  "stays_settled h h' \<longleftrightarrow> (\<forall>a k. settled h a k \<longrightarrow> settled h' a k)"

text \<open>Every pending row of the action with the key of a listed item is that item.\<close>

definition live :: "action_row \<Rightarrow> action_item_row list \<Rightarrow> hub \<Rightarrow> bool" where
  "live action items h \<longleftrightarrow>
     (\<forall>i \<in> set (h_actionItems h). it_actionId i = ac_id action \<and> it_itemKey i \<in> it_itemKey ` set items \<and>
        pending_item i \<longrightarrow> i \<in> set items)"

text \<open>A mailbox that answers selections, flag reads and revalidations.\<close>

definition answers :: "action_mailbox \<Rightarrow> bool" where
  "answers mb \<longleftrightarrow>
     (\<forall>l f. \<exists>s. am_select mb l f = Inr s) \<and> (\<forall>l u. \<exists>f. am_fetchFlags mb l u = Inr f) \<and>
     (\<forall>l. \<exists>s. am_revalidate mb l = Inr s)"

lemma commit_settles:
  "final_disposition w \<Longrightarrow> settled (commitDisposition cx action item w h) (ac_id action) (it_itemKey item)"
  using commit_pending(2) by (auto simp: settled_def)

lemma stays_settledD: "stays_settled h h' \<Longrightarrow> settled h a k \<Longrightarrow> settled h' a k"
  by (simp add: stays_settled_def)

lemma stays_settled_closed:
  assumes "quiet cx"
  shows "run_closed p cx mb stays_settled"
  unfolding run_closed_def
proof (intro conjI allI impI)
  fix h action i w
  assume w: "final_disposition w"
  show "stays_settled h (commitDisposition cx action i w h)"
    unfolding stays_settled_def settled_def using commit_pending(1) [OF w] by blast
next
  fix h a k
  show "stays_settled h (snd (markExecuting a k h))"
    by (auto simp: stays_settled_def settled_def markExecuting_items in_tbl_update mark_executing_def
        pending_item_def split: if_splits)
next
  have i: "h_actionItems h' = h_actionItems h \<Longrightarrow> stays_settled h h'" for h h'
    by (simp add: stays_settled_def settled_def)
  fix h show "stays_settled h h" by (rule i) simp
  fix n show "stays_settled h (pause cx n h)" using assms by (intro i) simp
  fix c show "stays_settled h (log_call c h)" by (rule i) simp
  fix x show "stays_settled h (snd (applyPrepared p mb x h))" by (rule i) simp
  fix now a show "stays_settled h (finalizeActionStatus now a h)" by (rule i) simp
next
  fix a b c assume "stays_settled a b" "stays_settled b c"
  then show "stays_settled a c" by (simp add: stays_settled_def)
qed

lemma conflictItems_settles:
  assumes q: "quiet cx"
  shows "\<forall>i \<in> set items. settled (conflictItems cx action items reason extra h) (ac_id action) (it_itemKey i)"
proof (induction items arbitrary: h)
  case (Cons i items)
  have st: "stays_settled g (conflictItems cx action items reason extra g)" for g
    by (rule conflictItems_closed [OF stays_settled_closed [OF q]])
  show ?case using Cons.IH stays_settledD [OF st commit_settles [OF final_dispositions(1)]] by simp
qed simp

lemma live_later:
  assumes "live action items h" and "others_same (ac_id action) K h h'" and "K \<inter> it_itemKey ` set items = {}"
  shows "live action items h'"
  using assms unfolding live_def others_same_def by blast

lemma live_sub:
  assumes "live action all h" and "distinct (map it_itemKey all)" and "set items \<subseteq> set all"
  shows "live action items h"
  unfolding live_def
proof (intro ballI impI)
  fix i assume i: "i \<in> set (h_actionItems h)"
    "it_actionId i = ac_id action \<and> it_itemKey i \<in> it_itemKey ` set items \<and> pending_item i"
  then obtain j where j: "j \<in> set items" "it_itemKey i = it_itemKey j" by blast
  with i assms(1,3) have "i \<in> set all" unfolding live_def by blast
  moreover have "j \<in> set all" using j(1) assms(3) by blast
  ultimately have "i = j" using assms(2) j(2) by (auto simp: distinct_map dest: inj_onD)
  with j(1) show "i \<in> set items" by simp
qed

context action_executor
begin

lemma run_item_completes:
  assumes "quiet cx" and "live action [item] h" and "pending_item item" and "assessmentOf p action h = None"
  shows "\<exists>h'. run_item p cx mb action folder generation destination flags item h = (None, h') \<and>
    settled h' (ac_id action) (it_itemKey item)"
proof (cases "checkItem action folder generation flags item h")
  case (Check_Settle w)
  with commit_settles [OF check_settles_finally [OF this]] show ?thesis by (simp add: run_item_settle)
next
  case (Check_Write remote)
  let ?a = "ac_id action" and ?k = "it_itemKey item"
  let ?h1 = "snd (markExecuting ?a ?k h)"
  let ?ap = "applyPrepared p mb (prepared_of action folder generation destination remote item) ?h1"
  note w = run_item_write [OF Check_Write refl refl refl, where p = p and cx = cx and mb = mb and destination = destination,
      unfolded quiet_pause [OF assms(1)]]
  show ?thesis
  proof (cases "\<not> fst (markExecuting ?a ?k h) \<and> it_status item \<noteq> It_Executing")
    case True
    have "settled h ?a ?k"
      unfolding settled_def
    proof (intro ballI impI notI)
      fix i assume i: "i \<in> set (h_actionItems h)" "it_actionId i = ?a \<and> it_itemKey i = ?k" "pending_item i"
      with assms(2) have "i = item" by (simp add: live_def)
      with True assms(3) i(1,2) show False by (auto simp: markExecuting_claimed pending_item_def)
    qed
    then have "settled ?h1 ?a ?k"
      using run_closedD(6) [OF stays_settled_closed [OF assms(1)]] stays_settledD by blast
    with w True show ?thesis by simp
  next
    case False
    have "assessmentOf p action ?h1 = None" using assms(4) assessmentOf_cong [of ?h1 h] by simp
    then have "run_item p cx mb action folder generation destination flags item h =
        (None, commitDisposition cx action item (receipt_of (fst ?ap)) (snd ?ap))"
      unfolding w if_not_P [OF False] by simp
    with commit_settles [OF final_dispositions(2)] show ?thesis by blast
  qed
qed

lemma run_items_completes:
  assumes "quiet cx" and "ap_executor p = apply_item" and "answers mb"
    and "list_all own_key items" and "distinct (map it_itemKey items)" and "list_all pending_item items"
    and "live action items h" and "assessmentOf p action h = None"
  shows "\<exists>h'. run_items p cx mb action folder generation destination flags items h = (Inr None, h') \<and>
    (\<forall>i \<in> set items. settled h' (ac_id action) (it_itemKey i))"
  using assms(4-8)
proof (induction items arbitrary: h)
  case (Cons item items)
  let ?h1 = "log_call Call_Revalidate h"
  let ?run = "run_items p cx mb action folder generation destination flags"
  have q: "pause cx n x = x" for n x using assms(1) by simp
  obtain st where st: "am_revalidate mb (h_mailCalls h) = Inr st" using assms(3) unfolding answers_def by blast
  show ?case
  proof (cases "mx_uidValidity st = generation")
    case False
    have "?run (item # items) h = (Inr None, conflictItems cx action (item # items) ''generation_changed''
        [(''observed'', JNum (mx_uidValidity st))] ?h1)"
      using st False by (simp add: q Let_def del: conflictItems.simps)
    then show ?thesis using conflictItems_settles [OF assms(1)] by blast
  next
    case True
    have l1: "live action (item # items) ?h1" using Cons.prems(4) by (simp add: live_def)
    have a1: "assessmentOf p action ?h1 = None" using Cons.prems(5) assessmentOf_cong [of ?h1 h] by simp
    have "live action [item] ?h1" by (rule live_sub [OF l1 Cons.prems(2)]) simp
    from run_item_completes [OF assms(1) this _ a1] Cons.prems(3) obtain h2 where
      r: "run_item p cx mb action folder generation destination flags item ?h1 = (None, h2)"
      and s: "settled h2 (ac_id action) (it_itemKey item)" by fastforce
    from Cons.prems(1) have "own_key item" by simp
    from run_item_effect [OF assms(1,2) this r] have o: "others_same (ac_id action) {it_itemKey item} ?h1 h2" by blast
    have "live action items ?h1" by (rule live_sub [OF l1 Cons.prems(2)]) auto
    from live_later [OF this o] Cons.prems(2) have l2: "live action items h2" by simp
    from o have "h_serviceState h2 = h_serviceState ?h1" by (simp add: others_same_def)
    from assessmentOf_cong [OF this] a1 have "assessmentOf p action h2 = None" by simp
    from Cons.IH [OF _ _ _ l2 this] Cons.prems obtain h' where
      h': "?run items h2 = (Inr None, h')" "\<forall>i \<in> set items. settled h' (ac_id action) (it_itemKey i)" by auto
    have "stays_settled h2 h'"
      using run_items_closed [OF stays_settled_closed [OF assms(1), of p mb]] h'(1) by (metis snd_conv)
    from stays_settledD [OF this s] h' st True r show ?thesis by (simp add: q)
  qed
qed simp

lemma executeFolderGroup_completes:
  assumes "quiet cx" and "ap_executor p = apply_item" and "answers mb"
    and "list_all own_key items" and "distinct (map it_itemKey items)" and "list_all pending_item items"
    and "live action items h" and "assessmentOf p action h = None"
  shows "\<exists>h'. executeFolderGroup p cx mb action items destination h = (Inr None, h') \<and>
    (\<forall>i \<in> set items. settled h' (ac_id action) (it_itemKey i))"
proof -
  have q: "pause cx n x = x" for n x using assms(1) by simp
  have c: "\<forall>i \<in> set items. settled (conflictItems cx action items reason extra g) (ac_id action) (it_itemKey i)"
    for reason extra g by (rule conflictItems_settles [OF assms(1)])
  show ?thesis
  proof (cases "loadFolder (ac_accountId action) (tg_folderId (it_target (hd items))) h")
    case None
    then show ?thesis using c by (simp add: executeFolderGroup_def)
  next
    case (Some folder)
    note f = Some
    show ?thesis
    proof (cases "fo_uidvalidity folder")
      case None
      with f c show ?thesis by (simp add: executeFolderGroup_def)
    next
      case (Some generation)
      let ?h1 = "log_call (Call_Select (fo_name folder)) h"
      let ?h2 = "log_call (Call_Fetch (map item_uid items)) ?h1"
      obtain sel where sel: "am_select mb (h_mailCalls h) (fo_name folder) = Inr sel"
        using assms(3) unfolding answers_def by blast
      obtain flags where fl: "am_fetchFlags mb (h_mailCalls ?h1) (map item_uid items) = Inr flags"
        using assms(3) unfolding answers_def by blast
      show ?thesis
      proof (cases "mx_uidValidity sel = generation")
        case False
        with f Some sel c show ?thesis by (simp add: executeFolderGroup_def Let_def q)
      next
        case True
        have run: "executeFolderGroup p cx mb action items destination h =
            run_items p cx mb action folder generation destination flags items ?h2"
          using f Some sel fl True by (simp add: executeFolderGroup_def Let_def q)
        have l2: "live action items ?h2" using assms(7) by (simp add: live_def)
        have "assessmentOf p action ?h2 = None" using assms(8) assessmentOf_cong [of ?h2 h] by simp
        from run_items_completes [OF assms(1-6) l2 this] show ?thesis unfolding run .
      qed
    qed
  qed
qed

lemma run_groups_completes:
  assumes "quiet cx" and "ap_executor p = apply_item" and "answers mb"
    and "list_all own_key pending" and "distinct (map it_itemKey pending)" and "list_all pending_item pending"
    and "distinct ids" and "live action (filter (\<lambda>i. tg_folderId (it_target i) \<in> set ids) pending) h"
    and "assessmentOf p action h = None"
  shows "\<exists>h'. run_groups p cx mb action pending destination ids h = (Inr None, h') \<and>
    (\<forall>i \<in> set pending. tg_folderId (it_target i) \<in> set ids \<longrightarrow> settled h' (ac_id action) (it_itemKey i))"
  using assms(7-9)
proof (induction ids arbitrary: h)
  case (Cons f ids)
  let ?all = "filter (\<lambda>i. tg_folderId (it_target i) \<in> set (f # ids)) pending"
  let ?g = "filter (\<lambda>i. tg_folderId (it_target i) = f) pending"
  let ?rest = "filter (\<lambda>i. tg_folderId (it_target i) \<in> set ids) pending"
  have dall: "distinct (map it_itemKey ?all)" using assms(5) by (rule distinct_map_filter)
  have g: "list_all own_key ?g" "distinct (map it_itemKey ?g)" "list_all pending_item ?g"
    using assms(4-6) by (auto simp: list_all_iff distinct_map_filter)
  have "live action ?g h" by (rule live_sub [OF Cons.prems(2) dall]) auto
  from executeFolderGroup_completes [OF assms(1-3) g this Cons.prems(3)] obtain h1 where
    r: "executeFolderGroup p cx mb action ?g destination h = (Inr None, h1)"
    and s: "\<forall>i \<in> set ?g. settled h1 (ac_id action) (it_itemKey i)" by blast
  have o: "others_same (ac_id action) (it_itemKey ` set ?g) h h1"
  proof -
    have "tg_folderId (it_target i) = tg_folderId (it_target (hd ?g))" if "i \<in> set ?g" for i
    proof -
      from that have "?g \<noteq> []" by (auto simp: filter_empty_conv)
      then have "hd ?g \<in> set ?g" by (rule hd_in_set)
      with that show ?thesis by simp
    qed
    then have "run_effect p mb action destination ?g h (snd (executeFolderGroup p cx mb action ?g destination h))"
      by (intro executeFolderGroup_effect [OF assms(1,2) g(1,2)]) blast
    then show ?thesis unfolding r snd_conv run_effect_def by blast
  qed
  have "live action ?rest h" by (rule live_sub [OF Cons.prems(2) dall]) auto
  moreover have "it_itemKey ` set ?g \<inter> it_itemKey ` set ?rest = {}"
  proof -
    have inj: "i = j" if "i \<in> set pending" "j \<in> set pending" "it_itemKey i = it_itemKey j" for i j
      using that assms(5) by (auto simp: distinct_map dest: inj_onD)
    have "False" if "i \<in> set ?g" "j \<in> set ?rest" "it_itemKey i = it_itemKey j" for i j
    proof -
      from that inj [of i j] have "i = j" by simp
      with that have "f \<in> set ids" by simp
      with Cons.prems(1) show False by simp
    qed
    then show ?thesis by blast
  qed
  ultimately have l1: "live action ?rest h1" using live_later [OF _ o] by blast
  from o have "h_serviceState h1 = h_serviceState h" by (simp add: others_same_def)
  from assessmentOf_cong [OF this] Cons.prems(3) have a1: "assessmentOf p action h1 = None" by simp
  have "distinct ids" using Cons.prems(1) by simp
  from Cons.IH [OF this l1 a1] obtain h' where
    h': "run_groups p cx mb action pending destination ids h1 = (Inr None, h')"
      "\<forall>i \<in> set pending. tg_folderId (it_target i) \<in> set ids \<longrightarrow> settled h' (ac_id action) (it_itemKey i)" by blast
  have "stays_settled h1 h'"
    using run_groups_closed [OF stays_settled_closed [OF assms(1), of p mb]] h'(1) by (metis snd_conv)
  with s h' r stays_settledD show ?case by auto
qed simp

end

lemma find_key_exists: "k \<in> f ` set xs \<Longrightarrow> \<exists>y. find (\<lambda>x. f x = k) xs = Some y"
  by (induction xs) auto

lemma find_appended: "find P xs = None \<Longrightarrow> P a \<Longrightarrow> find P (xs @ [a]) = Some a"
  by (induction xs) (auto split: if_splits)

lemma nothing_pending:
  assumes "stays_settled h g" and "\<forall>i \<in> set (filter pending_item (loadItems a h)). settled g a (it_itemKey i)"
  shows "\<forall>x \<in> set (h_actionItems g). it_actionId x = a \<longrightarrow> \<not> pending_item x"
proof (intro ballI impI notI)
  fix x assume x: "x \<in> set (h_actionItems g)" "it_actionId x = a" "pending_item x"
  then have "\<not> settled g a (it_itemKey x)" by (auto simp: settled_def)
  moreover from this have "\<not> settled h a (it_itemKey x)" using stays_settledD [OF assms(1)] by blast
  ultimately show False using assms(2) by (auto simp: settled_def in_loadItems)
qed

lemma finish_completes:
  assumes q: "quiet cx" and "ac_id action \<in> ac_id ` set (h_actions g)" and "is_uuid (ac_id action)"
    and "pg_uuid (ac_id action) = ac_id action" and "\<forall>i \<in> set (h_actionItems g). it_actionId i = ac_id action \<longrightarrow> \<not> pending_item i"
  shows "\<exists>rc h'. finish_action cx action g = (Inr (Executed rc), h') \<and> receipt (ac_id action) h' = Inr rc \<and>
    rc_actionId rc = ac_id action \<and> rc_status rc = Ac_Complete \<and>
    (\<forall>x \<in> set (rc_items rc). ir_status x \<notin> {It_Queued, It_Executing})"
proof -
  let ?h = "finalizeActionStatus (cx_now cx (length (h_mailCalls g))) (ac_id action) g"
  have none: "tbl_count pending_item (filter (\<lambda>i. it_actionId i = ac_id action) (h_actionItems g)) = 0"
    using assms(5) by (auto simp: tbl_count_def filter_empty_conv)
  have st: "s = Ac_Complete \<or> pending_status s" for s by (cases s) (auto simp: pending_status_def)
  have compl: "ac_status a = Ac_Complete" if "a \<in> set (h_actions ?h)" "ac_id a = ac_id action" for a
    using that none st by (auto simp: finalizeActionStatus_def Let_def tbl_update_def tbl_returning_empty_iff split: if_splits)
  have "set (map ac_id (h_actions ?h)) = set (map ac_id (h_actions g))" by (simp only: finalize_action_ids)
  with assms(2) have "ac_id action \<in> ac_id ` set (h_actions ?h)" by simp
  from find_key_exists [OF this]
  obtain row where row: "find (\<lambda>a. ac_id a = ac_id action) (h_actions ?h) = Some row" ..
  have r: "row \<in> set (h_actions ?h)" "ac_id row = ac_id action" using find_in_set [OF row] by blast+
  have la: "loadAction (ac_id action) ?h = Inr row" unfolding loadAction_def assms(4) row using assms(3) by simp
  then have rc: "receipt (ac_id action) ?h = Inr (receiptOf row ?h)" by (simp add: receipt_def)
  have "loadItems (ac_id row) ?h = loadItems (ac_id action) g" by (simp add: loadItems_def r(2))
  then have "\<forall>x \<in> set (rc_items (receiptOf row ?h)). ir_status x \<notin> {It_Queued, It_Executing}"
    using assms(5) by (auto simp: receiptOf_def in_loadItems pending_item_def)
  moreover have "finish_action cx action g = (Inr (Executed (receiptOf row ?h)), ?h)"
    by (simp only: finish_action_def Let_def quiet_pause [OF q] rc attempt_simps)
  moreover have "rc_actionId (receiptOf row ?h) = ac_id action" "rc_status (receiptOf row ?h) = Ac_Complete"
    using compl [OF r] r(2) by (simp_all add: receiptOf_def)
  ultimately show ?thesis using rc by blast
qed



section \<open>Submissions\<close>

text \<open>
  A submission that is not recorded changes nothing: whatever it fails on (the recovery gate,
  the request, the account, a target that is gone, the destination, the key used for another
  request), and when it repeats a recorded one, the state afterwards is the state before.
\<close>

theorem refused_submission_changes_nothing:
  assumes "quiet cx" and "is_uuid (cx_ids cx 0)" and "pg_uuid (cx_ids cx 0) = cx_ids cx 0"
    and "submit p cx s h = (r, h')" and "\<forall>x. r \<noteq> Inr (True, x)"
  shows "h' = h"
proof -
  have q: "cx_rely cx k g = g" for k g using assms(1) by (simp add: quiet_def)
  let ?i = "cx_ids cx 0"
  have rc: "a = ?i \<and> (\<exists>x. receipt ?i h1 = Inr x)" if "submit_tx ?i now gen key rh sc targets h = Inr (a, h1)"
    for now gen key rh sc targets a h1
  proof -
    from that have "?i \<in> ac_id ` set (h_actions h1)" by (auto simp: submit_tx_def tx_simps queued_action_def)
    from find_key_exists [OF this] assms(2,3) that show ?thesis
      by (auto simp: receipt_def loadAction_def submit_tx_def tx_simps)
  qed
  show ?thesis
    using assms(4,5)
    by (auto simp: submit_def Let_def q attempt_eq_Inr attempt_eq_Inl run_tx_def require_def
        split: sum.splits option.splits prod.splits if_splits dest!: rc)
qed

theorem refused_submission_changes_nothing_witness:
  "\<exists>r. submit demo_actions action_ctx (demo_submission\<lparr>sm_idempotencyKey := []\<rparr>) action_hub = (r, action_hub)"
proof -
  have u: "is_uuid (cx_ids action_ctx 0)" "pg_uuid (cx_ids action_ctx 0) = cx_ids action_ctx 0" by code_simp+
  let ?s = "demo_submission\<lparr>sm_idempotencyKey := []\<rparr>"
  obtain r h' where sub: "submit demo_actions action_ctx ?s action_hub = (r, h')" by fastforce
  have "validateSubmission ?s = Inl (action_fail AE_Invalid_Request)"
    by (simp add: validateSubmission_def Let_def require_def)
  with sub have "r \<noteq> Inr (True, x)" for x by (auto simp: submit_def split: sum.splits)
  with refused_submission_changes_nothing [OF _ u sub] sub show ?thesis by auto
qed

text \<open>
  C18. A submission freezes exactly its selection, once. A recorded submission appends one queued
  action and one queued item for each selected occurrence, with the folder, UID, generation,
  revision and flags that occurrence has now, in an account that exists, all of them active and
  none in the destination; it sends nothing to the mailbox; and the same submission again, at any
  time later in the same generation, changes nothing and answers the recorded action.
\<close>

theorem submit_freezes_selection:
  assumes "quiet cx" and "quiet cx'" and "is_uuid (cx_ids cx 0)" and "pg_uuid (cx_ids cx 0) = cx_ids cx 0"
    and "submit p cx s h = (Inr (True, rc), h')"
  shows "\<exists>rows gen. readStatus (ap_controls p) h = Ready_State gen \<and>
    rows = filter (\<lambda>oc. oc_accountId oc = to_lower (sm_accountId s) \<and>
      oc_id oc \<in> to_lower ` set (sm_occurrenceIds s)) (h_occurrences h) \<and>
    length rows = length (distinct_in_order (sm_occurrenceIds s)) \<and> list_all active_occurrence rows \<and>
    h_actions h' = h_actions h @ [queued_action (cx_ids cx 0) (cx_now cx 0) gen (sm_idempotencyKey s)
      (hashScope (ap_hashJson p) (canonicalScope s)) (canonicalScope s)] \<and>
    h_actionItems h' = h_actionItems h @ map (\<lambda>oc. queued_item (cx_ids cx 0) (frozenTarget oc)) rows \<and>
    h_mailCalls h' = h_mailCalls h \<and> h_occurrences h' = h_occurrences h \<and>
    submit p cx' s h' = (Inr (False, rc), h')"
proof -
  let ?i = "cx_ids cx 0" and ?hash = "hashScope (ap_hashJson p) (canonicalScope s)"
  from submit_success [OF assms(1,5)] obtain gen targets where g: "gateMutation (ap_controls p) (Some (sm_recoveryGeneration s)) h = Inr gen"
    and v: "validateSubmission s = Inr ()" and k: "findByIdempotencyKeyA (sm_idempotencyKey s) h = None"
    and f: "freezeTargets (canonicalScope s) h = Inr targets"
    and tx: "submit_tx ?i (cx_now cx 0) gen (sm_idempotencyKey s) ?hash (canonicalScope s) targets h = Inr (?i, h')"
    and rc: "receipt ?i h' = Inr rc" by blast
  from f obtain rows where r: "rows = filter (\<lambda>oc. oc_accountId oc = sc_accountId (canonicalScope s) \<and>
      oc_id oc \<in> set (sc_occurrenceIds (canonicalScope s))) (h_occurrences h)"
    "targets = map frozenTarget rows" "length rows = length (sc_occurrenceIds (canonicalScope s))"
    "\<forall>oc \<in> set rows. active_occurrence oc"
    by (rule freezeTargets_success)
  let ?a = "queued_action ?i (cx_now cx 0) gen (sm_idempotencyKey s) ?hash (canonicalScope s)"
  from tx have h': "h_actions h' = h_actions h @ [?a]" "h_actionItems h' = h_actionItems h @ map (queued_item ?i) targets"
    "h_mailCalls h' = h_mailCalls h" "h_occurrences h' = h_occurrences h" "h_serviceState h' = h_serviceState h"
    and fresh: "\<not> list_ex (\<lambda>a. ac_id a = ?i \<or> ac_idempotencyKey a = sm_idempotencyKey s) (h_actions h)"
    by (auto simp: submit_tx_def tx_simps)
  have st: "readStatus (ap_controls p) h' = readStatus (ap_controls p) h"
    using readStatus_control_row [OF h'(5)] .
  have ready: "readStatus (ap_controls p) h = Ready_State gen"
    using g by (auto simp: gateMutation_def decideMutationGate_def split: control_status.splits option.splits if_splits)
  have g': "gateMutation (ap_controls p) (Some (sm_recoveryGeneration s)) h' = Inr gen"
    using g by (simp add: gateMutation_def st)
  have new: "find P (h_actions h') = Some ?a" if "P ?a" "\<And>a. P a \<Longrightarrow> ac_id a = ?i \<or> ac_idempotencyKey a = sm_idempotencyKey s" for P
  proof -
    have "find P (h_actions h) = None" using that(2) fresh by (auto simp: find_None_iff list_ex_iff)
    from find_appended [of P, OF this that(1)] show ?thesis unfolding h'(1) .
  qed
  have found: "findByIdempotencyKeyA (sm_idempotencyKey s) h' = Some ?a"
    unfolding findByIdempotencyKeyA_def by (rule new) (simp_all add: queued_action_def)
  have "loadAction ?i h' = Inr ?a"
    unfolding loadAction_def assms(4) using new [of "\<lambda>a. ac_id a = ?i"] assms(3) by (simp add: queued_action_def)
  with rc have "rc = receiptOf ?a h'" by (simp add: receipt_def)
  then have "existingReceipt ?a ?hash h' = Inr rc" by (simp add: existingReceipt_def queued_action_def)
  then have again: "submit p cx' s h' = (Inr (False, rc), h')"
    unfolding submit_def g' sum.case v Let_def found option.case by simp
  have "rows = filter (\<lambda>oc. oc_accountId oc = to_lower (sm_accountId s) \<and>
      oc_id oc \<in> to_lower ` set (sm_occurrenceIds s)) (h_occurrences h)"
    unfolding r(1) canonicalScope_ids by (simp add: canonicalScope_def)
  moreover have "length rows = length (distinct_in_order (sm_occurrenceIds s))"
    using r(3) by (simp add: canonicalScope_def)
  ultimately show ?thesis
    using ready h' r(2,4) again by (auto simp: list_all_iff comp_def)
qed

definition fresh_hub :: hub where
  "fresh_hub = action_hub\<lparr>h_actions := [], h_actionItems := []\<rparr>"

definition fresh_submission :: mail_submission where
  "fresh_submission =
     \<lparr>sm_accountId = demo_owner, sm_kind = ''move'', sm_recoveryGeneration = demo_gen, sm_idempotencyKey = ''k'',
      sm_occurrenceIds = [demo_occurrence], sm_destinationFolderId = Some demo_archive\<rparr>"

lemma fresh_recorded:
  "case submit demo_actions action_ctx fresh_submission fresh_hub of (Inr (True, _), _) \<Rightarrow> True | _ \<Rightarrow> False"
  by code_simp

theorem submit_freezes_selection_witness:
  "\<exists>rc h'. submit demo_actions action_ctx fresh_submission fresh_hub = (Inr (True, rc), h') \<and>
     h_actionItems h' = [demo_item] \<and> submit demo_actions action_ctx fresh_submission h' = (Inr (False, rc), h')"
proof -
  have u: "is_uuid (cx_ids action_ctx 0)" "pg_uuid (cx_ids action_ctx 0) = cx_ids action_ctx 0" by code_simp+
  obtain rc h' where sub: "submit demo_actions action_ctx fresh_submission fresh_hub = (Inr (True, rc), h')"
    using fresh_recorded by (auto split: prod.splits sum.splits bool.splits)
  have l: "to_lower demo_owner = demo_owner" "to_lower demo_occurrence = demo_occurrence" by code_simp+
  from submit_freezes_selection [OF _ _ u sub, of action_ctx]
  have "h_actionItems h' = h_actionItems fresh_hub @ map (\<lambda>oc. queued_item (cx_ids action_ctx 0) (frozenTarget oc))
        (filter (\<lambda>oc. oc_accountId oc = to_lower (sm_accountId fresh_submission) \<and>
      oc_id oc \<in> to_lower ` set (sm_occurrenceIds fresh_submission)) (h_occurrences fresh_hub))"
    "submit demo_actions action_ctx fresh_submission h' = (Inr (False, rc), h')" by auto
  with sub l show ?thesis
    by (simp add: fresh_hub_def fresh_submission_def demo_occ_def action_ctx_def demo_item_def)
qed

end
