(* ===== verification/Action_Restore.thy ===== *)
theory Action_Restore
  imports Action_Contracts
begin

text \<open>
  The disposition of the actions a restored backup brought back
  (\<open>restored_actions_disposed\<close>), and the interleaving of two concurrent runs of one action in
  which its message is moved twice (\<open>racing_runs_move_twice\<close>).
\<close>

section \<open>Restored actions\<close>

text \<open>
  What the disposition of the actions with the identifiers in \<open>K\<close> does to the tables: their
  rows are complete and their items settled, every other row is the row it was.
\<close>

definition disposed :: "uuid set \<Rightarrow> hub \<Rightarrow> hub \<Rightarrow> bool" where
  "disposed K h h' \<longleftrightarrow>
     (\<forall>a. ac_id a \<notin> K \<longrightarrow> (a \<in> set (h_actions h') \<longleftrightarrow> a \<in> set (h_actions h))) \<and>
     (\<forall>a \<in> set (h_actions h'). ac_id a \<in> K \<longrightarrow> ac_status a = Ac_Complete) \<and>
     (\<forall>i. it_actionId i \<notin> K \<longrightarrow> (i \<in> set (h_actionItems h') \<longleftrightarrow> i \<in> set (h_actionItems h))) \<and>
     (\<forall>i \<in> set (h_actionItems h'). it_actionId i \<in> K \<longrightarrow> \<not> pending_item i) \<and>
     h_mailCalls h' = h_mailCalls h \<and> h_occurrences h' = h_occurrences h"

lemma disposed_empty: "disposed {} h h"
  by (simp add: disposed_def)

lemma disposed_trans:
  assumes "disposed K h h1" and "disposed L h1 h2"
  shows "disposed (K \<union> L) h h2"
  unfolding disposed_def
proof (intro conjI)
  show "\<forall>a. ac_id a \<notin> K \<union> L \<longrightarrow> (a \<in> set (h_actions h2) \<longleftrightarrow> a \<in> set (h_actions h))"
    "\<forall>i. it_actionId i \<notin> K \<union> L \<longrightarrow> (i \<in> set (h_actionItems h2) \<longleftrightarrow> i \<in> set (h_actionItems h))"
    "h_mailCalls h2 = h_mailCalls h" "h_occurrences h2 = h_occurrences h"
    using assms by (simp_all add: disposed_def)
  show "\<forall>a \<in> set (h_actions h2). ac_id a \<in> K \<union> L \<longrightarrow> ac_status a = Ac_Complete"
    using assms unfolding disposed_def by (metis Un_iff)
  show "\<forall>i \<in> set (h_actionItems h2). it_actionId i \<in> K \<union> L \<longrightarrow> \<not> pending_item i"
    using assms unfolding disposed_def by (metis Un_iff)
qed

lemma tbl_update_other_key:
  assumes "\<And>r. P r \<Longrightarrow> key r = k" and "\<And>r. key (f r) = key r" and "key x \<noteq> k"
  shows "x \<in> set (tbl_update P f t) \<longleftrightarrow> x \<in> set t"
proof (induction t)
  case (Cons r t)
  have "x \<noteq> f r" "x \<noteq> r" if "P r" using assms(1) [OF that] assms(2) [of r] assms(3) by auto
  with Cons show ?case by (auto simp: tbl_update_def)
qed (simp add: tbl_update_def)

lemma disposition_tx_effect:
  assumes "a \<in> set (h_actions h)" and "pending_status (ac_status a)"
  shows "disposed {ac_id a} h (snd (disposition_tx now a (s, h))) \<and>
    rd_actions (fst (disposition_tx now a (s, h))) = rd_actions s + 1"
proof -
  let ?P = "\<lambda>x. ac_id x = ac_id a \<and> pending_status (ac_status x)"
  let ?done = "\<lambda>x. x\<lparr>ac_status := Ac_Complete, ac_updatedAt := now\<rparr>"
  let ?h = "snd (disposition_tx now a (s, h))"
  have st: "x = Ac_Complete \<or> pending_status x" for x by (cases x) (auto simp: pending_status_def)
  have "tbl_returning ?P ?done (h_actions h) \<noteq> []" using assms by (auto simp: tbl_returning_empty_iff)
  then have n: "rd_actions (fst (disposition_tx now a (s, h))) = rd_actions s + 1"
    by (simp add: disposition_tx_def Let_def)
  have acts: "h_actions ?h = tbl_update ?P ?done (h_actions h)" by (simp add: disposition_tx_def Let_def)
  have items: "h_actionItems ?h = tbl_update (\<lambda>i. it_actionId i = ac_id a \<and> it_status i = It_Executing) (restored_outcome It_Unknown)
      (tbl_update (\<lambda>i. it_actionId i = ac_id a \<and> it_status i = It_Queued) (restored_outcome It_Conflicted) (h_actionItems h))"
    by (simp add: disposition_tx_def Let_def)
  have 1: "x \<in> set (h_actions ?h) \<longleftrightarrow> x \<in> set (h_actions h)" if "ac_id x \<noteq> ac_id a" for x
    unfolding acts by (rule tbl_update_other_key [where key = ac_id]) (use that in simp_all)
  have 2: "ac_status x = Ac_Complete" if "x \<in> set (h_actions ?h)" "ac_id x = ac_id a" for x
    using that st unfolding acts by (auto simp: tbl_update_def split: if_splits)
  have 3: "i \<in> set (h_actionItems ?h) \<longleftrightarrow> i \<in> set (h_actionItems h)" if "it_actionId i \<noteq> ac_id a" for i
    unfolding items
    by (subst tbl_update_other_key [where key = it_actionId], use that in \<open>simp_all add: restored_outcome_def\<close>)+
  have 4: "\<not> pending_item i" if "i \<in> set (h_actionItems ?h)" "it_actionId i = ac_id a" for i
    using that unfolding items by (auto simp: tbl_update_def restored_outcome_def pending_item_def split: if_splits)
  have 5: "h_mailCalls ?h = h_mailCalls h" "h_occurrences ?h = h_occurrences h"
    by (simp_all add: disposition_tx_def Let_def)
  show ?thesis unfolding disposed_def singleton_iff using n 1 2 3 4 5 by blast
qed

lemma disposition_rows_effect:
  assumes "quiet cx" and "distinct (map ac_id rows)"
    and "\<forall>a \<in> set rows. a \<in> set (h_actions h) \<and> pending_status (ac_status a)"
  shows "disposed (ac_id ` set rows) h (snd (disposition_rows cx k rows (s, h))) \<and>
    rd_actions (fst (disposition_rows cx k rows (s, h))) = rd_actions s + int (length rows)"
  using assms(2,3)
proof (induction rows arbitrary: k s h)
  case (Cons a rows)
  have q: "cx_rely cx k h = h" using assms(1) by (simp add: quiet_def)
  let ?t = "disposition_tx (cx_now cx k) a (s, h)"
  from disposition_tx_effect [of a h "cx_now cx k" s] Cons.prems(2)
  have 1: "disposed {ac_id a} h (snd ?t)" "rd_actions (fst ?t) = rd_actions s + 1" by auto
  have "\<forall>b \<in> set rows. b \<in> set (h_actions (snd ?t)) \<and> pending_status (ac_status b)"
  proof
    fix b assume b: "b \<in> set rows"
    then have "ac_id b \<noteq> ac_id a" using Cons.prems(1) by (metis distinct.simps(2) image_eqI list.simps(9) set_map)
    with 1(1) Cons.prems(2) b show "b \<in> set (h_actions (snd ?t)) \<and> pending_status (ac_status b)"
      by (simp add: disposed_def)
  qed
  from Cons.IH [OF _ this, of "Suc k" "fst ?t"] Cons.prems(1)
  have 2: "disposed (ac_id ` set rows) (snd ?t) (snd (disposition_rows cx (Suc k) rows ?t))"
    "rd_actions (fst (disposition_rows cx (Suc k) rows ?t)) = rd_actions (fst ?t) + int (length rows)" by simp_all
  from disposed_trans [OF 1(1) 2(1)] 1(2) 2(2) show ?case by (simp add: q)
qed (simp add: disposed_empty)

text \<open>
  The restore disposition leaves no restored action behind and nothing else changed. After
  it, the recovery command counts no undispositioned action; every pending action of another
  generation is complete with all its items settled, and counted once; the actions of the current
  generation, their items, the occurrences and the mailbox are as they were.
\<close>

theorem restored_actions_disposed:
  assumes "quiet cx" and "is_uuid gen" and "distinct (map ac_id (h_actions h))"
  shows "\<exists>s h'. dispositionRestoredActions cx gen h = (Inr s, h') \<and>
    pc_actions (countUndispositionedOperations (pg_uuid gen) h') = 0 \<and>
    rd_actions s = pc_actions (countUndispositionedOperations (pg_uuid gen) h) \<and>
    (\<forall>a \<in> set (h_actions h). \<not> pending_action (pg_uuid gen) a \<longrightarrow> a \<in> set (h_actions h') \<and>
       (\<forall>i. it_actionId i = ac_id a \<longrightarrow> (i \<in> set (h_actionItems h') \<longleftrightarrow> i \<in> set (h_actionItems h)))) \<and>
    (\<forall>a \<in> set (h_actions h). pending_action (pg_uuid gen) a \<longrightarrow>
       (\<forall>i \<in> set (h_actionItems h'). it_actionId i = ac_id a \<longrightarrow> \<not> pending_item i)) \<and>
    h_mailCalls h' = h_mailCalls h \<and> h_occurrences h' = h_occurrences h"
proof -
  let ?rows = "filter (pending_action (pg_uuid gen)) (h_actions h)"
  have rows: "filter (\<lambda>a. ac_recoveryGeneration a \<noteq> pg_uuid gen \<and> pending_status (ac_status a)) (h_actions h) = ?rows"
    by (rule filter_cong) (auto simp: pending_action_def pending_status_def)
  have d: "distinct (map ac_id ?rows)" using assms(3) by (rule distinct_map_filter)
  have p: "\<forall>a \<in> set ?rows. a \<in> set (h_actions h) \<and> pending_status (ac_status a)"
    by (auto simp: pending_action_def pending_status_def)
  obtain s h' where r: "disposition_rows cx 0 ?rows (\<lparr>rd_actions = 0, rd_conflicted = 0, rd_unknown = 0\<rparr>, h) = (s, h')"
    by fastforce
  from disposition_rows_effect [OF assms(1) d p, of 0 "\<lparr>rd_actions = 0, rd_conflicted = 0, rd_unknown = 0\<rparr>"] r
  have e: "disposed (ac_id ` set ?rows) h h'" and n: "rd_actions s = int (length ?rows)" by simp_all
  have inj: "a = b" if "a \<in> set (h_actions h)" "b \<in> set (h_actions h)" "ac_id a = ac_id b" for a b
    using that assms(3) by (auto simp: distinct_map dest: inj_onD)
  have other: "ac_id a \<notin> ac_id ` set ?rows" if "a \<in> set (h_actions h)" "\<not> pending_action (pg_uuid gen) a" for a
    using that inj by auto
  have none: "\<not> pending_action (pg_uuid gen) a" if a: "a \<in> set (h_actions h')" for a
  proof (cases "ac_id a \<in> ac_id ` set ?rows")
    case True
    with e a have "ac_status a = Ac_Complete" by (simp add: disposed_def)
    then show ?thesis by (simp add: pending_action_def)
  next
    case False
    with e a have "a \<in> set (h_actions h)" by (simp add: disposed_def)
    with False show ?thesis by auto
  qed
  have "dispositionRestoredActions cx gen h = (Inr s, h')"
    by (simp add: dispositionRestoredActions_def assms(2) rows r)
  moreover have "pc_actions (countUndispositionedOperations (pg_uuid gen) h') = 0"
    using none by (simp add: countUndispositionedOperations_def tbl_count_def filter_empty_conv)
  moreover have "rd_actions s = pc_actions (countUndispositionedOperations (pg_uuid gen) h)"
    using n by (simp add: countUndispositionedOperations_def tbl_count_def)
  moreover have "\<forall>a \<in> set (h_actions h). \<not> pending_action (pg_uuid gen) a \<longrightarrow> a \<in> set (h_actions h') \<and>
       (\<forall>i. it_actionId i = ac_id a \<longrightarrow> (i \<in> set (h_actionItems h') \<longleftrightarrow> i \<in> set (h_actionItems h)))"
    using e other unfolding disposed_def by metis
  moreover have "\<forall>a \<in> set (h_actions h). pending_action (pg_uuid gen) a \<longrightarrow>
       (\<forall>i \<in> set (h_actionItems h'). it_actionId i = ac_id a \<longrightarrow> \<not> pending_item i)"
    using e unfolding disposed_def by auto
  moreover have "h_mailCalls h' = h_mailCalls h" "h_occurrences h' = h_occurrences h" using e by (simp_all add: disposed_def)
  ultimately show ?thesis by blast
qed

theorem restored_actions_disposed_witness:
  "\<exists>s h'. dispositionRestoredActions action_ctx old_gen action_hub = (Inr s, h') \<and> rd_actions s = 1 \<and>
     \<not> (\<exists>i \<in> set (h_actionItems h'). it_actionId i = demo_action_id \<and> pending_item i)"
proof -
  have g: "pg_uuid old_gen = old_gen" by (simp add: pg_uuid_def)
  have p: "pending_action old_gen demo_action"
    by (simp add: pending_action_def demo_action_def queued_action_def)
  then have "pc_actions (countUndispositionedOperations (pg_uuid old_gen) action_hub) = 1"
    by (simp add: countUndispositionedOperations_def tbl_count_def g)
  with restored_actions_disposed [of action_ctx old_gen action_hub] p show ?thesis by (auto simp: g)
qed

section \<open>Two runs of one action at once\<close>

text \<open>
  Another run claims the item and sends its move between this run's hold of interrupted items and
  its next read of them; it has not recorded its receipt yet.
\<close>

definition racing_run :: "hub \<Rightarrow> hub" where
  "racing_run h =
     die_in_write demo_actions demo_mailbox
       (prepared_of demo_action
          \<lparr>fo_id = demo_inbox, fo_accountId = demo_owner, fo_name = ''INBOX'', fo_role = Some Role_Inbox, fo_uidvalidity = Some 7, fo_arrivalScannedUid = 49,
            fo_backfillUpperUid = Some 49, fo_backfillBeforeUid = Some 1, fo_backfillComplete = True\<rparr>
          7 (loadFolder demo_owner demo_archive h)
          \<lparr>mf_uid = 42, mf_unread = True, mf_flagged = False, mf_modseq = None\<rparr> demo_item) h"

definition racing_ctx :: run_ctx where
  "racing_ctx = action_ctx\<lparr>cx_rely := (\<lambda>k h. if k = 6 then racing_run h else h)\<rparr>"

text \<open>
  Two concurrent runs can move one message twice. The hold of interrupted items is one read,
  the claim check another, and between them a second run of the service may claim the item; the
  claim check lets an item it loaded as executing through, although a move never replays.
\<close>

theorem racing_runs_move_twice:
  "moves demo_action_id demo_occurrence
     (h_mailCalls (snd (execute demo_actions racing_ctx demo_mailbox demo_action_id action_hub))) =
   [demo_move, demo_move]"
  by code_simp

end
