(* ===== verification/Autosave.thy ===== *)
theory Autosave
  imports Hub_Prelude
begin

text \<open>
  The client half of autosave, \<open>packages/compose/src/autosave.ts\<close>: the state machine of
  \<open>DraftAutosaver\<close>. An event is a call of a public method, the debounce timer, or the answer of
  the save in flight; what the code runs before it waits again is one step. The callback
  \<open>onStateChange\<close> is taken not to call the autosaver, and the calls of \<open>save\<close> and the states
  shown are recorded in the state.

  A save is started inside a chain of awaiting \<open>runSave\<close> calls: a save that finds newer edits
  awaits another \<open>runSave\<close> and afterwards looks at \<open>flushWanted\<close>. The number of calls that still
  wait is part of the save in flight (\<open>if_frames\<close>), and \<open>resume\<close> runs them.
\<close>

section \<open>Patches\<close>

datatype autosave_state = St_Saved | St_Unsaved | St_Saving | St_Conflict | St_Offline | St_Error

text \<open>
  A field is null, a text, or an object; objects are compared by identity, which is the number.
\<close>

datatype patch_value = Pv_Null | Pv_Text string | Pv_Object nat

record autosave_patch =
  pt_identity :: "patch_value option"
  pt_recipients :: "patch_value option"
  pt_subject :: "patch_value option"
  pt_markdown :: "patch_value option"

datatype patch_key = Key_Identity | Key_Recipients | Key_Subject | Key_Markdown

fun patch_get :: "patch_key \<Rightarrow> autosave_patch \<Rightarrow> patch_value option" where
  "patch_get Key_Identity p = pt_identity p"
| "patch_get Key_Recipients p = pt_recipients p"
| "patch_get Key_Subject p = pt_subject p"
| "patch_get Key_Markdown p = pt_markdown p"

definition patch_keys :: "autosave_patch \<Rightarrow> patch_key list" where
  "patch_keys p =
     filter (\<lambda>k. patch_get k p \<noteq> None) [Key_Identity, Key_Recipients, Key_Subject, Key_Markdown]"

definition later :: "'v option \<Rightarrow> 'v option \<Rightarrow> 'v option" where
  "later cur new = (case new of None \<Rightarrow> cur | Some v \<Rightarrow> Some v)"

definition mergePatch :: "autosave_patch option \<Rightarrow> autosave_patch \<Rightarrow> autosave_patch" where
  "mergePatch current patch =
     (case current of
        None \<Rightarrow> patch
      | Some c \<Rightarrow>
          \<lparr>pt_identity = later (pt_identity c) (pt_identity patch),
           pt_recipients = later (pt_recipients c) (pt_recipients patch),
           pt_subject = later (pt_subject c) (pt_subject patch),
           pt_markdown = later (pt_markdown c) (pt_markdown patch)\<rparr>)"

definition shallowEqual :: "autosave_patch \<Rightarrow> autosave_patch \<Rightarrow> bool" where
  "shallowEqual l r \<longleftrightarrow>
     length (patch_keys l) = length (patch_keys r) \<and>
     list_all (\<lambda>k. patch_get k l = patch_get k r) (patch_keys l)"

section \<open>The state\<close>

record save_in_flight =
  if_base :: int
  if_patch :: autosave_patch
  if_frames :: nat

record autosaver =
  av_draftId :: string
  av_revision :: int
  av_state :: autosave_state
  av_pending :: "autosave_patch option"
  av_timer :: bool
  av_inFlight :: "save_in_flight option"
  av_flushWanted :: bool
  av_disposed :: bool
  av_shown :: "autosave_state list"
  av_calls :: "(int \<times> autosave_patch) list"

datatype autosave_outcome = Out_Saved int | Out_Conflict int | Out_Offline | Out_Error string

definition newAutosaver :: "string \<Rightarrow> int \<Rightarrow> autosaver" where
  "newAutosaver draftId revision =
     \<lparr>av_draftId = draftId, av_revision = revision, av_state = St_Saved, av_pending = None,
      av_timer = False, av_inFlight = None, av_flushWanted = False, av_disposed = False,
      av_shown = [], av_calls = []\<rparr>"

definition setState :: "autosave_state \<Rightarrow> autosaver \<Rightarrow> autosaver" where
  "setState st s =
     (if st \<noteq> av_state s then s\<lparr>av_state := st, av_shown := av_shown s @ [st]\<rparr> else s)"

definition setStateIfLive :: "autosave_state \<Rightarrow> autosaver \<Rightarrow> autosaver" where
  "setStateIfLive st s = (if \<not> av_disposed s then setState st s else s)"

definition schedule :: "autosaver \<Rightarrow> autosaver" where
  "schedule s = s\<lparr>av_timer := True\<rparr>"

definition clearTimer :: "autosaver \<Rightarrow> autosaver" where
  "clearTimer s = s\<lparr>av_timer := False\<rparr>"

section \<open>Saving\<close>

text \<open>
  \<open>runSave\<close> with \<open>n\<close> calls waiting for it: it starts a save and waits, or it returns and \<open>k\<close>
  runs the calls that wait.
\<close>

definition runSave :: "(autosaver \<Rightarrow> autosaver) \<Rightarrow> nat \<Rightarrow> autosaver \<Rightarrow> autosaver" where
  "runSave k n s =
     (if av_state s = St_Conflict then k s
      else
        (case av_pending s of
           None \<Rightarrow> k (setStateIfLive St_Saved s)
         | Some patch \<Rightarrow>
             (setStateIfLive St_Saving s)
               \<lparr>av_calls := av_calls s @ [(av_revision s, patch)],
                av_inFlight := Some \<lparr>if_base = av_revision s, if_patch = patch, if_frames = n\<rparr>\<rparr>))"

text \<open>The end of \<open>runSave\<close> after its switch, for each waiting call, and then of \<open>guardedSave\<close>.\<close>

primrec resume :: "nat \<Rightarrow> autosaver \<Rightarrow> autosaver" where
  "resume 0 s = s\<lparr>av_inFlight := None\<rparr>"
| "resume (Suc n) s =
     (if av_flushWanted s then
        (if av_pending s \<noteq> None then runSave (resume n) n (s\<lparr>av_flushWanted := False\<rparr>)
         else resume n (s\<lparr>av_flushWanted := False\<rparr>))
      else resume n s)"

definition answer :: "save_in_flight \<Rightarrow> autosave_outcome \<Rightarrow> autosaver \<Rightarrow> autosaver" where
  "answer f out s =
     (if av_disposed s then resume (if_frames f) s
      else
        (case out of
           Out_Saved r \<Rightarrow>
             (let s1 = s\<lparr>av_revision := r,
                        av_pending := (case av_pending s of
                           None \<Rightarrow> None
                         | Some p \<Rightarrow> if shallowEqual p (if_patch f) then None else Some p)\<rparr>
              in if av_pending s1 = None then resume (Suc (if_frames f)) (setState St_Saved s1)
                 else runSave (resume (Suc (if_frames f))) (Suc (if_frames f)) (setState St_Unsaved s1))
         | Out_Conflict _ \<Rightarrow> resume (Suc (if_frames f)) (setState St_Conflict s)
         | Out_Offline \<Rightarrow> resume (Suc (if_frames f)) (setState St_Offline s)
         | Out_Error _ \<Rightarrow> resume (Suc (if_frames f)) (setState St_Error s)))"

section \<open>The public methods\<close>

text \<open>A method of a disposed autosaver throws and changes nothing.\<close>

definition requireLive :: "autosaver \<Rightarrow> autosaver \<Rightarrow> autosaver" where
  "requireLive s s' = (if av_disposed s then s else s')"

definition push :: "autosave_patch \<Rightarrow> autosaver \<Rightarrow> autosaver" where
  "push patch s =
     requireLive s
       (let s1 = s\<lparr>av_pending := Some (mergePatch (av_pending s) patch)\<rparr> in
        if av_state s1 = St_Conflict then s1
        else schedule (if av_state s1 \<noteq> St_Saving then setState St_Unsaved s1 else s1))"

definition flush :: "autosaver \<Rightarrow> autosaver" where
  "flush s =
     requireLive s
       (if av_inFlight s \<noteq> None then s\<lparr>av_flushWanted := True\<rparr>
        else runSave (resume 0) 0 (clearTimer s))"

definition retry :: "autosaver \<Rightarrow> autosaver" where
  "retry s =
     requireLive s
       (if av_state s \<noteq> St_Offline \<and> av_state s \<noteq> St_Error then s
        else if av_pending s = None then setState St_Saved s
        else flush (setState St_Unsaved s))"

definition acceptServerCopy :: "int \<Rightarrow> autosaver \<Rightarrow> autosaver" where
  "acceptServerCopy revision s =
     requireLive s
       (if av_state s \<noteq> St_Conflict then s
        else setState St_Saved (s\<lparr>av_revision := revision, av_pending := None\<rparr>))"

definition keepLocalCopy :: "int \<Rightarrow> autosaver \<Rightarrow> autosaver" where
  "keepLocalCopy currentRevision s =
     requireLive s
       (if av_state s \<noteq> St_Conflict then s
        else flush (setState St_Unsaved (s\<lparr>av_revision := currentRevision\<rparr>)))"

definition dispose :: "autosaver \<Rightarrow> autosaver" where
  "dispose s = clearTimer (s\<lparr>av_disposed := True\<rparr>)"

section \<open>Events\<close>

datatype autosave_event =
    Ev_Push autosave_patch
  | Ev_Flush
  | Ev_Retry
  | Ev_Accept int
  | Ev_Keep int
  | Ev_Dispose
  | Ev_Timer
  | Ev_Answer autosave_outcome
  | Ev_Save_Throws

fun autosave_step :: "autosave_event \<Rightarrow> autosaver \<Rightarrow> autosaver" where
  "autosave_step (Ev_Push p) s = push p s"
| "autosave_step Ev_Flush s = flush s"
| "autosave_step Ev_Retry s = retry s"
| "autosave_step (Ev_Accept r) s = acceptServerCopy r s"
| "autosave_step (Ev_Keep r) s = keepLocalCopy r s"
| "autosave_step Ev_Dispose s = dispose s"
| "autosave_step Ev_Timer s = (if av_timer s then flush (clearTimer s) else s)"
| "autosave_step (Ev_Answer out) s =
     (case av_inFlight s of None \<Rightarrow> s | Some f \<Rightarrow> answer f out s)"
| "autosave_step Ev_Save_Throws s = s\<lparr>av_inFlight := None\<rparr>"

definition autosave_run :: "autosave_event list \<Rightarrow> autosaver \<Rightarrow> autosaver" where
  "autosave_run es s = fold autosave_step es s"

section \<open>Lemmas on patches\<close>

lemma shallowEqual_iff: "shallowEqual l r \<longleftrightarrow> l = r"
proof
  assume eq: "shallowEqual l r"
  have "patch_get k l = patch_get k r" for k
    using eq by (cases k) (auto simp: shallowEqual_def patch_keys_def split: if_splits)
  from this [of Key_Identity] this [of Key_Recipients] this [of Key_Subject] this [of Key_Markdown]
  show "l = r" by simp
qed (simp add: shallowEqual_def list_all_iff)

lemma later_simps [simp]: "later None b = b" "later a None = a" "later a a = a"
  by (simp_all add: later_def split: option.split)

lemma later_assoc: "later (later a b) c = later a (later b c)"
  by (simp add: later_def split: option.split)

lemma later_absorb [simp]: "later a (later a b) = later a b"
  by (simp add: later_def split: option.split)

text \<open>Edits on top of edits, either of which may be missing.\<close>

definition over :: "autosave_patch option \<Rightarrow> autosave_patch option \<Rightarrow> autosave_patch option" where
  "over old new = (case new of None \<Rightarrow> old | Some p \<Rightarrow> Some (mergePatch old p))"

lemma mergePatch_assoc: "mergePatch (Some (mergePatch a b)) c = mergePatch a (mergePatch (Some b) c)"
  by (cases a) (simp_all add: mergePatch_def later_assoc)

lemma over_assoc: "over (over a b) c = over a (over b c)"
  by (cases b; cases c) (simp_all add: over_def mergePatch_assoc mergePatch_def [of None])

lemma over_None [simp]: "over a None = a" "over None b = b"
  by (simp_all add: over_def mergePatch_def split: option.split)

lemma over_self [simp]: "over (Some p) (Some p) = Some p"
  by (simp add: over_def mergePatch_def)

lemma mergePatch_over: "Some (mergePatch a p) = over a (Some p)"
  by (simp add: over_def)

section \<open>What a step does\<close>

lemma setState_frame [simp]:
  "av_pending (setState st s) = av_pending s" "av_inFlight (setState st s) = av_inFlight s"
  "av_disposed (setState st s) = av_disposed s" "av_revision (setState st s) = av_revision s"
  "av_calls (setState st s) = av_calls s" "av_flushWanted (setState st s) = av_flushWanted s"
  "av_state (setState st s) = st"
  by (simp_all add: setState_def)

lemma setStateIfLive_frame [simp]:
  "av_pending (setStateIfLive st s) = av_pending s" "av_inFlight (setStateIfLive st s) = av_inFlight s"
  "av_disposed (setStateIfLive st s) = av_disposed s" "av_revision (setStateIfLive st s) = av_revision s"
  "av_calls (setStateIfLive st s) = av_calls s" "av_flushWanted (setStateIfLive st s) = av_flushWanted s"
  "av_state (setStateIfLive st s) = (if av_disposed s then av_state s else st)"
  by (simp_all add: setStateIfLive_def)

text \<open>
  A run of \<open>runSave\<close> or of the calls that wait for it ends idle, with everything but the wish to
  flush as it was, or it has started one save of all pending edits on the current revision.
\<close>

definition idle :: "autosaver \<Rightarrow> autosaver \<Rightarrow> bool" where
  "idle s s' \<longleftrightarrow>
     av_inFlight s' = None \<and> av_state s' = av_state s \<and> av_pending s' = av_pending s \<and>
     av_revision s' = av_revision s \<and> av_disposed s' = av_disposed s \<and> av_calls s' = av_calls s"

definition started :: "autosaver \<Rightarrow> autosaver \<Rightarrow> bool" where
  "started s s' \<longleftrightarrow>
     av_state s \<noteq> St_Conflict \<and> av_pending s' = av_pending s \<and> av_revision s' = av_revision s \<and>
     av_disposed s' = av_disposed s \<and> av_state s' = (if av_disposed s then av_state s else St_Saving) \<and>
     (\<exists>p n. av_pending s = Some p \<and> av_calls s' = av_calls s @ [(av_revision s, p)] \<and>
        av_inFlight s' = Some \<lparr>if_base = av_revision s, if_patch = p, if_frames = n\<rparr>)"

lemma idle_unwanted: "idle (s\<lparr>av_flushWanted := w\<rparr>) s' \<longleftrightarrow> idle s s'"
  "started (s\<lparr>av_flushWanted := w\<rparr>) s' \<longleftrightarrow> started s s'"
  by (simp_all add: idle_def started_def)

lemma runSave_pending:
  assumes "av_pending s = Some p" and "idle s (k s) \<or> started s (k s)"
  shows "idle s (runSave k n s) \<or> started s (runSave k n s)"
  using assms by (cases "av_state s = St_Conflict") (auto simp: runSave_def started_def)

lemma resume_effect: "idle s (resume n s) \<or> started s (resume n s)"
proof (induction n arbitrary: s)
  case (Suc n)
  let ?s = "s\<lparr>av_flushWanted := False\<rparr>"
  have k: "idle ?s (resume n ?s) \<or> started ?s (resume n ?s)" by (rule Suc)
  have "idle ?s (runSave (resume n) n ?s) \<or> started ?s (runSave (resume n) n ?s)" if "av_pending s = Some p" for p
    by (rule runSave_pending [where k = "resume n" and p = p]) (simp_all only: k, simp add: that)
  with k Suc [of s] show ?case by (auto simp: idle_unwanted simp del: not_None_eq)
qed (simp add: idle_def)

lemma runSave_resume_effect:
  "av_pending s = Some p \<Longrightarrow> idle s (runSave (resume m) n s) \<or> started s (runSave (resume m) n s)"
  by (rule runSave_pending [where k = "resume m", OF _ resume_effect])

lemma runSave_nothing:
  "av_pending s = None \<Longrightarrow> av_state s \<noteq> St_Conflict \<Longrightarrow>
   runSave (resume 0) n s = (setStateIfLive St_Saved s)\<lparr>av_inFlight := None\<rparr>"
  by (simp add: runSave_def)

end
