(* ===== verification/Autosave_Properties.thy ===== *)
theory Autosave_Properties
  imports Autosave
begin

text \<open>
  What the autosaver promises over any sequence of events: every edit is acknowledged or still
  pending (\<open>autosave_keeps_every_edit\<close>), nothing is saved over a conflict (\<open>conflict_waits_for_choice\<close>),
  answered saves settle (\<open>autosave_settles\<close>), and the one way an edit is not saved although the
  editor asked for it (\<open>closing_drops_edit\<close>).
\<close>

section \<open>The edits\<close>

text \<open>
  All edits pushed, and all edits the server acknowledged, since the start or since the owner last
  took the server copy. An acknowledgement counts after the autosaver was disposed as well.
\<close>

record edit_history =
  eh_pushed :: "autosave_patch option"
  eh_saved :: "autosave_patch option"

definition no_edits :: edit_history where
  "no_edits = \<lparr>eh_pushed = None, eh_saved = None\<rparr>"

fun history_step :: "autosave_event \<Rightarrow> autosaver \<Rightarrow> edit_history \<Rightarrow> edit_history" where
  "history_step (Ev_Push p) s g =
     (if av_disposed s then g else g\<lparr>eh_pushed := over (eh_pushed g) (Some p)\<rparr>)"
| "history_step (Ev_Accept r) s g =
     (if \<not> av_disposed s \<and> av_state s = St_Conflict then no_edits else g)"
| "history_step (Ev_Answer (Out_Saved r)) s g =
     (case av_inFlight s of
        None \<Rightarrow> g
      | Some f \<Rightarrow> g\<lparr>eh_saved := over (eh_saved g) (Some (if_patch f))\<rparr>)"
| "history_step _ s g = g"

fun edits :: "autosave_event list \<Rightarrow> autosaver \<Rightarrow> edit_history \<Rightarrow> edit_history" where
  "edits [] s g = g"
| "edits (e # es) s g = edits es (autosave_step e s) (history_step e s g)"

definition saver_ok :: "autosaver \<Rightarrow> bool" where
  "saver_ok s \<longleftrightarrow>
     (av_state s = St_Saved \<longrightarrow> av_pending s = None) \<and>
     (\<forall>f. av_inFlight s = Some f \<longrightarrow> av_pending s \<noteq> None \<and>
        over (Some (if_patch f)) (av_pending s) = av_pending s) \<and>
     (\<not> av_disposed s \<longrightarrow>
        (av_state s = St_Conflict \<longrightarrow> av_pending s \<noteq> None) \<and>
        (av_inFlight s \<noteq> None \<longrightarrow> av_state s = St_Saving))"

definition edits_kept :: "edit_history \<Rightarrow> autosaver \<Rightarrow> bool" where
  "edits_kept g s \<longleftrightarrow> over (eh_saved g) (av_pending s) = eh_pushed g"

lemma saver_ok_idle:
  assumes "idle s s'" and "av_state s = St_Saved \<longrightarrow> av_pending s = None"
    and "\<not> av_disposed s \<Longrightarrow> av_state s = St_Conflict \<Longrightarrow> av_pending s \<noteq> None"
  shows "saver_ok s'"
  using assms by (simp add: idle_def saver_ok_def)

lemma saver_ok_started:
  assumes "started s s'" and "av_state s = St_Saved \<longrightarrow> av_pending s = None"
  shows "saver_ok s'"
  using assms by (auto simp: started_def saver_ok_def)

lemma saver_ok_effect:
  assumes "idle s s' \<or> started s s'" and "av_state s = St_Saved \<longrightarrow> av_pending s = None"
    and "\<not> av_disposed s \<Longrightarrow> av_state s = St_Conflict \<Longrightarrow> av_pending s \<noteq> None"
  shows "saver_ok s'"
  using assms saver_ok_idle saver_ok_started by blast

lemma effect_pending: "idle s s' \<or> started s s' \<Longrightarrow> av_pending s' = av_pending s"
  by (auto simp: idle_def started_def)

lemma flush_free:
  assumes "\<not> av_disposed s" and "av_inFlight s = None"
  shows "flush s = runSave (resume 0) 0 (clearTimer s)"
  using assms by (simp add: flush_def requireLive_def)

lemma clearTimer_frame [simp]:
  "av_pending (clearTimer s) = av_pending s" "av_inFlight (clearTimer s) = av_inFlight s"
  "av_disposed (clearTimer s) = av_disposed s" "av_revision (clearTimer s) = av_revision s"
  "av_calls (clearTimer s) = av_calls s" "av_flushWanted (clearTimer s) = av_flushWanted s"
  "av_state (clearTimer s) = av_state s"
  by (simp_all add: clearTimer_def)

lemma schedule_frame [simp]:
  "av_pending (schedule s) = av_pending s" "av_inFlight (schedule s) = av_inFlight s"
  "av_disposed (schedule s) = av_disposed s" "av_revision (schedule s) = av_revision s"
  "av_calls (schedule s) = av_calls s" "av_flushWanted (schedule s) = av_flushWanted s"
  "av_state (schedule s) = av_state s"
  by (simp_all add: schedule_def)

lemma free_clear: "idle (clearTimer s) s' \<longleftrightarrow> idle s s'" "started (clearTimer s) s' \<longleftrightarrow> started s s'"
  by (simp_all add: idle_def started_def)

text \<open>What \<open>flush\<close> does to a live autosaver: it notes the wish, ends idle or starts a save.\<close>

lemma flush_cases:
  assumes "\<not> av_disposed s"
  obtains (wish) "av_inFlight s \<noteq> None" "flush s = s\<lparr>av_flushWanted := True\<rparr>"
  | (conflict) "av_inFlight s = None" "av_state s = St_Conflict" "idle s (flush s)"
  | (clean) "av_inFlight s = None" "av_state s \<noteq> St_Conflict" "av_pending s = None"
      "idle (setState St_Saved s) (flush s)"
  | (save) "av_inFlight s = None" "started s (flush s)"
proof (cases "av_inFlight s")
  case None
  note fl = flush_free [OF assms None]
  show thesis
  proof (cases "av_state s = St_Conflict")
    case True
    then have "idle s (flush s)" unfolding fl by (simp add: runSave_def idle_def)
    with None True show thesis by (rule conflict)
  next
    case False
    show thesis
    proof (cases "av_pending s")
      case p: None
      have "flush s = (setStateIfLive St_Saved (clearTimer s))\<lparr>av_inFlight := None\<rparr>"
        unfolding fl by (rule runSave_nothing) (use p False in simp_all)
      then have "idle (setState St_Saved s) (flush s)" using assms by (simp add: idle_def)
      with None False p show thesis by (rule clean)
    next
      case (Some p)
      then have "started s (flush s)"
        unfolding fl using False assms by (simp add: runSave_def started_def)
      with None show thesis by (rule save)
    qed
  qed
next
  case (Some f)
  with assms have "flush s = s\<lparr>av_flushWanted := True\<rparr>" by (simp add: flush_def requireLive_def)
  with Some show thesis by (intro wish) simp_all
qed

lemma flush_keeps:
  assumes "saver_ok s"
  shows "saver_ok (flush s) \<and> av_pending (flush s) = av_pending s"
proof (cases "av_disposed s")
  case True
  with assms show ?thesis by (simp add: flush_def requireLive_def)
next
  case False
  then show ?thesis
  proof (cases rule: flush_cases)
    case wish
    with assms show ?thesis by (simp add: saver_ok_def)
  next
    case conflict
    with assms False show ?thesis using saver_ok_idle [OF conflict(3)] effect_pending by (simp add: saver_ok_def)
  next
    case clean
    with assms show ?thesis using saver_ok_idle [OF clean(4)] by (simp add: saver_ok_def idle_def)
  next
    case save
    with assms show ?thesis using saver_ok_started [OF save(2)] effect_pending by (simp add: saver_ok_def)
  qed
qed

section \<open>No edit is lost\<close>

lemma answer_saved:
  assumes "\<not> av_disposed s" and "av_pending s = Some p"
  shows "answer f (Out_Saved r) s =
    (if p = if_patch f then resume (Suc (if_frames f)) (setState St_Saved (s\<lparr>av_revision := r, av_pending := None\<rparr>))
     else runSave (resume (Suc (if_frames f))) (Suc (if_frames f))
            (setState St_Unsaved (s\<lparr>av_revision := r, av_pending := Some p\<rparr>)))"
  using assms by (simp add: answer_def Let_def shallowEqual_iff del: resume.simps)

lemma answer_keeps:
  assumes "av_inFlight s = Some f" and "saver_ok s" and "edits_kept g s"
  shows "saver_ok (answer f out s) \<and> edits_kept (history_step (Ev_Answer out) s g) (answer f out s)"
proof (cases "av_disposed s")
  case True
  have e: "idle s (answer f out s) \<or> started s (answer f out s)"
    unfolding answer_def if_P [OF True] by (rule resume_effect)
  have p: "over (Some (if_patch f)) (av_pending s) = av_pending s" using assms(1,2) by (simp add: saver_ok_def)
  have h: "edits_kept (history_step (Ev_Answer out) s g) s"
    using assms(1,3) p by (cases out) (simp_all add: edits_kept_def over_assoc)
  have "saver_ok (answer f out s)"
    by (rule saver_ok_effect [OF e]) (use True assms(2) in \<open>simp_all add: saver_ok_def\<close>)
  moreover have "edits_kept (history_step (Ev_Answer out) s g) (answer f out s)"
    unfolding edits_kept_def effect_pending [OF e] using h by (simp only: edits_kept_def)
  ultimately show ?thesis ..
next
  case False
  have other: "saver_ok (answer f out s) \<and> edits_kept (history_step (Ev_Answer out) s g) (answer f out s)"
    if a: "answer f out s = resume (Suc (if_frames f)) (setState st s)" and st: "st \<noteq> St_Saved"
      and h: "history_step (Ev_Answer out) s g = g" for st
  proof -
    let ?t = "setState st s"
    have e: "idle ?t (answer f out s) \<or> started ?t (answer f out s)" unfolding a by (rule resume_effect)
    have "av_pending s \<noteq> None" using False assms(1,2) unfolding saver_ok_def by blast
    then have "saver_ok (answer f out s)" using st by (intro saver_ok_effect [OF e]) simp_all
    with effect_pending [OF e] h assms(3) show ?thesis by (simp add: edits_kept_def)
  qed
  show ?thesis
  proof (cases out)
    case (Out_Saved r)
    from False assms(1,2) obtain p where p: "av_pending s = Some p" "over (Some (if_patch f)) (Some p) = Some p"
      by (auto simp: saver_ok_def)
    note a = answer_saved [OF False p(1), of f r]
    have h: "history_step (Ev_Answer out) s g = g\<lparr>eh_saved := over (eh_saved g) (Some (if_patch f))\<rparr>"
      using Out_Saved assms(1) False by simp
    have kept: "over (over (eh_saved g) (Some (if_patch f))) (Some p) = eh_pushed g"
      using assms(3) p by (simp add: over_assoc edits_kept_def)
    show ?thesis
    proof (cases "p = if_patch f")
      case True
      let ?t = "setState St_Saved (s\<lparr>av_revision := r, av_pending := None\<rparr>)"
      have e: "idle ?t (answer f out s) \<or> started ?t (answer f out s)"
        unfolding Out_Saved a if_P [OF True] by (rule resume_effect)
      have "over (eh_saved g) (Some (if_patch f)) = eh_pushed g" using kept True by (simp add: over_assoc)
      with saver_ok_effect [OF e] effect_pending [OF e] h show ?thesis by (simp add: edits_kept_def)
    next
      case neq: False
      let ?t = "setState St_Unsaved (s\<lparr>av_revision := r, av_pending := Some p\<rparr>)"
      have e: "idle ?t (answer f out s) \<or> started ?t (answer f out s)"
        unfolding Out_Saved a if_not_P [OF neq] by (rule runSave_resume_effect [where p = p]) simp
      from saver_ok_effect [OF e] effect_pending [OF e] h kept show ?thesis by (simp add: edits_kept_def)
    qed
  next
    case (Out_Conflict c)
    show ?thesis by (rule other [of St_Conflict]) (simp_all add: Out_Conflict answer_def False del: resume.simps)
  next
    case Out_Offline
    show ?thesis by (rule other [of St_Offline]) (simp_all add: Out_Offline answer_def False del: resume.simps)
  next
    case (Out_Error m)
    show ?thesis by (rule other [of St_Error]) (simp_all add: Out_Error answer_def False del: resume.simps)
  qed
qed

lemma step_keeps:
  assumes "saver_ok s" and "edits_kept g s"
  shows "saver_ok (autosave_step e s) \<and> edits_kept (history_step e s g) (autosave_step e s)"
proof -
  have fl: "saver_ok (flush t) \<and> edits_kept g (flush t)" if "saver_ok t" "av_pending t = av_pending s" for t
    using flush_keeps [OF that(1)] that(2) assms(2) by (simp add: edits_kept_def)
  show ?thesis
  proof (cases e)
    case (Ev_Push p)
    show ?thesis
    proof (cases "av_disposed s")
      case True
      with Ev_Push assms show ?thesis by (simp add: push_def requireLive_def)
    next
      case False
      let ?q = "mergePatch (av_pending s) p"
      have pend: "av_pending (push p s) = Some ?q" "av_inFlight (push p s) = av_inFlight s"
        "av_disposed (push p s) = False"
        "av_state (push p s) = (if av_state s \<in> {St_Conflict, St_Saving} then av_state s else St_Unsaved)"
        using False by (auto simp: push_def requireLive_def Let_def)
      have over_q: "over (Some d) (Some ?q) = Some ?q" if "over (Some d) (av_pending s) = av_pending s" for d
        unfolding mergePatch_over over_assoc [symmetric] that ..
      have "saver_ok (push p s)"
        using assms(1) False over_q by (auto simp: saver_ok_def pend)
      moreover have "edits_kept (history_step e s g) (push p s)"
        using assms(2) False Ev_Push by (simp add: edits_kept_def pend mergePatch_over over_assoc [symmetric])
      ultimately show ?thesis using Ev_Push by simp
    qed
  next
    case Ev_Flush
    with fl [OF assms(1)] show ?thesis by simp
  next
    case Ev_Retry
    show ?thesis
    proof (cases "av_disposed s \<or> (av_state s \<noteq> St_Offline \<and> av_state s \<noteq> St_Error)")
      case True
      then have "retry s = s" by (auto simp: retry_def requireLive_def)
      with Ev_Retry assms show ?thesis by simp
    next
      case False
      then have n: "av_inFlight s = None" using assms(1) by (auto simp: saver_ok_def)
      have ok: "saver_ok (setState St_Unsaved s)" "av_pending s = None \<Longrightarrow> saver_ok (setState St_Saved s)"
        using n by (simp_all add: saver_ok_def)
      have "retry s = (if av_pending s = None then setState St_Saved s else flush (setState St_Unsaved s))"
        using False by (auto simp: retry_def requireLive_def)
      with Ev_Retry fl [OF ok(1)] ok(2) assms(2) show ?thesis
        by (cases "av_pending s") (simp_all add: edits_kept_def)
    qed
  next
    case (Ev_Accept r)
    show ?thesis
    proof (cases "av_disposed s \<or> av_state s \<noteq> St_Conflict")
      case True
      then have "acceptServerCopy r s = s" by (auto simp: acceptServerCopy_def requireLive_def)
      with Ev_Accept True assms show ?thesis by auto
    next
      case False
      then have "av_inFlight s = None" using assms(1) by (auto simp: saver_ok_def)
      with Ev_Accept False show ?thesis
        by (simp add: acceptServerCopy_def requireLive_def saver_ok_def edits_kept_def no_edits_def)
    qed
  next
    case (Ev_Keep r)
    show ?thesis
    proof (cases "av_disposed s \<or> av_state s \<noteq> St_Conflict")
      case True
      then have "keepLocalCopy r s = s" by (auto simp: keepLocalCopy_def requireLive_def)
      with Ev_Keep assms show ?thesis by simp
    next
      case False
      then have n: "av_inFlight s = None" using assms(1) by (auto simp: saver_ok_def)
      have "saver_ok (setState St_Unsaved (s\<lparr>av_revision := r\<rparr>))" using n by (simp add: saver_ok_def)
      from fl [OF this] False Ev_Keep show ?thesis by (simp add: keepLocalCopy_def requireLive_def)
    qed
  next
    case Ev_Dispose
    with assms show ?thesis by (simp add: dispose_def saver_ok_def edits_kept_def)
  next
    case Ev_Timer
    have "saver_ok (clearTimer s)" using assms(1) by (simp add: saver_ok_def)
    from fl [OF this] Ev_Timer assms show ?thesis by simp
  next
    case (Ev_Answer out)
    show ?thesis
    proof (cases "av_inFlight s")
      case None
      then have "history_step (Ev_Answer out) s g = g" by (cases out) simp_all
      with None Ev_Answer assms show ?thesis by simp
    next
      case (Some f)
      from answer_keeps [OF this assms] Ev_Answer Some show ?thesis by simp
    qed
  next
    case Ev_Save_Throws
    with assms show ?thesis by (simp add: saver_ok_def edits_kept_def)
  qed
qed

lemma edits_run:
  "saver_ok s \<Longrightarrow> edits_kept g s \<Longrightarrow>
   saver_ok (autosave_run es s) \<and> edits_kept (edits es s g) (autosave_run es s)"
proof (induction es arbitrary: s g)
  case (Cons e es)
  from step_keeps [OF Cons.prems, of e] Cons.IH [of "autosave_step e s" "history_step e s g"]
  show ?case by (simp add: autosave_run_def)
qed (simp add: autosave_run_def)

lemma new_ok: "saver_ok (newAutosaver d r)" "edits_kept no_edits (newAutosaver d r)"
  by (simp_all add: newAutosaver_def saver_ok_def edits_kept_def no_edits_def)


section \<open>Conflicts\<close>

fun is_choice :: "autosave_event \<Rightarrow> bool" where
  "is_choice (Ev_Keep _) = True"
| "is_choice (Ev_Accept _) = True"
| "is_choice _ = False"

text \<open>The autosaver holds a conflict: no save is in flight and nothing was saved over it.\<close>

definition holds_conflict :: "autosaver \<Rightarrow> autosaver \<Rightarrow> bool" where
  "holds_conflict s s' \<longleftrightarrow>
     av_state s' = St_Conflict \<and> av_inFlight s' = None \<and> av_calls s' = av_calls s \<and>
     av_revision s' = av_revision s"

lemma conflict_step:
  assumes "av_state s = St_Conflict" and "av_inFlight s = None" and "\<not> is_choice e"
  shows "holds_conflict s (autosave_step e s)"
proof -
  have fl: "holds_conflict s (flush t)" if "holds_conflict s t" for t
    using that by (simp add: flush_def requireLive_def runSave_def holds_conflict_def)
  have s: "holds_conflict s s" "holds_conflict s (clearTimer s)"
    using assms(1,2) by (simp_all add: holds_conflict_def)
  from fl [OF s(1)] fl [OF s(2)] assms s show ?thesis
    by (cases e) (auto simp: push_def retry_def dispose_def requireLive_def Let_def holds_conflict_def)
qed

lemma conflict_run:
  assumes "holds_conflict s t" and "list_all (\<lambda>e. \<not> is_choice e) es"
  shows "holds_conflict s (autosave_run es t)"
  using assms
proof (induction es arbitrary: t)
  case (Cons e es)
  have "holds_conflict t (autosave_step e t)"
    using Cons.prems conflict_step [of t e] by (simp add: holds_conflict_def)
  with Cons.prems(1) have "holds_conflict s (autosave_step e t)" by (simp add: holds_conflict_def)
  with Cons.IH Cons.prems(2) show ?case by (simp add: autosave_run_def)
qed (simp add: autosave_run_def)

text \<open>
  Nothing autosaves over a conflict. Once a live autosaver shows a conflict, whatever happens
  short of the explicit choice, edits, flushes, timers, retries, late answers, it calls no save,
  keeps its base revision and keeps showing the conflict with the edits pending. The choice to keep
  the local copy then saves all pending edits on exactly the chosen revision; the choice of the
  server copy adopts its revision and drops them.
\<close>

theorem conflict_waits_for_choice:
  assumes "s = autosave_run es (newAutosaver d r)" and "av_state s = St_Conflict" and "\<not> av_disposed s"
    and "list_all (\<lambda>e. \<not> is_choice e) rest" and "s' = autosave_run rest s"
  shows "av_calls s' = av_calls s \<and> av_state s' = St_Conflict \<and> av_revision s' = av_revision s \<and>
    (\<not> av_disposed s' \<longrightarrow> (\<exists>p. av_pending s' = Some p \<and>
       av_calls (keepLocalCopy c s') = av_calls s @ [(c, p)] \<and>
       av_pending (acceptServerCopy c s') = None \<and> av_revision (acceptServerCopy c s') = c \<and>
       av_calls (acceptServerCopy c s') = av_calls s))"
proof -
  have ok: "saver_ok s" using edits_run [OF new_ok] assms(1) by blast
  then have "av_inFlight s = None" using assms(2,3) by (auto simp: saver_ok_def)
  with assms(2) have "holds_conflict s s" by (simp add: holds_conflict_def)
  from conflict_run [OF this assms(4)] have h: "holds_conflict s s'" unfolding assms(5) .
  have ok': "saver_ok s'" unfolding assms(5) using edits_run [OF ok, of "\<lparr>eh_pushed = av_pending s, eh_saved = None\<rparr>"]
    by (simp add: edits_kept_def)
  have "\<exists>p. av_pending s' = Some p \<and> av_calls (keepLocalCopy c s') = av_calls s @ [(c, p)] \<and>
       av_pending (acceptServerCopy c s') = None \<and> av_revision (acceptServerCopy c s') = c \<and>
       av_calls (acceptServerCopy c s') = av_calls s" if live: "\<not> av_disposed s'"
  proof -
    from ok' h live obtain p where p: "av_pending s' = Some p" by (auto simp: saver_ok_def holds_conflict_def)
    with h live show ?thesis
      by (simp add: keepLocalCopy_def acceptServerCopy_def requireLive_def flush_def runSave_def holds_conflict_def)
  qed
  with h show ?thesis by (auto simp: holds_conflict_def)
qed

section \<open>Settling\<close>

text \<open>
  Answered saves settle. From any state a live autosaver outside a conflict can reach, a flush
  and at most two accepted saves leave nothing pending, no save in flight, and the editor showing
  saved.
\<close>

theorem autosave_settles:
  assumes "s = autosave_run es (newAutosaver d r)" and "\<not> av_disposed s" and "av_state s \<noteq> St_Conflict"
    and "s' = autosave_run [Ev_Flush, Ev_Answer (Out_Saved r1), Ev_Answer (Out_Saved r2)] s"
  shows "av_pending s' = None \<and> av_inFlight s' = None \<and> av_state s' = St_Saved"
proof -
  let ?settled = "\<lambda>t. av_pending t = None \<and> av_inFlight t = None \<and> av_state t = St_Saved \<and> \<not> av_disposed t"
  let ?last = "\<lambda>t. \<not> av_disposed t \<and> (\<exists>f. av_inFlight t = Some f \<and> av_pending t = Some (if_patch f))"
  have res: "?settled (resume n t)" if "av_pending t = None" "av_state t = St_Saved" "\<not> av_disposed t" for n t
    using resume_effect [of t n] that by (auto simp: idle_def started_def)
  have stay: "?settled (autosave_step (Ev_Answer (Out_Saved q)) t)" if "?settled t" for t q
    using that by simp
  have one: "?settled (autosave_step (Ev_Answer (Out_Saved q)) t)" if l: "?last t" for t q
  proof -
    from l obtain f where f: "av_inFlight t = Some f" "av_pending t = Some (if_patch f)" "\<not> av_disposed t" by blast
    have "autosave_step (Ev_Answer (Out_Saved q)) t =
        resume (Suc (if_frames f)) (setState St_Saved (t\<lparr>av_revision := q, av_pending := None\<rparr>))"
      using answer_saved [OF f(3,2), of f q] f(1) by (simp del: resume.simps)
    moreover have "?settled (resume (Suc (if_frames f)) (setState St_Saved (t\<lparr>av_revision := q, av_pending := None\<rparr>)))"
      by (rule res) (use f(3) in simp_all)
    ultimately show ?thesis by simp
  qed
  have start: "?last t'" if "started t t'" "\<not> av_disposed t" for t t'
    using that by (auto simp: started_def)
  have two: "?settled (autosave_step (Ev_Answer (Out_Saved q)) t) \<or> ?last (autosave_step (Ev_Answer (Out_Saved q)) t)"
    if "av_inFlight t = Some f" "av_pending t = Some p" "\<not> av_disposed t" for t q f p
  proof (cases "p = if_patch f")
    case True
    with that one show ?thesis by blast
  next
    case False
    let ?t = "setState St_Unsaved (t\<lparr>av_revision := q, av_pending := Some p\<rparr>)"
    have "autosave_step (Ev_Answer (Out_Saved q)) t = runSave (resume (Suc (if_frames f))) (Suc (if_frames f)) ?t"
      using answer_saved [OF that(3,2), of f q] that(1) False by (simp del: resume.simps)
    moreover have "started ?t (runSave (resume (Suc (if_frames f))) (Suc (if_frames f)) ?t)"
      using that(3) by (simp add: runSave_def started_def)
    ultimately show ?thesis using start [of ?t] that(3) by simp
  qed
  have ok: "saver_ok s" using edits_run [OF new_ok] assms(1) by blast
  have run: "s' = autosave_step (Ev_Answer (Out_Saved r2)) (autosave_step (Ev_Answer (Out_Saved r1)) (flush s))"
    by (simp add: assms(4) autosave_run_def)
  show ?thesis
    using assms(2)
  proof (cases rule: flush_cases)
    case wish
    with ok assms(2) obtain f p where "av_inFlight (flush s) = Some f" "av_pending (flush s) = Some p" "\<not> av_disposed (flush s)"
      by (auto simp: saver_ok_def)
    from two [OF this, of r1] one stay show ?thesis unfolding run by blast
  next
    case conflict
    with assms(3) show ?thesis by simp
  next
    case clean
    then have "?settled (flush s)" using assms(2) by (simp add: idle_def)
    with stay show ?thesis unfolding run by blast
  next
    case save
    from start [OF save(2) assms(2)] one stay show ?thesis unfolding run by blast
  qed
qed

section \<open>Concrete runs\<close>

definition text_patch :: "string \<Rightarrow> autosave_patch" where
  "text_patch t = \<lparr>pt_identity = None, pt_recipients = None, pt_subject = None, pt_markdown = Some (Pv_Text t)\<rparr>"

definition demo_saver :: autosaver where
  "demo_saver = newAutosaver ''draft'' 1"

definition conflict_events :: "autosave_event list" where
  "conflict_events = [Ev_Push (text_patch ''a''), Ev_Timer, Ev_Answer (Out_Conflict 4)]"

definition late_events :: "autosave_event list" where
  "late_events = [Ev_Push (text_patch ''b''), Ev_Flush, Ev_Retry, Ev_Timer]"


theorem conflict_waits_for_choice_witness:
  "av_calls (keepLocalCopy 4 (autosave_run late_events (autosave_run conflict_events demo_saver))) =
     [(1, text_patch ''a''), (4, text_patch ''b'')]"
proof -
  let ?s = "autosave_run conflict_events demo_saver"
  have s: "av_state ?s = St_Conflict" "\<not> av_disposed ?s" "av_calls ?s = [(1, text_patch ''a'')]"
    "\<not> av_disposed (autosave_run late_events ?s)" "av_pending (autosave_run late_events ?s) = Some (text_patch ''b'')"
    by code_simp+
  have l: "list_all (\<lambda>e. \<not> is_choice e) late_events" by (simp add: late_events_def)
  from conflict_waits_for_choice [OF _ s(1,2) l refl, of conflict_events "''draft''" 1 4] s(3-5)
  show ?thesis by (auto simp: demo_saver_def)
qed

theorem autosave_settles_witness:
  "av_calls (autosave_run [Ev_Push (text_patch ''a''), Ev_Timer, Ev_Push (text_patch ''b''), Ev_Flush,
      Ev_Answer (Out_Saved 2), Ev_Answer (Out_Saved 3)] demo_saver) = [(1, text_patch ''a''), (2, text_patch ''b'')] \<and>
   av_state (autosave_run [Ev_Push (text_patch ''a''), Ev_Timer, Ev_Push (text_patch ''b''), Ev_Flush,
      Ev_Answer (Out_Saved 2), Ev_Answer (Out_Saved 3)] demo_saver) = St_Saved"
proof -
  let ?es = "[Ev_Push (text_patch ''a''), Ev_Timer, Ev_Push (text_patch ''b'')]"
  let ?more = "[Ev_Flush, Ev_Answer (Out_Saved 2), Ev_Answer (Out_Saved 3)]"
  have s: "\<not> av_disposed (autosave_run ?es demo_saver)" "av_state (autosave_run ?es demo_saver) \<noteq> St_Conflict"
    by code_simp+
  have "av_calls (autosave_run (?es @ ?more) demo_saver) = [(1, text_patch ''a''), (2, text_patch ''b'')]" by code_simp
  moreover have "autosave_run (?es @ ?more) demo_saver = autosave_run ?more (autosave_run ?es demo_saver)"
    by (simp add: autosave_run_def)
  moreover have "av_state (autosave_run ?more (autosave_run ?es demo_saver)) = St_Saved"
    using autosave_settles [OF refl s [unfolded demo_saver_def] refl, of 2 3] by (simp only: demo_saver_def)
  ultimately show ?thesis by simp
qed

text \<open>
  Closing the editor can drop an edit. The editor closes a draft by a flush followed by
  \<open>dispose\<close>, to save what is pending first. When a save is in flight, the flush only notes the wish
  and the answer of a disposed autosaver is ignored, so an edit made during the save is never
  saved, whatever the server answers.
\<close>

theorem closing_drops_edit:
  "\<forall>out. av_calls (autosave_run [Ev_Push (text_patch ''a''), Ev_Timer, Ev_Push (text_patch ''b''), Ev_Flush,
      Ev_Dispose, Ev_Answer out] demo_saver) = [(1, text_patch ''a'')] \<and>
    av_inFlight (autosave_run [Ev_Push (text_patch ''a''), Ev_Timer, Ev_Push (text_patch ''b''), Ev_Flush,
      Ev_Dispose, Ev_Answer out] demo_saver) = None"
  by (simp add: autosave_run_def demo_saver_def newAutosaver_def push_def requireLive_def schedule_def setState_def
      flush_def runSave_def clearTimer_def setStateIfLive_def dispose_def answer_def mergePatch_def)

end
