(* ===== verification/Offline_Store.thy ===== *)
theory Offline_Store
  imports Hub_Schema
begin

text \<open>
  The records and the store of the offline client: \<open>packages/offline/src/records.ts\<close> and the
  operations of \<open>packages/offline/src/store.ts\<close>. A table is a list in the order of its primary key,
  the order IndexedDB lists it in; the clock reading and the new identifier an operation draws are
  arguments. List rows and details of messages keep the fields the store reads.
\<close>

section \<open>Records\<close>

record cached_row =
  cr_messageId :: string
  cr_sentAt :: "millis option"
  cr_text :: string

record cached_detail =
  cd_id :: string
  cd_body :: string

record cached_message =
  cm_messageId :: string
  cm_row :: "cached_row option"
  cm_detail :: "cached_detail option"
  cm_cachedAt :: millis

record server_draft =
  sd_id :: string
  sd_revision :: int
  sd_markdown :: "string option"

record local_draft =
  ld_draftId :: string
  ld_accountId :: string
  ld_server :: "server_draft option"
  ld_identity :: "string option"
  ld_recipients :: "recipients option"
  ld_subject :: "string option"
  ld_markdown :: "string option"
  ld_baseRevision :: int
  ld_dirty :: bool
  ld_recoveryGeneration :: string
  ld_updatedAt :: millis

record new_upload =
  nu_draftId :: string
  nu_accountId :: string
  nu_filename :: string
  nu_contentType :: string
  nu_sizeBytes :: int
  nu_bytes :: bytes
  nu_serverId :: "string option"
  nu_attachedAt :: "millis option"
  nu_recoveryGeneration :: string

record local_upload =
  lu_localId :: string
  lu_draftId :: string
  lu_accountId :: string
  lu_filename :: string
  lu_contentType :: string
  lu_sizeBytes :: int
  lu_bytes :: bytes
  lu_serverId :: "string option"
  lu_attachedAt :: "millis option"
  lu_recoveryGeneration :: string
  lu_createdAt :: millis

record frozen_target =
  ft_accountId :: string
  ft_folderId :: string
  ft_messageId :: string
  ft_occurrenceId :: string
  ft_revision :: int
  ft_modseq :: "string option"

text \<open>An edit field is absent, null, or a value.\<close>

record draft_edit =
  de_identity :: "string option option"
  de_recipients :: "recipients option option"
  de_subject :: "string option option"
  de_markdown :: "string option option"

datatype queued_payload =
    Draft_Save string int draft_edit
  | Upload_Bytes string
  | Queued_Send string string int
  | Flag_Targets "frozen_target list" flag_name bool string
  | Move_Targets "frozen_target list" string string

datatype queued_state = Qu_Pending | Qu_Synced | Qu_Review | Qu_Failed

datatype review_reason = Server_Restored | Uncertain_Send | Draft_Conflict

record queued_entry =
  qe_localId :: string
  qe_payload :: queued_payload
  qe_state :: queued_state
  qe_reviewReason :: "review_reason option"
  qe_failure :: "string option"
  qe_attempts :: int
  qe_recoveryGeneration :: string
  qe_queuedAt :: millis
  qe_syncedAt :: "millis option"

record restore_marker =
  rm_serverGeneration :: string
  rm_previousGeneration :: string
  rm_markedAt :: millis

section \<open>The database\<close>

text \<open>
  The last two fields are no tables: the actions handed to the port with the store's generation at
  that moment, and the requests of the web port with the generation they carry.
\<close>

record mail_action_body =
  mb_accountId :: string
  mb_kind :: string
  mb_idempotencyKey :: string
  mb_occurrenceIds :: "string list"
  mb_destinationFolderId :: "string option"

datatype api_request =
    Req_Save string int draft_edit
  | Req_Upload string
  | Req_List string
  | Req_Attach string string
  | Req_Send string string int
  | Req_Action mail_action_body

record offline_db =
  of_messages :: "cached_message list"
  of_drafts :: "local_draft list"
  of_uploads :: "local_upload list"
  of_queue :: "queued_entry list"
  of_serverGeneration :: "string option"
  of_restore :: "restore_marker option"
  of_lastSyncedAt :: "millis option"
  of_signInRequired :: "bool option"
  of_replays :: "(queued_entry \<times> string option) list"
  of_requests :: "(string option \<times> api_request) list"

definition empty_db :: offline_db where
  "empty_db =
     \<lparr>of_messages = [], of_drafts = [], of_uploads = [], of_queue = [], of_serverGeneration = None,
      of_restore = None, of_lastSyncedAt = None, of_signInRequired = None, of_replays = [], of_requests = []\<rparr>"

text \<open>\<open>put\<close>, \<open>get\<close>, \<open>update\<close> and \<open>delete\<close> of a table with a primary key.\<close>

definition key_get :: "('r \<Rightarrow> string) \<Rightarrow> string \<Rightarrow> 'r list \<Rightarrow> 'r option" where
  "key_get key k t = find (\<lambda>r. key r = k) t"

definition key_put :: "('r \<Rightarrow> string) \<Rightarrow> 'r \<Rightarrow> 'r list \<Rightarrow> 'r list" where
  "key_put key r t = insort_key key r (filter (\<lambda>x. key x \<noteq> key r) t)"

definition key_update :: "('r \<Rightarrow> string) \<Rightarrow> string \<Rightarrow> ('r \<Rightarrow> 'r) \<Rightarrow> 'r list \<Rightarrow> 'r list" where
  "key_update key k f t = tbl_update (\<lambda>r. key r = k) f t"

definition key_delete :: "('r \<Rightarrow> string) \<Rightarrow> string list \<Rightarrow> 'r list \<Rightarrow> 'r list" where
  "key_delete key ks t = filter (\<lambda>r. key r \<notin> set ks) t"

definition RECENT_MAIL_LIMIT :: nat where "RECENT_MAIL_LIMIT = 500"
definition SYNCED_ACTION_LIMIT :: nat where "SYNCED_ACTION_LIMIT = 100"
definition SETTLED_RECORD_RETENTION_MS :: int where
  "SETTLED_RECORD_RETENTION_MS = 7 * 24 * 60 * 60 * 1000"

section \<open>Recent mail\<close>

definition cacheMessageRow :: "millis \<Rightarrow> cached_row \<Rightarrow> offline_db \<Rightarrow> offline_db" where
  "cacheMessageRow now row db =
     (let existing = key_get cm_messageId (cr_messageId row) (of_messages db) in
      db\<lparr>of_messages := key_put cm_messageId
            \<lparr>cm_messageId = cr_messageId row, cm_row = Some row,
             cm_detail = (case existing of None \<Rightarrow> None | Some m \<Rightarrow> cm_detail m), cm_cachedAt = now\<rparr>
            (of_messages db)\<rparr>)"

definition cacheMessageDetail :: "millis \<Rightarrow> cached_detail \<Rightarrow> offline_db \<Rightarrow> offline_db" where
  "cacheMessageDetail now detail db =
     (let existing = key_get cm_messageId (cd_id detail) (of_messages db) in
      db\<lparr>of_messages := key_put cm_messageId
            \<lparr>cm_messageId = cd_id detail,
             cm_row = (case existing of None \<Rightarrow> None | Some m \<Rightarrow> cm_row m),
             cm_detail = Some detail, cm_cachedAt = now\<rparr>
            (of_messages db)\<rparr>)"

definition row_time :: "cached_row \<Rightarrow> millis" where
  "row_time r = (case cr_sentAt r of None \<Rightarrow> 0 | Some t \<Rightarrow> t)"

definition cachedRows :: "offline_db \<Rightarrow> cached_row list" where
  "cachedRows db =
     sort_key (\<lambda>r. - row_time r) (sort_key cr_messageId (List.map_filter cm_row (of_messages db)))"

definition cachedDetail :: "string \<Rightarrow> offline_db \<Rightarrow> cached_detail option" where
  "cachedDetail messageId db =
     (case key_get cm_messageId messageId (of_messages db) of None \<Rightarrow> None | Some m \<Rightarrow> cm_detail m)"

definition pruneRecentMail :: "nat \<Rightarrow> offline_db \<Rightarrow> offline_db" where
  "pruneRecentMail keep db =
     (let records = rev (sort_key cm_cachedAt (of_messages db)) in
      db\<lparr>of_messages := key_delete cm_messageId (map cm_messageId (drop keep records)) (of_messages db)\<rparr>)"

section \<open>Local drafts\<close>

definition putLocalDraft :: "millis \<Rightarrow> local_draft \<Rightarrow> offline_db \<Rightarrow> offline_db" where
  "putLocalDraft now d db =
     db\<lparr>of_drafts := key_put ld_draftId (d\<lparr>ld_updatedAt := now\<rparr>) (of_drafts db)\<rparr>"

definition getLocalDraft :: "string \<Rightarrow> offline_db \<Rightarrow> local_draft option" where
  "getLocalDraft draftId db = key_get ld_draftId draftId (of_drafts db)"

definition localDrafts :: "offline_db \<Rightarrow> local_draft list" where
  "localDrafts db = rev (sort_key ld_updatedAt (of_drafts db))"

definition deleteLocalDraft :: "string \<Rightarrow> offline_db \<Rightarrow> offline_db" where
  "deleteLocalDraft draftId db = db\<lparr>of_drafts := key_delete ld_draftId [draftId] (of_drafts db)\<rparr>"

section \<open>Uploads\<close>

definition upload_of :: "string \<Rightarrow> millis \<Rightarrow> new_upload \<Rightarrow> local_upload" where
  "upload_of i now u =
     \<lparr>lu_localId = i, lu_draftId = nu_draftId u, lu_accountId = nu_accountId u, lu_filename = nu_filename u,
      lu_contentType = nu_contentType u, lu_sizeBytes = nu_sizeBytes u, lu_bytes = nu_bytes u,
      lu_serverId = nu_serverId u, lu_attachedAt = nu_attachedAt u,
      lu_recoveryGeneration = nu_recoveryGeneration u, lu_createdAt = now\<rparr>"

definition putPendingUpload :: "string \<Rightarrow> millis \<Rightarrow> new_upload \<Rightarrow> offline_db \<Rightarrow> local_upload \<times> offline_db" where
  "putPendingUpload i now u db =
     (upload_of i now u, db\<lparr>of_uploads := key_put lu_localId (upload_of i now u) (of_uploads db)\<rparr>)"

definition getUpload :: "string \<Rightarrow> offline_db \<Rightarrow> local_upload option" where
  "getUpload i db = key_get lu_localId i (of_uploads db)"

definition uploadsForDraft :: "string \<Rightarrow> offline_db \<Rightarrow> local_upload list" where
  "uploadsForDraft draftId db = filter (\<lambda>u. lu_draftId u = draftId) (of_uploads db)"

definition pendingUploads :: "offline_db \<Rightarrow> local_upload list" where
  "pendingUploads db = filter (\<lambda>u. lu_serverId u = None) (of_uploads db)"

definition updateUpload :: "string \<Rightarrow> (local_upload \<Rightarrow> local_upload) \<Rightarrow> offline_db \<Rightarrow> offline_db" where
  "updateUpload i f db = db\<lparr>of_uploads := key_update lu_localId i f (of_uploads db)\<rparr>"

definition markUploadAcknowledged :: "string \<Rightarrow> string \<Rightarrow> offline_db \<Rightarrow> offline_db" where
  "markUploadAcknowledged i serverId db =
     updateUpload i (\<lambda>u. u\<lparr>lu_serverId := Some serverId, lu_bytes := []\<rparr>) db"

definition markUploadAttached :: "millis \<Rightarrow> string \<Rightarrow> offline_db \<Rightarrow> offline_db" where
  "markUploadAttached now i db = updateUpload i (\<lambda>u. u\<lparr>lu_attachedAt := Some now\<rparr>) db"

definition deleteUpload :: "string \<Rightarrow> offline_db \<Rightarrow> offline_db" where
  "deleteUpload i db = db\<lparr>of_uploads := key_delete lu_localId [i] (of_uploads db)\<rparr>"

section \<open>The action queue\<close>

definition buildAction :: "string \<Rightarrow> millis \<Rightarrow> queued_payload \<Rightarrow> string \<Rightarrow> queued_entry" where
  "buildAction i now payload generation =
     \<lparr>qe_localId = i, qe_payload = payload, qe_state = Qu_Pending, qe_reviewReason = None,
      qe_failure = None, qe_attempts = 0, qe_recoveryGeneration = generation, qe_queuedAt = now,
      qe_syncedAt = None\<rparr>"

definition enqueueEntry :: "string \<Rightarrow> millis \<Rightarrow> queued_payload \<Rightarrow> string \<Rightarrow> offline_db \<Rightarrow> queued_entry \<times> offline_db" where
  "enqueueEntry i now payload generation db =
     (let a = buildAction i now payload generation in
      (a, db\<lparr>of_queue := key_put qe_localId a (of_queue db)\<rparr>))"

definition putPendingUploadWithAction ::
    "string \<Rightarrow> string \<Rightarrow> millis \<Rightarrow> new_upload \<Rightarrow> string \<Rightarrow> offline_db \<Rightarrow>
     (queued_entry \<times> local_upload) \<times> offline_db" where
  "putPendingUploadWithAction uploadId actionId now u generation db =
     (let r = upload_of uploadId now u;
          a = buildAction actionId now (Upload_Bytes uploadId) generation
      in ((a, r), db\<lparr>of_uploads := key_put lu_localId r (of_uploads db),
                    of_queue := key_put qe_localId a (of_queue db)\<rparr>))"

fun replayRank :: "queued_payload \<Rightarrow> int" where
  "replayRank (Upload_Bytes _) = 0"
| "replayRank (Draft_Save _ _ _) = 1"
| "replayRank (Flag_Targets _ _ _ _) = 2"
| "replayRank (Move_Targets _ _ _) = 2"
| "replayRank (Queued_Send _ _ _) = 3"

definition in_state :: "queued_state \<Rightarrow> offline_db \<Rightarrow> queued_entry list" where
  "in_state st db = filter (\<lambda>a. qe_state a = st) (of_queue db)"

definition allActions :: "offline_db \<Rightarrow> queued_entry list" where
  "allActions db = sort_key qe_queuedAt (of_queue db)"

definition pendingActions :: "offline_db \<Rightarrow> queued_entry list" where
  "pendingActions db =
     sort_key qe_queuedAt (sort_key (\<lambda>a. replayRank (qe_payload a)) (in_state Qu_Pending db))"

definition getAction :: "string \<Rightarrow> offline_db \<Rightarrow> queued_entry option" where
  "getAction i db = key_get qe_localId i (of_queue db)"

definition reviewActions :: "offline_db \<Rightarrow> queued_entry list" where
  "reviewActions db = sort_key qe_queuedAt (in_state Qu_Review db)"

definition updateAction :: "string \<Rightarrow> (queued_entry \<Rightarrow> queued_entry) \<Rightarrow> offline_db \<Rightarrow> offline_db" where
  "updateAction i f db = db\<lparr>of_queue := key_update qe_localId i f (of_queue db)\<rparr>"

definition deleteAction :: "string \<Rightarrow> offline_db \<Rightarrow> offline_db" where
  "deleteAction i db = db\<lparr>of_queue := key_delete qe_localId [i] (of_queue db)\<rparr>"

definition synced_time :: "queued_entry \<Rightarrow> millis" where
  "synced_time a = (case qe_syncedAt a of None \<Rightarrow> qe_queuedAt a | Some t \<Rightarrow> t)"

definition pruneSyncedActions :: "nat \<Rightarrow> offline_db \<Rightarrow> offline_db" where
  "pruneSyncedActions keep db =
     (let stale = drop keep (sort_key (\<lambda>a. - synced_time a) (in_state Qu_Synced db)) in
      db\<lparr>of_queue := key_delete qe_localId (map qe_localId stale) (of_queue db)\<rparr>)"

definition settled_draft :: "millis \<Rightarrow> local_draft \<Rightarrow> bool" where
  "settled_draft cutoff d \<longleftrightarrow> \<not> ld_dirty d \<and> ld_updatedAt d < cutoff"

definition settled_upload :: "millis \<Rightarrow> local_upload \<Rightarrow> bool" where
  "settled_upload cutoff u \<longleftrightarrow> (case lu_attachedAt u of None \<Rightarrow> False | Some t \<Rightarrow> t < cutoff)"

definition pruneSettledLocalRecords :: "int \<Rightarrow> millis \<Rightarrow> offline_db \<Rightarrow> offline_db" where
  "pruneSettledLocalRecords retentionMs now db =
     (let cutoff = now - retentionMs in
      db\<lparr>of_drafts := key_delete ld_draftId (map ld_draftId (filter (settled_draft cutoff) (of_drafts db))) (of_drafts db),
         of_uploads := key_delete lu_localId (map lu_localId (filter (settled_upload cutoff) (of_uploads db))) (of_uploads db)\<rparr>)"

section \<open>Lemmas on keyed tables\<close>

lemma set_key_put: "set (key_put key r t) = insert r {x \<in> set t. key x \<noteq> key r}"
  by (simp add: key_put_def set_insort_key)

lemma sorted_key_put: "sorted (map key t) \<Longrightarrow> sorted (map key (key_put key r t))"
  unfolding key_put_def by (rule sorted_insort_key [THEN iffD2]) (rule sorted_filter)

lemma distinct_insort_keys: "distinct (map key (insort_key key r t)) \<longleftrightarrow> distinct (key r # map key t)"
  by (induction t) (auto simp: set_insort_key)

lemma distinct_key_put: "distinct (map key t) \<Longrightarrow> distinct (map key (key_put key r t))"
  by (auto simp: key_put_def distinct_insort_keys distinct_map_filter)

lemma key_get_some: "key_get key k t = Some r \<Longrightarrow> r \<in> set t \<and> key r = k"
  unfolding key_get_def by (rule find_in_set)

lemma key_get_iff:
  "distinct (map key t) \<Longrightarrow> key_get key k t = Some r \<longleftrightarrow> r \<in> set t \<and> key r = k"
  unfolding key_get_def by (induction t) (auto split: if_splits)

lemma set_key_delete: "set (key_delete key ks t) = {r \<in> set t. key r \<notin> set ks}"
  by (auto simp: key_delete_def)

end
