(* ===== verification/Offline_Sync.thy ===== *)
theory Offline_Sync
  imports Offline_Store
begin

text \<open>
  The replay controller of \<open>packages/offline/src/sync.ts\<close>. The port is a record of functions on the
  store, because a port may read and write it; a missing one blocks its kind. Other callers act on
  the store while a port call runs (\<open>oc_rely\<close>, by the number of replays so far, and \<open>oc_during\<close> at
  the requests of the web port, by their number); between two port calls the clock is taken not to
  move. Calls of \<open>sync\<close> are serialized by the class, so a pass is
  one function. A port call that throws is not modelled: the web port catches everything.
\<close>

section \<open>Ports and reports\<close>

datatype replay_outcome =
    Re_Synced "int option" "string option"
  | Re_Retry string bool
  | Re_Failed string
  | Re_Review review_reason

type_synonym replay = "offline_db \<Rightarrow> replay_outcome \<times> offline_db"

record offline_port =
  op_saveDraft :: "(string \<Rightarrow> int \<Rightarrow> draft_edit \<Rightarrow> replay) option"
  op_uploadBytes :: "(local_upload \<Rightarrow> replay) option"
  op_queueSend :: "(string \<Rightarrow> string \<Rightarrow> int \<Rightarrow> replay) option"
  op_runMailAction :: "(queued_payload \<Rightarrow> replay) option"

record offline_ctx =
  oc_now :: "nat \<Rightarrow> millis"
  oc_newId :: "offline_db \<Rightarrow> string"
  oc_rely :: "nat \<Rightarrow> offline_db \<Rightarrow> offline_db"
  oc_during :: "nat \<Rightarrow> offline_db \<Rightarrow> offline_db"

datatype offline_error =
    Generation_Unknown
  | Uploads_Unverified int
  | Review_Choice_Error

record review_item =
  ri_localId :: string
  ri_kind :: string
  ri_reason :: review_reason
  ri_queuedAt :: millis
  ri_draftId :: "string option"

record failed_item =
  fi_localId :: string
  fi_kind :: string
  fi_failure :: string
  fi_queuedAt :: millis
  fi_draftId :: "string option"

record sync_snapshot =
  sn_serverGeneration :: "string option"
  sn_reviewRequired :: bool
  sn_restore :: "restore_marker option"
  sn_signInRequired :: bool
  sn_pendingActions :: int
  sn_unsupportedActions :: int
  sn_waitingSends :: int
  sn_reviewActions :: "review_item list"
  sn_failedActions :: "failed_item list"
  sn_dirtyDrafts :: int
  sn_pendingUploads :: int
  sn_lastSyncedAt :: "millis option"

record sync_report =
  sr_attempted :: int
  sr_synced :: int
  sr_stoppedForRestore :: bool
  sr_pausedForSignIn :: bool

datatype review_choice =
    Rebase bool bool "int option"
  | Discard

definition device_now :: "offline_ctx \<Rightarrow> offline_db \<Rightarrow> millis" where
  "device_now cx db = oc_now cx (length (of_replays db))"

definition normalizeGeneration :: "string option \<Rightarrow> string option" where
  "normalizeGeneration value =
     (case value of
        None \<Rightarrow> None
      | Some v \<Rightarrow> (let t = to_lower (trim_string v) in if is_uuid t then Some t else None))"

section \<open>Views of the queue\<close>

fun draftIdOf :: "queued_payload \<Rightarrow> string option" where
  "draftIdOf (Draft_Save d _ _) = Some d"
| "draftIdOf (Queued_Send d _ _) = Some d"
| "draftIdOf _ = None"

definition actionDraftId :: "queued_payload \<Rightarrow> local_upload list \<Rightarrow> string option" where
  "actionDraftId payload uploads =
     (case draftIdOf payload of
        Some d \<Rightarrow> Some d
      | None \<Rightarrow>
          (case payload of
             Upload_Bytes i \<Rightarrow> map_option lu_draftId (find (\<lambda>u. lu_localId u = i) uploads)
           | _ \<Rightarrow> None))"

fun is_save_of :: "string \<Rightarrow> queued_payload \<Rightarrow> bool" where
  "is_save_of draftId (Draft_Save d _ _) \<longleftrightarrow> d = draftId"
| "is_save_of draftId _ \<longleftrightarrow> False"

fun is_send :: "queued_payload \<Rightarrow> bool" where
  "is_send (Queued_Send _ _ _) = True"
| "is_send _ = False"

definition hasQueuedDraftSave :: "queued_entry list \<Rightarrow> string \<Rightarrow> bool" where
  "hasQueuedDraftSave pending draftId = list_ex (\<lambda>e. is_save_of draftId (qe_payload e)) pending"

fun payload_kind :: "queued_payload \<Rightarrow> string" where
  "payload_kind (Draft_Save _ _ _) = ''draft-save''"
| "payload_kind (Upload_Bytes _) = ''upload''"
| "payload_kind (Queued_Send _ _ _) = ''send''"
| "payload_kind (Flag_Targets _ _ _ _) = ''flag''"
| "payload_kind (Move_Targets _ _ _) = ''move''"

definition toReviewItem :: "local_upload list \<Rightarrow> queued_entry \<Rightarrow> review_item" where
  "toReviewItem uploads a =
     \<lparr>ri_localId = qe_localId a, ri_kind = payload_kind (qe_payload a),
      ri_reason = (case qe_reviewReason a of None \<Rightarrow> Server_Restored | Some r \<Rightarrow> r),
      ri_queuedAt = qe_queuedAt a, ri_draftId = actionDraftId (qe_payload a) uploads\<rparr>"

fun handles :: "offline_port \<Rightarrow> queued_payload \<Rightarrow> bool" where
  "handles p (Draft_Save _ _ _) \<longleftrightarrow> op_saveDraft p \<noteq> None"
| "handles p (Upload_Bytes _) \<longleftrightarrow> op_uploadBytes p \<noteq> None"
| "handles p (Queued_Send _ _ _) \<longleftrightarrow> op_queueSend p \<noteq> None"
| "handles p _ \<longleftrightarrow> op_runMailAction p \<noteq> None"

definition snapshot :: "offline_port \<Rightarrow> offline_db \<Rightarrow> sync_snapshot" where
  "snapshot p db =
     (let actions = allActions db;
          pending = filter (\<lambda>a. qe_state a = Qu_Pending) actions;
          review = filter (\<lambda>a. qe_state a = Qu_Review) actions;
          failed = filter (\<lambda>a. qe_state a = Qu_Failed) actions;
          uploads = pendingUploads db;
          dirtyDrafts = filter ld_dirty (localDrafts db);
          reviewRequired = (case of_restore db of
             None \<Rightarrow> False
           | Some m \<Rightarrow>
               review \<noteq> [] \<or>
               list_ex (\<lambda>d. ld_recoveryGeneration d = rm_previousGeneration m) dirtyDrafts \<or>
               list_ex (\<lambda>u. lu_recoveryGeneration u = rm_previousGeneration m) uploads \<or>
               list_ex (\<lambda>a. qe_recoveryGeneration a = rm_previousGeneration m) pending)
      in \<lparr>sn_serverGeneration = of_serverGeneration db, sn_reviewRequired = reviewRequired,
          sn_restore = (if reviewRequired then of_restore db else None),
          sn_signInRequired = (of_signInRequired db = Some True),
          sn_pendingActions = int (length pending),
          sn_unsupportedActions = int (length (filter (\<lambda>a. \<not> handles p (qe_payload a)) pending)),
          sn_waitingSends = int (length (filter (\<lambda>a. is_send (qe_payload a)) pending)),
          sn_reviewActions = map (toReviewItem uploads) review,
          sn_failedActions = map (\<lambda>a. \<lparr>fi_localId = qe_localId a, fi_kind = payload_kind (qe_payload a),
             fi_failure = (case qe_failure a of None \<Rightarrow> [] | Some m \<Rightarrow> m),
             fi_queuedAt = qe_queuedAt a, fi_draftId = actionDraftId (qe_payload a) uploads\<rparr>) failed,
          sn_dirtyDrafts = int (length dirtyDrafts), sn_pendingUploads = int (length uploads),
          sn_lastSyncedAt = of_lastSyncedAt db\<rparr>)"

section \<open>Observing the generation\<close>

definition to_review :: "review_reason \<Rightarrow> queued_entry \<Rightarrow> queued_entry" where
  "to_review reason a = a\<lparr>qe_state := Qu_Review, qe_reviewReason := Some reason\<rparr>"

definition observeGeneration :: "offline_ctx \<Rightarrow> string option \<Rightarrow> offline_db \<Rightarrow> offline_db" where
  "observeGeneration cx current db =
     (case normalizeGeneration current of
        None \<Rightarrow> db
      | Some normalized \<Rightarrow>
          (let db1 = db\<lparr>of_serverGeneration := Some normalized\<rparr> in
           case of_serverGeneration db of
             None \<Rightarrow> db1
           | Some previous \<Rightarrow>
               if previous = normalized then db1
               else
                 (let db2 = db1\<lparr>of_restore := Some \<lparr>rm_serverGeneration = normalized,
                         rm_previousGeneration = previous, rm_markedAt = device_now cx db\<rparr>\<rparr>
                  in fold (\<lambda>a. updateAction (qe_localId a) (to_review Server_Restored))
                       (filter (\<lambda>a. qe_recoveryGeneration a \<noteq> normalized) (pendingActions db2)) db2)))"

section \<open>Replaying\<close>

definition replayUpload :: "string \<Rightarrow> (local_upload \<Rightarrow> replay) \<Rightarrow> replay" where
  "replayUpload i uploadBytes db =
     (case getUpload i db of
        None \<Rightarrow> (Re_Failed ''The uploaded file is no longer on this device.'', db)
      | Some u \<Rightarrow>
          (case lu_serverId u of
             Some s \<Rightarrow> (Re_Synced None (Some s), db)
           | None \<Rightarrow> uploadBytes u db))"

fun handlerFor :: "offline_port \<Rightarrow> queued_payload \<Rightarrow> replay option" where
  "handlerFor p (Draft_Save d base edit) =
     (case op_saveDraft p of None \<Rightarrow> None | Some save \<Rightarrow> Some (save d base edit))"
| "handlerFor p (Upload_Bytes i) =
     (case op_uploadBytes p of None \<Rightarrow> None | Some f \<Rightarrow> Some (replayUpload i f))"
| "handlerFor p (Queued_Send d key base) =
     (case op_queueSend p of None \<Rightarrow> None | Some send \<Rightarrow> Some (send d key base))"
| "handlerFor p payload =
     (case op_runMailAction p of None \<Rightarrow> None | Some f \<Rightarrow> Some (f payload))"

definition log_replay :: "queued_entry \<Rightarrow> offline_db \<Rightarrow> offline_db" where
  "log_replay a db = db\<lparr>of_replays := of_replays db @ [(a, of_serverGeneration db)]\<rparr>"

fun with_base :: "int \<Rightarrow> queued_payload \<Rightarrow> queued_payload" where
  "with_base r (Draft_Save d _ edit) = Draft_Save d r edit"
| "with_base r (Queued_Send d key _) = Queued_Send d key r"
| "with_base r payload = payload"

text \<open>A queued save or send of a draft, frozen against an older revision than \<open>r\<close>.\<close>

fun behind :: "string \<Rightarrow> int \<Rightarrow> queued_payload \<Rightarrow> bool" where
  "behind draftId r (Draft_Save d base _) \<longleftrightarrow> d = draftId \<and> base < r"
| "behind draftId r (Queued_Send d _ base) \<longleftrightarrow> d = draftId \<and> base < r"
| "behind draftId r _ \<longleftrightarrow> False"

definition chain_forward :: "string \<Rightarrow> int \<Rightarrow> queued_entry list \<Rightarrow> offline_db \<Rightarrow> offline_db" where
  "chain_forward draftId r pending db =
     fold (\<lambda>e. updateAction (qe_localId e) (\<lambda>x. x\<lparr>qe_payload := with_base r (qe_payload e)\<rparr>))
       (filter (\<lambda>e. behind draftId r (qe_payload e)) pending) db"

definition settle_save :: "millis \<Rightarrow> queued_entry \<Rightarrow> string \<Rightarrow> int \<Rightarrow> offline_db \<Rightarrow> offline_db" where
  "settle_save now action draftId revision db =
     (let pending = pendingActions db; db1 = chain_forward draftId revision pending db in
      case getLocalDraft draftId db1 of
        None \<Rightarrow> db1
      | Some local \<Rightarrow>
          if ld_baseRevision local \<le> revision then
            putLocalDraft now (local\<lparr>ld_baseRevision := revision,
               ld_dirty := hasQueuedDraftSave pending draftId,
               ld_recoveryGeneration := qe_recoveryGeneration action\<rparr>) db1
          else db1)"

definition settle_send :: "millis \<Rightarrow> queued_entry \<Rightarrow> string \<Rightarrow> int \<Rightarrow> offline_db \<Rightarrow> offline_db" where
  "settle_send now action draftId base db =
     (case getLocalDraft draftId db of
        None \<Rightarrow> db
      | Some local \<Rightarrow>
          if ld_baseRevision local \<le> base then
            putLocalDraft now (local\<lparr>ld_dirty := hasQueuedDraftSave (pendingActions db) draftId,
               ld_recoveryGeneration := qe_recoveryGeneration action\<rparr>) db
          else db)"

definition settleSynced :: "millis \<Rightarrow> queued_entry \<Rightarrow> int option \<Rightarrow> string option \<Rightarrow> offline_db \<Rightarrow> offline_db" where
  "settleSynced now action revision serverUploadId db =
     (let db1 = updateAction (qe_localId action)
            (\<lambda>x. x\<lparr>qe_state := Qu_Synced, qe_reviewReason := None, qe_failure := None,
                   qe_syncedAt := Some now\<rparr>) db
      in case qe_payload action of
           Draft_Save d base edit \<Rightarrow>
             (case revision of None \<Rightarrow> db1 | Some r \<Rightarrow> settle_save now action d r db1)
         | Queued_Send d key base \<Rightarrow> settle_send now action d base db1
         | Upload_Bytes i \<Rightarrow>
             (case serverUploadId of None \<Rightarrow> db1 | Some s \<Rightarrow> markUploadAcknowledged i s db1)
         | _ \<Rightarrow> db1)"

fun reconcile_orphans :: "offline_ctx \<Rightarrow> local_upload list \<Rightarrow> offline_db \<Rightarrow> offline_db" where
  "reconcile_orphans cx [] db = db"
| "reconcile_orphans cx (u # us) db =
     reconcile_orphans cx us
       (snd (enqueueEntry (oc_newId cx db) (device_now cx db) (Upload_Bytes (lu_localId u))
               (lu_recoveryGeneration u) db))"

fun upload_of_payload :: "queued_payload \<Rightarrow> string option" where
  "upload_of_payload (Upload_Bytes i) = Some i"
| "upload_of_payload _ = None"

definition covered_uploads :: "offline_db \<Rightarrow> string list" where
  "covered_uploads db =
     List.map_filter (\<lambda>a. if qe_state a \<noteq> Qu_Synced then upload_of_payload (qe_payload a) else None)
       (allActions db)"

definition reconcileOrphanedUploads :: "offline_ctx \<Rightarrow> offline_db \<Rightarrow> offline_db" where
  "reconcileOrphanedUploads cx db =
     reconcile_orphans cx
       (filter (\<lambda>u. lu_localId u \<notin> set (covered_uploads db)) (pendingUploads db)) db"

definition add_attempt :: "queued_entry \<Rightarrow> queued_entry \<Rightarrow> queued_entry" where
  "add_attempt action x = x\<lparr>qe_attempts := qe_attempts action + 1\<rparr>"

fun pass_rows ::
    "offline_port \<Rightarrow> offline_ctx \<Rightarrow> string \<Rightarrow> queued_entry list \<Rightarrow> sync_report \<Rightarrow> offline_db \<Rightarrow>
     sync_report \<times> offline_db" where
  "pass_rows p cx generation [] report db = (report, db)"
| "pass_rows p cx generation (action # actions) report db =
     (if qe_recoveryGeneration action \<noteq> generation then
        (report\<lparr>sr_stoppedForRestore := True\<rparr>,
         updateAction (qe_localId action) (to_review Server_Restored) db)
      else
        (case getAction (qe_localId action) db of
           None \<Rightarrow> pass_rows p cx generation actions report db
         | Some queued \<Rightarrow>
             if qe_state queued \<noteq> Qu_Pending then pass_rows p cx generation actions report db
             else
               (case handlerFor p (qe_payload queued) of
                  None \<Rightarrow> pass_rows p cx generation actions report db
                | Some run \<Rightarrow>
                    (let db1 = log_replay queued (updateAction (qe_localId action) (add_attempt action) db);
                         k = length (of_replays db);
                         counted = report\<lparr>sr_attempted := sr_attempted report + 1\<rparr>
                     in case run db1 of
                          (outcome, db2) \<Rightarrow>
                            (let db3 = oc_rely cx k db2 in
                             case outcome of
                               Re_Synced revision uploadId \<Rightarrow>
                                 pass_rows p cx generation actions
                                   (counted\<lparr>sr_synced := sr_synced report + 1\<rparr>)
                                   (settleSynced (device_now cx db3) queued revision uploadId db3)
                             | Re_Failed reason \<Rightarrow>
                                 pass_rows p cx generation actions counted
                                   (updateAction (qe_localId action)
                                      (\<lambda>x. x\<lparr>qe_state := Qu_Failed, qe_failure := Some reason\<rparr>) db3)
                             | Re_Review reason \<Rightarrow>
                                 pass_rows p cx generation actions counted
                                   (updateAction (qe_localId action) (to_review reason) db3)
                             | Re_Retry reason signIn \<Rightarrow>
                                 if signIn then
                                   (counted\<lparr>sr_pausedForSignIn := True\<rparr>, db3\<lparr>of_signInRequired := Some True\<rparr>)
                                 else pass_rows p cx generation actions counted db3)))))"

definition no_report :: sync_report where
  "no_report =
     \<lparr>sr_attempted = 0, sr_synced = 0, sr_stoppedForRestore = False, sr_pausedForSignIn = False\<rparr>"

definition runPass :: "offline_port \<Rightarrow> offline_ctx \<Rightarrow> offline_db \<Rightarrow> sync_report \<times> offline_db" where
  "runPass p cx db =
     (case of_serverGeneration db of
        None \<Rightarrow> (no_report, db)
      | Some generation \<Rightarrow>
          (let db1 = reconcileOrphanedUploads cx (db\<lparr>of_signInRequired := Some False\<rparr>) in
           case pass_rows p cx generation (pendingActions db1) no_report db1 of
             (report, db2) \<Rightarrow>
               (let now = device_now cx db2;
                    db3 = (if sr_synced report > 0 then db2\<lparr>of_lastSyncedAt := Some now\<rparr> else db2)
                in (report, pruneSettledLocalRecords SETTLED_RECORD_RETENTION_MS now
                              (pruneSyncedActions SYNCED_ACTION_LIMIT db3)))))"

section \<open>Resolving\<close>

definition restampLocalWork :: "millis \<Rightarrow> queued_payload \<Rightarrow> string \<Rightarrow> offline_db \<Rightarrow> offline_db" where
  "restampLocalWork now payload generation db =
     (case payload of
        Upload_Bytes i \<Rightarrow>
          (case getUpload i db of
             None \<Rightarrow> db
           | Some u \<Rightarrow> updateUpload (lu_localId u) (\<lambda>x. x\<lparr>lu_recoveryGeneration := generation\<rparr>) db)
      | Draft_Save d base edit \<Rightarrow>
          (case getLocalDraft d db of
             None \<Rightarrow> db
           | Some local \<Rightarrow>
               putLocalDraft now (local\<lparr>ld_baseRevision := base, ld_recoveryGeneration := generation\<rparr>) db)
      | _ \<Rightarrow> db)"

text \<open>The payload a rebase replays: the step its kind requires, or the error.\<close>

fun rebased_payload ::
    "offline_ctx \<Rightarrow> bool \<Rightarrow> bool \<Rightarrow> int option \<Rightarrow> queued_payload \<Rightarrow> offline_db \<Rightarrow> offline_error + queued_payload" where
  "rebased_payload cx compared warned shown (Queued_Send d key base) db =
     (if \<not> warned then Inl Review_Choice_Error
      else
        Inr (Queued_Send d (oc_newId cx db)
          (case getLocalDraft d db of
             None \<Rightarrow> base
           | Some local \<Rightarrow> if ld_baseRevision local > base then ld_baseRevision local else base)))"
| "rebased_payload cx compared warned shown (Draft_Save d base edit) db =
     (case shown of
        None \<Rightarrow> Inl Review_Choice_Error
      | Some r \<Rightarrow> if \<not> compared then Inl Review_Choice_Error else Inr (Draft_Save d r edit))"
| "rebased_payload cx compared warned shown payload db = Inr payload"

definition drop_upload :: "queued_payload \<Rightarrow> offline_db \<Rightarrow> offline_db" where
  "drop_upload payload db = (case payload of Upload_Bytes i \<Rightarrow> deleteUpload i db | _ \<Rightarrow> db)"

definition resolveReview ::
    "offline_ctx \<Rightarrow> string \<Rightarrow> review_choice \<Rightarrow> offline_db \<Rightarrow> (offline_db, offline_error, unit) outcome" where
  "resolveReview cx localId choice db =
     (case find (\<lambda>a. qe_localId a = localId) (allActions db) of
        None \<Rightarrow> (Inl Review_Choice_Error, db)
      | Some action \<Rightarrow>
          if qe_state action \<noteq> Qu_Review then (Inl Review_Choice_Error, db)
          else
            (case choice of
               Discard \<Rightarrow> (Inr (), deleteAction localId (drop_upload (qe_payload action) db))
             | Rebase compared warned shown \<Rightarrow>
                 (case of_serverGeneration db of
                    None \<Rightarrow> (Inl Generation_Unknown, db)
                  | Some generation \<Rightarrow>
                      (case rebased_payload cx compared warned shown (qe_payload action) db of
                         Inl e \<Rightarrow> (Inl e, db)
                       | Inr payload \<Rightarrow>
                           (Inr (), restampLocalWork (device_now cx db) payload generation
                              (updateAction localId
                                 (\<lambda>x. x\<lparr>qe_payload := payload, qe_recoveryGeneration := generation,
                                        qe_state := Qu_Pending, qe_reviewReason := None, qe_failure := None\<rparr>) db))))))"

definition retryFailure :: "string \<Rightarrow> offline_db \<Rightarrow> offline_db" where
  "retryFailure localId db =
     updateAction localId (\<lambda>x. x\<lparr>qe_state := Qu_Pending, qe_failure := None\<rparr>) db"

definition discardFailure :: "string \<Rightarrow> offline_db \<Rightarrow> offline_db" where
  "discardFailure localId db =
     deleteAction localId
       (case find (\<lambda>a. qe_localId a = localId) (allActions db) of
          None \<Rightarrow> db | Some action \<Rightarrow> drop_upload (qe_payload action) db)"

section \<open>Enqueueing\<close>

definition offline_enqueue :: "offline_ctx \<Rightarrow> queued_payload \<Rightarrow> offline_db \<Rightarrow> (offline_db, offline_error, queued_entry) outcome" where
  "offline_enqueue cx payload db =
     (case of_serverGeneration db of
        None \<Rightarrow> (Inl Generation_Unknown, db)
      | Some generation \<Rightarrow>
          (case enqueueEntry (oc_newId cx db) (device_now cx db) payload generation db of
             (a, db') \<Rightarrow> (Inr a, db')))"

definition enqueueDraftSave :: "offline_ctx \<Rightarrow> string \<Rightarrow> int \<Rightarrow> draft_edit \<Rightarrow> offline_db \<Rightarrow> (offline_db, offline_error, queued_entry) outcome" where
  "enqueueDraftSave cx draftId base edit db = offline_enqueue cx (Draft_Save draftId base edit) db"

definition enqueueUpload :: "offline_ctx \<Rightarrow> string \<Rightarrow> new_upload \<Rightarrow> offline_db \<Rightarrow> (offline_db, offline_error, queued_entry \<times> local_upload) outcome" where
  "enqueueUpload cx uploadId u db =
     (case of_serverGeneration db of
        None \<Rightarrow> (Inl Generation_Unknown, db)
      | Some generation \<Rightarrow>
          (case putPendingUploadWithAction uploadId (oc_newId cx db) (device_now cx db) u generation db of
             (r, db') \<Rightarrow> (Inr r, db')))"

definition enqueueSend :: "offline_ctx \<Rightarrow> string \<Rightarrow> string \<Rightarrow> int \<Rightarrow> offline_db \<Rightarrow> (offline_db, offline_error, queued_entry) outcome" where
  "enqueueSend cx draftId key base db =
     (let waiting = filter (\<lambda>u. lu_serverId u = None \<or> lu_attachedAt u = None) (uploadsForDraft draftId db) in
      if length waiting > 0 then (Inl (Uploads_Unverified (int (length waiting))), db)
      else offline_enqueue cx (Queued_Send draftId key base) db)"

definition enqueueMailAction :: "offline_ctx \<Rightarrow> queued_payload \<Rightarrow> offline_db \<Rightarrow> (offline_db, offline_error, queued_entry) outcome" where
  "enqueueMailAction cx payload db = offline_enqueue cx payload db"

definition noteComparedServerCopy :: "offline_ctx \<Rightarrow> string \<Rightarrow> server_draft \<Rightarrow> offline_db \<Rightarrow> offline_db" where
  "noteComparedServerCopy cx draftId server db =
     (case getLocalDraft draftId db of
        None \<Rightarrow> db
      | Some local \<Rightarrow> putLocalDraft (device_now cx db) (local\<lparr>ld_server := Some server\<rparr>) db)"

end
