(* ===== verification/Offline_Port.thy ===== *)
theory Offline_Port
  imports Offline_Sync Action_Kinds
begin

text \<open>
  The port of the web application, \<open>apps/web/src/offline/port.ts\<close>: how a failed request is
  classified, the bodies of the requests, and the four handlers. The JSON API answers each request;
  its answers may depend on all requests made so far. A request is logged with the generation
  header it carries, and while it runs other callers act on the store (\<open>oc_during\<close>).
\<close>

section \<open>Failures\<close>

record api_failure =
  af_network :: bool
  af_unauthorized :: bool
  af_code :: string
  af_status :: int
  af_message :: string

definition classifyReplayFailure :: "api_failure \<Rightarrow> bool \<Rightarrow> replay_outcome" where
  "classifyReplayFailure failure lostResponseIsUncertain =
     (if af_network failure then
        (if lostResponseIsUncertain then Re_Review Uncertain_Send else Re_Retry (af_message failure) False)
      else if af_unauthorized failure then Re_Retry (af_message failure) True
      else if af_code failure = ''draft_stale'' then Re_Review Draft_Conflict
      else if af_code failure = ''recovery_required'' then Re_Review Server_Restored
      else if af_status failure \<ge> 500 \<or> af_status failure = 429 then Re_Retry (af_message failure) False
      else Re_Failed (af_message failure))"

section \<open>Request bodies\<close>

definition flag_kind :: "flag_name \<Rightarrow> bool \<Rightarrow> string" where
  "flag_kind flag val =
     (if flag = Flag_Unread then (if val then ''mark_unread'' else ''mark_read'')
      else (if val then ''star'' else ''unstar''))"

definition first_account :: "frozen_target list \<Rightarrow> string" where
  "first_account targets = (case targets of [] \<Rightarrow> [] | t # _ \<Rightarrow> ft_accountId t)"

fun mailActionBodyOf :: "queued_payload \<Rightarrow> mail_action_body" where
  "mailActionBodyOf (Move_Targets targets destination key) =
     \<lparr>mb_accountId = first_account targets, mb_kind = ''move'', mb_idempotencyKey = key,
      mb_occurrenceIds = map ft_occurrenceId targets, mb_destinationFolderId = Some destination\<rparr>"
| "mailActionBodyOf (Flag_Targets targets flag val key) =
     \<lparr>mb_accountId = first_account targets, mb_kind = flag_kind flag val, mb_idempotencyKey = key,
      mb_occurrenceIds = map ft_occurrenceId targets, mb_destinationFolderId = None\<rparr>"
| "mailActionBodyOf _ =
     \<lparr>mb_accountId = [], mb_kind = [], mb_idempotencyKey = [], mb_occurrenceIds = [],
      mb_destinationFolderId = None\<rparr>"

fun payload_targets :: "queued_payload \<Rightarrow> frozen_target list" where
  "payload_targets (Flag_Targets targets _ _ _) = targets"
| "payload_targets (Move_Targets targets _ _) = targets"
| "payload_targets _ = []"

definition not_null :: "'v option option \<Rightarrow> 'v option option" where
  "not_null x = (if x = Some None then None else x)"

definition editBody :: "draft_edit \<Rightarrow> draft_edit" where
  "editBody edit =
     edit\<lparr>de_identity := not_null (de_identity edit), de_recipients := not_null (de_recipients edit)\<rparr>"

section \<open>The port\<close>

type_synonym request_log = "(string option \<times> api_request) list"

record web_api =
  wa_patchDraft :: "request_log \<Rightarrow> string \<Rightarrow> int \<Rightarrow> draft_edit \<Rightarrow> api_failure + int"
  wa_postUpload :: "request_log \<Rightarrow> local_upload \<Rightarrow> api_failure + string"
  wa_listUploads :: "request_log \<Rightarrow> string \<Rightarrow> api_failure + string list"
  wa_attach :: "request_log \<Rightarrow> string \<Rightarrow> string \<Rightarrow> api_failure + unit"
  wa_send :: "request_log \<Rightarrow> string \<Rightarrow> string \<Rightarrow> int \<Rightarrow> api_failure + unit"
  wa_action :: "request_log \<Rightarrow> mail_action_body \<Rightarrow> api_failure + unit"

text \<open>A request with the generation the store holds now, and one without the header.\<close>

definition log_request :: "offline_ctx \<Rightarrow> string option \<Rightarrow> api_request \<Rightarrow> offline_db \<Rightarrow> offline_db" where
  "log_request cx header r db =
     oc_during cx (length (of_requests db)) (db\<lparr>of_requests := of_requests db @ [(header, r)]\<rparr>)"

definition stamped :: "offline_ctx \<Rightarrow> api_request \<Rightarrow> offline_db \<Rightarrow> offline_db" where
  "stamped cx r db = log_request cx (of_serverGeneration db) r db"

definition port_saveDraft :: "web_api \<Rightarrow> offline_ctx \<Rightarrow> string \<Rightarrow> int \<Rightarrow> draft_edit \<Rightarrow> replay" where
  "port_saveDraft api cx draftId base edit db =
     (case wa_patchDraft api (of_requests db) draftId base (editBody edit) of
        Inr revision \<Rightarrow> (Re_Synced (Some revision) None, stamped cx (Req_Save draftId base (editBody edit)) db)
      | Inl e \<Rightarrow> (classifyReplayFailure e False, stamped cx (Req_Save draftId base (editBody edit)) db))"

definition port_uploadBytes :: "web_api \<Rightarrow> offline_ctx \<Rightarrow> local_upload \<Rightarrow> replay" where
  "port_uploadBytes api cx upload db =
     (case wa_postUpload api (of_requests db) upload of
        Inr i \<Rightarrow> (Re_Synced None (Some i), stamped cx (Req_Upload (lu_localId upload)) db)
      | Inl e \<Rightarrow> (classifyReplayFailure e False, stamped cx (Req_Upload (lu_localId upload)) db))"

text \<open>
  The attachments a send needs: \<open>known\<close> is the list the server holds, once it was asked. The result
  is an outcome that ends the send, or none.
\<close>

fun attach_uploads ::
    "web_api \<Rightarrow> offline_ctx \<Rightarrow> string \<Rightarrow> string list option \<Rightarrow> local_upload list \<Rightarrow> offline_db \<Rightarrow>
     replay_outcome option \<times> offline_db" where
  "attach_uploads api cx draftId known [] db = (None, db)"
| "attach_uploads api cx draftId known (u # us) db =
     (case lu_serverId u of
        None \<Rightarrow> (Some (Re_Retry ''An upload this draft needs has not reached the server yet.'' False), db)
      | Some serverId \<Rightarrow>
          if lu_attachedAt u \<noteq> None then attach_uploads api cx draftId known us db
          else
            (case (case known of
                     Some ids \<Rightarrow> (Inr ids, db)
                   | None \<Rightarrow> (wa_listUploads api (of_requests db) draftId, log_request cx None (Req_List draftId) db)) of
               (Inl e, db1) \<Rightarrow> (Some (classifyReplayFailure e False), db1)
             | (Inr ids, db1) \<Rightarrow>
                 if serverId \<in> set ids then
                   attach_uploads api cx draftId (Some ids) us
                     (markUploadAttached (device_now cx db1) (lu_localId u) db1)
                 else
                   (let db2 = stamped cx (Req_Attach draftId serverId) db1 in
                    case wa_attach api (of_requests db1) draftId serverId of
                      Inl e \<Rightarrow> (Some (classifyReplayFailure e False), db2)
                    | Inr _ \<Rightarrow>
                        attach_uploads api cx draftId (Some ids) us
                          (markUploadAttached (device_now cx db2) (lu_localId u) db2))))"

definition port_queueSend :: "web_api \<Rightarrow> offline_ctx \<Rightarrow> string \<Rightarrow> string \<Rightarrow> int \<Rightarrow> replay" where
  "port_queueSend api cx draftId key base db =
     (case attach_uploads api cx draftId None (uploadsForDraft draftId db) db of
        (Some outcome, db1) \<Rightarrow> (outcome, db1)
      | (None, db1) \<Rightarrow>
          (case wa_send api (of_requests db1) draftId key base of
             Inr _ \<Rightarrow> (Re_Synced None None, stamped cx (Req_Send draftId key base) db1)
           | Inl e \<Rightarrow> (classifyReplayFailure e True, stamped cx (Req_Send draftId key base) db1)))"

definition port_runMailAction :: "web_api \<Rightarrow> offline_ctx \<Rightarrow> queued_payload \<Rightarrow> replay" where
  "port_runMailAction api cx payload db =
     (if payload_targets payload = [] then (Re_Failed ''The queued action held no targets.'', db)
      else
        (let body = mailActionBodyOf payload in
         case wa_action api (of_requests db) body of
           Inr _ \<Rightarrow> (Re_Synced None None, stamped cx (Req_Action body) db)
         | Inl e \<Rightarrow> (classifyReplayFailure e False, stamped cx (Req_Action body) db)))"

definition webOfflinePort :: "web_api \<Rightarrow> offline_ctx \<Rightarrow> offline_port" where
  "webOfflinePort api cx =
     \<lparr>op_saveDraft = Some (port_saveDraft api cx), op_uploadBytes = Some (port_uploadBytes api cx),
      op_queueSend = Some (port_queueSend api cx), op_runMailAction = Some (port_runMailAction api cx)\<rparr>"

section \<open>What the requests mean\<close>

text \<open>The kind of a queued flag change is the action kind whose desire is that flag and value.\<close>

lemma flag_kind_desire:
  "flagDesireOf (flag_kind flag val) = Some \<lparr>fd_flag = flag, fd_value = val\<rparr>"
  by (cases flag; cases val) (simp_all add: flag_kind_def flagDesireOf_def FLAG_KINDS_def)

end
