(* ===== verification/Offline_Properties.thy ===== *)
theory Offline_Properties
  imports Offline_Port "HOL-Library.Sublist"
begin

text \<open>
  The log of replays of the offline client, and the order and the stop of a replay pass
  (\<open>offline_replay_order\<close>).
\<close>

section \<open>Sorting by two keys\<close>

definition by_keys :: "('a \<Rightarrow> 'b::linorder) \<Rightarrow> ('a \<Rightarrow> 'c::linorder) \<Rightarrow> 'a list \<Rightarrow> bool" where
  "by_keys f g xs \<longleftrightarrow> sorted_wrt (\<lambda>a b. f a < f b \<or> f a = f b \<and> g a \<le> g b) xs"

lemma by_keys_insort: "by_keys f g ys \<Longrightarrow> \<forall>y \<in> set ys. g x \<le> g y \<Longrightarrow> by_keys f g (insort_key f x ys)"
proof (induction ys)
  case (Cons y ys)
  show ?case
  proof (cases "f x \<le> f y")
    case True
    have "f x < f z \<or> f x = f z \<and> g x \<le> g z" if "z \<in> set (y # ys)" for z
    proof -
      have "f y \<le> f z" using Cons.prems(1) that by (auto simp: by_keys_def)
      with True have "f x \<le> f z" by (rule order_trans)
      with Cons.prems(2) that show ?thesis by (auto simp: order_le_less)
    qed
    with True Cons.prems(1) show ?thesis by (simp add: by_keys_def)
  next
    case False
    with Cons show ?thesis by (auto simp: by_keys_def set_insort_key)
  qed
qed (simp add: by_keys_def)

lemma by_keys_sort: "by_keys f g (sort_key f (sort_key g xs))"
proof -
  have "by_keys f g (sort_key f zs)" if "sorted (map g zs)" for zs
    using that by (induction zs) (auto simp: by_keys_insort, simp add: by_keys_def)
  then show ?thesis by simp
qed

section \<open>The replay log\<close>

text \<open>Neither the port nor other callers write the log of replays.\<close>

definition port_keeps_log :: "offline_port \<Rightarrow> bool" where
  "port_keeps_log p \<longleftrightarrow>
     (\<forall>payload run db. handlerFor p payload = Some run \<longrightarrow> of_replays (snd (run db)) = of_replays db)"

definition rely_keeps_log :: "offline_ctx \<Rightarrow> bool" where
  "rely_keeps_log cx \<longleftrightarrow>
     (\<forall>k db. of_replays (oc_rely cx k db) = of_replays db \<and> of_replays (oc_during cx k db) = of_replays db)"

lemma updateAction_frame [simp]:
  "of_replays (updateAction i f db) = of_replays db" "of_uploads (updateAction i f db) = of_uploads db"
  "of_drafts (updateAction i f db) = of_drafts db" "of_requests (updateAction i f db) = of_requests db"
  "of_serverGeneration (updateAction i f db) = of_serverGeneration db"
  by (simp_all add: updateAction_def)

lemma putLocalDraft_frame [simp]:
  "of_replays (putLocalDraft now d db) = of_replays db" "of_uploads (putLocalDraft now d db) = of_uploads db"
  "of_queue (putLocalDraft now d db) = of_queue db" "of_requests (putLocalDraft now d db) = of_requests db"
  "of_serverGeneration (putLocalDraft now d db) = of_serverGeneration db"
  by (simp_all add: putLocalDraft_def)

lemma updateUpload_frame [simp]:
  "of_replays (updateUpload i f db) = of_replays db" "of_queue (updateUpload i f db) = of_queue db"
  "of_drafts (updateUpload i f db) = of_drafts db" "of_requests (updateUpload i f db) = of_requests db"
  "of_serverGeneration (updateUpload i f db) = of_serverGeneration db"
  by (simp_all add: updateUpload_def)

lemma mark_frames [simp]:
  "of_replays (markUploadAcknowledged i s db) = of_replays db" "of_queue (markUploadAcknowledged i s db) = of_queue db"
  "of_replays (markUploadAttached now i db) = of_replays db" "of_queue (markUploadAttached now i db) = of_queue db"
  "of_requests (markUploadAttached now i db) = of_requests db"
  "of_serverGeneration (markUploadAttached now i db) = of_serverGeneration db"
  by (simp_all add: markUploadAcknowledged_def markUploadAttached_def)

lemma chain_forward_frame [simp]:
  "of_replays (chain_forward d r pending db) = of_replays db" "of_uploads (chain_forward d r pending db) = of_uploads db"
  "of_drafts (chain_forward d r pending db) = of_drafts db"
  "of_serverGeneration (chain_forward d r pending db) = of_serverGeneration db"
proof -
  have "of_replays (fold (\<lambda>e. updateAction (qe_localId e) (g e)) es db) = of_replays db \<and>
      of_uploads (fold (\<lambda>e. updateAction (qe_localId e) (g e)) es db) = of_uploads db \<and>
      of_drafts (fold (\<lambda>e. updateAction (qe_localId e) (g e)) es db) = of_drafts db \<and>
      of_serverGeneration (fold (\<lambda>e. updateAction (qe_localId e) (g e)) es db) = of_serverGeneration db"
    for g :: "queued_entry \<Rightarrow> queued_entry \<Rightarrow> queued_entry" and es
    by (induction es arbitrary: db) simp_all
  then show "of_replays (chain_forward d r pending db) = of_replays db"
    "of_uploads (chain_forward d r pending db) = of_uploads db" "of_drafts (chain_forward d r pending db) = of_drafts db"
    "of_serverGeneration (chain_forward d r pending db) = of_serverGeneration db"
    by (simp_all add: chain_forward_def)
qed

lemma settleSynced_log [simp]: "of_replays (settleSynced now a r u db) = of_replays db"
  by (simp add: settleSynced_def settle_save_def settle_send_def Let_def split: queued_payload.split option.split)

lemma reconcile_orphans_log [simp]: "of_replays (reconcile_orphans cx us db) = of_replays db"
  by (induction us arbitrary: db) (simp_all add: enqueueEntry_def Let_def)

lemma reconcileOrphanedUploads_log [simp]: "of_replays (reconcileOrphanedUploads cx db) = of_replays db"
  by (simp add: reconcileOrphanedUploads_def)

lemma prune_log [simp]:
  "of_replays (pruneSettledLocalRecords ms now db) = of_replays db" "of_replays (pruneSyncedActions k db) = of_replays db"
  by (simp_all add: pruneSettledLocalRecords_def pruneSyncedActions_def Let_def)

definition same_generation :: "string \<Rightarrow> queued_entry list \<Rightarrow> queued_entry list" where
  "same_generation g actions = takeWhile (\<lambda>a. qe_recoveryGeneration a = g) actions"

lemma pass_rows_log:
  assumes "port_keeps_log p" and "rely_keeps_log cx"
  shows "\<exists>new. of_replays (snd (pass_rows p cx g actions report db)) = of_replays db @ new \<and>
    subseq (map (\<lambda>x. qe_localId (fst x)) new) (map qe_localId (same_generation g actions)) \<and>
    (\<forall>x \<in> set new. qe_state (fst x) = Qu_Pending)"
proof (induction actions arbitrary: report db)
  case (Cons a actions)
  let ?goal = "\<lambda>db'. \<exists>new. of_replays db' = of_replays db @ new \<and>
    subseq (map (\<lambda>x. qe_localId (fst x)) new) (map qe_localId (same_generation g (a # actions))) \<and>
    (\<forall>x \<in> set new. qe_state (fst x) = Qu_Pending)"
  show ?case
  proof (cases "qe_recoveryGeneration a = g")
    case False
    then show ?thesis by (simp add: same_generation_def)
  next
    case True
    have skip: "?goal (snd (pass_rows p cx g actions report db))"
    proof -
      from Cons.IH [of report db] obtain new where n: "of_replays (snd (pass_rows p cx g actions report db)) = of_replays db @ new"
        "subseq (map (\<lambda>x. qe_localId (fst x)) new) (map qe_localId (same_generation g actions))"
        "\<forall>x \<in> set new. qe_state (fst x) = Qu_Pending" by blast
      from n(2) have "subseq (map (\<lambda>x. qe_localId (fst x)) new) (qe_localId a # map qe_localId (same_generation g actions))"
        by (rule list_emb_Cons)
      with n True show ?thesis by (intro exI [of _ new]) (simp add: same_generation_def)
    qed
    consider (none) "getAction (qe_localId a) db = None"
      | (other) q where "getAction (qe_localId a) db = Some q" "qe_state q \<noteq> Qu_Pending"
      | (blocked) q where "getAction (qe_localId a) db = Some q" "qe_state q = Qu_Pending" "handlerFor p (qe_payload q) = None"
      | (run) q run where "getAction (qe_localId a) db = Some q" "qe_state q = Qu_Pending" "handlerFor p (qe_payload q) = Some run"
      by (cases "getAction (qe_localId a) db"; cases "handlerFor p (qe_payload (the (getAction (qe_localId a) db)))") auto
    then show ?thesis
    proof cases
      case none
      with True skip show ?thesis by simp
    next
      case other
      with True skip show ?thesis by simp
    next
      case blocked
      with True skip show ?thesis by simp
    next
      case (run q run)
      let ?db1 = "log_replay q (updateAction (qe_localId a) (add_attempt a) db)"
      let ?out = "fst (run ?db1)"
      let ?db3 = "oc_rely cx (length (of_replays db)) (snd (run ?db1))"
      have "of_replays (snd (run ?db1)) = of_replays ?db1" using assms(1) run(3) by (simp add: port_keeps_log_def)
      then have l3: "of_replays ?db3 = of_replays db @ [(q, of_serverGeneration db)]"
        using assms(2) by (simp add: rely_keeps_log_def log_replay_def)
      have id: "qe_localId q = qe_localId a" using run(1) by (auto simp: getAction_def dest: key_get_some)
      have go: "?goal (snd (pass_rows p cx g actions rep db'))" if l: "of_replays db' = of_replays ?db3" for rep db'
      proof -
        from Cons.IH [of rep db'] obtain new where n: "of_replays (snd (pass_rows p cx g actions rep db')) = of_replays db' @ new"
          "subseq (map (\<lambda>x. qe_localId (fst x)) new) (map qe_localId (same_generation g actions))"
          "\<forall>x \<in> set new. qe_state (fst x) = Qu_Pending" by blast
        with l l3 True run(2) id show ?thesis
          by (intro exI [of _ "(q, of_serverGeneration db) # new"]) (simp add: same_generation_def)
      qed
      have stop: "?goal db'" if "of_replays db' = of_replays ?db3" for db'
        using that l3 True run(2) id by (intro exI [of _ "[(q, of_serverGeneration db)]"]) (simp add: same_generation_def)
      let ?counted = "report\<lparr>sr_attempted := sr_attempted report + 1\<rparr>"
      have eq: "pass_rows p cx g (a # actions) report db =
        (case ?out of
           Re_Synced revision uploadId \<Rightarrow>
             pass_rows p cx g actions (?counted\<lparr>sr_synced := sr_synced report + 1\<rparr>)
               (settleSynced (device_now cx ?db3) q revision uploadId ?db3)
         | Re_Failed reason \<Rightarrow>
             pass_rows p cx g actions ?counted
               (updateAction (qe_localId a) (\<lambda>x. x\<lparr>qe_state := Qu_Failed, qe_failure := Some reason\<rparr>) ?db3)
         | Re_Review reason \<Rightarrow>
             pass_rows p cx g actions ?counted (updateAction (qe_localId a) (to_review reason) ?db3)
         | Re_Retry reason signIn \<Rightarrow>
             if signIn then (?counted\<lparr>sr_pausedForSignIn := True\<rparr>, ?db3\<lparr>of_signInRequired := Some True\<rparr>)
             else pass_rows p cx g actions ?counted ?db3)"
        using True run by (simp add: Let_def case_prod_unfold)
      show ?thesis
      proof (cases ?out)
        case (Re_Retry reason signIn)
        show ?thesis
        proof (cases signIn)
          case True
          show ?thesis unfolding eq Re_Retry replay_outcome.case if_P [OF True] snd_conv by (rule stop) simp
        next
          case False
          show ?thesis unfolding eq Re_Retry replay_outcome.case if_not_P [OF False] by (rule go) simp
        qed
      qed (unfold eq, simp_all only: replay_outcome.case, (rule go, simp)+)
    qed
  qed
qed (simp add: same_generation_def)

text \<open>
  C20. Replay is oldest first and stops at a restore. Whatever the port answers and other callers do
  meanwhile, a pass hands to the port, each at most once and in the order of the queue, only entries
  that stand before the first one of another generation, and each is still pending in the store when
  it is handed over. The order is by queueing time; at equal times files come before drafts, and
  drafts before sends.
\<close>

theorem offline_replay_order:
  assumes "port_keeps_log p" and "rely_keeps_log cx" and "of_serverGeneration db = Some g"
    and "queue = pendingActions (reconcileOrphanedUploads cx (db\<lparr>of_signInRequired := Some False\<rparr>))"
  shows "by_keys qe_queuedAt (\<lambda>a. replayRank (qe_payload a)) queue \<and>
    (\<exists>new. of_replays (snd (runPass p cx db)) = of_replays db @ new \<and>
      subseq (map (\<lambda>x. qe_localId (fst x)) new) (map qe_localId (same_generation g queue)) \<and>
      (\<forall>x \<in> set new. qe_state (fst x) = Qu_Pending))"
proof
  show "by_keys qe_queuedAt (\<lambda>a. replayRank (qe_payload a)) queue"
    unfolding assms(4) pendingActions_def by (rule by_keys_sort)
  show "\<exists>new. of_replays (snd (runPass p cx db)) = of_replays db @ new \<and>
      subseq (map (\<lambda>x. qe_localId (fst x)) new) (map qe_localId (same_generation g queue)) \<and>
      (\<forall>x \<in> set new. qe_state (fst x) = Qu_Pending)"
    using pass_rows_log [OF assms(1,2), of g queue no_report "reconcileOrphanedUploads cx (db\<lparr>of_signInRequired := Some False\<rparr>)"]
    by (simp add: runPass_def assms(3,4) Let_def case_prod_unfold)
qed

end
