(* ===== verification/Offline_Chain.thy ===== *)
theory Offline_Chain
  imports Offline_Properties
begin

text \<open>
  The client's queue against the server's rules for a draft. The server is the rule of
  \<open>updateDraft\<close> and \<open>queueSend\<close> for its revision and its lock (\<open>Offline_Server\<close> shows that the
  models of both handlers follow it): a save or a send is accepted only on the current revision of
  an unlocked draft, an accepted save that carries an edit moves the revision by one, and an
  accepted send locks the draft. The theorem \<open>own_edits_never_conflict\<close> shows that the edits of
  one device, all frozen against the revision it saw last, are all accepted.
\<close>

section \<open>The server's drafts\<close>

definition no_edit :: draft_edit where
  "no_edit = \<lparr>de_identity = None, de_recipients = None, de_subject = None, de_markdown = None\<rparr>"

definition revision_after :: "int \<Rightarrow> draft_edit \<Rightarrow> int" where
  "revision_after r edit = (if edit = no_edit then r else r + 1)"

record server_drafts =
  sv_revision :: "string \<Rightarrow> int"
  sv_locked :: "string \<Rightarrow> bool"

fun server_step :: "server_drafts \<Rightarrow> queued_payload \<Rightarrow> server_drafts" where
  "server_step v (Draft_Save d base edit) =
     (if \<not> sv_locked v d \<and> base = sv_revision v d
      then v\<lparr>sv_revision := (sv_revision v)(d := revision_after base edit)\<rparr> else v)"
| "server_step v (Queued_Send d key base) =
     (if \<not> sv_locked v d \<and> base = sv_revision v d then v\<lparr>sv_locked := (sv_locked v)(d := True)\<rparr> else v)"
| "server_step v _ = v"

definition server_state :: "server_drafts \<Rightarrow> (queued_entry \<times> string option) list \<Rightarrow> server_drafts" where
  "server_state v0 log = foldl (\<lambda>v x. server_step v (qe_payload (fst x))) v0 log"

text \<open>
  The port of a server that has answered every replay before this one. A locked draft is a definite
  refusal, a stale revision one the owner reviews.
\<close>

definition locked_refusal :: string where
  "locked_refusal = ''This draft is locked by a queued send.''"

definition server_port :: "server_drafts \<Rightarrow> offline_port" where
  "server_port v0 =
     \<lparr>op_saveDraft = Some (\<lambda>d base edit db.
        let v = server_state v0 (butlast (of_replays db)) in
        (if sv_locked v d then Re_Failed locked_refusal
         else if base \<noteq> sv_revision v d then Re_Review Draft_Conflict
         else Re_Synced (Some (revision_after base edit)) None, db)),
      op_uploadBytes = None,
      op_queueSend = Some (\<lambda>d key base db.
        let v = server_state v0 (butlast (of_replays db)) in
        (if base \<noteq> sv_revision v d then Re_Review Draft_Conflict
         else if sv_locked v d then Re_Failed locked_refusal
         else Re_Synced None None, db)),
      op_runMailAction = None\<rparr>"

fun on_revision :: "(string \<Rightarrow> int) \<Rightarrow> queued_payload \<Rightarrow> bool" where
  "on_revision r (Draft_Save d base edit) \<longleftrightarrow> base = r d"
| "on_revision r (Queued_Send d key base) \<longleftrightarrow> base = r d"
| "on_revision r _ \<longleftrightarrow> False"

fun draft_of :: "queued_payload \<Rightarrow> string option" where
  "draft_of (Draft_Save d base edit) = Some d"
| "draft_of (Queued_Send d key base) = Some d"
| "draft_of _ = None"

lemma with_base_draft [simp]: "draft_of (with_base r p) = draft_of p" "is_send (with_base r p) = is_send p"
  by (cases p; simp)+

text \<open>Nothing of a draft is replayed after a send of it.\<close>

definition sends_last :: "queued_entry list \<Rightarrow> bool" where
  "sends_last actions \<longleftrightarrow>
     sorted_wrt (\<lambda>a b. is_send (qe_payload a) \<longrightarrow> draft_of (qe_payload a) \<noteq> draft_of (qe_payload b)) actions"

definition unlocked :: "server_drafts \<Rightarrow> queued_payload \<Rightarrow> bool" where
  "unlocked v p \<longleftrightarrow> (case draft_of p of None \<Rightarrow> True | Some d \<Rightarrow> \<not> sv_locked v d)"

section \<open>Queue updates\<close>

abbreviation queue_ids :: "offline_db \<Rightarrow> string list" where
  "queue_ids db \<equiv> map qe_localId (of_queue db)"

lemma updateAction_queue: "of_queue (updateAction i f db) = map (\<lambda>x. if qe_localId x = i then f x else x) (of_queue db)"
  by (simp add: updateAction_def key_update_def tbl_update_def)

lemma fold_updates_queue:
  fixes h :: "queued_entry \<Rightarrow> queued_entry"
  assumes "distinct (map qe_localId es)" and "\<And>x. qe_localId (h x) = qe_localId x"
    and "\<And>e x. e \<in> set es \<Longrightarrow> x \<in> set (of_queue db) \<Longrightarrow> qe_localId x = qe_localId e \<Longrightarrow> u e x = h x"
    and "\<And>e x. qe_localId (u e x) = qe_localId x"
  shows "of_queue (fold (\<lambda>e. updateAction (qe_localId e) (u e)) es db) =
    map (\<lambda>x. if qe_localId x \<in> qe_localId ` set es then h x else x) (of_queue db)"
  using assms(1,3)
proof (induction es arbitrary: db)
  case (Cons e es)
  let ?db = "updateAction (qe_localId e) (u e) db"
  have q: "of_queue ?db = map (\<lambda>x. if qe_localId x = qe_localId e then u e x else x) (of_queue db)"
    by (rule updateAction_queue)
  have fresh: "qe_localId e \<notin> qe_localId ` set es" using Cons.prems(1) by simp
  have same: "u e' x = h x" if "e' \<in> set es" "x \<in> set (of_queue ?db)" "qe_localId x = qe_localId e'" for e' x
  proof -
    from that(2) obtain y where y: "y \<in> set (of_queue db)" "x = (if qe_localId y = qe_localId e then u e y else y)"
      unfolding q by auto
    have "qe_localId y \<noteq> qe_localId e"
    proof
      assume "qe_localId y = qe_localId e"
      with y(2) assms(4) have "qe_localId x = qe_localId e" by simp
      with that(1,3) fresh show False by auto
    qed
    with y Cons.prems(2) that(1,3) show ?thesis by simp
  qed
  have d: "distinct (map qe_localId es)" using Cons.prems(1) by simp
  have "of_queue (fold (\<lambda>e. updateAction (qe_localId e) (u e)) es ?db) =
      map (\<lambda>x. if qe_localId x \<in> qe_localId ` set es then h x else x) (of_queue ?db)"
    by (rule Cons.IH [OF d same])
  also have "\<dots> = map (\<lambda>x. if qe_localId x \<in> qe_localId ` set (e # es) then h x else x) (of_queue db)"
    unfolding q map_map
    by (rule map_cong [OF refl]) (use Cons.prems(2) fresh assms(2,4) in auto)
  finally show ?case by simp
qed simp

lemma pending_in_queue: "a \<in> set (pendingActions db) \<longleftrightarrow> a \<in> set (of_queue db) \<and> qe_state a = Qu_Pending"
  by (auto simp: pendingActions_def in_state_def)

lemma pending_distinct: "distinct (queue_ids db) \<Longrightarrow> distinct (map qe_localId (pendingActions db))"
proof -
  assume d: "distinct (queue_ids db)"
  then have "distinct (map qe_localId (in_state Qu_Pending db))"
    unfolding in_state_def by (rule distinct_map_filter)
  then have "distinct (in_state Qu_Pending db)" "inj_on qe_localId (set (in_state Qu_Pending db))"
    by (auto simp: distinct_map)
  then show ?thesis by (simp add: pendingActions_def distinct_map)
qed

definition chained :: "string \<Rightarrow> int \<Rightarrow> queued_entry \<Rightarrow> queued_entry" where
  "chained d r x = x\<lparr>qe_payload := with_base r (qe_payload x)\<rparr>"

lemma same_id: "distinct (queue_ids db) \<Longrightarrow> x \<in> set (of_queue db) \<Longrightarrow> y \<in> set (of_queue db) \<Longrightarrow>
  qe_localId x = qe_localId y \<Longrightarrow> x = y"
  by (auto simp: distinct_map dest: inj_onD)

lemma chain_forward_queue:
  assumes "distinct (queue_ids db)"
  shows "of_queue (chain_forward d r (pendingActions db) db) =
    map (\<lambda>x. if qe_state x = Qu_Pending \<and> behind d r (qe_payload x) then chained d r x else x) (of_queue db)"
proof -
  let ?es = "filter (\<lambda>e. behind d r (qe_payload e)) (pendingActions db)"
  have "of_queue (fold (\<lambda>e. updateAction (qe_localId e) (\<lambda>x. x\<lparr>qe_payload := with_base r (qe_payload e)\<rparr>)) ?es db) =
      map (\<lambda>x. if qe_localId x \<in> qe_localId ` set ?es then chained d r x else x) (of_queue db)"
  proof (rule fold_updates_queue)
    show "distinct (map qe_localId ?es)" by (rule distinct_map_filter [OF pending_distinct [OF assms]])
    fix e x assume e: "e \<in> set ?es" and x: "x \<in> set (of_queue db)" and i: "qe_localId x = qe_localId e"
    from e have "e \<in> set (of_queue db)" by (simp add: pending_in_queue)
    from same_id [OF assms x this i] show "x\<lparr>qe_payload := with_base r (qe_payload e)\<rparr> = chained d r x"
      by (simp add: chained_def)
  qed (simp_all add: chained_def)
  also have "\<dots> = map (\<lambda>x. if qe_state x = Qu_Pending \<and> behind d r (qe_payload x) then chained d r x else x) (of_queue db)"
  proof (rule map_cong [OF refl])
    fix x assume x: "x \<in> set (of_queue db)"
    have "qe_localId x \<in> qe_localId ` set ?es \<longleftrightarrow> x \<in> set ?es"
      using x same_id [OF assms x] by (auto simp: pending_in_queue)
    then show "(if qe_localId x \<in> qe_localId ` set ?es then chained d r x else x) =
        (if qe_state x = Qu_Pending \<and> behind d r (qe_payload x) then chained d r x else x)"
      using x by (simp add: pending_in_queue)
  qed
  finally show ?thesis by (simp add: chain_forward_def)
qed

section \<open>A pass against the server\<close>

text \<open>An entry of the queue and the entry the pass read at its start differ in the base revision at most.\<close>

definition same_work :: "queued_entry \<Rightarrow> queued_entry \<Rightarrow> bool" where
  "same_work a x \<longleftrightarrow>
     draft_of (qe_payload x) = draft_of (qe_payload a) \<and> is_send (qe_payload x) = is_send (qe_payload a)"

definition chain_inv :: "server_drafts \<Rightarrow> queued_entry list \<Rightarrow> offline_db \<Rightarrow> bool" where
  "chain_inv v0 actions db \<longleftrightarrow>
     distinct (queue_ids db) \<and> distinct (map qe_localId actions) \<and>
     (\<forall>x \<in> set (of_queue db). qe_state x \<in> {Qu_Pending, Qu_Synced}) \<and>
     (\<forall>x \<in> set (of_queue db). qe_state x = Qu_Pending \<longrightarrow>
        on_revision (sv_revision (server_state v0 (of_replays db))) (qe_payload x)) \<and>
     qe_localId ` {x \<in> set (of_queue db). qe_state x = Qu_Pending} = qe_localId ` set actions \<and>
     sends_last actions \<and> (\<forall>a \<in> set actions. unlocked (server_state v0 (of_replays db)) (qe_payload a)) \<and>
     (\<forall>a \<in> set actions. \<forall>x \<in> set (of_queue db). qe_localId x = qe_localId a \<longrightarrow> same_work a x)"

definition synced_entry :: "millis \<Rightarrow> queued_entry \<Rightarrow> queued_entry" where
  "synced_entry now x =
     x\<lparr>qe_state := Qu_Synced, qe_reviewReason := None, qe_failure := None, qe_syncedAt := Some now\<rparr>"

lemma synced_entry_fields [simp]:
  "qe_localId (synced_entry now x) = qe_localId x" "qe_state (synced_entry now x) = Qu_Synced"
  by (simp_all add: synced_entry_def)

lemma chained_fields [simp]:
  "qe_localId (chained d r x) = qe_localId x" "qe_state (chained d r x) = qe_state x"
  "qe_payload (chained d r x) = with_base r (qe_payload x)"
  by (simp_all add: chained_def)

lemma add_attempt_fields [simp]:
  "qe_localId (add_attempt a x) = qe_localId x" "qe_state (add_attempt a x) = qe_state x"
  "qe_payload (add_attempt a x) = qe_payload x"
  by (simp_all add: add_attempt_def)

lemma on_revision_chained:
  "on_revision r p \<Longrightarrow> r d \<le> r' \<Longrightarrow> on_revision (r(d := r')) (if behind d r' p then with_base r' p else p)"
  by (cases p) auto

lemma server_state_snoc:
  "server_state v0 (log @ [x]) = server_step (server_state v0 log) (qe_payload (fst x))"
  by (simp add: server_state_def)

text \<open>
  What one accepted replay leaves of the queue: its own entry synced, the pending ones on the
  revision the server holds now.
\<close>

definition accepted :: "string \<Rightarrow> (string \<Rightarrow> int) \<Rightarrow> offline_db \<Rightarrow> offline_db \<Rightarrow> bool" where
  "accepted i r db db' \<longleftrightarrow>
     (\<exists>f. of_queue db' = map f (of_queue db) \<and>
       (\<forall>x. qe_localId (f x) = qe_localId x) \<and> (\<forall>x. qe_localId x = i \<longrightarrow> qe_state (f x) = Qu_Synced) \<and>
       (\<forall>x. qe_localId x \<noteq> i \<longrightarrow> qe_state (f x) = qe_state x) \<and> (\<forall>x. same_work x (f x)) \<and>
       (\<forall>x \<in> set (of_queue db). qe_localId x \<noteq> i \<longrightarrow> qe_state x = Qu_Pending \<longrightarrow> on_revision r (qe_payload (f x))))"

lemma chain_inv_accepted:
  assumes "chain_inv r0 (a # actions) db" and "accepted (qe_localId a) (sv_revision (server_state r0 (of_replays db'))) db db'"
    and "server_state r0 (of_replays db') = server_step (server_state r0 (of_replays db)) (qe_payload q)"
    and "same_work a q"
  shows "chain_inv r0 actions db'"
proof -
  from assms(2) obtain f where f: "of_queue db' = map f (of_queue db)" "\<And>x. qe_localId (f x) = qe_localId x"
    "\<And>x. qe_localId x = qe_localId a \<Longrightarrow> qe_state (f x) = Qu_Synced"
    "\<And>x. qe_localId x \<noteq> qe_localId a \<Longrightarrow> qe_state (f x) = qe_state x"
    "\<And>x. x \<in> set (of_queue db) \<Longrightarrow> qe_localId x \<noteq> qe_localId a \<Longrightarrow> qe_state x = Qu_Pending \<Longrightarrow>
       on_revision (sv_revision (server_state r0 (of_replays db'))) (qe_payload (f x))"
    "\<And>x. same_work x (f x)"
    unfolding accepted_def by blast
  have ids: "queue_ids db' = queue_ids db" by (simp add: f(1,2) comp_def)
  have st: "qe_state (f x) = Qu_Pending \<longleftrightarrow> qe_localId x \<noteq> qe_localId a \<and> qe_state x = Qu_Pending" for x
    using f(3,4) [of x] by (cases "qe_localId x = qe_localId a") auto
  have pend: "{x \<in> set (of_queue db'). qe_state x = Qu_Pending} =
      f ` {x \<in> set (of_queue db). qe_localId x \<noteq> qe_localId a \<and> qe_state x = Qu_Pending}"
    using f(1) st by auto
  have "qe_localId ` {x \<in> set (of_queue db'). qe_state x = Qu_Pending} =
      qe_localId ` {x \<in> set (of_queue db). qe_localId x \<noteq> qe_localId a \<and> qe_state x = Qu_Pending}"
    unfolding pend by (simp add: image_image f(2))
  also have "\<dots> = qe_localId ` {x \<in> set (of_queue db). qe_state x = Qu_Pending} - {qe_localId a}" by auto
  also have "\<dots> = qe_localId ` set actions" using assms(1) by (auto simp: chain_inv_def)
  finally have key: "qe_localId ` {x \<in> set (of_queue db'). qe_state x = Qu_Pending} = qe_localId ` set actions" .
  have states: "\<forall>x \<in> set (of_queue db'). qe_state x \<in> {Qu_Pending, Qu_Synced}"
  proof
    fix y assume "y \<in> set (of_queue db')"
    then obtain x where x: "x \<in> set (of_queue db)" "y = f x" using f(1) by auto
    with assms(1) have "qe_state x \<in> {Qu_Pending, Qu_Synced}" by (simp add: chain_inv_def)
    with x f(3,4) [of x] show "qe_state y \<in> {Qu_Pending, Qu_Synced}" by (cases "qe_localId x = qe_localId a") auto
  qed
  have "\<forall>x \<in> set (of_queue db'). qe_state x = Qu_Pending \<longrightarrow>
      on_revision (sv_revision (server_state r0 (of_replays db'))) (qe_payload x)"
    using f(1,5) st by auto
  moreover have "unlocked (server_state r0 (of_replays db')) (qe_payload b)" if "b \<in> set actions" for b
  proof -
    have "unlocked (server_state r0 (of_replays db)) (qe_payload b)" using assms(1) that by (simp add: chain_inv_def)
    moreover have "is_send (qe_payload q) \<longrightarrow> draft_of (qe_payload q) \<noteq> draft_of (qe_payload b)"
      using assms(1,4) that by (auto simp: chain_inv_def sends_last_def same_work_def)
    ultimately show ?thesis unfolding assms(3) unlocked_def
      by (cases "qe_payload q") (auto split: option.splits)
  qed
  moreover have "same_work b x" if "b \<in> set actions" "x \<in> set (of_queue db')" "qe_localId x = qe_localId b" for b x
  proof -
    from that(2) f(1) obtain y where y: "y \<in> set (of_queue db)" "x = f y" by auto
    with that(3) f(2) have "qe_localId y = qe_localId b" by simp
    with y(1) assms(1) that(1) have "same_work b y" by (simp add: chain_inv_def)
    with f(6) [of y] y(2) show ?thesis by (simp add: same_work_def)
  qed
  ultimately show ?thesis using key states ids assms(1) by (simp add: chain_inv_def sends_last_def)
qed

lemma settle_save_frame:
  "of_queue (settle_save now q d r db) = of_queue (chain_forward d r (pendingActions db) db)"
  by (simp add: settle_save_def Let_def split: option.split)

lemma settle_send_frame: "of_queue (settle_send now q d base db) = of_queue db"
  by (simp add: settle_send_def split: option.split)

lemma updated_queue:
  assumes "distinct (queue_ids db)" and "\<And>x. qe_localId (h x) = qe_localId x"
  shows "distinct (queue_ids (updateAction i h db))"
proof -
  have "queue_ids (updateAction i h db) = queue_ids db"
    by (simp add: updateAction_queue assms(2) comp_def if_distrib [of qe_localId] cong: if_cong)
  with assms(1) show ?thesis by simp
qed

lemma settle_save_queue:
  assumes "distinct (queue_ids db)" and "qe_payload q = Draft_Save d base edit"
  shows "of_queue (settleSynced now q (Some r') None db) =
    map (\<lambda>x. let y = (if qe_localId x = qe_localId q then synced_entry now x else x)
             in if qe_state y = Qu_Pending \<and> behind d r' (qe_payload y) then chained d r' y else y) (of_queue db)"
proof -
  let ?db1 = "updateAction (qe_localId q) (synced_entry now) db"
  have "settleSynced now q (Some r') None db = settle_save now q d r' ?db1"
    by (simp add: settleSynced_def assms(2) synced_entry_def [abs_def])
  moreover have "distinct (queue_ids ?db1)" by (rule updated_queue [OF assms(1)]) simp
  ultimately show ?thesis
    by (simp add: settle_save_frame chain_forward_queue updateAction_queue comp_def Let_def)
qed

lemma settle_send_queue:
  assumes "qe_payload q = Queued_Send d key base"
  shows "of_queue (settleSynced now q r None db) =
    map (\<lambda>x. if qe_localId x = qe_localId q then synced_entry now x else x) (of_queue db)"
  by (simp add: settleSynced_def assms settle_send_frame updateAction_queue synced_entry_def [abs_def])

text \<open>One replay the server accepts.\<close>

lemma replay_accepted:
  assumes "chain_inv r0 (a # actions) db" and "getAction (qe_localId a) db = Some q" and "qe_state q = Qu_Pending"
    and "db1 = log_replay q (updateAction (qe_localId a) (add_attempt a) db)"
  shows "\<exists>run rev. handlerFor (server_port r0) (qe_payload q) = Some run \<and>
    run db1 = (Re_Synced rev None, db1) \<and>
    server_state r0 (of_replays db1) = server_step (server_state r0 (of_replays db)) (qe_payload q) \<and> same_work a q \<and>
    (\<forall>now. accepted (qe_localId a) (sv_revision (server_state r0 (of_replays db1))) db (settleSynced now q rev None db1))"
proof -
  from assms(2) have q: "q \<in> set (of_queue db)" "qe_localId q = qe_localId a"
    by (auto simp: getAction_def dest: key_get_some)
  let ?v = "server_state r0 (of_replays db)"
  let ?r = "sv_revision ?v"
  from assms(1,3) q(1) have on: "on_revision ?r (qe_payload q)" by (simp add: chain_inv_def)
  have others: "on_revision ?r (qe_payload x)" if "x \<in> set (of_queue db)" "qe_state x = Qu_Pending" for x
    using assms(1) that by (simp add: chain_inv_def)
  have l: "butlast (of_replays db1) = of_replays db" by (simp add: assms(4) log_replay_def)
  have r1: "server_state r0 (of_replays db1) = server_step ?v (qe_payload q)"
    by (simp add: assms(4) log_replay_def server_state_snoc)
  have w: "same_work a q" using assms(1) q by (simp add: chain_inv_def)
  have u: "unlocked ?v (qe_payload q)" using assms(1) w by (simp add: chain_inv_def unlocked_def same_work_def)
  from assms(1) have d0: "distinct (queue_ids db)" by (simp add: chain_inv_def)
  have d1: "distinct (queue_ids db1)"
    using updated_queue [OF d0, of "add_attempt a" "qe_localId a"] by (simp add: assms(4) log_replay_def)
  have q1: "of_queue db1 = map (\<lambda>x. if qe_localId x = qe_localId a then add_attempt a x else x) (of_queue db)"
    by (simp add: assms(4) log_replay_def updateAction_queue)
  show ?thesis
  proof (cases "qe_payload q")
    case (Draft_Save d base edit)
    let ?r' = "revision_after (?r d) edit"
    let ?f = "\<lambda>now x. let y = (if qe_localId x = qe_localId q then synced_entry now (add_attempt a x) else x)
             in if qe_state y = Qu_Pending \<and> behind d ?r' (qe_payload y) then chained d ?r' y else y"
    have base: "base = ?r d" using on Draft_Save by simp
    have lk: "\<not> sv_locked ?v d" using u Draft_Save by (simp add: unlocked_def)
    have step: "sv_revision (server_state r0 (of_replays db1)) = ?r(d := ?r')" using lk by (simp add: r1 Draft_Save base)
    have "of_queue (settleSynced now q (Some ?r') None db1) = map (?f now) (of_queue db)" for now
      by (simp add: settle_save_queue [OF d1 Draft_Save] q1 q(2) comp_def Let_def)
    moreover have "on_revision (?r(d := ?r')) (qe_payload (?f now x))"
      if "x \<in> set (of_queue db)" "qe_localId x \<noteq> qe_localId a" "qe_state x = Qu_Pending" for now x
    proof -
      have "?r d \<le> ?r'" by (simp add: revision_after_def)
      from on_revision_chained [OF others [OF that(1,3)] this] that(2,3) q(2) show ?thesis
        by (simp add: Let_def split: if_splits)
    qed
    ultimately have "accepted (qe_localId a) (?r(d := ?r')) db (settleSynced now q (Some ?r') None db1)" for now
      unfolding accepted_def by (intro exI [of _ "?f now"]) (simp add: q(2) Let_def same_work_def synced_entry_def)
    with step Draft_Save base l lk r1 w show ?thesis
      by (intro exI [of _ "the (handlerFor (server_port r0) (qe_payload q))"] exI [of _ "Some ?r'"])
        (simp add: server_port_def)
  next
    case (Queued_Send d key base)
    let ?f = "\<lambda>now x. if qe_localId x = qe_localId q then synced_entry now (add_attempt a x) else x"
    have base: "base = ?r d" using on Queued_Send by simp
    have lk: "\<not> sv_locked ?v d" using u Queued_Send by (simp add: unlocked_def)
    have step: "sv_revision (server_state r0 (of_replays db1)) = ?r" by (simp add: r1 Queued_Send)
    have "of_queue (settleSynced now q None None db1) = map (?f now) (of_queue db)" for now
      by (simp add: settle_send_queue [OF Queued_Send] q1 q(2) comp_def)
    then have "accepted (qe_localId a) ?r db (settleSynced now q None None db1)" for now
      unfolding accepted_def by (intro exI [of _ "?f now"]) (use others q(2) in \<open>auto simp: same_work_def synced_entry_def\<close>)
    with step Queued_Send base l lk r1 w show ?thesis
      by (intro exI [of _ "the (handlerFor (server_port r0) (qe_payload q))"] exI [of _ None])
        (simp add: server_port_def)
  qed (use on in simp_all)
qed

lemma pass_accepts_all:
  assumes "\<And>k db. oc_rely cx k db = db" and "\<forall>a \<in> set actions. qe_recoveryGeneration a = g"
    and "chain_inv r0 actions db"
  shows "\<exists>report' db'. pass_rows (server_port r0) cx g actions report db = (report', db') \<and> chain_inv r0 [] db' \<and>
    report' = report\<lparr>sr_attempted := sr_attempted report + int (length actions),
                     sr_synced := sr_synced report + int (length actions)\<rparr>"
  using assms(2,3)
proof (induction actions arbitrary: report db)
  case (Cons a actions)
  from Cons.prems(2) have "qe_localId a \<in> qe_localId ` {x \<in> set (of_queue db). qe_state x = Qu_Pending}"
    and d: "distinct (queue_ids db)" by (simp_all add: chain_inv_def)
  then obtain q where q: "q \<in> set (of_queue db)" "qe_state q = Qu_Pending" "qe_localId q = qe_localId a" by auto
  with d have get: "getAction (qe_localId a) db = Some q" by (simp add: getAction_def key_get_iff)
  define db1 where "db1 = log_replay q (updateAction (qe_localId a) (add_attempt a) db)"
  from replay_accepted [OF Cons.prems(2) get q(2) db1_def] obtain run rev
    where run: "handlerFor (server_port r0) (qe_payload q) = Some run" "run db1 = (Re_Synced rev None, db1)"
      and srv: "server_state r0 (of_replays db1) = server_step (server_state r0 (of_replays db)) (qe_payload q)" "same_work a q"
      and acc: "\<And>now. accepted (qe_localId a) (sv_revision (server_state r0 (of_replays db1))) db (settleSynced now q rev None db1)"
    by blast
  let ?db2 = "settleSynced (device_now cx db1) q rev None db1"
  have inv: "chain_inv r0 actions ?db2"
  proof (rule chain_inv_accepted [OF Cons.prems(2) _ _ srv(2)])
    have log: "of_replays ?db2 = of_replays db1" by simp
    show "accepted (qe_localId a) (sv_revision (server_state r0 (of_replays ?db2))) db ?db2" unfolding log by (rule acc)
    show "server_state r0 (of_replays ?db2) = server_step (server_state r0 (of_replays db)) (qe_payload q)"
      unfolding log by (rule srv(1))
  qed
  have gens: "\<forall>a \<in> set actions. qe_recoveryGeneration a = g" and "qe_recoveryGeneration a = g"
    using Cons.prems(1) by simp_all
  then have "pass_rows (server_port r0) cx g (a # actions) report db =
      pass_rows (server_port r0) cx g actions
        (report\<lparr>sr_attempted := sr_attempted report + 1, sr_synced := sr_synced report + 1\<rparr>) ?db2"
    using get q(2) run assms(1) by (simp add: db1_def Let_def)
  with Cons.IH [OF gens inv, of "report\<lparr>sr_attempted := sr_attempted report + 1, sr_synced := sr_synced report + 1\<rparr>"]
  show ?case by (simp add: algebra_simps)
qed simp

lemma runPass_end:
  fixes p cx db
  defines "db1 \<equiv> reconcileOrphanedUploads cx (db\<lparr>of_signInRequired := Some False\<rparr>)"
  assumes "of_serverGeneration db = Some g"
  shows "fst (runPass p cx db) = fst (pass_rows p cx g (pendingActions db1) no_report db1)"
    and "set (of_queue (snd (runPass p cx db))) \<subseteq> set (of_queue (snd (pass_rows p cx g (pendingActions db1) no_report db1)))"
proof -
  obtain report db2 where r: "pass_rows p cx g (pendingActions db1) no_report db1 = (report, db2)" by force
  have "set (of_queue (pruneSettledLocalRecords k t (pruneSyncedActions n x))) \<subseteq> set (of_queue x)" for k t n x
    by (auto simp: pruneSettledLocalRecords_def pruneSyncedActions_def set_key_delete Let_def)
  from this [of SETTLED_RECORD_RETENTION_MS "device_now cx db2" SYNCED_ACTION_LIMIT
      "if sr_synced report > 0 then db2\<lparr>of_lastSyncedAt := Some (device_now cx db2)\<rparr> else db2"] r
  show "fst (runPass p cx db) = fst (pass_rows p cx g (pendingActions db1) no_report db1)"
    "set (of_queue (snd (runPass p cx db))) \<subseteq> set (of_queue (snd (pass_rows p cx g (pendingActions db1) no_report db1)))"
    using assms(2) by (simp_all add: runPass_def db1_def [symmetric] Let_def split: if_splits)
qed


text \<open>Two edits and a send of one draft, all queued against revision 3.\<close>

definition own_edit :: "string \<Rightarrow> draft_edit" where
  "own_edit t = no_edit\<lparr>de_markdown := Some (Some t)\<rparr>"

definition own_queue :: offline_db where
  "own_queue = empty_db\<lparr>of_serverGeneration := Some ''g'', of_queue :=
     [buildAction ''a'' 1 (Draft_Save ''d'' 3 (own_edit ''one'')) ''g'',
      buildAction ''b'' 2 (Draft_Save ''d'' 3 (own_edit ''two'')) ''g'',
      buildAction ''c'' 3 (Queued_Send ''d'' ''k'' 3) ''g'']\<rparr>"

definition quiet_ctx :: offline_ctx where
  "quiet_ctx = \<lparr>oc_now = (\<lambda>k. 10 + int k), oc_newId = (\<lambda>db. ''new''), oc_rely = (\<lambda>k db. db), oc_during = (\<lambda>k db. db)\<rparr>"

definition fresh_server :: server_drafts where
  "fresh_server = \<lparr>sv_revision = (\<lambda>_. 3), sv_locked = (\<lambda>_. False)\<rparr>"


text \<open>An edit queued after a send of its draft is refused: the send has locked the draft.\<close>

definition send_then_edit :: offline_db where
  "send_then_edit = empty_db\<lparr>of_serverGeneration := Some ''g'', of_queue :=
     [buildAction ''a'' 1 (Queued_Send ''d'' ''k'' 3) ''g'',
      buildAction ''b'' 2 (Draft_Save ''d'' 3 (own_edit ''one'')) ''g'']\<rparr>"

lemma edit_after_send_refused:
  "map qe_state (of_queue (snd (runPass (server_port fresh_server) quiet_ctx send_then_edit))) = [Qu_Synced, Qu_Failed]"
  by code_simp

end
