(* ===== verification/Offline_Contracts.thy ===== *)
theory Offline_Contracts
  imports Offline_Chain
begin

text \<open>
  What resolving a review item does (\<open>review_resolution\<close>), a concrete pass for the replay order,
  and two concrete runs of the queue: a send that leaves although the save before it was not
  stored (\<open>retried_save_lets_send_through\<close>), and a request whose generation header is newer than
  its action (\<open>request_outlives_generation\<close>).
\<close>

section \<open>Review items\<close>

text \<open>The payload a rebase is allowed to queue for an item of the review list.\<close>

fun may_replay :: "offline_ctx \<Rightarrow> offline_db \<Rightarrow> bool \<Rightarrow> bool \<Rightarrow> int option \<Rightarrow> queued_payload \<Rightarrow> queued_payload \<Rightarrow> bool" where
  "may_replay cx db compared warned shown (Queued_Send d key base) new \<longleftrightarrow>
     warned \<and> (\<exists>r \<ge> base. new = Queued_Send d (oc_newId cx db) r \<and>
       (\<forall>local. getLocalDraft d db = Some local \<longrightarrow> ld_baseRevision local \<le> r))"
| "may_replay cx db compared warned shown (Draft_Save d base edit) new \<longleftrightarrow>
     compared \<and> (\<exists>r. shown = Some r \<and> new = Draft_Save d r edit)"
| "may_replay cx db compared warned shown payload new \<longleftrightarrow> new = payload"

lemma rebased_may_replay:
  "rebased_payload cx compared warned shown payload db = Inr new \<Longrightarrow>
   may_replay cx db compared warned shown payload new"
  by (cases payload) (auto split: if_splits option.splits)

lemma restamp_queue [simp]: "of_queue (restampLocalWork now payload g db) = of_queue db"
  by (simp add: restampLocalWork_def split: queued_payload.split option.split)

text \<open>
  A review item is replayed only after the step its kind requires. Refusing a choice changes
  nothing. A rebase that goes through concerns an item in review, leaves every other entry of the
  queue as it was, and turns the item into a pending one of the current generation: a send only
  after the warning, under a new key and not below the revision the device knows; a draft save only
  after the comparison, on exactly the revision that was shown; any other action unchanged.
\<close>

theorem review_resolution:
  assumes "distinct (queue_ids db)"
  shows "case resolveReview cx i (Rebase compared warned shown) db of
      (Inl e, db') \<Rightarrow> db' = db
    | (Inr _, db') \<Rightarrow>
        \<exists>a g new. a \<in> set (of_queue db) \<and> qe_localId a = i \<and> qe_state a = Qu_Review \<and>
          of_serverGeneration db = Some g \<and> may_replay cx db compared warned shown (qe_payload a) new \<and>
          of_queue db' = map (\<lambda>x. if qe_localId x = i
            then a\<lparr>qe_payload := new, qe_recoveryGeneration := g, qe_state := Qu_Pending,
                   qe_reviewReason := None, qe_failure := None\<rparr> else x) (of_queue db)"
proof (cases "find (\<lambda>a. qe_localId a = i) (allActions db)")
  case None
  then show ?thesis by (simp add: resolveReview_def)
next
  case (Some a)
  then have a: "a \<in> set (of_queue db)" "qe_localId a = i"
    using find_in_set [OF Some] by (simp_all add: allActions_def)
  have only: "x = a" if "x \<in> set (of_queue db)" "qe_localId x = i" for x
    using same_id [OF assms that(1) a(1)] that(2) a(2) by simp
  show ?thesis
  proof (cases "qe_state a = Qu_Review")
    case False
    then show ?thesis by (simp add: resolveReview_def Some)
  next
    case True
    show ?thesis
    proof (cases "of_serverGeneration db")
      case None
      then show ?thesis by (simp add: resolveReview_def Some True)
    next
      case (Some g)
      note gen = Some
      show ?thesis
      proof (cases "rebased_payload cx compared warned shown (qe_payload a) db")
        case (Inl e)
        then show ?thesis by (simp add: resolveReview_def \<open>find _ _ = _\<close> True gen)
      next
        case (Inr new)
        note may = rebased_may_replay [OF Inr]
        have "of_queue (snd (resolveReview cx i (Rebase compared warned shown) db)) =
          map (\<lambda>x. if qe_localId x = i then a\<lparr>qe_payload := new, qe_recoveryGeneration := g, qe_state := Qu_Pending,
                   qe_reviewReason := None, qe_failure := None\<rparr> else x) (of_queue db)"
          unfolding resolveReview_def
          by (simp add: \<open>find _ _ = _\<close> True gen Inr updateAction_queue) (use only in auto)
        with a True gen may Inr show ?thesis
          by (auto simp: resolveReview_def \<open>find _ _ = _\<close> intro!: exI [of _ a] exI [of _ g] exI [of _ new])
      qed
    qed
  qed
qed

text \<open>A send in review whose draft moved on to revision 5: replayed under a new key, not below it.\<close>

definition review_db :: offline_db where
  "review_db = empty_db\<lparr>of_serverGeneration := Some ''g2'',
     of_drafts := [\<lparr>ld_draftId = ''d'', ld_accountId = ''acc'', ld_server = None, ld_identity = None,
       ld_recipients = None, ld_subject = None, ld_markdown = None, ld_baseRevision = 5, ld_dirty = False,
       ld_recoveryGeneration = ''g1'', ld_updatedAt = 1\<rparr>],
     of_queue := [to_review Uncertain_Send (buildAction ''c'' 3 (Queued_Send ''d'' ''k'' 3) ''g1'')]\<rparr>"

theorem review_resolution_witness:
  "fst (resolveReview quiet_ctx ''c'' (Rebase False True None) review_db) = Inr () \<and>
   map qe_payload (of_queue (snd (resolveReview quiet_ctx ''c'' (Rebase False True None) review_db))) =
     [Queued_Send ''d'' ''new'' 5]"
proof -
  let ?run = "resolveReview quiet_ctx ''c'' (Rebase False True None) review_db"
  have ok: "fst ?run = Inr ()"
    by (simp add: resolveReview_def review_db_def allActions_def buildAction_def to_review_def)
  have "distinct (queue_ids review_db)" by (simp add: review_db_def)
  from review_resolution [OF this, where cx = quiet_ctx and i = "''c''" and compared = False and warned = True and shown = None] ok
  obtain a new where "a \<in> set (of_queue review_db)"
    "may_replay quiet_ctx review_db False True None (qe_payload a) new"
    "of_queue (snd ?run) = map (\<lambda>x. if qe_localId x = ''c'' then a\<lparr>qe_payload := new, qe_recoveryGeneration := ''g2'',
       qe_state := Qu_Pending, qe_reviewReason := None, qe_failure := None\<rparr> else x) (of_queue review_db)"
    by (cases ?run) (auto simp: review_db_def split: sum.splits)
  moreover have "map qe_payload (of_queue (snd ?run)) = [Queued_Send ''d'' ''new'' 5]"
    by (simp add: resolveReview_def review_db_def allActions_def buildAction_def to_review_def quiet_ctx_def
      getLocalDraft_def key_get_def updateAction_queue restampLocalWork_def)
  ultimately show ?thesis using ok by simp
qed

section \<open>The order of a pass\<close>

definition two_accounts_queue :: offline_db where
  "two_accounts_queue = empty_db\<lparr>of_serverGeneration := Some ''g2'', of_queue :=
     [buildAction ''a'' 2 (Queued_Send ''d'' ''k'' 3) ''g2'',
      buildAction ''b'' 2 (Draft_Save ''d'' 3 (own_edit ''one'')) ''g2'',
      buildAction ''c'' 5 (Queued_Send ''e'' ''l'' 3) ''g1'']\<rparr>"

theorem offline_replay_order_witness:
  "of_replays (snd (runPass (server_port fresh_server) quiet_ctx two_accounts_queue)) \<noteq> [] \<and>
   (\<exists>new. of_replays (snd (runPass (server_port fresh_server) quiet_ctx two_accounts_queue)) = new \<and>
     subseq (map (\<lambda>x. qe_localId (fst x)) new) [''b'', ''a''])"
proof -
  let ?db = "two_accounts_queue"
  let ?p = "server_port fresh_server"
  have port: "port_keeps_log ?p"
    unfolding port_keeps_log_def
  proof (intro allI impI)
    fix payload run db
    assume "handlerFor ?p payload = Some run"
    then show "of_replays (snd (run db)) = of_replays db"
      by (cases payload) (auto simp: server_port_def Let_def)
  qed
  have rely: "rely_keeps_log quiet_ctx" by (simp add: rely_keeps_log_def quiet_ctx_def)
  have gen: "of_serverGeneration ?db = Some ''g2''" by (simp add: two_accounts_queue_def)
  have "map qe_localId (same_generation ''g2''
      (pendingActions (reconcileOrphanedUploads quiet_ctx (?db\<lparr>of_signInRequired := Some False\<rparr>)))) = [''b'', ''a'']"
    by code_simp
  with offline_replay_order [OF port rely gen refl]
  obtain new where "of_replays (snd (runPass ?p quiet_ctx ?db)) = of_replays ?db @ new"
    "subseq (map (\<lambda>x. qe_localId (fst x)) new) [''b'', ''a'']" by auto
  moreover have "of_replays ?db = []" by (simp add: two_accounts_queue_def empty_db_def)
  moreover have "of_replays (snd (runPass ?p quiet_ctx ?db)) \<noteq> []" by code_simp
  ultimately show ?thesis by auto
qed

section \<open>A send that overtakes its edit\<close>

definition failing_save_port :: offline_port where
  "failing_save_port =
     \<lparr>op_saveDraft = Some (\<lambda>d base edit db. (Re_Retry ''unavailable'' False, db)), op_uploadBytes = None,
      op_queueSend = Some (\<lambda>d key base db. (Re_Synced None None, db)), op_runMailAction = None\<rparr>"

definition edit_then_send :: offline_db where
  "edit_then_send = empty_db\<lparr>of_serverGeneration := Some ''g'', of_queue :=
     [buildAction ''a'' 1 (Draft_Save ''d'' 3 (own_edit ''one'')) ''g'',
      buildAction ''c'' 3 (Queued_Send ''d'' ''k'' 3) ''g'']\<rparr>"

text \<open>
  The server could not store the edit, which stays pending; the send queued after it is handed over
  in the same pass, against the revision before the edit, and settles.
\<close>

lemma retried_save_lets_send_through:
  "map (\<lambda>a. (qe_payload a, qe_state a)) (of_queue (snd (runPass failing_save_port quiet_ctx edit_then_send))) =
     [(Draft_Save ''d'' 3 (own_edit ''one''), Qu_Pending), (Queued_Send ''d'' ''k'' 3, Qu_Synced)]"
  by code_simp

section \<open>A request of another generation\<close>

definition old_generation :: string where "old_generation = ''11111111-1111-4111-8111-111111111111''"
definition new_generation :: string where "new_generation = ''22222222-2222-4222-8222-222222222222''"

definition attach_api :: web_api where
  "attach_api =
     \<lparr>wa_patchDraft = (\<lambda>_ _ r _. Inr (r + 1)), wa_postUpload = (\<lambda>_ _. Inr ''s''), wa_listUploads = (\<lambda>_ _. Inr []),
      wa_attach = (\<lambda>_ _ _. Inr ()), wa_send = (\<lambda>_ _ _ _. Inr ()), wa_action = (\<lambda>_ _. Inr ())\<rparr>"

definition observing_ctx :: offline_ctx where
  "observing_ctx = quiet_ctx\<lparr>oc_during := (\<lambda>k db. if k = 1 then observeGeneration quiet_ctx (Some new_generation) db else db)\<rparr>"

definition send_with_file :: offline_db where
  "send_with_file = empty_db\<lparr>of_serverGeneration := Some old_generation,
     of_uploads := [\<lparr>lu_localId = ''u'', lu_draftId = ''d'', lu_accountId = ''acc'', lu_filename = ''f'',
       lu_contentType = ''text/plain'', lu_sizeBytes = 1, lu_bytes = [], lu_serverId = Some ''s'', lu_attachedAt = None,
       lu_recoveryGeneration = old_generation, lu_createdAt = 1\<rparr>],
     of_queue := [buildAction ''c'' 3 (Queued_Send ''d'' ''k'' 3) old_generation]\<rparr>"

text \<open>
  A restore is observed while the attachment of a queued send is linked. The send leaves with the
  new generation in its header, although it was queued in the old one.
\<close>

lemma request_outlives_generation:
  "let db' = snd (runPass (webOfflinePort attach_api observing_ctx) observing_ctx send_with_file) in
   map snd (of_requests db') = [Req_List ''d'', Req_Attach ''d'' ''s'', Req_Send ''d'' ''k'' 3] \<and>
   map fst (of_requests db') = [None, Some old_generation, Some new_generation] \<and>
   map (\<lambda>a. (qe_recoveryGeneration a, qe_state a)) (of_queue db') = [(old_generation, Qu_Synced)]"
  by code_simp

end
