(* ===== verification/Offline_Server.thy ===== *)
theory Offline_Server
  imports Offline_Contracts Send_Properties
begin

text \<open>
  The server of \<open>Offline_Chain\<close> is an abstraction of the models of the compose and send services:
  \<open>updateDraft\<close> and the freeze of \<open>queueSend\<close> succeed only where its rule accepts, and then the
  revision and the lock of every draft are those of the rule.
\<close>

section \<open>The view\<close>

definition server_view :: "hub \<Rightarrow> server_drafts" where
  "server_view h =
     \<lparr>sv_revision = (\<lambda>d. case find (\<lambda>x. dr_id x = d) (h_drafts h) of None \<Rightarrow> 0 | Some x \<Rightarrow> dr_revision x),
      sv_locked = (\<lambda>d. case find (\<lambda>x. dr_id x = d) (h_drafts h) of None \<Rightarrow> False | Some x \<Rightarrow> dr_lockedBySend x \<noteq> None)\<rparr>"

text \<open>The body of the request that carries a queued edit.\<close>

definition edit_input :: "int \<Rightarrow> draft_edit \<Rightarrow> update_draft_input" where
  "edit_input base edit =
     \<lparr>ui_baseRevision = base, ui_identity = de_identity edit, ui_recipients = de_recipients edit,
      ui_subject = de_subject edit, ui_markdown = de_markdown edit\<rparr>"

definition rule_accepts :: "server_drafts \<Rightarrow> string \<Rightarrow> int \<Rightarrow> bool" where
  "rule_accepts v d base \<longleftrightarrow> \<not> sv_locked v d \<and> base = sv_revision v d"

lemma changed_fields_edit: "changed_fields (edit_input base edit) = [] \<longleftrightarrow> edit = no_edit"
  by (cases edit) (auto simp: changed_fields_def edit_input_def no_edit_def)

lemma find_other:
  "j \<noteq> i \<Longrightarrow> (\<And>x. k x = i \<Longrightarrow> k (f x) = i) \<Longrightarrow>
     find (\<lambda>x. k x = j) (tbl_update (\<lambda>x. k x = i) f t) = find (\<lambda>x. k x = j) t"
  by (induction t) auto

lemma find_replaced:
  assumes "find (\<lambda>x. k x = i) t = Some r" and "\<And>x. k x = i \<Longrightarrow> k (f x) = i"
  shows "find (\<lambda>x. k x = j) (tbl_update (\<lambda>x. k x = i) f t) =
    (if j = i then Some (f r) else find (\<lambda>x. k x = j) t)"
proof (cases "j = i")
  case True
  with assms show ?thesis by (induction t) (auto split: if_splits)
next
  case False
  with find_other [of j i k f t] assms(2) show ?thesis by simp
qed

section \<open>The handlers\<close>

lemma update_follows_rule:
  assumes "updateDraft cp now q d (edit_input base edit) h = Inr (rec, h')" and "pg_uuid d = d"
  shows "rule_accepts (server_view h) d base \<and>
    server_view h' = server_step (server_view h) (Draft_Save d base edit)"
proof (rule updateDraft_success [OF assms(1)])
  fix row nxt
  assume f: "find (\<lambda>y. dr_id y = pg_uuid d) (h_drafts h) = Some row"
    and r: "dr_revision row = ui_baseRevision (edit_input base edit)"
    and l: "dr_deletedAt row = None" "dr_lockedBySend row = None"
    and c: "changed_fields (edit_input base edit) = [] \<and> h' = h \<or>
      changed_fields (edit_input base edit) \<noteq> [] \<and> dr_id nxt = dr_id row \<and> dr_revision nxt = dr_revision row + 1 \<and>
      dr_lockedBySend nxt = None \<and> dr_deletedAt nxt = None \<and>
      (\<exists>e. h' = add_event e (h\<lparr>h_drafts :=
         tbl_update (\<lambda>y. dr_id y = pg_uuid d) (\<lambda>_. nxt) (h_drafts h)\<rparr>)) \<and>
      d_revision rec = dr_revision row + 1"
  have f: "find (\<lambda>y. dr_id y = d) (h_drafts h) = Some row" using f assms(2) by simp
  have b: "dr_revision row = base" using r by (simp add: edit_input_def)
  have acc: "rule_accepts (server_view h) d base" using f l b by (simp add: rule_accepts_def server_view_def)
  show ?thesis
  proof (cases "edit = no_edit")
    case True
    with c have "h' = h" using changed_fields_edit by blast
    with acc True show ?thesis by (simp add: rule_accepts_def revision_after_def)
  next
    case False
    with c changed_fields_edit obtain e where n: "dr_id nxt = dr_id row" "dr_revision nxt = base + 1" "dr_lockedBySend nxt = None"
      and h': "h_drafts h' = tbl_update (\<lambda>y. dr_id y = d) (\<lambda>_. nxt) (h_drafts h)"
      using b assms(2) by (auto simp: add_event_def)
    have "dr_id nxt = d" using n(1) find_in_set [OF f] by simp
    then have "find (\<lambda>x. dr_id x = j) (h_drafts h') = (if j = d then Some nxt else find (\<lambda>x. dr_id x = j) (h_drafts h))" for j
      unfolding h' by (intro find_replaced [OF f])
    then show ?thesis using acc f n l False b
      by (auto simp: server_view_def rule_accepts_def revision_after_def fun_eq_iff)
  qed
qed

lemma queue_follows_rule:
  assumes "quiet cx" and "freezeSnapshot p cx x g h = (Inr row, h')" and "distinct (map dr_id (h_drafts h))"
    and "qi_draftId x = d" and "qi_baseRevision x = base" and "pg_uuid d = d"
  shows "rule_accepts (server_view h) d base \<and> server_view h' = server_step (server_view h) (Queued_Send d key base)"
proof -
  from assms(2) obtain fz where fz: "composeSnapshot p cx x h = Inr fz"
    by (auto simp: freezeSnapshot_def split: sum.splits)
  let ?key = "outboundMimeKey (cx_ids cx 1)"
  from assms(2) fz obtain stored where put: "sp_put p ?key (fz_bytes fz) = Inr stored"
    by (auto simp: freezeSnapshot_def Let_def split: sum.splits)
  have "cx_rely cx 1 = (\<lambda>h. h)" using assms(1) by (simp add: quiet_def)
  with assms(2) fz put have tx: "freeze_tx p (cx_ids cx 1) (cx_now cx 1) g x fz
      (h\<lparr>h_durable := (h_durable h)(?key \<mapsto> so_bytes stored)\<rparr>) = Inr (row, h')"
    by (auto simp: freezeSnapshot_def Let_def split: if_splits dest: run_tx_value)
  note dr = composeSnapshot_draft [OF fz]
  from dr assms(4,6) have d: "fz_draft fz \<in> set (h_drafts h)" "dr_id (fz_draft fz) = d"
    using find_in_set by fastforce+
  have f: "find (\<lambda>y. dr_id y = d) (h_drafts h) = Some (fz_draft fz)"
    using find_by_key_unique [OF assms(3) d(1)] d(2) by simp
  have acc: "rule_accepts (server_view h) d base" using f dr assms(5) by (simp add: rule_accepts_def server_view_def)
  let ?lock = "\<lambda>y. y\<lparr>dr_lockedBySend := Some (cx_ids cx 1)\<rparr>"
  have "h_drafts h' = tbl_update (\<lambda>y. dr_id y = d) ?lock (h_drafts h)"
    using freeze_tx_success [OF tx] f dr by (simp add: d(2) assms(6))
  then have "find (\<lambda>y. dr_id y = j) (h_drafts h') =
      (if j = d then Some (?lock (fz_draft fz)) else find (\<lambda>y. dr_id y = j) (h_drafts h))" for j
    using find_replaced [OF f, of ?lock j] by simp
  then show ?thesis using acc f dr assms(5)
    by (auto simp: server_view_def rule_accepts_def fun_eq_iff)
qed

end
