(* ===== verification/Hub_Runs.thy ===== *)
theory Hub_Runs
  imports Hub_Prelude
begin

text \<open>
  Runs of asynchronous handlers: functions from a world to a result or an error and the world they
  leave. The theories that use them add the awaits on their own world, at which other writers act.
\<close>

type_synonym ('w, 'e, 'a) hub_run = "'w \<Rightarrow> ('e + 'a) \<times> 'w"

definition give :: "'a \<Rightarrow> ('w, 'e, 'a) hub_run" where
  "give a w = (Inr a, w)"

definition throw :: "'e \<Rightarrow> ('w, 'e, 'a) hub_run" where
  "throw e w = (Inl e, w)"

definition call :: "('w, 'e, 'a) hub_run \<Rightarrow> ('a \<Rightarrow> ('w, 'e, 'b) hub_run) \<Rightarrow> ('w, 'e, 'b) hub_run" where
  "call m f w = (case m w of (Inl e, w') \<Rightarrow> (Inl e, w') | (Inr a, w') \<Rightarrow> f a w')"

definition contain :: "('w, 'e, 'a) hub_run \<Rightarrow> ('e \<Rightarrow> ('w, 'e, 'b) hub_run) \<Rightarrow> ('a \<Rightarrow> ('w, 'e, 'b) hub_run) \<Rightarrow> ('w, 'e, 'b) hub_run" where
  "contain m g f w = (case m w of (Inl e, w') \<Rightarrow> g e w' | (Inr a, w') \<Rightarrow> f a w')"

definition guard_run :: "bool \<Rightarrow> 'e \<Rightarrow> ('w, 'e, 'a) hub_run \<Rightarrow> ('w, 'e, 'a) hub_run" where
  "guard_run b e m = (if b then m else throw e)"

section \<open>Partial correctness\<close>

definition ends :: "('w \<Rightarrow> bool) \<Rightarrow> ('w, 'e, 'a) hub_run \<Rightarrow> ('a \<Rightarrow> 'w \<Rightarrow> bool) \<Rightarrow> ('w \<Rightarrow> bool) \<Rightarrow> bool" where
  "ends P m Q E \<longleftrightarrow> (\<forall>w. P w \<longrightarrow> (case m w of (Inl e, w') \<Rightarrow> E w' | (Inr a, w') \<Rightarrow> Q a w'))"

named_theorems run_rules "one rule per construct of runs"

lemma ends_give [run_rules]: "(\<And>w. P w \<Longrightarrow> Q a w) \<Longrightarrow> ends P (give a) Q E"
  by (simp add: ends_def give_def)

lemma ends_throw [run_rules]: "(\<And>w. P w \<Longrightarrow> E w) \<Longrightarrow> ends P (throw e) Q E"
  by (simp add: ends_def throw_def)

lemma ends_call [run_rules]:
  "ends P m R E \<Longrightarrow> (\<And>a. ends (R a) (f a) Q E) \<Longrightarrow> ends P (call m f) Q E"
  by (fastforce simp: ends_def call_def split: prod.splits sum.splits)

lemma ends_contain [run_rules]:
  "ends P m R X \<Longrightarrow> (\<And>a. ends (R a) (f a) Q E) \<Longrightarrow> (\<And>e. ends X (g e) Q E) \<Longrightarrow> ends P (contain m g f) Q E"
  by (fastforce simp: ends_def contain_def split: prod.splits sum.splits)

lemma ends_guard_run [run_rules]:
  "(b \<Longrightarrow> ends P m Q E) \<Longrightarrow> (\<And>w. \<not> b \<Longrightarrow> P w \<Longrightarrow> E w) \<Longrightarrow> ends P (guard_run b e m) Q E"
  by (simp add: guard_run_def ends_throw)

lemma ends_if [run_rules]:
  "(b \<Longrightarrow> ends P m Q E) \<Longrightarrow> (\<not> b \<Longrightarrow> ends P m' Q E) \<Longrightarrow> ends P (if b then m else m') Q E"
  by simp

lemma ends_weaken:
  "ends P m Q E \<Longrightarrow> (\<And>w. P' w \<Longrightarrow> P w) \<Longrightarrow> (\<And>a w. Q a w \<Longrightarrow> Q' a w) \<Longrightarrow> (\<And>w. E w \<Longrightarrow> E' w) \<Longrightarrow> ends P' m Q' E'"
  by (fastforce simp: ends_def split: prod.splits sum.splits)

lemma ends_pre: "ends P m Q E \<Longrightarrow> (\<And>w. P' w \<Longrightarrow> P w) \<Longrightarrow> ends P' m Q E"
  by (simp add: ends_def)

text \<open>A fact that does not depend on the state moves out of the precondition.\<close>

lemma ends_fact: "(F \<Longrightarrow> ends P m Q E) \<Longrightarrow> ends (\<lambda>w. F \<and> P w) m Q E"
  by (simp add: ends_def)

lemma ends_run:
  "ends P m Q E \<Longrightarrow> P w \<Longrightarrow> (case m w of (Inl e, w') \<Rightarrow> E w' | (Inr a, w') \<Rightarrow> Q a w')"
  by (simp add: ends_def)

end
