(* ===== verification/Sync_World.thy ===== *)
theory Sync_World
  imports Send_Model Hub_Runs
begin

text \<open>
  The setting of synchronization, \<open>packages/sync/src\<close>: the mailbox session of \<open>mailbox.ts\<close> and the
  runs over it. A run is a sequence of awaits. Each await reads or writes the database or asks the
  mailbox at the current time; then other writers act (\<open>sp_env\<close>) and the time moves on. The answers
  of the mailbox depend on the time, because the server changes meanwhile. A step that throws ends
  the run with the error and the state it left. \<open>ends\<close> is the partial correctness of a run, with
  one rule per construct.
\<close>

section \<open>Sessions and ports\<close>

datatype sync_error =
    SE_Invalid_Request
  | SE_Not_Found
  | SE_Mailbox_Error
  | SE_Generation_Changed
  | SE_Original_Missing
  | SE_Out_Of_Fuel

record mailbox_view =
  mv_uidValidity :: int
  mv_uidNext :: int

record mailbox_headers =
  mh_uid :: int
  mh_unread :: bool
  mh_flagged :: bool
  mh_internalDate :: millis
  mh_sizeBytes :: int
  mh_rawHeaders :: bytes

record flag_answer =
  fa_uid :: int
  fa_unread :: bool
  fa_flagged :: bool

text \<open>A session's answers, by the time of the call; a failed call raises an error.\<close>

record mailbox_session =
  se_select :: "nat \<Rightarrow> string \<Rightarrow> sync_error + mailbox_view"
  se_searchUids :: "nat \<Rightarrow> int \<Rightarrow> int \<Rightarrow> sync_error + int list"
  se_fetchHeaders :: "nat \<Rightarrow> int list \<Rightarrow> sync_error + mailbox_headers list"
  se_fetchFlags :: "nat \<Rightarrow> int list \<Rightarrow> sync_error + flag_answer list"
  se_revalidate :: "nat \<Rightarrow> sync_error + mailbox_view"

record imported_headers =
  ih_messageId :: "string option"
  ih_inReplyTo :: "string option"
  ih_referenceIds :: "string list"
  ih_sender :: "email_address option"
  ih_replyTo :: "email_address list option"
  ih_recipients :: "recipients option"
  ih_subject :: "string option"
  ih_sentAt :: "millis option"
  ih_senderText :: string
  ih_recipientsText :: string
  ih_addressesText :: string
  ih_subjectText :: string

text \<open>
  The header and index-text parsers, the clock, the identifiers PostgreSQL draws, the other writers, the abort
  signal, the sizes the services are built with, and the number of pages a keyset walk may read.
\<close>

record sync_ports =
  sp_parseHeaderBlock :: "bytes \<Rightarrow> imported_headers"
  sp_clock :: "nat \<Rightarrow> millis"
  sp_newId :: "hub \<Rightarrow> uuid"
  sp_env :: "nat \<Rightarrow> hub \<Rightarrow> hub"
  sp_aborted :: "nat \<Rightarrow> bool"
  sp_windowSize :: int
  sp_flagBatch :: nat
  sp_arrivalBatch :: nat
  sp_repairLimit :: nat
  sp_batchesPerFolder :: nat
  sp_maxPages :: nat
  sp_indexText :: "string \<Rightarrow> string"

section \<open>Runs\<close>

text \<open>The counts of \<open>AccountCycleSummary\<close>, which the runner changes in place.\<close>

record cycle_counts =
  cy_folders :: int
  cy_batches :: int
  cy_imported :: int
  cy_bodiesFetched :: int
  cy_generationChanges :: int
  cy_resets :: int
  cy_polled :: int
  cy_arrivalsImported :: int
  cy_flagsRefreshed :: int
  cy_expungesMarked :: int
  cy_inventories :: int
  cy_threadsResolved :: int
  cy_threadLinksChanged :: int
  cy_folderErrors :: int
  cy_bodyErrors :: int
  cy_threadErrors :: int

record world =
  wo_time :: nat
  wo_hub :: hub
  wo_summary :: cycle_counts

type_synonym 'a run = "(world, sync_error, 'a) hub_run"

text \<open>The end of an await: the other writers act on what the step left.\<close>

definition tick :: "sync_ports \<Rightarrow> hub \<Rightarrow> world \<Rightarrow> world" where
  "tick p h w = w\<lparr>wo_time := Suc (wo_time w), wo_hub := sp_env p (wo_time w) h\<rparr>"

definition ask :: "sync_ports \<Rightarrow> (nat \<Rightarrow> sync_error + 'a) \<Rightarrow> 'a run" where
  "ask p q w = (q (wo_time w), tick p (wo_hub w) w)"

definition query :: "sync_ports \<Rightarrow> (hub \<Rightarrow> sync_error + 'a) \<Rightarrow> 'a run" where
  "query p q w = (q (wo_hub w), tick p (wo_hub w) w)"

text \<open>A transaction reads the clock of its time and commits, or fails and leaves the state.\<close>

definition commit :: "sync_ports \<Rightarrow> (millis \<Rightarrow> (hub, sync_error, 'a) tx) \<Rightarrow> 'a run" where
  "commit p body w =
     (case run_tx (body (sp_clock p (wo_time w))) (wo_hub w) of (r, h) \<Rightarrow> (r, tick p h w))"

text \<open>A change of the summary, which is no await.\<close>

definition tally :: "(cycle_counts \<Rightarrow> cycle_counts) \<Rightarrow> unit run" where
  "tally f w = (Inr (), w\<lparr>wo_summary := f (wo_summary w)\<rparr>)"

section \<open>Partial correctness\<close>

lemma tick_simps [simp]:
  "wo_time (tick p h w) = Suc (wo_time w)" "wo_hub (tick p h w) = sp_env p (wo_time w) h"
  "wo_summary (tick p h w) = wo_summary w"
  by (simp_all add: tick_def)

lemma ends_tally [run_rules]:
  "(\<And>w. P w \<Longrightarrow> Q () (w\<lparr>wo_summary := f (wo_summary w)\<rparr>)) \<Longrightarrow> ends P (tally f) Q E"
  by (simp add: ends_def tally_def)

lemma ends_ask:
  assumes "\<And>w. P w \<Longrightarrow> E (tick p (wo_hub w) w)"
    and "\<And>w a. P w \<Longrightarrow> q (wo_time w) = Inr a \<Longrightarrow> Q a (tick p (wo_hub w) w)"
  shows "ends P (ask p q) Q E"
  using assms by (auto simp: ends_def ask_def split: sum.split)

lemma ends_query:
  assumes "\<And>w. P w \<Longrightarrow> E (tick p (wo_hub w) w)"
    and "\<And>w a. P w \<Longrightarrow> q (wo_hub w) = Inr a \<Longrightarrow> Q a (tick p (wo_hub w) w)"
  shows "ends P (query p q) Q E"
  using assms by (auto simp: ends_def query_def split: sum.split)

lemma ends_commit:
  assumes "\<And>w. P w \<Longrightarrow> E (tick p (wo_hub w) w)"
    and "\<And>w a h. P w \<Longrightarrow> body (sp_clock p (wo_time w)) (wo_hub w) = Inr (a, h) \<Longrightarrow> Q a (tick p h w)"
  shows "ends P (commit p body) Q E"
  using assms by (auto simp: ends_def commit_def run_tx_def split: sum.split prod.split)

end
