(* ===== verification/Sync_Store.thy ===== *)
theory Sync_Store
  imports Sync_World
begin

text \<open>
  Folder and occurrence access of \<open>packages/sync/src/store.ts\<close>: the locked folder row, the events
  of folders and accounts, and the import of one header record, on which backfill, polling and
  inventories all rest.
\<close>

section \<open>Folders and events\<close>

definition folder_of :: "uuid \<Rightarrow> uuid \<Rightarrow> hub \<Rightarrow> folder_row option" where
  "folder_of accountId folderId h =
     find (\<lambda>f. fo_id f = pg_uuid folderId \<and> fo_accountId f = pg_uuid accountId) (h_folders h)"

definition load_folder :: "sync_ports \<Rightarrow> uuid \<Rightarrow> uuid \<Rightarrow> folder_row run" where
  "load_folder p accountId folderId =
     query p (\<lambda>h. case folder_of accountId folderId h of None \<Rightarrow> Inl SE_Not_Found | Some f \<Rightarrow> Inr f)"

definition lockFolder :: "uuid \<Rightarrow> uuid \<Rightarrow> hub \<Rightarrow> sync_error + folder_row" where
  "lockFolder accountId folderId h =
     (case folder_of accountId folderId h of None \<Rightarrow> Inl SE_Not_Found | Some f \<Rightarrow> Inr f)"

definition update_folder :: "uuid \<Rightarrow> (folder_row \<Rightarrow> folder_row) \<Rightarrow> hub \<Rightarrow> hub" where
  "update_folder folderId f h = h\<lparr>h_folders := tbl_update (\<lambda>r. fo_id r = pg_uuid folderId) f (h_folders h)\<rparr>"

definition recordFolderEvent :: "millis \<Rightarrow> uuid \<Rightarrow> uuid \<Rightarrow> string \<Rightarrow> (string \<times> json) list \<Rightarrow> hub \<Rightarrow> hub" where
  "recordFolderEvent now accountId folderId type payload h =
     add_event \<lparr>ev_actor = System_Actor, ev_type = type, ev_entityType = ''folder'',
                ev_entityId = Some (pg_uuid folderId), ev_payload = (''accountId'', JStr accountId) # payload\<rparr>
       (h\<lparr>h_folderTimes := h_folderTimes h @ [(pg_uuid folderId, type, now)]\<rparr>)"

definition recordAccountEvent :: "uuid \<Rightarrow> string \<Rightarrow> (string \<times> json) list \<Rightarrow> hub \<Rightarrow> hub" where
  "recordAccountEvent accountId type payload h =
     add_event \<lparr>ev_actor = System_Actor, ev_type = type, ev_entityType = ''account'',
                ev_entityId = Some (pg_uuid accountId), ev_payload = (''accountId'', JStr accountId) # payload\<rparr> h"

text \<open>The newest time of one type of event of one folder.\<close>

definition lastFolderEventAt :: "uuid \<Rightarrow> string \<Rightarrow> hub \<Rightarrow> millis option" where
  "lastFolderEventAt folderId type h =
     (case map (\<lambda>(_, _, at). at) (filter (\<lambda>(f, t, _). f = pg_uuid folderId \<and> t = type) (h_folderTimes h)) of
        [] \<Rightarrow> None
      | t # ts \<Rightarrow> Some (foldl max t ts))"

section \<open>Importing a header record\<close>

definition occurrence_at :: "uuid \<Rightarrow> int \<Rightarrow> int \<Rightarrow> occurrence_row \<Rightarrow> bool" where
  "occurrence_at folderId uidvalidity uid oc \<longleftrightarrow>
     oc_folderId oc = pg_uuid folderId \<and> oc_uidvalidity oc = uidvalidity \<and> oc_uid oc = uid"

definition provisional_message :: "uuid \<Rightarrow> uuid \<Rightarrow> imported_headers \<Rightarrow> mailbox_headers \<Rightarrow> message_row" where
  "provisional_message i accountId header r =
     \<lparr>ms_id = i, ms_accountId = pg_uuid accountId, ms_messageId = ih_messageId header,
      ms_inReplyTo = ih_inReplyTo header, ms_referenceIds = ih_referenceIds header, ms_threadId = None,
      ms_parentMessageId = None, ms_threadLinkState = Link_Pending, ms_threadDirty = True,
      ms_sender = ih_sender header, ms_replyTo = ih_replyTo header, ms_recipients = ih_recipients header,
      ms_subject = ih_subject header,
      ms_sentAt = Some (case ih_sentAt header of None \<Rightarrow> mh_internalDate r | Some t \<Rightarrow> t),
      ms_snippet = None, ms_hasAttachments = False, ms_sizeBytes = Some (mh_sizeBytes r),
      ms_fetchedBody = False, ms_bodyFailedAt = None, ms_originalStorageKey = None, ms_originalSha256 = None,
      ms_senderText = ih_senderText header, ms_recipientsText = ih_recipientsText header,
      ms_addressesText = ih_addressesText header, ms_subjectText = ih_subjectText header,
      ms_bodyIndexText = []\<rparr>"

definition new_occurrence :: "uuid \<Rightarrow> uuid \<Rightarrow> uuid \<Rightarrow> uuid \<Rightarrow> int \<Rightarrow> millis \<Rightarrow> mailbox_headers \<Rightarrow> occurrence_row" where
  "new_occurrence i accountId messageId folderId uidvalidity now r =
     \<lparr>oc_id = i, oc_accountId = pg_uuid accountId, oc_messageId = messageId, oc_folderId = pg_uuid folderId,
      oc_uidvalidity = uidvalidity, oc_uid = mh_uid r, oc_internalDate = mh_internalDate r,
      oc_unread = mh_unread r, oc_flagged = mh_flagged r, oc_modseq = None, oc_revision = 1,
      oc_observedAt = now, oc_expungedAt = None, oc_invalidatedAt = None\<rparr>"

definition body_skipped :: "uuid \<Rightarrow> uuid \<Rightarrow> uuid \<Rightarrow> mailbox_headers \<Rightarrow> event_row" where
  "body_skipped messageId accountId folderId r =
     \<lparr>ev_actor = System_Actor, ev_type = ''message.body_skipped'', ev_entityType = ''message'',
      ev_entityId = Some messageId,
      ev_payload = [(''accountId'', JStr accountId), (''folderId'', JStr folderId), (''uid'', JNum (mh_uid r)),
        (''sizeBytes'', JNum (mh_sizeBytes r)), (''maxBytes'', JNum (int MAX_MESSAGE_BYTES))]\<rparr>"

definition importHeaderRecord ::
    "sync_ports \<Rightarrow> millis \<Rightarrow> uuid \<Rightarrow> uuid \<Rightarrow> int \<Rightarrow> mailbox_headers \<Rightarrow> hub \<Rightarrow> (bool \<times> string option) \<times> hub" where
  "importHeaderRecord p now accountId folderId uidvalidity r h =
     (if list_ex (occurrence_at folderId uidvalidity (mh_uid r)) (h_occurrences h) then ((False, None), h)
      else
        (let header = sp_parseHeaderBlock p (mh_rawHeaders r);
             i = sp_newId p h;
             h1 = h\<lparr>h_messages := h_messages h @ [provisional_message i accountId header r]\<rparr>;
             h2 = h1\<lparr>h_occurrences := h_occurrences h1 @
                      [new_occurrence (sp_newId p h1) accountId i folderId uidvalidity now r]\<rparr>;
             h3 = (if mh_sizeBytes r > int MAX_MESSAGE_BYTES
                   then add_event (body_skipped i accountId folderId r) h2 else h2)
         in ((True, ih_messageId header), h3)))"

text \<open>The loop over the records of a window: the imported and skipped counts and the identifiers.\<close>

fun import_records ::
    "sync_ports \<Rightarrow> millis \<Rightarrow> uuid \<Rightarrow> uuid \<Rightarrow> int \<Rightarrow> mailbox_headers list \<Rightarrow> hub \<Rightarrow> (int \<times> int \<times> string list) \<times> hub" where
  "import_records p now accountId folderId uidvalidity [] h = ((0, 0, []), h)"
| "import_records p now accountId folderId uidvalidity (r # rs) h =
     (case importHeaderRecord p now accountId folderId uidvalidity r h of
        ((imported, identifier), h1) \<Rightarrow>
          (case import_records p now accountId folderId uidvalidity rs h1 of
             ((n, skipped, identifiers), h2) \<Rightarrow>
               (if imported
                then ((n + 1, skipped, (case identifier of None \<Rightarrow> identifiers | Some i \<Rightarrow> i # identifiers)), h2)
                else ((n, skipped + 1, identifiers), h2))))"

text \<open>One marking call for a whole window.\<close>

definition mark_window :: "uuid \<Rightarrow> string list \<Rightarrow> hub \<Rightarrow> hub" where
  "mark_window accountId identifiers h =
     (if identifiers = [] then h else markThreadJobsDirty (pg_uuid accountId) [] identifiers h)"

definition import_window ::
    "sync_ports \<Rightarrow> millis \<Rightarrow> uuid \<Rightarrow> uuid \<Rightarrow> int \<Rightarrow> mailbox_headers list \<Rightarrow> hub \<Rightarrow> (int \<times> int) \<times> hub" where
  "import_window p now accountId folderId uidvalidity rs h =
     (case import_records p now accountId folderId uidvalidity rs h of
        ((imported, skipped, identifiers), h1) \<Rightarrow> ((imported, skipped), mark_window accountId identifiers h1))"

text \<open>
  The occurrences of one generation of a folder above a UID, in UID order, one page of them; \<open>live\<close>
  is the further condition of the query.
\<close>

definition occurrence_page ::
    "(occurrence_row \<Rightarrow> bool) \<Rightarrow> uuid \<Rightarrow> uuid \<Rightarrow> int \<Rightarrow> int \<Rightarrow> nat \<Rightarrow> hub \<Rightarrow> occurrence_row list" where
  "occurrence_page live accountId folderId generation uidAfter limit h =
     take limit (sort_key oc_uid
       (filter (\<lambda>oc. oc_accountId oc = pg_uuid accountId \<and> oc_folderId oc = pg_uuid folderId \<and>
                    oc_uidvalidity oc = generation \<and> live oc \<and> oc_uid oc > uidAfter) (h_occurrences h)))"

definition active :: "occurrence_row \<Rightarrow> bool" where
  "active oc \<longleftrightarrow> oc_expungedAt oc = None \<and> oc_invalidatedAt oc = None"

definition OCCURRENCE_SLICE :: nat where "OCCURRENCE_SLICE = 5000"

function (sequential) slices :: "nat \<Rightarrow> 'a list \<Rightarrow> 'a list list" where
  "slices n xs = (if xs = [] \<or> n = 0 then [] else take n xs # slices n (drop n xs))"
  by pat_completeness auto
termination by (relation "measure (\<lambda>(n, xs). length xs)") auto

declare slices.simps [simp del]

text \<open>Marking a slice of occurrences expunged; the count is that of the rows the update returns.\<close>

definition expunge_slice :: "millis \<Rightarrow> uuid list \<Rightarrow> hub \<Rightarrow> int \<times> hub" where
  "expunge_slice now ids h =
     (let P = (\<lambda>oc. oc_id oc \<in> set ids \<and> oc_expungedAt oc = None) in
      (tbl_count P (h_occurrences h),
       h\<lparr>h_occurrences := tbl_update P (\<lambda>oc. oc\<lparr>oc_expungedAt := Some now\<rparr>) (h_occurrences h)\<rparr>))"

fun expunge_slices :: "millis \<Rightarrow> uuid list list \<Rightarrow> hub \<Rightarrow> int \<times> hub" where
  "expunge_slices now [] h = (0, h)"
| "expunge_slices now (s # ss) h =
     (case expunge_slice now s h of (n, h1) \<Rightarrow>
        (case expunge_slices now ss h1 of (m, h2) \<Rightarrow> (n + m, h2)))"

end
