(* ===== verification/Sync_Backfill.thy ===== *)
theory Sync_Backfill
  imports Sync_Store
begin

text \<open>
  Resumable backfill, \<open>packages/sync/src/backfill.ts\<close>: first contact with a folder, and one window
  of header imports with the boundary that covers it.
\<close>

section \<open>Outcomes\<close>

datatype batch_outcome =
    Bo_Initialized int int int bool
  | Bo_Imported int "int \<times> int" int int int int bool
  | Bo_Complete
  | Bo_Generation_Changed int int

record initialized_folder =
  nf_id :: uuid
  nf_name :: string
  nf_uidvalidity :: int
  nf_backfillUpperUid :: int
  nf_backfillBeforeUid :: int
  nf_backfillComplete :: bool

datatype initialization = In_Changed int int | In_Ready bool initialized_folder

definition generation_event :: "millis \<Rightarrow> uuid \<Rightarrow> uuid \<Rightarrow> int \<Rightarrow> int \<Rightarrow> hub \<Rightarrow> batch_outcome \<times> hub" where
  "generation_event now accountId folderId recorded observed h =
     (Bo_Generation_Changed recorded observed,
      recordFolderEvent now accountId folderId ''sync.folder_generation_changed''
        [(''recorded'', JNum recorded), (''observed'', JNum observed)] h)"

definition generationChanged :: "sync_ports \<Rightarrow> uuid \<Rightarrow> uuid \<Rightarrow> int \<Rightarrow> int \<Rightarrow> batch_outcome run" where
  "generationChanged p accountId folderId recorded observed =
     commit p (\<lambda>now h. Inr (generation_event now accountId folderId recorded observed h))"

section \<open>First contact\<close>

definition toInitialized :: "folder_row \<Rightarrow> sync_error + initialized_folder" where
  "toInitialized folder =
     (case (fo_uidvalidity folder, fo_backfillBeforeUid folder, fo_backfillUpperUid folder) of
        (Some v, Some before, Some upper) \<Rightarrow>
          Inr \<lparr>nf_id = fo_id folder, nf_name = fo_name folder, nf_uidvalidity = v, nf_backfillUpperUid = upper,
               nf_backfillBeforeUid = before, nf_backfillComplete = fo_backfillComplete folder\<rparr>
      | _ \<Rightarrow> Inl SE_Invalid_Request)"

definition initial_checkpoints :: "mailbox_view \<Rightarrow> folder_row \<Rightarrow> folder_row" where
  "initial_checkpoints mailbox f =
     (let upper = max 0 (mv_uidNext mailbox - 1) in
      f\<lparr>fo_uidvalidity := Some (mv_uidValidity mailbox), fo_backfillUpperUid := Some upper,
        fo_backfillBeforeUid := Some (upper + 1), fo_arrivalScannedUid := upper,
        fo_backfillComplete := (upper = 0)\<rparr>)"

definition initializeCheckpoints ::
    "uuid \<Rightarrow> uuid \<Rightarrow> mailbox_view \<Rightarrow> millis \<Rightarrow> (hub, sync_error, initialization) tx" where
  "initializeCheckpoints accountId folderId mailbox now h =
     attempt (lockFolder accountId folderId h) (\<lambda>locked.
       if fo_uidvalidity locked \<noteq> None \<and> fo_uidvalidity locked \<noteq> Some (mv_uidValidity mailbox)
       then Inr (In_Changed (mv_uidValidity mailbox) (the (fo_uidvalidity locked)), h)
       else if fo_uidvalidity locked \<noteq> None \<and> fo_backfillBeforeUid locked \<noteq> None
       then attempt (toInitialized locked) (\<lambda>f. Inr (In_Ready False f, h))
       else
         attempt (toInitialized (initial_checkpoints mailbox locked)) (\<lambda>f.
           Inr (In_Ready True f,
                recordFolderEvent now accountId folderId ''sync.backfill_initialized''
                  [(''uidvalidity'', JNum (mv_uidValidity mailbox)),
                   (''upperUid'', JNum (max 0 (mv_uidNext mailbox - 1)))]
                  (update_folder folderId (initial_checkpoints mailbox) h))))"

section \<open>One window\<close>

text \<open>The folder has no window left: it is closed out.\<close>

definition close_out :: "uuid \<Rightarrow> uuid \<Rightarrow> mailbox_view \<Rightarrow> millis \<Rightarrow> (hub, sync_error, batch_outcome) tx" where
  "close_out accountId folderId mailbox now h =
     attempt (lockFolder accountId folderId h) (\<lambda>locked.
       if fo_uidvalidity locked = Some (mv_uidValidity mailbox) \<and> \<not> fo_backfillComplete locked
       then Inr (Bo_Complete,
              recordFolderEvent now accountId folderId ''sync.backfill_complete''
                [(''upperUid'', json_opt JNum (fo_backfillUpperUid locked))]
                (update_folder folderId (\<lambda>f. f\<lparr>fo_backfillComplete := True\<rparr>) h))
       else Inr (Bo_Complete, h))"

definition window_commit ::
    "sync_ports \<Rightarrow> uuid \<Rightarrow> uuid \<Rightarrow> mailbox_view \<Rightarrow> int \<Rightarrow> int \<Rightarrow> int \<Rightarrow> mailbox_headers list \<Rightarrow> millis \<Rightarrow>
     (hub, sync_error, batch_outcome) tx" where
  "window_commit p accountId folderId mailbox low high found records now h =
     attempt (lockFolder accountId folderId h) (\<lambda>locked.
       if fo_uidvalidity locked \<noteq> Some (mv_uidValidity mailbox)
       then Inr (generation_event now accountId folderId (mv_uidValidity mailbox)
              (case fo_uidvalidity locked of None \<Rightarrow> mv_uidValidity mailbox | Some v \<Rightarrow> v) h)
       else
         (case import_window p now accountId folderId (mv_uidValidity mailbox) records h of
            ((imported, skipped), h1) \<Rightarrow>
              (let before = min (case fo_backfillBeforeUid locked of None \<Rightarrow> low | Some b \<Rightarrow> b) low;
                   complete = (before \<le> 1 \<or> fo_backfillComplete locked);
                   h2 = update_folder folderId
                          (\<lambda>f. f\<lparr>fo_backfillBeforeUid := Some before, fo_backfillComplete := complete\<rparr>) h1
               in Inr (Bo_Imported (mv_uidValidity mailbox) (low, high) found imported skipped before complete,
                    recordFolderEvent now accountId folderId
                      (if complete then ''sync.backfill_complete'' else ''sync.backfill_batch'')
                      [(''range'', JObj [(''low'', JNum low), (''high'', JNum high)]), (''found'', JNum found),
                       (''imported'', JNum imported), (''skipped'', JNum skipped), (''beforeUid'', JNum before),
                       (''upperUid'', json_opt JNum (fo_backfillUpperUid locked))] h2))))"

definition fetch_window ::
    "sync_ports \<Rightarrow> mailbox_session \<Rightarrow> uuid \<Rightarrow> uuid \<Rightarrow> mailbox_view \<Rightarrow> initialized_folder \<Rightarrow> batch_outcome run" where
  "fetch_window p ses accountId folderId mailbox eff =
     (let high = nf_backfillBeforeUid eff - 1 in
      if high < 1 then commit p (close_out accountId folderId mailbox)
      else
        (let low = max 1 (high - sp_windowSize p + 1) in
         call (ask p (\<lambda>t. se_searchUids ses t low high)) (\<lambda>uids.
         let ordered = rev (sort uids) in
         call (if ordered = [] then give [] else ask p (\<lambda>t. se_fetchHeaders ses t ordered)) (\<lambda>records.
         call (ask p (se_revalidate ses)) (\<lambda>recheck.
           if mv_uidValidity recheck \<noteq> mv_uidValidity mailbox
           then generationChanged p accountId folderId (mv_uidValidity mailbox) (mv_uidValidity recheck)
           else commit p (window_commit p accountId folderId mailbox low high (int (length ordered)) records))))))"

definition runBatch :: "sync_ports \<Rightarrow> mailbox_session \<Rightarrow> uuid \<Rightarrow> uuid \<Rightarrow> batch_outcome run" where
  "runBatch p ses accountId folderId =
     guard_run (is_uuid accountId \<and> is_uuid folderId) SE_Invalid_Request
     (call (load_folder p accountId folderId) (\<lambda>folder.
      call (ask p (\<lambda>t. se_select ses t (fo_name folder))) (\<lambda>mailbox.
        if fo_uidvalidity folder \<noteq> None \<and> fo_uidvalidity folder \<noteq> Some (mv_uidValidity mailbox)
        then generationChanged p accountId folderId (the (fo_uidvalidity folder)) (mv_uidValidity mailbox)
        else if fo_backfillComplete folder then give Bo_Complete
        else if fo_uidvalidity folder = None \<or> fo_backfillBeforeUid folder = None
        then
          call (commit p (initializeCheckpoints accountId folderId mailbox)) (\<lambda>initialization.
            case initialization of
              In_Changed recorded observed \<Rightarrow> generationChanged p accountId folderId recorded observed
            | In_Ready fresh eff \<Rightarrow>
                if fresh
                then give (Bo_Initialized (nf_uidvalidity eff) (nf_backfillUpperUid eff) (nf_backfillBeforeUid eff)
                        (nf_backfillComplete eff))
                else if nf_backfillComplete eff then give Bo_Complete
                else fetch_window p ses accountId folderId mailbox eff)
        else
          (case toInitialized folder of
             Inl e \<Rightarrow> throw e
           | Inr eff \<Rightarrow>
               if nf_backfillComplete eff then give Bo_Complete
               else fetch_window p ses accountId folderId mailbox eff))))"

end
