(* ===== verification/Sync_Steady.thy ===== *)
theory Sync_Steady
  imports Sync_Backfill
begin

text \<open>
  Steady-state polling, \<open>packages/sync/src/steady.ts\<close>: arrivals in windows, expunges against the
  whole UID set, and flags page by page. A keyset walk reads at most \<open>sp_maxPages\<close> pages.
\<close>

section \<open>When a poll is due\<close>

definition INBOX_POLL_INTERVAL_MS :: int where "INBOX_POLL_INTERVAL_MS = 60000"
definition OTHER_FOLDER_POLL_INTERVAL_MS :: int where "OTHER_FOLDER_POLL_INTERVAL_MS = 15 * 60000"
definition FOLDER_POLLED_EVENT :: string where "FOLDER_POLLED_EVENT = ''sync.folder_polled''"

definition pollIntervalMs :: "folder_row \<Rightarrow> int" where
  "pollIntervalMs folder =
     (if fo_role folder = Some Role_Inbox then INBOX_POLL_INTERVAL_MS else OTHER_FOLDER_POLL_INTERVAL_MS)"

definition elapsed :: "millis option \<Rightarrow> int \<Rightarrow> millis \<Rightarrow> bool" where
  "elapsed recent interval now = (case recent of None \<Rightarrow> True | Some t \<Rightarrow> now - t \<ge> interval)"

definition pollDue :: "sync_ports \<Rightarrow> folder_row \<Rightarrow> bool run" where
  "pollDue p folder w =
     query p (\<lambda>h. Inr (elapsed (lastFolderEventAt (fo_id folder) FOLDER_POLLED_EVENT h) (pollIntervalMs folder)
                        (sp_clock p (wo_time w)))) w"

section \<open>Outcomes\<close>

record poll_counts =
  pc_bound :: int
  pc_found :: int
  pc_imported :: int
  pc_skipped :: int
  pc_flagsObserved :: int
  pc_flagsChanged :: int
  pc_expunged :: int

datatype poll_outcome =
    Po_Polled int poll_counts
  | Po_Generation_Changed int int
  | Po_Uninitialized

text \<open>A part of a poll: its result, or the generation change that stopped it.\<close>

datatype 'a part = Part_Ok 'a | Part_Changed int int

section \<open>Arrivals\<close>

definition arrival_commit ::
    "sync_ports \<Rightarrow> uuid \<Rightarrow> uuid \<Rightarrow> int \<Rightarrow> int \<Rightarrow> mailbox_headers list \<Rightarrow> millis \<Rightarrow>
     (hub, sync_error, (int \<times> int) option) tx" where
  "arrival_commit p accountId folderId generation covered records now h =
     attempt (lockFolder accountId folderId h) (\<lambda>locked.
       if fo_uidvalidity locked \<noteq> Some generation then Inr (None, h)
       else
         (case import_window p now accountId folderId generation records h of
            (counts, h1) \<Rightarrow>
              Inr (Some counts, update_folder folderId
                     (\<lambda>f. f\<lparr>fo_arrivalScannedUid := max (fo_arrivalScannedUid locked) covered\<rparr>) h1)))"

fun arrival_windows ::
    "sync_ports \<Rightarrow> mailbox_session \<Rightarrow> uuid \<Rightarrow> folder_row \<Rightarrow> int \<Rightarrow> int \<Rightarrow> int list list \<Rightarrow>
     int \<times> int \<times> int \<Rightarrow> (int \<times> int \<times> int) part run" where
  "arrival_windows p ses accountId folder generation bound [] counts = give (Part_Ok counts)"
| "arrival_windows p ses accountId folder generation bound (win # wins) (found, imported, skipped) =
     call (ask p (\<lambda>t. se_fetchHeaders ses t win)) (\<lambda>records.
     call (ask p (se_revalidate ses)) (\<lambda>recheck.
       if mv_uidValidity recheck \<noteq> generation then give (Part_Changed generation (mv_uidValidity recheck))
       else
         call (commit p (arrival_commit p accountId (fo_id folder) generation
                  (if wins = [] then bound else last win) records)) (\<lambda>committed.
           case committed of
             None \<Rightarrow>
               call (load_folder p accountId (fo_id folder)) (\<lambda>f.
                 give (Part_Changed generation (case fo_uidvalidity f of None \<Rightarrow> generation | Some v \<Rightarrow> v)))
           | Some (n, m) \<Rightarrow>
               arrival_windows p ses accountId folder generation bound wins
                 (found + int (length win), imported + n, skipped + m))))"

definition importArrivals ::
    "sync_ports \<Rightarrow> mailbox_session \<Rightarrow> uuid \<Rightarrow> folder_row \<Rightarrow> int \<Rightarrow> int \<Rightarrow> (int \<times> int \<times> int \<times> int) part run" where
  "importArrivals p ses accountId folder uidNext generation =
     (let bound = max 0 (uidNext - 1) in
      if bound \<le> fo_arrivalScannedUid folder then give (Part_Ok (bound, 0, 0, 0))
      else
        call (ask p (\<lambda>t. se_searchUids ses t (fo_arrivalScannedUid folder + 1) bound)) (\<lambda>uids.
        let windows = slices (sp_arrivalBatch p) (sort uids) in
        call (arrival_windows p ses accountId folder generation bound
                (if windows = [] then [[]] else windows) (0, 0, 0)) (\<lambda>part.
          case part of
            Part_Ok counts \<Rightarrow> give (Part_Ok (bound, counts))
          | Part_Changed recorded observed \<Rightarrow> give (Part_Changed recorded observed))))"

section \<open>Expunges\<close>

text \<open>The walk over the active occurrences: the identifiers of those the snapshot misses.\<close>

fun absent_walk ::
    "sync_ports \<Rightarrow> uuid \<Rightarrow> uuid \<Rightarrow> int \<Rightarrow> int \<Rightarrow> int list \<Rightarrow> nat \<Rightarrow> int \<Rightarrow> uuid list \<Rightarrow> uuid list run" where
  "absent_walk p accountId folderId generation bound present 0 uidAfter absent = throw SE_Out_Of_Fuel"
| "absent_walk p accountId folderId generation bound present (Suc n) uidAfter absent =
     call (query p (\<lambda>h. Inr (occurrence_page active accountId folderId generation uidAfter (sp_flagBatch p) h))) (\<lambda>page.
       if page = [] then give absent
       else absent_walk p accountId folderId generation bound present n (oc_uid (last page))
              (absent @ map oc_id (filter (\<lambda>oc. oc_uid oc \<le> bound \<and> oc_uid oc \<notin> set present) page)))"

definition expunge_commit ::
    "uuid \<Rightarrow> uuid \<Rightarrow> int \<Rightarrow> uuid list \<Rightarrow> millis \<Rightarrow> (hub, sync_error, int option) tx" where
  "expunge_commit accountId folderId generation absent now h =
     attempt (lockFolder accountId folderId h) (\<lambda>locked.
       if fo_uidvalidity locked \<noteq> Some generation then Inr (None, h)
       else
         (case expunge_slices now (slices OCCURRENCE_SLICE absent) h of
            (n, h1) \<Rightarrow> Inr (Some n, h1)))"

definition markExpunges :: "sync_ports \<Rightarrow> mailbox_session \<Rightarrow> uuid \<Rightarrow> uuid \<Rightarrow> int \<Rightarrow> int part run" where
  "markExpunges p ses accountId folderId generation =
     call (ask p (se_revalidate ses)) (\<lambda>mailbox.
     let bound = max 0 (mv_uidNext mailbox - 1) in
     call (if bound \<ge> 1 then ask p (\<lambda>t. se_searchUids ses t 1 bound) else give []) (\<lambda>present.
     call (absent_walk p accountId folderId generation bound present (sp_maxPages p) 0 []) (\<lambda>absent.
       if absent = [] then give (Part_Ok 0)
       else
         call (ask p (se_revalidate ses)) (\<lambda>recheck.
           if mv_uidValidity recheck \<noteq> generation then give (Part_Changed generation (mv_uidValidity recheck))
           else
             call (commit p (expunge_commit accountId folderId generation absent)) (\<lambda>marked.
               case marked of
                 None \<Rightarrow> give (Part_Changed generation generation)
               | Some n \<Rightarrow> give (Part_Ok n))))))"

section \<open>Flags\<close>

text \<open>
  The changes of one page: the occurrences the server answered with other flags than their rows. Of
  several answers for a UID the last one counts.
\<close>

definition answer_for :: "flag_answer list \<Rightarrow> int \<Rightarrow> flag_answer option" where
  "answer_for answers uid = find (\<lambda>a. fa_uid a = uid) (rev answers)"

definition flag_changes :: "flag_answer list \<Rightarrow> occurrence_row list \<Rightarrow> (uuid \<times> bool \<times> bool) list" where
  "flag_changes answers batch =
     List.map_filter (\<lambda>oc.
       case answer_for answers (oc_uid oc) of
         None \<Rightarrow> None
       | Some a \<Rightarrow>
           if fa_unread a \<noteq> oc_unread oc \<or> fa_flagged a \<noteq> oc_flagged oc
           then Some (oc_id oc, fa_unread a, fa_flagged a) else None) batch"

definition flags_observed :: "flag_answer list \<Rightarrow> occurrence_row list \<Rightarrow> int" where
  "flags_observed answers batch = int (length (filter (\<lambda>oc. answer_for answers (oc_uid oc) \<noteq> None) batch))"

definition apply_change :: "millis \<Rightarrow> (uuid \<times> bool \<times> bool) list \<Rightarrow> occurrence_row \<Rightarrow> occurrence_row" where
  "apply_change now changes oc =
     (case map_of changes (oc_id oc) of
        None \<Rightarrow> oc
      | Some (unread, flagged) \<Rightarrow>
          oc\<lparr>oc_unread := unread, oc_flagged := flagged, oc_revision := oc_revision oc + 1, oc_observedAt := now\<rparr>)"

definition flags_commit ::
    "uuid \<Rightarrow> uuid \<Rightarrow> int \<Rightarrow> (uuid \<times> bool \<times> bool) list \<Rightarrow> millis \<Rightarrow> (hub, sync_error, int option) tx" where
  "flags_commit accountId folderId generation changes now h =
     attempt (lockFolder accountId folderId h) (\<lambda>locked.
       if fo_uidvalidity locked \<noteq> Some generation then Inr (None, h)
       else
         (let P = (\<lambda>oc. oc_id oc \<in> fst ` set changes \<and> active oc) in
          Inr (Some (tbl_count P (h_occurrences h)),
               h\<lparr>h_occurrences := tbl_update P (apply_change now changes) (h_occurrences h)\<rparr>)))"

fun flag_walk ::
    "sync_ports \<Rightarrow> mailbox_session \<Rightarrow> uuid \<Rightarrow> uuid \<Rightarrow> int \<Rightarrow> nat \<Rightarrow> int \<Rightarrow> int \<times> int \<Rightarrow> (int \<times> int) part run" where
  "flag_walk p ses accountId folderId generation 0 uidAfter counts = throw SE_Out_Of_Fuel"
| "flag_walk p ses accountId folderId generation (Suc n) uidAfter (observed, changed) =
     call (query p (\<lambda>h. Inr (occurrence_page active accountId folderId generation uidAfter (sp_flagBatch p) h))) (\<lambda>batch.
       if batch = [] then give (Part_Ok (observed, changed))
       else
         call (ask p (\<lambda>t. se_fetchFlags ses t (map oc_uid batch))) (\<lambda>answers.
         let changes = flag_changes answers batch; seen = observed + flags_observed answers batch in
         if changes = []
         then flag_walk p ses accountId folderId generation n (oc_uid (last batch)) (seen, changed)
         else
           call (ask p (se_revalidate ses)) (\<lambda>recheck.
             if mv_uidValidity recheck \<noteq> generation then give (Part_Changed generation (mv_uidValidity recheck))
             else
               call (commit p (flags_commit accountId folderId generation changes)) (\<lambda>applied.
                 case applied of
                   None \<Rightarrow> give (Part_Changed generation generation)
                 | Some m \<Rightarrow>
                     flag_walk p ses accountId folderId generation n (oc_uid (last batch)) (seen, changed + m)))))"

definition refreshFlags :: "sync_ports \<Rightarrow> mailbox_session \<Rightarrow> uuid \<Rightarrow> uuid \<Rightarrow> int \<Rightarrow> (int \<times> int) part run" where
  "refreshFlags p ses accountId folderId generation =
     flag_walk p ses accountId folderId generation (sp_maxPages p) 0 (0, 0)"

section \<open>One poll\<close>

definition polled_event :: "int \<Rightarrow> poll_counts \<Rightarrow> (string \<times> json) list" where
  "polled_event generation c =
     [(''uidvalidity'', JNum generation), (''bound'', JNum (pc_bound c)), (''found'', JNum (pc_found c)),
      (''imported'', JNum (pc_imported c)), (''skipped'', JNum (pc_skipped c)),
      (''flagsObserved'', JNum (pc_flagsObserved c)), (''flagsChanged'', JNum (pc_flagsChanged c)),
      (''expunged'', JNum (pc_expunged c))]"

definition pollFolder :: "sync_ports \<Rightarrow> mailbox_session \<Rightarrow> uuid \<Rightarrow> uuid \<Rightarrow> poll_outcome run" where
  "pollFolder p ses accountId folderId =
     guard_run (is_uuid accountId \<and> is_uuid folderId) SE_Invalid_Request
     (call (load_folder p accountId folderId) (\<lambda>folder.
      call (ask p (\<lambda>t. se_select ses t (fo_name folder))) (\<lambda>mailbox.
        if fo_uidvalidity folder \<noteq> None \<and> fo_uidvalidity folder \<noteq> Some (mv_uidValidity mailbox)
        then give (Po_Generation_Changed (the (fo_uidvalidity folder)) (mv_uidValidity mailbox))
        else
          (case (fo_uidvalidity folder, fo_backfillBeforeUid folder) of
             (Some generation, Some _) \<Rightarrow>
               call (importArrivals p ses accountId folder (mv_uidNext mailbox) generation) (\<lambda>arrivals.
                 case arrivals of
                   Part_Changed recorded observed \<Rightarrow> give (Po_Generation_Changed recorded observed)
                 | Part_Ok (bound, found, imported, skipped) \<Rightarrow>
                     call (markExpunges p ses accountId folderId generation) (\<lambda>expunged.
                       case expunged of
                         Part_Changed recorded observed \<Rightarrow> give (Po_Generation_Changed recorded observed)
                       | Part_Ok n \<Rightarrow>
                           call (refreshFlags p ses accountId folderId generation) (\<lambda>flags.
                             case flags of
                               Part_Changed recorded observed \<Rightarrow> give (Po_Generation_Changed recorded observed)
                             | Part_Ok (observed, changed) \<Rightarrow>
                                 (let c = \<lparr>pc_bound = bound, pc_found = found, pc_imported = imported,
                                           pc_skipped = skipped, pc_flagsObserved = observed,
                                           pc_flagsChanged = changed, pc_expunged = n\<rparr> in
                                  commit p (\<lambda>now h. Inr (Po_Polled generation c,
                                    recordFolderEvent now accountId folderId FOLDER_POLLED_EVENT
                                      (polled_event generation c) h)))))
                 )
           | _ \<Rightarrow> give Po_Uninitialized))))"

end
