(* ===== verification/Sync_Reconcile.thy ===== *)
theory Sync_Reconcile
  imports Sync_Steady
begin

text \<open>
  Folder reconciliation, \<open>packages/sync/src/reconcile.ts\<close>: the reset of a folder whose generation
  changed, and the nightly inventory of a whole folder.
\<close>

definition FOLDER_INVENTORY_EVENT :: string where "FOLDER_INVENTORY_EVENT = ''sync.folder_inventory''"
definition FOLDER_GENERATION_RESET_EVENT :: string where
  "FOLDER_GENERATION_RESET_EVENT = ''sync.folder_generation_reset''"
definition INVENTORY_INTERVAL_MS :: int where "INVENTORY_INTERVAL_MS = 24 * 60 * 60000"
definition INVENTORY_PAGE :: nat where "INVENTORY_PAGE = 5000"

section \<open>Generation resets\<close>

datatype reset_outcome =
    Rs_Reset int int int
  | Rs_Already_Current int
  | Rs_Superseded int
  | Rs_Uninitialized

definition generation_row :: "uuid \<Rightarrow> uuid \<Rightarrow> int \<Rightarrow> occurrence_row \<Rightarrow> bool" where
  "generation_row accountId folderId v oc \<longleftrightarrow>
     oc_accountId oc = pg_uuid accountId \<and> oc_folderId oc = pg_uuid folderId \<and> oc_uidvalidity oc = v \<and>
     oc_invalidatedAt oc = None"

definition reset_checkpoints :: "int \<Rightarrow> folder_row \<Rightarrow> folder_row" where
  "reset_checkpoints observed f =
     f\<lparr>fo_uidvalidity := Some observed, fo_backfillUpperUid := None, fo_backfillBeforeUid := None,
       fo_backfillComplete := False, fo_arrivalScannedUid := 0\<rparr>"

definition reset_tx :: "uuid \<Rightarrow> uuid \<Rightarrow> int \<Rightarrow> int \<Rightarrow> millis \<Rightarrow> (hub, sync_error, reset_outcome) tx" where
  "reset_tx accountId folderId recorded observed now h =
     attempt (lockFolder accountId folderId h) (\<lambda>locked.
       case fo_uidvalidity locked of
         None \<Rightarrow> Inr (Rs_Uninitialized, h)
       | Some v \<Rightarrow>
           if v = observed then Inr (Rs_Already_Current observed, h)
           else if v \<noteq> recorded then Inr (Rs_Superseded v, h)
           else
             (let P = generation_row accountId folderId v;
                  n = tbl_count P (h_occurrences h);
                  h1 = h\<lparr>h_occurrences := tbl_update P (\<lambda>oc. oc\<lparr>oc_invalidatedAt := Some now\<rparr>) (h_occurrences h)\<rparr>;
                  h2 = update_folder folderId (reset_checkpoints observed) h1
              in Inr (Rs_Reset v observed n,
                   recordFolderEvent now accountId folderId FOLDER_GENERATION_RESET_EVENT
                     [(''recorded'', JNum v), (''observed'', JNum observed), (''invalidated'', JNum n)] h2)))"

definition resetFolderGeneration :: "sync_ports \<Rightarrow> uuid \<Rightarrow> uuid \<Rightarrow> int \<Rightarrow> int \<Rightarrow> reset_outcome run" where
  "resetFolderGeneration p accountId folderId recorded observed =
     guard_run (is_uuid accountId \<and> is_uuid folderId) SE_Invalid_Request
       (commit p (reset_tx accountId folderId recorded observed))"

section \<open>Inventories\<close>

record inventory_counts =
  ic_present :: int
  ic_active :: int
  ic_expunged :: int
  ic_repaired :: int
  ic_skipped :: int
  ic_pendingRepairs :: int

datatype inventory_outcome =
    Iv_Inventoried int inventory_counts
  | Iv_Generation_Changed int int
  | Iv_Uninitialized

definition inventoryDue :: "sync_ports \<Rightarrow> uuid \<Rightarrow> bool run" where
  "inventoryDue p folderId w =
     query p (\<lambda>h. Inr (elapsed (lastFolderEventAt folderId FOLDER_INVENTORY_EVENT h) INVENTORY_INTERVAL_MS
                        (sp_clock p (wo_time w)))) w"

text \<open>The UIDs the checkpoints of a folder promise to have covered.\<close>

definition coveredRange :: "folder_row \<Rightarrow> int \<Rightarrow> bool" where
  "coveredRange folder uid \<longleftrightarrow>
     (let upper = (case fo_backfillUpperUid folder of None \<Rightarrow> 0 | Some u \<Rightarrow> u) in
      uid > upper \<and> uid \<le> fo_arrivalScannedUid folder \<or>
      fo_backfillComplete folder \<and> uid \<le> max upper (fo_arrivalScannedUid folder))"

text \<open>The walk over all occurrences of the generation: known UIDs, active count, absent ones.\<close>

fun inventory_walk ::
    "sync_ports \<Rightarrow> uuid \<Rightarrow> uuid \<Rightarrow> int \<Rightarrow> int \<Rightarrow> int list \<Rightarrow> nat \<Rightarrow> int \<Rightarrow> int list \<times> int \<times> uuid list \<Rightarrow>
     (int list \<times> int \<times> uuid list) run" where
  "inventory_walk p acliveId folderId generation bound present 0 uidAfter acc = throw SE_Out_Of_Fuel"
| "inventory_walk p acliveId folderId generation bound present (Suc n) uidAfter (known, live, absent) =
     call (query p (\<lambda>h. Inr (occurrence_page (\<lambda>_. True) acliveId folderId generation uidAfter INVENTORY_PAGE h))) (\<lambda>page.
       if page = [] then give (known, live, absent)
       else inventory_walk p acliveId folderId generation bound present n (oc_uid (last page))
              (known @ map oc_uid page, live + int (length (filter active page)),
               absent @ map oc_id (filter (\<lambda>oc. active oc \<and> oc_uid oc \<le> bound \<and> oc_uid oc \<notin> set present) page)))"

definition inventory_event :: "int \<Rightarrow> int \<Rightarrow> inventory_counts \<Rightarrow> (string \<times> json) list" where
  "inventory_event generation bound c =
     [(''uidvalidity'', JNum generation), (''bound'', JNum bound), (''present'', JNum (ic_present c)),
      (''active'', JNum (ic_active c)), (''expunged'', JNum (ic_expunged c)), (''repaired'', JNum (ic_repaired c)),
      (''skipped'', JNum (ic_skipped c)), (''pendingRepairs'', JNum (ic_pendingRepairs c))]"

definition inventory_commit ::
    "sync_ports \<Rightarrow> uuid \<Rightarrow> uuid \<Rightarrow> int \<Rightarrow> int \<Rightarrow> int \<Rightarrow> int \<Rightarrow> int \<Rightarrow> uuid list \<Rightarrow> mailbox_headers list \<Rightarrow> millis \<Rightarrow>
     (hub, sync_error, inventory_counts option) tx" where
  "inventory_commit p accountId folderId generation bound present live pendingRepairs absent records now h =
     attempt (lockFolder accountId folderId h) (\<lambda>locked.
       if fo_uidvalidity locked \<noteq> Some generation then Inr (None, h)
       else
         (case import_window p now accountId folderId generation records h of
            ((repaired, skipped), h1) \<Rightarrow>
              (case expunge_slices now (slices OCCURRENCE_SLICE absent) h1 of
                 (n, h2) \<Rightarrow>
                   (let c = \<lparr>ic_present = present, ic_active = live, ic_expunged = n, ic_repaired = repaired,
                             ic_skipped = skipped, ic_pendingRepairs = pendingRepairs\<rparr> in
                    Inr (Some c, recordFolderEvent now accountId folderId FOLDER_INVENTORY_EVENT
                                   (inventory_event generation bound c) h2)))))"

definition inventoryFolder :: "sync_ports \<Rightarrow> mailbox_session \<Rightarrow> uuid \<Rightarrow> uuid \<Rightarrow> inventory_outcome run" where
  "inventoryFolder p ses accountId folderId =
     guard_run (is_uuid accountId \<and> is_uuid folderId) SE_Invalid_Request
     (call (load_folder p accountId folderId) (\<lambda>folder.
      call (ask p (\<lambda>t. se_select ses t (fo_name folder))) (\<lambda>mailbox.
        if fo_uidvalidity folder \<noteq> None \<and> fo_uidvalidity folder \<noteq> Some (mv_uidValidity mailbox)
        then give (Iv_Generation_Changed (the (fo_uidvalidity folder)) (mv_uidValidity mailbox))
        else
          (case (fo_uidvalidity folder, fo_backfillBeforeUid folder) of
             (Some generation, Some _) \<Rightarrow>
               (let bound = max 0 (mv_uidNext mailbox - 1) in
                call (if bound \<ge> 1 then ask p (\<lambda>t. se_searchUids ses t 1 bound) else give []) (\<lambda>present.
                call (inventory_walk p accountId folderId generation bound present (sp_maxPages p) 0 ([], 0, []))
                  (\<lambda>(known, live, absent).
                let missed = rev (sort (filter (\<lambda>u. u \<notin> set known \<and> coveredRange folder u) present));
                    repairs = take (sp_repairLimit p) missed
                in call (if repairs = [] then give [] else ask p (\<lambda>t. se_fetchHeaders ses t repairs)) (\<lambda>records.
                call (ask p (se_revalidate ses)) (\<lambda>recheck.
                  if mv_uidValidity recheck \<noteq> generation
                  then give (Iv_Generation_Changed generation (mv_uidValidity recheck))
                  else
                    call (commit p (inventory_commit p accountId folderId generation bound (int (length present))
                             live (int (length missed) - int (length repairs)) absent records)) (\<lambda>committed.
                      case committed of
                        None \<Rightarrow> give (Iv_Generation_Changed generation generation)
                      | Some c \<Rightarrow> give (Iv_Inventoried generation c)))))))
           | _ \<Rightarrow> give Iv_Uninitialized))))"

end
