(* ===== verification/Sync_Runner.thy ===== *)
theory Sync_Runner
  imports Sync_Reconcile
begin

text \<open>
  One folder of an account's cycle, \<open>synchronizeFolder\<close> of \<open>packages/sync/src/runner.ts\<close>: backfill
  windows within the budget, a poll and an inventory when they are due, and a reset with the rest of
  the budget after every generation change.
\<close>

definition no_counts :: cycle_counts where
  "no_counts =
     \<lparr>cy_folders = 0, cy_batches = 0, cy_imported = 0, cy_bodiesFetched = 0, cy_generationChanges = 0,
      cy_resets = 0, cy_polled = 0, cy_arrivalsImported = 0, cy_flagsRefreshed = 0, cy_expungesMarked = 0,
      cy_inventories = 0, cy_threadsResolved = 0, cy_threadLinksChanged = 0, cy_folderErrors = 0,
      cy_bodyErrors = 0, cy_threadErrors = 0\<rparr>"

definition needsBackfill :: "folder_row \<Rightarrow> bool" where
  "needsBackfill folder \<longleftrightarrow> fo_uidvalidity folder = None \<or> \<not> fo_backfillComplete folder"

text \<open>Looking at the abort signal does not await.\<close>

definition unless_aborted :: "sync_ports \<Rightarrow> 'a run \<Rightarrow> 'a run \<Rightarrow> 'a run" where
  "unless_aborted p m otherwise w = (if sp_aborted p (wo_time w) then otherwise w else m w)"

definition yieldControl :: "sync_ports \<Rightarrow> unit run" where
  "yieldControl p = ask p (\<lambda>_. Inr ())"

definition count_batch :: "cycle_counts \<Rightarrow> cycle_counts" where
  "count_batch s = s\<lparr>cy_batches := cy_batches s + 1\<rparr>"

definition count_imported :: "int \<Rightarrow> cycle_counts \<Rightarrow> cycle_counts" where
  "count_imported n s = s\<lparr>cy_imported := cy_imported s + n\<rparr>"

definition count_poll :: "poll_counts \<Rightarrow> cycle_counts \<Rightarrow> cycle_counts" where
  "count_poll c s =
     s\<lparr>cy_arrivalsImported := cy_arrivalsImported s + pc_imported c,
       cy_flagsRefreshed := cy_flagsRefreshed s + pc_flagsChanged c,
       cy_expungesMarked := cy_expungesMarked s + pc_expunged c\<rparr>"

definition applyReset :: "sync_ports \<Rightarrow> uuid \<Rightarrow> uuid \<Rightarrow> int \<Rightarrow> int \<Rightarrow> unit run" where
  "applyReset p accountId folderId recorded observed =
     call (tally (\<lambda>s. s\<lparr>cy_generationChanges := cy_generationChanges s + 1\<rparr>)) (\<lambda>_.
     call (resetFolderGeneration p accountId folderId recorded observed) (\<lambda>reset.
       case reset of
         Rs_Reset _ _ _ \<Rightarrow> tally (\<lambda>s. s\<lparr>cy_resets := cy_resets s + 1\<rparr>)
       | _ \<Rightarrow> give ()))"

text \<open>What the loops do with the outcome of a batch: its imports, and whether the loop ends.\<close>

definition batch_imported :: "batch_outcome \<Rightarrow> int" where
  "batch_imported out = (case out of Bo_Imported _ _ _ imported _ _ _ \<Rightarrow> imported | _ \<Rightarrow> 0)"

definition batch_last :: "batch_outcome \<Rightarrow> bool" where
  "batch_last out =
     (case out of Bo_Initialized _ _ _ complete \<Rightarrow> complete | Bo_Imported _ _ _ _ _ _ complete \<Rightarrow> complete | _ \<Rightarrow> False)"

text \<open>
  The backfill loop. It looks at the folder row it has_generation with until a reset loads it anew, and
  returns the row it looks at and the budget left.
\<close>

fun backfill_loop ::
    "sync_ports \<Rightarrow> mailbox_session \<Rightarrow> uuid \<Rightarrow> nat \<Rightarrow> folder_row \<Rightarrow> (folder_row \<times> nat) run" where
  "backfill_loop p ses accountId 0 current = give (current, 0)"
| "backfill_loop p ses accountId (Suc budget) current =
     (if \<not> needsBackfill current then give (current, Suc budget)
      else
        unless_aborted p
          (call (runBatch p ses accountId (fo_id current)) (\<lambda>out.
           call (tally count_batch) (\<lambda>_.
             case out of
               Bo_Generation_Changed recorded observed \<Rightarrow>
                 call (applyReset p accountId (fo_id current) recorded observed) (\<lambda>_.
                 call (load_folder p accountId (fo_id current)) (\<lambda>current'.
                   backfill_loop p ses accountId budget current'))
             | _ \<Rightarrow>
                 call (tally (count_imported (batch_imported out))) (\<lambda>_.
                   if batch_last out then give (current, budget)
                   else call (yieldControl p) (\<lambda>_. backfill_loop p ses accountId budget current)))))
          (give (current, Suc budget)))"

definition runResetBackfill ::
    "sync_ports \<Rightarrow> mailbox_session \<Rightarrow> uuid \<Rightarrow> uuid \<Rightarrow> nat \<Rightarrow> folder_row run" where
  "runResetBackfill p ses accountId folderId budget =
     call (load_folder p accountId folderId) (\<lambda>folder.
     call (backfill_loop p ses accountId budget folder) (\<lambda>_.
       load_folder p accountId folderId))"

definition poll_part :: "sync_ports \<Rightarrow> mailbox_session \<Rightarrow> uuid \<Rightarrow> nat \<Rightarrow> folder_row \<Rightarrow> folder_row run" where
  "poll_part p ses accountId budget current =
     unless_aborted p
       (if fo_uidvalidity current = None then give current
        else
          call (pollDue p current) (\<lambda>due.
            if \<not> due then give current
            else
              call (tally (\<lambda>s. s\<lparr>cy_polled := cy_polled s + 1\<rparr>)) (\<lambda>_.
              call (pollFolder p ses accountId (fo_id current)) (\<lambda>poll.
                case poll of
                  Po_Polled _ c \<Rightarrow> call (tally (count_poll c)) (\<lambda>_. give current)
                | Po_Generation_Changed recorded observed \<Rightarrow>
                    call (applyReset p accountId (fo_id current) recorded observed) (\<lambda>_.
                      runResetBackfill p ses accountId (fo_id current) budget)
                | Po_Uninitialized \<Rightarrow> give current))))
       (give current)"

definition inventory_part :: "sync_ports \<Rightarrow> mailbox_session \<Rightarrow> uuid \<Rightarrow> nat \<Rightarrow> folder_row \<Rightarrow> unit run" where
  "inventory_part p ses accountId budget current =
     unless_aborted p
       (if \<not> fo_backfillComplete current then give ()
        else
          call (inventoryDue p (fo_id current)) (\<lambda>due.
            if \<not> due then give ()
            else
              call (tally (\<lambda>s. s\<lparr>cy_inventories := cy_inventories s + 1\<rparr>)) (\<lambda>_.
              call (inventoryFolder p ses accountId (fo_id current)) (\<lambda>inventory.
                case inventory of
                  Iv_Inventoried _ c \<Rightarrow> tally (\<lambda>s. s\<lparr>cy_expungesMarked := cy_expungesMarked s + ic_expunged c\<rparr>)
                | Iv_Generation_Changed recorded observed \<Rightarrow>
                    call (applyReset p accountId (fo_id current) recorded observed) (\<lambda>_.
                    call (runResetBackfill p ses accountId (fo_id current) budget) (\<lambda>_. give ()))
                | Iv_Uninitialized \<Rightarrow> give ()))))
       (give ())"

definition synchronizeFolder :: "sync_ports \<Rightarrow> mailbox_session \<Rightarrow> uuid \<Rightarrow> folder_row \<Rightarrow> unit run" where
  "synchronizeFolder p ses accountId folder =
     call (tally (\<lambda>s. if needsBackfill folder then s\<lparr>cy_folders := cy_folders s + 1\<rparr> else s)) (\<lambda>_.
     call (backfill_loop p ses accountId (sp_batchesPerFolder p) folder) (\<lambda>(current, budget).
     call (load_folder p accountId (fo_id current)) (\<lambda>loaded.
     call (poll_part p ses accountId budget loaded) (\<lambda>current'.
       inventory_part p ses accountId budget current'))))"

end
