(* ===== verification/Sync_Mirror.thy ===== *)
theory Sync_Mirror
  imports Sync_Runner
begin

text \<open>
  What a folder's rows promise about the server. The server is a history of mailbox contents that
  obeys the rules of IMAP on UIDs; a session answers from the content of its time. The invariant
  \<open>mirror\<close> says that every UID the checkpoints count as scanned has its active occurrence, unless the
  server does not hold it any more, and that only occurrences the server does not hold any more are
  marked expunged. \<open>ahead\<close> is the guarantee one writer gives the others: generations and checkpoints
  only move forward.
\<close>

section \<open>The server\<close>

record mailbox_content =
  mc_uidValidity :: int
  mc_uidNext :: int
  mc_uids :: "int list"

type_synonym mailbox_server = "nat \<Rightarrow> mailbox_content"

text \<open>
  The generation never goes back. Within one, \<open>UIDNEXT\<close> does not fall, every UID is below it, and a
  UID below it is never assigned again.
\<close>

definition imap_server :: "mailbox_server \<Rightarrow> bool" where
  "imap_server S \<longleftrightarrow>
     (\<forall>t t'. t \<le> t' \<longrightarrow> mc_uidValidity (S t) \<le> mc_uidValidity (S t')) \<and>
     (\<forall>t. 1 \<le> mc_uidNext (S t) \<and> (\<forall>u \<in> set (mc_uids (S t)). 1 \<le> u \<and> u < mc_uidNext (S t))) \<and>
     (\<forall>t t'. t \<le> t' \<and> mc_uidValidity (S t) = mc_uidValidity (S t') \<longrightarrow>
        mc_uidNext (S t) \<le> mc_uidNext (S t') \<and>
        (\<forall>u \<in> set (mc_uids (S t')). u < mc_uidNext (S t) \<longrightarrow> u \<in> set (mc_uids (S t))))"

definition view_of :: "mailbox_content \<Rightarrow> mailbox_view" where
  "view_of c = \<lparr>mv_uidValidity = mc_uidValidity c, mv_uidNext = mc_uidNext c\<rparr>"

text \<open>A session on the folder \<open>name\<close> of the server: what its answers mean, where it answers.\<close>

definition answers_from :: "mailbox_session \<Rightarrow> string \<Rightarrow> mailbox_server \<Rightarrow> bool" where
  "answers_from ses name S \<longleftrightarrow>
     (\<forall>t v. se_select ses t name = Inr v \<longrightarrow> v = view_of (S t)) \<and>
     (\<forall>t v. se_revalidate ses t = Inr v \<longrightarrow> v = view_of (S t)) \<and>
     (\<forall>t low high us. se_searchUids ses t low high = Inr us \<longrightarrow>
        set us = {u \<in> set (mc_uids (S t)). low \<le> u \<and> u \<le> high}) \<and>
     (\<forall>t us rs. se_fetchHeaders ses t us = Inr rs \<longrightarrow>
        mh_uid ` set rs = set us \<inter> set (mc_uids (S t)))"

definition gone :: "mailbox_server \<Rightarrow> nat \<Rightarrow> int \<Rightarrow> int \<Rightarrow> bool" where
  "gone S t v u \<longleftrightarrow> (\<forall>t' \<ge> t. mc_uidValidity (S t') = v \<longrightarrow> u \<notin> set (mc_uids (S t')))"

definition was_held :: "mailbox_server \<Rightarrow> nat \<Rightarrow> int \<Rightarrow> int \<Rightarrow> bool" where
  "was_held S t v u \<longleftrightarrow> (\<exists>t' \<le> t. mc_uidValidity (S t') = v \<and> u \<in> set (mc_uids (S t')))"

section \<open>The invariant\<close>

record mirrored =
  mr_server :: mailbox_server
  mr_name :: string
  mr_account :: uuid
  mr_folder :: uuid

abbreviation folder_in :: "mirrored \<Rightarrow> hub \<Rightarrow> folder_row option" where
  "folder_in M h \<equiv> folder_of (mr_account M) (mr_folder M) h"

definition of_folder :: "mirrored \<Rightarrow> occurrence_row \<Rightarrow> bool" where
  "of_folder M oc \<longleftrightarrow> oc_folderId oc = pg_uuid (mr_folder M)"

definition upper_uid :: "folder_row \<Rightarrow> int" where
  "upper_uid f = (case fo_backfillUpperUid f of None \<Rightarrow> 0 | Some u \<Rightarrow> u)"

text \<open>The UIDs the checkpoints count as scanned: arrivals, and the windows backfill committed.\<close>

definition scanned :: "folder_row \<Rightarrow> int \<Rightarrow> bool" where
  "scanned f u \<longleftrightarrow>
     upper_uid f < u \<and> u \<le> fo_arrivalScannedUid f \<or>
     (\<exists>b. fo_backfillBeforeUid f = Some b \<and> b \<le> u \<and> u \<le> upper_uid f)"

definition checkpoints_ok :: "folder_row \<Rightarrow> bool" where
  "checkpoints_ok f \<longleftrightarrow>
     (fo_backfillBeforeUid f = None \<longrightarrow> fo_arrivalScannedUid f \<le> 0 \<and> fo_backfillUpperUid f = None) \<and>
     (\<forall>b. fo_backfillBeforeUid f = Some b \<longrightarrow>
        fo_uidvalidity f \<noteq> None \<and> fo_backfillUpperUid f \<noteq> None \<and> b \<le> upper_uid f + 1) \<and>
     (fo_backfillComplete f \<longrightarrow> (\<exists>b. fo_backfillBeforeUid f = Some b \<and> b \<le> 1))"

text \<open>The recorded generation is one the server has reached, and so is the upper end of backfill.\<close>

definition server_ok :: "mirrored \<Rightarrow> nat \<Rightarrow> folder_row \<Rightarrow> bool" where
  "server_ok M t f \<longleftrightarrow>
     (\<forall>v. fo_uidvalidity f = Some v \<longrightarrow> v \<le> mc_uidValidity (mr_server M t) \<and>
        (mc_uidValidity (mr_server M t) = v \<longrightarrow> upper_uid f < mc_uidNext (mr_server M t)))"

definition rows_ok :: "mirrored \<Rightarrow> nat \<Rightarrow> folder_row \<Rightarrow> occurrence_row list \<Rightarrow> bool" where
  "rows_ok M t f ocs \<longleftrightarrow>
     (\<forall>oc \<in> set ocs. of_folder M oc \<longrightarrow>
        oc_accountId oc = pg_uuid (mr_account M) \<and> (\<exists>v. fo_uidvalidity f = Some v \<and> oc_uidvalidity oc \<le> v) \<and>
        was_held (mr_server M) t (oc_uidvalidity oc) (oc_uid oc)) \<and>
     (\<forall>oc \<in> set ocs. \<forall>oc' \<in> set ocs. of_folder M oc \<and> of_folder M oc' \<and>
        oc_uidvalidity oc = oc_uidvalidity oc' \<and> oc_uid oc = oc_uid oc' \<longrightarrow> oc = oc') \<and>
     (\<forall>oc \<in> set ocs. of_folder M oc \<and> fo_uidvalidity f = Some (oc_uidvalidity oc) \<longrightarrow>
        oc_invalidatedAt oc = None \<and>
        (oc_expungedAt oc \<noteq> None \<longrightarrow> gone (mr_server M) t (oc_uidvalidity oc) (oc_uid oc)))"

definition imported_ok :: "mirrored \<Rightarrow> nat \<Rightarrow> folder_row \<Rightarrow> occurrence_row list \<Rightarrow> bool" where
  "imported_ok M t f ocs \<longleftrightarrow>
     (\<forall>v u. fo_uidvalidity f = Some v \<and> scanned f u \<longrightarrow>
        gone (mr_server M) t v u \<or> (\<exists>oc \<in> set ocs. occurrence_at (mr_folder M) v u oc \<and> active oc))"

definition mirror :: "mirrored \<Rightarrow> nat \<Rightarrow> hub \<Rightarrow> bool" where
  "mirror M t h \<longleftrightarrow>
     distinct (map fo_id (h_folders h)) \<and> distinct (map oc_id (h_occurrences h)) \<and>
     (\<exists>f. folder_in M h = Some f \<and> fo_name f = mr_name M \<and> checkpoints_ok f \<and>
        server_ok M t f \<and> rows_ok M t f (h_occurrences h) \<and> imported_ok M t f (h_occurrences h))"

section \<open>The guarantee\<close>

definition row_ahead :: "folder_row \<Rightarrow> folder_row \<Rightarrow> bool" where
  "row_ahead f f' \<longleftrightarrow>
     fo_id f' = fo_id f \<and> fo_name f' = fo_name f \<and>
     (\<forall>v. fo_uidvalidity f = Some v \<longrightarrow> (\<exists>v'. fo_uidvalidity f' = Some v' \<and> v \<le> v' \<and>
        (v' = v \<longrightarrow> fo_arrivalScannedUid f \<le> fo_arrivalScannedUid f' \<and>
           (fo_backfillComplete f \<longrightarrow> fo_backfillComplete f') \<and>
           (\<forall>b. fo_backfillBeforeUid f = Some b \<longrightarrow>
              fo_backfillUpperUid f' = fo_backfillUpperUid f \<and>
              (\<exists>b'. fo_backfillBeforeUid f' = Some b' \<and> b' \<le> b)))))"

definition same_key :: "occurrence_row \<Rightarrow> occurrence_row \<Rightarrow> bool" where
  "same_key oc oc' \<longleftrightarrow>
     oc_id oc' = oc_id oc \<and> oc_folderId oc' = oc_folderId oc \<and> oc_uidvalidity oc' = oc_uidvalidity oc \<and>
     oc_uid oc' = oc_uid oc"

definition ahead :: "mirrored \<Rightarrow> hub \<Rightarrow> hub \<Rightarrow> bool" where
  "ahead M h h' \<longleftrightarrow>
     (\<forall>f. folder_in M h = Some f \<longrightarrow> (\<exists>f'. folder_in M h' = Some f' \<and> row_ahead f f')) \<and>
     (\<forall>oc \<in> set (h_occurrences h). \<exists>oc' \<in> set (h_occurrences h'). same_key oc oc')"

text \<open>What is asked of the other writers: they keep the invariant over time and give the guarantee.\<close>

definition others_keep :: "mirrored \<Rightarrow> sync_ports \<Rightarrow> bool" where
  "others_keep M p \<longleftrightarrow>
     (\<forall>t h. mirror M t h \<longrightarrow> mirror M (Suc t) (sp_env p t h) \<and> ahead M h (sp_env p t h))"

text \<open>Identifiers PostgreSQL draws are new.\<close>

definition fresh_ids :: "sync_ports \<Rightarrow> bool" where
  "fresh_ids p \<longleftrightarrow> (\<forall>h. sp_newId p h \<notin> oc_id ` set (h_occurrences h))"

definition sync_setting :: "mirrored \<Rightarrow> sync_ports \<Rightarrow> mailbox_session \<Rightarrow> bool" where
  "sync_setting M p ses \<longleftrightarrow>
     pg_uuid (mr_folder M) = mr_folder M \<and> imap_server (mr_server M) \<and> answers_from ses (mr_name M) (mr_server M) \<and> others_keep M p \<and> fresh_ids p"

section \<open>Basic facts\<close>

lemma row_ahead_refl [simp]: "row_ahead f f"
  by (simp add: row_ahead_def)

lemma row_ahead_trans: "row_ahead f g \<Longrightarrow> row_ahead g k \<Longrightarrow> row_ahead f k"
  unfolding row_ahead_def by (fastforce dest: order_antisym intro: order_trans)

lemma same_key_refl [simp]: "same_key oc oc"
  by (simp add: same_key_def)

lemma ahead_refl [simp]: "ahead M h h"
  unfolding ahead_def by (blast intro: same_key_refl row_ahead_refl)

lemma ahead_trans: "ahead M h k \<Longrightarrow> ahead M k l \<Longrightarrow> ahead M h l"
  unfolding ahead_def
proof (intro conjI allI impI ballI)
  fix f assume a: "(\<forall>f. folder_in M h = Some f \<longrightarrow> (\<exists>f'. folder_in M k = Some f' \<and> row_ahead f f')) \<and>
      (\<forall>oc \<in> set (h_occurrences h). \<exists>oc' \<in> set (h_occurrences k). same_key oc oc')"
    and b: "(\<forall>f. folder_in M k = Some f \<longrightarrow> (\<exists>f'. folder_in M l = Some f' \<and> row_ahead f f')) \<and>
      (\<forall>oc \<in> set (h_occurrences k). \<exists>oc' \<in> set (h_occurrences l). same_key oc oc')"
  { assume "folder_in M h = Some f"
    with a obtain g where "folder_in M k = Some g" "row_ahead f g" by blast
    with b obtain m where "folder_in M l = Some m" "row_ahead g m" by blast
    with \<open>row_ahead f g\<close> show "\<exists>f'. folder_in M l = Some f' \<and> row_ahead f f'"
      by (blast intro: row_ahead_trans) }
  fix oc assume "oc \<in> set (h_occurrences h)"
  with a obtain x where x: "x \<in> set (h_occurrences k)" "same_key oc x" by blast
  with b obtain y where y: "y \<in> set (h_occurrences l)" "same_key x y" by blast
  with x(2) show "\<exists>oc' \<in> set (h_occurrences l). same_key oc oc'"
    by (intro bexI [of _ y]) (simp_all add: same_key_def)
qed

lemma gone_later: "gone S t v u \<Longrightarrow> t \<le> t' \<Longrightarrow> gone S t' v u"
  by (simp add: gone_def)

lemma was_held_later: "was_held S t v u \<Longrightarrow> t \<le> t' \<Longrightarrow> was_held S t' v u"
  unfolding was_held_def by (elim exE conjE, intro exI conjI) auto

lemma rows_ok_later: "rows_ok M t f ocs \<Longrightarrow> t \<le> t' \<Longrightarrow> rows_ok M t' f ocs"
  by (auto simp: rows_ok_def intro: gone_later was_held_later)

lemma imported_ok_later: "imported_ok M t f ocs \<Longrightarrow> t \<le> t' \<Longrightarrow> imported_ok M t' f ocs"
  unfolding imported_ok_def by (blast intro: gone_later)

lemma server_ok_later:
  assumes "imap_server (mr_server M)" and "server_ok M t f" and "t \<le> t'"
  shows "server_ok M t' f"
  unfolding server_ok_def
proof (intro allI impI conjI)
  fix v assume v: "fo_uidvalidity f = Some v"
  have le: "mc_uidValidity (mr_server M t) \<le> mc_uidValidity (mr_server M t')"
    using assms(1,3) by (simp add: imap_server_def)
  then show "v \<le> mc_uidValidity (mr_server M t')"
    using assms(2) v by (auto simp: server_ok_def)
  assume "mc_uidValidity (mr_server M t') = v"
  with le assms(2) v have e: "mc_uidValidity (mr_server M t) = v" by (auto simp: server_ok_def)
  with \<open>mc_uidValidity (mr_server M t') = v\<close> assms(1,3) have "mc_uidNext (mr_server M t) \<le> mc_uidNext (mr_server M t')"
    by (simp add: imap_server_def)
  with assms(2) v e show "upper_uid f < mc_uidNext (mr_server M t')" by (auto simp: server_ok_def)
qed

lemma mirror_later: "imap_server (mr_server M) \<Longrightarrow> mirror M t h \<Longrightarrow> t \<le> t' \<Longrightarrow> mirror M t' h"
  unfolding mirror_def by (blast intro: rows_ok_later imported_ok_later server_ok_later)

text \<open>A UID below \<open>UIDNEXT\<close> the server does not hold stays away while the generation lasts.\<close>

lemma absent_gone:
  assumes "imap_server S" and "mc_uidValidity (S t0) = v" and "u < mc_uidNext (S t0)" and "t0 \<le> t"
    and "u \<notin> set (mc_uids (S t))"
  shows "gone S t v u"
  unfolding gone_def
proof (intro allI impI)
  fix k assume k: "t \<le> k" "mc_uidValidity (S k) = v"
  have "mc_uidValidity (S t) = v" using assms(1,2,4) k unfolding imap_server_def by (metis order_antisym)
  moreover from this have "u < mc_uidNext (S t)"
    using assms(1-4) unfolding imap_server_def by (metis order_less_le_trans)
  ultimately show "u \<notin> set (mc_uids (S k))" using assms(1,5) k unfolding imap_server_def by metis
qed

lemma beyond_gone: "imap_server S \<Longrightarrow> v < mc_uidValidity (S t) \<Longrightarrow> gone S t v u"
  unfolding gone_def imap_server_def by (metis order_less_le_trans order_less_irrefl)

lemma server_between:
  assumes "imap_server S" and "mc_uidValidity (S t) = v" and "mc_uidValidity (S t') = v" and "t \<le> k" and "k \<le> t'"
  shows "mc_uidValidity (S k) = v"
  using assms unfolding imap_server_def by (metis order_antisym)

end
