(* ===== verification/Sync_Commits.thy ===== *)
theory Sync_Commits
  imports Sync_Mirror
begin

text \<open>
  What each transaction of the synchronization does to the invariant of \<open>Sync_Mirror\<close>: the update of
  a folder's checkpoints, the import of a window, the marks of an expunge pass, the refresh of flags
  and the reset of a generation.
\<close>

section \<open>Frames\<close>

lemma mirror_cong:
  "h_folders h' = h_folders h \<Longrightarrow> h_occurrences h' = h_occurrences h \<Longrightarrow> mirror M t h' \<longleftrightarrow> mirror M t h"
  by (simp add: mirror_def folder_of_def)

lemma ahead_cong:
  "h_folders k' = h_folders k \<Longrightarrow> h_occurrences k' = h_occurrences k \<Longrightarrow> ahead M h k' \<longleftrightarrow> ahead M h k"
  by (simp add: ahead_def folder_of_def)

lemma recordFolderEvent_frame [simp]:
  "h_folders (recordFolderEvent now a f ty pl h) = h_folders h"
  "h_occurrences (recordFolderEvent now a f ty pl h) = h_occurrences h"
  "h_messages (recordFolderEvent now a f ty pl h) = h_messages h"
  by (simp_all add: recordFolderEvent_def)

lemma mark_window_frame [simp]:
  "h_folders (mark_window a ids h) = h_folders h" "h_occurrences (mark_window a ids h) = h_occurrences h"
  by (simp_all add: mark_window_def markThreadJobsDirty_def Let_def)

lemma lockFolder_Inr: "lockFolder a i h = Inr f \<longleftrightarrow> folder_of a i h = Some f"
  by (simp add: lockFolder_def split: option.split)

lemma folder_of_update:
  assumes "folder_of a i h = Some f" and "\<And>r. fo_id (g r) = fo_id r" and "\<And>r. fo_accountId (g r) = fo_accountId r"
  shows "folder_of a i (update_folder i g h) = Some (g f)"
proof -
  have "fo_id f = pg_uuid i" using find_in_set [OF assms(1) [unfolded folder_of_def]] by simp
  with assms show ?thesis
    by (simp add: folder_of_def update_folder_def find_tbl_update_frame)
qed

lemma folder_of_cong: "h_folders h' = h_folders h \<Longrightarrow> folder_of a i h' = folder_of a i h"
  by (simp add: folder_of_def)

lemma update_folder_ids:
  "(\<And>r. fo_id (g r) = fo_id r) \<Longrightarrow> map fo_id (h_folders (update_folder i g h)) = map fo_id (h_folders h)"
  by (simp add: update_folder_def map_tbl_update_frame)

lemma update_folder_occurrences [simp]: "h_occurrences (update_folder i g h) = h_occurrences h"
  by (simp add: update_folder_def)

section \<open>Checkpoints\<close>

lemma mirror_checkpoints:
  assumes "mirror M t h" and "folder_in M h = Some f"
    and "\<And>r. fo_id (g r) = fo_id r" and "\<And>r. fo_accountId (g r) = fo_accountId r" and "\<And>r. fo_name (g r) = fo_name r"
    and "checkpoints_ok (g f)" and "server_ok M t (g f)" and "rows_ok M t (g f) (h_occurrences h)" and "imported_ok M t (g f) (h_occurrences h)"
    and "row_ahead f (g f)"
  shows "mirror M t (update_folder (mr_folder M) g h) \<and> ahead M h (update_folder (mr_folder M) g h)"
proof -
  have f: "folder_in M (update_folder (mr_folder M) g h) = Some (g f)"
    by (rule folder_of_update [OF assms(2-4)])
  have "fo_name f = mr_name M" using assms(1,2) by (auto simp: mirror_def)
  moreover have "distinct (map fo_id (h_folders (update_folder (mr_folder M) g h)))"
    using assms(1) by (simp add: update_folder_ids assms(3) mirror_def)
  moreover have "distinct (map oc_id (h_occurrences h))" using assms(1) by (simp add: mirror_def)
  ultimately have "mirror M t (update_folder (mr_folder M) g h)"
    using f assms(5-9) by (simp add: mirror_def)
  moreover have "ahead M h (update_folder (mr_folder M) g h)"
    unfolding ahead_def using f assms(2,10) by (auto intro: same_key_refl)
  ultimately show ?thesis ..
qed

lemma rows_ok_checkpoints: "fo_uidvalidity f' = fo_uidvalidity f \<Longrightarrow> rows_ok M t f' ocs \<longleftrightarrow> rows_ok M t f ocs"
  by (simp add: rows_ok_def)

lemma imported_ok_more:
  assumes "imported_ok M t f ocs" and "set ocs \<subseteq> set ocs'"
  shows "imported_ok M t f ocs'"
  unfolding imported_ok_def
proof (intro allI impI)
  fix v u assume "fo_uidvalidity f = Some v \<and> scanned f u"
  with assms(1) have "gone (mr_server M) t v u \<or> (\<exists>oc \<in> set ocs. occurrence_at (mr_folder M) v u oc \<and> active oc)"
    by (simp add: imported_ok_def)
  with assms(2) show "gone (mr_server M) t v u \<or> (\<exists>oc \<in> set ocs'. occurrence_at (mr_folder M) v u oc \<and> active oc)"
    by (meson subsetD)
qed

text \<open>The three clauses on the rows of a folder, one by one.\<close>

lemma rows_ok_mine:
  "rows_ok M t f ocs \<Longrightarrow> oc \<in> set ocs \<Longrightarrow> of_folder M oc \<Longrightarrow> fo_uidvalidity f = Some v \<Longrightarrow>
   oc_accountId oc = pg_uuid (mr_account M) \<and> oc_uidvalidity oc \<le> v \<and>
   was_held (mr_server M) t (oc_uidvalidity oc) (oc_uid oc)"
  unfolding rows_ok_def by fastforce

lemma rows_ok_one:
  "rows_ok M t f ocs \<Longrightarrow> oc \<in> set ocs \<Longrightarrow> oc' \<in> set ocs \<Longrightarrow> of_folder M oc \<Longrightarrow> of_folder M oc' \<Longrightarrow>
   oc_uidvalidity oc = oc_uidvalidity oc' \<Longrightarrow> oc_uid oc = oc_uid oc' \<Longrightarrow> oc = oc'"
  unfolding rows_ok_def by blast

lemma rows_ok_current:
  "rows_ok M t f ocs \<Longrightarrow> oc \<in> set ocs \<Longrightarrow> of_folder M oc \<Longrightarrow> fo_uidvalidity f = Some (oc_uidvalidity oc) \<Longrightarrow>
   oc_invalidatedAt oc = None \<and> (oc_expungedAt oc \<noteq> None \<longrightarrow> gone (mr_server M) t (oc_uidvalidity oc) (oc_uid oc))"
  unfolding rows_ok_def by blast

section \<open>Importing\<close>

lemma importHeaderRecord_frame: "h_folders (snd (importHeaderRecord p now a i v r h)) = h_folders h"
  by (simp add: importHeaderRecord_def Let_def)

lemma import_records_snd:
  "snd (import_records p now a i v (r # rs) h) =
   snd (import_records p now a i v rs (snd (importHeaderRecord p now a i v r h)))"
  by (simp split: prod.split)

lemma import_records_frame: "h_folders (snd (import_records p now a i v rs h)) = h_folders h"
  by (induction rs arbitrary: h) (simp_all add: import_records_snd importHeaderRecord_frame del: import_records.simps(2))

text \<open>One record: nothing, where its UID has an occurrence; else one new active occurrence.\<close>

lemma importHeaderRecord_cases:
  obtains "\<exists>oc \<in> set (h_occurrences h). occurrence_at i v (mh_uid r) oc"
    and "snd (importHeaderRecord p now a i v r h) = h"
  | k m where "\<forall>oc \<in> set (h_occurrences h). \<not> occurrence_at i v (mh_uid r) oc"
    and "h_occurrences (snd (importHeaderRecord p now a i v r h)) =
           h_occurrences h @ [new_occurrence (sp_newId p k) a m i v now r]"
    and "h_occurrences k = h_occurrences h"
proof (cases "list_ex (occurrence_at i v (mh_uid r)) (h_occurrences h)")
  case True
  then show ?thesis using that(1) by (simp add: importHeaderRecord_def list_ex_iff)
next
  case False
  let ?k = "h\<lparr>h_messages := h_messages h @ [provisional_message (sp_newId p h) a (sp_parseHeaderBlock p (mh_rawHeaders r)) r]\<rparr>"
  show ?thesis
    by (rule that(2) [of ?k "sp_newId p h"]) (use False in \<open>simp_all add: importHeaderRecord_def Let_def list_ex_iff\<close>)
qed

lemma new_occurrence_simps [simp]:
  "oc_id (new_occurrence k a m i v now r) = k" "oc_folderId (new_occurrence k a m i v now r) = pg_uuid i"
  "oc_accountId (new_occurrence k a m i v now r) = pg_uuid a"
  "oc_uidvalidity (new_occurrence k a m i v now r) = v" "oc_uid (new_occurrence k a m i v now r) = mh_uid r"
  "oc_expungedAt (new_occurrence k a m i v now r) = None" "oc_invalidatedAt (new_occurrence k a m i v now r) = None"
  by (simp_all add: new_occurrence_def)

definition grows :: "mirrored \<Rightarrow> int \<Rightarrow> int set \<Rightarrow> hub \<Rightarrow> hub \<Rightarrow> bool" where
  "grows M v U h h' \<longleftrightarrow>
     h_folders h' = h_folders h \<and> set (h_occurrences h) \<subseteq> set (h_occurrences h') \<and>
     distinct (map oc_id (h_occurrences h')) \<and>
     (\<forall>oc \<in> set (h_occurrences h') - set (h_occurrences h).
        of_folder M oc \<and> oc_accountId oc = pg_uuid (mr_account M) \<and> oc_uidvalidity oc = v \<and> active oc \<and> oc_uid oc \<in> U \<and>
        (\<forall>oc' \<in> set (h_occurrences h'). of_folder M oc' \<and> oc_uidvalidity oc' = v \<and> oc_uid oc' = oc_uid oc \<longrightarrow> oc' = oc))"

lemma grows_refl: "distinct (map oc_id (h_occurrences h)) \<Longrightarrow> grows M v U h h"
  by (simp add: grows_def)

lemma grows_record:
  assumes "fresh_ids p" and "grows M v U h0 h" and "mh_uid r \<in> U"
  shows "grows M v U h0 (snd (importHeaderRecord p now (mr_account M) (mr_folder M) v r h)) \<and>
    (\<exists>oc \<in> set (h_occurrences (snd (importHeaderRecord p now (mr_account M) (mr_folder M) v r h))).
       occurrence_at (mr_folder M) v (mh_uid r) oc)"
proof (cases rule: importHeaderRecord_cases [of h "mr_folder M" v r p now "mr_account M"])
  case 1
  then show ?thesis using assms(2) by simp
next
  case (2 k m)
  let ?h' = "snd (importHeaderRecord p now (mr_account M) (mr_folder M) v r h)"
  let ?new = "new_occurrence (sp_newId p k) (mr_account M) m (mr_folder M) v now r"
  have id: "sp_newId p k \<notin> oc_id ` set (h_occurrences h)"
    using assms(1) 2(3) unfolding fresh_ids_def by metis
  have fo: "h_folders ?h' = h_folders h" by (rule importHeaderRecord_frame)
  have new: "of_folder M ?new" "active ?new" by (simp_all add: of_folder_def active_def)
  have old: "\<not> (of_folder M oc \<and> oc_uidvalidity oc = v \<and> oc_uid oc = mh_uid r)" if "oc \<in> set (h_occurrences h)" for oc
    using 2(1) that by (simp add: occurrence_at_def of_folder_def)
  have g: "h_folders h = h_folders h0" "set (h_occurrences h0) \<subseteq> set (h_occurrences h)"
    "distinct (map oc_id (h_occurrences h))"
    using assms(2) by (simp_all add: grows_def)
  have gn: "of_folder M oc \<and> oc_accountId oc = pg_uuid (mr_account M) \<and> oc_uidvalidity oc = v \<and> active oc \<and> oc_uid oc \<in> U"
    "\<And>oc'. oc' \<in> set (h_occurrences h) \<Longrightarrow> of_folder M oc' \<Longrightarrow> oc_uidvalidity oc' = v \<Longrightarrow> oc_uid oc' = oc_uid oc \<Longrightarrow> oc' = oc"
    if "oc \<in> set (h_occurrences h)" "oc \<notin> set (h_occurrences h0)" for oc
    using assms(2) that by (simp_all add: grows_def)
  have "grows M v U h0 ?h'"
    unfolding grows_def fo 2(2)
  proof (intro conjI ballI impI)
    show "h_folders h = h_folders h0" by (rule g(1))
    show "set (h_occurrences h0) \<subseteq> set (h_occurrences h @ [?new])" using g(2) by auto
    show "distinct (map oc_id (h_occurrences h @ [?new]))" using g(3) id by simp
    fix oc assume "oc \<in> set (h_occurrences h @ [?new]) - set (h_occurrences h0)"
    then consider "oc = ?new" | "oc \<in> set (h_occurrences h)" "oc \<notin> set (h_occurrences h0)" by auto
    note oc = this
    show "of_folder M oc" using oc by (cases; simp add: gn new)
    show "oc_accountId oc = pg_uuid (mr_account M)" using oc by (cases; simp add: gn)
    show v: "oc_uidvalidity oc = v" using oc by (cases; simp add: gn)
    show "active oc" using oc by (cases; simp add: gn new)
    show "oc_uid oc \<in> U" using oc by (cases; simp add: gn assms(3))
    fix oc' assume oc': "oc' \<in> set (h_occurrences h @ [?new])"
      and e: "of_folder M oc' \<and> oc_uidvalidity oc' = v \<and> oc_uid oc' = oc_uid oc"
    show "oc' = oc" using oc
    proof cases
      case 1
      then show ?thesis using oc' e old [of oc'] by auto
    next
      case 2
      have "oc_uid ?new \<noteq> oc_uid oc" using old [OF 2(1)] gn(1) [OF 2] by auto
      with e have "oc' \<noteq> ?new" by metis
      with oc' have "oc' \<in> set (h_occurrences h)" by simp
      with e show ?thesis by (intro gn(2) [OF 2]) simp_all
    qed
  qed
  moreover have "occurrence_at (mr_folder M) v (mh_uid r) ?new" by (simp add: occurrence_at_def)
  ultimately show ?thesis unfolding 2(2) by auto
qed

lemma import_records_grow:
  assumes "fresh_ids p" and "grows M v U h0 h" and "mh_uid ` set rs \<subseteq> U"
  shows "grows M v U h0 (snd (import_records p now (mr_account M) (mr_folder M) v rs h)) \<and>
    set (h_occurrences h) \<subseteq> set (h_occurrences (snd (import_records p now (mr_account M) (mr_folder M) v rs h))) \<and>
    (\<forall>u \<in> mh_uid ` set rs. \<exists>oc \<in> set (h_occurrences (snd (import_records p now (mr_account M) (mr_folder M) v rs h))).
       occurrence_at (mr_folder M) v u oc)"
  using assms(2,3)
proof (induction rs arbitrary: h)
  case (Cons r rs)
  let ?h1 = "snd (importHeaderRecord p now (mr_account M) (mr_folder M) v r h)"
  have g: "grows M v U h0 ?h1" and r: "\<exists>oc \<in> set (h_occurrences ?h1). occurrence_at (mr_folder M) v (mh_uid r) oc"
    using grows_record [OF assms(1) Cons.prems(1)] Cons.prems(2) by simp_all
  have "set (h_occurrences h) \<subseteq> set (h_occurrences ?h1)"
    by (cases rule: importHeaderRecord_cases [of h "mr_folder M" v r p now "mr_account M"]) auto
  with Cons.IH [OF g] Cons.prems(2) r show ?case unfolding import_records_snd by (auto dest: subsetD)
qed simp

lemma grows_keeps:
  assumes "mirror M t h" and "folder_in M h = Some f" and "fo_uidvalidity f = Some v" and "grows M v U h h'"
    and "\<forall>u \<in> U. was_held (mr_server M) t v u"
  shows "mirror M t h' \<and> ahead M h h'"
proof -
  have m: "checkpoints_ok f" "rows_ok M t f (h_occurrences h)" "imported_ok M t f (h_occurrences h)" "fo_name f = mr_name M" "server_ok M t f"
    "distinct (map fo_id (h_folders h))"
    using assms(1,2) by (auto simp: mirror_def)
  have f: "folder_in M h' = Some f" using assms(2,4) by (simp add: folder_of_def grows_def)
  have new: "of_folder M oc \<and> oc_accountId oc = pg_uuid (mr_account M) \<and> oc_uidvalidity oc = v \<and> active oc \<and>
      was_held (mr_server M) t v (oc_uid oc)"
    if "oc \<in> set (h_occurrences h')" "oc \<notin> set (h_occurrences h)" for oc
    using assms(4,5) that by (simp add: grows_def)
  have one: "oc' = oc" if "oc \<in> set (h_occurrences h')" "oc \<notin> set (h_occurrences h)" "oc' \<in> set (h_occurrences h')"
      "of_folder M oc'" "oc_uidvalidity oc' = v" "oc_uid oc' = oc_uid oc" for oc oc'
    using assms(4) that by (simp add: grows_def)
  have "rows_ok M t f (h_occurrences h')"
    unfolding rows_ok_def
  proof (intro conjI ballI impI)
    fix oc assume oc: "oc \<in> set (h_occurrences h')"
    have r: "oc_accountId oc = pg_uuid (mr_account M) \<and> oc_uidvalidity oc \<le> v \<and>
        was_held (mr_server M) t (oc_uidvalidity oc) (oc_uid oc)" if "of_folder M oc"
      using rows_ok_mine [OF m(2) _ that assms(3)] new [OF oc] by blast
    have c: "oc_invalidatedAt oc = None \<and>
        (oc_expungedAt oc \<noteq> None \<longrightarrow> gone (mr_server M) t (oc_uidvalidity oc) (oc_uid oc))"
      if "of_folder M oc" "oc_uidvalidity oc = v"
    proof (cases "oc \<in> set (h_occurrences h)")
      case True
      then show ?thesis using rows_ok_current [OF m(2) True that(1)] that(2) assms(3) by simp
    next
      case False
      then show ?thesis using new [OF oc] by (simp add: active_def)
    qed
    { assume "of_folder M oc"
      then show "oc_accountId oc = pg_uuid (mr_account M)" using r by blast }
    { assume "of_folder M oc"
      then show "\<exists>v. fo_uidvalidity f = Some v \<and> oc_uidvalidity oc \<le> v" using r assms(3) by blast }
    { assume "of_folder M oc"
      then show "was_held (mr_server M) t (oc_uidvalidity oc) (oc_uid oc)" using r by blast }
    { assume "of_folder M oc \<and> fo_uidvalidity f = Some (oc_uidvalidity oc)"
      then show "oc_invalidatedAt oc = None" using c assms(3) by simp }
    { assume "of_folder M oc \<and> fo_uidvalidity f = Some (oc_uidvalidity oc)" "oc_expungedAt oc \<noteq> None"
      then show "gone (mr_server M) t (oc_uidvalidity oc) (oc_uid oc)" using c assms(3) by simp }
    fix oc' assume oc': "oc' \<in> set (h_occurrences h')"
      and e: "of_folder M oc \<and> of_folder M oc' \<and> oc_uidvalidity oc = oc_uidvalidity oc' \<and> oc_uid oc = oc_uid oc'"
    show "oc = oc'"
    proof (cases "oc \<in> set (h_occurrences h)")
      case False
      have v: "oc_uidvalidity oc' = v" using new [OF oc False] e by argo
      show ?thesis by (rule one [OF oc False oc' _ v, symmetric]) (use e in argo)+
    next
      case True
      show ?thesis
      proof (cases "oc' \<in> set (h_occurrences h)")
        case False
        have v: "oc_uidvalidity oc = v" using new [OF oc' False] e by argo
        show ?thesis by (rule one [OF oc' False oc _ v]) (use e in argo)+
      next
        case t: True
        show ?thesis by (rule rows_ok_one [OF m(2) True t]) (use e in argo)+
      qed
    qed
  qed
  moreover have "imported_ok M t f (h_occurrences h')"
    using assms(4) by (intro imported_ok_more [OF m(3)]) (simp add: grows_def)
  ultimately have "mirror M t h'"
    using f m(1,4,5,6) assms(4) by (simp add: mirror_def grows_def)
  moreover have "ahead M h h'"
    using assms(2,4) f by (auto simp: ahead_def grows_def intro: same_key_refl)
  ultimately show ?thesis ..
qed

text \<open>A window imported into the current generation.\<close>

lemma import_window_keeps:
  assumes "fresh_ids p" and "mirror M t h" and "folder_in M h = Some f" and "fo_uidvalidity f = Some v"
    and "import_window p now (mr_account M) (mr_folder M) v rs h = (counts, h')"
    and "\<forall>u \<in> mh_uid ` set rs. was_held (mr_server M) t v u"
  shows "mirror M t h'" and "ahead M h h'" and "h_folders h' = h_folders h"
    and "\<And>u. u \<in> mh_uid ` set rs \<Longrightarrow>
      gone (mr_server M) t v u \<or> (\<exists>oc \<in> set (h_occurrences h'). occurrence_at (mr_folder M) v u oc \<and> active oc)"
proof -
  let ?h1 = "snd (import_records p now (mr_account M) (mr_folder M) v rs h)"
  have fr: "h_folders h' = h_folders ?h1" "h_occurrences h' = h_occurrences ?h1"
    using assms(5) by (auto simp: import_window_def split: prod.splits)
  have d: "distinct (map oc_id (h_occurrences h))" using assms(2) by (simp add: mirror_def)
  note g = import_records_grow [OF assms(1) grows_refl [OF d] order_refl, where M = M and v = v and now = now and rs = rs]
  have k: "mirror M t ?h1 \<and> ahead M h ?h1" using g assms(6) by (intro grows_keeps [OF assms(2-4), of "mh_uid ` set rs"]) simp_all
  with fr show m: "mirror M t h'" and "ahead M h h'" by (simp_all add: mirror_cong [OF fr] ahead_cong [OF fr])
  show fo: "h_folders h' = h_folders h" by (simp add: fr import_records_frame)
  fix u assume "u \<in> mh_uid ` set rs"
  with g fr obtain oc where oc: "oc \<in> set (h_occurrences h')" "occurrence_at (mr_folder M) v u oc" by auto
  have "folder_in M h' = Some f" using assms(3) fo by (simp add: folder_of_def)
  with m have "rows_ok M t f (h_occurrences h')" by (auto simp: mirror_def)
  with oc assms(4) have "oc_invalidatedAt oc = None \<and> (oc_expungedAt oc \<noteq> None \<longrightarrow> gone (mr_server M) t v u)"
    by (auto simp: rows_ok_def occurrence_at_def of_folder_def)
  with oc show "gone (mr_server M) t v u \<or> (\<exists>oc \<in> set (h_occurrences h'). occurrence_at (mr_folder M) v u oc \<and> active oc)"
    by (cases "oc_expungedAt oc") (auto simp: active_def)
qed

section \<open>Marks on occurrences\<close>

text \<open>An update that keeps the keys, spares the current generation its invalidation and expunges only what is gone.\<close>

lemma mirror_occurrences:
  assumes "mirror M t h" and "folder_in M h = Some f"
    and "h_folders h' = h_folders h" and "h_occurrences h' = map g (h_occurrences h)"
    and "\<And>oc. same_key oc (g oc)" and "\<And>oc. oc_accountId (g oc) = oc_accountId oc"
    and "\<And>oc. oc \<in> set (h_occurrences h) \<Longrightarrow> of_folder M oc \<Longrightarrow> fo_uidvalidity f = Some (oc_uidvalidity oc) \<Longrightarrow>
      oc_invalidatedAt (g oc) = oc_invalidatedAt oc \<and>
      (oc_expungedAt (g oc) = oc_expungedAt oc \<or> gone (mr_server M) t (oc_uidvalidity oc) (oc_uid oc))"
  shows "mirror M t h' \<and> ahead M h h'"
proof -
  have m: "checkpoints_ok f" "rows_ok M t f (h_occurrences h)" "imported_ok M t f (h_occurrences h)" "fo_name f = mr_name M"
    "server_ok M t f" "distinct (map fo_id (h_folders h))" "distinct (map oc_id (h_occurrences h))"
    using assms(1,2) by (auto simp: mirror_def)
  have f: "folder_in M h' = Some f" using assms(2,3) by (simp add: folder_of_def)
  have key [simp]: "of_folder M (g oc) = of_folder M oc" "oc_uidvalidity (g oc) = oc_uidvalidity oc" "oc_uid (g oc) = oc_uid oc"
    "oc_id (g oc) = oc_id oc" for oc
    using assms(5) [of oc] by (simp_all add: same_key_def of_folder_def)
  have ids: "map oc_id (h_occurrences h') = map oc_id (h_occurrences h)" by (simp add: assms(4))
  have "rows_ok M t f (h_occurrences h')"
    unfolding rows_ok_def assms(4) set_map
  proof (intro conjI ballI impI; elim imageE; hypsubst)
    fix x assume x: "x \<in> set (h_occurrences h)"
    { assume "of_folder M (g x)"
      then show "oc_accountId (g x) = pg_uuid (mr_account M)" "\<exists>v. fo_uidvalidity f = Some v \<and> oc_uidvalidity (g x) \<le> v"
        "was_held (mr_server M) t (oc_uidvalidity (g x)) (oc_uid (g x))"
        using m(2) x assms(6) by (simp_all add: rows_ok_def) }
    { assume "of_folder M (g x) \<and> fo_uidvalidity f = Some (oc_uidvalidity (g x))"
      then show "oc_invalidatedAt (g x) = None"
        using assms(7) [OF x] rows_ok_current [OF m(2) x] by simp }
    { assume "of_folder M (g x) \<and> fo_uidvalidity f = Some (oc_uidvalidity (g x))" "oc_expungedAt (g x) \<noteq> None"
      then show "gone (mr_server M) t (oc_uidvalidity (g x)) (oc_uid (g x))"
        using assms(7) [OF x] rows_ok_current [OF m(2) x] by auto }
    fix y assume y: "y \<in> set (h_occurrences h)"
      and e: "of_folder M (g x) \<and> of_folder M (g y) \<and> oc_uidvalidity (g x) = oc_uidvalidity (g y) \<and> oc_uid (g x) = oc_uid (g y)"
    have "x = y" by (rule rows_ok_one [OF m(2) x y]) (use e in simp_all)
    then show "g x = g y" by simp
  qed
  moreover have "imported_ok M t f (h_occurrences h')"
    unfolding imported_ok_def
  proof (intro allI impI)
    fix v u assume v: "fo_uidvalidity f = Some v \<and> scanned f u"
    then consider "gone (mr_server M) t v u"
      | oc where "oc \<in> set (h_occurrences h)" "occurrence_at (mr_folder M) v u oc" "active oc"
      using m(3) unfolding imported_ok_def by blast
    then show "gone (mr_server M) t v u \<or> (\<exists>oc \<in> set (h_occurrences h'). occurrence_at (mr_folder M) v u oc \<and> active oc)"
    proof cases
      case (2 oc)
      have "of_folder M oc" and at: "oc_uidvalidity oc = v" "oc_uid oc = u" "occurrence_at (mr_folder M) v u (g oc)"
        using 2(2) assms(5) [of oc] by (simp_all add: occurrence_at_def of_folder_def same_key_def)
      then have "active (g oc) \<or> gone (mr_server M) t v u"
        using assms(7) [OF 2(1)] 2(3) v by (auto simp: active_def)
      then show ?thesis using 2(1) at(3) assms(4) by auto
    qed simp
  qed
  ultimately have "mirror M t h'"
    using f m(1,4,5,6,7) ids assms(3) by (simp add: mirror_def)
  moreover have "ahead M h h'"
    using assms(2,4,5) f by (auto simp: ahead_def)
  ultimately show ?thesis ..
qed

definition expunged_at :: "millis \<Rightarrow> uuid set \<Rightarrow> occurrence_row \<Rightarrow> occurrence_row" where
  "expunged_at now I oc = (if oc_id oc \<in> I \<and> oc_expungedAt oc = None then oc\<lparr>oc_expungedAt := Some now\<rparr> else oc)"

lemma expunge_slices_snd:
  "snd (expunge_slices now (s # ss) h) = snd (expunge_slices now ss (snd (expunge_slice now s h)))"
  by (simp split: prod.split)

lemma expunge_slices_folders: "h_folders (snd (expunge_slices now ss h)) = h_folders h"
  by (induction ss arbitrary: h)
    (simp_all add: expunge_slices_snd expunge_slice_def Let_def del: expunge_slices.simps(2))

lemma expunged_at_twice: "expunged_at now I (expunged_at now J oc) = expunged_at now (I \<union> J) oc"
  by (simp add: expunged_at_def)

lemma expunge_slice_occurrences:
  "h_occurrences (snd (expunge_slice now s h)) = map (expunged_at now (set s)) (h_occurrences h)"
  by (simp add: expunge_slice_def Let_def tbl_update_def expunged_at_def)

lemma expunge_slices_occurrences:
  "h_occurrences (snd (expunge_slices now ss h)) = map (expunged_at now (\<Union> (set ` set ss))) (h_occurrences h)"
proof (induction ss arbitrary: h)
  case Nil
  have "expunged_at now {} = id" by (simp add: expunged_at_def fun_eq_iff)
  then show ?case by simp
next
  case (Cons s ss)
  have "h_occurrences (snd (expunge_slices now (s # ss) h)) =
      map (expunged_at now (\<Union> (set ` set ss))) (map (expunged_at now (set s)) (h_occurrences h))"
    unfolding expunge_slices_snd Cons.IH expunge_slice_occurrences by (rule refl)
  then show ?case by (simp add: expunged_at_twice Un_commute comp_def)
qed

lemma slices_set: "0 < n \<Longrightarrow> \<Union> (set ` set (slices n xs)) = set xs"
proof (induction n xs rule: slices.induct)
  case (1 n xs)
  then show ?case
    by (subst slices.simps) (auto simp: set_append [symmetric] simp del: set_append)
qed

section \<open>The transactions\<close>

text \<open>Identifiers that name rows of one generation, with UIDs of one set.\<close>

definition names_rows :: "mirrored \<Rightarrow> int \<Rightarrow> int set \<Rightarrow> uuid list \<Rightarrow> hub \<Rightarrow> bool" where
  "names_rows M v D ids h \<longleftrightarrow>
     (\<forall>i \<in> set ids. \<exists>oc \<in> set (h_occurrences h).
        oc_id oc = i \<and> of_folder M oc \<and> oc_uidvalidity oc = v \<and> oc_uid oc \<in> D)"

lemma names_rows_ahead: "names_rows M v D ids h \<Longrightarrow> ahead M h h' \<Longrightarrow> names_rows M v D ids h'"
  unfolding names_rows_def
proof (intro ballI)
  fix i assume a: "ahead M h h'" and n: "\<forall>i \<in> set ids. \<exists>oc \<in> set (h_occurrences h).
      oc_id oc = i \<and> of_folder M oc \<and> oc_uidvalidity oc = v \<and> oc_uid oc \<in> D" and "i \<in> set ids"
  then obtain oc where oc: "oc \<in> set (h_occurrences h)" "oc_id oc = i" "of_folder M oc" "oc_uidvalidity oc = v" "oc_uid oc \<in> D"
    by blast
  then obtain oc' where "oc' \<in> set (h_occurrences h')" "same_key oc oc'" using a unfolding ahead_def by blast
  with oc show "\<exists>oc \<in> set (h_occurrences h'). oc_id oc = i \<and> of_folder M oc \<and> oc_uidvalidity oc = v \<and> oc_uid oc \<in> D"
    by (intro bexI [of _ oc']) (simp_all add: same_key_def of_folder_def)
qed

lemma expunge_keeps:
  assumes "mirror M t h" and "names_rows M v D ids h" and "\<forall>u \<in> D. gone (mr_server M) t v u"
  shows "mirror M t (snd (expunge_slices now (slices OCCURRENCE_SLICE ids) h)) \<and>
    ahead M h (snd (expunge_slices now (slices OCCURRENCE_SLICE ids) h))"
proof -
  obtain f where f: "folder_in M h = Some f" using assms(1) by (auto simp: mirror_def)
  have d: "distinct (map oc_id (h_occurrences h))" using assms(1) by (simp add: mirror_def)
  have dead: "gone (mr_server M) t (oc_uidvalidity oc) (oc_uid oc)" if oc: "oc \<in> set (h_occurrences h)" "oc_id oc \<in> set ids" for oc
  proof -
    obtain oc' where "oc' \<in> set (h_occurrences h)" "oc_id oc' = oc_id oc" "oc_uidvalidity oc' = v" "oc_uid oc' \<in> D"
      using assms(2) oc(2) unfolding names_rows_def by metis
    moreover from this oc(1) d have "oc' = oc" by (metis distinct_map inj_onD)
    ultimately show ?thesis using assms(3) by simp
  qed
  have "0 < OCCURRENCE_SLICE" by (simp add: OCCURRENCE_SLICE_def)
  show ?thesis
  proof (rule mirror_occurrences [OF assms(1) f expunge_slices_folders expunge_slices_occurrences])
    fix oc show "same_key oc (expunged_at now (\<Union> (set ` set (slices OCCURRENCE_SLICE ids))) oc)"
      "oc_accountId (expunged_at now (\<Union> (set ` set (slices OCCURRENCE_SLICE ids))) oc) = oc_accountId oc"
      by (simp_all add: expunged_at_def same_key_def)
  next
    fix oc assume "oc \<in> set (h_occurrences h)"
    then show "oc_invalidatedAt (expunged_at now (\<Union> (set ` set (slices OCCURRENCE_SLICE ids))) oc) = oc_invalidatedAt oc \<and>
        (oc_expungedAt (expunged_at now (\<Union> (set ` set (slices OCCURRENCE_SLICE ids))) oc) = oc_expungedAt oc \<or>
         gone (mr_server M) t (oc_uidvalidity oc) (oc_uid oc))"
      using dead slices_set [OF \<open>0 < OCCURRENCE_SLICE\<close>, of ids] by (simp add: expunged_at_def)
  qed
qed

lemma expunge_commit_keeps:
  assumes "mirror M t h" and "expunge_commit (mr_account M) (mr_folder M) v ids now h = Inr (r, h')"
    and "names_rows M v D ids h" and "\<forall>u \<in> D. gone (mr_server M) t v u"
  shows "mirror M t h' \<and> ahead M h h'"
  using assms(2) expunge_keeps [OF assms(1,3,4), of now] assms(1)
  by (auto simp: expunge_commit_def attempt_def split: sum.splits if_splits prod.splits)

lemma flags_commit_keeps:
  assumes "mirror M t h" and "flags_commit (mr_account M) (mr_folder M) v changes now h = Inr (r, h')"
  shows "mirror M t h' \<and> ahead M h h'"
proof (cases "h' = h")
  case True
  then show ?thesis using assms(1) by simp
next
  case False
  let ?g = "\<lambda>oc. if oc_id oc \<in> fst ` set changes \<and> active oc then apply_change now changes oc else oc"
  have "h' = h\<lparr>h_occurrences := map ?g (h_occurrences h)\<rparr>"
    using assms(2) False by (auto simp: flags_commit_def attempt_def Let_def tbl_update_def split: sum.splits if_splits)
  moreover obtain f where f: "folder_in M h = Some f" using assms(1) by (auto simp: mirror_def)
  ultimately show ?thesis
    by (intro mirror_occurrences [OF assms(1) f, where g = ?g])
      (simp_all add: same_key_def apply_change_def split: option.split)
qed

lemma reset_tx_keeps:
  assumes "mirror M t h" and "reset_tx (mr_account M) (mr_folder M) recorded observed now h = Inr (r, h')"
    and "recorded \<le> observed" and "observed \<le> mc_uidValidity (mr_server M t)" and "imap_server (mr_server M)"
  shows "mirror M t h' \<and> ahead M h h'"
proof -
  obtain f where f: "folder_in M h = Some f" using assms(1) by (auto simp: mirror_def)
  show ?thesis
  proof (cases "fo_uidvalidity f = Some recorded \<and> recorded < observed")
    case False
    then have "h' = h"
      using assms(2,3) f by (auto simp: reset_tx_def attempt_def lockFolder_def split: option.splits if_splits)
    then show ?thesis using assms(1) by simp
  next
    case t: True
    then have True: "fo_uidvalidity f = Some recorded" and lt: "recorded < observed" by simp_all
    let ?P = "generation_row (mr_account M) (mr_folder M) recorded"
    let ?g = "\<lambda>oc. if ?P oc then oc\<lparr>oc_invalidatedAt := Some now\<rparr> else oc"
    let ?h1 = "h\<lparr>h_occurrences := map ?g (h_occurrences h)\<rparr>"
    let ?h2 = "update_folder (mr_folder M) (reset_checkpoints observed) ?h1"
    have fr: "h_folders h' = h_folders ?h2" "h_occurrences h' = h_occurrences ?h2"
      using assms(2) lt f True
      by (auto simp: reset_tx_def attempt_def lockFolder_def Let_def tbl_update_def split: if_splits)
    have m: "rows_ok M t f (h_occurrences h)" "fo_name f = mr_name M" "distinct (map fo_id (h_folders h))"
      "distinct (map oc_id (h_occurrences h))" "server_ok M t f"
      using assms(1) f by (auto simp: mirror_def)
    have f2: "folder_in M ?h2 = Some (reset_checkpoints observed f)"
      by (rule folder_of_update) (use f in \<open>simp_all add: folder_of_def reset_checkpoints_def\<close>)
    have "rows_ok M t (reset_checkpoints observed f) (map ?g (h_occurrences h))"
      unfolding rows_ok_def set_map
    proof (intro conjI ballI impI; elim imageE; hypsubst)
      fix x assume x: "x \<in> set (h_occurrences h)"
      { assume "of_folder M (?g x)"
        then have "of_folder M x" by (simp add: of_folder_def split: if_splits)
        note r = rows_ok_mine [OF m(1) x this True]
        show "oc_accountId (?g x) = pg_uuid (mr_account M)" "was_held (mr_server M) t (oc_uidvalidity (?g x)) (oc_uid (?g x))"
          "\<exists>v. fo_uidvalidity (reset_checkpoints observed f) = Some v \<and> oc_uidvalidity (?g x) \<le> v"
          using r lt by (simp_all add: reset_checkpoints_def) }
      { assume a: "of_folder M (?g x) \<and> fo_uidvalidity (reset_checkpoints observed f) = Some (oc_uidvalidity (?g x))"
        then have "of_folder M x" by (simp add: of_folder_def split: if_splits)
        from rows_ok_mine [OF m(1) x this True] a lt have False
          by (simp add: reset_checkpoints_def split: if_splits)
        then show "oc_invalidatedAt (?g x) = None" "gone (mr_server M) t (oc_uidvalidity (?g x)) (oc_uid (?g x))" by simp_all }
      fix y assume y: "y \<in> set (h_occurrences h)"
        and e: "of_folder M (?g x) \<and> of_folder M (?g y) \<and> oc_uidvalidity (?g x) = oc_uidvalidity (?g y) \<and> oc_uid (?g x) = oc_uid (?g y)"
      have "x = y" by (rule rows_ok_one [OF m(1) x y]) (use e in \<open>simp_all add: of_folder_def split: if_splits\<close>)
      then show "?g x = ?g y" by simp
    qed
    moreover have "imported_ok M t (reset_checkpoints observed f) ocs" for ocs
      by (auto simp: imported_ok_def scanned_def reset_checkpoints_def upper_uid_def)
    moreover have "checkpoints_ok (reset_checkpoints observed f)"
      by (simp add: checkpoints_ok_def reset_checkpoints_def)
    moreover have "server_ok M t (reset_checkpoints observed f)"
      using assms(4,5) by (auto simp: server_ok_def reset_checkpoints_def upper_uid_def imap_server_def intro: order_less_le_trans [of _ 1])
    moreover have "fo_name (reset_checkpoints observed f) = mr_name M" using m(2) by (simp add: reset_checkpoints_def)
    moreover have "distinct (map oc_id (map ?g (h_occurrences h)))"
    proof -
      have e: "map oc_id (map ?g (h_occurrences h)) = map oc_id (h_occurrences h)" by simp
      show ?thesis unfolding e by (rule m(4))
    qed
    moreover have "map fo_id (h_folders ?h2) = map fo_id (h_folders h)"
      by (simp add: update_folder_ids reset_checkpoints_def)
    ultimately have "mirror M t ?h2" using f2 m(3) by (simp add: mirror_def del: map_map)
    moreover have "ahead M h ?h2"
      unfolding ahead_def
    proof (intro conjI allI impI ballI)
      fix k assume "folder_in M h = Some k"
      with f f2 True lt show "\<exists>f'. folder_in M ?h2 = Some f' \<and> row_ahead k f'"
        by (simp add: row_ahead_def reset_checkpoints_def)
    next
      fix oc assume "oc \<in> set (h_occurrences h)"
      then have "?g oc \<in> ?g ` set (h_occurrences h)" by (rule imageI)
      moreover have "set (h_occurrences ?h2) = ?g ` set (h_occurrences h)" by simp
      moreover have "same_key oc (?g oc)" by (simp add: same_key_def)
      ultimately show "\<exists>oc' \<in> set (h_occurrences ?h2). same_key oc oc'" by blast
    qed
    ultimately show ?thesis by (simp add: mirror_cong [OF fr] ahead_cong [OF fr])
  qed
qed

text \<open>A folder row seen earlier, in what it says of the row of now.\<close>

definition past :: "mirrored \<Rightarrow> folder_row \<Rightarrow> hub \<Rightarrow> bool" where
  "past M f h \<longleftrightarrow> (\<exists>g. folder_in M h = Some g \<and> row_ahead f g)"

lemma past_ahead: "past M f h \<Longrightarrow> ahead M h h' \<Longrightarrow> past M f h'"
  unfolding past_def ahead_def by (meson row_ahead_trans)

lemma past_now: "folder_in M h = Some f \<Longrightarrow> past M f h"
  by (simp add: past_def)

text \<open>What a window must have fetched: every UID of the window the server still holds.\<close>

definition fetched :: "mirrored \<Rightarrow> nat \<Rightarrow> int \<Rightarrow> int set \<Rightarrow> mailbox_headers list \<Rightarrow> bool" where
  "fetched M t v W rs \<longleftrightarrow> (\<forall>u \<in> W. u \<in> mh_uid ` set rs \<or> gone (mr_server M) t v u)"

lemma fetched_later: "fetched M t v W rs \<Longrightarrow> t \<le> t' \<Longrightarrow> fetched M t' v W rs"
  unfolding fetched_def by (blast intro: gone_later)

text \<open>
  A window is imported and the checkpoints move over it: the common part of a backfill window and of
  an arrival window.
\<close>

lemma import_then_checkpoints:
  assumes "fresh_ids p" and "mirror M t h" and "folder_in M h = Some f" and "fo_uidvalidity f = Some v"
    and "import_window p now (mr_account M) (mr_folder M) v rs h = (counts, h1)"
    and "\<forall>u \<in> mh_uid ` set rs. was_held (mr_server M) t v u"
    and "\<And>r. fo_id (g r) = fo_id r" and "\<And>r. fo_accountId (g r) = fo_accountId r" and "\<And>r. fo_name (g r) = fo_name r"
    and "\<And>r. fo_uidvalidity (g r) = fo_uidvalidity r" and "upper_uid (g f) = upper_uid f"
    and "checkpoints_ok (g f)" and "row_ahead f (g f)"
    and "fetched M t v {u. scanned (g f) u \<and> \<not> scanned f u} rs"
  shows "mirror M t (update_folder (mr_folder M) g h1) \<and> ahead M h (update_folder (mr_folder M) g h1)"
proof -
  note k = import_window_keeps [OF assms(1-6)]
  have f1: "folder_in M h1 = Some f" using assms(3) k(3) by (simp add: folder_of_def)
  have m: "server_ok M t f" "rows_ok M t f (h_occurrences h1)" "imported_ok M t f (h_occurrences h1)"
    using k(1) f1 by (auto simp: mirror_def)
  have "server_ok M t (g f)" using m(1) assms(10,11) by (simp add: server_ok_def)
  moreover have "rows_ok M t (g f) (h_occurrences h1)" using m(2) assms(10) by (simp add: rows_ok_def)
  moreover have "imported_ok M t (g f) (h_occurrences h1)"
    unfolding imported_ok_def
  proof (intro allI impI)
    fix v' u assume u: "fo_uidvalidity (g f) = Some v' \<and> scanned (g f) u"
    then have v: "v' = v" using assms(4,10) by simp
    show "gone (mr_server M) t v' u \<or> (\<exists>oc \<in> set (h_occurrences h1). occurrence_at (mr_folder M) v' u oc \<and> active oc)"
    proof (cases "scanned f u")
      case True
      then show ?thesis using m(3) assms(4) v by (simp add: imported_ok_def)
    next
      case False
      then have "u \<in> mh_uid ` set rs \<or> gone (mr_server M) t v u" using assms(14) u by (simp add: fetched_def)
      then show ?thesis using k(4) v by blast
    qed
  qed
  ultimately have "mirror M t (update_folder (mr_folder M) g h1) \<and> ahead M h1 (update_folder (mr_folder M) g h1)"
    by (intro mirror_checkpoints [OF k(1) f1 assms(7-9,12)] assms(13))
  then show ?thesis using k(2) by (blast intro: ahead_trans)
qed

lemma window_commit_keeps:
  assumes "fresh_ids p" and "mirror M t h" and "past M f h"
    and "fo_backfillBeforeUid f = Some b" and "fo_uidvalidity f = Some (mv_uidValidity mb)"
    and "1 \<le> low" and "window_commit p (mr_account M) (mr_folder M) mb low (b - 1) n rs now h = Inr (r, h')"
    and "\<forall>u \<in> mh_uid ` set rs. was_held (mr_server M) t (mv_uidValidity mb) u"
    and "fetched M t (mv_uidValidity mb) {low..b - 1} rs"
  shows "mirror M t h' \<and> ahead M h h'"
proof -
  obtain l where l: "folder_in M h = Some l" and fl: "row_ahead f l" using assms(3) by (auto simp: past_def)
  show ?thesis
  proof (cases "fo_uidvalidity l = Some (mv_uidValidity mb)")
    case False
    then have "h_folders h' = h_folders h \<and> h_occurrences h' = h_occurrences h"
      using assms(7) l by (auto simp: window_commit_def attempt_def lockFolder_def generation_event_def)
    then show ?thesis using assms(2) mirror_cong [of h' h M t] ahead_cong [of h' h M h] by simp
  next
    case True
    obtain b' where b': "fo_backfillBeforeUid l = Some b'" "b' \<le> b"
      using fl True assms(4,5) by (auto simp: row_ahead_def)
    have "checkpoints_ok l" using assms(2) l by (auto simp: mirror_def)
    then have ck: "fo_backfillUpperUid l \<noteq> None" "b' \<le> upper_uid l + 1" "fo_backfillComplete l \<longrightarrow> b' \<le> 1"
      using b'(1) by (simp_all add: checkpoints_ok_def)
    obtain counts h1 where w: "import_window p now (mr_account M) (mr_folder M) (mv_uidValidity mb) rs h = (counts, h1)"
      by fastforce
    let ?g = "\<lambda>r :: folder_row. r\<lparr>fo_backfillBeforeUid := Some (min b' low),
      fo_backfillComplete := (min b' low \<le> 1 \<or> fo_backfillComplete l)\<rparr>"
    have fr: "h_folders h' = h_folders (update_folder (mr_folder M) ?g h1)"
      "h_occurrences h' = h_occurrences (update_folder (mr_folder M) ?g h1)"
      using assms(7) l True b'(1) w
      by (auto simp: window_commit_def attempt_def lockFolder_def Let_def split: prod.splits)
    have "mirror M t (update_folder (mr_folder M) ?g h1) \<and> ahead M h (update_folder (mr_folder M) ?g h1)"
    proof (rule import_then_checkpoints [OF assms(1,2) l True w assms(8)])
      show "upper_uid (?g l) = upper_uid l" by (simp add: upper_uid_def)
      then show "checkpoints_ok (?g l)" using ck True by (simp add: checkpoints_ok_def min_le_iff_disj)
      show "row_ahead l (?g l)" using True b'(1) by (simp add: row_ahead_def)
      show "fetched M t (mv_uidValidity mb) {u. scanned (?g l) u \<and> \<not> scanned l u} rs"
        using assms(9) b' by (auto simp: fetched_def scanned_def upper_uid_def)
    qed simp_all
    then show ?thesis by (simp only: mirror_cong [OF fr] ahead_cong [OF fr])
  qed
qed

lemma arrival_commit_keeps:
  assumes "fresh_ids p" and "mirror M t h" and "past M f h" and "fo_uidvalidity f = Some v"
    and "fo_backfillBeforeUid f \<noteq> None"
    and "arrival_commit p (mr_account M) (mr_folder M) v covered rs now h = Inr (r, h')"
    and "\<forall>u \<in> mh_uid ` set rs. was_held (mr_server M) t v u"
    and "fetched M t v {fo_arrivalScannedUid f <.. covered} rs"
  shows "mirror M t h' \<and> ahead M h h' \<and> (r \<noteq> None \<longrightarrow> past M (f\<lparr>fo_arrivalScannedUid := covered\<rparr>) h')"
proof -
  obtain l where l: "folder_in M h = Some l" and fl: "row_ahead f l" using assms(3) by (auto simp: past_def)
  show ?thesis
  proof (cases "fo_uidvalidity l = Some v")
    case False
    then have "h' = h \<and> r = None"
      using assms(6) l by (auto simp: arrival_commit_def attempt_def lockFolder_def)
    then show ?thesis using assms(2) by simp
  next
    case True
    have le: "fo_arrivalScannedUid f \<le> fo_arrivalScannedUid l" and some: "fo_backfillBeforeUid l \<noteq> None"
      using fl True assms(4,5) by (auto simp: row_ahead_def)
    have ck: "checkpoints_ok l" using assms(2) l by (auto simp: mirror_def)
    obtain counts h1 where w: "import_window p now (mr_account M) (mr_folder M) v rs h = (counts, h1)"
      by fastforce
    let ?g = "\<lambda>r :: folder_row. r\<lparr>fo_arrivalScannedUid := max (fo_arrivalScannedUid l) covered\<rparr>"
    have h': "h' = update_folder (mr_folder M) ?g h1"
      using assms(6) l True w by (auto simp: arrival_commit_def attempt_def lockFolder_def)
    have k: "mirror M t (update_folder (mr_folder M) ?g h1) \<and> ahead M h (update_folder (mr_folder M) ?g h1)"
    proof (rule import_then_checkpoints [OF assms(1,2) l True w assms(7)])
      show "upper_uid (?g l) = upper_uid l" by (simp add: upper_uid_def)
      then show "checkpoints_ok (?g l)" using ck some by (auto simp: checkpoints_ok_def)
      show "row_ahead l (?g l)" using True by (simp add: row_ahead_def)
      show "fetched M t v {u. scanned (?g l) u \<and> \<not> scanned l u} rs"
        using assms(8) le by (auto simp: fetched_def scanned_def upper_uid_def)
    qed simp_all
    have f1: "folder_in M h1 = Some l"
      using l import_window_keeps(3) [OF assms(1,2) l True w assms(7)] by (simp add: folder_of_def)
    have "folder_in M h' = Some (?g l)" unfolding h' by (rule folder_of_update [OF f1]) simp_all
    moreover have "row_ahead (f\<lparr>fo_arrivalScannedUid := covered\<rparr>) (?g l)"
      using fl True assms(4) by (auto simp: row_ahead_def)
    ultimately show ?thesis using k h' by (auto simp: past_def)
  qed
qed

lemma close_out_keeps:
  assumes "mirror M t h" and "past M f h" and "fo_backfillBeforeUid f = Some b" and "b \<le> 1"
    and "fo_uidvalidity f = Some (mv_uidValidity mb)"
    and "close_out (mr_account M) (mr_folder M) mb now h = Inr (r, h')"
  shows "mirror M t h' \<and> ahead M h h'"
proof -
  obtain l where l: "folder_in M h = Some l" and fl: "row_ahead f l" using assms(2) by (auto simp: past_def)
  show ?thesis
  proof (cases "fo_uidvalidity l = Some (mv_uidValidity mb) \<and> \<not> fo_backfillComplete l")
    case False
    then have "h' = h"
      using assms(6) l by (auto simp: close_out_def attempt_def lockFolder_def split: if_splits)
    then show ?thesis using assms(1) by simp
  next
    case True
    obtain b' where b': "fo_backfillBeforeUid l = Some b'" "b' \<le> 1"
      using fl True assms(3-5) by (auto simp: row_ahead_def)
    let ?g = "\<lambda>r :: folder_row. r\<lparr>fo_backfillComplete := True\<rparr>"
    have m: "checkpoints_ok l" "server_ok M t l" "rows_ok M t l (h_occurrences h)" "imported_ok M t l (h_occurrences h)"
      using assms(1) l by (auto simp: mirror_def)
    have fr: "h_folders h' = h_folders (update_folder (mr_folder M) ?g h)"
      "h_occurrences h' = h_occurrences (update_folder (mr_folder M) ?g h)"
      using assms(6) l True by (auto simp: close_out_def attempt_def lockFolder_def)
    have up: "upper_uid (?g l) = upper_uid l" "scanned (?g l) = scanned l"
      by (simp_all add: upper_uid_def scanned_def fun_eq_iff)
    have "mirror M t (update_folder (mr_folder M) ?g h) \<and> ahead M h (update_folder (mr_folder M) ?g h)"
    proof (rule mirror_checkpoints [OF assms(1) l])
      show "checkpoints_ok (?g l)" using m(1) b' up(1) by (simp add: checkpoints_ok_def)
      show "server_ok M t (?g l)" using m(2) up(1) by (simp add: server_ok_def)
      show "rows_ok M t (?g l) (h_occurrences h)" using m(3) by (simp add: rows_ok_def)
      show "imported_ok M t (?g l) (h_occurrences h)" using m(4) up(2) by (simp add: imported_ok_def)
      show "row_ahead l (?g l)" using b' True by (simp add: row_ahead_def)
    qed simp_all
    then show ?thesis by (simp only: mirror_cong [OF fr] ahead_cong [OF fr])
  qed
qed

text \<open>The row behind the folder a batch works on.\<close>

definition shown :: "mirrored \<Rightarrow> int \<Rightarrow> initialized_folder \<Rightarrow> hub \<Rightarrow> bool" where
  "shown M v eff h \<longleftrightarrow>
     (\<exists>f. past M f h \<and> fo_uidvalidity f = Some v \<and> fo_backfillBeforeUid f = Some (nf_backfillBeforeUid eff) \<and>
        nf_backfillBeforeUid eff \<le> upper_uid f + 1)"

lemma shown_ahead: "shown M v eff h \<Longrightarrow> ahead M h h' \<Longrightarrow> shown M v eff h'"
  unfolding shown_def by (blast intro: past_ahead)

lemma toInitialized_Inr:
  "toInitialized f = Inr eff \<Longrightarrow> fo_uidvalidity f = Some (nf_uidvalidity eff) \<and>
     fo_backfillBeforeUid f = Some (nf_backfillBeforeUid eff) \<and> fo_backfillUpperUid f = Some (nf_backfillUpperUid eff)"
  by (auto simp: toInitialized_def split: option.splits)

lemma shown_row:
  assumes "mirror M t h" and "folder_in M h = Some f" and "fo_uidvalidity f = Some v" and "toInitialized f = Inr eff"
  shows "shown M v eff h"
proof -
  have "checkpoints_ok f" using assms(1,2) by (auto simp: mirror_def)
  then show ?thesis
    unfolding shown_def
    by (intro exI [of _ f]) (use past_now [OF assms(2)] toInitialized_Inr [OF assms(4)] assms(3) in \<open>simp add: checkpoints_ok_def\<close>)
qed

lemma initialize_keeps:
  assumes "imap_server (mr_server M)" and "mirror M t h" and "t0 \<le> t"
    and "initializeCheckpoints (mr_account M) (mr_folder M) (view_of (mr_server M t0)) now h = Inr (r, h')"
  shows "mirror M t h' \<and> ahead M h h' \<and>
    (case r of
       In_Changed recorded observed \<Rightarrow>
         recorded = mc_uidValidity (mr_server M t0) \<and> observed \<noteq> recorded \<and> observed \<le> mc_uidValidity (mr_server M t) \<and>
         (\<exists>l. folder_in M h = Some l \<and> fo_uidvalidity l = Some observed)
     | In_Ready fresh eff \<Rightarrow> shown M (mc_uidValidity (mr_server M t0)) eff h')"
proof -
  let ?mb = "view_of (mr_server M t0)" and ?v = "mc_uidValidity (mr_server M t0)"
  obtain l where l: "folder_in M h = Some l" using assms(2) by (auto simp: mirror_def)
  have m: "checkpoints_ok l" "server_ok M t l" "rows_ok M t l (h_occurrences h)"
    using assms(2) l by (auto simp: mirror_def)
  consider (changed) w where "fo_uidvalidity l = Some w" "w \<noteq> ?v"
    | (ready) "fo_uidvalidity l = Some ?v" "fo_backfillBeforeUid l \<noteq> None"
    | (first) "fo_uidvalidity l = None \<or> fo_uidvalidity l = Some ?v" "fo_backfillBeforeUid l = None"
    using m(1) by (cases "fo_uidvalidity l"; cases "fo_backfillBeforeUid l") (auto simp: checkpoints_ok_def)
  then show ?thesis
  proof cases
    case changed
    then have "r = In_Changed ?v w" "h' = h"
      using assms(4) l by (auto simp: initializeCheckpoints_def attempt_def lockFolder_def view_of_def)
    then show ?thesis using assms(2) changed l m(2) by (simp add: server_ok_def)
  next
    case ready
    then obtain eff where e: "toInitialized l = Inr eff" "r = In_Ready False eff" "h' = h"
      using assms(4) l
      by (auto simp: initializeCheckpoints_def attempt_def lockFolder_def view_of_def split: sum.splits)
    then show ?thesis
      using assms(2) shown_row [OF assms(2) l ready(1) e(1)] by simp
  next
    case first
    let ?g = "initial_checkpoints ?mb"
    obtain eff where e: "toInitialized (?g l) = Inr eff" "r = In_Ready True eff"
      and h': "h' = recordFolderEvent now (mr_account M) (mr_folder M) ''sync.backfill_initialized''
                  [(''uidvalidity'', JNum (mv_uidValidity ?mb)), (''upperUid'', JNum (max 0 (mv_uidNext ?mb - 1)))]
                  (update_folder (mr_folder M) ?g h)"
      using assms(4) l first
      by (auto simp: initializeCheckpoints_def attempt_def lockFolder_def view_of_def split: sum.splits if_splits)
    have next0: "1 \<le> mc_uidNext (mr_server M t0)" using assms(1) by (simp add: imap_server_def)
    have g: "fo_uidvalidity (?g r) = Some ?v" "fo_backfillUpperUid (?g r) = Some (mc_uidNext (mr_server M t0) - 1)"
      "fo_backfillBeforeUid (?g r) = Some (mc_uidNext (mr_server M t0))"
      "fo_arrivalScannedUid (?g r) = mc_uidNext (mr_server M t0) - 1" "fo_id (?g r) = fo_id r" "fo_name (?g r) = fo_name r"
      "fo_accountId (?g r) = fo_accountId r" "fo_backfillComplete (?g r) \<longleftrightarrow> mc_uidNext (mr_server M t0) = 1" for r
      using next0 by (simp_all add: initial_checkpoints_def view_of_def Let_def)
    have keep: "mirror M t (update_folder (mr_folder M) ?g h) \<and> ahead M h (update_folder (mr_folder M) ?g h)"
    proof (rule mirror_checkpoints [OF assms(2) l])
      show "checkpoints_ok (?g l)" using g next0 by (simp add: checkpoints_ok_def upper_uid_def)
      show "server_ok M t (?g l)"
        using assms(1,3) g unfolding server_ok_def upper_uid_def imap_server_def by fastforce
      show "rows_ok M t (?g l) (h_occurrences h)"
        using m(3) first(1) g(1) unfolding rows_ok_def by (elim disjE) auto
      show "imported_ok M t (?g l) (h_occurrences h)" using g by (auto simp: imported_ok_def scanned_def upper_uid_def)
      show "row_ahead l (?g l)" using g next0 m(1) first by (auto simp: row_ahead_def checkpoints_ok_def)
    qed (simp_all add: g)
    have fr: "h_folders h' = h_folders (update_folder (mr_folder M) ?g h)"
      "h_occurrences h' = h_occurrences (update_folder (mr_folder M) ?g h)" by (simp_all add: h')
    have k: "mirror M t h'" using keep by (simp add: mirror_cong [OF fr])
    have "folder_in M h' = Some (?g l)"
      unfolding folder_of_cong [OF fr(1)] by (rule folder_of_update [OF l]) (simp_all add: g)
    then have "shown M ?v eff h'" using g(1) e(1) by (rule shown_row [OF k])
    then show ?thesis using keep e(2) by (simp add: mirror_cong [OF fr] ahead_cong [OF fr])
  qed
qed

lemma inventory_commit_keeps:
  assumes "fresh_ids p" and "mirror M t h"
    and "inventory_commit p (mr_account M) (mr_folder M) v bound pr live pend ids rs now h = Inr (r, h')"
    and "\<forall>u \<in> mh_uid ` set rs. was_held (mr_server M) t v u"
    and "names_rows M v D ids h" and "\<forall>u \<in> D. gone (mr_server M) t v u"
  shows "mirror M t h' \<and> ahead M h h'"
proof -
  obtain l where l: "folder_in M h = Some l" using assms(2) by (auto simp: mirror_def)
  show ?thesis
  proof (cases "fo_uidvalidity l = Some v")
    case False
    then have "h' = h" using assms(3) l by (auto simp: inventory_commit_def attempt_def lockFolder_def)
    then show ?thesis using assms(2) by simp
  next
    case True
    obtain counts h1 where w: "import_window p now (mr_account M) (mr_folder M) v rs h = (counts, h1)"
      by fastforce
    note k = import_window_keeps [OF assms(1,2) l True w assms(4)]
    let ?h2 = "snd (expunge_slices now (slices OCCURRENCE_SLICE ids) h1)"
    have fr: "h_folders h' = h_folders ?h2" "h_occurrences h' = h_occurrences ?h2"
      using assms(3) l True w by (auto simp: inventory_commit_def attempt_def lockFolder_def Let_def split: prod.splits)
    have "mirror M t ?h2 \<and> ahead M h1 ?h2"
      by (rule expunge_keeps [OF k(1) names_rows_ahead [OF assms(5) k(2)] assms(6)])
    then show ?thesis using k(2) by (simp add: mirror_cong [OF fr] ahead_cong [OF fr]) (blast intro: ahead_trans)
  qed
qed

end
