(* ===== verification/Sync_Kept.thy ===== *)
theory Sync_Kept
  imports Sync_Commits
begin

text \<open>
  How a run keeps the invariant. \<open>kept M K\<close> is the invariant together with what the run knows,
  \<open>K\<close>; \<open>stable\<close> says that the other writers cannot make a fact false. \<open>keeps\<close> is the triple of a
  run that only adds to what it knows, with one rule per construct.
\<close>

section \<open>Assertions\<close>

definition kept :: "mirrored \<Rightarrow> (world \<Rightarrow> bool) \<Rightarrow> world \<Rightarrow> bool" where
  "kept M K w \<longleftrightarrow> mirror M (wo_time w) (wo_hub w) \<and> K w"

definition stable :: "mirrored \<Rightarrow> (world \<Rightarrow> bool) \<Rightarrow> bool" where
  "stable M K \<longleftrightarrow>
     (\<forall>w w'. K w \<and> wo_time w \<le> wo_time w' \<and> ahead M (wo_hub w) (wo_hub w') \<longrightarrow> K w')"

definition keeps ::
    "mirrored \<Rightarrow> (world \<Rightarrow> bool) \<Rightarrow> (world \<Rightarrow> bool) \<Rightarrow> 'a run \<Rightarrow> ('a \<Rightarrow> world \<Rightarrow> bool) \<Rightarrow> bool" where
  "keeps M E K m R \<longleftrightarrow>
     (stable M K \<longrightarrow> (\<forall>w. K w \<longrightarrow> E w) \<longrightarrow> ends (kept M K) m (\<lambda>a. kept M (\<lambda>w. K w \<and> R a w)) (kept M E))"

named_theorems stable_facts "facts the other writers cannot make false"
named_theorems keep_rules "one rule per construct of runs that keep the invariant"

lemma stable_True [stable_facts]: "stable M (\<lambda>w. F)"
  by (simp add: stable_def)

lemma stable_conj [stable_facts]: "stable M K \<Longrightarrow> stable M L \<Longrightarrow> stable M (\<lambda>w. K w \<and> L w)"
  unfolding stable_def by blast

lemma stable_imp [stable_facts]: "stable M L \<Longrightarrow> stable M (\<lambda>w. F \<longrightarrow> L w)"
  unfolding stable_def by blast

lemma stable_ex [stable_facts]: "(\<And>x. stable M (K x)) \<Longrightarrow> stable M (\<lambda>w. \<exists>x. K x w)"
  unfolding stable_def by blast

lemma stable_all [stable_facts]: "(\<And>x. stable M (K x)) \<Longrightarrow> stable M (\<lambda>w. \<forall>x. K x w)"
  unfolding stable_def by blast

lemma stable_time [stable_facts]: "stable M (\<lambda>w. t \<le> wo_time w)"
  by (auto simp: stable_def)

lemma stable_past [stable_facts]: "stable M (\<lambda>w. past M f (wo_hub w))"
  by (auto simp: stable_def intro: past_ahead)

lemma stable_shown [stable_facts]: "stable M (\<lambda>w. shown M v eff (wo_hub w))"
  by (auto simp: stable_def intro: shown_ahead)

lemma stable_names_rows [stable_facts]: "stable M (\<lambda>w. names_rows M v D ids (wo_hub w))"
  by (auto simp: stable_def intro: names_rows_ahead)

lemma stable_was_held [stable_facts]: "stable M (\<lambda>w. \<forall>u \<in> U. was_held S (wo_time w) v u)"
  unfolding stable_def by (blast intro: was_held_later)

lemma stable_reached [stable_facts]:
  "imap_server (mr_server M) \<Longrightarrow> stable M (\<lambda>w. v \<le> mc_uidValidity (mr_server M (wo_time w)))"
  unfolding stable_def imap_server_def by (meson order_trans)

section \<open>Rules\<close>

lemma keeps_give [keep_rules]:
  "(\<And>w. mirror M (wo_time w) (wo_hub w) \<Longrightarrow> K w \<Longrightarrow> R a w) \<Longrightarrow> keeps M E K (give a) R"
  by (auto simp: keeps_def kept_def intro!: ends_give)

lemma keeps_throw [keep_rules]: "keeps M E K (throw e) R"
  by (auto simp: keeps_def kept_def intro!: ends_throw)

lemma keeps_call:
  assumes "keeps M E K m R" and "\<And>a. stable M (R a)" and "\<And>a. keeps M E (\<lambda>w. K w \<and> R a w) (f a) Q"
  shows "keeps M E K (call m f) Q"
  unfolding keeps_def
proof (intro impI)
  assume k: "stable M K" "\<forall>w. K w \<longrightarrow> E w"
  show "ends (kept M K) (call m f) (\<lambda>a. kept M (\<lambda>w. K w \<and> Q a w)) (kept M E)"
  proof (rule ends_call)
    show "ends (kept M K) m (\<lambda>a. kept M (\<lambda>w. K w \<and> R a w)) (kept M E)"
      using assms(1) k by (simp add: keeps_def)
    fix a
    have "ends (kept M (\<lambda>w. K w \<and> R a w)) (f a) (\<lambda>b. kept M (\<lambda>w. (K w \<and> R a w) \<and> Q b w)) (kept M E)"
      using assms(3) [of a] stable_conj [OF k(1) assms(2) [of a]] k(2) by (simp add: keeps_def)
    then show "ends (kept M (\<lambda>w. K w \<and> R a w)) (f a) (\<lambda>b. kept M (\<lambda>w. K w \<and> Q b w)) (kept M E)"
      by (rule ends_weaken) (auto simp: kept_def)
  qed
qed

lemma keeps_if [keep_rules]:
  "(b \<Longrightarrow> keeps M E K m Q) \<Longrightarrow> (\<not> b \<Longrightarrow> keeps M E K m' Q) \<Longrightarrow> keeps M E K (if b then m else m') Q"
  by simp

lemma keeps_guard_run [keep_rules]: "(b \<Longrightarrow> keeps M E K m Q) \<Longrightarrow> keeps M E K (guard_run b e m) Q"
  by (simp add: guard_run_def keeps_throw)

lemma keeps_post:
  "keeps M E K m R \<Longrightarrow> (\<And>a w. mirror M (wo_time w) (wo_hub w) \<Longrightarrow> K w \<Longrightarrow> R a w \<Longrightarrow> Q a w) \<Longrightarrow> keeps M E K m Q"
  by (auto simp: keeps_def kept_def elim!: ends_weaken)

text \<open>A fact that does not depend on the state.\<close>

lemma keeps_fact:
  assumes "F \<Longrightarrow> keeps M E K m Q" and "\<And>w. K w \<Longrightarrow> F"
  shows "keeps M E K m Q"
proof (cases F)
  case False
  then have "\<not> kept M K w" for w using assms(2) by (auto simp: kept_def)
  then show ?thesis by (simp add: keeps_def ends_def)
qed (rule assms(1))

lemma keeps_also:
  assumes "stable M L" and "\<And>w. mirror M (wo_time w) (wo_hub w) \<Longrightarrow> K w \<Longrightarrow> L w"
    and "keeps M E (\<lambda>w. K w \<and> L w) m Q"
  shows "keeps M E K m Q"
  unfolding keeps_def
proof (intro impI)
  assume k: "stable M K" "\<forall>w. K w \<longrightarrow> E w"
  have "ends (kept M (\<lambda>w. K w \<and> L w)) m (\<lambda>a. kept M (\<lambda>w. (K w \<and> L w) \<and> Q a w)) (kept M E)"
    using assms(3) stable_conj [OF k(1) assms(1)] k(2) by (simp add: keeps_def)
  then show "ends (kept M K) m (\<lambda>a. kept M (\<lambda>w. K w \<and> Q a w)) (kept M E)"
    by (rule ends_weaken) (use assms(2) in \<open>auto simp: kept_def\<close>)
qed

lemma keeps_ex:
  assumes "\<And>x. stable M (R x)" and "\<And>w. mirror M (wo_time w) (wo_hub w) \<Longrightarrow> K w \<Longrightarrow> \<exists>x. R x w"
    and "\<And>x. keeps M E (\<lambda>w. K w \<and> R x w) m Q"
  shows "keeps M E K m Q"
  unfolding keeps_def ends_def
proof (intro impI allI)
  fix w assume k: "stable M K" "\<forall>w. K w \<longrightarrow> E w" and w: "kept M K w"
  then obtain x where "R x w" using assms(2) by (auto simp: kept_def)
  with w have "kept M (\<lambda>w. K w \<and> R x w) w" by (simp add: kept_def)
  moreover have "ends (kept M (\<lambda>w. K w \<and> R x w)) m (\<lambda>a. kept M (\<lambda>w. (K w \<and> R x w) \<and> Q a w)) (kept M E)"
    using assms(3) [of x] stable_conj [OF k(1) assms(1) [of x]] k(2) by (simp add: keeps_def)
  ultimately have "case m w of (Inl e, w') \<Rightarrow> kept M E w' | (Inr a, w') \<Rightarrow> kept M (\<lambda>w. (K w \<and> R x w) \<and> Q a w) w'"
    by (rule ends_run [rotated])
  then show "case m w of (Inl e, w') \<Rightarrow> kept M E w' | (Inr a, w') \<Rightarrow> kept M (\<lambda>w. K w \<and> Q a w) w'"
    by (cases "m w"; cases "fst (m w)") (simp_all add: kept_def)
qed

text \<open>The end of an await.\<close>

lemma kept_tick:
  assumes "others_keep M p" and "stable M K" and "mirror M (wo_time w) h" and "ahead M (wo_hub w) h" and "K (w\<lparr>wo_hub := h\<rparr>)"
  shows "kept M K (tick p h w)"
proof -
  have e: "mirror M (Suc (wo_time w)) (sp_env p (wo_time w) h)" "ahead M h (sp_env p (wo_time w) h)"
    using assms(1,3) by (auto simp: others_keep_def)
  moreover from this have "K (tick p h w)"
    using assms(2,5) unfolding stable_def by (elim allE [of _ "w\<lparr>wo_hub := h\<rparr>"] allE [of _ "tick p h w"]) simp
  ultimately show ?thesis by (simp add: kept_def)
qed

lemma keeps_ask:
  assumes "others_keep M p" and "\<And>a. stable M (R a)"
    and "\<And>w a. mirror M (wo_time w) (wo_hub w) \<Longrightarrow> K w \<Longrightarrow> q (wo_time w) = Inr a \<Longrightarrow> R a w"
  shows "keeps M E K (ask p q) R"
  unfolding keeps_def
proof (intro impI ends_ask)
  assume k: "stable M K" "\<forall>w. K w \<longrightarrow> E w"
  fix w assume w: "kept M K w"
  have t: "kept M K (tick p (wo_hub w) w)"
    using w by (intro kept_tick [OF assms(1) k(1)]) (simp_all add: kept_def)
  then show "kept M E (tick p (wo_hub w) w)" using k(2) by (simp add: kept_def)
  fix a assume "q (wo_time w) = Inr a"
  then have "R a w" using w assms(3) by (simp add: kept_def)
  then have "kept M (R a) (tick p (wo_hub w) w)"
    using w by (intro kept_tick [OF assms(1,2)]) (simp_all add: kept_def)
  with t show "kept M (\<lambda>w. K w \<and> R a w) (tick p (wo_hub w) w)" by (simp add: kept_def)
qed

lemma keeps_query:
  assumes "others_keep M p" and "\<And>a. stable M (R a)"
    and "\<And>w a. mirror M (wo_time w) (wo_hub w) \<Longrightarrow> K w \<Longrightarrow> q (wo_hub w) = Inr a \<Longrightarrow> R a w"
  shows "keeps M E K (query p q) R"
  unfolding keeps_def
proof (intro impI ends_query)
  assume k: "stable M K" "\<forall>w. K w \<longrightarrow> E w"
  fix w assume w: "kept M K w"
  have t: "kept M K (tick p (wo_hub w) w)"
    using w by (intro kept_tick [OF assms(1) k(1)]) (simp_all add: kept_def)
  then show "kept M E (tick p (wo_hub w) w)" using k(2) by (simp add: kept_def)
  fix a assume "q (wo_hub w) = Inr a"
  then have "R a w" using w assms(3) by (simp add: kept_def)
  then have "kept M (R a) (tick p (wo_hub w) w)"
    using w by (intro kept_tick [OF assms(1,2)]) (simp_all add: kept_def)
  with t show "kept M (\<lambda>w. K w \<and> R a w) (tick p (wo_hub w) w)" by (simp add: kept_def)
qed

text \<open>A query that also looks at the clock.\<close>

lemma keeps_query_at:
  assumes "others_keep M p"
  shows "keeps M E K (\<lambda>w. query p (q w) w) (\<lambda>_ _. True)"
  unfolding keeps_def ends_def
proof (intro impI allI)
  fix w assume k: "stable M K" "\<forall>w. K w \<longrightarrow> E w" "kept M K w"
  have "keeps M E K (query p (q w)) (\<lambda>_ _. True)" by (rule keeps_query [OF assms stable_True TrueI])
  then have "ends (kept M K) (query p (q w)) (\<lambda>a. kept M (\<lambda>w. K w \<and> True)) (kept M E)"
    using k(1,2) by (simp add: keeps_def)
  then show "case query p (q w) w of (Inl e, w') \<Rightarrow> kept M E w' | (Inr a, w') \<Rightarrow> kept M (\<lambda>w. K w \<and> True) w'"
    using k(3) by (rule ends_run)
qed

lemma keeps_commit:
  assumes "others_keep M p" and "\<And>a. stable M (R a)"
    and "\<And>w now a h. mirror M (wo_time w) (wo_hub w) \<Longrightarrow> K w \<Longrightarrow> body now (wo_hub w) = Inr (a, h) \<Longrightarrow>
      mirror M (wo_time w) h \<and> ahead M (wo_hub w) h \<and> R a (w\<lparr>wo_hub := h\<rparr>)"
  shows "keeps M E K (commit p body) R"
  unfolding keeps_def
proof (intro impI ends_commit)
  assume k: "stable M K" "\<forall>w. K w \<longrightarrow> E w"
  fix w assume w: "kept M K w"
  have "kept M K (tick p (wo_hub w) w)"
    using w by (intro kept_tick [OF assms(1) k(1)]) (simp_all add: kept_def)
  then show "kept M E (tick p (wo_hub w) w)" using k(2) by (simp add: kept_def)
  fix a h assume "body (sp_clock p (wo_time w)) (wo_hub w) = Inr (a, h)"
  with w assms(3) have b: "mirror M (wo_time w) h" "ahead M (wo_hub w) h" "R a (w\<lparr>wo_hub := h\<rparr>)"
    by (auto simp: kept_def)
  have "K (w\<lparr>wo_hub := h\<rparr>)"
    using k(1) w b(2) unfolding stable_def kept_def by (elim allE [of _ w] allE [of _ "w\<lparr>wo_hub := h\<rparr>"]) simp
  then have "kept M K (tick p h w)" by (rule kept_tick [OF assms(1) k(1) b(1,2)])
  moreover have "kept M (R a) (tick p h w)" by (rule kept_tick [OF assms(1,2) b])
  ultimately show "kept M (\<lambda>w. K w \<and> R a w) (tick p h w)" by (simp add: kept_def)
qed

lemma keeps_tally [keep_rules]: "keeps M E K (tally f) (\<lambda>_ _. True)"
  unfolding keeps_def
proof (intro impI ends_tally)
  fix w assume "stable M K" and w: "kept M K w"
  then have "K (w\<lparr>wo_summary := f (wo_summary w)\<rparr>)"
    unfolding stable_def kept_def by (elim allE [of _ w] allE [of _ "w\<lparr>wo_summary := f (wo_summary w)\<rparr>"]) simp
  with w show "kept M (\<lambda>w. K w \<and> True) (w\<lparr>wo_summary := f (wo_summary w)\<rparr>)" by (simp add: kept_def)
qed

text \<open>An event changes neither folders nor occurrences.\<close>

lemma keeps_event:
  assumes "others_keep M p"
    and "\<And>now h. h_folders (g now h) = h_folders h" and "\<And>now h. h_occurrences (g now h) = h_occurrences h"
  shows "keeps M E K (commit p (\<lambda>now h. Inr (a, g now h))) (\<lambda>b w. b = a)"
proof (rule keeps_commit [OF assms(1) stable_True])
  fix w now b h
  assume "mirror M (wo_time w) (wo_hub w)" and "Inr (a, g now (wo_hub w)) = (Inr (b, h) :: sync_error + _)"
  then show "mirror M (wo_time w) h \<and> ahead M (wo_hub w) h \<and> b = a"
    using mirror_cong [of "g now (wo_hub w)" "wo_hub w" M "wo_time w"]
      ahead_cong [of "g now (wo_hub w)" "wo_hub w" M "wo_hub w"] assms(2,3) by auto
qed

section \<open>What a session's answers say\<close>

text \<open>A view of the mailbox, of a time since \<open>t0\<close>.\<close>

definition viewed :: "mirrored \<Rightarrow> nat \<Rightarrow> mailbox_view \<Rightarrow> world \<Rightarrow> bool" where
  "viewed M t0 view w \<longleftrightarrow> (\<exists>t. t0 \<le> t \<and> t \<le> wo_time w \<and> view = view_of (mr_server M t))"

text \<open>A set of UIDs that holds all the server keeps of a window.\<close>

definition listed :: "mirrored \<Rightarrow> int \<Rightarrow> int set \<Rightarrow> int list \<Rightarrow> world \<Rightarrow> bool" where
  "listed M v W us w \<longleftrightarrow>
     (\<exists>t. t \<le> wo_time w \<and> (\<forall>u \<in> W. u \<in> set us \<or> gone (mr_server M) t v u))"

text \<open>Headers the server held at a time since \<open>t0\<close>, which cover a window.\<close>

definition read_at :: "mirrored \<Rightarrow> nat \<Rightarrow> int \<Rightarrow> int set \<Rightarrow> mailbox_headers list \<Rightarrow> world \<Rightarrow> bool" where
  "read_at M t0 v W rs w \<longleftrightarrow>
     (\<exists>t. t0 \<le> t \<and> t \<le> wo_time w \<and> fetched M t v W rs \<and> mh_uid ` set rs \<subseteq> set (mc_uids (mr_server M t)))"

definition all_held :: "mirrored \<Rightarrow> int \<Rightarrow> mailbox_headers list \<Rightarrow> world \<Rightarrow> bool" where
  "all_held M v rs w \<longleftrightarrow> (\<forall>u \<in> mh_uid ` set rs. was_held (mr_server M) (wo_time w) v u)"

lemma stable_viewed [stable_facts]: "stable M (viewed M t0 view)"
  unfolding stable_def viewed_def by (blast intro: order_trans)

lemma stable_listed [stable_facts]: "stable M (listed M v W us)"
  unfolding stable_def listed_def by (blast intro: order_trans)

lemma stable_read_at [stable_facts]: "stable M (read_at M t0 v W rs)"
  unfolding stable_def read_at_def by (blast intro: order_trans)

lemma stable_all_held [stable_facts]: "stable M (all_held M v rs)"
  unfolding stable_def all_held_def by (blast intro: was_held_later)

lemma read_at_fetched: "read_at M t0 v W rs w \<Longrightarrow> fetched M (wo_time w) v W rs"
  unfolding read_at_def by (blast intro: fetched_later)

text \<open>The server after a time at which it had the generation \<open>v\<close>.\<close>

lemma server_since:
  assumes "imap_server S" and "v \<le> mc_uidValidity (S t0)" and "t0 \<le> t"
  shows "v \<le> mc_uidValidity (S t)"
  using assms unfolding imap_server_def by (meson order_trans)

text \<open>A search from a time on lists what the server keeps of the window.\<close>

lemma search_lists:
  assumes "imap_server S" and "v \<le> mc_uidValidity (S t)"
    and "mc_uidValidity (S t) = v \<longrightarrow> high < mc_uidNext (S t)"
    and "set us = {u \<in> set (mc_uids (S t)). low \<le> u \<and> u \<le> high}" and "low \<le> u" and "u \<le> high"
  shows "u \<in> set us \<or> gone S t v u"
proof (cases "mc_uidValidity (S t) = v \<and> u \<notin> set us")
  case True
  then have "gone S t v u" using assms by (intro absent_gone [OF assms(1), of t]) auto
  then show ?thesis ..
next
  case False
  then show ?thesis using assms(2) beyond_gone [OF assms(1), of v t u] by fastforce
qed

lemma fetch_reads:
  assumes "sync_setting M p ses" and "se_fetchHeaders ses (wo_time w) us = Inr rs" and "listed M v W us w"
    and "t0 \<le> wo_time w" and "v \<le> mc_uidValidity (mr_server M (wo_time w))"
    and "mc_uidValidity (mr_server M (wo_time w)) = v \<longrightarrow> (\<forall>u \<in> W. u < mc_uidNext (mr_server M (wo_time w)))"
  shows "read_at M t0 v W rs w"
proof -
  have s: "imap_server (mr_server M)" and rs: "mh_uid ` set rs = set us \<inter> set (mc_uids (mr_server M (wo_time w)))"
    using assms(1,2) by (auto simp: sync_setting_def answers_from_def)
  have "u \<in> mh_uid ` set rs \<or> gone (mr_server M) (wo_time w) v u" if "u \<in> W" for u
  proof (cases "u \<in> set us")
    case False
    then show ?thesis using assms(3) that unfolding listed_def by (blast intro: gone_later)
  next
    case True
    show ?thesis
    proof (cases "mc_uidValidity (mr_server M (wo_time w)) = v")
      case False
      then show ?thesis using assms(5) beyond_gone [OF s] by fastforce
    next
      case t: True
      show ?thesis
        using rs True absent_gone [OF s t _ order_refl, of u] assms(6) t that by blast
    qed
  qed
  then show ?thesis using assms(4) rs unfolding read_at_def fetched_def by blast
qed

text \<open>The recheck: while the generation lasts, the headers were of it.\<close>

lemma recheck_holds:
  assumes "imap_server (mr_server M)" and "mc_uidValidity (mr_server M t0) = v" and "read_at M t0 v W rs w"
    and "mc_uidValidity (mr_server M (wo_time w)) = v"
  shows "all_held M v rs w"
  using assms(3) server_between [OF assms(1,2,4)] unfolding read_at_def all_held_def was_held_def by blast

end
