(* ===== verification/Sync_Runs.thy ===== *)
theory Sync_Runs
  imports Sync_Kept
begin

text \<open>
  Each operation of the synchronization keeps the invariant of \<open>Sync_Mirror\<close>, whatever the other
  writers do meanwhile: a batch of backfill, a poll, an inventory, a reset, and the loops over them.
\<close>

section \<open>The setting\<close>

lemma setting:
  assumes "sync_setting M p ses"
  shows "pg_uuid (mr_folder M) = mr_folder M" "imap_server (mr_server M)" "others_keep M p" "fresh_ids p"
    and "\<And>t v. se_select ses t (mr_name M) = Inr v \<Longrightarrow> v = view_of (mr_server M t)"
    and "\<And>t v. se_revalidate ses t = Inr v \<Longrightarrow> v = view_of (mr_server M t)"
    and "\<And>t low high us. se_searchUids ses t low high = Inr us \<Longrightarrow>
      set us = {u \<in> set (mc_uids (mr_server M t)). low \<le> u \<and> u \<le> high}"
  using assms by (auto simp: sync_setting_def answers_from_def)

lemma view_of_simps [simp]:
  "mv_uidValidity (view_of c) = mc_uidValidity c" "mv_uidNext (view_of c) = mc_uidNext c"
  by (simp_all add: view_of_def)

text \<open>The folder's first generation is recorded.\<close>

definition has_generation :: "mirrored \<Rightarrow> hub \<Rightarrow> bool" where
  "has_generation M h \<longleftrightarrow> (\<exists>f. folder_in M h = Some f \<and> fo_uidvalidity f \<noteq> None)"

lemma started_ahead: "has_generation M h \<Longrightarrow> ahead M h h' \<Longrightarrow> has_generation M h'"
  unfolding has_generation_def ahead_def row_ahead_def by fastforce

lemma stable_started [stable_facts]: "stable M (\<lambda>w. has_generation M (wo_hub w))"
  by (auto simp: stable_def intro: started_ahead)

definition loaded :: "mirrored \<Rightarrow> bool \<Rightarrow> folder_row \<Rightarrow> world \<Rightarrow> bool" where
  "loaded M B f w \<longleftrightarrow> past M f (wo_hub w) \<and> fo_id f = mr_folder M \<and> fo_name f = mr_name M \<and> checkpoints_ok f \<and>
     (B \<longrightarrow> fo_uidvalidity f \<noteq> None)"

lemma stable_loaded [stable_facts]: "stable M (loaded M B f)"
  unfolding loaded_def [abs_def] by (intro stable_facts)

lemma load_folder_keeps:
  assumes "sync_setting M p ses" and "\<And>w. B \<Longrightarrow> K w \<Longrightarrow> has_generation M (wo_hub w)"
  shows "keeps M E K (load_folder p (mr_account M) (mr_folder M)) (loaded M B)"
  unfolding load_folder_def
proof (rule keeps_query [OF setting(3) [OF assms(1)] stable_loaded])
  fix w f
  assume m: "mirror M (wo_time w) (wo_hub w)" and k: "K w"
    and "(case folder_in M (wo_hub w) of None \<Rightarrow> Inl SE_Not_Found | Some f \<Rightarrow> Inr f) = Inr f"
  then have f: "folder_in M (wo_hub w) = Some f" by (simp split: option.splits)
  then have "fo_id f = mr_folder M"
    using find_in_set [of _ "h_folders (wo_hub w)" f] setting(1) [OF assms(1)] by (auto simp: folder_of_def)
  moreover have "fo_uidvalidity f \<noteq> None" if B using assms(2) [OF that k] f by (simp add: has_generation_def)
  ultimately show "loaded M B f w"
    using m f past_now [OF f] by (auto simp: mirror_def loaded_def)
qed

text \<open>A generation change names a generation the server has reached, after the recorded one.\<close>

definition moved_on :: "mirrored \<Rightarrow> int \<Rightarrow> int \<Rightarrow> world \<Rightarrow> bool" where
  "moved_on M recorded observed w \<longleftrightarrow> recorded \<le> observed \<and> observed \<le> mc_uidValidity (mr_server M (wo_time w))"

lemma stable_moved_on [stable_facts]: "imap_server (mr_server M) \<Longrightarrow> stable M (moved_on M recorded observed)"
  unfolding moved_on_def [abs_def] by (intro stable_facts)

text \<open>The row of now is of the recorded generation, or beyond it.\<close>

lemma past_generation:
  assumes "past M f h" and "fo_uidvalidity f = Some v" and "mirror M t h"
  obtains g v' where "folder_in M h = Some g" and "row_ahead f g" and "fo_uidvalidity g = Some v'" and "v \<le> v'"
    and "v' \<le> mc_uidValidity (mr_server M t)"
proof -
  obtain g where g: "folder_in M h = Some g" "row_ahead f g" using assms(1) by (auto simp: past_def)
  then obtain v' where v': "fo_uidvalidity g = Some v'" "v \<le> v'" using assms(2) by (auto simp: row_ahead_def)
  have "server_ok M t g" using assms(3) g(1) by (auto simp: mirror_def)
  with v' have "v' \<le> mc_uidValidity (mr_server M t)" by (simp add: server_ok_def)
  with g v' show ?thesis by (rule that)
qed

section \<open>Backfill\<close>

definition batch_moves :: "mirrored \<Rightarrow> batch_outcome \<Rightarrow> world \<Rightarrow> bool" where
  "batch_moves M out w \<longleftrightarrow>
     (\<forall>recorded observed. out = Bo_Generation_Changed recorded observed \<longrightarrow> moved_on M recorded observed w)"

lemma stable_batch_moves [stable_facts]: "imap_server (mr_server M) \<Longrightarrow> stable M (batch_moves M out)"
  unfolding batch_moves_def [abs_def] by (intro stable_facts)

lemma generationChanged_keeps:
  assumes "others_keep M p"
  shows "keeps M E K (generationChanged p a i recorded observed) (\<lambda>out w. out = Bo_Generation_Changed recorded observed)"
  unfolding generationChanged_def generation_event_def by (rule keeps_event [OF assms]) simp_all

text \<open>What the window lies under: the upper end of backfill.\<close>

lemma shown_under:
  assumes "mirror M (wo_time w) (wo_hub w)" and "shown M v eff (wo_hub w)" and "imap_server (mr_server M)"
  shows "v \<le> mc_uidValidity (mr_server M (wo_time w))"
    and "mc_uidValidity (mr_server M (wo_time w)) = v \<longrightarrow> nf_backfillBeforeUid eff - 1 < mc_uidNext (mr_server M (wo_time w))"
proof -
  obtain f where f: "past M f (wo_hub w)" "fo_uidvalidity f = Some v" "fo_backfillBeforeUid f = Some (nf_backfillBeforeUid eff)"
    "nf_backfillBeforeUid eff \<le> upper_uid f + 1"
    using assms(2) by (auto simp: shown_def)
  obtain g v' where g: "folder_in M (wo_hub w) = Some g" "row_ahead f g" "fo_uidvalidity g = Some v'" "v \<le> v'"
    "v' \<le> mc_uidValidity (mr_server M (wo_time w))"
    by (rule past_generation [OF f(1,2) assms(1)])
  show "v \<le> mc_uidValidity (mr_server M (wo_time w))" using g by simp
  have s: "server_ok M (wo_time w) g" using assms(1) g(1) by (auto simp: mirror_def)
  show "mc_uidValidity (mr_server M (wo_time w)) = v \<longrightarrow> nf_backfillBeforeUid eff - 1 < mc_uidNext (mr_server M (wo_time w))"
  proof
    assume e: "mc_uidValidity (mr_server M (wo_time w)) = v"
    with g have "v' = v" by simp
    with g(2,3) f(2,3) have "upper_uid g = upper_uid f" by (auto simp: row_ahead_def upper_uid_def)
    with s e g(3) \<open>v' = v\<close> f(4) show "nf_backfillBeforeUid eff - 1 < mc_uidNext (mr_server M (wo_time w))"
      by (simp add: server_ok_def)
  qed
qed

lemma window_outcome:
  assumes "mirror M t h" and "past M f h" and "fo_uidvalidity f = Some (mv_uidValidity mb)"
    and "window_commit p (mr_account M) (mr_folder M) mb low high n rs now h = Inr (r, h')"
  shows "r = Bo_Generation_Changed recorded observed \<Longrightarrow> recorded \<le> observed \<and> observed \<le> mc_uidValidity (mr_server M t)"
proof -
  assume r: "r = Bo_Generation_Changed recorded observed"
  obtain g v' where g: "folder_in M h = Some g" "fo_uidvalidity g = Some v'" "mv_uidValidity mb \<le> v'"
    "v' \<le> mc_uidValidity (mr_server M t)"
    using past_generation [OF assms(2,3,1)] by metis
  with assms(4) r show ?thesis
    by (auto simp: window_commit_def attempt_def lockFolder_def generation_event_def Let_def split: if_splits prod.splits)
qed

section \<open>The parts of a window\<close>

text \<open>The generation a run works in, and that it cannot look beyond \<open>UIDNEXT\<close>.\<close>

definition within :: "mirrored \<Rightarrow> int \<Rightarrow> int \<Rightarrow> world \<Rightarrow> bool" where
  "within M v high w \<longleftrightarrow> v \<le> mc_uidValidity (mr_server M (wo_time w)) \<and>
     (mc_uidValidity (mr_server M (wo_time w)) = v \<longrightarrow> high < mc_uidNext (mr_server M (wo_time w)))"

definition rechecked :: "mirrored \<Rightarrow> int \<Rightarrow> mailbox_headers list \<Rightarrow> mailbox_view \<Rightarrow> world \<Rightarrow> bool" where
  "rechecked M v rs view w \<longleftrightarrow>
     moved_on M v (mv_uidValidity view) w \<and> (mv_uidValidity view = v \<longrightarrow> all_held M v rs w)"

lemma stable_rechecked [stable_facts]: "imap_server (mr_server M) \<Longrightarrow> stable M (rechecked M v rs view)"
  unfolding rechecked_def [abs_def] by (intro stable_facts)

lemma stable_within [stable_facts]: "imap_server (mr_server M) \<Longrightarrow> stable M (within M v high)"
  unfolding stable_def within_def
proof (intro allI impI conjI; elim conjE)
  fix w w' :: world
  assume s: "imap_server (mr_server M)" and v: "v \<le> mc_uidValidity (mr_server M (wo_time w))"
    and n: "mc_uidValidity (mr_server M (wo_time w)) = v \<longrightarrow> high < mc_uidNext (mr_server M (wo_time w))"
    and t: "wo_time w \<le> wo_time w'"
  have le: "mc_uidValidity (mr_server M (wo_time w)) \<le> mc_uidValidity (mr_server M (wo_time w'))"
    using s t by (simp add: imap_server_def)
  with v show "v \<le> mc_uidValidity (mr_server M (wo_time w'))" by simp
  assume "mc_uidValidity (mr_server M (wo_time w')) = v"
  with le v have "mc_uidValidity (mr_server M (wo_time w)) = v" by simp
  with n \<open>mc_uidValidity (mr_server M (wo_time w')) = v\<close> s t show "high < mc_uidNext (mr_server M (wo_time w'))"
    unfolding imap_server_def by (metis order_less_le_trans)
qed

lemma search_keeps:
  assumes "sync_setting M p ses" and "\<And>w. mirror M (wo_time w) (wo_hub w) \<Longrightarrow> K w \<Longrightarrow> within M v high w"
  shows "keeps M E K (ask p (\<lambda>t. se_searchUids ses t low high)) (listed M v {low..high})"
proof (rule keeps_ask [OF setting(3) [OF assms(1)] stable_listed])
  fix w us assume w: "mirror M (wo_time w) (wo_hub w)" "K w" and us: "se_searchUids ses (wo_time w) low high = Inr us"
  show "listed M v {low..high} us w"
    unfolding listed_def
    using search_lists [OF setting(2) [OF assms(1)] _ _ setting(7) [OF assms(1) us]] assms(2) [OF w]
    by (intro exI [of _ "wo_time w"]) (auto simp: within_def)
qed

lemma fetch_keeps:
  assumes "sync_setting M p ses" and "\<And>w. mirror M (wo_time w) (wo_hub w) \<Longrightarrow> K w \<Longrightarrow> within M v high w"
    and "W \<subseteq> {..high}" and "\<And>w. K w \<Longrightarrow> listed M v W us w" and "\<And>w. K w \<Longrightarrow> since \<le> wo_time w"
  shows "keeps M E K (ask p (\<lambda>t. se_fetchHeaders ses t us)) (read_at M since v W)"
proof (rule keeps_ask [OF setting(3) [OF assms(1)] stable_read_at])
  fix w rs assume m: "mirror M (wo_time w) (wo_hub w)" and k: "K w" and rs: "se_fetchHeaders ses (wo_time w) us = Inr rs"
  show "read_at M since v W rs w"
    by (rule fetch_reads [OF assms(1) rs assms(4) [OF k] assms(5) [OF k]])
      (use assms(2) [OF m k] assms(3) in \<open>auto simp: within_def\<close>)
qed

lemma none_read: "listed M v W [] w \<Longrightarrow> since \<le> wo_time w \<Longrightarrow> read_at M since v W [] w"
  unfolding read_at_def listed_def fetched_def by (intro exI [of _ "wo_time w"]) (auto intro: gone_later)

lemma fetch_some_keeps:
  assumes "sync_setting M p ses" and "\<And>w. mirror M (wo_time w) (wo_hub w) \<Longrightarrow> K w \<Longrightarrow> within M v high w"
    and "W \<subseteq> {..high}" and "\<And>w. K w \<Longrightarrow> listed M v W us w" and "\<And>w. K w \<Longrightarrow> since \<le> wo_time w"
  shows "keeps M E K (if us = [] then give [] else ask p (\<lambda>t. se_fetchHeaders ses t us)) (read_at M since v W)"
proof (rule keeps_if)
  assume "us = []"
  then show "keeps M E K (give []) (read_at M since v W)" using assms(4,5) by (auto intro!: keeps_give none_read)
qed (rule fetch_keeps [OF assms])

lemma recheck_keeps:
  assumes "sync_setting M p ses" and "mc_uidValidity (mr_server M since) = v"
    and "\<And>w. K w \<Longrightarrow> read_at M since v W rs w" and "\<And>w. K w \<Longrightarrow> since \<le> wo_time w"
  shows "keeps M E K (ask p (se_revalidate ses)) (rechecked M v rs)"
proof (rule keeps_ask [OF setting(3) [OF assms(1)] stable_rechecked])
  show "imap_server (mr_server M)" by (rule setting(2) [OF assms(1)])
  fix w view assume k: "K w" and "se_revalidate ses (wo_time w) = Inr view"
  then have view: "view = view_of (mr_server M (wo_time w))" by (intro setting(6) [OF assms(1)])
  have "v \<le> mc_uidValidity (mr_server M (wo_time w))"
    using server_since [OF setting(2) [OF assms(1)] _ assms(4) [OF k]] assms(2) by simp
  then show "rechecked M v rs view w"
    using recheck_holds [OF setting(2) [OF assms(1)] assms(2) assms(3) [OF k]]
    by (auto simp: rechecked_def moved_on_def view)
qed

section \<open>A batch of backfill\<close>

lemma shown_within:
  assumes "sync_setting M p ses" and "mirror M (wo_time w) (wo_hub w)" and "shown M v eff (wo_hub w)"
  shows "within M v (nf_backfillBeforeUid eff - 1) w"
  using shown_under [OF assms(2,3) setting(2) [OF assms(1)]] by (simp add: within_def)

lemma close_out_run_keeps:
  assumes "sync_setting M p ses" and "\<And>w. K w \<Longrightarrow> shown M (mv_uidValidity mb) eff (wo_hub w)"
    and "nf_backfillBeforeUid eff \<le> 1"
  shows "keeps M E K (commit p (close_out (mr_account M) (mr_folder M) mb)) (batch_moves M)"
proof (rule keeps_commit [OF setting(3) [OF assms(1)]])
  fix out show "stable M (batch_moves M out)" by (intro stable_facts setting(2) [OF assms(1)])
next
  fix w now out h
  assume m: "mirror M (wo_time w) (wo_hub w)" and k: "K w"
    and c: "close_out (mr_account M) (mr_folder M) mb now (wo_hub w) = Inr (out, h)"
  obtain f where f: "past M f (wo_hub w)" "fo_uidvalidity f = Some (mv_uidValidity mb)"
    "fo_backfillBeforeUid f = Some (nf_backfillBeforeUid eff)"
    using assms(2) [OF k] by (auto simp: shown_def)
  have "out = Bo_Complete" using c by (auto simp: close_out_def attempt_def split: sum.splits if_splits)
  then show "mirror M (wo_time w) h \<and> ahead M (wo_hub w) h \<and> batch_moves M out (w\<lparr>wo_hub := h\<rparr>)"
    using close_out_keeps [OF m f(1,3) assms(3) f(2) c] by (simp add: batch_moves_def)
qed

lemma window_run_keeps:
  assumes "sync_setting M p ses" and "\<And>w. K w \<Longrightarrow> shown M (mv_uidValidity mb) eff (wo_hub w)"
    and "high = nf_backfillBeforeUid eff - 1" and "1 \<le> low"
    and "\<And>w. K w \<Longrightarrow> read_at M since (mv_uidValidity mb) {low..high} rs w"
    and "\<And>w. K w \<Longrightarrow> all_held M (mv_uidValidity mb) rs w"
  shows "keeps M E K (commit p (window_commit p (mr_account M) (mr_folder M) mb low high n rs)) (batch_moves M)"
proof (rule keeps_commit [OF setting(3) [OF assms(1)]])
  fix out show "stable M (batch_moves M out)" by (intro stable_facts setting(2) [OF assms(1)])
next
  fix w now out h
  assume m: "mirror M (wo_time w) (wo_hub w)" and k: "K w"
    and c: "window_commit p (mr_account M) (mr_folder M) mb low high n rs now (wo_hub w) = Inr (out, h)"
  obtain f where f: "past M f (wo_hub w)" "fo_uidvalidity f = Some (mv_uidValidity mb)"
    "fo_backfillBeforeUid f = Some (nf_backfillBeforeUid eff)"
    using assms(2) [OF k] by (auto simp: shown_def)
  have "mirror M (wo_time w) h \<and> ahead M (wo_hub w) h"
    by (rule window_commit_keeps [OF setting(4) [OF assms(1)] m f(1,3,2) assms(4) c [unfolded assms(3)]])
      (use assms(5,6) [OF k] assms(3) in \<open>auto simp: all_held_def dest: read_at_fetched\<close>)
  moreover have "batch_moves M out (w\<lparr>wo_hub := h\<rparr>)"
    using window_outcome [OF m f(1,2) c] by (simp add: batch_moves_def moved_on_def)
  ultimately show "mirror M (wo_time w) h \<and> ahead M (wo_hub w) h \<and> batch_moves M out (w\<lparr>wo_hub := h\<rparr>)" by blast
qed

lemma fetch_window_keeps:
  assumes "sync_setting M p ses" and "mb = view_of (mr_server M since)"
    and "\<And>w. K w \<Longrightarrow> shown M (mv_uidValidity mb) eff (wo_hub w)" and "\<And>w. K w \<Longrightarrow> since \<le> wo_time w"
  shows "keeps M E K (fetch_window p ses (mr_account M) (mr_folder M) mb eff) (batch_moves M)"
proof -
  have v: "mc_uidValidity (mr_server M since) = mv_uidValidity mb" by (simp add: assms(2))
  note st = stable_listed stable_read_at stable_rechecked [OF setting(2) [OF assms(1)]]
  note w = shown_within [OF assms(1) _ assms(3)]
  show ?thesis
    unfolding fetch_window_def Let_def
    apply (rule keeps_if)
     apply (rule close_out_run_keeps [OF assms(1,3)], assumption, simp)
    apply (rule keeps_call [OF search_keeps [OF assms(1) w] st(1)], assumption, assumption)
      apply (rule keeps_call [OF fetch_some_keeps [OF assms(1) w, where W = "{max 1 (nf_backfillBeforeUid eff - 1 - sp_windowSize p + 1)..nf_backfillBeforeUid eff - 1}" and since = since] st(2)])
           apply (assumption, erule conjunct1, force, simp add: listed_def, simp add: assms(4))
      apply (rule keeps_call [OF recheck_keeps [OF assms(1) v] st(3)], erule conjunct2, simp add: assms(4))
      apply (rule keeps_if)
       apply (rule keeps_post [OF generationChanged_keeps [OF setting(3) [OF assms(1)]]])
       apply (simp add: batch_moves_def rechecked_def)
      apply (rule window_run_keeps [OF assms(1), where eff = eff and since = since])
          apply (simp add: assms(3))
         apply (rule refl)
        apply simp
       apply simp
      apply (simp add: rechecked_def)
    done
qed

lemma keeps_viewed:
  assumes "\<And>w. K w \<Longrightarrow> viewed M t mb w"
    and "\<And>since. mb = view_of (mr_server M since) \<Longrightarrow> keeps M E (\<lambda>w. K w \<and> since \<le> wo_time w) m Q"
  shows "keeps M E K m Q"
proof (rule keeps_ex [where R = "\<lambda>since w. mb = view_of (mr_server M since) \<and> since \<le> wo_time w"])
  show "stable M (\<lambda>w. mb = view_of (mr_server M since) \<and> since \<le> wo_time w)" for since by (intro stable_facts)
  show "\<exists>since. mb = view_of (mr_server M since) \<and> since \<le> wo_time w" if "K w" for w
    using assms(1) [OF that] by (auto simp: viewed_def)
  show "keeps M E (\<lambda>w. K w \<and> mb = view_of (mr_server M since) \<and> since \<le> wo_time w) m Q" for since
  proof (rule keeps_fact [where F = "mb = view_of (mr_server M since)"])
    assume e: "mb = view_of (mr_server M since)"
    then show "keeps M E (\<lambda>w. K w \<and> mb = view_of (mr_server M since) \<and> since \<le> wo_time w) m Q"
      using assms(2) [OF e] by simp
  qed simp
qed

text \<open>Selecting the folder.\<close>

definition selected :: "mirrored \<Rightarrow> folder_row \<Rightarrow> mailbox_view \<Rightarrow> world \<Rightarrow> bool" where
  "selected M f mb w \<longleftrightarrow> viewed M 0 mb w \<and>
     (\<forall>v. fo_uidvalidity f = Some v \<longrightarrow> moved_on M v (mv_uidValidity mb) w)"

lemma stable_selected [stable_facts]: "imap_server (mr_server M) \<Longrightarrow> stable M (selected M f mb)"
  unfolding selected_def [abs_def] by (intro stable_facts)

lemma select_keeps:
  assumes "sync_setting M p ses" and "\<And>w. K w \<Longrightarrow> loaded M B f w"
  shows "keeps M E K (ask p (\<lambda>t. se_select ses t (fo_name f))) (selected M f)"
proof (rule keeps_ask [OF setting(3) [OF assms(1)] stable_selected])
  show "imap_server (mr_server M)" by (rule setting(2) [OF assms(1)])
  fix w mb assume m: "mirror M (wo_time w) (wo_hub w)" and k: "K w" and "se_select ses (wo_time w) (fo_name f) = Inr mb"
  then have mb: "mb = view_of (mr_server M (wo_time w))"
    using assms(2) [OF k] by (intro setting(5) [OF assms(1)]) (simp add: loaded_def)
  have "v \<le> mc_uidValidity (mr_server M (wo_time w))" if v: "fo_uidvalidity f = Some v" for v
  proof -
    have "past M f (wo_hub w)" using assms(2) [OF k] by (simp add: loaded_def)
    then obtain v' where "v \<le> v'" "v' \<le> mc_uidValidity (mr_server M (wo_time w))"
      using past_generation [OF _ v m] by metis
    then show ?thesis by simp
  qed
  then show "selected M f mb w" by (auto simp: selected_def viewed_def moved_on_def mb)
qed

lemma shown_loaded:
  "loaded M B f w \<Longrightarrow> toInitialized f = Inr eff \<Longrightarrow> fo_uidvalidity f = Some v \<Longrightarrow> shown M v eff (wo_hub w)"
  unfolding shown_def loaded_def
  by (intro exI [of _ f]) (use toInitialized_Inr [of f eff] in \<open>auto simp: checkpoints_ok_def\<close>)

definition initialized :: "mirrored \<Rightarrow> folder_row \<Rightarrow> int \<Rightarrow> initialization \<Rightarrow> world \<Rightarrow> bool" where
  "initialized M f v init w \<longleftrightarrow>
     (case init of
        In_Changed recorded observed \<Rightarrow> fo_uidvalidity f \<noteq> None \<longrightarrow> moved_on M recorded observed w
      | In_Ready fresh eff \<Rightarrow> shown M v eff (wo_hub w))"

lemma stable_initialized [stable_facts]: "imap_server (mr_server M) \<Longrightarrow> stable M (initialized M f v init)"
  unfolding initialized_def [abs_def] by (cases init) (simp_all add: stable_facts)

lemma initialize_run_keeps:
  assumes "sync_setting M p ses" and "mb = view_of (mr_server M since)" and "\<And>w. K w \<Longrightarrow> since \<le> wo_time w"
    and "\<And>w. K w \<Longrightarrow> loaded M B f w" and "fo_uidvalidity f = None \<or> fo_uidvalidity f = Some (mv_uidValidity mb)"
  shows "keeps M E K (commit p (initializeCheckpoints (mr_account M) (mr_folder M) mb)) (initialized M f (mv_uidValidity mb))"
proof (rule keeps_commit [OF setting(3) [OF assms(1)] stable_initialized])
  show "imap_server (mr_server M)" by (rule setting(2) [OF assms(1)])
  fix w now init h
  assume m: "mirror M (wo_time w) (wo_hub w)" and k: "K w"
    and c: "initializeCheckpoints (mr_account M) (mr_folder M) mb now (wo_hub w) = Inr (init, h)"
  note i = initialize_keeps [OF setting(2) [OF assms(1)] m assms(3) [OF k] c [unfolded assms(2)]]
  have "moved_on M recorded observed (w\<lparr>wo_hub := h\<rparr>)"
    if e: "init = In_Changed recorded observed" "fo_uidvalidity f \<noteq> None" for recorded observed
  proof -
    have "past M f (wo_hub w)" using assms(4) [OF k] by (simp add: loaded_def)
    moreover have "fo_uidvalidity f = Some recorded" using i e assms(2,5) by auto
    ultimately show ?thesis using i e m
      by (auto simp: moved_on_def elim!: past_generation)
  qed
  then show "mirror M (wo_time w) h \<and> ahead M (wo_hub w) h \<and> initialized M f (mv_uidValidity mb) init (w\<lparr>wo_hub := h\<rparr>)"
    using i by (auto simp: initialized_def assms(2) split: initialization.splits)
qed

definition batch_moves_if :: "mirrored \<Rightarrow> bool \<Rightarrow> batch_outcome \<Rightarrow> world \<Rightarrow> bool" where
  "batch_moves_if M B out w \<longleftrightarrow> (B \<longrightarrow> batch_moves M out w)"

lemma stable_batch_moves_if [stable_facts]: "imap_server (mr_server M) \<Longrightarrow> stable M (batch_moves_if M B out)"
  unfolding batch_moves_if_def [abs_def] by (intro stable_facts)

lemma runBatch_keeps:
  assumes "sync_setting M p ses" and "\<And>w. B \<Longrightarrow> K w \<Longrightarrow> has_generation M (wo_hub w)"
  shows "keeps M E K (runBatch p ses (mr_account M) (mr_folder M)) (batch_moves_if M B)"
proof -
  note s = setting(2) [OF assms(1)]
  note changed = keeps_post [OF generationChanged_keeps [OF setting(3) [OF assms(1)]]]
  show ?thesis
    unfolding runBatch_def
    apply (rule keeps_guard_run)
    apply (rule keeps_call [OF load_folder_keeps [OF assms(1), of B] stable_loaded], simp add: assms(2))
    apply (rule keeps_call [OF select_keeps [OF assms(1)] stable_selected [OF s]], erule conjunct2)
    subgoal for f mb
      apply (rule keeps_viewed [where mb = mb and t = 0], simp add: selected_def)
      apply (rule keeps_if)
       apply (rule changed, auto simp: batch_moves_if_def batch_moves_def selected_def) []
      apply (rule keeps_if)
       apply (rule keeps_give, simp add: batch_moves_if_def batch_moves_def)
      apply (rule keeps_if)
       apply (rule keeps_call [OF initialize_run_keeps [OF assms(1), where f = f and B = B] stable_initialized [OF s]])
           apply assumption
          apply simp
         apply simp
        apply blast
       subgoal for since init
         apply (cases init; simp only: initialization.case)
          apply (rule changed, auto simp: batch_moves_if_def batch_moves_def initialized_def loaded_def) []
         apply (rule keeps_if)
          apply (rule keeps_give, simp add: batch_moves_if_def batch_moves_def)
         apply (rule keeps_if)
          apply (rule keeps_give, simp add: batch_moves_if_def batch_moves_def)
         apply (rule keeps_post [OF fetch_window_keeps [OF assms(1)]], rule refl)
           apply (simp add: initialized_def)
          apply simp
         apply (simp add: batch_moves_if_def)
         done
      apply (cases "toInitialized f"; simp only: sum.case)
       apply (rule keeps_throw)
      apply (rule keeps_if)
       apply (rule keeps_give, simp add: batch_moves_if_def batch_moves_def)
      apply (rule keeps_post [OF fetch_window_keeps [OF assms(1)]], rule refl)
        apply (rule shown_loaded, force, assumption, force)
       apply simp
      apply (simp add: batch_moves_if_def)
      done
    done
qed

end
