(* ===== verification/Sync_Polls.thy ===== *)
theory Sync_Polls
  imports Sync_Runs
begin

text \<open>
  Polls and inventories keep the invariant: arrivals window by window, the expunge pass against the
  whole UID set, the flags, and the nightly inventory. Resets and the loops of a folder's cycle
  follow.
\<close>

section \<open>Arrivals\<close>

definition part_moves :: "mirrored \<Rightarrow> 'a part \<Rightarrow> world \<Rightarrow> bool" where
  "part_moves M out w \<longleftrightarrow>
     (\<forall>recorded observed. out = Part_Changed recorded observed \<longrightarrow> moved_on M recorded observed w)"

lemma stable_part_moves [stable_facts]: "imap_server (mr_server M) \<Longrightarrow> stable M (part_moves M out)"
  unfolding part_moves_def [abs_def] by (intro stable_facts)

text \<open>The windows left to fetch hold, in order, all the server keeps between two UIDs.\<close>

definition windows_left :: "mirrored \<Rightarrow> int \<Rightarrow> int \<Rightarrow> int \<Rightarrow> int list list \<Rightarrow> world \<Rightarrow> bool" where
  "windows_left M v prev bound wins w \<longleftrightarrow>
     sorted (concat wins) \<and> (wins = [[]] \<or> (\<forall>win \<in> set wins. win \<noteq> [])) \<and>
     (wins \<noteq> [] \<longrightarrow> listed M v {prev <.. bound} (concat wins) w) \<and> (\<forall>u \<in> set (concat wins). prev \<le> u \<and> u \<le> bound)"

lemma stable_windows_left [stable_facts]: "stable M (windows_left M v prev bound wins)"
  unfolding windows_left_def [abs_def] by (intro stable_facts)

definition covered_to :: "int list list \<Rightarrow> int list \<Rightarrow> int \<Rightarrow> int" where
  "covered_to wins win bound = (if wins = [] then bound else last win)"

lemma windows_first:
  assumes "windows_left M v prev bound (win # wins) w"
  shows "listed M v {prev <.. covered_to wins win bound} win w" and "covered_to wins win bound \<le> bound"
    and "windows_left M v (covered_to wins win bound) bound wins w"
proof -
  have sw: "sorted (win @ concat wins)" and ne: "win # wins = [[]] \<or> (\<forall>x \<in> set (win # wins). x \<noteq> [])"
    and l: "listed M v {prev <.. bound} (win @ concat wins) w" and le: "\<forall>u \<in> set (win @ concat wins). prev \<le> u \<and> u \<le> bound"
    using assms by (auto simp: windows_left_def)
  have nonempty: "win \<noteq> []" if "wins \<noteq> []" using ne that by auto
  have below: "last win \<le> u" if "u \<in> set (concat wins)" for u
  proof -
    have "wins \<noteq> []" using that by auto
    then have "last win \<in> set win" using nonempty by simp
    then show ?thesis using sw that by (auto simp: sorted_append)
  qed
  have above: "u \<le> last win" if "u \<in> set win" for u
    using sw that by (cases win rule: rev_cases) (auto simp: sorted_append)
  have split: "u \<in> set win" if u: "u \<in> set (win @ concat wins)" "u \<le> last win" "wins \<noteq> []" for u
  proof (cases "u \<in> set win")
    case False
    then have "u = last win" using u(1,2) below by fastforce
    then show ?thesis using nonempty [OF u(3)] by simp
  qed simp
  obtain t where t: "t \<le> wo_time w" "\<forall>u \<in> {prev <.. bound}. u \<in> set (win @ concat wins) \<or> gone (mr_server M) t v u"
    using l by (auto simp: listed_def)
  show b: "covered_to wins win bound \<le> bound"
    using ne le by (auto simp: covered_to_def)
  show "listed M v {prev <.. covered_to wins win bound} win w"
    unfolding listed_def
  proof (intro exI [of _ t] conjI ballI)
    fix u assume u: "u \<in> {prev <.. covered_to wins win bound}"
    then have "u \<in> set (win @ concat wins) \<or> gone (mr_server M) t v u" using t(2) b by simp
    then show "u \<in> set win \<or> gone (mr_server M) t v u"
      using u split by (cases "wins = []") (auto simp: covered_to_def)
  qed (rule t(1))
  have "listed M v {last win <.. bound} (concat wins) w" if w: "wins \<noteq> []"
    unfolding listed_def
  proof (intro exI [of _ t] conjI ballI)
    fix u assume u: "u \<in> {last win <.. bound}"
    have "prev \<le> last win" using le nonempty [OF w] by simp
    with u t(2) have "u \<in> set (win @ concat wins) \<or> gone (mr_server M) t v u" by simp
    then show "u \<in> set (concat wins) \<or> gone (mr_server M) t v u" using u above by fastforce
  qed (rule t(1))
  then show "windows_left M v (covered_to wins win bound) bound wins w"
    using sw ne le below by (auto simp: windows_left_def covered_to_def sorted_append)
qed

lemma arrival_run_keeps:
  assumes "sync_setting M p ses" and "\<And>w. K w \<Longrightarrow> past M f (wo_hub w)" and "fo_uidvalidity f = Some v"
    and "fo_backfillBeforeUid f \<noteq> None"
    and "\<And>w. K w \<Longrightarrow> read_at M since v {fo_arrivalScannedUid f <.. covered} rs w"
    and "\<And>w. K w \<Longrightarrow> all_held M v rs w"
  shows "keeps M E K (commit p (arrival_commit p (mr_account M) (mr_folder M) v covered rs))
    (\<lambda>r w. r \<noteq> None \<longrightarrow> past M (f\<lparr>fo_arrivalScannedUid := covered\<rparr>) (wo_hub w))"
proof (rule keeps_commit [OF setting(3) [OF assms(1)]])
  fix r show "stable M (\<lambda>w. r \<noteq> (None :: (int \<times> int) option) \<longrightarrow> past M (f\<lparr>fo_arrivalScannedUid := covered\<rparr>) (wo_hub w))"
    by (intro stable_facts)
next
  fix w now r h
  assume m: "mirror M (wo_time w) (wo_hub w)" and k: "K w"
    and c: "arrival_commit p (mr_account M) (mr_folder M) v covered rs now (wo_hub w) = Inr (r, h)"
  show "mirror M (wo_time w) h \<and> ahead M (wo_hub w) h \<and>
    (r \<noteq> None \<longrightarrow> past M (f\<lparr>fo_arrivalScannedUid := covered\<rparr>) (wo_hub (w\<lparr>wo_hub := h\<rparr>)))"
    using arrival_commit_keeps [OF setting(4) [OF assms(1)] m assms(2) [OF k] assms(3,4) c] assms(5,6) [OF k]
    by (simp add: all_held_def read_at_fetched)
qed

lemma reload_keeps:
  assumes "sync_setting M p ses" and "\<And>w. K w \<Longrightarrow> past M f (wo_hub w)" and "fo_uidvalidity f = Some v"
  shows "keeps M E K (load_folder p (mr_account M) (mr_folder M))
    (\<lambda>f' w. moved_on M v (case fo_uidvalidity f' of None \<Rightarrow> v | Some v' \<Rightarrow> v') w)"
  unfolding load_folder_def
proof (rule keeps_query [OF setting(3) [OF assms(1)] stable_moved_on [OF setting(2) [OF assms(1)]]])
  fix w f'
  assume m: "mirror M (wo_time w) (wo_hub w)" and k: "K w"
    and "(case folder_in M (wo_hub w) of None \<Rightarrow> Inl SE_Not_Found | Some f \<Rightarrow> Inr f) = Inr f'"
  then have f': "folder_in M (wo_hub w) = Some f'" by (simp split: option.splits)
  obtain g v' where "folder_in M (wo_hub w) = Some g" "fo_uidvalidity g = Some v'" "v \<le> v'"
    "v' \<le> mc_uidValidity (mr_server M (wo_time w))"
    by (rule past_generation [OF assms(2) [OF k] assms(3) m])
  then show "moved_on M v (case fo_uidvalidity f' of None \<Rightarrow> v | Some v' \<Rightarrow> v') w"
    using f' by (simp add: moved_on_def)
qed

lemma arrival_windows_keeps:
  assumes "sync_setting M p ses" and "mc_uidValidity (mr_server M since) = v" and "fo_id f = mr_folder M"
    and "fo_uidvalidity f = Some v" and "fo_backfillBeforeUid f \<noteq> None"
    and "\<And>w. K w \<Longrightarrow> past M (f\<lparr>fo_arrivalScannedUid := prev\<rparr>) (wo_hub w)" and "\<And>w. K w \<Longrightarrow> since \<le> wo_time w"
    and "\<And>w. K w \<Longrightarrow> within M v bound w" and "\<And>w. K w \<Longrightarrow> windows_left M v prev bound wins w"
    and "\<And>w. K w \<Longrightarrow> past M f (wo_hub w)"
  shows "keeps M E K (arrival_windows p ses (mr_account M) f v bound wins counts) (part_moves M)"
  using assms(6-)
proof (induction wins arbitrary: prev counts K)
  case Nil
  show ?case by (cases counts) (auto intro!: keeps_give simp: part_moves_def)
next
  case (Cons win wins)
  obtain found imported skipped where counts: "counts = (found, imported, skipped)" by (cases counts)
  let ?c = "covered_to wins win bound"
  note s = setting(2) [OF assms(1)]
  have c: "(if wins = [] then bound else last win) = ?c" by (simp add: covered_to_def)
  show ?case
    unfolding counts arrival_windows.simps c assms(3)
    apply (rule keeps_fact [where F = "?c \<le> bound"])
     apply (rule keeps_call [OF fetch_keeps [OF assms(1) Cons.prems(3), where W = "{prev <.. ?c}" and since = since] stable_read_at])
         apply assumption
        apply fastforce
       apply (rule windows_first(1) [OF Cons.prems(4)], assumption)
      apply (erule Cons.prems(2))
     apply (rule keeps_call [OF recheck_keeps [OF assms(1,2)] stable_rechecked [OF s]])
       apply (erule conjunct2)
      apply (simp add: Cons.prems(2))
     apply (rule keeps_if)
      apply (rule keeps_give, simp add: part_moves_def rechecked_def)
     apply (rule keeps_call [OF arrival_run_keeps [OF assms(1), where f = "f\<lparr>fo_arrivalScannedUid := prev\<rparr>" and v = v and since = since]])
           apply (simp add: Cons.prems(1))
          apply (simp add: assms(4))
         apply (simp add: assms(5))
        apply simp
       apply (simp add: rechecked_def)
      apply (intro stable_facts)
    subgoal for rs view r
      apply (cases r; simp only: option.case)
       apply (rule keeps_call [OF reload_keeps [OF assms(1), where f = f] stable_moved_on [OF s]])
         apply (simp add: Cons.prems(5))
        apply (rule assms(4))
       apply (rule keeps_give, simp add: part_moves_def)
      apply (simp only: split_paired_all prod.case)
      apply (rule Cons.IH [where prev = ?c])
          apply simp
         apply (simp add: Cons.prems(2))
        apply (simp add: Cons.prems(3))
       apply (simp add: windows_first(3) [OF Cons.prems(4)])
      apply (simp add: Cons.prems(5))
      done
    apply (rule windows_first(2) [OF Cons.prems(4)], assumption)
    done
qed

lemma slices_concat: "0 < n \<Longrightarrow> concat (slices n xs) = xs"
proof (induction n xs rule: slices.induct)
  case (1 n xs)
  then show ?case by (subst slices.simps) simp
qed

lemma slices_nonempty: "win \<in> set (slices n xs) \<Longrightarrow> win \<noteq> []"
proof (induction n xs rule: slices.induct)
  case (1 n xs)
  then show ?case by (subst (asm) slices.simps) (auto split: if_splits)
qed

lemma windows_start:
  assumes "0 < n" and "listed M v {prev + 1 .. bound} us w" and "\<forall>u \<in> set us. prev + 1 \<le> u \<and> u \<le> bound"
  shows "windows_left M v prev bound (if slices n (sort us) = [] then [[]] else slices n (sort us)) w"
proof -
  have c: "concat (if slices n (sort us) = [] then [[]] else slices n (sort us)) = sort us"
    using slices_concat [OF assms(1), of "sort us"] by auto
  have "{prev <.. bound} = {prev + 1 .. bound}" by auto
  then have "listed M v {prev <.. bound} (sort us) w" using assms(2) by (simp add: listed_def)
  moreover have "\<forall>u \<in> set (sort us). prev \<le> u \<and> u \<le> bound" using assms(3) by fastforce
  ultimately show ?thesis
    unfolding windows_left_def c by (auto dest: slices_nonempty)
qed

lemma within_since:
  assumes "imap_server (mr_server M)" and "since \<le> wo_time w" and "high < mc_uidNext (mr_server M since)"
  shows "within M (mc_uidValidity (mr_server M since)) high w"
proof -
  have "within M (mc_uidValidity (mr_server M since)) high (w\<lparr>wo_time := since\<rparr>)"
    using assms(3) by (simp add: within_def)
  then show ?thesis
    using stable_within [OF assms(1), of "mc_uidValidity (mr_server M since)" high] assms(2)
    unfolding stable_def by (elim allE [of _ "w\<lparr>wo_time := since\<rparr>"] allE [of _ w]) simp
qed

lemma within_bound:
  assumes "imap_server (mr_server M)" and "since \<le> wo_time w"
  shows "within M (mc_uidValidity (mr_server M since)) (max 0 (mc_uidNext (mr_server M since) - 1)) w"
proof -
  have "1 \<le> mc_uidNext (mr_server M since)" using assms(1) by (simp add: imap_server_def)
  then show ?thesis by (intro within_since [OF assms]) simp
qed

lemma search_range_keeps:
  assumes "sync_setting M p ses" and "\<And>w. mirror M (wo_time w) (wo_hub w) \<Longrightarrow> K w \<Longrightarrow> within M v high w"
  shows "keeps M E K (ask p (\<lambda>t. se_searchUids ses t low high))
    (\<lambda>us w. listed M v {low..high} us w \<and> (\<forall>u \<in> set us. low \<le> u \<and> u \<le> high))"
proof (rule keeps_ask [OF setting(3) [OF assms(1)]])
  fix us show "stable M (\<lambda>w. listed M v {low..high} us w \<and> (\<forall>u \<in> set us. low \<le> u \<and> u \<le> high))"
    by (intro stable_facts)
next
  fix w us assume w: "mirror M (wo_time w) (wo_hub w)" "K w" and us: "se_searchUids ses (wo_time w) low high = Inr us"
  have "listed M v {low..high} us w"
    unfolding listed_def
    using search_lists [OF setting(2) [OF assms(1)] _ _ setting(7) [OF assms(1) us]] assms(2) [OF w]
    by (intro exI [of _ "wo_time w"]) (auto simp: within_def)
  then show "listed M v {low..high} us w \<and> (\<forall>u \<in> set us. low \<le> u \<and> u \<le> high)"
    using setting(7) [OF assms(1) us] by auto
qed

lemma importArrivals_keeps:
  assumes "sync_setting M p ses" and "0 < sp_arrivalBatch p" and "fo_uidvalidity f = Some (mc_uidValidity (mr_server M since))"
    and "fo_backfillBeforeUid f \<noteq> None" and "\<And>w. K w \<Longrightarrow> loaded M B f w" and "\<And>w. K w \<Longrightarrow> since \<le> wo_time w"
  shows "keeps M E K (importArrivals p ses (mr_account M) f (mc_uidNext (mr_server M since)) (mc_uidValidity (mr_server M since)))
    (part_moves M)"
proof -
  note s = setting(2) [OF assms(1)]
  let ?v = "mc_uidValidity (mr_server M since)" and ?bound = "max 0 (mc_uidNext (mr_server M since) - 1)"
  note w = within_bound [OF s assms(6)]
  show ?thesis
    unfolding importArrivals_def Let_def
    apply (rule keeps_if)
     apply (rule keeps_give, simp add: part_moves_def)
    apply (rule keeps_fact [where F = "fo_id f = mr_folder M"])
     apply (rule keeps_call [OF search_range_keeps [OF assms(1) w]])
       apply assumption
      apply (intro stable_facts)
     apply (rule keeps_call [OF arrival_windows_keeps [OF assms(1) refl, where prev = "fo_arrivalScannedUid f"] stable_part_moves [OF s]])
            apply assumption
           apply (rule assms(3))
          apply (rule assms(4))
         apply (simp, drule conjunct1, drule assms(5), simp add: loaded_def)
        apply (simp add: assms(6))
       apply (simp add: w)
      apply (rule windows_start [OF assms(2)], force, force)
     apply (drule conjunct1, drule assms(5), simp add: loaded_def)
    subgoal for us out
      by (cases out; simp only: part.case) (rule keeps_give, simp add: part_moves_def)+
    apply (drule assms(5), simp add: loaded_def)
    done
qed

section \<open>Expunges\<close>

text \<open>The UIDs a snapshot misses are gone.\<close>

definition uid_snapshot :: "mirrored \<Rightarrow> int \<Rightarrow> int \<Rightarrow> int list \<Rightarrow> world \<Rightarrow> bool" where
  "uid_snapshot M v bound present w \<longleftrightarrow>
     (\<exists>t. t \<le> wo_time w \<and> (\<forall>u \<le> bound. u \<in> set present \<or> gone (mr_server M) t v u))"

lemma stable_snapshot [stable_facts]: "stable M (uid_snapshot M v bound present)"
  unfolding stable_def uid_snapshot_def by (blast intro: order_trans)

lemma listed_snapshot:
  assumes "imap_server (mr_server M)" and "listed M v {1..bound} present w"
  shows "uid_snapshot M v bound present w"
proof -
  have "gone (mr_server M) t v u" if "u < 1" for t u
    using assms(1) that unfolding gone_def imap_server_def by fastforce
  then show ?thesis using assms(2) unfolding listed_def uid_snapshot_def
    by (metis atLeastAtMost_iff not_le_imp_less)
qed

lemma snapshot_keeps:
  assumes "sync_setting M p ses" and "\<And>w. mirror M (wo_time w) (wo_hub w) \<Longrightarrow> K w \<Longrightarrow> within M v bound w" and "0 \<le> bound"
  shows "keeps M E K (if 1 \<le> bound then ask p (\<lambda>t. se_searchUids ses t 1 bound) else give []) (uid_snapshot M v bound)"
proof (rule keeps_if)
  show "keeps M E K (ask p (\<lambda>t. se_searchUids ses t 1 bound)) (uid_snapshot M v bound)"
    by (rule keeps_post [OF search_range_keeps [OF assms(1,2)]]) (use listed_snapshot [OF setting(2) [OF assms(1)]] in blast)+
next
  assume "\<not> 1 \<le> bound"
  then have "listed M v {1..bound} [] w" for w by (force simp: listed_def)
  then show "keeps M E K (give []) (uid_snapshot M v bound)"
    using listed_snapshot [OF setting(2) [OF assms(1)]] by (intro keeps_give) blast
qed

abbreviation missed_by :: "int \<Rightarrow> int list \<Rightarrow> int set" where
  "missed_by bound present \<equiv> {u. u \<le> bound \<and> u \<notin> set present}"

lemma names_rows_page:
  assumes "names_rows M v D ids h" and "\<And>oc. P oc \<Longrightarrow> oc_uid oc \<in> D"
  shows "names_rows M v D (ids @ map oc_id (filter P (occurrence_page live a (mr_folder M) v after n h))) h"
proof -
  have "oc \<in> set (h_occurrences h) \<and> of_folder M oc \<and> oc_uidvalidity oc = v"
    if "oc \<in> set (occurrence_page live a (mr_folder M) v after n h)" for oc
    using that by (auto simp: occurrence_page_def of_folder_def dest!: in_set_takeD)
  then show ?thesis using assms unfolding names_rows_def by (auto; blast)
qed

lemma absent_walk_keeps:
  assumes "sync_setting M p ses" and "\<And>w. K w \<Longrightarrow> names_rows M v (missed_by bound present) ids (wo_hub w)"
  shows "keeps M E K (absent_walk p a (mr_folder M) v bound present n after ids)
    (\<lambda>ids w. names_rows M v (missed_by bound present) ids (wo_hub w))"
  using assms(2)
proof (induction n arbitrary: after ids K)
  case 0
  show ?case by (simp add: keeps_throw)
next
  case (Suc n)
  show ?case
    unfolding absent_walk.simps
    apply (rule keeps_call [where R = "\<lambda>page w. names_rows M v (missed_by bound present)
        (ids @ map oc_id (filter (\<lambda>oc. oc_uid oc \<le> bound \<and> oc_uid oc \<notin> set present) page)) (wo_hub w)"])
      apply (rule keeps_query [OF setting(3) [OF assms(1)]])
       apply (intro stable_facts)
      apply (clarsimp, rule names_rows_page, erule Suc.prems, simp)
     apply (intro stable_facts)
    apply (rule keeps_if)
     apply (rule keeps_give, simp add: Suc.prems)
    apply (rule Suc.IH, simp)
    done
qed

lemma expunge_run_keeps:
  assumes "sync_setting M p ses" and "\<And>w. K w \<Longrightarrow> names_rows M v (missed_by bound present) ids (wo_hub w)"
    and "\<And>w. K w \<Longrightarrow> uid_snapshot M v bound present w"
  shows "keeps M E K (commit p (expunge_commit (mr_account M) (mr_folder M) v ids)) (\<lambda>_ _. True)"
proof (rule keeps_commit [OF setting(3) [OF assms(1)] stable_True])
  fix w now r h
  assume m: "mirror M (wo_time w) (wo_hub w)" and k: "K w"
    and c: "expunge_commit (mr_account M) (mr_folder M) v ids now (wo_hub w) = Inr (r, h)"
  have "\<forall>u \<in> missed_by bound present. gone (mr_server M) (wo_time w) v u"
    using assms(3) [OF k] unfolding uid_snapshot_def by (blast intro: gone_later)
  then show "mirror M (wo_time w) h \<and> ahead M (wo_hub w) h \<and> True"
    using expunge_commit_keeps [OF m c assms(2) [OF k]] by simp
qed

lemma markExpunges_keeps:
  assumes "sync_setting M p ses" and "v = mc_uidValidity (mr_server M since)" and "\<And>w. K w \<Longrightarrow> since \<le> wo_time w"
  shows "keeps M E K (markExpunges p ses (mr_account M) (mr_folder M) v) (part_moves M)"
proof -
  note s = setting(2) [OF assms(1)]
  have reached: "v \<le> mc_uidValidity (mr_server M (wo_time w))" if "K w" for w
    using server_since [OF s order_refl assms(3) [OF that]] assms(2) by simp
  have view: "keeps M E K (ask p (se_revalidate ses)) (\<lambda>view w. moved_on M v (mv_uidValidity view) w \<and>
      within M v (max 0 (mv_uidNext view - 1)) w)" if "\<And>w. K w \<Longrightarrow> since \<le> wo_time w" for E K
  proof (rule keeps_ask [OF setting(3) [OF assms(1)]])
    fix view show "stable M (\<lambda>w. moved_on M v (mv_uidValidity view) w \<and> within M v (max 0 (mv_uidNext view - 1)) w)"
      by (intro stable_facts s)
  next
    fix w view assume k: "K w" and "se_revalidate ses (wo_time w) = Inr view"
    then have view: "view = view_of (mr_server M (wo_time w))" by (intro setting(6) [OF assms(1)])
    have "v \<le> mc_uidValidity (mr_server M (wo_time w))"
      using server_since [OF s order_refl that [OF k]] assms(2) by simp
    moreover have "1 \<le> mc_uidNext (mr_server M (wo_time w))" using s by (simp add: imap_server_def)
    ultimately show "moved_on M v (mv_uidValidity view) w \<and> within M v (max 0 (mv_uidNext view - 1)) w"
      by (simp add: view moved_on_def within_def)
  qed
  show ?thesis
    unfolding markExpunges_def Let_def
    apply (rule keeps_call [OF view])
      apply (erule assms(3))
     apply (intro stable_facts s)
    subgoal for mb
      apply (rule keeps_call [OF snapshot_keeps [OF assms(1)] stable_snapshot], blast, simp)
      apply (rule keeps_call [OF absent_walk_keeps [OF assms(1)]])
        apply (simp add: names_rows_def)
       apply (intro stable_facts)
      apply (rule keeps_if)
       apply (rule keeps_give, simp add: part_moves_def)
      apply (rule keeps_call [OF view])
        apply (simp add: assms(3))
       apply (intro stable_facts s)
      apply (rule keeps_if)
       apply (rule keeps_give, simp add: part_moves_def)
      apply (rule keeps_call [OF expunge_run_keeps [OF assms(1)] stable_True])
        apply (elim conjE, assumption)
       apply (elim conjE, assumption)
      subgoal for present ids view marked
        apply (cases marked; simp only: option.case)
         apply (rule keeps_give, simp add: part_moves_def moved_on_def reached)
        apply (rule keeps_give, simp add: part_moves_def)
        done
      done
    done
qed

section \<open>Flags\<close>

lemma flags_run_keeps:
  assumes "sync_setting M p ses"
  shows "keeps M E K (commit p (flags_commit (mr_account M) (mr_folder M) v changes)) (\<lambda>_ _. True)"
  by (rule keeps_commit [OF setting(3) [OF assms] stable_True]) (use flags_commit_keeps in blast)

lemma current_view_keeps:
  assumes "sync_setting M p ses" and "\<And>w. K w \<Longrightarrow> v \<le> mc_uidValidity (mr_server M (wo_time w))"
  shows "keeps M E K (ask p (se_revalidate ses)) (\<lambda>view w. moved_on M v (mv_uidValidity view) w)"
proof (rule keeps_ask [OF setting(3) [OF assms(1)] stable_moved_on [OF setting(2) [OF assms(1)]]])
  fix w view assume k: "K w" and "se_revalidate ses (wo_time w) = Inr view"
  then have "view = view_of (mr_server M (wo_time w))" by (intro setting(6) [OF assms(1)])
  then show "moved_on M v (mv_uidValidity view) w" using assms(2) [OF k] by (simp add: moved_on_def)
qed

lemma flag_walk_keeps:
  assumes "sync_setting M p ses" and "\<And>w. K w \<Longrightarrow> v \<le> mc_uidValidity (mr_server M (wo_time w))"
  shows "keeps M E K (flag_walk p ses (mr_account M) (mr_folder M) v n after counts) (part_moves M)"
  using assms(2)
proof (induction n arbitrary: after counts K)
  case 0
  show ?case by (simp add: keeps_throw)
next
  case (Suc n)
  obtain observed changed where counts: "counts = (observed, changed)" by (cases counts)
  note s = setting(2) [OF assms(1)] and o = setting(3) [OF assms(1)]
  show ?case
    unfolding counts flag_walk.simps Let_def
    apply (rule keeps_call [OF keeps_query [OF o stable_True TrueI] stable_True])
    apply (rule keeps_if)
     apply (rule keeps_give, simp add: part_moves_def)
    apply (rule keeps_call [OF keeps_ask [OF o stable_True TrueI] stable_True])
    apply (rule keeps_if)
     apply (rule Suc.IH, simp add: Suc.prems)
    apply (rule keeps_call [OF current_view_keeps [OF assms(1)] stable_moved_on [OF s]])
     apply (elim conjE, erule Suc.prems)
    apply (rule keeps_if)
     apply (rule keeps_give, simp add: part_moves_def)
    apply (rule keeps_call [OF flags_run_keeps [OF assms(1)] stable_True])
    subgoal for page answers view applied
      apply (cases applied; simp only: option.case)
       apply (rule keeps_give, simp add: part_moves_def moved_on_def Suc.prems)
      apply (rule Suc.IH, simp add: Suc.prems)
      done
    done
qed

section \<open>A poll\<close>

lemma keeps_prod: "(\<And>a b. x = (a, b) \<Longrightarrow> keeps M E K (f a b) Q) \<Longrightarrow> keeps M E K (case x of (a, b) \<Rightarrow> f a b) Q"
  by (cases x) simp

lemma keeps_option:
  "(x = None \<Longrightarrow> keeps M E K f Q) \<Longrightarrow> (\<And>a. x = Some a \<Longrightarrow> keeps M E K (g a) Q) \<Longrightarrow>
   keeps M E K (case x of None \<Rightarrow> f | Some a \<Rightarrow> g a) Q"
  by (cases x) simp_all

lemma keeps_part:
  "(\<And>a. x = Part_Ok a \<Longrightarrow> keeps M E K (f a) Q) \<Longrightarrow>
   (\<And>recorded observed. x = Part_Changed recorded observed \<Longrightarrow> keeps M E K (g recorded observed) Q) \<Longrightarrow>
   keeps M E K (case x of Part_Ok a \<Rightarrow> f a | Part_Changed recorded observed \<Rightarrow> g recorded observed) Q"
  by (cases x) simp_all

definition poll_moves :: "mirrored \<Rightarrow> poll_outcome \<Rightarrow> world \<Rightarrow> bool" where
  "poll_moves M out w \<longleftrightarrow>
     (\<forall>recorded observed. out = Po_Generation_Changed recorded observed \<longrightarrow> moved_on M recorded observed w)"

lemma stable_poll_moves [stable_facts]: "imap_server (mr_server M) \<Longrightarrow> stable M (poll_moves M out)"
  unfolding poll_moves_def [abs_def] by (intro stable_facts)

lemma polled_keeps:
  assumes "sync_setting M p ses"
  shows "keeps M E K (commit p (\<lambda>now h. Inr (Po_Polled v c, recordFolderEvent now a i ty pl h))) (poll_moves M)"
  by (rule keeps_post [OF keeps_event [OF setting(3) [OF assms]]]) (simp_all add: poll_moves_def)

lemma pollFolder_keeps:
  assumes "sync_setting M p ses" and "0 < sp_arrivalBatch p"
  shows "keeps M E K (pollFolder p ses (mr_account M) (mr_folder M)) (poll_moves M)"
proof -
  note s = setting(2) [OF assms(1)]
  show ?thesis
    unfolding pollFolder_def Let_def
    apply (rule keeps_guard_run)
    apply (rule keeps_call [OF load_folder_keeps [OF assms(1), of False] stable_loaded], simp)
    apply (rule keeps_call [OF select_keeps [OF assms(1)] stable_selected [OF s]], erule conjunct2)
    subgoal for f mb
      apply (rule keeps_viewed [where mb = mb and t = 0], simp add: selected_def)
      apply (rule keeps_if)
       apply (rule keeps_give, auto simp: poll_moves_def selected_def) []
      apply (cases "fo_uidvalidity f"; cases "fo_backfillBeforeUid f"; simp only: option.case prod.case)
         apply (rule keeps_give, simp add: poll_moves_def)
        apply (rule keeps_give, simp add: poll_moves_def)
       apply (rule keeps_give, simp add: poll_moves_def)
      subgoal for since v b
        apply (rule keeps_fact [where F = "v = mc_uidValidity (mr_server M since)"])
         apply (simp only: view_of_simps)
         apply (rule keeps_call [OF importArrivals_keeps [OF assms, where f = f and B = False] stable_part_moves [OF s]])
             apply simp
            apply simp
           apply (elim conjE, assumption)
          apply (elim conjE, assumption)
         apply (rule keeps_part)
          apply (intro keeps_prod)
          apply (rule keeps_call [OF markExpunges_keeps [OF assms(1) refl, where since = since] stable_part_moves [OF s]])
           apply simp
          apply (rule keeps_part)
           apply (unfold refreshFlags_def)
           apply (rule keeps_call [OF flag_walk_keeps [OF assms(1)] stable_part_moves [OF s]])
            apply (rule server_since [OF s order_refl], simp)
           apply (rule keeps_part)
            apply (intro keeps_prod)
            apply (rule polled_keeps [OF assms(1)])
           apply (rule keeps_give, simp add: poll_moves_def part_moves_def)+
        apply simp
        done
      done
    done
qed

section \<open>An inventory\<close>

definition inventory_moves :: "mirrored \<Rightarrow> inventory_outcome \<Rightarrow> world \<Rightarrow> bool" where
  "inventory_moves M out w \<longleftrightarrow>
     (\<forall>recorded observed. out = Iv_Generation_Changed recorded observed \<longrightarrow> moved_on M recorded observed w)"

lemma stable_inventory_moves [stable_facts]: "imap_server (mr_server M) \<Longrightarrow> stable M (inventory_moves M out)"
  unfolding inventory_moves_def [abs_def] by (intro stable_facts)

lemma inventory_walk_keeps:
  assumes "sync_setting M p ses" and "\<And>w. K w \<Longrightarrow> names_rows M v (missed_by bound present) (snd (snd acc)) (wo_hub w)"
  shows "keeps M E K (inventory_walk p a (mr_folder M) v bound present n after acc)
    (\<lambda>acc w. names_rows M v (missed_by bound present) (snd (snd acc)) (wo_hub w))"
  using assms(2)
proof (induction n arbitrary: after acc K)
  case 0
  show ?case by (cases acc) (simp add: keeps_throw)
next
  case (Suc n)
  obtain known live ids where acc: "acc = (known, live, ids)" by (cases acc)
  show ?case
    unfolding acc inventory_walk.simps
    apply (rule keeps_call [where R = "\<lambda>page w. names_rows M v (missed_by bound present)
        (ids @ map oc_id (filter (\<lambda>oc. active oc \<and> oc_uid oc \<le> bound \<and> oc_uid oc \<notin> set present) page)) (wo_hub w)"])
      apply (rule keeps_query [OF setting(3) [OF assms(1)]])
       apply (intro stable_facts)
      apply (clarsimp, rule names_rows_page, drule Suc.prems, simp add: acc, simp)
     apply (intro stable_facts)
    apply (rule keeps_if)
     apply (rule keeps_give, use Suc.prems in \<open>simp add: acc\<close>)
    apply (rule Suc.IH, simp)
    done
qed

lemma inventory_run_keeps:
  assumes "sync_setting M p ses" and "\<And>w. K w \<Longrightarrow> names_rows M v (missed_by bound present) ids (wo_hub w)"
    and "\<And>w. K w \<Longrightarrow> uid_snapshot M v bound present w" and "\<And>w. K w \<Longrightarrow> all_held M v rs w"
  shows "keeps M E K (commit p (inventory_commit p (mr_account M) (mr_folder M) v b pr live pend ids rs)) (\<lambda>_ _. True)"
proof (rule keeps_commit [OF setting(3) [OF assms(1)] stable_True])
  fix w now r h
  assume m: "mirror M (wo_time w) (wo_hub w)" and k: "K w"
    and c: "inventory_commit p (mr_account M) (mr_folder M) v b pr live pend ids rs now (wo_hub w) = Inr (r, h)"
  have "\<forall>u \<in> missed_by bound present. gone (mr_server M) (wo_time w) v u"
    using assms(3) [OF k] unfolding uid_snapshot_def by (blast intro: gone_later)
  then show "mirror M (wo_time w) h \<and> ahead M (wo_hub w) h \<and> True"
    using inventory_commit_keeps [OF setting(4) [OF assms(1)] m c _ assms(2) [OF k]] assms(4) [OF k]
    by (simp add: all_held_def)
qed

lemma inventoryFolder_keeps:
  assumes "sync_setting M p ses"
  shows "keeps M E K (inventoryFolder p ses (mr_account M) (mr_folder M)) (inventory_moves M)"
proof -
  note s = setting(2) [OF assms(1)]
  show ?thesis
    unfolding inventoryFolder_def Let_def
    apply (rule keeps_guard_run)
    apply (rule keeps_call [OF load_folder_keeps [OF assms(1), of False] stable_loaded], simp)
    apply (rule keeps_call [OF select_keeps [OF assms(1)] stable_selected [OF s]], erule conjunct2)
    subgoal for f mb
      apply (rule keeps_viewed [where mb = mb and t = 0], simp add: selected_def)
      apply (rule keeps_if)
       apply (rule keeps_give, auto simp: inventory_moves_def selected_def) []
      apply (cases "fo_uidvalidity f"; cases "fo_backfillBeforeUid f"; simp only: option.case prod.case)
         apply (rule keeps_give, simp add: inventory_moves_def)
        apply (rule keeps_give, simp add: inventory_moves_def)
       apply (rule keeps_give, simp add: inventory_moves_def)
      subgoal for since v b
        apply (rule keeps_fact [where F = "v = mc_uidValidity (mr_server M since)"])
         apply (simp only: view_of_simps)
         apply (rule keeps_call [OF snapshot_keeps [OF assms] stable_snapshot], rule within_bound [OF s], blast, simp)
         apply (rule keeps_call [OF inventory_walk_keeps [OF assms]])
           apply (simp add: names_rows_def)
          apply (intro stable_facts)
         apply (intro keeps_prod)
         apply (rule keeps_call [where R = "read_at M since (mc_uidValidity (mr_server M since)) {}"])
           apply (rule keeps_if)
            apply (rule keeps_give, rule none_read, simp add: listed_def, force, force)
           apply (rule fetch_keeps [OF assms, where high = "max 0 (mc_uidNext (mr_server M since) - 1)"])
              apply (simp add: within_bound [OF s])
             apply simp
            apply (force simp: listed_def)
           apply simp
          apply (rule stable_read_at)
         apply (rule keeps_call [OF recheck_keeps [OF assms, where since = since] stable_rechecked [OF s]])
            apply simp
           apply (elim conjE, assumption)
          apply simp
         apply (rule keeps_if)
          apply (rule keeps_give, simp add: inventory_moves_def rechecked_def)
         apply (rule keeps_call [OF inventory_run_keeps [OF assms] stable_True])
            apply (elim conjE, simp)
           apply (elim conjE, simp)
          apply (simp add: rechecked_def)
         apply (rule keeps_option)
          apply (rule keeps_give, use server_since [OF s order_refl] in \<open>simp add: inventory_moves_def moved_on_def\<close>)
         apply (rule keeps_give, simp add: inventory_moves_def)
        apply simp
        done
      done
    done
qed

section \<open>Resets and the cycle of a folder\<close>

lemma applyReset_keeps:
  assumes "sync_setting M p ses" and "\<And>w. K w \<Longrightarrow> moved_on M recorded observed w"
  shows "keeps M E K (applyReset p (mr_account M) (mr_folder M) recorded observed) (\<lambda>_ _. True)"
proof -
  have reset: "keeps M E L (commit p (reset_tx (mr_account M) (mr_folder M) recorded observed)) (\<lambda>_ _. True)"
    if "\<And>w. L w \<Longrightarrow> moved_on M recorded observed w" for E L
    by (rule keeps_commit [OF setting(3) [OF assms(1)] stable_True])
      (use reset_tx_keeps [OF _ _ _ _ setting(2) [OF assms(1)]] that in \<open>fastforce simp: moved_on_def\<close>)
  show ?thesis
    unfolding applyReset_def resetFolderGeneration_def
    apply (rule keeps_call [OF keeps_tally stable_True])
    apply (rule keeps_call [OF keeps_guard_run [OF reset] stable_True])
     apply (simp add: assms(2))
    subgoal for u r
      by (cases r; simp only: reset_outcome.case) (intro keeps_give keeps_tally TrueI)+
    done
qed

lemma keeps_unless_aborted:
  "keeps M E K m Q \<Longrightarrow> keeps M E K m' Q \<Longrightarrow> keeps M E K (unless_aborted p m m') Q"
  unfolding keeps_def ends_def unless_aborted_def by simp

lemma backfill_loop_keeps:
  assumes "sync_setting M p ses" and "\<And>w. K w \<Longrightarrow> has_generation M (wo_hub w)" and "fo_id current = mr_folder M"
  shows "keeps M E K (backfill_loop p ses (mr_account M) budget current) (\<lambda>(f, n) w. fo_id f = mr_folder M)"
  using assms(2,3)
proof (induction budget arbitrary: current K)
  case 0
  show ?case using 0 by (auto intro!: keeps_give)
next
  case (Suc budget)
  note s = setting(2) [OF assms(1)]
  have go: "keeps M E L (backfill_loop p ses (mr_account M) budget f) (\<lambda>(f, n) w. fo_id f = mr_folder M)"
    if "\<And>w. L w \<Longrightarrow> K w \<and> fo_id f = mr_folder M" for L f
  proof (rule keeps_fact [where F = "fo_id f = mr_folder M"])
    assume "fo_id f = mr_folder M"
    then show "keeps M E L (backfill_loop p ses (mr_account M) budget f) (\<lambda>(f, n) w. fo_id f = mr_folder M)"
      using that Suc.prems(1) by (intro Suc.IH) blast+
  qed (use that in blast)
  show ?case
    unfolding backfill_loop.simps Suc.prems(2)
    apply (rule keeps_if)
     apply (rule keeps_give, simp add: Suc.prems)
    apply (rule keeps_unless_aborted)
     apply (rule keeps_call [OF runBatch_keeps [OF assms(1), of True] stable_batch_moves_if [OF s]])
      apply (simp add: Suc.prems)
     apply (rule keeps_call [OF keeps_tally stable_True])
    subgoal for out u
    proof -
      let ?L = "\<lambda>w. (K w \<and> batch_moves_if M True out w) \<and> True"
      have other: "keeps M E ?L (call (tally (count_imported (batch_imported out))) (\<lambda>_.
          if batch_last out then give (current, budget)
          else call (yieldControl p) (\<lambda>_. backfill_loop p ses (mr_account M) budget current)))
          (\<lambda>(f, n) w. fo_id f = mr_folder M)"
        apply (rule keeps_call [OF keeps_tally stable_True])
        apply (rule keeps_if)
         apply (rule keeps_give, simp add: Suc.prems)
        apply (unfold yieldControl_def)
        apply (rule keeps_call [OF keeps_ask [OF setting(3) [OF assms(1)] stable_True TrueI] stable_True])
        apply (rule go, simp add: Suc.prems)
        done
      show ?thesis
      proof (cases out)
        case (Bo_Generation_Changed recorded observed)
        show ?thesis
          unfolding Bo_Generation_Changed batch_outcome.case
          apply (rule keeps_call [OF applyReset_keeps [OF assms(1)] stable_True])
           apply (simp add: batch_moves_if_def batch_moves_def)
          apply (rule keeps_call [OF load_folder_keeps [OF assms(1), of False] stable_loaded], simp)
          apply (rule go, simp add: loaded_def)
          done
      qed (use other in simp_all)
    qed
    apply (rule keeps_give, simp add: Suc.prems)
    done
qed

text \<open>A run that goes on with a row of the folder.\<close>

definition is_folder :: "mirrored \<Rightarrow> folder_row \<Rightarrow> world \<Rightarrow> bool" where
  "is_folder M f w \<longleftrightarrow> fo_id f = mr_folder M"

lemma stable_is_folder [stable_facts]: "stable M (is_folder M f)"
  by (simp add: stable_def is_folder_def)

lemma loaded_is_folder: "loaded M B f w \<Longrightarrow> is_folder M f w"
  by (simp add: loaded_def is_folder_def)

lemma loop_run_keeps:
  assumes "sync_setting M p ses" and "\<And>w. K w \<Longrightarrow> has_generation M (wo_hub w)" and "\<And>w. K w \<Longrightarrow> is_folder M f w"
  shows "keeps M E K (backfill_loop p ses (mr_account M) budget f) (\<lambda>x. is_folder M (fst x))"
proof (rule keeps_fact [where F = "fo_id f = mr_folder M"])
  assume "fo_id f = mr_folder M"
  then show "keeps M E K (backfill_loop p ses (mr_account M) budget f) (\<lambda>x. is_folder M (fst x))"
    by (intro keeps_post [OF backfill_loop_keeps [OF assms(1,2)]]) (auto simp: is_folder_def)
qed (use assms(3) in \<open>simp add: is_folder_def\<close>)

lemma runResetBackfill_keeps:
  assumes "sync_setting M p ses" and "\<And>w. K w \<Longrightarrow> has_generation M (wo_hub w)"
  shows "keeps M E K (runResetBackfill p ses (mr_account M) (mr_folder M) budget) (is_folder M)"
  unfolding runResetBackfill_def
  apply (rule keeps_call [OF load_folder_keeps [OF assms(1), of False] stable_loaded], simp)
  apply (rule keeps_call [OF loop_run_keeps [OF assms(1)] stable_is_folder])
    apply (simp add: assms(2))
   apply (blast intro: loaded_is_folder)
  apply (rule keeps_post [OF load_folder_keeps [OF assms(1), of False]], simp, erule loaded_is_folder)
  done

lemma pollDue_keeps: "others_keep M p \<Longrightarrow> keeps M E K (pollDue p f) (\<lambda>_ _. True)"
  unfolding pollDue_def [abs_def] by (rule keeps_query_at)

lemma inventoryDue_keeps: "others_keep M p \<Longrightarrow> keeps M E K (inventoryDue p i) (\<lambda>_ _. True)"
  unfolding inventoryDue_def [abs_def] by (rule keeps_query_at)

lemma poll_part_keeps:
  assumes "sync_setting M p ses" and "0 < sp_arrivalBatch p" and "\<And>w. K w \<Longrightarrow> has_generation M (wo_hub w)"
    and "\<And>w. K w \<Longrightarrow> is_folder M current w"
  shows "keeps M E K (poll_part p ses (mr_account M) budget current) (is_folder M)"
proof (rule keeps_fact [where F = "fo_id current = mr_folder M"])
  assume f: "fo_id current = mr_folder M"
  note s = setting(2) [OF assms(1)] and o = setting(3) [OF assms(1)]
  show "keeps M E K (poll_part p ses (mr_account M) budget current) (is_folder M)"
    unfolding poll_part_def f
    apply (rule keeps_unless_aborted)
     apply (rule keeps_if)
      apply (rule keeps_give, erule assms(4))
     apply (rule keeps_call [where R = "\<lambda>_ _. True", OF _ stable_True])
      apply (rule pollDue_keeps [OF o])
     apply (rule keeps_if)
      apply (rule keeps_give, simp add: assms(4))
     apply (rule keeps_call [OF keeps_tally stable_True])
     apply (rule keeps_call [OF pollFolder_keeps [OF assms(1,2)] stable_poll_moves [OF s]])
    subgoal for due u out
      apply (cases out; simp only: poll_outcome.case)
        apply (rule keeps_call [OF keeps_tally stable_True])
        apply (rule keeps_give, simp add: assms(4))
       apply (rule keeps_call [OF applyReset_keeps [OF assms(1)] stable_True])
        apply (simp add: poll_moves_def)
       apply (rule runResetBackfill_keeps [OF assms(1)], simp add: assms(3))
      apply (rule keeps_give, simp add: assms(4))
      done
    apply (rule keeps_give, erule assms(4))
    done
qed (use assms(4) in \<open>simp add: is_folder_def\<close>)

lemma inventory_part_keeps:
  assumes "sync_setting M p ses" and "\<And>w. K w \<Longrightarrow> has_generation M (wo_hub w)" and "\<And>w. K w \<Longrightarrow> is_folder M current w"
  shows "keeps M E K (inventory_part p ses (mr_account M) budget current) (\<lambda>_ _. True)"
proof (rule keeps_fact [where F = "fo_id current = mr_folder M"])
  assume f: "fo_id current = mr_folder M"
  note s = setting(2) [OF assms(1)] and o = setting(3) [OF assms(1)]
  show "keeps M E K (inventory_part p ses (mr_account M) budget current) (\<lambda>_ _. True)"
    unfolding inventory_part_def f
    apply (rule keeps_unless_aborted)
     apply (rule keeps_if)
      apply (rule keeps_give, rule TrueI)
     apply (rule keeps_call [where R = "\<lambda>_ _. True", OF _ stable_True])
      apply (rule inventoryDue_keeps [OF o])
     apply (rule keeps_if)
      apply (rule keeps_give, rule TrueI)
     apply (rule keeps_call [OF keeps_tally stable_True])
     apply (rule keeps_call [OF inventoryFolder_keeps [OF assms(1)] stable_inventory_moves [OF s]])
    subgoal for due u out
      apply (cases out; simp only: inventory_outcome.case)
        apply (rule keeps_tally)
       apply (rule keeps_call [OF applyReset_keeps [OF assms(1)] stable_True])
        apply (simp add: inventory_moves_def)
       apply (rule keeps_call [OF runResetBackfill_keeps [OF assms(1)] stable_is_folder], simp add: assms(2))
       apply (rule keeps_give, rule TrueI)
      apply (rule keeps_give, rule TrueI)
      done
    apply (rule keeps_give, rule TrueI)
    done
qed (use assms(3) in \<open>simp add: is_folder_def\<close>)

lemma synchronizeFolder_keeps:
  assumes "sync_setting M p ses" and "0 < sp_arrivalBatch p" and "\<And>w. K w \<Longrightarrow> has_generation M (wo_hub w)"
    and "fo_id f = mr_folder M"
  shows "keeps M E K (synchronizeFolder p ses (mr_account M) f) (\<lambda>_ _. True)"
  unfolding synchronizeFolder_def
  apply (rule keeps_call [OF keeps_tally stable_True])
  apply (rule keeps_call [OF loop_run_keeps [OF assms(1)] stable_is_folder])
    apply (simp add: assms(3))
   apply (simp add: is_folder_def assms(4))
  apply (intro keeps_prod)
  subgoal for u x current budget
    apply (rule keeps_fact [where F = "fo_id current = mr_folder M"])
     apply (simp only:)
     apply (rule keeps_call [OF load_folder_keeps [OF assms(1), of False] stable_loaded], simp)
     apply (rule keeps_call [OF poll_part_keeps [OF assms(1,2)] stable_is_folder])
       apply (simp add: assms(3))
      apply (blast intro: loaded_is_folder)
     apply (rule inventory_part_keeps [OF assms(1)])
      apply (simp add: assms(3))
     apply blast
    apply (simp add: is_folder_def)
    done
  done

end
