(* ===== verification/Sync_Scan.thy ===== *)
theory Sync_Scan
  imports Sync_Runner
begin

text \<open>
  The keyset walks of \<open>steady.ts\<close> and \<open>reconcile.ts\<close> read their rows page by page, each page from
  above the last UID of the one before. While no other writer moves, they see what one query for
  all the rows sees, and they end within the pages that takes.
\<close>

definition scan :: "(occurrence_row \<Rightarrow> bool) \<Rightarrow> uuid \<Rightarrow> uuid \<Rightarrow> int \<Rightarrow> int \<Rightarrow> occurrence_row list \<Rightarrow> occurrence_row list" where
  "scan live a f v after ocs =
     sort_key oc_uid (filter (\<lambda>oc. oc_accountId oc = pg_uuid a \<and> oc_folderId oc = pg_uuid f \<and>
        oc_uidvalidity oc = v \<and> live oc \<and> oc_uid oc > after) ocs)"

lemma page_scan: "occurrence_page live a f v after n h = take n (scan live a f v after (h_occurrences h))"
  by (simp add: occurrence_page_def scan_def)

lemma scan_above: "after \<le> b \<Longrightarrow> scan live a f v b ocs = filter (\<lambda>oc. oc_uid oc > b) (scan live a f v after ocs)"
  by (simp add: scan_def filter_sort) (rule arg_cong [where f = "sort_key oc_uid"], rule filter_cong, auto)

lemma scan_sorted: "sorted (map oc_uid (scan live a f v after ocs))"
  by (simp add: scan_def)

lemma scan_after: "oc \<in> set (scan live a f v after ocs) \<Longrightarrow> after < oc_uid oc"
  by (simp add: scan_def)

text \<open>The rest of a scan after a page that ends with a UID.\<close>

lemma filter_above_page:
  assumes "sorted (map g xs)" and "distinct (map g xs)" and "take n xs \<noteq> []"
  shows "filter (\<lambda>x. g x > (g (last (take n xs)) :: int)) xs = drop n xs"
proof -
  have x: "xs = take n xs @ drop n xs" by simp
  let ?l = "last (take n xs)"
  have l: "?l \<in> set (take n xs)" using assms(3) by simp
  have s: "sorted (map g (take n xs) @ map g (drop n xs))" and d: "distinct (map g (take n xs) @ map g (drop n xs))"
    using assms(1,2) by (metis append_take_drop_id map_append)+
  have "g y \<le> g ?l" if "y \<in> set (take n xs)" for y
  proof -
    have "take n xs = butlast (take n xs) @ [?l]" using assms(3) by simp
    then have "sorted (map g (butlast (take n xs)) @ [g ?l])" and y: "y \<in> set (butlast (take n xs) @ [?l])"
      using s that by (metis (no_types, lifting) list.simps(8,9) map_append sorted_append, metis)
    then show ?thesis by (auto simp: sorted_append)
  qed
  then have "filter (\<lambda>x. g x > g ?l) (take n xs) = []" by (auto simp: filter_empty_conv not_less)
  moreover have "g ?l < g y" if y: "y \<in> set (drop n xs)" for y
  proof -
    have "g ?l \<le> g y" using s l y by (auto simp: sorted_append)
    moreover have "g ?l \<noteq> g y" using d l y by auto
    ultimately show ?thesis by simp
  qed
  then have "filter (\<lambda>x. g x > g ?l) (drop n xs) = drop n xs" by (auto intro: filter_True)
  ultimately show ?thesis by (subst x) (simp only: filter_append append_Nil)
qed

lemma scan_next:
  assumes "distinct (map oc_uid (scan live a f v after ocs))" and "take n (scan live a f v after ocs) \<noteq> []"
  shows "scan live a f v (oc_uid (last (take n (scan live a f v after ocs)))) ocs = drop n (scan live a f v after ocs)"
proof -
  have "last (take n (scan live a f v after ocs)) \<in> set (scan live a f v after ocs)"
    using last_in_set [OF assms(2)] by (rule in_set_takeD)
  then have "after \<le> oc_uid (last (take n (scan live a f v after ocs)))" using scan_after by fastforce
  then show ?thesis
    using filter_above_page [OF scan_sorted assms] by (simp add: scan_above)
qed

text \<open>No other writer moves between the reads.\<close>

definition still :: "sync_ports \<Rightarrow> bool" where
  "still p \<longleftrightarrow> (\<forall>t h. h_occurrences (sp_env p t h) = h_occurrences h)"

lemma query_still:
  assumes "still p"
  obtains w' where "query p q w = (q (wo_hub w), w')" and "h_occurrences (wo_hub w') = h_occurrences (wo_hub w)"
  using assms by (auto simp: query_def still_def)

text \<open>What the rows of a scan add to the account of a walk.\<close>

definition surveyed :: "int \<Rightarrow> int list \<Rightarrow> occurrence_row list \<Rightarrow> int list \<times> int \<times> uuid list \<Rightarrow> int list \<times> int \<times> uuid list" where
  "surveyed bound present rows acc =
     (case acc of (known, live, absent) \<Rightarrow>
        (known @ map oc_uid rows, live + int (length (filter active rows)),
         absent @ map oc_id (filter (\<lambda>oc. active oc \<and> oc_uid oc \<le> bound \<and> oc_uid oc \<notin> set present) rows)))"

lemma surveyed_append: "surveyed bound present ys (surveyed bound present xs acc) = surveyed bound present (xs @ ys) acc"
  by (simp add: surveyed_def split: prod.split)

lemma inventory_walk_step:
  "inventory_walk p a f v bound present (Suc n) after acc =
     call (query p (\<lambda>h. Inr (occurrence_page (\<lambda>_. True) a f v after INVENTORY_PAGE h))) (\<lambda>page.
       if page = [] then give acc
       else inventory_walk p a f v bound present n (oc_uid (last page)) (surveyed bound present page acc))"
  by (cases acc) (simp add: surveyed_def cong: if_cong)

lemma inventory_walk_scans:
  assumes "still p" and "distinct (map oc_uid (scan (\<lambda>_. True) a f v after (h_occurrences (wo_hub w))))"
    and "length (scan (\<lambda>_. True) a f v after (h_occurrences (wo_hub w))) \<le> n * INVENTORY_PAGE"
  shows "fst (inventory_walk p a f v bound present (Suc n) after acc w) =
    Inr (surveyed bound present (scan (\<lambda>_. True) a f v after (h_occurrences (wo_hub w))) acc)"
  using assms(2,3)
proof (induction n arbitrary: after acc w)
  case 0
  obtain w' where "query p (\<lambda>h. Inr (occurrence_page (\<lambda>_. True) a f v after INVENTORY_PAGE h)) w =
      (Inr (occurrence_page (\<lambda>_. True) a f v after INVENTORY_PAGE (wo_hub w)), w')"
    by (rule query_still [OF assms(1)])
  then show ?case using 0 by (cases acc) (simp add: inventory_walk_step call_def page_scan give_def surveyed_def)
next
  case (Suc n)
  let ?rows = "scan (\<lambda>_. True) a f v after (h_occurrences (wo_hub w))"
  let ?page = "take INVENTORY_PAGE ?rows"
  obtain w' where q: "query p (\<lambda>h. Inr (occurrence_page (\<lambda>_. True) a f v after INVENTORY_PAGE h)) w =
      (Inr (occurrence_page (\<lambda>_. True) a f v after INVENTORY_PAGE (wo_hub w)), w')"
    and w': "h_occurrences (wo_hub w') = h_occurrences (wo_hub w)"
    by (rule query_still [OF assms(1)])
  show ?case
  proof (cases "?page = []")
    case True
    then have "?rows = []" by (simp add: INVENTORY_PAGE_def)
    with q show ?thesis
      by (cases acc) (simp add: inventory_walk_step [of _ _ _ _ _ _ "Suc n"] call_def page_scan give_def surveyed_def
          del: inventory_walk.simps)
  next
    case False
    have n: "scan (\<lambda>_. True) a f v (oc_uid (last ?page)) (h_occurrences (wo_hub w')) = drop INVENTORY_PAGE ?rows"
      using scan_next [OF Suc.prems(1) False] w' by simp
    have "distinct (map oc_uid (drop INVENTORY_PAGE ?rows))" using Suc.prems(1) by (simp flip: drop_map)
    moreover have "length (drop INVENTORY_PAGE ?rows) \<le> n * INVENTORY_PAGE" using Suc.prems(2) by simp
    ultimately have "fst (inventory_walk p a f v bound present (Suc n) (oc_uid (last ?page)) (surveyed bound present ?page acc) w') =
      Inr (surveyed bound present (drop INVENTORY_PAGE ?rows) (surveyed bound present ?page acc))"
      using Suc.IH [of "oc_uid (last ?page)" w'] unfolding n by blast
    moreover have "inventory_walk p a f v bound present (Suc (Suc n)) after acc w =
      inventory_walk p a f v bound present (Suc n) (oc_uid (last ?page)) (surveyed bound present ?page acc) w'"
      unfolding inventory_walk_step [of _ _ _ _ _ _ "Suc n"] call_def q using False by (simp add: page_scan del: inventory_walk.simps)
    ultimately show ?thesis by (simp add: surveyed_append del: inventory_walk.simps)
  qed
qed

text \<open>The walk of an expunge pass, over the active rows.\<close>

lemma absent_walk_scans:
  assumes "still p" and "0 < sp_flagBatch p" and "distinct (map oc_uid (scan active a f v after (h_occurrences (wo_hub w))))"
    and "length (scan active a f v after (h_occurrences (wo_hub w))) \<le> n * sp_flagBatch p"
  shows "fst (absent_walk p a f v bound present (Suc n) after ids w) =
    Inr (ids @ map oc_id (filter (\<lambda>oc. oc_uid oc \<le> bound \<and> oc_uid oc \<notin> set present)
      (scan active a f v after (h_occurrences (wo_hub w)))))"
  using assms(3,4)
proof (induction n arbitrary: after ids w)
  case 0
  obtain w' where "query p (\<lambda>h. Inr (occurrence_page active a f v after (sp_flagBatch p) h)) w =
      (Inr (occurrence_page active a f v after (sp_flagBatch p) (wo_hub w)), w')"
    by (rule query_still [OF assms(1)])
  then show ?case using 0 by (simp add: call_def page_scan give_def)
next
  case (Suc n)
  let ?rows = "scan active a f v after (h_occurrences (wo_hub w))"
  let ?page = "take (sp_flagBatch p) ?rows" and ?P = "\<lambda>oc. oc_uid oc \<le> bound \<and> oc_uid oc \<notin> set present"
  obtain w' where q: "query p (\<lambda>h. Inr (occurrence_page active a f v after (sp_flagBatch p) h)) w =
      (Inr (occurrence_page active a f v after (sp_flagBatch p) (wo_hub w)), w')"
    and w': "h_occurrences (wo_hub w') = h_occurrences (wo_hub w)"
    by (rule query_still [OF assms(1)])
  show ?case
  proof (cases "?page = []")
    case True
    then have "?rows = []" using assms(2) by simp
    with q show ?thesis
      unfolding absent_walk.simps(2) [of _ _ _ _ _ _ "Suc n"] call_def by (simp add: page_scan give_def del: absent_walk.simps)
  next
    case False
    have n: "scan active a f v (oc_uid (last ?page)) (h_occurrences (wo_hub w')) = drop (sp_flagBatch p) ?rows"
      using scan_next [OF Suc.prems(1) False] w' by simp
    have "distinct (map oc_uid (drop (sp_flagBatch p) ?rows))" using Suc.prems(1) by (simp flip: drop_map)
    moreover have "length (drop (sp_flagBatch p) ?rows) \<le> n * sp_flagBatch p" using Suc.prems(2) by simp
    ultimately have "fst (absent_walk p a f v bound present (Suc n) (oc_uid (last ?page)) (ids @ map oc_id (filter ?P ?page)) w') =
      Inr ((ids @ map oc_id (filter ?P ?page)) @ map oc_id (filter ?P (drop (sp_flagBatch p) ?rows)))"
      using Suc.IH [of "oc_uid (last ?page)" w' "ids @ map oc_id (filter ?P ?page)"] unfolding n by blast
    moreover have "absent_walk p a f v bound present (Suc (Suc n)) after ids w =
      absent_walk p a f v bound present (Suc n) (oc_uid (last ?page)) (ids @ map oc_id (filter ?P ?page)) w'"
      unfolding absent_walk.simps(2) [of _ _ _ _ _ _ "Suc n"] call_def q using False by (simp add: page_scan del: absent_walk.simps)
    moreover have "filter ?P ?page @ filter ?P (drop (sp_flagBatch p) ?rows) = filter ?P ?rows"
      by (simp flip: filter_append)
    ultimately show ?thesis by (simp flip: map_append del: absent_walk.simps)
  qed
qed

end
