(* ===== verification/Sync_Budget.thy ===== *)
theory Sync_Budget
  imports Sync_Runner
begin

text \<open>
  The window budget of a cycle. Only the backfill loop counts batches; \<open>silent\<close> are the runs that
  leave the counts alone. The budget left after the loop is given to the poll and to the inventory,
  so a cycle in which both meet a generation change can spend it twice, and never more.
\<close>

definition silent :: "'a run \<Rightarrow> bool" where
  "silent m \<longleftrightarrow> (\<forall>w. wo_summary (snd (m w)) = wo_summary w)"

named_theorems silent_runs "runs that do not change the counts"

lemma silent_give [silent_runs]: "silent (give a)" by (simp add: silent_def give_def)
lemma silent_throw [silent_runs]: "silent (throw e)" by (simp add: silent_def throw_def)
lemma silent_ask [silent_runs]: "silent (ask p q)" by (simp add: silent_def ask_def)
lemma silent_query [silent_runs]: "silent (query p q)" by (simp add: silent_def query_def)
lemma silent_query_at [silent_runs]: "silent (\<lambda>w. query p (q w) w)" by (simp add: silent_def query_def)
lemma silent_commit [silent_runs]: "silent (commit p b)" by (simp add: silent_def commit_def split: prod.split)

lemma silent_call [silent_runs]: "silent m \<Longrightarrow> (\<And>a. silent (f a)) \<Longrightarrow> silent (call m f)"
  unfolding silent_def call_def by (auto split: prod.split sum.split) (metis snd_conv)+

lemma silent_guard [silent_runs]: "silent m \<Longrightarrow> silent (guard_run b e m)"
  by (simp add: guard_run_def silent_throw)

lemma silent_if [silent_runs]: "(b \<Longrightarrow> silent m) \<Longrightarrow> (\<not> b \<Longrightarrow> silent m') \<Longrightarrow> silent (if b then m else m')"
  by simp

lemma silent_prod [silent_runs]: "(\<And>a b. silent (f a b)) \<Longrightarrow> silent (case x of (a, b) \<Rightarrow> f a b)"
  by (cases x) simp

lemma silent_option [silent_runs]: "silent m \<Longrightarrow> (\<And>a. silent (f a)) \<Longrightarrow> silent (case x of None \<Rightarrow> m | Some a \<Rightarrow> f a)"
  by (cases x) simp_all

lemma silent_sum [silent_runs]: "(\<And>a. silent (f a)) \<Longrightarrow> (\<And>b. silent (g b)) \<Longrightarrow> silent (case x of Inl a \<Rightarrow> f a | Inr b \<Rightarrow> g b)"
  by (cases x) simp_all

lemma silent_part [silent_runs]:
  "(\<And>a. silent (f a)) \<Longrightarrow> (\<And>r q. silent (g r q)) \<Longrightarrow> silent (case x of Part_Ok a \<Rightarrow> f a | Part_Changed r q \<Rightarrow> g r q)"
  by (cases x) simp_all

lemma silent_init [silent_runs]:
  "(\<And>r q. silent (f r q)) \<Longrightarrow> (\<And>b i. silent (g b i)) \<Longrightarrow> silent (case x of In_Changed r q \<Rightarrow> f r q | In_Ready b i \<Rightarrow> g b i)"
  by (cases x) simp_all

lemma silent_load [silent_runs]: "silent (load_folder p a i)"
  unfolding load_folder_def by (intro silent_runs)

lemma silent_generationChanged [silent_runs]: "silent (generationChanged p a i r q)"
  unfolding generationChanged_def by (intro silent_runs)

lemma silent_fetch_window [silent_runs]: "silent (fetch_window p ses a i mb eff)"
  unfolding fetch_window_def Let_def by (intro silent_runs)

lemma silent_runBatch [silent_runs]: "silent (runBatch p ses a i)"
  unfolding runBatch_def by (intro silent_runs)

lemma silent_arrival_windows [silent_runs]: "silent (arrival_windows p ses a f v b wins c)"
proof (induction wins arbitrary: c)
  case Nil
  show ?case by (cases c) (simp add: silent_give)
next
  case (Cons win wins)
  obtain x y z where "c = (x, y, z)" by (cases c)
  then show ?case by (simp only: arrival_windows.simps) (intro silent_runs Cons.IH)
qed

lemma silent_importArrivals [silent_runs]: "silent (importArrivals p ses a f n v)"
  unfolding importArrivals_def Let_def by (intro silent_runs)

lemma silent_absent_walk [silent_runs]: "silent (absent_walk p a f v b pr n after ids)"
  by (induction n arbitrary: after ids) (simp_all only: absent_walk.simps, intro silent_runs, intro silent_runs)

lemma silent_markExpunges [silent_runs]: "silent (markExpunges p ses a f v)"
  unfolding markExpunges_def Let_def by (intro silent_runs)

lemma silent_flag_walk [silent_runs]: "silent (flag_walk p ses a f v n after c)"
proof (induction n arbitrary: after c)
  case 0
  show ?case by (simp add: silent_throw)
next
  case (Suc n)
  obtain x y where "c = (x, y)" by (cases c)
  then show ?case by (simp only: flag_walk.simps Let_def) (intro silent_runs Suc.IH)
qed

lemma silent_pollFolder [silent_runs]: "silent (pollFolder p ses a f)"
  unfolding pollFolder_def refreshFlags_def Let_def by (intro silent_runs)

lemma silent_inventory_walk [silent_runs]: "silent (inventory_walk p a f v b pr n after acc)"
proof (induction n arbitrary: after acc)
  case 0
  show ?case by (cases acc) (simp add: silent_throw)
next
  case (Suc n)
  obtain x y z where "acc = (x, y, z)" by (cases acc)
  then show ?case by (simp only: inventory_walk.simps) (intro silent_runs Suc.IH)
qed

lemma silent_inventoryFolder [silent_runs]: "silent (inventoryFolder p ses a f)"
  unfolding inventoryFolder_def Let_def by (intro silent_runs)

lemma silent_pollDue [silent_runs]: "silent (pollDue p f)"
  unfolding pollDue_def [abs_def] by (rule silent_query_at)

lemma silent_inventoryDue [silent_runs]: "silent (inventoryDue p f)"
  unfolding inventoryDue_def [abs_def] by (rule silent_query_at)

section \<open>Counting batches\<close>

abbreviation batches :: "world \<Rightarrow> int" where
  "batches w \<equiv> cy_batches (wo_summary w)"

text \<open>A run that adds at most so many batches.\<close>

definition adds :: "nat \<Rightarrow> 'a run \<Rightarrow> bool" where
  "adds n m \<longleftrightarrow> (\<forall>w. batches (snd (m w)) \<le> batches w + int n)"

named_theorems adding_runs "how many batches runs add"

lemma adds_silent [adding_runs]: "silent m \<Longrightarrow> adds n m"
  by (simp add: silent_def adds_def)

lemma adds_tally: "(\<And>s. cy_batches (f s) = cy_batches s) \<Longrightarrow> adds n (tally f)"
  by (simp add: adds_def tally_def)

lemma adds_call: "adds k m \<Longrightarrow> (\<And>a. adds n (f a)) \<Longrightarrow> adds (k + n) (call m f)"
  unfolding adds_def call_def
proof (intro allI)
  fix w assume a: "\<forall>w. batches (snd (m w)) \<le> batches w + int k" and b: "\<And>a. \<forall>w. batches (snd (f a w)) \<le> batches w + int n"
  show "batches (snd (case m w of (Inl e, w') \<Rightarrow> (Inl e, w') | (Inr a, w') \<Rightarrow> f a w')) \<le> batches w + int (k + n)"
  proof (cases "m w")
    case (Pair r w')
    then have "batches w' \<le> batches w + int k" using a [rule_format, of w] by simp
    then show ?thesis using Pair b [rule_format, of "projr r" w'] by (cases r) simp_all
  qed
qed

lemma adds_then: "adds 0 m \<Longrightarrow> (\<And>a. adds n (f a)) \<Longrightarrow> adds n (call m f)"
  using adds_call [of 0 m n f] by simp

lemma adds_last: "adds n m \<Longrightarrow> (\<And>a. adds 0 (f a)) \<Longrightarrow> adds n (call m f)"
  using adds_call [of n m 0 f] by simp

lemma adds_unless: "adds n m \<Longrightarrow> adds n m' \<Longrightarrow> adds n (unless_aborted p m m')"
  by (simp add: adds_def unless_aborted_def)

lemma adds_if: "(b \<Longrightarrow> adds n m) \<Longrightarrow> (\<not> b \<Longrightarrow> adds n m') \<Longrightarrow> adds n (if b then m else m')"
  by simp

text \<open>The loop spends its budget: what it counts and what it returns stay within it.\<close>

lemma silent_spends: "silent m \<Longrightarrow> ends (\<lambda>w. batches w + int k \<le> N) m (\<lambda>_ w. batches w + int k \<le> N) (\<lambda>w. batches w \<le> N)"
  unfolding ends_def silent_def
proof (intro allI impI)
  fix w assume "\<forall>w. wo_summary (snd (m w)) = wo_summary w" and "batches w + int k \<le> N"
  then have "batches (snd (m w)) + int k \<le> N" by simp
  then show "case m w of (Inl e, w') \<Rightarrow> batches w' \<le> N | (Inr a, w') \<Rightarrow> batches w' + int k \<le> N"
    by (cases "m w"; cases "fst (m w)") simp_all
qed

lemma tally_spends:
  "(\<And>s. cy_batches (f s) = cy_batches s) \<Longrightarrow>
   ends (\<lambda>w. batches w + int k \<le> N) (tally f) (\<lambda>_ w. batches w + int k \<le> N) (\<lambda>w. batches w \<le> N)"
  by (rule ends_tally) simp

lemma applyReset_spends:
  "ends (\<lambda>w. batches w + int k \<le> N) (applyReset p a i r q) (\<lambda>_ w. batches w + int k \<le> N) (\<lambda>w. batches w \<le> N)"
  unfolding applyReset_def resetFolderGeneration_def
  apply (rule ends_call [OF tally_spends], simp)
  apply (rule ends_call [OF silent_spends], intro silent_runs)
  subgoal for u r
    by (cases r; simp only: reset_outcome.case) (rule tally_spends silent_spends [OF silent_give], simp?)+
  done

lemma adds_applyReset: "adds n (applyReset p a i r q)"
  unfolding adds_def
proof
  fix w
  have "ends (\<lambda>x. batches x + int 0 \<le> batches w) (applyReset p a i r q)
      (\<lambda>_ x. batches x + int 0 \<le> batches w) (\<lambda>x. batches x \<le> batches w)" by (rule applyReset_spends)
  from ends_run [OF this, of w] show "batches (snd (applyReset p a i r q w)) \<le> batches w + int n"
    by (cases "applyReset p a i r q w"; cases "fst (applyReset p a i r q w)") simp_all
qed

lemma ends_unless: "ends P m Q E \<Longrightarrow> ends P m' Q E \<Longrightarrow> ends P (unless_aborted p m m') Q E"
  unfolding ends_def unless_aborted_def by simp

lemma backfill_loop_spends:
  "ends (\<lambda>w. batches w + int budget \<le> N) (backfill_loop p ses a budget f)
     (\<lambda>x w. batches w + int (snd x) \<le> N) (\<lambda>w. batches w \<le> N)"
proof (induction budget arbitrary: f)
  case 0
  show ?case by (simp add: ends_give)
next
  case (Suc budget)
  have stop: "ends (\<lambda>w. batches w + int (Suc budget) \<le> N) (give (f, Suc budget))
     (\<lambda>x w. batches w + int (snd x) \<le> N) (\<lambda>w. batches w \<le> N)" by (simp add: ends_give)
  have batch: "ends (\<lambda>w. batches w + int (Suc budget) \<le> N)
     (call (runBatch p ses a (fo_id f)) (\<lambda>out.
           call (tally count_batch) (\<lambda>_.
             case out of
               Bo_Generation_Changed recorded observed \<Rightarrow>
                 call (applyReset p a (fo_id f) recorded observed) (\<lambda>_.
                 call (load_folder p a (fo_id f)) (\<lambda>f'. backfill_loop p ses a budget f'))
             | _ \<Rightarrow>
                 call (tally (count_imported (batch_imported out))) (\<lambda>_.
                   if batch_last out then give (f, budget)
                   else call (yieldControl p) (\<lambda>_. backfill_loop p ses a budget f)))))
     (\<lambda>x w. batches w + int (snd x) \<le> N) (\<lambda>w. batches w \<le> N)"
  proof (rule ends_call [OF silent_spends [OF silent_runBatch]])
    fix out
    have go: "ends (\<lambda>w. batches w + int budget \<le> N) (call (tally (count_imported (batch_imported out))) (\<lambda>_.
                   if batch_last out then give (f, budget)
                   else call (yieldControl p) (\<lambda>_. backfill_loop p ses a budget f)))
     (\<lambda>x w. batches w + int (snd x) \<le> N) (\<lambda>w. batches w \<le> N)"
      apply (rule ends_call [OF tally_spends], simp add: count_imported_def)
      apply (rule ends_if, rule ends_give, simp)
      apply (rule ends_call [OF silent_spends Suc.IH], simp add: yieldControl_def silent_ask)
      done
    have count: "ends (\<lambda>w. batches w + int (Suc budget) \<le> N) (tally count_batch)
        (\<lambda>_ w. batches w + int budget \<le> N) (\<lambda>w. batches w \<le> N)"
      by (rule ends_tally) (simp add: count_batch_def)
    show "ends (\<lambda>w. batches w + int (Suc budget) \<le> N) (call (tally count_batch) (\<lambda>_.
             case out of
               Bo_Generation_Changed recorded observed \<Rightarrow>
                 call (applyReset p a (fo_id f) recorded observed) (\<lambda>_.
                 call (load_folder p a (fo_id f)) (\<lambda>f'. backfill_loop p ses a budget f'))
             | _ \<Rightarrow>
                 call (tally (count_imported (batch_imported out))) (\<lambda>_.
                   if batch_last out then give (f, budget)
                   else call (yieldControl p) (\<lambda>_. backfill_loop p ses a budget f))))
     (\<lambda>x w. batches w + int (snd x) \<le> N) (\<lambda>w. batches w \<le> N)"
    proof (rule ends_call [OF count], cases out)
      case (Bo_Generation_Changed recorded observed)
      show "ends (\<lambda>w. batches w + int budget \<le> N) (case out of
               Bo_Generation_Changed recorded observed \<Rightarrow>
                 call (applyReset p a (fo_id f) recorded observed) (\<lambda>_.
                 call (load_folder p a (fo_id f)) (\<lambda>f'. backfill_loop p ses a budget f'))
             | _ \<Rightarrow>
                 call (tally (count_imported (batch_imported out))) (\<lambda>_.
                   if batch_last out then give (f, budget)
                   else call (yieldControl p) (\<lambda>_. backfill_loop p ses a budget f)))
         (\<lambda>x w. batches w + int (snd x) \<le> N) (\<lambda>w. batches w \<le> N)"
        unfolding Bo_Generation_Changed batch_outcome.case
        by (rule ends_call [OF applyReset_spends ends_call [OF silent_spends [OF silent_load] Suc.IH]])
    qed (use go in \<open>simp_all only: batch_outcome.case\<close>)
  qed
  show ?case
    unfolding backfill_loop.simps
    by (rule ends_if [OF stop]) (rule ends_unless [OF batch stop])
qed

lemma runResetBackfill_adds: "adds budget (runResetBackfill p ses a i budget)"
  unfolding adds_def
proof
  fix w
  have "ends (\<lambda>x. batches x + int budget \<le> batches w + int budget) (runResetBackfill p ses a i budget)
      (\<lambda>_ x. batches x \<le> batches w + int budget) (\<lambda>x. batches x \<le> batches w + int budget)"
    unfolding runResetBackfill_def
    apply (rule ends_call [OF silent_spends [OF silent_load]])
    apply (rule ends_call [OF backfill_loop_spends])
    apply (rule ends_weaken [OF silent_spends [OF silent_load, where k = 0]])
      apply simp_all
    done
  from ends_run [OF this, of w] show "batches (snd (runResetBackfill p ses a i budget w)) \<le> batches w + int budget"
    by (cases "runResetBackfill p ses a i budget w"; cases "fst (runResetBackfill p ses a i budget w)") simp_all
qed

lemma poll_part_adds: "adds budget (poll_part p ses a budget f)"
  unfolding poll_part_def
  apply (rule adds_unless)
   apply (rule adds_if)
    apply (rule adds_silent [OF silent_give])
   apply (rule adds_then [OF adds_silent [OF silent_pollDue]])
   apply (rule adds_if)
    apply (rule adds_silent [OF silent_give])
   apply (rule adds_then [OF adds_tally], simp)
   apply (rule adds_then [OF adds_silent [OF silent_pollFolder]])
  subgoal for due u out
    by (cases out; simp only: poll_outcome.case)
      (rule adds_then [OF adds_tally], simp add: count_poll_def, rule adds_silent [OF silent_give],
       rule adds_then [OF adds_applyReset runResetBackfill_adds], rule adds_silent [OF silent_give])
  apply (rule adds_silent [OF silent_give])
  done

lemma inventory_part_adds: "adds budget (inventory_part p ses a budget f)"
  unfolding inventory_part_def
  apply (rule adds_unless)
   apply (rule adds_if)
    apply (rule adds_silent [OF silent_give])
   apply (rule adds_then [OF adds_silent [OF silent_inventoryDue]])
   apply (rule adds_if)
    apply (rule adds_silent [OF silent_give])
   apply (rule adds_then [OF adds_tally], simp)
   apply (rule adds_then [OF adds_silent [OF silent_inventoryFolder]])
  subgoal for due u out
    by (cases out; simp only: inventory_outcome.case)
      (rule adds_tally, simp,
       rule adds_then [OF adds_applyReset adds_last [OF runResetBackfill_adds adds_silent [OF silent_give]]],
       rule adds_silent [OF silent_give])
  apply (rule adds_silent [OF silent_give])
  done

lemma ends_top: "ends P m (\<lambda>_ _. True) (\<lambda>_. True)"
  by (simp add: ends_def split: prod.split sum.split)

lemma backfill_loop_left:
  "ends (\<lambda>_. True) (backfill_loop p ses a budget f) (\<lambda>x _. snd x \<le> budget) (\<lambda>_. True)"
proof (induction budget arbitrary: f)
  case 0
  show ?case by (simp add: ends_give)
next
  case (Suc budget)
  have ih: "ends (\<lambda>_. True) (backfill_loop p ses a budget f) (\<lambda>x _. snd x \<le> Suc budget) (\<lambda>_. True)" for f
    by (rule ends_weaken [OF Suc.IH]) simp_all
  have other: "ends (\<lambda>_. True) (call (tally (count_imported (batch_imported out))) (\<lambda>_.
                   if batch_last out then give (f, budget)
                   else call (yieldControl p) (\<lambda>_. backfill_loop p ses a budget f)))
     (\<lambda>x _. snd x \<le> Suc budget) (\<lambda>_. True)" for out
    by (rule ends_call [OF ends_top], rule ends_if, rule ends_give, simp, rule ends_call [OF ends_top ih])
  have changed: "ends (\<lambda>_. True) (call (applyReset p a (fo_id f) recorded observed) (\<lambda>_.
      call (load_folder p a (fo_id f)) (\<lambda>f'. backfill_loop p ses a budget f')))
     (\<lambda>x _. snd x \<le> Suc budget) (\<lambda>_. True)" for recorded observed
    by (rule ends_call [OF ends_top], rule ends_call [OF ends_top ih])
  have "ends (\<lambda>_. True) (call (runBatch p ses a (fo_id f)) (\<lambda>out.
           call (tally count_batch) (\<lambda>_.
             case out of
               Bo_Generation_Changed recorded observed \<Rightarrow>
                 call (applyReset p a (fo_id f) recorded observed) (\<lambda>_.
                 call (load_folder p a (fo_id f)) (\<lambda>f'. backfill_loop p ses a budget f'))
             | _ \<Rightarrow>
                 call (tally (count_imported (batch_imported out))) (\<lambda>_.
                   if batch_last out then give (f, budget)
                   else call (yieldControl p) (\<lambda>_. backfill_loop p ses a budget f)))))
     (\<lambda>x _. snd x \<le> Suc budget) (\<lambda>_. True)"
    apply (rule ends_call [OF ends_top], rule ends_call [OF ends_top])
    subgoal for out u
      by (cases out; simp only: batch_outcome.case) (rule changed other)+
    done
  then show ?case
    unfolding backfill_loop.simps
    by (intro ends_if ends_give) (simp_all add: ends_def unless_aborted_def give_def)
qed

lemma synchronizeFolder_budget:
  "batches (snd (synchronizeFolder p ses a f w)) \<le> batches w + 2 * int (sp_batchesPerFolder p)"
proof -
  let ?B = "sp_batchesPerFolder p"
  have rest: "adds (b + b) (call (load_folder p a (fo_id c)) (\<lambda>loaded.
      call (poll_part p ses a b loaded) (\<lambda>current'. inventory_part p ses a b current')))" for b c
    by (rule adds_then [OF adds_silent [OF silent_load] adds_call [OF poll_part_adds inventory_part_adds]])
  obtain t where t: "tally (\<lambda>s. if needsBackfill f then s\<lparr>cy_folders := cy_folders s + 1\<rparr> else s) w = (Inr (), t)"
    and bt: "batches t = batches w" by (simp add: tally_def)
  obtain r w1 where r: "backfill_loop p ses a ?B f t = (r, w1)" by fastforce
  note loop = ends_run [OF backfill_loop_spends [where N = "batches w + int ?B" and budget = ?B and p = p and ses = ses and a = a and f = f], of t, unfolded r]
  show ?thesis
  proof (cases r)
    case (Inl e)
    then show ?thesis using loop bt t r by (simp add: synchronizeFolder_def call_def)
  next
    case (Inr x)
    obtain c b where x: "x = (c, b)" by (cases x)
    have "batches w1 + int b \<le> batches w + int ?B" using loop bt Inr x by simp
    moreover have "b \<le> ?B" using ends_run [OF backfill_loop_left [of p ses a ?B f], of t] r Inr x by simp
    moreover have "batches (snd (synchronizeFolder p ses a f w)) \<le> batches w1 + int (b + b)"
      using rest [of b c] t r Inr x unfolding adds_def synchronizeFolder_def call_def [of "tally _"] call_def [of "backfill_loop _ _ _ _ _"]
      by simp
    ultimately show ?thesis by simp
  qed
qed

end
