(* ===== verification/Sync_Properties.thy ===== *)
theory Sync_Properties
  imports Sync_Polls Sync_Scan Sync_Budget
begin

text \<open>
  The properties of synchronization: the cycle of a folder keeps its rows a mirror of the mailbox
  whatever other writers do meanwhile, skips no mail and invents none; the walks read every row and
  end; and the window budget of a cycle.
\<close>

section \<open>A concrete folder\<close>

definition demo_content :: mailbox_content where
  "demo_content = \<lparr>mc_uidValidity = 7, mc_uidNext = 4, mc_uids = [1, 2, 3]\<rparr>"

definition sync_account :: uuid where "sync_account = ''aaaaaaaa-0000-4000-8000-0000000000e1''"
definition sync_folder :: uuid where "sync_folder = ''aaaaaaaa-0000-4000-8000-0000000000f1''"

definition demo_mirrored :: mirrored where
  "demo_mirrored = \<lparr>mr_server = (\<lambda>_. demo_content), mr_name = ''INBOX'', mr_account = sync_account, mr_folder = sync_folder\<rparr>"

definition demo_header :: "int \<Rightarrow> mailbox_headers" where
  "demo_header u =
     \<lparr>mh_uid = u, mh_unread = True, mh_flagged = False, mh_internalDate = 0, mh_sizeBytes = 10, mh_rawHeaders = []\<rparr>"

definition demo_session :: mailbox_session where
  "demo_session =
     \<lparr>se_select = \<lambda>_ _. Inr (view_of demo_content),
      se_searchUids = \<lambda>_ low high. Inr (filter (\<lambda>u. low \<le> u \<and> u \<le> high) (mc_uids demo_content)),
      se_fetchHeaders = \<lambda>_ us. Inr (map demo_header (filter (\<lambda>u. u \<in> set (mc_uids demo_content)) us)),
      se_fetchFlags = \<lambda>_ us. Inr (map (\<lambda>u. \<lparr>fa_uid = u, fa_unread = True, fa_flagged = False\<rparr>) us),
      se_revalidate = \<lambda>_. Inr (view_of demo_content)\<rparr>"

definition demo_parsed :: imported_headers where
  "demo_parsed =
     \<lparr>ih_messageId = None, ih_inReplyTo = None, ih_referenceIds = [], ih_sender = None, ih_replyTo = None,
      ih_recipients = None, ih_subject = None, ih_sentAt = None, ih_senderText = [], ih_recipientsText = [],
      ih_addressesText = [], ih_subjectText = []\<rparr>"

definition longer_id :: "hub \<Rightarrow> uuid" where
  "longer_id h = replicate (Suc (sum_list (map (\<lambda>oc. length (oc_id oc)) (h_occurrences h)))) CHR ''x''"

definition demo_sync :: sync_ports where
  "demo_sync =
     \<lparr>sp_parseHeaderBlock = \<lambda>_. demo_parsed, sp_clock = int, sp_newId = longer_id, sp_env = \<lambda>_ h. h,
      sp_aborted = \<lambda>t. 6 \<le> t, sp_windowSize = 3, sp_flagBatch = 2, sp_arrivalBatch = 2, sp_repairLimit = 2,
      sp_batchesPerFolder = 3, sp_maxPages = 5, sp_indexText = id\<rparr>"

definition demo_folder :: folder_row where
  "demo_folder =
     \<lparr>fo_id = sync_folder, fo_accountId = sync_account, fo_name = ''INBOX'', fo_role = Some Role_Inbox,
      fo_uidvalidity = Some 7, fo_arrivalScannedUid = 3, fo_backfillUpperUid = Some 3,
      fo_backfillBeforeUid = Some 4, fo_backfillComplete = False\<rparr>"

definition sync_world :: "folder_row \<Rightarrow> world" where
  "sync_world f = \<lparr>wo_time = 0, wo_hub = empty_hub\<lparr>h_folders := [f]\<rparr>, wo_summary = no_counts\<rparr>"

lemma longer_id_fresh: "longer_id h \<notin> oc_id ` set (h_occurrences h)"
proof
  assume "longer_id h \<in> oc_id ` set (h_occurrences h)"
  then obtain oc where oc: "oc \<in> set (h_occurrences h)" "oc_id oc = longer_id h" by auto
  have "length (oc_id oc) \<le> sum_list (map (\<lambda>oc. length (oc_id oc)) (h_occurrences h))"
    using oc(1) by (intro member_le_sum_list) auto
  then show False by (simp add: oc(2) longer_id_def)
qed

lemma demo_server: "imap_server (\<lambda>_. demo_content)"
  by (simp add: imap_server_def demo_content_def)

lemma demo_setting: "sync_setting demo_mirrored demo_sync demo_session"
proof -
  have "pg_uuid sync_folder = sync_folder" by code_simp
  moreover have "answers_from demo_session ''INBOX'' (\<lambda>_. demo_content)"
    by (auto simp: answers_from_def demo_session_def demo_header_def demo_content_def image_image image_iff)
  moreover have "others_keep demo_mirrored demo_sync"
    using mirror_later [of demo_mirrored] demo_server by (simp add: others_keep_def demo_sync_def demo_mirrored_def)
  moreover have "fresh_ids demo_sync" by (simp add: fresh_ids_def demo_sync_def longer_id_fresh)
  ultimately show ?thesis by (simp add: sync_setting_def demo_mirrored_def demo_server)
qed

lemma demo_mirror: "mirror demo_mirrored 0 (wo_hub (sync_world demo_folder))"
proof -
  have f: "folder_in demo_mirrored (wo_hub (sync_world demo_folder)) = Some demo_folder" by code_simp
  show ?thesis
    unfolding mirror_def f
    by (auto simp: sync_world_def empty_hub_def demo_folder_def demo_mirrored_def checkpoints_ok_def server_ok_def
        rows_ok_def imported_ok_def scanned_def upper_uid_def demo_content_def)
qed

lemma demo_started: "has_generation demo_mirrored (wo_hub (sync_world demo_folder))"
proof -
  have "folder_in demo_mirrored (wo_hub (sync_world demo_folder)) = Some demo_folder" by code_simp
  then show ?thesis by (simp add: has_generation_def demo_folder_def)
qed

lemma int_max_bytes [code_unfold]: "int MAX_MESSAGE_BYTES = 52428800"
  by (simp add: MAX_MESSAGE_BYTES_def)

section \<open>The mirror\<close>

text \<open>A run that keeps what it knows, read at its end.\<close>

lemma keeps_run:
  assumes "keeps M K K m (\<lambda>_ _. True)" and "stable M K" and "mirror M (wo_time w) (wo_hub w)" and "K w"
  shows "mirror M (wo_time (snd (m w))) (wo_hub (snd (m w))) \<and> K (snd (m w))"
proof -
  have "ends (kept M K) m (\<lambda>_. kept M (\<lambda>w. K w \<and> True)) (kept M K)"
    using assms(1,2) by (simp add: keeps_def)
  then have "case m w of (Inl e, w') \<Rightarrow> kept M K w' | (Inr a, w') \<Rightarrow> kept M (\<lambda>w. K w \<and> True) w'"
    by (rule ends_run) (simp add: kept_def assms(3,4))
  then show ?thesis by (cases "m w"; cases "fst (m w)") (simp_all add: kept_def)
qed



text \<open>What the invariant says of one UID.\<close>

lemma mirror_uid:
  assumes "mirror M t h" and "folder_in M h = Some g" and "fo_uidvalidity g = Some (mc_uidValidity (mr_server M t))"
    and "scanned g u" and "u \<in> set (mc_uids (mr_server M t))"
  shows "\<exists>!oc. oc \<in> set (h_occurrences h) \<and> occurrence_at (mr_folder M) (mc_uidValidity (mr_server M t)) u oc \<and> active oc"
proof -
  have m: "rows_ok M t g (h_occurrences h)" "imported_ok M t g (h_occurrences h)"
    using assms(1,2) by (auto simp: mirror_def)
  have "\<not> gone (mr_server M) t (mc_uidValidity (mr_server M t)) u" using assms(5) by (auto simp: gone_def)
  then obtain oc where "oc \<in> set (h_occurrences h)" "occurrence_at (mr_folder M) (mc_uidValidity (mr_server M t)) u oc" "active oc"
    using m(2) assms(3,4) unfolding imported_ok_def by blast
  moreover have "x = y"
    if "x \<in> set (h_occurrences h)" "occurrence_at (mr_folder M) (mc_uidValidity (mr_server M t)) u x"
      "y \<in> set (h_occurrences h)" "occurrence_at (mr_folder M) (mc_uidValidity (mr_server M t)) u y" for x y
    by (rule rows_ok_one [OF m(1) that(1,3)]) (use that(2,4) in \<open>simp_all add: occurrence_at_def of_folder_def\<close>)
  ultimately show ?thesis by blast
qed


definition demo_end :: world where
  "demo_end = snd (synchronizeFolder demo_sync demo_session sync_account demo_folder (sync_world demo_folder))"

lemma demo_end_folder:
  "folder_in demo_mirrored (wo_hub demo_end) =
     Some (demo_folder\<lparr>fo_backfillBeforeUid := Some 1, fo_backfillComplete := True\<rparr>)"
  by code_simp


text \<open>
  A batch of backfill keeps the mirror too, from the first contact with a folder on, and never
  moves a generation or a checkpoint back. For a folder whose generation was recorded before, a
  generation change it reports goes forward to a generation the server has.
\<close>

theorem batch_keeps_mirror:
  assumes "sync_setting M p ses" and "mirror M (wo_time w) (wo_hub w)" and "past M g (wo_hub w)"
    and "runBatch p ses (mr_account M) (mr_folder M) w = (r, w')"
  shows "mirror M (wo_time w') (wo_hub w') \<and> past M g (wo_hub w') \<and>
    (fo_uidvalidity g \<noteq> None \<longrightarrow> (\<forall>recorded observed. r = Inr (Bo_Generation_Changed recorded observed) \<longrightarrow>
       recorded \<le> observed \<and> observed \<le> mc_uidValidity (mr_server M (wo_time w'))))"
proof -
  let ?K = "\<lambda>w. past M g (wo_hub w)" and ?B = "fo_uidvalidity g \<noteq> None"
  have "has_generation M (wo_hub w)" if ?B "?K w" for w
    using that by (fastforce simp: has_generation_def past_def row_ahead_def)
  then have "keeps M ?K ?K (runBatch p ses (mr_account M) (mr_folder M)) (batch_moves_if M ?B)"
    by (intro runBatch_keeps [OF assms(1)])
  moreover have "stable M ?K" by (intro stable_facts)
  ultimately have "ends (kept M ?K) (runBatch p ses (mr_account M) (mr_folder M))
      (\<lambda>a. kept M (\<lambda>w. ?K w \<and> batch_moves_if M ?B a w)) (kept M ?K)"
    by (simp add: keeps_def)
  from ends_run [OF this, of w] assms(2-4) show ?thesis
    by (cases r) (auto simp: kept_def batch_moves_if_def batch_moves_def moved_on_def)
qed

definition new_folder :: folder_row where
  "new_folder = demo_folder\<lparr>fo_uidvalidity := None, fo_arrivalScannedUid := 0, fo_backfillUpperUid := None,
     fo_backfillBeforeUid := None\<rparr>"

theorem batch_keeps_mirror_witness:
  "\<exists>r w'. runBatch demo_sync demo_session sync_account sync_folder (sync_world new_folder) = (r, w') \<and>
     mirror demo_mirrored (wo_time w') (wo_hub w')"
proof -
  obtain r w' where r: "runBatch demo_sync demo_session (mr_account demo_mirrored) (mr_folder demo_mirrored) (sync_world new_folder) = (r, w')"
    by fastforce
  have f: "folder_in demo_mirrored (wo_hub (sync_world new_folder)) = Some new_folder" by code_simp
  then have "mirror demo_mirrored 0 (wo_hub (sync_world new_folder))"
    unfolding mirror_def f
    by (auto simp: sync_world_def empty_hub_def new_folder_def demo_folder_def demo_mirrored_def checkpoints_ok_def server_ok_def
        rows_ok_def imported_ok_def)
  then show ?thesis
    using batch_keeps_mirror [OF demo_setting _ past_now [OF f] r] r
    by (auto simp: sync_world_def demo_mirrored_def)
qed

section \<open>Walks\<close>

text \<open>
  C24. The keyset walk of an inventory ends, and while no other writer moves what it gathers page by
  page is what one query for all rows of the generation gives: the known UIDs in order, the count of
  the active ones, and the active ones the server's set misses. One page per 5000 rows and one more
  are enough.
\<close>

theorem inventory_walk_is_a_scan:
  assumes "still p" and "distinct (map oc_uid (scan (\<lambda>_. True) a f v 0 (h_occurrences (wo_hub w))))"
    and "length (scan (\<lambda>_. True) a f v 0 (h_occurrences (wo_hub w))) \<le> n * INVENTORY_PAGE"
  shows "fst (inventory_walk p a f v bound present (Suc n) 0 ([], 0, []) w) =
    (let rows = scan (\<lambda>_. True) a f v 0 (h_occurrences (wo_hub w)) in
     Inr (map oc_uid rows, int (length (filter active rows)),
          map oc_id (filter (\<lambda>oc. active oc \<and> oc_uid oc \<le> bound \<and> oc_uid oc \<notin> set present) rows)))"
  using inventory_walk_scans [OF assms, of bound present "([], 0, [])"] by (simp add: surveyed_def Let_def)

definition demo_row :: "int \<Rightarrow> occurrence_row" where
  "demo_row u =
     \<lparr>oc_id = replicate (nat u) CHR ''o'', oc_accountId = sync_account, oc_messageId = ''m'', oc_folderId = sync_folder,
      oc_uidvalidity = 7, oc_uid = u, oc_internalDate = 0, oc_unread = True, oc_flagged = False, oc_modseq = None,
      oc_revision = 1, oc_observedAt = 0, oc_expungedAt = None, oc_invalidatedAt = None\<rparr>"

definition listed_world :: world where
  "listed_world = (sync_world demo_folder)\<lparr>wo_hub := empty_hub\<lparr>h_occurrences := [demo_row 3, demo_row 1, demo_row 2]\<rparr>\<rparr>"

lemma listed_scan: "scan live sync_account sync_folder 7 0 (h_occurrences (wo_hub listed_world)) = filter live [demo_row 1, demo_row 2, demo_row 3]"
proof -
  have "pg_uuid sync_account = sync_account" "pg_uuid sync_folder = sync_folder" by code_simp+
  then show ?thesis by (simp add: scan_def listed_world_def demo_row_def)
qed

lemma demo_still: "still demo_sync"
  by (simp add: still_def demo_sync_def)

theorem inventory_walk_is_a_scan_witness:
  "fst (inventory_walk demo_sync sync_account sync_folder 7 3 [1, 3] 2 0 ([], 0, []) listed_world) =
     Inr ([1, 2, 3], 3, [oc_id (demo_row 2)])"
  using inventory_walk_is_a_scan [OF demo_still, of sync_account sync_folder 7 listed_world 1 3 "[1, 3]"]
  by (simp add: listed_scan demo_row_def active_def INVENTORY_PAGE_def numeral_2_eq_2 Let_def del: inventory_walk.simps)

text \<open>
  C25. The walk of an expunge pass ends: with a page per batch of active rows and one more it returns,
  with exactly the active rows up to the bound that the server's set misses.
\<close>

theorem absent_walk_returns:
  assumes "still p" and "0 < sp_flagBatch p"
    and "distinct (map oc_uid (scan active a f v 0 (h_occurrences (wo_hub w))))"
    and "length (scan active a f v 0 (h_occurrences (wo_hub w))) \<le> n * sp_flagBatch p"
  shows "\<exists>ids w'. absent_walk p a f v bound present (Suc n) 0 [] w = (Inr ids, w') \<and>
    set ids = oc_id ` {oc \<in> set (h_occurrences (wo_hub w)). active oc \<and> oc_accountId oc = pg_uuid a \<and>
      oc_folderId oc = pg_uuid f \<and> oc_uidvalidity oc = v \<and> 0 < oc_uid oc \<and> oc_uid oc \<le> bound \<and> oc_uid oc \<notin> set present}"
proof -
  obtain r w' where r: "absent_walk p a f v bound present (Suc n) 0 [] w = (r, w')" by fastforce
  with absent_walk_scans [OF assms, of bound present "[]"]
  have "r = Inr (map oc_id (filter (\<lambda>oc. oc_uid oc \<le> bound \<and> oc_uid oc \<notin> set present)
      (scan active a f v 0 (h_occurrences (wo_hub w)))))" by (simp del: absent_walk.simps)
  with r show ?thesis by (auto simp: scan_def image_iff)
qed

theorem absent_walk_returns_witness:
  "\<exists>ids w'. absent_walk demo_sync sync_account sync_folder 7 3 [1, 3] 3 0 [] listed_world = (Inr ids, w') \<and>
     oc_id (demo_row 2) \<in> set ids"
proof -
  have "pg_uuid sync_account = sync_account" "pg_uuid sync_folder = sync_folder" by code_simp+
  moreover have "0 < sp_flagBatch demo_sync" by (simp add: demo_sync_def)
  moreover have "demo_row 2 \<in> set (h_occurrences (wo_hub listed_world))" by (simp add: listed_world_def)
  ultimately show ?thesis
    using absent_walk_returns [OF demo_still, of sync_account sync_folder 7 listed_world 2 3 "[1, 3]"]
    by (force simp: listed_scan demo_sync_def demo_row_def active_def numeral_3_eq_3 simp del: absent_walk.simps)
qed

section \<open>The budget of a cycle\<close>

text \<open>
  C26. The cycle of a folder commits at most twice its window budget of batches, whatever the mailbox
  answers and other writers do. The bound is met: when the poll and then the inventory both find a
  new generation, each spends the budget the backfill loop left.
\<close>

theorem cycle_budget:
  "cy_batches (wo_summary (snd (synchronizeFolder p ses a f w))) \<le>
     cy_batches (wo_summary w) + 2 * int (sp_batchesPerFolder p)"
  by (rule synchronizeFolder_budget)

definition moving_session :: mailbox_session where
  "moving_session =
     (let view = (\<lambda>t :: nat. \<lparr>mv_uidValidity = if t < 12 then 8 else 9, mv_uidNext = 1\<rparr>) in
      \<lparr>se_select = \<lambda>t _. Inr (view t), se_searchUids = \<lambda>_ _ _. Inr [], se_fetchHeaders = \<lambda>_ _. Inr [],
       se_fetchFlags = \<lambda>_ _. Inr [], se_revalidate = \<lambda>t. Inr (view t)\<rparr>)"

definition done_folder :: folder_row where
  "done_folder = demo_folder\<lparr>fo_backfillBeforeUid := Some 1, fo_backfillComplete := True\<rparr>"

lemma budget_spent_twice:
  "cy_batches (wo_summary (snd (synchronizeFolder (demo_sync\<lparr>sp_batchesPerFolder := 1, sp_aborted := \<lambda>_. False\<rparr>)
     moving_session sync_account done_folder (sync_world done_folder)))) = 2"
  by code_simp

section \<open>A reset that goes back\<close>

text \<open>
  The case C3 leaves out. Two cycles meet a folder whose generation is not recorded. One selected it
  in generation 1 and initializes it; the other selected it in generation 2, finds generation 1 in
  its locked row and reports a change from 2 to 1. Before it resets, the first cycle polls, finds
  generation 2, resets forward and imports a mail. The second cycle's reset then matches its recorded
  generation 2 and takes the folder back to 1; the next poll brings it to 2 again, and the import
  finds the invalidated row of the mail and skips it: the checkpoints count UID 1 as scanned, but it
  has no active occurrence.
\<close>

definition after_tx :: "(hub, sync_error, 'a) tx \<Rightarrow> hub \<Rightarrow> hub" where
  "after_tx body h = snd (run_tx body h)"

definition mailbox_gen :: "int \<Rightarrow> mailbox_view" where
  "mailbox_gen v = \<lparr>mv_uidValidity = v, mv_uidNext = 2\<rparr>"

definition race_start :: hub where
  "race_start = after_tx (initializeCheckpoints ''a'' ''f'' (mailbox_gen 1) 0) (wo_hub (sync_world (new_folder\<lparr>fo_id := ''f'', fo_accountId := ''a''\<rparr>)))"

definition race_import :: "hub \<Rightarrow> hub" where
  "race_import h =
     after_tx (window_commit demo_sync ''a'' ''f'' (mailbox_gen 2) 1 1 1 [demo_header 1] 0)
       (after_tx (initializeCheckpoints ''a'' ''f'' (mailbox_gen 2) 0)
         (after_tx (reset_tx ''a'' ''f'' 1 2 0) h))"

definition race_back :: hub where
  "race_back = after_tx (reset_tx ''a'' ''f'' 2 1 0) (race_import race_start)"

lemma first_contact_race:
  "fst (run_tx (initializeCheckpoints ''a'' ''f'' (mailbox_gen 2) 0) race_start) = Inr (In_Changed 2 1)"
  "map fo_uidvalidity (h_folders (race_import race_start)) = [Some 2]"
  "map fo_uidvalidity (h_folders race_back) = [Some 1]"
  "map (\<lambda>f. (fo_uidvalidity f, fo_backfillComplete f, fo_backfillUpperUid f)) (h_folders (race_import race_back)) =
     [(Some 2, True, Some 1)]"
  "filter (\<lambda>oc. occurrence_at ''f'' 2 1 oc \<and> active oc) (h_occurrences (race_import race_back)) = []"
  by code_simp+

end
