(* ===== verification/Sync_Threads.thy ===== *)
theory Sync_Threads
  imports Sync_Runner
begin

text \<open>
  Logical-message threading, \<open>packages/sync/src/threads.ts\<close>: the parent reference of a message, the
  link decision, and the pass that moves a row and its descendants onto the thread of their chain
  root. Each row is decided in one transaction; other writers act between rows.
\<close>

definition DEFAULT_THREAD_BATCH :: nat where "DEFAULT_THREAD_BATCH = 100"
definition MAX_CHAIN_DEPTH :: nat where "MAX_CHAIN_DEPTH = 1000"
definition MAX_PARTICIPANTS :: nat where "MAX_PARTICIPANTS = 50"

section \<open>References\<close>

datatype parent_reference = Ref_Root | Ref_Candidate string | Ref_Conflicted

definition extractMessageIds :: "string option \<Rightarrow> string list" where
  "extractMessageIds raw =
     (case raw of None \<Rightarrow> [] | Some s \<Rightarrow> if s = [] then [] else dedupeIds (match_ids s))"

definition resolveParentReference :: "string option \<Rightarrow> string list \<Rightarrow> parent_reference" where
  "resolveParentReference inReplyTo referenceIds =
     (case extractMessageIds inReplyTo of
        [i] \<Rightarrow> Ref_Candidate i
      | _ # _ # _ \<Rightarrow> Ref_Conflicted
      | [] \<Rightarrow>
          (case concat (map (\<lambda>r. extractMessageIds (Some r)) referenceIds) of
             [] \<Rightarrow> Ref_Root
           | r # rs \<Rightarrow> Ref_Candidate (last (r # rs))))"

section \<open>Chains\<close>

definition message_of :: "uuid \<Rightarrow> uuid \<Rightarrow> hub \<Rightarrow> message_row option" where
  "message_of accountId i h = find (\<lambda>m. ms_id m = i \<and> ms_accountId m = pg_uuid accountId) (h_messages h)"

definition parent_of :: "uuid \<Rightarrow> hub \<Rightarrow> uuid \<Rightarrow> uuid option" where
  "parent_of accountId h i =
     (case message_of accountId i h of None \<Rightarrow> None | Some m \<Rightarrow> ms_parentMessageId m)"

text \<open>
  The walk of \<open>chainReaches\<close>. \<open>seen\<close> is a set, so a row met twice does not count again: a short loop
  of parents that misses the target is walked forever, which is the value \<open>None\<close>.
\<close>

partial_function (option) chain_walk :: "uuid \<Rightarrow> hub \<Rightarrow> uuid \<Rightarrow> uuid option \<Rightarrow> uuid list \<Rightarrow> bool option" where
  "chain_walk accountId h target current seen =
     (case current of
        None \<Rightarrow> Some False
      | Some i \<Rightarrow>
          if length seen \<ge> MAX_CHAIN_DEPTH then Some False
          else if i = target then Some True
          else chain_walk accountId h target (parent_of accountId h i) (List.insert i seen))"

definition chainReaches :: "uuid \<Rightarrow> hub \<Rightarrow> uuid \<Rightarrow> uuid \<Rightarrow> bool option" where
  "chainReaches accountId h startId targetId = chain_walk accountId h targetId (Some startId) []"

text \<open>What thread creation needs of a row of the chain.\<close>

record chain_row =
  cr_id :: uuid
  cr_parentId :: "uuid option"
  cr_threadId :: "uuid option"
  cr_subject :: "string option"
  cr_sender :: "email_address option"
  cr_recipients :: "recipients option"

definition chain_row_of :: "message_row \<Rightarrow> chain_row" where
  "chain_row_of m =
     \<lparr>cr_id = ms_id m, cr_parentId = ms_parentMessageId m, cr_threadId = ms_threadId m, cr_subject = ms_subject m,
      cr_sender = ms_sender m, cr_recipients = ms_recipients m\<rparr>"

text \<open>The steps left, the rows seen and the last row read.\<close>

fun root_walk :: "uuid \<Rightarrow> hub \<Rightarrow> nat \<Rightarrow> uuid \<Rightarrow> uuid list \<Rightarrow> chain_row option \<Rightarrow> chain_row option" where
  "root_walk accountId h 0 currentId seen final = final"
| "root_walk accountId h (Suc n) currentId seen final =
     (if currentId \<in> set seen then final
      else
        (case message_of accountId currentId h of
           None \<Rightarrow> final
         | Some m \<Rightarrow>
             (case ms_parentMessageId m of
                None \<Rightarrow> Some (chain_row_of m)
              | Some parent \<Rightarrow> root_walk accountId h n parent (currentId # seen) (Some (chain_row_of m)))))"

definition chainRoot :: "uuid \<Rightarrow> hub \<Rightarrow> uuid \<Rightarrow> chain_row" where
  "chainRoot accountId h startId =
     (case root_walk accountId h (Suc MAX_CHAIN_DEPTH) startId [] None of
        Some r \<Rightarrow> r
      | None \<Rightarrow> \<lparr>cr_id = startId, cr_parentId = None, cr_threadId = None, cr_subject = None, cr_sender = None,
                 cr_recipients = None\<rparr>)"

section \<open>Decisions\<close>

definition holders_of :: "uuid \<Rightarrow> string \<Rightarrow> hub \<Rightarrow> uuid list" where
  "holders_of accountId identifier h =
     sort (map ms_id (filter (\<lambda>m. ms_accountId m = pg_uuid accountId \<and> ms_messageId m = Some identifier) (h_messages h)))"

text \<open>The state and the parent; \<open>None\<close> where the chain walk does not end.\<close>

definition decideLink :: "uuid \<Rightarrow> hub \<Rightarrow> message_row \<Rightarrow> (thread_link_state \<times> uuid option) option" where
  "decideLink accountId h row =
     (case resolveParentReference (ms_inReplyTo row) (ms_referenceIds row) of
        Ref_Root \<Rightarrow> Some (Link_Root, None)
      | Ref_Conflicted \<Rightarrow> Some (Link_Ambiguous, None)
      | Ref_Candidate identifier \<Rightarrow>
          if ms_messageId row = Some identifier then Some (Link_Ambiguous, None)
          else
            (case holders_of accountId identifier h of
               [] \<Rightarrow> Some (Link_Pending, None)
             | _ # _ # _ \<Rightarrow> Some (Link_Ambiguous, None)
             | [parent] \<Rightarrow>
                 if parent = ms_id row then Some (Link_Ambiguous, None)
                 else
                   (case chainReaches accountId h parent (ms_id row) of
                      None \<Rightarrow> None
                    | Some True \<Rightarrow> Some (Link_Ambiguous, None)
                    | Some False \<Rightarrow> Some (Link_Linked, Some parent))))"

section \<open>Membership\<close>

text \<open>The recursive query: the row of the account, then the children of what it holds, of any account.\<close>

fun subtree_from :: "nat \<Rightarrow> message_row list \<Rightarrow> uuid list \<Rightarrow> uuid list" where
  "subtree_from 0 ms ids = ids"
| "subtree_from (Suc n) ms ids =
     (let new = map ms_id (filter (\<lambda>m. ms_id m \<notin> set ids \<and>
                  (case ms_parentMessageId m of None \<Rightarrow> False | Some q \<Rightarrow> q \<in> set ids)) ms)
      in if new = [] then ids else subtree_from n ms (ids @ new))"

definition subtree_of :: "uuid \<Rightarrow> hub \<Rightarrow> uuid \<Rightarrow> uuid list" where
  "subtree_of accountId h i =
     (if message_of accountId i h = None then [] else subtree_from (length (h_messages h)) (h_messages h) [i])"

definition propagateThread :: "uuid \<Rightarrow> uuid \<Rightarrow> uuid \<Rightarrow> hub \<Rightarrow> int \<times> hub" where
  "propagateThread accountId rowId threadId h =
     (let ids = subtree_of accountId h rowId;
          P = (\<lambda>m. ms_accountId m = pg_uuid accountId \<and> ms_id m \<in> set ids \<and> ms_threadId m \<noteq> Some threadId)
      in (tbl_count P (h_messages h),
          h\<lparr>h_messages := tbl_update P (\<lambda>m. m\<lparr>ms_threadId := Some threadId\<rparr>) (h_messages h)\<rparr>))"

fun add_addresses :: "email_address list \<Rightarrow> email_address list \<Rightarrow> email_address list" where
  "add_addresses kept [] = kept"
| "add_addresses kept (a # as) =
     (if ea_address a \<in> ea_address ` set kept then add_addresses kept as else add_addresses (kept @ [a]) as)"

definition threadParticipants :: "email_address option \<Rightarrow> recipients option \<Rightarrow> email_address list" where
  "threadParticipants sender recipients =
     take MAX_PARTICIPANTS
       (add_addresses [] ((case sender of None \<Rightarrow> [] | Some a \<Rightarrow> [a]) @
          (case recipients of None \<Rightarrow> [] | Some r \<Rightarrow> rc_to r @ (case rc_cc r of None \<Rightarrow> [] | Some cs \<Rightarrow> cs))))"

section \<open>One row\<close>

record row_outcome =
  ro_messageId :: uuid
  ro_state :: thread_link_state
  ro_parentId :: "uuid option"
  ro_changed :: bool
  ro_unlinked :: bool
  ro_threadsCreated :: int
  ro_reassigned :: int

definition set_message :: "uuid \<Rightarrow> (message_row \<Rightarrow> message_row) \<Rightarrow> hub \<Rightarrow> hub" where
  "set_message i f h = h\<lparr>h_messages := tbl_update (\<lambda>m. ms_id m = i) f (h_messages h)\<rparr>"

definition root_thread :: "uuid \<Rightarrow> chain_row \<Rightarrow> bool \<Rightarrow> hub \<Rightarrow> uuid option" where
  "root_thread accountId root detached h =
     (let threadId = (if detached then None else cr_threadId root) in
      if threadId = None \<and> \<not> detached
      then (case message_of accountId (cr_id root) h of None \<Rightarrow> None | Some m \<Rightarrow> ms_threadId m)
      else threadId)"

definition new_thread :: "sync_ports \<Rightarrow> millis \<Rightarrow> uuid \<Rightarrow> chain_row \<Rightarrow> hub \<Rightarrow> thread_row" where
  "new_thread p now accountId root h =
     \<lparr>th_id = sp_newId p h, th_accountId = pg_uuid accountId,
      th_subjectNorm = map_option (sp_indexText p) (cr_subject root),
      th_participants = threadParticipants (cr_sender root) (cr_recipients root), th_updatedAt = now\<rparr>"

definition reconcileRow ::
    "sync_ports \<Rightarrow> uuid \<Rightarrow> uuid \<Rightarrow> millis \<Rightarrow> (hub, sync_error, row_outcome option) tx" where
  "reconcileRow p accountId messageId now h =
     (case message_of accountId messageId h of
        None \<Rightarrow> Inr (None, h)
      | Some row \<Rightarrow>
          if \<not> ms_threadDirty row then Inr (None, h)
          else
            (case decideLink accountId h row of
               None \<Rightarrow> Inl SE_Out_Of_Fuel
             | Some (state, parentId) \<Rightarrow>
                 (let changed = (ms_threadLinkState row \<noteq> state \<or> ms_parentMessageId row \<noteq> parentId);
                      h1 = (if changed
                            then set_message (ms_id row)
                                   (\<lambda>m. m\<lparr>ms_parentMessageId := parentId, ms_threadLinkState := state\<rparr>) h
                            else h);
                      root = chainRoot accountId h1 (ms_id row);
                      detached = (cr_id root = ms_id row \<and> ms_parentMessageId row \<noteq> None \<and> parentId = None);
                      found = root_thread accountId root detached h1;
                      fresh = new_thread p now accountId root h1;
                      threadId = (case found of None \<Rightarrow> th_id fresh | Some t \<Rightarrow> t);
                      h2 = (if found = None
                            then set_message (cr_id root) (\<lambda>m. m\<lparr>ms_threadId := Some threadId\<rparr>)
                                   (h1\<lparr>h_threads := h_threads h1 @ [fresh]\<rparr>)
                            else h1)
                  in case propagateThread accountId (ms_id row) threadId h2 of
                       (reassigned, h3) \<Rightarrow>
                         (let h4 = (if reassigned > 0
                                    then h3\<lparr>h_threads := tbl_update (\<lambda>t. th_id t = threadId)
                                              (\<lambda>t. t\<lparr>th_updatedAt := now\<rparr>) (h_threads h3)\<rparr>
                                    else h3)
                          in Inr (Some \<lparr>ro_messageId = ms_id row, ro_state = state, ro_parentId = parentId,
                                        ro_changed = changed,
                                        ro_unlinked = (ms_threadLinkState row = Link_Linked \<and> state \<noteq> Link_Linked),
                                        ro_threadsCreated = (if found = None then 1 else 0),
                                        ro_reassigned = reassigned\<rparr>,
                                  set_message (ms_id row) (\<lambda>m. m\<lparr>ms_threadDirty := False\<rparr>) h4)))))"

section \<open>One pass over an account\<close>

record thread_summary =
  ts_examined :: int
  ts_linked :: int
  ts_roots :: int
  ts_pending :: int
  ts_ambiguous :: int
  ts_linksChanged :: int
  ts_unlinked :: int
  ts_threadsCreated :: int
  ts_reassigned :: int
  ts_remaining :: int
  ts_threadsPruned :: int

definition pendingCount :: "sync_ports \<Rightarrow> uuid \<Rightarrow> int run" where
  "pendingCount p accountId =
     guard_run (is_uuid accountId) SE_Invalid_Request
       (query p (\<lambda>h. Inr (tbl_count (\<lambda>m. ms_accountId m = pg_uuid accountId \<and> ms_threadDirty m) (h_messages h))))"

definition referenced_thread :: "hub \<Rightarrow> uuid \<Rightarrow> bool" where
  "referenced_thread h t \<longleftrightarrow>
     list_ex (\<lambda>m. ms_threadId m = Some t) (h_messages h) \<or> list_ex (\<lambda>d. dr_threadId d = Some t) (h_drafts h) \<or>
     list_ex (\<lambda>b. ob_threadId b = Some t) (h_outbound h)"

definition prune_tx :: "uuid \<Rightarrow> nat \<Rightarrow> millis \<Rightarrow> (hub, sync_error, int) tx" where
  "prune_tx accountId limit now h =
     (let doomed = take limit (map th_id (filter (\<lambda>t. th_accountId t = pg_uuid accountId \<and> \<not> referenced_thread h (th_id t))
                     (h_threads h)))
      in Inr (tbl_count (\<lambda>t. th_id t \<in> set doomed) (h_threads h),
              h\<lparr>h_threads := filter (\<lambda>t. th_id t \<notin> set doomed) (h_threads h)\<rparr>))"

definition pruneDetachedThreads :: "sync_ports \<Rightarrow> uuid \<Rightarrow> nat \<Rightarrow> int run" where
  "pruneDetachedThreads p accountId limit =
     guard_run (is_uuid accountId) SE_Invalid_Request (commit p (prune_tx accountId limit))"

definition count_outcome :: "row_outcome \<Rightarrow> thread_summary \<Rightarrow> thread_summary" where
  "count_outcome out s =
     s\<lparr>ts_examined := ts_examined s + 1,
       ts_linksChanged := ts_linksChanged s + (if ro_changed out then 1 else 0),
       ts_unlinked := ts_unlinked s + (if ro_unlinked out then 1 else 0),
       ts_threadsCreated := ts_threadsCreated s + ro_threadsCreated out,
       ts_reassigned := ts_reassigned s + ro_reassigned out,
       ts_linked := ts_linked s + (if ro_state out = Link_Linked then 1 else 0),
       ts_roots := ts_roots s + (if ro_state out = Link_Root then 1 else 0),
       ts_pending := ts_pending s + (if ro_state out = Link_Pending then 1 else 0),
       ts_ambiguous := ts_ambiguous s + (if ro_state out \<notin> {Link_Linked, Link_Root, Link_Pending} then 1 else 0)\<rparr>"

definition no_threads :: thread_summary where
  "no_threads =
     \<lparr>ts_examined = 0, ts_linked = 0, ts_roots = 0, ts_pending = 0, ts_ambiguous = 0, ts_linksChanged = 0,
      ts_unlinked = 0, ts_threadsCreated = 0, ts_reassigned = 0, ts_remaining = 0, ts_threadsPruned = 0\<rparr>"

fun reconcile_rows :: "sync_ports \<Rightarrow> uuid \<Rightarrow> uuid list \<Rightarrow> thread_summary \<Rightarrow> thread_summary run" where
  "reconcile_rows p accountId [] s = give s"
| "reconcile_rows p accountId (i # is) s =
     call (commit p (reconcileRow p accountId i)) (\<lambda>out.
       reconcile_rows p accountId is (case out of None \<Rightarrow> s | Some x \<Rightarrow> count_outcome x s))"

text \<open>Newest first; PostgreSQL puts rows without a sent time in front.\<close>

definition dirty_batch :: "uuid \<Rightarrow> nat \<Rightarrow> hub \<Rightarrow> uuid list" where
  "dirty_batch accountId batch h =
     (let rows = filter (\<lambda>m. ms_accountId m = pg_uuid accountId \<and> ms_threadDirty m) (h_messages h)
      in take batch (map ms_id (filter (\<lambda>m. ms_sentAt m = None) rows @
           rev (sort_key (\<lambda>m. the (ms_sentAt m)) (filter (\<lambda>m. ms_sentAt m \<noteq> None) rows)))))"

definition reconciliation_event :: "thread_summary \<Rightarrow> (string \<times> json) list" where
  "reconciliation_event s =
     [(''examined'', JNum (ts_examined s)), (''linked'', JNum (ts_linked s)), (''roots'', JNum (ts_roots s)),
      (''pending'', JNum (ts_pending s)), (''ambiguous'', JNum (ts_ambiguous s)),
      (''linksChanged'', JNum (ts_linksChanged s)), (''unlinked'', JNum (ts_unlinked s)),
      (''threadsCreated'', JNum (ts_threadsCreated s)), (''reassigned'', JNum (ts_reassigned s)),
      (''remaining'', JNum (ts_remaining s)), (''threadsPruned'', JNum (ts_threadsPruned s))]"

definition reconcileAccount :: "sync_ports \<Rightarrow> uuid \<Rightarrow> nat \<Rightarrow> thread_summary run" where
  "reconcileAccount p accountId batch =
     guard_run (is_uuid accountId) SE_Invalid_Request (guard_run (1 \<le> batch) SE_Invalid_Request
     (call (query p (\<lambda>h. Inr (dirty_batch accountId batch h))) (\<lambda>dirty.
      call (reconcile_rows p accountId dirty no_threads) (\<lambda>s.
      call (pruneDetachedThreads p accountId 500) (\<lambda>pruned.
      call (pendingCount p accountId) (\<lambda>remaining.
        let s' = s\<lparr>ts_threadsPruned := pruned, ts_remaining := remaining\<rparr> in
        if ts_examined s' > 0 \<or> ts_threadsPruned s' > 0
        then commit p (\<lambda>now h. Inr (s', recordAccountEvent accountId ''sync.thread_reconciliation''
               (reconciliation_event s') h))
        else give s'))))))"

end
