(* ===== verification/Sync_Chains.thy ===== *)
theory Sync_Chains
  imports Sync_Threads
begin

text \<open>
  Threads and parent links: the chain walks on chains that end, and what resolving one row does to
  the links and the threads of the account.
\<close>

section \<open>Chains that end\<close>

definition parent_rel :: "uuid \<Rightarrow> hub \<Rightarrow> (uuid \<times> uuid) set" where
  "parent_rel a h = {(i, j). parent_of a h i = Some j}"

text \<open>The chain from a row has at most so many rows.\<close>

fun within_rows :: "(uuid \<Rightarrow> uuid option) \<Rightarrow> nat \<Rightarrow> uuid \<Rightarrow> bool" where
  "within_rows P 0 i \<longleftrightarrow> False"
| "within_rows P (Suc n) i \<longleftrightarrow> (case P i of None \<Rightarrow> True | Some j \<Rightarrow> within_rows P n j)"

definition short_chains :: "uuid \<Rightarrow> hub \<Rightarrow> bool" where
  "short_chains a h \<longleftrightarrow> (\<forall>i. within_rows (parent_of a h) MAX_CHAIN_DEPTH i)"

lemma within_rows_more: "within_rows P n i \<Longrightarrow> n \<le> k \<Longrightarrow> within_rows P k i"
proof (induction n arbitrary: i k)
  case (Suc n)
  then obtain k' where "k = Suc k'" "n \<le> k'" by (cases k) auto
  with Suc show ?case by (auto split: option.splits)
qed simp

text \<open>The least bound falls along a chain, so no chain meets itself.\<close>

definition rows_left :: "(uuid \<Rightarrow> uuid option) \<Rightarrow> uuid \<Rightarrow> nat" where
  "rows_left P i = (LEAST n. within_rows P n i)"

lemma rows_left_within: "within_rows P n i \<Longrightarrow> within_rows P (rows_left P i) i \<and> rows_left P i \<le> n"
  unfolding rows_left_def by (meson LeastI Least_le)

lemma rows_left_falls:
  assumes "within_rows P n i" and "P i = Some j"
  shows "rows_left P j < rows_left P i"
proof -
  have w: "within_rows P (rows_left P i) i" using rows_left_within [OF assms(1)] by blast
  then obtain k where k: "rows_left P i = Suc k" by (cases "rows_left P i") auto
  with w assms(2) have "within_rows P k j" by simp
  then have "rows_left P j \<le> k" using rows_left_within by blast
  with k show ?thesis by simp
qed

lemma short_acyclic:
  assumes "\<And>i. \<exists>n. within_rows P n i"
  shows "acyclic {(i, j). P i = Some j}"
proof -
  have "{(i, j). P i = Some j}\<inverse> \<subseteq> measure (rows_left P)"
    using rows_left_falls assms by fastforce
  then have "acyclic ({(i, j). P i = Some j}\<inverse>)" by (meson wf_acyclic wf_measure wf_subset)
  then show ?thesis by simp
qed

section \<open>The walk that looks for a cycle\<close>

text \<open>The rows of a chain.\<close>

fun chain_rows :: "(uuid \<Rightarrow> uuid option) \<Rightarrow> nat \<Rightarrow> uuid \<Rightarrow> uuid list" where
  "chain_rows P 0 i = []"
| "chain_rows P (Suc n) i = i # (case P i of None \<Rightarrow> [] | Some j \<Rightarrow> chain_rows P n j)"

lemma chain_rows_length: "length (chain_rows P n i) \<le> n"
  by (induction n arbitrary: i) (auto split: option.split)

lemma chain_rows_below: "within_rows P n i \<Longrightarrow> j \<in> set (chain_rows P n i) \<Longrightarrow> rows_left P j \<le> rows_left P i"
proof (induction n arbitrary: i)
  case (Suc n)
  show ?case
  proof (cases "P i")
    case None
    then show ?thesis using Suc.prems by simp
  next
    case (Some k)
    then have "rows_left P k < rows_left P i" using rows_left_falls Suc.prems(1) by blast
    then show ?thesis using Suc Some by fastforce
  qed
qed simp

lemma chain_rows_distinct: "within_rows P n i \<Longrightarrow> distinct (chain_rows P n i)"
proof (induction n arbitrary: i)
  case (Suc n)
  show ?case
  proof (cases "P i")
    case (Some k)
    then have "rows_left P k < rows_left P i" using rows_left_falls Suc.prems by blast
    then have "i \<notin> set (chain_rows P n k)" using chain_rows_below [of P n k i] Suc.prems Some by fastforce
    then show ?thesis using Suc Some by simp
  qed simp
qed simp

lemma chain_rows_reached: "within_rows P n i \<Longrightarrow> (i, j) \<in> {(i, j). P i = Some j}\<^sup>* \<Longrightarrow> j \<in> set (chain_rows P n i)"
proof (induction n arbitrary: i)
  case (Suc n)
  from Suc.prems(2) show ?case
  proof (cases rule: converse_rtranclE)
    case (step k)
    then have "j \<in> set (chain_rows P n k)" using Suc by auto
    then show ?thesis using step by simp
  qed simp
qed simp

text \<open>On a chain that ends within the depth bound the walk ends, and answers whether the target is on it.\<close>

lemma chain_walk_answers:
  assumes "within_rows (parent_of a h) n i" and "distinct seen" and "set seen \<inter> set (chain_rows (parent_of a h) n i) = {}"
    and "length seen + length (chain_rows (parent_of a h) n i) \<le> MAX_CHAIN_DEPTH"
  shows "chain_walk a h target (Some i) seen = Some (target \<in> set (chain_rows (parent_of a h) n i))"
  using assms
proof (induction n arbitrary: i seen)
  case (Suc n)
  have room: "\<not> MAX_CHAIN_DEPTH \<le> length seen" using Suc.prems(4) by simp
  have new: "i \<notin> set seen" using Suc.prems(3) by simp
  show ?case
  proof (cases "i = target")
    case True
    then show ?thesis using room by (subst chain_walk.simps) simp
  next
    case False
    show ?thesis
    proof (cases "parent_of a h i")
      case None
      then show ?thesis using False room by (subst chain_walk.simps) (simp add: chain_walk.simps [of _ _ _ None])
    next
      case (Some k)
      have d: "distinct (chain_rows (parent_of a h) (Suc n) i)" by (rule chain_rows_distinct [OF Suc.prems(1)])
      have "chain_walk a h target (Some k) (List.insert i seen) = Some (target \<in> set (chain_rows (parent_of a h) n k))"
        using Suc.prems Some d new by (intro Suc.IH) (auto simp: List.insert_def)
      then show ?thesis using False room Some by (subst chain_walk.simps) simp
    qed
  qed
qed simp

lemma chainReaches_answers:
  assumes "within_rows (parent_of a h) MAX_CHAIN_DEPTH i"
  shows "chainReaches a h i target = Some (target \<in> set (chain_rows (parent_of a h) MAX_CHAIN_DEPTH i))"
  unfolding chainReaches_def
  using chain_walk_answers [OF assms, of "[]" target] chain_rows_length [of "parent_of a h" MAX_CHAIN_DEPTH i] by simp

section \<open>Rows after an update\<close>

lemma message_of_keys: "message_of a i h = Some m \<Longrightarrow> ms_id m = i \<and> ms_accountId m = pg_uuid a \<and> m \<in> set (h_messages h)"
  using find_in_set [of _ "h_messages h" m] by (auto simp: message_of_def)

lemma message_of_tbl:
  assumes "h_messages h' = tbl_update P f (h_messages h)"
    and "\<And>m. ms_id (f m) = ms_id m" and "\<And>m. ms_accountId (f m) = ms_accountId m"
  shows "message_of a i h' = map_option (\<lambda>m. if P m then f m else m) (message_of a i h)"
  unfolding message_of_def assms(1) by (rule find_tbl_update_frame) (simp add: assms(2,3))

lemma message_of_set:
  assumes "\<And>m. ms_id (f m) = ms_id m" and "\<And>m. ms_accountId (f m) = ms_accountId m"
  shows "message_of a i (set_message j f h) = map_option (\<lambda>m. if i = j then f m else m) (message_of a i h)"
proof -
  have "message_of a i (set_message j f h) = map_option (\<lambda>m. if ms_id m = j then f m else m) (message_of a i h)"
    by (rule message_of_tbl) (simp_all add: set_message_def assms)
  then show ?thesis by (cases "message_of a i h") (auto dest: message_of_keys)
qed

lemma parent_of_messages: "h_messages h' = h_messages h \<Longrightarrow> parent_of a h' = parent_of a h"
  by (simp add: parent_of_def message_of_def fun_eq_iff)

lemma message_of_messages: "h_messages h' = h_messages h \<Longrightarrow> message_of a i h' = message_of a i h"
  by (simp add: message_of_def)

section \<open>The root\<close>

text \<open>Parents are rows of the account.\<close>

definition parents_known :: "uuid \<Rightarrow> hub \<Rightarrow> bool" where
  "parents_known a h \<longleftrightarrow> (\<forall>i j. parent_of a h i = Some j \<longrightarrow> message_of a j h \<noteq> None)"

lemma root_walk_root:
  assumes "within_rows (parent_of a h) n i" and "set seen \<inter> set (chain_rows (parent_of a h) n i) = {}"
    and "parents_known a h" and "message_of a i h \<noteq> None"
  shows "\<exists>r m. root_walk a h n i seen final = Some (chain_row_of m) \<and> message_of a r h = Some m \<and>
    (i, r) \<in> (parent_rel a h)\<^sup>* \<and> parent_of a h r = None"
  using assms(1,2,4)
proof (induction n arbitrary: i seen final)
  case (Suc n)
  obtain m where m: "message_of a i h = Some m" using Suc.prems(3) by blast
  have new: "i \<notin> set seen" using Suc.prems(2) by simp
  show ?case
  proof (cases "ms_parentMessageId m")
    case None
    then show ?thesis using m new by (intro exI [of _ i] exI [of _ m]) (simp add: parent_of_def)
  next
    case (Some q)
    then have q: "parent_of a h i = Some q" using m by (simp add: parent_of_def)
    then have k: "message_of a q h \<noteq> None" using assms(3) unfolding parents_known_def by blast
    have "distinct (chain_rows (parent_of a h) (Suc n) i)" by (rule chain_rows_distinct [OF Suc.prems(1)])
    then have "set (i # seen) \<inter> set (chain_rows (parent_of a h) n q) = {}" using Suc.prems(2) q by simp
    moreover have "within_rows (parent_of a h) n q" using Suc.prems(1) q by simp
    ultimately obtain r x where x: "root_walk a h n q (i # seen) (Some (chain_row_of m)) = Some (chain_row_of x)"
      "message_of a r h = Some x" "(q, r) \<in> (parent_rel a h)\<^sup>*" "parent_of a h r = None"
      using Suc.IH [of q "i # seen" "Some (chain_row_of m)"] k by blast
    have "(i, r) \<in> (parent_rel a h)\<^sup>*"
    proof (rule converse_rtrancl_into_rtrancl)
      show "(i, q) \<in> parent_rel a h" using q by (simp add: parent_rel_def)
    qed (rule x(3))
    moreover have "root_walk a h (Suc n) i seen final = Some (chain_row_of x)" using m new Some x(1) by simp
    ultimately have "root_walk a h (Suc n) i seen final = Some (chain_row_of x) \<and> message_of a r h = Some x \<and>
        (i, r) \<in> (parent_rel a h)\<^sup>* \<and> parent_of a h r = None" by (intro conjI x(2,4))
    then show ?thesis by blast
  qed
qed simp

lemma chainRoot_root:
  assumes "within_rows (parent_of a h) (Suc MAX_CHAIN_DEPTH) i" and "parents_known a h" and "message_of a i h \<noteq> None"
  obtains r m where "chainRoot a h i = chain_row_of m" and "message_of a r h = Some m"
    and "(i, r) \<in> (parent_rel a h)\<^sup>*" and "parent_of a h r = None"
  using root_walk_root [OF assms(1) _ assms(2,3), of "[]" None] that
  by (auto simp: chainRoot_def simp del: root_walk.simps)

section \<open>The subtree\<close>

lemma subtree_from_closed:
  assumes "length (filter (\<lambda>m. ms_id m \<notin> set ids) ms) \<le> n"
  shows "set ids \<subseteq> set (subtree_from n ms ids) \<and>
    (\<forall>m \<in> set ms. \<forall>q. ms_parentMessageId m = Some q \<and> q \<in> set (subtree_from n ms ids) \<longrightarrow>
       ms_id m \<in> set (subtree_from n ms ids))"
  using assms
proof (induction n arbitrary: ids)
  case 0
  then have "\<forall>m \<in> set ms. ms_id m \<in> set ids" by (simp add: filter_empty_conv)
  then show ?case by simp
next
  case (Suc n)
  let ?new = "map ms_id (filter (\<lambda>m. ms_id m \<notin> set ids \<and>
      (case ms_parentMessageId m of None \<Rightarrow> False | Some q \<Rightarrow> q \<in> set ids)) ms)"
  show ?case
  proof (cases "?new = []")
    case True
    then have "\<forall>m \<in> set ms. \<forall>q. ms_parentMessageId m = Some q \<and> q \<in> set ids \<longrightarrow> ms_id m \<in> set ids"
      by (force simp: filter_empty_conv)
    then show ?thesis using True by (simp add: Let_def)
  next
    case False
    then obtain x where x: "x \<in> set ms" "ms_id x \<notin> set ids" "ms_id x \<in> set ?new" by (force simp: filter_empty_conv)
    have "length (filter (\<lambda>m. ms_id m \<notin> set (ids @ ?new)) ms) < length (filter (\<lambda>m. ms_id m \<notin> set ids) ms)"
    proof -
      have e: "filter (\<lambda>m. ms_id m \<notin> set (ids @ ?new)) ms = filter (\<lambda>m. ms_id m \<notin> set ?new) (filter (\<lambda>m. ms_id m \<notin> set ids) ms)"
        by (simp only: filter_filter) (rule filter_cong, auto)
      show ?thesis unfolding e by (rule length_filter_less [of x]) (use x in auto)
    qed
    then have "length (filter (\<lambda>m. ms_id m \<notin> set (ids @ ?new)) ms) \<le> n" using Suc.prems by simp
    note ih = Suc.IH [OF this]
    have e: "subtree_from (Suc n) ms ids = subtree_from n ms (ids @ ?new)" using False by (simp add: Let_def)
    show ?thesis unfolding e using ih by auto
  qed
qed

lemma subtree_of_descendants:
  assumes "(d, i) \<in> (parent_rel a h)\<^sup>*" and "message_of a i h \<noteq> None"
  shows "d \<in> set (subtree_of a h i)"
proof -
  have s: "subtree_of a h i = subtree_from (length (h_messages h)) (h_messages h) [i]"
    using assms(2) by (auto simp: subtree_of_def)
  note c = subtree_from_closed [OF length_filter_le, of "[i]" "h_messages h", folded s]
  show ?thesis
    using assms(1)
  proof (induction rule: converse_rtrancl_induct)
    case base
    then show ?case using c by auto
  next
    case (step x y)
    then obtain m where "message_of a x h = Some m" "ms_parentMessageId m = Some y"
      by (auto simp: parent_rel_def parent_of_def split: option.splits)
    then show ?case using c step(3) message_of_keys [of a x h m] by blast
  qed
qed

section \<open>The decision\<close>

text \<open>A decision is made, and a parent it names is a row of the account that does not descend from the row.\<close>

lemma decideLink_sound:
  assumes "short_chains a h"
  obtains state q where "decideLink a h row = Some (state, q)" and "state = Link_Linked \<longleftrightarrow> q \<noteq> None"
    and "\<And>p. q = Some p \<Longrightarrow> message_of a p h \<noteq> None \<and> (p, ms_id row) \<notin> (parent_rel a h)\<^sup>*"
proof -
  have walk: "chainReaches a h p (ms_id row) = Some (ms_id row \<in> set (chain_rows (parent_of a h) MAX_CHAIN_DEPTH p))" for p
    using assms by (intro chainReaches_answers) (simp add: short_chains_def)
  have off: "(p, ms_id row) \<notin> (parent_rel a h)\<^sup>*" if "ms_id row \<notin> set (chain_rows (parent_of a h) MAX_CHAIN_DEPTH p)" for p
    using that chain_rows_reached [of "parent_of a h" MAX_CHAIN_DEPTH p "ms_id row"] assms
    by (auto simp: short_chains_def parent_rel_def)
  have known: "message_of a p h \<noteq> None" if "holders_of a i h = [p]" for i p
  proof -
    have "p \<in> set (holders_of a i h)" using that by simp
    then obtain m where "m \<in> set (h_messages h)" "ms_accountId m = pg_uuid a" "ms_id m = p"
      by (auto simp: holders_of_def)
    then show ?thesis by (auto simp: message_of_def find_None_iff)
  qed
  show ?thesis
  proof (cases "resolveParentReference (ms_inReplyTo row) (ms_referenceIds row)")
    case (Ref_Candidate i)
    show ?thesis
    proof (cases "ms_messageId row = Some i")
      case True
      then show ?thesis using Ref_Candidate by (intro that [of Link_Ambiguous None]) (simp_all add: decideLink_def)
    next
      case False
      consider "holders_of a i h = []" | p where "holders_of a i h = [p]" | x y zs where "holders_of a i h = x # y # zs"
        by (metis list.exhaust)
      then show ?thesis
      proof cases
        case (2 p)
        show ?thesis
        proof (cases "p = ms_id row \<or> ms_id row \<in> set (chain_rows (parent_of a h) MAX_CHAIN_DEPTH p)")
          case True
          then show ?thesis using Ref_Candidate False 2
            by (intro that [of Link_Ambiguous None]) (auto simp: decideLink_def walk)
        next
          case no: False
          then show ?thesis using Ref_Candidate False 2 known off
            by (intro that [of Link_Linked "Some p"]) (auto simp: decideLink_def walk)
        qed
      qed (use Ref_Candidate False in \<open>auto simp: decideLink_def intro: that\<close>)
    qed
  qed (auto simp: decideLink_def intro: that)
qed

end
