(* ===== verification/Sync_Linking.thy ===== *)
theory Sync_Linking
  imports Sync_Chains
begin

text \<open>
  What resolving one row does: the links stay without cycles, and the row and everything below it end
  on the thread of the chain root.
\<close>

definition thread_of :: "uuid \<Rightarrow> hub \<Rightarrow> uuid \<Rightarrow> uuid option" where
  "thread_of a h i = (case message_of a i h of None \<Rightarrow> None | Some m \<Rightarrow> ms_threadId m)"

section \<open>One new link\<close>

lemma within_rows_apart:
  assumes "within_rows P n x" and "(x, i) \<notin> {(i, j). P i = Some j}\<^sup>*"
  shows "within_rows (P(i := q)) n x"
  using assms
proof (induction n arbitrary: x)
  case (Suc n)
  have x: "x \<noteq> i" using Suc.prems(2) by auto
  show ?case
  proof (cases "P x")
    case (Some y)
    then have "(x, y) \<in> {(i, j). P i = Some j}" by simp
    then have "(y, i) \<notin> {(i, j). P i = Some j}\<^sup>*" using Suc.prems(2) converse_rtrancl_into_rtrancl by metis
    then show ?thesis using Suc Some x by simp
  qed (use x in simp)
qed simp

lemma within_rows_linked:
  assumes "\<And>x. within_rows P n x"
    and "\<And>p. q = Some p \<Longrightarrow> (p, i) \<notin> {(i, j). P i = Some j}\<^sup>*"
  shows "within_rows (P(i := q)) (Suc n) i" and "\<exists>k. within_rows (P(i := q)) k x"
proof -
  show i: "within_rows (P(i := q)) (Suc n) i"
  proof (cases q)
    case (Some p)
    then show ?thesis using within_rows_apart [OF assms(1) assms(2)] by simp
  qed simp
  define Q where "Q = P(i := q)"
  have Q: "Q y = P y" if "y \<noteq> i" for y using that by (simp add: Q_def)
  have "within_rows P k y \<Longrightarrow> within_rows Q (Suc n + k) y" for k y
  proof (induction k arbitrary: y)
    case (Suc k)
    show ?case
    proof (cases "y = i")
      case True
      show ?thesis unfolding True Q_def by (rule within_rows_more [OF i]) simp
    next
      case False
      have "within_rows Q (Suc (Suc n + k)) y"
        unfolding within_rows.simps(2) Q [OF False] using Suc by (cases "P y") simp_all
      then show ?thesis by simp
    qed
  qed simp
  with assms(1) show "\<exists>k. within_rows (P(i := q)) k x" unfolding Q_def by blast
qed

section \<open>Rows after the steps of a resolution\<close>

lemma parent_of_set:
  assumes "\<And>m. ms_id (f m) = ms_id m" "\<And>m. ms_accountId (f m) = ms_accountId m"
    and "\<And>m. ms_parentMessageId (f m) = ms_parentMessageId m"
  shows "parent_of a (set_message j f h) = parent_of a h"
  by (rule ext, simp add: parent_of_def message_of_set assms(1,2) split: option.split) (simp add: assms(3))

lemma parents_known_cong:
  assumes "parent_of a h' = parent_of a h" and "\<And>x. message_of a x h' = None \<longleftrightarrow> message_of a x h = None"
  shows "parents_known a h' = parents_known a h"
  unfolding parents_known_def assms ..

lemma relinked:
  assumes "message_of a i h \<noteq> None"
  shows "parent_of a (set_message i (\<lambda>m. m\<lparr>ms_parentMessageId := q, ms_threadLinkState := s\<rparr>) h) = (parent_of a h)(i := q)"
proof (rule ext)
  fix x
  show "parent_of a (set_message i (\<lambda>m. m\<lparr>ms_parentMessageId := q, ms_threadLinkState := s\<rparr>) h) x = ((parent_of a h)(i := q)) x"
    using assms by (cases "message_of a x h") (auto simp: parent_of_def message_of_set)
qed

lemma propagate_rows:
  assumes "propagateThread a i t h = (n, h')"
  shows "message_of a x h' = map_option (\<lambda>m. if x \<in> set (subtree_of a h i) then m\<lparr>ms_threadId := Some t\<rparr> else m) (message_of a x h)"
proof -
  let ?P = "\<lambda>m. ms_accountId m = pg_uuid a \<and> ms_id m \<in> set (subtree_of a h i) \<and> ms_threadId m \<noteq> Some t"
  have "message_of a x h' = map_option (\<lambda>m. if ?P m then m\<lparr>ms_threadId := Some t\<rparr> else m) (message_of a x h)"
    by (rule message_of_tbl) (use assms in \<open>auto simp: propagateThread_def Let_def\<close>)
  then show ?thesis by (cases "message_of a x h") (auto dest: message_of_keys)
qed

lemma propagate_parents:
  assumes "propagateThread a i t h = (n, h')"
  shows "parent_of a h' = parent_of a h"
  by (rule ext, simp add: parent_of_def propagate_rows [OF assms] split: option.split)

lemma propagate_threads:
  assumes "propagateThread a i t h = (n, h')"
  shows "thread_of a h' x = (if x \<in> set (subtree_of a h i) \<and> message_of a x h \<noteq> None then Some t else thread_of a h x)"
  by (simp add: thread_of_def propagate_rows [OF assms] split: option.split)

lemma thread_of_set:
  assumes "\<And>m. ms_id (f m) = ms_id m" "\<And>m. ms_accountId (f m) = ms_accountId m"
    and "\<And>m. ms_threadId (f m) = ms_threadId m"
  shows "thread_of a (set_message j f h) = thread_of a h"
  by (rule ext, simp add: thread_of_def message_of_set assms(1,2) split: option.split) (simp add: assms(3))

section \<open>The three steps of a resolution\<close>

lemma link_step:
  assumes "short_chains a h" and "parents_known a h" and row: "message_of a i h = Some row"
    and d: "decideLink a h row = Some (s, q)"
    and h1: "h1 = (if ms_threadLinkState row \<noteq> s \<or> ms_parentMessageId row \<noteq> q
                 then set_message i (\<lambda>m. m\<lparr>ms_parentMessageId := q, ms_threadLinkState := s\<rparr>) h else h)"
  shows "parent_of a h1 = (parent_of a h)(i := q)" and "\<And>x. message_of a x h1 = None \<longleftrightarrow> message_of a x h = None"
    and "parents_known a h1" and "acyclic (parent_rel a h1)" and "within_rows (parent_of a h1) (Suc MAX_CHAIN_DEPTH) i"
proof -
  have id: "ms_id row = i" using message_of_keys [OF row] by simp
  have sound: "message_of a p h \<noteq> None \<and> (p, i) \<notin> (parent_rel a h)\<^sup>*" if "q = Some p" for p
    using decideLink_sound [OF assms(1), of row] d that id by (metis option.inject prod.inject)
  show P: "parent_of a h1 = (parent_of a h)(i := q)"
  proof (cases "ms_threadLinkState row \<noteq> s \<or> ms_parentMessageId row \<noteq> q")
    case True
    then have h1: "h1 = set_message i (\<lambda>m. m\<lparr>ms_parentMessageId := q, ms_threadLinkState := s\<rparr>) h" using h1 by simp
    show ?thesis unfolding h1 by (rule relinked) (simp add: row)
  next
    case False
    then show ?thesis using h1 row by (auto simp: parent_of_def fun_eq_iff)
  qed
  show n: "message_of a x h1 = None \<longleftrightarrow> message_of a x h = None" for x
    unfolding h1 by (auto simp: message_of_set)
  show "parents_known a h1"
    using assms(2) sound unfolding parents_known_def P n by (auto split: if_splits)
  have all: "within_rows (parent_of a h) MAX_CHAIN_DEPTH x" for x using assms(1) by (simp add: short_chains_def)
  have off: "\<And>p. q = Some p \<Longrightarrow> (p, i) \<notin> {(i, j). parent_of a h i = Some j}\<^sup>*"
    using sound by (simp add: parent_rel_def)
  show "within_rows (parent_of a h1) (Suc MAX_CHAIN_DEPTH) i"
    unfolding P by (rule within_rows_linked(1) [OF all off])
  show "acyclic (parent_rel a h1)"
    unfolding parent_rel_def P by (rule short_acyclic) (rule within_rows_linked(2) [OF all off])
qed

lemma thread_step:
  assumes "within_rows (parent_of a h1) (Suc MAX_CHAIN_DEPTH) i" and "parents_known a h1" and "message_of a i h1 \<noteq> None"
    and root: "root = chainRoot a h1 i" and found: "found = root_thread a root detached h1"
    and t: "t = (case found of None \<Rightarrow> fresh | Some t \<Rightarrow> t)"
    and h2: "h2 = (if found = None then set_message (cr_id root) (\<lambda>m. m\<lparr>ms_threadId := Some t\<rparr>) (h1\<lparr>h_threads := ts\<rparr>) else h1)"
  shows "parent_of a h2 = parent_of a h1" and "\<And>x. message_of a x h2 = None \<longleftrightarrow> message_of a x h1 = None"
    and "\<exists>r. (i, r) \<in> (parent_rel a h1)\<^sup>* \<and> parent_of a h1 r = None \<and> thread_of a h2 r = Some t"
proof -
  have ts: "message_of a x (h1\<lparr>h_threads := ts\<rparr>) = message_of a x h1" for x by (rule message_of_messages) simp
  have ps: "parent_of a (h1\<lparr>h_threads := ts\<rparr>) = parent_of a h1" by (rule parent_of_messages) simp
  show "parent_of a h2 = parent_of a h1"
    by (simp add: h2 parent_of_set ps)
  show "message_of a x h2 = None \<longleftrightarrow> message_of a x h1 = None" for x
    by (simp add: h2 message_of_set ts)
  obtain r m where r: "chainRoot a h1 i = chain_row_of m" "message_of a r h1 = Some m" "(i, r) \<in> (parent_rel a h1)\<^sup>*" "parent_of a h1 r = None"
    by (rule chainRoot_root [OF assms(1-3)])
  have rt: "root = chain_row_of m" using r(1) root by simp
  then have id: "cr_id root = r" using message_of_keys [OF r(2)] by (simp add: chain_row_of_def)
  have "thread_of a h2 r = Some t"
  proof (cases found)
    case None
    then show ?thesis using r(2) by (simp add: h2 id thread_of_def message_of_set ts)
  next
    case (Some y)
    then have "ms_threadId m = Some y"
      using found rt r(2) id by (auto simp: root_thread_def Let_def chain_row_of_def split: if_splits)
    then show ?thesis using Some r(2) t by (simp add: h2 thread_of_def)
  qed
  with r(3,4) show "\<exists>r. (i, r) \<in> (parent_rel a h1)\<^sup>* \<and> parent_of a h1 r = None \<and> thread_of a h2 r = Some t" by blast
qed

lemma member_step:
  assumes "propagateThread a i t h2 = (n, h3)" and "message_of a i h2 \<noteq> None" and "parents_known a h2"
  shows "parent_of a h3 = parent_of a h2" and "(d, i) \<in> (parent_rel a h2)\<^sup>* \<Longrightarrow> thread_of a h3 d = Some t"
    and "thread_of a h2 x = Some t \<Longrightarrow> thread_of a h3 x = Some t"
    and "\<And>x. message_of a x h3 = None \<longleftrightarrow> message_of a x h2 = None"
proof -
  show "parent_of a h3 = parent_of a h2" by (rule propagate_parents [OF assms(1)])
  show "message_of a x h3 = None \<longleftrightarrow> message_of a x h2 = None" for x by (simp add: propagate_rows [OF assms(1)])
  show "thread_of a h2 x = Some t \<Longrightarrow> thread_of a h3 x = Some t" by (simp add: propagate_threads [OF assms(1)])
  assume d: "(d, i) \<in> (parent_rel a h2)\<^sup>*"
  then have "message_of a d h2 \<noteq> None"
    by (cases rule: converse_rtranclE) (use assms(2) in \<open>auto simp: parent_rel_def parent_of_def split: option.splits\<close>)
  then show "thread_of a h3 d = Some t"
    using subtree_of_descendants [OF d assms(2)] by (simp add: propagate_threads [OF assms(1)])
qed

section \<open>One row\<close>

lemma reconcileRow_result:
  assumes "short_chains a h" and "parents_known a h" and row: "message_of a i h = Some row" and "ms_threadDirty row"
  obtains out h' r t where "reconcileRow p a i now h = Inr (Some out, h')" and "acyclic (parent_rel a h')"
    and "parents_known a h'" and "\<And>m. message_of a i h' = Some m \<Longrightarrow> \<not> ms_threadDirty m"
    and "(i, r) \<in> (parent_rel a h')\<^sup>*" and "parent_of a h' r = None" and "thread_of a h' r = Some t"
    and "\<And>d. (d, i) \<in> (parent_rel a h')\<^sup>* \<Longrightarrow> thread_of a h' d = Some t"
proof -
  have id: "ms_id row = i" using message_of_keys [OF row] by simp
  obtain s q where d: "decideLink a h row = Some (s, q)" by (rule decideLink_sound [OF assms(1)])
  define changed where "changed \<longleftrightarrow> ms_threadLinkState row \<noteq> s \<or> ms_parentMessageId row \<noteq> q"
  define h1 where "h1 = (if changed then set_message i (\<lambda>m. m\<lparr>ms_parentMessageId := q, ms_threadLinkState := s\<rparr>) h else h)"
  define root where "root = chainRoot a h1 i"
  define detached where "detached \<longleftrightarrow> cr_id root = i \<and> ms_parentMessageId row \<noteq> None \<and> q = None"
  define found where "found = root_thread a root detached h1"
  define fresh where "fresh = new_thread p now a root h1"
  define t where "t = (case found of None \<Rightarrow> th_id fresh | Some t \<Rightarrow> t)"
  define h2 where "h2 = (if found = None then set_message (cr_id root) (\<lambda>m. m\<lparr>ms_threadId := Some t\<rparr>)
    (h1\<lparr>h_threads := h_threads h1 @ [fresh]\<rparr>) else h1)"
  obtain n h3 where h3: "propagateThread a i t h2 = (n, h3)" by fastforce
  define h4 where "h4 = (if n > 0 then h3\<lparr>h_threads := tbl_update (\<lambda>y. th_id y = t) (\<lambda>y. y\<lparr>th_updatedAt := now\<rparr>) (h_threads h3)\<rparr> else h3)"
  define h' where "h' = set_message i (\<lambda>m. m\<lparr>ms_threadDirty := False\<rparr>) h4"
  have run: "\<exists>out. reconcileRow p a i now h = Inr (Some out, h')"
    unfolding h'_def h4_def
    by (simp only: reconcileRow_def row assms(4) d id Let_def option.case prod.case not_True_eq_False if_False
        changed_def [symmetric] h1_def [symmetric] root_def [symmetric] detached_def [symmetric] found_def [symmetric]
        fresh_def [symmetric] t_def [symmetric] h2_def [symmetric] h3) blast
  note l = link_step [OF assms(1,2) row d h1_def [unfolded changed_def]]
  have known: "message_of a i h1 \<noteq> None" using l(2) [of i] row by simp
  note th = thread_step [OF l(5,3) known root_def found_def t_def h2_def]
  have known2: "message_of a i h2 \<noteq> None" using th(2) known by simp
  have pk2: "parents_known a h2" using parents_known_cong [OF th(1,2)] l(3) by simp
  note mb = member_step [OF h3 known2 pk2]
  have m4: "message_of a x h4 = message_of a x h3" for x by (rule message_of_messages) (simp add: h4_def)
  have p4: "parent_of a h4 = parent_of a h3" by (rule parent_of_messages) (simp add: h4_def)
  have t4: "thread_of a h4 = thread_of a h3" by (rule ext) (simp add: thread_of_def m4)
  have p': "parent_of a h' = parent_of a h1" by (simp add: h'_def parent_of_set p4 mb(1) th(1))
  have r': "parent_rel a h' = parent_rel a h1" by (simp add: parent_rel_def p')
  have r2: "parent_rel a h2 = parent_rel a h1" by (simp add: parent_rel_def th(1))
  have t': "thread_of a h' = thread_of a h3" by (simp add: h'_def thread_of_set t4)
  have n': "message_of a x h' = None \<longleftrightarrow> message_of a x h1 = None" for x
    by (simp add: h'_def message_of_set m4 mb(4) th(2))
  obtain r where r: "(i, r) \<in> (parent_rel a h1)\<^sup>*" "parent_of a h1 r = None" "thread_of a h2 r = Some t" using th(3) by blast
  obtain out where out: "reconcileRow p a i now h = Inr (Some out, h')" using run by blast
  show ?thesis
  proof (rule that [OF out])
    show "acyclic (parent_rel a h')" unfolding r' by (rule l(4))
    show "parents_known a h'" using parents_known_cong [OF p' n'] l(3) by simp
    show "\<not> ms_threadDirty m" if "message_of a i h' = Some m" for m using that by (auto simp: h'_def message_of_set)
    show "(i, r) \<in> (parent_rel a h')\<^sup>*" unfolding r' by (rule r(1))
    show "parent_of a h' r = None" unfolding p' by (rule r(2))
    show "thread_of a h' r = Some t" unfolding t' by (rule mb(3) [OF r(3)])
    show "thread_of a h' x = Some t" if "(x, i) \<in> (parent_rel a h')\<^sup>*" for x
      unfolding t' by (rule mb(2)) (use that in \<open>simp add: r' r2\<close>)
  qed
qed

end
