(* ===== verification/Sync_Thread_Properties.thy ===== *)
theory Sync_Thread_Properties
  imports Sync_Linking
begin

text \<open>
  The properties of thread linking, and what the depth bound of the cycle walk lets through.
\<close>

definition demo_message :: "uuid \<Rightarrow> string option \<Rightarrow> message_row" where
  "demo_message i reply =
     \<lparr>ms_id = i, ms_accountId = ''q'', ms_messageId = Some (''<'' @ i @ ''@x>''), ms_inReplyTo = reply, ms_referenceIds = [],
      ms_threadId = None, ms_parentMessageId = None, ms_threadLinkState = Link_Pending, ms_threadDirty = True,
      ms_sender = None, ms_replyTo = None, ms_recipients = None, ms_subject = None, ms_sentAt = None, ms_snippet = None,
      ms_hasAttachments = False, ms_sizeBytes = None, ms_fetchedBody = False, ms_bodyFailedAt = None,
      ms_originalStorageKey = None, ms_originalSha256 = None, ms_senderText = [], ms_recipientsText = [],
      ms_addressesText = [], ms_subjectText = [], ms_bodyIndexText = []\<rparr>"

definition first_reply :: message_row where
  "first_reply = demo_message ''r'' (Some ''<m@x>'')"

text \<open>A mail, its reply, and a reply to that one already linked below it.\<close>

definition reply_hub :: hub where
  "reply_hub = empty_hub\<lparr>h_messages := [demo_message ''m'' None, first_reply,
     (demo_message ''s'' (Some ''<r@x>''))\<lparr>ms_parentMessageId := Some ''r'', ms_threadLinkState := Link_Linked\<rparr>]\<rparr>"

lemma reply_parents: "parent_of ''q'' reply_hub i = (if i = ''s'' then Some ''r'' else None)"
proof -
  have "pg_uuid ''q'' = ''q''" by code_simp
  then show ?thesis
    by (simp add: parent_of_def message_of_def reply_hub_def first_reply_def demo_message_def)
qed



section \<open>The depth bound\<close>

text \<open>
  A chain longer than the bound is answered as one that does not reach the target, whatever follows:
  a link that closes a cycle longer than the bound is made.
\<close>

lemma long_chain_answers_no:
  assumes "length (chain_rows (parent_of a h) n i) = n" and "distinct (seen @ chain_rows (parent_of a h) n i)"
    and "target \<notin> set (chain_rows (parent_of a h) n i)" and "length seen + n = MAX_CHAIN_DEPTH"
    and "parent_of a h (last (chain_rows (parent_of a h) n i)) = Some j" and "n > 0"
  shows "chain_walk a h target (Some i) seen = Some False"
  using assms
proof (induction n arbitrary: i seen)
  case (Suc n)
  obtain k where k: "parent_of a h i = Some k" using Suc.prems(1,5) by (cases "parent_of a h i") auto
  have step: "chain_walk a h target (Some i) seen = chain_walk a h target (Some k) (i # seen)"
    using Suc.prems(2,3,4) k by (subst chain_walk.simps) auto
  show ?case
  proof (cases n)
    case 0
    then show ?thesis unfolding step using Suc.prems(4) by (subst chain_walk.simps) simp
  next
    case (Suc m)
    have "chain_rows (parent_of a h) n k \<noteq> []" using Suc by simp
    then show ?thesis unfolding step using Suc.prems k Suc by (intro Suc.IH) auto
  qed
qed simp

end
