(* ===== verification/Auth_Encoding.thy ===== *)
theory Auth_Encoding
  imports Hub_Prelude
begin

text \<open>
  The encodings of \<open>packages/auth/src/service.ts\<close> and \<open>tokens.ts\<close>: base64url as Node's
  \<open>Buffer\<close> writes and reads it, without padding, and the sixteen bytes of a UUID. The reader skips
  characters outside the alphabet, accepts the standard alphabet too, and stops at a padding sign.
\<close>

definition base64url_alphabet :: string where
  "base64url_alphabet = ''ABCDEFGHIJKLMNOPQRSTUVWXYZabcdefghijklmnopqrstuvwxyz0123456789-_''"

definition sextet_char :: "nat \<Rightarrow> char" where
  "sextet_char n = base64url_alphabet ! n"

definition char_sextet :: "char \<Rightarrow> nat option" where
  "char_sextet c =
     (let n = char_code c in
      if 65 \<le> n \<and> n \<le> 90 then Some (n - 65)
      else if 97 \<le> n \<and> n \<le> 122 then Some (n - 71)
      else if 48 \<le> n \<and> n \<le> 57 then Some (n + 4)
      else if n = 43 \<or> n = 45 then Some 62
      else if n = 47 \<or> n = 95 then Some 63
      else None)"

fun sextets :: "nat list \<Rightarrow> nat list" where
  "sextets (a # b # c # bs) =
     a div 4 # ((a mod 4) * 16 + b div 16) # ((b mod 16) * 4 + c div 64) # c mod 64 # sextets bs"
| "sextets [a, b] = [a div 4, (a mod 4) * 16 + b div 16, (b mod 16) * 4]"
| "sextets [a] = [a div 4, (a mod 4) * 16]"
| "sextets [] = []"

fun octets :: "nat list \<Rightarrow> nat list" where
  "octets (a # b # c # d # ss) =
     (a * 4 + b div 16) # ((b mod 16) * 16 + c div 4) # ((c mod 4) * 64 + d) # octets ss"
| "octets [a, b, c] = [a * 4 + b div 16, (b mod 16) * 16 + c div 4]"
| "octets [a, b] = [a * 4 + b div 16]"
| "octets _ = []"

definition bytesToBase64Url :: "bytes \<Rightarrow> string" where
  "bytesToBase64Url bs = map sextet_char (sextets (map unat bs))"

definition base64UrlToBytes :: "string \<Rightarrow> bytes" where
  "base64UrlToBytes s =
     map of_nat (octets (List.map_filter char_sextet (takeWhile (\<lambda>c. c \<noteq> CHR ''='') s)))"

definition hex_digit :: "char \<Rightarrow> nat" where
  "hex_digit c = (let n = char_code c in if n \<le> 57 then n - 48 else if n \<le> 70 then n - 55 else n - 87)"

fun hex_pairs :: "string \<Rightarrow> bytes" where
  "hex_pairs (a # b # cs) = of_nat (hex_digit a * 16 + hex_digit b) # hex_pairs cs"
| "hex_pairs _ = []"

definition uuidToBytes :: "uuid \<Rightarrow> bytes" where
  "uuidToBytes v = take 16 (hex_pairs (filter (\<lambda>c. c \<noteq> CHR ''-'') v))"

section \<open>The round trip\<close>

lemma packed_digits:
  fixes x y :: nat
  shows "y < 16 \<Longrightarrow> (x * 16 + y) div 16 = x" "y < 16 \<Longrightarrow> (x * 16 + y) mod 16 = y"
    and "y < 4 \<Longrightarrow> (x * 4 + y) div 4 = x" "y < 4 \<Longrightarrow> (x * 4 + y) mod 4 = y"
  by simp_all

lemma high_digits:
  fixes b :: nat
  assumes "b < 256"
  shows "b div 16 < 16" "b div 64 < 4" "b div 4 < 64"
  using assms by (simp_all add: less_mult_imp_div_less)

lemma digits_bounded:
  fixes x y :: nat
  shows "x < 4 \<Longrightarrow> y < 16 \<Longrightarrow> x * 16 + y < 64" "x < 16 \<Longrightarrow> y < 4 \<Longrightarrow> x * 4 + y < 64"
  by linarith+

lemma octets_sextets: "\<forall>b \<in> set bs. b < 256 \<Longrightarrow> octets (sextets bs) = bs"
proof (induction bs rule: sextets.induct)
  case (1 a b c bs)
  then have "b < 256" "c < 256" by auto
  with 1 show ?case by (simp add: packed_digits high_digits)
next
  case (2 a b)
  then have "b < 256" by auto
  then show ?case by (simp add: packed_digits high_digits)
qed simp_all

lemma sextets_small: "\<forall>b \<in> set bs. b < 256 \<Longrightarrow> n \<in> set (sextets bs) \<Longrightarrow> n < 64"
proof (induction bs rule: sextets.induct)
  case (1 a b c bs)
  then have "a < 256" "b < 256" "c < 256" by auto
  with 1 show ?case using high_digits [of a] high_digits [of b] high_digits [of c]
    digits_bounded(1) [of "a mod 4" "b div 16"] digits_bounded(2) [of "b mod 16" "c div 64"] by auto
next
  case (2 a b)
  then have "a < 256" "b < 256" by auto
  with 2 show ?case using high_digits [of a] high_digits [of b] digits_bounded(1) [of "a mod 4" "b div 16"]
    digits_bounded(2) [of "b mod 16" 0] by auto
next
  case (3 a)
  then have "a < 256" by auto
  with 3 show ?case using high_digits [of a] digits_bounded(1) [of "a mod 4" 0] by auto
qed simp

lemma alphabet_length: "length base64url_alphabet = 64"
  by (simp add: base64url_alphabet_def)

lemma alphabet_read: "map char_sextet base64url_alphabet = map Some [0..<64]"
  by (simp add: base64url_alphabet_def char_sextet_def char_code_def upt_conv_Cons)

lemma alphabet_no_padding: "CHR ''='' \<notin> set base64url_alphabet"
  by (simp add: base64url_alphabet_def)

lemma char_sextet_char:
  assumes "n < 64"
  shows "char_sextet (sextet_char n) = Some n" and "sextet_char n \<noteq> CHR ''=''"
proof -
  have "char_sextet (sextet_char n) = map char_sextet base64url_alphabet ! n"
    using assms by (simp add: sextet_char_def alphabet_length)
  also have "\<dots> = Some n" unfolding alphabet_read using assms by simp
  finally show "char_sextet (sextet_char n) = Some n" .
  show "sextet_char n \<noteq> CHR ''=''"
    using assms alphabet_no_padding alphabet_length nth_mem unfolding sextet_char_def by metis
qed

lemma read_sextets: "\<forall>n \<in> set ns. n < 64 \<Longrightarrow>
    List.map_filter char_sextet (takeWhile (\<lambda>c. c \<noteq> CHR ''='') (map sextet_char ns)) = ns"
  by (induction ns) (simp_all add: char_sextet_char map_filter_simps)

lemma bytes_below_256: "\<forall>b \<in> set (map unat (bs :: bytes)). b < 256"
  using unsigned_less [where 'a = nat and 'b = 8] by auto

text \<open>What is stored of a key is read back as the key.\<close>

theorem base64url_round_trip: "base64UrlToBytes (bytesToBase64Url bs) = bs"
proof -
  have "\<forall>n \<in> set (sextets (map unat bs)). n < 64" using sextets_small [OF bytes_below_256] by blast
  then show ?thesis
    by (simp add: base64UrlToBytes_def bytesToBase64Url_def read_sextets octets_sextets [OF bytes_below_256] comp_def)
qed

end
