(* ===== verification/Auth_State.thy ===== *)
theory Auth_State
  imports Recovery_Controls Hub_Runs Auth_Encoding
begin

text \<open>
  Owner authentication, \<open>packages/auth/src\<close>: its errors (\<open>errors.ts\<close>), configuration
  (\<open>config.ts\<close>), the setting of its runs, and the database
  operations of \<open>state.ts\<close>. WebAuthn verification, hashing and random tokens are parameters.
\<close>

section \<open>Errors and configuration\<close>

datatype auth_error_code =
    AU_Invalid_Request | AU_Unauthorized | AU_Origin_Forbidden | AU_Grant_Invalid | AU_Challenge_Invalid
  | AU_Challenge_Rate_Limited | AU_Webauthn_Invalid | AU_Verification_Required | AU_Last_Credential
  | AU_Owner_Exists | AU_Owner_Missing | AU_Login_Blocked | AU_Auth_Unavailable

fun auth_http_status :: "auth_error_code \<Rightarrow> int" where
  "auth_http_status AU_Invalid_Request = 400"
| "auth_http_status AU_Unauthorized = 401"
| "auth_http_status AU_Origin_Forbidden = 403"
| "auth_http_status AU_Grant_Invalid = 403"
| "auth_http_status AU_Challenge_Invalid = 400"
| "auth_http_status AU_Challenge_Rate_Limited = 429"
| "auth_http_status AU_Webauthn_Invalid = 400"
| "auth_http_status AU_Verification_Required = 403"
| "auth_http_status AU_Last_Credential = 409"
| "auth_http_status AU_Owner_Exists = 409"
| "auth_http_status AU_Owner_Missing = 400"
| "auth_http_status AU_Login_Blocked = 503"
| "auth_http_status AU_Auth_Unavailable = 503"

text \<open>\<open>Auth_Database\<close> is any other error thrown, such as a unique violation the service passes on.\<close>

datatype auth_error = Auth_Err auth_error_code | Auth_Database

definition CHALLENGE_TTL_MS :: int where "CHALLENGE_TTL_MS = 5 * 60 * 1000"
definition GRANT_TTL_MS :: int where "GRANT_TTL_MS = 10 * 60 * 1000"
definition RECENT_VERIFICATION_MS :: int where "RECENT_VERIFICATION_MS = 5 * 60 * 1000"
definition DEFAULT_SESSION_TTL_MS :: int where "DEFAULT_SESSION_TTL_MS = 7 * 24 * 60 * 60 * 1000"

record auth_config =
  af_origin :: string
  af_rpId :: string
  af_sessionTtlMs :: int
  af_challengeTtlMs :: int
  af_grantTtlMs :: int
  af_recentVerificationMs :: int

text \<open>What \<open>new URL\<close> yields; \<open>None\<close> where it throws.\<close>

record parsed_url =
  pu_protocol :: string
  pu_hostname :: string
  pu_username :: string
  pu_password :: string
  pu_pathname :: string
  pu_origin :: string

record auth_config_input =
  ai_baseUrl :: "string option"
  ai_sessionTtlMs :: "int option"
  ai_challengeTtlMs :: "int option"
  ai_grantTtlMs :: "int option"
  ai_recentVerificationMs :: "int option"

definition or_else :: "'a option \<Rightarrow> 'a \<Rightarrow> 'a" where
  "or_else x d = (case x of None \<Rightarrow> d | Some a \<Rightarrow> a)"

definition parseAuthConfig :: "(string \<Rightarrow> parsed_url option) \<Rightarrow> auth_config_input \<Rightarrow> auth_config option" where
  "parseAuthConfig parseUrl input =
     (case ai_baseUrl input of None \<Rightarrow> None
      | Some raw \<Rightarrow>
          (case parseUrl raw of None \<Rightarrow> None
           | Some url \<Rightarrow>
               (let host = to_lower (pu_hostname url);
                    localHost = (host = ''localhost'' \<or> host = ''127.0.0.1'' \<or> host = ''[::1]'' \<or> host = ''::1'')
                in if pu_protocol url \<noteq> ''https:'' \<and> \<not> (pu_protocol url = ''http:'' \<and> localHost) then None
                   else if pu_username url \<noteq> [] \<or> pu_password url \<noteq> [] then None
                   else if pu_pathname url \<noteq> ''/'' \<and> pu_pathname url \<noteq> [] then None
                   else Some \<lparr>af_origin = pu_origin url, af_rpId = host,
                              af_sessionTtlMs = or_else (ai_sessionTtlMs input) DEFAULT_SESSION_TTL_MS,
                              af_challengeTtlMs = or_else (ai_challengeTtlMs input) CHALLENGE_TTL_MS,
                              af_grantTtlMs = or_else (ai_grantTtlMs input) GRANT_TTL_MS,
                              af_recentVerificationMs =
                                or_else (ai_recentVerificationMs input) RECENT_VERIFICATION_MS\<rparr>)))"

section \<open>The ports\<close>

text \<open>A ceremony response: the credential it names, its client data, and the rest as it was sent.\<close>

record ceremony_response =
  cp_id :: string
  cp_clientDataJSON :: string
  cp_payload :: string

record stored_passkey =
  pk_id :: string
  pk_publicKey :: bytes
  pk_counter :: int
  pk_transports :: "string list option"

text \<open>The argument of the two verification calls; user verification is always required.\<close>

record verification_request =
  vq_response :: ceremony_response
  vq_expectedChallenge :: string
  vq_expectedOrigin :: string
  vq_expectedRPID :: string

record registration_info =
  ri_credential :: stored_passkey
  ri_deviceType :: string
  ri_backedUp :: bool

text \<open>What \<open>verifyAuthenticationResponse\<close> returns: whether the signature holds, and the counter.\<close>

record assertion_verification =
  av_verified :: bool
  av_newCounter :: int

text \<open>
  The verification calls answer \<open>None\<close> where they throw. \<open>ap_clientData\<close> decodes the client data
  of a response to its challenge, \<open>None\<close> where that fails.
\<close>

record auth_ports =
  ap_clock :: "nat \<Rightarrow> millis"
  ap_env :: "nat \<Rightarrow> hub \<Rightarrow> hub"
  ap_newId :: "hub \<Rightarrow> uuid"
  ap_randomBytes :: "nat \<Rightarrow> bytes"
  ap_sha256 :: "string \<Rightarrow> bytes"
  ap_newChallenge :: "nat \<Rightarrow> string"
  ap_clientData :: "string \<Rightarrow> string option"
  ap_verifyRegistration :: "verification_request \<Rightarrow> registration_info option option"
  ap_verifyAuthentication :: "verification_request \<Rightarrow> stored_passkey \<Rightarrow> assertion_verification option"
  ap_config :: auth_config
  ap_controls :: recovery_controls

section \<open>Runs\<close>

record auth_world =
  aw_time :: nat
  aw_hub :: hub

type_synonym 'a auth_run = "(auth_world, auth_error, 'a) hub_run"
type_synonym 'a auth_tx = "(hub, auth_error, 'a) tx"

definition auth_fail :: "auth_error_code \<Rightarrow> 'a auth_run" where
  "auth_fail c = throw (Auth_Err c)"

definition auth_tick :: "auth_ports \<Rightarrow> hub \<Rightarrow> auth_world \<Rightarrow> auth_world" where
  "auth_tick p h w = w\<lparr>aw_time := Suc (aw_time w), aw_hub := ap_env p (aw_time w) h\<rparr>"

text \<open>An awaited read, an awaited transaction or statement at its time, an awaited call of a library, and
  a reading of the clock.\<close>

definition auth_read :: "auth_ports \<Rightarrow> (hub \<Rightarrow> auth_error + 'a) \<Rightarrow> 'a auth_run" where
  "auth_read p q w = (q (aw_hub w), auth_tick p (aw_hub w) w)"

definition auth_write :: "auth_ports \<Rightarrow> (nat \<Rightarrow> 'a auth_tx) \<Rightarrow> 'a auth_run" where
  "auth_write p body w = (case run_tx (body (aw_time w)) (aw_hub w) of (r, h) \<Rightarrow> (r, auth_tick p h w))"

definition auth_ask :: "auth_ports \<Rightarrow> (nat \<Rightarrow> auth_error + 'a) \<Rightarrow> 'a auth_run" where
  "auth_ask p q w = (q (aw_time w), auth_tick p (aw_hub w) w)"

definition auth_now :: "auth_ports \<Rightarrow> (millis \<Rightarrow> 'a auth_run) \<Rightarrow> 'a auth_run" where
  "auth_now p f w = f (ap_clock p (aw_time w)) w"

section \<open>Tokens\<close>

definition generateToken :: "auth_ports \<Rightarrow> nat \<Rightarrow> string" where
  "generateToken p n = bytesToBase64Url (ap_randomBytes p n)"

definition hashToken :: "auth_ports \<Rightarrow> string \<Rightarrow> string" where
  "hashToken p token = bytesToBase64Url (ap_sha256 p token)"

section \<open>State operations\<close>

definition set_auth :: "(auth_tables \<Rightarrow> auth_tables) \<Rightarrow> hub \<Rightarrow> hub" where
  "set_auth f h = h\<lparr>h_auth := f (h_auth h)\<rparr>"

definition readOwner :: "hub \<Rightarrow> owner_row option" where
  "readOwner h = au_owner (h_auth h)"

definition lockOwner :: "hub \<Rightarrow> auth_error + owner_row" where
  "lockOwner h = (case readOwner h of None \<Rightarrow> Inl (Auth_Err AU_Owner_Missing) | Some o' \<Rightarrow> Inr o')"

definition active_credential :: "uuid \<Rightarrow> credential_row \<Rightarrow> bool" where
  "active_credential ownerId c \<longleftrightarrow> cd_ownerId c = ownerId \<and> cd_revokedAt c = None"

definition activeCredentials :: "uuid \<Rightarrow> hub \<Rightarrow> credential_row list" where
  "activeCredentials ownerId h = sort_key cd_createdAt (filter (active_credential ownerId) (au_credentials (h_auth h)))"

definition CHALLENGE_LIVE_CAP :: int where "CHALLENGE_LIVE_CAP = 32"

definition live_challenge :: "challenge_row \<Rightarrow> bool" where
  "live_challenge r \<longleftrightarrow> wc_consumedAt r = None \<and> wc_revokedAt r = None"

definition live_challenges :: "challenge_purpose \<Rightarrow> uuid option \<Rightarrow> millis \<Rightarrow> hub \<Rightarrow> int" where
  "live_challenges purpose ownerId now h =
     tbl_count (\<lambda>r. wc_purpose r = purpose \<and> wc_ownerId r = ownerId \<and> live_challenge r \<and> wc_expiresAt r > now)
       (au_challenges (h_auth h))"

text \<open>Three statements, not one transaction.\<close>

definition issueChallenge ::
    "auth_ports \<Rightarrow> challenge_purpose \<Rightarrow> uuid option \<Rightarrow> string \<Rightarrow> uuid \<Rightarrow> int \<Rightarrow> millis \<Rightarrow> challenge_row auth_run" where
  "issueChallenge p purpose ownerId challenge recoveryGeneration ttlMs now =
     call (auth_write p (\<lambda>_ h. Inr ((), set_auth (\<lambda>t. t\<lparr>au_challenges := filter (\<lambda>r. \<not> wc_expiresAt r < now) (au_challenges t)\<rparr>) h)))
     (\<lambda>_. call (auth_read p (\<lambda>h. Inr (live_challenges purpose ownerId now h)))
     (\<lambda>live. if live \<ge> CHALLENGE_LIVE_CAP then auth_fail AU_Challenge_Rate_Limited
        else auth_write p (\<lambda>n h.
          let row = \<lparr>wc_id = ap_newId p h, wc_purpose = purpose, wc_ownerId = ownerId, wc_challenge = challenge,
                     wc_recoveryGeneration = pg_uuid recoveryGeneration, wc_createdAt = ap_clock p n,
                     wc_expiresAt = now + ttlMs, wc_consumedAt = None, wc_revokedAt = None\<rparr>
          in Inr (row, set_auth (\<lambda>t. t\<lparr>au_challenges := au_challenges t @ [row]\<rparr>) h))))"

definition findLiveChallenge :: "string \<Rightarrow> challenge_purpose \<Rightarrow> millis \<Rightarrow> hub \<Rightarrow> auth_error + challenge_row" where
  "findLiveChallenge challenge purpose now h =
     (case find (\<lambda>r. wc_challenge r = challenge \<and> wc_purpose r = purpose \<and> live_challenge r) (au_challenges (h_auth h)) of
        None \<Rightarrow> Inl (Auth_Err AU_Challenge_Invalid)
      | Some row \<Rightarrow> if wc_expiresAt row \<le> now then Inl (Auth_Err AU_Challenge_Invalid) else Inr row)"

definition consumeChallenge :: "millis \<Rightarrow> uuid \<Rightarrow> hub \<Rightarrow> bool \<times> hub" where
  "consumeChallenge now challengeId h =
     (let P = (\<lambda>r. wc_id r = challengeId \<and> live_challenge r)
      in (list_ex P (au_challenges (h_auth h)),
          set_auth (\<lambda>t. t\<lparr>au_challenges := tbl_update P (\<lambda>r. r\<lparr>wc_consumedAt := Some now\<rparr>) (au_challenges t)\<rparr>) h))"

definition live_grant :: "grant_row \<Rightarrow> bool" where
  "live_grant g \<longleftrightarrow> eg_consumedAt g = None \<and> eg_revokedAt g = None"

definition findLiveGrant :: "string \<Rightarrow> millis \<Rightarrow> hub \<Rightarrow> auth_error + grant_row" where
  "findLiveGrant tokenHash now h =
     (case find (\<lambda>g. eg_tokenHash g = tokenHash \<and> live_grant g) (au_grants (h_auth h)) of
        None \<Rightarrow> Inl (Auth_Err AU_Grant_Invalid)
      | Some row \<Rightarrow> if eg_expiresAt row \<le> now then Inl (Auth_Err AU_Grant_Invalid) else Inr row)"

definition consumeGrant :: "millis \<Rightarrow> uuid \<Rightarrow> hub \<Rightarrow> bool \<times> hub" where
  "consumeGrant now grantId h =
     (let P = (\<lambda>g. eg_id g = grantId \<and> live_grant g)
      in (list_ex P (au_grants (h_auth h)),
          set_auth (\<lambda>t. t\<lparr>au_grants := tbl_update P (\<lambda>g. g\<lparr>eg_consumedAt := Some now\<rparr>) (au_grants t)\<rparr>) h))"

definition revokeGrantsForPurpose :: "millis \<Rightarrow> grant_purpose \<Rightarrow> hub \<Rightarrow> int \<times> hub" where
  "revokeGrantsForPurpose now purpose h =
     (let P = (\<lambda>g. eg_purpose g = purpose \<and> live_grant g)
      in (tbl_count P (au_grants (h_auth h)),
          set_auth (\<lambda>t. t\<lparr>au_grants := tbl_update P (\<lambda>g. g\<lparr>eg_revokedAt := Some now\<rparr>) (au_grants t)\<rparr>) h))"

record revoked_counts =
  rk_credentials :: int
  rk_sessions :: int
  rk_challenges :: int
  rk_grants :: int

definition revoke_tables :: "millis \<Rightarrow> auth_tables \<Rightarrow> auth_tables" where
  "revoke_tables now t =
     t\<lparr>au_credentials := tbl_update (\<lambda>c. cd_revokedAt c = None) (\<lambda>c. c\<lparr>cd_revokedAt := Some now\<rparr>) (au_credentials t),
       au_sessions := tbl_update (\<lambda>s. sn_revokedAt s = None) (\<lambda>s. s\<lparr>sn_revokedAt := Some now\<rparr>) (au_sessions t),
       au_challenges := tbl_update live_challenge (\<lambda>r. r\<lparr>wc_revokedAt := Some now\<rparr>) (au_challenges t),
       au_grants := tbl_update live_grant (\<lambda>g. g\<lparr>eg_revokedAt := Some now\<rparr>) (au_grants t)\<rparr>"

definition revokeAllAuthState :: "millis \<Rightarrow> hub \<Rightarrow> revoked_counts \<times> hub" where
  "revokeAllAuthState now h =
     (let t = h_auth h
      in (\<lparr>rk_credentials = tbl_count (\<lambda>c. cd_revokedAt c = None) (au_credentials t),
           rk_sessions = tbl_count (\<lambda>s. sn_revokedAt s = None) (au_sessions t),
           rk_challenges = tbl_count live_challenge (au_challenges t),
           rk_grants = tbl_count live_grant (au_grants t)\<rparr>,
          set_auth (revoke_tables now) h))"

definition hasRegisteredOwner :: "hub \<Rightarrow> bool" where
  "hasRegisteredOwner h =
     (case readOwner h of None \<Rightarrow> False
      | Some o' \<Rightarrow> tbl_count (active_credential (ow_id o')) (au_credentials (h_auth h)) > 0)"

definition readSessionByToken :: "string \<Rightarrow> hub \<Rightarrow> session_row option" where
  "readSessionByToken tokenHash h = find (\<lambda>s. sn_tokenHash s = tokenHash) (au_sessions (h_auth h))"

definition recordAuthEvent :: "string \<Rightarrow> (string \<times> json) list \<Rightarrow> hub \<Rightarrow> hub" where
  "recordAuthEvent type payload =
     add_event \<lparr>ev_actor = User_Actor, ev_type = type, ev_entityType = ''auth'', ev_entityId = None, ev_payload = payload\<rparr>"

end
