(* ===== verification/Auth_Service.thy ===== *)
theory Auth_Service
  imports Auth_State
begin

text \<open>
  The passkey service, \<open>packages/auth/src/service.ts\<close>, and the operator commands of \<open>console.ts\<close>.
  Every operation is a run: its reads see the database as the other writers left it, and what it
  changes it changes in one transaction, whose body is a function of its own.
\<close>

section \<open>Values\<close>

record session_info =
  si_id :: uuid
  si_kind :: owner_session_kind
  si_verifiedAt :: millis
  si_expiresAt :: millis

record opened_session =
  os_token :: string
  os_session :: session_info

record credential_summary =
  cs_id :: uuid
  cs_label :: string
  cs_createdAt :: millis
  cs_lastUsedAt :: "millis option"

datatype login_availability = Login_Available | Login_Inspection_Only | Login_Is_Blocked

record auth_public_status =
  ps_ownerRegistered :: bool
  ps_login :: login_availability
  ps_control :: control_status

text \<open>The options of a ceremony: its challenge, the passkeys it names and the user of a registration.\<close>

record ceremony_options =
  co_rpId :: string
  co_challenge :: string
  co_credentials :: "(string \<times> string list option) list"
  co_userID :: "bytes option"

definition session_info_of :: "session_row \<Rightarrow> session_info" where
  "session_info_of s =
     \<lparr>si_id = sn_id s, si_kind = sn_kind s, si_verifiedAt = sn_verifiedAt s, si_expiresAt = sn_expiresAt s\<rparr>"

definition credential_summary_of :: "credential_row \<Rightarrow> credential_summary" where
  "credential_summary_of c =
     \<lparr>cs_id = cd_id c, cs_label = cd_label c, cs_createdAt = cd_createdAt c, cs_lastUsedAt = cd_lastUsedAt c\<rparr>"

definition sessionKindFor :: "control_status \<Rightarrow> owner_session_kind" where
  "sessionKindFor s = (case s of Reconciling_State _ \<Rightarrow> Session_Inspection | _ \<Rightarrow> Session_Standard)"

text \<open>The generation of a service that is ready or reconciling.\<close>

definition serving :: "control_status \<Rightarrow> uuid option" where
  "serving s = (case s of Ready_State g \<Rightarrow> Some g | Reconciling_State g \<Rightarrow> Some g | _ \<Rightarrow> None)"

definition kind_json :: "owner_session_kind \<Rightarrow> json" where
  "kind_json k = JStr (case k of Session_Standard \<Rightarrow> ''standard'' | Session_Inspection \<Rightarrow> ''inspection'')"

definition purpose_json :: "grant_purpose \<Rightarrow> json" where
  "purpose_json g = JStr (case g of Grant_Bootstrap \<Rightarrow> ''bootstrap'' | Grant_Recovery \<Rightarrow> ''recovery'')"

definition normalizeLabel :: "string \<Rightarrow> auth_error + string" where
  "normalizeLabel label =
     (let trimmed = trim_string label
      in if trimmed = [] \<or> length trimmed > 64 then Inl (Auth_Err AU_Invalid_Request) else Inr trimmed)"

definition parseClientData :: "auth_ports \<Rightarrow> string \<Rightarrow> auth_error + string" where
  "parseClientData p clientDataJSON =
     (case ap_clientData p clientDataJSON of
        None \<Rightarrow> Inl (Auth_Err AU_Challenge_Invalid)
      | Some c \<Rightarrow> if c = [] then Inl (Auth_Err AU_Challenge_Invalid) else Inr c)"

text \<open>A result of a pure step; an error ends the run.\<close>

definition auth_check :: "auth_error + 'a \<Rightarrow> 'a auth_run" where
  "auth_check r w = (r, w)"

section \<open>Statements of the transactions\<close>

definition insertSession ::
    "auth_ports \<Rightarrow> uuid \<Rightarrow> uuid \<Rightarrow> owner_session_kind \<Rightarrow> millis \<Rightarrow> int \<Rightarrow> nat \<Rightarrow> opened_session auth_tx" where
  "insertSession p ownerId generation kind now ttlMs n h =
     (let token = generateToken p n;
          row = \<lparr>sn_id = ap_newId p h, sn_ownerId = ownerId, sn_tokenHash = hashToken p token,
                 sn_recoveryGeneration = pg_uuid generation, sn_kind = kind, sn_verifiedAt = now,
                 sn_createdAt = ap_clock p n, sn_expiresAt = now + ttlMs, sn_revokedAt = None\<rparr>
      in require (readSessionByToken (sn_tokenHash row) h = None) Auth_Database
         (Inr (\<lparr>os_token = token, os_session = session_info_of row\<rparr>,
               set_auth (\<lambda>t. t\<lparr>au_sessions := au_sessions t @ [row]\<rparr>) h)))"

definition updateCredentialAfterUse :: "uuid \<Rightarrow> int \<Rightarrow> millis \<Rightarrow> hub \<Rightarrow> hub" where
  "updateCredentialAfterUse credentialId counter now =
     set_auth (\<lambda>t. t\<lparr>au_credentials := tbl_update (\<lambda>c. cd_id c = credentialId)
       (\<lambda>c. c\<lparr>cd_counter := counter, cd_lastUsedAt := Some now\<rparr>) (au_credentials t)\<rparr>)"

definition requireLiveCredential :: "uuid \<Rightarrow> int \<Rightarrow> hub \<Rightarrow> auth_error + unit" where
  "requireLiveCredential credentialId newCounter h =
     (case find (\<lambda>c. cd_id c = credentialId) (au_credentials (h_auth h)) of
        None \<Rightarrow> Inl (Auth_Err AU_Webauthn_Invalid)
      | Some row \<Rightarrow>
          require (cd_revokedAt row = None) (Auth_Err AU_Webauthn_Invalid)
          (require (\<not> ((newCounter > 0 \<or> cd_counter row > 0) \<and> newCounter \<le> cd_counter row)) (Auth_Err AU_Webauthn_Invalid)
          (Inr ())))"

text \<open>The credential identifier is unique over all rows, revoked ones included.\<close>

definition insertCredential ::
    "auth_ports \<Rightarrow> uuid \<Rightarrow> string \<Rightarrow> registration_info \<Rightarrow> millis \<Rightarrow> nat \<Rightarrow> credential_row auth_tx" where
  "insertCredential p ownerId label info now n h =
     (let row = \<lparr>cd_id = ap_newId p h, cd_ownerId = ownerId, cd_credentialId = pk_id (ri_credential info), cd_label = label,
                 cd_publicKey = bytesToBase64Url (pk_publicKey (ri_credential info)),
                 cd_counter = pk_counter (ri_credential info), cd_transports = pk_transports (ri_credential info),
                 cd_deviceType = Some (ri_deviceType info), cd_backedUp = ri_backedUp info, cd_lastUsedAt = Some now,
                 cd_createdAt = ap_clock p n, cd_revokedAt = None\<rparr>
      in require (\<not> list_ex (\<lambda>c. cd_credentialId c = cd_credentialId row) (au_credentials (h_auth h))) (Auth_Err AU_Webauthn_Invalid)
         (Inr (row, set_auth (\<lambda>t. t\<lparr>au_credentials := au_credentials t @ [row]\<rparr>) h)))"

section \<open>Contexts\<close>

definition read_control :: "auth_ports \<Rightarrow> control_status auth_run" where
  "read_control p = auth_read p (\<lambda>h. Inr (readStatus (ap_controls p) h))"

definition enrollmentContext ::
    "auth_ports \<Rightarrow> grant_purpose \<Rightarrow> (challenge_purpose \<times> uuid option \<times> uuid \<times> owner_session_kind) auth_run" where
  "enrollmentContext p grantPurpose =
     call (read_control p) (\<lambda>status.
       case serving status of
         None \<Rightarrow> auth_fail AU_Auth_Unavailable
       | Some generation \<Rightarrow>
           call (auth_read p (\<lambda>h. Inr (readOwner h))) (\<lambda>ownerRow.
             case (grantPurpose, ownerRow) of
               (Grant_Bootstrap, Some _) \<Rightarrow> auth_fail AU_Grant_Invalid
             | (Grant_Bootstrap, None) \<Rightarrow> give (First_Enrollment, None, generation, sessionKindFor status)
             | (Grant_Recovery, None) \<Rightarrow> auth_fail AU_Grant_Invalid
             | (Grant_Recovery, Some r) \<Rightarrow>
                 give (Recovery_Enrollment, Some (ow_id r), generation, sessionKindFor status)))"

definition loginContext :: "auth_ports \<Rightarrow> (uuid \<times> uuid \<times> owner_session_kind) auth_run" where
  "loginContext p =
     call (read_control p) (\<lambda>status.
       case serving status of
         None \<Rightarrow> auth_fail AU_Login_Blocked
       | Some generation \<Rightarrow>
           call (auth_read p (\<lambda>h. Inr (readOwner h))) (\<lambda>ownerRow.
             case ownerRow of
               None \<Rightarrow> auth_fail AU_Owner_Missing
             | Some r \<Rightarrow> give (ow_id r, generation, sessionKindFor status)))"

definition controlGeneration :: "auth_ports \<Rightarrow> uuid auth_run" where
  "controlGeneration p =
     call (read_control p) (\<lambda>status.
       case serving status of None \<Rightarrow> auth_fail AU_Auth_Unavailable | Some generation \<Rightarrow> give generation)"

definition ceremony :: "auth_ports \<Rightarrow> credential_row list \<Rightarrow> bytes option \<Rightarrow> ceremony_options auth_run" where
  "ceremony p existing userID =
     auth_ask p (\<lambda>n. Inr \<lparr>co_rpId = af_rpId (ap_config p), co_challenge = ap_newChallenge p n,
       co_credentials = map (\<lambda>c. (cd_credentialId c, cd_transports c)) existing, co_userID = userID\<rparr>)"

definition startAssertionCeremony ::
    "auth_ports \<Rightarrow> challenge_purpose \<Rightarrow> uuid \<Rightarrow> uuid \<Rightarrow> millis \<Rightarrow> ceremony_options auth_run" where
  "startAssertionCeremony p purpose ownerId generation now =
     call (auth_read p (\<lambda>h. Inr (activeCredentials ownerId h))) (\<lambda>existing.
     call (ceremony p existing None) (\<lambda>options.
     call (issueChallenge p purpose (Some ownerId) (co_challenge options) generation (af_challengeTtlMs (ap_config p)) now)
     (\<lambda>_. give options)))"

definition challengeForResponse ::
    "auth_ports \<Rightarrow> ceremony_response \<Rightarrow> challenge_purpose \<Rightarrow> millis \<Rightarrow> challenge_row auth_run" where
  "challengeForResponse p response purpose now =
     call (auth_check (parseClientData p (cp_clientDataJSON response))) (\<lambda>challenge.
       auth_read p (findLiveChallenge challenge purpose now))"

definition verification_request_of :: "auth_ports \<Rightarrow> ceremony_response \<Rightarrow> challenge_row \<Rightarrow> verification_request" where
  "verification_request_of p response r =
     \<lparr>vq_response = response, vq_expectedChallenge = wc_challenge r,
      vq_expectedOrigin = af_origin (ap_config p), vq_expectedRPID = af_rpId (ap_config p)\<rparr>"

text \<open>Registration: an exception and a missing registration info are refused alike.\<close>

definition verify_registration :: "auth_ports \<Rightarrow> ceremony_response \<Rightarrow> challenge_row \<Rightarrow> registration_info auth_run" where
  "verify_registration p response r =
     auth_ask p (\<lambda>_.
       case ap_verifyRegistration p (verification_request_of p response r) of
         None \<Rightarrow> Inl (Auth_Err AU_Webauthn_Invalid)
       | Some None \<Rightarrow> Inl (Auth_Err AU_Webauthn_Invalid)
       | Some (Some info) \<Rightarrow> Inr info)"

definition stored_passkey_of :: "credential_row \<Rightarrow> stored_passkey" where
  "stored_passkey_of c =
     \<lparr>pk_id = cd_credentialId c, pk_publicKey = base64UrlToBytes (cd_publicKey c), pk_counter = cd_counter c,
      pk_transports = cd_transports c\<rparr>"

text \<open>Of what the verification returns only the counter is used.\<close>

definition verifyAssertion ::
    "auth_ports \<Rightarrow> ceremony_response \<Rightarrow> challenge_purpose \<Rightarrow> uuid \<Rightarrow> millis \<Rightarrow>
     (credential_row \<times> challenge_row \<times> int) auth_run" where
  "verifyAssertion p response purpose ownerId now =
     call (challengeForResponse p response purpose now) (\<lambda>challengeRow.
       if wc_ownerId challengeRow \<noteq> Some ownerId then auth_fail AU_Challenge_Invalid
       else
         call (auth_read p (\<lambda>h. Inr (find (\<lambda>c. cd_credentialId c = cp_id response \<and> cd_revokedAt c = None)
                 (au_credentials (h_auth h))))) (\<lambda>found.
           case found of
             None \<Rightarrow> auth_fail AU_Webauthn_Invalid
           | Some credential \<Rightarrow>
               if cd_ownerId credential \<noteq> ownerId then auth_fail AU_Webauthn_Invalid
               else
                 auth_ask p (\<lambda>_.
                   case ap_verifyAuthentication p (verification_request_of p response challengeRow)
                          (stored_passkey_of credential) of
                     None \<Rightarrow> Inl (Auth_Err AU_Webauthn_Invalid)
                   | Some v \<Rightarrow> Inr (credential, challengeRow, av_newCounter v))))"

end
