(* ===== verification/Auth_Operations.thy ===== *)
theory Auth_Operations
  imports Auth_Service
begin

text \<open>
  The operations of \<open>PasskeyAuthService\<close> and the operator commands of \<open>ConsoleAuthService\<close>, each
  with the body of its transaction. A check that precedes an operation is in the order of the code.
\<close>

section \<open>Status and sessions\<close>

definition readAuthStatus :: "auth_ports \<Rightarrow> auth_public_status auth_run" where
  "readAuthStatus p =
     call (auth_read p (\<lambda>h. Inr (readOwner h))) (\<lambda>ownerRow.
     call (read_control p) (\<lambda>status.
       give \<lparr>ps_ownerRegistered = (ownerRow \<noteq> None),
             ps_login =
               (if ownerRow = None then Login_Is_Blocked
                else case status of Ready_State _ \<Rightarrow> Login_Available
                  | Reconciling_State _ \<Rightarrow> Login_Inspection_Only
                  | _ \<Rightarrow> Login_Is_Blocked),
             ps_control = status\<rparr>))"

definition admitted :: "control_status \<Rightarrow> session_row \<Rightarrow> bool" where
  "admitted status row \<longleftrightarrow>
     (case status of
        Ready_State g \<Rightarrow> to_lower (sn_recoveryGeneration row) = g
      | Reconciling_State g \<Rightarrow> to_lower (sn_recoveryGeneration row) = g \<and> sn_kind row = Session_Inspection
      | _ \<Rightarrow> False)"

definition verifySession :: "auth_ports \<Rightarrow> string \<Rightarrow> session_info auth_run" where
  "verifySession p token =
     call (auth_read p (\<lambda>h. Inr (readSessionByToken (hashToken p token) h))) (\<lambda>found.
     auth_now p (\<lambda>now.
       case found of
         None \<Rightarrow> auth_fail AU_Unauthorized
       | Some row \<Rightarrow>
           if sn_revokedAt row \<noteq> None \<or> sn_expiresAt row \<le> now then auth_fail AU_Unauthorized
           else
             call (read_control p) (\<lambda>status.
               if admitted status row then give (session_info_of row) else auth_fail AU_Unauthorized)))"

definition revoke_session_tx :: "auth_ports \<Rightarrow> string \<Rightarrow> nat \<Rightarrow> unit auth_tx" where
  "revoke_session_tx p token n h =
     (let P = (\<lambda>s. sn_tokenHash s = hashToken p token \<and> sn_revokedAt s = None);
          h1 = set_auth (\<lambda>t. t\<lparr>au_sessions := tbl_update P (\<lambda>s. s\<lparr>sn_revokedAt := Some (ap_clock p n)\<rparr>) (au_sessions t)\<rparr>) h
      in Inr ((), case filter P (au_sessions (h_auth h)) of
                    [] \<Rightarrow> h1
                  | s # _ \<Rightarrow> recordAuthEvent ''auth.logout'' [(''sessionId'', JStr (sn_id s))] h1))"

definition revokeSession :: "auth_ports \<Rightarrow> string \<Rightarrow> unit auth_run" where
  "revokeSession p token = auth_write p (revoke_session_tx p token)"

definition requireOwnerId :: "auth_ports \<Rightarrow> session_info \<Rightarrow> uuid auth_run" where
  "requireOwnerId p session =
     auth_read p (\<lambda>h.
       case find (\<lambda>s. sn_id s = si_id session) (au_sessions (h_auth h)) of
         None \<Rightarrow> Inl (Auth_Err AU_Unauthorized)
       | Some s \<Rightarrow> Inr (sn_ownerId s))"

definition requireRecentVerification :: "auth_ports \<Rightarrow> session_info \<Rightarrow> unit auth_run" where
  "requireRecentVerification p session =
     auth_now p (\<lambda>now.
       let age = now - si_verifiedAt session
       in guard_run (0 \<le> age \<and> age \<le> af_recentVerificationMs (ap_config p)) (Auth_Err AU_Verification_Required) (give ()))"

section \<open>Enrollment\<close>

definition startEnrollment :: "auth_ports \<Rightarrow> string \<Rightarrow> ceremony_options auth_run" where
  "startEnrollment p grantToken =
     auth_now p (\<lambda>now.
     call (auth_read p (findLiveGrant (hashToken p grantToken) now)) (\<lambda>grant.
     call (enrollmentContext p (eg_purpose grant)) (\<lambda>(purpose, ownerId, generation, kind).
     call (case ownerId of None \<Rightarrow> give [] | Some i \<Rightarrow> auth_read p (\<lambda>h. Inr (activeCredentials i h))) (\<lambda>existing.
     call (ceremony p existing (map_option uuidToBytes ownerId)) (\<lambda>options.
     call (issueChallenge p purpose ownerId (co_challenge options) generation (af_challengeTtlMs (ap_config p)) now)
     (\<lambda>_. give options))))))"

definition insertOwner :: "auth_ports \<Rightarrow> nat \<Rightarrow> hub \<Rightarrow> hub" where
  "insertOwner p n h =
     (case readOwner h of
        Some _ \<Rightarrow> h
      | None \<Rightarrow> set_auth (\<lambda>t. t\<lparr>au_owner := Some \<lparr>ow_id = ap_newId p h, ow_createdAt = ap_clock p n\<rparr>\<rparr>) h)"

definition current_owner :: "auth_ports \<Rightarrow> nat \<Rightarrow> uuid option \<Rightarrow> hub \<Rightarrow> uuid \<times> hub" where
  "current_owner p n ownerId h =
     (case ownerId of
        Some i \<Rightarrow> (i, h)
      | None \<Rightarrow> (let h1 = insertOwner p n h in (case readOwner h1 of Some r \<Rightarrow> ow_id r | None \<Rightarrow> [], h1)))"

definition enrollment_tx ::
    "auth_ports \<Rightarrow> millis \<Rightarrow> grant_row \<Rightarrow> uuid option \<Rightarrow> uuid \<Rightarrow> owner_session_kind \<Rightarrow> string \<Rightarrow> registration_info \<Rightarrow>
     challenge_row \<Rightarrow> nat \<Rightarrow> opened_session auth_tx" where
  "enrollment_tx p now grant ownerId generation kind label info challengeRow n h =
     (case consumeGrant (ap_clock p n) (eg_id grant) h of
        (live, h1) \<Rightarrow>
          require live (Auth_Err AU_Grant_Invalid)
          (case current_owner p n ownerId h1 of
             (currentOwnerId, h2) \<Rightarrow>
               attempt (insertCredential p currentOwnerId label info now n h2) (\<lambda>(credentialRow, h3).
               case consumeChallenge (ap_clock p n) (wc_id challengeRow) h3 of
                 (open_challenge, h4) \<Rightarrow>
                   require open_challenge (Auth_Err AU_Challenge_Invalid)
                   (attempt (insertSession p currentOwnerId generation kind now (af_sessionTtlMs (ap_config p)) n h4)
                   (\<lambda>(opened, h5).
                     Inr (opened, recordAuthEvent ''auth.enrollment.completed''
                       [(''purpose'', purpose_json (eg_purpose grant)), (''credentialId'', JStr (cd_id credentialRow)),
                        (''label'', JStr label), (''ownerId'', JStr currentOwnerId), (''sessionKind'', kind_json kind)] h5))))))"

definition completeEnrollment ::
    "auth_ports \<Rightarrow> string \<Rightarrow> string \<Rightarrow> ceremony_response \<Rightarrow> opened_session auth_run" where
  "completeEnrollment p grantToken rawLabel response =
     call (auth_check (normalizeLabel rawLabel)) (\<lambda>label.
     auth_now p (\<lambda>now.
     call (auth_read p (findLiveGrant (hashToken p grantToken) now)) (\<lambda>grant.
     call (enrollmentContext p (eg_purpose grant)) (\<lambda>(purpose, ownerId, generation, kind).
     call (challengeForResponse p response purpose now) (\<lambda>challengeRow.
       if to_lower (wc_recoveryGeneration challengeRow) \<noteq> generation then auth_fail AU_Challenge_Invalid
       else if ownerId \<noteq> None \<and> wc_ownerId challengeRow \<noteq> ownerId then auth_fail AU_Challenge_Invalid
       else
         call (verify_registration p response challengeRow) (\<lambda>info.
           auth_write p (enrollment_tx p now grant ownerId generation kind label info challengeRow)))))))"

section \<open>Login and verification refresh\<close>

definition startLogin :: "auth_ports \<Rightarrow> ceremony_options auth_run" where
  "startLogin p =
     call (loginContext p) (\<lambda>(ownerId, generation, _).
     call (auth_read p (\<lambda>h. Inr (activeCredentials ownerId h))) (\<lambda>existing.
       if existing = [] then auth_fail AU_Owner_Missing
       else auth_now p (\<lambda>now. startAssertionCeremony p Login ownerId generation now)))"

definition use_credential :: "uuid \<Rightarrow> uuid \<Rightarrow> int \<Rightarrow> millis \<Rightarrow> millis \<Rightarrow> unit auth_tx" where
  "use_credential challengeId credentialId newCounter now at h =
     (case consumeChallenge at challengeId h of
        (open_challenge, h1) \<Rightarrow>
          require open_challenge (Auth_Err AU_Challenge_Invalid)
          (attempt (requireLiveCredential credentialId newCounter h1) (\<lambda>_.
             Inr ((), updateCredentialAfterUse credentialId newCounter now h1))))"

definition login_tx ::
    "auth_ports \<Rightarrow> millis \<Rightarrow> uuid \<Rightarrow> uuid \<Rightarrow> owner_session_kind \<Rightarrow> credential_row \<Rightarrow> challenge_row \<Rightarrow> int \<Rightarrow> nat \<Rightarrow>
     opened_session auth_tx" where
  "login_tx p now ownerId generation kind credential challengeRow newCounter n h =
     attempt (use_credential (wc_id challengeRow) (cd_id credential) newCounter now (ap_clock p n) h) (\<lambda>(_, h1).
     attempt (insertSession p ownerId generation kind now (af_sessionTtlMs (ap_config p)) n h1) (\<lambda>(opened, h2).
       Inr (opened, recordAuthEvent ''auth.login''
         [(''credentialId'', JStr (cd_id credential)), (''sessionKind'', kind_json kind)] h2)))"

definition completeLogin :: "auth_ports \<Rightarrow> ceremony_response \<Rightarrow> opened_session auth_run" where
  "completeLogin p response =
     auth_now p (\<lambda>now.
     call (loginContext p) (\<lambda>(ownerId, generation, kind).
     call (verifyAssertion p response Login ownerId now) (\<lambda>(credential, challengeRow, newCounter).
       if to_lower (wc_recoveryGeneration challengeRow) \<noteq> generation then auth_fail AU_Challenge_Invalid
       else auth_write p (login_tx p now ownerId generation kind credential challengeRow newCounter))))"

definition startReverification :: "auth_ports \<Rightarrow> string \<Rightarrow> ceremony_options auth_run" where
  "startReverification p token =
     call (verifySession p token) (\<lambda>session.
     auth_now p (\<lambda>now.
     call (requireOwnerId p session) (\<lambda>ownerId.
     call (controlGeneration p) (\<lambda>generation.
       startAssertionCeremony p Reverify ownerId generation now))))"

definition reverify_tx ::
    "auth_ports \<Rightarrow> millis \<Rightarrow> session_info \<Rightarrow> credential_row \<Rightarrow> challenge_row \<Rightarrow> int \<Rightarrow> nat \<Rightarrow> session_info auth_tx" where
  "reverify_tx p now session credential challengeRow newCounter n h =
     attempt (use_credential (wc_id challengeRow) (cd_id credential) newCounter now (ap_clock p n) h) (\<lambda>(_, h1).
       let P = (\<lambda>s. sn_id s = si_id session); verify = (\<lambda>s. s\<lparr>sn_verifiedAt := now\<rparr>)
       in (case tbl_returning P verify (au_sessions (h_auth h1)) of
             [] \<Rightarrow> Inl Auth_Database
           | updated # _ \<Rightarrow>
               Inr (session_info_of updated,
                    recordAuthEvent ''auth.reverified'' [(''credentialId'', JStr (cd_id credential))]
                      (set_auth (\<lambda>t. t\<lparr>au_sessions := tbl_update P verify (au_sessions t)\<rparr>) h1))))"

definition completeReverification :: "auth_ports \<Rightarrow> string \<Rightarrow> ceremony_response \<Rightarrow> session_info auth_run" where
  "completeReverification p token response =
     call (verifySession p token) (\<lambda>session.
     auth_now p (\<lambda>now.
     call (requireOwnerId p session) (\<lambda>ownerId.
     call (controlGeneration p) (\<lambda>generation.
     call (verifyAssertion p response Reverify ownerId now) (\<lambda>(credential, challengeRow, newCounter).
       if to_lower (wc_recoveryGeneration challengeRow) \<noteq> generation then auth_fail AU_Challenge_Invalid
       else auth_write p (reverify_tx p now session credential challengeRow newCounter))))))"

section \<open>Passkeys\<close>

definition listCredentials :: "auth_ports \<Rightarrow> string \<Rightarrow> credential_summary list auth_run" where
  "listCredentials p token =
     call (verifySession p token) (\<lambda>session.
     call (requireOwnerId p session) (\<lambda>ownerId.
     auth_read p (\<lambda>h. Inr (map credential_summary_of (activeCredentials ownerId h)))))"

definition startCredentialEnrollment :: "auth_ports \<Rightarrow> string \<Rightarrow> ceremony_options auth_run" where
  "startCredentialEnrollment p token =
     call (verifySession p token) (\<lambda>session.
     call (requireOwnerId p session) (\<lambda>ownerId.
     call (requireRecentVerification p session) (\<lambda>_.
     call (auth_read p (\<lambda>h. Inr (activeCredentials ownerId h))) (\<lambda>existing.
     call (ceremony p existing (Some (uuidToBytes ownerId))) (\<lambda>options.
     call (controlGeneration p) (\<lambda>generation.
     auth_now p (\<lambda>now.
     call (issueChallenge p Add_Credential (Some ownerId) (co_challenge options) generation (af_challengeTtlMs (ap_config p)) now)
     (\<lambda>_. give options))))))))"

definition add_credential_tx ::
    "auth_ports \<Rightarrow> millis \<Rightarrow> uuid \<Rightarrow> string \<Rightarrow> registration_info \<Rightarrow> challenge_row \<Rightarrow> nat \<Rightarrow> credential_summary auth_tx" where
  "add_credential_tx p now ownerId label info challengeRow n h =
     attempt (lockOwner h) (\<lambda>_.
     case consumeChallenge (ap_clock p n) (wc_id challengeRow) h of
       (open_challenge, h1) \<Rightarrow>
         require open_challenge (Auth_Err AU_Challenge_Invalid)
         (attempt (insertCredential p ownerId label info now n h1) (\<lambda>(credentialRow, h2).
           Inr (credential_summary_of credentialRow, recordAuthEvent ''auth.credential.added''
             [(''credentialId'', JStr (cd_id credentialRow)), (''label'', JStr label)] h2))))"

definition completeCredentialEnrollment ::
    "auth_ports \<Rightarrow> string \<Rightarrow> string \<Rightarrow> ceremony_response \<Rightarrow> credential_summary auth_run" where
  "completeCredentialEnrollment p token label response =
     call (verifySession p token) (\<lambda>session.
     call (auth_check (normalizeLabel label)) (\<lambda>normalized.
     call (requireOwnerId p session) (\<lambda>ownerId.
     call (requireRecentVerification p session) (\<lambda>_.
     auth_now p (\<lambda>now.
     call (controlGeneration p) (\<lambda>generation.
     call (challengeForResponse p response Add_Credential now) (\<lambda>challengeRow.
       if wc_ownerId challengeRow \<noteq> Some ownerId then auth_fail AU_Challenge_Invalid
       else if to_lower (wc_recoveryGeneration challengeRow) \<noteq> generation then auth_fail AU_Challenge_Invalid
       else
         call (verify_registration p response challengeRow) (\<lambda>info.
           auth_write p (add_credential_tx p now ownerId normalized info challengeRow)))))))))"

definition remove_credential_tx :: "auth_ports \<Rightarrow> uuid \<Rightarrow> string \<Rightarrow> nat \<Rightarrow> unit auth_tx" where
  "remove_credential_tx p ownerId credentialId n h =
     attempt (lockOwner h) (\<lambda>_.
     case find (\<lambda>c. cd_id c = pg_uuid credentialId \<and> active_credential ownerId c) (au_credentials (h_auth h)) of
       None \<Rightarrow> Inl (Auth_Err AU_Invalid_Request)
     | Some credential \<Rightarrow>
         (let remaining = length (activeCredentials ownerId h) in
          require (\<not> remaining \<le> 1) (Auth_Err AU_Last_Credential)
          (Inr ((), recordAuthEvent ''auth.credential.removed''
             [(''credentialId'', JStr (cd_id credential)), (''label'', JStr (cd_label credential)),
              (''remaining'', JNum (int remaining - 1))]
             (set_auth (\<lambda>t. t\<lparr>au_credentials := tbl_update (\<lambda>c. cd_id c = cd_id credential)
                (\<lambda>c. c\<lparr>cd_revokedAt := Some (ap_clock p n)\<rparr>) (au_credentials t)\<rparr>) h)))))"

definition removeCredential :: "auth_ports \<Rightarrow> string \<Rightarrow> string \<Rightarrow> unit auth_run" where
  "removeCredential p token credentialId =
     call (verifySession p token) (\<lambda>session.
     call (requireOwnerId p session) (\<lambda>ownerId.
     call (requireRecentVerification p session) (\<lambda>_.
     guard_run (is_uuid credentialId) (Auth_Err AU_Invalid_Request)
     (auth_write p (remove_credential_tx p ownerId credentialId)))))"

section \<open>Operator commands\<close>

record issued_grant =
  ig_id :: uuid
  ig_purpose :: grant_purpose
  ig_token :: string
  ig_expiresAt :: millis

text \<open>Two unique indexes: the token hash, and the purpose of the live grants.\<close>

definition insertGrantRow :: "auth_ports \<Rightarrow> grant_purpose \<Rightarrow> uuid \<Rightarrow> int \<Rightarrow> nat \<Rightarrow> issued_grant auth_tx" where
  "insertGrantRow p purpose generation ttlMs n h =
     (let token = generateToken p n;
          row = \<lparr>eg_id = ap_newId p h, eg_purpose = purpose, eg_tokenHash = hashToken p token,
                 eg_recoveryGeneration = pg_uuid generation, eg_createdAt = ap_clock p n,
                 eg_expiresAt = ap_clock p n + ttlMs, eg_consumedAt = None, eg_revokedAt = None\<rparr>
      in require (\<not> list_ex (\<lambda>g. eg_tokenHash g = eg_tokenHash row) (au_grants (h_auth h))) Auth_Database
         (require (\<not> list_ex (\<lambda>g. eg_purpose g = purpose \<and> live_grant g) (au_grants (h_auth h))) Auth_Database
         (Inr (\<lparr>ig_id = eg_id row, ig_purpose = purpose, ig_token = token, ig_expiresAt = eg_expiresAt row\<rparr>,
               set_auth (\<lambda>t. t\<lparr>au_grants := au_grants t @ [row]\<rparr>) h))))"

definition bootstrap_tx :: "auth_ports \<Rightarrow> uuid \<Rightarrow> int \<Rightarrow> nat \<Rightarrow> issued_grant auth_tx" where
  "bootstrap_tx p generation ttlMs n h =
     require (readOwner h = None) (Auth_Err AU_Owner_Exists)
     (attempt (insertGrantRow p Grant_Bootstrap generation ttlMs n
         (snd (revokeGrantsForPurpose (ap_clock p n) Grant_Bootstrap h))) (\<lambda>(grant, h1).
       Inr (grant, recordAuthEvent ''auth.bootstrap_grant''
         [(''purpose'', purpose_json Grant_Bootstrap), (''grantId'', JStr (ig_id grant)),
          (''expiresAt'', JNum (ig_expiresAt grant)), (''recoveryGeneration'', JStr generation)] h1)))"

definition insertGrant :: "auth_ports \<Rightarrow> int \<Rightarrow> control_status \<Rightarrow> issued_grant auth_run" where
  "insertGrant p grantTtlMs status =
     (case serving status of
        None \<Rightarrow> auth_fail AU_Auth_Unavailable
      | Some generation \<Rightarrow> auth_write p (bootstrap_tx p generation grantTtlMs))"

definition issueBootstrapGrant :: "auth_ports \<Rightarrow> int option \<Rightarrow> issued_grant auth_run" where
  "issueBootstrapGrant p grantTtlMs =
     call (auth_read p (\<lambda>h. Inr (readOwner h))) (\<lambda>ownerRow.
       if ownerRow \<noteq> None then auth_fail AU_Owner_Exists
       else
         call (read_control p) (\<lambda>status.
           case status of
             Uninitialized _ \<Rightarrow>
               call (auth_write p (\<lambda>n h. Inr (initialize (ap_controls p) (ap_clock p n) h))) (\<lambda>outcome.
                 case outcome of
                   Init_Initialized _ \<Rightarrow>
                     call (read_control p) (insertGrant p (or_else grantTtlMs GRANT_TTL_MS))
                 | _ \<Rightarrow> auth_fail AU_Auth_Unavailable)
           | _ \<Rightarrow> insertGrant p (or_else grantTtlMs GRANT_TTL_MS) status))"

definition recovery_grant_tx :: "auth_ports \<Rightarrow> uuid \<Rightarrow> uuid \<Rightarrow> int \<Rightarrow> nat \<Rightarrow> issued_grant auth_tx" where
  "recovery_grant_tx p ownerId deployment ttlMs n h =
     (case revokeAllAuthState (ap_clock p n) h of
        (revoked, h1) \<Rightarrow>
          attempt (insertGrantRow p Grant_Recovery deployment ttlMs n h1) (\<lambda>(grant, h2).
            Inr (grant, recordAuthEvent ''auth.recovery_grant''
              [(''purpose'', purpose_json Grant_Recovery), (''grantId'', JStr (ig_id grant)),
               (''expiresAt'', JNum (ig_expiresAt grant)), (''revokedCredentials'', JNum (rk_credentials revoked)),
               (''revokedSessions'', JNum (rk_sessions revoked)), (''ownerId'', JStr ownerId)] h2)))"

definition issueRecoveryGrant :: "auth_ports \<Rightarrow> int option \<Rightarrow> issued_grant auth_run" where
  "issueRecoveryGrant p grantTtlMs =
     call (auth_read p (\<lambda>h. Inr (readOwner h))) (\<lambda>ownerRow.
       case ownerRow of
         None \<Rightarrow> auth_fail AU_Owner_Missing
       | Some r \<Rightarrow>
           (case rv_deployment (ap_controls p) of
              None \<Rightarrow> auth_fail AU_Auth_Unavailable
            | Some deployment \<Rightarrow>
                auth_write p (recovery_grant_tx p (ow_id r) deployment (or_else grantTtlMs GRANT_TTL_MS))))"

text \<open>The hooks of the recovery commands, at the time of the command.\<close>

definition revoke_restored_auth :: "millis \<Rightarrow> hub \<Rightarrow> hub" where
  "revoke_restored_auth now h =
     (case revokeAllAuthState now h of
        (r, h1) \<Rightarrow> recordAuthEvent ''auth.revoked_on_recovery''
          [(''credentials'', JNum (rk_credentials r)), (''sessions'', JNum (rk_sessions r)),
           (''challenges'', JNum (rk_challenges r)), (''grants'', JNum (rk_grants r))] h1)"

definition createRecoveryHooks :: "millis \<Rightarrow> (hub \<Rightarrow> hub) option \<times> (hub \<Rightarrow> bool) option" where
  "createRecoveryHooks now = (Some (revoke_restored_auth now), Some hasRegisteredOwner)"

end
