(* ===== verification/Auth_Requests.thy ===== *)
theory Auth_Requests
  imports Auth_Operations
begin

text \<open>
  Sequences of requests to the passkey service and of operator commands, and the interface for
  relations between states that every transaction of them follows: then every request follows it,
  whatever the other writers do that follow it too.
\<close>

section \<open>Requests\<close>

datatype auth_request =
    Req_Status
  | Req_Start_Enrollment string
  | Req_Complete_Enrollment string string ceremony_response
  | Req_Start_Login
  | Req_Complete_Login ceremony_response
  | Req_Logout string
  | Req_Verify_Session string
  | Req_Start_Reverification string
  | Req_Complete_Reverification string ceremony_response
  | Req_List_Credentials string
  | Req_Start_Add string
  | Req_Complete_Add string string ceremony_response
  | Req_Remove string string

definition silently :: "'a auth_run \<Rightarrow> unit auth_run" where
  "silently m = contain m (\<lambda>_. give ()) (\<lambda>_. give ())"

text \<open>A route answers the error of a request; nothing else follows from it.\<close>

fun serve :: "auth_ports \<Rightarrow> auth_request \<Rightarrow> unit auth_run" where
  "serve p Req_Status = silently (readAuthStatus p)"
| "serve p (Req_Start_Enrollment token) = silently (startEnrollment p token)"
| "serve p (Req_Complete_Enrollment token label r) = silently (completeEnrollment p token label r)"
| "serve p Req_Start_Login = silently (startLogin p)"
| "serve p (Req_Complete_Login r) = silently (completeLogin p r)"
| "serve p (Req_Logout token) = silently (revokeSession p token)"
| "serve p (Req_Verify_Session token) = silently (verifySession p token)"
| "serve p (Req_Start_Reverification token) = silently (startReverification p token)"
| "serve p (Req_Complete_Reverification token r) = silently (completeReverification p token r)"
| "serve p (Req_List_Credentials token) = silently (listCredentials p token)"
| "serve p (Req_Start_Add token) = silently (startCredentialEnrollment p token)"
| "serve p (Req_Complete_Add token label r) = silently (completeCredentialEnrollment p token label r)"
| "serve p (Req_Remove token i) = silently (removeCredential p token i)"

lemma silently_world: "snd (silently m w) = snd (m w)"
  by (simp add: silently_def contain_def give_def split: prod.split sum.split)

datatype auth_command = Cmd_Bootstrap "int option" | Cmd_Recover "int option"

fun command :: "auth_ports \<Rightarrow> auth_command \<Rightarrow> unit auth_run" where
  "command p (Cmd_Bootstrap ttl) = silently (issueBootstrapGrant p ttl)"
| "command p (Cmd_Recover ttl) = silently (issueRecoveryGrant p ttl)"

definition in_turn :: "('r \<Rightarrow> unit auth_run) \<Rightarrow> 'r list \<Rightarrow> auth_world \<Rightarrow> auth_world" where
  "in_turn f rs w = foldl (\<lambda>v r. snd (f r v)) w rs"

section \<open>Runs that follow a relation\<close>

definition follows :: "(hub \<Rightarrow> hub \<Rightarrow> bool) \<Rightarrow> 'a auth_run \<Rightarrow> bool" where
  "follows R m \<longleftrightarrow> (\<forall>w. R (aw_hub w) (aw_hub (snd (m w))))"

named_theorems follows_rules "one rule per construct of the runs of authentication"

definition tx_follows :: "(hub \<Rightarrow> hub \<Rightarrow> bool) \<Rightarrow> (nat \<Rightarrow> 'a auth_tx) \<Rightarrow> bool" where
  "tx_follows R body \<longleftrightarrow> (\<forall>n h a h'. body n h = Inr (a, h') \<longrightarrow> R h h')"

lemma tx_followsD: "tx_follows R body \<Longrightarrow> body n h = Inr (a, h') \<Longrightarrow> R h h'"
  by (simp add: tx_follows_def)

lemma tx_followsI: "(\<And>n h a h'. body n h = Inr (a, h') \<Longrightarrow> R h h') \<Longrightarrow> tx_follows R body"
  by (simp add: tx_follows_def)

text \<open>The interface: a preorder the other writers follow.\<close>

locale auth_relation =
  fixes p :: auth_ports and R :: "hub \<Rightarrow> hub \<Rightarrow> bool"
  assumes rel_refl: "R h h"
    and rel_trans: "R h1 h2 \<Longrightarrow> R h2 h3 \<Longrightarrow> R h1 h3"
    and others: "R h (ap_env p n h)"
begin

lemma give_follows [follows_rules]: "follows R (give a)"
  by (simp add: follows_def give_def rel_refl)

lemma throw_follows [follows_rules]: "follows R (throw e)" "follows R (auth_fail c)"
  by (simp_all add: follows_def throw_def auth_fail_def rel_refl)

lemma check_follows [follows_rules]: "follows R (auth_check x)"
  by (simp add: follows_def auth_check_def rel_refl)

lemma read_follows [follows_rules]: "follows R (auth_read p q)" "follows R (auth_ask p k)"
  by (simp_all add: follows_def auth_read_def auth_ask_def auth_tick_def others)

lemma control_follows [follows_rules]: "follows R (read_control p)"
  by (simp add: read_control_def read_follows)

lemma write_follows [follows_rules]: "tx_follows R body \<Longrightarrow> follows R (auth_write p body)"
  unfolding follows_def
proof (intro allI)
  fix w
  assume b: "tx_follows R body"
  show "R (aw_hub w) (aw_hub (snd (auth_write p body w)))"
  proof (cases "body (aw_time w) (aw_hub w)")
    case (Inl e)
    then show ?thesis by (simp add: auth_write_def run_tx_def auth_tick_def others)
  next
    case (Inr x)
    then obtain a h where x: "body (aw_time w) (aw_hub w) = Inr (a, h)" by (cases x) auto
    show ?thesis using rel_trans [OF tx_followsD [OF b x] others]
      by (simp add: auth_write_def run_tx_def auth_tick_def x)
  qed
qed

lemma now_follows [follows_rules]: "(\<And>t. follows R (f t)) \<Longrightarrow> follows R (auth_now p f)"
  by (simp add: follows_def auth_now_def)

lemma call_follows [follows_rules]: "follows R m \<Longrightarrow> (\<And>a. follows R (f a)) \<Longrightarrow> follows R (call m f)"
  unfolding follows_def call_def
proof (intro allI)
  fix w
  assume m: "\<forall>w. R (aw_hub w) (aw_hub (snd (m w)))" and f: "\<And>a. \<forall>w. R (aw_hub w) (aw_hub (snd (f a w)))"
  show "R (aw_hub w) (aw_hub (snd (case m w of (Inl e, w') \<Rightarrow> (Inl e, w') | (Inr a, w') \<Rightarrow> f a w')))"
    using m [rule_format, of w] f rel_trans by (auto split: prod.split sum.split)
qed

lemma silently_follows [follows_rules]: "follows R m \<Longrightarrow> follows R (silently m)"
  by (simp add: follows_def silently_world)

lemma guard_follows [follows_rules]: "(b \<Longrightarrow> follows R m) \<Longrightarrow> follows R (guard_run b e m)"
  by (simp add: guard_run_def throw_follows)

lemma if_follows [follows_rules]: "(b \<Longrightarrow> follows R m) \<Longrightarrow> (\<not> b \<Longrightarrow> follows R m') \<Longrightarrow> follows R (if b then m else m')"
  by simp

lemma option_follows [follows_rules]:
  "(x = None \<Longrightarrow> follows R m) \<Longrightarrow> (\<And>a. x = Some a \<Longrightarrow> follows R (f a)) \<Longrightarrow> follows R (case x of None \<Rightarrow> m | Some a \<Rightarrow> f a)"
  by (cases x) simp_all

lemma pair_follows [follows_rules]: "(\<And>a b. x = (a, b) \<Longrightarrow> follows R (f a b)) \<Longrightarrow> follows R (case x of (a, b) \<Rightarrow> f a b)"
  by (cases x) simp

lemma in_turn_follows:
  assumes "\<And>r. r \<in> set rs \<Longrightarrow> follows R (f r)"
  shows "R (aw_hub w) (aw_hub (in_turn f rs w))"
  using assms
proof (induction rs arbitrary: w)
  case Nil
  then show ?case by (simp add: in_turn_def rel_refl)
next
  case (Cons r rs)
  have "R (aw_hub w) (aw_hub (snd (f r w)))" using Cons.prems [of r] by (simp add: follows_def)
  moreover have "R (aw_hub (snd (f r w))) (aw_hub (in_turn f rs (snd (f r w))))" using Cons by simp
  ultimately show ?case using rel_trans by (simp add: in_turn_def)
qed

end

section \<open>The service\<close>

text \<open>What a run yields where it succeeds.\<close>

definition yields :: "('a \<Rightarrow> bool) \<Rightarrow> 'a auth_run \<Rightarrow> bool" where
  "yields P m \<longleftrightarrow> (\<forall>w a w'. m w = (Inr a, w') \<longrightarrow> P a)"

lemma call_yields: "(\<And>a. yields P (f a)) \<Longrightarrow> yields P (call m f)"
  by (auto simp: yields_def call_def split: prod.splits sum.splits)

lemma fail_yields: "yields P (auth_fail c)"
  by (simp add: yields_def auth_fail_def throw_def)

text \<open>A counter the verification of some assertion reported.\<close>

definition reported :: "auth_ports \<Rightarrow> int \<Rightarrow> bool" where
  "reported p k \<longleftrightarrow> (\<exists>request key v. ap_verifyAuthentication p request key = Some v \<and> k = av_newCounter v)"

lemma verifyAssertion_counter: "yields (\<lambda>(_, _, k). reported p k) (verifyAssertion p response purpose ownerId now)"
  unfolding verifyAssertion_def
proof (intro call_yields, goal_cases)
  case (1 r)
  have "yields (\<lambda>(_, _, k). reported p k) (auth_ask p (\<lambda>_. case ap_verifyAuthentication p (verification_request_of p response r) (stored_passkey_of c) of
      None \<Rightarrow> Inl (Auth_Err AU_Webauthn_Invalid) | Some v \<Rightarrow> Inr (c, r, av_newCounter v)))" for c
    by (auto simp: yields_def auth_ask_def reported_def split: option.splits)
  then show ?case by (auto intro!: call_yields fail_yields split: option.split)
qed

text \<open>The statements and transactions of the service follow the relation; so does every request.\<close>

locale auth_service_relation = auth_relation +
  assumes clean_challenges: "R h (set_auth (\<lambda>t. t\<lparr>au_challenges := filter (\<lambda>r. \<not> wc_expiresAt r < now) (au_challenges t)\<rparr>) h)"
    and new_challenge: "wc_id row = ap_newId p h \<Longrightarrow> R h (set_auth (\<lambda>t. t\<lparr>au_challenges := au_challenges t @ [row]\<rparr>) h)"
    and logout: "tx_follows R (revoke_session_tx p token)"
    and enrollment: "tx_follows R (enrollment_tx p now grant ownerId generation kind label info challengeRow)"
    and login: "reported p k \<Longrightarrow> tx_follows R (login_tx p now i generation kind credential challengeRow k)"
    and reverify: "reported p k \<Longrightarrow> tx_follows R (reverify_tx p now session credential challengeRow k)"
    and add_credential: "tx_follows R (add_credential_tx p now i label info challengeRow)"
    and remove_credential: "tx_follows R (remove_credential_tx p i credentialId)"
begin

lemma result_follows:
  assumes "yields P m" and "follows R m" and "\<And>a. P a \<Longrightarrow> follows R (f a)"
  shows "follows R (call m f)"
  unfolding follows_def call_def
proof (intro allI)
  fix w
  show "R (aw_hub w) (aw_hub (snd (case m w of (Inl e, w') \<Rightarrow> (Inl e, w') | (Inr a, w') \<Rightarrow> f a w')))"
  proof (cases "m w")
    case (Pair x w')
    have step: "R (aw_hub w) (aw_hub w')" using assms(2) Pair unfolding follows_def by (metis snd_conv)
    show ?thesis
    proof (cases x)
      case (Inr a)
      have "P a" using assms(1) Pair Inr unfolding yields_def by blast
      then have "follows R (f a)" by (rule assms(3))
      then show ?thesis using rel_trans [OF step] by (simp add: Pair Inr follows_def)
    qed (simp add: Pair step)
  qed
qed

lemma issue_follows [follows_rules]: "follows R (issueChallenge p purpose i challenge generation ttl now)"
  unfolding issueChallenge_def
  by (intro call_follows write_follows tx_followsI read_follows if_follows throw_follows)
    (auto simp: Let_def clean_challenges new_challenge)

lemma context_follows [follows_rules]:
  "follows R (enrollmentContext p granted)" "follows R (loginContext p)" "follows R (controlGeneration p)"
  "follows R (challengeForResponse p response purpose now)" "follows R (ceremony p existing userID)"
  "follows R (verify_registration p response r)"
proof -
  show "follows R (enrollmentContext p granted)"
    unfolding enrollmentContext_def
    by (intro follows_rules) (auto intro!: follows_rules split: grant_purpose.split option.split)
qed (unfold loginContext_def controlGeneration_def challengeForResponse_def ceremony_def verify_registration_def, (intro follows_rules)+)

lemma assertion_follows [follows_rules]:
  "follows R (startAssertionCeremony p purpose i generation now)" "follows R (verifyAssertion p response purpose i now)"
  unfolding startAssertionCeremony_def verifyAssertion_def by (intro follows_rules)+

lemma session_follows [follows_rules]:
  "follows R (verifySession p token)" "follows R (requireOwnerId p s)" "follows R (requireRecentVerification p s)"
  unfolding verifySession_def requireOwnerId_def requireRecentVerification_def Let_def by (intro follows_rules)+

lemma start_follows:
  "follows R (startEnrollment p token)" "follows R (startLogin p)" "follows R (startReverification p token)"
  "follows R (startCredentialEnrollment p token)" "follows R (listCredentials p token)" "follows R (readAuthStatus p)"
  unfolding startEnrollment_def startLogin_def startReverification_def startCredentialEnrollment_def listCredentials_def
    readAuthStatus_def
  by (intro follows_rules)+

lemma complete_follows:
  "follows R (completeEnrollment p token label response)" "follows R (completeCredentialEnrollment p token label response)"
  "follows R (removeCredential p token i)" "follows R (revokeSession p token)"
  unfolding completeEnrollment_def completeCredentialEnrollment_def removeCredential_def revokeSession_def
  by (intro follows_rules enrollment add_credential remove_credential logout)+

lemma assertion_completes_follow:
  "follows R (completeLogin p response)" "follows R (completeReverification p token response)"
proof -
  note verified = result_follows [OF verifyAssertion_counter assertion_follows(2)]
  show "follows R (completeLogin p response)"
    unfolding completeLogin_def
    by (intro follows_rules verified) (auto intro!: follows_rules login)
  show "follows R (completeReverification p token response)"
    unfolding completeReverification_def
    by (intro follows_rules verified) (auto intro!: follows_rules reverify)
qed

lemma serve_follows: "follows R (serve p r)"
  by (cases r) (simp_all add: silently_follows start_follows complete_follows assertion_completes_follow session_follows)

end

section \<open>The operator\<close>

locale auth_console_relation = auth_service_relation +
  assumes initializing: "R h (snd (initialize (ap_controls p) now h))"
    and bootstrap: "tx_follows R (bootstrap_tx p generation ttl)"
    and recovery: "tx_follows R (recovery_grant_tx p i generation ttl)"
begin

lemma insertGrant_follows: "follows R (insertGrant p ttl status)"
  unfolding insertGrant_def by (intro follows_rules bootstrap)

lemma command_follows: "follows R (command p c)"
proof (cases c)
  case (Cmd_Bootstrap ttl)
  have "tx_follows R (\<lambda>n h. Inr (initialize (ap_controls p) (ap_clock p n) h))"
    by (rule tx_followsI) (metis initializing snd_conv sum.inject(2))
  then have "follows R (issueBootstrapGrant p ttl)"
    unfolding issueBootstrapGrant_def
    by (intro follows_rules) (auto intro!: follows_rules insertGrant_follows split: control_status.split initialize_outcome.split)
  then show ?thesis by (simp add: Cmd_Bootstrap silently_follows)
next
  case (Cmd_Recover ttl)
  have "follows R (issueRecoveryGrant p ttl)"
    unfolding issueRecoveryGrant_def by (intro follows_rules recovery)
  then show ?thesis by (simp add: Cmd_Recover silently_follows)
qed

end

end
