(* ===== verification/Auth_Moves.thy ===== *)
theory Auth_Moves
  imports Auth_Requests
begin

text \<open>
  What authentication never takes back: the owner, the identity of passkeys, sessions and grants, the
  counter of a passkey, every revocation and every consumption. The relation is proved of each
  transaction once and interpreted as an instance of the interface of requests.
\<close>

section \<open>Rows kept by key\<close>

definition rows_kept :: "('r \<Rightarrow> 'k) \<Rightarrow> ('r \<Rightarrow> 'r \<Rightarrow> bool) \<Rightarrow> 'r list \<Rightarrow> 'r list \<Rightarrow> bool" where
  "rows_kept k K t t' \<longleftrightarrow>
     (\<forall>i r. find (\<lambda>x. k x = i) t = Some r \<longrightarrow> (\<exists>r'. find (\<lambda>x. k x = i) t' = Some r' \<and> K r r'))"

lemma rows_kept_refl: "(\<And>r. K r r) \<Longrightarrow> rows_kept k K t t"
  by (auto simp: rows_kept_def)

lemma rows_kept_trans:
  assumes "\<And>r1 r2 r3. K r1 r2 \<Longrightarrow> K r2 r3 \<Longrightarrow> K r1 r3" and "rows_kept k K t1 t2" and "rows_kept k K t2 t3"
  shows "rows_kept k K t1 t3"
  using assms unfolding rows_kept_def by meson

lemma find_append: "find P (xs @ ys) = (case find P xs of None \<Rightarrow> find P ys | Some x \<Rightarrow> Some x)"
  by (induction xs) auto

lemma rows_kept_append: "(\<And>r. K r r) \<Longrightarrow> rows_kept k K t (t @ xs)"
  by (auto simp: rows_kept_def find_append)

lemma rows_kept_update:
  assumes "\<And>r. K r r" and "\<And>r. P r \<Longrightarrow> k (f r) = k r"
    and "\<And>r. find (\<lambda>x. k x = k r) t = Some r \<Longrightarrow> P r \<Longrightarrow> K r (f r)"
  shows "rows_kept k K t (tbl_update P f t)"
  unfolding rows_kept_def
proof (intro allI impI)
  fix i r
  assume r: "find (\<lambda>x. k x = i) t = Some r"
  then have i: "k r = i" by (auto simp: find_Some_iff)
  have "find (\<lambda>x. k x = i) (tbl_update P f t) = map_option (\<lambda>r. if P r then f r else r) (find (\<lambda>x. k x = i) t)"
    by (rule find_tbl_update_frame) (simp add: assms(2))
  then show "\<exists>r'. find (\<lambda>x. k x = i) (tbl_update P f t) = Some r' \<and> K r r'"
    using r i assms(1,3) by auto
qed

section \<open>The relation\<close>

definition credential_moves :: "credential_row \<Rightarrow> credential_row \<Rightarrow> bool" where
  "credential_moves c c' \<longleftrightarrow>
     cd_ownerId c' = cd_ownerId c \<and> cd_credentialId c' = cd_credentialId c \<and> cd_publicKey c' = cd_publicKey c \<and>
     cd_label c' = cd_label c \<and> cd_counter c \<le> cd_counter c' \<and> (cd_revokedAt c \<noteq> None \<longrightarrow> cd_revokedAt c' \<noteq> None)"

definition session_moves :: "session_row \<Rightarrow> session_row \<Rightarrow> bool" where
  "session_moves s s' \<longleftrightarrow>
     sn_ownerId s' = sn_ownerId s \<and> sn_tokenHash s' = sn_tokenHash s \<and> sn_recoveryGeneration s' = sn_recoveryGeneration s \<and>
     sn_kind s' = sn_kind s \<and> sn_expiresAt s' = sn_expiresAt s \<and> (sn_revokedAt s \<noteq> None \<longrightarrow> sn_revokedAt s' \<noteq> None)"

definition grant_moves :: "grant_row \<Rightarrow> grant_row \<Rightarrow> bool" where
  "grant_moves g g' \<longleftrightarrow>
     eg_purpose g' = eg_purpose g \<and> eg_tokenHash g' = eg_tokenHash g \<and> eg_expiresAt g' = eg_expiresAt g \<and>
     (live_grant g' \<longrightarrow> live_grant g)"

definition open_challenge :: "uuid \<Rightarrow> hub \<Rightarrow> bool" where
  "open_challenge i h \<longleftrightarrow> (\<exists>r \<in> set (au_challenges (h_auth h)). wc_id r = i \<and> live_challenge r)"

definition auth_moves :: "uuid set \<Rightarrow> hub \<Rightarrow> hub \<Rightarrow> bool" where
  "auth_moves I h h' \<longleftrightarrow>
     (readOwner h \<noteq> None \<longrightarrow> readOwner h' = readOwner h) \<and>
     rows_kept cd_id credential_moves (au_credentials (h_auth h)) (au_credentials (h_auth h')) \<and>
     rows_kept sn_id session_moves (au_sessions (h_auth h)) (au_sessions (h_auth h')) \<and>
     rows_kept eg_id grant_moves (au_grants (h_auth h)) (au_grants (h_auth h')) \<and>
     (\<forall>i \<in> I. open_challenge i h' \<longrightarrow> open_challenge i h)"

lemma auth_moves_refl: "auth_moves I h h"
  by (simp add: auth_moves_def rows_kept_refl credential_moves_def session_moves_def grant_moves_def)

lemma auth_moves_trans:
  assumes "auth_moves I h1 h2" and "auth_moves I h2 h3"
  shows "auth_moves I h1 h3"
proof -
  have "rows_kept cd_id credential_moves (au_credentials (h_auth h1)) (au_credentials (h_auth h3))"
    by (rule rows_kept_trans [of _ _ _ "au_credentials (h_auth h2)"]) (use assms in \<open>auto simp: auth_moves_def credential_moves_def\<close>)
  moreover have "rows_kept sn_id session_moves (au_sessions (h_auth h1)) (au_sessions (h_auth h3))"
    by (rule rows_kept_trans [of _ _ _ "au_sessions (h_auth h2)"]) (use assms in \<open>auto simp: auth_moves_def session_moves_def\<close>)
  moreover have "rows_kept eg_id grant_moves (au_grants (h_auth h1)) (au_grants (h_auth h3))"
    by (rule rows_kept_trans [of _ _ _ "au_grants (h_auth h2)"]) (use assms in \<open>auto simp: auth_moves_def grant_moves_def\<close>)
  ultimately show ?thesis using assms unfolding auth_moves_def by auto
qed

text \<open>A statement changes one table.\<close>

lemma set_auth_simps [simp]: "h_auth (set_auth f h) = f (h_auth h)" "readOwner (set_auth f h) = au_owner (f (h_auth h))"
  by (simp_all add: set_auth_def readOwner_def)

lemma auth_moves_same: "h_auth h' = h_auth h \<Longrightarrow> auth_moves I h h'"
  by (simp add: auth_moves_def readOwner_def open_challenge_def rows_kept_refl credential_moves_def session_moves_def grant_moves_def)

lemma moves_event: "auth_moves I h (recordAuthEvent type payload h)"
  by (rule auth_moves_same) (simp add: recordAuthEvent_def)

lemma moves_then_event: "auth_moves I h h' \<Longrightarrow> auth_moves I h (recordAuthEvent type payload h')"
  by (rule auth_moves_trans [OF _ moves_event])

lemma moves_credentials:
  "rows_kept cd_id credential_moves (au_credentials (h_auth h)) (f (au_credentials (h_auth h))) \<Longrightarrow>
   auth_moves I h (set_auth (\<lambda>t. t\<lparr>au_credentials := f (au_credentials t)\<rparr>) h)"
  by (simp add: auth_moves_def readOwner_def open_challenge_def rows_kept_refl session_moves_def grant_moves_def)

lemma moves_sessions:
  "rows_kept sn_id session_moves (au_sessions (h_auth h)) (f (au_sessions (h_auth h))) \<Longrightarrow>
   auth_moves I h (set_auth (\<lambda>t. t\<lparr>au_sessions := f (au_sessions t)\<rparr>) h)"
  by (simp add: auth_moves_def readOwner_def open_challenge_def rows_kept_refl credential_moves_def grant_moves_def)

lemma moves_grants:
  "rows_kept eg_id grant_moves (au_grants (h_auth h)) (f (au_grants (h_auth h))) \<Longrightarrow>
   auth_moves I h (set_auth (\<lambda>t. t\<lparr>au_grants := f (au_grants t)\<rparr>) h)"
  by (simp add: auth_moves_def readOwner_def open_challenge_def rows_kept_refl credential_moves_def session_moves_def)

lemma moves_challenges:
  "(\<And>i. i \<in> I \<Longrightarrow> \<exists>r \<in> set (f (au_challenges (h_auth h))). wc_id r = i \<and> live_challenge r \<Longrightarrow> open_challenge i h) \<Longrightarrow>
   auth_moves I h (set_auth (\<lambda>t. t\<lparr>au_challenges := f (au_challenges t)\<rparr>) h)"
  by (simp add: auth_moves_def readOwner_def open_challenge_def rows_kept_refl credential_moves_def session_moves_def grant_moves_def)

lemma moves_owner: "readOwner h = None \<Longrightarrow> auth_moves I h (set_auth (\<lambda>t. t\<lparr>au_owner := x\<rparr>) h)"
  by (simp add: auth_moves_def readOwner_def open_challenge_def rows_kept_refl credential_moves_def session_moves_def grant_moves_def)

section \<open>The statements\<close>

lemma moves_consumeChallenge: "consumeChallenge at i h = (b, h') \<Longrightarrow> auth_moves I h h'"
  by (auto simp: consumeChallenge_def Let_def open_challenge_def in_tbl_update live_challenge_def intro!: moves_challenges split: if_splits)

lemma moves_consumeGrant: "consumeGrant at i h = (b, h') \<Longrightarrow> auth_moves I h h'"
  by (auto simp: consumeGrant_def Let_def grant_moves_def live_grant_def intro!: moves_grants rows_kept_update)

lemma moves_revokeGrants: "auth_moves I h (snd (revokeGrantsForPurpose at purpose h))"
  by (auto simp: revokeGrantsForPurpose_def Let_def grant_moves_def live_grant_def intro!: moves_grants rows_kept_update)

lemma moves_insertCredential: "insertCredential p ownerId label info now n h = Inr (r, h') \<Longrightarrow> auth_moves I h h'"
  by (auto simp: insertCredential_def Let_def credential_moves_def tx_simps intro!: moves_credentials rows_kept_append)

lemma moves_insertSession: "insertSession p ownerId generation kind now ttl n h = Inr (r, h') \<Longrightarrow> auth_moves I h h'"
  by (auto simp: insertSession_def Let_def session_moves_def tx_simps intro!: moves_sessions rows_kept_append)

lemma moves_insertGrantRow: "insertGrantRow p purpose generation ttl n h = Inr (r, h') \<Longrightarrow> auth_moves I h h'"
  by (auto simp: insertGrantRow_def Let_def grant_moves_def tx_simps intro!: moves_grants rows_kept_append)

lemma moves_insertOwner: "auth_moves I h (insertOwner p n h)"
  by (auto simp: insertOwner_def auth_moves_refl intro!: moves_owner split: option.split)

lemma moves_current_owner: "current_owner p n ownerId h = (i, h') \<Longrightarrow> auth_moves I h h'"
  by (auto simp: current_owner_def Let_def auth_moves_refl moves_insertOwner split: option.splits)

lemma moves_use_credential:
  assumes "use_credential challengeId i k now at h = Inr (u, h')" and "0 \<le> k"
  shows "auth_moves I h h'"
proof -
  obtain h1 where h1: "consumeChallenge at challengeId h = (True, h1)" "requireLiveCredential i k h1 = Inr ()"
    and h': "h' = updateCredentialAfterUse i k now h1"
    using assms(1) by (auto simp: use_credential_def tx_simps split: prod.splits)
  have "auth_moves I h1 h'"
    unfolding h' updateCredentialAfterUse_def
  proof (rule moves_credentials, rule rows_kept_update)
    fix r
    assume "find (\<lambda>x. cd_id x = cd_id r) (au_credentials (h_auth h1)) = Some r" and "cd_id r = i"
    then show "credential_moves r (r\<lparr>cd_counter := k, cd_lastUsedAt := Some now\<rparr>)"
      using h1(2) assms(2) by (auto simp: credential_moves_def requireLiveCredential_def tx_simps)
  qed (simp_all add: credential_moves_def)
  then show ?thesis using auth_moves_trans moves_consumeChallenge [OF h1(1)] by blast
qed

lemma moves_revokeAll: "auth_moves I h (set_auth (revoke_tables now) h)"
proof -
  have "revoke_tables now t = revoke_tables now t\<lparr>au_owner := au_owner t\<rparr>" for t by (simp add: revoke_tables_def)
  then show ?thesis
    by (auto simp: auth_moves_def revoke_tables_def readOwner_def open_challenge_def in_tbl_update live_challenge_def credential_moves_def
        session_moves_def grant_moves_def live_grant_def intro!: rows_kept_update split: if_splits)
qed

lemmas moves_statements =
  moves_consumeChallenge moves_consumeGrant moves_insertCredential moves_insertSession moves_insertGrantRow
  moves_current_owner

section \<open>The transactions\<close>

text \<open>Two and more moves in a row.\<close>

lemma moves_two: "auth_moves I h h1 \<Longrightarrow> auth_moves I h1 h' \<Longrightarrow> auth_moves I h h'"
  by (rule auth_moves_trans)

lemma pair_eq_Inr: "(case x of (a, b) \<Rightarrow> f a b) = Inr y \<longleftrightarrow> (\<exists>a b. x = (a, b) \<and> f a b = Inr y)"
  by (cases x) simp

lemma moves_enrollment:
  assumes "enrollment_tx p now grant ownerId generation kind label info r n h = Inr (a, h')"
  shows "auth_moves I h h'"
proof -
  obtain h1 i h2 c h3 h4 h5 opened payload where steps:
    "consumeGrant (ap_clock p n) (eg_id grant) h = (True, h1)" "current_owner p n ownerId h1 = (i, h2)"
    "insertCredential p i label info now n h2 = Inr (c, h3)" "consumeChallenge (ap_clock p n) (wc_id r) h3 = (True, h4)"
    "insertSession p i generation kind now (af_sessionTtlMs (ap_config p)) n h4 = Inr (opened, h5)"
    and h': "h' = recordAuthEvent ''auth.enrollment.completed'' payload h5"
    using assms by (auto simp: enrollment_tx_def tx_simps pair_eq_Inr)
  note m = moves_consumeGrant [OF steps(1)] moves_current_owner [OF steps(2)] moves_insertCredential [OF steps(3)]
    moves_consumeChallenge [OF steps(4)] moves_insertSession [OF steps(5)]
  show ?thesis
    unfolding h' by (rule moves_then_event [OF moves_two [OF m(1) moves_two [OF m(2) moves_two [OF m(3) moves_two [OF m(4) m(5)]]]]])
qed

lemma moves_login:
  assumes "login_tx p now i generation kind credential r k n h = Inr (a, h')" and "0 \<le> k"
  shows "auth_moves I h h'"
proof -
  obtain h1 h2 opened payload where "use_credential (wc_id r) (cd_id credential) k now (ap_clock p n) h = Inr ((), h1)"
    "insertSession p i generation kind now (af_sessionTtlMs (ap_config p)) n h1 = Inr (opened, h2)"
    "h' = recordAuthEvent ''auth.login'' payload h2"
    using assms(1) by (auto simp: login_tx_def tx_simps)
  then show ?thesis using assms(2) by (blast intro: moves_then_event moves_two moves_statements moves_use_credential)
qed

lemma moves_reverify:
  assumes "reverify_tx p now session credential r k n h = Inr (a, h')" and "0 \<le> k"
  shows "auth_moves I h h'"
proof -
  from assms(1) obtain h1 where h1: "use_credential (wc_id r) (cd_id credential) k now (ap_clock p n) h = Inr ((), h1)"
    by (auto simp: reverify_tx_def tx_simps)
  have h': "h' = recordAuthEvent ''auth.reverified'' [(''credentialId'', JStr (cd_id credential))] (set_auth (\<lambda>t. t\<lparr>au_sessions :=
      tbl_update (\<lambda>s. sn_id s = si_id session) (\<lambda>s. s\<lparr>sn_verifiedAt := now\<rparr>) (au_sessions t)\<rparr>) h1)"
    using assms(1) h1
    by (cases "tbl_returning (\<lambda>s. sn_id s = si_id session) (\<lambda>s. s\<lparr>sn_verifiedAt := now\<rparr>) (au_sessions (h_auth h1))")
      (auto simp: reverify_tx_def Let_def)
  have "auth_moves I h1 (set_auth (\<lambda>t. t\<lparr>au_sessions :=
      tbl_update (\<lambda>s. sn_id s = si_id session) (\<lambda>s. s\<lparr>sn_verifiedAt := now\<rparr>) (au_sessions t)\<rparr>) h1)"
    by (rule moves_sessions, rule rows_kept_update) (simp_all add: session_moves_def)
  then show ?thesis unfolding h' using h1 assms(2) by (blast intro: moves_then_event moves_two moves_use_credential)
qed

lemma moves_add_credential:
  assumes "add_credential_tx p now i label info r n h = Inr (a, h')"
  shows "auth_moves I h h'"
proof -
  obtain h1 c h2 payload where "consumeChallenge (ap_clock p n) (wc_id r) h = (True, h1)"
    "insertCredential p i label info now n h1 = Inr (c, h2)" "h' = recordAuthEvent ''auth.credential.added'' payload h2"
    using assms by (auto simp: add_credential_tx_def tx_simps pair_eq_Inr)
  then show ?thesis by (blast intro: moves_then_event moves_two moves_statements)
qed

lemma moves_remove_credential:
  assumes "remove_credential_tx p i credentialId n h = Inr (a, h')"
  shows "auth_moves I h h'"
proof -
  obtain c where c: "find (\<lambda>c. cd_id c = pg_uuid credentialId \<and> active_credential i c) (au_credentials (h_auth h)) = Some c"
    using assms by (cases "find (\<lambda>c. cd_id c = pg_uuid credentialId \<and> active_credential i c) (au_credentials (h_auth h))")
      (auto simp: remove_credential_tx_def tx_simps)
  then obtain payload where h': "h' = recordAuthEvent ''auth.credential.removed'' payload (set_auth (\<lambda>t. t\<lparr>au_credentials :=
      tbl_update (\<lambda>x. cd_id x = cd_id c) (\<lambda>x. x\<lparr>cd_revokedAt := Some (ap_clock p n)\<rparr>) (au_credentials t)\<rparr>) h)"
    using assms by (auto simp: remove_credential_tx_def tx_simps Let_def)
  show ?thesis
    unfolding h' by (rule moves_then_event, rule moves_credentials, rule rows_kept_update) (simp_all add: credential_moves_def)
qed

lemma moves_revoke_session:
  assumes "revoke_session_tx p token n h = Inr (a, h')"
  shows "auth_moves I h h'"
proof -
  let ?P = "\<lambda>s. sn_tokenHash s = hashToken p token \<and> sn_revokedAt s = None"
  let ?h = "set_auth (\<lambda>t. t\<lparr>au_sessions := tbl_update ?P (\<lambda>s. s\<lparr>sn_revokedAt := Some (ap_clock p n)\<rparr>) (au_sessions t)\<rparr>) h"
  have "auth_moves I h ?h" by (rule moves_sessions, rule rows_kept_update) (auto simp: session_moves_def)
  moreover have "h' = ?h \<or> (\<exists>payload. h' = recordAuthEvent ''auth.logout'' payload ?h)"
    using assms by (auto simp: revoke_session_tx_def Let_def split: list.splits)
  ultimately show ?thesis by (blast intro: moves_then_event)
qed

lemma moves_bootstrap:
  assumes "bootstrap_tx p generation ttl n h = Inr (a, h')"
  shows "auth_moves I h h'"
proof -
  obtain h1 payload where "insertGrantRow p Grant_Bootstrap generation ttl n (snd (revokeGrantsForPurpose (ap_clock p n) Grant_Bootstrap h)) = Inr (a, h1)"
    "h' = recordAuthEvent ''auth.bootstrap_grant'' payload h1"
    using assms by (auto simp: bootstrap_tx_def tx_simps)
  then show ?thesis by (blast intro: moves_then_event moves_two moves_statements moves_revokeGrants)
qed

lemma moves_recovery:
  assumes "recovery_grant_tx p i generation ttl n h = Inr (a, h')"
  shows "auth_moves I h h'"
proof -
  obtain h1 payload where "insertGrantRow p Grant_Recovery generation ttl n (set_auth (revoke_tables (ap_clock p n)) h) = Inr (a, h1)"
    "h' = recordAuthEvent ''auth.recovery_grant'' payload h1"
    using assms by (auto simp: recovery_grant_tx_def revokeAllAuthState_def tx_simps Let_def)
  then show ?thesis by (blast intro: moves_then_event moves_two moves_statements moves_revokeAll)
qed

lemma moves_initialize: "auth_moves I h (snd (initialize rv now h))"
  by (rule auth_moves_same) (simp add: initialize_def Let_def split: option.split)

end
