(* ===== verification/Auth_Passkeys.thy ===== *)
theory Auth_Passkeys
  imports Auth_Moves
begin

text \<open>
  The owner keeps a passkey: no request removes the last one. With the two interpretations of the
  request interface, on the moves and on this invariant.
\<close>

section \<open>A passkey remains\<close>

definition has_passkey :: "hub \<Rightarrow> bool" where
  "has_passkey h \<longleftrightarrow> distinct (map cd_id (au_credentials (h_auth h))) \<and>
     (\<exists>r c. readOwner h = Some r \<and> c \<in> set (au_credentials (h_auth h)) \<and> active_credential (ow_id r) c)"

definition new_ids_fresh :: "auth_ports \<Rightarrow> bool" where
  "new_ids_fresh p \<longleftrightarrow> (\<forall>h. ap_newId p h \<notin> cd_id ` set (au_credentials (h_auth h)))"

definition keeps_passkey :: "auth_ports \<Rightarrow> hub \<Rightarrow> hub \<Rightarrow> bool" where
  "keeps_passkey p h h' \<longleftrightarrow> (new_ids_fresh p \<and> has_passkey h \<longrightarrow> has_passkey h')"

lemma keeps_frame:
  "au_credentials (h_auth h') = au_credentials (h_auth h) \<Longrightarrow> readOwner h' = readOwner h \<Longrightarrow> keeps_passkey p h h'"
  by (simp add: keeps_passkey_def has_passkey_def)

lemma keeps_two: "keeps_passkey p h h1 \<Longrightarrow> keeps_passkey p h1 h2 \<Longrightarrow> keeps_passkey p h h2"
  by (simp add: keeps_passkey_def)

lemma event_auth [simp]: "h_auth (recordAuthEvent type payload h) = h_auth h" "readOwner (recordAuthEvent type payload h) = readOwner h"
  by (simp_all add: recordAuthEvent_def readOwner_def)

lemma keeps_consumeChallenge: "consumeChallenge at i h = (b, h') \<Longrightarrow> keeps_passkey p h h'"
  by (rule keeps_frame) (auto simp: consumeChallenge_def Let_def readOwner_def)

lemma keeps_consumeGrant: "consumeGrant at i h = (b, h') \<Longrightarrow> keeps_passkey p h h'"
  by (rule keeps_frame) (auto simp: consumeGrant_def Let_def readOwner_def)

lemma keeps_insertSession: "insertSession q ownerId generation kind now ttl n h = Inr (r, h') \<Longrightarrow> keeps_passkey p h h'"
  by (rule keeps_frame) (auto simp: insertSession_def Let_def tx_simps readOwner_def)

lemma keeps_insertCredential: "insertCredential p ownerId label info now n h = Inr (r, h') \<Longrightarrow> keeps_passkey p h h'"
  by (auto simp: insertCredential_def Let_def tx_simps keeps_passkey_def has_passkey_def new_ids_fresh_def readOwner_def)

lemma keeps_current_owner: "current_owner q n ownerId h = (i, h') \<Longrightarrow> keeps_passkey p h h'"
  by (auto simp: current_owner_def insertOwner_def Let_def keeps_passkey_def has_passkey_def split: option.splits)

lemma keeps_use_credential:
  assumes "use_credential challengeId i k now at h = Inr (u, h')"
  shows "keeps_passkey p h h'"
proof -
  obtain h1 where h1: "consumeChallenge at challengeId h = (True, h1)" and h': "h' = updateCredentialAfterUse i k now h1"
    using assms by (auto simp: use_credential_def tx_simps split: prod.splits)
  have "keeps_passkey p h1 h'"
    unfolding keeps_passkey_def
  proof
    assume "new_ids_fresh p \<and> has_passkey h1"
    then obtain r c where rc: "readOwner h1 = Some r" "c \<in> set (au_credentials (h_auth h1))" "active_credential (ow_id r) c"
      and d: "distinct (map cd_id (au_credentials (h_auth h1)))" by (auto simp: has_passkey_def)
    let ?f = "\<lambda>c. c\<lparr>cd_counter := k, cd_lastUsedAt := Some now\<rparr>"
    have "(if cd_id c = i then ?f c else c) \<in> set (au_credentials (h_auth h'))"
      using rc(2) by (auto simp: h' updateCredentialAfterUse_def in_tbl_update)
    moreover have "active_credential (ow_id r) (if cd_id c = i then ?f c else c)" using rc(3) by (simp add: active_credential_def)
    moreover have "readOwner h' = Some r" using rc(1) by (simp add: h' updateCredentialAfterUse_def readOwner_def)
    moreover have "map cd_id (au_credentials (h_auth h')) = map cd_id (au_credentials (h_auth h1))"
      by (simp add: h' updateCredentialAfterUse_def map_tbl_update_frame)
    ultimately show "has_passkey h'" using d unfolding has_passkey_def by metis
  qed
  with keeps_consumeChallenge [OF h1] show ?thesis by (rule keeps_two)
qed

text \<open>Two active passkeys of one owner: one is not the one removed.\<close>

lemma another_active:
  assumes "distinct (map cd_id cs)" and "\<not> length (filter (active_credential i) cs) \<le> 1"
  shows "\<exists>c \<in> set cs. active_credential i c \<and> cd_id c \<noteq> k"
proof (rule ccontr)
  assume "\<not> ?thesis"
  then have "set (map cd_id (filter (active_credential i) cs)) \<subseteq> {k}" by auto
  moreover have "distinct (map cd_id (filter (active_credential i) cs))" by (rule distinct_map_filter [OF assms(1)])
  ultimately have "length (map cd_id (filter (active_credential i) cs)) \<le> 1"
    using card_mono [of "{k}"] by (metis card.empty card.insert distinct_card empty_iff finite.emptyI finite.insertI One_nat_def)
  with assms(2) show False by simp
qed

lemma keeps_remove:
  assumes "remove_credential_tx q i credentialId n h = Inr (a, h')"
  shows "keeps_passkey p h h'"
  unfolding keeps_passkey_def
proof
  assume "new_ids_fresh p \<and> has_passkey h"
  then obtain r c0 where rc: "readOwner h = Some r" "c0 \<in> set (au_credentials (h_auth h))" "active_credential (ow_id r) c0"
    and d: "distinct (map cd_id (au_credentials (h_auth h)))" by (auto simp: has_passkey_def)
  let ?cs = "au_credentials (h_auth h)"
  obtain c where c: "find (\<lambda>c. cd_id c = pg_uuid credentialId \<and> active_credential i c) ?cs = Some c"
    using assms by (cases "find (\<lambda>c. cd_id c = pg_uuid credentialId \<and> active_credential i c) ?cs")
      (auto simp: remove_credential_tx_def tx_simps)
  then have two: "\<not> length (filter (active_credential i) ?cs) \<le> 1"
    and h': "au_credentials (h_auth h') = tbl_update (\<lambda>x. cd_id x = cd_id c) (\<lambda>x. x\<lparr>cd_revokedAt := Some (ap_clock q n)\<rparr>) ?cs"
    and o': "readOwner h' = readOwner h"
    using assms by (auto simp: remove_credential_tx_def tx_simps Let_def activeCredentials_def readOwner_def)
  have ca: "c \<in> set ?cs" "active_credential i c" using find_in_set [OF c] by auto
  have "\<exists>x \<in> set ?cs. active_credential (ow_id r) x \<and> cd_id x \<noteq> cd_id c"
  proof (cases "ow_id r = i")
    case True
    then show ?thesis using another_active [OF d two] by blast
  next
    case False
    have "cd_id c0 \<noteq> cd_id c"
    proof
      assume "cd_id c0 = cd_id c"
      then have "c0 = c" using d ca(1) rc(2) by (meson distinct_map inj_onD)
      with False ca(2) rc(3) show False by (simp add: active_credential_def)
    qed
    with rc show ?thesis by blast
  qed
  then obtain x where x: "x \<in> set ?cs" "active_credential (ow_id r) x" "cd_id x \<noteq> cd_id c" by blast
  have "x \<in> set (au_credentials (h_auth h'))" unfolding h' in_tbl_update using x by auto
  moreover have "map cd_id (au_credentials (h_auth h')) = map cd_id ?cs" unfolding h' by (rule map_tbl_update_frame) simp
  ultimately show "has_passkey h'" using d x rc(1) o' unfolding has_passkey_def by metis
qed

lemma keeps_enrollment:
  assumes "enrollment_tx p now grant ownerId generation kind label info r n h = Inr (a, h')"
  shows "keeps_passkey p h h'"
proof -
  obtain h1 i h2 c h3 h4 h5 opened payload where steps:
    "consumeGrant (ap_clock p n) (eg_id grant) h = (True, h1)" "current_owner p n ownerId h1 = (i, h2)"
    "insertCredential p i label info now n h2 = Inr (c, h3)" "consumeChallenge (ap_clock p n) (wc_id r) h3 = (True, h4)"
    "insertSession p i generation kind now (af_sessionTtlMs (ap_config p)) n h4 = Inr (opened, h5)"
    and h': "h' = recordAuthEvent ''auth.enrollment.completed'' payload h5"
    using assms by (auto simp: enrollment_tx_def tx_simps pair_eq_Inr)
  note m = keeps_consumeGrant [OF steps(1), of p] keeps_current_owner [OF steps(2), of p] keeps_insertCredential [OF steps(3)]
    keeps_consumeChallenge [OF steps(4), of p] keeps_insertSession [OF steps(5), of p]
  have "keeps_passkey p h5 h'" unfolding h' by (rule keeps_frame) simp_all
  then show ?thesis by (rule keeps_two [OF keeps_two [OF m(1) keeps_two [OF m(2) keeps_two [OF m(3) keeps_two [OF m(4) m(5)]]]]])
qed

lemma keeps_add:
  assumes "add_credential_tx p now i label info r n h = Inr (a, h')"
  shows "keeps_passkey p h h'"
proof -
  obtain h1 c h2 payload where steps: "consumeChallenge (ap_clock p n) (wc_id r) h = (True, h1)"
    "insertCredential p i label info now n h1 = Inr (c, h2)" and h': "h' = recordAuthEvent ''auth.credential.added'' payload h2"
    using assms by (auto simp: add_credential_tx_def tx_simps pair_eq_Inr)
  have "keeps_passkey p h2 h'" unfolding h' by (rule keeps_frame) simp_all
  with keeps_two [OF keeps_consumeChallenge [OF steps(1)] keeps_insertCredential [OF steps(2)]] show ?thesis by (rule keeps_two)
qed

lemma keeps_login:
  assumes "login_tx q now i generation kind credential r k n h = Inr (a, h')"
  shows "keeps_passkey p h h'"
proof -
  obtain h1 h2 opened payload where steps: "use_credential (wc_id r) (cd_id credential) k now (ap_clock q n) h = Inr ((), h1)"
    "insertSession q i generation kind now (af_sessionTtlMs (ap_config q)) n h1 = Inr (opened, h2)"
    and h': "h' = recordAuthEvent ''auth.login'' payload h2"
    using assms by (auto simp: login_tx_def tx_simps)
  have "keeps_passkey p h2 h'" unfolding h' by (rule keeps_frame) simp_all
  with keeps_two [OF keeps_use_credential [OF steps(1)] keeps_insertSession [OF steps(2)]] show ?thesis by (rule keeps_two)
qed

lemma keeps_reverify:
  assumes "reverify_tx q now session credential r k n h = Inr (a, h')"
  shows "keeps_passkey p h h'"
proof -
  from assms obtain h1 where h1: "use_credential (wc_id r) (cd_id credential) k now (ap_clock q n) h = Inr ((), h1)"
    by (auto simp: reverify_tx_def tx_simps)
  have "au_credentials (h_auth h') = au_credentials (h_auth h1) \<and> readOwner h' = readOwner h1"
    using assms h1
    by (cases "tbl_returning (\<lambda>s. sn_id s = si_id session) (\<lambda>s. s\<lparr>sn_verifiedAt := now\<rparr>) (au_sessions (h_auth h1))")
      (auto simp: reverify_tx_def Let_def readOwner_def)
  then have "keeps_passkey p h1 h'" by (intro keeps_frame) simp_all
  with keeps_use_credential [OF h1] show ?thesis by (rule keeps_two)
qed

lemma keeps_revoke_session: "revoke_session_tx q token n h = Inr (a, h') \<Longrightarrow> keeps_passkey p h h'"
  by (rule keeps_frame) (auto simp: revoke_session_tx_def Let_def readOwner_def split: list.splits)

section \<open>The interpretations\<close>

definition others_keep_passkey :: "auth_ports \<Rightarrow> bool" where
  "others_keep_passkey p \<longleftrightarrow> (\<forall>n h. has_passkey h \<longrightarrow> has_passkey (ap_env p n h))"

interpretation passkeys: auth_service_relation p "\<lambda>h h'. others_keep_passkey p \<longrightarrow> keeps_passkey p h h'"
  for p
proof (unfold_locales, goal_cases)
  case 3
  then show ?case by (simp add: keeps_passkey_def others_keep_passkey_def)
next
  case 4
  then show ?case by (intro impI keeps_frame) (simp_all add: readOwner_def)
next
  case 5
  then show ?case by (intro impI keeps_frame) (simp_all add: readOwner_def)
next
  case 6
  then show ?case by (intro tx_followsI impI) (rule keeps_revoke_session)
next
  case 7
  then show ?case by (intro tx_followsI impI) (rule keeps_enrollment)
next
  case 8
  then show ?case by (intro tx_followsI impI) (rule keeps_login)
next
  case 9
  then show ?case by (intro tx_followsI impI) (rule keeps_reverify)
next
  case 10
  then show ?case by (intro tx_followsI impI) (rule keeps_add)
next
  case 11
  then show ?case by (intro tx_followsI impI) (rule keeps_remove)
qed (simp_all add: keeps_passkey_def)

text \<open>
  The setting of the moves: the other writers follow them, no new identifier is among the given old
  ones, and the verification reports counters that are not negative.
\<close>

definition auth_setting :: "uuid set \<Rightarrow> auth_ports \<Rightarrow> bool" where
  "auth_setting I p \<longleftrightarrow>
     (\<forall>n h. auth_moves I h (ap_env p n h)) \<and> (\<forall>h. ap_newId p h \<notin> I) \<and> (\<forall>k. reported p k \<longrightarrow> 0 \<le> k)"

lemma moves_clean: "auth_moves I h (set_auth (\<lambda>t. t\<lparr>au_challenges := filter P (au_challenges t)\<rparr>) h)"
  by (auto simp: open_challenge_def intro!: moves_challenges)

lemma moves_issue:
  "wc_id row = ap_newId p h \<Longrightarrow> \<forall>h. ap_newId p h \<notin> I \<Longrightarrow>
   auth_moves I h (set_auth (\<lambda>t. t\<lparr>au_challenges := au_challenges t @ [row]\<rparr>) h)"
  by (auto simp: open_challenge_def intro!: moves_challenges)

interpretation moving: auth_console_relation p "\<lambda>h h'. auth_setting I p \<longrightarrow> auth_moves I h h'"
  for p I
proof (unfold_locales, goal_cases)
  case 2
  then show ?case using auth_moves_trans by blast
next
  case 3
  then show ?case by (simp add: auth_setting_def)
next
  case 4
  then show ?case by (intro impI moves_clean)
next
  case 5
  then show ?case unfolding auth_setting_def using moves_issue by blast
next
  case 6
  then show ?case by (intro tx_followsI impI) (rule moves_revoke_session)
next
  case 7
  then show ?case by (intro tx_followsI impI) (rule moves_enrollment)
next
  case 8
  then show ?case by (intro tx_followsI impI) (auto intro: moves_login simp: auth_setting_def)
next
  case 9
  then show ?case by (intro tx_followsI impI) (auto intro: moves_reverify simp: auth_setting_def)
next
  case 10
  then show ?case by (intro tx_followsI impI) (rule moves_add_credential)
next
  case 11
  then show ?case by (intro tx_followsI impI) (rule moves_remove_credential)
next
  case 12
  then show ?case by (intro impI moves_initialize)
next
  case 13
  then show ?case by (intro tx_followsI impI) (rule moves_bootstrap)
next
  case 14
  then show ?case by (intro tx_followsI impI) (rule moves_recovery)
qed (simp_all add: auth_moves_refl)

end
