(* ===== verification/Auth_Properties.thy ===== *)
theory Auth_Properties
  imports Auth_Passkeys
begin

text \<open>
  The properties of authentication, and the acceptance of an assertion whose signature does not hold.
\<close>

section \<open>A world\<close>

definition demo_challenge :: challenge_row where
  "demo_challenge =
     \<lparr>wc_id = ''k'', wc_purpose = Login, wc_ownerId = Some ''o'', wc_challenge = ''c'', wc_recoveryGeneration = demo_gen,
      wc_createdAt = 0, wc_expiresAt = 300000, wc_consumedAt = None, wc_revokedAt = None\<rparr>"

definition demo_passkey :: credential_row where
  "demo_passkey =
     \<lparr>cd_id = ''p'', cd_ownerId = ''o'', cd_credentialId = ''key'', cd_label = ''laptop'', cd_publicKey = ''AQID'',
      cd_counter = 4, cd_transports = None, cd_deviceType = None, cd_backedUp = False, cd_lastUsedAt = None,
      cd_createdAt = 0, cd_revokedAt = None\<rparr>"

definition owner_hub :: hub where
  "owner_hub = empty_hub\<lparr>
     h_serviceState := Some \<lparr>ss_recoveryGeneration = demo_gen, ss_recoveryMode = Mode_Ready, ss_updatedAt = 0\<rparr>,
     h_auth := \<lparr>au_owner = Some \<lparr>ow_id = ''o'', ow_createdAt = 0\<rparr>, au_credentials = [demo_passkey], au_sessions = [],
       au_challenges = [demo_challenge], au_grants = []\<rparr>\<rparr>"

definition demo_auth :: auth_ports where
  "demo_auth =
     \<lparr>ap_clock = int, ap_env = (\<lambda>_ h. h), ap_newId = (\<lambda>h. ''i'' @ concat (map cd_id (au_credentials (h_auth h)))),
      ap_randomBytes = (\<lambda>n. [of_nat n]), ap_sha256 = map of_char, ap_newChallenge = (\<lambda>n. ''d''),
      ap_clientData = (\<lambda>s. Some s), ap_verifyRegistration = (\<lambda>_. None),
      ap_verifyAuthentication = (\<lambda>_ k. Some \<lparr>av_verified = True, av_newCounter = abs (pk_counter k) + 1\<rparr>),
      ap_config = \<lparr>af_origin = ''https://m'', af_rpId = ''m'', af_sessionTtlMs = 1000, af_challengeTtlMs = 300000,
                   af_grantTtlMs = 600000, af_recentVerificationMs = 300000\<rparr>,
      ap_controls = demo_controls\<rparr>"

definition demo_response :: ceremony_response where
  "demo_response = \<lparr>cp_id = ''key'', cp_clientDataJSON = ''c'', cp_payload = []\<rparr>"

definition owner_world :: auth_world where
  "owner_world = \<lparr>aw_time = 0, aw_hub = owner_hub\<rparr>"

lemma concat_longer: "x \<in> set xs \<Longrightarrow> length x \<le> length (concat xs)"
  by (induction xs) auto

lemma demo_ids_fresh: "new_ids_fresh demo_auth"
  unfolding new_ids_fresh_def
proof (intro allI notI)
  fix h
  assume "ap_newId demo_auth h \<in> cd_id ` set (au_credentials (h_auth h))"
  then have "length (ap_newId demo_auth h) \<le> length (concat (map cd_id (au_credentials (h_auth h))))"
    by (intro concat_longer) auto
  then show False by (simp add: demo_auth_def)
qed

lemma demo_auth_setting: "auth_setting {''k''} demo_auth"
  by (auto simp: auth_setting_def demo_auth_def auth_moves_refl reported_def)

section \<open>Requests\<close>

text \<open>
  C29. Over every sequence of requests and operator commands, with other writers in between, the
  owner stays, passkeys, sessions and grants keep their identity, the counter of a passkey never
  falls, and what is revoked or consumed stays so.
\<close>
theorem authentication_takes_nothing_back:
  assumes "auth_setting I p"
  shows "auth_moves I (aw_hub w) (aw_hub (in_turn (case_sum (serve p) (command p)) rs w))"
proof -
  have "auth_setting I p \<longrightarrow> auth_moves I (aw_hub w) (aw_hub (in_turn (case_sum (serve p) (command p)) rs w))"
    by (rule moving.in_turn_follows) (simp add: moving.serve_follows moving.command_follows split: sum.split)
  with assms show ?thesis by blast
qed

lemma authentication_takes_nothing_back_witness:
  "auth_moves {''k''} owner_hub (aw_hub (in_turn (case_sum (serve demo_auth) (command demo_auth))
     [Inl (Req_Complete_Login demo_response), Inr (Cmd_Recover None)] owner_world))"
  using authentication_takes_nothing_back [OF demo_auth_setting, of owner_world "[Inl (Req_Complete_Login demo_response), Inr (Cmd_Recover None)]"]
  by (simp add: owner_world_def)

text \<open>
  C30. An owner with an active passkey keeps one through every sequence of requests: the last passkey
  is never removed, whatever removals interleave.
\<close>
theorem owner_keeps_a_passkey:
  assumes "others_keep_passkey p" and "new_ids_fresh p" and "has_passkey (aw_hub w)"
  shows "has_passkey (aw_hub (in_turn (serve p) rs w))"
proof -
  have "others_keep_passkey p \<longrightarrow> keeps_passkey p (aw_hub w) (aw_hub (in_turn (serve p) rs w))"
    by (rule passkeys.in_turn_follows) (rule passkeys.serve_follows)
  with assms show ?thesis by (simp add: keeps_passkey_def)
qed

lemma owner_keeps_a_passkey_witness:
  "has_passkey (aw_hub (in_turn (serve demo_auth) [Req_Complete_Login demo_response, Req_Remove ''t'' ''p''] owner_world))"
proof (rule owner_keeps_a_passkey [OF _ demo_ids_fresh])
  show "others_keep_passkey demo_auth" by (simp add: others_keep_passkey_def demo_auth_def)
  show "has_passkey (aw_hub owner_world)"
    by (simp add: has_passkey_def owner_world_def owner_hub_def readOwner_def demo_passkey_def active_credential_def)
qed

section \<open>Login\<close>

lemma call_Inr: "call m f w = (Inr b, w') \<longleftrightarrow> (\<exists>a v. m w = (Inr a, v) \<and> f a v = (Inr b, w'))"
  by (auto simp: call_def split: prod.splits sum.splits)

lemma read_Inr: "auth_read p q w = (Inr a, v) \<longleftrightarrow> q (aw_hub w) = Inr a \<and> v = auth_tick p (aw_hub w) w"
  by (auto simp: auth_read_def)

lemma ask_Inr: "auth_ask p q w = (Inr a, v) \<longleftrightarrow> q (aw_time w) = Inr a \<and> v = auth_tick p (aw_hub w) w"
  by (auto simp: auth_ask_def)

lemma write_Inr: "auth_write p body w = (Inr a, v) \<longleftrightarrow> (\<exists>h. body (aw_time w) (aw_hub w) = Inr (a, h) \<and> v = auth_tick p h w)"
  by (auto simp: auth_write_def run_tx_def split: prod.splits sum.splits)

lemma fail_Inr: "auth_fail c w = (Inr a, v) \<longleftrightarrow> False"
  by (simp add: auth_fail_def throw_def)

lemma give_Inr: "give a w = (Inr b, v) \<longleftrightarrow> b = a \<and> v = w"
  by (auto simp: give_def)

lemma check_Inr: "auth_check r w = (Inr b, v) \<longleftrightarrow> r = Inr b \<and> v = w"
  by (auto simp: auth_check_def)

lemma if_Inr: "(if b then m else m') w = (Inr a, v) \<longleftrightarrow> (b \<and> m w = (Inr a, v) \<or> \<not> b \<and> m' w = (Inr a, v))"
  by simp

lemma option_Inr: "(case x of None \<Rightarrow> m | Some y \<Rightarrow> f y) w = (Inr a, v) \<longleftrightarrow>
    (x = None \<and> m w = (Inr a, v) \<or> (\<exists>y. x = Some y \<and> f y w = (Inr a, v)))"
  by (cases x) simp_all

lemma pair_run_Inr: "(case x of (b, c) \<Rightarrow> f b c) w = (Inr a, v) \<longleftrightarrow> (\<exists>b c. x = (b, c) \<and> f b c w = (Inr a, v))"
  by (cases x) simp

lemma option_sum_Inr: "(case x of None \<Rightarrow> Inl e | Some y \<Rightarrow> Inr (f y)) = Inr a \<longleftrightarrow> (\<exists>y. x = Some y \<and> a = f y)"
  by (cases x) auto

lemmas run_Inr = call_Inr read_Inr ask_Inr write_Inr fail_Inr give_Inr check_Inr if_Inr option_Inr pair_run_Inr option_sum_Inr

lemma quiet_tick: "ap_env p = (\<lambda>_ h. h) \<Longrightarrow> aw_hub (auth_tick p h w) = h"
  by (simp add: auth_tick_def)

lemma loginContext_Inr:
  assumes "loginContext p w = (Inr (i, g, k), v)"
  shows "serving (readStatus (ap_controls p) (aw_hub w)) = Some g \<and> k = sessionKindFor (readStatus (ap_controls p) (aw_hub w)) \<and>
    (\<exists>row. readOwner (aw_hub (auth_tick p (aw_hub w) w)) = Some row \<and> ow_id row = i)"
  using assms by (auto simp: loginContext_def read_control_def run_Inr split: option.splits)

lemma challengeForResponse_Inr:
  assumes "challengeForResponse p response purpose now w = (Inr r, v)"
  shows "r \<in> set (au_challenges (h_auth (aw_hub w))) \<and> live_challenge r \<and> wc_purpose r = purpose \<and> now < wc_expiresAt r \<and>
    ap_clientData p (cp_clientDataJSON response) = Some (wc_challenge r)"
proof -
  obtain ch where ch: "parseClientData p (cp_clientDataJSON response) = Inr ch"
    and fl: "findLiveChallenge ch purpose now (aw_hub w) = Inr r"
    using assms by (auto simp: challengeForResponse_def run_Inr)
  have "ap_clientData p (cp_clientDataJSON response) = Some ch"
    using ch by (auto simp: parseClientData_def split: option.splits if_splits)
  moreover have "r \<in> set (au_challenges (h_auth (aw_hub w)))"
    using fl by (auto simp: findLiveChallenge_def split: option.splits if_splits dest: find_in_set)
  ultimately show ?thesis using fl by (auto simp: findLiveChallenge_def find_Some_iff split: option.splits if_splits)
qed

lemma verifyAssertion_Inr:
  assumes "verifyAssertion p response purpose i now w = (Inr (c, r, k), v)"
  obtains v1 a where "challengeForResponse p response purpose now w = (Inr r, v1)" and "wc_ownerId r = Some i"
    and "c \<in> set (au_credentials (h_auth (aw_hub v1)))" and "cd_revokedAt c = None" and "cd_credentialId c = cp_id response"
    and "cd_ownerId c = i"
    and "ap_verifyAuthentication p (verification_request_of p response r) (stored_passkey_of c) = Some a" and "k = av_newCounter a"
proof -
  obtain v1 a where r: "challengeForResponse p response purpose now w = (Inr r, v1)"
    and o': "wc_ownerId r = Some i"
    and c: "find (\<lambda>c. cd_credentialId c = cp_id response \<and> cd_revokedAt c = None) (au_credentials (h_auth (aw_hub v1))) = Some c"
    and ci: "cd_ownerId c = i"
    and a: "ap_verifyAuthentication p (verification_request_of p response r) (stored_passkey_of c) = Some a \<and> k = av_newCounter a"
    using assms unfolding verifyAssertion_def run_Inr by auto
  show ?thesis using find_in_set [OF c] a by (intro that [OF r o' _ _ _ ci, of a]) auto
qed

lemma consumed:
  assumes "consumeChallenge at i h = (True, h')"
  shows "open_challenge i h" and "\<not> open_challenge i h'"
    and "au_credentials (h_auth h') = au_credentials (h_auth h)" and "au_sessions (h_auth h') = au_sessions (h_auth h)"
  using assms by (auto simp: consumeChallenge_def Let_def open_challenge_def list_ex_iff in_tbl_update live_challenge_def)

lemma inserted_session:
  assumes "insertSession p i g k now ttl n h = Inr (opened, h')"
  shows "\<exists>s. readSessionByToken (hashToken p (os_token opened)) h' = Some s \<and> sn_ownerId s = i \<and>
    sn_recoveryGeneration s = pg_uuid g \<and> sn_kind s = k \<and> sn_expiresAt s = now + ttl \<and> sn_revokedAt s = None \<and>
    os_session opened = session_info_of s \<and> au_sessions (h_auth h') = au_sessions (h_auth h) @ [s]"
  using assms by (auto simp: insertSession_def Let_def tx_simps readSessionByToken_def find_append split: option.split)

text \<open>The row a login adds to the sessions.\<close>

definition session_opened ::
  "auth_ports \<Rightarrow> uuid \<Rightarrow> uuid \<Rightarrow> owner_session_kind \<Rightarrow> millis \<Rightarrow> opened_session \<Rightarrow> hub \<Rightarrow> hub \<Rightarrow> bool" where
  "session_opened p i g k now opened h h' \<longleftrightarrow>
     (\<exists>s. au_sessions (h_auth h') = au_sessions (h_auth h) @ [s] \<and>
        readSessionByToken (hashToken p (os_token opened)) h' = Some s \<and> sn_ownerId s = i \<and>
        sn_recoveryGeneration s = pg_uuid g \<and> sn_kind s = k \<and>
        sn_expiresAt s = now + af_sessionTtlMs (ap_config p) \<and> sn_revokedAt s = None \<and>
        os_session opened = session_info_of s)"

text \<open>The use of a passkey: it is still active, its counter advances to the reported one, unless neither is positive.\<close>

definition passkey_used :: "uuid \<Rightarrow> int \<Rightarrow> hub \<Rightarrow> hub \<Rightarrow> bool" where
  "passkey_used i x h h' \<longleftrightarrow>
     (\<exists>c. find (\<lambda>y. cd_id y = i) (au_credentials (h_auth h)) = Some c \<and> cd_revokedAt c = None \<and>
        (cd_counter c < x \<or> cd_counter c \<le> 0 \<and> x \<le> 0)) \<and>
     (\<exists>c'. find (\<lambda>y. cd_id y = i) (au_credentials (h_auth h')) = Some c' \<and> cd_counter c' = x)"

lemma login_tx_effect:
  assumes "login_tx p now i g k c r x n h = Inr (opened, h')"
  shows "open_challenge (wc_id r) h" and "\<not> open_challenge (wc_id r) h'"
    and "passkey_used (cd_id c) x h h'" and "session_opened p i g k now opened h h'"
proof -
  obtain h1 h2 payload where use: "use_credential (wc_id r) (cd_id c) x now (ap_clock p n) h = Inr ((), h1)"
    and session: "insertSession p i g k now (af_sessionTtlMs (ap_config p)) n h1 = Inr (opened, h2)"
    and h': "h' = recordAuthEvent ''auth.login'' payload h2"
    using assms by (auto simp: login_tx_def tx_simps)
  obtain h0 where h0: "consumeChallenge (ap_clock p n) (wc_id r) h = (True, h0)" "requireLiveCredential (cd_id c) x h0 = Inr ()"
    and h1: "h1 = updateCredentialAfterUse (cd_id c) x now h0"
    using use by (auto simp: use_credential_def tx_simps split: prod.splits)
  show "open_challenge (wc_id r) h" by (rule consumed [OF h0(1)])
  have "au_challenges (h_auth h') = au_challenges (h_auth h0)"
    using session by (auto simp: h' h1 insertSession_def updateCredentialAfterUse_def Let_def tx_simps)
  then show "\<not> open_challenge (wc_id r) h'" using consumed(2) [OF h0(1)] by (simp add: open_challenge_def)
  obtain c' where c': "find (\<lambda>y. cd_id y = cd_id c) (au_credentials (h_auth h)) = Some c'" "cd_revokedAt c' = None"
      "cd_counter c' < x \<or> cd_counter c' \<le> 0 \<and> x \<le> 0"
    using h0(2) unfolding consumed(3) [OF h0(1), symmetric]
    by (auto simp: requireLiveCredential_def tx_simps split: option.split_asm)
  have "au_credentials (h_auth h') = tbl_update (\<lambda>y. cd_id y = cd_id c)
      (\<lambda>y. y\<lparr>cd_counter := x, cd_lastUsedAt := Some now\<rparr>) (au_credentials (h_auth h))"
    using session consumed(3) [OF h0(1)]
    by (auto simp: h' h1 insertSession_def updateCredentialAfterUse_def Let_def tx_simps)
  moreover have "find (\<lambda>y. cd_id y = cd_id c) (tbl_update (\<lambda>y. cd_id y = cd_id c)
      (\<lambda>y. y\<lparr>cd_counter := x, cd_lastUsedAt := Some now\<rparr>) (au_credentials (h_auth h))) =
    map_option (\<lambda>y. if cd_id y = cd_id c then y\<lparr>cd_counter := x, cd_lastUsedAt := Some now\<rparr> else y)
      (find (\<lambda>y. cd_id y = cd_id c) (au_credentials (h_auth h)))"
    by (rule find_tbl_update_frame) simp
  ultimately show "passkey_used (cd_id c) x h h'"
    using c' find_in_set [OF c'(1)] by (simp add: passkey_used_def)
  have "au_sessions (h_auth h1) = au_sessions (h_auth h)"
    using consumed(4) [OF h0(1)] by (simp add: h1 updateCredentialAfterUse_def)
  then show "session_opened p i g k now opened h h'"
    using inserted_session [OF session] by (auto simp: session_opened_def h' readSessionByToken_def)
qed

text \<open>
  C28. A login that succeeds, next to any other writers: the owner read then is \<open>i\<close>, and the service was
  serving the generation \<open>g\<close>; the challenge row looked up for the response was stored, live and not
  expired, of purpose login, of that owner and of that generation; the passkey looked up was stored and
  active under the identifier of the response and belongs to the owner; the library verified the response
  against both. Its transaction found the challenge still open and spent it, found the passkey still
  active and advanced its counter to the reported one (or neither counter is positive), and added exactly
  one session, of the owner, bound to the generation and to the mode of the service.
\<close>
theorem login_needs_a_passkey:
  assumes "completeLogin p response w = (Inr opened, w')" and "now = ap_clock p (aw_time w)"
  shows "\<exists>i g k v1 r v2 c a v3 h'.
    loginContext p w = (Inr (i, g, k), v1) \<and> serving (readStatus (ap_controls p) (aw_hub w)) = Some g \<and>
    k = sessionKindFor (readStatus (ap_controls p) (aw_hub w)) \<and>
    (\<exists>row. readOwner (aw_hub (auth_tick p (aw_hub w) w)) = Some row \<and> ow_id row = i) \<and>
    challengeForResponse p response Login now v1 = (Inr r, v2) \<and>
    r \<in> set (au_challenges (h_auth (aw_hub v1))) \<and> live_challenge r \<and> wc_purpose r = Login \<and> wc_ownerId r = Some i \<and>
    to_lower (wc_recoveryGeneration r) = g \<and> now < wc_expiresAt r \<and>
    ap_clientData p (cp_clientDataJSON response) = Some (wc_challenge r) \<and>
    c \<in> set (au_credentials (h_auth (aw_hub v2))) \<and> cd_revokedAt c = None \<and> cd_credentialId c = cp_id response \<and>
    cd_ownerId c = i \<and>
    ap_verifyAuthentication p (verification_request_of p response r) (stored_passkey_of c) = Some a \<and>
    verifyAssertion p response Login i now v1 = (Inr (c, r, av_newCounter a), v3) \<and>
    open_challenge (wc_id r) (aw_hub v3) \<and> \<not> open_challenge (wc_id r) h' \<and>
    passkey_used (cd_id c) (av_newCounter a) (aw_hub v3) h' \<and>
    session_opened p i g k now opened (aw_hub v3) h' \<and> aw_hub w' = ap_env p (aw_time v3) h'"
proof -
  let ?now = "ap_clock p (aw_time w)"
  obtain i g k v1 c r x v3 where l: "loginContext p w = (Inr (i, g, k), v1)"
    and a: "verifyAssertion p response Login i ?now v1 = (Inr (c, r, x), v3)"
    and gen: "to_lower (wc_recoveryGeneration r) = g"
    and t: "auth_write p (login_tx p ?now i g k c r x) v3 = (Inr opened, w')"
    using assms(1) unfolding completeLogin_def auth_now_def by (auto simp: call_Inr if_Inr fail_Inr)
  obtain h' where tx: "login_tx p ?now i g k c r x (aw_time v3) (aw_hub v3) = Inr (opened, h')"
    and w': "w' = auth_tick p h' v3"
    using t by (auto simp: write_Inr)
  obtain v2 a' where av: "challengeForResponse p response Login ?now v1 = (Inr r, v2)" "wc_ownerId r = Some i"
    "c \<in> set (au_credentials (h_auth (aw_hub v2)))" "cd_revokedAt c = None" "cd_credentialId c = cp_id response" "cd_ownerId c = i"
    "ap_verifyAuthentication p (verification_request_of p response r) (stored_passkey_of c) = Some a'" "x = av_newCounter a'"
    by (rule verifyAssertion_Inr [OF a])
  note ch = challengeForResponse_Inr [OF av(1)]
  note e = login_tx_effect [OF tx]
  have env: "aw_hub w' = ap_env p (aw_time v3) h'" by (simp add: w' auth_tick_def)
  note ctx = loginContext_Inr [OF l]
  have "r \<in> set (au_challenges (h_auth (aw_hub v1)))" "live_challenge r" "wc_purpose r = Login" "?now < wc_expiresAt r"
    "ap_clientData p (cp_clientDataJSON response) = Some (wc_challenge r)"
    using ch by blast+
  note found = this
  obtain row where row: "readOwner (aw_hub (auth_tick p (aw_hub w) w)) = Some row" "ow_id row = i" using ctx by blast
  show ?thesis unfolding assms(2)
    by (intro exI conjI)
      (rule l ctx [THEN conjunct1] ctx [THEN conjunct2, THEN conjunct1] row(1) row(2)
        av(1) found(1) found(2) found(3) av(2) gen found(4) found(5) av(3) av(4) av(5) av(6) av(7) a [unfolded av(8)]
        e(1) e(2) e(3) [unfolded av(8)] e(4) env)+
qed

lemma demo_login: "case fst (completeLogin demo_auth demo_response owner_world) of Inl _ \<Rightarrow> False | Inr _ \<Rightarrow> True"
  by code_simp

lemma login_needs_a_passkey_witness:
  "\<exists>opened w' i g k v1 r v2 h'. completeLogin demo_auth demo_response owner_world = (Inr opened, w') \<and>
    loginContext demo_auth owner_world = (Inr (i, g, k), v1) \<and> serving (readStatus demo_controls owner_hub) = Some g \<and>
    challengeForResponse demo_auth demo_response Login 0 v1 = (Inr r, v2) \<and> wc_ownerId r = Some i \<and>
    \<not> open_challenge (wc_id r) h' \<and> session_opened demo_auth i g k 0 opened (aw_hub v2) h'"
proof -
  obtain opened w' where run: "completeLogin demo_auth demo_response owner_world = (Inr opened, w')"
    using demo_login by (cases "completeLogin demo_auth demo_response owner_world") (auto split: sum.splits)
  have s: "ap_controls demo_auth = demo_controls" "aw_hub owner_world = owner_hub" "ap_clock demo_auth (aw_time owner_world) = 0"
    by (simp_all add: demo_auth_def owner_world_def)
  have q: "ap_env demo_auth = (\<lambda>_ h. h)" by (simp add: demo_auth_def)
  obtain i g k v1 r v2 c x v3 h' where *: "loginContext demo_auth owner_world = (Inr (i, g, k), v1)"
    "serving (readStatus demo_controls owner_hub) = Some g"
    "challengeForResponse demo_auth demo_response Login 0 v1 = (Inr r, v2)" "wc_ownerId r = Some i"
    "verifyAssertion demo_auth demo_response Login i 0 v1 = (Inr (c, r, x), v3)"
    "\<not> open_challenge (wc_id r) h'" "session_opened demo_auth i g k 0 opened (aw_hub v3) h'"
    using login_needs_a_passkey [OF run refl] unfolding s by blast
  have "aw_hub v2 = aw_hub v1" using *(3) unfolding challengeForResponse_def run_Inr by (auto simp: quiet_tick [OF q])
  moreover have "aw_hub v3 = aw_hub v1"
    using *(5) unfolding verifyAssertion_def challengeForResponse_def run_Inr by (auto simp: quiet_tick [OF q])
  ultimately show ?thesis using run * by metis
qed

text \<open>
  The result of the verification is not looked at: with a library that answers that the signature
  does not hold, as it does for a forged assertion, the login succeeds all the same.
\<close>

definition forged_auth :: auth_ports where
  "forged_auth = demo_auth\<lparr>ap_verifyAuthentication :=
     (\<lambda>_ k. Some \<lparr>av_verified = False, av_newCounter = abs (pk_counter k) + 1\<rparr>)\<rparr>"

lemma forged_assertion_logs_in:
  "case fst (completeLogin forged_auth demo_response owner_world) of Inl _ \<Rightarrow> False | Inr _ \<Rightarrow> True"
  by code_simp

section \<open>Sessions\<close>

lemma serving_lower: "serving (readStatus rv h) = Some g \<Longrightarrow> to_lower g = g"
  by (auto simp: serving_def readStatus_def classifyControlState_def Let_def split: option.splits control_status.splits if_splits)

lemma opened_admitted:
  assumes "serving status = Some g" and "to_lower g = g" and "sn_recoveryGeneration s = pg_uuid g"
    and "sn_kind s = sessionKindFor status"
  shows "admitted status s"
  using assms by (auto simp: serving_def admitted_def sessionKindFor_def pg_uuid_def split: control_status.splits)

lemma verifySession_of_row:
  assumes quiet: "ap_env p = (\<lambda>_ h. h)" and s: "readSessionByToken (hashToken p token) (aw_hub w) = Some s"
    and "sn_revokedAt s = None" and "ap_clock p (Suc (aw_time w)) < sn_expiresAt s"
    and "admitted (readStatus (ap_controls p) (aw_hub w)) s"
  shows "fst (verifySession p token w) = Inr (session_info_of s)"
  using assms
  by (simp add: verifySession_def call_def auth_read_def auth_now_def read_control_def quiet_tick give_def)
    (simp add: auth_tick_def)

lemma recordAuthEvent_frame: "h_serviceState (recordAuthEvent type payload h) = h_serviceState h"
  by (simp add: recordAuthEvent_def)

lemma set_auth_frame: "h_serviceState (set_auth f h) = h_serviceState h"
  by (simp add: set_auth_def)

lemma login_tx_frame: "login_tx p now i g k c r x n h = Inr (opened, h') \<Longrightarrow> h_serviceState h' = h_serviceState h"
  by (auto simp: login_tx_def use_credential_def consumeChallenge_def updateCredentialAfterUse_def insertSession_def Let_def tx_simps
      recordAuthEvent_frame set_auth_frame)

lemma readStatus_frame: "h_serviceState h' = h_serviceState h \<Longrightarrow> readStatus rv h' = readStatus rv h"
  by (simp add: readStatus_def cong: option.case_cong)

text \<open>
  A session a login opened is accepted with the token handed out until it expires, as long as
  nothing else happened: the stored hash finds it, and the mode and generation of the service admit it.
\<close>
theorem opened_session_accepted:
  assumes "ap_env p = (\<lambda>_ h. h)" and "completeLogin p response w = (Inr opened, w')"
    and "ap_clock p (Suc (aw_time w')) < ap_clock p (aw_time w) + af_sessionTtlMs (ap_config p)"
  shows "fst (verifySession p (os_token opened) w') = Inr (os_session opened)"
proof -
  let ?now = "ap_clock p (aw_time w)"
  obtain i g k v1 c r x v2 where l: "loginContext p w = (Inr (i, g, k), v1)"
    and a: "verifyAssertion p response Login i ?now v1 = (Inr (c, r, x), v2)"
    and t: "auth_write p (login_tx p ?now i g k c r x) v2 = (Inr opened, w')"
    using assms(2) unfolding completeLogin_def auth_now_def by (auto simp: call_Inr if_Inr fail_Inr)
  obtain h' where tx: "login_tx p ?now i g k c r x (aw_time v2) (aw_hub v2) = Inr (opened, h')"
    and w': "aw_hub w' = h'"
    using t by (auto simp: write_Inr quiet_tick [OF assms(1)])
  have "aw_hub v1 = aw_hub w"
    using l by (auto simp: loginContext_def read_control_def run_Inr quiet_tick [OF assms(1)])
  moreover have "aw_hub v2 = aw_hub v1"
    using a unfolding verifyAssertion_def challengeForResponse_def run_Inr by (auto simp: quiet_tick [OF assms(1)])
  ultimately have st: "readStatus (ap_controls p) (aw_hub w') = readStatus (ap_controls p) (aw_hub w)"
    using login_tx_frame [OF tx] w' by (intro readStatus_frame) simp
  obtain s where s: "readSessionByToken (hashToken p (os_token opened)) h' = Some s" "sn_recoveryGeneration s = pg_uuid g"
    "sn_kind s = k" "sn_expiresAt s = ?now + af_sessionTtlMs (ap_config p)" "sn_revokedAt s = None" "os_session opened = session_info_of s"
    using login_tx_effect(4) [OF tx] unfolding session_opened_def by blast
  have "serving (readStatus (ap_controls p) (aw_hub w)) = Some g" "k = sessionKindFor (readStatus (ap_controls p) (aw_hub w))"
    using loginContext_Inr [OF l] by blast+
  then have "admitted (readStatus (ap_controls p) (aw_hub w')) s"
    unfolding st using s(2,3) by (intro opened_admitted) (auto dest: serving_lower)
  then show ?thesis using verifySession_of_row [OF assms(1), of "os_token opened" w' s] s assms(3) by (simp add: w')
qed

lemma opened_session_accepted_witness:
  "\<exists>opened w'. completeLogin demo_auth demo_response owner_world = (Inr opened, w') \<and>
     fst (verifySession demo_auth (os_token opened) w') = Inr (os_session opened)"
proof -
  obtain opened w' where run: "completeLogin demo_auth demo_response owner_world = (Inr opened, w')"
    using demo_login by (cases "completeLogin demo_auth demo_response owner_world") (auto split: sum.splits)
  have "aw_time (snd (completeLogin demo_auth demo_response owner_world)) < 900" by code_simp
  then have t: "aw_time w' < 900" by (simp add: run)
  have "fst (verifySession demo_auth (os_token opened) w') = Inr (os_session opened)"
    by (rule opened_session_accepted [OF _ run]) (use t in \<open>simp_all add: demo_auth_def owner_world_def\<close>)
  with run show ?thesis by blast
qed

section \<open>Recovery\<close>

lemma revoked_restored:
  "\<forall>s \<in> set (au_sessions (h_auth (revoke_restored_auth now h))). sn_revokedAt s \<noteq> None"
  "\<forall>c \<in> set (au_credentials (h_auth (revoke_restored_auth now h))). cd_revokedAt c \<noteq> None"
  "\<forall>g \<in> set (au_grants (h_auth (revoke_restored_auth now h))). \<not> live_grant g"
  "\<forall>r \<in> set (au_challenges (h_auth (revoke_restored_auth now h))). \<not> live_challenge r"
  by (simp_all add: revoke_restored_auth_def revokeAllAuthState_def Let_def revoke_tables_def)
    (auto simp: tbl_update_def live_grant_def live_challenge_def)

lemma begin_revokes:
  assumes "beginRecovery rv now h = (Begin_Started g, h')" and "rv_revokeRestoredAuth rv = fst (createRecoveryHooks now)"
  shows "\<exists>h0. h_auth h' = h_auth (revoke_restored_auth now h0) \<and> h_auth h0 = h_auth h"
proof -
  let ?hook = "revoke_restored_auth now"
  from assms(2) have hook: "revokeRestoredAuth rv = ?hook"
    by (auto simp: revokeRestoredAuth_def createRecoveryHooks_def fun_eq_iff)
  have "h_auth (add_event e x) = h_auth x" for e x by (simp add: add_event_def)
  with assms(1) show ?thesis unfolding beginRecovery_def hook
    by (auto split: option.splits if_splits intro!: exI)
qed

text \<open>The key constraints of the tables: primary keys, and the unique hash of a session's token.\<close>

definition auth_keys :: "hub \<Rightarrow> bool" where
  "auth_keys h \<longleftrightarrow>
     distinct (map sn_id (au_sessions (h_auth h))) \<and> distinct (map sn_tokenHash (au_sessions (h_auth h))) \<and>
     distinct (map cd_id (au_credentials (h_auth h))) \<and> distinct (map eg_id (au_grants (h_auth h)))"

lemma find_key: "distinct (map k t) \<Longrightarrow> r \<in> set t \<Longrightarrow> find (\<lambda>x. k x = k r) t = Some r"
  by (induction t) (auto simp: image_iff)

text \<open>What holds of a row and is kept holds of every later row with its key.\<close>

lemma later_row:
  assumes "rows_kept k K t t'" and "distinct (map k t)" and "distinct (map k t')" and "r \<in> set t"
    and "r' \<in> set t'" and "k r' = k r"
  shows "K r r'"
proof -
  from assms(1) find_key [OF assms(2,4)] obtain x where "find (\<lambda>y. k y = k r) t' = Some x" "K r x"
    unfolding rows_kept_def by blast
  with find_key [OF assms(3,5)] assms(6) show ?thesis by simp
qed

lemma later_exists:
  assumes "rows_kept k K t t'" and "distinct (map k t)" and "r \<in> set t"
  shows "\<exists>r' \<in> set t'. k r' = k r \<and> K r r'"
proof -
  from assms(1) find_key [OF assms(2,3)] obtain x where "find (\<lambda>y. k y = k r) t' = Some x" "K r x"
    unfolding rows_kept_def by blast
  with find_in_set [of "\<lambda>y. k y = k r" t' x] show ?thesis by auto
qed

lemma revoked_keys:
  assumes "h_auth h' = h_auth (revoke_restored_auth now h)"
  shows "map sn_id (au_sessions (h_auth h')) = map sn_id (au_sessions (h_auth h))"
    and "map sn_tokenHash (au_sessions (h_auth h')) = map sn_tokenHash (au_sessions (h_auth h))"
    and "map cd_id (au_credentials (h_auth h')) = map cd_id (au_credentials (h_auth h))"
    and "map eg_id (au_grants (h_auth h')) = map eg_id (au_grants (h_auth h))"
    and "map wc_id (au_challenges (h_auth h')) = map wc_id (au_challenges (h_auth h))"
  unfolding assms
  by (auto simp: revoke_restored_auth_def revokeAllAuthState_def Let_def revoke_tables_def recordAuthEvent_def
      intro!: map_tbl_update_frame)

lemma verifySession_row:
  "fst (verifySession p token w) = Inr info \<Longrightarrow>
   \<exists>s \<in> set (au_sessions (h_auth (aw_hub w))). sn_tokenHash s = hashToken p token \<and> sn_revokedAt s = None"
  by (auto simp: verifySession_def call_def auth_read_def auth_now_def readSessionByToken_def auth_fail_def throw_def
      split: option.splits if_splits dest!: find_in_set)

lemma session_locked_out:
  assumes "rows_kept sn_id session_moves t t'" and "distinct (map sn_id t)" and "distinct (map sn_tokenHash t')"
    and "\<forall>s \<in> set t. sn_revokedAt s \<noteq> None" and "s \<in> set t" and "x \<in> set t'" and "sn_tokenHash x = sn_tokenHash s"
  shows "sn_revokedAt x \<noteq> None"
proof -
  from later_exists [OF assms(1,2,5)] obtain s' where s': "s' \<in> set t'" "session_moves s s'" by blast
  then have "sn_tokenHash s' = sn_tokenHash x" "sn_revokedAt s' \<noteq> None"
    using assms(4,5,7) by (auto simp: session_moves_def)
  moreover from this have "s' = x" using assms(3,6) s'(1) by (auto simp: distinct_map dest: inj_onD)
  ultimately show ?thesis by simp
qed

lemma registered_owner: "hasRegisteredOwner h \<Longrightarrow> \<exists>c \<in> set (au_credentials (h_auth h)). cd_revokedAt c = None"
  by (auto simp: hasRegisteredOwner_def tbl_count_def active_credential_def filter_empty_conv split: option.splits)

lemma complete_needs_owner:
  "fst (completeRecovery rv at h) = Complete_Completed d c \<Longrightarrow> rv_hasRegisteredOwner rv = Some hasRegisteredOwner \<Longrightarrow>
     hasRegisteredOwner h"
  by (auto simp: completeRecovery_def Let_def split: option.splits if_splits)

text \<open>
  C31. When recovery begins on a restored database, what the restored tables would let in stays out for
  good: after any sequence of requests and operator commands, next to other writers that follow the moves
  of authentication (new identifiers are new and reported counters not negative), no token of a restored session is accepted, no restored challenge is open, no
  restored grant is found, every restored passkey is revoked; and while every passkey is a restored one,
  recovery does not complete.
\<close>
theorem restored_authentication_locked_out:
  assumes "beginRecovery rv now h = (Begin_Started g, h')"
    and "rv_revokeRestoredAuth rv = fst (createRecoveryHooks now)" and "rv_hasRegisteredOwner rv = snd (createRecoveryHooks now)"
    and "auth_setting (wc_id ` set (au_challenges (h_auth h))) p" and "aw_hub w = h'"
    and "w' = in_turn (case_sum (serve p) (command p)) rs w" and "auth_keys h" and "auth_keys (aw_hub w')"
  shows "(\<forall>s \<in> set (au_sessions (h_auth h)). \<forall>token info.
       hashToken p token = sn_tokenHash s \<longrightarrow> fst (verifySession p token w') \<noteq> Inr info) \<and>
    (\<forall>r \<in> set (au_challenges (h_auth h)). \<not> open_challenge (wc_id r) (aw_hub w')) \<and>
    (\<forall>x token at y. x \<in> set (au_grants (h_auth h)) \<and> findLiveGrant token at (aw_hub w') = Inr y \<longrightarrow> eg_id y \<noteq> eg_id x) \<and>
    (\<forall>c \<in> set (au_credentials (h_auth h)). \<forall>c' \<in> set (au_credentials (h_auth (aw_hub w'))).
       cd_id c' = cd_id c \<longrightarrow> cd_revokedAt c' \<noteq> None) \<and>
    (\<forall>at d k. fst (completeRecovery rv at (aw_hub w')) = Complete_Completed d k \<longrightarrow>
       (\<exists>c' \<in> set (au_credentials (h_auth (aw_hub w'))).
          cd_revokedAt c' = None \<and> cd_id c' \<notin> cd_id ` set (au_credentials (h_auth h))))"
proof -
  let ?t = "h_auth (aw_hub w')"
  obtain h0 where h0: "h_auth h' = h_auth (revoke_restored_auth now h0)" "h_auth h0 = h_auth h"
    using begin_revokes [OF assms(1,2)] by blast
  note dead = revoked_restored [of now h0, folded h0(1)]
  note keys = revoked_keys [OF h0(1), unfolded h0(2)]
  have "auth_setting (wc_id ` set (au_challenges (h_auth h))) p \<longrightarrow>
      auth_moves (wc_id ` set (au_challenges (h_auth h))) (aw_hub w) (aw_hub (in_turn (case_sum (serve p) (command p)) rs w))"
    by (rule moving.in_turn_follows) (simp add: moving.serve_follows moving.command_follows split: sum.split)
  then have mv: "auth_moves (wc_id ` set (au_challenges (h_auth h))) h' (aw_hub w')" using assms(4-6) by blast
  then have kept: "rows_kept sn_id session_moves (au_sessions (h_auth h')) (au_sessions ?t)"
      "rows_kept cd_id credential_moves (au_credentials (h_auth h')) (au_credentials ?t)"
      "rows_kept eg_id grant_moves (au_grants (h_auth h')) (au_grants ?t)"
      "\<forall>i \<in> wc_id ` set (au_challenges (h_auth h)). open_challenge i (aw_hub w') \<longrightarrow> open_challenge i h'"
    by (auto simp: auth_moves_def)
  have sessions: "fst (verifySession p token w') \<noteq> Inr info"
    if s: "s \<in> set (au_sessions (h_auth h))" "hashToken p token = sn_tokenHash s" for s token info
  proof
    assume "fst (verifySession p token w') = Inr info"
    then obtain x where x: "x \<in> set (au_sessions ?t)" "sn_tokenHash x = hashToken p token" "sn_revokedAt x = None"
      using verifySession_row by blast
    from s(1) have "sn_tokenHash s \<in> set (map sn_tokenHash (au_sessions (h_auth h')))" unfolding keys by simp
    then obtain s1 where s1: "s1 \<in> set (au_sessions (h_auth h'))" "sn_tokenHash x = sn_tokenHash s1" using x(2) s(2) by auto
    have "distinct (map sn_id (au_sessions (h_auth h')))" "distinct (map sn_tokenHash (au_sessions ?t))"
      using keys assms(7,8) by (simp_all add: auth_keys_def)
    from session_locked_out [OF kept(1) this dead(1) s1(1) x(1) s1(2)] x(3) show False by simp
  qed
  have challenges: "\<not> open_challenge (wc_id r) (aw_hub w')" if "r \<in> set (au_challenges (h_auth h))" for r
    using kept(4) that dead(4) by (auto simp: open_challenge_def)
  have grants: "eg_id y \<noteq> eg_id x"
    if "x \<in> set (au_grants (h_auth h))" "findLiveGrant token at (aw_hub w') = Inr y" for x token at y
  proof
    assume e: "eg_id y = eg_id x"
    have y: "y \<in> set (au_grants ?t)" "live_grant y"
      using that(2) by (auto simp: findLiveGrant_def split: option.splits if_splits dest: find_in_set)
    from that(1) have "eg_id x \<in> set (map eg_id (au_grants (h_auth h')))" unfolding keys by simp
    then obtain x1 where x1: "x1 \<in> set (au_grants (h_auth h'))" "eg_id x1 = eg_id x" by auto
    then have "grant_moves x1 y" using later_row [OF kept(3) _ _ x1(1) y(1)] keys e assms(7,8) by (simp add: auth_keys_def)
    with y(2) x1(1) dead(3) show False by (auto simp: grant_moves_def)
  qed
  have credentials: "cd_revokedAt c' \<noteq> None"
    if "c \<in> set (au_credentials (h_auth h))" "c' \<in> set (au_credentials ?t)" "cd_id c' = cd_id c" for c c'
  proof -
    from that(1) have "cd_id c \<in> set (map cd_id (au_credentials (h_auth h')))" unfolding keys by simp
    then obtain c1 where c1: "c1 \<in> set (au_credentials (h_auth h'))" "cd_id c1 = cd_id c" by auto
    then have "credential_moves c1 c'" using later_row [OF kept(2) _ _ c1(1) that(2)] keys that(3) assms(7,8) by (simp add: auth_keys_def)
    with c1(1) dead(2) show ?thesis by (auto simp: credential_moves_def)
  qed
  have completes: "\<exists>c' \<in> set (au_credentials ?t). cd_revokedAt c' = None \<and> cd_id c' \<notin> cd_id ` set (au_credentials (h_auth h))"
    if "fst (completeRecovery rv at (aw_hub w')) = Complete_Completed d k" for at d k
  proof -
    have "hasRegisteredOwner (aw_hub w')"
      using complete_needs_owner [OF that] assms(3) by (simp add: createRecoveryHooks_def)
    then obtain c' where "c' \<in> set (au_credentials ?t)" "cd_revokedAt c' = None" using registered_owner by blast
    moreover from this have "cd_id c' \<notin> cd_id ` set (au_credentials (h_auth h))" using credentials [of _ c'] by blast
    ultimately show ?thesis by blast
  qed
  show ?thesis using sessions challenges grants credentials completes by blast
qed

definition locking_controls :: recovery_controls where
  "locking_controls = demo_controls\<lparr>rv_revokeRestoredAuth := fst (createRecoveryHooks 5), rv_hasRegisteredOwner := snd (createRecoveryHooks 5)\<rparr>"

text \<open>A restored database with a live session, and what follows the begin of its recovery: its passkey is tried, a recovery grant issued.\<close>

definition restored_session :: session_row where
  "restored_session = \<lparr>sn_id = ''s'', sn_ownerId = ''o'', sn_tokenHash = hashToken demo_auth ''t'', sn_recoveryGeneration = old_gen,
     sn_kind = Session_Standard, sn_verifiedAt = 0, sn_createdAt = 0, sn_expiresAt = 1000000, sn_revokedAt = None\<rparr>"

definition restored_owner :: hub where
  "restored_owner = owner_hub\<lparr>
     h_serviceState := Some \<lparr>ss_recoveryGeneration = old_gen, ss_recoveryMode = Mode_Ready, ss_updatedAt = 0\<rparr>,
     h_auth := (h_auth owner_hub)\<lparr>au_sessions := [restored_session]\<rparr>\<rparr>"

definition after_restore :: auth_world where
  "after_restore = in_turn (case_sum (serve demo_auth) (command demo_auth))
     [Inl (Req_Complete_Login demo_response), Inr (Cmd_Recover None)]
     \<lparr>aw_time = 0, aw_hub = snd (beginRecovery locking_controls 5 restored_owner)\<rparr>"

lemma after_restore_keys: "auth_keys (aw_hub after_restore)"
  by code_simp

lemma restored_authentication_locked_out_witness:
  "(\<forall>info. fst (verifySession demo_auth ''t'' after_restore) \<noteq> Inr info) \<and> \<not> open_challenge ''k'' (aw_hub after_restore) \<and>
   map cd_id (filter (\<lambda>c. cd_revokedAt c \<noteq> None) (au_credentials (h_auth (aw_hub after_restore)))) = [''p'']"
proof -
  have "fst (beginRecovery locking_controls 5 restored_owner) = Begin_Started demo_gen"
    by (simp add: beginRecovery_def locking_controls_def restored_owner_def owner_hub_def)
  then have b: "beginRecovery locking_controls 5 restored_owner = (Begin_Started demo_gen, snd (beginRecovery locking_controls 5 restored_owner))"
    by (metis prod.collapse)
  have r: "au_sessions (h_auth restored_owner) = [restored_session]" "au_challenges (h_auth restored_owner) = [demo_challenge]"
    "au_credentials (h_auth restored_owner) = [demo_passkey]"
    by (simp_all add: restored_owner_def owner_hub_def)
  have set: "auth_setting (wc_id ` set (au_challenges (h_auth restored_owner))) demo_auth"
    using demo_auth_setting by (simp add: r demo_challenge_def)
  have k: "auth_keys restored_owner" by (simp add: auth_keys_def r) (simp add: restored_owner_def owner_hub_def)
  have hooks: "rv_revokeRestoredAuth locking_controls = fst (createRecoveryHooks 5)"
    "rv_hasRegisteredOwner locking_controls = snd (createRecoveryHooks 5)" by (simp_all add: locking_controls_def)
  note l = restored_authentication_locked_out [OF b hooks set _ after_restore_def k after_restore_keys]
  have "map cd_id (au_credentials (h_auth (aw_hub after_restore))) = [''p'']" by code_simp
  moreover have "\<forall>c' \<in> set (au_credentials (h_auth (aw_hub after_restore))). cd_id c' = ''p'' \<longrightarrow> cd_revokedAt c' \<noteq> None"
    using l by (simp add: r demo_passkey_def)
  ultimately have "map cd_id (filter (\<lambda>c. cd_revokedAt c \<noteq> None) (au_credentials (h_auth (aw_hub after_restore)))) = [''p'']"
    by (auto simp: map_eq_Cons_conv)
  moreover have "\<not> open_challenge ''k'' (aw_hub after_restore)" using l by (simp add: r demo_challenge_def)
  moreover have "fst (verifySession demo_auth ''t'' after_restore) \<noteq> Inr info" for info
    using l by (simp add: r restored_session_def)
  ultimately show ?thesis by blast
qed

section \<open>The cap of live challenges\<close>

text \<open>
  Issuing deletes, counts and inserts in three statements. Two starts whose counts both come before
  the insertions pass the cap together; here the other writer inserts between the count and the insertion.
\<close>

definition full_hub :: hub where
  "full_hub = owner_hub\<lparr>h_auth := (h_auth owner_hub)\<lparr>au_challenges := replicate 31 demo_challenge\<rparr>\<rparr>"

definition racing_auth :: auth_ports where
  "racing_auth = demo_auth\<lparr>ap_env := (\<lambda>n h. if n = 1 then set_auth (\<lambda>t. t\<lparr>au_challenges := demo_challenge # au_challenges t\<rparr>) h else h)\<rparr>"

lemma racing_starts_pass_the_cap:
  "live_challenges Login (Some ''o'') 0 (aw_hub (snd (issueChallenge racing_auth Login (Some ''o'') ''d'' demo_gen 300000 0
     \<lparr>aw_time = 0, aw_hub = full_hub\<rparr>))) = 33"
  by code_simp

end
