(* ===== verification/Search_Query.thy ===== *)
theory Search_Query
  imports Send_Model
begin

text \<open>
  The search query language, \<open>packages/search/src/query.ts\<close>: the tokens of a query, the operators and
  their values, and the calendar dates of \<open>before:\<close> and \<open>after:\<close> as \<open>Date.UTC\<close> and its readers
  compute them. Compatibility normalisation of Unicode is a parameter.
\<close>

section \<open>Errors and normalisation\<close>

datatype search_error_code = SR_Invalid_Request | SR_Invalid_Query | SR_Not_Found | SR_Name_Conflict

fun search_http_status :: "search_error_code \<Rightarrow> int" where
  "search_http_status SR_Invalid_Request = 400"
| "search_http_status SR_Invalid_Query = 400"
| "search_http_status SR_Not_Found = 404"
| "search_http_status SR_Name_Conflict = 409"

function (sequential) collapse_spaces :: "string \<Rightarrow> string" where
  "collapse_spaces [] = []"
| "collapse_spaces (c # s) =
     (if is_space c then CHR '' '' # collapse_spaces (dropWhile is_space s) else c # collapse_spaces s)"
  by pat_completeness auto
termination by (relation "measure length") (auto simp: le_imp_less_Suc length_dropWhile_le)

definition normalizeIndexText :: "(string \<Rightarrow> string) \<Rightarrow> string \<Rightarrow> string" where
  "normalizeIndexText nfkc input = trim_string (collapse_spaces (to_lower (nfkc input)))"

section \<open>Queries\<close>

definition JEV_CLASSES :: "string list" where
  "JEV_CLASSES =
     [''correspondence'', ''receipt'', ''newsletter'', ''notification'', ''marketing'', ''security_alert'', ''bounce'',
      ''other'']"

record parsed_query =
  pq_text :: string
  pq_from :: "string list"
  pq_to :: "string list"
  pq_domains :: "string list"
  pq_types :: "string list"
  pq_unread :: bool
  pq_flagged :: bool
  pq_action :: bool
  pq_hasAttachment :: bool
  pq_before :: "millis option"
  pq_after :: "millis option"

definition emptyQuery :: parsed_query where
  "emptyQuery =
     \<lparr>pq_text = [], pq_from = [], pq_to = [], pq_domains = [], pq_types = [], pq_unread = False, pq_flagged = False,
      pq_action = False, pq_hasAttachment = False, pq_before = None, pq_after = None\<rparr>"

definition isQueryEmpty :: "parsed_query \<Rightarrow> bool" where
  "isQueryEmpty q \<longleftrightarrow>
     pq_text q = [] \<and> pq_from q = [] \<and> pq_to q = [] \<and> pq_domains q = [] \<and> pq_types q = [] \<and> \<not> pq_unread q \<and>
     \<not> pq_flagged q \<and> \<not> pq_action q \<and> \<not> pq_hasAttachment q \<and> pq_before q = None \<and> pq_after q = None"

section \<open>Tokens\<close>

datatype query_token = Tok_Operator string string | Tok_Quoted string | Tok_Plain string

definition is_letter :: "char \<Rightarrow> bool" where
  "is_letter c = (let n = char_code c in (65 \<le> n \<and> n \<le> 90) \<or> (97 \<le> n \<and> n \<le> 122))"

definition is_quote :: "char \<Rightarrow> bool" where
  "is_quote c \<longleftrightarrow> c = CHR 0x22"

text \<open>A double-quoted span at the start, if it is closed.\<close>

definition quoted_span :: "string \<Rightarrow> (string \<times> string) option" where
  "quoted_span s =
     (case s of
        [] \<Rightarrow> None
      | c # v \<Rightarrow>
          if is_quote c \<and> list_ex is_quote v
          then Some (takeWhile (\<lambda>c. \<not> is_quote c) v, tl (dropWhile (\<lambda>c. \<not> is_quote c) v))
          else None)"

definition is_plain :: "char \<Rightarrow> bool" where
  "is_plain c \<longleftrightarrow> \<not> is_space c \<and> \<not> is_quote c"

text \<open>One match of \<open>TOKEN_PATTERN\<close> at the start of the text, and what is left.\<close>

definition match_token :: "string \<Rightarrow> (query_token \<times> string) option" where
  "match_token s =
     (let letters = takeWhile is_letter s; rest = dropWhile is_letter s in
      if letters \<noteq> [] \<and> rest \<noteq> [] \<and> hd rest = CHR 0x3A
      then
        (case quoted_span (tl rest) of
           Some (v, left) \<Rightarrow> Some (Tok_Operator letters v, left)
         | None \<Rightarrow>
             Some (Tok_Operator letters (takeWhile (\<lambda>c. \<not> is_space c) (tl rest)), dropWhile (\<lambda>c. \<not> is_space c) (tl rest)))
      else
        (case quoted_span s of
           Some (v, left) \<Rightarrow> Some (Tok_Quoted v, left)
         | None \<Rightarrow>
             if takeWhile is_plain s = [] then None
             else Some (Tok_Plain (takeWhile is_plain s), dropWhile is_plain s)))"

lemma quoted_span_shorter:
  assumes "quoted_span s = Some (v, left)"
  shows "length left < length s"
proof -
  obtain c u where s: "s = c # u" and left: "left = tl (dropWhile (\<lambda>c. \<not> is_quote c) u)"
    using assms by (auto simp: quoted_span_def split: list.splits if_splits)
  show ?thesis unfolding s left using length_dropWhile_le [of "\<lambda>c. \<not> is_quote c" u] by simp
qed

lemma dropWhile_shorter: "takeWhile P s \<noteq> [] \<Longrightarrow> length (dropWhile P s) < length s"
  by (cases s) (auto simp: le_imp_less_Suc length_dropWhile_le split: if_splits)

lemma tl_shorter: "s \<noteq> [] \<Longrightarrow> length (tl s) < length s"
  by (cases s) auto

lemma match_token_shorter:
  assumes "match_token s = Some (t, left)"
  shows "length left < length s"
proof -
  let ?r = "dropWhile is_letter s"
  have r: "length (tl ?r) < length s" if "?r \<noteq> []"
    using tl_shorter [OF that] length_dropWhile_le [of is_letter s] by linarith
  have d: "length (dropWhile P (tl ?r)) < length s" if "?r \<noteq> []" for P
    using r [OF that] length_dropWhile_le [of P "tl ?r"] by linarith
  show ?thesis
    using assms r d quoted_span_shorter [of "tl ?r"] quoted_span_shorter [of s] dropWhile_shorter [of is_plain s]
    by (auto simp: match_token_def Let_def split: if_splits option.splits prod.splits dest!: quoted_span_shorter) 
qed

text \<open>All matches from left to right; where none starts, the next character is tried.\<close>

function (sequential) query_tokens :: "string \<Rightarrow> query_token list" where
  "query_tokens [] = []"
| "query_tokens (c # s) =
     (case match_token (c # s) of
        None \<Rightarrow> query_tokens s
      | Some (t, left) \<Rightarrow> t # query_tokens left)"
  by pat_completeness auto
termination by (relation "measure length") (auto dest: match_token_shorter)

section \<open>Dates\<close>

text \<open>The proleptic Gregorian calendar of ECMAScript: day numbers from 1970-01-01.\<close>

definition DayFromYear :: "int \<Rightarrow> int" where
  "DayFromYear y = 365 * (y - 1970) + (y - 1969) div 4 - (y - 1901) div 100 + (y - 1601) div 400"

definition leap_year :: "int \<Rightarrow> bool" where
  "leap_year y \<longleftrightarrow> y mod 4 = 0 \<and> (y mod 100 \<noteq> 0 \<or> y mod 400 = 0)"

definition month_starts :: "int \<Rightarrow> int list" where
  "month_starts y =
     (let l = (if leap_year y then 1 else 0)
      in [0, 31, 59 + l, 90 + l, 120 + l, 151 + l, 181 + l, 212 + l, 243 + l, 273 + l, 304 + l, 334 + l, 365 + l])"

definition MakeDay :: "int \<Rightarrow> int \<Rightarrow> int \<Rightarrow> int" where
  "MakeDay year month date =
     (let y = year + month div 12
      in DayFromYear y + month_starts y ! nat (month mod 12) + date - 1)"

text \<open>\<open>Date.UTC\<close> reads a year of two digits as one of the twentieth century.\<close>

definition UTC_day :: "int \<Rightarrow> int \<Rightarrow> int \<Rightarrow> int" where
  "UTC_day year month date = MakeDay (if 0 \<le> year \<and> year \<le> 99 then 1900 + year else year) month date"

definition YearFromDay :: "int \<Rightarrow> int" where
  "YearFromDay d =
     (let y = 1970 + 400 * d div 146097
      in if d < DayFromYear y then y - 1 else if DayFromYear (y + 1) \<le> d then y + 1 else y)"

definition MonthFromDay :: "int \<Rightarrow> int" where
  "MonthFromDay d =
     (let y = YearFromDay d in int (length (filter (\<lambda>s. s \<le> d - DayFromYear y) (month_starts y))) - 1)"

definition DateFromDay :: "int \<Rightarrow> int" where
  "DateFromDay d = d - DayFromYear (YearFromDay d) - month_starts (YearFromDay d) ! nat (MonthFromDay d) + 1"

definition is_digit :: "char \<Rightarrow> bool" where
  "is_digit c = (let n = char_code c in 48 \<le> n \<and> n \<le> 57)"

definition parse_digits :: "string \<Rightarrow> int" where
  "parse_digits s = foldl (\<lambda>n c. 10 * n + int (char_code c - 48)) 0 s"

definition date_shape :: "string \<Rightarrow> bool" where
  "date_shape s \<longleftrightarrow> length s = 10 \<and> list_all is_digit (take 4 s) \<and> s ! 4 = CHR 0x2D \<and>
     list_all is_digit (take 2 (drop 5 s)) \<and> s ! 7 = CHR 0x2D \<and> list_all is_digit (drop 8 s)"

definition date_fields :: "string \<Rightarrow> int \<times> int \<times> int" where
  "date_fields s = (parse_digits (take 4 s), parse_digits (take 2 (drop 5 s)), parse_digits (drop 8 s))"

definition parseDateBoundary :: "string \<Rightarrow> search_error_code + millis" where
  "parseDateBoundary value =
     (if \<not> date_shape value then Inl SR_Invalid_Query
      else
        (case date_fields value of
           (year, month, day) \<Rightarrow>
             (let date = UTC_day year (month - 1) day
              in if YearFromDay date \<noteq> year \<or> MonthFromDay date \<noteq> month - 1 \<or> DateFromDay date \<noteq> day
                 then Inl SR_Invalid_Query else Inr (86400000 * date))))"

section \<open>Operators\<close>

definition is_label_char :: "char \<Rightarrow> bool" where
  "is_label_char c = (let n = char_code c in (97 \<le> n \<and> n \<le> 122) \<or> (48 \<le> n \<and> n \<le> 57))"

definition domain_label :: "string \<Rightarrow> bool" where
  "domain_label s \<longleftrightarrow> s \<noteq> [] \<and> is_label_char (hd s) \<and> is_label_char (last s) \<and>
     list_all (\<lambda>c. is_label_char c \<or> c = CHR 0x2D) s"

text \<open>\<open>split(".")\<close>.\<close>

fun split_dots :: "string \<Rightarrow> string list" where
  "split_dots [] = [[]]"
| "split_dots (c # s) =
     (if c = CHR 0x2E then [] # split_dots s else (case split_dots s of [] \<Rightarrow> [[c]] | w # ws \<Rightarrow> (c # w) # ws))"

definition valid_domain :: "string \<Rightarrow> bool" where
  "valid_domain d \<longleftrightarrow> d \<noteq> [] \<and> length d \<le> 253 \<and> list_all domain_label (split_dots d)"

definition normalizeDomainValue :: "(string \<Rightarrow> string) \<Rightarrow> string \<Rightarrow> search_error_code + string" where
  "normalizeDomainValue nfkc value =
     (let normalized = normalizeIndexText nfkc value
      in if valid_domain normalized then Inr normalized else Inl SR_Invalid_Query)"

definition parseJevClass :: "(string \<Rightarrow> string) \<Rightarrow> string \<Rightarrow> search_error_code + string" where
  "parseJevClass nfkc value =
     (let normalized = normalizeIndexText nfkc value
      in if normalized \<in> set JEV_CLASSES then Inr normalized else Inl SR_Invalid_Query)"

definition requireValue :: "string \<Rightarrow> search_error_code + string" where
  "requireValue value =
     (let trimmed = trim_string value in if trimmed = [] then Inl SR_Invalid_Query else Inr trimmed)"

definition pushValue :: "'a \<Rightarrow> 'a list \<Rightarrow> 'a list" where
  "pushValue v xs = (if v \<in> set xs then xs else xs @ [v])"

definition applyIsOperator :: "string \<Rightarrow> parsed_query \<Rightarrow> search_error_code + parsed_query" where
  "applyIsOperator value q =
     (let v = to_lower value in
      if v = ''unread'' then Inr (q\<lparr>pq_unread := True\<rparr>)
      else if v = ''flagged'' then Inr (q\<lparr>pq_flagged := True\<rparr>)
      else if v = ''action'' then Inr (q\<lparr>pq_action := True\<rparr>)
      else Inl SR_Invalid_Query)"

definition applyOperator ::
    "(string \<Rightarrow> string) \<Rightarrow> string \<Rightarrow> string \<Rightarrow> parsed_query \<Rightarrow> search_error_code + parsed_query" where
  "applyOperator nfkc operator value q =
     (if operator = ''from'' then
        attempt (requireValue value) (\<lambda>v. Inr (q\<lparr>pq_from := pushValue (normalizeIndexText nfkc v) (pq_from q)\<rparr>))
      else if operator = ''to'' then
        attempt (requireValue value) (\<lambda>v. Inr (q\<lparr>pq_to := pushValue (normalizeIndexText nfkc v) (pq_to q)\<rparr>))
      else if operator = ''domain'' then
        attempt (requireValue value) (\<lambda>v. attempt (normalizeDomainValue nfkc v) (\<lambda>d.
          Inr (q\<lparr>pq_domains := pushValue d (pq_domains q)\<rparr>)))
      else if operator = ''type'' then
        attempt (requireValue value) (\<lambda>v. attempt (parseJevClass nfkc v) (\<lambda>t.
          Inr (q\<lparr>pq_types := pushValue t (pq_types q)\<rparr>)))
      else if operator = ''before'' then
        attempt (requireValue value) (\<lambda>v. attempt (parseDateBoundary v) (\<lambda>d. Inr (q\<lparr>pq_before := Some d\<rparr>)))
      else if operator = ''after'' then
        attempt (requireValue value) (\<lambda>v. attempt (parseDateBoundary v) (\<lambda>d. Inr (q\<lparr>pq_after := Some d\<rparr>)))
      else if operator = ''is'' then attempt (requireValue value) (\<lambda>v. applyIsOperator v q)
      else if operator = ''has'' then
        attempt (requireValue value) (\<lambda>v.
          if to_lower v \<noteq> ''attachment'' then Inl SR_Invalid_Query else Inr (q\<lparr>pq_hasAttachment := True\<rparr>))
      else Inl SR_Invalid_Query)"

text \<open>The query so far and the free text collected.\<close>

fun apply_tokens ::
    "(string \<Rightarrow> string) \<Rightarrow> query_token list \<Rightarrow> parsed_query \<Rightarrow> string list \<Rightarrow> search_error_code + parsed_query \<times> string list" where
  "apply_tokens nfkc [] q free = Inr (q, free)"
| "apply_tokens nfkc (Tok_Operator operator value # ts) q free =
     attempt (applyOperator nfkc (to_lower operator) value q) (\<lambda>q'. apply_tokens nfkc ts q' free)"
| "apply_tokens nfkc (Tok_Quoted s # ts) q free =
     apply_tokens nfkc ts q (if s = [] then free else free @ [[CHR 0x22] @ normalizeIndexText nfkc s @ [CHR 0x22]])"
| "apply_tokens nfkc (Tok_Plain s # ts) q free =
     apply_tokens nfkc ts q (if s = [] then free else free @ [normalizeIndexText nfkc s])"

definition parseSearchQuery :: "(string \<Rightarrow> string) \<Rightarrow> string \<Rightarrow> search_error_code + parsed_query" where
  "parseSearchQuery nfkc raw =
     (if odd (length (filter is_quote raw)) then Inl SR_Invalid_Query
      else
        attempt (apply_tokens nfkc (query_tokens raw) emptyQuery []) (\<lambda>(q, free).
          Inr (q\<lparr>pq_text := normalizeIndexText nfkc (join_space free)\<rparr>)))"

end
