(* ===== verification/Search_Match.thy ===== *)
theory Search_Match
  imports Search_Query
begin

text \<open>
  The text conditions of \<open>packages/search/src/service.ts\<close>: PostgreSQL's \<open>LIKE\<close>, the patterns of
  \<open>from:\<close>, \<open>to:\<close> and \<open>domain:\<close>, and what they select from an index text.
\<close>

section \<open>LIKE\<close>

text \<open>
  A percent sign stands for any text, an underscore for one character, and the character after a
  backslash for itself.
\<close>

function (sequential) like_match :: "string \<Rightarrow> string \<Rightarrow> bool" where
  "like_match [] t = (t = [])"
| "like_match (c # p) t =
     (if c = CHR 0x25 then (if like_match p t then True else case t of [] \<Rightarrow> False | _ # u \<Rightarrow> like_match (c # p) u)
      else if c = CHR 0x5C then
        (case p of [] \<Rightarrow> False | d # q \<Rightarrow> (case t of [] \<Rightarrow> False | x # u \<Rightarrow> if x = d then like_match q u else False))
      else (case t of [] \<Rightarrow> False | x # u \<Rightarrow> if c = CHR 0x5F \<or> x = c then like_match p u else False))"
  by pat_completeness auto
termination by (relation "measure (\<lambda>(p, t). length p + length t)") auto

definition escape_like :: "string \<Rightarrow> string" where
  "escape_like v = concat (map (\<lambda>c. if c \<in> {CHR 0x5C, CHR 0x25, CHR 0x5F} then [CHR 0x5C, c] else [c]) v)"

section \<open>Conditions\<close>

definition address_patterns :: "string \<Rightarrow> string list" where
  "address_patterns value =
     (let escaped = escape_like value
      in [[CHR 0x25] @ escaped, [CHR 0x25] @ escaped @ ''@%''] @
         (if CHR 0x40 \<in> set value then [[CHR 0x25] @ escaped @ '' ''] else []))"

definition addressCondition :: "string \<Rightarrow> string \<Rightarrow> bool" where
  "addressCondition column value \<longleftrightarrow> list_ex (\<lambda>pattern. like_match pattern column) (address_patterns value)"

definition domainCondition :: "string \<Rightarrow> string \<Rightarrow> bool" where
  "domainCondition addressesText domain \<longleftrightarrow>
     like_match (''%@'' @ domain) addressesText \<or> like_match (''%@'' @ domain @ '' %'') addressesText"

section \<open>What a pattern matches\<close>

lemma like_any: "like_match (CHR 0x25 # p) t \<longleftrightarrow> (\<exists>u w. t = u @ w \<and> like_match p w)"
proof (induction t)
  case Nil
  show ?case by simp
next
  case (Cons x t)
  have "(\<exists>u w. x # t = u @ w \<and> like_match p w) \<longleftrightarrow>
      like_match p (x # t) \<or> (\<exists>u w. t = u @ w \<and> like_match p w)"
    by (auto simp: Cons_eq_append_conv)
  with Cons show ?case by simp
qed

lemma like_literal: "like_match (escape_like v @ p) t \<longleftrightarrow> (\<exists>w. t = v @ w \<and> like_match p w)"
proof (induction v arbitrary: t)
  case Nil
  show ?case by (simp add: escape_like_def)
next
  case (Cons c v)
  have "like_match (escape_like (c # v) @ p) t \<longleftrightarrow> (\<exists>u. t = c # u \<and> like_match (escape_like v @ p) u)"
    by (cases t) (auto simp: escape_like_def)
  with Cons show ?case by auto
qed

lemma escape_plain: "\<forall>c \<in> set v. c \<notin> {CHR 0x5C, CHR 0x25, CHR 0x5F} \<Longrightarrow> escape_like v = v"
  by (induction v) (auto simp: escape_like_def)

lemma like_exact: "like_match (escape_like v) t \<longleftrightarrow> t = v"
  using like_literal [of v "[]"] by simp

lemma like_blank: "like_match ('' %'') t \<longleftrightarrow> (\<exists>w. t = '' '' @ w)"
  using like_literal [of "'' ''" "''%''" t] like_any [of "[]"] by (simp add: escape_like_def del: like_match.simps(2))

text \<open>
  What \<open>from:\<close> and \<open>to:\<close> select: texts that end in the value, hold it before an at-sign, or, for a
  value with an at-sign, end in it and a space.
\<close>

lemma addressCondition_iff:
  "addressCondition t v \<longleftrightarrow>
     (\<exists>u. t = u @ v) \<or> (\<exists>u w. t = u @ v @ ''@'' @ w) \<or> (CHR 0x40 \<in> set v \<and> (\<exists>u. t = u @ v @ '' ''))"
proof -
  have end_any: "like_match ''@%'' w \<longleftrightarrow> (\<exists>x. w = ''@'' @ x)" for w
    using like_literal [of "''@''" "''%''" w] like_any [of "[]"] by (simp add: escape_like_def del: like_match.simps(2))
  have end_space: "like_match '' '' w \<longleftrightarrow> w = '' ''" for w
    by (auto split: list.splits if_splits)
  have "addressCondition t v \<longleftrightarrow>
      (\<exists>u w. t = u @ w \<and> w = v) \<or> (\<exists>u w. t = u @ w \<and> (\<exists>x. w = v @ x \<and> (\<exists>y. x = ''@'' @ y))) \<or>
      (CHR 0x40 \<in> set v \<and> (\<exists>u w. t = u @ w \<and> (\<exists>x. w = v @ x \<and> x = '' '')))"
    unfolding addressCondition_def address_patterns_def Let_def
    by (simp add: like_any like_exact like_literal end_any end_space del: like_match.simps(2))
  moreover have "(\<exists>u w. t = u @ w \<and> (\<exists>x. w = v @ x \<and> (\<exists>y. x = ''@'' @ y))) \<longleftrightarrow> (\<exists>u w. t = u @ v @ ''@'' @ w)"
    by blast
  ultimately show ?thesis by simp
qed

section \<open>Words\<close>

lemma foldl_join: "foldl (\<lambda>a b. a @ '' '' @ b) (u @ w) ws = u @ foldl (\<lambda>a b. a @ '' '' @ b) w ws"
  by (induction ws arbitrary: w) simp_all

lemma join_space_simps [simp]:
  "join_space [] = []" "join_space [w] = w" "join_space (w # x # ws) = w @ '' '' @ join_space (x # ws)"
  using foldl_join [of "w @ '' ''" x ws] by (simp_all add: join_space_def)

text \<open>Words without spaces split off a text in one way.\<close>

lemma first_word:
  assumes "v @ CHR '' '' # r = w @ CHR '' '' # s" and "CHR '' '' \<notin> set v" and "CHR '' '' \<notin> set w"
  shows "v = w \<and> r = s"
  using assms by (induction v arbitrary: w) (auto simp: Cons_eq_append_conv)

text \<open>
  A value without spaces ends a word of a joined text exactly if it ends the text or a space
  follows it.
\<close>

lemma join_word_end:
  assumes "v \<noteq> []" and "CHR '' '' \<notin> set v" and "\<forall>w \<in> set ws. CHR '' '' \<notin> set w" and "ws \<noteq> []"
  shows "(\<exists>u. join_space ws = u @ v) \<or> (\<exists>u r. join_space ws = u @ v @ '' '' @ r) \<longleftrightarrow> (\<exists>w \<in> set ws. \<exists>u. w = u @ v)"
  using assms(3,4)
proof (induction ws rule: induct_list012)
  case (2 w)
  then show ?case by auto
next
  case (3 w x ws)
  let ?J = "join_space (x # ws)" and ?ends = "\<lambda>t. (\<exists>u. t = u @ v) \<or> (\<exists>u r. t = u @ v @ '' '' @ r)"
  have tail: "?ends ?J \<Longrightarrow> ?ends (w @ '' '' @ ?J)" by (metis append_assoc)
  have here: "w = u @ v \<Longrightarrow> ?ends (w @ '' '' @ ?J)" for u by auto
  have split: "?ends ?J \<or> (\<exists>u. w = u @ v)"
    if "w @ CHR '' '' # ?J = u @ v @ z" and z: "z = [] \<or> (\<exists>r. z = CHR '' '' # r)" for u z
  proof -
    from that(1) consider (within) us where "w = u @ us" "us @ CHR '' '' # ?J = v @ z"
      | (after) us where "u = w @ us" "CHR '' '' # ?J = us @ v @ z"
      by (auto simp: append_eq_append_conv2)
    then show ?thesis
    proof cases
      case within
      from z show ?thesis
      proof
        assume "z = []"
        then have "CHR '' '' \<in> set v" using within(2) by (metis append_Nil2 in_set_conv_decomp)
        with assms(2) show ?thesis by simp
      next
        assume "\<exists>r. z = CHR '' '' # r"
        then obtain r where "us @ CHR '' '' # ?J = v @ CHR '' '' # r" using within(2) by auto
        moreover have "CHR '' '' \<notin> set us" using within(1) 3(3) by auto
        ultimately have "us = v" using first_word assms(2) by blast
        with within(1) show ?thesis by blast
      qed
    next
      case after
      then obtain us' where "us = CHR '' '' # us'" using assms(1,2) by (cases us) (auto simp: Cons_eq_append_conv)
      with after(2) have "?J = us' @ v @ z" by simp
      with z show ?thesis by auto
    qed
  qed
  have ih: "?ends ?J \<longleftrightarrow> (\<exists>w \<in> set (x # ws). \<exists>u. w = u @ v)" using 3(2,3) by simp
  show ?case
  proof
    assume "?ends (join_space (w # x # ws))"
    then obtain u z where "w @ CHR '' '' # ?J = u @ v @ z" "z = [] \<or> (\<exists>r. z = CHR '' '' # r)"
      by (metis append.left_neutral append_Cons append_Nil2 join_space_simps(3))
    from split [OF this] ih show "\<exists>w \<in> set (w # x # ws). \<exists>u. w = u @ v" by auto
  next
    assume "\<exists>w \<in> set (w # x # ws). \<exists>u. w = u @ v"
    then have "?ends ?J \<or> (\<exists>u. w = u @ v)" using ih by auto
    then show "?ends (join_space (w # x # ws))" using tail here by auto
  qed
qed simp

end
