(* ===== verification/Search_Dates.thy ===== *)
theory Search_Dates
  imports Search_Query
begin

text \<open>
  The calendar: the readers of a day number invert its construction, and the date operators accept
  exactly the days of the calendar from the year 100 on.
\<close>

definition days_in_month :: "int \<Rightarrow> int \<Rightarrow> int" where
  "days_in_month y m = month_starts y ! nat (m + 1) - month_starts y ! nat m"

section \<open>Years\<close>

lemma div_next:
  fixes x k :: int
  assumes "0 < k"
  shows "(x + 1) div k = x div k + (if (x + 1) mod k = 0 then 1 else 0)"
proof (cases "x mod k + 1 = k")
  case True
  have x: "x + 1 = k * (x div k + 1)" using True mult_div_mod_eq [of k x] by (simp only: distrib_left mult_1_right)
  have "(x + 1) div k = x div k + 1" using assms unfolding x by simp
  moreover have "(x + 1) mod k = 0" unfolding x by simp
  ultimately show ?thesis by simp
next
  case False
  have r: "0 \<le> x mod k" "x mod k < k" using assms by simp_all
  have x: "x + 1 = k * (x div k) + (x mod k + 1)" by simp
  have s: "0 \<le> x mod k + 1" "x mod k + 1 < k" using r False by linarith+
  have "(x + 1) div k = x div k" by (rule int_div_pos_eq [OF x s])
  moreover have "(x + 1) mod k = x mod k + 1" by (rule int_mod_pos_eq [OF x s])
  ultimately show ?thesis using r by simp
qed

lemma mod_shift:
  fixes y c k :: int
  shows "k dvd c \<Longrightarrow> (y - c) mod k = 0 \<longleftrightarrow> y mod k = 0"
  by (simp add: mod_eq_0_iff_dvd dvd_diff_left_iff)

lemma leap_bits:
  "(C \<Longrightarrow> B) \<Longrightarrow> (B \<Longrightarrow> A) \<Longrightarrow>
     (if A then 1 else 0) - (if B then 1 else 0) + (if C then 1 else 0) = (if A \<and> (\<not> B \<or> C) then 1 else (0 :: int))"
  by auto

lemma year_length: "DayFromYear (y + 1) = DayFromYear y + 365 + (if leap_year y then 1 else 0)"
proof -
  have 4: "(y - 1968) div 4 = (y - 1969) div 4 + (if y mod 4 = 0 then 1 else 0)"
    using div_next [of 4 "y - 1969"] mod_shift [of 4 1968 y] by simp
  have 100: "(y - 1900) div 100 = (y - 1901) div 100 + (if y mod 100 = 0 then 1 else 0)"
    using div_next [of 100 "y - 1901"] mod_shift [of 100 1900 y] by simp
  have 400: "(y - 1600) div 400 = (y - 1601) div 400 + (if y mod 400 = 0 then 1 else 0)"
    using div_next [of 400 "y - 1601"] mod_shift [of 400 1600 y] by simp
  have c: "y mod 400 = 0 \<Longrightarrow> y mod 100 = 0" using dvd_trans [of 100 400 y] by (simp add: mod_eq_0_iff_dvd)
  have d: "y mod 100 = 0 \<Longrightarrow> y mod 4 = 0" using dvd_trans [of 4 100 y] by (simp add: mod_eq_0_iff_dvd)
  have "DayFromYear (y + 1) = 365 * (y - 1970) + 365 + (y - 1968) div 4 - (y - 1900) div 100 + (y - 1600) div 400"
    by (simp add: DayFromYear_def)
  also have "\<dots> = DayFromYear y + 365 +
      ((if y mod 4 = 0 then 1 else 0) - (if y mod 100 = 0 then 1 else 0) + (if y mod 400 = 0 then 1 else 0))"
    unfolding 4 100 400 by (simp add: DayFromYear_def)
  also have "(if y mod 4 = 0 then 1 else 0) - (if y mod 100 = 0 then 1 else 0) + (if y mod 400 = 0 then 1 else 0) =
      (if leap_year y then 1 else (0 :: int))"
    unfolding leap_year_def by (rule leap_bits [OF c d])
  finally show ?thesis .
qed

lemma floor_bounds:
  fixes x k :: int
  assumes "0 < k"
  shows "k * (x div k) \<le> x" "x < k * (x div k) + k"
proof -
  have "x = k * (x div k) + x mod k" by simp
  moreover have "0 \<le> x mod k" "x mod k < k" using assms by simp_all
  ultimately show "k * (x div k) \<le> x" "x < k * (x div k) + k" by linarith+
qed

lemma DayFromYear_bounds:
  "400 * DayFromYear y \<le> 146097 * (y - 1970) + 589" "146097 * (y - 1970) - 506 \<le> 400 * DayFromYear y"
proof -
  note f = floor_bounds [of 4 "y - 1969"] floor_bounds [of 100 "y - 1901"] floor_bounds [of 400 "y - 1601"]
  define p where "p = (y - 1969) div 4"
  define q where "q = (y - 1901) div 100"
  define r where "r = (y - 1601) div 400"
  have b: "4 * p \<le> y - 1969" "y - 1969 < 4 * p + 4" "100 * q \<le> y - 1901" "y - 1901 < 100 * q + 100"
    "400 * r \<le> y - 1601" "y - 1601 < 400 * r + 400" using f by (simp_all add: p_def q_def r_def)
  have D: "DayFromYear y = 365 * (y - 1970) + p - q + r" by (simp add: DayFromYear_def p_def q_def r_def)
  show "400 * DayFromYear y \<le> 146097 * (y - 1970) + 589" unfolding D using b by (simp add: algebra_simps)
  show "146097 * (y - 1970) - 506 \<le> 400 * DayFromYear y" unfolding D using b by (simp add: algebra_simps)
qed

lemma DayFromYear_mono:
  assumes "y < z"
  shows "DayFromYear (y + 1) \<le> DayFromYear z"
proof -
  have "DayFromYear (y + 1) \<le> DayFromYear (y + 1 + int n)" for n
  proof (induction n)
    case (Suc n)
    have "DayFromYear (y + 1 + int n) \<le> DayFromYear (y + 1 + int n + 1)" unfolding year_length by simp
    then show ?case using Suc by (simp add: algebra_simps)
  qed simp
  from this [of "nat (z - y - 1)"] assms show ?thesis by simp
qed

lemma YearFromDay_spec: "DayFromYear (YearFromDay d) \<le> d" "d < DayFromYear (YearFromDay d + 1)"
proof -
  define y where "y = 1970 + 400 * d div 146097"
  have q: "146097 * (y - 1970) \<le> 400 * d" "400 * d < 146097 * (y - 1970) + 146097"
    using floor_bounds [of 146097 "400 * d"] by (simp_all add: y_def)
  have lo: "DayFromYear (y - 1) \<le> d" using DayFromYear_bounds(1) [of "y - 1"] q by (simp add: algebra_simps)
  have hi: "d < DayFromYear (y + 1 + 1)" using DayFromYear_bounds(2) [of "y + 1 + 1"] q by (simp add: algebra_simps)
  have Y: "YearFromDay d = (if d < DayFromYear y then y - 1 else if DayFromYear (y + 1) \<le> d then y + 1 else y)"
    by (simp add: YearFromDay_def y_def Let_def)
  show "DayFromYear (YearFromDay d) \<le> d" "d < DayFromYear (YearFromDay d + 1)"
    unfolding Y using lo hi by auto
qed

lemma YearFromDay_eq:
  assumes "DayFromYear y \<le> d" and "d < DayFromYear (y + 1)"
  shows "YearFromDay d = y"
proof (rule ccontr)
  assume "YearFromDay d \<noteq> y"
  then consider "YearFromDay d < y" | "y < YearFromDay d" by linarith
  then show False
  proof cases
    case 1
    with DayFromYear_mono [OF 1] YearFromDay_spec(2) [of d] assms(1) show False by linarith
  next
    case 2
    with DayFromYear_mono [OF 2] YearFromDay_spec(1) [of d] assms(2) show False by linarith
  qed
qed

section \<open>Months\<close>

lemma month_cases:
  fixes m :: int
  assumes "0 \<le> m" "m \<le> 11"
  obtains "m = 0" | "m = 1" | "m = 2" | "m = 3" | "m = 4" | "m = 5" | "m = 6" | "m = 7" | "m = 8" | "m = 9" | "m = 10" | "m = 11"
proof -
  have "m = 0 \<or> m = 1 \<or> m = 2 \<or> m = 3 \<or> m = 4 \<or> m = 5 \<or> m = 6 \<or> m = 7 \<or> m = 8 \<or> m = 9 \<or> m = 10 \<or> m = 11"
    using assms by presburger
  then show ?thesis using that by blast
qed

text \<open>A day within a year: its month and what the readers make of it.\<close>

lemma month_of_start:
  assumes "0 \<le> m" "m \<le> 11" "1 \<le> d" "d \<le> days_in_month y m"
  shows "int (length (filter (\<lambda>s. s \<le> month_starts y ! nat m + d - 1) (month_starts y))) - 1 = m"
    and "0 \<le> month_starts y ! nat m + d - 1" and "month_starts y ! nat m + d - 1 < 365 + (if leap_year y then 1 else 0)"
  using assms(3,4) by (cases rule: month_cases [OF assms(1,2)]; simp add: month_starts_def days_in_month_def Let_def)+

lemma readers_of_date:
  assumes "0 \<le> m" "m \<le> 11" "1 \<le> d" "d \<le> days_in_month y m"
  shows "YearFromDay (MakeDay y m d) = y" "MonthFromDay (MakeDay y m d) = m" "DateFromDay (MakeDay y m d) = d"
proof -
  have k: "MakeDay y m d = DayFromYear y + (month_starts y ! nat m + d - 1)"
    using assms(1,2) by (simp add: MakeDay_def Let_def)
  show y: "YearFromDay (MakeDay y m d) = y"
    by (rule YearFromDay_eq) (use month_of_start(2,3) [OF assms] in \<open>simp_all add: k year_length\<close>)
  show m: "MonthFromDay (MakeDay y m d) = m"
    using month_of_start(1) [OF assms] by (simp add: MonthFromDay_def y Let_def) (simp add: k)
  show "DateFromDay (MakeDay y m d) = d" by (simp add: DateFromDay_def y m) (simp add: k)
qed

text \<open>What the readers give is a day of the calendar.\<close>

lemma count_starts:
  assumes "0 \<le> n" "n < 365 + (if leap_year y then 1 else 0)"
  defines "m \<equiv> int (length (filter (\<lambda>s. s \<le> n) (month_starts y))) - 1"
  shows "0 \<le> m" "m \<le> 11" "month_starts y ! nat m \<le> n" "n < month_starts y ! nat (m + 1)"
  using assms(1,2) unfolding m_def month_starts_def Let_def by (cases "leap_year y"; simp)+

lemma readers_range:
  "0 \<le> MonthFromDay d" "MonthFromDay d \<le> 11" "1 \<le> DateFromDay d" "DateFromDay d \<le> days_in_month (YearFromDay d) (MonthFromDay d)"
proof -
  let ?y = "YearFromDay d" and ?n = "d - DayFromYear (YearFromDay d)"
  have "0 \<le> ?n" "?n < 365 + (if leap_year ?y then 1 else 0)" using YearFromDay_spec [of d] by (simp_all add: year_length)
  note c = count_starts [OF this]
  have m: "MonthFromDay d = int (length (filter (\<lambda>s. s \<le> ?n) (month_starts ?y))) - 1" by (simp add: MonthFromDay_def Let_def)
  show "0 \<le> MonthFromDay d" "MonthFromDay d \<le> 11" unfolding m by (rule c)+
  show "1 \<le> DateFromDay d" using c(3) by (simp add: DateFromDay_def m)
  show "DateFromDay d \<le> days_in_month ?y (MonthFromDay d)" using c(4) by (simp add: DateFromDay_def days_in_month_def m)
qed

section \<open>Date boundaries\<close>

lemma digits_nonneg: "0 \<le> k \<Longrightarrow> 0 \<le> foldl (\<lambda>n c. 10 * n + int (char_code c - 48)) k s"
  by (induction s arbitrary: k) simp_all

lemma parse_digits_nonneg: "0 \<le> parse_digits s"
  unfolding parse_digits_def by (rule digits_nonneg) simp

text \<open>
  C36. The operators accept a date of the right shape exactly if it is a day of the calendar and its year
  is not below 100, and yield its midnight.
\<close>

theorem date_boundary_exact:
  "parseDateBoundary s = Inr t \<longleftrightarrow>
     date_shape s \<and>
     (case date_fields s of (y, m, d) \<Rightarrow>
        100 \<le> y \<and> 1 \<le> m \<and> m \<le> 12 \<and> 1 \<le> d \<and> d \<le> days_in_month y (m - 1) \<and> t = 86400000 * MakeDay y (m - 1) d)"
proof (cases "date_shape s")
  case True
  obtain y m d where f: "date_fields s = (y, m, d)" by (cases "date_fields s") auto
  have y0: "0 \<le> y" using f parse_digits_nonneg [of "take 4 s"] by (simp add: date_fields_def)
  let ?k = "UTC_day y (m - 1) d"
  have accept: "parseDateBoundary s = Inr t \<longleftrightarrow> YearFromDay ?k = y \<and> MonthFromDay ?k = m - 1 \<and> DateFromDay ?k = d \<and> t = 86400000 * ?k"
    using True f by (auto simp: parseDateBoundary_def Let_def)
  show ?thesis
  proof
    assume "parseDateBoundary s = Inr t"
    then have a: "YearFromDay ?k = y" "MonthFromDay ?k = m - 1" "DateFromDay ?k = d" "t = 86400000 * ?k"
      unfolding accept by auto
    note r = readers_range [of ?k, unfolded a(1-3)]
    have "100 \<le> y"
    proof (rule ccontr)
      assume "\<not> 100 \<le> y"
      then have "?k = MakeDay (1900 + y) (m - 1) d" using y0 by (simp add: UTC_day_def)
      moreover have "days_in_month (1900 + y) (m - 1) \<ge> 28 \<and> days_in_month y (m - 1) \<le> 31"
        by (cases rule: month_cases [OF r(1,2)]) (simp_all add: days_in_month_def month_starts_def Let_def)
      moreover have "YearFromDay (MakeDay (1900 + y) (m - 1) d) \<ge> 1900 + y"
      proof -
        have "month_starts (1900 + y) ! nat (m - 1) \<ge> 0"
          by (cases rule: month_cases [OF r(1,2)]) (simp_all add: month_starts_def Let_def)
        then have "DayFromYear (1900 + y) \<le> MakeDay (1900 + y) (m - 1) d" using r(1-3) by (simp add: MakeDay_def Let_def)
        then show ?thesis
          using YearFromDay_spec(2) [of "MakeDay (1900 + y) (m - 1) d"] DayFromYear_mono [of "YearFromDay (MakeDay (1900 + y) (m - 1) d)" "1900 + y"]
          by linarith
      qed
      ultimately show False using a(1) by simp
    qed
    then show "date_shape s \<and> (case date_fields s of (y, m, d) \<Rightarrow>
        100 \<le> y \<and> 1 \<le> m \<and> m \<le> 12 \<and> 1 \<le> d \<and> d \<le> days_in_month y (m - 1) \<and> t = 86400000 * MakeDay y (m - 1) d)"
      using True f r a(4) by (simp add: UTC_day_def)
  next
    assume "date_shape s \<and> (case date_fields s of (y, m, d) \<Rightarrow>
        100 \<le> y \<and> 1 \<le> m \<and> m \<le> 12 \<and> 1 \<le> d \<and> d \<le> days_in_month y (m - 1) \<and> t = 86400000 * MakeDay y (m - 1) d)"
    then have v: "100 \<le> y" "0 \<le> m - 1" "m - 1 \<le> 11" "1 \<le> d" "d \<le> days_in_month y (m - 1)" "t = 86400000 * MakeDay y (m - 1) d"
      using f by auto
    have "?k = MakeDay y (m - 1) d" using v(1) by (simp add: UTC_day_def)
    then show "parseDateBoundary s = Inr t" unfolding accept using readers_of_date [OF v(2-5)] v(6) by simp
  qed
next
  case False
  then show ?thesis by (simp add: parseDateBoundary_def)
qed

end
