(* ===== verification/Search_Service.thy ===== *)
theory Search_Service
  imports Search_Match Search_Dates "HOL-Library.Product_Lexorder"
begin

text \<open>
  The search service, \<open>packages/search/src/service.ts\<close>: the input of a search, its conditions over the
  mirrored mail, its pages, and the saved searches. The full-text vector, its rank and its headlines are
  PostgreSQL's and parameters. Every query has a state of its own as argument, because other writers
  commit between them.
\<close>

section \<open>State and parameters\<close>

record search_scope =
  sx_accountIds :: "string list option"
  sx_folderId :: "string option"
  sx_domains :: "string list option"
  sx_localOnly :: bool

record saved_search =
  sv_id :: uuid
  sv_name :: string
  sv_query :: string
  sv_scope :: search_scope
  sv_createdAt :: millis
  sv_updatedAt :: millis

text \<open>
  The tables, the columns of messages and accounts only searches read, and the saved searches.
\<close>

record search_state =
  st_hub :: hub
  st_classHint :: "uuid \<Rightarrow> string option"
  st_asksAction :: "uuid \<Rightarrow> bool option"
  st_label :: "uuid \<Rightarrow> string"
  st_color :: "uuid \<Rightarrow> string"
  st_savedSearches :: "saved_search list"

text \<open>\<open>NFKC\<close>, and what PostgreSQL computes of a text query; ranks are compared only.\<close>

record search_ports =
  ft_nfkc :: "string \<Rightarrow> string"
  ft_matches :: "string \<Rightarrow> message_row \<Rightarrow> bool"
  ft_rank :: "string \<Rightarrow> message_row \<Rightarrow> int"
  ft_textMatches :: "string \<Rightarrow> string \<Rightarrow> bool"
  ft_headlineSubject :: "string \<Rightarrow> string \<Rightarrow> string"
  ft_headlineBody :: "string \<Rightarrow> string \<Rightarrow> string"

datatype search_fail = Search_Recovery recovery_error | Search_Rejected search_error_code

section \<open>Inputs\<close>

definition MAX_QUERY_CHARS :: nat where "MAX_QUERY_CHARS = 2000"
definition DEFAULT_SEARCH_LIMIT :: int where "DEFAULT_SEARCH_LIMIT = 50"
definition MAX_SEARCH_LIMIT :: int where "MAX_SEARCH_LIMIT = 100"
definition MAX_SEARCH_OFFSET :: int where "MAX_SEARCH_OFFSET = 10000"
definition MAX_ACCOUNT_FILTERS :: nat where "MAX_ACCOUNT_FILTERS = 20"
definition MAX_DOMAIN_FILTERS :: nat where "MAX_DOMAIN_FILTERS = 10"
definition MAX_SAVED_SEARCH_NAME_CHARS :: nat where "MAX_SAVED_SEARCH_NAME_CHARS = 100"

record search_input =
  in_query :: string
  in_accountIds :: "string list option"
  in_folderId :: "string option"
  in_domains :: "string list option"
  in_localOnly :: bool
  in_limit :: "int option"
  in_offset :: "int option"

definition readQueryText :: "string \<Rightarrow> search_error_code + string" where
  "readQueryText query =
     (if length query > MAX_QUERY_CHARS then Inl SR_Invalid_Request else Inr (trim_string query))"

fun unique_uuids :: "string list \<Rightarrow> string list \<Rightarrow> search_error_code + string list" where
  "unique_uuids unique [] = Inr unique"
| "unique_uuids unique (i # is) =
     (if \<not> is_uuid i then Inl SR_Invalid_Request
      else unique_uuids (if i \<in> set unique then unique else unique @ [i]) is)"

definition readAccountFilters :: "string list option \<Rightarrow> search_error_code + string list option" where
  "readAccountFilters accountIds =
     (case accountIds of
        None \<Rightarrow> Inr None
      | Some ids \<Rightarrow>
          if ids = [] then Inr None
          else if length ids > MAX_ACCOUNT_FILTERS then Inl SR_Invalid_Request
          else attempt (unique_uuids [] ids) (\<lambda>u. Inr (Some u)))"

fun normalize_domains :: "(string \<Rightarrow> string) \<Rightarrow> string list \<Rightarrow> search_error_code + string list" where
  "normalize_domains nfkc [] = Inr []"
| "normalize_domains nfkc (d # ds) =
     (case normalizeDomainValue nfkc d of
        Inl _ \<Rightarrow> Inl SR_Invalid_Request
      | Inr n \<Rightarrow> attempt (normalize_domains nfkc ds) (\<lambda>ns. Inr (n # ns)))"

definition readDomainFilters :: "(string \<Rightarrow> string) \<Rightarrow> string list option \<Rightarrow> search_error_code + string list" where
  "readDomainFilters nfkc domains =
     (case domains of
        None \<Rightarrow> Inr []
      | Some ds \<Rightarrow>
          if length ds > MAX_DOMAIN_FILTERS then Inl SR_Invalid_Request else normalize_domains nfkc ds)"

definition readFolderFilter :: "string option \<Rightarrow> search_error_code + string option" where
  "readFolderFilter folderId =
     (case folderId of
        None \<Rightarrow> Inr None
      | Some i \<Rightarrow> if i = [] then Inr None else if \<not> is_uuid i then Inl SR_Invalid_Request else Inr (Some i))"

definition readLimit :: "int option \<Rightarrow> search_error_code + int" where
  "readLimit limit =
     (case limit of
        None \<Rightarrow> Inr DEFAULT_SEARCH_LIMIT
      | Some n \<Rightarrow> if n < 1 \<or> n > MAX_SEARCH_LIMIT then Inl SR_Invalid_Request else Inr n)"

definition readOffset :: "int option \<Rightarrow> search_error_code + int" where
  "readOffset offset =
     (case offset of
        None \<Rightarrow> Inr 0
      | Some n \<Rightarrow> if n < 0 \<or> n > MAX_SEARCH_OFFSET then Inl SR_Invalid_Request else Inr n)"

section \<open>Occurrences\<close>

text \<open>The active occurrences of a message inside the requested folder scope.\<close>

definition active_in_scope :: "string option \<Rightarrow> uuid \<Rightarrow> occurrence_row \<Rightarrow> bool" where
  "active_in_scope folderId messageId oc \<longleftrightarrow>
     oc_messageId oc = messageId \<and> oc_expungedAt oc = None \<and> oc_invalidatedAt oc = None \<and>
     (case folderId of None \<Rightarrow> True | Some f \<Rightarrow> oc_folderId oc = pg_uuid f)"

datatype flag_column = Unread_Column | Flagged_Column

definition flagCondition :: "flag_column \<Rightarrow> string option \<Rightarrow> hub \<Rightarrow> uuid \<Rightarrow> bool" where
  "flagCondition column folderId h messageId \<longleftrightarrow>
     list_ex (\<lambda>oc. active_in_scope folderId messageId oc \<and>
         (case column of Unread_Column \<Rightarrow> oc_unread oc | Flagged_Column \<Rightarrow> oc_flagged oc))
       (h_occurrences h)"

text \<open>The send time, or else the earliest internal date of any occurrence.\<close>

definition effectiveAt :: "hub \<Rightarrow> message_row \<Rightarrow> millis option" where
  "effectiveAt h m =
     (case ms_sentAt m of
        Some t \<Rightarrow> Some t
      | None \<Rightarrow>
          (case map oc_internalDate (filter (\<lambda>oc. oc_messageId oc = ms_id m) (h_occurrences h)) of
             [] \<Rightarrow> None
           | t # ts \<Rightarrow> Some (foldl min t ts)))"

section \<open>Searches\<close>

record search_filters =
  sf_parsed :: parsed_query
  sf_accountIds :: "string list option"
  sf_folderId :: "string option"
  sf_domains :: "string list"
  sf_localOnly :: bool

definition search_conditions :: "search_ports \<Rightarrow> search_filters \<Rightarrow> search_state \<Rightarrow> (message_row \<Rightarrow> bool) list" where
  "search_conditions p f s =
     (let parsed = sf_parsed f; h = st_hub s; folderId = sf_folderId f in
      (if pq_text parsed \<noteq> [] then [\<lambda>m. ft_matches p (pq_text parsed) m] else []) @
      map (\<lambda>value m. addressCondition (ms_senderText m) value) (pq_from parsed) @
      map (\<lambda>value m. addressCondition (ms_recipientsText m) value) (pq_to parsed) @
      map (\<lambda>domain m. domainCondition (ms_addressesText m) domain) (pq_domains parsed @ sf_domains f) @
      (if pq_types parsed \<noteq> []
       then [\<lambda>m. case st_classHint s (ms_id m) of None \<Rightarrow> False | Some c \<Rightarrow> c \<in> set (pq_types parsed)] else []) @
      (if pq_action parsed then [\<lambda>m. st_asksAction s (ms_id m) = Some True] else []) @
      (if pq_hasAttachment parsed then [ms_hasAttachments] else []) @
      (if pq_unread parsed then [\<lambda>m. flagCondition Unread_Column folderId h (ms_id m)] else []) @
      (if pq_flagged parsed then [\<lambda>m. flagCondition Flagged_Column folderId h (ms_id m)] else []) @
      (case pq_before parsed of
         None \<Rightarrow> []
       | Some b \<Rightarrow> [\<lambda>m. case effectiveAt h m of None \<Rightarrow> False | Some t \<Rightarrow> t < b]) @
      (case pq_after parsed of
         None \<Rightarrow> []
       | Some a \<Rightarrow> [\<lambda>m. case effectiveAt h m of None \<Rightarrow> False | Some t \<Rightarrow> a < t]) @
      (case sf_accountIds f of None \<Rightarrow> [] | Some ids \<Rightarrow> [\<lambda>m. ms_accountId m \<in> set (map pg_uuid ids)]) @
      (case folderId of
         None \<Rightarrow> []
       | Some _ \<Rightarrow> [\<lambda>m. list_ex (active_in_scope folderId (ms_id m)) (h_occurrences h)]) @
      (if sf_localOnly f
       then [\<lambda>m. \<not> list_ex (active_in_scope None (ms_id m)) (h_occurrences h)] else []))"

text \<open>The joined rows: a message, its account, and its outgoing record if it has one.\<close>

definition search_rows :: "search_state \<Rightarrow> (message_row \<times> account_row \<times> outbound_row option) list" where
  "search_rows s =
     concat (map (\<lambda>m. concat (map (\<lambda>a.
         (case filter (\<lambda>ob. ob_logicalMessageId ob = Some (ms_id m)) (h_outbound (st_hub s)) of
            [] \<Rightarrow> [(m, a, None)]
          | obs \<Rightarrow> map (\<lambda>ob. (m, a, Some ob)) obs))
       (filter (\<lambda>a. acc_id a = ms_accountId m) (h_accounts (st_hub s))))) (h_messages (st_hub s)))"

definition matching_rows ::
    "search_ports \<Rightarrow> search_filters \<Rightarrow> search_state \<Rightarrow> (message_row \<times> account_row \<times> outbound_row option) list" where
  "matching_rows p f s =
     filter (\<lambda>(m, _, _). list_all (\<lambda>condition. condition m) (search_conditions p f s)) (search_rows s)"

definition search_rank :: "search_ports \<Rightarrow> parsed_query \<Rightarrow> message_row \<Rightarrow> int option" where
  "search_rank p parsed m = (if pq_text parsed \<noteq> [] then Some (ft_rank p (pq_text parsed) m) else None)"

definition row_order ::
    "search_ports \<Rightarrow> parsed_query \<Rightarrow> hub \<Rightarrow> message_row \<times> account_row \<times> outbound_row option \<Rightarrow>
     (nat \<times> int) \<times> (nat \<times> int) \<times> string" where
  "row_order p parsed h r =
     (case r of (m, _, _) \<Rightarrow>
        (desc_nulls_last (search_rank p parsed m), desc_nulls_last (effectiveAt h m), ms_id m))"

definition ordered_rows ::
    "search_ports \<Rightarrow> search_filters \<Rightarrow> search_state \<Rightarrow> (message_row \<times> account_row \<times> outbound_row option) list" where
  "ordered_rows p f s = sort_key (row_order p (sf_parsed f) (st_hub s)) (matching_rows p f s)"

section \<open>Results\<close>

datatype highlight_source = Subject_Highlight | Body_Highlight

record occurrence_ref =
  rf_occurrenceId :: uuid
  rf_folderId :: uuid
  rf_revision :: int
  rf_modseq :: "string option"

record search_hit =
  hit_messageId :: uuid
  hit_accountId :: uuid
  hit_accountLabel :: string
  hit_accountColor :: string
  hit_threadId :: "uuid option"
  hit_subject :: "string option"
  hit_snippet :: "string option"
  hit_sender :: "email_address option"
  hit_sentAt :: "millis option"
  hit_fetchedBody :: bool
  hit_hasAttachments :: bool
  hit_unread :: bool
  hit_flagged :: bool
  hit_activeOccurrences :: int
  hit_occurrences :: "occurrence_ref list"
  hit_noServerCopy :: bool
  hit_sentCopyStatus :: "sent_copy_status option"
  hit_rank :: "int option"
  hit_highlight :: "string option"
  hit_highlightSource :: "highlight_source option"

record search_result =
  res_results :: "search_hit list"
  res_total :: int
  res_indexing :: "int \<times> int"

definition highlight_source :: "search_ports \<Rightarrow> parsed_query \<Rightarrow> message_row \<Rightarrow> highlight_source option" where
  "highlight_source p parsed m =
     (if pq_text parsed = [] then None
      else if ft_textMatches p (pq_text parsed) (ms_subjectText m) then Some Subject_Highlight
      else if ft_textMatches p (pq_text parsed) (ms_bodyIndexText m) then Some Body_Highlight
      else None)"

definition nullif_empty :: "string \<Rightarrow> string option" where
  "nullif_empty s = (if s = [] then None else Some s)"

definition highlight :: "search_ports \<Rightarrow> parsed_query \<Rightarrow> message_row \<Rightarrow> string option" where
  "highlight p parsed m =
     (case highlight_source p parsed m of
        None \<Rightarrow> None
      | Some Subject_Highlight \<Rightarrow>
          nullif_empty (ft_headlineSubject p (pq_text parsed) (case ms_subject m of None \<Rightarrow> ms_subjectText m | Some t \<Rightarrow> t))
      | Some Body_Highlight \<Rightarrow> nullif_empty (ft_headlineBody p (pq_text parsed) (ms_bodyIndexText m)))"

definition toHit ::
    "search_ports \<Rightarrow> search_filters \<Rightarrow> search_state \<Rightarrow> message_row \<times> account_row \<times> outbound_row option \<Rightarrow> search_hit" where
  "toHit p f s r =
     (case r of (m, a, ob) \<Rightarrow>
       (let h = st_hub s; parsed = sf_parsed f; folderId = sf_folderId f;
            occurrences = filter (active_in_scope folderId (ms_id m)) (h_occurrences h)
        in \<lparr>hit_messageId = ms_id m, hit_accountId = ms_accountId m, hit_accountLabel = st_label s (acc_id a),
            hit_accountColor = st_color s (acc_id a), hit_threadId = ms_threadId m, hit_subject = ms_subject m,
            hit_snippet = ms_snippet m, hit_sender = ms_sender m, hit_sentAt = effectiveAt h m,
            hit_fetchedBody = ms_fetchedBody m, hit_hasAttachments = ms_hasAttachments m,
            hit_unread = flagCondition Unread_Column folderId h (ms_id m),
            hit_flagged = flagCondition Flagged_Column folderId h (ms_id m),
            hit_activeOccurrences = int (length occurrences),
            hit_occurrences =
              map (\<lambda>oc. \<lparr>rf_occurrenceId = oc_id oc, rf_folderId = oc_folderId oc, rf_revision = oc_revision oc,
                         rf_modseq = oc_modseq oc\<rparr>) (sort_key oc_uid occurrences),
            hit_noServerCopy = (occurrences = []),
            hit_sentCopyStatus = map_option ob_sentCopyStatus ob,
            hit_rank = search_rank p parsed m, hit_highlight = highlight p parsed m,
            hit_highlightSource = highlight_source p parsed m\<rparr>))"

definition bodyIndexingProgress :: "string list option \<Rightarrow> search_state \<Rightarrow> int \<times> int" where
  "bodyIndexingProgress accountIds s =
     (let ms = filter (\<lambda>m. case accountIds of
                 None \<Rightarrow> True
               | Some ids \<Rightarrow> ids = [] \<or> ms_accountId m \<in> set (map pg_uuid ids)) (h_messages (st_hub s))
      in (int (length ms), int (length (filter ms_fetchedBody ms))))"

definition read_filters :: "search_ports \<Rightarrow> search_input \<Rightarrow> search_error_code + search_filters \<times> int \<times> int" where
  "read_filters p input =
     attempt (readQueryText (in_query input)) (\<lambda>text.
     attempt (parseSearchQuery (ft_nfkc p) text) (\<lambda>parsed.
     attempt (readAccountFilters (in_accountIds input)) (\<lambda>accountIds.
     attempt (readDomainFilters (ft_nfkc p) (in_domains input)) (\<lambda>domains.
     attempt (readFolderFilter (in_folderId input)) (\<lambda>folderId.
     attempt (readLimit (in_limit input)) (\<lambda>limit.
     attempt (readOffset (in_offset input)) (\<lambda>offset.
       Inr (\<lparr>sf_parsed = parsed, sf_accountIds = accountIds, sf_folderId = folderId, sf_domains = domains,
             sf_localOnly = in_localOnly input\<rparr>, limit, offset))))))))"

text \<open>A search, with the states at its page query, its recount and its progress query.\<close>

definition search ::
    "search_ports \<Rightarrow> search_input \<Rightarrow> search_state \<Rightarrow> search_state \<Rightarrow> search_state \<Rightarrow> search_error_code + search_result" where
  "search p input s s' s'' =
     attempt (read_filters p input) (\<lambda>(f, limit, offset).
       (let ordered = ordered_rows p f s;
            rows = take (nat limit) (drop (nat offset) ordered)
        in Inr \<lparr>res_results = map (toHit p f s) rows,
                res_total =
                  (if rows \<noteq> [] then int (length ordered)
                   else if offset > 0 then int (length (matching_rows p f s')) else 0),
                res_indexing = bodyIndexingProgress (sf_accountIds f) s''\<rparr>))"

section \<open>Saved searches\<close>

definition readSavedSearchName :: "string \<Rightarrow> search_error_code + string" where
  "readSavedSearchName name =
     (let trimmed = trim_string name
      in if trimmed = [] \<or> length trimmed > MAX_SAVED_SEARCH_NAME_CHARS then Inl SR_Invalid_Request else Inr trimmed)"

definition no_scope :: search_scope where
  "no_scope = \<lparr>sx_accountIds = None, sx_folderId = None, sx_domains = None, sx_localOnly = False\<rparr>"

definition readSavedSearchScope :: "(string \<Rightarrow> string) \<Rightarrow> search_scope option \<Rightarrow> search_error_code + search_scope" where
  "readSavedSearchScope nfkc scope =
     (case scope of
        None \<Rightarrow> Inr no_scope
      | Some sc \<Rightarrow>
          attempt (readAccountFilters (sx_accountIds sc)) (\<lambda>accountIds.
          attempt (readFolderFilter (sx_folderId sc)) (\<lambda>folderId.
          attempt (case sx_domains sc of
                     None \<Rightarrow> Inr None
                   | Some ds \<Rightarrow> attempt (readDomainFilters nfkc (Some ds)) (\<lambda>domains. Inr (Some domains))) (\<lambda>domains.
            Inr \<lparr>sx_accountIds = accountIds, sx_folderId = folderId, sx_domains = domains,
                 sx_localOnly = sx_localOnly sc\<rparr>))))"

definition scope_json :: "search_scope \<Rightarrow> json" where
  "scope_json sc =
     JObj ((case sx_accountIds sc of None \<Rightarrow> [] | Some ids \<Rightarrow> [(''accountIds'', JArr (map JStr ids))]) @
       (case sx_folderId sc of None \<Rightarrow> [] | Some f \<Rightarrow> [(''folderId'', JStr f)]) @
       (case sx_domains sc of None \<Rightarrow> [] | Some ds \<Rightarrow> [(''domains'', JArr (map JStr ds))]) @
       (if sx_localOnly sc then [(''localOnly'', JBool True)] else []))"

definition saved_search_event :: "string \<Rightarrow> uuid \<Rightarrow> (string \<times> json) list \<Rightarrow> search_state \<Rightarrow> search_state" where
  "saved_search_event type i payload s =
     s\<lparr>st_hub := add_event \<lparr>ev_actor = User_Actor, ev_type = type, ev_entityType = ''saved_search'',
        ev_entityId = Some i, ev_payload = payload\<rparr> (st_hub s)\<rparr>"

text \<open>
  A new saved search, with the state at the recovery gate and the state of the transaction; the
  identifier is the column's default.
\<close>

definition createSavedSearch ::
    "search_ports \<Rightarrow> recovery_controls \<Rightarrow> string option \<Rightarrow> string \<Rightarrow> string \<Rightarrow> search_scope option \<Rightarrow> uuid \<Rightarrow> millis \<Rightarrow>
     search_state \<Rightarrow> search_state \<Rightarrow> (search_fail + saved_search) \<times> search_state" where
  "createSavedSearch p rv requestGeneration name query scope i now s0 s =
     (case gateMutation rv requestGeneration (st_hub s0) of
        Inl e \<Rightarrow> (Inl (Search_Recovery e), s)
      | Inr _ \<Rightarrow>
          (case attempt (readSavedSearchName name) (\<lambda>trimmed.
                attempt (readQueryText query) (\<lambda>text.
                attempt (parseSearchQuery (ft_nfkc p) text) (\<lambda>_.
                attempt (readSavedSearchScope (ft_nfkc p) scope) (\<lambda>clean. Inr (trimmed, clean))))) of
             Inl e \<Rightarrow> (Inl (Search_Rejected e), s)
           | Inr (trimmed, clean) \<Rightarrow>
               if list_ex (\<lambda>r. sv_name r = trimmed) (st_savedSearches s)
               then (Inl (Search_Rejected SR_Name_Conflict), s)
               else
                 (let r = \<lparr>sv_id = i, sv_name = trimmed, sv_query = trim_string query, sv_scope = clean,
                           sv_createdAt = now, sv_updatedAt = now\<rparr>
                  in (Inr r, saved_search_event ''search.saved_created'' i
                        [(''name'', JStr trimmed), (''scope'', scope_json clean)]
                        (s\<lparr>st_savedSearches := st_savedSearches s @ [r]\<rparr>)))))"

definition deleteSavedSearch ::
    "recovery_controls \<Rightarrow> string option \<Rightarrow> string \<Rightarrow> search_state \<Rightarrow> search_state \<Rightarrow> (search_fail + unit) \<times> search_state" where
  "deleteSavedSearch rv requestGeneration i s0 s =
     (case gateMutation rv requestGeneration (st_hub s0) of
        Inl e \<Rightarrow> (Inl (Search_Recovery e), s)
      | Inr _ \<Rightarrow>
          if \<not> is_uuid i then (Inl (Search_Rejected SR_Invalid_Request), s)
          else
            (case find (\<lambda>r. sv_id r = pg_uuid i) (st_savedSearches s) of
               None \<Rightarrow> (Inl (Search_Rejected SR_Not_Found), s)
             | Some r \<Rightarrow>
                 (Inr (), saved_search_event ''search.saved_deleted'' (sv_id r) [(''name'', JStr (sv_name r))]
                    (s\<lparr>st_savedSearches := filter (\<lambda>x. sv_id x \<noteq> pg_uuid i) (st_savedSearches s)\<rparr>))))"

definition listSavedSearches :: "search_state \<Rightarrow> saved_search list" where
  "listSavedSearches s = sort_key (\<lambda>r. (sv_createdAt r, sv_name r)) (st_savedSearches s)"

text \<open>The search a client runs for a saved search.\<close>

definition saved_input :: "saved_search \<Rightarrow> search_input" where
  "saved_input r =
     \<lparr>in_query = sv_query r, in_accountIds = sx_accountIds (sv_scope r), in_folderId = sx_folderId (sv_scope r),
      in_domains = sx_domains (sv_scope r), in_localOnly = sx_localOnly (sv_scope r), in_limit = None, in_offset = None\<rparr>"

end
