(* ===== verification/Search_Properties.thy ===== *)
theory Search_Properties
  imports Search_Service
begin

text \<open>
  Properties of searches: what the query parser yields, which messages a domain filter selects, that
  the pages of a search partition its matches, and that a stored search can always be run.
\<close>

section \<open>Normalised text\<close>

lemma trim_trim [simp]: "trim_string (trim_string s) = trim_string s"
proof -
  let ?a = "dropWhile is_space s"
  let ?b = "rev (dropWhile is_space (rev ?a))"
  have "dropWhile is_space ?b = ?b"
  proof (cases ?b)
    case (Cons c b)
    have "rev ?a = takeWhile is_space (rev ?a) @ rev ?b" by simp
    then have "?a = ?b @ rev (takeWhile is_space (rev ?a))" by (metis rev_append rev_rev_ident)
    then have "hd ?a = c" and "?a \<noteq> []" using Cons by (metis append_Cons list.sel(1), metis append_Cons list.distinct(1))
    then have "\<not> is_space c" using hd_dropWhile by metis
    with Cons show ?thesis by simp
  next
    case Nil
    then show ?thesis by (simp only: dropWhile.simps)
  qed
  then show ?thesis by (simp add: trim_string_def dropWhile_no_start)
qed

lemma trim_ends:
  assumes "trim_string s \<noteq> []"
  shows "\<not> is_space (last (trim_string s))"
proof -
  have "dropWhile is_space (rev (dropWhile is_space s)) \<noteq> []" using assms by (simp add: trim_string_def)
  from hd_dropWhile [OF this] show ?thesis by (simp add: trim_string_def last_rev)
qed

lemma collapse_none: "\<forall>c \<in> set s. \<not> is_space c \<Longrightarrow> collapse_spaces s = s"
  by (induction s) auto

lemma split_dots_covers: "c \<in> set s \<Longrightarrow> c = CHR 0x2E \<or> (\<exists>w \<in> set (split_dots s). c \<in> set w)"
proof (induction s)
  case (Cons x s)
  then show ?case by (cases "split_dots s") auto
qed simp

definition domain_char :: "char \<Rightarrow> bool" where
  "domain_char c \<longleftrightarrow> is_label_char c \<or> c = CHR 0x2D \<or> c = CHR 0x2E"

lemma valid_domain_chars:
  assumes "valid_domain d" and "c \<in> set d"
  shows "domain_char c"
proof (cases "c = CHR 0x2E")
  case False
  then obtain w where "w \<in> set (split_dots d)" "c \<in> set w" using split_dots_covers assms(2) by blast
  with assms(1) show ?thesis by (auto simp: valid_domain_def domain_label_def list_all_iff domain_char_def)
qed (simp add: domain_char_def)

lemma domain_char_code:
  assumes "domain_char c"
  shows "(97 \<le> char_code c \<and> char_code c \<le> 122) \<or> (45 \<le> char_code c \<and> char_code c \<le> 57)"
proof -
  consider "is_label_char c" | "c = CHR 0x2D" | "c = CHR 0x2E" using assms unfolding domain_char_def by blast
  then show ?thesis
  proof cases
    case 1
    then show ?thesis by (auto simp: is_label_char_def Let_def)
  qed (simp_all add: char_code_def)
qed

text \<open>
  Compatibility normalisation keeps text without characters from 128 on, and treats the two sides of
  a space apart: both are laws of the Unicode normalisation forms.
\<close>

definition keeps_ascii :: "(string \<Rightarrow> string) \<Rightarrow> bool" where
  "keeps_ascii nfkc \<longleftrightarrow> (\<forall>s. (\<forall>c \<in> set s. char_code c < 128) \<longrightarrow> nfkc s = s)"

definition keeps_words :: "(string \<Rightarrow> string) \<Rightarrow> bool" where
  "keeps_words nfkc \<longleftrightarrow> (\<forall>u v. nfkc (u @ '' '' @ v) = nfkc u @ '' '' @ nfkc v)"

lemma normalize_valid_domain:
  assumes "keeps_ascii nfkc" and "valid_domain d"
  shows "normalizeDomainValue nfkc d = Inr d"
proof -
  have c: "(97 \<le> char_code c \<and> char_code c \<le> 122) \<or> (45 \<le> char_code c \<and> char_code c \<le> 57)" if "c \<in> set d" for c
    using domain_char_code [OF valid_domain_chars [OF assms(2) that]] .
  have "nfkc d = d" using assms(1) c unfolding keeps_ascii_def by fastforce
  moreover have "to_lower d = d" unfolding to_lower_def
    by (rule map_idI) (use c in \<open>fastforce simp: lower_char_def Let_def\<close>)
  moreover have s: "\<forall>c \<in> set d. \<not> is_space c" using c by (fastforce simp: is_space_def Let_def)
  ultimately have "normalizeIndexText nfkc d = d"
    by (simp add: normalizeIndexText_def collapse_none trim_string_nonspace_id)
  with assms(2) show ?thesis by (simp add: normalizeDomainValue_def)
qed

lemma normalize_domain_valid: "normalizeDomainValue nfkc d = Inr n \<Longrightarrow> valid_domain n"
  by (auto simp: normalizeDomainValue_def Let_def split: if_splits)

section \<open>Parsed queries\<close>

definition query_well_typed :: "parsed_query \<Rightarrow> bool" where
  "query_well_typed q \<longleftrightarrow>
     list_all valid_domain (pq_domains q) \<and> set (pq_types q) \<subseteq> set JEV_CLASSES \<and>
     distinct (pq_from q) \<and> distinct (pq_to q) \<and> distinct (pq_domains q) \<and> distinct (pq_types q) \<and>
     (\<forall>t \<in> set_option (pq_before q) \<union> set_option (pq_after q). t mod 86400000 = 0)"

lemma push_distinct [simp]: "distinct (pushValue v xs) \<longleftrightarrow> distinct xs"
  by (simp add: pushValue_def)

lemma push_set [simp]: "set (pushValue v xs) = insert v (set xs)"
  by (auto simp: pushValue_def)

lemma date_midnight: "parseDateBoundary v = Inr t \<Longrightarrow> t mod 86400000 = 0"
  by (auto simp: parseDateBoundary_def Let_def split: if_splits prod.splits)

lemma class_known: "parseJevClass nfkc v = Inr t \<Longrightarrow> t \<in> set JEV_CLASSES"
  by (auto simp: parseJevClass_def Let_def split: if_splits)

lemma apply_operator_typed:
  assumes "applyOperator nfkc operator value q = Inr q'" and "query_well_typed q"
  shows "query_well_typed q'"
  using assms unfolding applyOperator_def
  by (auto simp: tx_simps query_well_typed_def applyIsOperator_def Let_def list_all_iff
      dest: normalize_domain_valid date_midnight class_known split: if_split_asm)

lemma apply_tokens_typed:
  "apply_tokens nfkc ts q free = Inr (q', free') \<Longrightarrow> query_well_typed q \<Longrightarrow> query_well_typed q'"
proof (induction nfkc ts q free rule: apply_tokens.induct)
  case (2 nfkc w v ts q free)
  then show ?case by (auto simp: tx_simps intro: apply_operator_typed)
qed (auto split: if_split_asm)

text \<open>
  C35. Whatever the text of a query, the parser rejects it or yields a query whose domains are valid, so
  that the patterns made of them need no escaping, whose types are message classes, without repeated
  values, and whose dates are midnights.
\<close>

theorem parsed_query_well_typed:
  assumes "parseSearchQuery nfkc raw = Inr q"
  shows "query_well_typed q \<and> trim_string (pq_text q) = pq_text q"
proof -
  obtain q0 free where t: "apply_tokens nfkc (query_tokens raw) emptyQuery [] = Inr (q0, free)"
    and q: "q = q0\<lparr>pq_text := normalizeIndexText nfkc (join_space free)\<rparr>"
    using assms by (auto simp: parseSearchQuery_def tx_simps split: if_split_asm)
  have "query_well_typed emptyQuery" by (simp add: query_well_typed_def emptyQuery_def)
  from apply_tokens_typed [OF t this] show ?thesis
    unfolding q by (simp add: query_well_typed_def normalizeIndexText_def)
qed

definition demo_query :: parsed_query where
  "demo_query =
     emptyQuery\<lparr>pq_text := ''hello'', pq_domains := [''x.org''], pq_unread := True, pq_after := Some 1709164800000\<rparr>"

lemma demo_query_parses:
  "parseSearchQuery (\<lambda>s. s) ''domain:X.org is:unread after:2024-02-29 Hello'' = Inr demo_query"
  by code_simp

theorem parsed_query_well_typed_witness: "query_well_typed demo_query"
  using parsed_query_well_typed [OF demo_query_parses] by blast

section \<open>Domain filters\<close>

lemma nfkc_join:
  assumes "keeps_words nfkc" and "ws \<noteq> []"
  shows "nfkc (join_space ws) = join_space (map nfkc ws)"
  using assms(2)
proof (induction ws rule: induct_list012)
  case (3 w x ws)
  then show ?case using assms(1) unfolding keeps_words_def by (simp del: append.simps)
qed simp_all

lemma lower_join: "to_lower (join_space ws) = join_space (map to_lower ws)"
  by (induction ws rule: induct_list012) (simp_all add: to_lower_def lower_char_def char_code_def)

lemma collapse_append: "\<forall>c \<in> set u. \<not> is_space c \<Longrightarrow> collapse_spaces (u @ s) = u @ collapse_spaces s"
  by (induction u) auto

lemma join_starts:
  assumes "ws \<noteq> []" and "\<forall>w \<in> set ws. w \<noteq> [] \<and> (\<forall>c \<in> set w. \<not> is_space c)"
  shows "join_space ws \<noteq> [] \<and> \<not> is_space (hd (join_space ws)) \<and> \<not> is_space (last (join_space ws))"
  using assms by (induction ws rule: induct_list012) auto

lemma collapse_join:
  assumes "\<forall>w \<in> set ws. w \<noteq> [] \<and> (\<forall>c \<in> set w. \<not> is_space c)"
  shows "collapse_spaces (join_space ws) = join_space ws"
  using assms
proof (induction ws rule: induct_list012)
  case (3 w x ws)
  let ?J = "join_space (x # ws)"
  have "dropWhile is_space ?J = ?J" using join_starts [of "x # ws"] 3(3) by (cases ?J) auto
  moreover have "is_space (CHR '' '')" by (simp add: is_space_def char_code_def)
  ultimately have "collapse_spaces (w @ '' '' @ ?J) = w @ '' '' @ collapse_spaces ?J"
    using 3(3) by (simp add: collapse_append)
  with 3 show ?case by simp
qed (simp_all add: collapse_none)

lemma dropWhile_none: "s \<noteq> [] \<Longrightarrow> \<not> P (hd s) \<Longrightarrow> dropWhile P s = s"
  by (cases s) auto

lemma trim_joined: "s \<noteq> [] \<Longrightarrow> \<not> is_space (hd s) \<Longrightarrow> \<not> is_space (last s) \<Longrightarrow> trim_string s = s"
  using dropWhile_none [of "rev s" is_space] by (simp add: trim_string_def dropWhile_none hd_rev)

text \<open>The words of a text, and the normalised text as their list.\<close>

fun space_words :: "string \<Rightarrow> string list" where
  "space_words [] = []"
| "space_words (c # s) =
     (if is_space c then space_words s
      else (case s of
              [] \<Rightarrow> [[c]]
            | d # _ \<Rightarrow>
                if is_space d then [c] # space_words s
                else (case space_words s of [] \<Rightarrow> [[c]] | w # ws \<Rightarrow> (c # w) # ws)))"

declare space_words.simps(2) [simp del]

lemma words_rules:
  "is_space c \<Longrightarrow> space_words (c # s) = space_words s"
  "\<not> is_space c \<Longrightarrow> space_words [c] = [[c]]"
  "\<not> is_space c \<Longrightarrow> is_space d \<Longrightarrow> space_words (c # d # s) = [c] # space_words (d # s)"
  "\<not> is_space c \<Longrightarrow> \<not> is_space d \<Longrightarrow>
     space_words (c # d # s) = (case space_words (d # s) of [] \<Rightarrow> [[c]] | w # ws \<Rightarrow> (c # w) # ws)"
  by (simp_all add: space_words.simps(2) [of c])

lemma words_start: "\<not> is_space c \<Longrightarrow> space_words (c # s) \<noteq> []"
  by (simp add: space_words.simps(2) [of c] split: list.split)

lemma words_nonspace: "w \<in> set (space_words s) \<Longrightarrow> w \<noteq> [] \<and> (\<forall>c \<in> set w. \<not> is_space c)"
proof (induction s arbitrary: w)
  case (Cons c s)
  show ?case
  proof (cases "is_space c")
    case True
    with Cons show ?thesis by (simp add: words_rules)
  next
    case nc: False
    show ?thesis
    proof (cases s)
      case Nil
      with Cons.prems nc show ?thesis by (simp add: words_rules)
    next
      case (Cons d s')
      show ?thesis
      proof (cases "is_space d")
        case True
        with Cons nc Cons.IH Cons.prems show ?thesis by (auto simp: words_rules)
      next
        case False
        obtain v vs where v: "space_words s = v # vs" using words_start [OF False, of s'] Cons by (cases "space_words s") auto
        have "\<forall>x \<in> set (v # vs). x \<noteq> [] \<and> (\<forall>c \<in> set x. \<not> is_space c)" using Cons.IH v by simp
        moreover have "w \<in> set ((c # v) # vs)" using Cons.prems Cons nc False v by (simp add: words_rules)
        ultimately show ?thesis using nc by auto
      qed
    qed
  qed
qed simp

lemma words_drop: "space_words (dropWhile is_space s) = space_words s"
  by (induction s) (auto simp: words_rules)

lemma words_of_word: "s \<noteq> [] \<Longrightarrow> \<forall>c \<in> set s. \<not> is_space c \<Longrightarrow> space_words s = [s]"
  by (induction s rule: induct_list012) (simp_all add: words_rules)

lemma words_append: "space_words (u @ CHR '' '' # v) = space_words u @ space_words v"
proof (induction u)
  case Nil
  then show ?case by (simp add: words_rules is_space_def char_code_def)
next
  case (Cons c u)
  have s: "is_space (CHR '' '')" by (simp add: is_space_def char_code_def)
  show ?case
  proof (cases "is_space c")
    case True
    with Cons show ?thesis by (simp add: words_rules)
  next
    case nc: False
    show ?thesis
    proof (cases u)
      case Nil
      then show ?thesis using s nc by (simp add: words_rules)
    next
      case u: (Cons d u')
      show ?thesis
      proof (cases "is_space d")
        case True
        then show ?thesis using Cons u nc by (simp add: words_rules)
      next
        case False
        then obtain w ws where "space_words u = w # ws" using words_start [of d u'] u by (cases "space_words u") auto
        then show ?thesis using Cons u False nc by (simp add: words_rules)
      qed
    qed
  qed
qed

lemma words_join: "space_words (join_space ts) = concat (map space_words ts)"
  by (induction ts rule: induct_list012) (simp_all add: words_append)

text \<open>Collapsing keeps a space at an end that has one.\<close>

definition framed_by :: "string \<Rightarrow> string \<Rightarrow> string \<Rightarrow> bool" where
  "framed_by s pre post \<longleftrightarrow>
     pre = (case s of [] \<Rightarrow> [] | c # _ \<Rightarrow> if is_space c then '' '' else []) \<and> post \<in> {[], '' ''} \<and>
     (space_words s = [] \<longrightarrow> post = [])"

lemma collapse_words:
  "\<exists>pre post. collapse_spaces s = pre @ join_space (space_words s) @ post \<and> framed_by s pre post"
proof (induction s rule: collapse_spaces.induct)
  case (2 c s)
  show ?case
  proof (cases "is_space c")
    case True
    let ?s = "dropWhile is_space s"
    from 2(1) [OF True] obtain pre post where i: "collapse_spaces ?s = pre @ join_space (space_words ?s) @ post"
      "framed_by ?s pre post" by blast
    have "pre = []" using i(2) hd_dropWhile [of is_space s] by (cases ?s) (auto simp: framed_by_def)
    with i True show ?thesis
      by (intro exI [of _ "'' ''"] exI [of _ post]) (simp add: framed_by_def words_drop words_rules)
  next
    case nc: False
    from 2(2) [OF nc] obtain pre post where i: "collapse_spaces s = pre @ join_space (space_words s) @ post"
      "framed_by s pre post" by blast
    show ?thesis
    proof (cases s)
      case Nil
      with nc show ?thesis by (intro exI [of _ "[]"]) (simp add: framed_by_def words_rules)
    next
      case (Cons d s')
      show ?thesis
      proof (cases "is_space d")
        case True
        with i Cons have p: "pre = '' ''" "space_words s = [] \<longrightarrow> post = []" "post \<in> {[], '' ''}"
          by (simp_all add: framed_by_def)
        have w: "space_words (c # s) = [c] # space_words s" using Cons True nc by (simp add: words_rules)
        show ?thesis
        proof (cases "space_words s")
          case Nil
          then show ?thesis using i(1) p nc w
            by (intro exI [of _ "[]"] exI [of _ "'' ''"]) (simp add: framed_by_def)
        next
          case (Cons x xs)
          then show ?thesis using i(1) p nc w
            by (intro exI [of _ "[]"] exI [of _ post]) (auto simp: framed_by_def)
        qed
      next
        case False
        with i Cons have "pre = []" "post \<in> {[], '' ''}" by (simp_all add: framed_by_def)
        moreover obtain x xs where "space_words s = x # xs" using words_start [OF False, of s'] Cons by (cases "space_words s") auto
        moreover from this have "space_words (c # s) = (c # x) # xs" using Cons False nc by (simp add: words_rules)
        moreover have "join_space ((c # x) # xs) = c # join_space (x # xs)" for x xs by (cases xs) simp_all
        ultimately show ?thesis using i(1) nc
          by (intro exI [of _ "[]"] exI [of _ post]) (simp add: framed_by_def)
      qed
    qed
  qed
qed (simp add: framed_by_def)

lemma normalize_words: "trim_string (collapse_spaces s) = join_space (space_words s)"
proof -
  obtain pre post where c: "collapse_spaces s = pre @ join_space (space_words s) @ post" "framed_by s pre post"
    using collapse_words by blast
  have s: "is_space (CHR '' '')" by (simp add: is_space_def char_code_def)
  have p: "pre \<in> {[], '' ''}" "post \<in> {[], '' ''}" using c(2) by (auto simp: framed_by_def split: list.splits)
  show ?thesis
  proof (cases "space_words s = []")
    case True
    then have "collapse_spaces s = pre" using c by (simp add: framed_by_def)
    with True p(1) s show ?thesis by (auto simp: trim_string_def)
  next
    case False
    have "\<forall>w \<in> set (space_words s). w \<noteq> [] \<and> (\<forall>c \<in> set w. \<not> is_space c)" using words_nonspace by blast
    from join_starts [OF False this]
    have j: "join_space (space_words s) \<noteq> []" "\<not> is_space (hd (join_space (space_words s)))"
        "\<not> is_space (last (join_space (space_words s)))" by auto
    have "dropWhile is_space (pre @ join_space (space_words s) @ post) = join_space (space_words s) @ post"
      using p(1) s j by (auto simp: dropWhile_none)
    moreover have "dropWhile is_space (rev (join_space (space_words s) @ post)) = rev (join_space (space_words s))"
      using p(2) s j by (auto simp: dropWhile_none hd_rev)
    ultimately show ?thesis by (simp add: c(1) trim_string_def)
  qed
qed

lemma index_words:
  assumes "keeps_words nfkc" and "keeps_ascii nfkc"
  shows "normalizeIndexText nfkc (addressesIndexText sender recipients) =
    join_space (concat (map (\<lambda>a. space_words (to_lower (nfkc (ea_address a)))) (participants sender recipients)))"
proof (cases "participants sender recipients")
  case Nil
  have "nfkc [] = []" using assms(2) by (simp add: keeps_ascii_def)
  with Nil show ?thesis by (simp add: normalizeIndexText_def addressesIndexText_def to_lower_def trim_string_def)
next
  case (Cons a as)
  then show ?thesis
    by (simp add: normalizeIndexText_def addressesIndexText_def nfkc_join [OF assms(1)] lower_join normalize_words
        words_join comp_def del: join_space_simps)
qed

text \<open>
  C32. A domain filter selects exactly the messages with an address among sender and recipients, each of
  them absent or present, of which a word, normalised as the index is, ends in an at sign and the domain
  asked for. An address that stays one word selects on its own domain: a longer domain, a subdomain and a
  display name never match, and no address of the list is missed. An address can fall into several words
  under NFKC: see \<open>spaced_address_matches\<close>.
\<close>

theorem domain_filter_exact:
  assumes "keeps_words nfkc" and "keeps_ascii nfkc" and "valid_domain d"
  shows "domainCondition (normalizeIndexText nfkc (addressesIndexText sender recipients)) d \<longleftrightarrow>
    (\<exists>a \<in> set (participants sender recipients). \<exists>w \<in> set (space_words (to_lower (nfkc (ea_address a)))).
       \<exists>u. w = u @ ''@'' @ d)"
proof -
  let ?ws = "concat (map (\<lambda>a. space_words (to_lower (nfkc (ea_address a)))) (participants sender recipients))"
  have plain: "c \<notin> {CHR 0x5C, CHR 0x25, CHR 0x5F, CHR '' ''}" if "c \<in> set (''@'' @ d)" for c
    using that domain_char_code [OF valid_domain_chars [OF assms(3)]] by (fastforce simp: char_code_def)
  have escape: "escape_like (''@'' @ d) = ''@'' @ d" by (rule escape_plain) (use plain in auto)
  have "is_space (CHR '' '')" by (simp add: is_space_def char_code_def)
  then have "\<forall>w \<in> set ?ws. CHR '' '' \<notin> set w" using words_nonspace by fastforce
  moreover have "CHR '' '' \<notin> set (''@'' @ d)" using plain by blast
  ultimately have "?ws \<noteq> [] \<Longrightarrow>
      (\<exists>u. join_space ?ws = u @ ''@'' @ d) \<or> (\<exists>u r. join_space ?ws = u @ (''@'' @ d) @ '' '' @ r) \<longleftrightarrow>
      (\<exists>w \<in> set ?ws. \<exists>u. w = u @ ''@'' @ d)" by (intro join_word_end) simp_all
  moreover have "join_space ?ws = []" "set ?ws = {}" if "?ws = []" using that by (simp_all only: join_space_simps set_simps)
  ultimately have ends: "(\<exists>u. join_space ?ws = u @ ''@'' @ d) \<or> (\<exists>u r. join_space ?ws = u @ (''@'' @ d) @ '' '' @ r) \<longleftrightarrow>
      (\<exists>w \<in> set ?ws. \<exists>u. w = u @ ''@'' @ d)"
    by (cases "?ws = []") (simp_all only: append_is_Nil_conv Cons_eq_append_conv bex_simps, auto)
  have "domainCondition (join_space ?ws) d \<longleftrightarrow>
      (\<exists>u. join_space ?ws = u @ ''@'' @ d) \<or> (\<exists>u r. join_space ?ws = u @ (''@'' @ d) @ '' '' @ r)"
    using like_exact [of "''@'' @ d"] like_literal [of "''@'' @ d" "'' %''"] unfolding escape domainCondition_def
    by (simp add: like_any del: like_match.simps(2)) (simp add: like_blank del: like_match.simps(2); blast)
  also note ends
  finally show ?thesis unfolding index_words [OF assms(1,2)] by simp
qed

definition filter_sender :: email_address where
  "filter_sender = \<lparr>ea_address = ''Ann@X.org'', ea_name = Some ''bob@y.org''\<rparr>"

definition filter_recipients :: recipients where
  "filter_recipients = \<lparr>rc_to = [\<lparr>ea_address = ''carl@a.y.org'', ea_name = None\<rparr>], rc_cc = None, rc_bcc = None\<rparr>"

theorem domain_filter_exact_witness:
  "domainCondition (normalizeIndexText (\<lambda>s. s) (addressesIndexText (Some filter_sender) (Some filter_recipients))) ''x.org'' \<and>
   \<not> domainCondition (normalizeIndexText (\<lambda>s. s) (addressesIndexText (Some filter_sender) (Some filter_recipients))) ''y.org'' \<and>
   \<not> domainCondition (normalizeIndexText (\<lambda>s. s) (addressesIndexText None None)) ''x.org''"
proof -
  have k: "keeps_words (\<lambda>s. s)" "keeps_ascii (\<lambda>s. s)" by (simp_all add: keeps_words_def keeps_ascii_def)
  have v: "valid_domain ''x.org''" "valid_domain ''y.org''" by code_simp+
  have a: "concat (map (\<lambda>a. space_words (to_lower (ea_address a))) (participants (Some filter_sender) (Some filter_recipients))) =
      [''ann@x.org'', ''carl@a.y.org'']"
    by code_simp
  have m: "(\<exists>a \<in> set (participants (Some filter_sender) (Some filter_recipients)).
        \<exists>w \<in> set (space_words (to_lower (ea_address a))). \<exists>u. w = u @ e) \<longleftrightarrow>
      (\<exists>w \<in> set [''ann@x.org'', ''carl@a.y.org'']. \<exists>u. w = u @ e)" for e
    unfolding a [symmetric] by auto
  have e: "w = u @ e \<Longrightarrow> drop (length w - length e) w = e" for w u e :: string by simp
  have "\<exists>u. ''ann@x.org'' = u @ ''@x.org''" by (rule exI [of _ "''ann''"]) simp
  then show ?thesis
    using domain_filter_exact [OF k v(1), of "Some filter_sender" "Some filter_recipients"]
      domain_filter_exact [OF k v(2), of "Some filter_sender" "Some filter_recipients"]
      domain_filter_exact [OF k v(1), of None None] unfolding m
    by (auto simp: participants_def dest: e)
qed

text \<open>
  The domain filter is meant to be safe from spoofing, and is not: NFKC makes a space and a combining
  mark of the diaeresis U+00A8, which \<open>isValidAddress\<close> lets through. The address below belongs to the
  domain of the second half and matches the domain of the first. (The character 255 stands for the
  combining mark, which is not a character of the model; the function is NFKC on the characters used.)
\<close>

definition nfkc_diaeresis :: "string \<Rightarrow> string" where
  "nfkc_diaeresis s = concat (map (\<lambda>c. if c = CHR 0xA8 then [CHR 0x20, CHR 0xFF] else [c]) s)"

definition spoofed_sender :: email_address where
  "spoofed_sender = \<lparr>ea_address = ''user@bank.example'' @ [CHR 0xA8] @ ''evil.com'', ea_name = None\<rparr>"

lemma spaced_address_matches:
  "isValidAddress (ea_address spoofed_sender) \<and> keeps_words nfkc_diaeresis \<and> keeps_ascii nfkc_diaeresis \<and>
   domainCondition (normalizeIndexText nfkc_diaeresis (addressesIndexText (Some spoofed_sender) None)) ''bank.example''"
proof (intro conjI)
  show "isValidAddress (ea_address spoofed_sender)" by code_simp
  show "keeps_words nfkc_diaeresis" by (simp add: keeps_words_def nfkc_diaeresis_def)
  have "concat (map (\<lambda>c. if c = CHR 0xA8 then [CHR 0x20, CHR 0xFF] else [c]) s) = s" if "\<forall>c \<in> set s. char_code c < 128" for s
    using that by (induction s) (auto simp: char_code_def)
  then show "keeps_ascii nfkc_diaeresis" by (simp add: keeps_ascii_def nfkc_diaeresis_def)
  show "domainCondition (normalizeIndexText nfkc_diaeresis (addressesIndexText (Some spoofed_sender) None)) ''bank.example''"
    by code_simp
qed

text \<open>
  A full address of \<open>to:\<close> is anchored at the end of the recipients' text: the pattern for an address
  followed by the next participant ends in the space itself, which no normalised text ends in.
\<close>

lemma full_address_only_last:
  assumes "trim_string t = t"
  shows "addressCondition t v \<longleftrightarrow> (\<exists>u. t = u @ v) \<or> (\<exists>u w. t = u @ v @ ''@'' @ w)"
proof -
  have "t \<noteq> u @ v @ '' ''" for u
  proof
    assume t: "t = u @ v @ '' ''"
    then have "\<not> is_space (last t)" using trim_ends [of t] assms by simp
    then show False unfolding t by (simp add: is_space_def char_code_def)
  qed
  then show ?thesis unfolding addressCondition_iff by blast
qed

lemma middle_recipient_missed:
  "\<not> addressCondition (normalizeIndexText (\<lambda>s. s) (join_space [''ann@x.org'', ''bob@y.org''])) ''ann@x.org''"
  "addressCondition (normalizeIndexText (\<lambda>s. s) (join_space [''bob@y.org'', ''ann@x.org''])) ''ann@x.org''"
  by code_simp+

section \<open>Saved searches\<close>

lemma unique_uuids_result:
  assumes "unique_uuids acc ids = Inr u" and "distinct acc" and "\<forall>i \<in> set acc. is_uuid i"
  shows "distinct u \<and> (\<forall>i \<in> set u. is_uuid i) \<and> length u \<le> length acc + length ids \<and> set u = set acc \<union> set ids"
  using assms
proof (induction acc ids rule: unique_uuids.induct)
  case (2 acc i js)
  then show ?case by (cases "i \<in> set acc") (fastforce split: if_split_asm)+
qed simp

lemma unique_uuids_again:
  "distinct (acc @ ids) \<Longrightarrow> \<forall>i \<in> set ids. is_uuid i \<Longrightarrow> unique_uuids acc ids = Inr (acc @ ids)"
  by (induction ids arbitrary: acc) auto

lemma account_filters_again:
  assumes "readAccountFilters a = Inr r"
  shows "readAccountFilters r = Inr r"
proof (cases r)
  case (Some u)
  then obtain ids where "length ids \<le> MAX_ACCOUNT_FILTERS" "unique_uuids [] ids = Inr u" "ids \<noteq> []"
    using assms by (auto simp: readAccountFilters_def tx_simps not_less split: option.splits if_split_asm)
  from unique_uuids_result [OF this(2)] this unique_uuids_again [of "[]" u] Some show ?thesis
    by (auto simp: readAccountFilters_def)
qed (simp add: readAccountFilters_def)

lemma folder_filter_again: "readFolderFilter a = Inr r \<Longrightarrow> readFolderFilter r = Inr r"
  by (auto simp: readFolderFilter_def split: option.splits if_split_asm)

lemma normalize_domains_result:
  "normalize_domains nfkc ds = Inr ns \<Longrightarrow> length ns = length ds \<and> (\<forall>n \<in> set ns. valid_domain n)"
  by (induction ds arbitrary: ns) (auto simp: tx_simps dest: normalize_domain_valid split: sum.splits)

lemma normalize_domains_again:
  "keeps_ascii nfkc \<Longrightarrow> \<forall>n \<in> set ns. valid_domain n \<Longrightarrow> normalize_domains nfkc ns = Inr ns"
  by (induction ns) (simp_all add: normalize_valid_domain)

lemma domain_filters_again:
  assumes "keeps_ascii nfkc" and "readDomainFilters nfkc (Some ds) = Inr r"
  shows "readDomainFilters nfkc (Some r) = Inr r"
  using assms normalize_domains_result [of nfkc ds r] normalize_domains_again [of nfkc r]
  by (auto simp: readDomainFilters_def split: if_split_asm)

lemma scope_again:
  assumes "keeps_ascii nfkc" and "readSavedSearchScope nfkc scope = Inr sc"
  shows "readAccountFilters (sx_accountIds sc) = Inr (sx_accountIds sc) \<and>
    readFolderFilter (sx_folderId sc) = Inr (sx_folderId sc) \<and> (\<exists>ds. readDomainFilters nfkc (sx_domains sc) = Inr ds)"
proof (cases scope)
  case None
  with assms(2) show ?thesis
    by (auto simp: readSavedSearchScope_def no_scope_def readAccountFilters_def readFolderFilter_def readDomainFilters_def)
next
  case (Some s0)
  with assms(2) obtain x y z where a: "readAccountFilters (sx_accountIds s0) = Inr x"
    and f: "readFolderFilter (sx_folderId s0) = Inr y"
    and d: "(case sx_domains s0 of None \<Rightarrow> Inr None
        | Some ds \<Rightarrow> attempt (readDomainFilters nfkc (Some ds)) (\<lambda>domains. Inr (Some domains))) = Inr z"
    and sc: "sc = \<lparr>sx_accountIds = x, sx_folderId = y, sx_domains = z, sx_localOnly = sx_localOnly s0\<rparr>"
    by (auto simp: readSavedSearchScope_def tx_simps)
  have "\<exists>ds. readDomainFilters nfkc z = Inr ds"
    using d domain_filters_again [OF assms(1)]
    by (auto simp: tx_simps readDomainFilters_def [of nfkc None] split: option.splits)
  then show ?thesis using account_filters_again [OF a] folder_filter_again [OF f] by (simp add: sc)
qed

lemma length_trim: "length (trim_string s) \<le> length s"
  unfolding trim_string_def using length_dropWhile_le order_trans by (metis length_rev)

text \<open>
  C34. A saved search is ready to run: what a successful creation stores, its trimmed query and its
  cleaned scope, is accepted by every later search, whatever the tables hold then; a rejected
  creation changes nothing.
\<close>

theorem saved_search_always_runs:
  assumes "keeps_ascii (ft_nfkc p)"
  shows "case createSavedSearch p rv gen name query scope i now s0 s of
      (Inl e, s') \<Rightarrow> s' = s
    | (Inr r, s') \<Rightarrow> st_savedSearches s' = st_savedSearches s @ [r] \<and> (\<forall>t t' t''. \<not> isl (search p (saved_input r) t t' t''))"
proof (cases "createSavedSearch p rv gen name query scope i now s0 s")
  case (Pair out s')
  show ?thesis
  proof (cases out)
    case (Inl e)
    with Pair show ?thesis
      by (auto simp: createSavedSearch_def Let_def split: sum.splits prod.splits if_split_asm)
  next
    case (Inr r)
    from Pair [unfolded Inr] obtain trimmed clean body parsed
      where read: "readQueryText query = Inr body" "parseSearchQuery (ft_nfkc p) body = Inr parsed"
        "readSavedSearchScope (ft_nfkc p) scope = Inr clean"
      and r: "sv_query r = trim_string query" "sv_scope r = clean"
      and s': "st_savedSearches s' = st_savedSearches s @ [r]"
      by (auto simp: createSavedSearch_def saved_search_event_def tx_simps Let_def split: sum.splits prod.splits if_split_asm)
    have t: "body = trim_string query" "length query \<le> MAX_QUERY_CHARS"
      using read(1) by (auto simp: readQueryText_def split: if_split_asm)
    then have "readQueryText (trim_string query) = Inr body"
      using length_trim [of query] by (simp add: readQueryText_def)
    with read(2) scope_again [OF assms read(3)]
    have "\<exists>x. read_filters p (saved_input r) = Inr x"
      by (auto simp: read_filters_def saved_input_def r readLimit_def readOffset_def)
    then show ?thesis using s' by (auto simp: Pair Inr search_def Let_def)
  qed
qed

definition demo_search_ports :: search_ports where
  "demo_search_ports =
     \<lparr>ft_nfkc = (\<lambda>s. s), ft_matches = (\<lambda>q m. True), ft_rank = (\<lambda>q m. 0), ft_textMatches = (\<lambda>q t. True),
      ft_headlineSubject = (\<lambda>q t. t), ft_headlineBody = (\<lambda>q t. t)\<rparr>"

definition demo_search_state :: search_state where
  "demo_search_state =
     \<lparr>st_hub = empty_hub\<lparr>h_serviceState :=
        Some \<lparr>ss_recoveryGeneration = demo_gen, ss_recoveryMode = Mode_Ready, ss_updatedAt = 0\<rparr>\<rparr>,
      st_classHint = (\<lambda>_. None), st_asksAction = (\<lambda>_. None), st_label = (\<lambda>_. []), st_color = (\<lambda>_. []),
      st_savedSearches = []\<rparr>"

definition demo_saved :: saved_search where
  "demo_saved =
     \<lparr>sv_id = old_gen, sv_name = ''Bills'', sv_query = ''is:unread'',
      sv_scope = \<lparr>sx_accountIds = Some [demo_gen], sx_folderId = None, sx_domains = Some [''x.org''], sx_localOnly = False\<rparr>,
      sv_createdAt = 1, sv_updatedAt = 1\<rparr>"

lemma demo_search_gate: "gateMutation demo_controls (Some demo_gen) (st_hub demo_search_state) = Inr demo_gen"
  by (simp add: gateMutation_def decideMutationGate_def readStatus_def classifyControlState_def
      demo_search_state_def)

lemma demo_saved_read:
  "readSavedSearchName '' Bills'' = Inr ''Bills''"
  "readQueryText ''is:unread '' = Inr ''is:unread''"
  "parseSearchQuery (\<lambda>s. s) ''is:unread'' = Inr (emptyQuery\<lparr>pq_unread := True\<rparr>)"
  "readSavedSearchScope (\<lambda>s. s)
     (Some \<lparr>sx_accountIds = Some [demo_gen, demo_gen], sx_folderId = Some [], sx_domains = Some [''X.org''], sx_localOnly = False\<rparr>) =
   Inr (sv_scope demo_saved)"
  "trim_string ''is:unread '' = ''is:unread''"
  by code_simp+

theorem saved_search_always_runs_witness:
  "\<forall>t t' t''. \<not> isl (search demo_search_ports (saved_input demo_saved) t t' t'')"
proof -
  have k: "keeps_ascii (ft_nfkc demo_search_ports)" by (simp add: keeps_ascii_def demo_search_ports_def)
  let ?create = "createSavedSearch demo_search_ports demo_controls (Some demo_gen) '' Bills'' ''is:unread ''
      (Some \<lparr>sx_accountIds = Some [demo_gen, demo_gen], sx_folderId = Some [], sx_domains = Some [''X.org''], sx_localOnly = False\<rparr>)
      old_gen 1 demo_search_state demo_search_state"
  have "fst ?create = Inr demo_saved"
    by (simp add: createSavedSearch_def demo_search_gate demo_search_ports_def demo_saved_read)
      (simp add: demo_search_state_def demo_saved_def Let_def)
  then obtain s' where created: "?create = (Inr demo_saved, s')" by (metis prod.collapse)
  have "case ?create of (Inl e, s') \<Rightarrow> s' = demo_search_state
      | (Inr r, s') \<Rightarrow> st_savedSearches s' = st_savedSearches demo_search_state @ [r] \<and>
          (\<forall>t t' t''. \<not> isl (search demo_search_ports (saved_input r) t t' t''))"
    by (rule saved_search_always_runs [OF k])
  then show ?thesis unfolding created by simp
qed

section \<open>Pages\<close>

lemma single_match:
  "distinct (map k xs) \<Longrightarrow> i \<in> k ` set xs \<Longrightarrow> \<exists>x. filter (\<lambda>x. k x = i) xs = [x]"
proof (induction xs)
  case (Cons x xs)
  show ?case
  proof (cases "k x = i")
    case True
    then have "filter (\<lambda>x. k x = i) xs = []" using Cons(2) by (auto simp: filter_empty_conv) (metis image_eqI)
    with True show ?thesis by simp
  qed (use Cons in auto)
qed simp

definition search_tables_ok :: "hub \<Rightarrow> bool" where
  "search_tables_ok h \<longleftrightarrow>
     distinct (map ms_id (h_messages h)) \<and> distinct (map acc_id (h_accounts h)) \<and>
     distinct (filter (\<lambda>i. i \<noteq> None) (map ob_logicalMessageId (h_outbound h))) \<and>
     ms_accountId ` set (h_messages h) \<subseteq> acc_id ` set (h_accounts h)"

lemma at_most_one_outbound:
  assumes "distinct (filter (\<lambda>i. i \<noteq> None) (map ob_logicalMessageId obs))"
  shows "length (filter (\<lambda>ob. ob_logicalMessageId ob = Some i) obs) \<le> 1"
proof -
  have "map ob_logicalMessageId (filter (\<lambda>ob. ob_logicalMessageId ob = Some i) obs) =
      filter (\<lambda>x. x = Some i) (filter (\<lambda>i. i \<noteq> None) (map ob_logicalMessageId obs))"
    by (induction obs) auto
  then have "distinct (map ob_logicalMessageId (filter (\<lambda>ob. ob_logicalMessageId ob = Some i) obs))"
    using assms by (metis distinct_filter)
  moreover have "set (map ob_logicalMessageId (filter (\<lambda>ob. ob_logicalMessageId ob = Some i) obs)) \<subseteq> {Some i}" by auto
  ultimately have "card (set (map ob_logicalMessageId (filter (\<lambda>ob. ob_logicalMessageId ob = Some i) obs))) =
      length (filter (\<lambda>ob. ob_logicalMessageId ob = Some i) obs)" by (simp only: distinct_card length_map)
  with card_mono [OF _ \<open>_ \<subseteq> {Some i}\<close>] show ?thesis by simp
qed

lemma search_rows_one_each:
  assumes "search_tables_ok (st_hub s)"
  shows "map fst (search_rows s) = h_messages (st_hub s)"
proof -
  let ?h = "st_hub s"
  define row where "row = (\<lambda>m :: message_row. concat (map (\<lambda>a.
         (case filter (\<lambda>ob. ob_logicalMessageId ob = Some (ms_id m)) (h_outbound ?h) of
            [] \<Rightarrow> [(m, a, None)]
          | obs \<Rightarrow> map (\<lambda>ob. (m, a, Some ob)) obs))
       (filter (\<lambda>a. acc_id a = ms_accountId m) (h_accounts ?h))))"
  have "map fst (row m) = [m]" if m: "m \<in> set (h_messages ?h)" for m
  proof -
    have "ms_accountId m \<in> acc_id ` set (h_accounts ?h)" using assms m by (auto simp: search_tables_ok_def)
    then obtain a where a: "filter (\<lambda>a. acc_id a = ms_accountId m) (h_accounts ?h) = [a]"
      using single_match assms by (metis search_tables_ok_def)
    have "length (filter (\<lambda>ob. ob_logicalMessageId ob = Some (ms_id m)) (h_outbound ?h)) \<le> 1"
      by (rule at_most_one_outbound) (use assms in \<open>simp add: search_tables_ok_def\<close>)
    then show ?thesis unfolding row_def a by (auto split: list.splits)
  qed
  then have "concat (map (\<lambda>m. map fst (row m)) ms) = ms" if "set ms \<subseteq> set (h_messages ?h)" for ms
    using that by (induction ms) auto
  then have "map fst (concat (map row (h_messages ?h))) = h_messages ?h" by (simp add: map_concat comp_def)
  then show ?thesis by (simp add: search_rows_def row_def)
qed

lemma concat_pages: "concat (map (\<lambda>k. take l (drop (l * k) xs)) [0..<n]) = take (l * n) xs"
proof (induction n)
  case (Suc n)
  have "take (l * Suc n) xs = take (l * n) xs @ take l (drop (l * n) xs)" by (simp add: take_add [symmetric] add.commute)
  with Suc show ?case by simp
qed simp

definition search_matches :: "search_ports \<Rightarrow> search_filters \<Rightarrow> search_state \<Rightarrow> message_row list" where
  "search_matches p f s =
     filter (\<lambda>m. list_all (\<lambda>condition. condition m) (search_conditions p f s)) (h_messages (st_hub s))"

lemma matching_rows_messages:
  assumes "search_tables_ok (st_hub s)"
  shows "map fst (matching_rows p f s) = search_matches p f s"
proof -
  have "map fst (filter (\<lambda>(m, _, _). P m) rows) = filter P (map fst rows)" for P and rows :: "(message_row \<times> account_row \<times> outbound_row option) list"
    by (induction rows) auto
  then show ?thesis unfolding matching_rows_def search_matches_def search_rows_one_each [OF assms, symmetric] .
qed

lemma ordered_rows_ids:
  assumes "search_tables_ok (st_hub s)"
  shows "distinct (map (ms_id \<circ> fst) (ordered_rows p f s))" "set (map fst (ordered_rows p f s)) = set (search_matches p f s)"
    "length (ordered_rows p f s) = length (search_matches p f s)"
proof -
  have "mset (map fst (ordered_rows p f s)) = mset (search_matches p f s)"
    unfolding matching_rows_messages [OF assms, symmetric] by (simp add: ordered_rows_def)
  note m = this mset_eq_setD [OF this] mset_eq_length [OF this]
  have "distinct (map ms_id (search_matches p f s))"
    unfolding search_matches_def using assms by (intro distinct_map_filter) (simp add: search_tables_ok_def)
  moreover have "mset (map ms_id (map fst (ordered_rows p f s))) = mset (map ms_id (search_matches p f s))"
    using m(1) by (simp only: mset_map)
  ultimately show "distinct (map (ms_id \<circ> fst) (ordered_rows p f s))"
    by (metis map_map mset_eq_imp_distinct_iff)
  show "set (map fst (ordered_rows p f s)) = set (search_matches p f s)" by (rule m(2))
  show "length (ordered_rows p f s) = length (search_matches p f s)" using m(3) by simp
qed

lemma toHit_id: "hit_messageId (toHit p f s r) = ms_id (fst r)"
  by (cases r) (simp add: toHit_def Let_def)

lemma read_page:
  assumes "read_filters p (input\<lparr>in_limit := Some l, in_offset := Some o'\<rparr>) = Inr (f, limit, offset)"
  shows "limit = l \<and> offset = o' \<and> 1 \<le> l \<and> l \<le> MAX_SEARCH_LIMIT \<and> 0 \<le> o' \<and>
    (\<forall>l' o''. 1 \<le> l' \<and> l' \<le> MAX_SEARCH_LIMIT \<and> 0 \<le> o'' \<and> o'' \<le> MAX_SEARCH_OFFSET \<longrightarrow>
      read_filters p (input\<lparr>in_limit := Some l', in_offset := Some o''\<rparr>) = Inr (f, l', o''))"
  using assms by (auto simp: read_filters_def tx_simps readLimit_def readOffset_def split: if_split_asm)

text \<open>A page of undisturbed tables.\<close>

lemma page_of:
  assumes "search p (input\<lparr>in_limit := Some l, in_offset := Some o'\<rparr>) s s s = Inr R" and "search_tables_ok (st_hub s)"
  obtains f where "read_filters p (input\<lparr>in_limit := Some l, in_offset := Some o'\<rparr>) = Inr (f, l, o')"
    and "res_results R = map (toHit p f s) (take (nat l) (drop (nat o') (ordered_rows p f s)))"
    and "res_total R = int (length (search_matches p f s))" and "1 \<le> l"
proof -
  from assms(1) obtain f limit offset where read: "read_filters p (input\<lparr>in_limit := Some l, in_offset := Some o'\<rparr>) = Inr (f, limit, offset)"
    by (auto simp: search_def tx_simps)
  note r = read_page [OF read]
  have len: "length (matching_rows p f s) = length (search_matches p f s)"
    using matching_rows_messages [OF assms(2)] by (metis length_map)
  from assms(1) read r have R: "res_results R = map (toHit p f s) (take (nat l) (drop (nat o') (ordered_rows p f s)))"
    "res_total R = (if take (nat l) (drop (nat o') (ordered_rows p f s)) \<noteq> [] then int (length (ordered_rows p f s))
       else if o' > 0 then int (length (matching_rows p f s)) else 0)"
    by (auto simp: search_def Let_def)
  have total: "res_total R = int (length (search_matches p f s))"
    using R(2) r len ordered_rows_ids(3) [OF assms(2), of p f] by (auto split: if_split_asm)
  show thesis by (rule that [of f]) (use read r R(1) total in \<open>simp_all\<close>)
qed

lemma noServerCopy_everywhere:
  assumes "r \<in> set (matching_rows p f s)"
  shows "hit_noServerCopy (toHit p f s r) \<longleftrightarrow>
    \<not> list_ex (active_in_scope None (hit_messageId (toHit p f s r))) (h_occurrences (st_hub s))"
proof -
  obtain m a ob where r: "r = (m, a, ob)" by (cases r) auto
  have all: "c m" if "c \<in> set (search_conditions p f s)" for c
    using assms that by (auto simp: matching_rows_def r list_all_iff)
  show ?thesis
  proof (cases "sf_folderId f")
    case None
    then show ?thesis by (simp add: r toHit_def Let_def filter_empty_conv list_ex_iff)
  next
    case (Some i)
    have "(\<lambda>m. list_ex (active_in_scope (Some i) (ms_id m)) (h_occurrences (st_hub s))) \<in> set (search_conditions p f s)"
      using Some by (simp add: search_conditions_def Let_def)
    from all [OF this] obtain oc where oc: "oc \<in> set (h_occurrences (st_hub s))" "active_in_scope (Some i) (ms_id m) oc"
      by (auto simp: list_ex_iff)
    then have "active_in_scope None (ms_id m) oc" by (simp add: active_in_scope_def)
    with oc Some show ?thesis by (auto simp: r toHit_def Let_def filter_empty_conv list_ex_iff)
  qed
qed

text \<open>
  C33. While nobody writes, the pages of a search partition its matches: walked to the reported total they
  give every message that meets all conditions exactly once, every page reports the same total, even
  past the end, and a hit says that no server copy remains exactly if no folder holds one.
\<close>

theorem search_pages_partition:
  assumes "search_tables_ok (st_hub s)"
    and "read_filters p (input\<lparr>in_limit := Some l, in_offset := Some 0\<rparr>) = Inr (f, l, 0)"
    and "\<forall>k < n. search p (input\<lparr>in_limit := Some l, in_offset := Some (l * int k)\<rparr>) s s s = Inr (R k)"
    and "\<forall>k < n. res_total (R k) \<le> l * int n"
    and "hits = concat (map (\<lambda>k. res_results (R k)) [0..<n])" and "0 < n"
  shows "distinct (map hit_messageId hits) \<and>
    hit_messageId ` set hits = ms_id ` set (search_matches p f s) \<and>
    (\<forall>k < n. res_total (R k) = int (length hits)) \<and>
    (\<forall>hit \<in> set hits. hit_noServerCopy hit \<longleftrightarrow>
      \<not> list_ex (active_in_scope None (hit_messageId hit)) (h_occurrences (st_hub s)))"
proof -
  let ?xs = "ordered_rows p f s"
  note ids = ordered_rows_ids [OF assms(1), of p f]
  have l: "1 \<le> l" using read_page [OF assms(2)] by simp
  have page: "res_results (R k) = map (toHit p f s) (take (nat l) (drop (nat l * k) ?xs)) \<and>
      res_total (R k) = int (length ?xs)" if "k < n" for k
  proof -
    from assms(3) that have k: "search p (input\<lparr>in_limit := Some l, in_offset := Some (l * int k)\<rparr>) s s s = Inr (R k)" by blast
    obtain g where g: "read_filters p (input\<lparr>in_limit := Some l, in_offset := Some (l * int k)\<rparr>) = Inr (g, l, l * int k)"
      and r: "res_results (R k) = map (toHit p g s) (take (nat l) (drop (nat (l * int k)) (ordered_rows p g s)))"
        "res_total (R k) = int (length (search_matches p g s))"
      by (rule page_of [OF k assms(1)]) blast
    from read_page [OF g] assms(2) have "g = f" by (simp add: MAX_SEARCH_OFFSET_def)
    with r ids(3) l show ?thesis by (simp add: nat_mult_distrib)
  qed
  have "hits = concat (map (\<lambda>k. map (toHit p f s) (take (nat l) (drop (nat l * k) ?xs))) [0..<n])"
    unfolding assms(5) using page by (intro arg_cong [where f = concat] map_cong) auto
  also have "\<dots> = map (toHit p f s) (take (nat l * n) ?xs)"
    unfolding concat_pages [symmetric] by (simp add: map_concat comp_def)
  also have "take (nat l * n) ?xs = ?xs"
  proof -
    have "int (length ?xs) \<le> int (nat l * n)" using page [OF assms(6)] assms(4) [rule_format, OF assms(6)] l by simp
    then show ?thesis by (simp only: of_nat_le_iff take_all)
  qed
  finally have hits: "hits = map (toHit p f s) ?xs" .
  have "map hit_messageId hits = map (ms_id \<circ> fst) ?xs" by (simp add: hits toHit_id)
  then show ?thesis
  proof (intro conjI)
    assume h: "map hit_messageId hits = map (ms_id \<circ> fst) ?xs"
    then show "distinct (map hit_messageId hits)" using ids(1) by simp
    have "hit_messageId ` set hits = ms_id ` set (map fst ?xs)"
      using arg_cong [OF h, of set] by (simp add: image_comp)
    then show "hit_messageId ` set hits = ms_id ` set (search_matches p f s)" unfolding ids(2) .
    show "\<forall>k < n. res_total (R k) = int (length hits)" using page by (simp add: hits)
    show "\<forall>hit \<in> set hits. hit_noServerCopy hit \<longleftrightarrow>
      \<not> list_ex (active_in_scope None (hit_messageId hit)) (h_occurrences (st_hub s))"
      using noServerCopy_everywhere [of _ p f s] by (auto simp: hits ordered_rows_def)
  qed
qed

definition found_message :: "uuid \<Rightarrow> millis \<Rightarrow> message_row" where
  "found_message i at =
     \<lparr>ms_id = i, ms_accountId = demo_gen, ms_messageId = None, ms_inReplyTo = None, ms_referenceIds = [],
      ms_threadId = None, ms_parentMessageId = None, ms_threadLinkState = Link_Root, ms_threadDirty = False,
      ms_sender = None, ms_replyTo = None, ms_recipients = None, ms_subject = None, ms_sentAt = Some at,
      ms_snippet = None, ms_hasAttachments = True, ms_sizeBytes = None, ms_fetchedBody = True, ms_bodyFailedAt = None,
      ms_originalStorageKey = None, ms_originalSha256 = None, ms_senderText = [], ms_recipientsText = [],
      ms_addressesText = [], ms_subjectText = [], ms_bodyIndexText = []\<rparr>"

definition found_state :: search_state where
  "found_state = demo_search_state\<lparr>st_hub := empty_hub\<lparr>
     h_accounts := [\<lparr>acc_id = demo_gen, acc_identities = []\<rparr>],
     h_messages := [found_message ''a'' 1, found_message ''b'' 2, (found_message ''c'' 3)\<lparr>ms_hasAttachments := False\<rparr>]\<rparr>\<rparr>"

definition attachment_search :: "int \<Rightarrow> search_input" where
  "attachment_search offset =
     \<lparr>in_query = ''has:attachment'', in_accountIds = None, in_folderId = None, in_domains = None, in_localOnly = False,
      in_limit = Some 1, in_offset = Some offset\<rparr>"

definition attachment_filters :: search_filters where
  "attachment_filters =
     \<lparr>sf_parsed = emptyQuery\<lparr>pq_hasAttachment := True\<rparr>, sf_accountIds = None, sf_folderId = None, sf_domains = [],
      sf_localOnly = False\<rparr>"

lemma attachment_read: "0 \<le> k \<Longrightarrow> k \<le> MAX_SEARCH_OFFSET \<Longrightarrow> read_filters demo_search_ports (attachment_search k) = Inr (attachment_filters, 1, k)"
proof -
  have "readQueryText ''has:attachment'' = Inr ''has:attachment''"
    "parseSearchQuery (\<lambda>s. s) ''has:attachment'' = Inr (emptyQuery\<lparr>pq_hasAttachment := True\<rparr>)" by code_simp+
  then show "0 \<le> k \<Longrightarrow> k \<le> MAX_SEARCH_OFFSET \<Longrightarrow> read_filters demo_search_ports (attachment_search k) = Inr (attachment_filters, 1, k)"
    by (simp add: read_filters_def attachment_search_def demo_search_ports_def readAccountFilters_def readDomainFilters_def
        readFolderFilter_def readLimit_def readOffset_def MAX_SEARCH_LIMIT_def attachment_filters_def)
qed

lemma attachment_rows:
  "matching_rows demo_search_ports attachment_filters found_state =
     [(found_message ''a'' 1, \<lparr>acc_id = demo_gen, acc_identities = []\<rparr>, None),
      (found_message ''b'' 2, \<lparr>acc_id = demo_gen, acc_identities = []\<rparr>, None)]"
  by (simp add: matching_rows_def search_rows_def found_state_def demo_search_state_def empty_hub_def found_message_def
      search_conditions_def attachment_filters_def emptyQuery_def)

theorem search_pages_partition_witness:
  "ms_id ` set (search_matches demo_search_ports attachment_filters found_state) = {''a'', ''b''} \<and>
   (\<exists>R. search demo_search_ports (attachment_search 1) found_state found_state found_state = Inr R \<and> res_total R = 2 \<and>
     map hit_messageId (res_results R) = [''a''])"
proof -
  let ?page = "\<lambda>k. search demo_search_ports (attachment_search (int k)) found_state found_state found_state"
  have s: "search_tables_ok (st_hub found_state)"
    by (simp add: search_tables_ok_def found_state_def demo_search_state_def empty_hub_def found_message_def)
  have o: "ordered_rows demo_search_ports attachment_filters found_state =
      [(found_message ''b'' 2, \<lparr>acc_id = demo_gen, acc_identities = []\<rparr>, None),
       (found_message ''a'' 1, \<lparr>acc_id = demo_gen, acc_identities = []\<rparr>, None)]"
  proof -
    have "row_order demo_search_ports (sf_parsed attachment_filters) h (found_message i t, a, ob) = ((1, 0), (0, - t), i)" for h i t a ob
      by (simp add: row_order_def search_rank_def attachment_filters_def emptyQuery_def effectiveAt_def found_message_def
          desc_nulls_last_def)
    then show ?thesis unfolding ordered_rows_def attachment_rows by simp
  qed
  have pages: "\<exists>R. ?page k = Inr R \<and> res_total R = 2 \<and> map hit_messageId (res_results R) = [[''b'', ''a''] ! k]" if "k < 2" for k
    using that by (auto simp: search_def attachment_read MAX_SEARCH_OFFSET_def o toHit_id found_message_def less_Suc_eq numeral_2_eq_2)
  have input: "attachment_search 0\<lparr>in_limit := Some 1, in_offset := Some k\<rparr> = attachment_search k" for k
    by (simp add: attachment_search_def)
  from pages [of 0] obtain R0 where R0: "?page 0 = Inr R0" "res_total R0 = 2" "map hit_messageId (res_results R0) = [''b'']" by auto
  from pages [of 1] obtain R1 where R1: "?page 1 = Inr R1" "res_total R1 = 2" "map hit_messageId (res_results R1) = [''a'']" by auto
  have "distinct (map hit_messageId (res_results R0 @ res_results R1)) \<and>
      hit_messageId ` set (res_results R0 @ res_results R1) = ms_id ` set (search_matches demo_search_ports attachment_filters found_state) \<and>
      (\<forall>k < 2. res_total (if k = (0 :: nat) then R0 else R1) = int (length (res_results R0 @ res_results R1))) \<and>
      (\<forall>hit \<in> set (res_results R0 @ res_results R1). hit_noServerCopy hit \<longleftrightarrow>
        \<not> list_ex (active_in_scope None (hit_messageId hit)) (h_occurrences (st_hub found_state)))"
  proof (rule search_pages_partition [OF s, where input = "attachment_search 0" and l = 1 and n = 2])
    show "read_filters demo_search_ports (attachment_search 0\<lparr>in_limit := Some 1, in_offset := Some 0\<rparr>) = Inr (attachment_filters, 1, 0)"
      unfolding input by (rule attachment_read) (simp_all add: MAX_SEARCH_OFFSET_def)
    show "\<forall>k < 2. search demo_search_ports (attachment_search 0\<lparr>in_limit := Some 1, in_offset := Some (1 * int k)\<rparr>)
        found_state found_state found_state = Inr (if k = 0 then R0 else R1)"
      unfolding input mult_1 using R0(1) R1(1) by (auto simp: less_2_cases_iff)
    show "\<forall>k < 2. res_total (if k = (0 :: nat) then R0 else R1) \<le> 1 * int 2" using R0(2) R1(2) by simp
    show "res_results R0 @ res_results R1 = concat (map (\<lambda>k. res_results (if k = (0 :: nat) then R0 else R1)) [0..<2])"
      by (simp add: numeral_2_eq_2)
  qed simp
  then have "ms_id ` set (search_matches demo_search_ports attachment_filters found_state) =
      set (map hit_messageId (res_results R0) @ map hit_messageId (res_results R1))" by auto
  then show ?thesis using R0(3) R1 by auto
qed

end
