(* ===== verification/Class_Rules.thy ===== *)
theory Class_Rules
  imports Search_Query
begin

text \<open>
  The deterministic rules of \<open>packages/classification/src/rules.ts\<close> and the minimized input of
  \<open>packages/classification/src/input.ts\<close>. The patterns are written as functions on the text: the rules
  use alternatives of plain words, word boundaries and one bounded gap.
\<close>

section \<open>Patterns\<close>

definition is_word_char :: "char \<Rightarrow> bool" where
  "is_word_char c = (let n = char_code c in (48 \<le> n \<and> n \<le> 57) \<or> (65 \<le> n \<and> n \<le> 90) \<or> (97 \<le> n \<and> n \<le> 122) \<or> n = 95)"

text \<open>A word boundary between what was read, last character first, and what follows.\<close>

definition word_boundary :: "string \<Rightarrow> string \<Rightarrow> bool" where
  "word_boundary before rest \<longleftrightarrow>
     (before \<noteq> [] \<and> is_word_char (hd before)) \<noteq> (rest \<noteq> [] \<and> is_word_char (hd rest))"

text \<open>One of the alternatives at this place; letters of either case match.\<close>

definition starts_with_any :: "string list \<Rightarrow> string \<Rightarrow> string list" where
  "starts_with_any words s = filter (\<lambda>w. take (length w) (to_lower s) = w) words"

definition bounded_words :: "string list \<Rightarrow> string \<Rightarrow> string \<Rightarrow> (string \<times> string) list" where
  "bounded_words words before rest =
     (if word_boundary before rest
      then filter (\<lambda>(b, r). word_boundary b r)
             (map (\<lambda>w. (rev (take (length w) rest) @ before, drop (length w) rest)) (starts_with_any words rest))
      else [])"

text \<open>A gap of at most \<open>n\<close> characters that are no full stop and no line feed, then one of the words.\<close>

fun gap_then :: "nat \<Rightarrow> string list \<Rightarrow> string \<Rightarrow> string \<Rightarrow> bool" where
  "gap_then n words before rest =
     (bounded_words words before rest \<noteq> [] \<or>
      (case (n, rest) of
         (Suc m, c # s) \<Rightarrow> if c = CHR 0x2E \<or> c = CHR 0x0A then False else gap_then m words (c # before) s
       | _ \<Rightarrow> False))"

declare gap_then.simps [simp del]

text \<open>A search from every place of the text.\<close>

fun search_from :: "(string \<Rightarrow> string \<Rightarrow> bool) \<Rightarrow> string \<Rightarrow> string \<Rightarrow> bool" where
  "search_from matches before [] = matches before []"
| "search_from matches before (c # s) = (matches before (c # s) \<or> search_from matches (c # before) s)"

section \<open>Rules\<close>

definition SECURITY_SENDER_DOMAINS :: "string list" where
  "SECURITY_SENDER_DOMAINS =
     [''accounts.google.com'', ''appleid.apple.com'', ''github.com'', ''login.microsoftonline.com'',
      ''no-reply.accounts.firefox.com'', ''signin.aws.amazon.com'']"

definition BOUNCE_SENDER_LOCALS :: "string list" where
  "BOUNCE_SENDER_LOCALS = [''mailer-daemon'', ''postmaster'']"

definition access_words :: "string list" where
  "access_words =
     [''verification'', ''verify'', ''security'', ''login'', ''log-in'', ''sign-in'', ''sign in'', ''one-time'',
      ''two-factor'', ''2fa'']"

definition code_words :: "string list" where
  "code_words = [''code'', ''otp'', ''passcode'', ''token'']"

definition words_near :: "string list \<Rightarrow> string list \<Rightarrow> string \<Rightarrow> bool" where
  "words_near first second subject \<longleftrightarrow>
     search_from (\<lambda>before rest. list_ex (\<lambda>(b, r). gap_then 40 second b r) (bounded_words first before rest)) [] subject"

definition security_subject :: "string \<Rightarrow> bool" where
  "security_subject subject \<longleftrightarrow> words_near access_words code_words subject \<or> words_near code_words access_words subject"

definition receipt_subject :: "string \<Rightarrow> bool" where
  "receipt_subject subject \<longleftrightarrow>
     search_from (\<lambda>before rest. bounded_words
         [''statement'', ''invoice'', ''receipt'', ''order confirmation'', ''payment confirmation'', ''payment receipt'']
         before rest \<noteq> []) [] subject"

definition bounce_subject :: "string \<Rightarrow> bool" where
  "bounce_subject subject \<longleftrightarrow>
     starts_with_any
       [''undeliverable'', ''undelivered mail'', ''mail delivery failed'', ''delivery has failed'', ''delivery failed'',
        ''delivery status notification'', ''returned mail'', ''mail system error''] subject \<noteq> []"

text \<open>The first two parts of \<open>split("@")\<close>, empty where missing.\<close>

fun split_at_sign :: "string \<Rightarrow> string list" where
  "split_at_sign [] = [[]]"
| "split_at_sign (c # s) =
     (if c = CHR 0x40 then [] # split_at_sign s else (case split_at_sign s of [] \<Rightarrow> [[c]] | w # ws \<Rightarrow> (c # w) # ws))"

definition matchDeterministicRules :: "string option \<Rightarrow> string option \<Rightarrow> (string \<times> string) option" where
  "matchDeterministicRules senderAddress subject0 =
     (let subject = (case subject0 of None \<Rightarrow> [] | Some s \<Rightarrow> s);
          parts = split_at_sign (to_lower (case senderAddress of None \<Rightarrow> [] | Some a \<Rightarrow> a));
          localPart = (case parts of [] \<Rightarrow> [] | l # _ \<Rightarrow> l);
          domain = (case parts of _ # d # _ \<Rightarrow> d | _ \<Rightarrow> [])
      in if localPart \<in> set BOUNCE_SENDER_LOCALS \<or> bounce_subject subject then Some (''bounce'', ''bounce_sender_or_subject'')
         else if domain \<in> set SECURITY_SENDER_DOMAINS \<or> security_subject subject
         then Some (''security_alert'', ''security_sender_or_subject'')
         else if receipt_subject subject then Some (''receipt'', ''receipt_subject'')
         else None)"

section \<open>Minimized input\<close>

definition MAX_INPUT_CHARS :: nat where "MAX_INPUT_CHARS = 4096"
definition MAX_SENDER_CHARS :: nat where "MAX_SENDER_CHARS = 256"
definition MAX_SUBJECT_CHARS :: nat where "MAX_SUBJECT_CHARS = 512"

definition hyphen_banner :: "string \<Rightarrow> string \<Rightarrow> bool" where
  "hyphen_banner title line \<longleftrightarrow>
     (let opening = takeWhile (\<lambda>c. c = CHR 0x2D) line;
          s = dropWhile is_space (dropWhile (\<lambda>c. c = CHR 0x2D) line);
          closing = dropWhile is_space (drop (length title) s)
      in 2 \<le> length opening \<and> starts_with_any [title] s \<noteq> [] \<and> 2 \<le> length closing \<and> list_all (\<lambda>c. c = CHR 0x2D) closing)"

definition wrote_line :: "string \<Rightarrow> bool" where
  "wrote_line line \<longleftrightarrow>
     (let n = length line - 6; mid = drop 3 (take n line)
      in 10 \<le> length line \<and> starts_with_any [''on ''] line \<noteq> [] \<and> to_lower (drop n line) = ''wrote:'' \<and>
         list_all (\<lambda>c. c \<noteq> CHR 0x0A \<and> c \<noteq> CHR 0x0D) mid \<and> \<not> is_word_char (last mid))"

definition isQuoteBoundary :: "string \<Rightarrow> bool" where
  "isQuoteBoundary line \<longleftrightarrow>
     (let trimmed = trim_string line in
      (trimmed \<noteq> [] \<and> hd trimmed = CHR 0x3E) \<or> wrote_line trimmed \<or>
      hyphen_banner ''original message'' trimmed \<or> hyphen_banner ''forwarded message'' trimmed \<or>
      (starts_with_any [''from:''] trimmed \<noteq> [] \<and> 5 < length trimmed \<and> is_space (trimmed ! 5)))"

text \<open>\<open>split(/\\r?\\n/)\<close>.\<close>

fun split_lines :: "string \<Rightarrow> string list" where
  "split_lines [] = [[]]"
| "split_lines (c # s) =
     (if c = CHR 0x0A then [] # split_lines s
      else if c = CHR 0x0D \<and> s \<noteq> [] \<and> hd s = CHR 0x0A then split_lines s
      else (case split_lines s of [] \<Rightarrow> [[c]] | w # ws \<Rightarrow> (c # w) # ws))"

definition join_lines :: "string list \<Rightarrow> string" where
  "join_lines ls = (case ls of [] \<Rightarrow> [] | l # ls' \<Rightarrow> foldl (\<lambda>a b. a @ [CHR 0x0A] @ b) l ls')"

definition stripQuotedChains :: "string \<Rightarrow> string" where
  "stripQuotedChains bodyText =
     trim_string (join_lines (takeWhile (\<lambda>line. \<not> isQuoteBoundary line) (split_lines bodyText)))"

definition collapse :: "string \<Rightarrow> string" where
  "collapse s = trim_string (collapse_spaces s)"

record minimized_input =
  mi_text :: string
  mi_inputHash :: string
  mi_truncated :: bool

definition minimizeMessageInput :: "(string \<Rightarrow> string) \<Rightarrow> string \<Rightarrow> string option \<Rightarrow> string option \<Rightarrow> minimized_input" where
  "minimizeMessageInput sha256 senderText subject0 bodyText =
     (let senderCollapsed = collapse senderText;
          subjectCollapsed = collapse (case subject0 of None \<Rightarrow> [] | Some s \<Rightarrow> s);
          sender = take MAX_SENDER_CHARS senderCollapsed;
          subject = take MAX_SUBJECT_CHARS subjectCollapsed;
          body = collapse (stripQuotedChains (case bodyText of None \<Rightarrow> [] | Some b \<Rightarrow> b));
          header = ''From: '' @ sender @ [CHR 0x0A] @ ''Subject: '' @ subject @ [CHR 0x0A, CHR 0x0A];
          bodySlice = take (MAX_INPUT_CHARS - length header) body;
          text = header @ bodySlice
      in \<lparr>mi_text = text, mi_inputHash = sha256 text,
          mi_truncated = (length senderCollapsed > length sender \<or> length subjectCollapsed > length subject \<or>
            length body > length bodySlice)\<rparr>)"

end
