(* ===== verification/Settings_Service.thy ===== *)
theory Settings_Service
  imports Recovery_Controls Complex_Main
begin

text \<open>
  The settings service, \<open>packages/settings/src/service.ts\<close>: stored rows read over the defaults, and the
  update that stores only what changes. Numbers are exact fractions; the \<open>typeof\<close> checks of a patch are
  its types.
\<close>

section \<open>Values\<close>

datatype setting_value =
    Setting_Null
  | Setting_Bool bool
  | Setting_Text string
  | Setting_Number rat
  | Setting_Other

record setting_row =
  sg_key :: string
  sg_value :: setting_value
  sg_updatedAt :: millis

record app_settings =
  as_theme :: string
  as_density :: string
  as_singleKeyShortcuts :: bool
  as_cleanViewDefault :: bool
  as_classificationEnabled :: bool
  as_classificationMonthlyCostCapUsd :: "rat option"
  as_backfillClassification :: bool
  as_homeEnabled :: bool

definition DEFAULT_SETTINGS :: app_settings where
  "DEFAULT_SETTINGS =
     \<lparr>as_theme = ''system'', as_density = ''compact'', as_singleKeyShortcuts = True, as_cleanViewDefault = False,
      as_classificationEnabled = False, as_classificationMonthlyCostCapUsd = None, as_backfillClassification = False,
      as_homeEnabled = True\<rparr>"

definition THEMES :: "string list" where "THEMES = [''system'', ''light'', ''dark'']"
definition DENSITIES :: "string list" where "DENSITIES = [''compact'', ''comfortable'']"
definition MAX_COST_CAP_USD :: rat where "MAX_COST_CAP_USD = 1000000"

datatype settings_fail = Settings_Recovery recovery_error | Settings_Invalid_Request

section \<open>Reading\<close>

definition themeValue :: "setting_value option \<Rightarrow> string option" where
  "themeValue v = (case v of Some (Setting_Text s) \<Rightarrow> if s \<in> set THEMES then Some s else None | _ \<Rightarrow> None)"

definition densityValue :: "setting_value option \<Rightarrow> string option" where
  "densityValue v = (case v of Some (Setting_Text s) \<Rightarrow> if s \<in> set DENSITIES then Some s else None | _ \<Rightarrow> None)"

definition booleanValue :: "setting_value option \<Rightarrow> bool option" where
  "booleanValue v = (case v of Some (Setting_Bool b) \<Rightarrow> Some b | _ \<Rightarrow> None)"

definition costCapValue :: "setting_value option \<Rightarrow> rat option" where
  "costCapValue v = (case v of Some (Setting_Number n) \<Rightarrow> if 0 \<le> n then Some n else None | _ \<Rightarrow> None)"

definition stored_setting :: "setting_row list \<Rightarrow> string \<Rightarrow> setting_value option" where
  "stored_setting rows key = map_option sg_value (find (\<lambda>r. sg_key r = key) rows)"

definition or_default :: "'a option \<Rightarrow> 'a \<Rightarrow> 'a" where
  "or_default v d = (case v of None \<Rightarrow> d | Some a \<Rightarrow> a)"

definition readSettings :: "setting_row list \<Rightarrow> app_settings" where
  "readSettings rows =
     (let stored = stored_setting rows; d = DEFAULT_SETTINGS in
      \<lparr>as_theme = or_default (themeValue (stored ''theme'')) (as_theme d),
       as_density = or_default (densityValue (stored ''reading.density'')) (as_density d),
       as_singleKeyShortcuts = or_default (booleanValue (stored ''shortcuts.single_key'')) (as_singleKeyShortcuts d),
       as_cleanViewDefault = or_default (booleanValue (stored ''reading.clean_view_default'')) (as_cleanViewDefault d),
       as_classificationEnabled = or_default (booleanValue (stored ''classification.enabled'')) (as_classificationEnabled d),
       as_classificationMonthlyCostCapUsd =
         (case costCapValue (stored ''classification.monthly_cost_cap_usd'') of
            None \<Rightarrow> as_classificationMonthlyCostCapUsd d | Some n \<Rightarrow> Some n),
       as_backfillClassification = or_default (booleanValue (stored ''classification.backfill'')) (as_backfillClassification d),
       as_homeEnabled = or_default (booleanValue (stored ''home.enabled'')) (as_homeEnabled d)\<rparr>)"

section \<open>Updating\<close>

text \<open>A patch: an absent field is None; the cap can be set to null.\<close>

record settings_patch =
  pt_theme :: "string option"
  pt_density :: "string option"
  pt_singleKeyShortcuts :: "bool option"
  pt_cleanViewDefault :: "bool option"
  pt_classificationEnabled :: "bool option"
  pt_classificationMonthlyCostCapUsd :: "rat option option"
  pt_backfillClassification :: "bool option"
  pt_homeEnabled :: "bool option"

text \<open>\<open>Math.round(value * 100) / 100\<close>.\<close>

definition round_cents :: "rat \<Rightarrow> rat" where
  "round_cents v = of_int \<lfloor>v * 100 + 1 / 2\<rfloor> / 100"

definition normalizeCostCap :: "rat option \<Rightarrow> settings_fail + rat option" where
  "normalizeCostCap value =
     (case value of
        None \<Rightarrow> Inr None
      | Some n \<Rightarrow> if n < 0 \<or> n > MAX_COST_CAP_USD then Inl Settings_Invalid_Request else Inr (Some (round_cents n)))"

definition mergePatch :: "app_settings \<Rightarrow> settings_patch \<Rightarrow> settings_fail + app_settings" where
  "mergePatch current patch =
     require (case pt_theme patch of None \<Rightarrow> True | Some t \<Rightarrow> t \<in> set THEMES) Settings_Invalid_Request
     (require (case pt_density patch of None \<Rightarrow> True | Some d \<Rightarrow> d \<in> set DENSITIES) Settings_Invalid_Request
     (attempt (case pt_classificationMonthlyCostCapUsd patch of
                 None \<Rightarrow> Inr (as_classificationMonthlyCostCapUsd current)
               | Some cap \<Rightarrow> normalizeCostCap cap) (\<lambda>cap.
       Inr \<lparr>as_theme = or_default (pt_theme patch) (as_theme current),
            as_density = or_default (pt_density patch) (as_density current),
            as_singleKeyShortcuts = or_default (pt_singleKeyShortcuts patch) (as_singleKeyShortcuts current),
            as_cleanViewDefault = or_default (pt_cleanViewDefault patch) (as_cleanViewDefault current),
            as_classificationEnabled = or_default (pt_classificationEnabled patch) (as_classificationEnabled current),
            as_classificationMonthlyCostCapUsd = cap,
            as_backfillClassification = or_default (pt_backfillClassification patch) (as_backfillClassification current),
            as_homeEnabled = or_default (pt_homeEnabled patch) (as_homeEnabled current)\<rparr>)))"

definition setting_entries :: "app_settings \<Rightarrow> (string \<times> setting_value) list" where
  "setting_entries s =
     [(''theme'', Setting_Text (as_theme s)),
      (''reading.density'', Setting_Text (as_density s)),
      (''shortcuts.single_key'', Setting_Bool (as_singleKeyShortcuts s)),
      (''reading.clean_view_default'', Setting_Bool (as_cleanViewDefault s)),
      (''classification.enabled'', Setting_Bool (as_classificationEnabled s)),
      (''classification.monthly_cost_cap_usd'',
         (case as_classificationMonthlyCostCapUsd s of None \<Rightarrow> Setting_Null | Some n \<Rightarrow> Setting_Number n)),
      (''classification.backfill'', Setting_Bool (as_backfillClassification s)),
      (''home.enabled'', Setting_Bool (as_homeEnabled s))]"

definition changedEntries :: "app_settings \<Rightarrow> app_settings \<Rightarrow> (string \<times> setting_value) list" where
  "changedEntries current next =
     map snd (filter (\<lambda>(c, n). c \<noteq> n) (zip (setting_entries current) (setting_entries next)))"

definition upsert_setting :: "millis \<Rightarrow> string \<times> setting_value \<Rightarrow> setting_row list \<Rightarrow> setting_row list" where
  "upsert_setting now e rows =
     (case e of (key, v) \<Rightarrow>
        if list_ex (\<lambda>r. sg_key r = key) rows
        then tbl_update (\<lambda>r. sg_key r = key) (\<lambda>r. r\<lparr>sg_value := v, sg_updatedAt := now\<rparr>) rows
        else rows @ [\<lparr>sg_key = key, sg_value = v, sg_updatedAt = now\<rparr>])"

record settings_state =
  gs_hub :: hub
  gs_settings :: "setting_row list"

text \<open>The states are those at the gate, at the read of the current settings, and of the transaction.\<close>

definition updateSettings ::
    "recovery_controls \<Rightarrow> string option \<Rightarrow> settings_patch \<Rightarrow> millis \<Rightarrow> settings_state \<Rightarrow> settings_state \<Rightarrow> settings_state \<Rightarrow>
     (settings_fail + app_settings) \<times> settings_state" where
  "updateSettings rv requestGeneration patch now s0 s1 s =
     (case gateMutation rv requestGeneration (gs_hub s0) of
        Inl e \<Rightarrow> (Inl (Settings_Recovery e), s)
      | Inr _ \<Rightarrow>
          (let current = readSettings (gs_settings s1) in
           case mergePatch current patch of
             Inl e \<Rightarrow> (Inl e, s)
           | Inr next \<Rightarrow>
               (let changed = changedEntries current next in
                if changed = [] then (Inr current, s)
                else
                  (Inr next,
                   s\<lparr>gs_settings := fold (upsert_setting now) changed (gs_settings s),
                     gs_hub := add_event \<lparr>ev_actor = User_Actor, ev_type = ''settings.updated'', ev_entityType = [],
                       ev_entityId = None, ev_payload = [(''keys'', JArr (map (JStr \<circ> fst) changed))]\<rparr> (gs_hub s)\<rparr>))))"

section \<open>Lemmas\<close>

lemma find_upserted: "find P (xs @ [y]) = (case find P xs of None \<Rightarrow> if P y then Some y else None | r \<Rightarrow> r)"
  by (induction xs) auto

lemma stored_upsert: "stored_setting (upsert_setting now (k, v) rows) key = (if key = k then Some v else stored_setting rows key)"
proof (cases "list_ex (\<lambda>r. sg_key r = k) rows")
  case True
  have f: "find (\<lambda>r. sg_key r = key) (tbl_update (\<lambda>r. sg_key r = k) (\<lambda>r. r\<lparr>sg_value := v, sg_updatedAt := now\<rparr>) rows) =
      map_option (\<lambda>r. if sg_key r = k then r\<lparr>sg_value := v, sg_updatedAt := now\<rparr> else r) (find (\<lambda>r. sg_key r = key) rows)"
    by (rule find_tbl_update_frame) simp
  show ?thesis
  proof (cases "find (\<lambda>r. sg_key r = key) rows")
    case None
    then have "key \<noteq> k" using True by (auto simp: find_None_iff list_ex_iff)
    with True None show ?thesis by (simp add: upsert_setting_def stored_setting_def f)
  next
    case (Some r)
    then have "sg_key r = key" using find_in_set by fastforce
    with True Some show ?thesis by (simp add: upsert_setting_def stored_setting_def f)
  qed
next
  case False
  then have "find (\<lambda>r. sg_key r = k) rows = None" by (simp add: find_None_iff list_ex_iff)
  with False show ?thesis by (auto simp: upsert_setting_def stored_setting_def find_upserted split: option.splits)
qed

lemma stored_upserts:
  "distinct (map fst es) \<Longrightarrow>
     stored_setting (fold (upsert_setting now) es rows) key = (case map_of es key of None \<Rightarrow> stored_setting rows key | Some v \<Rightarrow> Some v)"
proof (induction es arbitrary: rows)
  case (Cons e es)
  obtain k v where e: "e = (k, v)" by (cases e)
  from Cons.prems have "key = k \<Longrightarrow> map_of es key = None" by (simp add: e map_of_eq_None_iff)
  with Cons show ?case by (auto simp: e stored_upsert split: option.splits)
qed simp

lemma round_cents_nonneg: "0 \<le> v \<Longrightarrow> 0 \<le> round_cents v"
  by (simp add: round_cents_def)

lemma cap_result: "normalizeCostCap c = Inr (Some n) \<Longrightarrow> 0 \<le> n"
  by (auto simp: normalizeCostCap_def round_cents_nonneg split: option.splits if_splits)

definition settings_valid :: "app_settings \<Rightarrow> bool" where
  "settings_valid s \<longleftrightarrow> as_theme s \<in> set THEMES \<and> as_density s \<in> set DENSITIES \<and>
     (\<forall>n. as_classificationMonthlyCostCapUsd s = Some n \<longrightarrow> 0 \<le> n)"

lemma theme_valid: "themeValue v = Some t \<Longrightarrow> t \<in> set THEMES"
  by (auto simp: themeValue_def split: option.splits setting_value.splits if_splits)

lemma density_valid: "densityValue v = Some d \<Longrightarrow> d \<in> set DENSITIES"
  by (auto simp: densityValue_def split: option.splits setting_value.splits if_splits)

lemma cap_valid: "costCapValue v = Some n \<Longrightarrow> 0 \<le> n"
  by (auto simp: costCapValue_def split: option.splits setting_value.splits if_splits)

lemma or_default_in: "(\<And>x. v = Some x \<Longrightarrow> P x) \<Longrightarrow> P d \<Longrightarrow> P (or_default v d)"
  by (cases v) (simp_all add: or_default_def)

lemma read_valid: "settings_valid (readSettings rows)"
  unfolding settings_valid_def
proof (intro conjI allI impI)
  show "as_theme (readSettings rows) \<in> set THEMES"
    unfolding readSettings_def Let_def app_settings.simps
    by (rule or_default_in, erule theme_valid) (simp add: DEFAULT_SETTINGS_def THEMES_def)
  show "as_density (readSettings rows) \<in> set DENSITIES"
    unfolding readSettings_def Let_def app_settings.simps
    by (rule or_default_in, erule density_valid) (simp add: DEFAULT_SETTINGS_def DENSITIES_def)
  show "0 \<le> n" if "as_classificationMonthlyCostCapUsd (readSettings rows) = Some n" for n
    using that unfolding readSettings_def Let_def app_settings.simps
    by (auto simp: DEFAULT_SETTINGS_def dest: cap_valid split: option.splits)
qed

lemma merge_valid:
  assumes "mergePatch current patch = Inr next" and "settings_valid current"
  shows "settings_valid next"
proof -
  from assms(1) obtain cap where cap: "(case pt_classificationMonthlyCostCapUsd patch of
        None \<Rightarrow> Inr (as_classificationMonthlyCostCapUsd current) | Some cap \<Rightarrow> normalizeCostCap cap) = Inr cap"
    and n: "as_classificationMonthlyCostCapUsd next = cap" "as_theme next = or_default (pt_theme patch) (as_theme current)"
      "as_density next = or_default (pt_density patch) (as_density current)"
    and p: "case pt_theme patch of None \<Rightarrow> True | Some t \<Rightarrow> t \<in> set THEMES"
      "case pt_density patch of None \<Rightarrow> True | Some d \<Rightarrow> d \<in> set DENSITIES"
    by (auto simp: mergePatch_def tx_simps)
  have "0 \<le> m" if "cap = Some m" for m
    using cap assms(2) cap_result that by (cases "pt_classificationMonthlyCostCapUsd patch") (auto simp: settings_valid_def)
  with n p assms(2) show ?thesis by (auto simp: settings_valid_def or_default_def split: option.splits)
qed

section \<open>The changed entries\<close>

lemma changed_zip:
  "map fst cs = map fst ns \<Longrightarrow> distinct (map fst ns) \<Longrightarrow>
     distinct (map fst (map snd (filter (\<lambda>(c, n). c \<noteq> n) (zip cs ns)))) \<and>
     map_of (map snd (filter (\<lambda>(c, n). c \<noteq> n) (zip cs ns))) key =
       (case map_of ns key of
          None \<Rightarrow> None
        | Some v \<Rightarrow> if map_of cs key = Some v then None else Some v)"
proof (induction cs arbitrary: ns)
  case (Cons c cs)
  then obtain n ns' where ns: "ns = n # ns'" by (cases ns) auto
  let ?l = "map snd (filter (\<lambda>(c, n). c \<noteq> n) (zip cs ns'))"
  have ih: "distinct (map fst ?l)" "map_of ?l key = (case map_of ns' key of
          None \<Rightarrow> None
        | Some v \<Rightarrow> if map_of cs key = Some v then None else Some v)"
    using Cons.IH [of ns'] Cons.prems unfolding ns by simp_all
  have keys: "set (map fst ?l) \<subseteq> set (map fst ns')" by (force dest: set_zip_rightD)
  have "fst n \<notin> set (map fst ns')" "fst c = fst n" using Cons.prems unfolding ns by simp_all
  then have new: "fst n \<notin> set (map fst ?l)" "map_of ns' (fst n) = None" using keys by (blast, simp add: map_of_eq_None_iff)
  have "distinct (map fst (map snd (filter (\<lambda>(c, n). c \<noteq> n) (zip (c # cs) (n # ns')))))"
    using new(1) ih(1) by simp
  moreover have "map_of (map snd (filter (\<lambda>(c, n). c \<noteq> n) (zip (c # cs) (n # ns')))) key =
      (case map_of (n # ns') key of
          None \<Rightarrow> None
        | Some v \<Rightarrow> if map_of (c # cs) key = Some v then None else Some v)"
    using ih(2) new \<open>fst c = fst n\<close> by (cases c; cases n) (auto split: option.splits)
  ultimately show ?case unfolding ns by blast
qed simp

lemma entry_keys: "map fst (setting_entries c) = map fst (setting_entries n)" "distinct (map fst (setting_entries c))"
  by (simp_all add: setting_entries_def)

lemmas changed_entries = changed_zip [OF entry_keys(1) entry_keys(2), folded changedEntries_def]

lemma stored_after:
  "stored_setting (fold (upsert_setting now) (changedEntries c n) rows) key =
     (case map_of (setting_entries n) key of
        None \<Rightarrow> stored_setting rows key
      | Some v \<Rightarrow> if map_of (setting_entries c) key = Some v then stored_setting rows key else Some v)"
  using stored_upserts [OF conjunct1 [OF changed_entries], of now c n rows key] changed_entries [of c n key]
  by (auto split: option.splits)

lemma read_after:
  assumes "settings_valid n" and "c = readSettings rows"
  shows "readSettings (fold (upsert_setting now) (changedEntries c n) rows) = n"
proof -
  let ?rows = "fold (upsert_setting now) (changedEntries c n) rows"
  note stored = stored_after [of now c n rows]
  note c = assms(2) [unfolded readSettings_def Let_def, THEN arg_cong]
  have theme: "as_theme (readSettings ?rows) = as_theme n"
    using assms(1) c [of as_theme] stored [of "''theme''"]
    by (auto simp: readSettings_def Let_def setting_entries_def themeValue_def or_default_def settings_valid_def)
  have density: "as_density (readSettings ?rows) = as_density n"
    using assms(1) c [of as_density] stored [of "''reading.density''"]
    by (auto simp: readSettings_def Let_def setting_entries_def densityValue_def or_default_def settings_valid_def)
  have cap: "as_classificationMonthlyCostCapUsd (readSettings ?rows) = as_classificationMonthlyCostCapUsd n"
    using assms(1) c [of as_classificationMonthlyCostCapUsd] stored [of "''classification.monthly_cost_cap_usd''"]
    by (auto simp: readSettings_def Let_def setting_entries_def costCapValue_def settings_valid_def DEFAULT_SETTINGS_def
        split: option.splits if_split_asm)
  have flags: "as_singleKeyShortcuts (readSettings ?rows) = as_singleKeyShortcuts n"
    "as_cleanViewDefault (readSettings ?rows) = as_cleanViewDefault n"
    "as_classificationEnabled (readSettings ?rows) = as_classificationEnabled n"
    "as_backfillClassification (readSettings ?rows) = as_backfillClassification n"
    "as_homeEnabled (readSettings ?rows) = as_homeEnabled n"
    using c [of as_singleKeyShortcuts] c [of as_cleanViewDefault] c [of as_classificationEnabled]
      c [of as_backfillClassification] c [of as_homeEnabled]
      stored [of "''shortcuts.single_key''"] stored [of "''reading.clean_view_default''"] stored [of "''classification.enabled''"]
      stored [of "''classification.backfill''"] stored [of "''home.enabled''"]
    by (auto simp: readSettings_def Let_def setting_entries_def booleanValue_def or_default_def)
  show ?thesis by (rule app_settings.equality) (use theme density cap flags in simp_all)
qed

lemma zip_unchanged: "length cs = length ns \<Longrightarrow> filter (\<lambda>(c, n). c \<noteq> n) (zip cs ns) = [] \<longleftrightarrow> cs = ns"
  by (induction cs ns rule: list_induct2) auto

lemma entries_inj: "setting_entries c = setting_entries n \<Longrightarrow> c = n"
  by (rule app_settings.equality) (auto simp: setting_entries_def split: option.splits)

lemma no_changes: "changedEntries c n = [] \<longleftrightarrow> c = n"
proof -
  have "length (setting_entries c) = length (setting_entries n)" by (simp add: setting_entries_def)
  from zip_unchanged [OF this] show ?thesis unfolding changedEntries_def map_is_Nil_conv using entries_inj by blast
qed


definition demo_settings :: settings_state where
  "demo_settings =
     \<lparr>gs_hub = empty_hub\<lparr>h_serviceState :=
        Some \<lparr>ss_recoveryGeneration = demo_gen, ss_recoveryMode = Mode_Ready, ss_updatedAt = 0\<rparr>\<rparr>, gs_settings = []\<rparr>"

definition demo_patch :: settings_patch where
  "demo_patch =
     \<lparr>pt_theme = None, pt_density = None, pt_singleKeyShortcuts = None, pt_cleanViewDefault = None,
      pt_classificationEnabled = Some True, pt_classificationMonthlyCostCapUsd = None, pt_backfillClassification = None,
      pt_homeEnabled = None\<rparr>"


end
