(* ===== verification/Class_Service.thy ===== *)
theory Class_Service
  imports Class_Rules Settings_Service Hub_Runs "HOL-Library.Product_Lexorder"
begin

text \<open>
  Shadow-mode classification, \<open>packages/classification/src/service.ts\<close>: the candidates of a cycle, the
  precedence of placements, overrides, rules and Jev, the circuit breaker and the cost cap. The adapter is
  a parameter that answers or fails; costs are exact fractions. Other writers act after every query.
\<close>

section \<open>State\<close>

definition MESSAGE_CLASSES :: "string list" where "MESSAGE_CLASSES = JEV_CLASSES"

datatype suggestion_source = Source_Manual | Source_Override | Source_Rule | Source_Jev

fun source_text :: "suggestion_source \<Rightarrow> string" where
  "source_text Source_Manual = ''manual''"
| "source_text Source_Override = ''override''"
| "source_text Source_Rule = ''rule''"
| "source_text Source_Jev = ''jev''"

datatype jev_failure_kind = Jev_Timeout | Jev_Request_Failed | Jev_Invalid_Response

fun failure_text :: "jev_failure_kind \<Rightarrow> string" where
  "failure_text Jev_Timeout = ''timeout''"
| "failure_text Jev_Request_Failed = ''request_failed''"
| "failure_text Jev_Invalid_Response = ''invalid_response''"

record jev_answers =
  ja_classHint :: string
  ja_senderRelationship :: string
  ja_asksAction :: bool
  ja_asksReply :: bool
  ja_timeSensitive :: bool

record jev_confidence =
  jc_classHint :: "rat option"
  jc_senderRelationship :: "rat option"
  jc_asksAction :: "rat option"
  jc_asksReply :: "rat option"
  jc_timeSensitive :: "rat option"

record jev_decision =
  jd_model :: string
  jd_answers :: jev_answers
  jd_confidence :: jev_confidence
  jd_latencyMs :: int

text \<open>The columns of \<open>messages\<close> classification reads or writes; \<open>metadata\<close> is a JSON object.\<close>

record class_message =
  cm_id :: uuid
  cm_accountId :: uuid
  cm_sender :: "email_address option"
  cm_subject :: "string option"
  cm_sentAt :: "millis option"
  cm_fetchedBody :: bool
  cm_classHint :: "string option"
  cm_asksAction :: "bool option"
  cm_asksReply :: "bool option"
  cm_timeSensitive :: "bool option"
  cm_metadata :: "string \<Rightarrow> json option"

record decision_row =
  de_messageId :: uuid
  de_inputHash :: string
  de_model :: string
  de_questionSet :: string
  de_answers :: jev_answers
  de_confidence :: jev_confidence
  de_latencyMs :: int
  de_createdAt :: millis

record sender_override =
  so_accountId :: uuid
  so_sender :: string
  so_classHint :: "string option"
  so_note :: "string option"

record class_event =
  ce_actor :: actor
  ce_type :: string
  ce_entityId :: "uuid option"
  ce_payload :: "(string \<times> json) list"
  ce_at :: millis

record class_db =
  cl_hub :: hub
  cl_messages :: "class_message list"
  cl_classifyEnabled :: "uuid \<Rightarrow> bool"
  cl_overrides :: "sender_override list"
  cl_decisions :: "decision_row list"
  cl_settings :: "setting_row list"
  cl_events :: "class_event list"

record class_ports =
  kp_env :: "nat \<Rightarrow> class_db \<Rightarrow> class_db"
  kp_clock :: "nat \<Rightarrow> millis"
  kp_adapter :: "(nat \<Rightarrow> string \<Rightarrow> jev_failure_kind + jev_decision) option"
  kp_sha256 :: "string \<Rightarrow> string"
  kp_htmlToText :: "string \<Rightarrow> string"

datatype class_error = Class_Range

text \<open>The calls made to the adapter, with the message each was for.\<close>

record class_world =
  cw_time :: nat
  cw_db :: class_db
  cw_asked :: "(uuid \<times> string) list"

type_synonym 'a class_run = "(class_world, class_error, 'a) hub_run"

definition class_tick :: "class_ports \<Rightarrow> class_db \<Rightarrow> class_world \<Rightarrow> class_world" where
  "class_tick p d w = w\<lparr>cw_time := Suc (cw_time w), cw_db := kp_env p (cw_time w) d\<rparr>"

definition class_read :: "class_ports \<Rightarrow> (class_db \<Rightarrow> 'a) \<Rightarrow> 'a class_run" where
  "class_read p q w = (Inr (q (cw_db w)), class_tick p (cw_db w) w)"

definition class_write :: "class_ports \<Rightarrow> (millis \<Rightarrow> class_db \<Rightarrow> class_db) \<Rightarrow> unit class_run" where
  "class_write p f w = (Inr (), class_tick p (f (kp_clock p (cw_time w)) (cw_db w)) w)"

definition class_now :: "class_ports \<Rightarrow> (millis \<Rightarrow> 'a class_run) \<Rightarrow> 'a class_run" where
  "class_now p f w = f (kp_clock p (cw_time w)) w"

definition ask_adapter ::
    "class_ports \<Rightarrow> (nat \<Rightarrow> string \<Rightarrow> jev_failure_kind + jev_decision) \<Rightarrow> uuid \<Rightarrow> string \<Rightarrow> (jev_failure_kind + jev_decision) class_run" where
  "ask_adapter p ask i input w =
     (Inr (ask (cw_time w) input), class_tick p (cw_db w) (w\<lparr>cw_asked := cw_asked w @ [(i, input)]\<rparr>))"

section \<open>Guardrails\<close>

definition CIRCUIT_ERROR_THRESHOLD :: nat where "CIRCUIT_ERROR_THRESHOLD = 5"
definition CIRCUIT_WINDOW_MS :: millis where "CIRCUIT_WINDOW_MS = 10 * 60000"
definition CIRCUIT_COOLDOWN_MS :: millis where "CIRCUIT_COOLDOWN_MS = 30 * 60000"
definition ESTIMATED_INPUT_TOKENS_PER_CALL :: rat where "ESTIMATED_INPUT_TOKENS_PER_CALL = 2000"
definition PRICE_PER_MILLION_INPUT_TOKENS_USD :: rat where "PRICE_PER_MILLION_INPUT_TOKENS_USD = 42 / 1000"
definition ESTIMATED_COST_PER_CALL_USD :: rat where
  "ESTIMATED_COST_PER_CALL_USD = ESTIMATED_INPUT_TOKENS_PER_CALL * PRICE_PER_MILLION_INPUT_TOKENS_USD / 1000000"
definition DEFAULT_CLASSIFY_BATCH_LIMIT :: int where "DEFAULT_CLASSIFY_BATCH_LIMIT = 25"
definition QUESTION_SET_VERSION :: string where "QUESTION_SET_VERSION = ''classify-2''"

text \<open>The \<open>while\<close> loop of the window; an index past the end compares as false.\<close>

function advance_first :: "int list \<Rightarrow> int \<Rightarrow> nat \<Rightarrow> nat \<Rightarrow> nat" where
  "advance_first ts windowMs j first =
     (if first < length ts \<and> ts ! j - ts ! first > windowMs then advance_first ts windowMs j (Suc first) else first)"
  by pat_completeness auto
termination by (relation "measure (\<lambda>(ts, _, _, first). length ts - first)") auto

declare advance_first.simps [simp del]

text \<open>The loop over the last index of a span, with the widest span and the first index so far.\<close>

fun widest_loop :: "int list \<Rightarrow> int \<Rightarrow> nat list \<Rightarrow> nat \<Rightarrow> nat \<Rightarrow> nat" where
  "widest_loop ts windowMs [] widest first = widest"
| "widest_loop ts windowMs (j # js) widest first =
     (let f = advance_first ts windowMs j first
      in widest_loop ts windowMs js (max widest (j + 1 - f)) f)"

definition widestBurstSize :: "int list \<Rightarrow> int \<Rightarrow> nat" where
  "widestBurstSize ts windowMs = widest_loop ts windowMs [0..<length ts] 0 0"

text \<open>Midnight of the first of the month, in UTC.\<close>

definition month_start :: "millis \<Rightarrow> millis" where
  "month_start now =
     (let d = now div 86400000 in 86400000 * UTC_day (YearFromDay d) (MonthFromDay d) 1)"

definition countMonthCalls :: "class_ports \<Rightarrow> int class_run" where
  "countMonthCalls p =
     class_now p (\<lambda>now. class_read p (\<lambda>d. int (length (filter (\<lambda>r. month_start now \<le> de_createdAt r) (cl_decisions d)))))"

datatype circuit = Circuit_Closed | Circuit_Open | Circuit_Not_Configured
datatype circuit_reason = Reason_No_Adapter | Reason_Disabled | Reason_Errors | Reason_Cost_Cap

definition failure_times :: "millis \<Rightarrow> class_db \<Rightarrow> millis list" where
  "failure_times now d =
     sort (map ce_at (filter (\<lambda>e. ce_type e = ''class.error'' \<and> ce_at e > now - CIRCUIT_COOLDOWN_MS) (cl_events d)))"

definition assessCircuit :: "class_ports \<Rightarrow> app_settings \<Rightarrow> (circuit \<times> circuit_reason option) class_run" where
  "assessCircuit p settings =
     (if kp_adapter p = None then give (Circuit_Not_Configured, Some Reason_No_Adapter)
      else if \<not> as_classificationEnabled settings then give (Circuit_Not_Configured, Some Reason_Disabled)
      else
        class_now p (\<lambda>now.
          call (class_read p (failure_times now)) (\<lambda>failureTimes.
            if widestBurstSize failureTimes CIRCUIT_WINDOW_MS \<ge> CIRCUIT_ERROR_THRESHOLD
            then give (Circuit_Open, Some Reason_Errors)
            else
              (case as_classificationMonthlyCostCapUsd settings of
                 None \<Rightarrow> give (Circuit_Closed, None)
               | Some cap \<Rightarrow>
                   call (countMonthCalls p) (\<lambda>monthCalls.
                     if round_cents (of_int monthCalls * ESTIMATED_COST_PER_CALL_USD) \<ge> cap
                     then give (Circuit_Open, Some Reason_Cost_Cap)
                     else give (Circuit_Closed, None))))))"

definition readCircuit :: "class_ports \<Rightarrow> circuit class_run" where
  "readCircuit p =
     call (class_read p (\<lambda>d. readSettings (cl_settings d))) (\<lambda>settings.
     call (assessCircuit p settings) (\<lambda>(circuit, _). give circuit))"

section \<open>Sessions\<close>

text \<open>The newest event of a kind, the last one inserted of several at one time.\<close>

definition newest_event :: "(class_event \<Rightarrow> bool) \<Rightarrow> class_db \<Rightarrow> class_event option" where
  "newest_event P d =
     foldl (\<lambda>best e. case best of None \<Rightarrow> Some e | Some b \<Rightarrow> if ce_at b \<le> ce_at e then Some e else Some b) None
       (filter P (cl_events d))"

definition session_state :: "class_event \<Rightarrow> string option" where
  "session_state e = (case map_of (ce_payload e) ''state'' of Some (JStr s) \<Rightarrow> Some s | _ \<Rightarrow> None)"

definition add_class_event :: "class_event \<Rightarrow> class_db \<Rightarrow> class_db" where
  "add_class_event e d = d\<lparr>cl_events := cl_events d @ [e]\<rparr>"

definition session_event :: "bool \<Rightarrow> millis \<Rightarrow> class_event" where
  "session_event enabled now =
     \<lparr>ce_actor = System_Actor, ce_type = ''class.session'', ce_entityId = None,
      ce_payload = [(''state'', JStr (if enabled then ''enabled'' else ''disabled''))], ce_at = now\<rparr>"

definition recordSessionState :: "class_ports \<Rightarrow> bool \<Rightarrow> unit class_run" where
  "recordSessionState p enabled =
     call (class_read p (\<lambda>d. case newest_event (\<lambda>e. ce_type e = ''class.session'') d of
                              None \<Rightarrow> None | Some e \<Rightarrow> session_state e)) (\<lambda>recorded.
       if (if enabled then recorded = Some ''enabled'' else recorded \<noteq> Some ''enabled'') then give ()
       else class_write p (\<lambda>now. add_class_event (session_event enabled now)))"

definition readEnabledBoundary :: "class_ports \<Rightarrow> millis option class_run" where
  "readEnabledBoundary p =
     class_read p (\<lambda>d. map_option ce_at
       (newest_event (\<lambda>e. ce_type e = ''class.session'' \<and> session_state e = Some ''enabled'') d))"

section \<open>Candidates\<close>

definition no_class_source :: "class_message \<Rightarrow> bool" where
  "no_class_source m \<longleftrightarrow> cm_metadata m ''classSource'' = None \<or> cm_metadata m ''classSource'' = Some JNull"

definition is_candidate :: "millis option \<Rightarrow> class_db \<Rightarrow> class_message \<Rightarrow> bool" where
  "is_candidate boundary d m \<longleftrightarrow>
     cm_fetchedBody m \<and> cl_classifyEnabled d (cm_accountId m) \<and> cm_classHint m = None \<and> no_class_source m \<and>
     \<not> list_ex (\<lambda>r. de_messageId r = cm_id m) (cl_decisions d) \<and>
     (case boundary of
        None \<Rightarrow> True
      | Some b \<Rightarrow>
          list_ex (\<lambda>e. ce_type e = ''message.ingested'' \<and> ce_entityId e = Some (cm_id m) \<and> ce_at e > b) (cl_events d))"

definition listCandidates :: "class_ports \<Rightarrow> millis option \<Rightarrow> int \<Rightarrow> class_message list class_run" where
  "listCandidates p boundary limit =
     class_read p (\<lambda>d. take (nat limit)
       (sort_key (\<lambda>m. (desc_nulls_last (cm_sentAt m), cm_id m)) (filter (is_candidate boundary d) (cl_messages d))))"

definition senderAddressOf :: "email_address option \<Rightarrow> string option" where
  "senderAddressOf sender =
     (case sender of None \<Rightarrow> None | Some a \<Rightarrow> if ea_address a = [] then None else Some (ea_address a))"

definition senderNameOf :: "email_address option \<Rightarrow> string option" where
  "senderNameOf sender =
     (case sender of
        None \<Rightarrow> None
      | Some a \<Rightarrow> (case ea_name a of None \<Rightarrow> None | Some n \<Rightarrow> if n = [] then None else Some n))"

definition hasManualPlacement :: "uuid \<Rightarrow> class_db \<Rightarrow> bool" where
  "hasManualPlacement messageId d =
     list_ex (\<lambda>i. it_status i = It_Confirmed \<and>
         list_ex (\<lambda>a. ac_id a = it_actionId i \<and> ac_kind a \<in> {''move'', ''archive''}) (h_actions (cl_hub d)) \<and>
         list_ex (\<lambda>oc. oc_id oc = pg_uuid (tg_occurrenceId (it_target i)) \<and> oc_messageId oc = messageId)
           (h_occurrences (cl_hub d)))
       (h_actionItems (cl_hub d))"

text \<open>The recorded override of a sender: the lower-case row before its variants.\<close>

definition loadSenderOverride :: "uuid \<Rightarrow> string option \<Rightarrow> class_db \<Rightarrow> string option option" where
  "loadSenderOverride accountId senderAddress d =
     (case senderAddress of
        None \<Rightarrow> None
      | Some a \<Rightarrow>
          (case sort_key (\<lambda>r. (so_sender r \<noteq> to_lower (so_sender r), so_sender r))
                  (filter (\<lambda>r. so_accountId r = accountId \<and> to_lower (so_sender r) = to_lower a) (cl_overrides d)) of
             [] \<Rightarrow> None
           | r # _ \<Rightarrow> Some (case so_classHint r of Some c \<Rightarrow> if c \<in> set MESSAGE_CLASSES then Some c else None | None \<Rightarrow> None)))"

section \<open>Answers\<close>

definition mergeMetadata :: "(string \<Rightarrow> json option) \<Rightarrow> (string \<times> json) list \<Rightarrow> string \<Rightarrow> json option" where
  "mergeMetadata current patch = current ++ map_of patch"

definition update_message :: "uuid \<Rightarrow> (class_message \<Rightarrow> class_message) \<Rightarrow> class_db \<Rightarrow> class_db" where
  "update_message i f d = d\<lparr>cl_messages := tbl_update (\<lambda>m. cm_id m = i) f (cl_messages d)\<rparr>"

definition applyAnswer ::
    "class_ports \<Rightarrow> class_message \<Rightarrow> suggestion_source \<Rightarrow> string option \<Rightarrow> (string \<times> json) list \<Rightarrow> unit class_run" where
  "applyAnswer p candidate source classHint patch =
     class_write p (\<lambda>_. update_message (cm_id candidate) (\<lambda>m.
       m\<lparr>cm_classHint := (case classHint of None \<Rightarrow> cm_classHint m | Some c \<Rightarrow> Some c),
         cm_metadata := mergeMetadata (cm_metadata candidate) ((''classSource'', JStr (source_text source)) # patch)\<rparr>))"

definition buildInput :: "class_ports \<Rightarrow> class_message \<Rightarrow> minimized_input class_run" where
  "buildInput p candidate =
     call (class_read p (\<lambda>d. find (\<lambda>b. bo_messageId b = cm_id candidate) (h_bodies (cl_hub d)))) (\<lambda>body.
       (let bodyText =
              (case body of
                 None \<Rightarrow> None
               | Some b \<Rightarrow>
                   (case bo_textPlain b of
                      Some t \<Rightarrow> Some t
                    | None \<Rightarrow> (case bo_htmlSanitized b of None \<Rightarrow> None | Some h \<Rightarrow> Some (kp_htmlToText p h))));
            senderText =
              (case senderAddressOf (cm_sender candidate) of
                 None \<Rightarrow> []
               | Some address \<Rightarrow>
                   (case senderNameOf (cm_sender candidate) of
                      None \<Rightarrow> address
                    | Some n \<Rightarrow> n @ '' <'' @ address @ ''>''))
        in give (minimizeMessageInput (kp_sha256 p) senderText (cm_subject candidate) bodyText)))"

definition error_event :: "class_message \<Rightarrow> jev_failure_kind \<Rightarrow> millis \<Rightarrow> class_event" where
  "error_event candidate kind now =
     \<lparr>ce_actor = System_Actor, ce_type = ''class.error'', ce_entityId = Some (cm_id candidate),
      ce_payload = [(''accountId'', JStr (cm_accountId candidate)), (''kind'', JStr (failure_text kind))], ce_at = now\<rparr>"

text \<open>The transaction of an answer of Jev: the decision and the columns.\<close>

definition store_decision :: "class_message \<Rightarrow> minimized_input \<Rightarrow> jev_decision \<Rightarrow> millis \<Rightarrow> class_db \<Rightarrow> class_db" where
  "store_decision candidate input decision now d =
     (let answers = jd_answers decision in
      update_message (cm_id candidate) (\<lambda>m.
          m\<lparr>cm_classHint := Some (ja_classHint answers), cm_asksAction := Some (ja_asksAction answers),
            cm_asksReply := Some (ja_asksReply answers), cm_timeSensitive := Some (ja_timeSensitive answers),
            cm_metadata := mergeMetadata (cm_metadata candidate)
              [(''classSource'', JStr ''jev''), (''senderRelationship'', JStr (ja_senderRelationship answers))]\<rparr>)
        (d\<lparr>cl_decisions := cl_decisions d @
             [\<lparr>de_messageId = cm_id candidate, de_inputHash = mi_inputHash input, de_model = jd_model decision,
               de_questionSet = QUESTION_SET_VERSION, de_answers = answers, de_confidence = jd_confidence decision,
               de_latencyMs = jd_latencyMs decision, de_createdAt = now\<rparr>]\<rparr>))"

datatype skip_reason = Skip_Not_Found | Skip_Not_Ready | Skip_Already_Classified | Skip_Cost_Cap | Skip_Circuit_Open

datatype classify_outcome =
    Out_Classified suggestion_source "string option"
  | Out_Skipped skip_reason
  | Out_Failed jev_failure_kind

definition cap_reached :: "app_settings \<Rightarrow> int \<Rightarrow> bool" where
  "cap_reached settings monthCalls \<longleftrightarrow>
     (case as_classificationMonthlyCostCapUsd settings of
        None \<Rightarrow> False
      | Some cap \<Rightarrow> of_int monthCalls * ESTIMATED_COST_PER_CALL_USD \<ge> cap)"

definition ask_jev :: "class_ports \<Rightarrow> class_message \<Rightarrow> app_settings \<Rightarrow> int \<Rightarrow> classify_outcome class_run" where
  "ask_jev p candidate settings monthCalls =
     (if cap_reached settings monthCalls then give (Out_Skipped Skip_Cost_Cap)
      else
        (case kp_adapter p of
           None \<Rightarrow> give (Out_Skipped Skip_Not_Ready)
         | Some ask \<Rightarrow>
             call (buildInput p candidate) (\<lambda>input.
             call (ask_adapter p ask (cm_id candidate) (mi_text input)) (\<lambda>answer.
               case answer of
                 Inl kind \<Rightarrow>
                   call (class_write p (\<lambda>now. add_class_event (error_event candidate kind now))) (\<lambda>_.
                     give (Out_Failed kind))
               | Inr decision \<Rightarrow>
                   call (class_write p (store_decision candidate input decision)) (\<lambda>_.
                     give (Out_Classified Source_Jev (Some (ja_classHint (jd_answers decision)))))))))"

definition classifyRow :: "class_ports \<Rightarrow> class_message \<Rightarrow> app_settings \<Rightarrow> int \<Rightarrow> classify_outcome class_run" where
  "classifyRow p candidate settings monthCalls =
     call (class_read p (hasManualPlacement (cm_id candidate))) (\<lambda>placed.
       if placed then
         call (applyAnswer p candidate Source_Manual None []) (\<lambda>_. give (Out_Classified Source_Manual None))
       else
         call (class_read p (loadSenderOverride (cm_accountId candidate) (senderAddressOf (cm_sender candidate)))) (\<lambda>override.
           case override of
             Some classHint \<Rightarrow>
               call (applyAnswer p candidate Source_Override classHint []) (\<lambda>_.
                 give (Out_Classified Source_Override classHint))
           | None \<Rightarrow>
               (case matchDeterministicRules (senderAddressOf (cm_sender candidate)) (cm_subject candidate) of
                  Some (classHint, rule) \<Rightarrow>
                    call (applyAnswer p candidate Source_Rule (Some classHint) [(''rule'', JStr rule)]) (\<lambda>_.
                      give (Out_Classified Source_Rule (Some classHint)))
                | None \<Rightarrow> ask_jev p candidate settings monthCalls)))"

section \<open>Cycles\<close>

datatype cycle_skip = Cycle_Not_Configured | Cycle_Disabled | Cycle_Circuit_Open | Cycle_Cost_Cap | Cycle_No_Candidates

record cycle_summary =
  cs_classified :: int
  cs_bySource :: "suggestion_source \<Rightarrow> int"
  cs_skipped :: "cycle_skip option"
  cs_errors :: int

definition empty_summary :: cycle_summary where
  "empty_summary = \<lparr>cs_classified = 0, cs_bySource = (\<lambda>_. 0), cs_skipped = None, cs_errors = 0\<rparr>"

fun classify_loop :: "class_ports \<Rightarrow> app_settings \<Rightarrow> class_message list \<Rightarrow> int \<Rightarrow> cycle_summary \<Rightarrow> cycle_summary class_run" where
  "classify_loop p settings [] monthCalls summary = give summary"
| "classify_loop p settings (candidate # cs) monthCalls summary =
     call (classifyRow p candidate settings monthCalls) (\<lambda>outcome.
       case outcome of
         Out_Classified source _ \<Rightarrow>
           classify_loop p settings cs (if source = Source_Jev then monthCalls + 1 else monthCalls)
             (summary\<lparr>cs_classified := cs_classified summary + 1,
                      cs_bySource := (cs_bySource summary)(source := cs_bySource summary source + 1)\<rparr>)
       | Out_Failed _ \<Rightarrow> give (summary\<lparr>cs_errors := cs_errors summary + 1\<rparr>)
       | Out_Skipped reason \<Rightarrow>
           if reason = Skip_Cost_Cap then give (summary\<lparr>cs_skipped := Some Cycle_Cost_Cap\<rparr>)
           else classify_loop p settings cs monthCalls summary)"

definition runCycle :: "class_ports \<Rightarrow> int \<Rightarrow> cycle_summary class_run" where
  "runCycle p limit0 =
     (let limit = (if limit0 < 1 then DEFAULT_CLASSIFY_BATCH_LIMIT else limit0) in
      call (class_read p (\<lambda>d. readSettings (cl_settings d))) (\<lambda>settings.
        if \<not> as_classificationEnabled settings then
          call (recordSessionState p False) (\<lambda>_. give (empty_summary\<lparr>cs_skipped := Some Cycle_Disabled\<rparr>))
        else if kp_adapter p = None then give (empty_summary\<lparr>cs_skipped := Some Cycle_Not_Configured\<rparr>)
        else
          call (recordSessionState p True) (\<lambda>_.
          call (assessCircuit p settings) (\<lambda>(_, reason).
            if reason = Some Reason_Errors then give (empty_summary\<lparr>cs_skipped := Some Cycle_Circuit_Open\<rparr>)
            else
              call (countMonthCalls p) (\<lambda>monthCalls.
                if reason = Some Reason_Cost_Cap then give (empty_summary\<lparr>cs_skipped := Some Cycle_Cost_Cap\<rparr>)
                else
                  call (if as_backfillClassification settings then give None else readEnabledBoundary p) (\<lambda>boundary.
                  call (listCandidates p boundary limit) (\<lambda>candidates.
                    if candidates = [] then give (empty_summary\<lparr>cs_skipped := Some Cycle_No_Candidates\<rparr>)
                    else classify_loop p settings candidates monthCalls empty_summary)))))))"

definition hasAnswer :: "class_message \<Rightarrow> bool" where
  "hasAnswer m \<longleftrightarrow> cm_classHint m \<noteq> None \<or> cm_metadata m ''classSource'' \<noteq> None"

definition classifyMessage :: "class_ports \<Rightarrow> string \<Rightarrow> classify_outcome class_run" where
  "classifyMessage p messageId =
     guard_run (is_uuid messageId) Class_Range
     (call (class_read p (\<lambda>d. readSettings (cl_settings d))) (\<lambda>settings.
        if \<not> as_classificationEnabled settings then give (Out_Skipped Skip_Not_Ready)
        else if kp_adapter p = None then give (Out_Skipped Skip_Not_Ready)
        else
          call (assessCircuit p settings) (\<lambda>(_, reason).
            if reason = Some Reason_Errors then give (Out_Skipped Skip_Circuit_Open)
            else
              call (class_read p (\<lambda>d. map_option (\<lambda>m. (m, cl_classifyEnabled d (cm_accountId m)))
                      (find (\<lambda>m. cm_id m = pg_uuid messageId) (cl_messages d)))) (\<lambda>found.
                case found of
                  None \<Rightarrow> give (Out_Skipped Skip_Not_Found)
                | Some (row, enabled) \<Rightarrow>
                    if hasAnswer row then give (Out_Skipped Skip_Already_Classified)
                    else if \<not> enabled \<or> \<not> cm_fetchedBody row then give (Out_Skipped Skip_Not_Ready)
                    else call (countMonthCalls p) (classifyRow p row settings)))))"

end
