(* ===== verification/Class_Corrections.thy ===== *)
theory Class_Corrections
  imports Class_Service
begin

text \<open>
  The owner's corrections, \<open>packages/classification/src/corrections.ts\<close>: one message, one sender with the
  sweep of the sender's mail, or the rule that answered.
\<close>

datatype classification_error_code = CX_Invalid_Request | CX_Not_Found

fun classification_http_status :: "classification_error_code \<Rightarrow> int" where
  "classification_http_status CX_Invalid_Request = 400"
| "classification_http_status CX_Not_Found = 404"

datatype correction_fail = Correction_Recovery recovery_error | Correction_Rejected classification_error_code

datatype correction_scope = Scope_Message | Scope_Sender | Scope_Rule

fun scope_text :: "correction_scope \<Rightarrow> string" where
  "scope_text Scope_Message = ''message''"
| "scope_text Scope_Sender = ''sender''"
| "scope_text Scope_Rule = ''rule''"

definition MAX_NOTE_CHARS :: nat where "MAX_NOTE_CHARS = 2000"

record correction_request =
  cq_messageId :: string
  cq_scope :: correction_scope
  cq_classHint :: "string option"
  cq_note :: "string option"

record correction_result =
  cr_scope :: correction_scope
  cr_classHint :: "string option"
  cr_sender :: "string option"
  cr_rule :: "string option"
  cr_previous :: "(string option \<times> string option) option"
  cr_reapplied :: int

definition SUGGESTION_SOURCES :: "string list" where
  "SUGGESTION_SOURCES = [''manual'', ''override'', ''rule'', ''jev'']"

definition previousAnswerOf :: "class_message \<Rightarrow> (string option \<times> string option) option" where
  "previousAnswerOf row =
     (let source = (case cm_metadata row ''classSource'' of
                      Some (JStr s) \<Rightarrow> if s \<in> set SUGGESTION_SOURCES then Some s else None | _ \<Rightarrow> None);
          classHint = (case cm_classHint row of Some c \<Rightarrow> if c \<in> set MESSAGE_CLASSES then Some c else None | None \<Rightarrow> None)
      in if source = None \<and> classHint = None then None else Some (source, classHint))"

definition ruleNameOf :: "class_message \<Rightarrow> string option" where
  "ruleNameOf row = (case cm_metadata row ''rule'' of Some (JStr r) \<Rightarrow> if r = [] then None else Some r | _ \<Rightarrow> None)"

definition normalizeNote :: "string option \<Rightarrow> classification_error_code + string option" where
  "normalizeNote note =
     (case note of
        None \<Rightarrow> Inr None
      | Some n \<Rightarrow>
          (let trimmed = trim_string n
           in if trimmed = [] then Inr None
              else if length trimmed > MAX_NOTE_CHARS then Inl CX_Invalid_Request else Inr (Some trimmed)))"

definition upsert_override :: "uuid \<Rightarrow> string \<Rightarrow> string option \<Rightarrow> string option \<Rightarrow> class_db \<Rightarrow> class_db" where
  "upsert_override accountId sender classHint note d =
     (let same = (\<lambda>r. so_accountId r = accountId \<and> so_sender r = sender) in
      d\<lparr>cl_overrides :=
          (if list_ex same (cl_overrides d)
           then tbl_update same (\<lambda>r. r\<lparr>so_classHint := classHint,
                  so_note := (case note of None \<Rightarrow> so_note r | Some n \<Rightarrow> Some n)\<rparr>) (cl_overrides d)
           else cl_overrides d @
             [\<lparr>so_accountId = accountId, so_sender = sender, so_classHint = classHint, so_note = note\<rparr>])\<rparr>)"

text \<open>The mail of a sender that the owner did not answer by hand.\<close>

definition swept :: "uuid \<Rightarrow> string \<Rightarrow> class_message \<Rightarrow> bool" where
  "swept accountId sender m \<longleftrightarrow>
     cm_accountId m = accountId \<and> (case cm_sender m of None \<Rightarrow> False | Some a \<Rightarrow> to_lower (ea_address a) = to_lower sender) \<and>
     cm_metadata m ''classSource'' \<noteq> Some (JStr ''manual'')"

definition sweep_sender :: "uuid \<Rightarrow> string \<Rightarrow> string option \<Rightarrow> class_db \<Rightarrow> class_db" where
  "sweep_sender accountId sender classHint d =
     d\<lparr>cl_messages := tbl_update (swept accountId sender)
         (\<lambda>m. m\<lparr>cm_classHint := classHint, cm_metadata := (cm_metadata m)(''classSource'' \<mapsto> JStr ''override'')\<rparr>) (cl_messages d)\<rparr>"

definition correction_event ::
    "millis \<Rightarrow> class_message \<Rightarrow> correction_request \<Rightarrow> string option \<Rightarrow> string option \<Rightarrow> (string option \<times> string option) option \<Rightarrow>
     string option \<Rightarrow> class_event" where
  "correction_event now row request sender rule previous note =
     \<lparr>ce_actor = User_Actor, ce_type = ''class.corrected'', ce_entityId = Some (cm_id row),
      ce_payload =
        [(''scope'', JStr (scope_text (cq_scope request))), (''accountId'', JStr (cm_accountId row))] @
        (case sender of None \<Rightarrow> [] | Some s \<Rightarrow> [(''sender'', JStr s)]) @
        (case rule of None \<Rightarrow> [] | Some r \<Rightarrow> [(''rule'', JStr r)]) @
        [(''from'', JObj [(''source'', json_opt JStr (Option.bind previous fst)),
           (''classHint'', json_opt JStr (Option.bind previous snd))]),
         (''to'', json_opt JStr (cq_classHint request))] @
        (case note of None \<Rightarrow> [] | Some n \<Rightarrow> [(''note'', JStr n)]),
      ce_at = now\<rparr>"

definition correction_tx ::
    "millis \<Rightarrow> class_message \<Rightarrow> correction_request \<Rightarrow> string option \<Rightarrow> string option \<Rightarrow> (string option \<times> string option) option \<Rightarrow>
     string option \<Rightarrow> class_db \<Rightarrow> int \<times> class_db" where
  "correction_tx now row request sender rule previous note d =
     (let (reapplied, d') =
        (case (cq_scope request, sender) of
           (Scope_Message, _) \<Rightarrow>
             (1, update_message (cm_id row) (\<lambda>m.
                   m\<lparr>cm_classHint := cq_classHint request,
                     cm_metadata := mergeMetadata (cm_metadata row) [(''classSource'', JStr ''manual'')]\<rparr>) d)
         | (Scope_Sender, Some s) \<Rightarrow>
             (tbl_count (swept (cm_accountId row) s) (cl_messages d),
              sweep_sender (cm_accountId row) s (cq_classHint request)
                (upsert_override (cm_accountId row) (to_lower s) (cq_classHint request) note d))
         | _ \<Rightarrow> (0, d))
      in (reapplied, add_class_event (correction_event now row request sender rule previous note) d'))"

text \<open>A correction, with the states at the gate, at the read of the message and of the transaction.\<close>

definition correct ::
    "recovery_controls \<Rightarrow> string option \<Rightarrow> correction_request \<Rightarrow> millis \<Rightarrow> class_db \<Rightarrow> class_db \<Rightarrow> class_db \<Rightarrow>
     (correction_fail + correction_result) \<times> class_db" where
  "correct rv requestGeneration request now d0 d1 d =
     (case gateMutation rv requestGeneration (cl_hub d0) of
        Inl e \<Rightarrow> (Inl (Correction_Recovery e), d)
      | Inr _ \<Rightarrow>
          (case require (is_uuid (cq_messageId request)) CX_Invalid_Request
                 (require (case cq_classHint request of None \<Rightarrow> True | Some c \<Rightarrow> c \<in> set MESSAGE_CLASSES) CX_Invalid_Request
                 (attempt (normalizeNote (cq_note request)) (\<lambda>note.
                  case find (\<lambda>m. cm_id m = pg_uuid (cq_messageId request)) (cl_messages d1) of
                    None \<Rightarrow> Inl CX_Not_Found
                  | Some row \<Rightarrow>
                      require (\<not> (cq_scope request = Scope_Rule \<and> ruleNameOf row = None)) CX_Invalid_Request
                      (require (\<not> (cq_scope request = Scope_Sender \<and> senderAddressOf (cm_sender row) = None)) CX_Invalid_Request
                        (Inr (row, note)))))) of
             Inl e \<Rightarrow> (Inl (Correction_Rejected e), d)
           | Inr (row, note) \<Rightarrow>
               (let sender = senderAddressOf (cm_sender row); rule = ruleNameOf row; previous = previousAnswerOf row;
                    (reapplied, d') = correction_tx now row request sender rule previous note d
                in (Inr \<lparr>cr_scope = cq_scope request, cr_classHint = cq_classHint request, cr_sender = sender,
                         cr_rule = rule, cr_previous = previous, cr_reapplied = reapplied\<rparr>, d'))))"

end
