(* ===== verification/Class_Properties.thy ===== *)
theory Class_Properties
  imports Class_Corrections
begin

text \<open>
  The guardrails of classification: when the breaker is open, what a cycle may ask, and that an answer
  the owner gave by hand stands; with the breaker that closes early and the correction a running cycle
  overwrites.
\<close>

section \<open>Bursts\<close>

text \<open>The failures up to the \<open>j\<close>-th within the window that ends with it.\<close>

definition burst_at :: "int list \<Rightarrow> int \<Rightarrow> nat \<Rightarrow> nat" where
  "burst_at ts windowMs j = length (filter (\<lambda>t. ts ! j - t \<le> windowMs) (take (Suc j) ts))"

lemma advance_first_spec:
  assumes "0 \<le> w" and "first \<le> j" and "j < length ts" and "\<forall>i < first. ts ! j - ts ! i > w"
  shows "advance_first ts w j first \<le> j \<and> ts ! j - ts ! advance_first ts w j first \<le> w \<and>
    (\<forall>i < advance_first ts w j first. ts ! j - ts ! i > w)"
  using assms
proof (induction ts w j first rule: advance_first.induct)
  case (1 ts w j first)
  show ?case
  proof (cases "ts ! j - ts ! first > w")
    case True
    with 1(2,3) have "first < j" by (cases "first = j") auto
    with 1 True have "\<forall>i < Suc first. ts ! j - ts ! i > w" by (simp add: less_Suc_eq)
    with 1 True \<open>first < j\<close> show ?thesis by (simp add: advance_first.simps [of ts w j first])
  next
    case False
    with 1 show ?thesis by (simp add: advance_first.simps [of ts w j first])
  qed
qed

lemma burst_from_first:
  assumes "sorted ts" and "j < length ts" and "f \<le> j" and "ts ! j - ts ! f \<le> w" and "\<forall>i < f. ts ! j - ts ! i > w"
  shows "burst_at ts w j = Suc j - f"
proof -
  have "filter (\<lambda>t. ts ! j - t \<le> w) (take f ts) = []"
    using assms(2,3,5) by (fastforce simp: filter_empty_conv in_set_conv_nth)
  moreover have "filter (\<lambda>t. ts ! j - t \<le> w) (drop f (take (Suc j) ts)) = drop f (take (Suc j) ts)"
  proof (rule filter_True, rule ballI)
    fix t assume "t \<in> set (drop f (take (Suc j) ts))"
    then obtain n where "t = ts ! (f + n)" "f + n \<le> j" using assms(2) by (auto simp: in_set_conv_nth)
    then have "ts ! f \<le> t" using assms(1,2) by (auto intro: sorted_nth_mono)
    with assms(4) show "ts ! j - t \<le> w" by linarith
  qed
  moreover have "take (Suc j) ts = take f ts @ drop f (take (Suc j) ts)"
    using assms(3) by (metis append_take_drop_id le_SucI min.absorb1 take_take)
  ultimately have "filter (\<lambda>t. ts ! j - t \<le> w) (take (Suc j) ts) = drop f (take (Suc j) ts)"
    by (metis append_Nil filter_append)
  then show ?thesis using assms(2,3) by (simp add: burst_at_def)
qed

lemma widest_loop_spec:
  assumes "sorted ts" and "0 \<le> w" and "n \<le> length ts" and "f \<le> k" and "k < n \<Longrightarrow> \<forall>i < f. ts ! k - ts ! i > w"
  shows "widest_loop ts w [k..<n] widest f = fold max (map (burst_at ts w) [k..<n]) widest"
  using assms(4,5)
proof (induction "n - k" arbitrary: k f widest)
  case 0
  then show ?case by simp
next
  case (Suc m)
  then have k: "k < n" "k < length ts" using assms(3) by simp_all
  let ?f = "advance_first ts w k f"
  have f: "?f \<le> k" "ts ! k - ts ! ?f \<le> w" "\<forall>i < ?f. ts ! k - ts ! i > w"
    using advance_first_spec [OF assms(2) Suc.prems(1) k(2) Suc.prems(2) [OF k(1)]] by blast+
  have "\<forall>i < ?f. ts ! Suc k - ts ! i > w" if "Suc k < n"
  proof (intro allI impI)
    fix i assume "i < ?f"
    have "ts ! k \<le> ts ! Suc k" using assms(1,3) that by (intro sorted_nth_mono) auto
    with f(3) \<open>i < ?f\<close> show "ts ! Suc k - ts ! i > w" by (metis add_less_le_mono diff_add_cancel le_less_trans less_le_trans diff_right_mono)
  qed
  note ih = Suc.hyps(1) [of "Suc k" ?f "max widest (k + 1 - ?f)", OF _ _ this]
  have "widest_loop ts w [Suc k..<n] (max widest (k + 1 - ?f)) ?f =
      fold max (map (burst_at ts w) [Suc k..<n]) (max widest (k + 1 - ?f))"
    by (rule ih) (use Suc.hyps(2) f(1) in auto)
  moreover have "burst_at ts w k = k + 1 - ?f" using burst_from_first [OF assms(1) k(2) f] by simp
  ultimately show ?case using k by (simp add: upt_conv_Cons Let_def max.commute)
qed

lemma widestBurstSize_exact:
  assumes "sorted ts" and "0 \<le> w"
  shows "widestBurstSize ts w = fold max (map (burst_at ts w) [0..<length ts]) 0"
  unfolding widestBurstSize_def by (rule widest_loop_spec [OF assms]) simp_all

lemma fold_max_reaches: "n \<le> fold max xs (a :: nat) \<longleftrightarrow> n \<le> a \<or> (\<exists>x \<in> set xs. n \<le> x)"
  by (induction xs arbitrary: a) (auto simp: le_max_iff_disj)

section \<open>The breaker\<close>

lemma sorted_takeWhile: "sorted ts \<Longrightarrow> takeWhile (\<lambda>x. x \<le> (t :: int)) ts = filter (\<lambda>x. x \<le> t) ts"
  by (induction ts) (auto intro!: filter_False [symmetric])

lemma burst_window:
  assumes "sorted ts"
  shows "(\<exists>j < length ts. n \<le> burst_at ts w j) \<longleftrightarrow> (\<exists>t \<in> set ts. n \<le> length (filter (\<lambda>x. t - w \<le> x \<and> x \<le> t) ts))"
proof
  assume "\<exists>j < length ts. n \<le> burst_at ts w j"
  then obtain j where j: "j < length ts" "n \<le> burst_at ts w j" by blast
  have "filter (\<lambda>t. ts ! j - t \<le> w) (take (Suc j) ts) = filter (\<lambda>x. ts ! j - w \<le> x \<and> x \<le> ts ! j) (take (Suc j) ts)"
    using assms j(1) by (intro filter_cong) (auto simp: in_set_conv_nth less_Suc_eq_le intro!: sorted_nth_mono)
  moreover have "length (filter P (take (Suc j) ts)) \<le> length (filter P ts)" for P
    by (metis append_take_drop_id filter_append le_add1 length_append)
  ultimately have "n \<le> length (filter (\<lambda>x. ts ! j - w \<le> x \<and> x \<le> ts ! j) ts)"
    using j(2) unfolding burst_at_def by (metis order_trans)
  with j(1) show "\<exists>t \<in> set ts. n \<le> length (filter (\<lambda>x. t - w \<le> x \<and> x \<le> t) ts)" by auto
next
  assume "\<exists>t \<in> set ts. n \<le> length (filter (\<lambda>x. t - w \<le> x \<and> x \<le> t) ts)"
  then obtain t where t: "t \<in> set ts" "n \<le> length (filter (\<lambda>x. t - w \<le> x \<and> x \<le> t) ts)" by blast
  let ?T = "takeWhile (\<lambda>x. x \<le> t) ts"
  let ?j = "length ?T - 1"
  have T: "?T = filter (\<lambda>x. x \<le> t) ts" by (rule sorted_takeWhile [OF assms])
  have t_in: "t \<in> set ?T" unfolding T using t(1) by simp
  then have j: "Suc ?j = length ?T" by (cases ?T) auto
  have len: "length ?T \<le> length ts" by (rule length_takeWhile_le)
  have take: "take (Suc ?j) ts = ?T" unfolding j by (rule takeWhile_eq_take [symmetric])
  have "?T ! ?j = ts ! ?j" using j by (intro takeWhile_nth) simp
  moreover have "?T ! ?j \<in> set ?T" using j by (intro nth_mem) simp
  then have "?T ! ?j \<le> t" by (auto dest: set_takeWhileD)
  moreover have "t \<le> ?T ! ?j"
  proof -
    obtain m where m: "m < length ?T" "?T ! m = t" using t_in by (auto simp: in_set_conv_nth)
    have "sorted ?T" unfolding T using assms by (rule sorted_wrt_filter)
    then show ?thesis using m j by (metis diff_less lessI less_Suc_eq_le sorted_nth_mono)
  qed
  ultimately have "ts ! ?j = t" by simp
  then have "burst_at ts w ?j = length (filter (\<lambda>x. t - x \<le> w) ?T)" by (simp only: burst_at_def take)
  moreover have "filter (\<lambda>x. t - x \<le> w) ?T = filter (\<lambda>x. t - w \<le> x \<and> x \<le> t) ts"
    unfolding T by (simp add: algebra_simps conj_commute)
  ultimately have "burst_at ts w ?j = length (filter (\<lambda>x. t - w \<le> x \<and> x \<le> t) ts)" by simp
  moreover have "?j < length ts" using j len by simp
  ultimately show "\<exists>j < length ts. n \<le> burst_at ts w j" using t(2) by metis
qed

text \<open>
  C37. The burst search is exact: on ascending times its two moving indices, of which the first
  never goes back, reach a size exactly if some time ends a window of the given length, both
  ends included, that holds so many of the times.
\<close>

theorem burst_search_exact:
  assumes "sorted ts" and "0 \<le> w"
  shows "n \<le> widestBurstSize ts w \<longleftrightarrow>
    n = 0 \<or> (\<exists>t \<in> set ts. n \<le> length (filter (\<lambda>x. t - w \<le> x \<and> x \<le> t) ts))"
proof -
  have "n \<le> widestBurstSize ts w \<longleftrightarrow> n = 0 \<or> (\<exists>x \<in> burst_at ts w ` {0..<length ts}. n \<le> x)"
    unfolding widestBurstSize_exact [OF assms] fold_max_reaches by simp
  also have "(\<exists>x \<in> burst_at ts w ` {0..<length ts}. n \<le> x) \<longleftrightarrow> (\<exists>j < length ts. n \<le> burst_at ts w j)" by auto
  also have "\<dots> \<longleftrightarrow> (\<exists>t \<in> set ts. n \<le> length (filter (\<lambda>x. t - w \<le> x \<and> x \<le> t) ts))"
    by (rule burst_window [OF assms(1)])
  finally show ?thesis .
qed

theorem burst_search_exact_witness:
  "3 \<le> widestBurstSize [0, 4, 10, 14, 30] 10 \<and> \<not> 4 \<le> widestBurstSize [0, 4, 10, 14, 30] 10"
  using burst_search_exact [of "[0, 4, 10, 14, 30]" 10 3] burst_search_exact [of "[0, 4, 10, 14, 30]" 10 4]
  by simp

lemma filter_sorted_length: "length (filter P (sort xs)) = length (filter P xs)"
  by (metis mset_filter mset_sort size_mset)

definition recent_failure :: "millis \<Rightarrow> class_event \<Rightarrow> bool" where
  "recent_failure now e \<longleftrightarrow> ce_type e = ''class.error'' \<and> ce_at e > now - CIRCUIT_COOLDOWN_MS"

text \<open>Some failure of the cooldown ends a window that holds as many failures as trip the breaker.\<close>

definition burst_of_failures :: "millis \<Rightarrow> class_db \<Rightarrow> bool" where
  "burst_of_failures now d \<longleftrightarrow>
     list_ex (\<lambda>e. recent_failure now e \<and>
         CIRCUIT_ERROR_THRESHOLD \<le> length (filter (\<lambda>x. recent_failure now x \<and> ce_at e - CIRCUIT_WINDOW_MS \<le> ce_at x \<and>
           ce_at x \<le> ce_at e) (cl_events d)))
       (cl_events d)"

lemma burst_iff: "widestBurstSize (failure_times now d) CIRCUIT_WINDOW_MS \<ge> CIRCUIT_ERROR_THRESHOLD \<longleftrightarrow> burst_of_failures now d"
proof -
  let ?F = "failure_times now d"
  have s: "sorted ?F" and w: "0 \<le> CIRCUIT_WINDOW_MS" by (simp_all add: failure_times_def CIRCUIT_WINDOW_MS_def)
  have F: "?F = sort (map ce_at (filter (recent_failure now) (cl_events d)))"
    by (simp add: failure_times_def recent_failure_def [abs_def])
  have count: "length (filter (\<lambda>x. t - CIRCUIT_WINDOW_MS \<le> x \<and> x \<le> t) ?F) =
      length (filter (\<lambda>x. recent_failure now x \<and> t - CIRCUIT_WINDOW_MS \<le> ce_at x \<and> ce_at x \<le> t) (cl_events d))" for t
    unfolding F filter_sorted_length by (simp add: filter_map comp_def)
  have "widestBurstSize ?F CIRCUIT_WINDOW_MS \<ge> CIRCUIT_ERROR_THRESHOLD \<longleftrightarrow>
      (\<exists>x \<in> burst_at ?F CIRCUIT_WINDOW_MS ` {0..<length ?F}. CIRCUIT_ERROR_THRESHOLD \<le> x)"
    unfolding widestBurstSize_exact [OF s w] fold_max_reaches by (simp add: CIRCUIT_ERROR_THRESHOLD_def)
  also have "\<dots> \<longleftrightarrow> (\<exists>j < length ?F. CIRCUIT_ERROR_THRESHOLD \<le> burst_at ?F CIRCUIT_WINDOW_MS j)" by auto
  also have "\<dots> \<longleftrightarrow> (\<exists>t \<in> set ?F. CIRCUIT_ERROR_THRESHOLD \<le> length (filter (\<lambda>x. t - CIRCUIT_WINDOW_MS \<le> x \<and> x \<le> t) ?F))"
    by (rule burst_window [OF s])
  also have "\<dots> \<longleftrightarrow> burst_of_failures now d"
    unfolding count burst_of_failures_def list_ex_iff by (auto simp: F)
  finally show ?thesis .
qed


definition failure_at :: "int \<Rightarrow> class_event" where
  "failure_at minute =
     \<lparr>ce_actor = System_Actor, ce_type = ''class.error'', ce_entityId = None, ce_payload = [], ce_at = minute * 60000\<rparr>"

text \<open>
  Five failures at the minutes 0, 2, 4, 6 and 8 open the breaker. It closes when the first of them is
  thirty minutes old, not the newest: at minute 29 it is open, at minute 31 closed.
\<close>

lemma breaker_closes_early:
  fixes d :: class_db
  assumes "cl_events d = map failure_at [0, 2, 4, 6, 8]"
  shows "burst_of_failures (29 * 60000) d" and "\<not> burst_of_failures (31 * 60000) d"
  by (simp_all add: burst_of_failures_def assms recent_failure_def failure_at_def CIRCUIT_COOLDOWN_MS_def
      CIRCUIT_WINDOW_MS_def CIRCUIT_ERROR_THRESHOLD_def)

section \<open>Answers given by hand\<close>

definition manual_answer :: "uuid \<Rightarrow> string option \<Rightarrow> class_db \<Rightarrow> bool" where
  "manual_answer i c d \<longleftrightarrow>
     distinct (map cm_id (cl_messages d)) \<and>
     (\<exists>m \<in> set (cl_messages d). cm_id m = i \<and> cm_classHint m = c \<and> cm_metadata m ''classSource'' = Some (JStr ''manual''))"

lemma manual_frame: "cl_messages d' = cl_messages d \<Longrightarrow> manual_answer i c d' \<longleftrightarrow> manual_answer i c d"
  by (simp add: manual_answer_def)

lemma manual_update:
  assumes "manual_answer i c d" and "cl_messages d' = tbl_update P f (cl_messages d)" and "\<And>m. cm_id (f m) = cm_id m"
    and "\<And>m. cm_id m = i \<Longrightarrow> cm_metadata m ''classSource'' = Some (JStr ''manual'') \<Longrightarrow> \<not> P m"
  shows "manual_answer i c d'"
proof -
  from assms(1) obtain m where d: "distinct (map cm_id (cl_messages d))"
    and m: "m \<in> set (cl_messages d)" "cm_id m = i" "cm_classHint m = c" "cm_metadata m ''classSource'' = Some (JStr ''manual'')"
    by (auto simp: manual_answer_def)
  have "map cm_id (cl_messages d') = map cm_id (cl_messages d)"
    unfolding assms(2) by (rule map_tbl_update_frame) (rule assms(3))
  moreover have "m \<in> set (cl_messages d')" unfolding assms(2) in_tbl_update using m assms(4) by fastforce
  ultimately show ?thesis using d m by (auto simp: manual_answer_def)
qed

lemma manual_other: "cm_id x \<noteq> i \<Longrightarrow> (\<And>m. cm_id (f m) = cm_id m) \<Longrightarrow> manual_answer i c d \<Longrightarrow> manual_answer i c (update_message (cm_id x) f d)"
  by (rule manual_update [where P = "\<lambda>m. cm_id m = cm_id x" and f = f]) (auto simp: update_message_def)

text \<open>Runs that leave the answer of \<open>i\<close> standing, next to writers that do.\<close>

definition env_keeps :: "class_ports \<Rightarrow> uuid \<Rightarrow> string option \<Rightarrow> bool" where
  "env_keeps p i c \<longleftrightarrow> (\<forall>n d. manual_answer i c d \<longrightarrow> manual_answer i c (kp_env p n d))"

definition keeps_answer :: "uuid \<Rightarrow> string option \<Rightarrow> 'a class_run \<Rightarrow> bool" where
  "keeps_answer i c r \<longleftrightarrow>
     ends (\<lambda>w. manual_answer i c (cw_db w)) r (\<lambda>_ w. manual_answer i c (cw_db w)) (\<lambda>w. manual_answer i c (cw_db w))"

named_theorems answer_rules "runs that leave an answer standing"

lemma stands_give [answer_rules]: "keeps_answer i c (give a)"
  unfolding keeps_answer_def by (rule ends_give)

lemma stands_read [answer_rules]: "env_keeps p i c \<Longrightarrow> keeps_answer i c (class_read p q)"
  by (simp add: keeps_answer_def ends_def class_read_def class_tick_def env_keeps_def)

lemma stands_write:
  "env_keeps p i c \<Longrightarrow> (\<And>n d. manual_answer i c d \<Longrightarrow> manual_answer i c (f n d)) \<Longrightarrow> keeps_answer i c (class_write p f)"
  by (simp add: keeps_answer_def ends_def class_write_def class_tick_def env_keeps_def)

lemma stands_ask [answer_rules]: "env_keeps p i c \<Longrightarrow> keeps_answer i c (ask_adapter p ask j input)"
  by (simp add: keeps_answer_def ends_def ask_adapter_def class_tick_def env_keeps_def)

lemma stands_now [answer_rules]: "(\<And>n. keeps_answer i c (f n)) \<Longrightarrow> keeps_answer i c (class_now p f)"
  by (simp add: keeps_answer_def ends_def class_now_def)

lemma stands_call [answer_rules]: "keeps_answer i c r \<Longrightarrow> (\<And>a. keeps_answer i c (f a)) \<Longrightarrow> keeps_answer i c (call r f)"
  unfolding keeps_answer_def by (rule ends_call)

lemma stands_if [answer_rules]: "(b \<Longrightarrow> keeps_answer i c r) \<Longrightarrow> (\<not> b \<Longrightarrow> keeps_answer i c r') \<Longrightarrow> keeps_answer i c (if b then r else r')"
  by simp

lemma stands_guard [answer_rules]: "keeps_answer i c r \<Longrightarrow> keeps_answer i c (guard_run b e r)"
  unfolding keeps_answer_def by (rule ends_guard_run)

lemma stands_case_option [answer_rules]:
  "keeps_answer i c n \<Longrightarrow> (\<And>a. x = Some a \<Longrightarrow> keeps_answer i c (s a)) \<Longrightarrow> keeps_answer i c (case x of None \<Rightarrow> n | Some a \<Rightarrow> s a)"
  by (cases x) simp_all

lemma stands_case_prod [answer_rules]: "(\<And>a b. x = (a, b) \<Longrightarrow> keeps_answer i c (s a b)) \<Longrightarrow> keeps_answer i c (case x of (a, b) \<Rightarrow> s a b)"
  by (cases x) simp

lemma stands_case_sum [answer_rules]:
  "(\<And>e. x = Inl e \<Longrightarrow> keeps_answer i c (l e)) \<Longrightarrow> (\<And>a. x = Inr a \<Longrightarrow> keeps_answer i c (r a)) \<Longrightarrow>
     keeps_answer i c (case x of Inl e \<Rightarrow> l e | Inr a \<Rightarrow> r a)"
  by (cases x) simp_all

lemma stands_event: "env_keeps p i c \<Longrightarrow> keeps_answer i c (class_write p (\<lambda>now. add_class_event (e now)))"
  by (rule stands_write) (simp_all add: add_class_event_def manual_answer_def)

lemma stands_applyAnswer: "env_keeps p i c \<Longrightarrow> cm_id m \<noteq> i \<Longrightarrow> keeps_answer i c (applyAnswer p m source hint patch)"
  unfolding applyAnswer_def by (rule stands_write, assumption, rule manual_other) simp_all

lemma stands_store: "env_keeps p i c \<Longrightarrow> cm_id m \<noteq> i \<Longrightarrow> keeps_answer i c (class_write p (store_decision m input decision))"
  by (rule stands_write, assumption) (simp add: store_decision_def Let_def manual_other manual_answer_def [of _ _ "cl_decisions_update _ _"] flip: manual_answer_def)

lemma stands_classifyRow:
  assumes "env_keeps p i c" and "cm_id m \<noteq> i"
  shows "keeps_answer i c (classifyRow p m settings n)"
  unfolding classifyRow_def ask_jev_def buildInput_def Let_def
  by (intro answer_rules stands_event stands_applyAnswer stands_store assms)

lemma stands_loop:
  assumes "env_keeps p i c" and "\<forall>m \<in> set ms. cm_id m \<noteq> i"
  shows "keeps_answer i c (classify_loop p settings ms n summary)"
  using assms(2)
proof (induction ms arbitrary: n summary)
  case (Cons m ms)
  then have m: "cm_id m \<noteq> i" and ih: "keeps_answer i c (classify_loop p settings ms n' s')" for n' s' by simp_all
  show ?case unfolding classify_loop.simps
  proof (rule stands_call [OF stands_classifyRow [OF assms(1) m]])
    fix outcome
    show "keeps_answer i c (case outcome of
         Out_Classified source _ \<Rightarrow>
           classify_loop p settings ms (if source = Source_Jev then n + 1 else n)
             (summary\<lparr>cs_classified := cs_classified summary + 1,
                      cs_bySource := (cs_bySource summary)(source := cs_bySource summary source + 1)\<rparr>)
       | Out_Failed _ \<Rightarrow> give (summary\<lparr>cs_errors := cs_errors summary + 1\<rparr>)
       | Out_Skipped reason \<Rightarrow>
           if reason = Skip_Cost_Cap then give (summary\<lparr>cs_skipped := Some Cycle_Cost_Cap\<rparr>)
           else classify_loop p settings ms n summary)"
      by (cases outcome) (simp_all add: ih stands_give)
  qed
qed (simp add: stands_give)

text \<open>A message with an answer is no candidate, and none that is read one by one.\<close>

lemma candidate_unanswered:
  assumes "manual_answer i c d" and "m \<in> set (cl_messages d)" and "is_candidate boundary d m"
  shows "cm_id m \<noteq> i"
proof
  assume "cm_id m = i"
  from assms(1) obtain m' where m': "distinct (map cm_id (cl_messages d))" "m' \<in> set (cl_messages d)" "cm_id m' = i"
    "cm_metadata m' ''classSource'' = Some (JStr ''manual'')" by (auto simp: manual_answer_def)
  with assms(2) \<open>cm_id m = i\<close> have "m = m'" by (metis distinct_map inj_on_def)
  with m' assms(3) show False by (simp add: is_candidate_def no_class_source_def)
qed

lemma stands_assess: "env_keeps p i c \<Longrightarrow> keeps_answer i c (assessCircuit p settings)"
  unfolding assessCircuit_def countMonthCalls_def by (intro answer_rules)

lemma stands_session: "env_keeps p i c \<Longrightarrow> keeps_answer i c (recordSessionState p enabled)"
  unfolding recordSessionState_def by (intro answer_rules stands_event) simp_all

lemma stands_found:
  assumes "env_keeps p i c" and "\<And>d. manual_answer i c d \<Longrightarrow> F (q d)" and "\<And>a. F a \<Longrightarrow> keeps_answer i c (f a)"
  shows "keeps_answer i c (call (class_read p q) f)"
  unfolding keeps_answer_def
proof (rule ends_call)
  show "ends (\<lambda>w. manual_answer i c (cw_db w)) (class_read p q) (\<lambda>a w. F a \<and> manual_answer i c (cw_db w)) (\<lambda>w. manual_answer i c (cw_db w))"
    using assms(1,2) by (simp add: ends_def class_read_def class_tick_def env_keeps_def)
  show "ends (\<lambda>w. F a \<and> manual_answer i c (cw_db w)) (f a) (\<lambda>_ w. manual_answer i c (cw_db w)) (\<lambda>w. manual_answer i c (cw_db w))" for a
    by (rule ends_fact, rule assms(3) [unfolded keeps_answer_def])
qed

lemma stands_cycle:
  assumes "env_keeps p i c"
  shows "keeps_answer i c (runCycle p limit)"
proof -
  have loop: "keeps_answer i c (call (listCandidates p boundary n) (\<lambda>candidates.
      if candidates = [] then give (empty_summary\<lparr>cs_skipped := Some Cycle_No_Candidates\<rparr>)
      else classify_loop p settings candidates calls empty_summary))" for boundary n settings calls
    unfolding listCandidates_def
  proof (rule stands_found [OF assms, where F = "\<lambda>ms. \<forall>m \<in> set ms. cm_id m \<noteq> i"])
    fix d assume "manual_answer i c d"
    then show "\<forall>m \<in> set (take (nat n) (sort_key (\<lambda>m. (desc_nulls_last (cm_sentAt m), cm_id m))
        (filter (is_candidate boundary d) (cl_messages d)))). cm_id m \<noteq> i"
      using candidate_unanswered by (fastforce dest: in_set_takeD)
  next
    fix ms :: "class_message list" assume "\<forall>m \<in> set ms. cm_id m \<noteq> i"
    then show "keeps_answer i c (if ms = [] then give (empty_summary\<lparr>cs_skipped := Some Cycle_No_Candidates\<rparr>)
      else classify_loop p settings ms calls empty_summary)" by (simp add: stands_give stands_loop assms)
  qed
  show ?thesis unfolding runCycle_def Let_def countMonthCalls_def readEnabledBoundary_def
    by (intro answer_rules stands_assess stands_session loop assms)
qed

lemma stands_message:
  assumes "env_keeps p i c"
  shows "keeps_answer i c (classifyMessage p j)"
proof -
  let ?found = "\<lambda>d. map_option (\<lambda>m. (m, cl_classifyEnabled d (cm_accountId m))) (find (\<lambda>m. cm_id m = pg_uuid j) (cl_messages d))"
  have row: "keeps_answer i c (call (class_read p ?found) (\<lambda>found.
                case found of
                  None \<Rightarrow> give (Out_Skipped Skip_Not_Found)
                | Some (row, enabled) \<Rightarrow>
                    if hasAnswer row then give (Out_Skipped Skip_Already_Classified)
                    else if \<not> enabled \<or> \<not> cm_fetchedBody row then give (Out_Skipped Skip_Not_Ready)
                    else call (countMonthCalls p) (classifyRow p row settings)))" for settings
  proof (rule stands_found [OF assms, where F = "\<lambda>found. \<forall>row e. found = Some (row, e) \<longrightarrow> cm_id row = i \<longrightarrow> hasAnswer row"])
    fix d assume d: "manual_answer i c d"
    show "\<forall>row e. ?found d = Some (row, e) \<longrightarrow> cm_id row = i \<longrightarrow> hasAnswer row"
    proof (intro allI impI)
      fix row e assume "?found d = Some (row, e)" and i: "cm_id row = i"
      then have "row \<in> set (cl_messages d)" by (auto dest: find_in_set)
      with d i obtain m where "m \<in> set (cl_messages d)" "cm_id m = cm_id row" "distinct (map cm_id (cl_messages d))"
        "cm_metadata m ''classSource'' = Some (JStr ''manual'')" by (auto simp: manual_answer_def)
      with \<open>row \<in> _\<close> have "m = row" by (metis distinct_map inj_on_def)
      with \<open>cm_metadata m _ = _\<close> show "hasAnswer row" by (simp add: hasAnswer_def)
    qed
  next
    fix found :: "(class_message \<times> bool) option" assume F: "\<forall>row e. found = Some (row, e) \<longrightarrow> cm_id row = i \<longrightarrow> hasAnswer row"
    show "keeps_answer i c (case found of
                  None \<Rightarrow> give (Out_Skipped Skip_Not_Found)
                | Some (row, enabled) \<Rightarrow>
                    if hasAnswer row then give (Out_Skipped Skip_Already_Classified)
                    else if \<not> enabled \<or> \<not> cm_fetchedBody row then give (Out_Skipped Skip_Not_Ready)
                    else call (countMonthCalls p) (classifyRow p row settings))"
      unfolding countMonthCalls_def using F by (intro answer_rules stands_classifyRow assms) auto
  qed
  show ?thesis unfolding classifyMessage_def by (intro answer_rules stands_assess row assms)
qed

section \<open>Sequences\<close>

text \<open>A correction as a run: the gate, the read of the message and the transaction, with others between.\<close>

definition correct_run :: "class_ports \<Rightarrow> recovery_controls \<Rightarrow> string option \<Rightarrow> correction_request \<Rightarrow> (correction_fail + correction_result) class_run" where
  "correct_run p rv gen request w =
     (let d1 = kp_env p (cw_time w) (cw_db w); d2 = kp_env p (Suc (cw_time w)) d1;
          n = Suc (Suc (cw_time w))
      in case correct rv gen request (kp_clock p n) (cw_db w) d1 d2 of
           (r, d) \<Rightarrow> (Inr r, w\<lparr>cw_time := Suc n, cw_db := kp_env p n d\<rparr>))"

datatype class_op = Op_Cycle int | Op_Classify string | Op_Correct "string option" correction_request

fun run_class_op :: "class_ports \<Rightarrow> recovery_controls \<Rightarrow> class_op \<Rightarrow> class_world \<Rightarrow> class_world" where
  "run_class_op p rv (Op_Cycle limit) w = snd (runCycle p limit w)"
| "run_class_op p rv (Op_Classify i) w = snd (classifyMessage p i w)"
| "run_class_op p rv (Op_Correct gen request) w = snd (correct_run p rv gen request w)"

fun run_class_ops :: "class_ports \<Rightarrow> recovery_controls \<Rightarrow> class_op list \<Rightarrow> class_world \<Rightarrow> class_world" where
  "run_class_ops p rv [] w = w"
| "run_class_ops p rv (op # ops) w = run_class_ops p rv ops (run_class_op p rv op w)"

text \<open>The owner answers this very message anew.\<close>

fun answers_again :: "uuid \<Rightarrow> class_op \<Rightarrow> bool" where
  "answers_again i (Op_Correct _ request) = (cq_scope request = Scope_Message \<and> pg_uuid (cq_messageId request) = i)"
| "answers_again i _ = False"

lemma correct_effect:
  assumes "snd (correct rv gen request now d0 d1 d) \<noteq> d"
  obtains row nt where "find (\<lambda>m. cm_id m = pg_uuid (cq_messageId request)) (cl_messages d1) = Some row"
    and "snd (correct rv gen request now d0 d1 d) =
      snd (correction_tx now row request (senderAddressOf (cm_sender row)) (ruleNameOf row) (previousAnswerOf row) nt d)"
proof (cases "gateMutation rv gen (cl_hub d0)")
  case (Inl e)
  then show thesis using assms by (simp add: correct_def)
next
  case (Inr g)
  let ?checks = "require (is_uuid (cq_messageId request)) CX_Invalid_Request
                 (require (case cq_classHint request of None \<Rightarrow> True | Some c \<Rightarrow> c \<in> set MESSAGE_CLASSES) CX_Invalid_Request
                 (attempt (normalizeNote (cq_note request)) (\<lambda>nt.
                  case find (\<lambda>m. cm_id m = pg_uuid (cq_messageId request)) (cl_messages d1) of
                    None \<Rightarrow> Inl CX_Not_Found
                  | Some row \<Rightarrow>
                      require (\<not> (cq_scope request = Scope_Rule \<and> ruleNameOf row = None)) CX_Invalid_Request
                      (require (\<not> (cq_scope request = Scope_Sender \<and> senderAddressOf (cm_sender row) = None)) CX_Invalid_Request
                        (Inr (row, nt))))))"
  show thesis
  proof (cases ?checks)
    case (Inl e)
    then show thesis using assms \<open>gateMutation _ _ _ = _\<close> by (simp add: correct_def)
  next
    case ok: (Inr x)
    obtain row nt where x: "x = (row, nt)" by (cases x)
    have "find (\<lambda>m. cm_id m = pg_uuid (cq_messageId request)) (cl_messages d1) = Some row"
      using ok unfolding x by (auto simp: tx_simps split: option.splits)
    moreover have "snd (correct rv gen request now d0 d1 d) =
      snd (correction_tx now row request (senderAddressOf (cm_sender row)) (ruleNameOf row) (previousAnswerOf row) nt d)"
      unfolding correct_def Inr sum.case ok x prod.case Let_def by (simp add: case_prod_beta)
    ultimately show thesis by (rule that)
  qed
qed

lemma manual_correct:
  assumes "manual_answer i c d" and "\<not> (cq_scope request = Scope_Message \<and> pg_uuid (cq_messageId request) = i)"
  shows "manual_answer i c (snd (correct rv gen request now d0 d1 d))"
proof (cases "snd (correct rv gen request now d0 d1 d) = d")
  case False
  then obtain row nt where row: "find (\<lambda>m. cm_id m = pg_uuid (cq_messageId request)) (cl_messages d1) = Some row"
    and tx: "snd (correct rv gen request now d0 d1 d) =
      snd (correction_tx now row request (senderAddressOf (cm_sender row)) (ruleNameOf row) (previousAnswerOf row) nt d)"
    by (rule correct_effect)
  have id: "cm_id row = pg_uuid (cq_messageId request)" using find_in_set [OF row] by simp
  have event: "manual_answer i c (add_class_event e d') \<longleftrightarrow> manual_answer i c d'" for e d'
    by (rule manual_frame) (simp add: add_class_event_def)
  have msg: "manual_answer i c (update_message (cm_id row) (\<lambda>m.
        m\<lparr>cm_classHint := cq_classHint request, cm_metadata := mergeMetadata (cm_metadata row) [(''classSource'', JStr ''manual'')]\<rparr>) d)"
    if "cq_scope request = Scope_Message"
    by (rule manual_other) (use that assms id in auto)
  have sweep: "manual_answer i c (sweep_sender a s h (upsert_override a t h nt d))" for a s t h
  proof (rule manual_update [OF assms(1)])
    show "cl_messages (sweep_sender a s h (upsert_override a t h nt d)) = tbl_update (swept a s)
         (\<lambda>m. m\<lparr>cm_classHint := h, cm_metadata := (cm_metadata m)(''classSource'' \<mapsto> JStr ''override'')\<rparr>) (cl_messages d)"
      by (simp add: sweep_sender_def upsert_override_def Let_def)
  qed (simp_all add: swept_def)
  show ?thesis unfolding tx correction_tx_def Let_def
    by (cases "cq_scope request"; cases "senderAddressOf (cm_sender row)") (simp_all add: event msg sweep assms(1))
qed (use assms in simp)

lemma run_class_op_keeps:
  assumes "env_keeps p i c" and "manual_answer i c (cw_db w)" and "\<not> answers_again i op"
  shows "manual_answer i c (cw_db (run_class_op p rv op w))"
proof (cases op)
  case (Op_Cycle limit)
  from ends_run [OF stands_cycle [OF assms(1), unfolded keeps_answer_def] assms(2), of limit] show ?thesis
    unfolding Op_Cycle by (auto split: prod.splits sum.splits)
next
  case (Op_Classify j)
  from ends_run [OF stands_message [OF assms(1), unfolded keeps_answer_def] assms(2), of j] show ?thesis
    unfolding Op_Classify by (auto split: prod.splits sum.splits)
next
  case (Op_Correct gen request)
  have env: "manual_answer i c (kp_env p n d)" if "manual_answer i c d" for n d using assms(1) that by (simp add: env_keeps_def)
  note m = manual_correct [of i c _ request rv gen, OF env [OF env [OF assms(2)]]]
  show ?thesis using assms(3) env m unfolding Op_Correct
    by (auto simp: correct_run_def Let_def split: prod.split) (metis snd_conv)+
qed

text \<open>
  C38. An answer the owner gave by hand stands: over every sequence of cycles, single classifications and
  corrections, next to other writers that leave it alone, the message keeps its class and its source
  until the owner corrects that message again. No sweep of a sender and no answer of a rule, an override or
  Jev replaces it.
\<close>

theorem manual_answers_stand:
  assumes "env_keeps p i c" and "manual_answer i c (cw_db w)" and "\<forall>op \<in> set ops. \<not> answers_again i op"
  shows "manual_answer i c (cw_db (run_class_ops p rv ops w))"
  using assms(2,3)
proof (induction ops arbitrary: w)
  case (Cons op ops)
  then show ?case using run_class_op_keeps [OF assms(1), of w op rv] by simp
qed simp

definition demo_answered :: class_message where
  "demo_answered =
     \<lparr>cm_id = demo_account, cm_accountId = demo_gen, cm_sender = None, cm_subject = Some ''Your receipt'', cm_sentAt = Some 7,
      cm_fetchedBody = True, cm_classHint = None, cm_asksAction = None, cm_asksReply = None, cm_timeSensitive = None,
      cm_metadata = [''classSource'' \<mapsto> JStr ''manual'']\<rparr>"

definition demo_class :: class_world where
  "demo_class =
     \<lparr>cw_time = 0,
      cw_db = \<lparr>cl_hub = empty_hub, cl_messages = [demo_answered], cl_classifyEnabled = (\<lambda>_. True), cl_overrides = [],
        cl_decisions = [], cl_settings = gs_settings (snd (updateSettings demo_controls (Some demo_gen) demo_patch 5
          demo_settings demo_settings demo_settings)), cl_events = []\<rparr>,
      cw_asked = []\<rparr>"

definition demo_classify :: class_ports where
  "demo_classify =
     \<lparr>kp_env = (\<lambda>_ d. d), kp_clock = (\<lambda>_. 5), kp_adapter = Some (\<lambda>_ _. Inl Jev_Timeout), kp_sha256 = (\<lambda>s. s), kp_htmlToText = (\<lambda>s. s)\<rparr>"

theorem manual_answers_stand_witness:
  "manual_answer demo_account None
     (cw_db (run_class_ops demo_classify demo_controls [Op_Cycle 5, Op_Classify demo_account, Op_Cycle 0] demo_class))"
proof (rule manual_answers_stand)
  show "env_keeps demo_classify demo_account None" by (simp add: env_keeps_def demo_classify_def)
  show "manual_answer demo_account None (cw_db demo_class)" by (simp add: manual_answer_def demo_class_def demo_answered_def)
  show "\<forall>op \<in> set [Op_Cycle 5, Op_Classify demo_account, Op_Cycle 0]. \<not> answers_again demo_account op" by simp
qed

text \<open>
  Nothing guards the write of an answer of Jev: a correction committed after the cycle listed the message is
  overwritten, the class and the source of the owner with it.
\<close>

lemma correction_lost_in_race:
  assumes "manual_answer (cm_id candidate) c d"
  shows "\<not> manual_answer (cm_id candidate) c' (store_decision candidate input decision now d)"
proof
  let ?d = "store_decision candidate input decision now d"
  assume "manual_answer (cm_id candidate) c' ?d"
  then obtain m where m: "m \<in> set (cl_messages ?d)" "cm_id m = cm_id candidate" "cm_metadata m ''classSource'' = Some (JStr ''manual'')"
    by (auto simp: manual_answer_def)
  let ?f = "\<lambda>m. m\<lparr>cm_classHint := Some (ja_classHint (jd_answers decision)), cm_asksAction := Some (ja_asksAction (jd_answers decision)),
         cm_asksReply := Some (ja_asksReply (jd_answers decision)), cm_timeSensitive := Some (ja_timeSensitive (jd_answers decision)),
         cm_metadata := mergeMetadata (cm_metadata candidate)
           [(''classSource'', JStr ''jev''), (''senderRelationship'', JStr (ja_senderRelationship (jd_answers decision)))]\<rparr>"
  have rows: "cl_messages ?d = tbl_update (\<lambda>m. cm_id m = cm_id candidate) ?f (cl_messages d)"
    by (simp add: store_decision_def update_message_def Let_def)
  have jev: "cm_metadata (?f x) ''classSource'' = Some (JStr ''jev'')" for x by (simp add: mergeMetadata_def)
  from m(1) obtain m0 where "m = (if cm_id m0 = cm_id candidate then ?f m0 else m0)" unfolding rows in_tbl_update by blast
  with m(2,3) jev [of m0] show False by (cases "cm_id m0 = cm_id candidate") simp_all
qed

section \<open>The cost of a cycle\<close>

text \<open>The calls a run made since \<open>a\<close>, after \<open>n0\<close> calls of the month: \<open>k\<close> of them, each short, the last within the cap.\<close>

definition spent :: "app_settings \<Rightarrow> (uuid \<times> string) list \<Rightarrow> int \<Rightarrow> nat \<Rightarrow> class_world \<Rightarrow> bool" where
  "spent settings a n0 k w \<longleftrightarrow>
     (\<exists>calls. cw_asked w = a @ calls \<and> length calls = k \<and> list_all (\<lambda>(i, t). length t \<le> MAX_INPUT_CHARS) calls \<and>
       (calls = [] \<or> \<not> cap_reached settings (n0 + int k - 1)))"

lemma spent_same: "cw_asked w' = cw_asked w \<Longrightarrow> spent settings a n0 k w' \<longleftrightarrow> spent settings a n0 k w"
  by (simp add: spent_def)

lemma filled_bound: "length h \<le> n \<Longrightarrow> length (h @ take (n - length h) b) \<le> n"
  by simp

lemma minimize_bound: "length (mi_text (minimizeMessageInput sha sender subject body)) \<le> MAX_INPUT_CHARS"
  unfolding minimizeMessageInput_def Let_def minimized_input.simps
  by (rule filled_bound) (simp add: MAX_INPUT_CHARS_def MAX_SENDER_CHARS_def MAX_SUBJECT_CHARS_def)

text \<open>Nobody else stores decisions.\<close>

definition alone :: "class_ports \<Rightarrow> bool" where
  "alone p \<longleftrightarrow> (\<forall>n d. cl_decisions (kp_env p n d) = cl_decisions d)"

text \<open>Runs that make no call and store no decision.\<close>

definition asks_nothing :: "'a class_run \<Rightarrow> bool" where
  "asks_nothing r \<longleftrightarrow>
     (\<forall>w. cw_asked (snd (r w)) = cw_asked w \<and> cl_decisions (cw_db (snd (r w))) = cl_decisions (cw_db w))"

named_theorems quiet_rules "runs that do not ask the adapter"

lemma quiet_give [quiet_rules]: "asks_nothing (give a)" by (simp add: asks_nothing_def give_def)
lemma quiet_read [quiet_rules]: "alone p \<Longrightarrow> asks_nothing (class_read p q)"
  by (simp add: asks_nothing_def class_read_def class_tick_def alone_def)
lemma quiet_write: "alone p \<Longrightarrow> (\<And>n d. cl_decisions (f n d) = cl_decisions d) \<Longrightarrow> asks_nothing (class_write p f)"
  by (simp add: asks_nothing_def class_write_def class_tick_def alone_def)
lemma quiet_event [quiet_rules]: "alone p \<Longrightarrow> asks_nothing (class_write p (\<lambda>now. add_class_event (e now)))"
  by (rule quiet_write) (simp_all add: add_class_event_def)
lemma quiet_now [quiet_rules]: "(\<And>n. asks_nothing (f n)) \<Longrightarrow> asks_nothing (class_now p f)"
  by (simp add: asks_nothing_def class_now_def)
lemma quiet_call [quiet_rules]: "asks_nothing r \<Longrightarrow> (\<And>a. asks_nothing (f a)) \<Longrightarrow> asks_nothing (call r f)"
  by (simp add: asks_nothing_def call_def split: prod.split sum.split) (metis snd_conv)
lemma quiet_if [quiet_rules]: "(b \<Longrightarrow> asks_nothing r) \<Longrightarrow> (\<not> b \<Longrightarrow> asks_nothing r') \<Longrightarrow> asks_nothing (if b then r else r')" by simp
lemma quiet_option [quiet_rules]:
  "asks_nothing n \<Longrightarrow> (\<And>a. x = Some a \<Longrightarrow> asks_nothing (s a)) \<Longrightarrow> asks_nothing (case x of None \<Rightarrow> n | Some a \<Rightarrow> s a)"
  by (cases x) simp_all
lemma quiet_prod [quiet_rules]: "(\<And>a b. x = (a, b) \<Longrightarrow> asks_nothing (s a b)) \<Longrightarrow> asks_nothing (case x of (a, b) \<Rightarrow> s a b)"
  by (cases x) simp

lemma quiet_spent:
  assumes "asks_nothing r"
  shows "ends (spent settings a n0 k) r (\<lambda>_. spent settings a n0 k) (spent settings a n0 k)"
  unfolding ends_def
proof (intro allI impI)
  fix w assume "spent settings a n0 k w"
  then have "spent settings a n0 k (snd (r w))"
    using assms spent_same [of "snd (r w)" w] by (simp add: asks_nothing_def)
  then show "case r w of (Inl e, w') \<Rightarrow> spent settings a n0 k w' | (Inr b, w') \<Rightarrow> spent settings a n0 k w'"
    by (auto split: prod.split sum.split)
qed

lemma quiet_assess: "alone p \<Longrightarrow> asks_nothing (assessCircuit p settings)"
  unfolding assessCircuit_def countMonthCalls_def by (intro quiet_rules)

lemma quiet_session: "alone p \<Longrightarrow> asks_nothing (recordSessionState p enabled)"
  unfolding recordSessionState_def by (intro quiet_rules)

text \<open>One message costs at most one call, and only an answer or a failure of Jev costs one.\<close>

fun outcome_calls :: "classify_outcome \<Rightarrow> nat" where
  "outcome_calls (Out_Classified source _) = (if source = Source_Jev then 1 else 0)"
| "outcome_calls (Out_Failed _) = 1"
| "outcome_calls (Out_Skipped _) = 0"

lemma ends_give_spent: "ends (spent settings a n0 k) (give v) (\<lambda>v. spent settings a n0 (k + g v)) E" if "g v = 0"
  using that by (simp add: ends_def give_def)

lemma ends_quiet_then:
  assumes "asks_nothing r" and "\<And>x. ends (spent settings a n0 k) (f x) Q (spent settings a n0 k)"
  shows "ends (spent settings a n0 k) (call r f) Q (spent settings a n0 k)"
  by (rule ends_call [OF quiet_spent [OF assms(1)] assms(2)])

lemma spent_ask:
  assumes "\<not> cap_reached settings (n0 + int k)" and "length t \<le> MAX_INPUT_CHARS"
  shows "ends (spent settings a n0 k) (ask_adapter p ask i t) (\<lambda>_. spent settings a n0 (Suc k)) (spent settings a n0 k)"
  using assms by (auto simp: ends_def ask_adapter_def class_tick_def spent_def)

lemma spent_classifyRow:
  assumes "alone p"
  shows "ends (spent settings a n0 k) (classifyRow p m settings (n0 + int k)) (\<lambda>out. spent settings a n0 (k + outcome_calls out))
     (spent settings a n0 k)"
proof -
  have jev: "ends (spent settings a n0 k) (ask_jev p m settings (n0 + int k)) (\<lambda>out. spent settings a n0 (k + outcome_calls out))
      (spent settings a n0 k)"
  proof (cases "cap_reached settings (n0 + int k) \<or> kp_adapter p = None")
    case True
    then show ?thesis by (auto simp: ask_jev_def intro!: ends_give)
  next
    case False
    then obtain ask where ask: "kp_adapter p = Some ask" and cap: "\<not> cap_reached settings (n0 + int k)" by auto
    let ?short = "\<lambda>input. length (mi_text input) \<le> MAX_INPUT_CHARS"
    have asked: "ends (spent settings a n0 k) (buildInput p m) (\<lambda>input w. ?short input \<and> spent settings a n0 k w) (spent settings a n0 k)"
      unfolding buildInput_def Let_def by (rule ends_quiet_then [OF quiet_read [OF assms]]) (rule ends_give, simp add: minimize_bound)
    have stored: "ends (spent settings a n0 (Suc k)) (call (class_write p f) (\<lambda>_. give out))
        (\<lambda>out. spent settings a n0 (k + outcome_calls out)) (spent settings a n0 k)" if "outcome_calls out = 1" for f out
      using that by (simp add: ends_def call_def give_def class_write_def class_tick_def spent_def)
    have after: "ends (spent settings a n0 (Suc k))
        (case answer of
             Inl kind \<Rightarrow> call (class_write p (\<lambda>now. add_class_event (error_event m kind now))) (\<lambda>_. give (Out_Failed kind))
           | Inr decision \<Rightarrow> call (class_write p (store_decision m input decision)) (\<lambda>_.
                 give (Out_Classified Source_Jev (Some (ja_classHint (jd_answers decision))))))
        (\<lambda>out. spent settings a n0 (k + outcome_calls out)) (spent settings a n0 k)" for answer input
      by (cases answer) (simp_all add: stored)
    show ?thesis unfolding ask_jev_def ask using cap
      by (simp, intro ends_call [OF asked] ends_fact ends_call [OF spent_ask [OF cap]] after)
  qed
  have quiet: "ends (spent settings a n0 k) (call r (\<lambda>_. give out)) (\<lambda>out. spent settings a n0 (k + outcome_calls out)) (spent settings a n0 k)"
    if "asks_nothing r" "outcome_calls out = 0" for r out
    using that by (intro ends_quiet_then ends_give) simp_all
  have apply_quiet: "asks_nothing (applyAnswer p m source hint patch)" for source hint patch
    unfolding applyAnswer_def by (rule quiet_write [OF assms]) (simp add: update_message_def)
  have rule_or_jev: "ends (spent settings a n0 k)
      (case x of Some (h, rule) \<Rightarrow> call (applyAnswer p m Source_Rule (Some h) [(''rule'', JStr rule)]) (\<lambda>_.
                      give (Out_Classified Source_Rule (Some h)))
        | None \<Rightarrow> ask_jev p m settings (n0 + int k)) (\<lambda>out. spent settings a n0 (k + outcome_calls out)) (spent settings a n0 k)" for x
    using jev quiet [OF apply_quiet] by (cases x) (auto split: prod.split)
  have overridden: "ends (spent settings a n0 k)
      (case y of Some h \<Rightarrow> call (applyAnswer p m Source_Override h []) (\<lambda>_. give (Out_Classified Source_Override h))
        | None \<Rightarrow> (case x of Some (h, rule) \<Rightarrow> call (applyAnswer p m Source_Rule (Some h) [(''rule'', JStr rule)]) (\<lambda>_.
                      give (Out_Classified Source_Rule (Some h)))
            | None \<Rightarrow> ask_jev p m settings (n0 + int k))) (\<lambda>out. spent settings a n0 (k + outcome_calls out)) (spent settings a n0 k)" for x y
    using rule_or_jev quiet [OF apply_quiet] by (cases y) auto
  show ?thesis unfolding classifyRow_def
    by (intro ends_quiet_then quiet_read [OF assms] ends_if quiet apply_quiet overridden) simp_all
qed

definition spent_within :: "app_settings \<Rightarrow> (uuid \<times> string) list \<Rightarrow> int \<Rightarrow> nat \<Rightarrow> class_world \<Rightarrow> bool" where
  "spent_within settings a n0 bound w \<longleftrightarrow> (\<exists>k \<le> bound. spent settings a n0 k w)"

lemma within_mono: "spent_within settings a n0 b w \<Longrightarrow> b \<le> b' \<Longrightarrow> spent_within settings a n0 b' w"
  unfolding spent_within_def by (meson order_trans)

lemma spent_loop:
  assumes "alone p"
  shows "ends (spent settings a n0 k) (classify_loop p settings ms (n0 + int k) summary)
     (\<lambda>_. spent_within settings a n0 (k + length ms)) (spent_within settings a n0 (k + length ms))"
proof (induction ms arbitrary: k summary)
  case Nil
  then show ?case by (simp add: ends_def give_def spent_within_def) blast
next
  case (Cons m ms)
  have wide: "spent settings a n0 j w \<Longrightarrow> j \<le> Suc k \<Longrightarrow> spent_within settings a n0 (Suc (k + length ms)) w" for j w
    unfolding spent_within_def by (rule exI [of _ j]) simp
  have ih: "ends (spent settings a n0 j) (classify_loop p settings ms n s)
     (\<lambda>_. spent_within settings a n0 (Suc (k + length ms))) (spent_within settings a n0 (Suc (k + length ms)))"
    if "j \<le> Suc k" "n = n0 + int j" for j n s
    unfolding that(2)
    by (rule ends_weaken [OF Cons.IH]) (use that(1) in \<open>simp_all add: within_mono [where b = "j + length ms"]\<close>)
  have row: "ends (spent settings a n0 k) (classifyRow p m settings (n0 + int k))
      (\<lambda>out. spent settings a n0 (k + outcome_calls out)) (spent_within settings a n0 (Suc (k + length ms)))"
    by (rule ends_weaken [OF spent_classifyRow [OF assms]], assumption, assumption) (rule wide, assumption, simp)
  have "ends (spent settings a n0 k) (classify_loop p settings (m # ms) (n0 + int k) summary)
     (\<lambda>_. spent_within settings a n0 (Suc (k + length ms))) (spent_within settings a n0 (Suc (k + length ms)))"
    unfolding classify_loop.simps
  proof (rule ends_call [OF row])
    fix out
    show "ends (spent settings a n0 (k + outcome_calls out))
        (case out of
           Out_Classified source _ \<Rightarrow>
             classify_loop p settings ms (if source = Source_Jev then n0 + int k + 1 else n0 + int k)
               (summary\<lparr>cs_classified := cs_classified summary + 1,
                        cs_bySource := (cs_bySource summary)(source := cs_bySource summary source + 1)\<rparr>)
         | Out_Failed _ \<Rightarrow> give (summary\<lparr>cs_errors := cs_errors summary + 1\<rparr>)
         | Out_Skipped reason \<Rightarrow>
             if reason = Skip_Cost_Cap then give (summary\<lparr>cs_skipped := Some Cycle_Cost_Cap\<rparr>)
             else classify_loop p settings ms (n0 + int k) summary)
        (\<lambda>_. spent_within settings a n0 (Suc (k + length ms))) (spent_within settings a n0 (Suc (k + length ms)))"
      by (cases out) (auto intro: wide intro!: ends_give ih)
  qed
  then show ?case by simp
qed

text \<open>A run before the loop: nothing asked yet, the decisions as they were.\<close>

definition fresh :: "(uuid \<times> string) list \<Rightarrow> decision_row list \<Rightarrow> class_world \<Rightarrow> bool" where
  "fresh a D w \<longleftrightarrow> cw_asked w = a \<and> cl_decisions (cw_db w) = D"

lemma quiet_fresh:
  assumes "asks_nothing r"
  shows "ends (fresh a D) r (\<lambda>_. fresh a D) (fresh a D)"
  unfolding ends_def
proof (intro allI impI)
  fix w assume "fresh a D w"
  then have "fresh a D (snd (r w))" using assms by (simp add: asks_nothing_def fresh_def)
  then show "case r w of (Inl e, w') \<Rightarrow> fresh a D w' | (Inr b, w') \<Rightarrow> fresh a D w'"
    by (auto split: prod.split sum.split)
qed

lemma ends_fresh:
  assumes "asks_nothing r" and "\<And>x. ends (fresh a D) (f x) Q E" and "\<And>w. fresh a D w \<Longrightarrow> E w"
  shows "ends (fresh a D) (call r f) Q E"
  by (rule ends_call [OF _ assms(2)], rule ends_weaken [OF quiet_fresh [OF assms(1)]]) (rule assms(3) | assumption)+

definition month_calls :: "millis \<Rightarrow> decision_row list \<Rightarrow> int" where
  "month_calls start D = int (length (filter (\<lambda>r. start \<le> de_createdAt r) D))"

lemma count_fresh:
  assumes "alone p" and "\<And>n. month_start (kp_clock p n) = start"
  shows "ends (fresh a D) (countMonthCalls p) (\<lambda>n w. n = month_calls start D \<and> fresh a D w) E"
  using assms by (simp add: ends_def countMonthCalls_def class_now_def class_read_def class_tick_def fresh_def month_calls_def alone_def)

lemma list_fresh:
  assumes "alone p"
  shows "ends (fresh a D) (listCandidates p boundary limit) (\<lambda>ms w. length ms \<le> nat limit \<and> fresh a D w) E"
  using assms by (simp add: ends_def listCandidates_def class_read_def class_tick_def fresh_def alone_def)

lemma spent_fresh: "fresh a D w \<Longrightarrow> spent settings a n0 0 w"
  by (simp add: fresh_def spent_def)

lemma fresh_within: "fresh a D w \<Longrightarrow> spent_within settings a n0 b w"
  unfolding spent_within_def by (rule exI [of _ 0]) (simp add: spent_fresh)

definition batch_limit :: "int \<Rightarrow> int" where
  "batch_limit limit = (if limit < 1 then DEFAULT_CLASSIFY_BATCH_LIMIT else limit)"

text \<open>A cycle with the settings it read.\<close>

definition cycle_with :: "class_ports \<Rightarrow> int \<Rightarrow> app_settings \<Rightarrow> cycle_summary class_run" where
  "cycle_with p limit settings =
     (if \<not> as_classificationEnabled settings then
        call (recordSessionState p False) (\<lambda>_. give (empty_summary\<lparr>cs_skipped := Some Cycle_Disabled\<rparr>))
      else if kp_adapter p = None then give (empty_summary\<lparr>cs_skipped := Some Cycle_Not_Configured\<rparr>)
      else
        call (recordSessionState p True) (\<lambda>_.
        call (assessCircuit p settings) (\<lambda>(_, reason).
          if reason = Some Reason_Errors then give (empty_summary\<lparr>cs_skipped := Some Cycle_Circuit_Open\<rparr>)
          else
            call (countMonthCalls p) (\<lambda>monthCalls.
              if reason = Some Reason_Cost_Cap then give (empty_summary\<lparr>cs_skipped := Some Cycle_Cost_Cap\<rparr>)
              else
                call (if as_backfillClassification settings then give None else readEnabledBoundary p) (\<lambda>boundary.
                call (listCandidates p boundary (batch_limit limit)) (\<lambda>candidates.
                  if candidates = [] then give (empty_summary\<lparr>cs_skipped := Some Cycle_No_Candidates\<rparr>)
                  else classify_loop p settings candidates monthCalls empty_summary))))))"

lemma runCycle_call:
  "runCycle p limit = call (class_read p (\<lambda>d. readSettings (cl_settings d))) (\<lambda>settings. cycle_with p limit settings)"
  unfolding runCycle_def cycle_with_def batch_limit_def Let_def by (rule refl)

lemma runCycle_with:
  "runCycle p limit w = cycle_with p limit (readSettings (cl_settings (cw_db w))) (class_tick p (cw_db w) w)"
  by (simp add: runCycle_call call_def class_read_def)

lemma cycle_fresh:
  assumes "alone p" and "\<And>n. month_start (kp_clock p n) = start"
  shows "ends (fresh a D) (cycle_with p limit settings)
     (\<lambda>_ w. (cw_asked w = a \<or> as_classificationEnabled settings) \<and> spent_within settings a (month_calls start D) (nat (batch_limit limit)) w)
     (\<lambda>w. (cw_asked w = a \<or> as_classificationEnabled settings) \<and> spent_within settings a (month_calls start D) (nat (batch_limit limit)) w)"
    (is "ends _ _ (\<lambda>_. ?Q) _")
proof -
  let ?n0 = "month_calls start D"
  have stays: "?Q w" if "fresh a D w" for w using that fresh_within [OF that] by (simp add: fresh_def)
  have stop: "ends (fresh a D) (give x) (\<lambda>_. ?Q) ?Q" for x by (rule ends_give) (rule stays)
  show ?thesis
  proof (cases "as_classificationEnabled settings")
    case on: True
    have loop: "ends (fresh a D) (if ms = [] then give x else classify_loop p settings ms ?n0 empty_summary) (\<lambda>_. ?Q) ?Q"
      if "length ms \<le> nat (batch_limit limit)" for ms x
    proof (cases "ms = []")
      case False
      have "ends (spent settings a ?n0 0) (classify_loop p settings ms ?n0 empty_summary)
          (\<lambda>_. spent_within settings a ?n0 (length ms)) (spent_within settings a ?n0 (length ms))"
        using spent_loop [OF assms(1), of settings a ?n0 0 ms empty_summary] by simp
      from ends_weaken [OF this] have "ends (fresh a D) (classify_loop p settings ms ?n0 empty_summary) (\<lambda>_. ?Q) ?Q"
        using on that by (simp add: spent_fresh within_mono)
      with False show ?thesis by simp
    qed (simp add: stop)
    have boundary: "asks_nothing (if b then give None else readEnabledBoundary p)" for b
      unfolding readEnabledBoundary_def by (intro quiet_rules assms(1))
    have batch: "ends (fresh a D) (call (listCandidates p b (batch_limit limit)) (\<lambda>ms.
        if ms = [] then give x else classify_loop p settings ms ?n0 empty_summary)) (\<lambda>_. ?Q) ?Q" for b x
      by (rule ends_call [OF list_fresh [OF assms(1)]]) (rule ends_fact, rule loop)
    have counted: "ends (fresh a D) (call (countMonthCalls p) (\<lambda>n.
        if capped then give x
        else call (if b then give None else readEnabledBoundary p) (\<lambda>boundary.
             call (listCandidates p boundary (batch_limit limit)) (\<lambda>ms.
               if ms = [] then give y else classify_loop p settings ms n empty_summary)))) (\<lambda>_. ?Q) ?Q" for capped b x y
      by (rule ends_call [OF count_fresh [OF assms]], rule ends_fact)
        (simp only:, intro ends_if stop ends_fresh [OF boundary batch stays])
    have assessed: "ends (fresh a D) (case x of (_, reason) \<Rightarrow>
        if reason = Some Reason_Errors then give (empty_summary\<lparr>cs_skipped := Some Cycle_Circuit_Open\<rparr>)
          else
            call (countMonthCalls p) (\<lambda>monthCalls.
              if reason = Some Reason_Cost_Cap then give (empty_summary\<lparr>cs_skipped := Some Cycle_Cost_Cap\<rparr>)
              else
                call (if as_backfillClassification settings then give None else readEnabledBoundary p) (\<lambda>boundary.
                call (listCandidates p boundary (batch_limit limit)) (\<lambda>candidates.
                  if candidates = [] then give (empty_summary\<lparr>cs_skipped := Some Cycle_No_Candidates\<rparr>)
                  else classify_loop p settings candidates monthCalls empty_summary)))) (\<lambda>_. ?Q) ?Q" for x :: "circuit \<times> circuit_reason option"
      by (cases x) (simp only: prod.case, intro ends_if stop counted)
    show ?thesis unfolding cycle_with_def
      by (intro ends_if stop ends_fresh [OF quiet_session [OF assms(1)] _ stays]
          ends_fresh [OF quiet_assess [OF assms(1)] assessed stays])
  next
    case False
    then show ?thesis unfolding cycle_with_def
      by (intro ends_if) (rule ends_fresh [OF quiet_session [OF assms(1)] stop stays], simp_all)
  qed
qed



end
