(* ===== verification/Spec2Isabelle.thy ===== *)
theory Spec2Isabelle
  imports Send_Properties Action_Restore Autosave_Properties Offline_Server Sync_Properties Sync_Thread_Properties
    Auth_Properties Search_Properties Class_Properties
begin

text \<open>
  A verification development for the personal mail hub: the services behind \<open>src/packages\<close> that own every
  durable change of mail data, and what they promise. Every service works on one PostgreSQL database, the
  record \<open>hub\<close> of \<open>Hub_Schema\<close>, with one table as a list of rows. A handler is a function from the tables
  to a result or an error and the tables after it; a transaction that fails leaves them alone
  (\<open>run_tx\<close>). Between two awaits of a handler other writers may commit: a run takes what they do as an
  argument (\<open>cx_rely\<close>, the \<open>_rely\<close> fields of the port records), and the properties hold for every such
  argument, or for every one that keeps the same invariant, as each of them says.

  \<^bold>\<open>How the parts interact.\<close> The recovery control row decides whether a mutation may run
  (\<open>gateMutation\<close>); compose, send, actions, search, settings, corrections and authentication ask it
  first, and jobs ask it again before a side effect (\<open>assessJob\<close>). Compose owns drafts and uploads; send locks a draft, freezes a
  snapshot of it, submits the snapshot and releases the lock, and inserts the sent message into the
  mirror. Synchronization fills the mirror of folders, occurrences and messages, marks rows for thread
  linking and links them. Actions freeze occurrences of the mirror and write their flags and moves back.
  Search reads the mirror; classification reads settings and writes suggestions beside it. The offline client queues saves, sends and actions on the device and replays
  them against the same services; the autosaver of the browser feeds draft updates.

  \<^bold>\<open>The base.\<close> \<open>Hub_Prelude\<close>: strings, tables, transactions and the interface \<open>row_claim\<close> of
  compare-and-set updates, interpreted on the three claims of the services. \<open>Hub_Runs\<close>: runs of handlers
  with a partial-correctness rule per construct. \<open>Hub_Schema\<close>, \<open>Auth_Tables\<close>: \<open>packages/database/src/schema.ts\<close>.
  \<open>Hub_Errors\<close>: the \<open>errors.ts\<close> files.

  \<^bold>\<open>Recovery\<close> (\<open>packages/recovery/src\<close>). \<open>Recovery_Status\<close> models \<open>status.ts\<close> and \<open>wait.ts\<close> and states the
  interface \<open>mutation_gate\<close>; \<open>Recovery_Controls\<close> models \<open>controls.ts\<close>, interprets the interface, and shows
  when a recovery completes and that a restored service becomes ready in no other way.

  \<^bold>\<open>Compose\<close> (\<open>packages/compose/src\<close>). \<open>Compose_Validation\<close>, \<open>Compose_Reply\<close>: \<open>validation.ts\<close>, \<open>reply.ts\<close>.
  \<open>Compose_Drafts\<close>, \<open>Compose_Uploads\<close>: every operation of \<open>service.ts\<close>. \<open>Compose_Safety\<close>: locked drafts
  are frozen, no update is lost, the attachment budget holds. \<open>Autosave\<close>, \<open>Autosave_Properties\<close>:
  \<open>autosave.ts\<close> as a state machine over calls, timer firings and answers; no edit is lost.

  \<^bold>\<open>Send\<close> (\<open>packages/send/src\<close>). \<open>Send_Model\<close>: ports and pure functions. \<open>Send_Store\<close>: the single
  transactions. \<open>Send_Queue\<close>, \<open>Send_Submit\<close>, \<open>Send_Copies\<close>: the handlers of \<open>service.ts\<close>. \<open>Send_Steps\<close>:
  the abstract transition system, one step per transaction. \<open>Send_System\<close>: its invariants by rule
  induction, at most one submission among them. \<open>Send_Runs\<close>: every handler refines it.
  \<open>Send_Properties\<close>: single calls.

  \<^bold>\<open>Actions\<close> (\<open>packages/actions/src\<close>). \<open>Action_Kinds\<close>, \<open>Action_Executor\<close>, \<open>Action_Service\<close>: \<open>kinds.ts\<close>, the
  two-way executor against a mailbox that may answer anything, and \<open>service.ts\<close>. The interface
  \<open>action_executor\<close> is interpreted on \<open>twoWayApply\<close>. \<open>Action_Runs\<close>, \<open>Action_Safety\<close>, \<open>Action_Once\<close>,
  \<open>Action_Properties\<close>, \<open>Action_Contracts\<close>, \<open>Action_Restore\<close>: receipts are final and honest, writes are
  frozen requests only, no message is moved twice, executions complete. \<open>Action_Demo\<close>: a concrete account.

  \<^bold>\<open>Offline client\<close> (\<open>packages/offline/src\<close>, \<open>apps/web/src/offline/port.ts\<close>). \<open>Offline_Store\<close>,
  \<open>Offline_Sync\<close>, \<open>Offline_Port\<close>: the operations. \<open>Offline_Properties\<close>, \<open>Offline_Chain\<close>,
  \<open>Offline_Contracts\<close>: the replay order, the refinement of a pass against the server's revision rule, and
  what a choice in the review list does.

  \<^bold>\<open>Synchronization\<close> (\<open>packages/sync/src\<close>). \<open>Sync_World\<close>, \<open>Sync_Store\<close>, \<open>Sync_Backfill\<close>, \<open>Sync_Steady\<close>,
  \<open>Sync_Reconcile\<close>, \<open>Sync_Runner\<close>: the operations up to the cycle of one folder. \<open>Sync_Mirror\<close> states the
  abstract specification, a server history that obeys the IMAP rules on UIDs and what the rows of a folder
  promise about it; \<open>Sync_Commits\<close>, \<open>Sync_Kept\<close>, \<open>Sync_Runs\<close>, \<open>Sync_Polls\<close> carry it through every
  transaction, run and loop; \<open>Sync_Scan\<close>, \<open>Sync_Budget\<close> hold the walks and the budget, \<open>Sync_Properties\<close>
  the properties. \<open>Sync_Threads\<close> models \<open>threads.ts\<close>; \<open>Sync_Chains\<close>, \<open>Sync_Linking\<close>,
  \<open>Sync_Thread_Properties\<close> show that resolving a row keeps the links free of cycles and the replies together.

  \<^bold>\<open>Authentication\<close> (\<open>packages/auth/src\<close>). \<open>Auth_State\<close>: \<open>state.ts\<close>, \<open>tokens.ts\<close>, \<open>config.ts\<close>.
  \<open>Auth_Service\<close>, \<open>Auth_Operations\<close>: the operations of \<open>service.ts\<close> and \<open>console.ts\<close>, with the parts of a
  ceremony they share. \<open>Auth_Encoding\<close>: the base64url and identifier encodings and their round trip.
  \<open>Auth_Requests\<close>: sequences of requests and operator commands, and the interfaces \<open>auth_relation\<close>,
  \<open>auth_service_relation\<close>, \<open>auth_console_relation\<close>, each extending the one before, for what every
  transaction follows; \<open>Auth_Moves\<close> and \<open>Auth_Passkeys\<close> interpret them. \<open>Auth_Properties\<close>: logins, the
  last passkey, and the lock-out of restored authentication.

  \<^bold>\<open>Search\<close> (\<open>packages/search/src\<close>). \<open>Search_Query\<close>: the query language with the calendar of
  ECMAScript; \<open>Search_Dates\<close>: which dates it accepts. \<open>Search_Match\<close>: \<open>LIKE\<close> and the address patterns.
  \<open>Search_Service\<close>: conditions, pages, hits and saved searches. \<open>Search_Properties\<close>: domain filters select
  exactly, pages partition the matches, saved searches can always be run.

  \<^bold>\<open>Settings and classification\<close> (\<open>packages/settings/src\<close>, \<open>packages/classification/src\<close>).
  \<open>Settings_Service\<close>: reading over the defaults and the update, which reads back what it returned.
  \<open>Class_Rules\<close>: the deterministic rules and the minimized input, with the patterns as functions on the text.
  \<open>Class_Service\<close>: the cycle, the single classification, the breaker and the cost cap; \<open>Class_Corrections\<close>:
  the owner's corrections. \<open>Class_Properties\<close>: when the breaker opens, that answers given by hand stand, and
  what a cycle may spend; and the breaker that closes early and the correction a running cycle overwrites.

  \<^bold>\<open>Bounds and fuel.\<close> Strings are code units below 256. The keyset walks of polls and inventories read at
  most \<open>sp_maxPages\<close> pages and raise \<open>SE_Out_Of_Fuel\<close> then; \<open>absent_walk_returns\<close> shows that as many pages
  as the folder has rows are enough, and the other walks carry the same counter. The backfill loop of a cycle
  runs on its batch budget, as in the code. The walk for thread cycles is a \<open>partial_function\<close> whose value
  None would be a loop; with the code's depth bound it always answers on chains that end, and the root
  walk has one step more than that bound. The polling loops of jobs run over the list of states they
  observe. Everything else is structural recursion or has a measure.

  \<^bold>\<open>Parameters.\<close> SMTP, IMAP sessions, MIME composition and parsing, the object store, hashing, random
  identifiers, WebAuthn verification, the answers of Jev, compatibility normalisation of Unicode and
  PostgreSQL's text search are record fields of functions; what a property relies on of them is a named
  hypothesis.

  \<^bold>\<open>Not modelled.\<close> Ingestion and reading (calls into mailparser, postal-mime, DOMPurify and views of stored
  mail), home (ranking of view data), the HTTP client of Jev and the evaluation report of classification,
  accounts (credential encryption), transport and the IMAP session (sockets and third-party clients),
  object storage files, the API, worker, admin and web applications around the services, observability,
  and the protocol test harness. Of an account's cycle the loop over folders, the body
  jobs and the status event are left out; of the schema the tables only those parts use.
\<close>

end
